(* ===== verification/Prelude.thy ===== *)
theory Prelude
  imports "HOL-Library.Word"
begin

text \<open>
  What every component of the library shares: the outcome type that stands for the
  ways a call of a C function of ToolBOSLib can end, the \<^verbatim>\<open>ANY_REQUIRE\<close> macro, and
  the generic lemmas about them.

  A call ends in one of four ways.
  \<^item> \<open>Ok x\<close>: it returns, and \<open>x\<close> holds the result and the new state.
  \<^item> \<open>Require\<close>: an \<^verbatim>\<open>ANY_REQUIRE\<close> failed. Such a macro logs a message and ends the
    process (src/src/Any.h), so nothing after it runs.
  \<^item> \<open>Fault\<close>: the code accesses memory that is not there (a null pointer, a released
    block, an index outside of an array).
  \<^item> \<open>Stuck\<close>: the call never returns (a lock that nobody will release, a loop
    that does not end).
\<close>

named_theorems outcome_simps "evaluation of the outcome combinators"

datatype 'a outcome = Ok 'a | Require | Fault | Stuck

primrec obind :: "'a outcome \<Rightarrow> ('a \<Rightarrow> 'b outcome) \<Rightarrow> 'b outcome" where
  "obind (Ok x) k = k x"
| "obind Require k = Require"
| "obind Fault k = Fault"
| "obind Stuck k = Stuck"

text \<open>\<^verbatim>\<open>ANY_REQUIRE( c ); k\<close>\<close>

definition ANY_REQUIRE :: "bool \<Rightarrow> 'a outcome \<Rightarrow> 'a outcome" where
  "ANY_REQUIRE c k = (if c then k else Require)"

text \<open>An access that is only defined where \<open>c\<close> holds.\<close>

definition defined_if :: "bool \<Rightarrow> 'a outcome \<Rightarrow> 'a outcome" where
  "defined_if c k = (if c then k else Fault)"

definition omap :: "('a \<Rightarrow> 'b) \<Rightarrow> 'a outcome \<Rightarrow> 'b outcome" where
  "omap f m = obind m (\<lambda>x. Ok (f x))"

definition returns :: "'a outcome \<Rightarrow> bool" where
  "returns m = (case m of Ok _ \<Rightarrow> True | _ \<Rightarrow> False)"

definition the_ok :: "'a outcome \<Rightarrow> 'a" where
  "the_ok m = (case m of Ok x \<Rightarrow> x | _ \<Rightarrow> undefined)"

lemma ANY_REQUIRE_simps [simp, outcome_simps]:
  "ANY_REQUIRE True k = k"
  "ANY_REQUIRE False k = Require"
  by (simp_all add: ANY_REQUIRE_def)

lemma defined_if_simps [simp, outcome_simps]:
  "defined_if True k = k"
  "defined_if False k = Fault"
  by (simp_all add: defined_if_def)

lemma omap_simps [simp, outcome_simps]:
  "omap f (Ok x) = Ok (f x)"
  "omap f Require = Require"
  "omap f Fault = Fault"
  "omap f Stuck = Stuck"
  by (simp_all add: omap_def)

lemma returns_simps [simp, outcome_simps]:
  "returns (Ok x) = True"
  "returns Require = False"
  "returns Fault = False"
  "returns Stuck = False"
  by (simp_all add: returns_def)

lemma the_ok_Ok [simp, outcome_simps]: "the_ok (Ok x) = x"
  by (simp add: the_ok_def)

lemma returns_iff: "returns m \<longleftrightarrow> (\<exists>x. m = Ok x)"
  by (cases m) simp_all

lemma obind_assoc: "obind (obind m f) g = obind m (\<lambda>x. obind (f x) g)"
  by (cases m) simp_all

lemma obind_Ok_iff: "obind m k = Ok y \<longleftrightarrow> (\<exists>x. m = Ok x \<and> k x = Ok y)"
  by (cases m) simp_all

lemma obind_OkE [elim]:
  assumes "obind m k = Ok y"
  obtains x where "m = Ok x" "k x = Ok y"
  using assms by (auto simp: obind_Ok_iff)

lemma ANY_REQUIRE_Ok_iff: "ANY_REQUIRE c k = Ok y \<longleftrightarrow> c \<and> k = Ok y"
  by (simp add: ANY_REQUIRE_def)

lemma defined_if_Ok_iff: "defined_if c k = Ok y \<longleftrightarrow> c \<and> k = Ok y"
  by (simp add: defined_if_def)

lemma obind_cong [fundef_cong]:
  assumes "m = m'" and "\<And>x. m' = Ok x \<Longrightarrow> k x = k' x"
  shows "obind m k = obind m' k'"
  using assms by (cases m') simp_all

subsection \<open>Objects owned through a pointer\<close>

text \<open>
  A C object is reached through a pointer of its owner. The pointer is null, points to
  the object, or dangles: the object has been released and the pointer was not reset.
  A budget (a number) stands for the allocations that still succeed; when it is 0
  \<^verbatim>\<open>calloc\<close> returns the null pointer. \<^verbatim>\<open>ANY_TALLOC\<close> zeroes the block it returns.
\<close>

datatype 'a owned = Null | Dangling | Own 'a

definition ANY_TALLOC :: "'a \<Rightarrow> nat \<Rightarrow> 'a owned \<times> nat" where
  "ANY_TALLOC zero n = (if n = 0 then (Null, 0) else (Own zero, n - 1))"

text \<open>\<^verbatim>\<open>free()\<close>: the null pointer is accepted, a released block is not.\<close>

fun ANY_FREE :: "'a owned \<Rightarrow> 'a owned outcome" where
  "ANY_FREE Null = Ok Null"
| "ANY_FREE Dangling = Fault"
| "ANY_FREE (Own x) = Ok Dangling"

text \<open>\<^verbatim>\<open>ANY_REQUIRE( self )\<close> followed by accesses to \<^verbatim>\<open>*self\<close>.\<close>

fun require_ptr :: "'a owned \<Rightarrow> ('a \<Rightarrow> 'b outcome) \<Rightarrow> 'b outcome" where
  "require_ptr Null k = Require"
| "require_ptr Dangling k = Fault"
| "require_ptr (Own x) k = k x"

text \<open>Accesses to \<^verbatim>\<open>*self\<close> without a check.\<close>

fun deref :: "'a owned \<Rightarrow> ('a \<Rightarrow> 'b outcome) \<Rightarrow> 'b outcome" where
  "deref (Own x) k = k x"
| "deref _ k = Fault"

lemma ANY_TALLOC_simps [simp]:
  "ANY_TALLOC zero 0 = (Null, 0)"
  "0 < n \<Longrightarrow> ANY_TALLOC zero n = (Own zero, n - 1)"
  "ANY_TALLOC zero (Suc n) = (Own zero, n)"
  by (simp_all add: ANY_TALLOC_def)

lemma require_ptr_Ok_iff: "require_ptr p k = Ok y \<longleftrightarrow> (\<exists>x. p = Own x \<and> k x = Ok y)"
  by (cases p) simp_all

lemma deref_Ok_iff: "deref p k = Ok y \<longleftrightarrow> (\<exists>x. p = Own x \<and> k x = Ok y)"
  by (cases p) simp_all

lemmas outcome_Ok_iffs =
  obind_Ok_iff ANY_REQUIRE_Ok_iff defined_if_Ok_iff require_ptr_Ok_iff deref_Ok_iff

subsection \<open>Machine words\<close>

type_synonym ulong = "64 word"
type_synonym uint32 = "32 word"
type_synonym byte = "8 word"

text \<open>Two's complement: the value an \<open>n\<close>-bit signed C variable holds after an
  assignment of the mathematical integer \<open>i\<close>.\<close>

definition wrap32 :: "int \<Rightarrow> int" where
  "wrap32 i = signed_take_bit 31 i"

definition fits32 :: "int \<Rightarrow> bool" where
  "fits32 i \<longleftrightarrow> - (2 ^ 31) \<le> i \<and> i < 2 ^ 31"

lemma wrap32_id [simp]: "fits32 i \<Longrightarrow> wrap32 i = i"
  by (simp add: wrap32_def fits32_def signed_take_bit_int_eq_self)

lemma fits32_wrap32 [simp]: "fits32 (wrap32 i)"
  using signed_take_bit_int_greater_eq_minus_exp [of 31 i] signed_take_bit_int_less_exp [of 31 i]
  by (simp add: wrap32_def fits32_def)

subsection \<open>Lists\<close>

fun find_first :: "('a \<Rightarrow> bool) \<Rightarrow> 'a list \<Rightarrow> 'a option" where
  "find_first P [] = None"
| "find_first P (x # xs) = (if P x then Some x else find_first P xs)"

fun remove_first :: "('a \<Rightarrow> bool) \<Rightarrow> 'a list \<Rightarrow> 'a list" where
  "remove_first P [] = []"
| "remove_first P (x # xs) = (if P x then xs else x # remove_first P xs)"

lemma upto_all: "list_all P [0..<n] \<Longrightarrow> i < n \<Longrightarrow> P i"
  by (simp add: list_all_iff)

lemma find_first_None_iff: "find_first P xs = None \<longleftrightarrow> (\<forall>x \<in> set xs. \<not> P x)"
  by (induction xs) auto

lemma find_first_SomeD: "find_first P xs = Some x \<Longrightarrow> x \<in> set xs \<and> P x"
  by (induction xs) (auto split: if_splits)

lemma remove_first_id: "(\<forall>x \<in> set xs. \<not> P x) \<Longrightarrow> remove_first P xs = xs"
  by (induction xs) auto

lemma remove_first_append:
  "(\<forall>x \<in> set as. \<not> P x) \<Longrightarrow> P b \<Longrightarrow> remove_first P (as @ b # bs) = as @ bs"
  by (induction as) auto

lemma length_remove_first:
  "(\<exists>x \<in> set xs. P x) \<Longrightarrow> Suc (length (remove_first P xs)) = length xs"
  by (induction xs) auto

lemma find_first_split:
  assumes "find_first P xs = Some b"
  obtains as bs where "xs = as @ b # bs" "\<forall>x \<in> set as. \<not> P x" "P b"
  using assms
proof (induction xs arbitrary: thesis)
  case (Cons x xs)
  show ?case
  proof (cases "P x")
    case True
    with Cons.prems show ?thesis by (metis append_Nil empty_iff find_first.simps(2) list.set(1) option.inject)
  next
    case False
    with Cons obtain as bs where "xs = as @ b # bs" "\<forall>x \<in> set as. \<not> P x" "P b"
      by (auto split: if_splits)
    with False show ?thesis by (intro Cons.prems(1) [of "x # as" bs]) auto
  qed
qed simp

end
