(* ===== verification/Heap_Model.thy ===== *)
theory Heap_Model
  imports Prelude
begin

text \<open>
  The blocks of one type that the code links with pointers (the elements of a list, of
  a queue): a map from addresses to blocks. Address 0 is the null pointer, \<open>brk\<close> the
  next address \<^verbatim>\<open>calloc\<close> returns. An address is never returned twice, so a released
  block stays released and every access to it is a fault.

  \<open>lseg nxt cs p xs q\<close> says that following \<open>nxt\<close> from \<open>p\<close> visits the
  addresses \<open>xs\<close> and arrives at \<open>q\<close>; the lemmas below (frame, append, uniqueness,
  distinctness, bound) are what the linked components rest on. The bound gives their
  loops enough fuel: a null terminated chain is shorter than \<open>brk\<close>.
\<close>

named_theorems heap_simps "evaluation of the heap operations"

record 'c heap =
  cells :: "nat \<rightharpoonup> 'c"
  brk :: nat

definition empty_heap :: "'c heap" where
  "empty_heap = \<lparr>cells = Map.empty, brk = 1\<rparr>"

definition heap_ok :: "'c heap \<Rightarrow> bool" where
  "heap_ok h \<longleftrightarrow> 0 < brk h \<and> (\<forall>p \<in> dom (cells h). 0 < p \<and> p < brk h)"

text \<open>\<^verbatim>\<open>ANY_TALLOC\<close> on a linked block: the address (0 when the budget is used up), the
  heap and the budget that is left.\<close>

definition halloc :: "'c \<Rightarrow> 'c heap \<Rightarrow> nat \<Rightarrow> nat \<times> 'c heap \<times> nat" where
  "halloc zero h n =
     (if n = 0 then (0, h, 0)
      else (brk h, h\<lparr>cells := (cells h)(brk h \<mapsto> zero), brk := brk h + 1\<rparr>, n - 1))"

definition hread :: "'c heap \<Rightarrow> nat \<Rightarrow> 'c outcome" where
  "hread h p = (case cells h p of None \<Rightarrow> Fault | Some c \<Rightarrow> Ok c)"

definition hwrite :: "'c heap \<Rightarrow> nat \<Rightarrow> 'c \<Rightarrow> 'c heap outcome" where
  "hwrite h p c =
     (case cells h p of None \<Rightarrow> Fault | Some _ \<Rightarrow> Ok (h\<lparr>cells := (cells h)(p \<mapsto> c)\<rparr>))"

definition hfree :: "'c heap \<Rightarrow> nat \<Rightarrow> 'c heap outcome" where
  "hfree h p =
     (if p = 0 then Ok h
      else case cells h p of None \<Rightarrow> Fault | Some _ \<Rightarrow> Ok (h\<lparr>cells := (cells h)(p := None)\<rparr>))"

text \<open>\<^verbatim>\<open>p->field = v\<close>\<close>

definition hupd :: "'c heap \<Rightarrow> nat \<Rightarrow> ('c \<Rightarrow> 'c) \<Rightarrow> 'c heap outcome" where
  "hupd h p f = obind (hread h p) (\<lambda>c. hwrite h p (f c))"

lemma hread_Some [simp, heap_simps]: "cells h p = Some c \<Longrightarrow> hread h p = Ok c"
  by (simp add: hread_def)

lemma hwrite_Some [simp, heap_simps]:
  "cells h p = Some c0 \<Longrightarrow> hwrite h p c = Ok (h\<lparr>cells := (cells h)(p \<mapsto> c)\<rparr>)"
  by (simp add: hwrite_def)

lemma hupd_Some [simp, heap_simps]:
  "cells h p = Some c \<Longrightarrow> hupd h p f = Ok (h\<lparr>cells := (cells h)(p \<mapsto> f c)\<rparr>)"
  by (simp add: hupd_def)

lemma hfree_Some [simp, heap_simps]:
  "p \<noteq> 0 \<Longrightarrow> cells h p = Some c0 \<Longrightarrow> hfree h p = Ok (h\<lparr>cells := (cells h)(p := None)\<rparr>)"
  by (simp add: hfree_def)

lemma halloc_Suc [simp, heap_simps]:
  "halloc zero h (Suc n) =
     (brk h, h\<lparr>cells := (cells h)(brk h \<mapsto> zero), brk := brk h + 1\<rparr>, n)"
  by (simp add: halloc_def)

lemma halloc_0 [simp, heap_simps]: "halloc zero h 0 = (0, h, 0)"
  by (simp add: halloc_def)

lemma heap_field_order [simp, heap_simps]:
  "h\<lparr>brk := b, cells := m\<rparr> = h\<lparr>cells := m, brk := b\<rparr>"
  by (cases h) simp

lemma heap_ok_empty [simp]: "heap_ok empty_heap"
  by (simp add: heap_ok_def empty_heap_def)

lemma heap_ok_fresh [simp]: "heap_ok h \<Longrightarrow> cells h (brk h) = None"
  by (fastforce simp: heap_ok_def)

lemma heap_ok_nonnull [simp]: "heap_ok h \<Longrightarrow> cells h 0 = None"
  by (fastforce simp: heap_ok_def)

lemma heap_ok_brk: "heap_ok h \<Longrightarrow> 0 < brk h"
  by (simp add: heap_ok_def)

lemma heap_ok_below: "heap_ok h \<Longrightarrow> cells h p = Some c \<Longrightarrow> 0 < p \<and> p < brk h"
  by (auto simp: heap_ok_def)

lemma heap_ok_update [simp]:
  "heap_ok h \<Longrightarrow> cells h p = Some c0 \<Longrightarrow> heap_ok (h\<lparr>cells := (cells h)(p \<mapsto> c)\<rparr>)"
  by (auto simp: heap_ok_def)

lemma heap_ok_remove [simp]: "heap_ok h \<Longrightarrow> heap_ok (h\<lparr>cells := (cells h)(p := None)\<rparr>)"
  by (auto simp: heap_ok_def)

lemma heap_ok_cells: "heap_ok h \<Longrightarrow> dom m \<subseteq> dom (cells h) \<Longrightarrow> heap_ok (h\<lparr>cells := m\<rparr>)"
  by (auto simp: heap_ok_def)

lemma heap_ok_alloc [simp]:
  "heap_ok h \<Longrightarrow> heap_ok (h\<lparr>cells := (cells h)(brk h \<mapsto> c), brk := Suc (brk h)\<rparr>)"
  by (fastforce simp: heap_ok_def less_Suc_eq)

lemma heap_ok_alloc_cells:
  "heap_ok (h\<lparr>cells := m\<rparr>) \<Longrightarrow> heap_ok (h\<lparr>cells := m(brk h \<mapsto> c), brk := Suc (brk h)\<rparr>)"
  using heap_ok_alloc [of "h\<lparr>cells := m\<rparr>" c] by simp

subsection \<open>Chains of blocks\<close>

fun lseg :: "('c \<Rightarrow> nat) \<Rightarrow> (nat \<rightharpoonup> 'c) \<Rightarrow> nat \<Rightarrow> nat list \<Rightarrow> nat \<Rightarrow> bool" where
  "lseg nxt cs p [] q \<longleftrightarrow> p = q"
| "lseg nxt cs p (x # xs) q \<longleftrightarrow>
     p = x \<and> x \<noteq> 0 \<and> (case cs x of None \<Rightarrow> False | Some c \<Rightarrow> lseg nxt cs (nxt c) xs q)"

lemma lseg_Cons_iff:
  "lseg nxt cs p (x # xs) q \<longleftrightarrow>
     p = x \<and> x \<noteq> 0 \<and> (\<exists>c. cs x = Some c \<and> lseg nxt cs (nxt c) xs q)"
  by (auto split: option.splits)

lemma lseg_append:
  "lseg nxt cs p (xs @ ys) q \<longleftrightarrow> (\<exists>r. lseg nxt cs p xs r \<and> lseg nxt cs r ys q)"
  by (induction xs arbitrary: p) (auto split: option.splits)

lemma lseg_frame [simp]:
  "x \<notin> set xs \<Longrightarrow> lseg nxt (cs(x := v)) p xs q = lseg nxt cs p xs q"
  by (induction xs arbitrary: p) (auto split: option.splits)

lemma lseg_cong:
  assumes "\<And>x. x \<in> set xs \<Longrightarrow> map_option nxt (cs x) = map_option nxt (cs' x)"
  shows "lseg nxt cs p xs q = lseg nxt cs' p xs q"
  using assms
proof (induction xs arbitrary: p)
  case (Cons x xs)
  have "map_option nxt (cs x) = map_option nxt (cs' x)"
    by (simp add: Cons.prems)
  moreover have "lseg nxt cs r xs q = lseg nxt cs' r xs q" for r
    by (rule Cons.IH) (simp add: Cons.prems)
  ultimately show ?case by (cases "cs x"; cases "cs' x") simp_all
qed simp

lemma lseg_cells: "lseg nxt cs p xs q \<Longrightarrow> x \<in> set xs \<Longrightarrow> \<exists>c. cs x = Some c"
  by (induction xs arbitrary: p) (auto split: option.splits)

lemma lseg_nonnull: "lseg nxt cs p xs q \<Longrightarrow> x \<in> set xs \<Longrightarrow> x \<noteq> 0"
  by (induction xs arbitrary: p) (auto split: option.splits)

lemma lseg_null [simp]: "lseg nxt cs 0 xs q \<longleftrightarrow> xs = [] \<and> q = 0"
  by (cases xs) auto

lemma lseg_start: "lseg nxt cs p xs 0 \<Longrightarrow> p = (case xs of [] \<Rightarrow> 0 | x # _ \<Rightarrow> x)"
  by (cases xs) auto

lemma lseg_unique: "lseg nxt cs p xs 0 \<Longrightarrow> lseg nxt cs p ys 0 \<Longrightarrow> xs = ys"
proof (induction xs arbitrary: p ys)
  case (Cons x xs)
  then show ?case by (cases ys) (auto split: option.splits)
qed simp

lemma lseg_distinct: "lseg nxt cs p xs 0 \<Longrightarrow> distinct xs"
proof (induction xs arbitrary: p)
  case (Cons x xs)
  then obtain c where c: "cs x = Some c" "lseg nxt cs (nxt c) xs 0" "p = x"
    by (auto split: option.splits)
  have "x \<notin> set xs"
  proof
    assume "x \<in> set xs"
    then obtain as bs where "xs = as @ x # bs"
      by (auto simp: in_set_conv_decomp)
    with c(2) have "lseg nxt cs x (x # bs) 0"
      by (auto simp: lseg_append)
    with c Cons.prems have "x # bs = x # xs"
      by (metis lseg_unique)
    with \<open>xs = as @ x # bs\<close> show False by simp
  qed
  with Cons.IH c show ?case by auto
qed simp

lemma lseg_length:
  assumes "heap_ok h" and "lseg nxt (cells h) p xs 0"
  shows "length xs < brk h"
proof -
  have "set xs \<subseteq> {0<..<brk h}"
    using assms by (fastforce dest: lseg_cells heap_ok_below)
  then have "card (set xs) \<le> brk h - 1"
    by (metis card_mono card_greaterThanLessThan diff_zero finite_greaterThanLessThan One_nat_def
        diff_Suc_eq_diff_pred)
  moreover have "card (set xs) = length xs"
    using assms lseg_distinct by (metis distinct_card)
  ultimately show ?thesis
    using heap_ok_brk [OF assms(1)] by linarith
qed

lemma lseg_last:
  assumes "lseg nxt cs p (xs @ [x]) 0"
  shows "\<exists>c. cs x = Some c \<and> nxt c = 0"
  using assms by (auto simp: lseg_append split: option.splits)

text \<open>The addresses of a chain, computed: with enough fuel \<open>chain\<close> finds them.\<close>

fun chain :: "nat \<Rightarrow> ('c \<Rightarrow> nat) \<Rightarrow> (nat \<rightharpoonup> 'c) \<Rightarrow> nat \<Rightarrow> nat list" where
  "chain 0 nxt cs p = []"
| "chain (Suc n) nxt cs p =
     (case cs p of None \<Rightarrow> [] | Some c \<Rightarrow> p # chain n nxt cs (nxt c))"

lemma lseg_chain:
  "cs 0 = None \<Longrightarrow> lseg nxt cs p xs 0 \<Longrightarrow> length xs \<le> n \<Longrightarrow> chain n nxt cs p = xs"
proof (induction xs arbitrary: p n)
  case Nil
  then show ?case by (cases n) simp_all
next
  case (Cons x xs)
  then show ?case by (cases n) (auto split: option.splits)
qed

lemma lseg_chain_heap:
  assumes "heap_ok h" and "lseg nxt (cells h) p xs 0"
  shows "chain (brk h) nxt (cells h) p = xs"
  using assms lseg_length [OF assms] by (simp add: lseg_chain)

text \<open>Linking a block behind the last one of a chain.\<close>

lemma lseg_snoc:
  assumes "lseg nxt cs p (xs @ [x]) 0" and "nxt c' = y" and "y \<noteq> 0" and "y \<notin> set (xs @ [x])"
    and "nxt d = 0"
  shows "lseg nxt (cs(x \<mapsto> c', y \<mapsto> d)) p (xs @ [x, y]) 0"
proof -
  have "distinct (xs @ [x])" using assms(1) by (rule lseg_distinct)
  with assms show ?thesis by (auto simp: lseg_append split: option.splits)
qed

end
