(* ===== verification/Locks.thy ===== *)
theory Locks
  imports Prelude
begin

text \<open>
  The synchronisation objects of the library: \<^verbatim>\<open>RWLock\<close> (src/src/RWLock.c),
  \<^verbatim>\<open>Mutex\<close> (src/src/Mutex.c) and \<^verbatim>\<open>Cond\<close> (src/src/Cond.c), which wrap the POSIX
  threads primitives. The primitives are modelled as POSIX documents them, as seen by the thread that
  calls: a lock held by somebody else (or by the caller itself) is never released
  while the caller waits, so waiting for it is \<open>Stuck\<close>.
\<close>

named_theorems lock_simps "the lock operations on a valid, free lock"

definition PTHREAD_PROCESS_PRIVATE :: int where "PTHREAD_PROCESS_PRIVATE = 0"
definition PTHREAD_PROCESS_SHARED :: int where "PTHREAD_PROCESS_SHARED = 1"
definition EPERM :: int where "EPERM = 1"
definition EBUSY :: int where "EBUSY = 16"
definition EINVAL :: int where "EINVAL = 22"
definition EOWNERDEAD :: int where "EOWNERDEAD = 130"
definition ENOTRECOVERABLE :: int where "ENOTRECOVERABLE = 131"

subsection \<open>RWLock\<close>

datatype pthread_rwlock = RwFree | RwRead nat | RwWrite

definition pthread_rwlock_rdlock :: "pthread_rwlock \<Rightarrow> (int \<times> pthread_rwlock) outcome" where
  "pthread_rwlock_rdlock l = (case l of
     RwFree \<Rightarrow> Ok (0, RwRead 1) | RwRead n \<Rightarrow> Ok (0, RwRead (n + 1)) | RwWrite \<Rightarrow> Stuck)"

definition pthread_rwlock_tryrdlock :: "pthread_rwlock \<Rightarrow> int \<times> pthread_rwlock" where
  "pthread_rwlock_tryrdlock l = (case l of
     RwFree \<Rightarrow> (0, RwRead 1) | RwRead n \<Rightarrow> (0, RwRead (n + 1)) | RwWrite \<Rightarrow> (EBUSY, RwWrite))"

definition pthread_rwlock_wrlock :: "pthread_rwlock \<Rightarrow> (int \<times> pthread_rwlock) outcome" where
  "pthread_rwlock_wrlock l = (if l = RwFree then Ok (0, RwWrite) else Stuck)"

definition pthread_rwlock_trywrlock :: "pthread_rwlock \<Rightarrow> int \<times> pthread_rwlock" where
  "pthread_rwlock_trywrlock l = (if l = RwFree then (0, RwWrite) else (EBUSY, l))"

definition pthread_rwlock_unlock :: "pthread_rwlock \<Rightarrow> int \<times> pthread_rwlock" where
  "pthread_rwlock_unlock l = (case l of
     RwFree \<Rightarrow> (EPERM, RwFree)
   | RwRead n \<Rightarrow> (0, if n \<le> 1 then RwFree else RwRead (n - 1))
   | RwWrite \<Rightarrow> (0, RwFree))"

definition RWLOCK_VALID :: ulong where "RWLOCK_VALID = 0xfda45d5a"
definition RWLOCK_INVALID :: ulong where "RWLOCK_INVALID = 0x4e374f6f"
definition RWLOCK_PRIVATE :: "64 word" where "RWLOCK_PRIVATE = 1"
definition RWLOCK_SHARED :: "64 word" where "RWLOCK_SHARED = 2"

text \<open>The attribute block holds the process-shared setting (\<^verbatim>\<open>PTHREAD_PROCESS_PRIVATE\<close>
  is 0, \<^verbatim>\<open>PTHREAD_PROCESS_SHARED\<close> is 1).\<close>

record RWLock =
  rw_valid :: ulong
  rw_attr :: "int owned"
  rw_lock :: "pthread_rwlock owned"

text \<open>The block \<^verbatim>\<open>calloc\<close> returns.\<close>

definition RWLock_zero :: RWLock where
  "RWLock_zero = \<lparr>rw_valid = 0, rw_attr = Null, rw_lock = Null\<rparr>"

definition RWLock_new :: "nat \<Rightarrow> (RWLock owned \<times> nat) outcome" where
  "RWLock_new mem =
     (let (self, mem) = ANY_TALLOC RWLock_zero mem
      in ANY_REQUIRE (self \<noteq> Null) (Ok (self, mem)))"

definition RWLock_init :: "RWLock owned \<Rightarrow> 64 word \<Rightarrow> nat \<Rightarrow> (bool \<times> RWLock owned \<times> nat) outcome" where
  "RWLock_init self flags mem =
     require_ptr self (\<lambda>s.
       let s = s\<lparr>rw_valid := RWLOCK_INVALID\<rparr>;
           (attr, mem) = ANY_TALLOC (0 :: int) mem
       in ANY_REQUIRE (attr \<noteq> Null)
         (let pflags = (if and flags RWLOCK_PRIVATE \<noteq> 0 then PTHREAD_PROCESS_PRIVATE else 0);
              pflags = or pflags (if and flags RWLOCK_SHARED \<noteq> 0 then PTHREAD_PROCESS_SHARED else 0);
              s = s\<lparr>rw_attr := Own pflags\<rparr>;
              (lock, mem) = ANY_TALLOC RwFree mem
          in ANY_REQUIRE (lock \<noteq> Null)
            (Ok (True, Own (s\<lparr>rw_lock := lock, rw_valid := RWLOCK_VALID\<rparr>), mem))))"

definition RWLock_readLock :: "RWLock owned \<Rightarrow> (int \<times> RWLock owned) outcome" where
  "RWLock_readLock self =
     require_ptr self (\<lambda>s. ANY_REQUIRE (rw_valid s = RWLOCK_VALID)
       (deref (rw_lock s) (\<lambda>l. obind (pthread_rwlock_rdlock l) (\<lambda>(r, l).
          Ok (r, Own (s\<lparr>rw_lock := Own l\<rparr>))))))"

definition RWLock_tryReadLock :: "RWLock owned \<Rightarrow> (int \<times> RWLock owned) outcome" where
  "RWLock_tryReadLock self =
     require_ptr self (\<lambda>s. ANY_REQUIRE (rw_valid s = RWLOCK_VALID)
       (deref (rw_lock s) (\<lambda>l. let (r, l) = pthread_rwlock_tryrdlock l
          in Ok (r, Own (s\<lparr>rw_lock := Own l\<rparr>)))))"

definition RWLock_writeLock :: "RWLock owned \<Rightarrow> (int \<times> RWLock owned) outcome" where
  "RWLock_writeLock self =
     require_ptr self (\<lambda>s. ANY_REQUIRE (rw_valid s = RWLOCK_VALID)
       (deref (rw_lock s) (\<lambda>l. obind (pthread_rwlock_wrlock l) (\<lambda>(r, l).
          Ok (r, Own (s\<lparr>rw_lock := Own l\<rparr>))))))"

definition RWLock_tryWriteLock :: "RWLock owned \<Rightarrow> (int \<times> RWLock owned) outcome" where
  "RWLock_tryWriteLock self =
     require_ptr self (\<lambda>s. ANY_REQUIRE (rw_valid s = RWLOCK_VALID)
       (deref (rw_lock s) (\<lambda>l. let (r, l) = pthread_rwlock_trywrlock l
          in Ok (r, Own (s\<lparr>rw_lock := Own l\<rparr>)))))"

definition RWLock_unlock :: "RWLock owned \<Rightarrow> (int \<times> RWLock owned) outcome" where
  "RWLock_unlock self =
     require_ptr self (\<lambda>s. ANY_REQUIRE (rw_valid s = RWLOCK_VALID)
       (deref (rw_lock s) (\<lambda>l. let (r, l) = pthread_rwlock_unlock l
          in Ok (r, Own (s\<lparr>rw_lock := Own l\<rparr>)))))"

text \<open>Destroying a lock that is held is undefined. \<^verbatim>\<open>RWLock_clear\<close> releases the two
  blocks and leaves \<^verbatim>\<open>valid\<close> as it is.\<close>

definition RWLock_clear :: "RWLock owned \<Rightarrow> RWLock owned outcome" where
  "RWLock_clear self =
     require_ptr self (\<lambda>s. ANY_REQUIRE (rw_valid s = RWLOCK_VALID)
       (require_ptr (rw_attr s) (\<lambda>_. require_ptr (rw_lock s) (\<lambda>l.
          defined_if (l = RwFree)
            (obind (ANY_FREE (rw_attr s)) (\<lambda>attr.
             obind (ANY_FREE (rw_lock s)) (\<lambda>lock.
               Ok (Own (s\<lparr>rw_attr := attr, rw_lock := lock\<rparr>)))))))))"

definition RWLock_delete :: "RWLock owned \<Rightarrow> RWLock owned outcome" where
  "RWLock_delete self = ANY_REQUIRE (self \<noteq> Null) (ANY_FREE self)"

text \<open>An initialised lock in a given state.\<close>

definition rwlock_is :: "pthread_rwlock \<Rightarrow> RWLock owned \<Rightarrow> bool" where
  "rwlock_is l p = (case p of
     Own s \<Rightarrow> rw_valid s = RWLOCK_VALID \<and> rw_lock s = Own l \<and>
        (case rw_attr s of Own _ \<Rightarrow> True | _ \<Rightarrow> False)
   | _ \<Rightarrow> False)"

lemma rwlock_is_iff:
  "rwlock_is l p \<longleftrightarrow>
     (\<exists>s a. p = Own s \<and> rw_valid s = RWLOCK_VALID \<and> rw_lock s = Own l \<and> rw_attr s = Own a)"
  by (auto simp: rwlock_is_def split: owned.splits)

lemma rwlock_is_free_cases:
  assumes "rwlock_is l p"
  obtains s a where "p = Own s" "rw_valid s = RWLOCK_VALID" "rw_lock s = Own l" "rw_attr s = Own a"
  using assms by (auto simp: rwlock_is_iff)

definition rw_set :: "pthread_rwlock \<Rightarrow> RWLock owned \<Rightarrow> RWLock owned" where
  "rw_set l p = (case p of Own s \<Rightarrow> Own (s\<lparr>rw_lock := Own l\<rparr>) | _ \<Rightarrow> p)"

abbreviation rwlock_free :: "RWLock owned \<Rightarrow> bool" where
  "rwlock_free \<equiv> rwlock_is RwFree"

lemma rwlock_free_nonnull [simp, lock_simps]: "rwlock_is l p \<Longrightarrow> p \<noteq> Null"
  by (auto simp: rwlock_is_iff)

lemma RWLock_readLock_free [simp, lock_simps]:
  "rwlock_free p \<Longrightarrow> RWLock_readLock p = Ok (0, rw_set (RwRead (Suc 0)) p)"
  by (auto simp: rwlock_is_iff RWLock_readLock_def pthread_rwlock_rdlock_def rw_set_def)

lemma RWLock_writeLock_free [simp, lock_simps]:
  "rwlock_free p \<Longrightarrow> RWLock_writeLock p = Ok (0, rw_set RwWrite p)"
  by (auto simp: rwlock_is_iff RWLock_writeLock_def pthread_rwlock_wrlock_def rw_set_def)

lemma RWLock_unlock_read [simp, lock_simps]:
  "rwlock_free p \<Longrightarrow> RWLock_unlock (rw_set (RwRead (Suc 0)) p) = Ok (0, p)"
  by (auto simp: rwlock_is_iff RWLock_unlock_def pthread_rwlock_unlock_def rw_set_def)

lemma RWLock_unlock_write [simp, lock_simps]:
  "rwlock_free p \<Longrightarrow> RWLock_unlock (rw_set RwWrite p) = Ok (0, p)"
  by (auto simp: rwlock_is_iff RWLock_unlock_def pthread_rwlock_unlock_def rw_set_def)

lemma RWLock_clear_free:
  assumes "rwlock_free p"
  shows "\<exists>s. RWLock_clear p = Ok (Own s) \<and> rw_valid s = RWLOCK_VALID \<and> rw_lock s = Dangling"
  using assms by (auto simp: rwlock_is_iff RWLock_clear_def)

lemma RWLock_clear_delete [simp, lock_simps]:
  "rwlock_free p \<Longrightarrow> obind (RWLock_clear p) RWLock_delete = Ok Dangling"
  by (auto simp: rwlock_is_iff RWLock_clear_def RWLock_delete_def)

text \<open>The lock every successful \<^verbatim>\<open>new\<close> and \<^verbatim>\<open>init\<close> with \<^verbatim>\<open>RWLOCK_PRIVATE\<close> gives.\<close>

definition rwlock_private :: "RWLock owned" where
  "rwlock_private = Own \<lparr>rw_valid = RWLOCK_VALID, rw_attr = Own 0, rw_lock = Own RwFree\<rparr>"

lemma rwlock_private_free [simp, lock_simps]: "rwlock_free rwlock_private"
  by (simp add: rwlock_is_def rwlock_private_def)

lemma RWLock_new_Ok [simp, lock_simps]: "0 < mem \<Longrightarrow> RWLock_new mem = Ok (Own RWLock_zero, mem - 1)"
  by (simp add: RWLock_new_def)

lemma RWLock_new_0 [simp, lock_simps]: "RWLock_new 0 = Require"
  by (simp add: RWLock_new_def)

lemma RWLock_init_zero [simp, lock_simps]:
  "2 \<le> mem \<Longrightarrow>
   RWLock_init (Own RWLock_zero) RWLOCK_PRIVATE mem = Ok (True, rwlock_private, mem - 2)"
  by (auto simp: RWLock_init_def RWLock_zero_def rwlock_private_def RWLOCK_PRIVATE_def
      RWLOCK_SHARED_def PTHREAD_PROCESS_PRIVATE_def ANY_TALLOC_def)

lemma RWLock_init_zero_fails [simp, lock_simps]:
  "mem < 2 \<Longrightarrow> RWLock_init (Own RWLock_zero) RWLOCK_PRIVATE mem = Require"
  by (cases mem) (auto simp: RWLock_init_def)

subsection \<open>Mutex\<close>

text \<open>
  The mutexes are robust (\<^verbatim>\<open>PTHREAD_MUTEX_ROBUST\<close>): when the owner dies the next locker
  gets \<^verbatim>\<open>EOWNERDEAD\<close> together with the lock; unless it calls
  \<^verbatim>\<open>pthread_mutex_consistent\<close> before it unlocks, the mutex is unusable from then on.
\<close>

datatype pthread_mutex = MxFree | MxHeld | MxOwnerDead | MxInconsistent | MxNotRecoverable

definition pthread_mutex_trylock :: "pthread_mutex \<Rightarrow> int \<times> pthread_mutex" where
  "pthread_mutex_trylock m = (case m of
     MxFree \<Rightarrow> (0, MxHeld)
   | MxHeld \<Rightarrow> (EBUSY, m)
   | MxOwnerDead \<Rightarrow> (EOWNERDEAD, MxInconsistent)
   | MxInconsistent \<Rightarrow> (EBUSY, m)
   | MxNotRecoverable \<Rightarrow> (ENOTRECOVERABLE, m))"

definition pthread_mutex_lock :: "pthread_mutex \<Rightarrow> (int \<times> pthread_mutex) outcome" where
  "pthread_mutex_lock m =
     (if m = MxHeld \<or> m = MxInconsistent then Stuck else Ok (pthread_mutex_trylock m))"

definition pthread_mutex_consistent :: "pthread_mutex \<Rightarrow> int \<times> pthread_mutex" where
  "pthread_mutex_consistent m = (if m = MxInconsistent then (0, MxHeld) else (EINVAL, m))"

definition pthread_mutex_unlock :: "pthread_mutex \<Rightarrow> int \<times> pthread_mutex" where
  "pthread_mutex_unlock m = (case m of
     MxHeld \<Rightarrow> (0, MxFree)
   | MxInconsistent \<Rightarrow> (0, MxNotRecoverable)
   | _ \<Rightarrow> (EPERM, m))"

definition pthread_mutex_destroy :: "pthread_mutex \<Rightarrow> int" where
  "pthread_mutex_destroy m = (if m = MxHeld \<or> m = MxInconsistent then EBUSY else 0)"

definition MUTEX_VALID :: ulong where "MUTEX_VALID = 0xb87d8223"
definition MUTEX_INVALID :: ulong where "MUTEX_INVALID = 0xac1cca9d"
definition MUTEX_PRIVATE :: "64 word" where "MUTEX_PRIVATE = 1"
definition MUTEX_SHARED :: "64 word" where "MUTEX_SHARED = 2"

record Mutex =
  mx_valid :: ulong
  mx_mutex :: pthread_mutex
  mx_pshared :: int

definition Mutex_zero :: Mutex where
  "Mutex_zero = \<lparr>mx_valid = 0, mx_mutex = MxFree, mx_pshared = 0\<rparr>"

definition Mutex_new :: "nat \<Rightarrow> (Mutex owned \<times> nat) outcome" where
  "Mutex_new mem =
     (let (self, mem) = ANY_TALLOC Mutex_zero mem
      in ANY_REQUIRE (self \<noteq> Null) (Ok (self, mem)))"

definition Mutex_init :: "Mutex owned \<Rightarrow> 64 word \<Rightarrow> (bool \<times> Mutex owned) outcome" where
  "Mutex_init self flags =
     require_ptr self (\<lambda>s.
       let s = s\<lparr>mx_valid := MUTEX_INVALID\<rparr>;
           pflags = (if and flags MUTEX_PRIVATE \<noteq> 0 then PTHREAD_PROCESS_PRIVATE else 0);
           pflags = or pflags (if and flags MUTEX_SHARED \<noteq> 0 then PTHREAD_PROCESS_SHARED else 0)
       in Ok (True, Own (s\<lparr>mx_pshared := pflags, mx_mutex := MxFree, mx_valid := MUTEX_VALID\<rparr>)))"

definition Mutex_tryLock :: "Mutex owned \<Rightarrow> (int \<times> Mutex owned) outcome" where
  "Mutex_tryLock self =
     require_ptr self (\<lambda>s. ANY_REQUIRE (mx_valid s = MUTEX_VALID)
       (let (r, m) = pthread_mutex_trylock (mx_mutex s)
        in Ok (r, Own (s\<lparr>mx_mutex := m\<rparr>))))"

definition Mutex_lock :: "Mutex owned \<Rightarrow> (int \<times> Mutex owned) outcome" where
  "Mutex_lock self =
     require_ptr self (\<lambda>s. ANY_REQUIRE (mx_valid s = MUTEX_VALID)
       (obind (pthread_mutex_lock (mx_mutex s)) (\<lambda>(r, m).
          let (r, m) = (if r = EOWNERDEAD then pthread_mutex_consistent m else (r, m))
          in Ok (r, Own (s\<lparr>mx_mutex := m\<rparr>)))))"

definition Mutex_unlock :: "Mutex owned \<Rightarrow> (int \<times> Mutex owned) outcome" where
  "Mutex_unlock self =
     require_ptr self (\<lambda>s. ANY_REQUIRE (mx_valid s = MUTEX_VALID)
       (let (r, m) = pthread_mutex_unlock (mx_mutex s)
        in Ok (r, Own (s\<lparr>mx_mutex := m\<rparr>))))"

definition Mutex_clear :: "Mutex owned \<Rightarrow> Mutex owned outcome" where
  "Mutex_clear self =
     require_ptr self (\<lambda>s. ANY_REQUIRE (mx_valid s = MUTEX_VALID)
       (ANY_REQUIRE (pthread_mutex_destroy (mx_mutex s) = 0)
         (Ok (Own (s\<lparr>mx_valid := MUTEX_INVALID\<rparr>)))))"

definition Mutex_delete :: "Mutex owned \<Rightarrow> Mutex owned outcome" where
  "Mutex_delete self = ANY_REQUIRE (self \<noteq> Null) (ANY_FREE self)"

definition mutex_is :: "pthread_mutex \<Rightarrow> Mutex owned \<Rightarrow> bool" where
  "mutex_is m p = (case p of
     Own s \<Rightarrow> mx_valid s = MUTEX_VALID \<and> mx_mutex s = m | _ \<Rightarrow> False)"

definition mx_set :: "pthread_mutex \<Rightarrow> Mutex owned \<Rightarrow> Mutex owned" where
  "mx_set m p = (case p of Own s \<Rightarrow> Own (s\<lparr>mx_mutex := m\<rparr>) | _ \<Rightarrow> p)"

abbreviation mutex_free :: "Mutex owned \<Rightarrow> bool" where
  "mutex_free \<equiv> mutex_is MxFree"

lemma mutex_is_iff:
  "mutex_is m p \<longleftrightarrow> (\<exists>s. p = Own s \<and> mx_valid s = MUTEX_VALID \<and> mx_mutex s = m)"
  by (auto simp: mutex_is_def split: owned.splits)

lemma mutex_is_nonnull [simp, lock_simps]: "mutex_is m p \<Longrightarrow> p \<noteq> Null"
  by (auto simp: mutex_is_iff)

lemma Mutex_lock_free [simp, lock_simps]:
  "mutex_free p \<Longrightarrow> Mutex_lock p = Ok (0, mx_set MxHeld p)"
  by (auto simp: mutex_is_iff Mutex_lock_def pthread_mutex_lock_def pthread_mutex_trylock_def
      mx_set_def EOWNERDEAD_def)

lemma Mutex_unlock_held [simp, lock_simps]:
  "mutex_free p \<Longrightarrow> Mutex_unlock (mx_set MxHeld p) = Ok (0, p)"
  by (auto simp: mutex_is_iff Mutex_unlock_def pthread_mutex_unlock_def mx_set_def)

lemma Mutex_clear_delete [simp, lock_simps]:
  "mutex_free p \<Longrightarrow> obind (Mutex_clear p) Mutex_delete = Ok Dangling"
  by (auto simp: mutex_is_iff Mutex_clear_def Mutex_delete_def pthread_mutex_destroy_def)

definition mutex_private :: "Mutex owned" where
  "mutex_private = Own \<lparr>mx_valid = MUTEX_VALID, mx_mutex = MxFree, mx_pshared = 0\<rparr>"

lemma mutex_private_free [simp, lock_simps]: "mutex_free mutex_private"
  by (simp add: mutex_is_def mutex_private_def)

lemma Mutex_new_Ok [simp, lock_simps]: "0 < mem \<Longrightarrow> Mutex_new mem = Ok (Own Mutex_zero, mem - 1)"
  by (simp add: Mutex_new_def)

lemma Mutex_init_zero [simp, lock_simps]:
  "Mutex_init (Own Mutex_zero) MUTEX_PRIVATE = Ok (True, mutex_private)"
  by (simp add: Mutex_init_def Mutex_zero_def mutex_private_def MUTEX_PRIVATE_def MUTEX_SHARED_def
      PTHREAD_PROCESS_PRIVATE_def)

text \<open>What a robust mutex is for: taking it over from a dead owner with \<^verbatim>\<open>Mutex_lock\<close>
  repairs it.\<close>

lemma Mutex_lock_recovers:
  assumes "mutex_is MxOwnerDead p"
  shows "Mutex_lock p = Ok (0, mx_set MxHeld p)"
    and "Mutex_unlock (mx_set MxHeld p) = Ok (0, mx_set MxFree p)"
  using assms
  by (auto simp: mutex_is_iff Mutex_lock_def Mutex_unlock_def pthread_mutex_lock_def
      pthread_mutex_trylock_def pthread_mutex_consistent_def pthread_mutex_unlock_def mx_set_def)

subsection \<open>Cond\<close>


text \<open>
  \<^verbatim>\<open>externalMutex\<close> is kept as the number that identifies the mutex of the user, 0 for the
  null pointer.
\<close>

definition COND_VALID :: ulong where "COND_VALID = 0x74d328fe"
definition COND_INVALID :: ulong where "COND_INVALID = 0x793bac7a"
definition COND_PRIVATE :: "64 word" where "COND_PRIVATE = 1"
definition COND_SHARED :: "64 word" where "COND_SHARED = 2"
definition COND_NANOSEC_PER_MICROSEC :: int where "COND_NANOSEC_PER_MICROSEC = 1000"
definition COND_MICROSEC_PER_SEC :: int where "COND_MICROSEC_PER_SEC = 1000000"
definition COND_NANOSEC_PER_SEC :: int where "COND_NANOSEC_PER_SEC = 1000000000"

record Cond =
  cd_valid :: ulong
  cd_mutex :: pthread_mutex
  cd_pshared :: int
  cd_externalMutex :: nat

definition Cond_zero :: Cond where
  "Cond_zero = \<lparr>cd_valid = 0, cd_mutex = MxFree, cd_pshared = 0, cd_externalMutex = 0\<rparr>"

definition Cond_new :: "nat \<Rightarrow> (Cond owned \<times> nat) outcome" where
  "Cond_new mem =
     (let (self, mem) = ANY_TALLOC Cond_zero mem
      in ANY_REQUIRE (self \<noteq> Null) (Ok (self, mem)))"

definition Cond_init :: "Cond owned \<Rightarrow> 64 word \<Rightarrow> (bool \<times> Cond owned) outcome" where
  "Cond_init self flags =
     require_ptr self (\<lambda>s.
       let s = s\<lparr>cd_valid := COND_INVALID, cd_externalMutex := 0\<rparr>;
           pflags = (if and flags COND_PRIVATE \<noteq> 0 then PTHREAD_PROCESS_PRIVATE else 0);
           pflags = or pflags (if and flags COND_SHARED \<noteq> 0 then PTHREAD_PROCESS_SHARED else 0)
       in Ok (True, Own (s\<lparr>cd_pshared := pflags, cd_mutex := MxFree, cd_valid := COND_VALID\<rparr>)))"

definition Cond_setMutex :: "Cond owned \<Rightarrow> nat \<Rightarrow> Cond owned outcome" where
  "Cond_setMutex self mutex =
     require_ptr self (\<lambda>s. ANY_REQUIRE (cd_valid s = COND_VALID)
       (Ok (Own (s\<lparr>cd_externalMutex := mutex\<rparr>))))"

text \<open>Signalling has no effect on the state of the object: it wakes one or all of the threads
  that sleep in \<^verbatim>\<open>Cond_wait\<close>. \<open>wake\<close> is what this does to the rest of the world.\<close>

definition Cond_signal :: "('w \<Rightarrow> 'w) \<Rightarrow> Cond owned \<Rightarrow> 'w \<Rightarrow> (int \<times> 'w) outcome" where
  "Cond_signal wake self w =
     require_ptr self (\<lambda>s. ANY_REQUIRE (cd_valid s = COND_VALID) (Ok (0, wake w)))"

definition Cond_broadcast :: "('w \<Rightarrow> 'w) \<Rightarrow> Cond owned \<Rightarrow> 'w \<Rightarrow> (int \<times> 'w) outcome" where
  "Cond_broadcast wake_all self w =
     require_ptr self (\<lambda>s. ANY_REQUIRE (cd_valid s = COND_VALID) (Ok (0, wake_all w)))"

text \<open>The absolute time up to which \<^verbatim>\<open>Cond_wait\<close> sleeps, from the current time
  \<open>(tv_sec, tv_usec)\<close>: seconds and nanoseconds (\<^verbatim>\<open>long long\<close> computations). C
  division is only applied to positive numbers here.\<close>

definition Cond_abstime :: "int \<Rightarrow> int \<times> int \<Rightarrow> int \<times> int" where
  "Cond_abstime microsecs tv =
     (let (secs, nanosecs) =
            (if microsecs \<ge> COND_MICROSEC_PER_SEC
             then (microsecs div COND_MICROSEC_PER_SEC,
                   (microsecs mod COND_MICROSEC_PER_SEC) * COND_NANOSEC_PER_MICROSEC)
             else (0, microsecs * COND_NANOSEC_PER_MICROSEC));
          secs = secs + fst tv;
          nanosecs = nanosecs + snd tv * 1000
      in if nanosecs \<ge> COND_NANOSEC_PER_SEC
         then (secs + nanosecs div COND_NANOSEC_PER_SEC, nanosecs mod COND_NANOSEC_PER_SEC)
         else (secs, nanosecs))"

text \<open>\<open>sleep\<close> is \<^verbatim>\<open>pthread_cond_wait\<close> (\<open>None\<close>) or \<^verbatim>\<open>pthread_cond_timedwait\<close> with its
  deadline: it releases the mutex, lets the other threads run, and returns with the mutex
  locked again.\<close>

definition Cond_wait ::
  "((int \<times> int) option \<Rightarrow> 'w \<Rightarrow> (int \<times> 'w) outcome) \<Rightarrow> int \<times> int \<Rightarrow> Cond owned \<Rightarrow> int \<Rightarrow> 'w \<Rightarrow>
   (int \<times> Cond owned \<times> 'w) outcome" where
  "Cond_wait sleep tv self microsecs w =
     require_ptr self (\<lambda>s. ANY_REQUIRE (cd_valid s = COND_VALID)
       (obind (if cd_externalMutex s = 0
               then obind (pthread_mutex_lock (cd_mutex s)) (\<lambda>(r, m).
                      ANY_REQUIRE (r = 0) (Ok (s\<lparr>cd_mutex := m\<rparr>)))
               else Ok s) (\<lambda>s.
        obind (sleep (if microsecs = 0 then None else Some (Cond_abstime microsecs tv)) w) (\<lambda>(r, w).
        obind (if cd_externalMutex s = 0
               then (let (r, m) = pthread_mutex_unlock (cd_mutex s)
                     in ANY_REQUIRE (r = 0) (Ok (s\<lparr>cd_mutex := m\<rparr>)))
               else Ok s) (\<lambda>s.
        Ok (r, Own s, w))))))"

definition Cond_clear :: "Cond owned \<Rightarrow> Cond owned outcome" where
  "Cond_clear self =
     require_ptr self (\<lambda>s. ANY_REQUIRE (cd_valid s = COND_VALID)
       (ANY_REQUIRE (pthread_mutex_destroy (cd_mutex s) = 0)
         (Ok (Own (s\<lparr>cd_externalMutex := 0, cd_valid := COND_INVALID\<rparr>)))))"

definition Cond_delete :: "Cond owned \<Rightarrow> Cond owned outcome" where
  "Cond_delete self = ANY_REQUIRE (self \<noteq> Null) (ANY_FREE self)"

definition cond_ready :: "Cond owned \<Rightarrow> bool" where
  "cond_ready p = (case p of
     Own s \<Rightarrow> cd_valid s = COND_VALID \<and> cd_mutex s = MxFree | _ \<Rightarrow> False)"

lemma cond_ready_iff:
  "cond_ready p \<longleftrightarrow> (\<exists>s. p = Own s \<and> cd_valid s = COND_VALID \<and> cd_mutex s = MxFree)"
  by (auto simp: cond_ready_def split: owned.splits)

lemma cond_ready_nonnull [simp, lock_simps]: "cond_ready p \<Longrightarrow> p \<noteq> Null"
  by (auto simp: cond_ready_iff)

lemma Cond_signal_ready [simp, lock_simps]:
  "cond_ready p \<Longrightarrow> Cond_signal wake p w = Ok (0, wake w)"
  by (auto simp: cond_ready_iff Cond_signal_def)

lemma Cond_broadcast_ready [simp, lock_simps]:
  "cond_ready p \<Longrightarrow> Cond_broadcast wake p w = Ok (0, wake w)"
  by (auto simp: cond_ready_iff Cond_broadcast_def)

lemma Cond_clear_delete [simp, lock_simps]:
  "cond_ready p \<Longrightarrow> obind (Cond_clear p) Cond_delete = Ok Dangling"
  by (auto simp: cond_ready_iff Cond_clear_def Cond_delete_def pthread_mutex_destroy_def)

text \<open>The condition leaves as it was, whatever happens while the thread sleeps.\<close>

lemma Cond_wait_ready [simp, lock_simps]:
  assumes "cond_ready p"
  shows "Cond_wait sleep tv p microsecs w =
    obind (sleep (if microsecs = 0 then None else Some (Cond_abstime microsecs tv)) w)
      (\<lambda>(r, w). Ok (r, p, w))"
proof -
  obtain s where s: "p = Own s" "cd_valid s = COND_VALID" "cd_mutex s = MxFree"
    using assms by (auto simp: cond_ready_iff)
  then show ?thesis
    by (cases s) (auto simp: Cond_wait_def pthread_mutex_lock_def pthread_mutex_trylock_def
        pthread_mutex_unlock_def)
qed

lemma Cond_new_Ok [simp, lock_simps]: "0 < mem \<Longrightarrow> Cond_new mem = Ok (Own Cond_zero, mem - 1)"
  by (simp add: Cond_new_def)

text \<open>The deadline is a proper \<^verbatim>\<open>timespec\<close>, exactly \<open>microsecs\<close> after now.\<close>

lemma Cond_abstime_value:
  assumes "0 \<le> microsecs" and "0 \<le> snd tv"
  shows "fst (Cond_abstime microsecs tv) * 10 ^ 9 + snd (Cond_abstime microsecs tv) =
           (fst tv * 10 ^ 6 + snd tv + microsecs) * 10 ^ 3"
    and "0 \<le> snd (Cond_abstime microsecs tv)" and "snd (Cond_abstime microsecs tv) < 10 ^ 9"
  using assms
  by (auto simp: Cond_abstime_def COND_MICROSEC_PER_SEC_def COND_NANOSEC_PER_MICROSEC_def
      COND_NANOSEC_PER_SEC_def Let_def algebra_simps; presburger)+

end
