(* ===== verification/MT_List.thy ===== *)
theory MT_List
  imports Heap_Model Locks
begin

text \<open>
  \<^verbatim>\<open>MTList\<close> (src/src/MTList.c): a singly linked list of user pointers with a read/write lock
  for the list and one for each element. The state holds the list object, the blocks
  of its elements, the budget of allocations and the list of the user pointers that
  have been released so far, in order. Releasing one of them again is a fault.

  The loops of the code take fuel; it is \<open>brk\<close>, the bound of every null terminated
  chain, so it is enough on every list (\<open>lseg_length\<close>).
\<close>

definition MTLIST_VALID :: ulong where "MTLIST_VALID = 0xa951bd65"
definition MTLIST_INVALID :: ulong where "MTLIST_INVALID = 0x523c6bbf"
definition MTLISTELEMENT_VALID :: ulong where "MTLISTELEMENT_VALID = 0xa673edee"
definition MTLISTELEMENT_INVALID :: ulong where "MTLISTELEMENT_INVALID = 0x08039bc4"
definition MTLIST_ITERATE_FOR_WRITE :: "32 word" where "MTLIST_ITERATE_FOR_WRITE = 1"
definition MTLIST_ITERATE_FOR_READ :: "32 word" where "MTLIST_ITERATE_FOR_READ = 2"
definition MTLIST_DELETEMODE_AUTOMATIC :: int where "MTLIST_DELETEMODE_AUTOMATIC = 1"
definition MTLIST_DELETEMODE_MANUAL :: int where "MTLIST_DELETEMODE_MANUAL = 2"

record MTListElement =
  e_valid :: ulong
  e_rwlock :: "RWLock owned"
  e_flags :: int
  e_next :: nat
  e_data :: nat

record MTList =
  l_valid :: ulong
  l_rwlock :: "RWLock owned"
  l_first :: nat
  l_last :: nat
  l_numElement :: int
  l_deleteMode :: int

record mtl =
  mt_self :: "MTList owned"
  mt_elems :: "MTListElement heap"
  mt_mem :: nat
  mt_freed :: "nat list"

definition MTList_zero :: MTList where
  "MTList_zero = \<lparr>l_valid = 0, l_rwlock = Null, l_first = 0, l_last = 0, l_numElement = 0,
     l_deleteMode = 0\<rparr>"

definition MTListElement_zero :: MTListElement where
  "MTListElement_zero = \<lparr>e_valid = 0, e_rwlock = Null, e_flags = 0, e_next = 0, e_data = 0\<rparr>"

text \<open>\<^verbatim>\<open>ANY_FREE\<close> on a user pointer.\<close>

definition free_data :: "nat \<Rightarrow> nat list \<Rightarrow> nat list outcome" where
  "free_data d freed = defined_if (d \<notin> set freed) (Ok (freed @ [d]))"

subsection \<open>Elements\<close>

definition MTListElement_new ::
  "MTListElement heap \<Rightarrow> nat \<Rightarrow> (nat \<times> MTListElement heap \<times> nat) outcome" where
  "MTListElement_new h mem =
     (let (self, h, mem) = halloc MTListElement_zero h mem
      in ANY_REQUIRE (self \<noteq> 0) (Ok (self, h, mem)))"

definition MTListElement_init ::
  "nat \<Rightarrow> nat \<Rightarrow> MTListElement heap \<Rightarrow> nat \<Rightarrow> (bool \<times> MTListElement heap \<times> nat) outcome" where
  "MTListElement_init self data h mem =
     ANY_REQUIRE (self \<noteq> 0) (ANY_REQUIRE (data \<noteq> 0)
       (obind (hupd h self (e_valid_update (\<lambda>_. MTLISTELEMENT_INVALID))) (\<lambda>h.
        obind (RWLock_new mem) (\<lambda>(lk, mem).
        obind (RWLock_init lk RWLOCK_PRIVATE mem) (\<lambda>(_, lk, mem).
        obind (hupd h self (\<lambda>e. e\<lparr>e_rwlock := lk, e_flags := 0, e_next := 0, e_data := data,
                 e_valid := MTLISTELEMENT_VALID\<rparr>)) (\<lambda>h.
        Ok (True, h, mem)))))))"

definition MTListElement_clear :: "nat \<Rightarrow> MTListElement heap \<Rightarrow> MTListElement heap outcome" where
  "MTListElement_clear self h =
     ANY_REQUIRE (self \<noteq> 0)
       (obind (hread h self) (\<lambda>e.
        ANY_REQUIRE (e_valid e = MTLISTELEMENT_VALID)
          (obind (obind (RWLock_clear (e_rwlock e)) RWLock_delete) (\<lambda>lk.
           hwrite h self (e\<lparr>e_rwlock := lk, e_flags := 0, e_next := 0,
             e_valid := MTLISTELEMENT_INVALID\<rparr>)))))"

definition MTListElement_delete :: "nat \<Rightarrow> MTListElement heap \<Rightarrow> MTListElement heap outcome" where
  "MTListElement_delete self h = ANY_REQUIRE (self \<noteq> 0) (hfree h self)"

text \<open>The locking of an element: \<^verbatim>\<open>status = RWLock_...( ptr->rwlock );
  ANY_REQUIRE( status == 0 );\<close> around a callback.\<close>

definition elem_lock ::
  "(RWLock owned \<Rightarrow> (int \<times> RWLock owned) outcome) \<Rightarrow> MTListElement heap \<Rightarrow> nat \<Rightarrow>
   MTListElement heap outcome" where
  "elem_lock op h p =
     obind (hread h p) (\<lambda>e.
     obind (op (e_rwlock e)) (\<lambda>(status, lk).
     ANY_REQUIRE (status = 0) (hwrite h p (e\<lparr>e_rwlock := lk\<rparr>))))"

definition list_lock ::
  "(RWLock owned \<Rightarrow> (int \<times> RWLock owned) outcome) \<Rightarrow> MTList \<Rightarrow> MTList outcome" where
  "list_lock op s =
     obind (op (l_rwlock s)) (\<lambda>(status, lk). ANY_REQUIRE (status = 0) (Ok (s\<lparr>l_rwlock := lk\<rparr>)))"

text \<open>\<^verbatim>\<open>ANY_REQUIRE( self ); ANY_REQUIRE( self->valid == MTLIST_VALID );\<close>\<close>

definition with_list :: "mtl \<Rightarrow> (MTList \<Rightarrow> 'a outcome) \<Rightarrow> 'a outcome" where
  "with_list w k =
     require_ptr (mt_self w) (\<lambda>s. ANY_REQUIRE (l_valid s = MTLIST_VALID) (k s))"

subsection \<open>Operations of the list\<close>

definition MTList_new :: "mtl \<Rightarrow> mtl outcome" where
  "MTList_new w =
     (let (p, mem) = ANY_TALLOC MTList_zero (mt_mem w)
      in ANY_REQUIRE (p \<noteq> Null) (Ok (w\<lparr>mt_self := p, mt_mem := mem\<rparr>)))"

definition MTList_init :: "mtl \<Rightarrow> (bool \<times> mtl) outcome" where
  "MTList_init w =
     require_ptr (mt_self w) (\<lambda>s.
       obind (RWLock_new (mt_mem w)) (\<lambda>(lk, mem).
       obind (RWLock_init lk RWLOCK_PRIVATE mem) (\<lambda>(_, lk, mem).
       Ok (True, w\<lparr>mt_self := Own (s\<lparr>l_valid := MTLIST_VALID, l_rwlock := lk, l_first := 0,
           l_last := 0, l_numElement := 0, l_deleteMode := MTLIST_DELETEMODE_AUTOMATIC\<rparr>),
           mt_mem := mem\<rparr>))))"

definition MTList_setDeleteMode :: "int \<Rightarrow> mtl \<Rightarrow> mtl outcome" where
  "MTList_setDeleteMode deleteMode w =
     with_list w (\<lambda>s.
       obind (list_lock RWLock_writeLock s) (\<lambda>s.
       obind (list_lock RWLock_unlock (s\<lparr>l_deleteMode := deleteMode\<rparr>)) (\<lambda>s.
       Ok (w\<lparr>mt_self := Own s\<rparr>))))"

definition MTList_add :: "nat \<Rightarrow> mtl \<Rightarrow> (bool \<times> mtl) outcome" where
  "MTList_add data w =
     with_list w (\<lambda>s.
       obind (MTListElement_new (mt_elems w) (mt_mem w)) (\<lambda>(ptr, h, mem).
       obind (MTListElement_init ptr data h mem) (\<lambda>(ok, h, mem).
       if \<not> ok then Ok (False, w\<lparr>mt_elems := h, mt_mem := mem\<rparr>)
       else
         obind (list_lock RWLock_writeLock s) (\<lambda>s.
         obind (if l_numElement s \<noteq> 0
                then obind (hupd h (l_last s) (e_next_update (\<lambda>_. ptr))) (\<lambda>h. Ok (s, h))
                else Ok (s\<lparr>l_first := ptr\<rparr>, h)) (\<lambda>(s, h).
         obind (list_lock RWLock_unlock
                 (s\<lparr>l_last := ptr, l_numElement := l_numElement s + 1\<rparr>)) (\<lambda>s.
         Ok (True, w\<lparr>mt_self := Own s, mt_elems := h, mt_mem := mem\<rparr>)))))))"

definition MTList_insert :: "nat \<Rightarrow> mtl \<Rightarrow> (bool \<times> mtl) outcome" where
  "MTList_insert data w =
     with_list w (\<lambda>s.
       obind (MTListElement_new (mt_elems w) (mt_mem w)) (\<lambda>(ptr, h, mem).
       obind (MTListElement_init ptr data h mem) (\<lambda>(_, h, mem).
       obind (list_lock RWLock_writeLock s) (\<lambda>s.
       obind (hupd h ptr (e_next_update (\<lambda>_. l_first s))) (\<lambda>h.
       obind (let s = s\<lparr>l_first := ptr\<rparr>;
                  s = (if l_last s = 0 then s\<lparr>l_last := ptr\<rparr> else s)
              in list_lock RWLock_unlock (s\<lparr>l_numElement := l_numElement s + 1\<rparr>)) (\<lambda>s.
       Ok (True, w\<lparr>mt_self := Own s, mt_elems := h, mt_mem := mem\<rparr>)))))))"

text \<open>\<^verbatim>\<open>MTListElement **ptrNext\<close>: the pointer that leads to the current element.\<close>

datatype slot = FirstOf_list | NextOf nat

definition MTList_unlink ::
  "slot \<Rightarrow> nat \<Rightarrow> nat \<Rightarrow> MTList \<Rightarrow> MTListElement heap \<Rightarrow> nat list \<Rightarrow>
   (MTList \<times> MTListElement heap \<times> nat list) outcome" where
  "MTList_unlink ptrNext oldPtr ptr s h freed =
     obind (hread h ptr) (\<lambda>e.
     obind (case ptrNext of
              FirstOf_list \<Rightarrow> Ok (s\<lparr>l_first := e_next e\<rparr>, h)
            | NextOf q \<Rightarrow> obind (hupd h q (e_next_update (\<lambda>_. e_next e))) (\<lambda>h. Ok (s, h))) (\<lambda>(s, h).
     obind (if ptr = l_last s
            then obind (if oldPtr \<noteq> 0 then hupd h oldPtr (e_next_update (\<lambda>_. 0)) else Ok h)
                   (\<lambda>h. Ok (s\<lparr>l_last := oldPtr\<rparr>, h))
            else Ok (s, h)) (\<lambda>(s, h).
     obind (if e_data e \<noteq> 0 \<and> l_deleteMode s = MTLIST_DELETEMODE_AUTOMATIC
            then free_data (e_data e) freed else Ok freed) (\<lambda>freed.
     obind (MTListElement_clear ptr h) (\<lambda>h.
     obind (MTListElement_delete ptr h) (\<lambda>h.
     Ok (s\<lparr>l_numElement := l_numElement s - 1\<rparr>, h, freed)))))))"

fun MTList_remove_loop ::
  "nat \<Rightarrow> (nat \<Rightarrow> nat \<Rightarrow> int) \<Rightarrow> nat \<Rightarrow> slot \<Rightarrow> nat \<Rightarrow> nat \<Rightarrow> MTList \<Rightarrow> MTListElement heap \<Rightarrow>
   nat list \<Rightarrow> (bool \<times> MTList \<times> MTListElement heap \<times> nat list) outcome" where
  "MTList_remove_loop 0 cmpFunc searched ptrNext oldPtr ptr s h freed = Stuck"
| "MTList_remove_loop (Suc fuel) cmpFunc searched ptrNext oldPtr ptr s h freed =
     (if ptr = 0 then Ok (False, s, h, freed)
      else
        obind (elem_lock RWLock_readLock h ptr) (\<lambda>h.
        obind (hread h ptr) (\<lambda>e. let retCmpFunc = cmpFunc (e_data e) searched in
        obind (elem_lock RWLock_unlock h ptr) (\<lambda>h.
        if retCmpFunc = 0
        then obind (MTList_unlink ptrNext oldPtr ptr s h freed) (\<lambda>(s, h, freed).
               Ok (True, s, h, freed))
        else MTList_remove_loop fuel cmpFunc searched (NextOf ptr) ptr (e_next e) s h freed))))"

definition MTList_remove ::
  "(nat \<Rightarrow> nat \<Rightarrow> int) option \<Rightarrow> nat \<Rightarrow> mtl \<Rightarrow> (bool \<times> mtl) outcome" where
  "MTList_remove cmpFunc searched w =
     with_list w (\<lambda>s. ANY_REQUIRE (cmpFunc \<noteq> None)
       (obind (list_lock RWLock_writeLock s) (\<lambda>s.
        obind (MTList_remove_loop (brk (mt_elems w)) (the cmpFunc) searched FirstOf_list 0
                 (l_first s) s (mt_elems w) (mt_freed w)) (\<lambda>(result, s, h, freed).
        obind (list_lock RWLock_unlock s) (\<lambda>s.
        Ok (result, w\<lparr>mt_self := Own s, mt_elems := h, mt_freed := freed\<rparr>))))))"

fun MTList_set_loop ::
  "nat \<Rightarrow> nat \<Rightarrow> nat \<Rightarrow> nat \<Rightarrow> MTListElement heap \<Rightarrow> (nat \<times> MTListElement heap) outcome" where
  "MTList_set_loop 0 searched newData ptr h = Stuck"
| "MTList_set_loop (Suc fuel) searched newData ptr h =
     (if ptr = 0 then Ok (0, h)
      else
        obind (elem_lock RWLock_readLock h ptr) (\<lambda>h.
        obind (hread h ptr) (\<lambda>e.
        if e_data e = searched
        then obind (hwrite h ptr (e\<lparr>e_data := newData\<rparr>)) (\<lambda>h.
             obind (elem_lock RWLock_unlock h ptr) (\<lambda>h. Ok (ptr, h)))
        else obind (elem_lock RWLock_unlock h ptr) (\<lambda>h.
               MTList_set_loop fuel searched newData (e_next e) h))))"

definition MTList_set :: "nat \<Rightarrow> nat \<Rightarrow> mtl \<Rightarrow> (bool \<times> mtl) outcome" where
  "MTList_set searched newData w =
     with_list w (\<lambda>s.
       obind (list_lock RWLock_readLock s) (\<lambda>s.
       obind (MTList_set_loop (brk (mt_elems w)) searched newData (l_first s) (mt_elems w))
         (\<lambda>(ptr, h).
       obind (list_lock RWLock_unlock s) (\<lambda>s.
       Ok (ptr \<noteq> 0, w\<lparr>mt_self := Own s, mt_elems := h\<rparr>)))))"

text \<open>\<^verbatim>\<open>func\<close> sees the data and may change state \<open>u\<close> of its own.\<close>

fun MTList_iterate_loop ::
  "nat \<Rightarrow> (RWLock owned \<Rightarrow> (int \<times> RWLock owned) outcome) \<Rightarrow> (nat \<Rightarrow> 'u \<Rightarrow> int \<times> 'u) \<Rightarrow> nat \<Rightarrow>
   MTListElement heap \<Rightarrow> 'u \<Rightarrow> (nat \<times> MTListElement heap \<times> 'u) outcome" where
  "MTList_iterate_loop 0 lockFunc func ptr h u = Stuck"
| "MTList_iterate_loop (Suc fuel) lockFunc func ptr h u =
     (if ptr = 0 then Ok (0, h, u)
      else
        obind (elem_lock lockFunc h ptr) (\<lambda>h.
        obind (hread h ptr) (\<lambda>e. let (retFunc, u) = func (e_data e) u in
        obind (elem_lock RWLock_unlock h ptr) (\<lambda>h.
        if retFunc = 0 then Ok (ptr, h, u)
        else MTList_iterate_loop fuel lockFunc func (e_next e) h u))))"

definition MTList_iterate ::
  "(nat \<Rightarrow> 'u \<Rightarrow> int \<times> 'u) option \<Rightarrow> 32 word \<Rightarrow> mtl \<Rightarrow> 'u \<Rightarrow> (nat \<times> mtl \<times> 'u) outcome" where
  "MTList_iterate func flags w u =
     with_list w (\<lambda>s. ANY_REQUIRE (func \<noteq> None)
       (let lockFunc = (if and flags MTLIST_ITERATE_FOR_READ \<noteq> 0 then Some RWLock_readLock else None);
            lockFunc = (if and flags MTLIST_ITERATE_FOR_WRITE \<noteq> 0 then Some RWLock_writeLock
                        else lockFunc)
        in ANY_REQUIRE (lockFunc \<noteq> None)
          (obind (list_lock RWLock_readLock s) (\<lambda>s.
           obind (MTList_iterate_loop (brk (mt_elems w)) (the lockFunc) (the func) (l_first s)
                    (mt_elems w) u) (\<lambda>(ptr, h, u).
           obind (list_lock RWLock_unlock s) (\<lambda>s.
           obind (if ptr \<noteq> 0 then omap e_data (hread h ptr) else Ok 0) (\<lambda>r.
           Ok (r, w\<lparr>mt_self := Own s, mt_elems := h\<rparr>, u))))))))"

fun MTList_search_loop ::
  "nat \<Rightarrow> (nat \<Rightarrow> nat \<Rightarrow> int) \<Rightarrow> nat \<Rightarrow> nat \<Rightarrow> MTListElement heap \<Rightarrow>
   (nat \<times> MTListElement heap) outcome" where
  "MTList_search_loop 0 cmpFunc searched ptr h = Stuck"
| "MTList_search_loop (Suc fuel) cmpFunc searched ptr h =
     (if ptr = 0 then Ok (0, h)
      else
        obind (elem_lock RWLock_readLock h ptr) (\<lambda>h.
        obind (hread h ptr) (\<lambda>e. let retCmpFunc = cmpFunc (e_data e) searched in
        obind (elem_lock RWLock_unlock h ptr) (\<lambda>h.
        if retCmpFunc = 0 then Ok (ptr, h)
        else MTList_search_loop fuel cmpFunc searched (e_next e) h))))"

definition MTList_searchListElement ::
  "(nat \<Rightarrow> nat \<Rightarrow> int) option \<Rightarrow> nat \<Rightarrow> mtl \<Rightarrow> (nat \<times> mtl) outcome" where
  "MTList_searchListElement cmpFunc searched w =
     with_list w (\<lambda>s. ANY_REQUIRE (cmpFunc \<noteq> None)
       (obind (list_lock RWLock_readLock s) (\<lambda>s.
        obind (MTList_search_loop (brk (mt_elems w)) (the cmpFunc) searched (l_first s) (mt_elems w))
          (\<lambda>(ptr, h).
        obind (list_lock RWLock_unlock s) (\<lambda>s.
        Ok (ptr, w\<lparr>mt_self := Own s, mt_elems := h\<rparr>))))))"

definition MTList_search ::
  "(nat \<Rightarrow> nat \<Rightarrow> int) option \<Rightarrow> nat \<Rightarrow> mtl \<Rightarrow> (nat \<times> mtl) outcome" where
  "MTList_search cmpFunc searched w =
     with_list w (\<lambda>s. ANY_REQUIRE (cmpFunc \<noteq> None)
       (obind (MTList_searchListElement cmpFunc searched w) (\<lambda>(ptr, w).
        obind (if ptr \<noteq> 0 then omap e_data (hread (mt_elems w) ptr) else Ok 0) (\<lambda>r.
        Ok (r, w)))))"

fun MTList_isPresent_loop :: "nat \<Rightarrow> nat \<Rightarrow> nat \<Rightarrow> MTListElement heap \<Rightarrow> bool outcome" where
  "MTList_isPresent_loop 0 searched ptr h = Stuck"
| "MTList_isPresent_loop (Suc fuel) searched ptr h =
     (if ptr = 0 then Ok False
      else
        obind (hread h ptr) (\<lambda>e.
        ANY_REQUIRE (e_valid e = MTLISTELEMENT_VALID)
          (if e_data e = searched then Ok True
           else MTList_isPresent_loop fuel searched (e_next e) h)))"

definition MTList_isPresent :: "nat \<Rightarrow> mtl \<Rightarrow> (bool \<times> mtl) outcome" where
  "MTList_isPresent searched w =
     with_list w (\<lambda>s.
       obind (list_lock RWLock_readLock s) (\<lambda>s.
       obind (MTList_isPresent_loop (brk (mt_elems w)) searched (l_first s) (mt_elems w)) (\<lambda>result.
       obind (list_lock RWLock_unlock s) (\<lambda>s.
       Ok (result, w\<lparr>mt_self := Own s\<rparr>)))))"

definition MTList_numElements :: "mtl \<Rightarrow> (int \<times> mtl) outcome" where
  "MTList_numElements w =
     with_list w (\<lambda>s.
       obind (list_lock RWLock_readLock s) (\<lambda>s.
       let num = l_numElement s in
       obind (list_lock RWLock_unlock s) (\<lambda>s.
       Ok (num, w\<lparr>mt_self := Own s\<rparr>))))"

definition MTList_getNextElement :: "nat \<Rightarrow> mtl \<Rightarrow> (nat \<times> mtl) outcome" where
  "MTList_getNextElement current w =
     with_list w (\<lambda>s.
       obind (list_lock RWLock_readLock s) (\<lambda>s.
       obind (if l_numElement s = 0 then Ok (0, mt_elems w)
              else if current \<noteq> 0
              then obind (hread (mt_elems w) current) (\<lambda>e.
                   ANY_REQUIRE (e_valid e = MTLISTELEMENT_VALID)
                     (obind (elem_lock RWLock_readLock (mt_elems w) current) (\<lambda>h.
                      obind (hread h current) (\<lambda>e.
                      obind (elem_lock RWLock_unlock h current) (\<lambda>h.
                      Ok (e_next e, h))))))
              else Ok (l_first s, mt_elems w)) (\<lambda>(nxt, h).
       obind (list_lock RWLock_unlock s) (\<lambda>s.
       Ok (nxt, w\<lparr>mt_self := Own s, mt_elems := h\<rparr>)))))"

definition MTList_getNextElementNoLock :: "nat \<Rightarrow> mtl \<Rightarrow> nat outcome" where
  "MTList_getNextElementNoLock current w =
     with_list w (\<lambda>s.
       if l_numElement s = 0 then Ok 0
       else if current \<noteq> 0
       then obind (hread (mt_elems w) current) (\<lambda>e.
              ANY_REQUIRE (e_valid e = MTLISTELEMENT_VALID) (Ok (e_next e)))
       else Ok (l_first s))"

definition MTList_getElementData :: "nat \<Rightarrow> mtl \<Rightarrow> nat outcome" where
  "MTList_getElementData element w =
     with_list w (\<lambda>s.
       if element \<noteq> 0
       then obind (hread (mt_elems w) element) (\<lambda>e.
              ANY_REQUIRE (e_valid e = MTLISTELEMENT_VALID) (Ok (e_data e)))
       else Ok 0)"

fun MTList_clear_loop ::
  "nat \<Rightarrow> nat \<Rightarrow> MTList \<Rightarrow> MTListElement heap \<Rightarrow> nat list \<Rightarrow>
   (MTList \<times> MTListElement heap \<times> nat list) outcome" where
  "MTList_clear_loop 0 ptr s h freed = Stuck"
| "MTList_clear_loop (Suc fuel) ptr s h freed =
     (if ptr = 0 then Ok (s, h, freed)
      else
        obind (hread h ptr) (\<lambda>e.
        ANY_REQUIRE (e_valid e = MTLISTELEMENT_VALID)
          (let s = s\<lparr>l_first := e_next e\<rparr> in
           obind (if e_data e \<noteq> 0 \<and> l_deleteMode s = MTLIST_DELETEMODE_AUTOMATIC
                  then free_data (e_data e) freed else Ok freed) (\<lambda>freed.
           obind (hupd h ptr (e_data_update (\<lambda>_. 0))) (\<lambda>h.
           obind (MTListElement_clear ptr h) (\<lambda>h.
           obind (MTListElement_delete ptr h) (\<lambda>h.
           MTList_clear_loop fuel (l_first s) (s\<lparr>l_numElement := l_numElement s - 1\<rparr>) h freed)))))))"

definition MTList_clear :: "mtl \<Rightarrow> mtl outcome" where
  "MTList_clear w =
     with_list w (\<lambda>s.
       obind (list_lock RWLock_writeLock s) (\<lambda>s.
       obind (if l_numElement s \<noteq> 0
              then MTList_clear_loop (brk (mt_elems w)) (l_first s) s (mt_elems w) (mt_freed w)
              else Ok (s, mt_elems w, mt_freed w)) (\<lambda>(s, h, freed).
       ANY_REQUIRE (l_numElement s = 0 \<and> l_first s = 0)
         (obind (list_lock RWLock_unlock (s\<lparr>l_last := l_first s\<rparr>)) (\<lambda>s.
          obind (obind (RWLock_clear (l_rwlock s)) RWLock_delete) (\<lambda>lk.
          Ok (w\<lparr>mt_self := Own (s\<lparr>l_rwlock := lk, l_valid := MTLIST_INVALID\<rparr>),
                mt_elems := h, mt_freed := freed\<rparr>)))))))"

definition MTList_delete :: "mtl \<Rightarrow> mtl outcome" where
  "MTList_delete w =
     ANY_REQUIRE (mt_self w \<noteq> Null)
       (obind (ANY_FREE (mt_self w)) (\<lambda>p. Ok (w\<lparr>mt_self := p\<rparr>)))"

subsection \<open>The invariant and the abstract value\<close>

definition elem_ok :: "MTListElement heap \<Rightarrow> nat \<Rightarrow> bool" where
  "elem_ok h a = (case cells h a of
     None \<Rightarrow> False
   | Some e \<Rightarrow> e_valid e = MTLISTELEMENT_VALID \<and> rwlock_free (e_rwlock e))"

definition mtlist_ok :: "MTList \<Rightarrow> MTListElement heap \<Rightarrow> nat list \<Rightarrow> bool" where
  "mtlist_ok s h as \<longleftrightarrow>
     heap_ok h \<and> l_valid s = MTLIST_VALID \<and> lseg e_next (cells h) (l_first s) as 0 \<and>
     l_last s = (if as = [] then 0 else last as) \<and> l_numElement s = int (length as) \<and>
     (\<forall>a \<in> set as. elem_ok h a)"

definition edata :: "MTListElement heap \<Rightarrow> nat \<Rightarrow> nat" where
  "edata h a = (case cells h a of None \<Rightarrow> 0 | Some e \<Rightarrow> e_data e)"

definition mtl_addrs :: "mtl \<Rightarrow> nat list" where
  "mtl_addrs w = (case mt_self w of
     Own s \<Rightarrow> chain (brk (mt_elems w)) e_next (cells (mt_elems w)) (l_first s)
   | _ \<Rightarrow> [])"

definition mtl_inv :: "mtl \<Rightarrow> bool" where
  "mtl_inv w = (case mt_self w of
     Own s \<Rightarrow> rwlock_free (l_rwlock s) \<and> mtlist_ok s (mt_elems w) (mtl_addrs w)
   | _ \<Rightarrow> False)"

text \<open>The data of the elements from the first to the last.\<close>

definition mtl_data :: "mtl \<Rightarrow> nat list" where
  "mtl_data w = map (edata (mt_elems w)) (mtl_addrs w)"

definition mtl_mode :: "mtl \<Rightarrow> int" where
  "mtl_mode w = (case mt_self w of Own s \<Rightarrow> l_deleteMode s | _ \<Rightarrow> 0)"

end
