(* ===== verification/Interfaces.thy ===== *)
theory Interfaces
  imports Prelude
begin

text \<open>
  The contract the containers of the library share. A component offers operations \<open>'op\<close>
  on a concrete state \<open>'s\<close>; \<open>spec\<close> says what an operation answers and does to
  the abstract value \<open>'a\<close>, \<open>legal\<close> when a caller may use it, and \<open>cost\<close> how many
  allocations it makes. The law is that a legal operation with enough memory left
  returns, keeps the invariant and does what the specification says.

  From it follow, once for all components, the same statements for whole sequences of
  operations: they never abort, never fault and never hang, and their answers are those
  of the specification.
\<close>

fun run :: "('op \<Rightarrow> 's \<Rightarrow> ('r \<times> 's) outcome) \<Rightarrow> 'op list \<Rightarrow> 's \<Rightarrow> ('r list \<times> 's) outcome" where
  "run step [] s = Ok ([], s)"
| "run step (p # ps) s =
     obind (step p s) (\<lambda>(r, s). obind (run step ps s) (\<lambda>(rs, s). Ok (r # rs, s)))"

fun spec_run :: "('op \<Rightarrow> 'a \<Rightarrow> 'r \<times> 'a) \<Rightarrow> 'op list \<Rightarrow> 'a \<Rightarrow> 'r list \<times> 'a" where
  "spec_run spec [] a = ([], a)"
| "spec_run spec (p # ps) a =
     (let (r, a) = spec p a; (rs, a) = spec_run spec ps a in (r # rs, a))"

fun legal_run :: "('op \<Rightarrow> 'a \<Rightarrow> 'r \<times> 'a) \<Rightarrow> ('op \<Rightarrow> 'a \<Rightarrow> bool) \<Rightarrow> 'op list \<Rightarrow> 'a \<Rightarrow> bool" where
  "legal_run spec legal [] a \<longleftrightarrow> True"
| "legal_run spec legal (p # ps) a \<longleftrightarrow> legal p a \<and> legal_run spec legal ps (snd (spec p a))"

lemma run_append:
  "run step (ps @ qs) s =
     obind (run step ps s) (\<lambda>(rs, s). obind (run step qs s) (\<lambda>(rs', s). Ok (rs @ rs', s)))"
proof (induction ps arbitrary: s)
  case Nil
  then show ?case by (cases "run step qs s") auto
next
  case (Cons p ps)
  show ?case
  proof (cases "step p s")
    case (Ok x)
    then show ?thesis
      by (cases x) (auto simp: Cons.IH obind_assoc split_beta)
  qed simp_all
qed

locale component =
  fixes step :: "'op \<Rightarrow> 's \<Rightarrow> ('r \<times> 's) outcome"
    and spec :: "'op \<Rightarrow> 'a \<Rightarrow> 'r \<times> 'a"
    and inv :: "'s \<Rightarrow> bool"
    and abs :: "'s \<Rightarrow> 'a"
    and legal :: "'op \<Rightarrow> 'a \<Rightarrow> bool"
    and cost :: "'op \<Rightarrow> nat"
    and mem :: "'s \<Rightarrow> nat"
  assumes step_ok: "inv s \<Longrightarrow> legal p (abs s) \<Longrightarrow> cost p \<le> mem s \<Longrightarrow>
    \<exists>s'. step p s = Ok (fst (spec p (abs s)), s') \<and> inv s' \<and> abs s' = snd (spec p (abs s)) \<and>
      mem s \<le> mem s' + cost p"
begin

lemma run_ok:
  assumes "inv s" and "legal_run spec legal ps (abs s)" and "sum_list (map cost ps) \<le> mem s"
  shows "\<exists>s'. run step ps s = Ok (fst (spec_run spec ps (abs s)), s') \<and> inv s' \<and>
    abs s' = snd (spec_run spec ps (abs s)) \<and> mem s \<le> mem s' + sum_list (map cost ps)"
  using assms
proof (induction ps arbitrary: s)
  case (Cons p ps)
  have pre: "legal p (abs s)" "cost p \<le> mem s" using Cons.prems by auto
  obtain s1 where s1: "step p s = Ok (fst (spec p (abs s)), s1)" "inv s1"
    "abs s1 = snd (spec p (abs s))" "mem s \<le> mem s1 + cost p"
    using step_ok [OF Cons.prems(1) pre] by blast
  have "legal_run spec legal ps (abs s1)" "sum_list (map cost ps) \<le> mem s1"
    using Cons.prems(2,3) s1(3,4) by auto
  from Cons.IH [OF s1(2) this] obtain s2 where
    "run step ps s1 = Ok (fst (spec_run spec ps (abs s1)), s2)" "inv s2"
    "abs s2 = snd (spec_run spec ps (abs s1))" "mem s1 \<le> mem s2 + sum_list (map cost ps)"
    by blast
  with s1 show ?case by (simp add: split_beta Let_def)
qed simp

lemma run_returns:
  assumes "inv s" and "legal_run spec legal ps (abs s)" and "sum_list (map cost ps) \<le> mem s"
  shows "returns (run step ps s)"
  using run_ok [OF assms] by auto

text \<open>An invariant of the abstract value that every legal operation keeps holds of the
  abstract value of every state that is reached.\<close>

lemma run_abs_invariant:
  assumes "inv s" and "legal_run spec legal ps (abs s)" and "sum_list (map cost ps) \<le> mem s"
    and "P (abs s)" and "\<And>p a. P a \<Longrightarrow> legal p a \<Longrightarrow> P (snd (spec p a))"
    and "run step ps s = Ok (rs, s')"
  shows "P (abs s')"
proof -
  have "P (snd (spec_run spec ps a))" if "legal_run spec legal ps a" "P a" for a
    using that assms(5) by (induction ps arbitrary: a) (auto simp: split_beta Let_def)
  with assms(2,4) run_ok [OF assms(1-3)] assms(6) show ?thesis by auto
qed

end

end
