(* ===== verification/MT_List_Correct.thy ===== *)
theory MT_List_Correct
  imports MT_List Interfaces
begin

text \<open>
  Correctness of \<^verbatim>\<open>MTList\<close>: the loops against \<open>find_first\<close> and \<open>remove_first\<close> on the list
  of data, preservation of the invariant \<open>mtl_inv\<close> by every operation, and the
  refinement of lists.
\<close>

subsection \<open>Locks of the elements and of the list\<close>

lemma elem_okD: "elem_ok h a \<Longrightarrow> \<exists>e. cells h a = Some e \<and> e_valid e = MTLISTELEMENT_VALID \<and>
    rwlock_free (e_rwlock e)"
  by (auto simp: elem_ok_def split: option.splits)

lemma elem_ok_Some:
  "cells h a = Some e \<Longrightarrow> elem_ok h a \<longleftrightarrow> e_valid e = MTLISTELEMENT_VALID \<and> rwlock_free (e_rwlock e)"
  by (simp add: elem_ok_def)

lemma edata_Some [simp]: "cells h a = Some e \<Longrightarrow> edata h a = e_data e"
  by (simp add: edata_def)

lemma elem_lock_read [simp]:
  "cells h a = Some e \<Longrightarrow> rwlock_free (e_rwlock e) \<Longrightarrow>
   elem_lock RWLock_readLock h a =
     Ok (h\<lparr>cells := (cells h)(a \<mapsto> e\<lparr>e_rwlock := rw_set (RwRead (Suc 0)) (e_rwlock e)\<rparr>)\<rparr>)"
  by (simp add: elem_lock_def)

lemma elem_lock_write [simp]:
  "cells h a = Some e \<Longrightarrow> rwlock_free (e_rwlock e) \<Longrightarrow>
   elem_lock RWLock_writeLock h a =
     Ok (h\<lparr>cells := (cells h)(a \<mapsto> e\<lparr>e_rwlock := rw_set RwWrite (e_rwlock e)\<rparr>)\<rparr>)"
  by (simp add: elem_lock_def)

lemma elem_unlock [simp]:
  "cells h a = Some e \<Longrightarrow> RWLock_unlock (e_rwlock e) = Ok (0, lk) \<Longrightarrow>
   elem_lock RWLock_unlock h a = Ok (h\<lparr>cells := (cells h)(a \<mapsto> e\<lparr>e_rwlock := lk\<rparr>)\<rparr>)"
  by (simp add: elem_lock_def)

lemma list_lock_read [simp]:
  "rwlock_free (l_rwlock s) \<Longrightarrow>
   list_lock RWLock_readLock s = Ok (s\<lparr>l_rwlock := rw_set (RwRead (Suc 0)) (l_rwlock s)\<rparr>)"
  by (simp add: list_lock_def)

lemma list_lock_write [simp]:
  "rwlock_free (l_rwlock s) \<Longrightarrow>
   list_lock RWLock_writeLock s = Ok (s\<lparr>l_rwlock := rw_set RwWrite (l_rwlock s)\<rparr>)"
  by (simp add: list_lock_def)

lemma list_unlock [simp]:
  "RWLock_unlock (l_rwlock s) = Ok (0, lk) \<Longrightarrow>
   list_lock RWLock_unlock s = Ok (s\<lparr>l_rwlock := lk\<rparr>)"
  by (simp add: list_lock_def)

lemma heap_triv [simp]: "cells h a = Some e \<Longrightarrow> h\<lparr>cells := (cells h)(a \<mapsto> e)\<rparr> = h"
  by (simp add: map_upd_triv)

subsection \<open>The loops\<close>

lemma search_loop_correct:
  assumes "lseg e_next (cells h) p as 0" and "\<forall>a \<in> set as. elem_ok h a" and "length as < fuel"
  shows "MTList_search_loop fuel cmpFunc searched p h =
    Ok (case find_first (\<lambda>a. cmpFunc (edata h a) searched = 0) as of None \<Rightarrow> 0 | Some a \<Rightarrow> a, h)"
  using assms
proof (induction as arbitrary: p fuel)
  case Nil
  then show ?case by (cases fuel) simp_all
next
  case (Cons a as)
  from Cons.prems(3) obtain n where fuel: "fuel = Suc n" "length as < n" by (cases fuel) auto
  from Cons.prems(1,2) obtain e where e: "cells h a = Some e" "rwlock_free (e_rwlock e)"
    "lseg e_next (cells h) (e_next e) as 0" "p = a" "a \<noteq> 0"
    by (auto simp: elem_ok_def split: option.splits)
  have "MTList_search_loop n cmpFunc searched (e_next e) h =
    Ok (case find_first (\<lambda>a. cmpFunc (edata h a) searched = 0) as of None \<Rightarrow> 0 | Some a \<Rightarrow> a, h)"
    using Cons.IH [OF e(3)] Cons.prems(2) fuel(2) by simp
  with e fuel(1) show ?case by (simp add: Let_def)
qed

lemma isPresent_loop_correct:
  assumes "lseg e_next (cells h) p as 0" and "\<forall>a \<in> set as. elem_ok h a" and "length as < fuel"
  shows "MTList_isPresent_loop fuel searched p h = Ok (searched \<in> edata h ` set as)"
  using assms
proof (induction as arbitrary: p fuel)
  case Nil
  then show ?case by (cases fuel) simp_all
next
  case (Cons a as)
  from Cons.prems(3) obtain n where fuel: "fuel = Suc n" "length as < n" by (cases fuel) auto
  from Cons.prems(1,2) obtain e where e: "cells h a = Some e" "e_valid e = MTLISTELEMENT_VALID"
    "lseg e_next (cells h) (e_next e) as 0" "p = a" "a \<noteq> 0"
    by (auto simp: elem_ok_def split: option.splits)
  have "MTList_isPresent_loop n searched (e_next e) h = Ok (searched \<in> edata h ` set as)"
    using Cons.IH [OF e(3)] Cons.prems(2) fuel(2) by simp
  with e fuel(1) show ?case by auto
qed

text \<open>What \<^verbatim>\<open>MTList_iterate\<close> does: it calls the function on the data in order, up to the first
  call that returns 0.\<close>

fun iterate_data :: "(nat \<Rightarrow> 'u \<Rightarrow> int \<times> 'u) \<Rightarrow> nat list \<Rightarrow> 'u \<Rightarrow> nat option \<times> 'u" where
  "iterate_data func [] u = (None, u)"
| "iterate_data func (d # ds) u =
     (let (r, u) = func d u in if r = 0 then (Some d, u) else iterate_data func ds u)"

lemma iterate_loop_correct:
  assumes "lseg e_next (cells h) p as 0" and "\<forall>a \<in> set as. elem_ok h a" and "length as < fuel"
    and "lockFunc = RWLock_readLock \<or> lockFunc = RWLock_writeLock"
    and "\<forall>a \<in> set as. edata h a \<noteq> 0"
  shows "\<exists>ptr. MTList_iterate_loop fuel lockFunc func p h u =
      Ok (ptr, h, snd (iterate_data func (map (edata h) as) u)) \<and>
    (ptr = 0 \<longleftrightarrow> fst (iterate_data func (map (edata h) as) u) = None) \<and>
    (ptr \<noteq> 0 \<longrightarrow> ptr \<in> set as \<and> fst (iterate_data func (map (edata h) as) u) = Some (edata h ptr))"
  using assms(1,2,3,5)
proof (induction as arbitrary: p fuel u)
  case Nil
  then show ?case by (cases fuel) simp_all
next
  case (Cons a as)
  from Cons.prems(3) obtain n where fuel: "fuel = Suc n" "length as < n" by (cases fuel) auto
  from Cons.prems(1,2) obtain e where e: "cells h a = Some e" "rwlock_free (e_rwlock e)"
    "lseg e_next (cells h) (e_next e) as 0" "p = a" "a \<noteq> 0"
    by (auto simp: elem_ok_def split: option.splits)
  obtain r u' where f: "func (e_data e) u = (r, u')" by fastforce
  note IH = Cons.IH [OF e(3), of n u'] 
  have step: "MTList_iterate_loop fuel lockFunc func p h u =
      (if r = 0 then Ok (a, h, u') else MTList_iterate_loop n lockFunc func (e_next e) h u')"
    using assms(4) e f fuel(1) by auto
  show ?case
    using IH step e f Cons.prems(2,4) fuel(2) by (auto simp: Let_def)
qed

lemma set_loop_correct:
  assumes "lseg e_next (cells h) p as 0" and "\<forall>a \<in> set as. elem_ok h a" and "length as < fuel"
  shows "MTList_set_loop fuel searched newData p h =
    Ok (case find_first (\<lambda>a. edata h a = searched) as of
          None \<Rightarrow> (0, h)
        | Some a \<Rightarrow> (a, h\<lparr>cells := (cells h)(a \<mapsto> (the (cells h a))\<lparr>e_data := newData\<rparr>)\<rparr>))"
  using assms
proof (induction as arbitrary: p fuel)
  case Nil
  then show ?case by (cases fuel) simp_all
next
  case (Cons a as)
  from Cons.prems(3) obtain n where fuel: "fuel = Suc n" "length as < n" by (cases fuel) auto
  from Cons.prems(1,2) obtain e where e: "cells h a = Some e" "rwlock_free (e_rwlock e)"
    "lseg e_next (cells h) (e_next e) as 0" "p = a" "a \<noteq> 0"
    by (auto simp: elem_ok_def split: option.splits)
  have "MTList_set_loop n searched newData (e_next e) h =
    Ok (case find_first (\<lambda>a. edata h a = searched) as of
          None \<Rightarrow> (0, h)
        | Some a \<Rightarrow> (a, h\<lparr>cells := (cells h)(a \<mapsto> (the (cells h a))\<lparr>e_data := newData\<rparr>)\<rparr>))"
    using Cons.IH [OF e(3)] Cons.prems(2) fuel(2) by simp
  with e fuel(1) show ?case by simp
qed

subsection \<open>Unlinking an element\<close>

lemma element_clear_delete:
  assumes "cells h a = Some e" and "e_valid e = MTLISTELEMENT_VALID" and "rwlock_free (e_rwlock e)"
    and "a \<noteq> 0"
  shows "obind (MTListElement_clear a h) (MTListElement_delete a) =
    Ok (h\<lparr>cells := (cells h)(a := None)\<rparr>)"
  using assms by (simp add: MTListElement_clear_def MTListElement_delete_def)

lemma mtlist_ok_distinct: "mtlist_ok s h as \<Longrightarrow> distinct as"
  by (auto simp: mtlist_ok_def dest: lseg_distinct)

lemma mtlist_ok_elem:
  assumes "mtlist_ok s h as" and "a \<in> set as"
  obtains e where "cells h a = Some e" "e_valid e = MTLISTELEMENT_VALID"
    "rwlock_free (e_rwlock e)" "a \<noteq> 0"
proof -
  have "elem_ok h a" "a \<noteq> 0" using assms by (auto simp: mtlist_ok_def dest: lseg_nonnull)
  with elem_okD that show ?thesis by blast
qed

lemma elem_ok_upd [simp]:
  "elem_ok (h\<lparr>cells := (cells h)(q \<mapsto> d)\<rparr>) b \<longleftrightarrow>
     (if b = q then e_valid d = MTLISTELEMENT_VALID \<and> rwlock_free (e_rwlock d) else elem_ok h b)"
  by (simp add: elem_ok_def)

lemma elem_ok_del [simp]:
  "elem_ok (h\<lparr>cells := (cells h)(q := None)\<rparr>) b \<longleftrightarrow> b \<noteq> q \<and> elem_ok h b"
  by (simp add: elem_ok_def)

lemma edata_upd [simp]:
  "edata (h\<lparr>cells := (cells h)(q \<mapsto> d)\<rparr>) b = (if b = q then e_data d else edata h b)"
  by (simp add: edata_def)

lemma edata_del [simp]:
  "edata (h\<lparr>cells := (cells h)(q := None)\<rparr>) b = (if b = q then 0 else edata h b)"
  by (simp add: edata_def)

definition slot_of :: "nat list \<Rightarrow> slot" where
  "slot_of pre = (if pre = [] then FirstOf_list else NextOf (last pre))"

definition old_of :: "nat list \<Rightarrow> nat" where
  "old_of pre = (if pre = [] then 0 else last pre)"

text \<open>The user pointers released when an element with data \<open>d\<close> goes away.\<close>

definition released :: "int \<Rightarrow> nat list \<Rightarrow> nat list" where
  "released mode ds = (if mode = MTLIST_DELETEMODE_AUTOMATIC then filter (\<lambda>d. d \<noteq> 0) ds else [])"

text \<open>The state after an element has been unlinked and released.\<close>

definition unlinked ::
  "MTList \<Rightarrow> MTListElement heap \<Rightarrow> nat list \<Rightarrow> MTList \<Rightarrow> MTListElement heap \<Rightarrow> bool" where
  "unlinked s h as s' h' \<longleftrightarrow>
     mtlist_ok s' h' as \<and> (\<forall>b \<in> set as. edata h' b = edata h b) \<and>
     l_rwlock s' = l_rwlock s \<and> l_deleteMode s' = l_deleteMode s \<and> brk h' = brk h"

lemma unlink_first:
  assumes ok: "mtlist_ok s h (a # post)"
    and free: "released (l_deleteMode s) [edata h a] = [] \<or> edata h a \<notin> set freed"
  shows "\<exists>s' h'. MTList_unlink FirstOf_list 0 a s h freed =
      Ok (s', h', freed @ released (l_deleteMode s) [edata h a]) \<and> unlinked s h post s' h'"
proof -
  obtain e where e: "cells h a = Some e" "e_valid e = MTLISTELEMENT_VALID"
    "rwlock_free (e_rwlock e)" "a \<noteq> 0"
    using mtlist_ok_elem [OF ok, of a] by auto
  note clear = element_clear_delete [OF e]
  have dist: "a \<notin> set post" using mtlist_ok_distinct [OF ok] by simp
  have seg: "lseg e_next (cells h) (e_next e) post 0" "heap_ok h" "l_valid s = MTLIST_VALID"
    "l_numElement s = int (length post) + 1" "\<forall>b \<in> set post. elem_ok h b"
    "l_last s = (if post = [] then a else last post)"
    using ok e by (auto simp: mtlist_ok_def)
  have last: "a = l_last s \<longleftrightarrow> post = []" using seg(6) dist by auto
  show ?thesis
    using e seg last dist free clear
    by (auto simp: MTList_unlink_def released_def free_data_def unlinked_def mtlist_ok_def
        obind_assoc [symmetric] split: if_splits)
qed

lemma unlink_behind:
  assumes ok: "mtlist_ok s h (pre @ q # a # post)"
    and free: "released (l_deleteMode s) [edata h a] = [] \<or> edata h a \<notin> set freed"
  shows "\<exists>s' h'. MTList_unlink (NextOf q) q a s h freed =
      Ok (s', h', freed @ released (l_deleteMode s) [edata h a]) \<and>
      unlinked s h (pre @ q # post) s' h'"
proof -
  obtain e where e: "cells h a = Some e" "e_valid e = MTLISTELEMENT_VALID"
    "rwlock_free (e_rwlock e)" "a \<noteq> 0"
    using mtlist_ok_elem [OF ok, of a] by auto
  obtain d where d: "cells h q = Some d" "e_valid d = MTLISTELEMENT_VALID"
    "rwlock_free (e_rwlock d)" "q \<noteq> 0"
    using mtlist_ok_elem [OF ok, of q] by auto
  have dist: "a \<notin> set post" "a \<notin> set pre" "a \<noteq> q" "q \<notin> set post" "q \<notin> set pre"
    using mtlist_ok_distinct [OF ok] by auto
  have seg: "lseg e_next (cells h) (l_first s) pre q" "lseg e_next (cells h) (e_next e) post 0"
    using ok e d by (auto simp: mtlist_ok_def lseg_append)
  have rest: "heap_ok h" "l_valid s = MTLIST_VALID"
    "l_numElement s = int (length pre) + int (length post) + 2"
    "\<forall>b \<in> set pre \<union> set post. elem_ok h b" "l_last s = (if post = [] then a else last post)"
    using ok by (auto simp: mtlist_ok_def)
  define h1 where "h1 = h\<lparr>cells := (cells h)(q \<mapsto> d\<lparr>e_next := e_next e\<rparr>)\<rparr>"
  have last: "a = l_last s \<longleftrightarrow> post = []" using rest(5) dist by auto
  have next0: "e_next e = 0" if "post = []" using seg(2) that by simp
  have cl: "obind (MTListElement_clear a (h\<lparr>cells := (cells h)(q \<mapsto> d')\<rparr>)) (MTListElement_delete a) =
      Ok (h\<lparr>cells := (cells h)(q \<mapsto> d', a := None)\<rparr>)" for d'
    using e dist(3) element_clear_delete [of "h\<lparr>cells := (cells h)(q \<mapsto> d')\<rparr>" a e] by simp
  have "MTList_unlink (NextOf q) q a s h freed =
      Ok (s\<lparr>l_last := (if post = [] then q else l_last s), l_numElement := l_numElement s - 1\<rparr>,
          h1\<lparr>cells := (cells h1)(a := None)\<rparr>, freed @ released (l_deleteMode s) [edata h a])"
    using e d dist free last next0 cl
    by (auto simp: MTList_unlink_def released_def free_data_def obind_assoc [symmetric] h1_def)
  moreover have "unlinked s h (pre @ q # post)
      (s\<lparr>l_last := (if post = [] then q else l_last s), l_numElement := l_numElement s - 1\<rparr>)
      (h1\<lparr>cells := (cells h1)(a := None)\<rparr>)"
  proof -
    have "heap_ok (h1\<lparr>cells := (cells h1)(a := None)\<rparr>)"
      unfolding h1_def using rest(1) d(1) by (intro heap_ok_cells) auto
    moreover have "lseg e_next ((cells h1)(a := None)) (l_first s) (pre @ q # post) 0"
      using e d dist seg by (auto simp: lseg_append h1_def)
    moreover have "elem_ok (h1\<lparr>cells := (cells h1)(a := None)\<rparr>) b \<and>
        edata (h1\<lparr>cells := (cells h1)(a := None)\<rparr>) b = edata h b" if "b \<in> set (pre @ q # post)" for b
      using that rest(4) d dist unfolding elem_ok_del edata_del h1_def elem_ok_upd edata_upd by auto
    ultimately show ?thesis
      using rest by (auto simp: unlinked_def mtlist_ok_def h1_def)
  qed
  ultimately show ?thesis by blast
qed

lemma unlink_correct:
  assumes "mtlist_ok s h (pre @ a # post)"
    and "released (l_deleteMode s) [edata h a] = [] \<or> edata h a \<notin> set freed"
  shows "\<exists>s' h'. MTList_unlink (slot_of pre) (old_of pre) a s h freed =
      Ok (s', h', freed @ released (l_deleteMode s) [edata h a]) \<and> unlinked s h (pre @ post) s' h'"
proof (cases pre rule: rev_cases)
  case Nil
  with assms unlink_first [of s h a post freed] show ?thesis by (simp add: slot_of_def old_of_def)
next
  case (snoc ys q)
  with assms unlink_behind [of s h ys q a post freed] show ?thesis
    by (simp add: slot_of_def old_of_def)
qed

lemma slot_of_snoc [simp]: "slot_of (pre @ [a]) = NextOf a" "old_of (pre @ [a]) = a"
  by (simp_all add: slot_of_def old_of_def)

lemma remove_loop_none:
  assumes "mtlist_ok s h (pre @ as)" and "lseg e_next (cells h) p as 0" and "length as < fuel"
    and "\<forall>a \<in> set as. cmpFunc (edata h a) searched \<noteq> 0"
  shows "MTList_remove_loop fuel cmpFunc searched (slot_of pre) (old_of pre) p s h freed =
    Ok (False, s, h, freed)"
  using assms
proof (induction as arbitrary: pre p fuel)
  case Nil
  then show ?case by (cases fuel) simp_all
next
  case (Cons a as)
  from Cons.prems(3) obtain n where fuel: "fuel = Suc n" "length as < n" by (cases fuel) auto
  obtain e where e: "cells h a = Some e" "e_valid e = MTLISTELEMENT_VALID"
    "rwlock_free (e_rwlock e)" "a \<noteq> 0"
    using mtlist_ok_elem [OF Cons.prems(1), of a] by auto
  have "MTList_remove_loop n cmpFunc searched (NextOf a) a (e_next e) s h freed =
      Ok (False, s, h, freed)"
    using Cons.IH [of "pre @ [a]" "e_next e" n] Cons.prems e fuel by simp
  with e fuel(1) Cons.prems show ?case by (simp add: Let_def)
qed

lemma remove_loop_found:
  assumes "mtlist_ok s h (pre @ as @ a # post)" and "lseg e_next (cells h) p (as @ a # post) 0"
    and "length as < fuel"
    and "\<forall>b \<in> set as. cmpFunc (edata h b) searched \<noteq> 0" and "cmpFunc (edata h a) searched = 0"
    and "released (l_deleteMode s) [edata h a] = [] \<or> edata h a \<notin> set freed"
  shows "\<exists>s' h'. MTList_remove_loop fuel cmpFunc searched (slot_of pre) (old_of pre) p s h freed =
      Ok (True, s', h', freed @ released (l_deleteMode s) [edata h a]) \<and>
      unlinked s h (pre @ as @ post) s' h'"
  using assms
proof (induction as arbitrary: pre p fuel)
  case Nil
  from Nil.prems(3) obtain n where fuel: "fuel = Suc n" by (cases fuel) auto
  obtain e where e: "cells h a = Some e" "e_valid e = MTLISTELEMENT_VALID"
    "rwlock_free (e_rwlock e)" "a \<noteq> 0"
    using mtlist_ok_elem [OF Nil.prems(1), of a] by auto
  obtain s' h' where u: "MTList_unlink (slot_of pre) (old_of pre) a s h freed =
      Ok (s', h', freed @ released (l_deleteMode s) [edata h a])" "unlinked s h (pre @ post) s' h'"
    using unlink_correct [of s h pre a post freed] Nil.prems by auto
  from u e fuel Nil.prems show ?case by (simp add: Let_def)
next
  case (Cons b as)
  from Cons.prems(3) obtain n where fuel: "fuel = Suc n" "length as < n" by (cases fuel) auto
  obtain e where e: "cells h b = Some e" "e_valid e = MTLISTELEMENT_VALID"
    "rwlock_free (e_rwlock e)" "b \<noteq> 0"
    using mtlist_ok_elem [OF Cons.prems(1), of b] by auto
  note IH = Cons.IH [of "pre @ [b]" "e_next e" n]
  have "MTList_remove_loop fuel cmpFunc searched (slot_of pre) (old_of pre) p s h freed =
      MTList_remove_loop n cmpFunc searched (NextOf b) b (e_next e) s h freed"
    using e fuel(1) Cons.prems by (simp add: Let_def)
  with IH Cons.prems e fuel show ?case by simp
qed

subsection \<open>Operations preserve the invariant and refine lists\<close>

lemma mtl_inv_cases:
  assumes "mtl_inv w"
  obtains s as where "mt_self w = Own s" "rwlock_free (l_rwlock s)" "mtlist_ok s (mt_elems w) as"
    "mtl_addrs w = as" "mtl_data w = map (edata (mt_elems w)) as" "mtl_mode w = l_deleteMode s"
  using assms by (auto simp: mtl_inv_def mtl_data_def mtl_mode_def split: owned.splits)

lemma mtl_invI:
  assumes "mt_self w = Own s" and "rwlock_free (l_rwlock s)" and "mtlist_ok s (mt_elems w) as"
  shows "mtl_inv w" and "mtl_addrs w = as" and "mtl_data w = map (edata (mt_elems w)) as"
    and "mtl_mode w = l_deleteMode s"
proof -
  show "mtl_addrs w = as"
    using assms by (simp add: mtl_addrs_def mtlist_ok_def lseg_chain_heap)
  with assms show "mtl_inv w" "mtl_data w = map (edata (mt_elems w)) as" "mtl_mode w = l_deleteMode s"
    by (simp_all add: mtl_inv_def mtl_data_def mtl_mode_def)
qed

lemma mtlist_ok_fuel: "mtlist_ok s h as \<Longrightarrow> length as < brk h"
  using lseg_length by (auto simp: mtlist_ok_def)

lemma with_list_ok [simp]:
  "mt_self w = Own s \<Longrightarrow> l_valid s = MTLIST_VALID \<Longrightarrow> with_list w k = k s"
  by (simp add: with_list_def)

lemma mtl_self_triv [simp]: "mt_self w = Own s \<Longrightarrow> w\<lparr>mt_self := Own s\<rparr> = w"
  by (cases w) simp

lemma mtlist_ok_valid: "mtlist_ok s h as \<Longrightarrow> l_valid s = MTLIST_VALID"
  by (simp add: mtlist_ok_def)

lemma mtlist_ok_lock [simp]: "mtlist_ok (s\<lparr>l_rwlock := lk\<rparr>) h as = mtlist_ok s h as"
  by (simp add: mtlist_ok_def)

text \<open>A new element: \<^verbatim>\<open>MTListElement_new\<close> and \<^verbatim>\<open>MTListElement_init\<close> need four blocks.\<close>

definition fresh_element :: "nat \<Rightarrow> MTListElement" where
  "fresh_element data = \<lparr>e_valid = MTLISTELEMENT_VALID, e_rwlock = rwlock_private, e_flags = 0,
     e_next = 0, e_data = data\<rparr>"

lemma element_new_init:
  assumes "4 \<le> mem" and "data \<noteq> 0" and "0 < brk h"
  shows "obind (MTListElement_new h mem) (\<lambda>(ptr, h, mem). obind (MTListElement_init ptr data h mem)
      (\<lambda>(ok, h, mem). k ptr ok h mem)) =
    k (brk h) True (h\<lparr>cells := (cells h)(brk h \<mapsto> fresh_element data), brk := Suc (brk h)\<rparr>) (mem - 4)"
proof -
  have "halloc MTListElement_zero h mem =
      (brk h, h\<lparr>cells := (cells h)(brk h \<mapsto> MTListElement_zero), brk := Suc (brk h)\<rparr>, mem - 1)"
    using assms(1) by (simp add: halloc_def)
  moreover have "mem - Suc (Suc (Suc (Suc 0))) = mem - 4" by simp
  ultimately show ?thesis
    using assms by (simp add: MTListElement_new_def MTListElement_init_def MTListElement_zero_def
        fresh_element_def numeral_eq_Suc)
qed

text \<open>The abstract value: the data in order, the delete mode, and what has been released.\<close>

definition mtl_view :: "mtl \<Rightarrow> nat list \<times> int \<times> nat list" where
  "mtl_view w = (mtl_data w, mtl_mode w, mt_freed w)"

lemma fresh_element_simps [simp]:
  "e_valid (fresh_element d) = MTLISTELEMENT_VALID" "rwlock_free (e_rwlock (fresh_element d))"
  "e_next (fresh_element d) = 0" "e_data (fresh_element d) = d"
  by (simp_all add: fresh_element_def)

lemma mtlist_ok_fresh: "mtlist_ok s h as \<Longrightarrow> brk h \<notin> set as \<and> 0 < brk h"
  by (auto simp: mtlist_ok_def heap_ok_brk dest: lseg_cells)

lemma elem_ok_brk [simp]: "elem_ok (h\<lparr>brk := b\<rparr>) a = elem_ok h a"
  by (simp add: elem_ok_def)

lemma edata_brk [simp]: "edata (h\<lparr>brk := b\<rparr>) a = edata h a"
  by (simp add: edata_def)

lemma mtlist_add_last:
  assumes ok: "mtlist_ok s h as"
    and h': "h' = (if as = [] then h else h\<lparr>cells := (cells h)(last as \<mapsto> d\<lparr>e_next := brk h\<rparr>)\<rparr>)"
    and d: "as \<noteq> [] \<longrightarrow> cells h (last as) = Some d"
  shows "mtlist_ok (s\<lparr>l_first := (if as = [] then brk h else l_first s), l_last := brk h,
            l_numElement := l_numElement s + 1\<rparr>)
          (h'\<lparr>cells := (cells h')(brk h \<mapsto> fresh_element data), brk := Suc (brk h)\<rparr>) (as @ [brk h])"
    and "map (edata (h'\<lparr>cells := (cells h')(brk h \<mapsto> fresh_element data), brk := Suc (brk h)\<rparr>))
          (as @ [brk h]) = map (edata h) as @ [data]"
proof -
  note fresh = mtlist_ok_fresh [OF ok]
  have ok': "heap_ok h" "lseg e_next (cells h) (l_first s) as 0" "\<forall>a \<in> set as. elem_ok h a"
    "l_valid s = MTLIST_VALID" "l_numElement s = int (length as)"
    using ok by (auto simp: mtlist_ok_def)
  define h2 where
    "h2 = h'\<lparr>cells := (cells h')(brk h \<mapsto> fresh_element data), brk := Suc (brk h)\<rparr>"
  have els: "elem_ok h2 a \<and> edata h2 a = edata h a" if "a \<in> set as" for a
  proof -
    have "elem_ok h' a \<and> edata h' a = edata h a"
    proof (cases "as = []")
      case False
      with d ok'(3) that elem_ok_Some [of h "last as" d] show ?thesis
        by (auto simp: h')
    qed (use that in simp)
    with that fresh show ?thesis unfolding h2_def by auto
  qed
  have heap: "heap_ok h2"
    unfolding h2_def h' using ok'(1) d by (auto intro!: heap_ok_alloc_cells)
  have seg: "lseg e_next (cells h2) (if as = [] then brk h else l_first s) (as @ [brk h]) 0"
  proof (cases as rule: rev_cases)
    case Nil
    then show ?thesis using fresh by (simp add: h2_def)
  next
    case (snoc ys y)
    then show ?thesis
      using ok'(2) fresh d
        lseg_snoc [of e_next "cells h" "l_first s" ys y "d\<lparr>e_next := brk h\<rparr>" "brk h" "fresh_element data"]
      by (simp add: h2_def h')
  qed
  show "mtlist_ok (s\<lparr>l_first := (if as = [] then brk h else l_first s), l_last := brk h,
            l_numElement := l_numElement s + 1\<rparr>)
          (h'\<lparr>cells := (cells h')(brk h \<mapsto> fresh_element data), brk := Suc (brk h)\<rparr>) (as @ [brk h])"
    using heap seg els ok' by (auto simp: mtlist_ok_def elem_ok_Some h2_def [symmetric])
      (auto simp: h2_def elem_ok_def)
  show "map (edata (h'\<lparr>cells := (cells h')(brk h \<mapsto> fresh_element data), brk := Suc (brk h)\<rparr>))
          (as @ [brk h]) = map (edata h) as @ [data]"
    using els by (auto simp: h2_def [symmetric]) (simp add: h2_def)
qed

lemma MTList_add_ok:
  assumes "mtl_inv w" and "data \<noteq> 0" and "4 \<le> mt_mem w"
  shows "\<exists>w'. MTList_add data w = Ok (True, w') \<and> mtl_inv w' \<and> mt_mem w' = mt_mem w - 4 \<and>
    mtl_view w' = (mtl_data w @ [data], mtl_mode w, mt_freed w)"
proof -
  obtain s as where w: "mt_self w = Own s" "rwlock_free (l_rwlock s)" "mtlist_ok s (mt_elems w) as"
    "mtl_addrs w = as" "mtl_data w = map (edata (mt_elems w)) as" "mtl_mode w = l_deleteMode s"
    using assms(1) by (rule mtl_inv_cases)
  define h where "h = mt_elems w"
  have ok: "mtlist_ok s h as" using w(3) by (simp add: h_def)
  obtain d where d: "as \<noteq> [] \<longrightarrow> cells h (last as) = Some d"
    using last_in_set [of as] mtlist_ok_elem [OF ok, of "last as"] by blast
  define h' where "h' = (if as = [] then h else h\<lparr>cells := (cells h)(last as \<mapsto> d\<lparr>e_next := brk h\<rparr>)\<rparr>)"
  define w' where "w' = w\<lparr>
    mt_self := Own (s\<lparr>l_first := (if as = [] then brk h else l_first s), l_last := brk h,
      l_numElement := l_numElement s + 1\<rparr>),
    mt_elems := h'\<lparr>cells := (cells h')(brk h \<mapsto> fresh_element data), brk := Suc (brk h)\<rparr>,
    mt_mem := mt_mem w - 4\<rparr>"
  note new = mtlist_add_last [OF ok h'_def d, of data]
  have fresh: "brk h \<notin> set as" "0 < brk h" using mtlist_ok_fresh [OF ok] by auto
  have ls: "l_valid s = MTLIST_VALID" "l_numElement s = int (length as)"
    "l_last s = (if as = [] then 0 else last as)"
    using ok by (auto simp: mtlist_ok_def)
  have "as \<noteq> [] \<Longrightarrow> last as \<noteq> brk h" using fresh by (metis last_in_set)
  then have "MTList_add data w = Ok (True, w')"
    using w ls d fresh assms(2,3) unfolding MTList_add_def w'_def h'_def h_def
    by (auto simp: element_new_init fun_upd_twist)
  moreover have "mtl_inv w'" "mtl_view w' = (mtl_data w @ [data], mtl_mode w, mt_freed w)"
    using mtl_invI [of w' _ "as @ [brk h]"] w new by (simp_all add: w'_def mtl_view_def h_def)
  ultimately show ?thesis by (auto simp: w'_def)
qed

lemma mtlist_add_first:
  assumes ok: "mtlist_ok s h as"
    and h': "h' = h\<lparr>cells := (cells h)(brk h \<mapsto> (fresh_element data)\<lparr>e_next := l_first s\<rparr>),
               brk := Suc (brk h)\<rparr>"
  shows "mtlist_ok (s\<lparr>l_first := brk h, l_last := (if l_last s = 0 then brk h else l_last s),
            l_numElement := l_numElement s + 1\<rparr>) h' (brk h # as)"
    and "map (edata h') (brk h # as) = data # map (edata h) as"
proof -
  note fresh = mtlist_ok_fresh [OF ok]
  have els: "elem_ok h' a = elem_ok h a \<and> edata h' a = edata h a" if "a \<in> set as" for a
    using that fresh by (auto simp: h')
  have last: "l_last s = 0 \<longleftrightarrow> as = []"
    using ok by (metis last_in_set lseg_nonnull mtlist_ok_def)
  show "mtlist_ok (s\<lparr>l_first := brk h, l_last := (if l_last s = 0 then brk h else l_last s),
            l_numElement := l_numElement s + 1\<rparr>) h' (brk h # as)"
    using ok fresh last els by (auto simp: mtlist_ok_def) (auto simp: h' elem_ok_def)
  show "map (edata h') (brk h # as) = data # map (edata h) as"
    using els by (auto simp: h')
qed

lemma MTList_insert_ok:
  assumes "mtl_inv w" and "data \<noteq> 0" and "4 \<le> mt_mem w"
  shows "\<exists>w'. MTList_insert data w = Ok (True, w') \<and> mtl_inv w' \<and> mt_mem w' = mt_mem w - 4 \<and>
    mtl_view w' = (data # mtl_data w, mtl_mode w, mt_freed w)"
proof -
  obtain s as where w: "mt_self w = Own s" "rwlock_free (l_rwlock s)" "mtlist_ok s (mt_elems w) as"
    "mtl_addrs w = as" "mtl_data w = map (edata (mt_elems w)) as" "mtl_mode w = l_deleteMode s"
    using assms(1) by (rule mtl_inv_cases)
  define h where "h = mt_elems w"
  have ok: "mtlist_ok s h as" using w(3) by (simp add: h_def)
  define h' where "h' = h\<lparr>cells := (cells h)(brk h \<mapsto> (fresh_element data)\<lparr>e_next := l_first s\<rparr>),
     brk := Suc (brk h)\<rparr>"
  define w' where "w' = w\<lparr>
    mt_self := Own (s\<lparr>l_first := brk h, l_last := (if l_last s = 0 then brk h else l_last s),
      l_numElement := l_numElement s + 1\<rparr>), mt_elems := h', mt_mem := mt_mem w - 4\<rparr>"
  have "MTList_insert data w = Ok (True, w')"
    using w mtlist_ok_fresh [OF ok] mtlist_ok_valid [OF ok] assms(2,3)
    unfolding MTList_insert_def w'_def h'_def h_def by (simp add: element_new_init)
  moreover have "mtl_inv w'" "mtl_view w' = (data # mtl_data w, mtl_mode w, mt_freed w)"
    using mtl_invI [of w' _ "brk h # as"] w mtlist_add_first [OF ok h'_def]
    by (simp_all add: w'_def mtl_view_def h_def)
  ultimately show ?thesis by (auto simp: w'_def)
qed

text \<open>The budget of four blocks is exact: with less, \<^verbatim>\<open>ANY_REQUIRE\<close> ends the process. So
  does a null pointer as data.\<close>

lemma element_new_init_fails:
  assumes "mem < 4 \<or> data = 0" and "0 < brk h"
  shows "obind (MTListElement_new h mem) (\<lambda>(ptr, h, mem). obind (MTListElement_init ptr data h mem)
      (\<lambda>(ok, h, mem). k ptr ok h mem)) = Require"
proof (cases mem)
  case (Suc m)
  show ?thesis
  proof (cases "data = 0")
    case False
    with assms Suc have "m = 0 \<or> 0 < m \<and> m - 1 < 2" by auto
    with False Suc assms(2) show ?thesis
      by (auto simp: MTListElement_new_def MTListElement_init_def)
  qed (use Suc assms(2) in \<open>simp add: MTListElement_new_def MTListElement_init_def\<close>)
qed (simp add: MTListElement_new_def)

lemma MTList_add_fails:
  assumes "mtl_inv w" and "data = 0 \<or> mt_mem w < 4"
  shows "MTList_add data w = Require" and "MTList_insert data w = Require"
proof -
  obtain s as where w: "mt_self w = Own s" "mtlist_ok s (mt_elems w) as"
    using assms(1) by (rule mtl_inv_cases)
  have "0 < brk (mt_elems w)" "l_valid s = MTLIST_VALID"
    using mtlist_ok_fresh [OF w(2)] mtlist_ok_valid [OF w(2)] by auto
  with assms(2) w(1) show "MTList_add data w = Require" "MTList_insert data w = Require"
    by (auto simp: MTList_add_def MTList_insert_def element_new_init_fails)
qed

lemma find_first_map:
  "find_first P (map f xs) = map_option f (find_first (\<lambda>x. P (f x)) xs)"
  by (induction xs) auto

lemma remove_first_map:
  "remove_first P (map f xs) = map f (remove_first (\<lambda>x. P (f x)) xs)"
  by (induction xs) auto

text \<open>What \<^verbatim>\<open>MTList_remove\<close> releases.\<close>

definition removed_data :: "(nat \<Rightarrow> nat \<Rightarrow> int) \<Rightarrow> nat \<Rightarrow> int \<Rightarrow> nat list \<Rightarrow> nat list" where
  "removed_data cmpFunc searched mode ds =
     (case find_first (\<lambda>d. cmpFunc d searched = 0) ds of
        None \<Rightarrow> [] | Some d \<Rightarrow> released mode [d])"

lemma MTList_remove_ok:
  assumes "mtl_inv w" and "set (removed_data cmpFunc searched (mtl_mode w) (mtl_data w)) \<inter>
      set (mt_freed w) = {}"
  shows "\<exists>w'. MTList_remove (Some cmpFunc) searched w =
      Ok (\<exists>d \<in> set (mtl_data w). cmpFunc d searched = 0, w') \<and> mtl_inv w' \<and> mt_mem w' = mt_mem w \<and>
    mtl_view w' = (remove_first (\<lambda>d. cmpFunc d searched = 0) (mtl_data w), mtl_mode w,
      mt_freed w @ removed_data cmpFunc searched (mtl_mode w) (mtl_data w))"
proof -
  let ?P = "\<lambda>d. cmpFunc d searched = 0"
  obtain s as where w: "mt_self w = Own s" "rwlock_free (l_rwlock s)" "mtlist_ok s (mt_elems w) as"
    "mtl_addrs w = as" "mtl_data w = map (edata (mt_elems w)) as" "mtl_mode w = l_deleteMode s"
    using assms(1) by (rule mtl_inv_cases)
  define h where "h = mt_elems w"
  have ok: "mtlist_ok s h as" using w(3) by (simp add: h_def)
  have seg: "lseg e_next (cells h) (l_first s) as 0" and valid: "l_valid s = MTLIST_VALID"
    using ok by (auto simp: mtlist_ok_def)
  have fuel: "length as < brk h" by (rule mtlist_ok_fuel [OF ok])
  define s1 where "s1 = s\<lparr>l_rwlock := rw_set RwWrite (l_rwlock s)\<rparr>"
  have ok1: "mtlist_ok s1 h ([] @ as)" and mode: "l_deleteMode s1 = l_deleteMode s"
    using ok by (simp_all add: s1_def)
  have unf: "MTList_remove (Some cmpFunc) searched w =
      obind (MTList_remove_loop (brk h) cmpFunc searched (slot_of []) (old_of []) (l_first s) s1 h
        (mt_freed w)) (\<lambda>(result, s, h, freed). obind (list_lock RWLock_unlock s) (\<lambda>s.
        Ok (result, w\<lparr>mt_self := Own s, mt_elems := h, mt_freed := freed\<rparr>)))"
    using w(1,2) valid by (simp add: MTList_remove_def s1_def h_def slot_of_def old_of_def)
  show ?thesis
  proof (cases "find_first (\<lambda>a. ?P (edata h a)) as")
    case None
    then have no: "\<forall>a \<in> set as. cmpFunc (edata h a) searched \<noteq> 0"
      by (simp add: find_first_None_iff)
    note loop = remove_loop_none [of s1 h "[]" as "l_first s" "brk h" cmpFunc searched, OF ok1 seg fuel no]
    have "MTList_remove (Some cmpFunc) searched w = Ok (False, w)"
      unfolding unf loop using w(1,2) by (simp add: s1_def h_def)
    with None no assms(1) w(5) show ?thesis
      by (auto simp: mtl_view_def removed_data_def find_first_map remove_first_map remove_first_id
          simp flip: h_def)
  next
    case (Some a)
    then obtain bs post where as: "as = bs @ a # post"
      and bs: "\<forall>b \<in> set bs. cmpFunc (edata h b) searched \<noteq> 0" and a: "cmpFunc (edata h a) searched = 0"
      by (rule find_first_split) auto
    have rd: "removed_data cmpFunc searched (mtl_mode w) (mtl_data w) =
        released (l_deleteMode s) [edata h a]"
      using Some w by (simp add: removed_data_def find_first_map h_def)
    with assms(2) have free: "released (l_deleteMode s1) [edata h a] = [] \<or> edata h a \<notin> set (mt_freed w)"
      by (auto simp: released_def mode split: if_splits)
    obtain s' h' where loop: "MTList_remove_loop (brk h) cmpFunc searched (slot_of []) (old_of [])
        (l_first s) s1 h (mt_freed w) =
        Ok (True, s', h', mt_freed w @ released (l_deleteMode s1) [edata h a])"
      and u: "unlinked s1 h (bs @ post) s' h'"
      using remove_loop_found [of s1 h "[]" bs a post "l_first s" "brk h" cmpFunc searched "mt_freed w"]
        ok1 seg fuel bs a free unfolding as by auto
    define w' where "w' = w\<lparr>mt_self := Own (s'\<lparr>l_rwlock := l_rwlock s\<rparr>), mt_elems := h',
        mt_freed := mt_freed w @ released (l_deleteMode s) [edata h a]\<rparr>"
    have "MTList_remove (Some cmpFunc) searched w = Ok (True, w')"
      unfolding unf loop using w(1,2) u by (simp add: unlinked_def s1_def w'_def)
    moreover have "mtl_inv w'" "mtl_data w' = map (edata h) (bs @ post)" "mtl_mode w' = l_deleteMode s"
      using mtl_invI [of w' _ "bs @ post"] w(2) u mode by (auto simp: w'_def unlinked_def)
    moreover have "remove_first ?P (mtl_data w) = map (edata h) (bs @ post)"
      using w(5) bs a by (simp add: as remove_first_append h_def)
    moreover have "\<exists>d \<in> set (mtl_data w). ?P d" using w(5) a by (auto simp: as h_def)
    ultimately show ?thesis using rd w(6) by (simp add: mtl_view_def) (simp add: w'_def)
  qed
qed

lemma edata_find_first:
  "find_first (\<lambda>a. P (edata h a)) as = Some a \<Longrightarrow> find_first P (map (edata h) as) = Some (edata h a)"
  by (simp add: find_first_map)

lemma MTList_searchListElement_ok:
  assumes "mtl_inv w"
  shows "MTList_searchListElement (Some cmpFunc) searched w =
    Ok (case find_first (\<lambda>a. cmpFunc (edata (mt_elems w) a) searched = 0) (mtl_addrs w) of
          None \<Rightarrow> 0 | Some a \<Rightarrow> a, w)"
proof -
  obtain s as where w: "mt_self w = Own s" "rwlock_free (l_rwlock s)" "mtlist_ok s (mt_elems w) as"
    "mtl_addrs w = as"
    using assms by (rule mtl_inv_cases)
  then have "lseg e_next (cells (mt_elems w)) (l_first s) as 0" "\<forall>a \<in> set as. elem_ok (mt_elems w) a"
    "l_valid s = MTLIST_VALID"
    by (auto simp: mtlist_ok_def)
  with w mtlist_ok_fuel [OF w(3)] show ?thesis
    by (simp add: MTList_searchListElement_def search_loop_correct)
qed

lemma mtl_addr_nonnull: "mtl_inv w \<Longrightarrow> a \<in> set (mtl_addrs w) \<Longrightarrow>
    a \<noteq> 0 \<and> hread (mt_elems w) a = Ok (the (cells (mt_elems w) a)) \<and>
    edata (mt_elems w) a = e_data (the (cells (mt_elems w) a))"
  by (erule mtl_inv_cases) (auto elim: mtlist_ok_elem)

lemma MTList_search_ok:
  assumes "mtl_inv w"
  shows "MTList_search (Some cmpFunc) searched w =
    Ok (case find_first (\<lambda>d. cmpFunc d searched = 0) (mtl_data w) of None \<Rightarrow> 0 | Some d \<Rightarrow> d, w)"
proof -
  have valid: "with_list w k = k (the_own (mt_self w))" if "the_own = (\<lambda>p. case p of Own s \<Rightarrow> s)"
    for k :: "MTList \<Rightarrow> (nat \<times> mtl) outcome" and the_own
    using assms that by (auto elim!: mtl_inv_cases dest: mtlist_ok_valid)
  have data: "find_first (\<lambda>d. cmpFunc d searched = 0) (mtl_data w) = map_option (edata (mt_elems w))
      (find_first (\<lambda>a. cmpFunc (edata (mt_elems w) a) searched = 0) (mtl_addrs w))"
    by (simp add: mtl_data_def find_first_map)
  show ?thesis
  proof (cases "find_first (\<lambda>a. cmpFunc (edata (mt_elems w) a) searched = 0) (mtl_addrs w)")
    case None
    then show ?thesis
      by (simp add: MTList_search_def valid MTList_searchListElement_ok [OF assms] data)
  next
    case (Some a)
    then have "a \<in> set (mtl_addrs w)" by (auto dest: find_first_SomeD)
    with Some mtl_addr_nonnull [OF assms] show ?thesis
      by (simp add: MTList_search_def valid MTList_searchListElement_ok [OF assms] data)
  qed
qed

lemma MTList_isPresent_ok:
  assumes "mtl_inv w"
  shows "MTList_isPresent searched w = Ok (searched \<in> set (mtl_data w), w)"
proof -
  obtain s as where w: "mt_self w = Own s" "rwlock_free (l_rwlock s)" "mtlist_ok s (mt_elems w) as"
    "mtl_addrs w = as"
    using assms by (rule mtl_inv_cases)
  then have "lseg e_next (cells (mt_elems w)) (l_first s) as 0" "\<forall>a \<in> set as. elem_ok (mt_elems w) a"
    "l_valid s = MTLIST_VALID"
    by (auto simp: mtlist_ok_def)
  with w mtlist_ok_fuel [OF w(3)] show ?thesis
    by (simp add: MTList_isPresent_def isPresent_loop_correct mtl_data_def)
qed

lemma MTList_numElements_ok:
  assumes "mtl_inv w"
  shows "MTList_numElements w = Ok (int (length (mtl_data w)), w)"
proof -
  obtain s as where w: "mt_self w = Own s" "rwlock_free (l_rwlock s)" "mtlist_ok s (mt_elems w) as"
    "mtl_addrs w = as"
    using assms by (rule mtl_inv_cases)
  then have "l_valid s = MTLIST_VALID" "l_numElement s = int (length as)"
    by (auto simp: mtlist_ok_def)
  with w show ?thesis by (simp add: MTList_numElements_def mtl_data_def Let_def)
qed

lemma MTList_iterate_ok:
  assumes "mtl_inv w" and "and flags 3 \<noteq> 0" and "0 \<notin> set (mtl_data w)"
  shows "MTList_iterate (Some func) flags w u =
    Ok (case fst (iterate_data func (mtl_data w) u) of None \<Rightarrow> 0 | Some d \<Rightarrow> d, w,
        snd (iterate_data func (mtl_data w) u))"
proof -
  obtain s as where w: "mt_self w = Own s" "rwlock_free (l_rwlock s)" "mtlist_ok s (mt_elems w) as"
    "mtl_addrs w = as" "mtl_data w = map (edata (mt_elems w)) as"
    using assms(1) by (rule mtl_inv_cases)
  then have ok: "lseg e_next (cells (mt_elems w)) (l_first s) as 0"
    "\<forall>a \<in> set as. elem_ok (mt_elems w) a" "l_valid s = MTLIST_VALID"
    by (auto simp: mtlist_ok_def)
  have nz: "\<forall>a \<in> set as. edata (mt_elems w) a \<noteq> 0" using assms(3) w(5) by force
  define lockFunc where "lockFunc =
     (if and flags MTLIST_ITERATE_FOR_WRITE \<noteq> 0 then RWLock_writeLock else RWLock_readLock)"
  have "and flags 1 \<noteq> 0 \<or> and flags 2 \<noteq> 0"
  proof (rule ccontr)
    assume "\<not> ?thesis"
    moreover have "and flags 3 = or (and flags 1) (and flags 2)"
      by (simp flip: bit.conj_disj_distrib)
    ultimately show False using assms(2) by simp
  qed
  then have lock: "(if and flags MTLIST_ITERATE_FOR_WRITE \<noteq> 0 then Some RWLock_writeLock
      else if and flags MTLIST_ITERATE_FOR_READ \<noteq> 0 then Some RWLock_readLock else None) = Some lockFunc"
    by (auto simp: lockFunc_def MTLIST_ITERATE_FOR_WRITE_def MTLIST_ITERATE_FOR_READ_def)
  have fn: "lockFunc = RWLock_readLock \<or> lockFunc = RWLock_writeLock" by (simp add: lockFunc_def)
  obtain ptr where ptr: "MTList_iterate_loop (brk (mt_elems w)) lockFunc func (l_first s) (mt_elems w) u =
      Ok (ptr, mt_elems w, snd (iterate_data func (mtl_data w) u)) \<and>
    (ptr = 0 \<longleftrightarrow> fst (iterate_data func (mtl_data w) u) = None) \<and>
    (ptr \<noteq> 0 \<longrightarrow> ptr \<in> set as \<and>
       fst (iterate_data func (mtl_data w) u) = Some (edata (mt_elems w) ptr))"
    using iterate_loop_correct [OF ok(1,2) mtlist_ok_fuel [OF w(3)] fn nz, of func u, folded w(5)]
    by (rule exE)
  have "MTList_iterate (Some func) flags w u =
      obind (if ptr \<noteq> 0 then omap e_data (hread (mt_elems w) ptr) else Ok 0)
        (\<lambda>r. Ok (r, w, snd (iterate_data func (mtl_data w) u)))"
    unfolding MTList_iterate_def Let_def lock using w(1,2) ok(3) ptr by simp
  with ptr mtl_addr_nonnull [OF assms(1), of ptr] w(4) show ?thesis
    by (cases "ptr = 0") simp_all
qed

text \<open>\<^verbatim>\<open>MTList_set\<close> replaces the data of the first element that holds it.\<close>

fun replace_first :: "nat \<Rightarrow> nat \<Rightarrow> nat list \<Rightarrow> nat list" where
  "replace_first x y [] = []"
| "replace_first x y (d # ds) = (if d = x then y # ds else d # replace_first x y ds)"

lemma replace_first_append:
  "x \<notin> set as \<Longrightarrow> replace_first x y (as @ x # bs) = as @ y # bs"
  by (induction as) auto

lemma replace_first_id: "x \<notin> set ds \<Longrightarrow> replace_first x y ds = ds"
  by (induction ds) auto

lemma MTList_set_ok:
  assumes "mtl_inv w"
  shows "\<exists>w'. MTList_set searched newData w = Ok (searched \<in> set (mtl_data w), w') \<and> mtl_inv w' \<and>
    mt_mem w' = mt_mem w \<and>
    mtl_view w' = (replace_first searched newData (mtl_data w), mtl_mode w, mt_freed w)"
proof -
  obtain s as where w: "mt_self w = Own s" "rwlock_free (l_rwlock s)" "mtlist_ok s (mt_elems w) as"
    "mtl_addrs w = as" "mtl_data w = map (edata (mt_elems w)) as" "mtl_mode w = l_deleteMode s"
    using assms by (rule mtl_inv_cases)
  define h where "h = mt_elems w"
  have ok: "mtlist_ok s h as" using w(3) by (simp add: h_def)
  then have seg: "lseg e_next (cells h) (l_first s) as 0" "\<forall>a \<in> set as. elem_ok h a"
    "l_valid s = MTLIST_VALID" "heap_ok h"
    by (auto simp: mtlist_ok_def)
  note loop = set_loop_correct [OF seg(1,2) mtlist_ok_fuel [OF ok], of searched newData]
  show ?thesis
  proof (cases "find_first (\<lambda>a. edata h a = searched) as")
    case None
    then have "searched \<notin> set (mtl_data w)" by (auto simp: w(5) find_first_None_iff h_def)
    moreover have "MTList_set searched newData w = Ok (False, w)"
      using w(1,2) seg(3) loop None by (simp add: MTList_set_def h_def)
    ultimately show ?thesis
      using assms by (simp add: mtl_view_def replace_first_id)
  next
    case (Some a)
    then obtain bs post where as: "as = bs @ a # post"
      and bs: "\<forall>b \<in> set bs. edata h b \<noteq> searched" and a: "edata h a = searched"
      by (rule find_first_split)
    obtain e where e: "cells h a = Some e" "e_valid e = MTLISTELEMENT_VALID"
      "rwlock_free (e_rwlock e)" "a \<noteq> 0"
      using mtlist_ok_elem [OF ok, of a] as by auto
    define h' where "h' = h\<lparr>cells := (cells h)(a \<mapsto> e\<lparr>e_data := newData\<rparr>)\<rparr>"
    have dist: "a \<notin> set bs" "a \<notin> set post" using mtlist_ok_distinct [OF ok] by (auto simp: as)
    have "lseg e_next (cells h') (l_first s) as 0"
      using seg(1) e(1) lseg_cong [of as e_next "cells h" "cells h'" "l_first s" 0] by (auto simp: h'_def)
    then have ok': "mtlist_ok s h' as"
      using ok e by (auto simp: mtlist_ok_def h'_def)
    have data': "map (edata h') as = replace_first searched newData (mtl_data w)"
    proof -
      have "map (edata h') as = map (edata h) bs @ newData # map (edata h) post"
        using dist by (auto simp: as h'_def)
      moreover have "replace_first searched newData (mtl_data w) =
          map (edata h) bs @ newData # map (edata h) post"
      proof -
        have "searched \<notin> set (map (edata h) bs)" using bs by auto
        from replace_first_append [OF this] show ?thesis by (simp add: w(5) as a h_def [symmetric])
      qed
      ultimately show ?thesis by simp
    qed
    have "MTList_set searched newData w = Ok (True, w\<lparr>mt_elems := h'\<rparr>)"
      using w(1,2) seg(3) loop Some e by (simp add: MTList_set_def h_def h'_def)
    moreover have "mtl_inv (w\<lparr>mt_elems := h'\<rparr>)"
      "mtl_view (w\<lparr>mt_elems := h'\<rparr>) = (replace_first searched newData (mtl_data w), mtl_mode w, mt_freed w)"
      using mtl_invI [of "w\<lparr>mt_elems := h'\<rparr>" s as] w(1,2,6) ok' data' by (simp_all add: mtl_view_def)
    moreover have "searched \<in> set (mtl_data w)" using a by (force simp: w(5) as h_def)
    ultimately show ?thesis by simp
  qed
qed

lemma MTList_setDeleteMode_ok:
  assumes "mtl_inv w"
  shows "\<exists>w'. MTList_setDeleteMode mode w = Ok w' \<and> mtl_inv w' \<and> mt_mem w' = mt_mem w \<and>
    mtl_view w' = (mtl_data w, mode, mt_freed w)"
proof -
  obtain s as where w: "mt_self w = Own s" "rwlock_free (l_rwlock s)" "mtlist_ok s (mt_elems w) as"
    "mtl_data w = map (edata (mt_elems w)) as"
    using assms by (rule mtl_inv_cases)
  then have "MTList_setDeleteMode mode w = Ok (w\<lparr>mt_self := Own (s\<lparr>l_deleteMode := mode\<rparr>)\<rparr>)"
    by (simp add: MTList_setDeleteMode_def mtlist_ok_def)
  with w mtl_invI [of "w\<lparr>mt_self := Own (s\<lparr>l_deleteMode := mode\<rparr>)\<rparr>" _ as] show ?thesis
    by (simp add: mtl_view_def mtlist_ok_def)
qed

text \<open>A new list.\<close>

definition mtl_start :: "nat \<Rightarrow> mtl" where
  "mtl_start mem = \<lparr>mt_self = Null, mt_elems = empty_heap, mt_mem = mem, mt_freed = []\<rparr>"

lemma MTList_new_init_ok:
  assumes "4 \<le> mem"
  shows "\<exists>w. obind (MTList_new (mtl_start mem)) MTList_init = Ok (True, w) \<and> mtl_inv w \<and>
    mt_mem w = mem - 4 \<and> mtl_view w = ([], MTLIST_DELETEMODE_AUTOMATIC, [])"
proof -
  define s where "s = \<lparr>l_valid = MTLIST_VALID, l_rwlock = rwlock_private, l_first = 0, l_last = 0,
    l_numElement = 0, l_deleteMode = MTLIST_DELETEMODE_AUTOMATIC\<rparr>"
  define w where "w = \<lparr>mt_self = Own s, mt_elems = empty_heap, mt_mem = mem - 4, mt_freed = []\<rparr>"
  have "obind (MTList_new (mtl_start mem)) MTList_init = Ok (True, w)"
    using assms by (simp add: MTList_new_def MTList_init_def mtl_start_def MTList_zero_def w_def s_def)
  moreover have "mtlist_ok s empty_heap []" by (simp add: mtlist_ok_def s_def)
  then have "mtl_inv w" "mtl_view w = ([], MTLIST_DELETEMODE_AUTOMATIC, [])"
    using mtl_invI [of w s "[]"] by (simp_all add: w_def s_def mtl_view_def)
  ultimately show ?thesis by (simp add: w_def)
qed

subsection \<open>Clearing\<close>

lemma clear_loop_correct:
  assumes "lseg e_next (cells h) (l_first s) as 0" and "\<forall>a \<in> set as. elem_ok h a"
    and "heap_ok h" and "length as < fuel" and "distinct as"
    and "distinct (released (l_deleteMode s) (map (edata h) as))"
    and "set (released (l_deleteMode s) (map (edata h) as)) \<inter> set freed = {}"
  shows "\<exists>s' h'. MTList_clear_loop fuel (l_first s) s h freed =
      Ok (s', h', freed @ released (l_deleteMode s) (map (edata h) as)) \<and>
      s' = s\<lparr>l_first := 0, l_numElement := l_numElement s - int (length as)\<rparr> \<and>
      cells h' = cells h |` (- set as) \<and> brk h' = brk h"
  using assms
proof (induction as arbitrary: s h fuel freed)
  case Nil
  then obtain n where "fuel = Suc n" by (cases fuel) auto
  with Nil.prems show ?case by (cases s) (auto simp: released_def restrict_map_def fun_eq_iff)
next
  case (Cons a as)
  from Cons.prems(4) obtain n where fuel: "fuel = Suc n" "length as < n" by (cases fuel) auto
  from Cons.prems(1,2) obtain e where e: "cells h a = Some e" "e_valid e = MTLISTELEMENT_VALID"
    "rwlock_free (e_rwlock e)" "lseg e_next (cells h) (e_next e) as 0" "l_first s = a" "a \<noteq> 0"
    by (auto simp: elem_ok_def split: option.splits)
  define s1 where "s1 = s\<lparr>l_first := e_next e, l_numElement := l_numElement s - 1\<rparr>"
  define h1 where "h1 = h\<lparr>cells := (cells h)(a := None)\<rparr>"
  define fr where "fr = freed @ released (l_deleteMode s) [edata h a]"
  have notin: "a \<notin> set as" using Cons.prems(5) by simp
  have split: "released (l_deleteMode s) (map (edata h) (a # as)) =
      released (l_deleteMode s) [edata h a] @ released (l_deleteMode s) (map (edata h) as)"
    by (simp add: released_def)
  have data: "map (edata h1) as = map (edata h) as" using notin by (auto simp: h1_def)
  have cl: "obind (MTListElement_clear a (h\<lparr>cells := (cells h)(a \<mapsto> e\<lparr>e_data := 0\<rparr>)\<rparr>))
      (MTListElement_delete a) = Ok h1"
    using e element_clear_delete [of "h\<lparr>cells := (cells h)(a \<mapsto> e\<lparr>e_data := 0\<rparr>)\<rparr>" a "e\<lparr>e_data := 0\<rparr>"]
    by (simp add: h1_def)
  have fr: "(if e_data e \<noteq> 0 \<and> l_deleteMode s = MTLIST_DELETEMODE_AUTOMATIC
      then free_data (e_data e) freed else Ok freed) = Ok fr"
  proof (cases "e_data e \<noteq> 0 \<and> l_deleteMode s = MTLIST_DELETEMODE_AUTOMATIC")
    case True
    then have "e_data e \<in> set (released (l_deleteMode s) (map (edata h) (a # as)))"
      using e(1) by (simp add: released_def)
    with Cons.prems(7) have "e_data e \<notin> set freed" by blast
    with True e(1) show ?thesis by (simp add: fr_def released_def free_data_def)
  qed (use e(1) in \<open>auto simp: fr_def released_def\<close>)
  have step: "MTList_clear_loop fuel (l_first s) s h freed = MTList_clear_loop n (l_first s1) s1 h1 fr"
    using e fuel(1) cl fr by (simp add: Let_def s1_def obind_assoc [symmetric])
  have IH: "\<exists>s' h'. MTList_clear_loop n (l_first s1) s1 h1 fr =
      Ok (s', h', fr @ released (l_deleteMode s1) (map (edata h1) as)) \<and>
      s' = s1\<lparr>l_first := 0, l_numElement := l_numElement s1 - int (length as)\<rparr> \<and>
      cells h' = cells h1 |` (- set as) \<and> brk h' = brk h1"
  proof (rule Cons.IH)
    show "lseg e_next (cells h1) (l_first s1) as 0" using e(4) notin by (simp add: h1_def s1_def)
    show "\<forall>b \<in> set as. elem_ok h1 b" using Cons.prems(2) notin by (auto simp: h1_def)
    show "distinct (released (l_deleteMode s1) (map (edata h1) as))"
      "set (released (l_deleteMode s1) (map (edata h1) as)) \<inter> set fr = {}"
      using Cons.prems(6,7) unfolding data split fr_def by (auto simp: s1_def)
  qed (use Cons.prems(3,5) fuel(2) in \<open>simp_all add: h1_def\<close>)
  have "cells h1 |` (- set as) = cells h |` (- set (a # as))"
    by (auto simp: h1_def restrict_map_def)
  moreover have "l_numElement s - 1 - int (length as) = l_numElement s - int (length (a # as))"
    by simp
  ultimately show ?case
    using IH unfolding step data split by (simp add: fr_def s1_def h1_def diff_diff_eq)
qed

lemma MTList_clear_ok:
  assumes "mtl_inv w" and "distinct (released (mtl_mode w) (mtl_data w))"
    and "set (released (mtl_mode w) (mtl_data w)) \<inter> set (mt_freed w) = {}"
  shows "\<exists>w' s'. MTList_clear w = Ok w' \<and> mt_self w' = Own s' \<and> l_valid s' = MTLIST_INVALID \<and>
    l_rwlock s' = Dangling \<and> l_first s' = 0 \<and> l_last s' = 0 \<and> l_numElement s' = 0 \<and>
    cells (mt_elems w') = cells (mt_elems w) |` (- set (mtl_addrs w)) \<and>
    mt_freed w' = mt_freed w @ released (mtl_mode w) (mtl_data w)"
proof -
  obtain s as where w: "mt_self w = Own s" "rwlock_free (l_rwlock s)" "mtlist_ok s (mt_elems w) as"
    "mtl_addrs w = as" "mtl_data w = map (edata (mt_elems w)) as" "mtl_mode w = l_deleteMode s"
    using assms(1) by (rule mtl_inv_cases)
  define h where "h = mt_elems w"
  define s1 where "s1 = s\<lparr>l_rwlock := rw_set RwWrite (l_rwlock s)\<rparr>"
  have ok: "mtlist_ok s h as" using w(3) by (simp add: h_def)
  then have seg: "lseg e_next (cells h) (l_first s1) as 0" "\<forall>a \<in> set as. elem_ok h a" "heap_ok h"
    "l_valid s = MTLIST_VALID" "l_numElement s = int (length as)"
    by (auto simp: mtlist_ok_def s1_def)
  have rel: "distinct (released (l_deleteMode s1) (map (edata h) as))"
    "set (released (l_deleteMode s1) (map (edata h) as)) \<inter> set (mt_freed w) = {}"
    using assms(2,3) w by (simp_all add: s1_def h_def)
  from clear_loop_correct [OF seg(1-3) mtlist_ok_fuel [OF ok] mtlist_ok_distinct [OF ok] rel]
  obtain h' where loop: "MTList_clear_loop (brk h) (l_first s1) s1 h (mt_freed w) =
      Ok (s1\<lparr>l_first := 0, l_numElement := 0\<rparr>, h', mt_freed w @ released (mtl_mode w) (mtl_data w))"
    "cells h' = cells h |` (- set as)"
    using seg(5) w by (auto simp: s1_def h_def)
  define w' where "w' = w\<lparr>mt_self := Own (s\<lparr>l_first := 0, l_last := 0, l_numElement := 0,
      l_rwlock := Dangling, l_valid := MTLIST_INVALID\<rparr>),
      mt_elems := (if as = [] then h else h'),
      mt_freed := mt_freed w @ released (mtl_mode w) (mtl_data w)\<rparr>"
  have "l_first s = 0" if "as = []" using seg(1) that by (simp add: s1_def)
  then have "MTList_clear w = Ok w'"
    using w(1,2) seg(4,5) loop
    by (cases "as = []") (simp_all add: MTList_clear_def s1_def h_def w'_def w(5) released_def)
  moreover have "cells (mt_elems w') = cells (mt_elems w) |` (- set (mtl_addrs w))"
    using loop(2) w(4) by (auto simp: w'_def h_def restrict_map_def)
  ultimately show ?thesis by (simp add: w'_def)
qed

subsection \<open>The contract of the list\<close>

datatype mtl_op =
    Add nat | Insert nat | Remove "nat \<Rightarrow> nat \<Rightarrow> int" nat | Set nat nat | SetDeleteMode int
  | Search "nat \<Rightarrow> nat \<Rightarrow> int" nat | IsPresent nat | NumElements

datatype mtl_answer = Done | Flag bool | Pointer nat | Number int

fun mtl_step :: "mtl_op \<Rightarrow> mtl \<Rightarrow> (mtl_answer \<times> mtl) outcome" where
  "mtl_step (Add d) w = omap (map_prod Flag id) (MTList_add d w)"
| "mtl_step (Insert d) w = omap (map_prod Flag id) (MTList_insert d w)"
| "mtl_step (Remove cmp x) w = omap (map_prod Flag id) (MTList_remove (Some cmp) x w)"
| "mtl_step (Set x y) w = omap (map_prod Flag id) (MTList_set x y w)"
| "mtl_step (SetDeleteMode m) w = omap (Pair Done) (MTList_setDeleteMode m w)"
| "mtl_step (Search cmp x) w = omap (map_prod Pointer id) (MTList_search (Some cmp) x w)"
| "mtl_step (IsPresent x) w = omap (map_prod Flag id) (MTList_isPresent x w)"
| "mtl_step NumElements w = omap (map_prod Number id) (MTList_numElements w)"

text \<open>The specification: a list of user pointers, the delete mode, and the pointers that
  have been released.\<close>

fun mtl_spec :: "mtl_op \<Rightarrow> nat list \<times> int \<times> nat list \<Rightarrow> mtl_answer \<times> nat list \<times> int \<times> nat list" where
  "mtl_spec (Add d) (ds, m, fr) = (Flag True, ds @ [d], m, fr)"
| "mtl_spec (Insert d) (ds, m, fr) = (Flag True, d # ds, m, fr)"
| "mtl_spec (Remove cmp x) (ds, m, fr) =
     (Flag (\<exists>d \<in> set ds. cmp d x = 0), remove_first (\<lambda>d. cmp d x = 0) ds, m,
      fr @ removed_data cmp x m ds)"
| "mtl_spec (Set x y) (ds, m, fr) = (Flag (x \<in> set ds), replace_first x y ds, m, fr)"
| "mtl_spec (SetDeleteMode m') (ds, m, fr) = (Done, ds, m', fr)"
| "mtl_spec (Search cmp x) (ds, m, fr) =
     (Pointer (case find_first (\<lambda>d. cmp d x = 0) ds of None \<Rightarrow> 0 | Some d \<Rightarrow> d), ds, m, fr)"
| "mtl_spec (IsPresent x) (ds, m, fr) = (Flag (x \<in> set ds), ds, m, fr)"
| "mtl_spec NumElements (ds, m, fr) = (Number (int (length ds)), ds, m, fr)"

fun mtl_legal :: "mtl_op \<Rightarrow> nat list \<times> int \<times> nat list \<Rightarrow> bool" where
  "mtl_legal (Add d) (ds, m, fr) \<longleftrightarrow> d \<noteq> 0"
| "mtl_legal (Insert d) (ds, m, fr) \<longleftrightarrow> d \<noteq> 0"
| "mtl_legal (Remove cmp x) (ds, m, fr) \<longleftrightarrow> set (removed_data cmp x m ds) \<inter> set fr = {}"
| "mtl_legal _ a \<longleftrightarrow> True"

fun mtl_cost :: "mtl_op \<Rightarrow> nat" where
  "mtl_cost (Add d) = 4"
| "mtl_cost (Insert d) = 4"
| "mtl_cost _ = 0"

lemma mtl_step_ok:
  assumes "mtl_inv w" and "mtl_legal p (mtl_view w)" and "mtl_cost p \<le> mt_mem w"
  shows "\<exists>w'. mtl_step p w = Ok (fst (mtl_spec p (mtl_view w)), w') \<and> mtl_inv w' \<and>
    mtl_view w' = snd (mtl_spec p (mtl_view w)) \<and> mt_mem w \<le> mt_mem w' + mtl_cost p"
proof (cases p)
  case (Add d)
  with assms MTList_add_ok [of w d] show ?thesis by (auto simp: mtl_view_def)
next
  case (Insert d)
  with assms MTList_insert_ok [of w d] show ?thesis by (auto simp: mtl_view_def)
next
  case (Remove cmp x)
  with assms MTList_remove_ok [of w cmp x] show ?thesis by (fastforce simp: mtl_view_def)
next
  case (Set x y)
  with assms MTList_set_ok [of w x y] show ?thesis by (auto simp: mtl_view_def)
next
  case (SetDeleteMode m)
  with assms MTList_setDeleteMode_ok [of w m] show ?thesis by (auto simp: mtl_view_def)
qed (use assms in \<open>auto simp: mtl_view_def MTList_search_ok MTList_isPresent_ok MTList_numElements_ok\<close>)

interpretation mtlist: component mtl_step mtl_spec mtl_inv mtl_view mtl_legal mtl_cost mt_mem
  by unfold_locales (rule mtl_step_ok)

subsection \<open>Properties\<close>

text \<open>C1: Any sequence of add, insert, remove, set, setDeleteMode, search, isPresent and
  numElements calls on a well-formed list returns (no abort, no invalid memory access, no
  endless loop, no lock left taken), as long as the data are not null, no data is released twice and
  there is memory for four blocks per new element. The answers and the final content,
  delete mode and released data are those of a plain list.\<close>

theorem MTList_refines_list:
  assumes "mtl_inv w" and "legal_run mtl_spec mtl_legal ops (mtl_view w)"
    and "sum_list (map mtl_cost ops) \<le> mt_mem w"
  shows "\<exists>w'. run mtl_step ops w = Ok (fst (spec_run mtl_spec ops (mtl_view w)), w') \<and> mtl_inv w' \<and>
    mtl_view w' = snd (spec_run mtl_spec ops (mtl_view w))"
  using mtlist.run_ok [OF assms] by blast

theorem MTList_refines_list_witness:
  "\<exists>w w'. obind (MTList_new (mtl_start 20)) MTList_init = Ok (True, w) \<and>
     run mtl_step [Add 7, Insert 9, Add 8, Remove (\<lambda>d x. int d - int x) 7, NumElements, Set 8 6] w =
       Ok ([Flag True, Flag True, Flag True, Flag True, Number 2, Flag True], w') \<and>
     mtl_view w' = ([9, 6], MTLIST_DELETEMODE_AUTOMATIC, [7])"
proof -
  obtain w where w: "obind (MTList_new (mtl_start 20)) MTList_init = Ok (True, w)" "mtl_inv w"
    "mt_mem w = 16" "mtl_view w = ([], MTLIST_DELETEMODE_AUTOMATIC, [])"
    using MTList_new_init_ok [of 20] by auto
  with MTList_refines_list [of w "[Add 7, Insert 9, Add 8, Remove (\<lambda>d x. int d - int x) 7,
      NumElements, Set 8 6]"]
  show ?thesis by (auto simp: removed_data_def released_def)
qed

text \<open>C2: Clearing a well-formed list, when no data is released twice, unlinks and releases every
  element of it and no other block, releases the data of the elements exactly once and in
  order in automatic mode and not at all otherwise, destroys the lock and marks the list invalid.\<close>

theorem MTList_clear_releases_all:
  assumes "mtl_inv w" and "distinct (released (mtl_mode w) (mtl_data w))"
    and "set (released (mtl_mode w) (mtl_data w)) \<inter> set (mt_freed w) = {}"
  shows "\<exists>w' s'. MTList_clear w = Ok w' \<and> mt_self w' = Own s' \<and> l_valid s' = MTLIST_INVALID \<and>
    l_rwlock s' = Dangling \<and> l_first s' = 0 \<and> l_last s' = 0 \<and> l_numElement s' = 0 \<and>
    cells (mt_elems w') = cells (mt_elems w) |` (- set (mtl_addrs w)) \<and>
    mt_freed w' = mt_freed w @ released (mtl_mode w) (mtl_data w)"
  using MTList_clear_ok [OF assms] .

theorem MTList_clear_releases_all_witness:
  "\<exists>w w1 w2. obind (MTList_new (mtl_start 20)) MTList_init = Ok (True, w) \<and>
     run mtl_step [Add 7, Insert 9] w = Ok ([Flag True, Flag True], w1) \<and>
     MTList_clear w1 = Ok w2 \<and> mt_freed w2 = [9, 7]"
proof -
  obtain w where w: "obind (MTList_new (mtl_start 20)) MTList_init = Ok (True, w)" "mtl_inv w"
    "mt_mem w = 16" "mtl_view w = ([], MTLIST_DELETEMODE_AUTOMATIC, [])"
    using MTList_new_init_ok [of 20] by auto
  obtain w1 where w1: "run mtl_step [Add 7, Insert 9] w = Ok ([Flag True, Flag True], w1)"
    "mtl_inv w1" "mtl_data w1 = [9, 7]" "mtl_mode w1 = MTLIST_DELETEMODE_AUTOMATIC" "mt_freed w1 = []"
    using mtlist.run_ok [of w "[Add 7, Insert 9]"] w by (auto simp: mtl_view_def)
  with w(1) MTList_clear_releases_all [of w1] show ?thesis by (auto simp: released_def)
qed

text \<open>C3: Iterating over a well-formed list with a read or write flag calls the function on the
  data in order up to the first call that answers 0, returns the data at which it stopped (the
  null pointer if it never did), and leaves the list and all of its locks as they were.\<close>

theorem MTList_iterate_in_order:
  assumes "mtl_inv w" and "and flags 3 \<noteq> 0" and "0 \<notin> set (mtl_data w)"
  shows "MTList_iterate (Some func) flags w u =
    Ok (case fst (iterate_data func (mtl_data w) u) of None \<Rightarrow> 0 | Some d \<Rightarrow> d, w,
        snd (iterate_data func (mtl_data w) u))"
  using MTList_iterate_ok [OF assms] .

theorem MTList_iterate_in_order_witness:
  "\<exists>w w1. obind (MTList_new (mtl_start 20)) MTList_init = Ok (True, w) \<and>
     run mtl_step [Add 7, Add 8, Add 9] w = Ok ([Flag True, Flag True, Flag True], w1) \<and>
     MTList_iterate (Some (\<lambda>d u. (if d = 8 then 0 else 1, u @ [d]))) MTLIST_ITERATE_FOR_READ w1 [] =
       Ok (8, w1, [7, 8])"
proof -
  obtain w where w: "obind (MTList_new (mtl_start 20)) MTList_init = Ok (True, w)" "mtl_inv w"
    "mt_mem w = 16" "mtl_view w = ([], MTLIST_DELETEMODE_AUTOMATIC, [])"
    using MTList_new_init_ok [of 20] by auto
  obtain w1 where w1: "run mtl_step [Add 7, Add 8, Add 9] w = Ok ([Flag True, Flag True, Flag True], w1)"
    "mtl_inv w1" "mtl_data w1 = [7, 8, 9]"
    using mtlist.run_ok [of w "[Add 7, Add 8, Add 9]"] w by (auto simp: mtl_view_def)
  have "and MTLIST_ITERATE_FOR_READ 3 \<noteq> 0" by (simp add: MTLIST_ITERATE_FOR_READ_def)
  from MTList_iterate_in_order [OF w1(2) this, of "\<lambda>d u. (if d = 8 then 0 else 1, u @ [d])" "[]"]
    w(1) w1 show ?thesis by (auto simp: Let_def)
qed

text \<open>\<^verbatim>\<open>MTList_add\<close> and \<^verbatim>\<open>MTList_insert\<close> on a well-formed list return exactly when the data is
  not null and memory for four blocks is left; otherwise \<^verbatim>\<open>ANY_REQUIRE\<close> ends the process,
  so they never return false.\<close>

theorem MTList_add_returns_iff:
  assumes "mtl_inv w"
  shows "returns (MTList_add data w) = (data \<noteq> 0 \<and> 4 \<le> mt_mem w) \<and>
    (MTList_add data w = Require) = (data = 0 \<or> mt_mem w < 4) \<and>
    (MTList_insert data w = Require) = (data = 0 \<or> mt_mem w < 4)"
proof (cases "data \<noteq> 0 \<and> 4 \<le> mt_mem w")
  case True
  with MTList_add_ok [OF assms, of data] MTList_insert_ok [OF assms, of data] show ?thesis by auto
next
  case False
  with MTList_add_fails [OF assms, of data] show ?thesis by auto
qed

theorem MTList_add_returns_iff_witness:
  "\<exists>w. obind (MTList_new (mtl_start 7)) MTList_init = Ok (True, w) \<and> MTList_add 5 w = Require"
proof -
  obtain w where w: "obind (MTList_new (mtl_start 7)) MTList_init = Ok (True, w)" "mtl_inv w"
    "mt_mem w = 3"
    using MTList_new_init_ok [of 7] by auto
  with MTList_add_returns_iff [of w 5] show ?thesis by auto
qed

end
