(* ===== verification/MT_Queue.thy ===== *)
theory MT_Queue
  imports Heap_Model Locks
begin

text \<open>
  \<^verbatim>\<open>MTQueue\<close> (src/src/MTQueue.c): a queue of user pointers with a class number each, first in
  first out or last in first out, guarded by a mutex and with a condition that \<^verbatim>\<open>push\<close>
  signals when the queue is used by several threads.

  The state holds the queue object, its elements, the budget of allocations, how many
  times the condition has been signalled or broadcast, and the mutexes and conditions that were
  given up: each as the block that was handed to \<^verbatim>\<open>Mutex_delete\<close> or \<^verbatim>\<open>Cond_delete\<close> and the
  pointer that this left behind. What the other threads do to
  the queue while \<^verbatim>\<open>MTQueue_popWait\<close> sleeps is an argument of that operation.
\<close>

definition MTQUEUE_VALID :: ulong where "MTQUEUE_VALID = 0x016e134c"
definition MTQUEUE_INVALID :: ulong where "MTQUEUE_INVALID = 0x49d1602c"
definition MTQUEUE_FIFO :: int where "MTQUEUE_FIFO = 1"
definition MTQUEUE_LIFO :: int where "MTQUEUE_LIFO = 2"

record MTQueueElement =
  qe_data :: nat
  qe_userClass :: ulong
  qe_next :: nat

record MTQueue =
  q_valid :: ulong
  q_type :: int
  q_lock :: "Mutex owned"
  q_pushCond :: "Cond owned"
  q_numElements :: nat
  q_head :: nat
  q_tail :: nat
  q_quit :: bool

record mtq =
  mq_self :: "MTQueue owned"
  mq_elems :: "MTQueueElement heap"
  mq_mem :: nat
  mq_signals :: nat
  mq_broadcasts :: nat
  mq_mutexes :: "(Mutex owned \<times> Mutex owned) list"
  mq_conds :: "(Cond owned \<times> Cond owned) list"

definition MTQueue_zero :: MTQueue where
  "MTQueue_zero = \<lparr>q_valid = 0, q_type = 0, q_lock = Null, q_pushCond = Null, q_numElements = 0,
     q_head = 0, q_tail = 0, q_quit = False\<rparr>"

definition MTQueueElement_zero :: MTQueueElement where
  "MTQueueElement_zero = \<lparr>qe_data = 0, qe_userClass = 0, qe_next = 0\<rparr>"

text \<open>\<^verbatim>\<open>ANY_REQUIRE( self ); ANY_REQUIRE( self->valid == MTQUEUE_VALID );\<close>\<close>

definition with_queue :: "mtq \<Rightarrow> (MTQueue \<Rightarrow> 'a outcome) \<Rightarrow> 'a outcome" where
  "with_queue w k =
     require_ptr (mq_self w) (\<lambda>s. ANY_REQUIRE (q_valid s = MTQUEUE_VALID) (k s))"

definition MTQueue_new :: "mtq \<Rightarrow> mtq" where
  "MTQueue_new w =
     (let (p, mem) = ANY_TALLOC MTQueue_zero (mq_mem w) in w\<lparr>mq_self := p, mq_mem := mem\<rparr>)"

definition MTQueue_init :: "int \<Rightarrow> bool \<Rightarrow> mtq \<Rightarrow> (int \<times> mtq) outcome" where
  "MTQueue_init type multiThread w =
     require_ptr (mq_self w) (\<lambda>s.
       let s = s\<lparr>q_valid := MTQUEUE_INVALID\<rparr> in
       obind (if multiThread
              then obind (Mutex_new (mq_mem w)) (\<lambda>(lk, mem).
                   obind (Mutex_init lk MUTEX_PRIVATE) (\<lambda>(_, lk).
                   obind (Cond_new mem) (\<lambda>(cd, mem).
                   obind (Cond_init cd COND_PRIVATE) (\<lambda>(_, cd).
                   obind (Cond_setMutex cd 1) (\<lambda>cd.
                   Ok (s\<lparr>q_lock := lk, q_pushCond := cd\<rparr>, mem))))))
              else Ok (s, mq_mem w)) (\<lambda>(s, mem).
       Ok (0, w\<lparr>mq_self := Own (s\<lparr>q_type := type, q_numElements := 0, q_head := 0, q_tail := 0,
                 q_quit := False, q_valid := MTQUEUE_VALID\<rparr>), mq_mem := mem\<rparr>)))"

definition MTQueue_lock :: "mtq \<Rightarrow> mtq outcome" where
  "MTQueue_lock w =
     with_queue w (\<lambda>s.
       if q_lock s \<noteq> Null
       then obind (Mutex_lock (q_lock s)) (\<lambda>(status, lk).
            ANY_REQUIRE (status = 0) (Ok (w\<lparr>mq_self := Own (s\<lparr>q_lock := lk\<rparr>)\<rparr>)))
       else Ok w)"

definition MTQueue_unlock :: "mtq \<Rightarrow> mtq outcome" where
  "MTQueue_unlock w =
     with_queue w (\<lambda>s.
       if q_lock s \<noteq> Null
       then obind (Mutex_unlock (q_lock s)) (\<lambda>(status, lk).
            ANY_REQUIRE (status = 0) (Ok (w\<lparr>mq_self := Own (s\<lparr>q_lock := lk\<rparr>)\<rparr>)))
       else Ok w)"

definition MTQueue_signalPush :: "mtq \<Rightarrow> mtq outcome" where
  "MTQueue_signalPush w =
     with_queue w (\<lambda>s.
       if q_pushCond s \<noteq> Null
       then omap snd (Cond_signal (\<lambda>w. w\<lparr>mq_signals := mq_signals w + 1\<rparr>) (q_pushCond s) w)
       else Ok w)"

definition MTQueue_addHead :: "nat \<Rightarrow> ulong \<Rightarrow> mtq \<Rightarrow> mtq outcome" where
  "MTQueue_addHead data userClass w =
     with_queue w (\<lambda>s. ANY_REQUIRE (data \<noteq> 0)
       (let (e, h, mem) = halloc MTQueueElement_zero (mq_elems w) (mq_mem w) in
        ANY_REQUIRE (e \<noteq> 0)
          (obind (hupd h e (\<lambda>c. c\<lparr>qe_data := data, qe_userClass := userClass\<rparr>)) (\<lambda>h.
           obind (if q_head s \<noteq> 0
                  then obind (hupd h e (qe_next_update (\<lambda>_. q_head s))) (\<lambda>h.
                         Ok (s\<lparr>q_head := e\<rparr>, h))
                  else obind (hupd h e (qe_next_update (\<lambda>_. 0))) (\<lambda>h.
                         Ok (s\<lparr>q_head := e, q_tail := e\<rparr>, h))) (\<lambda>(s, h).
           Ok (w\<lparr>mq_self := Own (s\<lparr>q_numElements := q_numElements s + 1\<rparr>),
                 mq_elems := h, mq_mem := mem\<rparr>))))))"

text \<open>\<^verbatim>\<open>MTQueue_addTail\<close> relies on \<^verbatim>\<open>ANY_TALLOC\<close> for the null \<^verbatim>\<open>next\<close> pointer of the new
  element when the queue is not empty.\<close>

definition MTQueue_addTail :: "nat \<Rightarrow> ulong \<Rightarrow> mtq \<Rightarrow> mtq outcome" where
  "MTQueue_addTail data userClass w =
     with_queue w (\<lambda>s. ANY_REQUIRE (data \<noteq> 0)
       (let (e, h, mem) = halloc MTQueueElement_zero (mq_elems w) (mq_mem w) in
        ANY_REQUIRE (e \<noteq> 0)
          (obind (hupd h e (\<lambda>c. c\<lparr>qe_data := data, qe_userClass := userClass\<rparr>)) (\<lambda>h.
           obind (if q_tail s \<noteq> 0
                  then obind (hupd h (q_tail s) (qe_next_update (\<lambda>_. e))) (\<lambda>h.
                         Ok (s\<lparr>q_tail := e\<rparr>, h))
                  else obind (hupd h e (qe_next_update (\<lambda>_. 0))) (\<lambda>h.
                         Ok (s\<lparr>q_head := e, q_tail := e\<rparr>, h))) (\<lambda>(s, h).
           Ok (w\<lparr>mq_self := Own (s\<lparr>q_numElements := q_numElements s + 1\<rparr>),
                 mq_elems := h, mq_mem := mem\<rparr>))))))"

text \<open>An invalid queue type is only logged: the data is dropped.\<close>

definition MTQueue_push :: "nat \<Rightarrow> ulong \<Rightarrow> mtq \<Rightarrow> mtq outcome" where
  "MTQueue_push data userClass w =
     with_queue w (\<lambda>_. ANY_REQUIRE (data \<noteq> 0)
       (obind (MTQueue_lock w) (\<lambda>w.
        obind (with_queue w (\<lambda>s.
                 if q_type s = MTQUEUE_FIFO
                 then obind (MTQueue_addTail data userClass w) MTQueue_signalPush
                 else if q_type s = MTQUEUE_LIFO
                 then obind (MTQueue_addHead data userClass w) MTQueue_signalPush
                 else Ok w)) MTQueue_unlock)))"

text \<open>\<^verbatim>\<open>userClass\<close> is an out parameter, \<open>None\<close> for the null pointer.\<close>

definition MTQueue_unlockedPop :: "ulong option \<Rightarrow> mtq \<Rightarrow> (nat \<times> ulong option \<times> mtq) outcome" where
  "MTQueue_unlockedPop userClass w =
     with_queue w (\<lambda>s.
       if q_numElements s > 0
       then
         obind (hread (mq_elems w) (q_head s)) (\<lambda>e.
         let retVal = qe_data e;
             userClass = (if userClass \<noteq> None then Some (qe_userClass e) else None) in
         obind (hfree (mq_elems w) (q_head s)) (\<lambda>h.
         let s = s\<lparr>q_head := qe_next e, q_numElements := q_numElements s - 1\<rparr> in
         obind (if q_numElements s = 0
                then ANY_REQUIRE (q_head s = 0) (Ok (s\<lparr>q_head := 0, q_tail := 0\<rparr>))
                else Ok s) (\<lambda>s.
         Ok (retVal, userClass, w\<lparr>mq_self := Own s, mq_elems := h\<rparr>))))
       else Ok (0, userClass, w))"

definition MTQueue_pop :: "ulong option \<Rightarrow> mtq \<Rightarrow> (nat \<times> ulong option \<times> mtq) outcome" where
  "MTQueue_pop userClass w =
     with_queue w (\<lambda>_.
       obind (MTQueue_lock w) (\<lambda>w.
       obind (MTQueue_unlockedPop userClass w) (\<lambda>(retVal, userClass, w).
       obind (MTQueue_unlock w) (\<lambda>w.
       Ok (retVal, userClass, w)))))"

text \<open>Sleeping on the condition releases the mutex of the queue, lets the others work on the
  queue and takes the mutex again.\<close>

definition MTQueue_sleep ::
  "((int \<times> int) option \<Rightarrow> mtq \<Rightarrow> (int \<times> mtq) outcome) \<Rightarrow> (int \<times> int) option \<Rightarrow> mtq \<Rightarrow>
   (int \<times> mtq) outcome" where
  "MTQueue_sleep others deadline w =
     obind (MTQueue_unlock w) (\<lambda>w.
     obind (others deadline w) (\<lambda>(rc, w).
     obind (MTQueue_lock w) (\<lambda>w. Ok (rc, w))))"

definition MTQueue_popWait ::
  "((int \<times> int) option \<Rightarrow> mtq \<Rightarrow> (int \<times> mtq) outcome) \<Rightarrow> int \<times> int \<Rightarrow> ulong option \<Rightarrow> int \<Rightarrow> mtq \<Rightarrow>
   (nat \<times> ulong option \<times> mtq) outcome" where
  "MTQueue_popWait others tv userClass microsecs w =
     with_queue w (\<lambda>_.
       obind (MTQueue_lock w) (\<lambda>w.
       with_queue w (\<lambda>s.
       obind (if q_quit s then Ok (0, userClass, w)
              else
                obind (if q_numElements s = 0
                       then omap (\<lambda>(_, _, w). w)
                              (Cond_wait (MTQueue_sleep others) tv (q_pushCond s) microsecs w)
                       else Ok w) (\<lambda>w.
                MTQueue_unlockedPop userClass w)) (\<lambda>(retVal, userClass, w).
       obind (MTQueue_unlock w) (\<lambda>w.
       Ok (retVal, userClass, w))))))"

definition MTQueue_numElements :: "mtq \<Rightarrow> (nat \<times> mtq) outcome" where
  "MTQueue_numElements w =
     with_queue w (\<lambda>_.
       obind (MTQueue_lock w) (\<lambda>w.
       with_queue w (\<lambda>s.
       let retVal = q_numElements s in
       obind (MTQueue_unlock w) (\<lambda>w. Ok (retVal, w)))))"

definition MTQueue_setQuit :: "bool \<Rightarrow> mtq \<Rightarrow> mtq outcome" where
  "MTQueue_setQuit status w =
     with_queue w (\<lambda>_.
       obind (MTQueue_lock w) (\<lambda>w.
       with_queue w (\<lambda>s. MTQueue_unlock (w\<lparr>mq_self := Own (s\<lparr>q_quit := status\<rparr>)\<rparr>))))"

definition MTQueue_wakeUpAll :: "mtq \<Rightarrow> mtq outcome" where
  "MTQueue_wakeUpAll w =
     with_queue w (\<lambda>_.
       obind (MTQueue_lock w) (\<lambda>w.
       with_queue w (\<lambda>s.
       obind (Cond_broadcast (\<lambda>w. w\<lparr>mq_broadcasts := mq_broadcasts w + 1\<rparr>) (q_pushCond s) w)
         (\<lambda>(_, w). MTQueue_unlock w))))"

fun MTQueue_clear_loop :: "nat \<Rightarrow> mtq \<Rightarrow> mtq outcome" where
  "MTQueue_clear_loop 0 w = Stuck"
| "MTQueue_clear_loop (Suc fuel) w =
     obind (MTQueue_pop None w) (\<lambda>(r, _, w). if r \<noteq> 0 then MTQueue_clear_loop fuel w else Ok w)"

definition MTQueue_clear :: "mtq \<Rightarrow> mtq outcome" where
  "MTQueue_clear w =
     with_queue w (\<lambda>_.
       obind (MTQueue_clear_loop (brk (mq_elems w)) w) (\<lambda>w.
       deref (mq_self w) (\<lambda>s.
       let s = s\<lparr>q_valid := MTQUEUE_INVALID\<rparr> in
       ANY_REQUIRE (q_numElements s = 0)
         (obind (if q_lock s \<noteq> Null
                 then obind (Mutex_clear (q_lock s)) (\<lambda>lk.
                      obind (Mutex_delete lk) (\<lambda>p.
                      Ok (s\<lparr>q_lock := Null\<rparr>, w\<lparr>mq_mutexes := mq_mutexes w @ [(lk, p)]\<rparr>)))
                 else Ok (s, w)) (\<lambda>(s, w).
          obind (if q_pushCond s \<noteq> Null
                 then obind (Cond_clear (q_pushCond s)) (\<lambda>cd.
                      obind (Cond_delete cd) (\<lambda>p.
                      Ok (s\<lparr>q_pushCond := Null\<rparr>, w\<lparr>mq_conds := mq_conds w @ [(cd, p)]\<rparr>)))
                 else Ok (s, w)) (\<lambda>(s, w).
          Ok (w\<lparr>mq_self := Own s\<rparr>)))))))"

definition MTQueue_delete :: "mtq \<Rightarrow> mtq outcome" where
  "MTQueue_delete w =
     require_ptr (mq_self w) (\<lambda>s. ANY_REQUIRE (q_valid s = MTQUEUE_INVALID)
       (obind (ANY_FREE (mq_self w)) (\<lambda>p. Ok (w\<lparr>mq_self := p\<rparr>))))"

subsection \<open>The invariant and the abstract value\<close>

definition lock_ok :: "MTQueue \<Rightarrow> bool" where
  "lock_ok s \<longleftrightarrow> (q_lock s = Null \<and> q_pushCond s = Null) \<or>
     (mutex_free (q_lock s) \<and> cond_ready (q_pushCond s) \<and>
        (case q_pushCond s of Own c \<Rightarrow> cd_externalMutex c = 1 | _ \<Rightarrow> False))"

definition mtqueue_ok :: "MTQueue \<Rightarrow> MTQueueElement heap \<Rightarrow> nat list \<Rightarrow> bool" where
  "mtqueue_ok s h as \<longleftrightarrow>
     heap_ok h \<and> q_valid s = MTQUEUE_VALID \<and> lseg qe_next (cells h) (q_head s) as 0 \<and>
     q_tail s = (if as = [] then 0 else last as) \<and> q_numElements s = length as \<and>
     (\<forall>a \<in> set as. case cells h a of Some e \<Rightarrow> qe_data e \<noteq> 0 | None \<Rightarrow> False)"

definition qdata :: "MTQueueElement heap \<Rightarrow> nat \<Rightarrow> nat \<times> ulong" where
  "qdata h a = (case cells h a of None \<Rightarrow> (0, 0) | Some e \<Rightarrow> (qe_data e, qe_userClass e))"

definition mtq_addrs :: "mtq \<Rightarrow> nat list" where
  "mtq_addrs w = (case mq_self w of
     Own s \<Rightarrow> chain (brk (mq_elems w)) qe_next (cells (mq_elems w)) (q_head s)
   | _ \<Rightarrow> [])"

definition mtq_inv :: "mtq \<Rightarrow> bool" where
  "mtq_inv w = (case mq_self w of
     Own s \<Rightarrow> lock_ok s \<and> mtqueue_ok s (mq_elems w) (mtq_addrs w)
   | _ \<Rightarrow> False)"

text \<open>The data and classes in the order in which they will be popped.\<close>

definition mtq_data :: "mtq \<Rightarrow> (nat \<times> ulong) list" where
  "mtq_data w = map (qdata (mq_elems w)) (mtq_addrs w)"

end
