(* ===== verification/MT_Queue_Correct.thy ===== *)
theory MT_Queue_Correct
  imports MT_Queue Interfaces
begin

text \<open>
  Correctness of \<^verbatim>\<open>MTQueue\<close>: what the unlocked operations do to the chain of elements, that
  every public operation leaves the mutex as it found it, and the refinement of a
  double-ended list for both queue types.
\<close>

subsection \<open>The mutex of the queue\<close>

lemma with_queue_ok [simp]:
  "mq_self w = Own s \<Longrightarrow> q_valid s = MTQUEUE_VALID \<Longrightarrow> with_queue w k = k s"
  by (simp add: with_queue_def)

lemma mtq_self_triv [simp]: "mq_self w = Own s \<Longrightarrow> w\<lparr>mq_self := Own s\<rparr> = w"
  by (cases w) simp

definition mutex_or_null :: "Mutex owned \<Rightarrow> bool" where
  "mutex_or_null p \<longleftrightarrow> p = Null \<or> mutex_free p"

lemma lock_ok_mutex: "lock_ok s \<Longrightarrow> mutex_or_null (q_lock s)"
  by (auto simp: lock_ok_def mutex_or_null_def)

lemma mx_set_Null [simp]: "mx_set m p = Null \<longleftrightarrow> p = Null" "mx_set m Null = Null"
  by (cases p) (auto simp: mx_set_def)

lemma queue_lock_triv [simp]: "q_lock s = lk \<Longrightarrow> s\<lparr>q_lock := lk\<rparr> = s"
  by (cases s) simp

lemma MTQueue_lock_ok:
  assumes "mq_self w = Own s" and "q_valid s = MTQUEUE_VALID" and "mutex_or_null (q_lock s)"
  shows "MTQueue_lock w = Ok (w\<lparr>mq_self := Own (s\<lparr>q_lock := mx_set MxHeld (q_lock s)\<rparr>)\<rparr>)"
proof (cases "q_lock s = Null")
  case True
  with True assms show ?thesis by (simp add: MTQueue_lock_def)
next
  case False
  with assms have "mutex_free (q_lock s)" by (simp add: mutex_or_null_def)
  with False assms show ?thesis by (simp add: MTQueue_lock_def)
qed

lemma MTQueue_unlock_ok:
  assumes "mq_self w = Own s" and "q_valid s = MTQUEUE_VALID" and "q_lock s = mx_set MxHeld lk"
    and "mutex_or_null lk"
  shows "MTQueue_unlock w = Ok (w\<lparr>mq_self := Own (s\<lparr>q_lock := lk\<rparr>)\<rparr>)"
proof (cases "lk = Null")
  case True
  with True assms show ?thesis by (simp add: MTQueue_unlock_def)
next
  case False
  with assms have "mutex_free lk" by (simp add: mutex_or_null_def)
  with False assms show ?thesis by (simp add: MTQueue_unlock_def)
qed

subsection \<open>The unlocked operations\<close>

definition same_frame :: "MTQueue \<Rightarrow> MTQueue \<Rightarrow> bool" where
  "same_frame s s' \<longleftrightarrow> q_lock s' = q_lock s \<and> q_pushCond s' = q_pushCond s \<and> q_type s' = q_type s \<and>
     q_quit s' = q_quit s"

lemma mtqueue_ok_frame [simp]: "mtqueue_ok (s\<lparr>q_lock := lk\<rparr>) h as = mtqueue_ok s h as"
  "mtqueue_ok (s\<lparr>q_quit := b\<rparr>) h as = mtqueue_ok s h as"
  by (simp_all add: mtqueue_ok_def)

lemma mtqueue_ok_fresh: "mtqueue_ok s h as \<Longrightarrow> brk h \<notin> set as \<and> 0 < brk h"
  by (auto simp: mtqueue_ok_def heap_ok_brk dest: lseg_cells)

lemma mtqueue_ok_distinct: "mtqueue_ok s h as \<Longrightarrow> distinct as"
  by (auto simp: mtqueue_ok_def dest: lseg_distinct)

lemma mtqueue_ok_valid: "mtqueue_ok s h as \<Longrightarrow> q_valid s = MTQUEUE_VALID"
  by (simp add: mtqueue_ok_def)

lemma mtqueue_ok_elem:
  assumes "mtqueue_ok s h as" and "a \<in> set as"
  obtains e where "cells h a = Some e" "qe_data e \<noteq> 0" "a \<noteq> 0"
  using assms by (fastforce simp: mtqueue_ok_def dest: lseg_nonnull split: option.splits)

lemma mtqueue_ok_ends:
  assumes "mtqueue_ok s h as"
  shows "q_head s = 0 \<longleftrightarrow> as = []" and "q_tail s = 0 \<longleftrightarrow> as = []"
proof -
  show "q_head s = 0 \<longleftrightarrow> as = []" using assms by (cases as) (auto simp: mtqueue_ok_def)
  show "q_tail s = 0 \<longleftrightarrow> as = []"
    using assms by (metis last_in_set lseg_nonnull mtqueue_ok_def)
qed

lemma qdata_Some [simp]: "cells h a = Some e \<Longrightarrow> qdata h a = (qe_data e, qe_userClass e)"
  by (simp add: qdata_def)

lemma qdata_cells [simp]:
  "qdata (h\<lparr>cells := (cells h)(q := v)\<rparr>) b =
     (if b = q then (case v of None \<Rightarrow> (0, 0) | Some e \<Rightarrow> (qe_data e, qe_userClass e)) else qdata h b)"
  "qdata (h\<lparr>brk := n\<rparr>) b = qdata h b"
  by (simp_all add: qdata_def)

definition fresh_queue_element :: "nat \<Rightarrow> ulong \<Rightarrow> nat \<Rightarrow> MTQueueElement" where
  "fresh_queue_element d c n = \<lparr>qe_data = d, qe_userClass = c, qe_next = n\<rparr>"

lemma fresh_queue_element_simps [simp]:
  "qe_data (fresh_queue_element d c n) = d" "qe_userClass (fresh_queue_element d c n) = c"
  "qe_next (fresh_queue_element d c n) = n"
  by (simp_all add: fresh_queue_element_def)

lemma MTQueue_addHead_ok:
  assumes w: "mq_self w = Own s" and ok: "mtqueue_ok s (mq_elems w) as"
    and "data \<noteq> 0" and "0 < mq_mem w"
  shows "\<exists>s' h'. MTQueue_addHead data userClass w =
      Ok (w\<lparr>mq_self := Own s', mq_elems := h', mq_mem := mq_mem w - 1\<rparr>) \<and>
    mtqueue_ok s' h' (brk (mq_elems w) # as) \<and> same_frame s s' \<and>
    map (qdata h') (brk (mq_elems w) # as) = (data, userClass) # map (qdata (mq_elems w)) as"
proof -
  define h where "h = mq_elems w"
  have fresh: "brk h \<notin> set as" "0 < brk h" using mtqueue_ok_fresh [OF ok] by (auto simp: h_def)
  define h' where "h' = h\<lparr>cells := (cells h)(brk h \<mapsto> fresh_queue_element data userClass (q_head s)),
    brk := Suc (brk h)\<rparr>"
  define s' where "s' = s\<lparr>q_head := brk h, q_tail := (if as = [] then brk h else q_tail s),
    q_numElements := q_numElements s + 1\<rparr>"
  have al: "halloc MTQueueElement_zero h (mq_mem w) =
      (brk h, h\<lparr>cells := (cells h)(brk h \<mapsto> MTQueueElement_zero), brk := Suc (brk h)\<rparr>, mq_mem w - 1)"
    using assms(4) by (simp add: halloc_def)
  have "MTQueue_addHead data userClass w =
      Ok (w\<lparr>mq_self := Own s', mq_elems := h', mq_mem := mq_mem w - 1\<rparr>)"
    using w mtqueue_ok_valid [OF ok] mtqueue_ok_ends [OF ok] assms(3) al fresh(2)
    by (cases "as = []") (simp_all add: MTQueue_addHead_def h_def h'_def s'_def
        MTQueueElement_zero_def fresh_queue_element_def)
  moreover have "mtqueue_ok s' h' (brk h # as)"
    using ok fresh assms(3) unfolding h_def [symmetric]
    by (auto simp: mtqueue_ok_def s'_def h'_def split: option.splits)
  moreover have "map (qdata h') (brk h # as) = (data, userClass) # map (qdata h) as"
    using fresh by (auto simp: h'_def)
  moreover have "same_frame s s'" by (simp add: s'_def same_frame_def)
  ultimately show ?thesis unfolding h_def by (intro exI [of _ s'] exI [of _ h'] conjI)
qed

lemma MTQueue_addTail_ok:
  assumes w: "mq_self w = Own s" and ok: "mtqueue_ok s (mq_elems w) as"
    and "data \<noteq> 0" and "0 < mq_mem w"
  shows "\<exists>s' h'. MTQueue_addTail data userClass w =
      Ok (w\<lparr>mq_self := Own s', mq_elems := h', mq_mem := mq_mem w - 1\<rparr>) \<and>
    mtqueue_ok s' h' (as @ [brk (mq_elems w)]) \<and> same_frame s s' \<and>
    map (qdata h') (as @ [brk (mq_elems w)]) = map (qdata (mq_elems w)) as @ [(data, userClass)]"
proof (cases as rule: rev_cases)
  case Nil
  then have "MTQueue_addTail data userClass w = MTQueue_addHead data userClass w"
    using mtqueue_ok_ends [OF ok] w mtqueue_ok_valid [OF ok]
    by (simp add: MTQueue_addTail_def MTQueue_addHead_def)
  with MTQueue_addHead_ok [OF assms] Nil show ?thesis by simp
next
  case (snoc ys y)
  define h where "h = mq_elems w"
  have fresh: "brk h \<notin> set as" "0 < brk h" using mtqueue_ok_fresh [OF ok] by (auto simp: h_def)
  obtain d where d: "cells h y = Some d" "qe_data d \<noteq> 0" "y \<noteq> 0"
    using mtqueue_ok_elem [OF ok, of y] by (auto simp: snoc h_def)
  have tail: "q_tail s = y" and ynot: "y \<notin> set ys" "y \<noteq> brk h" "brk h \<notin> set ys"
    using ok mtqueue_ok_distinct [OF ok] fresh by (auto simp: mtqueue_ok_def snoc)
  define h' where "h' = h\<lparr>cells := (cells h)(y \<mapsto> d\<lparr>qe_next := brk h\<rparr>,
    brk h \<mapsto> fresh_queue_element data userClass 0), brk := Suc (brk h)\<rparr>"
  define s' where "s' = s\<lparr>q_tail := brk h, q_numElements := q_numElements s + 1\<rparr>"
  have al: "halloc MTQueueElement_zero h (mq_mem w) =
      (brk h, h\<lparr>cells := (cells h)(brk h \<mapsto> MTQueueElement_zero), brk := Suc (brk h)\<rparr>, mq_mem w - 1)"
    using assms(4) by (simp add: halloc_def)
  have "MTQueue_addTail data userClass w =
      Ok (w\<lparr>mq_self := Own s', mq_elems := h', mq_mem := mq_mem w - 1\<rparr>)"
    using w mtqueue_ok_valid [OF ok] assms(3) al fresh(2) d tail ynot
    by (simp add: MTQueue_addTail_def h_def h'_def s'_def MTQueueElement_zero_def
        fresh_queue_element_def fun_upd_twist)
  moreover have "mtqueue_ok s' h' (as @ [brk h])"
  proof -
    have "heap_ok h'" unfolding h'_def
      using ok d(1) by (intro heap_ok_alloc_cells) (auto simp: mtqueue_ok_def h_def)
    moreover have "lseg qe_next (cells h') (q_head s) (ys @ [y, brk h]) 0"
      using lseg_snoc [of qe_next "cells h" "q_head s" ys y "d\<lparr>qe_next := brk h\<rparr>" "brk h"
          "fresh_queue_element data userClass 0"] ok fresh
      by (simp add: h'_def mtqueue_ok_def snoc h_def)
    moreover have "case cells h' a of Some e \<Rightarrow> qe_data e \<noteq> 0 | None \<Rightarrow> False"
      if "a \<in> set (as @ [brk h])" for a
      using that ok d(2) assms(3) by (auto simp: mtqueue_ok_def h'_def h_def)
    ultimately show ?thesis
      using ok by (auto simp: mtqueue_ok_def s'_def snoc)
  qed
  moreover have "map (qdata h') (as @ [brk h]) = map (qdata h) as @ [(data, userClass)]"
    using fresh ynot d by (auto simp: h'_def snoc qdata_def)
  moreover have "same_frame s s'" by (simp add: s'_def same_frame_def)
  ultimately show ?thesis unfolding h_def by (intro exI [of _ s'] exI [of _ h'] conjI)
qed

lemma MTQueue_unlockedPop_empty:
  assumes "mq_self w = Own s" and "mtqueue_ok s (mq_elems w) []"
  shows "MTQueue_unlockedPop userClass w = Ok (0, userClass, w)"
  using assms by (simp add: MTQueue_unlockedPop_def mtqueue_ok_def)

lemma MTQueue_unlockedPop_ok:
  assumes w: "mq_self w = Own s" and ok: "mtqueue_ok s (mq_elems w) (a # as)"
  shows "\<exists>s' h'. MTQueue_unlockedPop userClass w =
      Ok (fst (qdata (mq_elems w) a), map_option (\<lambda>_. snd (qdata (mq_elems w) a)) userClass,
          w\<lparr>mq_self := Own s', mq_elems := h'\<rparr>) \<and>
    mtqueue_ok s' h' as \<and> same_frame s s' \<and> map (qdata h') as = map (qdata (mq_elems w)) as \<and>
    brk h' = brk (mq_elems w) \<and> cells h' = cells (mq_elems w) |` (- {a})"
proof -
  define h where "h = mq_elems w"
  obtain e where e: "cells h a = Some e" "qe_data e \<noteq> 0" "a \<noteq> 0"
    using mtqueue_ok_elem [OF ok, of a] by (auto simp: h_def)
  have f: "heap_ok h" "q_valid s = MTQUEUE_VALID" "q_head s = a" "q_numElements s = Suc (length as)"
    "lseg qe_next (cells h) (qe_next e) as 0" "q_tail s = (if as = [] then a else last as)"
    using ok e(1) by (auto simp: mtqueue_ok_def h_def)
  have notin: "a \<notin> set as" using mtqueue_ok_distinct [OF ok] by simp
  define h' where "h' = h\<lparr>cells := (cells h)(a := None)\<rparr>"
  define s' where "s' = s\<lparr>q_head := qe_next e, q_numElements := length as,
    q_tail := (if as = [] then 0 else q_tail s)\<rparr>"
  have "as = [] \<Longrightarrow> qe_next e = 0" using f(5) by simp
  then have "MTQueue_unlockedPop userClass w =
      Ok (qe_data e, map_option (\<lambda>_. qe_userClass e) userClass, w\<lparr>mq_self := Own s', mq_elems := h'\<rparr>)"
    using w f(2,3,4) e
    by (auto simp: MTQueue_unlockedPop_def h_def [symmetric] h'_def s'_def Let_def)
  moreover have "mtqueue_ok s' h' as"
    using ok f notin unfolding h_def [symmetric]
    by (auto simp: mtqueue_ok_def h'_def s'_def split: option.splits)
  moreover have "map (qdata h') as = map (qdata h) as" using notin by (auto simp: h'_def)
  moreover have "same_frame s s'" by (simp add: s'_def same_frame_def)
  moreover have "brk h' = brk h" "cells h' = cells h |` (- {a})"
    by (auto simp: h'_def restrict_map_def fun_eq_iff)
  ultimately show ?thesis
    unfolding h_def [symmetric] using e(1) by (intro exI [of _ s'] exI [of _ h'] conjI) simp_all
qed

lemma MTQueue_signalPush_ok:
  assumes "mq_self w = Own s" and "q_valid s = MTQUEUE_VALID" and "q_pushCond s = Null \<or> cond_ready (q_pushCond s)"
  shows "MTQueue_signalPush w =
    Ok (if q_pushCond s = Null then w else w\<lparr>mq_signals := mq_signals w + 1\<rparr>)"
  using assms by (auto simp: MTQueue_signalPush_def)

subsection \<open>The public operations\<close>

lemma mtq_inv_cases:
  assumes "mtq_inv w"
  obtains s as where "mq_self w = Own s" "lock_ok s" "mtqueue_ok s (mq_elems w) as"
    "mtq_addrs w = as" "mtq_data w = map (qdata (mq_elems w)) as"
  using assms by (auto simp: mtq_inv_def mtq_data_def split: owned.splits)

lemma mtq_invI:
  assumes "mq_self w = Own s" and "lock_ok s" and "mtqueue_ok s (mq_elems w) as"
  shows "mtq_inv w" and "mtq_addrs w = as" and "mtq_data w = map (qdata (mq_elems w)) as"
proof -
  show "mtq_addrs w = as"
    using assms by (simp add: mtq_addrs_def mtqueue_ok_def lseg_chain_heap)
  with assms show "mtq_inv w" "mtq_data w = map (qdata (mq_elems w)) as"
    by (simp_all add: mtq_inv_def mtq_data_def)
qed

lemma lock_ok_frame:
  "same_frame s s' \<Longrightarrow> q_lock s = mx_set MxHeld (q_lock s0) \<Longrightarrow> q_pushCond s = q_pushCond s0 \<Longrightarrow>
   lock_ok s0 \<Longrightarrow> lock_ok (s'\<lparr>q_lock := q_lock s0\<rparr>)"
  by (simp add: lock_ok_def same_frame_def)

text \<open>The parts of the abstract value: the entries, the type and the quit flag.\<close>

definition mtq_view :: "mtq \<Rightarrow> (nat \<times> ulong) list \<times> int \<times> bool" where
  "mtq_view w = (mtq_data w, (case mq_self w of Own s \<Rightarrow> q_type s | _ \<Rightarrow> 0),
     (case mq_self w of Own s \<Rightarrow> q_quit s | _ \<Rightarrow> False))"

text \<open>The shape of every public operation: lock, work on the queue, unlock.\<close>

lemma queue_bracket:
  assumes inv: "mtq_inv w" and w: "mq_self w = Own s" and as: "mtq_addrs w = as"
    and w1: "w1 = w\<lparr>mq_self := Own (s\<lparr>q_lock := mx_set MxHeld (q_lock s)\<rparr>)\<rparr>"
    and w2: "mq_self w2 = Own s2" "mtqueue_ok s2 (mq_elems w2) as2" "q_lock s2 = mx_set MxHeld (q_lock s)"
      "q_pushCond s2 = q_pushCond s"
  shows "MTQueue_lock w = Ok w1"
    and "mq_self w1 = Own (s\<lparr>q_lock := mx_set MxHeld (q_lock s)\<rparr>)"
    and "mtqueue_ok (s\<lparr>q_lock := mx_set MxHeld (q_lock s)\<rparr>) (mq_elems w1) as"
    and "MTQueue_unlock w2 = Ok (w2\<lparr>mq_self := Own (s2\<lparr>q_lock := q_lock s\<rparr>)\<rparr>)"
    and "mtq_inv (w2\<lparr>mq_self := Own (s2\<lparr>q_lock := q_lock s\<rparr>)\<rparr>)"
    and "mtq_view (w2\<lparr>mq_self := Own (s2\<lparr>q_lock := q_lock s\<rparr>)\<rparr>) =
      (map (qdata (mq_elems w2)) as2, q_type s2, q_quit s2)"
proof -
  have s: "lock_ok s" "mtqueue_ok s (mq_elems w) as"
    using inv w as by (auto simp: mtq_inv_def)
  note mx = lock_ok_mutex [OF s(1)]
  show "MTQueue_lock w = Ok w1"
    using MTQueue_lock_ok [OF w mtqueue_ok_valid [OF s(2)] mx] w1 by simp
  show "mq_self w1 = Own (s\<lparr>q_lock := mx_set MxHeld (q_lock s)\<rparr>)"
    "mtqueue_ok (s\<lparr>q_lock := mx_set MxHeld (q_lock s)\<rparr>) (mq_elems w1) as"
    using s(2) by (simp_all add: w1)
  show "MTQueue_unlock w2 = Ok (w2\<lparr>mq_self := Own (s2\<lparr>q_lock := q_lock s\<rparr>)\<rparr>)"
    by (rule MTQueue_unlock_ok [OF w2(1) mtqueue_ok_valid [OF w2(2)] w2(3) mx])
  have lk: "lock_ok (s2\<lparr>q_lock := q_lock s\<rparr>)"
    using s(1) w2(4) by (simp add: lock_ok_def)
  show "mtq_inv (w2\<lparr>mq_self := Own (s2\<lparr>q_lock := q_lock s\<rparr>)\<rparr>)"
    "mtq_view (w2\<lparr>mq_self := Own (s2\<lparr>q_lock := q_lock s\<rparr>)\<rparr>) =
      (map (qdata (mq_elems w2)) as2, q_type s2, q_quit s2)"
    using mtq_invI [of "w2\<lparr>mq_self := Own (s2\<lparr>q_lock := q_lock s\<rparr>)\<rparr>" "s2\<lparr>q_lock := q_lock s\<rparr>" as2]
      lk w2(2) by (simp_all add: mtq_view_def)
qed

definition enqueue :: "int \<Rightarrow> nat \<times> ulong \<Rightarrow> (nat \<times> ulong) list \<Rightarrow> (nat \<times> ulong) list" where
  "enqueue t x ds = (if t = MTQUEUE_FIFO then ds @ [x] else if t = MTQUEUE_LIFO then x # ds else ds)"

definition multi_threaded :: "mtq \<Rightarrow> bool" where
  "multi_threaded w = (case mq_self w of Own s \<Rightarrow> q_pushCond s \<noteq> Null | _ \<Rightarrow> False)"

lemma MTQueue_push_ok:
  assumes inv: "mtq_inv w" and "data \<noteq> 0" and "0 < mq_mem w" and view: "mtq_view w = (ds, t, q)"
  shows "\<exists>w'. MTQueue_push data c w = Ok w' \<and> mtq_inv w' \<and>
    mtq_view w' = (enqueue t (data, c) ds, t, q) \<and> mq_mem w \<le> mq_mem w' + 1 \<and>
    multi_threaded w' = multi_threaded w \<and>
    mq_signals w' = mq_signals w +
      (if multi_threaded w \<and> (t = MTQUEUE_FIFO \<or> t = MTQUEUE_LIFO) then 1 else 0)"
proof -
  obtain s as where w: "mq_self w = Own s" "lock_ok s" "mtqueue_ok s (mq_elems w) as"
    "mtq_addrs w = as" "mtq_data w = map (qdata (mq_elems w)) as"
    using inv by (rule mtq_inv_cases)
  define s1 where "s1 = s\<lparr>q_lock := mx_set MxHeld (q_lock s)\<rparr>"
  define w1 where "w1 = w\<lparr>mq_self := Own s1\<rparr>"
  have s1: "mq_self w1 = Own s1" "mtqueue_ok s1 (mq_elems w1) as" "q_type s1 = t" "q_quit s1 = q"
    "mq_mem w1 = mq_mem w" "q_pushCond s1 = q_pushCond s" "mq_elems w1 = mq_elems w"
    "q_lock s1 = mx_set MxHeld (q_lock s)" "mq_signals w1 = mq_signals w"
    using w view by (simp_all add: s1_def w1_def mtq_view_def)
  have dsq: "ds = map (qdata (mq_elems w)) as" using view w(5) by (simp add: mtq_view_def)
  have lock: "MTQueue_lock w = Ok w1"
    using queue_bracket(1) [OF inv w(1,4) _ s1(1,2,8,6)] by (simp add: w1_def s1_def)
  have valid: "q_valid s = MTQUEUE_VALID" using w(3) by (rule mtqueue_ok_valid)
  have unf: "MTQueue_push data c w =
      obind (if t = MTQUEUE_FIFO then obind (MTQueue_addTail data c w1) MTQueue_signalPush
             else if t = MTQUEUE_LIFO then obind (MTQueue_addHead data c w1) MTQueue_signalPush
             else Ok w1) MTQueue_unlock"
    using w(1) valid assms(2) lock s1(1,3) mtqueue_ok_valid [OF s1(2)]
    by (simp add: MTQueue_push_def)
  show ?thesis
  proof (cases "t = MTQUEUE_FIFO \<or> t = MTQUEUE_LIFO")
    case True
    obtain s2 h2 as2 where add: "(if t = MTQUEUE_FIFO then MTQueue_addTail data c w1
          else MTQueue_addHead data c w1) =
        Ok (w1\<lparr>mq_self := Own s2, mq_elems := h2, mq_mem := mq_mem w - 1\<rparr>)"
      "mtqueue_ok s2 h2 as2" "same_frame s1 s2" "map (qdata h2) as2 = enqueue t (data, c) ds"
    proof (cases "t = MTQUEUE_FIFO")
      case True
      with MTQueue_addTail_ok [OF s1(1,2) assms(2), of c] assms(3) dsq that s1(5,7) show ?thesis
        by (auto simp: enqueue_def)
    next
      case False
      with True MTQueue_addHead_ok [OF s1(1,2) assms(2), of c] assms(3) dsq that s1(5,7) show ?thesis
        by (auto simp: enqueue_def)
    qed
    define w2 where "w2 = w1\<lparr>mq_self := Own s2, mq_elems := h2, mq_mem := mq_mem w - 1,
      mq_signals := mq_signals w + (if multi_threaded w then 1 else 0)\<rparr>"
    have s2: "mq_self w2 = Own s2" "mtqueue_ok s2 (mq_elems w2) as2"
      "q_lock s2 = mx_set MxHeld (q_lock s)" "q_pushCond s2 = q_pushCond s" "q_type s2 = t" "q_quit s2 = q"
      using add(2,3) s1 by (simp_all add: w2_def same_frame_def)
    have sig: "MTQueue_signalPush (w1\<lparr>mq_self := Own s2, mq_elems := h2, mq_mem := mq_mem w - 1\<rparr>) = Ok w2"
      using MTQueue_signalPush_ok [of "w1\<lparr>mq_self := Own s2, mq_elems := h2, mq_mem := mq_mem w - 1\<rparr>" s2]
        mtqueue_ok_valid [OF add(2)] w(1,2) s2(4) s1(9)
      by (auto simp: w2_def w1_def multi_threaded_def lock_ok_def)
    have "MTQueue_push data c w = MTQueue_unlock w2"
      using add(1) sig True unfolding unf by (auto split: if_splits)
    then show ?thesis
      using queue_bracket(4-6) [OF inv w(1,4) refl s2(1-4)] add(4) s2(4-6) True assms(3) w(1)
      by (auto simp: w2_def w1_def multi_threaded_def)
  next
    case False
    then have "MTQueue_push data c w = MTQueue_unlock w1" unfolding unf by simp
    then show ?thesis
      using queue_bracket(4-6) [OF inv w(1,4) refl s1(1,2,8,6)] s1(3,4) False w(1) dsq
      by (auto simp: w1_def s1_def multi_threaded_def enqueue_def)
  qed
qed

definition popped :: "(nat \<times> ulong) list \<Rightarrow> nat" where
  "popped ds = (case ds of [] \<Rightarrow> 0 | x # _ \<Rightarrow> fst x)"

definition popped_class :: "ulong option \<Rightarrow> (nat \<times> ulong) list \<Rightarrow> ulong option" where
  "popped_class u ds = (case ds of [] \<Rightarrow> u | x # _ \<Rightarrow> map_option (\<lambda>_. snd x) u)"

text \<open>The unlocked pop on a queue whose mutex is held by the caller.\<close>

lemma unlockedPop_cases:
  assumes "mq_self w = Own s" and "mtqueue_ok s (mq_elems w) as"
    and "ds = map (qdata (mq_elems w)) as"
  shows "\<exists>s' h'. MTQueue_unlockedPop u w =
      Ok (popped ds, popped_class u ds, w\<lparr>mq_self := Own s', mq_elems := h'\<rparr>) \<and>
    mtqueue_ok s' h' (tl as) \<and> same_frame s s' \<and> map (qdata h') (tl as) = tl ds \<and>
    brk h' = brk (mq_elems w) \<and> cells h' = cells (mq_elems w) |` (- set (take 1 as))"
proof (cases as)
  case Nil
  with assms MTQueue_unlockedPop_empty [of w s u] show ?thesis
    by (intro exI [of _ s] exI [of _ "mq_elems w"])
      (simp add: popped_def popped_class_def same_frame_def restrict_map_def)
next
  case (Cons a as')
  with assms MTQueue_unlockedPop_ok [of w s a as' u] show ?thesis
    by (auto simp: popped_def popped_class_def)
qed

text \<open>The mutex and the condition of the queue and those that were given up.\<close>

definition mtq_sync :: "mtq \<Rightarrow> (Mutex owned \<times> Cond owned) option \<times>
    (Mutex owned \<times> Mutex owned) list \<times> (Cond owned \<times> Cond owned) list" where
  "mtq_sync w = ((case mq_self w of Own s \<Rightarrow> Some (q_lock s, q_pushCond s) | _ \<Rightarrow> None),
     mq_mutexes w, mq_conds w)"

lemma MTQueue_pop_ok:
  assumes inv: "mtq_inv w" and view: "mtq_view w = (ds, t, q)"
  shows "\<exists>w'. MTQueue_pop u w = Ok (popped ds, popped_class u ds, w') \<and> mtq_inv w' \<and>
    mtq_view w' = (tl ds, t, q) \<and> mq_mem w' = mq_mem w \<and> multi_threaded w' = multi_threaded w \<and>
    mq_signals w' = mq_signals w \<and> brk (mq_elems w') = brk (mq_elems w) \<and>
    mtq_addrs w' = tl (mtq_addrs w) \<and> mtq_sync w' = mtq_sync w \<and>
    cells (mq_elems w') = cells (mq_elems w) |` (- set (take 1 (mtq_addrs w)))"
proof -
  obtain s as where w: "mq_self w = Own s" "lock_ok s" "mtqueue_ok s (mq_elems w) as"
    "mtq_addrs w = as" "mtq_data w = map (qdata (mq_elems w)) as"
    using inv by (rule mtq_inv_cases)
  define s1 where "s1 = s\<lparr>q_lock := mx_set MxHeld (q_lock s)\<rparr>"
  define w1 where "w1 = w\<lparr>mq_self := Own s1\<rparr>"
  have s1: "mq_self w1 = Own s1" "mtqueue_ok s1 (mq_elems w1) as"
    "ds = map (qdata (mq_elems w1)) as"
    using w view by (simp_all add: s1_def w1_def mtq_view_def)
  obtain s2 h2 where pop: "MTQueue_unlockedPop u w1 =
      Ok (popped ds, popped_class u ds, w1\<lparr>mq_self := Own s2, mq_elems := h2\<rparr>)"
    "mtqueue_ok s2 h2 (tl as)" "same_frame s1 s2" "map (qdata h2) (tl as) = tl ds"
    "brk h2 = brk (mq_elems w)" "cells h2 = cells (mq_elems w) |` (- set (take 1 as))"
    using unlockedPop_cases [OF s1, of u] by (auto simp: w1_def)
  define w2 where "w2 = w1\<lparr>mq_self := Own s2, mq_elems := h2\<rparr>"
  have s2: "mq_self w2 = Own s2" "mtqueue_ok s2 (mq_elems w2) (tl as)"
    "q_lock s2 = mx_set MxHeld (q_lock s)" "q_pushCond s2 = q_pushCond s" "q_type s2 = t" "q_quit s2 = q"
    using pop(2,3) view w(1) by (auto simp: w2_def s1_def same_frame_def mtq_view_def)
  note br = queue_bracket [OF inv w(1,4) refl s2(1-4)]
  have addrs: "mtq_addrs (w2\<lparr>mq_self := Own (s2\<lparr>q_lock := q_lock s\<rparr>)\<rparr>) = tl as"
    using mtq_invI(2) [of "w2\<lparr>mq_self := Own (s2\<lparr>q_lock := q_lock s\<rparr>)\<rparr>" "s2\<lparr>q_lock := q_lock s\<rparr>" "tl as"]
      w(2) s2(2,4) by (simp add: lock_ok_def)
  have "MTQueue_pop u w = Ok (popped ds, popped_class u ds, w2\<lparr>mq_self := Own (s2\<lparr>q_lock := q_lock s\<rparr>)\<rparr>)"
    using w(1) mtqueue_ok_valid [OF w(3)] br(1) pop(1) br(4)
    by (simp add: MTQueue_pop_def w1_def [symmetric] s1_def [symmetric] w2_def [symmetric])
  with br(5,6) pop(4-6) s2(4-6) w(1,4) addrs show ?thesis
    by (auto simp: w2_def w1_def multi_threaded_def mtq_sync_def)
qed

text \<open>Sleeping on the locked queue: the others find the queue unlocked and as it was.\<close>

lemma lock_unlock:
  assumes "mtq_inv w"
  obtains s w1 where "mq_self w = Own s" "q_valid s = MTQUEUE_VALID" "MTQueue_lock w = Ok w1"
    "mq_self w1 = Own (s\<lparr>q_lock := mx_set MxHeld (q_lock s)\<rparr>)" "MTQueue_unlock w1 = Ok w"
    "lock_ok s" "q_numElements s = length (mtq_data w)"
proof -
  obtain s as where w: "mq_self w = Own s" "lock_ok s" "mtqueue_ok s (mq_elems w) as"
    "mtq_addrs w = as" "mtq_data w = map (qdata (mq_elems w)) as"
    using assms by (rule mtq_inv_cases)
  define s1 where "s1 = s\<lparr>q_lock := mx_set MxHeld (q_lock s)\<rparr>"
  define w1 where "w1 = w\<lparr>mq_self := Own s1\<rparr>"
  have s1: "mq_self w1 = Own s1" "mtqueue_ok s1 (mq_elems w1) as"
    "q_lock s1 = mx_set MxHeld (q_lock s)" "q_pushCond s1 = q_pushCond s"
    using w by (simp_all add: s1_def w1_def)
  note br = queue_bracket [OF assms w(1,4) refl s1]
  have "MTQueue_unlock w1 = Ok w"
    using br(4) w(1) by (simp add: w1_def s1_def)
  with br(1) w s1(1) mtqueue_ok_valid [OF w(3)] that show ?thesis
    by (simp add: w1_def s1_def mtqueue_ok_def)
qed

text \<open>The unlocked pop of the locked queue, followed by the unlock, is the public pop.\<close>

lemma pop_unfold:
  assumes "mtq_inv w" and "MTQueue_lock w = Ok w1"
  shows "obind (MTQueue_unlockedPop u w1) (\<lambda>(r, u, w). obind (MTQueue_unlock w) (\<lambda>w. Ok (r, u, w))) =
    MTQueue_pop u w"
proof -
  obtain s where "mq_self w = Own s" "q_valid s = MTQUEUE_VALID"
    using assms(1) by (rule lock_unlock)
  with assms(2) show ?thesis by (simp add: MTQueue_pop_def)
qed

lemma MTQueue_popWait_quit:
  assumes inv: "mtq_inv w" and view: "mtq_view w = (ds, t, True)"
  shows "MTQueue_popWait others tv u microsecs w = Ok (0, u, w)"
  using inv
proof (rule lock_unlock)
  fix s w1
  assume "mq_self w = Own s" "q_valid s = MTQUEUE_VALID" "MTQueue_lock w = Ok w1"
    "mq_self w1 = Own (s\<lparr>q_lock := mx_set MxHeld (q_lock s)\<rparr>)" "MTQueue_unlock w1 = Ok w"
  with view show ?thesis by (simp add: MTQueue_popWait_def mtq_view_def)
qed

lemma MTQueue_popWait_ready:
  assumes inv: "mtq_inv w" and view: "mtq_view w = (ds, t, False)" and "ds \<noteq> []"
  shows "MTQueue_popWait others tv u microsecs w = MTQueue_pop u w"
  using inv
proof (rule lock_unlock)
  fix s w1
  assume *: "mq_self w = Own s" "q_valid s = MTQUEUE_VALID" "MTQueue_lock w = Ok w1"
    "mq_self w1 = Own (s\<lparr>q_lock := mx_set MxHeld (q_lock s)\<rparr>)" "q_numElements s = length (mtq_data w)"
  then have "MTQueue_popWait others tv u microsecs w =
      obind (MTQueue_unlockedPop u w1) (\<lambda>(r, u, w). obind (MTQueue_unlock w) (\<lambda>w. Ok (r, u, w)))"
    using view assms(3) by (simp add: MTQueue_popWait_def mtq_view_def)
  with pop_unfold [OF inv *(3)] show ?thesis by simp
qed

lemma MTQueue_popWait_single:
  assumes inv: "mtq_inv w" and view: "mtq_view w = ([], t, False)" and "\<not> multi_threaded w"
  shows "MTQueue_popWait others tv u microsecs w = Require"
  using inv
proof (rule lock_unlock)
  fix s w1
  assume "mq_self w = Own s" "q_valid s = MTQUEUE_VALID" "MTQueue_lock w = Ok w1"
    "mq_self w1 = Own (s\<lparr>q_lock := mx_set MxHeld (q_lock s)\<rparr>)" "q_numElements s = length (mtq_data w)"
  with view assms(3) show ?thesis
    by (simp add: MTQueue_popWait_def mtq_view_def multi_threaded_def Cond_wait_def)
qed

definition popWait_deadline :: "int \<Rightarrow> int \<times> int \<Rightarrow> (int \<times> int) option" where
  "popWait_deadline microsecs tv = (if microsecs = 0 then None else Some (Cond_abstime microsecs tv))"

lemma MTQueue_popWait_sleeps:
  assumes inv: "mtq_inv w" and view: "mtq_view w = ([], t, False)" and "multi_threaded w"
    and others: "others (popWait_deadline microsecs tv) w = Ok (rc, w')" "mtq_inv w'"
  shows "MTQueue_popWait others tv u microsecs w = MTQueue_pop u w'"
  using inv
proof (rule lock_unlock)
  fix s w1
  assume *: "mq_self w = Own s" "q_valid s = MTQUEUE_VALID" "MTQueue_lock w = Ok w1"
    "mq_self w1 = Own (s\<lparr>q_lock := mx_set MxHeld (q_lock s)\<rparr>)" "MTQueue_unlock w1 = Ok w"
    "lock_ok s" "q_numElements s = length (mtq_data w)"
  obtain w2 where w2: "MTQueue_lock w' = Ok w2" using others(2) by (rule lock_unlock)
  have "cond_ready (q_pushCond s)" using *(1,6) assms(3) by (auto simp: multi_threaded_def lock_ok_def)
  then have "Cond_wait (MTQueue_sleep others) tv (q_pushCond s) microsecs w1 = Ok (rc, q_pushCond s, w2)"
    using *(5) others(1) w2 by (simp add: MTQueue_sleep_def popWait_deadline_def)
  then have "MTQueue_popWait others tv u microsecs w =
      obind (MTQueue_unlockedPop u w2) (\<lambda>(r, u, w). obind (MTQueue_unlock w) (\<lambda>w. Ok (r, u, w)))"
    using * view by (simp add: MTQueue_popWait_def mtq_view_def)
  with pop_unfold [OF others(2) w2] show ?thesis by simp
qed

lemma MTQueue_numElements_ok:
  assumes "mtq_inv w"
  shows "MTQueue_numElements w = Ok (length (mtq_data w), w)"
  using assms
proof (rule lock_unlock)
  fix s w1
  assume "mq_self w = Own s" "q_valid s = MTQUEUE_VALID" "MTQueue_lock w = Ok w1"
    "mq_self w1 = Own (s\<lparr>q_lock := mx_set MxHeld (q_lock s)\<rparr>)" "MTQueue_unlock w1 = Ok w"
    "q_numElements s = length (mtq_data w)"
  then show ?thesis by (simp add: MTQueue_numElements_def)
qed

lemma MTQueue_setQuit_ok:
  assumes inv: "mtq_inv w" and view: "mtq_view w = (ds, t, q)"
  shows "\<exists>w'. MTQueue_setQuit b w = Ok w' \<and> mtq_inv w' \<and> mtq_view w' = (ds, t, b) \<and>
    mq_mem w' = mq_mem w \<and> multi_threaded w' = multi_threaded w"
proof -
  obtain s as where w: "mq_self w = Own s" "lock_ok s" "mtqueue_ok s (mq_elems w) as"
    "mtq_addrs w = as" "mtq_data w = map (qdata (mq_elems w)) as"
    using inv by (rule mtq_inv_cases)
  define s2 where "s2 = s\<lparr>q_lock := mx_set MxHeld (q_lock s), q_quit := b\<rparr>"
  define w2 where "w2 = w\<lparr>mq_self := Own s2\<rparr>"
  have s2: "mq_self w2 = Own s2" "mtqueue_ok s2 (mq_elems w2) as"
    "q_lock s2 = mx_set MxHeld (q_lock s)" "q_pushCond s2 = q_pushCond s"
    using w by (simp_all add: s2_def w2_def)
  note br = queue_bracket [OF inv w(1,4) refl s2]
  have "MTQueue_setQuit b w = Ok (w2\<lparr>mq_self := Own (s2\<lparr>q_lock := q_lock s\<rparr>)\<rparr>)"
    using w(1) br(1,4) mtqueue_ok_valid [OF w(3)] by (simp add: MTQueue_setQuit_def w2_def s2_def)
  with br(5,6) view w(1,5) show ?thesis
    by (simp add: w2_def s2_def mtq_view_def multi_threaded_def)
qed

lemma MTQueue_wakeUpAll_ok:
  assumes inv: "mtq_inv w" and "multi_threaded w"
  shows "MTQueue_wakeUpAll w = Ok (w\<lparr>mq_broadcasts := mq_broadcasts w + 1\<rparr>)"
proof -
  obtain s as where w: "mq_self w = Own s" "lock_ok s" "mtqueue_ok s (mq_elems w) as"
    "mtq_addrs w = as" "mtq_data w = map (qdata (mq_elems w)) as"
    using inv by (rule mtq_inv_cases)
  define s2 where "s2 = s\<lparr>q_lock := mx_set MxHeld (q_lock s)\<rparr>"
  define w2 where "w2 = w\<lparr>mq_self := Own s2, mq_broadcasts := mq_broadcasts w + 1\<rparr>"
  have s2: "mq_self w2 = Own s2" "mtqueue_ok s2 (mq_elems w2) as"
    "q_lock s2 = mx_set MxHeld (q_lock s)" "q_pushCond s2 = q_pushCond s"
    using w by (simp_all add: s2_def w2_def)
  note br = queue_bracket [OF inv w(1,4) refl s2]
  have "cond_ready (q_pushCond s)" using w(1,2) assms(2) by (auto simp: multi_threaded_def lock_ok_def)
  then have "MTQueue_wakeUpAll w = Ok (w2\<lparr>mq_self := Own (s2\<lparr>q_lock := q_lock s\<rparr>)\<rparr>)"
    using w(1) br(1,4) mtqueue_ok_valid [OF w(3)]
    by (simp add: MTQueue_wakeUpAll_def w2_def s2_def)
  with w(1) show ?thesis by (simp add: w2_def s2_def)
qed

lemma mtq_data_nonnull: "mtq_inv w \<Longrightarrow> x \<in> set (mtq_data w) \<Longrightarrow> fst x \<noteq> 0"
  by (erule mtq_inv_cases) (auto elim!: mtqueue_ok_elem)

lemma mtq_data_short: "mtq_inv w \<Longrightarrow> length (mtq_data w) < brk (mq_elems w)"
  by (erule mtq_inv_cases) (auto simp: mtqueue_ok_def dest: lseg_length)

lemma restrict_map_take1:
  "(m |` (- set (take 1 xs))) |` (- set (tl xs)) = m |` (- set xs)"
  by (cases xs) (auto simp: restrict_map_def fun_eq_iff)

lemma MTQueue_clear_loop_ok:
  assumes "mtq_inv w" and "mtq_view w = (ds, t, q)" and "length ds < fuel"
  shows "\<exists>w'. MTQueue_clear_loop fuel w = Ok w' \<and> mtq_inv w' \<and> mtq_view w' = ([], t, q) \<and>
    multi_threaded w' = multi_threaded w \<and> mtq_sync w' = mtq_sync w \<and>
    cells (mq_elems w') = cells (mq_elems w) |` (- set (mtq_addrs w))"
  using assms
proof (induction ds arbitrary: w fuel)
  case Nil
  then obtain n where "fuel = Suc n" by (cases fuel) auto
  moreover have "mtq_addrs w = []" using Nil.prems(2) by (simp add: mtq_view_def mtq_data_def)
  ultimately show ?case
    using MTQueue_pop_ok [OF Nil.prems(1,2), of None] by (auto simp: popped_def popped_class_def)
next
  case (Cons d ds)
  then obtain n where n: "fuel = Suc n" "length ds < n" by (cases fuel) auto
  have "fst d \<noteq> 0"
    using mtq_data_nonnull [OF Cons.prems(1), of d] Cons.prems(2) by (simp add: mtq_view_def)
  moreover obtain w' where w': "MTQueue_pop None w = Ok (fst d, None, w')" "mtq_inv w'"
    "mtq_view w' = (ds, t, q)" "multi_threaded w' = multi_threaded w" "mtq_sync w' = mtq_sync w"
    "mtq_addrs w' = tl (mtq_addrs w)"
    "cells (mq_elems w') = cells (mq_elems w) |` (- set (take 1 (mtq_addrs w)))"
    using MTQueue_pop_ok [OF Cons.prems(1,2), of None] by (auto simp: popped_def popped_class_def)
  ultimately show ?case
    using Cons.IH [of w' n] n restrict_map_take1 [of "cells (mq_elems w)" "mtq_addrs w"] by auto
qed

text \<open>What is left of the queue after \<^verbatim>\<open>MTQueue_clear\<close>: no element, no mutex, no condition,
  and the invalid mark that \<^verbatim>\<open>MTQueue_delete\<close> asks for. What is left of a mutex and of a
  condition: a destroyed block that was released.\<close>

fun mutex_given_up :: "Mutex owned \<Rightarrow> (Mutex owned \<times> Mutex owned) list" where
  "mutex_given_up (Own m) = [(Own (m\<lparr>mx_valid := MUTEX_INVALID\<rparr>), Dangling)]"
| "mutex_given_up _ = []"

fun cond_given_up :: "Cond owned \<Rightarrow> (Cond owned \<times> Cond owned) list" where
  "cond_given_up (Own c) = [(Own (c\<lparr>cd_externalMutex := 0, cd_valid := COND_INVALID\<rparr>), Dangling)]"
| "cond_given_up _ = []"

lemma mutex_clear_given_up:
  assumes "mutex_free p"
  shows "\<exists>lk. Mutex_clear p = Ok lk \<and> Mutex_delete lk = Ok Dangling \<and> mutex_given_up p = [(lk, Dangling)]"
  using assms by (auto simp: mutex_is_iff Mutex_clear_def Mutex_delete_def pthread_mutex_destroy_def)

lemma cond_clear_given_up:
  assumes "cond_ready p"
  shows "\<exists>cd. Cond_clear p = Ok cd \<and> Cond_delete cd = Ok Dangling \<and> cond_given_up p = [(cd, Dangling)]"
  using assms by (auto simp: cond_ready_iff Cond_clear_def Cond_delete_def pthread_mutex_destroy_def)

lemma MTQueue_clear_ok:
  assumes "mtq_inv w"
  shows "\<exists>s w' s'. mq_self w = Own s \<and> MTQueue_clear w = Ok w' \<and> mq_self w' = Own s' \<and>
    q_valid s' = MTQUEUE_INVALID \<and> q_numElements s' = 0 \<and> q_head s' = 0 \<and> q_tail s' = 0 \<and>
    q_lock s' = Null \<and> q_pushCond s' = Null \<and>
    cells (mq_elems w') = cells (mq_elems w) |` (- set (mtq_addrs w)) \<and>
    mq_mutexes w' = mq_mutexes w @ mutex_given_up (q_lock s) \<and>
    mq_conds w' = mq_conds w @ cond_given_up (q_pushCond s) \<and>
    MTQueue_delete w' = Ok (w'\<lparr>mq_self := Dangling\<rparr>)"
proof -
  obtain ds t q where view: "mtq_view w = (ds, t, q)" by (cases "mtq_view w")
  then have "length ds < brk (mq_elems w)"
    using mtq_data_short [OF assms] by (simp add: mtq_view_def)
  from MTQueue_clear_loop_ok [OF assms view this] obtain w1 where w1:
    "MTQueue_clear_loop (brk (mq_elems w)) w = Ok w1" "mtq_inv w1" "mtq_view w1 = ([], t, q)"
    "mtq_sync w1 = mtq_sync w" "cells (mq_elems w1) = cells (mq_elems w) |` (- set (mtq_addrs w))"
    by blast
  obtain s where s: "mq_self w = Own s" "q_valid s = MTQUEUE_VALID" using assms by (rule lock_unlock)
  obtain s1 as where s1: "mq_self w1 = Own s1" "lock_ok s1" "mtqueue_ok s1 (mq_elems w1) as"
    "mtq_data w1 = map (qdata (mq_elems w1)) as"
    using w1(2) by (rule mtq_inv_cases)
  have e: "q_numElements s1 = 0" "q_head s1 = 0" "q_tail s1 = 0"
    using s1(3,4) w1(3) by (auto simp: mtq_view_def mtqueue_ok_def)
  have sync: "q_lock s1 = q_lock s" "q_pushCond s1 = q_pushCond s" "mq_mutexes w1 = mq_mutexes w"
    "mq_conds w1 = mq_conds w"
    using w1(4) s(1) s1(1) by (simp_all add: mtq_sync_def)
  define s' where "s' = s1\<lparr>q_valid := MTQUEUE_INVALID, q_lock := Null, q_pushCond := Null\<rparr>"
  define w' where "w' = w1\<lparr>mq_self := Own s', mq_mutexes := mq_mutexes w @ mutex_given_up (q_lock s),
    mq_conds := mq_conds w @ cond_given_up (q_pushCond s)\<rparr>"
  have "MTQueue_clear w = Ok w'"
  proof (cases "q_lock s = Null")
    case True
    then have "q_pushCond s = Null" using s1(2) sync by (auto simp: lock_ok_def mutex_is_def)
    with True s w1(1) s1(1) sync e show ?thesis by (simp add: MTQueue_clear_def s'_def w'_def)
  next
    case False
    then have "mutex_free (q_lock s)" "cond_ready (q_pushCond s)"
      using s1(2) sync by (auto simp: lock_ok_def)
    then obtain lk cd where "Mutex_clear (q_lock s) = Ok lk" "Mutex_delete lk = Ok Dangling"
      "mutex_given_up (q_lock s) = [(lk, Dangling)]" "Cond_clear (q_pushCond s) = Ok cd"
      "Cond_delete cd = Ok Dangling" "cond_given_up (q_pushCond s) = [(cd, Dangling)]"
      using mutex_clear_given_up cond_clear_given_up by metis
    moreover from this have "q_pushCond s \<noteq> Null" by auto
    ultimately show ?thesis
      using False s w1(1) s1(1) sync e by (simp add: MTQueue_clear_def s'_def w'_def)
  qed
  then show ?thesis using e s(1) w1(5) by (simp add: s'_def w'_def MTQueue_delete_def)
qed

definition mtq_start :: "nat \<Rightarrow> mtq" where
  "mtq_start mem = \<lparr>mq_self = Null, mq_elems = empty_heap, mq_mem = mem, mq_signals = 0,
     mq_broadcasts = 0, mq_mutexes = [], mq_conds = []\<rparr>"

lemma Cond_init_zero:
  "obind (Cond_init (Own Cond_zero) COND_PRIVATE) (\<lambda>(_, cd). Cond_setMutex cd 1) =
     Ok (Own \<lparr>cd_valid = COND_VALID, cd_mutex = MxFree, cd_pshared = 0, cd_externalMutex = 1\<rparr>)"
  by (simp add: Cond_init_def Cond_setMutex_def Cond_zero_def COND_PRIVATE_def COND_SHARED_def
      PTHREAD_PROCESS_PRIVATE_def)

lemma MTQueue_new_init_ok:
  assumes "3 \<le> mem"
  shows "\<exists>w. MTQueue_init t mt (MTQueue_new (mtq_start mem)) = Ok (0, w) \<and> mtq_inv w \<and>
    mem \<le> mq_mem w + 3 \<and> mtq_view w = ([], t, False) \<and> multi_threaded w = mt"
proof -
  define cd where "cd = (if mt then Own \<lparr>cd_valid = COND_VALID, cd_mutex = MxFree, cd_pshared = 0,
    cd_externalMutex = 1\<rparr> else Null)"
  define s where "s = \<lparr>q_valid = MTQUEUE_VALID, q_type = t,
    q_lock = (if mt then mutex_private else Null), q_pushCond = cd, q_numElements = 0, q_head = 0,
    q_tail = 0, q_quit = False\<rparr>"
  define w where "w = \<lparr>mq_self = Own s, mq_elems = empty_heap, mq_mem = (if mt then mem - 3 else mem - 1),
    mq_signals = 0, mq_broadcasts = 0, mq_mutexes = [], mq_conds = []\<rparr>"
  have "MTQueue_init t mt (MTQueue_new (mtq_start mem)) = Ok (0, w)"
    using assms by (simp add: MTQueue_init_def MTQueue_new_def mtq_start_def MTQueue_zero_def w_def s_def
        cd_def Cond_init_def Cond_setMutex_def Cond_zero_def COND_PRIVATE_def COND_SHARED_def
        PTHREAD_PROCESS_PRIVATE_def numeral_3_eq_3)
  moreover have "lock_ok s" "mtqueue_ok s empty_heap []"
    by (simp_all add: lock_ok_def s_def cd_def cond_ready_def mtqueue_ok_def)
  then have "mtq_inv w" "mtq_view w = ([], t, False)"
    using mtq_invI [of w s "[]"] by (simp_all add: w_def mtq_view_def s_def)
  ultimately show ?thesis using assms by (auto simp: w_def s_def multi_threaded_def cd_def)
qed

subsection \<open>The contract of the queue\<close>

datatype mtq_op = Push nat ulong | Pop | NumEntries | SetQuit bool

datatype mtq_answer = Done | Popped nat "ulong option" | Count nat

fun mtq_step :: "mtq_op \<Rightarrow> mtq \<Rightarrow> (mtq_answer \<times> mtq) outcome" where
  "mtq_step (Push d c) w = omap (Pair Done) (MTQueue_push d c w)"
| "mtq_step Pop w = omap (\<lambda>(r, c, w). (Popped r c, w)) (MTQueue_pop (Some 0) w)"
| "mtq_step NumEntries w = omap (map_prod Count id) (MTQueue_numElements w)"
| "mtq_step (SetQuit b) w = omap (Pair Done) (MTQueue_setQuit b w)"

fun mtq_spec :: "mtq_op \<Rightarrow> (nat \<times> ulong) list \<times> int \<times> bool \<Rightarrow>
    mtq_answer \<times> (nat \<times> ulong) list \<times> int \<times> bool" where
  "mtq_spec (Push d c) (ds, t, q) = (Done, enqueue t (d, c) ds, t, q)"
| "mtq_spec Pop (ds, t, q) =
     (case ds of [] \<Rightarrow> (Popped 0 (Some 0), [], t, q) | (d, c) # ds' \<Rightarrow> (Popped d (Some c), ds', t, q))"
| "mtq_spec NumEntries (ds, t, q) = (Count (length ds), ds, t, q)"
| "mtq_spec (SetQuit b) (ds, t, q) = (Done, ds, t, b)"

fun mtq_legal :: "mtq_op \<Rightarrow> (nat \<times> ulong) list \<times> int \<times> bool \<Rightarrow> bool" where
  "mtq_legal (Push d c) a \<longleftrightarrow> d \<noteq> 0"
| "mtq_legal _ a \<longleftrightarrow> True"

fun mtq_cost :: "mtq_op \<Rightarrow> nat" where
  "mtq_cost (Push d c) = 1"
| "mtq_cost _ = 0"

lemma mtq_step_ok:
  assumes "mtq_inv w" and "mtq_legal p (mtq_view w)" and "mtq_cost p \<le> mq_mem w"
  shows "\<exists>w'. mtq_step p w = Ok (fst (mtq_spec p (mtq_view w)), w') \<and> mtq_inv w' \<and>
    mtq_view w' = snd (mtq_spec p (mtq_view w)) \<and> mq_mem w \<le> mq_mem w' + mtq_cost p"
proof -
  obtain ds t q where view: "mtq_view w = (ds, t, q)" by (cases "mtq_view w")
  show ?thesis
  proof (cases p)
    case (Push d c)
    with assms MTQueue_push_ok [OF assms(1) _ _ view, of d c] view show ?thesis by auto
  next
    case Pop
    with MTQueue_pop_ok [OF assms(1) view, of "Some 0"] view show ?thesis
      by (cases ds) (auto simp: popped_def popped_class_def split_beta)
  next
    case NumEntries
    with MTQueue_numElements_ok [OF assms(1)] assms(1) view show ?thesis by (simp add: mtq_view_def)
  next
    case (SetQuit b)
    with MTQueue_setQuit_ok [OF assms(1) view, of b] view show ?thesis by auto
  qed
qed

interpretation mtqueue: component mtq_step mtq_spec mtq_inv mtq_view mtq_legal mtq_cost mq_mem
  by unfold_locales (rule mtq_step_ok)

subsection \<open>Properties\<close>

text \<open>C4: Any sequence of push, pop, numElements and setQuit calls on a well-formed queue returns,
  given memory for one block per push and data that are not null. A FIFO queue answers like a list
  that grows at the end, a LIFO queue like a stack; a queue of an invalid type
  drops what is pushed; popping an empty queue gives the null pointer.\<close>

theorem MTQueue_refines_queue:
  assumes "mtq_inv w" and "legal_run mtq_spec mtq_legal ops (mtq_view w)"
    and "sum_list (map mtq_cost ops) \<le> mq_mem w"
  shows "\<exists>w'. run mtq_step ops w = Ok (fst (spec_run mtq_spec ops (mtq_view w)), w') \<and> mtq_inv w' \<and>
    mtq_view w' = snd (spec_run mtq_spec ops (mtq_view w))"
  using mtqueue.run_ok [OF assms] by blast

theorem MTQueue_refines_queue_witness:
  "\<exists>w w'. MTQueue_init MTQUEUE_LIFO True (MTQueue_new (mtq_start 9)) = Ok (0, w) \<and>
     run mtq_step [Push 5 1, Push 6 2, Pop, Push 7 3, NumEntries, Pop, Pop, Pop] w =
       Ok ([Done, Done, Popped 6 (Some 2), Done, Count 2, Popped 7 (Some 3), Popped 5 (Some 1),
            Popped 0 (Some 0)], w')"
proof -
  obtain w where w: "MTQueue_init MTQUEUE_LIFO True (MTQueue_new (mtq_start 9)) = Ok (0, w)"
    "mtq_inv w" "9 \<le> mq_mem w + 3" "mtq_view w = ([], MTQUEUE_LIFO, False)"
    using MTQueue_new_init_ok [of 9 MTQUEUE_LIFO True] by auto
  with MTQueue_refines_queue [of w "[Push 5 1, Push 6 2, Pop, Push 7 3, NumEntries, Pop, Pop, Pop]"]
  show ?thesis by (auto simp: enqueue_def MTQUEUE_FIFO_def MTQUEUE_LIFO_def)
qed

text \<open>C5: \<^verbatim>\<open>MTQueue_popWait\<close> on an empty, open queue gives the mutex away while it sleeps: the other
  threads may run any sequence of queue operations on it. If they end, the call
  takes the mutex back and returns what is then first in the queue (null if nothing is), and the queue is
  well-formed and holds the rest.\<close>

theorem MTQueue_popWait_interleaved:
  assumes "mtq_inv w" and "mtq_view w = ([], t, False)" and "multi_threaded w"
    and "legal_run mtq_spec mtq_legal ops ([], t, False)" and "sum_list (map mtq_cost ops) \<le> mq_mem w"
    and "snd (spec_run mtq_spec ops ([], t, False)) = (ds, t', q')"
  shows "\<exists>w'. MTQueue_popWait (\<lambda>deadline w. omap (Pair rc \<circ> snd) (run mtq_step ops w)) tv u microsecs w =
      Ok (popped ds, popped_class u ds, w') \<and> mtq_inv w' \<and> mtq_view w' = (tl ds, t', q')"
proof -
  obtain w1 where w1: "run mtq_step ops w = Ok (fst (spec_run mtq_spec ops ([], t, False)), w1)"
    "mtq_inv w1" "mtq_view w1 = (ds, t', q')"
    using mtqueue.run_ok [OF assms(1)] assms by (metis (no_types, lifting))
  then have "MTQueue_popWait (\<lambda>deadline w. omap (Pair rc \<circ> snd) (run mtq_step ops w)) tv u microsecs w =
      MTQueue_pop u w1"
    by (intro MTQueue_popWait_sleeps [OF assms(1-3)]) auto
  with MTQueue_pop_ok [OF w1(2,3), of u] show ?thesis by auto
qed

theorem MTQueue_popWait_interleaved_witness:
  "\<exists>w w'. MTQueue_init MTQUEUE_FIFO True (MTQueue_new (mtq_start 9)) = Ok (0, w) \<and>
     MTQueue_popWait (\<lambda>deadline w. omap (Pair 0 \<circ> snd) (run mtq_step [Push 5 1, Push 6 2, Pop] w))
       (100, 0) (Some 0) 2000 w = Ok (6, Some 2, w') \<and> mtq_view w' = ([], MTQUEUE_FIFO, False)"
proof -
  obtain w where w: "MTQueue_init MTQUEUE_FIFO True (MTQueue_new (mtq_start 9)) = Ok (0, w)"
    "mtq_inv w" "9 \<le> mq_mem w + 3" "mtq_view w = ([], MTQUEUE_FIFO, False)" "multi_threaded w"
    using MTQueue_new_init_ok [of 9 MTQUEUE_FIFO True] by auto
  with MTQueue_popWait_interleaved [of w MTQUEUE_FIFO "[Push 5 1, Push 6 2, Pop]" "[(6, 2)]"
      MTQUEUE_FIFO False 0 "(100, 0)" "Some 0" 2000]
  show ?thesis by (auto simp: enqueue_def MTQUEUE_FIFO_def popped_def popped_class_def)
qed

text \<open>Waiting on an empty queue that was created for a single thread ends the process: the queue
  has no condition to wait on. A queue with the quit flag never waits and returns null, even when it holds
  data.\<close>

theorem MTQueue_popWait_no_wait:
  assumes "mtq_inv w" and "mtq_view w = (ds, t, q)"
  shows "(q \<longrightarrow> MTQueue_popWait others tv u microsecs w = Ok (0, u, w)) \<and>
    (\<not> q \<and> ds = [] \<and> \<not> multi_threaded w \<longrightarrow> MTQueue_popWait others tv u microsecs w = Require) \<and>
    (\<not> q \<and> ds \<noteq> [] \<longrightarrow> MTQueue_popWait others tv u microsecs w = MTQueue_pop u w)"
  using MTQueue_popWait_quit [of w ds t] MTQueue_popWait_single [of w t] MTQueue_popWait_ready [of w ds t]
    assms by auto

theorem MTQueue_popWait_no_wait_witness:
  "\<exists>w. MTQueue_init MTQUEUE_FIFO False (MTQueue_new (mtq_start 9)) = Ok (0, w) \<and>
     MTQueue_popWait (\<lambda>_ w. Ok (0, w)) (0, 0) None 5 w = Require"
proof -
  obtain w where w: "MTQueue_init MTQUEUE_FIFO False (MTQueue_new (mtq_start 9)) = Ok (0, w)"
    "mtq_inv w" "mtq_view w = ([], MTQUEUE_FIFO, False)" "\<not> multi_threaded w"
    using MTQueue_new_init_ok [of 9 MTQUEUE_FIFO False] by auto
  with MTQueue_popWait_no_wait [of w "[]" MTQUEUE_FIFO False] show ?thesis by auto
qed

text \<open>C6: Clearing a well-formed queue always returns. It pops every element, which releases exactly
  the blocks of its elements, destroys the mutex and the condition (if the queue has them) before it
  releases the block of each, clears both pointers and marks the queue invalid, so that
  \<^verbatim>\<open>MTQueue_delete\<close> accepts it and releases the queue itself.\<close>

theorem MTQueue_clear_releases_all:
  assumes "mtq_inv w"
  shows "\<exists>s w' s'. mq_self w = Own s \<and> MTQueue_clear w = Ok w' \<and> mq_self w' = Own s' \<and>
    q_valid s' = MTQUEUE_INVALID \<and> q_numElements s' = 0 \<and> q_head s' = 0 \<and> q_tail s' = 0 \<and>
    q_lock s' = Null \<and> q_pushCond s' = Null \<and>
    cells (mq_elems w') = cells (mq_elems w) |` (- set (mtq_addrs w)) \<and>
    mq_mutexes w' = mq_mutexes w @ mutex_given_up (q_lock s) \<and>
    mq_conds w' = mq_conds w @ cond_given_up (q_pushCond s) \<and>
    MTQueue_delete w' = Ok (w'\<lparr>mq_self := Dangling\<rparr>)"
  using MTQueue_clear_ok [OF assms] .

theorem MTQueue_clear_releases_all_witness:
  "\<exists>w w' w''. MTQueue_init MTQUEUE_FIFO True (MTQueue_new (mtq_start 9)) = Ok (0, w) \<and>
     run mtq_step [Push 5 1, Push 6 2] w = Ok ([Done, Done], w') \<and> MTQueue_clear w' = Ok w'' \<and>
     (\<exists>m c. mq_mutexes w'' = mq_mutexes w' @ [(Own m, Dangling)] \<and>
       mx_valid m = MUTEX_INVALID \<and> mq_conds w'' = mq_conds w' @ [(Own c, Dangling)] \<and>
       cd_valid c = COND_INVALID)"
proof -
  obtain w where w: "MTQueue_init MTQUEUE_FIFO True (MTQueue_new (mtq_start 9)) = Ok (0, w)"
    "mtq_inv w" "9 \<le> mq_mem w + 3" "mtq_view w = ([], MTQUEUE_FIFO, False)" "multi_threaded w"
    using MTQueue_new_init_ok [of 9 MTQUEUE_FIFO True] by auto
  obtain w1 where w1: "mtq_step (Push 5 1) w = Ok (Done, w1)" "mtq_inv w1" "multi_threaded w1"
    "mq_mem w \<le> mq_mem w1 + 1" "mtq_view w1 = ([(5, 1)], MTQUEUE_FIFO, False)"
    using MTQueue_push_ok [OF w(2) _ _ w(4), of 5 1] w(3,5) by (auto simp: enqueue_def)
  obtain w' where w': "mtq_step (Push 6 2) w1 = Ok (Done, w')" "mtq_inv w'" "multi_threaded w'"
    using MTQueue_push_ok [OF w1(2) _ _ w1(5), of 6 2] w(3) w1(3,4) by auto
  obtain s m c where s: "mq_self w' = Own s" "q_lock s = Own m" "q_pushCond s = Own c"
    using w'(2,3) by (auto simp: multi_threaded_def lock_ok_def mutex_is_iff cond_ready_iff
        split: owned.splits elim!: mtq_inv_cases)
  have "run mtq_step [Push 5 1, Push 6 2] w = Ok ([Done, Done], w')" using w1(1) w'(1) by simp
  then show ?thesis using w(1) MTQueue_clear_releases_all [OF w'(2)] s by auto
qed

end
