(* ===== verification/Hash_Fun.thy ===== *)
theory Hash_Fun
  imports Prelude
begin

unbundle bit_operations_syntax

text \<open>
  The hash functions of src/src/HashTable.c: \<^verbatim>\<open>HashTable_hashGeneric\<close> (Bob Jenkins' function, in its
  three variants for 32 bit, 16 bit and byte aligned keys on a little endian machine) and
  \<^verbatim>\<open>HashTable_hashString\<close> (djb2). The memory is a function from addresses to bytes; the
  arithmetic is that of 32 bit unsigned words.
\<close>

definition HASHTABLE_MAGIC :: uint32 where "HASHTABLE_MAGIC = 0xdeadbeef"

definition HASHTABLE_ROT :: "uint32 \<Rightarrow> nat \<Rightarrow> uint32" where
  "HASHTABLE_ROT x k = push_bit k x OR drop_bit (32 - k) x"

text \<open>One line of the macro \<^verbatim>\<open>HASHTABLE_MIX\<close>: \<^verbatim>\<open>x -= z; x ^= HASHTABLE_ROT(z, k); z += y;\<close> gives
  the new values of \<^verbatim>\<open>x\<close> and \<^verbatim>\<open>z\<close>.\<close>

definition mix_line :: "uint32 \<Rightarrow> uint32 \<Rightarrow> uint32 \<Rightarrow> nat \<Rightarrow> uint32 \<times> uint32" where
  "mix_line x y z k = ((x - z) XOR HASHTABLE_ROT z k, z + y)"

definition HASHTABLE_MIX :: "uint32 \<times> uint32 \<times> uint32 \<Rightarrow> uint32 \<times> uint32 \<times> uint32" where
  "HASHTABLE_MIX = (\<lambda>(a, b, c).
     let (a, c) = mix_line a b c 4;
         (b, a) = mix_line b c a 6;
         (c, b) = mix_line c a b 8;
         (a, c) = mix_line a b c 16;
         (b, a) = mix_line b c a 19;
         (c, b) = mix_line c a b 4
     in (a, b, c))"

definition HASHTABLE_FINAL :: "uint32 \<times> uint32 \<times> uint32 \<Rightarrow> uint32 \<times> uint32 \<times> uint32" where
  "HASHTABLE_FINAL = (\<lambda>(a, b, c).
     let c = (c XOR b) - HASHTABLE_ROT b 14;
         a = (a XOR c) - HASHTABLE_ROT c 11;
         b = (b XOR a) - HASHTABLE_ROT a 25;
         c = (c XOR b) - HASHTABLE_ROT b 16;
         a = (a XOR c) - HASHTABLE_ROT c 4;
         b = (b XOR a) - HASHTABLE_ROT a 14;
         c = (c XOR b) - HASHTABLE_ROT b 24
     in (a, b, c))"

type_synonym memory = "nat \<Rightarrow> byte"

text \<open>Loads of 8, 16 and 32 bits on a little endian machine, widened to \<^verbatim>\<open>unsigned int\<close>.\<close>

definition load8 :: "memory \<Rightarrow> nat \<Rightarrow> uint32" where
  "load8 M p = ucast (M p)"

definition load16 :: "memory \<Rightarrow> nat \<Rightarrow> uint32" where
  "load16 M p = load8 M p + push_bit 8 (load8 M (p + 1))"

definition load32 :: "memory \<Rightarrow> nat \<Rightarrow> uint32" where
  "load32 M p = load8 M p + push_bit 8 (load8 M (p + 1)) + push_bit 16 (load8 M (p + 2)) +
     push_bit 24 (load8 M (p + 3))"

subsection \<open>The three variants\<close>

text \<open>Each variant has a loop over blocks of 12 bytes and a switch on what is left (at most 12
  bytes). \<^verbatim>\<open>None\<close> stands for \<^verbatim>\<open>return c\<close> without the final mixing.\<close>

function blocks32 :: "memory \<Rightarrow> nat \<Rightarrow> nat \<Rightarrow> uint32 \<times> uint32 \<times> uint32 \<Rightarrow>
    nat \<times> nat \<times> uint32 \<times> uint32 \<times> uint32" where
  "blocks32 M k len (a, b, c) =
     (if len > 12
      then blocks32 M (k + 12) (len - 12)
             (HASHTABLE_MIX (a + load32 M k, b + load32 M (k + 4), c + load32 M (k + 8)))
      else (k, len, a, b, c))"
  by pat_completeness auto
termination by (relation "measure (\<lambda>(M, k, len, _). len)") auto

definition tail32 :: "memory \<Rightarrow> nat \<Rightarrow> nat \<Rightarrow> uint32 \<times> uint32 \<times> uint32 \<Rightarrow>
    (uint32 \<times> uint32 \<times> uint32) option" where
  "tail32 M k len = (\<lambda>(a, b, c).
     let k0 = load32 M k; k1 = load32 M (k + 4); k2 = load32 M (k + 8) in
     if len = 12 then Some (a + k0, b + k1, c + k2)
     else if len = 11 then Some (a + k0, b + k1, c + (k2 AND 0xffffff))
     else if len = 10 then Some (a + k0, b + k1, c + (k2 AND 0xffff))
     else if len = 9 then Some (a + k0, b + k1, c + (k2 AND 0xff))
     else if len = 8 then Some (a + k0, b + k1, c)
     else if len = 7 then Some (a + k0, b + (k1 AND 0xffffff), c)
     else if len = 6 then Some (a + k0, b + (k1 AND 0xffff), c)
     else if len = 5 then Some (a + k0, b + (k1 AND 0xff), c)
     else if len = 4 then Some (a + k0, b, c)
     else if len = 3 then Some (a + (k0 AND 0xffffff), b, c)
     else if len = 2 then Some (a + (k0 AND 0xffff), b, c)
     else if len = 1 then Some (a + (k0 AND 0xff), b, c)
     else if len = 0 then None
     else Some (a, b, c))"

function blocks16 :: "memory \<Rightarrow> nat \<Rightarrow> nat \<Rightarrow> uint32 \<times> uint32 \<times> uint32 \<Rightarrow>
    nat \<times> nat \<times> uint32 \<times> uint32 \<times> uint32" where
  "blocks16 M k len (a, b, c) =
     (if len > 12
      then blocks16 M (k + 12) (len - 12)
             (HASHTABLE_MIX (a + (load16 M k + push_bit 16 (load16 M (k + 2))),
                             b + (load16 M (k + 4) + push_bit 16 (load16 M (k + 6))),
                             c + (load16 M (k + 8) + push_bit 16 (load16 M (k + 10)))))
      else (k, len, a, b, c))"
  by pat_completeness auto
termination by (relation "measure (\<lambda>(M, k, len, _). len)") auto

definition tail16 :: "memory \<Rightarrow> nat \<Rightarrow> nat \<Rightarrow> uint32 \<times> uint32 \<times> uint32 \<Rightarrow>
    (uint32 \<times> uint32 \<times> uint32) option" where
  "tail16 M k len = (\<lambda>(a, b, c).
     let lo = load16 M k + push_bit 16 (load16 M (k + 2));
         mid = load16 M (k + 4) + push_bit 16 (load16 M (k + 6));
         hi = load16 M (k + 8) + push_bit 16 (load16 M (k + 10)) in
     if len = 12 then Some (a + lo, b + mid, c + hi)
     else if len = 11 then Some (a + lo, b + mid, c + push_bit 16 (load8 M (k + 10)) + load16 M (k + 8))
     else if len = 10 then Some (a + lo, b + mid, c + load16 M (k + 8))
     else if len = 9 then Some (a + lo, b + mid, c + load8 M (k + 8))
     else if len = 8 then Some (a + lo, b + mid, c)
     else if len = 7 then Some (a + lo, b + push_bit 16 (load8 M (k + 6)) + load16 M (k + 4), c)
     else if len = 6 then Some (a + lo, b + load16 M (k + 4), c)
     else if len = 5 then Some (a + lo, b + load8 M (k + 4), c)
     else if len = 4 then Some (a + lo, b, c)
     else if len = 3 then Some (a + push_bit 16 (load8 M (k + 2)) + load16 M k, b, c)
     else if len = 2 then Some (a + load16 M k, b, c)
     else if len = 1 then Some (a + load8 M k, b, c)
     else if len = 0 then None
     else Some (a, b, c))"

function blocks8 :: "memory \<Rightarrow> nat \<Rightarrow> nat \<Rightarrow> uint32 \<times> uint32 \<times> uint32 \<Rightarrow>
    nat \<times> nat \<times> uint32 \<times> uint32 \<times> uint32" where
  "blocks8 M k len (a, b, c) =
     (if len > 12
      then blocks8 M (k + 12) (len - 12)
             (HASHTABLE_MIX
               (a + load8 M k + push_bit 8 (load8 M (k + 1)) + push_bit 16 (load8 M (k + 2)) +
                  push_bit 24 (load8 M (k + 3)),
                b + load8 M (k + 4) + push_bit 8 (load8 M (k + 5)) + push_bit 16 (load8 M (k + 6)) +
                  push_bit 24 (load8 M (k + 7)),
                c + load8 M (k + 8) + push_bit 8 (load8 M (k + 9)) + push_bit 16 (load8 M (k + 10)) +
                  push_bit 24 (load8 M (k + 11))))
      else (k, len, a, b, c))"
  by pat_completeness auto
termination by (relation "measure (\<lambda>(M, k, len, _). len)") auto

text \<open>The cases fall through: \<open>if n \<le> len\<close> is the case label \<^verbatim>\<open>n\<close> being reached.\<close>

definition tail8 :: "memory \<Rightarrow> nat \<Rightarrow> nat \<Rightarrow> uint32 \<times> uint32 \<times> uint32 \<Rightarrow>
    (uint32 \<times> uint32 \<times> uint32) option" where
  "tail8 M k len = (\<lambda>(a, b, c).
     if len = 0 then None
     else if len > 12 then Some (a, b, c)
     else
       let c = (if 12 \<le> len then c + push_bit 24 (load8 M (k + 11)) else c);
           c = (if 11 \<le> len then c + push_bit 16 (load8 M (k + 10)) else c);
           c = (if 10 \<le> len then c + push_bit 8 (load8 M (k + 9)) else c);
           c = (if 9 \<le> len then c + load8 M (k + 8) else c);
           b = (if 8 \<le> len then b + push_bit 24 (load8 M (k + 7)) else b);
           b = (if 7 \<le> len then b + push_bit 16 (load8 M (k + 6)) else b);
           b = (if 6 \<le> len then b + push_bit 8 (load8 M (k + 5)) else b);
           b = (if 5 \<le> len then b + load8 M (k + 4) else b);
           a = (if 4 \<le> len then a + push_bit 24 (load8 M (k + 3)) else a);
           a = (if 3 \<le> len then a + push_bit 16 (load8 M (k + 2)) else a);
           a = (if 2 \<le> len then a + push_bit 8 (load8 M (k + 1)) else a);
           a = a + load8 M k
       in Some (a, b, c))"

definition finish :: "(nat \<times> nat \<times> uint32 \<times> uint32 \<times> uint32) \<Rightarrow>
    (nat \<Rightarrow> nat \<Rightarrow> uint32 \<times> uint32 \<times> uint32 \<Rightarrow> (uint32 \<times> uint32 \<times> uint32) option) \<Rightarrow> uint32" where
  "finish st rest = (case st of (k, len, abc) \<Rightarrow>
     (case rest k len abc of
        None \<Rightarrow> snd (snd abc)
      | Some abc \<Rightarrow> snd (snd (HASHTABLE_FINAL abc))))"

definition HashTable_hashGeneric :: "memory \<Rightarrow> nat \<Rightarrow> uint32 \<Rightarrow> uint32 \<Rightarrow> uint32" where
  "HashTable_hashGeneric M key len initVal =
     (let x = HASHTABLE_MAGIC + len + initVal;
          n = unat len in
      if key mod 4 = 0 then finish (blocks32 M key n (x, x, x)) (tail32 M)
      else if key mod 2 = 0 then finish (blocks16 M key n (x, x, x)) (tail16 M)
      else finish (blocks8 M key n (x, x, x)) (tail8 M))"

text \<open>\<^verbatim>\<open>HashTable_hashString\<close> reads (signed) characters up to the terminator; the hash is an
  \<^verbatim>\<open>unsigned long\<close> that the \<^verbatim>\<open>return\<close> truncates. A string without terminator is read beyond
  its end.\<close>

fun hashString_loop :: "64 word \<Rightarrow> byte list \<Rightarrow> (64 word) outcome" where
  "hashString_loop hash [] = Fault"
| "hashString_loop hash (c # cs) =
     (if c = 0 then Ok hash else hashString_loop ((push_bit 5 hash + hash) + scast c) cs)"

definition HashTable_hashString :: "byte list owned \<Rightarrow> uint32 outcome" where
  "HashTable_hashString ptr = require_ptr ptr (\<lambda>str. omap ucast (hashString_loop 5381 str))"

subsection \<open>Mixing is reversible\<close>

definition unmix_line :: "uint32 \<Rightarrow> uint32 \<Rightarrow> uint32 \<Rightarrow> nat \<Rightarrow> uint32 \<times> uint32" where
  "unmix_line x y z k = (let z = z - y in ((x XOR HASHTABLE_ROT z k) + z, z))"

lemma unmix_mix_line: "mix_line x y z k = (x', z') \<Longrightarrow> unmix_line x' y z' k = (x, z)"
  by (auto simp: mix_line_def unmix_line_def Let_def xor.assoc)

lemma mix_unmix_line: "unmix_line x y z k = (x', z') \<Longrightarrow> mix_line x' y z' k = (x, z)"
  by (auto simp: mix_line_def unmix_line_def Let_def xor.assoc)

definition HASHTABLE_UNMIX :: "uint32 \<times> uint32 \<times> uint32 \<Rightarrow> uint32 \<times> uint32 \<times> uint32" where
  "HASHTABLE_UNMIX = (\<lambda>(a, b, c).
     let (c, b) = unmix_line c a b 4;
         (b, a) = unmix_line b c a 19;
         (a, c) = unmix_line a b c 16;
         (c, b) = unmix_line c a b 8;
         (b, a) = unmix_line b c a 6;
         (a, c) = unmix_line a b c 4
     in (a, b, c))"

lemma UNMIX_MIX: "HASHTABLE_UNMIX (HASHTABLE_MIX x) = x"
proof (cases x)
  case (fields a b c)
  obtain a1 c1 where 1: "mix_line a b c 4 = (a1, c1)" by fastforce
  obtain b1 a2 where 2: "mix_line b c1 a1 6 = (b1, a2)" by fastforce
  obtain c2 b2 where 3: "mix_line c1 a2 b1 8 = (c2, b2)" by fastforce
  obtain a3 c3 where 4: "mix_line a2 b2 c2 16 = (a3, c3)" by fastforce
  obtain b3 a4 where 5: "mix_line b2 c3 a3 19 = (b3, a4)" by fastforce
  obtain c4 b4 where 6: "mix_line c3 a4 b3 4 = (c4, b4)" by fastforce
  note steps = 1 2 3 4 5 6
  from fields show ?thesis
    by (simp add: HASHTABLE_MIX_def HASHTABLE_UNMIX_def steps steps [THEN unmix_mix_line])
qed

lemma MIX_UNMIX: "HASHTABLE_MIX (HASHTABLE_UNMIX x) = x"
proof (cases x)
  case (fields a b c)
  obtain c1 b1 where 1: "unmix_line c a b 4 = (c1, b1)" by fastforce
  obtain b2 a1 where 2: "unmix_line b1 c1 a 19 = (b2, a1)" by fastforce
  obtain a2 c2 where 3: "unmix_line a1 b2 c1 16 = (a2, c2)" by fastforce
  obtain c3 b3 where 4: "unmix_line c2 a2 b2 8 = (c3, b3)" by fastforce
  obtain b4 a3 where 5: "unmix_line b3 c3 a2 6 = (b4, a3)" by fastforce
  obtain a4 c4 where 6: "unmix_line a3 b4 c3 4 = (a4, c4)" by fastforce
  note steps = 1 2 3 4 5 6
  from fields show ?thesis
    by (simp add: HASHTABLE_MIX_def HASHTABLE_UNMIX_def steps steps [THEN mix_unmix_line])
qed

subsection \<open>The three variants agree\<close>

lemma load8_less: "unat (load8 M p) < 256"
proof -
  have "unat (M p) < 2 ^ LENGTH(8)" by (rule unsigned_less)
  then show ?thesis by (simp add: load8_def unsigned_ucast_eq take_bit_nat_eq_self)
qed

lemma load32_split: "load32 M p = load16 M p + push_bit 16 (load16 M (p + 2))"
  by (simp add: load32_def load16_def push_bit_add push_bit_push_bit ac_simps eval_nat_numeral)

lemma unat_push_byte:
  assumes "n \<le> 24"
  shows "unat (push_bit n (load8 M p)) = 2 ^ n * unat (load8 M p)"
proof -
  have "2 ^ n * unat (load8 M p) < 2 ^ n * 256"
    using load8_less by simp
  also have "\<dots> \<le> 2 ^ 24 * 256"
    using assms by (intro mult_right_mono power_increasing) auto
  finally have "2 ^ n * unat (load8 M p) < 2 ^ 32" by simp
  then show ?thesis
    unfolding unsigned_push_bit_eq by (simp add: push_bit_eq_mult take_bit_nat_eq_self mult.commute)
qed

lemma mask_eqs: "0xff = (mask 8 :: uint32)" "0xffff = (mask 16 :: uint32)" "0xffffff = (mask 24 :: uint32)"
  by (simp_all add: mask_eq_exp_minus_1)

lemma low_sum:
  "unat (load8 M p + push_bit 8 (load8 M q)) < 2 ^ 16"
  "unat (load8 M p + push_bit 8 (load8 M q) + push_bit 16 (load8 M r)) < 2 ^ 24"
proof -
  have b: "unat (load8 M p) < 256" "unat (load8 M q) < 256" "unat (load8 M r) < 256"
    by (rule load8_less)+
  have le: "unat (x + y) \<le> unat x + unat y" for x y :: uint32
    by (simp add: unat_word_ariths)
  have "unat (load8 M p + push_bit 8 (load8 M q)) \<le> unat (load8 M p) + 2 ^ 8 * unat (load8 M q)"
    using le [of "load8 M p" "push_bit 8 (load8 M q)"] by (simp add: unat_push_byte)
  then show one: "unat (load8 M p + push_bit 8 (load8 M q)) < 2 ^ 16" using b by simp
  have "unat (load8 M p + push_bit 8 (load8 M q) + push_bit 16 (load8 M r)) \<le>
      unat (load8 M p + push_bit 8 (load8 M q)) + 2 ^ 16 * unat (load8 M r)"
    using le [of "load8 M p + push_bit 8 (load8 M q)" "push_bit 16 (load8 M r)"] by (simp add: unat_push_byte)
  then show "unat (load8 M p + push_bit 8 (load8 M q) + push_bit 16 (load8 M r)) < 2 ^ 24"
    using one b(3) by simp
qed

lemma take_bit_self: "unat (x :: uint32) < 2 ^ n \<Longrightarrow> take_bit n x = x"
  by (rule word_eq_iff_unsigned [where 'a = nat, THEN iffD2]) (simp add: unsigned_take_bit_eq take_bit_nat_eq_self)

lemma take_bit_add_push:
  assumes "n \<le> m" and "m \<le> 24"
  shows "take_bit n (x + push_bit m (load8 M p)) = take_bit n x"
proof -
  have dvd: "(2 :: nat) ^ n dvd 2 ^ 32" "(2 :: nat) ^ n dvd 2 ^ m * unat (load8 M p)"
    by (rule le_imp_power_dvd, use assms in simp) (rule dvd_mult2, rule le_imp_power_dvd, rule assms(1))
  have "unat (x + push_bit m (load8 M p)) mod 2 ^ n = (unat x + 2 ^ m * unat (load8 M p)) mod 2 ^ 32 mod 2 ^ n"
    using unat_push_byte [OF assms(2)] by (simp add: unat_word_ariths)
  also have "\<dots> = (unat x + 2 ^ m * unat (load8 M p)) mod 2 ^ n"
    by (rule mod_mod_cancel [OF dvd(1)])
  also have "\<dots> = unat x mod 2 ^ n"
    using dvd(2) by (metis mod_add_right_eq mod_0_imp_dvd dvd_imp_mod_0 add.right_neutral)
  finally show ?thesis
    by (intro word_eq_iff_unsigned [where 'a = nat, THEN iffD2])
      (simp only: unsigned_take_bit_eq, simp only: take_bit_eq_mod)
qed

lemma load32_masks:
  "load32 M p AND 0xffffff = push_bit 16 (load8 M (p + 2)) + load16 M p"
  "load32 M p AND 0xffff = load16 M p"
  "load32 M p AND 0xff = load8 M p"
proof -
  show "load32 M p AND 0xffffff = push_bit 16 (load8 M (p + 2)) + load16 M p"
    unfolding mask_eqs take_bit_eq_mask [symmetric] load32_def load16_def
    by (simp add: take_bit_add_push take_bit_self [OF low_sum(2)])
  show "load32 M p AND 0xffff = load16 M p"
    unfolding mask_eqs take_bit_eq_mask [symmetric] load32_def load16_def
    using low_sum(1) by (simp add: take_bit_add_push take_bit_self)
  show "load32 M p AND 0xff = load8 M p"
    unfolding mask_eqs take_bit_eq_mask [symmetric] load32_def
    using load8_less [of M p] by (simp add: take_bit_add_push take_bit_self)
qed

lemma load32_offsets:
  "load32 M (k + 4) = load8 M (k + 4) + push_bit 8 (load8 M (k + 5)) +
     push_bit 16 (load8 M (k + 6)) + push_bit 24 (load8 M (k + 7))"
  "load32 M (k + 8) = load8 M (k + 8) + push_bit 8 (load8 M (k + 9)) +
     push_bit 16 (load8 M (k + 10)) + push_bit 24 (load8 M (k + 11))"
  by (simp_all add: load32_def eval_nat_numeral)

lemma load32_halves:
  "load16 M k + push_bit 16 (load16 M (k + 2)) = load32 M k"
  "load16 M (k + 4) + push_bit 16 (load16 M (k + 6)) = load32 M (k + 4)"
  "load16 M (k + 8) + push_bit 16 (load16 M (k + 10)) = load32 M (k + 8)"
  by (simp_all add: load32_split add.commute [of k])

lemma block_sums:
  "a + load8 M k + push_bit 8 (load8 M (k + 1)) + push_bit 16 (load8 M (k + 2)) +
     push_bit 24 (load8 M (k + 3)) = a + load32 M k"
  "a + load8 M (k + 4) + push_bit 8 (load8 M (k + 5)) + push_bit 16 (load8 M (k + 6)) +
     push_bit 24 (load8 M (k + 7)) = a + load32 M (k + 4)"
  "a + load8 M (k + 8) + push_bit 8 (load8 M (k + 9)) + push_bit 16 (load8 M (k + 10)) +
     push_bit 24 (load8 M (k + 11)) = a + load32 M (k + 8)"
  unfolding load32_offsets load32_def [of M k] by (simp_all only: add.assoc)

lemma blocks8_eq_blocks32: "blocks8 M k len abc = blocks32 M k len abc"
proof (cases abc)
  case (fields a b c)
  have "blocks8 M k len (a, b, c) = blocks32 M k len (a, b, c)"
  proof (induction M k len "(a, b, c)" arbitrary: a b c rule: blocks32.induct)
    case (1 M k len a b c)
    show ?case
      unfolding blocks8.simps [of M k len] blocks32.simps [of M k len] block_sums
      using 1 by (cases "HASHTABLE_MIX (a + load32 M k, b + load32 M (k + 4), c + load32 M (k + 8))")
        (simp del: blocks8.simps blocks32.simps)
  qed
  with fields show ?thesis by simp
qed

lemma blocks16_eq_blocks32: "blocks16 M k len abc = blocks32 M k len abc"
proof (cases abc)
  case (fields a b c)
  have "blocks16 M k len (a, b, c) = blocks32 M k len (a, b, c)"
  proof (induction M k len "(a, b, c)" arbitrary: a b c rule: blocks32.induct)
    case (1 M k len a b c)
    show ?case
      unfolding blocks16.simps [of M k len] blocks32.simps [of M k len] load32_halves
      using 1 by (cases "HASHTABLE_MIX (a + load32 M k, b + load32 M (k + 4), c + load32 M (k + 8))")
        (simp del: blocks16.simps blocks32.simps)
  qed
  with fields show ?thesis by simp
qed

lemma tail16_eq_tail32: "tail16 M k len abc = tail32 M k len abc"
proof (cases abc)
  case (fields a b c)
  show ?thesis
    unfolding fields tail16_def tail32_def Let_def load32_halves prod.case load32_masks
    by (simp add: load16_def add.commute [of k])
qed

lemma masks_at:
  "load32 M k AND 0xffffff = load8 M k + push_bit 8 (load8 M (k + 1)) + push_bit 16 (load8 M (k + 2))"
  "load32 M (k + 4) AND 0xffffff =
     load8 M (k + 4) + push_bit 8 (load8 M (k + 5)) + push_bit 16 (load8 M (k + 6))"
  "load32 M (k + 8) AND 0xffffff =
     load8 M (k + 8) + push_bit 8 (load8 M (k + 9)) + push_bit 16 (load8 M (k + 10))"
  "load32 M k AND 0xffff = load8 M k + push_bit 8 (load8 M (k + 1))"
  "load32 M (k + 4) AND 0xffff = load8 M (k + 4) + push_bit 8 (load8 M (k + 5))"
  "load32 M (k + 8) AND 0xffff = load8 M (k + 8) + push_bit 8 (load8 M (k + 9))"
  unfolding load32_masks load16_def by (simp_all add: add.commute [of k])

lemma tail8_eq_tail32:
  assumes "len \<le> 12"
  shows "tail8 M k len abc = tail32 M k len abc"
proof (cases abc)
  case (fields a b c)
  define p1 where "p1 = push_bit 8 (load8 M (k + 1))"
  define p2 where "p2 = push_bit 16 (load8 M (k + 2))"
  define p3 where "p3 = push_bit 24 (load8 M (k + 3))"
  define p5 where "p5 = push_bit 8 (load8 M (k + 5))"
  define p6 where "p6 = push_bit 16 (load8 M (k + 6))"
  define p7 where "p7 = push_bit 24 (load8 M (k + 7))"
  define p9 where "p9 = push_bit 8 (load8 M (k + 9))"
  define p10 where "p10 = push_bit 16 (load8 M (k + 10))"
  define p11 where "p11 = push_bit 24 (load8 M (k + 11))"
  note ps = p1_def p2_def p3_def p5_def p6_def p7_def p9_def p10_def p11_def
  have "list_all (\<lambda>len. tail8 M k len abc = tail32 M k len abc) [0..<13]"
    unfolding fields tail8_def tail32_def Let_def prod.case masks_at load32_masks(3)
    unfolding load32_offsets load32_def [of M k] ps [symmetric]
    by (simp add: upt_conv_Cons) (simp add: ac_simps ps)
  then show ?thesis by (rule upto_all) (use assms in simp)
qed

lemma blocks32_rest: "fst (snd (blocks32 M k len abc)) \<le> 12"
  by (induction M k len abc rule: blocks32.induct) (simp del: One_nat_def)

text \<open>All three variants compute what the byte by byte variant computes.\<close>

lemma hashGeneric_bytewise:
  "HashTable_hashGeneric M key len initVal =
     (let x = HASHTABLE_MAGIC + len + initVal
      in finish (blocks8 M key (unat len) (x, x, x)) (tail8 M))"
proof -
  define x where "x = HASHTABLE_MAGIC + len + initVal"
  obtain k n a b c where r: "blocks32 M key (unat len) (x, x, x) = (k, n, a, b, c)"
    by (metis prod_cases5)
  then have "n \<le> 12" using blocks32_rest [of M key "unat len" "(x, x, x)"] by simp
  with r show ?thesis
    by (simp add: HashTable_hashGeneric_def Let_def x_def [symmetric] finish_def
        blocks8_eq_blocks32 blocks16_eq_blocks32 tail16_eq_tail32 tail8_eq_tail32
        del: blocks8.simps blocks16.simps blocks32.simps)
qed

text \<open>The byte by byte variant only looks at the bytes of the key.\<close>

lemma blocks8_shift:
  assumes "\<And>i. i < len \<Longrightarrow> M (k + i) = M' (k' + i)"
  shows "\<exists>r n s. blocks8 M k len abc = (k + r, n, s) \<and> blocks8 M' k' len abc = (k' + r, n, s) \<and>
    n \<le> len \<and> r + n = len"
  using assms
proof (induction M k len abc arbitrary: k' rule: blocks8.induct)
  case (1 M k len a b c)
  show ?case
  proof (cases "len > 12")
    case True
    have eq: "load8 M (k + i) = load8 M' (k' + i)" if "i < 12" for i
      using "1.prems" [of i] that True by (simp add: load8_def)
    have eq0: "load8 M k = load8 M' k'" using eq [of 0] by simp
    have "M (k + 12 + i) = M' (k' + 12 + i)" if "i < len - 12" for i
      using "1.prems" [of "12 + i"] that by (simp add: add.assoc)
    from "1.IH" [OF True, of "k' + 12", OF this] obtain r n s where ih:
      "blocks8 M (k + 12) (len - 12) (HASHTABLE_MIX
         (a + load8 M k + push_bit 8 (load8 M (k + 1)) + push_bit 16 (load8 M (k + 2)) +
            push_bit 24 (load8 M (k + 3)),
          b + load8 M (k + 4) + push_bit 8 (load8 M (k + 5)) + push_bit 16 (load8 M (k + 6)) +
            push_bit 24 (load8 M (k + 7)),
          c + load8 M (k + 8) + push_bit 8 (load8 M (k + 9)) + push_bit 16 (load8 M (k + 10)) +
            push_bit 24 (load8 M (k + 11)))) = (k + 12 + r, n, s)"
      "blocks8 M' (k' + 12) (len - 12) (HASHTABLE_MIX
         (a + load8 M k + push_bit 8 (load8 M (k + 1)) + push_bit 16 (load8 M (k + 2)) +
            push_bit 24 (load8 M (k + 3)),
          b + load8 M (k + 4) + push_bit 8 (load8 M (k + 5)) + push_bit 16 (load8 M (k + 6)) +
            push_bit 24 (load8 M (k + 7)),
          c + load8 M (k + 8) + push_bit 8 (load8 M (k + 9)) + push_bit 16 (load8 M (k + 10)) +
            push_bit 24 (load8 M (k + 11)))) = (k' + 12 + r, n, s)"
      "n \<le> len - 12" "r + n = len - 12"
      by blast
    show ?thesis
    proof (intro exI conjI)
      show "blocks8 M k len (a, b, c) = (k + (12 + r), n, s)"
        unfolding blocks8.simps [of M k len] using True ih(1) by (simp only: if_True add.assoc)
      show "blocks8 M' k' len (a, b, c) = (k' + (12 + r), n, s)"
        unfolding blocks8.simps [of M' k' len] using True ih(2)
        by (simp only: if_True add.assoc eq0 [symmetric]) (simp only: eq [symmetric] add.assoc)
    qed (use True ih(3,4) in auto)
  qed auto
qed

lemma tail8_shift:
  assumes "\<And>i. i < len \<Longrightarrow> M (k + i) = M' (k' + i)"
  shows "tail8 M k len abc = tail8 M' k' len abc"
proof (cases "len = 0")
  case False
  have eq: "load8 M (k + i) = load8 M' (k' + i)" if "i < len" for i
    using assms that by (simp add: load8_def)
  have eq0: "load8 M k = load8 M' k'" using eq [of 0] False by simp
  have "load8 M (Suc k) = load8 M' (Suc k')" if "2 \<le> len" using eq [of 1] that by simp
  moreover have "load8 M (Suc (Suc k)) = load8 M' (Suc (Suc k'))" if "3 \<le> len"
    using eq [of 2] that by simp
  ultimately show ?thesis
    unfolding tail8_def eq0
    by (intro ext arg_cong2 [where f = case_prod] refl) (simp add: eq Let_def cong: if_cong)
qed (simp add: tail8_def)

lemma hashGeneric_same_bytes:
  assumes "\<And>i. i < unat len \<Longrightarrow> M (key + i) = M' (key' + i)"
  shows "HashTable_hashGeneric M key len initVal = HashTable_hashGeneric M' key' len initVal"
proof -
  define x where "x = HASHTABLE_MAGIC + len + initVal"
  obtain r n s where r: "blocks8 M key (unat len) (x, x, x) = (key + r, n, s)"
    "blocks8 M' key' (unat len) (x, x, x) = (key' + r, n, s)" "r + n = unat len"
    using blocks8_shift [of "unat len" M key M' key' "(x, x, x)", OF assms] by blast
  have "tail8 M (key + r) n s = tail8 M' (key' + r) n s"
    using assms r(3) by (intro tail8_shift) (simp add: add.assoc)
  with r show ?thesis
    by (simp add: hashGeneric_bytewise Let_def x_def [symmetric] finish_def del: blocks8.simps)
qed

subsection \<open>djb2\<close>

text \<open>The value in mathematical integers, modulo \<open>2 ^ 32\<close>, with signed characters.\<close>

definition djb2 :: "byte list \<Rightarrow> int" where
  "djb2 s = foldl (\<lambda>h c. (h * 33 + sint c) mod 2 ^ 32) 5381 s"

lemma hashString_loop_step:
  assumes "uint h mod 2 ^ 32 = i mod 2 ^ 32"
  shows "uint (push_bit 5 h + h + scast c :: 64 word) mod 2 ^ 32 = (i * 33 + sint (c :: byte)) mod 2 ^ 32"
proof -
  have eq: "push_bit 5 h + h + scast c = word_of_int (uint h * 33 + sint c)"
    by (simp add: push_bit_eq_mult algebra_simps)
  have "uint (push_bit 5 h + h + scast c) mod 2 ^ 32 = (uint h * 33 + sint c) mod 2 ^ 64 mod 2 ^ 32"
    unfolding eq uint_word_of_int by simp
  also have "\<dots> = (uint h * 33 + sint c) mod 2 ^ 32"
    by (rule mod_mod_cancel) simp
  also have "\<dots> = (i * 33 + sint c) mod 2 ^ 32"
    using assms by (intro mod_add_cong mod_mult_cong) simp_all
  finally show ?thesis .
qed

lemma hashString_loop_djb2:
  assumes "0 \<notin> set s" and "uint h mod 2 ^ 32 = i mod 2 ^ 32"
  shows "\<exists>h'. hashString_loop h (s @ 0 # rest) = Ok h' \<and>
    uint h' mod 2 ^ 32 = foldl (\<lambda>h c. (h * 33 + sint c) mod 2 ^ 32) i s mod 2 ^ 32"
  using assms
proof (induction s arbitrary: h i)
  case (Cons c s)
  then have "c \<noteq> 0" "0 \<notin> set s" by auto
  moreover have "uint (push_bit 5 h + h + scast c :: 64 word) mod 2 ^ 32 =
      ((i * 33 + sint c) mod 2 ^ 32) mod 2 ^ 32"
    using hashString_loop_step [OF Cons.prems(2), of c] by simp
  ultimately show ?case using Cons.IH by simp
qed simp

lemma hashString_djb2:
  assumes "0 \<notin> set s"
  shows "HashTable_hashString (Own (s @ 0 # rest)) = Ok (word_of_int (djb2 s))"
proof -
  obtain h where h: "hashString_loop 5381 (s @ 0 # rest) = Ok h"
    "uint h mod 2 ^ 32 = djb2 s mod 2 ^ 32"
    using hashString_loop_djb2 [OF assms, of 5381 5381] by (auto simp: djb2_def)
  have "ucast h = (word_of_int (djb2 s) :: uint32)"
    by (rule word_eq_iff_unsigned [where 'a = int, THEN iffD2])
      (simp add: unsigned_ucast_eq take_bit_eq_mod uint_word_of_int h(2) [simplified])
  with h(1) show ?thesis by (simp add: HashTable_hashString_def)
qed

subsection \<open>Properties\<close>

text \<open>C10: The generic hash of a key depends on nothing but the bytes of the key: two copies of the same
  bytes hash alike wherever they are in memory, although the code reads them as 32 bit words, 16 bit
  words or bytes depending on the alignment, and reads (and masks) beyond the end of
  an aligned key.\<close>

theorem HashTable_hashGeneric_only_bytes:
  assumes "\<And>i. i < unat len \<Longrightarrow> M (key + i) = M' (key' + i)"
  shows "HashTable_hashGeneric M key len initVal = HashTable_hashGeneric M' key' len initVal"
  by (rule hashGeneric_same_bytes) (rule assms)

theorem HashTable_hashGeneric_only_bytes_witness:
  "HashTable_hashGeneric (\<lambda>i. word_of_nat i) 100 7 0 =
   HashTable_hashGeneric (\<lambda>i. if i < 208 then word_of_nat (i - 101) else 9) 201 7 0"
  by (rule HashTable_hashGeneric_only_bytes) simp

text \<open>C11: As its comment says, the mixing step loses no information: it is a bijection on triples of
  32 bit words, with the inverse \<^verbatim>\<open>HASHTABLE_UNMIX\<close>.\<close>

theorem HASHTABLE_MIX_reversible:
  "bij HASHTABLE_MIX \<and> HASHTABLE_UNMIX (HASHTABLE_MIX x) = x \<and> HASHTABLE_MIX (HASHTABLE_UNMIX x) = x"
  using o_bij [of HASHTABLE_UNMIX HASHTABLE_MIX] by (auto simp: fun_eq_iff UNMIX_MIX MIX_UNMIX)

text \<open>On a terminated string \<^verbatim>\<open>HashTable_hashString\<close> returns the djb2 hash, \<open>h * 33 + c\<close> over
  the signed characters from 5381, modulo \<open>2 ^ 32\<close>, although it computes with 64 bits; it
  does not look behind the terminator, and aborts on the null pointer.\<close>

theorem HashTable_hashString_is_djb2:
  assumes "0 \<notin> set s"
  shows "HashTable_hashString (Own (s @ 0 # rest)) = Ok (word_of_int (djb2 s)) \<and>
    HashTable_hashString Null = Require"
  using hashString_djb2 [OF assms] by (simp add: HashTable_hashString_def)

theorem HashTable_hashString_is_djb2_witness:
  "HashTable_hashString (Own [97, 200, 0, 5]) = Ok (5381 * 33 * 33 + 97 * 33 - 56)"
  using HashTable_hashString_is_djb2 [of "[97, 200]" "[5]"] by (simp add: djb2_def)

end
