(* ===== verification/Hash_Table.thy ===== *)
theory Hash_Table
  imports Hash_Fun
begin

text \<open>
  \<^verbatim>\<open>HashTable\<close> (src/src/HashTable.c): a hash table with chaining whose length is taken from a
  table of primes. Keys and values are user pointers (numbers, 0 is the null pointer). The
  chain of a bucket is owned by that bucket alone, so it is the list of its entries and
  \<^verbatim>\<open>entry->next\<close> is the rest of the list. The counters are 32 bit unsigned words.

  \<^verbatim>\<open>hashFunc\<close> and \<^verbatim>\<open>eqFunc\<close> are functions of the user or null; without \<^verbatim>\<open>hashFunc\<close> the
  hash is taken over 8 bytes (\<^verbatim>\<open>sizeof( key )\<close>) of the memory \<open>M\<close> the key points to. The
  calls of the destructors are logged.
\<close>

definition HASHTABLE_VALID :: ulong where "HASHTABLE_VALID = 0xea12bb4d"
definition HASHTABLE_INVALID :: ulong where "HASHTABLE_INVALID = 0x0c4fd348"
definition HASHTABLE_DEFAULT_LOADFACTOR :: uint32 where "HASHTABLE_DEFAULT_LOADFACTOR = 65"

definition HashTable_primes :: "uint32 list" where
  "HashTable_primes =
     [53, 97, 193, 389,
      769, 1543, 3079, 6151,
      12289, 24593, 49157, 98317,
      196613, 393241, 786433, 1572869,
      3145739, 6291469, 12582917, 25165843,
      50331653, 100663319, 201326611, 402653189,
      805306457, 1610612741]"

definition HashTable_primeTableLength :: nat where
  "HashTable_primeTableLength = length HashTable_primes"

record HashTableEntry =
  en_key :: nat
  en_value :: nat
  en_hash :: uint32

datatype dtor_call = KeyDtor nat | ValueDtor nat

record HashTable =
  ht_valid :: ulong
  ht_tableLength :: uint32
  ht_table :: "HashTableEntry list list owned"
  ht_entryCount :: uint32
  ht_loadLimit :: uint32
  ht_loadFactor :: uint32
  ht_primeIndex :: nat
  ht_hashFunc :: "(nat \<Rightarrow> uint32) option"
  ht_eqFunc :: "(nat \<Rightarrow> nat \<Rightarrow> bool) option"
  ht_keyDtor :: bool
  ht_valueDtor :: bool

record htw =
  hw_self :: "HashTable owned"
  hw_mem :: nat
  hw_calls :: "dtor_call list"

definition HashTable_zero :: HashTable where
  "HashTable_zero = \<lparr>ht_valid = 0, ht_tableLength = 0, ht_table = Null, ht_entryCount = 0,
     ht_loadLimit = 0, ht_loadFactor = 0, ht_primeIndex = 0, ht_hashFunc = None, ht_eqFunc = None,
     ht_keyDtor = False, ht_valueDtor = False\<rparr>"

definition HASHTABLE_INDEXFOR :: "uint32 \<Rightarrow> uint32 \<Rightarrow> nat" where
  "HASHTABLE_INDEXFOR tableLength hashValue = unat (hashValue mod tableLength)"

text \<open>\<^verbatim>\<open>table[ i ]\<close> as a value and as the target of an assignment.\<close>

definition bucket :: "HashTableEntry list list \<Rightarrow> nat \<Rightarrow> HashTableEntry list outcome" where
  "bucket T i = defined_if (i < length T) (Ok (T ! i))"

definition set_bucket ::
  "HashTableEntry list list \<Rightarrow> nat \<Rightarrow> HashTableEntry list \<Rightarrow> HashTableEntry list list outcome" where
  "set_bucket T i es = defined_if (i < length T) (Ok (T[i := es]))"

text \<open>\<^verbatim>\<open>ANY_REQUIRE( self ); ANY_REQUIRE( self->valid == HASHTABLE_VALID );\<close>\<close>

definition valid_table :: "HashTable owned \<Rightarrow> (HashTable \<Rightarrow> 'a outcome) \<Rightarrow> 'a outcome" where
  "valid_table self k = require_ptr self (\<lambda>s. ANY_REQUIRE (ht_valid s = HASHTABLE_VALID) (k s))"

subsection \<open>Creation and parameters\<close>

definition HashTable_new :: "htw \<Rightarrow> htw outcome" where
  "HashTable_new w =
     (let (p, mem) = ANY_TALLOC HashTable_zero (hw_mem w)
      in ANY_REQUIRE (p \<noteq> Null) (Ok (w\<lparr>hw_self := p, hw_mem := mem\<rparr>)))"

text \<open>The loop that enforces a prime size: the first prime above \<open>minSize\<close>; \<^verbatim>\<open>i\<close> is where
  the loop stops.\<close>

fun find_prime :: "uint32 list \<Rightarrow> uint32 \<Rightarrow> uint32 \<Rightarrow> nat \<Rightarrow> uint32 \<times> nat" where
  "find_prime [] minSize dflt i = (dflt, i)"
| "find_prime (p # ps) minSize dflt i =
     (if p > minSize then (p, i) else find_prime ps minSize dflt (i + 1))"

definition HashTable_init ::
  "uint32 \<Rightarrow> (nat \<Rightarrow> uint32) option \<Rightarrow> (nat \<Rightarrow> nat \<Rightarrow> bool) option \<Rightarrow> bool \<Rightarrow> bool \<Rightarrow> htw \<Rightarrow>
   (bool \<times> htw) outcome" where
  "HashTable_init minSize hashFunc eqFunc keyDtor valueDtor w =
     require_ptr (hw_self w) (\<lambda>s.
     ANY_REQUIRE (minSize < push_bit 30 1)
       (let (size, i) = find_prime HashTable_primes minSize (HashTable_primes ! 0) 0;
            s = s\<lparr>ht_valid := HASHTABLE_INVALID\<rparr>;
            (table, mem) = ANY_TALLOC (replicate (unat size) []) (hw_mem w)
        in if table = Null then Ok (False, w\<lparr>hw_self := Own (s\<lparr>ht_table := Null\<rparr>), hw_mem := mem\<rparr>)
           else Ok (True, w\<lparr>hw_self := Own (s\<lparr>ht_table := table, ht_tableLength := size,
                  ht_loadFactor := HASHTABLE_DEFAULT_LOADFACTOR, ht_primeIndex := i,
                  ht_entryCount := 0, ht_hashFunc := hashFunc, ht_eqFunc := eqFunc,
                  ht_keyDtor := keyDtor, ht_valueDtor := valueDtor,
                  ht_loadLimit := (size * HASHTABLE_DEFAULT_LOADFACTOR) div 100,
                  ht_valid := HASHTABLE_VALID\<rparr>), hw_mem := mem\<rparr>)))"

definition HashTable_setLoadFactor :: "uint32 \<Rightarrow> htw \<Rightarrow> htw outcome" where
  "HashTable_setLoadFactor loadFactor w =
     valid_table (hw_self w) (\<lambda>s. Ok (w\<lparr>hw_self := Own (s\<lparr>ht_loadFactor := loadFactor\<rparr>)\<rparr>))"

definition HashTable_getLoadFactor :: "htw \<Rightarrow> uint32 outcome" where
  "HashTable_getLoadFactor w = valid_table (hw_self w) (\<lambda>s. Ok (ht_loadFactor s))"

definition HashTable_hash :: "memory \<Rightarrow> HashTable \<Rightarrow> nat \<Rightarrow> uint32 outcome" where
  "HashTable_hash M s key =
     ANY_REQUIRE (ht_valid s = HASHTABLE_VALID) (ANY_REQUIRE (key \<noteq> 0)
       (Ok (case ht_hashFunc s of
              Some f \<Rightarrow> f key
            | None \<Rightarrow> HashTable_hashGeneric M key 8 0)))"

definition HashTable_eqFunc :: "HashTable \<Rightarrow> nat \<Rightarrow> nat \<Rightarrow> bool outcome" where
  "HashTable_eqFunc s key1 key2 =
     ANY_REQUIRE (ht_valid s = HASHTABLE_VALID)
       (Ok (case ht_eqFunc s of Some f \<Rightarrow> f key1 key2 | None \<Rightarrow> key1 = key2))"

definition HashTable_count :: "htw \<Rightarrow> uint32 outcome" where
  "HashTable_count w = valid_table (hw_self w) (\<lambda>s. Ok (ht_entryCount s))"

definition HashTable_length :: "htw \<Rightarrow> uint32 outcome" where
  "HashTable_length w = valid_table (hw_self w) (\<lambda>s. Ok (ht_tableLength s))"

subsection \<open>Expansion\<close>

text \<open>One chain of the old table is moved entry by entry to the heads of the new chains, so
  the order of the entries is reversed.\<close>

fun expand_chain ::
  "uint32 \<Rightarrow> HashTableEntry list \<Rightarrow> HashTableEntry list list \<Rightarrow> HashTableEntry list list outcome" where
  "expand_chain newSize [] newTable = Ok newTable"
| "expand_chain newSize (entry # es) newTable =
     (let index = HASHTABLE_INDEXFOR newSize (en_hash entry) in
      obind (bucket newTable index) (\<lambda>next.
      obind (set_bucket newTable index (entry # next)) (\<lambda>newTable.
      expand_chain newSize es newTable)))"

fun expand_chains ::
  "uint32 \<Rightarrow> HashTableEntry list list \<Rightarrow> HashTableEntry list list \<Rightarrow> HashTableEntry list list outcome"
where
  "expand_chains newSize [] newTable = Ok newTable"
| "expand_chains newSize (es # T) newTable =
     obind (expand_chain newSize es newTable) (\<lambda>newTable. expand_chains newSize T newTable)"

definition HashTable_expand :: "HashTable \<Rightarrow> nat \<Rightarrow> (bool \<times> HashTable \<times> nat) outcome" where
  "HashTable_expand s mem =
     ANY_REQUIRE (ht_valid s = HASHTABLE_VALID)
       (if ht_primeIndex s = HashTable_primeTableLength - 1 then Ok (False, s, mem)
        else
          let newSize = HashTable_primes ! (ht_primeIndex s + 1);
              (newTable, mem) = ANY_TALLOC (replicate (unat newSize) []) mem
          in if newTable = Null then Ok (False, s, mem)
             else
               deref newTable (\<lambda>N.
               deref (ht_table s) (\<lambda>T.
               obind (expand_chains newSize (take (unat (ht_tableLength s)) T) N) (\<lambda>N.
               Ok (True, s\<lparr>ht_table := Own N, ht_primeIndex := ht_primeIndex s + 1,
                     ht_tableLength := newSize,
                     ht_loadLimit := (newSize * ht_loadFactor s) div 100\<rparr>, mem)))))"

subsection \<open>Access\<close>

definition HashTable_insert :: "memory \<Rightarrow> nat \<Rightarrow> nat \<Rightarrow> htw \<Rightarrow> (bool \<times> htw) outcome" where
  "HashTable_insert M key value w =
     valid_table (hw_self w) (\<lambda>s.
       let s = s\<lparr>ht_entryCount := ht_entryCount s + 1\<rparr> in
       obind (if ht_entryCount s > ht_loadLimit s
              then omap snd (HashTable_expand s (hw_mem w)) else Ok (s, hw_mem w)) (\<lambda>(s, mem).
       let (entry, mem) = ANY_TALLOC \<lparr>en_key = 0, en_value = 0, en_hash = 0\<rparr> mem in
       if entry = Null
       then Ok (False, w\<lparr>hw_self := Own (s\<lparr>ht_entryCount := ht_entryCount s - 1\<rparr>), hw_mem := mem\<rparr>)
       else
         obind (HashTable_hash M s key) (\<lambda>hash.
         let index = HASHTABLE_INDEXFOR (ht_tableLength s) hash in
         deref (ht_table s) (\<lambda>T.
         obind (bucket T index) (\<lambda>next.
         obind (set_bucket T index (\<lparr>en_key = key, en_value = value, en_hash = hash\<rparr> # next)) (\<lambda>T.
         Ok (True, w\<lparr>hw_self := Own (s\<lparr>ht_table := Own T\<rparr>), hw_mem := mem\<rparr>)))))))"

text \<open>The test \<^verbatim>\<open>( hashValue == entry->hash ) && HashTable_eqFunc( self, key, entry->key )\<close>.\<close>

definition entry_matches :: "HashTable \<Rightarrow> uint32 \<Rightarrow> nat \<Rightarrow> HashTableEntry \<Rightarrow> bool outcome" where
  "entry_matches s hashValue key entry =
     (if hashValue = en_hash entry then HashTable_eqFunc s key (en_key entry) else Ok False)"

fun search_chain :: "HashTable \<Rightarrow> uint32 \<Rightarrow> nat \<Rightarrow> HashTableEntry list \<Rightarrow> nat outcome" where
  "search_chain s hashValue key [] = Ok 0"
| "search_chain s hashValue key (entry # es) =
     obind (entry_matches s hashValue key entry) (\<lambda>found.
     if found then Ok (en_value entry) else search_chain s hashValue key es)"

definition HashTable_search :: "memory \<Rightarrow> nat \<Rightarrow> htw \<Rightarrow> nat outcome" where
  "HashTable_search M key w =
     valid_table (hw_self w) (\<lambda>s.
       obind (HashTable_hash M s key) (\<lambda>hashValue.
       deref (ht_table s) (\<lambda>T.
       obind (bucket T (HASHTABLE_INDEXFOR (ht_tableLength s) hashValue)) (\<lambda>es.
       search_chain s hashValue key es))))"

text \<open>The loops of \<^verbatim>\<open>HashTable_fetch\<close> and \<^verbatim>\<open>HashTable_remove\<close> unlink the first match: the entry
  (if any) and the chain that is left.\<close>

fun unlink_chain ::
  "HashTable \<Rightarrow> uint32 \<Rightarrow> nat \<Rightarrow> HashTableEntry list \<Rightarrow>
   (HashTableEntry option \<times> HashTableEntry list) outcome" where
  "unlink_chain s hashValue key [] = Ok (None, [])"
| "unlink_chain s hashValue key (entry # es) =
     obind (entry_matches s hashValue key entry) (\<lambda>found.
     if found then Ok (Some entry, es)
     else obind (unlink_chain s hashValue key es) (\<lambda>(r, es). Ok (r, entry # es)))"

definition HashTable_fetch :: "memory \<Rightarrow> nat \<Rightarrow> htw \<Rightarrow> (nat \<times> htw) outcome" where
  "HashTable_fetch M key w =
     valid_table (hw_self w) (\<lambda>s.
       obind (HashTable_hash M s key) (\<lambda>hashValue.
       deref (ht_table s) (\<lambda>T.
       let index = HASHTABLE_INDEXFOR (ht_tableLength s) hashValue in
       obind (bucket T index) (\<lambda>es.
       obind (unlink_chain s hashValue key es) (\<lambda>(r, es).
       case r of
         None \<Rightarrow> Ok (0, w)
       | Some entry \<Rightarrow>
           obind (set_bucket T index es) (\<lambda>T.
           Ok (en_value entry,
             w\<lparr>hw_self := Own (s\<lparr>ht_table := Own T, ht_entryCount := ht_entryCount s - 1\<rparr>),
               hw_calls := hw_calls w @ (if ht_keyDtor s then [KeyDtor (en_key entry)] else [])\<rparr>)))))))"

definition HashTable_remove :: "memory \<Rightarrow> nat \<Rightarrow> htw \<Rightarrow> (nat \<times> htw) outcome" where
  "HashTable_remove M key w =
     valid_table (hw_self w) (\<lambda>s.
       obind (HashTable_hash M s key) (\<lambda>hashValue.
       deref (ht_table s) (\<lambda>T.
       let index = HASHTABLE_INDEXFOR (ht_tableLength s) hashValue in
       obind (bucket T index) (\<lambda>es.
       obind (unlink_chain s hashValue key es) (\<lambda>(r, es).
       case r of
         None \<Rightarrow> Ok (0, w)
       | Some entry \<Rightarrow>
           obind (set_bucket T index es) (\<lambda>T.
           Ok (if ht_valueDtor s then 0 else en_value entry,
             w\<lparr>hw_self := Own (s\<lparr>ht_table := Own T, ht_entryCount := ht_entryCount s - 1\<rparr>),
               hw_calls := hw_calls w @ (if ht_keyDtor s then [KeyDtor (en_key entry)] else []) @
                 (if ht_valueDtor s then [ValueDtor (en_value entry)] else [])\<rparr>)))))))"

fun change_chain ::
  "HashTable \<Rightarrow> uint32 \<Rightarrow> nat \<Rightarrow> nat \<Rightarrow> HashTableEntry list \<Rightarrow> (int \<times> HashTableEntry list) outcome" where
  "change_chain s hashValue key value [] = Ok (0, [])"
| "change_chain s hashValue key value (entry # es) =
     obind (entry_matches s hashValue key entry) (\<lambda>found.
     if found then Ok (-1, entry\<lparr>en_value := value\<rparr> # es)
     else obind (change_chain s hashValue key value es) (\<lambda>(r, es). Ok (r, entry # es)))"

definition HashTable_change :: "memory \<Rightarrow> nat \<Rightarrow> nat \<Rightarrow> htw \<Rightarrow> (int \<times> htw) outcome" where
  "HashTable_change M key value w =
     valid_table (hw_self w) (\<lambda>s.
       obind (HashTable_hash M s key) (\<lambda>hashValue.
       deref (ht_table s) (\<lambda>T.
       let index = HASHTABLE_INDEXFOR (ht_tableLength s) hashValue in
       obind (bucket T index) (\<lambda>es.
       obind (change_chain s hashValue key value es) (\<lambda>(r, es).
       obind (set_bucket T index es) (\<lambda>T.
       Ok (r, w\<lparr>hw_self := Own (s\<lparr>ht_table := Own T\<rparr>)\<rparr>)))))))"

definition entry_dtors :: "HashTable \<Rightarrow> HashTableEntry \<Rightarrow> dtor_call list" where
  "entry_dtors s entry =
     (if ht_keyDtor s then [KeyDtor (en_key entry)] else []) @
     (if ht_valueDtor s then [ValueDtor (en_value entry)] else [])"

fun clear_chain :: "HashTable \<Rightarrow> HashTableEntry list \<Rightarrow> dtor_call list \<Rightarrow> dtor_call list" where
  "clear_chain s [] calls = calls"
| "clear_chain s (entry # es) calls = clear_chain s es (calls @ entry_dtors s entry)"

fun clear_chains :: "HashTable \<Rightarrow> HashTableEntry list list \<Rightarrow> dtor_call list \<Rightarrow> dtor_call list" where
  "clear_chains s [] calls = calls"
| "clear_chains s (es # T) calls = clear_chains s T (clear_chain s es calls)"

definition HashTable_clear :: "htw \<Rightarrow> htw outcome" where
  "HashTable_clear w =
     valid_table (hw_self w) (\<lambda>s.
       deref (ht_table s) (\<lambda>T.
       defined_if (unat (ht_tableLength s) \<le> length T)
         (Ok (w\<lparr>hw_self := Own (s\<lparr>ht_table := Null, ht_valid := HASHTABLE_INVALID\<rparr>),
              hw_calls := clear_chains s (take (unat (ht_tableLength s)) T) (hw_calls w)\<rparr>))))"

definition HashTable_delete :: "htw \<Rightarrow> htw outcome" where
  "HashTable_delete w =
     ANY_REQUIRE (hw_self w \<noteq> Null)
       (obind (ANY_FREE (hw_self w)) (\<lambda>p. Ok (w\<lparr>hw_self := p\<rparr>)))"

end
