(* ===== verification/Hash_Table_Correct.thy ===== *)
theory Hash_Table_Correct
  imports Hash_Table Interfaces "HOL-Library.Multiset"
begin

text \<open>
  Correctness of \<^verbatim>\<open>HashTable\<close>: the invariant (an entry is in the bucket of its hash, keys are
  unique, the counter is right), what the chain loops compute, that an expansion keeps the entries,
  and the refinement of a finite map whose keys are taken up to the user's equality.
\<close>

subsection \<open>Lists of entries with unique keys\<close>

fun ukeys :: "(nat \<Rightarrow> nat \<Rightarrow> bool) \<Rightarrow> HashTableEntry list \<Rightarrow> bool" where
  "ukeys eq [] \<longleftrightarrow> True"
| "ukeys eq (e # es) \<longleftrightarrow> (\<forall>e' \<in> set es. \<not> eq (en_key e) (en_key e')) \<and> ukeys eq es"

definition lookup_entry :: "(nat \<Rightarrow> nat \<Rightarrow> bool) \<Rightarrow> HashTableEntry list \<Rightarrow> nat \<Rightarrow> HashTableEntry option" where
  "lookup_entry eq es k = find_first (\<lambda>e. eq k (en_key e)) es"

lemma ukeys_append:
  "ukeys eq (xs @ ys) \<longleftrightarrow> ukeys eq xs \<and> ukeys eq ys \<and>
     (\<forall>x \<in> set xs. \<forall>y \<in> set ys. \<not> eq (en_key x) (en_key y))"
  by (induction xs) auto

lemma ukeys_mset:
  assumes "symp eq" and "mset xs = mset ys" and "ukeys eq xs"
  shows "ukeys eq ys"
  using assms(2,3)
proof (induction xs arbitrary: ys)
  case (Cons x xs)
  then have "x \<in> set ys" by (metis list.set_intros(1) mset_eq_setD)
  then obtain as bs where ys: "ys = as @ x # bs" by (auto simp: in_set_conv_decomp)
  with Cons.prems(1) have m: "mset xs = mset (as @ bs)" by simp
  with Cons have "ukeys eq (as @ bs)" by simp
  moreover have "set xs = set as \<union> set bs" using m by (metis mset_eq_setD set_append)
  ultimately show ?case
    using Cons.prems(2) assms(1) by (auto simp: ys ukeys_append dest: sympD)
qed simp

lemma lookup_entry_unique:
  assumes "equivp eq" and "ukeys eq es" and "e \<in> set es" and "eq k (en_key e)"
  shows "lookup_entry eq es k = Some e"
  using assms(2,3)
proof (induction es)
  case (Cons x xs)
  show ?case
  proof (cases "x = e")
    case False
    with Cons.prems have "e \<in> set xs" "\<not> eq (en_key x) (en_key e)" by auto
    moreover from this have "\<not> eq k (en_key x)"
      using assms(1,4) by (meson equivp_symp equivp_transp)
    ultimately show ?thesis using Cons by (simp add: lookup_entry_def)
  qed (use assms(4) in \<open>simp add: lookup_entry_def\<close>)
qed simp

lemma lookup_entry_None: "lookup_entry eq es k = None \<longleftrightarrow> (\<forall>e \<in> set es. \<not> eq k (en_key e))"
  by (simp add: lookup_entry_def find_first_None_iff)

lemma lookup_entry_SomeD: "lookup_entry eq es k = Some e \<Longrightarrow> e \<in> set es \<and> eq k (en_key e)"
  unfolding lookup_entry_def by (drule find_first_SomeD) simp

lemma lookup_entry_mset:
  assumes "equivp eq" and "ukeys eq xs" and "mset xs = mset ys"
  shows "lookup_entry eq ys k = lookup_entry eq xs k"
proof -
  have "ukeys eq ys" using ukeys_mset [OF _ assms(3,2)] assms(1) by (blast intro: sympI equivp_symp)
  moreover have "set xs = set ys" using assms(3) by (rule mset_eq_setD)
  ultimately show ?thesis
  proof (cases "lookup_entry eq xs k")
    case None
    moreover from this \<open>set xs = set ys\<close> have "lookup_entry eq ys k = None"
      by (simp add: lookup_entry_None)
    ultimately show ?thesis by simp
  next
    case (Some e)
    with \<open>set xs = set ys\<close> have "e \<in> set ys" "eq k (en_key e)" by (auto dest: lookup_entry_SomeD)
    with lookup_entry_unique [OF assms(1) \<open>ukeys eq ys\<close>] Some show ?thesis by simp
  qed
qed

subsection \<open>Tables of chains\<close>

lemma mset_concat_update:
  "i < length T \<Longrightarrow> mset (concat (T[i := es])) + mset (T ! i) = mset (concat T) + mset es"
proof (induction T arbitrary: i)
  case (Cons x T)
  then show ?case by (cases i) (auto simp: union_ac)
qed simp

lemma mset_concat_replicate_Nil [simp]: "concat (replicate n []) = []"
  by (induction n) auto

lemma find_first_append:
  "find_first P (xs @ ys) = (case find_first P xs of None \<Rightarrow> find_first P ys | Some x \<Rightarrow> Some x)"
  by (induction xs) auto

lemma find_first_concat:
  assumes "i < length T" and "\<And>j e. j < length T \<Longrightarrow> j \<noteq> i \<Longrightarrow> e \<in> set (T ! j) \<Longrightarrow> \<not> P e"
  shows "find_first P (concat T) = find_first P (T ! i)"
  using assms
proof (induction T arbitrary: i)
  case (Cons x T)
  show ?case
  proof (cases i)
    case 0
    have "\<not> P e" if "e \<in> set (concat T)" for e
    proof -
      from that obtain es where "es \<in> set T" "e \<in> set es" by auto
      then obtain j where "j < length T" "e \<in> set (T ! j)" by (metis in_set_conv_nth)
      with Cons.prems(2) [of "Suc j" e] 0 show ?thesis by simp
    qed
    then have "find_first P (concat T) = None" by (simp add: find_first_None_iff)
    with 0 show ?thesis by (simp add: find_first_append split: option.split)
  next
    case (Suc i')
    have "find_first P x = None"
      using Cons.prems(2) [of 0] Suc by (auto simp: find_first_None_iff)
    moreover have "find_first P (concat T) = find_first P (T ! i')"
      using Cons.prems Suc by (intro Cons.IH) force+
    ultimately show ?thesis using Suc by (simp add: find_first_append)
  qed
qed simp

subsection \<open>The invariant\<close>

definition hfun :: "memory \<Rightarrow> HashTable \<Rightarrow> nat \<Rightarrow> uint32" where
  "hfun M s k = (case ht_hashFunc s of Some f \<Rightarrow> f k | None \<Rightarrow> HashTable_hashGeneric M k 8 0)"

definition eqf :: "HashTable \<Rightarrow> nat \<Rightarrow> nat \<Rightarrow> bool" where
  "eqf s = (case ht_eqFunc s of Some f \<Rightarrow> f | None \<Rightarrow> (=))"

text \<open>The contract of the user's functions.\<close>

definition good_funs :: "memory \<Rightarrow> HashTable \<Rightarrow> bool" where
  "good_funs M s \<longleftrightarrow> equivp (eqf s) \<and> (\<forall>k k'. eqf s k k' \<longrightarrow> hfun M s k = hfun M s k')"

definition placed :: "memory \<Rightarrow> HashTable \<Rightarrow> uint32 \<Rightarrow> HashTableEntry list list \<Rightarrow> bool" where
  "placed M s n T \<longleftrightarrow> length T = unat n \<and> (\<forall>i < length T. \<forall>e \<in> set (T ! i).
     en_hash e = hfun M s (en_key e) \<and> HASHTABLE_INDEXFOR n (hfun M s (en_key e)) = i \<and>
     en_key e \<noteq> 0)"

definition table_ok :: "memory \<Rightarrow> HashTable \<Rightarrow> HashTableEntry list list \<Rightarrow> bool" where
  "table_ok M s T \<longleftrightarrow>
     ht_valid s = HASHTABLE_VALID \<and> ht_table s = Own T \<and>
     ht_primeIndex s < HashTable_primeTableLength \<and>
     ht_tableLength s = HashTable_primes ! ht_primeIndex s \<and>
     placed M s (ht_tableLength s) T \<and> ukeys (eqf s) (concat T) \<and> good_funs M s"

definition ht_inv :: "memory \<Rightarrow> htw \<Rightarrow> bool" where
  "ht_inv M w \<longleftrightarrow> (\<exists>s T. hw_self w = Own s \<and> table_ok M s T \<and>
     unat (ht_entryCount s) = length (concat T))"

lemma prime_pos: "i < HashTable_primeTableLength \<Longrightarrow> 0 < HashTable_primes ! i"
  by (simp add: HashTable_primeTableLength_def HashTable_primes_def nth_Cons split: nat.splits)

lemma index_less: "0 < n \<Longrightarrow> HASHTABLE_INDEXFOR n h < unat n"
  by (simp add: HASHTABLE_INDEXFOR_def unat_mod word_less_nat_alt)

lemma table_ok_cong:
  assumes "table_ok M s T" and "ht_hashFunc s' = ht_hashFunc s" and "ht_eqFunc s' = ht_eqFunc s"
    and "ht_valid s' = ht_valid s" and "ht_primeIndex s' = ht_primeIndex s"
    and "ht_tableLength s' = ht_tableLength s" and "ht_table s' = ht_table s"
  shows "table_ok M s' T"
proof -
  have e: "eqf s' = eqf s" and h: "hfun M s' k = hfun M s k" for k
    using assms(2,3) by (simp_all add: hfun_def eqf_def)
  have p: "placed M s' n T = placed M s n T" for n by (simp add: placed_def h)
  have g: "good_funs M s' = good_funs M s" by (simp add: good_funs_def e h)
  show ?thesis using assms(1) unfolding table_ok_def e p g assms(4-7) .
qed

lemma placedD:
  assumes "placed M s n T" and "i < length T" and "e \<in> set (T ! i)"
  shows "en_hash e = hfun M s (en_key e)" and "HASHTABLE_INDEXFOR n (hfun M s (en_key e)) = i"
    and "en_key e \<noteq> 0"
  using assms by (auto simp: placed_def)

lemma good_funsD: "good_funs M s \<Longrightarrow> eqf s k k' \<Longrightarrow> hfun M s k = hfun M s k'"
  by (simp add: good_funs_def)

lemma table_okD:
  assumes "table_ok M s T"
  shows "ht_valid s = HASHTABLE_VALID" and "ht_table s = Own T" and "placed M s (ht_tableLength s) T"
    and "ukeys (eqf s) (concat T)" and "good_funs M s" and "length T = unat (ht_tableLength s)"
    and "equivp (eqf s)"
  using assms by (auto simp: table_ok_def placed_def good_funs_def)

lemma table_ok_bucket:
  assumes "table_ok M s T"
  shows "HASHTABLE_INDEXFOR (ht_tableLength s) h < length T"
  using assms index_less [of "ht_tableLength s" h] prime_pos [of "ht_primeIndex s"]
  by (simp add: table_ok_def placed_def)

lemma lookup_bucket:
  assumes "table_ok M s T"
  shows "lookup_entry (eqf s) (concat T) k =
    lookup_entry (eqf s) (T ! HASHTABLE_INDEXFOR (ht_tableLength s) (hfun M s k)) k"
  unfolding lookup_entry_def
proof (rule find_first_concat)
  show "HASHTABLE_INDEXFOR (ht_tableLength s) (hfun M s k) < length T"
    using assms by (rule table_ok_bucket)
  fix j e
  assume "j < length T" "j \<noteq> HASHTABLE_INDEXFOR (ht_tableLength s) (hfun M s k)" "e \<in> set (T ! j)"
  moreover from this have "HASHTABLE_INDEXFOR (ht_tableLength s) (hfun M s (en_key e)) = j"
    using placedD(2) [OF table_okD(3) [OF assms]] by blast
  ultimately show "\<not> eqf s k (en_key e)"
    using good_funsD [OF table_okD(5) [OF assms], of k "en_key e"] by metis
qed

subsection \<open>The loops over a chain\<close>

definition hashed :: "memory \<Rightarrow> HashTable \<Rightarrow> HashTableEntry list \<Rightarrow> bool" where
  "hashed M s es \<longleftrightarrow> ht_valid s = HASHTABLE_VALID \<and> good_funs M s \<and>
     (\<forall>e \<in> set es. en_hash e = hfun M s (en_key e))"

lemma entry_matches_ok:
  assumes "hashed M s (e # es)"
  shows "entry_matches s (hfun M s k) k e = Ok (eqf s k (en_key e))"
proof -
  have h: "ht_valid s = HASHTABLE_VALID" "good_funs M s" "en_hash e = hfun M s (en_key e)"
    using assms by (simp_all add: hashed_def)
  have "HashTable_eqFunc s k (en_key e) = Ok (eqf s k (en_key e))"
    using h(1) by (simp add: HashTable_eqFunc_def eqf_def split: option.split)
  then show ?thesis
    using good_funsD [OF h(2), of k "en_key e"] h(3) by (auto simp: entry_matches_def)
qed

lemma hashed_Cons: "hashed M s (e # es) \<Longrightarrow> hashed M s es"
  by (simp add: hashed_def)

lemma search_chain_ok:
  "hashed M s es \<Longrightarrow> search_chain s (hfun M s k) k es =
     Ok (case lookup_entry (eqf s) es k of None \<Rightarrow> 0 | Some e \<Rightarrow> en_value e)"
  by (induction es) (auto simp: entry_matches_ok lookup_entry_def dest: hashed_Cons)

lemma unlink_chain_ok:
  "hashed M s es \<Longrightarrow> unlink_chain s (hfun M s k) k es =
     Ok (lookup_entry (eqf s) es k, remove_first (\<lambda>e. eqf s k (en_key e)) es)"
  by (induction es) (auto simp: entry_matches_ok lookup_entry_def dest: hashed_Cons)

fun update_first :: "('a \<Rightarrow> bool) \<Rightarrow> ('a \<Rightarrow> 'a) \<Rightarrow> 'a list \<Rightarrow> 'a list" where
  "update_first P f [] = []"
| "update_first P f (x # xs) = (if P x then f x # xs else x # update_first P f xs)"

lemma change_chain_ok:
  "hashed M s es \<Longrightarrow> change_chain s (hfun M s k) k v es =
     Ok (if lookup_entry (eqf s) es k = None then 0 else -1,
         update_first (\<lambda>e. eqf s k (en_key e)) (en_value_update (\<lambda>_. v)) es)"
  by (induction es) (auto simp: entry_matches_ok lookup_entry_def dest: hashed_Cons)

lemma table_ok_hashed: "table_ok M s T \<Longrightarrow> i < length T \<Longrightarrow> hashed M s (T ! i)"
  using placedD(1) [OF table_okD(3)] table_okD(1,5) by (auto simp: hashed_def)

lemma HashTable_hash_ok:
  "table_ok M s T \<Longrightarrow> k \<noteq> 0 \<Longrightarrow> HashTable_hash M s k = Ok (hfun M s k)"
  by (simp add: HashTable_hash_def table_ok_def hfun_def)

subsection \<open>Expansion\<close>

lemma expand_chain_ok:
  assumes "length N = unat n" and "0 < n"
  shows "\<exists>N'. expand_chain n es N = Ok N' \<and> length N' = length N \<and>
    mset (concat N') = mset (concat N) + mset es \<and>
    (\<forall>i < length N. \<forall>e \<in> set (N' ! i). e \<in> set (N ! i) \<or>
       e \<in> set es \<and> HASHTABLE_INDEXFOR n (en_hash e) = i)"
  using assms
proof (induction es arbitrary: N)
  case (Cons e es)
  define i where "i = HASHTABLE_INDEXFOR n (en_hash e)"
  have i: "i < length N" using index_less [OF Cons.prems(2)] Cons.prems(1) by (simp add: i_def)
  define N1 where "N1 = N[i := e # N ! i]"
  have "mset (concat N1) + mset (N ! i) = mset (concat N) + mset (e # N ! i)"
    unfolding N1_def by (rule mset_concat_update [OF i])
  then have m1: "mset (concat N1) = mset (concat N) + {#e#}" by simp
  have "length N1 = unat n" using Cons.prems by (simp add: N1_def)
  from Cons.IH [OF this Cons.prems(2)] obtain N' where N': "expand_chain n es N1 = Ok N'"
    "length N' = length N1" "mset (concat N') = mset (concat N1) + mset es"
    "\<forall>j < length N1. \<forall>x \<in> set (N' ! j). x \<in> set (N1 ! j) \<or>
       x \<in> set es \<and> HASHTABLE_INDEXFOR n (en_hash x) = j"
    by blast
  have "expand_chain n (e # es) N = Ok N'"
    using N'(1) i by (simp add: bucket_def set_bucket_def Let_def N1_def i_def)
  moreover have "x \<in> set (N ! j) \<or> x \<in> set (e # es) \<and> HASHTABLE_INDEXFOR n (en_hash x) = j"
    if "j < length N" "x \<in> set (N' ! j)" for j x
  proof -
    have "x \<in> set (N1 ! j) \<or> x \<in> set es \<and> HASHTABLE_INDEXFOR n (en_hash x) = j"
      using N'(4) that by (simp add: N1_def)
    then show ?thesis
      using i by (cases "j = i") (auto simp: N1_def i_def [symmetric])
  qed
  ultimately show ?case using N'(2,3) m1 by (simp add: N1_def)
qed simp

lemma expand_chains_ok:
  assumes "length N = unat n" and "0 < n"
  shows "\<exists>N'. expand_chains n T N = Ok N' \<and> length N' = length N \<and>
    mset (concat N') = mset (concat N) + mset (concat T) \<and>
    (\<forall>i < length N. \<forall>e \<in> set (N' ! i). e \<in> set (N ! i) \<or>
       e \<in> set (concat T) \<and> HASHTABLE_INDEXFOR n (en_hash e) = i)"
  using assms
proof (induction T arbitrary: N)
  case (Cons es T)
  obtain N1 where N1: "expand_chain n es N = Ok N1" "length N1 = length N"
    "mset (concat N1) = mset (concat N) + mset es"
    "\<forall>i < length N. \<forall>e \<in> set (N1 ! i). e \<in> set (N ! i) \<or>
       e \<in> set es \<and> HASHTABLE_INDEXFOR n (en_hash e) = i"
    using expand_chain_ok [OF Cons.prems] by blast
  have "length N1 = unat n" using N1(2) Cons.prems(1) by simp
  from Cons.IH [OF this Cons.prems(2)] obtain N' where N': "expand_chains n T N1 = Ok N'"
    "length N' = length N1" "mset (concat N') = mset (concat N1) + mset (concat T)"
    "\<forall>j < length N1. \<forall>x \<in> set (N' ! j). x \<in> set (N1 ! j) \<or>
       x \<in> set (concat T) \<and> HASHTABLE_INDEXFOR n (en_hash x) = j"
    by blast
  have "x \<in> set (N ! j) \<or> x \<in> set (concat (es # T)) \<and> HASHTABLE_INDEXFOR n (en_hash x) = j"
    if "j < length N" "x \<in> set (N' ! j)" for j x
    using N'(4) N1(2,4) that by auto
  moreover have "expand_chains n (es # T) N = Ok N'" using N1(1) N'(1) by simp
  ultimately show ?case using N'(2,3) N1(2,3) by (simp add: union_ac)
qed simp

definition same_config :: "HashTable \<Rightarrow> HashTable \<Rightarrow> bool" where
  "same_config s s' \<longleftrightarrow> ht_hashFunc s' = ht_hashFunc s \<and> ht_eqFunc s' = ht_eqFunc s \<and>
     ht_keyDtor s' = ht_keyDtor s \<and> ht_valueDtor s' = ht_valueDtor s \<and> ht_valid s' = ht_valid s \<and>
     ht_loadFactor s' = ht_loadFactor s"

lemma same_config_eqs:
  "same_config s s' \<Longrightarrow> hfun M s' = hfun M s \<and> eqf s' = eqf s \<and> good_funs M s' = good_funs M s"
  by (simp add: same_config_def hfun_def eqf_def good_funs_def fun_eq_iff)

lemma HashTable_expand_ok:
  assumes "table_ok M s T"
  shows "\<exists>b s' T' mem'. HashTable_expand s mem = Ok (b, s', mem') \<and> table_ok M s' T' \<and>
    mset (concat T') = mset (concat T) \<and> same_config s s' \<and> ht_entryCount s' = ht_entryCount s \<and>
    mem \<le> mem' + 1"
proof (cases "ht_primeIndex s = HashTable_primeTableLength - 1 \<or> mem = 0")
  case True
  with assms table_okD(1) [OF assms] show ?thesis
    by (intro exI [of _ False] exI [of _ s] exI [of _ T] exI [of _ mem])
      (auto simp: HashTable_expand_def same_config_def Let_def)
next
  case False
  define i where "i = ht_primeIndex s + 1"
  define n where "n = HashTable_primes ! i"
  have i: "i < HashTable_primeTableLength"
    using False assms by (auto simp: table_ok_def i_def)
  have n: "0 < n" unfolding n_def by (rule prime_pos [OF i])
  define N where "N = replicate (unat n) ([] :: HashTableEntry list)"
  have lenN: "length N = unat n" by (simp add: N_def)
  from expand_chains_ok [OF lenN n, of T] obtain N' where N': "expand_chains n T N = Ok N'"
    "length N' = unat n" "mset (concat N') = mset (concat T)"
    "\<forall>i < unat n. \<forall>e \<in> set (N' ! i). e \<in> set (concat T) \<and> HASHTABLE_INDEXFOR n (en_hash e) = i"
    by (auto simp: N_def)
  define s' where "s' = s\<lparr>ht_table := Own N', ht_primeIndex := i, ht_tableLength := n,
    ht_loadLimit := (n * ht_loadFactor s) div 100\<rparr>"
  have sc: "same_config s s'" by (simp add: s'_def same_config_def)
  note eqs = same_config_eqs [OF sc, of M]
  have "HashTable_expand s mem = Ok (True, s', mem - 1)"
    using False table_okD(1,2,6) [OF assms] N'(1)
    unfolding HashTable_expand_def i_def [symmetric] n_def [symmetric]
    by (simp add: Let_def N_def [symmetric] s'_def)
  moreover have "table_ok M s' N'"
  proof -
    have "placed M s' n N'"
      unfolding placed_def N'(2)
    proof (intro allI impI ballI conjI)
      fix j e
      assume "j < unat n" "e \<in> set (N' ! j)"
      with N'(4) have e: "e \<in> set (concat T)" "HASHTABLE_INDEXFOR n (en_hash e) = j" by auto
      from e(1) obtain es where "es \<in> set T" "e \<in> set es" by auto
      then obtain l where "l < length T" "e \<in> set (T ! l)" by (metis in_set_conv_nth)
      note pl = placedD [OF table_okD(3) [OF assms] this]
      show "en_hash e = hfun M s' (en_key e)" "en_key e \<noteq> 0" using pl eqs by simp_all
      with e(2) show "HASHTABLE_INDEXFOR n (hfun M s' (en_key e)) = j" by simp
    qed simp
    moreover have "ukeys (eqf s) (concat N')"
      using ukeys_mset [OF _ N'(3) [symmetric] table_okD(4) [OF assms]] table_okD(7) [OF assms]
      by (blast intro: sympI equivp_symp)
    ultimately show ?thesis
      using eqs i table_okD(1,5) [OF assms] by (simp add: table_ok_def s'_def n_def)
  qed
  ultimately show ?thesis using N'(3) sc
    by (intro exI [of _ True] exI [of _ s'] exI [of _ N'] exI [of _ "mem - 1"]) (auto simp: s'_def)
qed

subsection \<open>The abstract map\<close>

text \<open>The value of a table: the equality of the keys, the map from keys to the stored pair, the
  number of entries, which destructors are installed and what they have been called with.\<close>

record hmap =
  hm_eq :: "nat \<Rightarrow> nat \<Rightarrow> bool"
  hm_map :: "nat \<rightharpoonup> nat \<times> nat"
  hm_count :: nat
  hm_dtors :: "bool \<times> bool"
  hm_calls :: "dtor_call list"

definition entry_pair :: "HashTableEntry \<Rightarrow> nat \<times> nat" where
  "entry_pair e = (en_key e, en_value e)"

definition table_map :: "HashTable \<Rightarrow> HashTableEntry list list \<Rightarrow> nat \<rightharpoonup> nat \<times> nat" where
  "table_map s T k = map_option entry_pair (lookup_entry (eqf s) (concat T) k)"

definition ht_view :: "htw \<Rightarrow> hmap" where
  "ht_view w = (case hw_self w of
     Own s \<Rightarrow> (case ht_table s of
        Own T \<Rightarrow> \<lparr>hm_eq = eqf s, hm_map = table_map s T, hm_count = length (concat T),
                  hm_dtors = (ht_keyDtor s, ht_valueDtor s), hm_calls = hw_calls w\<rparr>
      | _ \<Rightarrow> \<lparr>hm_eq = eqf s, hm_map = Map.empty, hm_count = 0, hm_dtors = (False, False), hm_calls = []\<rparr>)
   | _ \<Rightarrow> \<lparr>hm_eq = (=), hm_map = Map.empty, hm_count = 0, hm_dtors = (False, False), hm_calls = []\<rparr>)"

lemma ht_inv_cases:
  assumes "ht_inv M w"
  obtains s T where "hw_self w = Own s" "table_ok M s T" "unat (ht_entryCount s) = length (concat T)"
    "ht_view w = \<lparr>hm_eq = eqf s, hm_map = table_map s T, hm_count = length (concat T),
       hm_dtors = (ht_keyDtor s, ht_valueDtor s), hm_calls = hw_calls w\<rparr>"
    "ht_valid s = HASHTABLE_VALID" "ht_table s = Own T"
  using assms by (auto simp: ht_inv_def ht_view_def dest: table_okD(1,2))

lemma ht_invI:
  assumes "hw_self w = Own s" and "table_ok M s T" and "unat (ht_entryCount s) = length (concat T)"
  shows "ht_inv M w" and "ht_view w = \<lparr>hm_eq = eqf s, hm_map = table_map s T,
    hm_count = length (concat T), hm_dtors = (ht_keyDtor s, ht_valueDtor s), hm_calls = hw_calls w\<rparr>"
  using assms table_okD(2) [OF assms(2)] by (auto simp: ht_inv_def ht_view_def)

text \<open>Replacing one chain: what has to hold for the table to stay well-formed.\<close>

lemma table_ok_update:
  assumes ok: "table_ok M s T" and i: "i < length T" and sc: "same_config s s'"
    and s': "ht_table s' = Own (T[i := es])" "ht_primeIndex s' = ht_primeIndex s"
      "ht_tableLength s' = ht_tableLength s"
    and es: "\<forall>e \<in> set es. en_hash e = hfun M s (en_key e) \<and> en_key e \<noteq> 0 \<and>
      HASHTABLE_INDEXFOR (ht_tableLength s) (hfun M s (en_key e)) = i"
    and u: "ukeys (eqf s) (concat (T[i := es]))"
  shows "table_ok M s' (T[i := es])"
proof -
  note eqs = same_config_eqs [OF sc, of M]
  have "placed M s' (ht_tableLength s) (T[i := es])"
    unfolding placed_def
  proof (intro conjI allI impI ballI)
    show "length (T[i := es]) = unat (ht_tableLength s)" using table_okD(6) [OF ok] by simp
    fix j e
    assume j: "j < length (T[i := es])" and e: "e \<in> set (T[i := es] ! j)"
    have "en_hash e = hfun M s (en_key e) \<and> en_key e \<noteq> 0 \<and>
        HASHTABLE_INDEXFOR (ht_tableLength s) (hfun M s (en_key e)) = j"
    proof (cases "j = i")
      case True
      with e i es show ?thesis by simp
    next
      case False
      with j e placedD [OF table_okD(3) [OF ok], of j e] show ?thesis by simp
    qed
    with eqs show "en_hash e = hfun M s' (en_key e)" "en_key e \<noteq> 0"
      "HASHTABLE_INDEXFOR (ht_tableLength s) (hfun M s' (en_key e)) = j" by simp_all
  qed
  moreover have "ht_primeIndex s < HashTable_primeTableLength"
    "ht_tableLength s = HashTable_primes ! ht_primeIndex s"
    using ok unfolding table_ok_def by blast+
  ultimately show ?thesis
    using ok s' u eqs sc table_okD(1,5) [OF ok] unfolding table_ok_def same_config_def by metis
qed

lemma lookup_entry_Cons:
  "lookup_entry eq (e # es) k = (if eq k (en_key e) then Some e else lookup_entry eq es k)"
  by (simp add: lookup_entry_def)

lemma HashTable_insert_ok:
  assumes inv: "ht_inv M w" and k: "k \<noteq> 0" and new: "hm_map (ht_view w) k = None"
    and room: "hm_count (ht_view w) + 1 < 2 ^ 32" and mem: "2 \<le> hw_mem w"
  shows "\<exists>w'. HashTable_insert M k v w = Ok (True, w') \<and> ht_inv M w' \<and> hw_mem w \<le> hw_mem w' + 2 \<and>
    ht_view w' = (ht_view w)\<lparr>hm_map := (\<lambda>k'. if hm_eq (ht_view w) k k' then Some (k, v)
      else hm_map (ht_view w) k'), hm_count := hm_count (ht_view w) + 1\<rparr>"
proof -
  obtain s T where w: "hw_self w = Own s" "table_ok M s T" "unat (ht_entryCount s) = length (concat T)"
    "ht_view w = \<lparr>hm_eq = eqf s, hm_map = table_map s T, hm_count = length (concat T),
       hm_dtors = (ht_keyDtor s, ht_valueDtor s), hm_calls = hw_calls w\<rparr>" "ht_valid s = HASHTABLE_VALID"
    using inv by (rule ht_inv_cases)
  define s1 where "s1 = s\<lparr>ht_entryCount := ht_entryCount s + 1\<rparr>"
  have ok1: "table_ok M s1 T" by (rule table_ok_cong [OF w(2)]) (simp_all add: s1_def)
  have sc1: "same_config s s1" by (simp add: s1_def same_config_def)
  have "length (concat T) + 1 < 2 ^ 32" using room w(4) by simp
  then have count1: "unat (ht_entryCount s1) = length (concat T) + 1"
    using w(3) by (simp add: s1_def unat_word_ariths)
  obtain s2 T2 mem2 where s2: "(if ht_entryCount s1 > ht_loadLimit s1
        then omap snd (HashTable_expand s1 (hw_mem w)) else Ok (s1, hw_mem w)) = Ok (s2, mem2)"
    "table_ok M s2 T2" "mset (concat T2) = mset (concat T)" "same_config s1 s2"
    "ht_entryCount s2 = ht_entryCount s1" "hw_mem w \<le> mem2 + 1"
  proof (cases "ht_entryCount s1 > ht_loadLimit s1")
    case True
    with HashTable_expand_ok [OF ok1, of "hw_mem w"] that show ?thesis by auto
  next
    case False
    with ok1 that [of s1 "hw_mem w" T] show ?thesis by (simp add: same_config_def)
  qed
  have mem2: "0 < mem2" using s2(6) mem by simp
  define i where "i = HASHTABLE_INDEXFOR (ht_tableLength s2) (hfun M s2 k)"
  have i: "i < length T2" unfolding i_def by (rule table_ok_bucket [OF s2(2)])
  define e where "e = \<lparr>en_key = k, en_value = v, en_hash = hfun M s2 k\<rparr>"
  define T3 where "T3 = T2[i := e # T2 ! i]"
  define s3 where "s3 = s2\<lparr>ht_table := Own T3\<rparr>"
  have eqs: "eqf s2 = eqf s" "hfun M s2 = hfun M s"
    using same_config_eqs [OF s2(4), of M] same_config_eqs [OF sc1, of M] by simp_all
  have m3: "mset (concat T3) = mset (e # concat T)"
    using mset_concat_update [OF i, of "e # T2 ! i"] s2(3) by (simp add: T3_def)
  have "lookup_entry (eqf s) (concat T) k = None" using new w(4) by (simp add: table_map_def)
  then have u: "ukeys (eqf s) (e # concat T)"
    using table_okD(4) [OF w(2)] by (auto simp: lookup_entry_None e_def)
  have u3: "ukeys (eqf s) (concat T3)"
    by (rule ukeys_mset [OF _ m3 [symmetric] u])
      (use table_okD(7) [OF w(2)] in \<open>blast intro: sympI equivp_symp\<close>)
  have ok3: "table_ok M s3 T3"
    unfolding T3_def
  proof (rule table_ok_update [OF s2(2) i])
    show "\<forall>x \<in> set (e # T2 ! i). en_hash x = hfun M s2 (en_key x) \<and> en_key x \<noteq> 0 \<and>
        HASHTABLE_INDEXFOR (ht_tableLength s2) (hfun M s2 (en_key x)) = i"
      using placedD [OF table_okD(3) [OF s2(2)] i] k by (simp add: e_def i_def)
    show "ukeys (eqf s2) (concat (T2[i := e # T2 ! i]))" using u3 eqs(1) by (simp add: T3_def)
  qed (simp_all add: s3_def T3_def same_config_def)
  define w' where "w' = w\<lparr>hw_self := Own s3, hw_mem := mem2 - 1\<rparr>"
  have "HashTable_insert M k v w = Ok (True, w')"
    using mem2 HashTable_hash_ok [OF s2(2) k] i table_okD(2) [OF s2(2)]
    by (simp only: HashTable_insert_def valid_table_def w(1,5) require_ptr.simps refl ANY_REQUIRE_simps
        Let_def s1_def [symmetric] s2(1) obind.simps prod.case)
      (simp add: bucket_def set_bucket_def i_def [symmetric] w'_def s3_def T3_def e_def)
  moreover have "length (concat T3) = length (concat T) + 1"
    using mset_eq_length [OF m3] by simp
  then have "unat (ht_entryCount s3) = length (concat T3)"
    using count1 s2(5) by (simp add: s3_def)
  moreover have "table_map s3 T3 = (\<lambda>k'. if eqf s k k' then Some (k, v) else table_map s T k')"
  proof
    fix k'
    have "lookup_entry (eqf s) (concat T3) k' = lookup_entry (eqf s) (e # concat T) k'"
      by (rule lookup_entry_mset [OF table_okD(7) [OF w(2)] u m3 [symmetric]])
    moreover have "eqf s k' k = eqf s k k'"
      using table_okD(7) [OF w(2)] by (blast intro: equivp_symp)
    moreover have "eqf s3 = eqf s" using eqs(1) by (simp add: s3_def eqf_def)
    ultimately show "table_map s3 T3 k' = (if eqf s k k' then Some (k, v) else table_map s T k')"
      by (simp add: table_map_def lookup_entry_Cons entry_pair_def) (simp add: e_def)
  qed
  moreover have "eqf s3 = eqf s" "ht_keyDtor s3 = ht_keyDtor s" "ht_valueDtor s3 = ht_valueDtor s"
    using eqs(1) s2(4) sc1 by (simp_all add: s3_def eqf_def same_config_def)
  ultimately show ?thesis
    using ht_invI [of w' s3 M T3] ok3 w(4) \<open>length (concat T3) = length (concat T) + 1\<close> s2(6) mem2
    by (simp add: w'_def cong: if_cong)
qed

lemma HashTable_search_ok:
  assumes inv: "ht_inv M w" and k: "k \<noteq> 0"
  shows "HashTable_search M k w = Ok (case hm_map (ht_view w) k of None \<Rightarrow> 0 | Some p \<Rightarrow> snd p)"
proof -
  obtain s T where w: "hw_self w = Own s" "table_ok M s T"
    "ht_view w = \<lparr>hm_eq = eqf s, hm_map = table_map s T, hm_count = length (concat T),
       hm_dtors = (ht_keyDtor s, ht_valueDtor s), hm_calls = hw_calls w\<rparr>" "ht_valid s = HASHTABLE_VALID"
    "ht_table s = Own T"
    using inv by (rule ht_inv_cases)
  note i = table_ok_bucket [OF w(2), of "hfun M s k"]
  show ?thesis
    using w(1,3,4,5) HashTable_hash_ok [OF w(2) k] i search_chain_ok [OF table_ok_hashed [OF w(2) i], of k]
      lookup_bucket [OF w(2), of k]
    by (simp add: HashTable_search_def valid_table_def bucket_def table_map_def entry_pair_def
        split: option.splits)
qed

lemma find_first_mset:
  "find_first P xs = Some x \<Longrightarrow> mset xs = add_mset x (mset (remove_first P xs))"
  "find_first P xs = Some x \<Longrightarrow> mset (update_first P f xs) + {#x#} = add_mset (f x) (mset xs)"
  by (induction xs) (auto split: if_splits)

lemma set_remove_first: "e \<in> set (remove_first P es) \<Longrightarrow> e \<in> set es"
  by (induction es) (auto split: if_splits)

lemma set_update_first:
  "e \<in> set (update_first P f es) \<Longrightarrow> e \<in> set es \<or> (\<exists>e0 \<in> set es. e = f e0)"
  by (induction es) (auto split: if_splits)

lemma update_first_id: "find_first P es = None \<Longrightarrow> update_first P f es = es"
  by (induction es) (auto split: if_splits)

lemma ukeys_mset_eq:
  assumes "table_ok M s T" and "mset xs = mset ys" and "ukeys (eqf s) xs"
  shows "ukeys (eqf s) ys"
  by (rule ukeys_mset [OF _ assms(2,3)]) (use table_okD(7) [OF assms(1)] in \<open>blast intro: sympI equivp_symp\<close>)

lemma unlink_update:
  assumes ok: "table_ok M s T" and e: "lookup_entry (eqf s) (concat T) k = Some e"
    and i: "i = HASHTABLE_INDEXFOR (ht_tableLength s) (hfun M s k)"
    and T': "T' = T[i := remove_first (\<lambda>e. eqf s k (en_key e)) (T ! i)]"
    and s': "s' = s\<lparr>ht_table := Own T', ht_entryCount := c\<rparr>"
  shows "table_ok M s' T'" and "length (concat T) = Suc (length (concat T'))"
    and "table_map s T' = (\<lambda>k'. if eqf s k k' then None else table_map s T k')"
proof -
  have il: "i < length T" unfolding i by (rule table_ok_bucket [OF ok])
  have "find_first (\<lambda>e. eqf s k (en_key e)) (T ! i) = Some e"
    using e lookup_bucket [OF ok, of k] by (simp add: i lookup_entry_def)
  from find_first_mset(1) [OF this] have m: "mset (concat T) = mset (e # concat T')"
    using mset_concat_update [OF il, of "remove_first (\<lambda>e. eqf s k (en_key e)) (T ! i)"]
    by (simp add: T')
  then show "length (concat T) = Suc (length (concat T'))"
    using mset_eq_length [OF m] by simp
  have u: "ukeys (eqf s) (e # concat T')" by (rule ukeys_mset_eq [OF ok m table_okD(4) [OF ok]])
  show "table_ok M s' T'"
    unfolding T'
  proof (rule table_ok_update [OF ok il])
    show "\<forall>x \<in> set (remove_first (\<lambda>e. eqf s k (en_key e)) (T ! i)). en_hash x = hfun M s (en_key x) \<and>
        en_key x \<noteq> 0 \<and> HASHTABLE_INDEXFOR (ht_tableLength s) (hfun M s (en_key x)) = i"
    proof
      fix x
      assume "x \<in> set (remove_first (\<lambda>e. eqf s k (en_key e)) (T ! i))"
      then have "x \<in> set (T ! i)" by (rule set_remove_first)
      from placedD [OF table_okD(3) [OF ok] il this]
      show "en_hash x = hfun M s (en_key x) \<and> en_key x \<noteq> 0 \<and>
          HASHTABLE_INDEXFOR (ht_tableLength s) (hfun M s (en_key x)) = i" by simp
    qed
    show "ukeys (eqf s) (concat (T[i := remove_first (\<lambda>e. eqf s k (en_key e)) (T ! i)]))"
      using u by (simp add: T')
  qed (simp_all add: s' T' same_config_def)
  show "table_map s T' = (\<lambda>k'. if eqf s k k' then None else table_map s T k')"
  proof
    fix k'
    have ek: "eqf s k (en_key e)" using e by (auto dest: lookup_entry_SomeD)
    have look: "lookup_entry (eqf s) (concat T) k' =
        (if eqf s k' (en_key e) then Some e else lookup_entry (eqf s) (concat T') k')"
      using lookup_entry_mset [OF table_okD(7) [OF ok] u m [symmetric], of k'] by (simp add: lookup_entry_Cons)
    have "eqf s k k' \<longleftrightarrow> eqf s k' (en_key e)"
      using ek table_okD(7) [OF ok] by (meson equivp_symp equivp_transp)
    moreover have "lookup_entry (eqf s) (concat T') k' = None" if "eqf s k' (en_key e)"
      using u that table_okD(7) [OF ok]
      by (auto simp: lookup_entry_None) (meson equivp_symp equivp_transp)
    ultimately show "table_map s T' k' = (if eqf s k k' then None else table_map s T k')"
      using look by (simp add: table_map_def)
  qed
qed

lemma table_map_config: "eqf s' = eqf s \<Longrightarrow> table_map s' T = table_map s T"
  by (rule ext) (simp add: table_map_def)

text \<open>What \<^verbatim>\<open>HashTable_fetch\<close> and \<^verbatim>\<open>HashTable_remove\<close> do to the map, and which destructors
  they call on the entry they unlink.\<close>

definition drop_key :: "nat \<Rightarrow> (nat \<times> nat \<Rightarrow> dtor_call list) \<Rightarrow> hmap \<Rightarrow> hmap" where
  "drop_key k dtors a = (case hm_map a k of
     None \<Rightarrow> a
   | Some p \<Rightarrow> a\<lparr>hm_map := (\<lambda>k'. if hm_eq a k k' then None else hm_map a k'),
       hm_count := hm_count a - 1, hm_calls := hm_calls a @ dtors p\<rparr>)"

definition fetch_dtors :: "hmap \<Rightarrow> nat \<times> nat \<Rightarrow> dtor_call list" where
  "fetch_dtors a p = (if fst (hm_dtors a) then [KeyDtor (fst p)] else [])"

definition remove_dtors :: "hmap \<Rightarrow> nat \<times> nat \<Rightarrow> dtor_call list" where
  "remove_dtors a p = (if fst (hm_dtors a) then [KeyDtor (fst p)] else []) @
     (if snd (hm_dtors a) then [ValueDtor (snd p)] else [])"

lemma unlink_ok:
  assumes inv: "ht_inv M w" and k: "k \<noteq> 0"
    and prog: "\<And>s T. hw_self w = Own s \<Longrightarrow> table_ok M s T \<Longrightarrow> ht_valid s = HASHTABLE_VALID \<Longrightarrow>
      prog = (let i = HASHTABLE_INDEXFOR (ht_tableLength s) (hfun M s k) in
        case lookup_entry (eqf s) (concat T) k of
          None \<Rightarrow> Ok (0, w)
        | Some e \<Rightarrow> Ok (ret (entry_pair e), w\<lparr>hw_self := Own (s\<lparr>
            ht_table := Own (T[i := remove_first (\<lambda>e. eqf s k (en_key e)) (T ! i)]),
            ht_entryCount := ht_entryCount s - 1\<rparr>), hw_calls := hw_calls w @ dtors (entry_pair e)\<rparr>))"
  shows "\<exists>w'. prog = Ok (case hm_map (ht_view w) k of None \<Rightarrow> 0 | Some p \<Rightarrow> ret p, w') \<and> ht_inv M w' \<and>
    hw_mem w' = hw_mem w \<and> ht_view w' = drop_key k dtors (ht_view w)"
proof -
  obtain s T where w: "hw_self w = Own s" "table_ok M s T" "unat (ht_entryCount s) = length (concat T)"
    "ht_view w = \<lparr>hm_eq = eqf s, hm_map = table_map s T, hm_count = length (concat T),
       hm_dtors = (ht_keyDtor s, ht_valueDtor s), hm_calls = hw_calls w\<rparr>" "ht_valid s = HASHTABLE_VALID"
    using inv by (rule ht_inv_cases)
  note prog' = prog [OF w(1,2,5)]
  show ?thesis
  proof (cases "lookup_entry (eqf s) (concat T) k")
    case None
    with prog' inv w(4) show ?thesis by (simp add: table_map_def drop_key_def Let_def)
  next
    case (Some e)
    define i where "i = HASHTABLE_INDEXFOR (ht_tableLength s) (hfun M s k)"
    define T' where "T' = T[i := remove_first (\<lambda>e. eqf s k (en_key e)) (T ! i)]"
    define s' where "s' = s\<lparr>ht_table := Own T', ht_entryCount := ht_entryCount s - 1\<rparr>"
    define w' where "w' = w\<lparr>hw_self := Own s', hw_calls := hw_calls w @ dtors (entry_pair e)\<rparr>"
    note upd = unlink_update [OF w(2) Some i_def T'_def s'_def]
    have count: "unat (ht_entryCount s') = length (concat T')"
      using upd(2) w(3) by (simp add: s'_def unat_sub word_le_nat_alt)
    have e': "eqf s' = eqf s" by (simp add: s'_def eqf_def)
    note view' = ht_invI [of w' s' M T', OF _ upd(1) count]
    have "ht_view w' = drop_key k dtors (ht_view w)"
      using view' w(4) Some upd(2,3) table_map_config [OF e', of T'] e'
      by (simp add: w'_def drop_key_def table_map_def [of s T k] s'_def
          cong: if_cong)
    moreover have "prog = Ok (ret (entry_pair e), w')"
      using prog' Some by (simp add: Let_def i_def T'_def s'_def w'_def)
    ultimately show ?thesis
      using view' Some w(4) by (simp add: w'_def table_map_def)
  qed
qed

lemma HashTable_fetch_ok:
  assumes "ht_inv M w" and "k \<noteq> 0"
  shows "\<exists>w'. HashTable_fetch M k w =
      Ok (case hm_map (ht_view w) k of None \<Rightarrow> 0 | Some p \<Rightarrow> snd p, w') \<and> ht_inv M w' \<and>
    hw_mem w' = hw_mem w \<and> ht_view w' = drop_key k (fetch_dtors (ht_view w)) (ht_view w)"
proof (rule unlink_ok [OF assms])
  fix s T
  assume w: "hw_self w = Own s" "table_ok M s T" "ht_valid s = HASHTABLE_VALID"
  note i = table_ok_bucket [OF w(2), of "hfun M s k"]
  have d: "fst (hm_dtors (ht_view w)) = ht_keyDtor s"
    using w(1) table_okD(2) [OF w(2)] by (simp add: ht_view_def)
  show "HashTable_fetch M k w = (let i = HASHTABLE_INDEXFOR (ht_tableLength s) (hfun M s k) in
        case lookup_entry (eqf s) (concat T) k of
          None \<Rightarrow> Ok (0, w)
        | Some e \<Rightarrow> Ok (snd (entry_pair e), w\<lparr>hw_self := Own (s\<lparr>
            ht_table := Own (T[i := remove_first (\<lambda>e. eqf s k (en_key e)) (T ! i)]),
            ht_entryCount := ht_entryCount s - 1\<rparr>),
            hw_calls := hw_calls w @ fetch_dtors (ht_view w) (entry_pair e)\<rparr>))"
    unfolding lookup_bucket [OF w(2), of k]
    using w HashTable_hash_ok [OF w(2) assms(2)] table_okD(2) [OF w(2)] i
      unlink_chain_ok [OF table_ok_hashed [OF w(2) i], of k]
    by (simp add: HashTable_fetch_def valid_table_def bucket_def set_bucket_def Let_def
        fetch_dtors_def d entry_pair_def split: option.split)
qed

lemma HashTable_remove_ok:
  assumes "ht_inv M w" and "k \<noteq> 0"
  shows "\<exists>w'. HashTable_remove M k w =
      Ok (case hm_map (ht_view w) k of None \<Rightarrow> 0
          | Some p \<Rightarrow> if snd (hm_dtors (ht_view w)) then 0 else snd p, w') \<and> ht_inv M w' \<and>
    hw_mem w' = hw_mem w \<and> ht_view w' = drop_key k (remove_dtors (ht_view w)) (ht_view w)"
proof (rule unlink_ok [OF assms])
  fix s T
  assume w: "hw_self w = Own s" "table_ok M s T" "ht_valid s = HASHTABLE_VALID"
  note i = table_ok_bucket [OF w(2), of "hfun M s k"]
  have d: "hm_dtors (ht_view w) = (ht_keyDtor s, ht_valueDtor s)"
    using w(1) table_okD(2) [OF w(2)] by (simp add: ht_view_def)
  show "HashTable_remove M k w = (let i = HASHTABLE_INDEXFOR (ht_tableLength s) (hfun M s k) in
        case lookup_entry (eqf s) (concat T) k of
          None \<Rightarrow> Ok (0, w)
        | Some e \<Rightarrow> Ok (if snd (hm_dtors (ht_view w)) then 0 else snd (entry_pair e),
            w\<lparr>hw_self := Own (s\<lparr>
            ht_table := Own (T[i := remove_first (\<lambda>e. eqf s k (en_key e)) (T ! i)]),
            ht_entryCount := ht_entryCount s - 1\<rparr>),
            hw_calls := hw_calls w @ remove_dtors (ht_view w) (entry_pair e)\<rparr>))"
    unfolding lookup_bucket [OF w(2), of k]
    using w HashTable_hash_ok [OF w(2) assms(2)] table_okD(2) [OF w(2)] i
      unlink_chain_ok [OF table_ok_hashed [OF w(2) i], of k]
    by (simp add: HashTable_remove_def valid_table_def bucket_def set_bucket_def Let_def
        remove_dtors_def d entry_pair_def split: option.split)
qed

lemma change_update:
  assumes ok: "table_ok M s T" and e: "lookup_entry (eqf s) (concat T) k = Some e"
    and i: "i = HASHTABLE_INDEXFOR (ht_tableLength s) (hfun M s k)"
    and T': "T' = T[i := update_first (\<lambda>e. eqf s k (en_key e)) (en_value_update (\<lambda>_. v)) (T ! i)]"
    and s': "s' = s\<lparr>ht_table := Own T'\<rparr>"
  shows "table_ok M s' T'" and "length (concat T') = length (concat T)"
    and "table_map s T' = (\<lambda>k'. if eqf s k k' then Some (en_key e, v) else table_map s T k')"
proof -
  let ?f = "en_value_update (\<lambda>_. v)"
  have il: "i < length T" unfolding i by (rule table_ok_bucket [OF ok])
  define R where "R = concat (T[i := remove_first (\<lambda>e. eqf s k (en_key e)) (T ! i)])"
  have f: "find_first (\<lambda>e. eqf s k (en_key e)) (T ! i) = Some e"
    using e lookup_bucket [OF ok, of k] by (simp add: i lookup_entry_def)
  have m: "mset (concat T) = mset (e # R)"
    using find_first_mset(1) [OF f] mset_concat_update [OF il, of "remove_first (\<lambda>e. eqf s k (en_key e)) (T ! i)"]
    by (simp add: R_def)
  have "mset (concat T') + {#e#} = mset (concat T) + {#?f e#}"
  proof -
    define U where "U = mset (update_first (\<lambda>e. eqf s k (en_key e)) ?f (T ! i))"
    have "mset (concat T') + mset (T ! i) = mset (concat T) + U"
      unfolding T' U_def by (rule mset_concat_update [OF il])
    moreover have "U + {#e#} = mset (T ! i) + {#?f e#}"
      using find_first_mset(2) [OF f, of ?f] by (simp add: U_def)
    ultimately have "mset (concat T') + {#e#} + mset (T ! i) = mset (concat T) + {#?f e#} + mset (T ! i)"
      by (metis union_assoc union_commute)
    then show ?thesis by (rule add_right_imp_eq)
  qed
  with m have m': "mset (concat T') = mset (?f e # R)" by simp
  show "length (concat T') = length (concat T)"
    using mset_eq_length [OF m] mset_eq_length [OF m'] by simp
  have u: "ukeys (eqf s) (e # R)" by (rule ukeys_mset_eq [OF ok m table_okD(4) [OF ok]])
  then have u1: "ukeys (eqf s) (?f e # R)" by simp
  then have u': "ukeys (eqf s) (concat T')" by (rule ukeys_mset_eq [OF ok m' [symmetric]])
  show "table_ok M s' T'"
    unfolding T'
  proof (rule table_ok_update [OF ok il])
    show "\<forall>x \<in> set (update_first (\<lambda>e. eqf s k (en_key e)) ?f (T ! i)). en_hash x = hfun M s (en_key x) \<and>
        en_key x \<noteq> 0 \<and> HASHTABLE_INDEXFOR (ht_tableLength s) (hfun M s (en_key x)) = i"
    proof
      fix x
      assume "x \<in> set (update_first (\<lambda>e. eqf s k (en_key e)) ?f (T ! i))"
      from set_update_first [OF this] obtain x0 where "x0 \<in> set (T ! i)" "en_key x = en_key x0"
        "en_hash x = en_hash x0" by auto
      with placedD [OF table_okD(3) [OF ok] il, of x0]
      show "en_hash x = hfun M s (en_key x) \<and> en_key x \<noteq> 0 \<and>
          HASHTABLE_INDEXFOR (ht_tableLength s) (hfun M s (en_key x)) = i" by simp
    qed
  qed (use u' in \<open>simp_all add: s' T' same_config_def\<close>)
  show "table_map s T' = (\<lambda>k'. if eqf s k k' then Some (en_key e, v) else table_map s T k')"
  proof
    fix k'
    have ek: "eqf s k (en_key e)" using e by (auto dest: lookup_entry_SomeD)
    have "eqf s k k' \<longleftrightarrow> eqf s k' (en_key e)"
      using ek table_okD(7) [OF ok] by (meson equivp_symp equivp_transp)
    then show "table_map s T' k' = (if eqf s k k' then Some (en_key e, v) else table_map s T k')"
      using lookup_entry_mset [OF table_okD(7) [OF ok] u m [symmetric], of k']
        lookup_entry_mset [OF table_okD(7) [OF ok] u1 m' [symmetric], of k']
      by (simp add: table_map_def lookup_entry_Cons entry_pair_def)
  qed
qed

definition change_key :: "nat \<Rightarrow> nat \<Rightarrow> hmap \<Rightarrow> hmap" where
  "change_key k v a = (case hm_map a k of
     None \<Rightarrow> a
   | Some p \<Rightarrow> a\<lparr>hm_map := (\<lambda>k'. if hm_eq a k k' then Some (fst p, v) else hm_map a k')\<rparr>)"

text \<open>The answer is -1 when the key was found and 0 when it was not.\<close>

lemma HashTable_change_ok:
  assumes inv: "ht_inv M w" and k: "k \<noteq> 0"
  shows "\<exists>w'. HashTable_change M k v w = Ok (if hm_map (ht_view w) k = None then 0 else -1, w') \<and>
    ht_inv M w' \<and> hw_mem w' = hw_mem w \<and> ht_view w' = change_key k v (ht_view w)"
proof -
  obtain s T where w: "hw_self w = Own s" "table_ok M s T" "unat (ht_entryCount s) = length (concat T)"
    "ht_view w = \<lparr>hm_eq = eqf s, hm_map = table_map s T, hm_count = length (concat T),
       hm_dtors = (ht_keyDtor s, ht_valueDtor s), hm_calls = hw_calls w\<rparr>" "ht_valid s = HASHTABLE_VALID"
    "ht_table s = Own T"
    using inv by (rule ht_inv_cases)
  define i where "i = HASHTABLE_INDEXFOR (ht_tableLength s) (hfun M s k)"
  note il = table_ok_bucket [OF w(2), of "hfun M s k", folded i_def]
  define T' where "T' = T[i := update_first (\<lambda>e. eqf s k (en_key e)) (en_value_update (\<lambda>_. v)) (T ! i)]"
  define s' where "s' = s\<lparr>ht_table := Own T'\<rparr>"
  define w' where "w' = w\<lparr>hw_self := Own s'\<rparr>"
  have prog: "HashTable_change M k v w =
      Ok (if lookup_entry (eqf s) (concat T) k = None then 0 else -1, w')"
    unfolding lookup_bucket [OF w(2), of k]
    using w(1,5,6) HashTable_hash_ok [OF w(2) k] il
      change_chain_ok [OF table_ok_hashed [OF w(2) il], of k v]
    by (simp add: HashTable_change_def valid_table_def bucket_def set_bucket_def Let_def
        i_def [symmetric] w'_def s'_def T'_def)
  show ?thesis
  proof (cases "lookup_entry (eqf s) (concat T) k")
    case None
    then have "T' = T"
      unfolding T'_def using lookup_bucket [OF w(2), of k] il
      by (simp add: i_def [symmetric] lookup_entry_def update_first_id)
    then have "w' = w" using w(1,6) by (cases w; cases s) (simp add: w'_def s'_def)
    with prog None inv w(4) show ?thesis by (simp add: table_map_def change_key_def)
  next
    case (Some e)
    note upd = change_update [OF w(2) Some i_def T'_def s'_def]
    have count: "unat (ht_entryCount s') = length (concat T')" using upd(2) w(3) by (simp add: s'_def)
    have e': "eqf s' = eqf s" by (simp add: s'_def eqf_def)
    note view' = ht_invI [of w' s' M T', OF _ upd(1) count]
    have "ht_view w' = change_key k v (ht_view w)"
      using view' w(4) Some upd(2,3) table_map_config [OF e', of T'] e'
      by (simp add: w'_def change_key_def table_map_def [of s T k] entry_pair_def s'_def cong: if_cong)
    with prog Some view' w(4) show ?thesis by (simp add: w'_def table_map_def)
  qed
qed

lemma HashTable_count_ok:
  assumes "ht_inv M w"
  shows "\<exists>n. HashTable_count w = Ok n \<and> unat n = hm_count (ht_view w)"
  using assms
proof (rule ht_inv_cases)
  fix s T
  assume "hw_self w = Own s" "unat (ht_entryCount s) = length (concat T)"
    "ht_view w = \<lparr>hm_eq = eqf s, hm_map = table_map s T, hm_count = length (concat T),
       hm_dtors = (ht_keyDtor s, ht_valueDtor s), hm_calls = hw_calls w\<rparr>" "ht_valid s = HASHTABLE_VALID"
  then show ?thesis by (simp add: HashTable_count_def valid_table_def)
qed

lemma clear_chains_calls:
  "clear_chains s T calls = calls @ concat (map (entry_dtors s) (concat T))"
proof -
  have "clear_chain s es calls = calls @ concat (map (entry_dtors s) es)" for es calls
    by (induction es arbitrary: calls) simp_all
  then show ?thesis by (induction T arbitrary: calls) simp_all
qed

lemma HashTable_clear_ok:
  assumes "ht_inv M w"
  shows "\<exists>s T w' s'. hw_self w = Own s \<and> ht_table s = Own T \<and> HashTable_clear w = Ok w' \<and>
    hw_self w' = Own s' \<and> ht_valid s' = HASHTABLE_INVALID \<and> ht_table s' = Null \<and>
    hw_calls w' = hw_calls w @ concat (map (entry_dtors s) (concat T))"
  using assms
proof (rule ht_inv_cases)
  fix s T
  assume w: "hw_self w = Own s" "ht_valid s = HASHTABLE_VALID" "ht_table s = Own T" "table_ok M s T"
  then show ?thesis
    using table_okD(6) [OF w(4)]
    by (simp add: HashTable_clear_def valid_table_def clear_chains_calls)
qed

subsection \<open>Initialisation\<close>

lemma find_prime_ok:
  assumes "\<exists>p \<in> set ps. m < p"
  shows "\<exists>j < length ps. find_prime ps m d i = (ps ! j, i + j) \<and> m < ps ! j \<and> (\<forall>l < j. ps ! l \<le> m)"
  using assms
proof (induction ps arbitrary: i)
  case (Cons p ps)
  show ?case
  proof (cases "m < p")
    case False
    with Cons obtain j where "j < length ps" "find_prime ps m d (i + 1) = (ps ! j, i + 1 + j)" "m < ps ! j"
      "\<forall>l < j. ps ! l \<le> m"
      by fastforce
    with False show ?thesis
      by (intro exI [of _ "Suc j"]) (auto simp: less_Suc_eq_0_disj)
  qed auto
qed simp

definition fresh_table ::
  "uint32 \<Rightarrow> nat \<Rightarrow> (nat \<Rightarrow> uint32) option \<Rightarrow> (nat \<Rightarrow> nat \<Rightarrow> bool) option \<Rightarrow> bool \<Rightarrow> bool \<Rightarrow> HashTable"
where
  "fresh_table n i hashFunc eqFunc keyDtor valueDtor =
     \<lparr>ht_valid = HASHTABLE_VALID, ht_tableLength = n, ht_table = Own (replicate (unat n) []),
      ht_entryCount = 0, ht_loadLimit = (n * HASHTABLE_DEFAULT_LOADFACTOR) div 100,
      ht_loadFactor = HASHTABLE_DEFAULT_LOADFACTOR, ht_primeIndex = i, ht_hashFunc = hashFunc,
      ht_eqFunc = eqFunc, ht_keyDtor = keyDtor, ht_valueDtor = valueDtor\<rparr>"

definition htw_start :: "nat \<Rightarrow> htw" where
  "htw_start mem = \<lparr>hw_self = Null, hw_mem = mem, hw_calls = []\<rparr>"

text \<open>The length is the smallest number of the prime table above \<open>minSize\<close>, which exists for
  every size the function accepts.\<close>

lemma HashTable_new_init:
  assumes "minSize < push_bit 30 1" and "2 \<le> mem"
  shows "\<exists>i < HashTable_primeTableLength. minSize < HashTable_primes ! i \<and>
    (\<forall>l < i. HashTable_primes ! l \<le> minSize) \<and>
    obind (HashTable_new (htw_start mem)) (HashTable_init minSize hashFunc eqFunc keyDtor valueDtor) =
      Ok (True, \<lparr>hw_self = Own (fresh_table (HashTable_primes ! i) i hashFunc eqFunc keyDtor valueDtor),
                 hw_mem = mem - 2, hw_calls = []\<rparr>)"
proof -
  have "1610612741 \<in> set HashTable_primes" "(push_bit 30 1 :: uint32) < 1610612741"
    by (simp_all add: HashTable_primes_def)
  then have "\<exists>p \<in> set HashTable_primes. minSize < p" using assms(1) less_trans by blast
  from find_prime_ok [OF this, of "HashTable_primes ! 0" 0] obtain j where
    "j < length HashTable_primes" "find_prime HashTable_primes minSize (HashTable_primes ! 0) 0 =
       (HashTable_primes ! j, j)" "minSize < HashTable_primes ! j" "\<forall>l < j. HashTable_primes ! l \<le> minSize"
    by auto
  then show ?thesis
    using assms
    by (intro exI [of _ j]) (simp add: HashTable_new_def htw_start_def HashTable_init_def Let_def
        HashTable_primeTableLength_def fresh_table_def HashTable_zero_def numeral_2_eq_2)
qed

definition good_user_funs :: "memory \<Rightarrow> (nat \<Rightarrow> uint32) option \<Rightarrow> (nat \<Rightarrow> nat \<Rightarrow> bool) option \<Rightarrow> bool" where
  "good_user_funs M hashFunc eqFunc \<longleftrightarrow>
     equivp (case eqFunc of Some f \<Rightarrow> f | None \<Rightarrow> (=)) \<and>
     (\<forall>k k'. (case eqFunc of Some f \<Rightarrow> f | None \<Rightarrow> (=)) k k' \<longrightarrow>
        (case hashFunc of Some f \<Rightarrow> f k | None \<Rightarrow> HashTable_hashGeneric M k 8 0) =
        (case hashFunc of Some f \<Rightarrow> f k' | None \<Rightarrow> HashTable_hashGeneric M k' 8 0))"

lemma HashTable_new_init_ok:
  assumes "minSize < push_bit 30 1" and "2 \<le> mem" and "good_user_funs M hashFunc eqFunc"
  shows "\<exists>w. obind (HashTable_new (htw_start mem)) (HashTable_init minSize hashFunc eqFunc kd vd) =
      Ok (True, w) \<and> ht_inv M w \<and> hw_mem w = mem - 2 \<and>
    ht_view w = \<lparr>hm_eq = (case eqFunc of Some f \<Rightarrow> f | None \<Rightarrow> (=)), hm_map = Map.empty, hm_count = 0,
      hm_dtors = (kd, vd), hm_calls = []\<rparr>"
proof -
  from HashTable_new_init [OF assms(1,2), of hashFunc eqFunc kd vd] obtain i where
    i: "i < HashTable_primeTableLength" and
    run: "obind (HashTable_new (htw_start mem)) (HashTable_init minSize hashFunc eqFunc kd vd) =
      Ok (True, \<lparr>hw_self = Own (fresh_table (HashTable_primes ! i) i hashFunc eqFunc kd vd),
                 hw_mem = mem - 2, hw_calls = []\<rparr>)"
    by blast
  define s where "s = fresh_table (HashTable_primes ! i) i hashFunc eqFunc kd vd"
  define T where "T = replicate (unat (HashTable_primes ! i)) ([] :: HashTableEntry list)"
  have "hfun M s k = (case hashFunc of Some f \<Rightarrow> f k | None \<Rightarrow> HashTable_hashGeneric M k 8 0)" for k
    by (simp add: hfun_def s_def fresh_table_def)
  moreover have e: "eqf s = (case eqFunc of Some f \<Rightarrow> f | None \<Rightarrow> (=))"
    by (simp add: eqf_def s_def fresh_table_def)
  ultimately have "good_funs M s" using assms(3) by (simp add: good_funs_def good_user_funs_def)
  then have ok: "table_ok M s T"
    using i by (simp add: table_ok_def placed_def) (simp add: s_def fresh_table_def T_def)
  have "unat (ht_entryCount s) = length (concat T)" by (simp add: s_def fresh_table_def T_def)
  note inv = ht_invI [of "\<lparr>hw_self = Own s, hw_mem = mem - 2, hw_calls = []\<rparr>" s M T, OF _ ok this]
  have "table_map s T = Map.empty" by (simp add: table_map_def T_def lookup_entry_def fun_eq_iff)
  with run inv e show ?thesis
    by (simp add: s_def [symmetric]) (simp add: s_def fresh_table_def T_def)
qed

subsection \<open>The contract of the table\<close>

datatype ht_op = Put nat nat | Get nat | Fetch nat | Delete nat | Change nat nat | Entries

datatype ht_answer = Flag bool | Pointer nat | Status int | Number nat

fun ht_step :: "memory \<Rightarrow> ht_op \<Rightarrow> htw \<Rightarrow> (ht_answer \<times> htw) outcome" where
  "ht_step M (Put k v) w = omap (map_prod Flag id) (HashTable_insert M k v w)"
| "ht_step M (Get k) w = omap (\<lambda>r. (Pointer r, w)) (HashTable_search M k w)"
| "ht_step M (Fetch k) w = omap (map_prod Pointer id) (HashTable_fetch M k w)"
| "ht_step M (Delete k) w = omap (map_prod Pointer id) (HashTable_remove M k w)"
| "ht_step M (Change k v) w = omap (map_prod Status id) (HashTable_change M k v w)"
| "ht_step M Entries w = omap (\<lambda>r. (Number (unat r), w)) (HashTable_count w)"

fun ht_spec :: "ht_op \<Rightarrow> hmap \<Rightarrow> ht_answer \<times> hmap" where
  "ht_spec (Put k v) a = (Flag True, a\<lparr>hm_map := (\<lambda>k'. if hm_eq a k k' then Some (k, v) else hm_map a k'),
     hm_count := hm_count a + 1\<rparr>)"
| "ht_spec (Get k) a = (Pointer (case hm_map a k of None \<Rightarrow> 0 | Some p \<Rightarrow> snd p), a)"
| "ht_spec (Fetch k) a = (Pointer (case hm_map a k of None \<Rightarrow> 0 | Some p \<Rightarrow> snd p),
     drop_key k (fetch_dtors a) a)"
| "ht_spec (Delete k) a = (Pointer (case hm_map a k of None \<Rightarrow> 0
       | Some p \<Rightarrow> if snd (hm_dtors a) then 0 else snd p), drop_key k (remove_dtors a) a)"
| "ht_spec (Change k v) a = (Status (if hm_map a k = None then 0 else -1), change_key k v a)"
| "ht_spec Entries a = (Number (hm_count a), a)"

fun ht_legal :: "ht_op \<Rightarrow> hmap \<Rightarrow> bool" where
  "ht_legal (Put k v) a \<longleftrightarrow> k \<noteq> 0 \<and> hm_map a k = None \<and> hm_count a + 1 < 2 ^ 32"
| "ht_legal (Get k) a \<longleftrightarrow> k \<noteq> 0"
| "ht_legal (Fetch k) a \<longleftrightarrow> k \<noteq> 0"
| "ht_legal (Delete k) a \<longleftrightarrow> k \<noteq> 0"
| "ht_legal (Change k v) a \<longleftrightarrow> k \<noteq> 0"
| "ht_legal Entries a \<longleftrightarrow> True"

fun ht_cost :: "ht_op \<Rightarrow> nat" where
  "ht_cost (Put k v) = 2"
| "ht_cost _ = 0"

lemma ht_step_ok:
  assumes "ht_inv M w" and "ht_legal p (ht_view w)" and "ht_cost p \<le> hw_mem w"
  shows "\<exists>w'. ht_step M p w = Ok (fst (ht_spec p (ht_view w)), w') \<and> ht_inv M w' \<and>
    ht_view w' = snd (ht_spec p (ht_view w)) \<and> hw_mem w \<le> hw_mem w' + ht_cost p"
proof (cases p)
  case (Put k v)
  with assms HashTable_insert_ok [OF assms(1), of k v] show ?thesis by auto
next
  case (Get k)
  with assms HashTable_search_ok [OF assms(1), of k] show ?thesis by simp
next
  case (Fetch k)
  with assms HashTable_fetch_ok [OF assms(1), of k] show ?thesis by auto
next
  case (Delete k)
  with assms HashTable_remove_ok [OF assms(1), of k] show ?thesis by auto
next
  case (Change k v)
  with assms HashTable_change_ok [OF assms(1), of k v] show ?thesis by auto
next
  case Entries
  with assms HashTable_count_ok [OF assms(1)] show ?thesis by auto
qed

interpretation hashtable: component "ht_step M" ht_spec "ht_inv M" ht_view ht_legal ht_cost hw_mem
  for M
  by unfold_locales (rule ht_step_ok)

subsection \<open>Properties\<close>

text \<open>C7: With a user equality that is an equivalence and a hash that respects it, any sequence of
  insert (of keys that are not in the table), search, fetch, remove, change and count calls on a
  well-formed table returns and answers like a finite map on the classes of equal keys, across all
  the expansions on the way; the destructors are called exactly on the entries that leave the table.\<close>

theorem HashTable_refines_map:
  assumes "ht_inv M w" and "legal_run ht_spec ht_legal ops (ht_view w)"
    and "sum_list (map ht_cost ops) \<le> hw_mem w"
  shows "\<exists>w'. run (ht_step M) ops w = Ok (fst (spec_run ht_spec ops (ht_view w)), w') \<and> ht_inv M w' \<and>
    ht_view w' = snd (spec_run ht_spec ops (ht_view w))"
  using hashtable.run_ok [OF assms] by blast

theorem HashTable_refines_map_witness:
  "\<exists>w w'. obind (HashTable_new (htw_start 10))
       (HashTable_init 100 (Some (\<lambda>k. word_of_nat k)) None True False) = Ok (True, w) \<and>
     run (ht_step (\<lambda>_. 0)) [Put 5 50, Put 198 60, Get 5, Change 5 51, Delete 5, Get 5, Fetch 198, Entries] w =
       Ok ([Flag True, Flag True, Pointer 50, Status (-1), Pointer 51, Pointer 0, Pointer 60, Number 0], w')"
proof -
  have "good_user_funs (\<lambda>_. 0) (Some (\<lambda>k. word_of_nat k)) None"
    by (simp add: good_user_funs_def identity_equivp)
  from HashTable_new_init_ok [OF _ _ this, of 100 10 True False] obtain w where w:
    "obind (HashTable_new (htw_start 10)) (HashTable_init 100 (Some (\<lambda>k. word_of_nat k)) None True False) =
       Ok (True, w)" "ht_inv (\<lambda>_. 0) w" "hw_mem w = 8"
    "ht_view w = \<lparr>hm_eq = (=), hm_map = Map.empty, hm_count = 0, hm_dtors = (True, False), hm_calls = []\<rparr>"
    by auto
  with HashTable_refines_map [of "\<lambda>_. 0" w "[Put 5 50, Put 198 60, Get 5, Change 5 51, Delete 5, Get 5,
      Fetch 198, Entries]"]
  show ?thesis by (auto simp: drop_key_def change_key_def)
qed

text \<open>C8: An expansion that finds memory or not, at any size including the last one, keeps the
  table well-formed and loses, adds or changes no entry.\<close>

theorem HashTable_expand_keeps_entries:
  assumes "table_ok M s T"
  shows "\<exists>b s' T' mem'. HashTable_expand s mem = Ok (b, s', mem') \<and> table_ok M s' T' \<and>
    mset (concat T') = mset (concat T) \<and> table_map s' T' = table_map s T \<and>
    (b \<longleftrightarrow> ht_primeIndex s < 25 \<and> 0 < mem)"
proof -
  obtain b s' T' mem' where e: "HashTable_expand s mem = Ok (b, s', mem')" "table_ok M s' T'"
    "mset (concat T') = mset (concat T)" "same_config s s'"
    using HashTable_expand_ok [OF assms, of mem] by blast
  have "table_map s' T' = table_map s T"
    using same_config_eqs [OF e(4), of M]
      lookup_entry_mset [OF table_okD(7) [OF assms] table_okD(4) [OF assms] e(3) [symmetric]]
    by (intro ext) (simp add: table_map_def)
  moreover have "ht_primeIndex s < 26"
    using assms unfolding table_ok_def HashTable_primeTableLength_def HashTable_primes_def by simp
  then have "b \<longleftrightarrow> ht_primeIndex s < 25 \<and> 0 < mem"
    using e(1) table_okD(1,2) [OF assms]
    by (cases "mem = 0") (auto simp: HashTable_expand_def Let_def HashTable_primeTableLength_def
        HashTable_primes_def outcome_Ok_iffs split: if_splits)
  ultimately show ?thesis using e by blast
qed

theorem HashTable_expand_keeps_entries_witness:
  "\<exists>s' mem'. HashTable_expand (fresh_table 53 0 (Some (\<lambda>k. word_of_nat k)) None False False) 1 =
     Ok (True, s', mem')"
proof -
  define s where "s = fresh_table 53 0 (Some (\<lambda>k. word_of_nat k)) None False False"
  have "hfun (\<lambda>_. 0) s = word_of_nat" "eqf s = (=)"
    by (simp_all add: hfun_def eqf_def s_def fresh_table_def fun_eq_iff)
  then have "table_ok (\<lambda>_. 0) s (replicate 53 [])"
    by (simp add: table_ok_def placed_def good_funs_def identity_equivp)
      (simp add: s_def fresh_table_def HashTable_primeTableLength_def HashTable_primes_def)
  from HashTable_expand_keeps_entries [OF this, of 1] show ?thesis
    by (auto simp: s_def fresh_table_def)
qed

text \<open>Clearing a well-formed table calls the installed destructors once for every entry, in the
  order of the buckets, releases the table and marks the object invalid.\<close>

theorem HashTable_clear_calls_destructors:
  assumes "ht_inv M w"
  shows "\<exists>s T w' s'. hw_self w = Own s \<and> ht_table s = Own T \<and> HashTable_clear w = Ok w' \<and>
    hw_self w' = Own s' \<and> ht_valid s' = HASHTABLE_INVALID \<and> ht_table s' = Null \<and>
    hw_calls w' = hw_calls w @ concat (map (entry_dtors s) (concat T))"
  using HashTable_clear_ok [OF assms] .

theorem HashTable_clear_calls_destructors_witness:
  "\<exists>w w'. obind (HashTable_new (htw_start 10))
       (HashTable_init 0 (Some (\<lambda>k. word_of_nat k)) None True True) = Ok (True, w) \<and>
     HashTable_clear w = Ok w'"
proof -
  have "good_user_funs (\<lambda>_. 0) (Some (\<lambda>k. word_of_nat k)) None"
    by (simp add: good_user_funs_def identity_equivp)
  from HashTable_new_init_ok [OF _ _ this, of 0 10 True True] obtain w where w:
    "obind (HashTable_new (htw_start 10)) (HashTable_init 0 (Some (\<lambda>k. word_of_nat k)) None True True) =
       Ok (True, w)" "ht_inv (\<lambda>_. 0) w"
    by auto
  with HashTable_clear_calls_destructors [of "\<lambda>_. 0" w] show ?thesis by blast
qed

lemma loadLimit_exact_iff:
  assumes "i < HashTable_primeTableLength"
  shows "unat ((HashTable_primes ! i * HASHTABLE_DEFAULT_LOADFACTOR) div 100) =
      unat (HashTable_primes ! i) * 65 div 100 \<longleftrightarrow> unat (HashTable_primes ! i) < 100663319"
proof -
  have "\<forall>p \<in> set HashTable_primes.
      unat ((p * HASHTABLE_DEFAULT_LOADFACTOR) div 100) = unat p * 65 div 100 \<longleftrightarrow> unat p < 100663319"
    by (simp add: HashTable_primes_def HASHTABLE_DEFAULT_LOADFACTOR_def)
  with assms show ?thesis by (simp add: HashTable_primeTableLength_def)
qed

lemma loadLimit_le:
  assumes "i < HashTable_primeTableLength"
  shows "unat ((HashTable_primes ! i * HASHTABLE_DEFAULT_LOADFACTOR) div 100) \<le>
      unat (HashTable_primes ! i) * 65 div 100"
proof -
  have "\<forall>p \<in> set HashTable_primes.
      unat ((p * HASHTABLE_DEFAULT_LOADFACTOR) div 100) \<le> unat p * 65 div 100"
    by (simp add: HashTable_primes_def HASHTABLE_DEFAULT_LOADFACTOR_def)
  with assms show ?thesis by (simp add: HashTable_primeTableLength_def)
qed

text \<open>C9: Initialisation picks the first length of the prime table above the requested size: the length
  is the prime at the stored index, every prime before it is too small, and the table
  has that many empty buckets. The load
  limit \<^verbatim>\<open>( size * loadFactor ) / 100\<close> is computed in 32 bits: it is 65 percent of the length
  exactly for the lengths below 100663319; for the last five primes the product wraps
  around and the limit is too small, so that such a table expands too early.\<close>

theorem HashTable_init_length_and_limit:
  assumes "minSize < push_bit 30 1" and "2 \<le> mem"
  shows "\<exists>w s. obind (HashTable_new (htw_start mem)) (HashTable_init minSize hashFunc eqFunc kd vd) =
      Ok (True, w) \<and> hw_self w = Own s \<and> ht_primeIndex s < HashTable_primeTableLength \<and>
    ht_tableLength s = HashTable_primes ! ht_primeIndex s \<and> minSize < ht_tableLength s \<and>
    (\<forall>l < ht_primeIndex s. HashTable_primes ! l \<le> minSize) \<and>
    ht_table s = Own (replicate (unat (ht_tableLength s)) []) \<and> ht_entryCount s = 0 \<and>
    unat (ht_loadLimit s) \<le> unat (ht_tableLength s) * 65 div 100 \<and>
    (unat (ht_loadLimit s) = unat (ht_tableLength s) * 65 div 100 \<longleftrightarrow>
     unat (ht_tableLength s) < 100663319)"
proof -
  from HashTable_new_init [OF assms, of hashFunc eqFunc kd vd] obtain i where i:
    "i < HashTable_primeTableLength" "minSize < HashTable_primes ! i"
    "\<forall>l < i. HashTable_primes ! l \<le> minSize"
    "obind (HashTable_new (htw_start mem)) (HashTable_init minSize hashFunc eqFunc kd vd) =
      Ok (True, \<lparr>hw_self = Own (fresh_table (HashTable_primes ! i) i hashFunc eqFunc kd vd),
                 hw_mem = mem - 2, hw_calls = []\<rparr>)"
    by blast
  with loadLimit_exact_iff [OF i(1)] loadLimit_le [OF i(1)] show ?thesis by (simp add: fresh_table_def)
qed

theorem HashTable_init_length_and_limit_witness:
  "\<exists>w s. obind (HashTable_new (htw_start 5)) (HashTable_init 67108864 None None False False) =
      Ok (True, w) \<and> hw_self w = Own s \<and> ht_tableLength s = HashTable_primes ! ht_primeIndex s \<and>
    67108864 < ht_tableLength s"
  using HashTable_init_length_and_limit [of 67108864 5 None None False False] by auto

text \<open>An expansion reverses the order of entries that stay together: the entries of one chain
  whose hashes lead to the same new bucket arrive there in reverse order. If a key has been
  inserted twice, which the code allows, \<^verbatim>\<open>HashTable_search\<close> finds the newer value before the
  expansion and the older one after it.\<close>

theorem HashTable_expand_reverses_chain:
  assumes "\<forall>e \<in> set es. HASHTABLE_INDEXFOR n (en_hash e) = i" and "i < length N"
  shows "expand_chain n es N = Ok (N[i := rev es @ N ! i])"
  using assms
  by (induction es arbitrary: N) (auto simp: bucket_def set_bucket_def Let_def)

theorem HashTable_expand_reverses_chain_witness:
  "let old = \<lparr>en_key = 1, en_value = 10, en_hash = 7\<rparr>; new = \<lparr>en_key = 1, en_value = 20, en_hash = 7\<rparr>
   in expand_chain 97 [new, old] (replicate 97 []) = Ok ((replicate 97 [])[7 := [old, new]])"
  using HashTable_expand_reverses_chain [of "[\<lparr>en_key = 1, en_value = 20, en_hash = 7\<rparr>,
      \<lparr>en_key = 1, en_value = 10, en_hash = 7\<rparr>]" 97 7 "replicate 97 []"]
  by (simp add: HASHTABLE_INDEXFOR_def)

end
