(* ===== verification/Hash_Iter.thy ===== *)
theory Hash_Iter
  imports Hash_Table_Correct
begin

text \<open>
  \<^verbatim>\<open>HashTableIterator\<close> (src/src/HashTableIterator.c). \<open>it_entry\<close> is the chain from the
  current entry on (empty for the null pointer), \<open>it_parent\<close> the part of the chain up to
  the parent of the current entry (empty for the null pointer); \<open>it_table\<close> says whether
  the pointer to the table is set. The table itself is passed to the operations.
\<close>

definition HASHTABLEITERATOR_VALID :: ulong where "HASHTABLEITERATOR_VALID = 0x5fda75e1"
definition HASHTABLEITERATOR_INVALID :: ulong where "HASHTABLEITERATOR_INVALID = 0xafab5a3b"

record HashTableIterator =
  it_valid :: ulong
  it_table :: bool
  it_entry :: "HashTableEntry list"
  it_parent :: "HashTableEntry list"
  it_index :: uint32
  it_initialized :: bool

definition HashTableIterator_zero :: HashTableIterator where
  "HashTableIterator_zero = \<lparr>it_valid = 0, it_table = False, it_entry = [], it_parent = [],
     it_index = 0, it_initialized = False\<rparr>"

definition HashTableIterator_new :: "nat \<Rightarrow> (HashTableIterator owned \<times> nat) outcome" where
  "HashTableIterator_new mem =
     (let (p, mem) = ANY_TALLOC HashTableIterator_zero mem
      in ANY_REQUIRE (p \<noteq> Null) (Ok (p, mem)))"

definition with_iterator ::
  "HashTableIterator owned \<Rightarrow> (HashTableIterator \<Rightarrow> 'a outcome) \<Rightarrow> 'a outcome" where
  "with_iterator self k =
     require_ptr self (\<lambda>t. ANY_REQUIRE (it_valid t = HASHTABLEITERATOR_VALID) (k t))"

definition HashTableIterator_init ::
  "HashTableIterator owned \<Rightarrow> htw \<Rightarrow> (bool \<times> HashTableIterator owned) outcome" where
  "HashTableIterator_init self w =
     require_ptr self (\<lambda>t. ANY_REQUIRE (hw_self w \<noteq> Null)
       (Ok (True, Own (t\<lparr>it_table := True, it_entry := [], it_parent := [], it_index := 0,
          it_initialized := False, it_valid := HASHTABLEITERATOR_VALID\<rparr>))))"

text \<open>The loops that look for the first bucket from \<open>j\<close> on that is not empty.\<close>

function scan_buckets ::
  "HashTableEntry list list \<Rightarrow> nat \<Rightarrow> nat \<Rightarrow> (nat \<times> HashTableEntry list) option outcome" where
  "scan_buckets T j tableLength =
     (if j < tableLength
      then obind (bucket T j) (\<lambda>next.
             if next = [] then scan_buckets T (j + 1) tableLength else Ok (Some (j, next)))
      else Ok None)"
  by pat_completeness auto
termination by (relation "measure (\<lambda>(T, j, n). n - j)") auto

definition HashTableIterator_first :: "HashTableIterator owned \<Rightarrow> htw \<Rightarrow> HashTableIterator owned outcome" where
  "HashTableIterator_first self w =
     with_iterator self (\<lambda>t. ANY_REQUIRE (it_table t)
       (obind (HashTable_length w) (\<lambda>tableLength.
        let t = t\<lparr>it_index := tableLength, it_entry := [], it_parent := [], it_initialized := False\<rparr> in
        obind (HashTable_count w) (\<lambda>count.
        if count \<noteq> 0
        then deref (hw_self w) (\<lambda>s. deref (ht_table s) (\<lambda>T.
             obind (scan_buckets T 0 (unat tableLength)) (\<lambda>r.
             Ok (Own (case r of
                 None \<Rightarrow> t\<lparr>it_initialized := True\<rparr>
               | Some (i, es) \<Rightarrow> t\<lparr>it_entry := es, it_index := word_of_nat i, it_initialized := True\<rparr>)))))
        else Ok (Own t)))))"

definition HashTableIterator_getKey :: "HashTableIterator owned \<Rightarrow> nat outcome" where
  "HashTableIterator_getKey self =
     with_iterator self (\<lambda>t.
       if it_initialized t
       then (case it_entry t of [] \<Rightarrow> Fault | e # _ \<Rightarrow> Ok (en_key e))
       else Ok 0)"

definition HashTableIterator_getValue :: "HashTableIterator owned \<Rightarrow> nat outcome" where
  "HashTableIterator_getValue self =
     with_iterator self (\<lambda>t.
       if it_initialized t
       then (case it_entry t of [] \<Rightarrow> Fault | e # _ \<Rightarrow> Ok (en_value e))
       else Ok 0)"

definition HashTableIterator_next ::
  "HashTableIterator owned \<Rightarrow> htw \<Rightarrow> (int \<times> HashTableIterator owned) outcome" where
  "HashTableIterator_next self w =
     with_iterator self (\<lambda>t.
       if \<not> it_initialized t
       then obind (HashTableIterator_first self w) (\<lambda>p.
              deref p (\<lambda>t. Ok (if it_entry t \<noteq> [] then -1 else 0, p)))
       else
         case it_entry t of
           [] \<Rightarrow> Ok (0, self)
         | e # next \<Rightarrow>
             if next \<noteq> []
             then Ok (-1, Own (t\<lparr>it_parent := it_parent t @ [e], it_entry := next\<rparr>))
             else
               obind (HashTable_length w) (\<lambda>tableLength.
               let t = t\<lparr>it_parent := [], it_index := it_index t + 1\<rparr>; j = it_index t in
               if tableLength \<le> j then Ok (0, Own (t\<lparr>it_entry := []\<rparr>))
               else
                 deref (hw_self w) (\<lambda>s. deref (ht_table s) (\<lambda>T.
                 obind (scan_buckets T (unat j) (unat tableLength)) (\<lambda>r.
                 case r of
                   None \<Rightarrow> Ok (0, Own (t\<lparr>it_index := tableLength, it_entry := []\<rparr>))
                 | Some (j, next) \<Rightarrow> Ok (-1, Own (t\<lparr>it_index := word_of_nat j, it_entry := next\<rparr>)))))))"

text \<open>Removal unlinks the current entry, advances (reading \<^verbatim>\<open>next\<close> of the unlinked entry) and
  keeps the old parent when the iterator stays in the chain.\<close>

definition HashTableIterator_remove ::
  "HashTableIterator owned \<Rightarrow> htw \<Rightarrow> (HashTableIterator owned \<times> htw) outcome" where
  "HashTableIterator_remove self w =
     with_iterator self (\<lambda>t.
       case it_entry t of
         [] \<Rightarrow> Fault
       | e # next \<Rightarrow>
           deref (hw_self w) (\<lambda>s. deref (ht_table s) (\<lambda>T.
           obind (set_bucket T (unat (it_index t)) (it_parent t @ next)) (\<lambda>T.
           let w = w\<lparr>hw_self := Own (s\<lparr>ht_table := Own T, ht_entryCount := ht_entryCount s - 1\<rparr>)\<rparr> in
           obind (HashTableIterator_next self w) (\<lambda>(_, p).
           deref p (\<lambda>t'.
           Ok (Own (if it_parent t' = it_parent t @ [e] then t'\<lparr>it_parent := it_parent t\<rparr> else t'), w)))))))"

definition HashTableIterator_clear :: "HashTableIterator owned \<Rightarrow> HashTableIterator owned outcome" where
  "HashTableIterator_clear self =
     with_iterator self (\<lambda>t.
       Ok (Own (t\<lparr>it_valid := HASHTABLEITERATOR_INVALID, it_table := False, it_entry := [],
                 it_parent := [], it_index := -1\<rparr>)))"

definition HashTableIterator_delete :: "HashTableIterator owned \<Rightarrow> HashTableIterator owned outcome" where
  "HashTableIterator_delete self = ANY_REQUIRE (self \<noteq> Null) (ANY_FREE self)"

subsection \<open>Iteration visits every entry once\<close>

declare scan_buckets.simps [simp del]

text \<open>The traversal a client writes: call \<^verbatim>\<open>next\<close> until it answers 0, reading key and value
  after every other answer.\<close>

fun traverse :: "nat \<Rightarrow> HashTableIterator owned \<Rightarrow> htw \<Rightarrow> ((nat \<times> nat) list \<times> HashTableIterator owned) outcome"
where
  "traverse 0 self w = Stuck"
| "traverse (Suc fuel) self w =
     obind (HashTableIterator_next self w) (\<lambda>(r, self).
     if r = 0 then Ok ([], self)
     else
       obind (HashTableIterator_getKey self) (\<lambda>k.
       obind (HashTableIterator_getValue self) (\<lambda>v.
       obind (traverse fuel self w) (\<lambda>(ps, self). Ok ((k, v) # ps, self)))))"

lemma scan_buckets_ok:
  "j \<le> length T \<Longrightarrow>
   (\<exists>i es. scan_buckets T j (length T) = Ok (Some (i, es)) \<and> j \<le> i \<and> i < length T \<and> es = T ! i \<and> es \<noteq> [] \<and>
      concat (drop j T) = es @ concat (drop (Suc i) T)) \<or>
   (scan_buckets T j (length T) = Ok None \<and> concat (drop j T) = [])"
proof (induction T j "length T" rule: scan_buckets.induct)
  case (1 T j)
  show ?case
  proof (cases "j < length T")
    case True
    then have d: "concat (drop j T) = T ! j @ concat (drop (Suc j) T)"
      by (metis Cons_nth_drop_Suc concat.simps(2))
    have s: "scan_buckets T j (length T) =
        (if T ! j = [] then scan_buckets T (j + 1) (length T) else Ok (Some (j, T ! j)))"
      using True by (subst scan_buckets.simps) (simp add: bucket_def)
    show ?thesis
    proof (cases "T ! j = []")
      case True
      with "1.hyps" \<open>j < length T\<close> s d show ?thesis
        by (auto simp: bucket_def)
    next
      case False
      with s d \<open>j < length T\<close> show ?thesis by auto
    qed
  next
    case False
    with 1 show ?thesis by (subst scan_buckets.simps) simp
  qed
qed

text \<open>The entries that are still ahead of an iterator that stands on an entry.\<close>

definition ahead :: "HashTableIterator \<Rightarrow> HashTableEntry list list \<Rightarrow> HashTableEntry list" where
  "ahead t T = tl (it_entry t) @ concat (drop (Suc (unat (it_index t))) T)"

definition table_shape :: "htw \<Rightarrow> HashTableEntry list list \<Rightarrow> bool" where
  "table_shape w T \<longleftrightarrow> (\<exists>s. hw_self w = Own s \<and> ht_valid s = HASHTABLE_VALID \<and> ht_table s = Own T \<and>
     length T = unat (ht_tableLength s) \<and> unat (ht_entryCount s) = length (concat T))"

definition on_entry :: "HashTableIterator \<Rightarrow> HashTableEntry list list \<Rightarrow> bool" where
  "on_entry t T \<longleftrightarrow> it_valid t = HASHTABLEITERATOR_VALID \<and> it_initialized t \<and> it_entry t \<noteq> [] \<and>
     unat (it_index t) < length T"

lemma table_shape_cases:
  assumes "table_shape w T"
  obtains s where "hw_self w = Own s" "ht_valid s = HASHTABLE_VALID" "ht_table s = Own T"
    "length T = unat (ht_tableLength s)" "unat (ht_entryCount s) = length (concat T)"
    "HashTable_length w = Ok (ht_tableLength s)" "HashTable_count w = Ok (ht_entryCount s)"
  using assms by (auto simp: table_shape_def HashTable_length_def HashTable_count_def valid_table_def)

lemma unat_word_of_nat32: "i < unat (n :: uint32) \<Longrightarrow> unat (word_of_nat i :: uint32) = i"
proof -
  assume "i < unat n"
  then have "i < 2 ^ 32" using unsigned_less [of n, where 'a = nat] by simp
  then show ?thesis by (simp add: unsigned_of_nat take_bit_nat_eq_self)
qed

lemma next_on_entry:
  assumes "on_entry t T" and "table_shape w T"
  shows "\<exists>t'. (if ahead t T = [] then HashTableIterator_next (Own t) w = Ok (0, Own t') \<and> it_entry t' = []
    else HashTableIterator_next (Own t) w = Ok (-1, Own t') \<and> on_entry t' T \<and>
      hd (it_entry t') # ahead t' T = ahead t T)"
proof -
  obtain s where s: "hw_self w = Own s" "ht_valid s = HASHTABLE_VALID" "ht_table s = Own T"
    "length T = unat (ht_tableLength s)" "HashTable_length w = Ok (ht_tableLength s)"
    using assms(2) by (rule table_shape_cases)
  obtain e nx where e: "it_entry t = e # nx" using assms(1) by (cases "it_entry t") (auto simp: on_entry_def)
  have v: "it_valid t = HASHTABLEITERATOR_VALID" "it_initialized t" "unat (it_index t) < length T"
    using assms(1) by (auto simp: on_entry_def)
  show ?thesis
  proof (cases "nx = []")
    case False
    then show ?thesis
      using v e by (simp add: HashTableIterator_next_def with_iterator_def ahead_def on_entry_def)
  next
    case True
    define j where "j = it_index t + 1"
    have "unat (it_index t) + 1 < 2 ^ 32"
      using v(3) s(4) unsigned_less [of "ht_tableLength s", where 'a = nat] by simp
    then have j: "unat j = Suc (unat (it_index t))" by (simp add: j_def unat_word_ariths)
    have ah: "ahead t T = concat (drop (unat j) T)" using True e by (simp add: ahead_def j)
    show ?thesis
    proof (cases "ht_tableLength s \<le> j")
      case True
      then have "ahead t T = []" using ah s(4) by (simp add: word_le_nat_alt)
      with True \<open>nx = []\<close> v e s(5) show ?thesis
        by (simp add: HashTableIterator_next_def with_iterator_def Let_def j_def [symmetric])
    next
      case False
      then have "unat j \<le> length T" using s(4) by (simp add: word_le_nat_alt)
      from scan_buckets_ok [OF this] show ?thesis
      proof (elim disjE exE conjE)
        fix i es
        assume r: "scan_buckets T (unat j) (length T) = Ok (Some (i, es))" "i < length T" "es = T ! i"
          "es \<noteq> []" "concat (drop (unat j) T) = es @ concat (drop (Suc i) T)"
        have "unat (word_of_nat i :: uint32) = i"
          using r(2) s(4) by (intro unat_word_of_nat32) simp
        with r False \<open>nx = []\<close> v e s ah show ?thesis
          by (simp add: HashTableIterator_next_def with_iterator_def Let_def j_def [symmetric]
              on_entry_def ahead_def)
      next
        assume "scan_buckets T (unat j) (length T) = Ok None" "concat (drop (unat j) T) = []"
        with False \<open>nx = []\<close> v e s ah show ?thesis
          by (simp add: HashTableIterator_next_def with_iterator_def Let_def j_def [symmetric])
      qed
    qed
  qed
qed

lemma next_first:
  assumes "it_valid t = HASHTABLEITERATOR_VALID" and "it_table t" and "\<not> it_initialized t"
    and "table_shape w T"
  shows "\<exists>t'. (if concat T = [] then HashTableIterator_next (Own t) w = Ok (0, Own t') \<and> it_entry t' = []
    else HashTableIterator_next (Own t) w = Ok (-1, Own t') \<and> on_entry t' T \<and>
      hd (it_entry t') # ahead t' T = concat T)"
proof -
  obtain s where s: "hw_self w = Own s" "ht_valid s = HASHTABLE_VALID" "ht_table s = Own T"
    "length T = unat (ht_tableLength s)" "unat (ht_entryCount s) = length (concat T)"
    "HashTable_length w = Ok (ht_tableLength s)" "HashTable_count w = Ok (ht_entryCount s)"
    using assms(4) by (rule table_shape_cases)
  have c: "ht_entryCount s = 0 \<longleftrightarrow> concat T = []"
    using s(5) by (metis length_0_conv unat_eq_0 unsigned_0)
  show ?thesis
  proof (cases "concat T = []")
    case True
    with c assms(1-3) s show ?thesis
      by (simp add: HashTableIterator_next_def HashTableIterator_first_def with_iterator_def Let_def
          del: concat_eq_Nil_conv)
  next
    case False
    from scan_buckets_ok [of 0 T] False obtain i es where
      r: "scan_buckets T 0 (length T) = Ok (Some (i, es))" "i < length T" "es = T ! i"
        "es \<noteq> []" "concat T = es @ concat (drop (Suc i) T)"
      by (auto simp del: concat_eq_Nil_conv)
    have "unat (word_of_nat i :: uint32) = i" using r(2) s(4) by (intro unat_word_of_nat32) simp
    with r False c assms(1-3) s show ?thesis
      by (simp add: HashTableIterator_next_def HashTableIterator_first_def with_iterator_def Let_def
          on_entry_def ahead_def del: concat_eq_Nil_conv)
  qed
qed

lemma get_on_entry:
  "on_entry t T \<Longrightarrow> HashTableIterator_getKey (Own t) = Ok (en_key (hd (it_entry t))) \<and>
     HashTableIterator_getValue (Own t) = Ok (en_value (hd (it_entry t)))"
  by (cases "it_entry t")
    (auto simp: on_entry_def HashTableIterator_getKey_def HashTableIterator_getValue_def with_iterator_def)

lemma traverse_on_entry:
  assumes "on_entry t T" and "table_shape w T" and "length (ahead t T) < fuel"
  shows "\<exists>t'. traverse fuel (Own t) w = Ok (map entry_pair (ahead t T), Own t') \<and> it_entry t' = []"
  using assms(1,3)
proof (induction fuel arbitrary: t)
  case (Suc fuel)
  from next_on_entry [OF Suc.prems(1) assms(2)] obtain t' where
    n: "if ahead t T = [] then HashTableIterator_next (Own t) w = Ok (0, Own t') \<and> it_entry t' = []
    else HashTableIterator_next (Own t) w = Ok (-1, Own t') \<and> on_entry t' T \<and>
      hd (it_entry t') # ahead t' T = ahead t T" ..
  show ?case
  proof (cases "ahead t T = []")
    case False
    with n have n': "HashTableIterator_next (Own t) w = Ok (-1, Own t')" "on_entry t' T"
      "ahead t T = hd (it_entry t') # ahead t' T" by simp_all
    with Suc.prems(2) have "length (ahead t' T) < fuel" by simp
    from Suc.IH [OF n'(2) this] n' get_on_entry [OF n'(2)] show ?thesis
      by (auto simp: entry_pair_def)
  qed (use n in simp)
qed simp

text \<open>C12: Calling \<^verbatim>\<open>next\<close> on a new iterator until it answers 0, and reading key and value after each other
  answer, yields every entry of the table exactly once, in the order of the buckets; then the iterator
  stands on the null pointer. One step more than there are entries is enough.\<close>

theorem HashTableIterator_visits_all:
  assumes "table_shape w T" and "HashTableIterator_init (Own t0) w = Ok (True, p)"
    and "length (concat T) < fuel"
  shows "\<exists>t. traverse fuel p w = Ok (map entry_pair (concat T), Own t) \<and> it_entry t = []"
proof -
  obtain t1 where p: "p = Own t1" and t1: "it_valid t1 = HASHTABLEITERATOR_VALID" "it_table t1"
    "\<not> it_initialized t1"
    using assms(2) by (auto simp: HashTableIterator_init_def outcome_Ok_iffs)
  obtain n where n: "fuel = Suc n" using assms(3) by (cases fuel) auto
  from next_first [OF t1 assms(1)] obtain t' where
    f: "if concat T = [] then HashTableIterator_next (Own t1) w = Ok (0, Own t') \<and> it_entry t' = []
    else HashTableIterator_next (Own t1) w = Ok (-1, Own t') \<and> on_entry t' T \<and>
      hd (it_entry t') # ahead t' T = concat T" ..
  show ?thesis
  proof (cases "concat T = []")
    case True
    with f n p show ?thesis by (simp del: concat_eq_Nil_conv)
  next
    case False
    with f have f': "HashTableIterator_next (Own t1) w = Ok (-1, Own t')" "on_entry t' T"
      "concat T = hd (it_entry t') # ahead t' T" by (simp_all del: concat_eq_Nil_conv)
    with assms(3) n have "length (ahead t' T) < n" by simp
    from traverse_on_entry [OF f'(2) assms(1) this] f' get_on_entry [OF f'(2)] n p show ?thesis
      by (auto simp: entry_pair_def)
  qed
qed

theorem HashTableIterator_visits_all_witness:
  "\<exists>w p t. HashTableIterator_init (Own HashTableIterator_zero) w = Ok (True, p) \<and>
     traverse 3 p w = Ok ([(1, 10), (5, 50)], Own t)"
proof -
  define T where "T = [[], [\<lparr>en_key = 1, en_value = 10, en_hash = 1\<rparr>,
    \<lparr>en_key = 5, en_value = 50, en_hash = 5\<rparr>], [], []]"
  define w where "w = \<lparr>hw_self = Own \<lparr>ht_valid = HASHTABLE_VALID, ht_tableLength = 4, ht_table = Own T,
    ht_entryCount = 2, ht_loadLimit = 2, ht_loadFactor = 65, ht_primeIndex = 0, ht_hashFunc = None,
    ht_eqFunc = None, ht_keyDtor = False, ht_valueDtor = False\<rparr>, hw_mem = 0, hw_calls = []\<rparr>"
  have shape: "table_shape w T" by (simp add: table_shape_def w_def T_def)
  obtain p where p: "HashTableIterator_init (Own HashTableIterator_zero) w = Ok (True, p)"
    by (simp add: HashTableIterator_init_def w_def)
  have "length (concat T) < 3" by (simp add: T_def)
  from HashTableIterator_visits_all [OF shape p this] p show ?thesis
    by (auto simp: T_def entry_pair_def)
qed

text \<open>At the end of the iteration \<^verbatim>\<open>HashTableIterator_getKey\<close> and \<^verbatim>\<open>HashTableIterator_getValue\<close>
  dereference the null pointer, although the header promises that they return it: the iterator is then
  marked as initialised and has no entry.\<close>

theorem HashTableIterator_get_at_end_faults:
  assumes "on_entry t T" and "table_shape w T" and "HashTableIterator_next (Own t) w = Ok (0, p)"
  shows "HashTableIterator_getKey p = Fault \<and> HashTableIterator_getValue p = Fault"
proof -
  from next_on_entry [OF assms(1,2)] obtain t' where t': "p = Own t'" "it_entry t' = []"
    using assms(3) by (auto split: if_splits)
  have "it_valid t' = HASHTABLEITERATOR_VALID" "it_initialized t'"
    using assms(1,3) t'
    by (auto simp: on_entry_def HashTableIterator_next_def with_iterator_def outcome_Ok_iffs Let_def
        split: list.splits if_splits option.splits)
  with t' show ?thesis
    by (simp add: HashTableIterator_getKey_def HashTableIterator_getValue_def with_iterator_def)
qed

theorem HashTableIterator_get_at_end_faults_witness:
  "\<exists>w t p. HashTableIterator_next (Own t) w = Ok (0, p) \<and> HashTableIterator_getKey p = Fault"
proof -
  define T where "T = [[\<lparr>en_key = 1, en_value = 10, en_hash = 1\<rparr>]]"
  define w where "w = \<lparr>hw_self = Own \<lparr>ht_valid = HASHTABLE_VALID, ht_tableLength = 1, ht_table = Own T,
    ht_entryCount = 1, ht_loadLimit = 2, ht_loadFactor = 65, ht_primeIndex = 0, ht_hashFunc = None,
    ht_eqFunc = None, ht_keyDtor = False, ht_valueDtor = False\<rparr>, hw_mem = 0, hw_calls = []\<rparr>"
  define t where "t = \<lparr>it_valid = HASHTABLEITERATOR_VALID, it_table = True, it_entry = T ! 0,
    it_parent = [], it_index = 0, it_initialized = True\<rparr>"
  have "on_entry t T" "table_shape w T" by (simp_all add: on_entry_def table_shape_def t_def w_def T_def)
  moreover obtain p where p: "HashTableIterator_next (Own t) w = Ok (0, p)"
    by (simp add: HashTableIterator_next_def with_iterator_def t_def w_def T_def HashTable_length_def
        valid_table_def Let_def)
  ultimately show ?thesis using HashTableIterator_get_at_end_faults [of t T w p] by blast
qed

end
