(* ===== verification/Array_List.thy ===== *)
theory Array_List
  imports Locks
begin

unbundle bit_operations_syntax

text \<open>
  \<^verbatim>\<open>ArrayList\<close> (src/src/ArrayList.c): a growing array of pointers guarded by a mutex.

  The buffer is a list of 64 bit words whose length is its capacity. \<^verbatim>\<open>count\<close> and \<^verbatim>\<open>free\<close> are
  32 bit signed integers; an arithmetic overflow of them is undefined in C and is a
  fault here. \<^verbatim>\<open>ArrayList_remove\<close> calls \<^verbatim>\<open>Any_memmove\<close> with a number of bytes, so the
  move is modelled on the bytes of the buffer (little endian).
\<close>

record ArrayList =
  al_valid :: bool
  al_mutex :: "Mutex owned"
  al_free :: int
  al_count :: int
  al_buffer :: "ulong list owned"

record alw =
  aw_self :: "ArrayList owned"
  aw_mem :: nat

definition ArrayList_zero :: ArrayList where
  "ArrayList_zero = \<lparr>al_valid = False, al_mutex = Null, al_free = 0, al_count = 0, al_buffer = Null\<rparr>"

definition int32 :: "int \<Rightarrow> (int \<Rightarrow> 'a outcome) \<Rightarrow> 'a outcome" where
  "int32 i k = defined_if (fits32 i) (k i)"

text \<open>\<^verbatim>\<open>self->buffer[ i ]\<close>\<close>

definition buffer_get :: "ArrayList \<Rightarrow> int \<Rightarrow> ulong outcome" where
  "buffer_get s i = deref (al_buffer s) (\<lambda>b. defined_if (0 \<le> i \<and> i < int (length b)) (Ok (b ! nat i)))"

definition buffer_set :: "ArrayList \<Rightarrow> int \<Rightarrow> ulong \<Rightarrow> ArrayList outcome" where
  "buffer_set s i x = deref (al_buffer s) (\<lambda>b. defined_if (0 \<le> i \<and> i < int (length b))
     (Ok (s\<lparr>al_buffer := Own (b[nat i := x])\<rparr>)))"

definition ArrayList_allocate :: "alw \<Rightarrow> alw outcome" where
  "ArrayList_allocate w =
     require_ptr (aw_self w) (\<lambda>s.
       int32 (al_count s * 2) (\<lambda>newSize.
       let newSize = (if newSize = 0 then 50 else newSize);
           (newBuffer, mem) = ANY_TALLOC (replicate (nat newSize) 0) (aw_mem w) in
       ANY_REQUIRE (newBuffer \<noteq> Null)
         (obind
            (if al_buffer s \<noteq> Null
             then ANY_REQUIRE (al_count s < newSize)
                    (deref (al_buffer s) (\<lambda>b.
                     deref newBuffer (\<lambda>nb.
                     defined_if (nat (al_count s) \<le> length b)
                       (Ok (Own (take (nat (al_count s)) b @ drop (nat (al_count s)) nb))))))
             else Ok newBuffer) (\<lambda>buf.
          Ok (w\<lparr>aw_self := Own (s\<lparr>al_buffer := buf, al_free := newSize - al_count s\<rparr>),
                aw_mem := mem\<rparr>)))))"

definition ArrayList_new :: "alw \<Rightarrow> alw" where
  "ArrayList_new w =
     (let (p, mem) = ANY_TALLOC ArrayList_zero (aw_mem w) in w\<lparr>aw_self := p, aw_mem := mem\<rparr>)"

definition ArrayList_delete :: "alw \<Rightarrow> alw outcome" where
  "ArrayList_delete w = obind (ANY_FREE (aw_self w)) (\<lambda>p. Ok (w\<lparr>aw_self := p\<rparr>))"

definition ArrayList_init :: "alw \<Rightarrow> alw outcome" where
  "ArrayList_init w =
     require_ptr (aw_self w) (\<lambda>s.
       let s = s\<lparr>al_free := 0, al_count := 0, al_buffer := Null\<rparr> in
       obind (Mutex_new (aw_mem w)) (\<lambda>(mx, mem).
       ANY_REQUIRE (mx \<noteq> Null)
         (obind (Mutex_init mx MUTEX_PRIVATE) (\<lambda>(status, mx).
          ANY_REQUIRE status
            (Ok (w\<lparr>aw_self := Own (s\<lparr>al_mutex := mx, al_valid := True\<rparr>), aw_mem := mem\<rparr>))))))"

definition ArrayList_clear :: "alw \<Rightarrow> alw outcome" where
  "ArrayList_clear w =
     require_ptr (aw_self w) (\<lambda>s.
       obind (ANY_FREE (al_buffer s)) (\<lambda>_.
       let s = s\<lparr>al_buffer := Null, al_free := 0, al_count := 0\<rparr> in
       obind (Mutex_clear (al_mutex s)) (\<lambda>mx.
       obind (Mutex_delete mx) (\<lambda>_.
       Ok (w\<lparr>aw_self := Own (s\<lparr>al_mutex := Null\<rparr>)\<rparr>)))))"

text \<open>The operations run between \<^verbatim>\<open>Mutex_lock\<close> and \<^verbatim>\<open>Mutex_unlock\<close>; both must succeed.\<close>

definition locked :: "(alw \<Rightarrow> ('a \<times> alw) outcome) \<Rightarrow> alw \<Rightarrow> ('a \<times> alw) outcome" where
  "locked body w =
     deref (aw_self w) (\<lambda>s.
       obind (Mutex_lock (al_mutex s)) (\<lambda>(status, mx).
       ANY_REQUIRE (status = 0)
         (obind (body (w\<lparr>aw_self := Own (s\<lparr>al_mutex := mx\<rparr>)\<rparr>)) (\<lambda>(r, w).
          deref (aw_self w) (\<lambda>s.
          obind (Mutex_unlock (al_mutex s)) (\<lambda>(status, mx).
          ANY_REQUIRE (status = 0) (Ok (r, w\<lparr>aw_self := Own (s\<lparr>al_mutex := mx\<rparr>)\<rparr>))))))))"

definition ArrayList_length :: "alw \<Rightarrow> (int \<times> alw) outcome" where
  "ArrayList_length = locked (\<lambda>w. deref (aw_self w) (\<lambda>s. Ok (al_count s, w)))"

definition ArrayList_push :: "ulong \<Rightarrow> alw \<Rightarrow> (unit \<times> alw) outcome" where
  "ArrayList_push item w =
     ANY_REQUIRE (aw_self w \<noteq> Null)
       (locked (\<lambda>w.
          deref (aw_self w) (\<lambda>s.
          obind (if al_free s \<le> 0 then ArrayList_allocate w else Ok w) (\<lambda>w.
          deref (aw_self w) (\<lambda>s.
          obind (buffer_set s (al_count s) item) (\<lambda>s.
          int32 (al_count s + 1) (\<lambda>count.
          Ok ((), w\<lparr>aw_self := Own (s\<lparr>al_count := count, al_free := al_free s - 1\<rparr>)\<rparr>)))))) ) w)"

definition ArrayList_pop :: "alw \<Rightarrow> (ulong \<times> alw) outcome" where
  "ArrayList_pop w =
     ANY_REQUIRE (aw_self w \<noteq> Null)
       (locked (\<lambda>w.
          deref (aw_self w) (\<lambda>s.
          if al_count s > 0
          then let s = s\<lparr>al_count := al_count s - 1\<rparr> in
               obind (buffer_get s (al_count s)) (\<lambda>x.
               int32 (al_free s + 1) (\<lambda>free. Ok (x, w\<lparr>aw_self := Own (s\<lparr>al_free := free\<rparr>)\<rparr>)))
          else Ok (0, w))) w)"

subsection \<open>Moving bytes\<close>

definition word_bytes :: "ulong \<Rightarrow> byte list" where
  "word_bytes x = map (\<lambda>j. ucast (drop_bit (8 * j) x)) [0..<8]"

fun bytes_word :: "byte list \<Rightarrow> ulong" where
  "bytes_word [] = 0"
| "bytes_word (b # bs) = ucast b OR push_bit 8 (bytes_word bs)"

definition buffer_bytes :: "ulong list \<Rightarrow> byte list" where
  "buffer_bytes b = concat (map word_bytes b)"

definition bytes_buffer :: "nat \<Rightarrow> byte list \<Rightarrow> ulong list" where
  "bytes_buffer n bs = map (\<lambda>i. bytes_word (take 8 (drop (8 * i) bs))) [0..<n]"

definition Any_memmove :: "nat \<Rightarrow> nat \<Rightarrow> nat \<Rightarrow> byte list \<Rightarrow> byte list outcome" where
  "Any_memmove dst src n bs =
     defined_if (dst + n \<le> length bs \<and> src + n \<le> length bs)
       (Ok (take dst bs @ take n (drop src bs) @ drop (dst + n) bs))"

fun remove_loop :: "nat \<Rightarrow> int \<Rightarrow> ulong \<Rightarrow> ArrayList \<Rightarrow> ArrayList outcome" where
  "remove_loop 0 i item s = Ok s"
| "remove_loop (Suc n) i item s =
     (if i < al_count s
      then obind (buffer_get s i) (\<lambda>x.
           if x = item
           then deref (al_buffer s) (\<lambda>b.
                obind (Any_memmove (8 * nat i) (8 * nat (i + 1)) (nat (al_count s - i)) (buffer_bytes b)) (\<lambda>bs.
                int32 (al_free s + 1) (\<lambda>free.
                Ok (s\<lparr>al_buffer := Own (bytes_buffer (length b) bs), al_count := al_count s - 1,
                      al_free := free\<rparr>))))
           else remove_loop n (i + 1) item s)
      else Ok s)"

text \<open>The loop runs at most \<^verbatim>\<open>count\<close> times.\<close>

definition ArrayList_remove :: "ulong \<Rightarrow> alw \<Rightarrow> (unit \<times> alw) outcome" where
  "ArrayList_remove item w =
     ANY_REQUIRE (aw_self w \<noteq> Null)
       (locked (\<lambda>w.
          deref (aw_self w) (\<lambda>s.
          obind (remove_loop (nat (al_count s)) 0 item s) (\<lambda>s.
          Ok ((), w\<lparr>aw_self := Own s\<rparr>)))) w)"

definition ArrayList_get :: "int \<Rightarrow> alw \<Rightarrow> (ulong \<times> alw) outcome" where
  "ArrayList_get index =
     locked (\<lambda>w.
       deref (aw_self w) (\<lambda>s.
       if 0 \<le> index \<and> index < al_count s
       then obind (buffer_get s index) (\<lambda>x. Ok (x, w))
       else Ok (0, w)))"

definition ArrayList_reset :: "alw \<Rightarrow> (unit \<times> alw) outcome" where
  "ArrayList_reset w =
     ANY_REQUIRE (aw_self w \<noteq> Null)
       (locked (\<lambda>w.
          deref (aw_self w) (\<lambda>s.
          int32 (al_free s + al_count s) (\<lambda>free.
          Ok ((), w\<lparr>aw_self := Own (s\<lparr>al_free := free, al_count := 0\<rparr>)\<rparr>)))) w)"

end
