(* ===== verification/Array_List_Correct.thy ===== *)
theory Array_List_Correct
  imports Array_List Interfaces
begin

text \<open>
  Correctness of \<^verbatim>\<open>ArrayList\<close>: the operations answer like a list with a capacity, where
  \<^verbatim>\<open>ArrayList_remove\<close> may only be used for the last item; what it does to the
  other items; and when it reads behind its buffer.
\<close>

unbundle bit_operations_syntax

subsection \<open>Moving bytes in an array of words\<close>

lemma bytes_word_upt:
  "bytes_word (map (\<lambda>j. ucast (drop_bit (8 * j) x)) [k..<k + m]) = take_bit (8 * m) (drop_bit (8 * k) x)"
proof (induction m arbitrary: k)
  case (Suc m)
  have "[k..<k + Suc m] = k # [Suc k..<Suc k + m]" by (simp add: upt_conv_Cons)
  then have "bytes_word (map (\<lambda>j. ucast (drop_bit (8 * j) x)) [k..<k + Suc m]) =
      ucast (ucast (drop_bit (8 * k) x) :: byte) OR push_bit 8 (take_bit (8 * m) (drop_bit (8 * Suc k) x))"
    by (simp only: list.map bytes_word.simps Suc.IH)
  also have "\<dots> = take_bit (8 * Suc m) (drop_bit (8 * k) x)"
    by (rule bit_word_eqI) (auto simp: bit_simps)
  finally show ?case .
qed simp

lemma bytes_word_bytes [simp]: "bytes_word (word_bytes x) = x"
  using bytes_word_upt [of x 0 8] by (simp add: word_bytes_def take_bit_word_eq_self)

lemma length_word_bytes [simp]: "length (word_bytes x) = 8"
  by (simp add: word_bytes_def)

lemma length_buffer_bytes [simp]: "length (buffer_bytes b) = 8 * length b"
  by (induction b) (simp_all add: buffer_bytes_def)

lemma buffer_bytes_word: "j < length b \<Longrightarrow> take 8 (drop (8 * j) (buffer_bytes b)) = word_bytes (b ! j)"
proof (induction b arbitrary: j)
  case (Cons x b)
  then show ?case by (cases j) (auto simp: buffer_bytes_def)
qed simp

lemma memmove_nth:
  assumes "dst + n \<le> length bs" and "src + n \<le> length bs" and "p < length bs"
  shows "(take dst bs @ take n (drop src bs) @ drop (dst + n) bs) ! p =
    (if dst \<le> p \<and> p < dst + n then bs ! (src + (p - dst)) else bs ! p)"
proof -
  have "length (take dst bs) = dst" "length (take n (drop src bs)) = n" using assms by simp_all
  with assms show ?thesis by (auto simp: nth_append)
qed

lemma memmove_word:
  fixes b :: "ulong list"
  defines "bs \<equiv> buffer_bytes b"
  assumes "8 * (i + 1) + n \<le> 8 * length b" and "j < length b"
  defines "r \<equiv> take (8 * i) bs @ take n (drop (8 * (i + 1)) bs) @ drop (8 * i + n) bs"
  shows "j < i \<or> i + (n + 7) div 8 \<le> j \<Longrightarrow> bytes_buffer (length b) r ! j = b ! j"
    and "i \<le> j \<Longrightarrow> j < i + n div 8 \<Longrightarrow> bytes_buffer (length b) r ! j = b ! Suc j"
proof -
  have l: "length bs = 8 * length b" by (simp add: bs_def)
  have lr: "length r = 8 * length b" using assms(2) l by (simp add: r_def)
  have nth: "r ! p = (if 8 * i \<le> p \<and> p < 8 * i + n then bs ! (p + 8) else bs ! p)" if "p < 8 * length b" for p
    unfolding r_def using assms(2) l that by (subst memmove_nth) (auto simp: add.commute add.left_commute)
  have r: "bytes_buffer (length b) r ! j = bytes_word (take 8 (drop (8 * j) r))"
    using assms(3) by (simp add: bytes_buffer_def)
  show "bytes_buffer (length b) r ! j = b ! j" if "j < i \<or> i + (n + 7) div 8 \<le> j"
  proof -
    have "take 8 (drop (8 * j) r) = take 8 (drop (8 * j) bs)"
      using assms(3) lr l that by (intro nth_equalityI) (auto simp: nth)
    then show ?thesis using r assms(3) by (simp add: bs_def buffer_bytes_word)
  qed
  show "bytes_buffer (length b) r ! j = b ! Suc j" if "i \<le> j" "j < i + n div 8"
  proof -
    have "take 8 (drop (8 * j) r) = take 8 (drop (8 * Suc j) bs)"
      using assms(2,3) lr l that by (intro nth_equalityI) (auto simp: nth algebra_simps)
    moreover have "Suc j < length b" using assms(2) that by simp
    ultimately show ?thesis using r buffer_bytes_word [of "Suc j" b] by (simp add: bs_def)
  qed
qed


subsection \<open>Invariant and view\<close>

record alist =
  as_items :: "ulong list"
  as_free :: nat

definition al_ok :: "ArrayList \<Rightarrow> bool" where
  "al_ok s \<longleftrightarrow> mutex_free (al_mutex s) \<and> 0 \<le> al_count s \<and> 0 \<le> al_free s \<and>
     al_count s + al_free s < 2 ^ 31 \<and>
     (case al_buffer s of
        Null \<Rightarrow> al_count s = 0 \<and> al_free s = 0
      | Own b \<Rightarrow> int (length b) = al_count s + al_free s
      | Dangling \<Rightarrow> False)"

definition al_inv :: "alw \<Rightarrow> bool" where
  "al_inv w \<longleftrightarrow> (\<exists>s. aw_self w = Own s \<and> al_ok s)"

definition al_items :: "ArrayList \<Rightarrow> ulong list" where
  "al_items s = (case al_buffer s of Own b \<Rightarrow> take (nat (al_count s)) b | _ \<Rightarrow> [])"

definition al_view :: "alw \<Rightarrow> alist" where
  "al_view w = (case aw_self w of
     Own s \<Rightarrow> \<lparr>as_items = al_items s, as_free = nat (al_free s)\<rparr>
   | _ \<Rightarrow> \<lparr>as_items = [], as_free = 0\<rparr>)"

lemma al_ok_cases:
  assumes "al_ok s"
  obtains (empty) "al_buffer s = Null" "al_count s = 0" "al_free s = 0" "mutex_free (al_mutex s)"
  | (buffer) xs ys where "al_buffer s = Own (xs @ ys)" "al_count s = int (length xs)"
      "al_free s = int (length ys)" "length xs + length ys < 2 ^ 31" "mutex_free (al_mutex s)"
proof (cases "al_buffer s")
  case (Own b)
  define xs where "xs = take (nat (al_count s)) b"
  define ys where "ys = drop (nat (al_count s)) b"
  from assms Own have "al_buffer s = Own (xs @ ys)" "al_count s = int (length xs)"
    "al_free s = int (length ys)" "length xs + length ys < 2 ^ 31" "mutex_free (al_mutex s)"
    unfolding al_ok_def xs_def ys_def by auto
  then show ?thesis by (rule buffer)
qed (use assms empty in \<open>auto simp: al_ok_def\<close>)

lemma al_view_Own [simp]:
  "aw_self w = Own s \<Longrightarrow> al_view w = \<lparr>as_items = al_items s, as_free = nat (al_free s)\<rparr>"
  by (simp add: al_view_def)

lemma fits32_small [simp]: "0 \<le> i \<Longrightarrow> i < 2 ^ 31 \<Longrightarrow> fits32 i"
  by (simp add: fits32_def)

lemma int32_small [simp]: "0 \<le> i \<Longrightarrow> i < 2147483648 \<Longrightarrow> int32 i k = k i"
  by (simp add: int32_def fits32_def)

text \<open>An operation that works on the object while it holds the mutex.\<close>

lemma locked_ok:
  assumes "aw_self w = Own s" and "mutex_free (al_mutex s)"
    and "body (w\<lparr>aw_self := Own (s\<lparr>al_mutex := mx_set MxHeld (al_mutex s)\<rparr>)\<rparr>) =
      Ok (r, w'\<lparr>aw_self := Own (s'\<lparr>al_mutex := mx_set MxHeld (al_mutex s)\<rparr>)\<rparr>)"
  shows "locked body w = Ok (r, w'\<lparr>aw_self := Own (s'\<lparr>al_mutex := al_mutex s\<rparr>)\<rparr>)"
  using assms by (simp add: locked_def)


subsection \<open>The operations\<close>

lemma al_inv_cases:
  assumes "al_inv w"
  obtains (empty) s where "aw_self w = Own s" "al_buffer s = Null" "al_count s = 0" "al_free s = 0"
      "mutex_free (al_mutex s)" "al_view w = \<lparr>as_items = [], as_free = 0\<rparr>"
  | (buffer) s xs ys where "aw_self w = Own s" "al_buffer s = Own (xs @ ys)" "al_count s = int (length xs)"
      "al_free s = int (length ys)" "length xs + length ys < 2 ^ 31" "mutex_free (al_mutex s)"
      "al_view w = \<lparr>as_items = xs, as_free = length ys\<rparr>"
proof -
  from assms obtain s where s: "aw_self w = Own s" "al_ok s" by (auto simp: al_inv_def)
  from s(2) show ?thesis
    by (cases rule: al_ok_cases) (use s empty buffer in \<open>auto simp: al_items_def\<close>)
qed

lemma al_invI:
  "al_buffer s = Own b \<Longrightarrow> int (length b) = al_count s + al_free s \<Longrightarrow> 0 \<le> al_count s \<Longrightarrow> 0 \<le> al_free s \<Longrightarrow>
   length b < 2 ^ 31 \<Longrightarrow> mutex_free (al_mutex s) \<Longrightarrow> al_inv (w\<lparr>aw_self := Own s\<rparr>)"
  by (simp add: al_inv_def al_ok_def)

definition grown :: "ulong list \<Rightarrow> nat" where
  "grown xs = (if xs = [] then 50 else length xs * 2)"

lemma nat_int_arith [simp]:
  "nat (int n * 2) = n * 2" "nat (int n + 1) = Suc n" "n * 2 - n = n" "Suc n - n = Suc 0"
  by simp_all

lemma take_1_update: "xs \<noteq> [] \<Longrightarrow> take (Suc 0) (xs[0 := x]) = [x]"
  by (cases xs) simp_all

lemma ArrayList_push_ok:
  assumes "al_inv w" and "as_free (al_view w) = 0 \<Longrightarrow> 0 < aw_mem w"
    and "2 * length (as_items (al_view w)) < 2 ^ 31"
  shows "\<exists>w'. ArrayList_push item w = Ok ((), w') \<and> al_inv w' \<and> aw_mem w \<le> aw_mem w' + 1 \<and>
    al_view w' = \<lparr>as_items = as_items (al_view w) @ [item],
      as_free = (if as_free (al_view w) = 0 then grown (as_items (al_view w)) - length (as_items (al_view w))
        else as_free (al_view w)) - 1\<rparr>"
  using assms(1)
proof (cases rule: al_inv_cases)
  case (empty s)
  with assms(2) have "0 < aw_mem w" by simp
  with empty show ?thesis
    unfolding ArrayList_push_def
    by (subst locked_ok [where s = s and r = "()" and w' = "w\<lparr>aw_mem := aw_mem w - 1\<rparr>"
          and s' = "s\<lparr>al_buffer := Own ((replicate 50 0)[0 := item]), al_count := 1, al_free := 49\<rparr>"])
      (auto simp: ArrayList_allocate_def buffer_set_def al_inv_def al_ok_def al_items_def grown_def Let_def
          take_1_update)
next
  case (buffer s xs ys)
  show ?thesis
  proof (cases ys)
    case Nil
    with assms(2,3) buffer have m: "0 < aw_mem w" "2 * length xs < 2 ^ 31" by simp_all
    let ?ys = "replicate (grown xs - length xs) (0 :: ulong)"
    have g: "int (length xs) < int (grown xs)" "grown xs < 2 ^ 31" using m(2) by (auto simp: grown_def)
    from m buffer Nil g show ?thesis
      unfolding ArrayList_push_def
      by (subst locked_ok [where s = s and r = "()" and w' = "w\<lparr>aw_mem := aw_mem w - 1\<rparr>"
            and s' = "s\<lparr>al_buffer := Own ((xs @ ?ys)[length xs := item]), al_count := int (length xs) + 1,
              al_free := int (grown xs) - int (length xs) - 1\<rparr>"])
        (auto simp: ArrayList_allocate_def buffer_set_def al_inv_def al_ok_def al_items_def grown_def Let_def
          drop_replicate list_update_append take_1_update)
  next
    case (Cons y zs)
    with buffer show ?thesis
      unfolding ArrayList_push_def
      by (subst locked_ok [where s = s and r = "()" and w' = w
            and s' = "s\<lparr>al_buffer := Own ((xs @ ys)[length xs := item]), al_count := int (length xs) + 1,
              al_free := int (length ys) - 1\<rparr>"])
        (auto simp: buffer_set_def al_inv_def al_ok_def al_items_def Let_def list_update_append)
  qed
qed

lemma ArrayList_pop_ok:
  assumes "al_inv w"
  shows "\<exists>w'. ArrayList_pop w = Ok (if as_items (al_view w) = [] then 0 else last (as_items (al_view w)), w') \<and>
    al_inv w' \<and> aw_mem w' = aw_mem w \<and>
    al_view w' = (if as_items (al_view w) = [] then al_view w
      else \<lparr>as_items = butlast (as_items (al_view w)), as_free = as_free (al_view w) + 1\<rparr>)"
  using assms
proof (cases rule: al_inv_cases)
  case (empty s)
  then show ?thesis
    unfolding ArrayList_pop_def
    by (subst locked_ok [where s = s and r = 0 and w' = w and s' = s])
      (auto simp: al_inv_def al_ok_def al_items_def)
next
  case (buffer s xs ys)
  show ?thesis
  proof (cases xs rule: rev_cases)
    case Nil
    with buffer show ?thesis
      unfolding ArrayList_pop_def
      by (subst locked_ok [where s = s and r = 0 and w' = w and s' = s])
        (auto simp: al_inv_def al_ok_def al_items_def)
  next
    case (snoc xs' x)
    with buffer show ?thesis
      unfolding ArrayList_pop_def
      by (subst locked_ok [where s = s and r = x and w' = w
            and s' = "s\<lparr>al_count := int (length xs'), al_free := int (length ys) + 1\<rparr>"])
        (auto simp: buffer_get_def nth_append Let_def al_inv_def al_ok_def al_items_def)
  qed
qed

lemma ArrayList_length_ok:
  assumes "al_inv w"
  shows "ArrayList_length w = Ok (int (length (as_items (al_view w))), w)"
  using assms
proof (cases rule: al_inv_cases)
  case (empty s)
  then show ?thesis unfolding ArrayList_length_def
    by (subst locked_ok [where s = s and r = 0 and w' = w and s' = s]) auto
next
  case (buffer s xs ys)
  then show ?thesis unfolding ArrayList_length_def
    by (subst locked_ok [where s = s and r = "int (length xs)" and w' = w and s' = s]) auto
qed

lemma ArrayList_get_ok:
  assumes "al_inv w"
  shows "ArrayList_get i w =
    Ok (if 0 \<le> i \<and> i < int (length (as_items (al_view w))) then as_items (al_view w) ! nat i else 0, w)"
  using assms
proof (cases rule: al_inv_cases)
  case (empty s)
  then show ?thesis unfolding ArrayList_get_def
    by (subst locked_ok [where s = s and r = 0 and w' = w and s' = s]) auto
next
  case (buffer s xs ys)
  then show ?thesis unfolding ArrayList_get_def
    by (subst locked_ok [where s = s and w' = w and s' = s
          and r = "if 0 \<le> i \<and> i < int (length xs) then xs ! nat i else 0"])
      (auto simp: buffer_get_def nth_append)
qed

lemma ArrayList_reset_ok:
  assumes "al_inv w"
  shows "\<exists>w'. ArrayList_reset w = Ok ((), w') \<and> al_inv w' \<and> aw_mem w' = aw_mem w \<and>
    al_view w' = \<lparr>as_items = [], as_free = as_free (al_view w) + length (as_items (al_view w))\<rparr>"
  using assms
proof (cases rule: al_inv_cases)
  case (empty s)
  then show ?thesis unfolding ArrayList_reset_def
    by (subst locked_ok [where s = s and r = "()" and w' = w and s' = s])
      (auto simp: al_inv_def al_ok_def al_items_def)
next
  case (buffer s xs ys)
  then show ?thesis unfolding ArrayList_reset_def
    by (subst locked_ok [where s = s and r = "()" and w' = w
          and s' = "s\<lparr>al_free := int (length ys) + int (length xs), al_count := 0\<rparr>"])
      (auto simp: al_inv_def al_ok_def al_items_def)
qed


subsection \<open>Removing an item\<close>

text \<open>What the loop does when it finds the item at index \<open>j\<close>.\<close>

definition move_down :: "nat \<Rightarrow> ArrayList \<Rightarrow> ulong list \<Rightarrow> ArrayList outcome" where
  "move_down j s b =
     obind (Any_memmove (8 * j) (8 * (j + 1)) (nat (al_count s) - j) (buffer_bytes b)) (\<lambda>bs.
     Ok (s\<lparr>al_buffer := Own (bytes_buffer (length b) bs), al_count := al_count s - 1,
           al_free := al_free s + 1\<rparr>))"

lemma remove_loop_absent:
  "al_buffer s = Own (xs @ ys) \<Longrightarrow> al_count s = int (length xs) \<Longrightarrow> item \<notin> set xs \<Longrightarrow>
   remove_loop n (int i) item s = Ok s"
proof (induction n arbitrary: i)
  case (Suc n)
  from Suc.IH [of "Suc i"] Suc.prems show ?case
    by (auto simp: buffer_get_def nth_append add.commute)
qed simp

lemma remove_loop_hit:
  assumes "al_buffer s = Own (as @ item # bs @ ys)" and "al_count s = int (length as + Suc (length bs))"
    and "item \<notin> set as" and "al_free s = int (length ys)" and "length as + length bs + length ys < 2 ^ 31 - 1"
  shows "i \<le> length as \<Longrightarrow> length as - i < n \<Longrightarrow>
    remove_loop n (int i) item s = move_down (length as) s (as @ item # bs @ ys)"
proof (induction n arbitrary: i)
  case (Suc n)
  show ?case
  proof (cases "i = length as")
    case True
    have "nat (1 + int (length as)) = Suc (length as)" "nat (1 + int (length bs)) = Suc (length bs)"
      "nat (1 + (int (length as) + int (length bs))) - length as = Suc (length bs)"
      by simp_all
    with True assms show ?thesis
      by (simp add: buffer_get_def nth_append move_down_def add.commute)
  next
    case False
    with Suc.prems Suc.IH [of "Suc i"] assms show ?thesis
      by (auto simp: buffer_get_def nth_append add.commute)
  qed
qed simp

lemma move_down_ok:
  assumes "al_buffer s = Own (as @ item # bs @ ys)" and "al_count s = int (length as + Suc (length bs))"
    and "al_free s = int (length ys)" and "length as + length bs + length ys < 2 ^ 31 - 1"
  shows "bs = [] \<Longrightarrow> ys = [] \<Longrightarrow> move_down (length as) s (as @ item # bs @ ys) = Fault"
    and "bs \<noteq> [] \<or> ys \<noteq> [] \<Longrightarrow> \<exists>b. move_down (length as) s (as @ item # bs @ ys) =
        Ok (s\<lparr>al_buffer := Own b, al_count := int (length as + length bs), al_free := int (length ys) + 1\<rparr>) \<and>
      length b = length as + Suc (length bs) + length ys \<and> take (length as) b = as \<and>
      (\<forall>k < Suc (length bs) div 8. b ! (length as + k) = bs ! k) \<and>
      (\<forall>k < length bs. (length bs + 8) div 8 \<le> k \<longrightarrow> b ! (length as + k) = (item # bs) ! k)"
proof -
  let ?b = "as @ item # bs @ ys" and ?i = "length as" and ?n = "Suc (length bs)"
  have n: "nat (al_count s) - ?i = ?n" using assms(2) by simp
  show "move_down ?i s ?b = Fault" if "bs = []" "ys = []"
    unfolding move_down_def n Any_memmove_def using that by simp
  assume ne: "bs \<noteq> [] \<or> ys \<noteq> []"
  let ?r = "take (8 * ?i) (buffer_bytes ?b) @ take ?n (drop (8 * (?i + 1)) (buffer_bytes ?b)) @
    drop (8 * ?i + ?n) (buffer_bytes ?b)"
  define b where "b = bytes_buffer (length ?b) ?r"
  have fits: "8 * (?i + 1) + ?n \<le> 8 * length ?b"
    using ne by (cases bs; cases ys) auto
  then have m: "move_down ?i s ?b =
      Ok (s\<lparr>al_buffer := Own b, al_count := int (?i + length bs), al_free := int (length ys) + 1\<rparr>)"
    unfolding move_down_def n Any_memmove_def using assms by (simp add: b_def)
  have keep: "j < length ?b \<Longrightarrow> j < ?i \<or> ?i + (?n + 7) div 8 \<le> j \<Longrightarrow> b ! j = ?b ! j"
    and shift: "j < length ?b \<Longrightarrow> ?i \<le> j \<Longrightarrow> j < ?i + ?n div 8 \<Longrightarrow> b ! j = ?b ! Suc j" for j
    unfolding b_def by (rule memmove_word [OF fits]; assumption)+
  have l: "length b = length ?b" by (simp add: b_def bytes_buffer_def)
  have "take ?i b = as"
    by (rule nth_equalityI) (use l keep in \<open>auto simp: nth_append\<close>)
  moreover have "b ! (?i + k) = bs ! k" if "k < ?n div 8" for k
    using shift [of "?i + k"] that by (simp add: nth_append) linarith
  moreover have "b ! (?i + k) = (item # bs) ! k" if "k < length bs" "(length bs + 8) div 8 \<le> k" for k
    using keep [of "?i + k"] that by (auto simp: nth_append nth_Cons split: nat.split)
  ultimately show "\<exists>b. move_down ?i s ?b =
        Ok (s\<lparr>al_buffer := Own b, al_count := int (length as + length bs), al_free := int (length ys) + 1\<rparr>) \<and>
      length b = length as + Suc (length bs) + length ys \<and> take (length as) b = as \<and>
      (\<forall>k < Suc (length bs) div 8. b ! (length as + k) = bs ! k) \<and>
      (\<forall>k < length bs. (length bs + 8) div 8 \<le> k \<longrightarrow> b ! (length as + k) = (item # bs) ! k)"
    using m l by (intro exI [of _ b]) auto
qed


lemma split_view:
  assumes "al_inv w" and "as_items (al_view w) = as @ item # bs"
  obtains s ys where "aw_self w = Own s" "al_buffer s = Own (as @ item # bs @ ys)"
    "al_count s = int (length as + Suc (length bs))" "al_free s = int (length ys)"
    "length as + length bs + length ys < 2 ^ 31 - 1" "mutex_free (al_mutex s)"
    "as_free (al_view w) = length ys"
  using assms(1)
proof (cases rule: al_inv_cases)
  case (buffer s xs ys)
  with assms(2) that [of s ys] show ?thesis by simp
qed (use assms(2) in simp)

lemma ArrayList_remove_absent:
  assumes "al_inv w" and "item \<notin> set (as_items (al_view w))"
  shows "ArrayList_remove item w = Ok ((), w)"
  using assms(1)
proof (cases rule: al_inv_cases)
  case (empty s)
  then show ?thesis unfolding ArrayList_remove_def
    by (subst locked_ok [where s = s and r = "()" and w' = w and s' = s]) auto
next
  case (buffer s xs ys)
  let ?s = "s\<lparr>al_mutex := mx_set MxHeld (al_mutex s)\<rparr>"
  have "remove_loop n 0 item ?s = Ok ?s" for n
    using remove_loop_absent [of ?s xs ys item n 0] buffer assms(2) by simp
  with buffer show ?thesis unfolding ArrayList_remove_def
    by (subst locked_ok [where s = s and r = "()" and w' = w and s' = s]) auto
qed

lemma ArrayList_remove_found:
  assumes "al_inv w" and "as_items (al_view w) = as @ item # bs" and "item \<notin> set as"
    and "bs \<noteq> [] \<or> 0 < as_free (al_view w)"
  shows "\<exists>w' cs. ArrayList_remove item w = Ok ((), w') \<and> al_inv w' \<and> aw_mem w' = aw_mem w \<and>
    al_view w' = \<lparr>as_items = as @ cs, as_free = as_free (al_view w) + 1\<rparr> \<and> length cs = length bs \<and>
    (\<forall>k < Suc (length bs) div 8. cs ! k = bs ! k) \<and>
    (\<forall>k < length bs. (length bs + 8) div 8 \<le> k \<longrightarrow> cs ! k = (item # bs) ! k)"
proof -
  obtain s ys where s: "aw_self w = Own s" "al_buffer s = Own (as @ item # bs @ ys)"
    "al_count s = int (length as + Suc (length bs))" "al_free s = int (length ys)"
    "length as + length bs + length ys < 2 ^ 31 - 1" "mutex_free (al_mutex s)"
    "as_free (al_view w) = length ys"
    using assms(1,2) by (rule split_view)
  let ?s = "s\<lparr>al_mutex := mx_set MxHeld (al_mutex s)\<rparr>"
  have pre: "al_buffer ?s = Own (as @ item # bs @ ys)" "al_count ?s = int (length as + Suc (length bs))"
    "al_free ?s = int (length ys)" "length as + length bs + length ys < 2 ^ 31 - 1"
    "bs \<noteq> [] \<or> ys \<noteq> []"
    using s assms(4) by auto
  obtain b where b: "move_down (length as) ?s (as @ item # bs @ ys) =
      Ok (?s\<lparr>al_buffer := Own b, al_count := int (length as + length bs), al_free := int (length ys) + 1\<rparr>)"
    "length b = length as + Suc (length bs) + length ys" "take (length as) b = as"
    "\<forall>k < Suc (length bs) div 8. b ! (length as + k) = bs ! k"
    "\<forall>k < length bs. (length bs + 8) div 8 \<le> k \<longrightarrow> b ! (length as + k) = (item # bs) ! k"
    using move_down_ok(2) [OF pre(1-4) pre(5)] by blast
  define s' where
    "s' = s\<lparr>al_buffer := Own b, al_count := int (length as + length bs), al_free := int (length ys) + 1\<rparr>"
  define cs where "cs = take (length bs) (drop (length as) b)"
  have "remove_loop (nat (al_count s)) 0 item ?s = Ok (s'\<lparr>al_mutex := mx_set MxHeld (al_mutex s)\<rparr>)"
    using remove_loop_hit [OF pre(1,2) assms(3) pre(3,4), of 0 "nat (al_count s)"] b(1) s(3)
    by (simp add: s'_def)
  then have "ArrayList_remove item w = Ok ((), w\<lparr>aw_self := Own s'\<rparr>)"
    unfolding ArrayList_remove_def using s
    by (subst locked_ok [where s = s and r = "()" and w' = w and s' = s']) (auto simp: s'_def)
  moreover have "al_inv (w\<lparr>aw_self := Own s'\<rparr>)"
    by (rule al_invI [of _ b]) (use s b(2) in \<open>auto simp: s'_def\<close>)
  moreover have "take (length as + length bs) b = as @ cs"
    using b(2,3) by (simp add: cs_def take_add)
  then have "al_view (w\<lparr>aw_self := Own s'\<rparr>) = \<lparr>as_items = as @ cs, as_free = length ys + 1\<rparr>"
    by (simp add: s'_def al_items_def flip: of_nat_add)
  moreover have "length cs = length bs" "\<And>k. k < length bs \<Longrightarrow> cs ! k = b ! (length as + k)"
    using b(2) by (simp_all add: cs_def)
  ultimately show ?thesis
    using b(4,5) s(7) by (intro exI [of _ "w\<lparr>aw_self := Own s'\<rparr>"] exI [of _ cs]) auto
qed

lemma ArrayList_remove_fault:
  assumes "al_inv w" and "as_items (al_view w) = as @ [item]" and "item \<notin> set as"
    and "as_free (al_view w) = 0"
  shows "ArrayList_remove item w = Fault"
proof -
  obtain s ys where s: "aw_self w = Own s" "al_buffer s = Own (as @ item # [] @ ys)"
    "al_count s = int (length as + Suc (length ([] :: ulong list)))" "al_free s = int (length ys)"
    "length as + length ([] :: ulong list) + length ys < 2 ^ 31 - 1" "mutex_free (al_mutex s)"
    "as_free (al_view w) = length ys"
    using assms(1,2) by (rule split_view)
  let ?s = "s\<lparr>al_mutex := mx_set MxHeld (al_mutex s)\<rparr>"
  have pre: "al_buffer ?s = Own (as @ item # [] @ ys)"
    "al_count ?s = int (length as + Suc (length ([] :: ulong list)))" "al_free ?s = int (length ys)"
    "length as + length ([] :: ulong list) + length ys < 2 ^ 31 - 1"
    using s by simp_all
  have "ys = []" using s(7) assms(4) by simp
  with remove_loop_hit [OF pre(1,2) assms(3) pre(3,4), of 0 "nat (al_count s)"] move_down_ok(1) [OF pre]
  have "remove_loop (nat (al_count s)) 0 item ?s = Fault"
    using s(3) by simp
  with s show ?thesis by (simp add: ArrayList_remove_def locked_def)
qed

subsection \<open>The contract\<close>

datatype al_op = Push ulong | Pop | Get int | Length | Reset | Remove ulong

datatype al_answer = Done | Item ulong | Number int

fun al_step :: "al_op \<Rightarrow> alw \<Rightarrow> (al_answer \<times> alw) outcome" where
  "al_step (Push x) w = omap (\<lambda>(_, w). (Done, w)) (ArrayList_push x w)"
| "al_step Pop w = omap (\<lambda>(x, w). (Item x, w)) (ArrayList_pop w)"
| "al_step (Get i) w = omap (\<lambda>(x, w). (Item x, w)) (ArrayList_get i w)"
| "al_step Length w = omap (\<lambda>(n, w). (Number n, w)) (ArrayList_length w)"
| "al_step Reset w = omap (\<lambda>(_, w). (Done, w)) (ArrayList_reset w)"
| "al_step (Remove x) w = omap (\<lambda>(_, w). (Done, w)) (ArrayList_remove x w)"

fun al_spec :: "al_op \<Rightarrow> alist \<Rightarrow> al_answer \<times> alist" where
  "al_spec (Push x) a = (Done, \<lparr>as_items = as_items a @ [x],
     as_free = (if as_free a = 0 then grown (as_items a) - length (as_items a) else as_free a) - 1\<rparr>)"
| "al_spec Pop a =
     (if as_items a = [] then (Item 0, a)
      else (Item (last (as_items a)), \<lparr>as_items = butlast (as_items a), as_free = as_free a + 1\<rparr>))"
| "al_spec (Get i) a =
     (Item (if 0 \<le> i \<and> i < int (length (as_items a)) then as_items a ! nat i else 0), a)"
| "al_spec Length a = (Number (int (length (as_items a))), a)"
| "al_spec Reset a = (Done, \<lparr>as_items = [], as_free = as_free a + length (as_items a)\<rparr>)"
| "al_spec (Remove x) a =
     (Done, if x \<in> set (as_items a)
            then \<lparr>as_items = remove1 x (as_items a), as_free = as_free a + 1\<rparr> else a)"

text \<open>An item may be removed when it is not there, or is only there as the last one and there is
  a free slot behind it.\<close>

fun al_legal :: "al_op \<Rightarrow> alist \<Rightarrow> bool" where
  "al_legal (Push x) a \<longleftrightarrow> 2 * length (as_items a) < 2 ^ 31"
| "al_legal (Remove x) a \<longleftrightarrow>
     x \<in> set (as_items a) \<longrightarrow> x = last (as_items a) \<and> x \<notin> set (butlast (as_items a)) \<and> 0 < as_free a"
| "al_legal _ a \<longleftrightarrow> True"

fun al_cost :: "al_op \<Rightarrow> nat" where
  "al_cost (Push x) = 1"
| "al_cost _ = 0"

lemma al_step_ok:
  assumes "al_inv w" and "al_legal p (al_view w)" and "al_cost p \<le> aw_mem w"
  shows "\<exists>w'. al_step p w = Ok (fst (al_spec p (al_view w)), w') \<and> al_inv w' \<and>
    al_view w' = snd (al_spec p (al_view w)) \<and> aw_mem w \<le> aw_mem w' + al_cost p"
proof (cases p)
  case (Push x)
  with ArrayList_push_ok [OF assms(1), of x] assms(2,3) show ?thesis by auto
next
  case Pop
  with ArrayList_pop_ok [OF assms(1)] show ?thesis by (auto split: if_splits)
next
  case (Remove x)
  show ?thesis
  proof (cases "x \<in> set (as_items (al_view w))")
    case True
    with Remove assms(2) obtain as where as: "as_items (al_view w) = as @ [x]" "x \<notin> set as"
        "0 < as_free (al_view w)"
      by (cases "as_items (al_view w)" rule: rev_cases) auto
    with ArrayList_remove_found [OF assms(1) as(1) as(2)] Remove show ?thesis
      by (auto simp: remove1_append)
  next
    case False
    with Remove assms(1) show ?thesis by (simp add: ArrayList_remove_absent)
  qed
qed (use assms(1) ArrayList_get_ok ArrayList_length_ok ArrayList_reset_ok [OF assms(1)] in auto)

interpretation arraylist: component al_step al_spec al_inv al_view al_legal al_cost aw_mem
  by unfold_locales (use al_step_ok in blast)

definition alw_start :: "nat \<Rightarrow> alw" where
  "alw_start mem = \<lparr>aw_self = Null, aw_mem = mem\<rparr>"

lemma ArrayList_init_ok:
  assumes "2 \<le> mem"
  shows "\<exists>w. ArrayList_init (ArrayList_new (alw_start mem)) = Ok w \<and> al_inv w \<and>
    al_view w = \<lparr>as_items = [], as_free = 0\<rparr> \<and> aw_mem w = mem - 2"
  using assms
  by (auto simp: ArrayList_init_def ArrayList_new_def alw_start_def ArrayList_zero_def al_inv_def al_ok_def
      al_items_def)


lemma ArrayList_clear_ok:
  assumes "al_inv w"
  shows "\<exists>w' s. ArrayList_clear w = Ok w' \<and> aw_self w' = Own s \<and> al_buffer s = Null \<and> al_mutex s = Null \<and>
    ArrayList_delete w' = Ok (w'\<lparr>aw_self := Dangling\<rparr>)"
proof -
  have clear: "\<exists>mx. Mutex_clear p = Ok mx \<and> Mutex_delete mx = Ok Dangling" if "mutex_free p" for p
    using Mutex_clear_delete [OF that] by (auto simp: obind_Ok_iff)
  from assms show ?thesis
  proof (cases rule: al_inv_cases)
    case (empty s)
    with clear [of "al_mutex s"] show ?thesis by (auto simp: ArrayList_clear_def ArrayList_delete_def Let_def)
  next
    case (buffer s xs ys)
    with clear [of "al_mutex s"] show ?thesis by (auto simp: ArrayList_clear_def ArrayList_delete_def Let_def)
  qed
qed

subsection \<open>Properties\<close>

text \<open>C13: Any sequence of pushes, pops, indexed reads, length and reset calls, and removals of items that
  are absent or the unique last item with a free slot behind it, returns on a well-formed array list
  and answers like a list: a pop takes the last item, a read outside of the list answers the null pointer,
  a push on a full buffer doubles it (to 50 from an empty one) and keeps all items.\<close>

theorem ArrayList_refines_list:
  assumes "al_inv w" and "legal_run al_spec al_legal ops (al_view w)"
    and "sum_list (map al_cost ops) \<le> aw_mem w"
  shows "\<exists>w'. run al_step ops w = Ok (fst (spec_run al_spec ops (al_view w)), w') \<and> al_inv w' \<and>
    al_view w' = snd (spec_run al_spec ops (al_view w))"
  using arraylist.run_ok [OF assms] by blast

theorem ArrayList_refines_list_witness:
  "\<exists>w w'. ArrayList_init (ArrayList_new (alw_start 9)) = Ok w \<and>
     run al_step [Push 7, Push 8, Push 9, Get 1, Get 5, Remove 9, Length, Pop, Reset, Pop] w =
       Ok ([Done, Done, Done, Item 8, Item 0, Done, Number 2, Item 8, Done, Item 0], w')"
proof -
  obtain w where w: "ArrayList_init (ArrayList_new (alw_start 9)) = Ok w" "al_inv w"
    "al_view w = \<lparr>as_items = [], as_free = 0\<rparr>" "aw_mem w = 7"
    using ArrayList_init_ok [of 9] by auto
  with ArrayList_refines_list [of w "[Push 7, Push 8, Push 9, Get 1, Get 5, Remove 9, Length, Pop, Reset, Pop]"]
  show ?thesis by (auto simp: grown_def)
qed

text \<open>Removing an item that is followed by others moves as many bytes as it should move items:
  only the first (n + 1) / 8 of the n items behind it move into their new places; from position (n + 8) / 8
  on the old items stay where they were, so the list loses its last item instead of the removed one.\<close>

theorem ArrayList_remove_partial_move:
  assumes "al_inv w" and "as_items (al_view w) = as @ item # bs" and "item \<notin> set as"
    and "bs \<noteq> [] \<or> 0 < as_free (al_view w)"
  shows "\<exists>w' cs. ArrayList_remove item w = Ok ((), w') \<and> al_inv w' \<and>
    al_view w' = \<lparr>as_items = as @ cs, as_free = as_free (al_view w) + 1\<rparr> \<and> length cs = length bs \<and>
    (\<forall>k < Suc (length bs) div 8. cs ! k = bs ! k) \<and>
    (\<forall>k < length bs. (length bs + 8) div 8 \<le> k \<longrightarrow> cs ! k = (item # bs) ! k)"
  using ArrayList_remove_found [OF assms] by blast

lemma push_3:
  "\<exists>w w1. ArrayList_init (ArrayList_new (alw_start 9)) = Ok w \<and>
     run al_step [Push 7, Push 8, Push 9] w = Ok ([Done, Done, Done], w1) \<and> al_inv w1 \<and>
     al_view w1 = \<lparr>as_items = [7, 8, 9], as_free = 47\<rparr>"
proof -
  obtain w where w: "ArrayList_init (ArrayList_new (alw_start 9)) = Ok w" "al_inv w"
    "al_view w = \<lparr>as_items = [], as_free = 0\<rparr>" "aw_mem w = 7"
    using ArrayList_init_ok [of 9] by auto
  with arraylist.run_ok [of w "[Push 7, Push 8, Push 9]"] show ?thesis by (auto simp: grown_def)
qed

theorem ArrayList_remove_partial_move_witness:
  "\<exists>w w1 w2 x. ArrayList_init (ArrayList_new (alw_start 9)) = Ok w \<and>
     run al_step [Push 7, Push 8, Push 9] w = Ok ([Done, Done, Done], w1) \<and>
     ArrayList_remove 7 w1 = Ok ((), w2) \<and> as_items (al_view w2) = [x, 8]"
proof -
  obtain w w1 where w: "ArrayList_init (ArrayList_new (alw_start 9)) = Ok w"
    "run al_step [Push 7, Push 8, Push 9] w = Ok ([Done, Done, Done], w1)" "al_inv w1"
    "al_view w1 = \<lparr>as_items = [7, 8, 9], as_free = 47\<rparr>"
    using push_3 by blast
  then obtain w2 cs where r: "ArrayList_remove 7 w1 = Ok ((), w2)" "as_items (al_view w2) = cs"
      "length cs = 2" "\<forall>k < 2. 10 div 8 \<le> k \<longrightarrow> cs ! k = [7, 8, 9] ! k"
    using ArrayList_remove_partial_move [of w1 "[]" 7 "[8, 9]"] by fastforce
  then have "cs ! 1 = 8" by simp
  moreover obtain x y where "cs = [x, y]" using r(3) by (auto simp: numeral_2_eq_2 length_Suc_conv)
  ultimately show ?thesis using w r by auto
qed

text \<open>Removing the last item of a list whose buffer is full reads one byte behind the buffer.\<close>

theorem ArrayList_remove_reads_behind_buffer:
  assumes "al_inv w" and "as_items (al_view w) = as @ [item]" and "item \<notin> set as"
    and "as_free (al_view w) = 0"
  shows "ArrayList_remove item w = Fault"
  using ArrayList_remove_fault [OF assms] .

theorem ArrayList_remove_reads_behind_buffer_witness:
  "ArrayList_remove 6 \<lparr>aw_self = Own \<lparr>al_valid = True, al_mutex = mutex_private, al_free = 0, al_count = 2,
      al_buffer = Own [5, 6]\<rparr>, aw_mem = 0\<rparr> = Fault"
  by (rule ArrayList_remove_reads_behind_buffer [of _ "[5]"]) (auto simp: al_inv_def al_ok_def al_items_def)

end
