(* ===== verification/IO_Channel.thy ===== *)
theory IO_Channel
  imports MT_List
begin

text \<open>
  The core of \<^verbatim>\<open>IOChannel\<close> (src/src/IOChannel.c): the part of a channel that is the same for
  every kind of stream. It checks modes and errors, keeps the bytes that have been ungot, counts
  the transferred bytes and calls the functions of the stream through the table \<^verbatim>\<open>currInterface\<close>,
  which is the argument \<open>I\<close> here. The functions of the table take and return the
  whole channel, as in C.

  A channel is passed as the object itself: that \<^verbatim>\<open>self\<close> is not null, as each function
  requires, is what the type says. A user buffer that a function fills is a list of bytes in its
  result. The C types \<^verbatim>\<open>long\<close> and \<^verbatim>\<open>long long\<close> are mathematical integers: they count
  bytes of buffers in memory. An access outside of a buffer is a fault.
\<close>

unbundle bit_operations_syntax

named_theorems channel_simps "evaluation of the checks of a channel"

subsection \<open>Errors, modes, types\<close>

datatype (plugins only: size code) IOChannelError =
    IOCHANNELERROR_NONE
  | IOCHANNELERROR_ACCV
  | IOCHANNELERROR_INCR
  | IOCHANNELERROR_BBUF
  | IOCHANNELERROR_BIST
  | IOCHANNELERROR_BSEK
  | IOCHANNELERROR_BSIZE
  | IOCHANNELERROR_BMEMPTR
  | IOCHANNELERROR_BMMPSIZE
  | IOCHANNELERROR_BWHESEK
  | IOCHANNELERROR_BNDSEK
  | IOCHANNELERROR_BIOCALL
  | IOCHANNELERROR_BSL
  | IOCHANNELERROR_BMODE
  | IOCHANNELERROR_BWNC
  | IOCHANNELERROR_BSHMNAME
  | IOCHANNELERROR_BSOCKR
  | IOCHANNELERROR_BSOCKW
  | IOCHANNELERROR_NOTDEF
  | IOCHANNELERROR_BLLW
  | IOCHANNELERROR_BSINAM
  | IOCHANNELERROR_BSOUAM
  | IOCHANNELERROR_BFLGS
  | IOCHANNELERROR_BOARG
  | IOCHANNELERROR_BMMFL
  | IOCHANNELERROR_UCONCL
  | IOCHANNELERROR_SOCKETTIMEOUT
  | IOCHANNELERROR_BCLLBKW
  | IOCHANNELERROR_BCLLBKR
  | IOCHANNELERROR_EEXIST
  | IOCHANNELERROR_EISDIR
  | IOCHANNELERROR_EACCES
  | IOCHANNELERROR_ENAMETOOLONG
  | IOCHANNELERROR_ENOENT
  | IOCHANNELERROR_ENOTDIR
  | IOCHANNELERROR_ENXIO
  | IOCHANNELERROR_ENODEV
  | IOCHANNELERROR_EROFS
  | IOCHANNELERROR_ETXTBSY
  | IOCHANNELERROR_EFAULT
  | IOCHANNELERROR_ELOOP
  | IOCHANNELERROR_ENOSPC
  | IOCHANNELERROR_ENOMEM
  | IOCHANNELERROR_EMFILE
  | IOCHANNELERROR_ENFILE
  | IOCHANNELERROR_EINTR
  | IOCHANNELERROR_EAGAIN
  | IOCHANNELERROR_EIO
  | IOCHANNELERROR_EBADF
  | IOCHANNELERROR_EINVAL
  | IOCHANNELERROR_EFBIG
  | IOCHANNELERROR_EPIPE
  | IOCHANNELERROR_ESPIPE
  | IOCHANNELERROR_EOVERFLOW
  | IOCHANNELERROR_TOOUNGET
  | IOCHANNELERROR_ENOTSUP

definition IOChannelErrorTypeTable :: "IOChannelError list" where
  "IOChannelErrorTypeTable =
  [IOCHANNELERROR_NONE, IOCHANNELERROR_ACCV, IOCHANNELERROR_INCR, IOCHANNELERROR_BBUF, IOCHANNELERROR_BIST,
   IOCHANNELERROR_BSEK, IOCHANNELERROR_BSIZE, IOCHANNELERROR_BMEMPTR, IOCHANNELERROR_BMMPSIZE,
   IOCHANNELERROR_BWHESEK, IOCHANNELERROR_BNDSEK, IOCHANNELERROR_BIOCALL, IOCHANNELERROR_BSL,
   IOCHANNELERROR_BMODE, IOCHANNELERROR_BWNC, IOCHANNELERROR_BSHMNAME, IOCHANNELERROR_BSOCKR,
   IOCHANNELERROR_BSOCKW, IOCHANNELERROR_NOTDEF, IOCHANNELERROR_BLLW, IOCHANNELERROR_BSINAM,
   IOCHANNELERROR_BSOUAM, IOCHANNELERROR_BFLGS, IOCHANNELERROR_BOARG, IOCHANNELERROR_BMMFL,
   IOCHANNELERROR_UCONCL, IOCHANNELERROR_SOCKETTIMEOUT, IOCHANNELERROR_BCLLBKW, IOCHANNELERROR_BCLLBKR,
   IOCHANNELERROR_EEXIST, IOCHANNELERROR_EISDIR, IOCHANNELERROR_EACCES, IOCHANNELERROR_ENAMETOOLONG,
   IOCHANNELERROR_ENOENT, IOCHANNELERROR_ENOTDIR, IOCHANNELERROR_ENXIO, IOCHANNELERROR_ENODEV,
   IOCHANNELERROR_EROFS, IOCHANNELERROR_ETXTBSY, IOCHANNELERROR_EFAULT, IOCHANNELERROR_ELOOP,
   IOCHANNELERROR_ENOSPC, IOCHANNELERROR_ENOMEM, IOCHANNELERROR_EMFILE, IOCHANNELERROR_ENFILE,
   IOCHANNELERROR_EINTR, IOCHANNELERROR_EAGAIN, IOCHANNELERROR_EIO, IOCHANNELERROR_EBADF,
   IOCHANNELERROR_EINVAL, IOCHANNELERROR_EFAULT, IOCHANNELERROR_EFBIG, IOCHANNELERROR_EPIPE,
   IOCHANNELERROR_ENOSPC, IOCHANNELERROR_ESPIPE, IOCHANNELERROR_EOVERFLOW, IOCHANNELERROR_TOOUNGET,
   IOCHANNELERROR_ENOTSUP]"

datatype IOChannelType =
    IOCHANNELTYPE_FD
  | IOCHANNELTYPE_SOCKET
  | IOCHANNELTYPE_MEMPTR
  | IOCHANNELTYPE_ANSIFILE
  | IOCHANNELTYPE_GENERICHANDLE
  | IOCHANNELTYPE_NOTSET

datatype IOChannelWhence = IOCHANNELWHENCE_SET | IOCHANNELWHENCE_CUR | IOCHANNELWHENCE_END | WHENCE_OTHER

text \<open>The modes are those of \<^verbatim>\<open>open()\<close> on Linux, and two bits of the library.\<close>

definition IOCHANNEL_MODE_R_ONLY :: uint32 where "IOCHANNEL_MODE_R_ONLY = 0"
definition IOCHANNEL_MODE_W_ONLY :: uint32 where "IOCHANNEL_MODE_W_ONLY = 1"
definition IOCHANNEL_MODE_RW :: uint32 where "IOCHANNEL_MODE_RW = 2"
definition IOCHANNEL_MODE_UNDEFINED :: uint32 where "IOCHANNEL_MODE_UNDEFINED = -1"
definition IOCHANNEL_MODE_CREAT :: uint32 where "IOCHANNEL_MODE_CREAT = 0x40"
definition IOCHANNEL_MODE_TRUNC :: uint32 where "IOCHANNEL_MODE_TRUNC = 0x200"
definition IOCHANNEL_MODE_APPEND :: uint32 where "IOCHANNEL_MODE_APPEND = 0x400"
definition IOCHANNEL_MODE_CLOSE :: uint32 where "IOCHANNEL_MODE_CLOSE = 0x80000000"
definition IOCHANNEL_MODE_NOTCLOSE :: uint32 where "IOCHANNEL_MODE_NOTCLOSE = 0x40000000"

definition IOCHANNEL_CLOSEFLAGS_MASK :: uint32 where
  "IOCHANNEL_CLOSEFLAGS_MASK = IOCHANNEL_MODE_CLOSE OR IOCHANNEL_MODE_NOTCLOSE"

definition IOCHANNEL_GET_ACCESS_MASK :: uint32 where
  "IOCHANNEL_GET_ACCESS_MASK =
     IOCHANNEL_MODE_CREAT OR IOCHANNEL_MODE_TRUNC OR IOCHANNEL_MODE_APPEND OR IOCHANNEL_CLOSEFLAGS_MASK"

definition IOCHANNEL_ACCESSMODES :: uint32 where
  "IOCHANNEL_ACCESSMODES = IOCHANNEL_MODE_RW OR IOCHANNEL_MODE_R_ONLY OR IOCHANNEL_MODE_W_ONLY"

definition IOCHANNEL_GET_ACCESS_MODE :: "uint32 \<Rightarrow> uint32" where
  "IOCHANNEL_GET_ACCESS_MODE mode = mode AND NOT IOCHANNEL_GET_ACCESS_MASK"

definition IOCHANNEL_MODEIS_DEFINED :: "uint32 \<Rightarrow> bool" where
  "IOCHANNEL_MODEIS_DEFINED mode \<longleftrightarrow> mode \<noteq> IOCHANNEL_MODE_UNDEFINED"

definition IOCHANNEL_MODEIS_R_ONLY :: "uint32 \<Rightarrow> bool" where
  "IOCHANNEL_MODEIS_R_ONLY mode \<longleftrightarrow> IOCHANNEL_GET_ACCESS_MODE mode = IOCHANNEL_MODE_R_ONLY"

definition IOCHANNEL_MODEIS_W_ONLY :: "uint32 \<Rightarrow> bool" where
  "IOCHANNEL_MODEIS_W_ONLY mode \<longleftrightarrow> IOCHANNEL_GET_ACCESS_MODE mode = IOCHANNEL_MODE_W_ONLY"

definition IOCHANNEL_MODEIS_RW :: "uint32 \<Rightarrow> bool" where
  "IOCHANNEL_MODEIS_RW mode \<longleftrightarrow> IOCHANNEL_GET_ACCESS_MODE mode = IOCHANNEL_MODE_RW"

definition IOCHANNEL_MODEIS_CREAT :: "uint32 \<Rightarrow> bool" where
  "IOCHANNEL_MODEIS_CREAT mode \<longleftrightarrow>
     mode AND NOT (IOCHANNEL_MODE_TRUNC OR IOCHANNEL_MODE_APPEND OR IOCHANNEL_ACCESSMODES OR
       IOCHANNEL_CLOSEFLAGS_MASK) = IOCHANNEL_MODE_CREAT"

definition IOCHANNEL_MODEIS_TRUNC :: "uint32 \<Rightarrow> bool" where
  "IOCHANNEL_MODEIS_TRUNC mode \<longleftrightarrow>
     mode AND NOT (IOCHANNEL_MODE_CREAT OR IOCHANNEL_MODE_APPEND OR IOCHANNEL_ACCESSMODES OR
       IOCHANNEL_CLOSEFLAGS_MASK) = IOCHANNEL_MODE_TRUNC"

definition IOCHANNEL_MODEIS_APPEND :: "uint32 \<Rightarrow> bool" where
  "IOCHANNEL_MODEIS_APPEND mode \<longleftrightarrow>
     mode AND NOT (IOCHANNEL_MODE_TRUNC OR IOCHANNEL_MODE_CREAT OR IOCHANNEL_ACCESSMODES OR
       IOCHANNEL_CLOSEFLAGS_MASK) = IOCHANNEL_MODE_APPEND"

definition IOCHANNEL_MODEIS_CLOSE :: "uint32 \<Rightarrow> bool" where
  "IOCHANNEL_MODEIS_CLOSE mode \<longleftrightarrow> mode AND IOCHANNEL_CLOSEFLAGS_MASK = IOCHANNEL_MODE_CLOSE"

definition IOCHANNEL_MODEIS_NOTCLOSE :: "uint32 \<Rightarrow> bool" where
  "IOCHANNEL_MODEIS_NOTCLOSE mode \<longleftrightarrow> mode AND IOCHANNEL_CLOSEFLAGS_MASK = IOCHANNEL_MODE_NOTCLOSE"

definition IOCHANNEL_MODEIS_VALID :: "uint32 \<Rightarrow> bool" where
  "IOCHANNEL_MODEIS_VALID mode \<longleftrightarrow> mode AND IOCHANNEL_CLOSEFLAGS_MASK \<noteq> IOCHANNEL_CLOSEFLAGS_MASK"

subsection \<open>Buffers\<close>

text \<open>\<^verbatim>\<open>IOChannelBuffer.ptr\<close> is null, or points to the default buffer of the same object, to a
  block \<^verbatim>\<open>IOChannelBuffer_set\<close> has allocated, or to a block of the user.\<close>

datatype buffer_ptr = NoBuffer | DefaultBuffer | Allocated "byte list" | UserBuffer "byte list"

record IOChannelBuffer =
  bf_defaultBuffer :: "byte list owned"
  bf_defaultSize :: int
  bf_ptr :: buffer_ptr
  bf_size :: int
  bf_index :: int
  bf_freeOnExit :: bool

definition IOChannelBuffer_new :: "nat \<Rightarrow> (IOChannelBuffer owned \<times> nat) outcome" where
  "IOChannelBuffer_new mem =
     (let (p, mem) = ANY_TALLOC \<lparr>bf_defaultBuffer = Null, bf_defaultSize = 0, bf_ptr = NoBuffer,
            bf_size = 0, bf_index = 0, bf_freeOnExit = False\<rparr> mem
      in ANY_REQUIRE (p \<noteq> Null) (Ok (p, mem)))"

definition IOChannelBuffer_init :: "IOChannelBuffer \<Rightarrow> int \<Rightarrow> nat \<Rightarrow> (bool \<times> IOChannelBuffer \<times> nat) outcome" where
  "IOChannelBuffer_init b defaultSize mem =
     ANY_REQUIRE (defaultSize > 0)
       (let (p, mem) = ANY_TALLOC (replicate (nat defaultSize) 0) mem in
        ANY_REQUIRE (p \<noteq> Null)
          (Ok (True, \<lparr>bf_defaultBuffer = p, bf_defaultSize = defaultSize, bf_ptr = NoBuffer,
                      bf_size = 0, bf_index = 0, bf_freeOnExit = False\<rparr>, mem)))"

definition IOChannelBuffer_atOpen :: "IOChannelBuffer \<Rightarrow> IOChannelBuffer" where
  "IOChannelBuffer_atOpen b =
     b\<lparr>bf_ptr := DefaultBuffer, bf_size := bf_defaultSize b, bf_index := 0, bf_freeOnExit := False\<rparr>"

text \<open>\<open>user = None\<close> is the null pointer.\<close>

definition IOChannelBuffer_set ::
  "IOChannelBuffer \<Rightarrow> byte list option \<Rightarrow> int \<Rightarrow> nat \<Rightarrow> (IOChannelBuffer \<times> nat) outcome" where
  "IOChannelBuffer_set b user n mem =
     obind
       (case user of
          None \<Rightarrow>
            (let (p, mem) = ANY_TALLOC (replicate (nat n) 0) mem in
             ANY_REQUIRE (p \<noteq> Null)
               (deref p (\<lambda>aux. Ok (b\<lparr>bf_ptr := Allocated aux, bf_freeOnExit := True\<rparr>, mem))))
        | Some bs \<Rightarrow> Ok (b\<lparr>bf_ptr := UserBuffer bs, bf_freeOnExit := False\<rparr>, mem)) (\<lambda>(b, mem).
     Ok (b\<lparr>bf_index := 0, bf_size := n\<rparr>, mem))"

definition IOChannelBuffer_atClose :: "IOChannelBuffer \<Rightarrow> IOChannelBuffer outcome" where
  "IOChannelBuffer_atClose b =
     obind (if bf_freeOnExit b then ANY_REQUIRE (bf_ptr b \<noteq> NoBuffer) (Ok ()) else Ok ()) (\<lambda>_.
     Ok (b\<lparr>bf_ptr := DefaultBuffer, bf_size := bf_defaultSize b, bf_index := 0, bf_freeOnExit := False\<rparr>))"

definition IOChannelBuffer_clear :: "IOChannelBuffer \<Rightarrow> IOChannelBuffer outcome" where
  "IOChannelBuffer_clear b =
     ANY_REQUIRE (bf_defaultBuffer b \<noteq> Null)
       (obind (ANY_FREE (bf_defaultBuffer b)) (\<lambda>p.
        Ok (b\<lparr>bf_defaultBuffer := p, bf_defaultSize := 0, bf_ptr := NoBuffer, bf_size := 0,
              bf_index := 0, bf_freeOnExit := False\<rparr>)))"

definition IOChannelBuffer_delete :: "IOChannelBuffer owned \<Rightarrow> IOChannelBuffer owned outcome" where
  "IOChannelBuffer_delete p = ANY_REQUIRE (p \<noteq> Null) (ANY_FREE p)"

text \<open>The bytes behind \<^verbatim>\<open>ptr\<close>, and storing them back.\<close>

definition buf_bytes :: "IOChannelBuffer \<Rightarrow> (byte list \<Rightarrow> 'a outcome) \<Rightarrow> 'a outcome" where
  "buf_bytes b k = (case bf_ptr b of
     NoBuffer \<Rightarrow> Require
   | DefaultBuffer \<Rightarrow> deref (bf_defaultBuffer b) k
   | Allocated bs \<Rightarrow> k bs
   | UserBuffer bs \<Rightarrow> k bs)"

definition buf_store :: "byte list \<Rightarrow> IOChannelBuffer \<Rightarrow> IOChannelBuffer" where
  "buf_store bs b = (case bf_ptr b of
     NoBuffer \<Rightarrow> b
   | DefaultBuffer \<Rightarrow> b\<lparr>bf_defaultBuffer := Own bs\<rparr>
   | Allocated _ \<Rightarrow> b\<lparr>bf_ptr := Allocated bs\<rparr>
   | UserBuffer _ \<Rightarrow> b\<lparr>bf_ptr := UserBuffer bs\<rparr>)"

subsection \<open>The channel\<close>

definition IOCHANNEL_VALID :: ulong where "IOCHANNEL_VALID = 0x1cb5d117"
definition IOCHANNEL_INVALID :: ulong where "IOCHANNEL_INVALID = 0xff6bc8a7"
definition IOCHANNEL_WRITEBUFFER_DEFAULT :: int where "IOCHANNEL_WRITEBUFFER_DEFAULT = 1024"
definition IOCHANNEL_UNGETBUFFER_DEFAULT :: int where "IOCHANNEL_UNGETBUFFER_DEFAULT = 1024"
definition IOCHANNEL_SELECT_TIMEOUT_USEC :: int where "IOCHANNEL_SELECT_TIMEOUT_USEC = 1000"

text \<open>\<open>'s\<close> is the type of the stream's own data; \<open>ch_currInterface\<close> says whether the
  pointer to the function table is set.\<close>

record 's IOChannel =
  ch_valid :: ulong
  ch_currInterface :: bool
  ch_streamPtr :: "'s owned"
  ch_isOpen :: bool
  ch_foundEof :: bool
  ch_usesWriteBuffering :: bool
  ch_mode :: uint32
  ch_type :: IOChannelType
  ch_readTimeout :: int
  ch_writeTimeout :: int
  ch_rdDeployedBytes :: int
  ch_wrDeployedBytes :: int
  ch_errorType :: IOChannelError
  ch_errnoValue :: int
  ch_ungetBuffer :: "IOChannelBuffer owned"
  ch_writeBuffer :: "IOChannelBuffer owned"
  ch_writeBufferIsExternal :: bool
  ch_autoResize :: bool
  ch_currentIndexPosition :: int
  ch_rdBytesFromLastWrite :: int
  ch_rdBytesFromLastUnget :: int
  ch_userStream :: mtl

text \<open>The function table of a stream. \<open>'a\<close> stands for the arguments behind the permissions of
  \<^verbatim>\<open>IOChannel_open\<close>; the number is the budget of allocations.\<close>

record ('s, 'a) IOChannelInterface =
  indirectNew :: "nat \<Rightarrow> ('s owned \<times> nat) outcome"
  indirectInit :: "'s IOChannel \<Rightarrow> (bool \<times> 's IOChannel) outcome"
  indirectOpen :: "'a \<Rightarrow> 's IOChannel \<Rightarrow> nat \<Rightarrow> (bool \<times> 's IOChannel \<times> nat) outcome"
  indirectRead :: "int \<Rightarrow> 's IOChannel \<Rightarrow> (int \<times> byte list \<times> 's IOChannel) outcome"
  indirectWrite :: "byte list \<Rightarrow> 's IOChannel \<Rightarrow> (int \<times> 's IOChannel) outcome"
  indirectFlush :: "'s IOChannel \<Rightarrow> (int \<times> 's IOChannel) outcome"
  indirectSeek :: "int \<Rightarrow> IOChannelWhence \<Rightarrow> 's IOChannel \<Rightarrow> (int \<times> 's IOChannel) outcome"
  indirectClose :: "'s IOChannel \<Rightarrow> (bool \<times> 's IOChannel) outcome"
  indirectClear :: "'s IOChannel \<Rightarrow> 's IOChannel outcome"
  indirectDelete :: "'s IOChannel \<Rightarrow> 's IOChannel outcome"

definition valid_channel :: "'s IOChannel \<Rightarrow> 'b outcome \<Rightarrow> 'b outcome" where
  "valid_channel ch k = ANY_REQUIRE (ch_valid ch = IOCHANNEL_VALID) k"

definition IOCHANNEL_REQUIRE_INTERFACE :: "'s IOChannel \<Rightarrow> 'b outcome \<Rightarrow> 'b outcome" where
  "IOCHANNEL_REQUIRE_INTERFACE ch k = ANY_REQUIRE (ch_currInterface ch) k"

definition IOCHANNEL_SET_EOF :: "'s IOChannel \<Rightarrow> 's IOChannel" where
  "IOCHANNEL_SET_EOF ch = ch\<lparr>ch_foundEof := True\<rparr>"

definition IOChannel_isOpenCheck :: "'s IOChannel \<Rightarrow> bool" where
  "IOChannel_isOpenCheck ch = ch_isOpen ch"

definition IOChannel_isErrorSet :: "'s IOChannel \<Rightarrow> bool" where
  "IOChannel_isErrorSet ch \<longleftrightarrow> ch_errorType ch \<noteq> IOCHANNELERROR_NONE"

definition IOChannel_isCallAllowedCheck :: "'s IOChannel \<Rightarrow> bool" where
  "IOChannel_isCallAllowedCheck ch \<longleftrightarrow> ch_isOpen ch \<and> ch_errorType ch = IOCHANNELERROR_NONE"

definition IOChannel_setError :: "IOChannelError \<Rightarrow> 's IOChannel \<Rightarrow> 's IOChannel outcome" where
  "IOChannel_setError err ch = valid_channel ch
     (Ok (case find_first (\<lambda>x. x = err) IOChannelErrorTypeTable of
            None \<Rightarrow> ch\<lparr>ch_errorType := IOCHANNELERROR_NOTDEF\<rparr>
          | Some x \<Rightarrow> ch\<lparr>ch_errorType := x\<rparr>))"

definition IOChannel_isNotWrOnlyCheck :: "'s IOChannel \<Rightarrow> (bool \<times> 's IOChannel) outcome" where
  "IOChannel_isNotWrOnlyCheck ch =
     (if IOCHANNEL_MODEIS_W_ONLY (ch_mode ch)
      then obind (IOChannel_setError IOCHANNELERROR_ACCV ch) (\<lambda>ch. Ok (False, ch))
      else Ok (True, ch))"

definition IOChannel_isNotRdOnlyCheck :: "'s IOChannel \<Rightarrow> (bool \<times> 's IOChannel) outcome" where
  "IOChannel_isNotRdOnlyCheck ch =
     (if IOCHANNEL_MODEIS_R_ONLY (ch_mode ch)
      then obind (IOChannel_setError IOCHANNELERROR_ACCV ch) (\<lambda>ch. Ok (False, ch))
      else Ok (True, ch))"

definition IOChannel_resetValuesForNewOpen :: "'s IOChannel \<Rightarrow> 's IOChannel" where
  "IOChannel_resetValuesForNewOpen ch = ch\<lparr>
     ch_currInterface := False, ch_streamPtr := Null, ch_isOpen := False,
     ch_usesWriteBuffering := False, ch_writeBufferIsExternal := False, ch_autoResize := False,
     ch_mode := 0, ch_readTimeout := IOCHANNEL_SELECT_TIMEOUT_USEC,
     ch_writeTimeout := IOCHANNEL_SELECT_TIMEOUT_USEC, ch_rdDeployedBytes := 0,
     ch_wrDeployedBytes := 0, ch_errorType := IOCHANNELERROR_NONE, ch_currentIndexPosition := 0,
     ch_foundEof := False, ch_type := IOCHANNELTYPE_NOTSET, ch_rdBytesFromLastUnget := 0,
     ch_rdBytesFromLastWrite := 0\<rparr>"

definition IOChannel_valid :: "'s IOChannel \<Rightarrow> 's IOChannel outcome" where
  "IOChannel_valid ch = valid_channel ch (Ok ch)"

definition IOChannel_getStreamPtr :: "'s IOChannel \<Rightarrow> 's owned outcome" where
  "IOChannel_getStreamPtr ch = valid_channel ch (Ok (ch_streamPtr ch))"

text \<open>\<^verbatim>\<open>streamPtr = IOChannel_getStreamPtr( self ); ANY_REQUIRE( streamPtr );\<close> and accesses
  to it.\<close>

definition with_stream :: "'s IOChannel \<Rightarrow> ('s \<Rightarrow> 'b outcome) \<Rightarrow> 'b outcome" where
  "with_stream ch k = obind (IOChannel_getStreamPtr ch) (\<lambda>p. require_ptr p k)"

definition IOChannel_setType :: "IOChannelType \<Rightarrow> 's IOChannel \<Rightarrow> 's IOChannel outcome" where
  "IOChannel_setType type ch = valid_channel ch
     (if type = IOCHANNELTYPE_NOTSET then Require else Ok (ch\<lparr>ch_type := type\<rparr>))"

definition IOChannel_hasPointer :: "'s IOChannel \<Rightarrow> bool outcome" where
  "IOChannel_hasPointer ch = valid_channel ch
     (Ok (if IOChannel_isOpenCheck ch then ch_type ch = IOCHANNELTYPE_MEMPTR else False))"

definition IOChannel_isOpen :: "'s IOChannel \<Rightarrow> bool outcome" where
  "IOChannel_isOpen ch = valid_channel ch (Ok (ch_isOpen ch))"

definition IOChannel_isErrorOccurred :: "'s IOChannel \<Rightarrow> bool outcome" where
  "IOChannel_isErrorOccurred ch = valid_channel ch (Ok (IOChannel_isErrorSet ch))"

definition IOChannel_getErrorNumber :: "'s IOChannel \<Rightarrow> IOChannelError outcome" where
  "IOChannel_getErrorNumber ch = valid_channel ch
     (Ok (case find_first (\<lambda>x. x = ch_errorType ch) IOChannelErrorTypeTable of
            None \<Rightarrow> IOCHANNELERROR_NONE | Some x \<Rightarrow> x))"

definition IOChannel_cleanError :: "'s IOChannel \<Rightarrow> 's IOChannel outcome" where
  "IOChannel_cleanError ch = valid_channel ch (Ok (ch\<lparr>ch_errorType := IOCHANNELERROR_NONE\<rparr>))"

definition IOChannel_getModes :: "'s IOChannel \<Rightarrow> uint32 outcome" where
  "IOChannel_getModes ch = valid_channel ch (Ok (ch_mode ch))"

definition IOChannel_getStreamPosition :: "'s IOChannel \<Rightarrow> int outcome" where
  "IOChannel_getStreamPosition ch = valid_channel ch (Ok (ch_currentIndexPosition ch))"

definition IOChannel_getWrittenBytes :: "'s IOChannel \<Rightarrow> int outcome" where
  "IOChannel_getWrittenBytes ch = valid_channel ch
     (if IOChannel_isOpenCheck ch then ANY_REQUIRE (ch_rdDeployedBytes ch \<ge> 0) (Ok (ch_wrDeployedBytes ch))
      else Ok (-1))"

definition IOChannel_getReadBytes :: "'s IOChannel \<Rightarrow> int outcome" where
  "IOChannel_getReadBytes ch = valid_channel ch
     (if IOChannel_isOpenCheck ch then ANY_REQUIRE (ch_rdDeployedBytes ch \<ge> 0) (Ok (ch_rdDeployedBytes ch))
      else Ok (-1))"

definition IOChannel_eof :: "'s IOChannel \<Rightarrow> bool outcome" where
  "IOChannel_eof ch = valid_channel ch
     (if IOChannel_isOpenCheck ch
      then require_ptr (ch_ungetBuffer ch) (\<lambda>ub.
             ANY_REQUIRE (bf_index ub \<ge> 0) (Ok (ch_foundEof ch \<and> bf_index ub = 0)))
      else Ok False)"

definition IOChannel_usesWriteBuffering :: "'s IOChannel \<Rightarrow> bool outcome" where
  "IOChannel_usesWriteBuffering ch = valid_channel ch (Ok (ch_usesWriteBuffering ch))"

definition IOChannel_getWriteBufferedBytes :: "'s IOChannel \<Rightarrow> int outcome" where
  "IOChannel_getWriteBufferedBytes ch = valid_channel ch
     (require_ptr (ch_writeBuffer ch) (\<lambda>wb. Ok (bf_index wb)))"

subsection \<open>Creating a channel\<close>

definition IOChannel_zero :: "'s IOChannel" where
  "IOChannel_zero = \<lparr>ch_valid = 0, ch_currInterface = False, ch_streamPtr = Null, ch_isOpen = False,
     ch_foundEof = False, ch_usesWriteBuffering = False, ch_mode = 0, ch_type = IOCHANNELTYPE_FD,
     ch_readTimeout = 0, ch_writeTimeout = 0, ch_rdDeployedBytes = 0, ch_wrDeployedBytes = 0,
     ch_errorType = IOCHANNELERROR_NONE, ch_errnoValue = 0, ch_ungetBuffer = Null,
     ch_writeBuffer = Null, ch_writeBufferIsExternal = False, ch_autoResize = False,
     ch_currentIndexPosition = 0, ch_rdBytesFromLastWrite = 0, ch_rdBytesFromLastUnget = 0,
     ch_userStream = \<lparr>mt_self = Null, mt_elems = empty_heap, mt_mem = 0, mt_freed = []\<rparr>\<rparr>"

definition IOChannel_new :: "nat \<Rightarrow> 's IOChannel owned \<times> nat" where
  "IOChannel_new mem = ANY_TALLOC IOChannel_zero mem"

definition IOChannel_delete :: "'s IOChannel owned \<Rightarrow> 's IOChannel owned outcome" where
  "IOChannel_delete p = ANY_REQUIRE (p \<noteq> Null) (ANY_FREE p)"

definition IOChannel_init :: "'s IOChannel \<Rightarrow> nat \<Rightarrow> (bool \<times> 's IOChannel \<times> nat) outcome" where
  "IOChannel_init ch mem =
     (let ch = ch\<lparr>ch_valid := IOCHANNEL_INVALID\<rparr> in
      obind (MTList_new ((ch_userStream ch)\<lparr>mt_mem := mem\<rparr>)) (\<lambda>l.
      ANY_REQUIRE (mt_self l \<noteq> Null)
        (obind (MTList_init l) (\<lambda>(_, l).
         obind (MTList_setDeleteMode MTLIST_DELETEMODE_MANUAL l) (\<lambda>l.
         obind (IOChannelBuffer_new (mt_mem l)) (\<lambda>(p, mem).
         deref p (\<lambda>ub.
         obind (IOChannelBuffer_init ub IOCHANNEL_UNGETBUFFER_DEFAULT mem) (\<lambda>(_, ub, mem).
         obind (IOChannelBuffer_new mem) (\<lambda>(p, mem).
         deref p (\<lambda>wb.
         obind (IOChannelBuffer_init wb IOCHANNEL_WRITEBUFFER_DEFAULT mem) (\<lambda>(_, wb, mem).
         Ok (True, IOChannel_resetValuesForNewOpen (ch\<lparr>ch_userStream := l, ch_ungetBuffer := Own ub,
               ch_writeBuffer := Own wb, ch_valid := IOCHANNEL_VALID\<rparr>), mem))))))))))))"

subsection \<open>Buffering of writes\<close>

definition IOChannel_flush :: "('s, 'a) IOChannelInterface \<Rightarrow> 's IOChannel \<Rightarrow> (int \<times> 's IOChannel) outcome" where
  "IOChannel_flush I ch = valid_channel ch
     (if IOChannel_isOpenCheck ch
      then obind (IOChannel_usesWriteBuffering ch) (\<lambda>uses.
           if uses
           then require_ptr (ch_writeBuffer ch) (\<lambda>wb.
                ANY_REQUIRE (bf_index wb \<ge> 0)
                  (if bf_index wb > 0
                   then IOCHANNEL_REQUIRE_INTERFACE ch
                          (obind (indirectFlush I ch) (\<lambda>(retVal, ch).
                           if retVal \<noteq> -1
                           then deref (ch_writeBuffer ch) (\<lambda>wb.
                                Ok (retVal, ch\<lparr>ch_writeBuffer := Own (wb\<lparr>bf_index := 0\<rparr>)\<rparr>))
                           else ANY_REQUIRE (IOChannel_isErrorSet ch) (Ok (retVal, ch))))
                   else Ok (0, ch)))
           else Ok (0, ch))
      else Ok (0, ch))"

definition IOChannel_setUngetBuffer :: "byte list option \<Rightarrow> int \<Rightarrow> 's IOChannel \<Rightarrow> nat \<Rightarrow>
    ('s IOChannel \<times> nat) outcome" where
  "IOChannel_setUngetBuffer user n ch mem = valid_channel ch
     (ANY_REQUIRE (n > 0)
       (require_ptr (ch_ungetBuffer ch) (\<lambda>ub.
        obind (IOChannelBuffer_set ub user n mem) (\<lambda>(ub, mem).
        Ok (ch\<lparr>ch_ungetBuffer := Own ub\<rparr>, mem)))))"

definition IOChannel_setWriteBuffer :: "byte list option \<Rightarrow> int \<Rightarrow> 's IOChannel \<Rightarrow> nat \<Rightarrow>
    ('s IOChannel \<times> nat) outcome" where
  "IOChannel_setWriteBuffer user n ch mem = valid_channel ch
     (ANY_REQUIRE (n > 0)
       (obind (IOChannel_hasPointer ch) (\<lambda>hasPtr.
        if \<not> hasPtr
        then require_ptr (ch_writeBuffer ch) (\<lambda>wb.
             obind (IOChannelBuffer_set wb user n mem) (\<lambda>(wb, mem).
             Ok (ch\<lparr>ch_writeBufferIsExternal := (user \<noteq> None), ch_writeBuffer := Own wb\<rparr>, mem)))
        else Ok (ch, mem))))"

definition IOChannel_setUseWriteBuffering ::
  "('s, 'a) IOChannelInterface \<Rightarrow> bool \<Rightarrow> bool \<Rightarrow> 's IOChannel \<Rightarrow> (bool \<times> 's IOChannel) outcome" where
  "IOChannel_setUseWriteBuffering I useBuffering autoResize ch = valid_channel ch
     (obind (IOChannel_hasPointer ch) (\<lambda>hasPtr.
      if \<not> hasPtr
      then obind (if useBuffering then Ok (0, ch) else IOChannel_flush I ch) (\<lambda>(_, ch).
           Ok (True, ch\<lparr>ch_usesWriteBuffering := useBuffering, ch_autoResize := autoResize\<rparr>))
      else Ok (False, ch)))"

definition copy_at :: "int \<Rightarrow> byte list \<Rightarrow> byte list \<Rightarrow> byte list outcome" where
  "copy_at i src dst =
     defined_if (0 \<le> i \<and> nat i + length src \<le> length dst)
       (Ok (take (nat i) dst @ src @ drop (nat i + length src) dst))"

text \<open>One turn of the loop of \<^verbatim>\<open>IOChannel_addToWriteBuffer\<close> either ends it or leaves the buffer
  empty or larger; \<open>Stuck\<close> is a loop that does not end within the fuel.\<close>

fun addToWriteBuffer_loop :: "nat \<Rightarrow> ('s, 'a) IOChannelInterface \<Rightarrow> byte list \<Rightarrow> int \<Rightarrow> 's IOChannel \<Rightarrow> nat \<Rightarrow>
    (int \<times> 's IOChannel \<times> nat) outcome" where
  "addToWriteBuffer_loop 0 I bs retVal ch mem = Stuck"
| "addToWriteBuffer_loop (Suc fuel) I bs retVal ch mem =
     (if bs = [] then Ok (retVal, ch, mem)
      else deref (ch_writeBuffer ch) (\<lambda>wb.
        let leftBytes = bf_size wb - bf_index wb in
        buf_bytes wb (\<lambda>base.
        if int (length bs) \<le> leftBytes
        then obind (copy_at (bf_index wb) bs base) (\<lambda>base.
             Ok (retVal, ch\<lparr>ch_writeBuffer := Own ((buf_store base wb)\<lparr>bf_index := bf_index wb + int (length bs)\<rparr>)\<rparr>,
                 mem))
        else obind (copy_at (bf_index wb) (take (nat leftBytes) bs) base) (\<lambda>base.
             let wb = (buf_store base wb)\<lparr>bf_index := bf_index wb + leftBytes\<rparr>;
                 bs = drop (nat leftBytes) bs in
             if \<not> ch_writeBufferIsExternal ch \<and> ch_autoResize ch
             then let newSize = (bf_size wb + int (length bs)) * 2;
                      (p, mem) = ANY_TALLOC (replicate (nat newSize) 0) mem in
                  ANY_REQUIRE (p \<noteq> Null)
                    (deref p (\<lambda>new.
                     defined_if (nat (bf_size wb) \<le> length base)
                    (obind (copy_at 0 (take (nat (bf_size wb)) base) new) (\<lambda>new.
                     let wb = (case bf_ptr wb of
                                 DefaultBuffer \<Rightarrow> wb\<lparr>bf_defaultBuffer := Own new\<rparr>
                               | _ \<Rightarrow> wb\<lparr>bf_ptr := Allocated new\<rparr>);
                         wb = wb\<lparr>bf_index := bf_size wb, bf_size := newSize\<rparr> in
                     addToWriteBuffer_loop fuel I bs retVal (ch\<lparr>ch_writeBuffer := Own wb\<rparr>) mem))))
             else obind (IOChannel_flush I (ch\<lparr>ch_writeBuffer := Own wb\<rparr>)) (\<lambda>(r, ch).
                  if r = -1 then ANY_REQUIRE (IOChannel_isErrorSet ch) (Ok (-1, ch, mem))
                  else addToWriteBuffer_loop fuel I bs retVal ch mem)))))"

definition IOChannel_addToWriteBuffer :: "('s, 'a) IOChannelInterface \<Rightarrow> byte list \<Rightarrow> 's IOChannel \<Rightarrow> nat \<Rightarrow>
    (int \<times> 's IOChannel \<times> nat) outcome" where
  "IOChannel_addToWriteBuffer I bs ch mem = valid_channel ch
     (addToWriteBuffer_loop (length bs + 2) I bs (int (length bs)) ch mem)"

subsection \<open>Bytes that have been ungot\<close>

text \<open>The buffer is a stack: byte \<open>index - 1\<close> is the next one to be read. The loop is
  \<^verbatim>\<open>while(( i < size ) && ( i <= ungetBuffer->index ))\<close>.\<close>

function pop_loop :: "byte list \<Rightarrow> int \<Rightarrow> int \<Rightarrow> int \<Rightarrow> (int \<times> byte list) outcome" where
  "pop_loop buf index n i =
     (if i < n \<and> i \<le> index
      then let top = index - i - 1 in
           defined_if (0 \<le> top \<and> top < int (length buf))
             (obind (pop_loop buf index n (i + 1)) (\<lambda>(k, bs). Ok (k, buf ! nat top # bs)))
      else Ok (i, []))"
  by pat_completeness auto
termination by (relation "measure (\<lambda>(buf, index, n, i). nat (n - i))") auto

declare pop_loop.simps [simp del]

definition IOChannel_popFromUngetBuffer :: "int \<Rightarrow> 's IOChannel \<Rightarrow> (int \<times> byte list \<times> 's IOChannel) outcome" where
  "IOChannel_popFromUngetBuffer n ch =
     deref (ch_ungetBuffer ch) (\<lambda>ub.
     buf_bytes ub (\<lambda>buf.
     obind (pop_loop buf (bf_index ub) n 0) (\<lambda>(i, bs).
     let ub = ub\<lparr>bf_index := bf_index ub - i\<rparr> in
     ANY_REQUIRE (bf_index ub \<ge> 0) (Ok (i, bs, ch\<lparr>ch_ungetBuffer := Own ub\<rparr>)))))"

fun push_loop :: "byte list \<Rightarrow> int \<Rightarrow> byte list \<Rightarrow> byte list outcome" where
  "push_loop [] p buf = Ok buf"
| "push_loop (q # qs) p buf =
     defined_if (0 \<le> p - 1 \<and> p - 1 < int (length buf)) (push_loop qs (p - 1) (buf[nat (p - 1) := q]))"

definition IOChannel_pushIntoUngetBuffer :: "byte list \<Rightarrow> 's IOChannel \<Rightarrow> (int \<times> 's IOChannel) outcome" where
  "IOChannel_pushIntoUngetBuffer bs ch =
     ANY_REQUIRE (bs \<noteq> [])
       (require_ptr (ch_ungetBuffer ch) (\<lambda>ub.
        buf_bytes ub (\<lambda>buf.
        let bytesToPushIndex = bf_index ub + int (length bs) in
        if bytesToPushIndex \<le> bf_size ub
        then obind (push_loop bs bytesToPushIndex buf) (\<lambda>buf.
             Ok (int (length bs),
                 ch\<lparr>ch_ungetBuffer := Own ((buf_store buf ub)\<lparr>bf_index := bf_index ub + int (length bs)\<rparr>)\<rparr>))
        else obind (IOChannel_setError IOCHANNELERROR_TOOUNGET ch) (\<lambda>ch. Ok (-1, ch)))))"

definition IOChannel_unget :: "byte list \<Rightarrow> 's IOChannel \<Rightarrow> (int \<times> 's IOChannel) outcome" where
  "IOChannel_unget bs ch = valid_channel ch
     (if IOChannel_isCallAllowedCheck ch
      then obind (IOChannel_isNotWrOnlyCheck ch) (\<lambda>(allowed, ch).
           if allowed
           then if bs = [] then Ok (0, ch)
                else if int (length bs) > ch_rdBytesFromLastWrite ch then Ok (-1, ch)
                else obind (IOChannel_pushIntoUngetBuffer bs ch) (\<lambda>(retVal, ch).
                     if retVal \<noteq> -1
                     then Ok (retVal, ch\<lparr>ch_rdBytesFromLastUnget := 0,
                            ch_rdBytesFromLastWrite := ch_rdBytesFromLastWrite ch - retVal\<rparr>)
                     else ANY_REQUIRE (IOChannel_isErrorSet ch) (Ok (retVal, ch)))
           else Ok (-1, ch))
      else Ok (-1, ch))"

subsection \<open>Seeking\<close>

definition IOChannel_seek :: "('s, 'a) IOChannelInterface \<Rightarrow> int \<Rightarrow> IOChannelWhence \<Rightarrow> 's IOChannel \<Rightarrow>
    (int \<times> 's IOChannel) outcome" where
  "IOChannel_seek I offset whence ch = valid_channel ch
     (if IOChannel_isCallAllowedCheck ch
      then obind (IOChannel_flush I ch) (\<lambda>(fl, ch).
           if fl \<noteq> -1
           then IOCHANNEL_REQUIRE_INTERFACE ch
                  (obind (indirectSeek I offset whence ch) (\<lambda>(retVal, ch).
                   if retVal = -1 then ANY_REQUIRE (IOChannel_isErrorSet ch) (Ok (retVal, ch))
                   else Ok (retVal, ch)))
           else ANY_REQUIRE (IOChannel_isErrorSet ch) (Ok (-1, ch)))
      else Ok (-1, ch))"

definition IOChannel_tell :: "('s, 'a) IOChannelInterface \<Rightarrow> 's IOChannel \<Rightarrow> (int \<times> 's IOChannel) outcome" where
  "IOChannel_tell I ch = valid_channel ch (IOChannel_seek I 0 IOCHANNELWHENCE_CUR ch)"

definition IOChannel_rewind :: "('s, 'a) IOChannelInterface \<Rightarrow> 's IOChannel \<Rightarrow> 's IOChannel outcome" where
  "IOChannel_rewind I ch = valid_channel ch
     (obind (IOChannel_seek I 0 IOCHANNELWHENCE_SET ch) (\<lambda>(r, ch).
      if r = 0 then Ok (ch\<lparr>ch_foundEof := False\<rparr>) else Ok ch))"

definition IOChannel_resetIndexes :: "('s, 'a) IOChannelInterface \<Rightarrow> 's IOChannel \<Rightarrow> 's IOChannel outcome" where
  "IOChannel_resetIndexes I ch = valid_channel ch
     (if IOChannel_isCallAllowedCheck ch
      then obind (IOChannel_flush I ch) (\<lambda>(_, ch).
           Ok (ch\<lparr>ch_currentIndexPosition := 0, ch_rdBytesFromLastWrite := 0,
                  ch_wrDeployedBytes := 0, ch_rdDeployedBytes := 0\<rparr>))
      else Ok ch)"

subsection \<open>Reading\<close>

definition IOChannel_readInternal :: "('s, 'a) IOChannelInterface \<Rightarrow> int \<Rightarrow> 's IOChannel \<Rightarrow>
    (int \<times> byte list \<times> 's IOChannel) outcome" where
  "IOChannel_readInternal I n ch =
     (if n = 0 then Ok (0, [], ch)
      else obind (if \<not> IOCHANNEL_MODEIS_R_ONLY (ch_mode ch) then IOChannel_flush I ch else Ok (0, ch)) (\<lambda>(fl, ch).
       if fl = -1 then ANY_REQUIRE (IOChannel_isErrorSet ch) (Ok (-1, [], ch))
       else deref (ch_ungetBuffer ch) (\<lambda>ub.
         obind (if bf_index ub > 0 then IOChannel_popFromUngetBuffer n ch else Ok (0, [], ch))
           (\<lambda>(rdFromUngetBuff, got, ch).
         ANY_REQUIRE (rdFromUngetBuff \<ge> 0)
           (let bytesToRead = n - rdFromUngetBuff in
            ANY_REQUIRE (bytesToRead \<ge> 0)
              (if bytesToRead = 0
               then Ok (rdFromUngetBuff, got,
                      ch\<lparr>ch_rdBytesFromLastUnget := ch_rdBytesFromLastUnget ch + rdFromUngetBuff,
                         ch_rdBytesFromLastWrite := ch_rdBytesFromLastWrite ch + rdFromUngetBuff\<rparr>)
               else obind (indirectRead I bytesToRead ch) (\<lambda>(rdFromStream, bs, ch).
                 if rdFromStream = -1
                 then ANY_REQUIRE (IOChannel_isErrorSet ch) (Ok (-1, got @ bs, ch))
                 else let retVal = rdFromUngetBuff + rdFromStream in
                   Ok (retVal, got @ bs,
                      ch\<lparr>ch_currentIndexPosition := ch_currentIndexPosition ch + rdFromStream,
                         ch_rdDeployedBytes := ch_rdDeployedBytes ch + rdFromStream,
                         ch_rdBytesFromLastWrite := ch_rdBytesFromLastWrite ch + retVal\<rparr>))))))))"

definition IOChannel_read :: "('s, 'a) IOChannelInterface \<Rightarrow> int \<Rightarrow> 's IOChannel \<Rightarrow>
    (int \<times> byte list \<times> 's IOChannel) outcome" where
  "IOChannel_read I n ch = valid_channel ch
     (ANY_REQUIRE (n \<ge> 0) (ANY_REQUIRE (ch_ungetBuffer ch \<noteq> Null) (IOCHANNEL_REQUIRE_INTERFACE ch
       (if IOChannel_isCallAllowedCheck ch
        then obind (IOChannel_isNotWrOnlyCheck ch) (\<lambda>(allowed, ch).
             if allowed then IOChannel_readInternal I n ch else Ok (-1, [], ch))
        else Ok (-1, [], ch)))))"

text \<open>The loop of \<^verbatim>\<open>IOChannel_readBlock\<close>. It needs not end, when a stream keeps returning 0
  without an error; \<open>Stuck\<close> is the end of the fuel. The bytes that were stored in the
  buffer are returned with the number the function returns.\<close>

fun readBlock_loop :: "nat \<Rightarrow> ('s, 'a) IOChannelInterface \<Rightarrow> int \<Rightarrow> byte list \<Rightarrow> 's IOChannel \<Rightarrow>
    (int \<times> byte list \<times> 's IOChannel) outcome" where
  "readBlock_loop 0 I byteRead acc ch = Stuck"
| "readBlock_loop (Suc fuel) I byteRead acc ch =
     (if byteRead = 0 then Ok (byteRead, acc, ch)
      else obind (IOChannel_readInternal I byteRead ch) (\<lambda>(received, bs, ch).
           obind (if received < 0 then Ok True
                  else obind (IOChannel_eof ch) (\<lambda>e. if e then Ok True else IOChannel_isErrorOccurred ch))
             (\<lambda>stop.
           if stop then Ok (byteRead, acc @ bs, ch)
           else readBlock_loop fuel I (byteRead - received) (acc @ bs) ch)))"

definition IOChannel_readBlock :: "nat \<Rightarrow> ('s, 'a) IOChannelInterface \<Rightarrow> int \<Rightarrow> 's IOChannel \<Rightarrow>
    (int \<times> byte list \<times> 's IOChannel) outcome" where
  "IOChannel_readBlock fuel I n ch = valid_channel ch
     (ANY_REQUIRE (n \<ge> 0) (ANY_REQUIRE (ch_ungetBuffer ch \<noteq> Null) (IOCHANNEL_REQUIRE_INTERFACE ch
       (obind (if IOChannel_isCallAllowedCheck ch
               then obind (IOChannel_isNotWrOnlyCheck ch) (\<lambda>(allowed, ch).
                    if allowed then readBlock_loop fuel I n [] ch else Ok (n, [], ch))
               else Ok (n, [], ch)) (\<lambda>(byteRead, bs, ch).
        Ok (n - byteRead, bs, ch))))))"

text \<open>A character is signed: \<^verbatim>\<open>(int)ch\<close>.\<close>

definition IOChannel_getc :: "('s, 'a) IOChannelInterface \<Rightarrow> 's IOChannel \<Rightarrow> (int \<times> 's IOChannel) outcome" where
  "IOChannel_getc I ch = valid_channel ch
     (ANY_REQUIRE (ch_ungetBuffer ch \<noteq> Null) (IOCHANNEL_REQUIRE_INTERFACE ch
       (if IOChannel_isCallAllowedCheck ch
        then obind (IOChannel_isNotWrOnlyCheck ch) (\<lambda>(allowed, ch).
             if allowed
             then obind (IOChannel_readInternal I 1 ch) (\<lambda>(status, bs, ch).
                  if status = -1 then ANY_REQUIRE (IOChannel_isErrorSet ch) (Ok (-1, ch))
                  else if status = 0
                  then obind (IOChannel_eof ch) (\<lambda>e. ANY_REQUIRE e (Ok (0, ch)))
                  else (case bs of [] \<Rightarrow> Fault | c # _ \<Rightarrow> Ok (sint c, ch)))
             else Ok (-1, ch))
        else Ok (-1, ch))))"

text \<open>\<^verbatim>\<open>IOChannel_gets\<close> stores the characters and a terminator into \<^verbatim>\<open>buffToStore\<close>, which has
  \<^verbatim>\<open>strBuffSize\<close> bytes; \<open>acc\<close> is what has been stored, \<open>ch0\<close> the last character read.\<close>

fun gets_loop :: "nat \<Rightarrow> ('s, 'a) IOChannelInterface \<Rightarrow> byte list \<Rightarrow> int \<Rightarrow> 's IOChannel \<Rightarrow>
    (int \<times> byte list \<times> 's IOChannel) outcome" where
  "gets_loop 0 I acc retVal ch = Ok (retVal, acc, ch)"
| "gets_loop (Suc k) I acc retVal ch =
     obind (IOChannel_readInternal I 1 ch) (\<lambda>(retVal, bs, ch).
     if retVal = -1 then ANY_REQUIRE (IOChannel_isErrorSet ch) (Ok (retVal, acc, ch))
     else if retVal = 0 then obind (IOChannel_eof ch) (\<lambda>e. ANY_REQUIRE e (Ok (retVal, acc, ch)))
     else (case bs of [] \<Rightarrow> Fault
           | c # _ \<Rightarrow> if c = 10 then Ok (retVal, acc, ch) else gets_loop k I (acc @ [c]) retVal ch))"

definition IOChannel_gets :: "('s, 'a) IOChannelInterface \<Rightarrow> int \<Rightarrow> 's IOChannel \<Rightarrow>
    (int \<times> byte list \<times> 's IOChannel) outcome" where
  "IOChannel_gets I strBuffSize ch = valid_channel ch
     (ANY_REQUIRE (strBuffSize > 0) (ANY_REQUIRE (ch_ungetBuffer ch \<noteq> Null) (IOCHANNEL_REQUIRE_INTERFACE ch
       (if IOChannel_isCallAllowedCheck ch
        then obind (IOChannel_isNotWrOnlyCheck ch) (\<lambda>(allowed, ch).
             if allowed
             then obind (gets_loop (nat strBuffSize) I [] (-1) ch) (\<lambda>(retVal, acc, ch).
                  defined_if (int (length acc) < strBuffSize)
                    (Ok (if retVal \<noteq> -1 then int (length acc) else retVal, acc @ [0], ch)))
             else Ok (-1, [], ch))
        else Ok (-1, [], ch)))))"

subsection \<open>Writing\<close>

text \<open>The buffer to write from and its size are a list of bytes; \<open>None\<close> is a null pointer, for
  which the size does not matter. (A negative size, which is rejected, is not a list.)\<close>

definition IOChannel_writeInternal :: "('s, 'a) IOChannelInterface \<Rightarrow> byte list option \<Rightarrow> 's IOChannel \<Rightarrow>
    (int \<times> 's IOChannel) outcome" where
  "IOChannel_writeInternal I buffer ch =
     (case buffer of None \<Rightarrow> Ok (0, ch)
      | Some bs \<Rightarrow>
        if bs = [] then Ok (0, ch)
        else deref (ch_writeBuffer ch) (\<lambda>wb.
        deref (ch_ungetBuffer ch) (\<lambda>ub.
        obind (if bf_index wb > 0 \<and> bf_index ub > 0
               then obind (IOChannel_seek I (- bf_index ub) IOCHANNELWHENCE_CUR ch) (\<lambda>(r, ch).
                    if r = -1 then ANY_REQUIRE (IOChannel_isErrorSet ch) (Ok (True, ch))
                    else deref (ch_ungetBuffer ch) (\<lambda>ub.
                         Ok (False, ch\<lparr>ch_ungetBuffer := Own (ub\<lparr>bf_index := 0\<rparr>)\<rparr>)))
               else Ok (False, ch)) (\<lambda>(failed, ch).
        if failed then Ok (-1, ch)
        else obind (indirectWrite I bs ch) (\<lambda>(retVal, ch).
             if retVal \<noteq> -1
             then Ok (retVal, ch\<lparr>ch_rdBytesFromLastWrite := 0,
                    ch_wrDeployedBytes := ch_wrDeployedBytes ch + retVal,
                    ch_currentIndexPosition := ch_currentIndexPosition ch + retVal\<rparr>)
             else ANY_REQUIRE (IOChannel_isErrorSet ch) (Ok (retVal, ch)))))))"

definition IOChannel_write :: "('s, 'a) IOChannelInterface \<Rightarrow> byte list option \<Rightarrow> 's IOChannel \<Rightarrow>
    (int \<times> 's IOChannel) outcome" where
  "IOChannel_write I buffer ch = valid_channel ch
     (ANY_REQUIRE (ch_writeBuffer ch \<noteq> Null) (ANY_REQUIRE (ch_ungetBuffer ch \<noteq> Null)
       (IOCHANNEL_REQUIRE_INTERFACE ch
       (if IOChannel_isCallAllowedCheck ch
        then obind (IOChannel_isNotRdOnlyCheck ch) (\<lambda>(allowed, ch).
             if allowed then IOChannel_writeInternal I buffer ch else Ok (-1, ch))
        else Ok (-1, ch)))))"

fun writeBlock_loop :: "nat \<Rightarrow> ('s, 'a) IOChannelInterface \<Rightarrow> byte list \<Rightarrow> 's IOChannel \<Rightarrow>
    (int \<times> 's IOChannel) outcome" where
  "writeBlock_loop 0 I bs ch = Stuck"
| "writeBlock_loop (Suc fuel) I bs ch =
     (if bs = [] then Ok (0, ch)
      else obind (IOChannel_writeInternal I (Some bs) ch) (\<lambda>(sent, ch).
           obind (if sent < 0 then Ok True
                  else obind (IOChannel_eof ch) (\<lambda>e. if e then Ok True else IOChannel_isErrorOccurred ch))
             (\<lambda>stop.
           if stop then Ok (int (length bs), ch)
           else defined_if (sent \<le> int (length bs)) (writeBlock_loop fuel I (drop (nat sent) bs) ch))))"

definition IOChannel_writeBlock :: "nat \<Rightarrow> ('s, 'a) IOChannelInterface \<Rightarrow> byte list \<Rightarrow> 's IOChannel \<Rightarrow>
    (int \<times> 's IOChannel) outcome" where
  "IOChannel_writeBlock fuel I bs ch = valid_channel ch
     (ANY_REQUIRE (ch_writeBuffer ch \<noteq> Null) (ANY_REQUIRE (ch_ungetBuffer ch \<noteq> Null)
       (IOCHANNEL_REQUIRE_INTERFACE ch
       (obind (if IOChannel_isCallAllowedCheck ch
               then obind (IOChannel_isNotRdOnlyCheck ch) (\<lambda>(allowed, ch).
                    if allowed then writeBlock_loop fuel I bs ch else Ok (int (length bs), ch))
               else Ok (int (length bs), ch)) (\<lambda>(byteWrite, ch).
        Ok (int (length bs) - byteWrite, ch))))))"

definition IOChannel_putc :: "('s, 'a) IOChannelInterface \<Rightarrow> byte \<Rightarrow> 's IOChannel \<Rightarrow> (int \<times> 's IOChannel) outcome" where
  "IOChannel_putc I c ch = valid_channel ch
     (ANY_REQUIRE (ch_writeBuffer ch \<noteq> Null) (ANY_REQUIRE (ch_ungetBuffer ch \<noteq> Null)
       (IOCHANNEL_REQUIRE_INTERFACE ch
       (if IOChannel_isCallAllowedCheck ch
        then obind (IOChannel_isNotRdOnlyCheck ch) (\<lambda>(allowed, ch).
             if allowed
             then obind (IOChannel_writeInternal I (Some [c]) ch) (\<lambda>(retVal, ch).
                  if retVal = -1 then ANY_REQUIRE (IOChannel_isErrorSet ch) (Ok (retVal, ch))
                  else if retVal = 0 then obind (IOChannel_eof ch) (\<lambda>e. ANY_REQUIRE e (Ok (retVal, ch)))
                  else Ok (retVal, ch))
             else Ok (-1, ch))
        else Ok (-1, ch)))))"

text \<open>\<open>i\<close> characters have been written; a string that is not terminated within
  \<^verbatim>\<open>strBuffSize\<close> bytes must have that many.\<close>

fun puts_loop :: "nat \<Rightarrow> ('s, 'a) IOChannelInterface \<Rightarrow> byte list \<Rightarrow> int \<Rightarrow> int \<Rightarrow> 's IOChannel \<Rightarrow>
    (int \<times> int \<times> 's IOChannel) outcome" where
  "puts_loop 0 I bs i retVal ch = Ok (retVal, i, ch)"
| "puts_loop (Suc k) I bs i retVal ch =
     (case bs of [] \<Rightarrow> Fault
      | c # cs \<Rightarrow>
        if c = 0 then Ok (retVal, i, ch)
        else obind (IOChannel_writeInternal I (Some [c]) ch) (\<lambda>(retVal, ch).
             if retVal = -1 then ANY_REQUIRE (IOChannel_isErrorSet ch) (Ok (retVal, i, ch))
             else if retVal = 0 then obind (IOChannel_eof ch) (\<lambda>e. ANY_REQUIRE e (Ok (retVal, i, ch)))
             else puts_loop k I cs (i + 1) retVal ch))"

definition IOChannel_puts :: "('s, 'a) IOChannelInterface \<Rightarrow> byte list \<Rightarrow> int \<Rightarrow> 's IOChannel \<Rightarrow>
    (int \<times> 's IOChannel) outcome" where
  "IOChannel_puts I bs strBuffSize ch = valid_channel ch
     (ANY_REQUIRE (strBuffSize > 0) (ANY_REQUIRE (ch_writeBuffer ch \<noteq> Null)
       (ANY_REQUIRE (ch_ungetBuffer ch \<noteq> Null) (IOCHANNEL_REQUIRE_INTERFACE ch
       (if IOChannel_isCallAllowedCheck ch
        then obind (IOChannel_isNotRdOnlyCheck ch) (\<lambda>(allowed, ch).
             if allowed
             then obind (puts_loop (nat strBuffSize) I bs 0 (-1) ch) (\<lambda>(retVal, i, ch).
                  Ok (if retVal \<noteq> -1 then i else retVal, ch))
             else Ok (-1, ch))
        else Ok (-1, ch))))))"

subsection \<open>Opening and closing\<close>

text \<open>Which table belongs to the info string is decided by \<^verbatim>\<open>IOChannel_findInterface\<close>, which
  loads plugins; \<open>found\<close> and \<open>spaceFollows\<close> (the character behind the slashes is a
  space) are what it answers. When \<^verbatim>\<open>indirectInit\<close> fails the stream is deleted again.\<close>

definition IOChannel_open :: "('s, 'a) IOChannelInterface \<Rightarrow> bool \<Rightarrow> bool \<Rightarrow> uint32 \<Rightarrow> 'a \<Rightarrow> 's IOChannel \<Rightarrow> nat \<Rightarrow>
    (bool \<times> 's IOChannel \<times> nat) outcome" where
  "IOChannel_open I found spaceFollows mode args ch mem = valid_channel ch
     (if \<not> IOCHANNEL_MODEIS_VALID mode
      then obind (IOChannel_setError IOCHANNELERROR_BFLGS ch) (\<lambda>ch. Ok (False, ch, mem))
      else let ch = (IOChannel_resetValuesForNewOpen ch)\<lparr>ch_mode := mode\<rparr> in
        require_ptr (ch_ungetBuffer ch) (\<lambda>ub.
        require_ptr (ch_writeBuffer ch) (\<lambda>wb.
        let ch = ch\<lparr>ch_ungetBuffer := Own (IOChannelBuffer_atOpen ub),
                    ch_writeBuffer := Own (IOChannelBuffer_atOpen wb), ch_currInterface := found\<rparr> in
        if spaceFollows then Ok (False, ch, mem)
        else if \<not> found then Ok (False, ch, mem)
        else IOCHANNEL_REQUIRE_INTERFACE ch
          (obind (indirectNew I mem) (\<lambda>(p, mem).
           obind (indirectInit I (ch\<lparr>ch_streamPtr := p\<rparr>)) (\<lambda>(ok, ch).
           if \<not> ok then obind (indirectDelete I ch) (\<lambda>ch. Ok (False, ch, mem))
           else obind (indirectOpen I args ch mem) (\<lambda>(retVal, ch, mem).
             Ok (retVal, if retVal then ch\<lparr>ch_isOpen := True\<rparr> else ch, mem))))))))"

definition IOChannel_close :: "('s, 'a) IOChannelInterface \<Rightarrow> 's IOChannel \<Rightarrow> (bool \<times> 's IOChannel) outcome" where
  "IOChannel_close I ch = valid_channel ch
     (if IOChannel_isOpenCheck ch
      then IOCHANNEL_REQUIRE_INTERFACE ch
        (obind (IOChannel_flush I ch) (\<lambda>(fl, ch).
         if fl = -1 then ANY_REQUIRE (IOChannel_isErrorSet ch) (Ok (False, ch))
         else require_ptr (ch_ungetBuffer ch) (\<lambda>ub.
              obind (IOChannelBuffer_atClose ub) (\<lambda>ub.
              require_ptr (ch_writeBuffer ch) (\<lambda>wb.
              obind (IOChannelBuffer_atClose wb) (\<lambda>wb.
              obind (indirectClose I (ch\<lparr>ch_ungetBuffer := Own ub, ch_writeBuffer := Own wb\<rparr>)) (\<lambda>(retVal, ch).
              if retVal
              then obind (indirectClear I ch) (\<lambda>ch.
                   obind (indirectDelete I ch) (\<lambda>ch.
                   Ok (retVal, IOChannel_resetValuesForNewOpen ch)))
              else ANY_REQUIRE (IOChannel_isErrorSet ch) (Ok (retVal, ch)))))))))
      else Ok (False, ch))"

end
