(* ===== verification/IO_Streams.thy ===== *)
theory IO_Streams
  imports IO_Channel
begin

text \<open>
  Three kinds of streams: memory (src/src/IOChannelGenericMem.c and src/src/IOChannelMem.c), the null
  stream (src/src/IOChannelNull.c) and the stream that measures what is written
  (src/src/IOChannelCalc.c). Each is a function table for the core in \<^verbatim>\<open>IO_Channel\<close>.

  The memory a stream works on belongs to the stream here: \<open>gm_ptr\<close> holds its content. That the
  pointer and size given as text in \<^verbatim>\<open>IOChannelMem_open\<close> come back from the parser is
  taken for granted: they are the arguments of \<open>IOChannelMem_openFromString\<close>. Mapping a
  file descriptor is not modelled.
\<close>

subsection \<open>Memory\<close>

record IOChannelGenericMem =
  gm_fd :: int
  gm_ptr :: "byte list owned"
  gm_size :: int
  gm_isMapped :: bool

type_synonym mem_channel = "IOChannelGenericMem IOChannel"

definition set_stream :: "'s \<Rightarrow> 's IOChannel \<Rightarrow> 's IOChannel" where
  "set_stream st ch = ch\<lparr>ch_streamPtr := Own st\<rparr>"

definition IOChannelGenericMem_new :: "nat \<Rightarrow> (IOChannelGenericMem owned \<times> nat) outcome" where
  "IOChannelGenericMem_new mem =
     (let (p, mem) = ANY_TALLOC \<lparr>gm_fd = 0, gm_ptr = Null, gm_size = 0, gm_isMapped = False\<rparr> mem
      in ANY_REQUIRE (p \<noteq> Null) (Ok (p, mem)))"

definition IOChannelGenericMem_init :: "mem_channel \<Rightarrow> (bool \<times> mem_channel) outcome" where
  "IOChannelGenericMem_init ch =
     obind (IOChannel_valid ch) (\<lambda>ch.
     with_stream ch (\<lambda>st.
     Ok (True, set_stream (st\<lparr>gm_ptr := Null, gm_fd := -1, gm_size := 0, gm_isMapped := False\<rparr>) ch)))"

definition IOChannelGenericMem_setPtr ::
  "byte list owned \<Rightarrow> int \<Rightarrow> int \<Rightarrow> bool \<Rightarrow> mem_channel \<Rightarrow> mem_channel outcome" where
  "IOChannelGenericMem_setPtr ptr fd n isMapped ch =
     obind (IOChannel_valid ch) (\<lambda>ch.
     ANY_REQUIRE (ptr \<noteq> Null) (ANY_REQUIRE (n > 0)
       (with_stream ch (\<lambda>st.
        IOChannel_setType IOCHANNELTYPE_MEMPTR
          (set_stream (st\<lparr>gm_ptr := ptr, gm_fd := fd, gm_size := n, gm_isMapped := isMapped\<rparr>) ch)))))"

definition IOChannelGenericMem_read :: "int \<Rightarrow> mem_channel \<Rightarrow> (int \<times> byte list \<times> mem_channel) outcome" where
  "IOChannelGenericMem_read n ch =
     ANY_REQUIRE (n > 0)
       (with_stream ch (\<lambda>st.
        let pos = ch_currentIndexPosition ch in
        if pos < gm_size st
        then let (nBytes, ch) = (if pos + n > gm_size st then (gm_size st - pos, IOCHANNEL_SET_EOF ch) else (n, ch)) in
             ANY_REQUIRE (nBytes \<ge> 0)
               (deref (gm_ptr st) (\<lambda>m.
                defined_if (0 \<le> pos \<and> pos + nBytes \<le> int (length m))
                  (Ok (nBytes, take (nat nBytes) (drop (nat pos) m), ch))))
        else Ok (-1, [], IOCHANNEL_SET_EOF ch)))"

definition IOChannelGenericMem_write :: "byte list \<Rightarrow> mem_channel \<Rightarrow> (int \<times> mem_channel) outcome" where
  "IOChannelGenericMem_write bs ch =
     ANY_REQUIRE (int (length bs) > 0)
       (with_stream ch (\<lambda>st.
        let pos = ch_currentIndexPosition ch; n = int (length bs) in
        if pos < gm_size st
        then let (nBytes, ch) = (if pos + n > gm_size st then (gm_size st - pos, IOCHANNEL_SET_EOF ch) else (n, ch)) in
             ANY_REQUIRE (nBytes \<ge> 0)
               (deref (gm_ptr st) (\<lambda>m.
                obind (copy_at pos (take (nat nBytes) bs) m) (\<lambda>m.
                Ok (nBytes, set_stream (st\<lparr>gm_ptr := Own m\<rparr>) ch))))
        else Ok (-1, IOCHANNEL_SET_EOF ch)))"

definition IOChannelGenericMem_flush :: "mem_channel \<Rightarrow> (int \<times> mem_channel) outcome" where
  "IOChannelGenericMem_flush ch = Ok (0, ch)"

definition IOChannelGenericMem_seekBack :: "int \<Rightarrow> mem_channel \<Rightarrow> (int \<times> mem_channel) outcome" where
  "IOChannelGenericMem_seekBack offset ch =
     with_stream ch (\<lambda>st.
     require_ptr (ch_ungetBuffer ch) (\<lambda>ub.
     if ch_currentIndexPosition ch + offset < 0
     then obind (IOChannel_setError IOCHANNELERROR_EOVERFLOW ch) (\<lambda>ch. Ok (-1, ch))
     else let offset = (if bf_index ub \<noteq> 0 then offset - bf_index ub else offset);
              ch = ch\<lparr>ch_ungetBuffer := Own (ub\<lparr>bf_index := 0\<rparr>),
                      ch_currentIndexPosition := ch_currentIndexPosition ch + offset\<rparr> in
          Ok (ch_currentIndexPosition ch, ch)))"

definition IOChannelGenericMem_seekForward :: "int \<Rightarrow> mem_channel \<Rightarrow> (int \<times> mem_channel) outcome" where
  "IOChannelGenericMem_seekForward offset ch =
     with_stream ch (\<lambda>st.
     require_ptr (ch_ungetBuffer ch) (\<lambda>ub.
     if ch_currentIndexPosition ch + offset > gm_size st
     then obind (IOChannel_setError IOCHANNELERROR_EOVERFLOW ch) (\<lambda>ch. Ok (-1, ch))
     else let offset = (if bf_index ub \<noteq> 0 then offset - bf_index ub else offset);
              ch = ch\<lparr>ch_ungetBuffer := Own (ub\<lparr>bf_index := 0\<rparr>),
                      ch_currentIndexPosition := ch_currentIndexPosition ch + offset\<rparr> in
          Ok (ch_currentIndexPosition ch, ch)))"

definition IOChannelGenericMem_seek :: "int \<Rightarrow> IOChannelWhence \<Rightarrow> mem_channel \<Rightarrow> (int \<times> mem_channel) outcome" where
  "IOChannelGenericMem_seek offset whence ch =
     with_stream ch (\<lambda>st.
     case whence of
       IOCHANNELWHENCE_SET \<Rightarrow>
         if offset > gm_size st \<or> offset < 0
         then obind (IOChannel_setError IOCHANNELERROR_EOVERFLOW ch) (\<lambda>ch. Ok (-1, ch))
         else Ok (offset, ch\<lparr>ch_currentIndexPosition := offset\<rparr>)
     | IOCHANNELWHENCE_CUR \<Rightarrow>
         if offset = 0 then Ok (ch_currentIndexPosition ch, ch)
         else if offset < 0 then IOChannelGenericMem_seekBack offset ch
         else IOChannelGenericMem_seekForward offset ch
     | IOCHANNELWHENCE_END \<Rightarrow> obind (IOChannel_setError IOCHANNELERROR_BNDSEK ch) (\<lambda>ch. Ok (-1, ch))
     | WHENCE_OTHER \<Rightarrow> obind (IOChannel_setError IOCHANNELERROR_BWHESEK ch) (\<lambda>ch. Ok (-1, ch)))"

definition IOChannelGenericMem_clear :: "mem_channel \<Rightarrow> mem_channel outcome" where
  "IOChannelGenericMem_clear ch = with_stream ch (\<lambda>st. Ok (set_stream (st\<lparr>gm_ptr := Null\<rparr>) ch))"

definition IOChannelGenericMem_delete :: "mem_channel \<Rightarrow> mem_channel outcome" where
  "IOChannelGenericMem_delete ch = with_stream ch (\<lambda>st. Ok (ch\<lparr>ch_streamPtr := Dangling\<rparr>))"

definition IOChannelMem_openFromString ::
  "byte list owned \<times> int \<Rightarrow> mem_channel \<Rightarrow> nat \<Rightarrow> (bool \<times> mem_channel \<times> nat) outcome" where
  "IOChannelMem_openFromString args ch mem =
     (let (ptr, n) = args;
          fail = (\<lambda>err ch. obind (IOChannel_setError err ch) (\<lambda>ch. Ok (False, ch, mem))) in
      obind (IOChannel_valid ch) (\<lambda>ch.
      if IOCHANNEL_MODEIS_DEFINED (ch_mode ch)
      then if IOCHANNEL_MODEIS_APPEND (ch_mode ch) then fail IOCHANNELERROR_BFLGS ch
           else if n \<le> 0 then fail IOCHANNELERROR_BSIZE ch
           else let creat = IOCHANNEL_MODEIS_CREAT (ch_mode ch) in
             if ptr = Null \<and> \<not> creat then fail IOCHANNELERROR_BMEMPTR ch
             else if ptr \<noteq> Null \<and> creat then fail IOCHANNELERROR_BMEMPTR ch
             else let (ptr, mem) = (if ptr = Null then ANY_TALLOC (replicate (nat n) 0) mem else (ptr, mem)) in
               if ptr = Null then obind (IOChannel_setError IOCHANNELERROR_ENOMEM ch) (\<lambda>ch. Ok (False, ch, mem))
               else obind (IOChannelGenericMem_setPtr ptr (-1) n False ch) (\<lambda>ch.
                    obind (if IOCHANNEL_MODEIS_TRUNC (ch_mode ch)
                           then with_stream ch (\<lambda>st. deref (gm_ptr st) (\<lambda>m.
                                  obind (copy_at 0 (replicate (nat n) 0) m) (\<lambda>m.
                                  Ok (set_stream (st\<lparr>gm_ptr := Own m\<rparr>) ch))))
                           else Ok ch) (\<lambda>ch.
                    Ok (True, ch, mem)))
      else let ch = ch\<lparr>ch_mode := IOCHANNEL_MODE_RW\<rparr> in
        if n \<le> 0 then fail IOCHANNELERROR_BSIZE ch
        else let (ch, ptr, mem) =
               (if ptr = Null
                then case ANY_TALLOC (replicate (nat n) 0) mem of (p, mem) \<Rightarrow>
                  (ch\<lparr>ch_mode := ch_mode ch OR IOCHANNEL_MODE_CREAT\<rparr>, p, mem)
                else (ch, ptr, mem)) in
          obind (IOChannelGenericMem_setPtr ptr (-1) n False ch) (\<lambda>ch. Ok (True, ch, mem))))"

definition IOChannelMem_close :: "mem_channel \<Rightarrow> (bool \<times> mem_channel) outcome" where
  "IOChannelMem_close ch =
     with_stream ch (\<lambda>st.
     if IOCHANNEL_MODEIS_CLOSE (ch_mode ch)
     then obind (ANY_FREE (gm_ptr st)) (\<lambda>p. Ok (True, set_stream (st\<lparr>gm_ptr := p\<rparr>) ch))
     else Ok (True, ch))"

definition IOChannelMem_init :: "mem_channel \<Rightarrow> (bool \<times> mem_channel) outcome" where
  "IOChannelMem_init ch = obind (IOChannel_valid ch) IOChannelGenericMem_init"

definition IOChannelMem_read :: "int \<Rightarrow> mem_channel \<Rightarrow> (int \<times> byte list \<times> mem_channel) outcome" where
  "IOChannelMem_read n ch = ANY_REQUIRE (n > 0) (IOChannelGenericMem_read n ch)"

definition IOChannelMem_write :: "byte list \<Rightarrow> mem_channel \<Rightarrow> (int \<times> mem_channel) outcome" where
  "IOChannelMem_write bs ch = ANY_REQUIRE (int (length bs) > 0) (IOChannelGenericMem_write bs ch)"

definition IOChannelMemOps :: "(IOChannelGenericMem, byte list owned \<times> int) IOChannelInterface" where
  "IOChannelMemOps = \<lparr>
     indirectNew = IOChannelGenericMem_new,
     indirectInit = IOChannelMem_init,
     indirectOpen = IOChannelMem_openFromString,
     indirectRead = IOChannelMem_read,
     indirectWrite = IOChannelMem_write,
     indirectFlush = IOChannelGenericMem_flush,
     indirectSeek = IOChannelGenericMem_seek,
     indirectClose = IOChannelMem_close,
     indirectClear = IOChannelGenericMem_clear,
     indirectDelete = IOChannelGenericMem_delete\<rparr>"

subsection \<open>The null stream\<close>

definition IOChannelNull_openFromString :: "unit \<Rightarrow> unit IOChannel \<Rightarrow> nat \<Rightarrow> (bool \<times> unit IOChannel \<times> nat) outcome" where
  "IOChannelNull_openFromString args ch mem = obind (IOChannel_valid ch) (\<lambda>ch. Ok (True, ch, mem))"

definition IOChannelNull_init :: "unit IOChannel \<Rightarrow> (bool \<times> unit IOChannel) outcome" where
  "IOChannelNull_init ch = obind (IOChannel_valid ch) (\<lambda>ch. Ok (True, ch))"

definition IOChannelNull_read :: "int \<Rightarrow> unit IOChannel \<Rightarrow> (int \<times> byte list \<times> unit IOChannel) outcome" where
  "IOChannelNull_read n ch = Ok (0, [], ch)"

definition IOChannelNull_write :: "byte list \<Rightarrow> unit IOChannel \<Rightarrow> (int \<times> unit IOChannel) outcome" where
  "IOChannelNull_write bs ch = Ok (int (length bs), ch)"

definition IOChannelNull_flush :: "unit IOChannel \<Rightarrow> (int \<times> unit IOChannel) outcome" where
  "IOChannelNull_flush ch = Ok (0, ch)"

definition IOChannelNull_seek :: "int \<Rightarrow> IOChannelWhence \<Rightarrow> unit IOChannel \<Rightarrow> (int \<times> unit IOChannel) outcome" where
  "IOChannelNull_seek offset whence ch = Ok (0, ch)"

definition IOChannelNull_close :: "unit IOChannel \<Rightarrow> (bool \<times> unit IOChannel) outcome" where
  "IOChannelNull_close ch = Ok (True, ch)"

definition IOChannelNullOps :: "(unit, unit) IOChannelInterface" where
  "IOChannelNullOps = \<lparr>
     indirectNew = (\<lambda>mem. Ok (Null, mem)),
     indirectInit = IOChannelNull_init,
     indirectOpen = IOChannelNull_openFromString,
     indirectRead = IOChannelNull_read,
     indirectWrite = IOChannelNull_write,
     indirectFlush = IOChannelNull_flush,
     indirectSeek = IOChannelNull_seek,
     indirectClose = IOChannelNull_close,
     indirectClear = Ok,
     indirectDelete = Ok\<rparr>"

subsection \<open>The measuring stream\<close>

record IOChannelCalc =
  ca_numWriteCalls :: int
  ca_maxSize :: int
  ca_minSize :: int

type_synonym calc_channel = "IOChannelCalc IOChannel"

definition IOChannelCalc_new :: "nat \<Rightarrow> (IOChannelCalc owned \<times> nat) outcome" where
  "IOChannelCalc_new mem =
     (let (p, mem) = ANY_TALLOC \<lparr>ca_numWriteCalls = 0, ca_maxSize = 0, ca_minSize = 0\<rparr> mem
      in ANY_REQUIRE (p \<noteq> Null) (Ok (p, mem)))"

definition IOChannelCalc_init :: "calc_channel \<Rightarrow> (bool \<times> calc_channel) outcome" where
  "IOChannelCalc_init ch =
     obind (IOChannel_valid ch) (\<lambda>ch.
     with_stream ch (\<lambda>st.
     Ok (True, set_stream (st\<lparr>ca_numWriteCalls := 0, ca_maxSize := 0, ca_minSize := 0\<rparr>) ch)))"

definition IOChannelCalc_openFromString :: "unit \<Rightarrow> calc_channel \<Rightarrow> nat \<Rightarrow> (bool \<times> calc_channel \<times> nat) outcome" where
  "IOChannelCalc_openFromString args ch mem =
     obind (IOChannel_valid ch) (\<lambda>ch.
     if IOCHANNEL_MODEIS_W_ONLY (ch_mode ch) then Ok (True, ch, mem)
     else obind (IOChannel_setError IOCHANNELERROR_BFLGS ch) (\<lambda>ch. Ok (False, ch, mem)))"

definition IOChannelCalc_read :: "int \<Rightarrow> calc_channel \<Rightarrow> (int \<times> byte list \<times> calc_channel) outcome" where
  "IOChannelCalc_read n ch = Ok (-1, [], ch)"

definition IOChannelCalc_write :: "byte list \<Rightarrow> calc_channel \<Rightarrow> (int \<times> calc_channel) outcome" where
  "IOChannelCalc_write bs ch =
     obind (IOChannel_valid ch) (\<lambda>ch.
     with_stream ch (\<lambda>st.
     let n = int (length bs) in
     Ok (n, set_stream (st\<lparr>
       ca_numWriteCalls := ca_numWriteCalls st + 1,
       ca_maxSize := (if n > ca_maxSize st then n else ca_maxSize st),
       ca_minSize := (if n < ca_minSize st then n else ca_minSize st)\<rparr>) ch)))"

definition IOChannelCalc_flush :: "calc_channel \<Rightarrow> (int \<times> calc_channel) outcome" where
  "IOChannelCalc_flush ch = Ok (0, ch)"

definition IOChannelCalc_seek :: "int \<Rightarrow> IOChannelWhence \<Rightarrow> calc_channel \<Rightarrow> (int \<times> calc_channel) outcome" where
  "IOChannelCalc_seek offset whence ch = Ok (0, ch)"

definition IOChannelCalc_close :: "calc_channel \<Rightarrow> (bool \<times> calc_channel) outcome" where
  "IOChannelCalc_close ch = obind (IOChannel_valid ch) (\<lambda>ch. Ok (True, ch))"

definition IOChannelCalc_clear :: "calc_channel \<Rightarrow> calc_channel outcome" where
  "IOChannelCalc_clear ch =
     obind (IOChannel_valid ch) (\<lambda>ch.
     with_stream ch (\<lambda>st.
     Ok (set_stream (st\<lparr>ca_numWriteCalls := 0, ca_maxSize := 0, ca_minSize := 0\<rparr>) ch)))"

definition IOChannelCalc_delete :: "calc_channel \<Rightarrow> calc_channel outcome" where
  "IOChannelCalc_delete ch =
     obind (IOChannel_valid ch) (\<lambda>ch. with_stream ch (\<lambda>st. Ok (ch\<lparr>ch_streamPtr := Dangling\<rparr>)))"

definition IOChannelCalcOps :: "(IOChannelCalc, unit) IOChannelInterface" where
  "IOChannelCalcOps = \<lparr>
     indirectNew = IOChannelCalc_new,
     indirectInit = IOChannelCalc_init,
     indirectOpen = IOChannelCalc_openFromString,
     indirectRead = IOChannelCalc_read,
     indirectWrite = IOChannelCalc_write,
     indirectFlush = IOChannelCalc_flush,
     indirectSeek = IOChannelCalc_seek,
     indirectClose = IOChannelCalc_close,
     indirectClear = IOChannelCalc_clear,
     indirectDelete = IOChannelCalc_delete\<rparr>"

end
