(* ===== verification/IO_Channel_Correct.thy ===== *)
theory IO_Channel_Correct
  imports IO_Channel Interfaces
begin

text \<open>
  Lemmas about the core of \<^verbatim>\<open>IOChannel\<close> that hold for every stream: the stack of ungot bytes, and,
  in the locale \<open>stream\<close>, reading and writing through a function table that keeps its promises.
\<close>

subsection \<open>The stack of ungot bytes\<close>

lemma pop_loop_ok:
  assumes "n \<le> k" and "k \<le> length buf" and "i \<le> n"
  shows "pop_loop buf (int k) (int n) (int i) = Ok (int n, take (n - i) (drop i (rev (take k buf))))"
  using assms(3)
proof (induction "n - i" arbitrary: i)
  case 0
  then show ?case by (simp add: pop_loop.simps)
next
  case (Suc m)
  then have i: "i < n" by simp
  have idx: "nat (int k - int i - 1) = k - Suc i" using i assms(1) by linarith
  have "pop_loop buf (int k) (int n) (int (Suc i)) = Ok (int n, take (n - Suc i) (drop (Suc i) (rev (take k buf))))"
    by (rule Suc.hyps(1)) (use Suc.hyps(2) i in simp_all)
  moreover have "buf ! (k - Suc i) = rev (take k buf) ! i"
    using i assms by (simp add: rev_nth min_absorb2)
  moreover have "drop i (rev (take k buf)) = rev (take k buf) ! i # drop (Suc i) (rev (take k buf))"
    using i assms by (intro Cons_nth_drop_Suc [symmetric]) (simp add: min_absorb2)
  moreover have "n - i = Suc (n - Suc i)" using i by simp
  ultimately show ?case
    using i assms idx by (subst pop_loop.simps) (simp add: Let_def add.commute del: take_rev drop_rev)
qed

text \<open>A read of more bytes than have been ungot runs one byte below the buffer.\<close>

lemma pop_loop_fault:
  assumes "k < n" and "k \<le> length buf" and "i \<le> k"
  shows "pop_loop buf (int k) (int n) (int i) = Fault"
  using assms(3)
proof (induction "k - i" arbitrary: i)
  case 0
  then show ?case using assms(1) by (subst pop_loop.simps) (simp add: Let_def)
next
  case (Suc m)
  then have i: "i < k" by simp
  have "pop_loop buf (int k) (int n) (int (Suc i)) = Fault"
    by (rule Suc.hyps(1)) (use Suc.hyps(2) i in simp_all)
  then show ?case
    using i assms by (subst pop_loop.simps) (simp add: Let_def add.commute)
qed

lemma push_loop_ok:
  "length qs \<le> p \<Longrightarrow> p \<le> length buf \<Longrightarrow>
   push_loop qs (int p) buf = Ok (take (p - length qs) buf @ rev qs @ drop p buf)"
proof (induction qs arbitrary: p buf)
  case (Cons q qs)
  then obtain p' where p: "p = Suc p'" by (cases p) auto
  have "push_loop qs (int p') (buf[p' := q]) =
      Ok (take (p' - length qs) (buf[p' := q]) @ rev qs @ drop p' (buf[p' := q]))"
    using Cons.prems p by (intro Cons.IH) auto
  moreover have "drop p' (buf[p' := q]) = q # drop p buf"
    using Cons.prems p by (simp add: drop_update_swap Cons_nth_drop_Suc [symmetric])
  ultimately show ?case
    using Cons.prems p by (simp add: nat_diff_distrib)
qed simp

definition buf_content :: "IOChannelBuffer \<Rightarrow> byte list option" where
  "buf_content b = (case bf_ptr b of
     NoBuffer \<Rightarrow> None
   | DefaultBuffer \<Rightarrow> (case bf_defaultBuffer b of Own bs \<Rightarrow> Some bs | _ \<Rightarrow> None)
   | Allocated bs \<Rightarrow> Some bs
   | UserBuffer bs \<Rightarrow> Some bs)"

lemma buf_bytes_Some [simp]: "buf_content b = Some bs \<Longrightarrow> buf_bytes b k = k bs"
  by (auto simp: buf_content_def buf_bytes_def split: buffer_ptr.splits owned.splits)

lemma buf_content_store [simp]: "buf_content b = Some bs \<Longrightarrow> buf_content (buf_store cs b) = Some cs"
  by (auto simp: buf_content_def buf_store_def split: buffer_ptr.splits owned.splits)

lemma buf_content_update [simp]:
  "buf_content (b\<lparr>bf_index := i\<rparr>) = buf_content b"
  "buf_content (b\<lparr>bf_size := n\<rparr>) = buf_content b"
  by (simp_all add: buf_content_def split: buffer_ptr.splits)

lemma buf_store_fields [simp]:
  "bf_size (buf_store cs b) = bf_size b"
  "bf_index (buf_store cs b) = bf_index b"
  by (simp_all add: buf_store_def split: buffer_ptr.splits)

definition buffer_ok :: "IOChannelBuffer owned \<Rightarrow> bool" where
  "buffer_ok p \<longleftrightarrow> (\<exists>b bs. p = Own b \<and> buf_content b = Some bs \<and> 0 \<le> bf_index b \<and>
     bf_index b \<le> bf_size b \<and> bf_size b \<le> int (length bs))"

text \<open>The bytes of a stack, the next one to be popped first.\<close>

definition stack :: "IOChannelBuffer owned \<Rightarrow> byte list" where
  "stack p = (case p of
     Own b \<Rightarrow> (case buf_content b of Some bs \<Rightarrow> rev (take (nat (bf_index b)) bs) | None \<Rightarrow> [])
   | _ \<Rightarrow> [])"

definition room :: "IOChannelBuffer owned \<Rightarrow> nat" where
  "room p = (case p of Own b \<Rightarrow> nat (bf_size b - bf_index b) | _ \<Rightarrow> 0)"

lemma buffer_ok_cases:
  assumes "buffer_ok p"
  obtains b bs k where "p = Own b" "buf_content b = Some bs" "bf_index b = int k" "k \<le> length bs"
    "int k \<le> bf_size b" "bf_size b \<le> int (length bs)" "stack p = rev (take k bs)" "length (stack p) = k"
    "room p = nat (bf_size b) - k"
proof -
  from assms obtain b bs where b: "p = Own b" "buf_content b = Some bs" "0 \<le> bf_index b"
    "bf_index b \<le> bf_size b" "bf_size b \<le> int (length bs)"
    by (auto simp: buffer_ok_def)
  show ?thesis
    by (rule that [of b bs "nat (bf_index b)"]) (use b in \<open>auto simp: stack_def room_def\<close>)
qed

lemma buffer_okI:
  "buf_content b = Some bs \<Longrightarrow> 0 \<le> bf_index b \<Longrightarrow> bf_index b \<le> bf_size b \<Longrightarrow> bf_size b \<le> int (length bs) \<Longrightarrow>
   buffer_ok (Own b)"
  by (auto simp: buffer_ok_def)

lemma pop_ok:
  assumes "buffer_ok (ch_ungetBuffer ch)" and "n \<le> length (stack (ch_ungetBuffer ch))"
  shows "\<exists>p. IOChannel_popFromUngetBuffer (int n) ch =
      Ok (int n, take n (stack (ch_ungetBuffer ch)), ch\<lparr>ch_ungetBuffer := p\<rparr>) \<and>
    buffer_ok p \<and> stack p = drop n (stack (ch_ungetBuffer ch)) \<and>
    room p = room (ch_ungetBuffer ch) + n"
  using assms(1)
proof (cases rule: buffer_ok_cases)
  case (1 b bs k)
  with assms(2) have n: "n \<le> k" by simp
  let ?p = "Own (b\<lparr>bf_index := int (k - n)\<rparr>)"
  have "IOChannel_popFromUngetBuffer (int n) ch = Ok (int n, take n (stack (ch_ungetBuffer ch)), ch\<lparr>ch_ungetBuffer := ?p\<rparr>)"
    using 1 n pop_loop_ok [OF n, of bs 0] by (simp add: IOChannel_popFromUngetBuffer_def of_nat_diff)
  moreover have "buffer_ok ?p"
    using 1 n by (intro buffer_okI) auto
  moreover have "stack ?p = drop n (stack (ch_ungetBuffer ch))"
    using 1 n by (simp add: stack_def drop_rev min_absorb2 take_take nat_diff_distrib)
  moreover have "room ?p = room (ch_ungetBuffer ch) + n"
    using 1 n by (simp add: room_def nat_diff_distrib' of_nat_diff)
  ultimately show ?thesis by blast
qed

lemma pop_fault:
  assumes "buffer_ok (ch_ungetBuffer ch)" and "length (stack (ch_ungetBuffer ch)) < n"
  shows "IOChannel_popFromUngetBuffer (int n) ch = Fault"
  using assms(1)
proof (cases rule: buffer_ok_cases)
  case (1 b bs k)
  with assms(2) pop_loop_fault [of k n bs 0] show ?thesis
    by (simp add: IOChannel_popFromUngetBuffer_def)
qed

lemma push_ok:
  assumes "buffer_ok (ch_ungetBuffer ch)" and "bs \<noteq> []" and "length bs \<le> room (ch_ungetBuffer ch)"
  shows "\<exists>p. IOChannel_pushIntoUngetBuffer bs ch = Ok (int (length bs), ch\<lparr>ch_ungetBuffer := p\<rparr>) \<and>
    buffer_ok p \<and> stack p = bs @ stack (ch_ungetBuffer ch) \<and>
    room p = room (ch_ungetBuffer ch) - length bs"
  using assms(1)
proof (cases rule: buffer_ok_cases)
  case (1 b cs k)
  let ?m = "k + length bs"
  let ?cs = "take k cs @ rev bs @ drop ?m cs"
  let ?p = "Own ((buf_store ?cs b)\<lparr>bf_index := int ?m\<rparr>)"
  have m: "int ?m \<le> bf_size b" "?m \<le> length cs" using 1 assms(3) by linarith+
  have "IOChannel_pushIntoUngetBuffer bs ch = Ok (int (length bs), ch\<lparr>ch_ungetBuffer := ?p\<rparr>)"
    using 1 m assms(2) push_loop_ok [of bs ?m cs] by (simp add: IOChannel_pushIntoUngetBuffer_def Let_def)
  moreover have "buffer_ok ?p"
    by (rule buffer_okI [of _ ?cs]) (use 1 m in auto)
  moreover have "stack ?p = bs @ stack (ch_ungetBuffer ch)"
    using 1 m by (simp add: stack_def nat_int_add)
  moreover have "room ?p = room (ch_ungetBuffer ch) - length bs"
    using 1 m by (simp add: room_def)
  ultimately show ?thesis by blast
qed

subsection \<open>Channels that are ready\<close>

text \<open>An open channel without an error, with its buffers in place, that does not buffer its writes.\<close>

definition ready :: "'s IOChannel \<Rightarrow> bool" where
  "ready ch \<longleftrightarrow> ch_valid ch = IOCHANNEL_VALID \<and> ch_isOpen ch \<and> ch_currInterface ch \<and>
     ch_errorType ch = IOCHANNELERROR_NONE \<and> \<not> ch_usesWriteBuffering ch \<and>
     buffer_ok (ch_ungetBuffer ch) \<and> (\<exists>wb. ch_writeBuffer ch = Own wb \<and> bf_index wb = 0)"

definition readable :: "'s IOChannel \<Rightarrow> bool" where
  "readable ch \<longleftrightarrow> ready ch \<and> \<not> IOCHANNEL_MODEIS_W_ONLY (ch_mode ch)"

definition writable :: "'s IOChannel \<Rightarrow> bool" where
  "writable ch \<longleftrightarrow> ready ch \<and> \<not> IOCHANNEL_MODEIS_R_ONLY (ch_mode ch)"

abbreviation ungot :: "'s IOChannel \<Rightarrow> byte list" where
  "ungot ch \<equiv> stack (ch_ungetBuffer ch)"

lemma buffer_ok_Own: "buffer_ok p \<Longrightarrow> \<exists>b. p = Own b \<and> 0 \<le> bf_index b \<and> (bf_index b = 0 \<longleftrightarrow> stack p = [])"
  by (erule buffer_ok_cases) auto

lemma buffer_ok_nonnull: "buffer_ok p \<Longrightarrow> p \<noteq> Null"
  by (auto simp: buffer_ok_def)

lemma ready_flush: "ready ch \<Longrightarrow> IOChannel_flush I ch = Ok (0, ch)"
  by (simp add: ready_def IOChannel_flush_def valid_channel_def IOChannel_isOpenCheck_def
      IOChannel_usesWriteBuffering_def)

lemma ready_eof: "ready ch \<Longrightarrow> IOChannel_eof ch = Ok (ch_foundEof ch \<and> ungot ch = [])"
  by (auto simp: ready_def IOChannel_eof_def valid_channel_def IOChannel_isOpenCheck_def dest!: buffer_ok_Own)

lemma ready_simps:
  assumes "ready ch"
  shows "valid_channel ch k = k" "IOCHANNEL_REQUIRE_INTERFACE ch k = k" "IOChannel_isCallAllowedCheck ch"
    "IOChannel_isErrorOccurred ch = Ok False" "ch_ungetBuffer ch \<noteq> Null" "ch_writeBuffer ch \<noteq> Null"
  using assms buffer_ok_nonnull
  by (auto simp: ready_def valid_channel_def IOCHANNEL_REQUIRE_INTERFACE_def IOChannel_isCallAllowedCheck_def
      IOChannel_isErrorOccurred_def IOChannel_isErrorSet_def)

lemma readable_simps:
  assumes "readable ch"
  shows "ready ch" "IOChannel_isNotWrOnlyCheck ch = Ok (True, ch)"
  using assms by (simp_all add: readable_def IOChannel_isNotWrOnlyCheck_def)

lemma writable_simps:
  assumes "writable ch"
  shows "ready ch" "IOChannel_isNotRdOnlyCheck ch = Ok (True, ch)"
  using assms by (simp_all add: writable_def IOChannel_isNotRdOnlyCheck_def)

lemma read_readable:
  "readable ch \<Longrightarrow> IOChannel_read I (int n) ch = IOChannel_readInternal I (int n) ch"
  by (simp add: IOChannel_read_def readable_simps ready_simps [OF readable_simps(1)])

lemma write_writable:
  "writable ch \<Longrightarrow> IOChannel_write I bs ch = IOChannel_writeInternal I bs ch"
  by (simp add: IOChannel_write_def writable_simps ready_simps [OF writable_simps(1)])

lemma ready_update [simp]:
  "ready (ch\<lparr>ch_currentIndexPosition := a\<rparr>) = ready ch" "ready (ch\<lparr>ch_rdDeployedBytes := b\<rparr>) = ready ch"
  "ready (ch\<lparr>ch_rdBytesFromLastWrite := c\<rparr>) = ready ch" "ready (ch\<lparr>ch_rdBytesFromLastUnget := d\<rparr>) = ready ch"
  "ready (ch\<lparr>ch_wrDeployedBytes := e\<rparr>) = ready ch" "ready (ch\<lparr>ch_foundEof := f\<rparr>) = ready ch"
  "ready (ch\<lparr>ch_streamPtr := p\<rparr>) = ready ch"
  by (simp_all add: ready_def)

lemma readable_update [simp]:
  "readable (ch\<lparr>ch_currentIndexPosition := a\<rparr>) = readable ch" "readable (ch\<lparr>ch_rdDeployedBytes := b\<rparr>) = readable ch"
  "readable (ch\<lparr>ch_rdBytesFromLastWrite := c\<rparr>) = readable ch"
  "readable (ch\<lparr>ch_rdBytesFromLastUnget := d\<rparr>) = readable ch"
  "readable (ch\<lparr>ch_wrDeployedBytes := e\<rparr>) = readable ch" "readable (ch\<lparr>ch_foundEof := f\<rparr>) = readable ch"
  "readable (ch\<lparr>ch_streamPtr := p\<rparr>) = readable ch"
  by (simp_all add: readable_def)

lemma writable_update [simp]:
  "writable (ch\<lparr>ch_currentIndexPosition := a\<rparr>) = writable ch" "writable (ch\<lparr>ch_rdDeployedBytes := b\<rparr>) = writable ch"
  "writable (ch\<lparr>ch_rdBytesFromLastWrite := c\<rparr>) = writable ch"
  "writable (ch\<lparr>ch_rdBytesFromLastUnget := d\<rparr>) = writable ch"
  "writable (ch\<lparr>ch_wrDeployedBytes := e\<rparr>) = writable ch" "writable (ch\<lparr>ch_foundEof := f\<rparr>) = writable ch"
  "writable (ch\<lparr>ch_streamPtr := p\<rparr>) = writable ch"
  by (simp_all add: writable_def)

lemma ready_unget: "ready ch \<Longrightarrow> buffer_ok p \<Longrightarrow> ready (ch\<lparr>ch_ungetBuffer := p\<rparr>)"
  by (simp add: ready_def)

lemma readable_unget: "readable ch \<Longrightarrow> buffer_ok p \<Longrightarrow> readable (ch\<lparr>ch_ungetBuffer := p\<rparr>)"
  by (simp add: readable_def ready_unget)

lemma writable_unget: "writable ch \<Longrightarrow> buffer_ok p \<Longrightarrow> writable (ch\<lparr>ch_ungetBuffer := p\<rparr>)"
  by (simp add: writable_def ready_unget)

subsection \<open>Ungetting and reading back, for every stream\<close>

lemma read_ungot:
  assumes "readable ch" and "0 < n" and "n \<le> length (ungot ch)"
  shows "\<exists>p. IOChannel_read I (int n) ch = Ok (int n, take n (ungot ch), ch\<lparr>ch_ungetBuffer := p,
      ch_rdBytesFromLastUnget := ch_rdBytesFromLastUnget ch + int n,
      ch_rdBytesFromLastWrite := ch_rdBytesFromLastWrite ch + int n\<rparr>) \<and>
    buffer_ok p \<and> stack p = drop n (ungot ch) \<and> room p = room (ch_ungetBuffer ch) + n"
proof -
  have r: "ready ch" using assms(1) by (rule readable_simps)
  then have ub: "buffer_ok (ch_ungetBuffer ch)" by (simp add: ready_def)
  obtain b where b: "ch_ungetBuffer ch = Own b" "0 < bf_index b"
    using buffer_ok_Own [OF ub] assms(2,3) by fastforce
  obtain p where p: "IOChannel_popFromUngetBuffer (int n) ch = Ok (int n, take n (ungot ch), ch\<lparr>ch_ungetBuffer := p\<rparr>)"
    "buffer_ok p" "stack p = drop n (ungot ch)" "room p = room (ch_ungetBuffer ch) + n"
    using pop_ok [OF ub assms(3)] by blast
  have "IOChannel_readInternal I (int n) ch = Ok (int n, take n (ungot ch), ch\<lparr>ch_ungetBuffer := p,
      ch_rdBytesFromLastUnget := ch_rdBytesFromLastUnget ch + int n,
      ch_rdBytesFromLastWrite := ch_rdBytesFromLastWrite ch + int n\<rparr>)"
    using assms(2) b p(1) by (simp add: IOChannel_readInternal_def ready_flush [OF r])
  with p(2-4) assms(1) show ?thesis by (auto simp: read_readable)
qed

lemma read_more_than_ungot:
  assumes "readable ch" and "ungot ch \<noteq> []" and "length (ungot ch) < n"
  shows "IOChannel_read I (int n) ch = Fault"
proof -
  have r: "ready ch" using assms(1) by (rule readable_simps)
  then have ub: "buffer_ok (ch_ungetBuffer ch)" by (simp add: ready_def)
  obtain b where b: "ch_ungetBuffer ch = Own b" "0 < bf_index b"
    using buffer_ok_Own [OF ub] assms(2) by fastforce
  with assms pop_fault [OF ub assms(3)] show ?thesis
    by (simp add: read_readable IOChannel_readInternal_def ready_flush [OF r])
qed

lemma unget_ok:
  assumes "readable ch" and "bs \<noteq> []" and "int (length bs) \<le> ch_rdBytesFromLastWrite ch"
    and "length bs \<le> room (ch_ungetBuffer ch)"
  shows "\<exists>p. IOChannel_unget bs ch = Ok (int (length bs), ch\<lparr>ch_ungetBuffer := p, ch_rdBytesFromLastUnget := 0,
      ch_rdBytesFromLastWrite := ch_rdBytesFromLastWrite ch - int (length bs)\<rparr>) \<and>
    buffer_ok p \<and> stack p = bs @ ungot ch \<and> room p = room (ch_ungetBuffer ch) - length bs"
proof -
  have r: "ready ch" using assms(1) by (rule readable_simps)
  then have ub: "buffer_ok (ch_ungetBuffer ch)" by (simp add: ready_def)
  from push_ok [OF ub assms(2,4)] assms show ?thesis
    by (fastforce simp: IOChannel_unget_def ready_simps [OF r] readable_simps)
qed

subsection \<open>Streams that keep their promises\<close>

text \<open>What the core relies on: a read or write that the stream can serve (\<open>can_read\<close>,
  \<open>can_write\<close>) returns how many bytes it has moved, at most as many as it was asked for, and touches
  nothing of the channel but its own data and the end of file flag.\<close>

locale stream =
  fixes I :: "('s, 'a) IOChannelInterface"
    and can_read :: "'s IOChannel \<Rightarrow> bool"
    and can_write :: "'s IOChannel \<Rightarrow> bool"
  assumes read_law: "can_read ch \<Longrightarrow> ready ch \<Longrightarrow> 0 < n \<Longrightarrow> \<exists>r bs p e. r \<le> n \<and> length bs = r \<and>
      indirectRead I (int n) ch = Ok (int r, bs, ch\<lparr>ch_streamPtr := p, ch_foundEof := e\<rparr>)"
    and write_law: "can_write ch \<Longrightarrow> ready ch \<Longrightarrow> bs \<noteq> [] \<Longrightarrow> \<exists>r p e. r \<le> length bs \<and>
      indirectWrite I bs ch = Ok (int r, ch\<lparr>ch_streamPtr := p, ch_foundEof := e\<rparr>)"
begin

lemma read_counts:
  assumes "readable ch" and "ungot ch = []" and "can_read ch" and "0 < n"
  shows "\<exists>r bs p e. r \<le> n \<and> length bs = r \<and>
    indirectRead I (int n) ch = Ok (int r, bs, ch\<lparr>ch_streamPtr := p, ch_foundEof := e\<rparr>) \<and>
    IOChannel_readInternal I (int n) ch = Ok (int r, bs, ch\<lparr>ch_streamPtr := p, ch_foundEof := e,
      ch_currentIndexPosition := ch_currentIndexPosition ch + int r,
      ch_rdDeployedBytes := ch_rdDeployedBytes ch + int r,
      ch_rdBytesFromLastWrite := ch_rdBytesFromLastWrite ch + int r\<rparr>)"
proof -
  have r: "ready ch" using assms(1) by (rule readable_simps)
  then obtain b where b: "ch_ungetBuffer ch = Own b" "bf_index b = 0"
    using buffer_ok_Own [of "ch_ungetBuffer ch"] assms(2) by (auto simp: ready_def)
  from read_law [OF assms(3) r assms(4)] b assms(4) show ?thesis
    by (fastforce simp: IOChannel_readInternal_def ready_flush [OF r] Let_def)
qed

lemma write_counts:
  assumes "writable ch" and "can_write ch" and "bs \<noteq> []"
  shows "\<exists>r p e. r \<le> length bs \<and>
    indirectWrite I bs ch = Ok (int r, ch\<lparr>ch_streamPtr := p, ch_foundEof := e\<rparr>) \<and>
    IOChannel_writeInternal I (Some bs) ch = Ok (int r, ch\<lparr>ch_streamPtr := p, ch_foundEof := e,
      ch_rdBytesFromLastWrite := 0,
      ch_wrDeployedBytes := ch_wrDeployedBytes ch + int r,
      ch_currentIndexPosition := ch_currentIndexPosition ch + int r\<rparr>)"
proof -
  have r: "ready ch" using assms(1) by (rule writable_simps)
  then obtain b where b: "ch_ungetBuffer ch = Own b"
    using buffer_ok_Own [of "ch_ungetBuffer ch"] by (auto simp: ready_def)
  obtain wb where wb: "ch_writeBuffer ch = Own wb" "bf_index wb = 0" using r by (auto simp: ready_def)
  from write_law [OF assms(2) r assms(3)] b wb assms(3) show ?thesis
    by (fastforce simp: IOChannel_writeInternal_def)
qed

end

text \<open>A stream that sets the end of file flag exactly when it moves less than it was asked for.\<close>

locale bounded_stream = stream +
  assumes read_short: "can_read ch \<Longrightarrow> ready ch \<Longrightarrow> 0 < n \<Longrightarrow> indirectRead I (int n) ch = Ok (int r, bs, ch') \<Longrightarrow>
      ch_foundEof ch' \<longleftrightarrow> ch_foundEof ch \<or> r < n"
    and write_short: "can_write ch \<Longrightarrow> ready ch \<Longrightarrow> bs \<noteq> [] \<Longrightarrow> indirectWrite I bs ch = Ok (int r, ch') \<Longrightarrow>
      ch_foundEof ch' \<longleftrightarrow> ch_foundEof ch \<or> r < length bs"
begin

text \<open>A block is read completely, or the call returns 0 although \<open>r\<close> bytes have been stored.\<close>

lemma readBlock_counts:
  assumes "readable ch" and "ungot ch = []" and "can_read ch" and "0 < n" and "\<not> ch_foundEof ch" and "2 \<le> fuel"
  shows "\<exists>r bs ch'. r \<le> n \<and> length bs = r \<and> IOChannel_readInternal I (int n) ch = Ok (int r, bs, ch') \<and>
    IOChannel_readBlock fuel I (int n) ch = Ok (if r = n then int n else 0, bs, ch')"
proof -
  have rd: "ready ch" using assms(1) by (rule readable_simps)
  obtain r bs p e where r: "r \<le> n" "length bs = r"
    "indirectRead I (int n) ch = Ok (int r, bs, ch\<lparr>ch_streamPtr := p, ch_foundEof := e\<rparr>)"
    "IOChannel_readInternal I (int n) ch = Ok (int r, bs, ch\<lparr>ch_streamPtr := p, ch_foundEof := e,
      ch_currentIndexPosition := ch_currentIndexPosition ch + int r,
      ch_rdDeployedBytes := ch_rdDeployedBytes ch + int r,
      ch_rdBytesFromLastWrite := ch_rdBytesFromLastWrite ch + int r\<rparr>)"
    using read_counts [OF assms(1-4)] by blast
  have e: "e \<longleftrightarrow> r < n"
    using read_short [OF assms(3) rd assms(4) r(3)] assms(5) by simp
  obtain k where k: "fuel = Suc (Suc k)" using assms(6) by (metis Suc_le_D numeral_2_eq_2 Suc_le_mono)
  have "readBlock_loop fuel I (int n) [] ch = Ok (if r = n then 0 else int n, bs, ch\<lparr>ch_streamPtr := p, ch_foundEof := e,
      ch_currentIndexPosition := ch_currentIndexPosition ch + int r,
      ch_rdDeployedBytes := ch_rdDeployedBytes ch + int r,
      ch_rdBytesFromLastWrite := ch_rdBytesFromLastWrite ch + int r\<rparr>)"
    using assms(2,4) rd r(1) e unfolding k by (auto simp: r(4) ready_eof ready_simps)
  then show ?thesis
    using assms(1) r by (auto simp: IOChannel_readBlock_def ready_simps [OF rd] readable_simps)
qed

lemma writeBlock_counts:
  assumes "writable ch" and "ungot ch = []" and "can_write ch" and "bs \<noteq> []" and "\<not> ch_foundEof ch" and "2 \<le> fuel"
  shows "\<exists>r ch'. r \<le> length bs \<and> IOChannel_writeInternal I (Some bs) ch = Ok (int r, ch') \<and>
    IOChannel_writeBlock fuel I bs ch = Ok (if r = length bs then int r else 0, ch')"
proof -
  have rd: "ready ch" using assms(1) by (rule writable_simps)
  obtain r p e where r: "r \<le> length bs"
    "indirectWrite I bs ch = Ok (int r, ch\<lparr>ch_streamPtr := p, ch_foundEof := e\<rparr>)"
    "IOChannel_writeInternal I (Some bs) ch = Ok (int r, ch\<lparr>ch_streamPtr := p, ch_foundEof := e,
      ch_rdBytesFromLastWrite := 0,
      ch_wrDeployedBytes := ch_wrDeployedBytes ch + int r,
      ch_currentIndexPosition := ch_currentIndexPosition ch + int r\<rparr>)"
    using write_counts [OF assms(1,3,4)] by blast
  have e: "e \<longleftrightarrow> r < length bs"
    using write_short [OF assms(3) rd assms(4) r(2)] assms(5) by simp
  obtain k where k: "fuel = Suc (Suc k)" using assms(6) by (metis Suc_le_D numeral_2_eq_2 Suc_le_mono)
  have "writeBlock_loop fuel I bs ch = Ok (if r = length bs then 0 else int (length bs),
      ch\<lparr>ch_streamPtr := p, ch_foundEof := e, ch_rdBytesFromLastWrite := 0,
      ch_wrDeployedBytes := ch_wrDeployedBytes ch + int r,
      ch_currentIndexPosition := ch_currentIndexPosition ch + int r\<rparr>)"
    using assms(2,4) rd r(1) e unfolding k by (auto simp: r(3) ready_eof ready_simps)
  then show ?thesis
    using assms(1) r by (auto simp: IOChannel_writeBlock_def ready_simps [OF rd] writable_simps)
qed

end

end
