(* ===== verification/IO_Streams_Correct.thy ===== *)
theory IO_Streams_Correct
  imports IO_Streams IO_Channel_Correct
begin

text \<open>
  The memory, null and measuring streams provide the interface of \<^verbatim>\<open>IO_Channel\<close>; a memory channel
  behaves like a file with a position, an end of file flag and a stack of ungot bytes.
\<close>

subsection \<open>Memory provides the interface\<close>

definition mem_stream :: "mem_channel \<Rightarrow> IOChannelGenericMem \<Rightarrow> byte list \<Rightarrow> nat \<Rightarrow> bool" where
  "mem_stream ch st m pos \<longleftrightarrow> ch_streamPtr ch = Own st \<and> gm_ptr st = Own m \<and> gm_size st = int (length m) \<and>
     ch_currentIndexPosition ch = int pos \<and> pos \<le> length m"

definition mem_can :: "mem_channel \<Rightarrow> bool" where
  "mem_can ch \<longleftrightarrow> (\<exists>st m pos. mem_stream ch st m pos \<and> pos < length m)"

lemma with_stream_Own [simp]: "ready ch \<Longrightarrow> ch_streamPtr ch = Own st \<Longrightarrow> with_stream ch k = k st"
  by (simp add: with_stream_def IOChannel_getStreamPtr_def ready_simps)

lemma stream_update [simp]:
  "\<exists>p e. ch = ch\<lparr>ch_streamPtr := p, ch_foundEof := e\<rparr>"
  "\<exists>p e. ch\<lparr>ch_streamPtr := q\<rparr> = ch\<lparr>ch_streamPtr := p, ch_foundEof := e\<rparr>"
  by (intro exI [of _ "ch_streamPtr ch"] exI [of _ q] exI [of _ "ch_foundEof ch"], simp)+

lemma mem_read:
  assumes "mem_stream ch st m pos" and "ready ch" and "pos < length m" and "0 < n"
  shows "indirectRead IOChannelMemOps (int n) ch =
    Ok (int (min n (length m - pos)), take n (drop pos m),
        ch\<lparr>ch_streamPtr := Own st, ch_foundEof := ch_foundEof ch \<or> length m - pos < n\<rparr>)"
proof -
  have "ch = ch\<lparr>ch_streamPtr := Own st\<rparr>" "ch = ch\<lparr>ch_streamPtr := Own st, ch_foundEof := ch_foundEof ch\<rparr>"
    using assms(1) by (simp_all add: mem_stream_def)
  with assms show ?thesis
    by (cases "length m - pos < n")
      (auto simp: IOChannelMemOps_def IOChannelMem_read_def IOChannelGenericMem_read_def mem_stream_def Let_def
        IOCHANNEL_SET_EOF_def min_def nat_diff_distrib)
qed

lemma mem_write:
  assumes "mem_stream ch st m pos" and "ready ch" and "pos < length m" and "bs \<noteq> []"
  shows "indirectWrite IOChannelMemOps bs ch =
    (let r = min (length bs) (length m - pos) in
     Ok (int r,
         ch\<lparr>ch_streamPtr := Own (st\<lparr>gm_ptr := Own (take pos m @ take r bs @ drop (pos + r) m)\<rparr>),
            ch_foundEof := ch_foundEof ch \<or> length m - pos < length bs\<rparr>))"
  using assms
  by (cases "length m - pos < length bs")
    (auto simp: IOChannelMemOps_def IOChannelMem_write_def IOChannelGenericMem_write_def mem_stream_def Let_def
      IOCHANNEL_SET_EOF_def min_def nat_diff_distrib set_stream_def copy_at_def)

interpretation mem: bounded_stream IOChannelMemOps mem_can mem_can
proof
  fix ch :: mem_channel and n r :: nat and bs :: "byte list" and ch'
  assume c: "mem_can ch" and r: "ready ch"
  from c obtain st m pos where m: "mem_stream ch st m pos" "pos < length m" by (auto simp: mem_can_def)
  {
    assume n: "0 < n"
    show "\<exists>r bs p e. r \<le> n \<and> length bs = r \<and>
        indirectRead IOChannelMemOps (int n) ch = Ok (int r, bs, ch\<lparr>ch_streamPtr := p, ch_foundEof := e\<rparr>)"
      by (subst mem_read [OF m(1) r m(2) n]) auto
    assume "indirectRead IOChannelMemOps (int n) ch = Ok (int r, bs, ch')"
    then show "ch_foundEof ch' \<longleftrightarrow> ch_foundEof ch \<or> r < n"
      by (auto simp: mem_read [OF m(1) r m(2) n])
  next
    assume bs: "bs \<noteq> []"
    show "\<exists>r p e. r \<le> length bs \<and>
        indirectWrite IOChannelMemOps bs ch = Ok (int r, ch\<lparr>ch_streamPtr := p, ch_foundEof := e\<rparr>)"
      by (subst mem_write [OF m(1) r m(2) bs]) (auto simp: Let_def)
    assume "indirectWrite IOChannelMemOps bs ch = Ok (int r, ch')"
    then show "ch_foundEof ch' \<longleftrightarrow> ch_foundEof ch \<or> r < length bs"
      by (auto simp: mem_write [OF m(1) r m(2) bs] Let_def)
  }
qed

subsection \<open>The null stream and the measuring stream provide the interface\<close>

interpretation null: stream IOChannelNullOps "\<lambda>_. True" "\<lambda>_. True"
  by unfold_locales (simp_all add: IOChannelNullOps_def IOChannelNull_read_def IOChannelNull_write_def)

definition calc_can :: "calc_channel \<Rightarrow> bool" where
  "calc_can ch \<longleftrightarrow> (\<exists>st. ch_streamPtr ch = Own st)"

lemma calc_write:
  assumes "ready ch" and "ch_streamPtr ch = Own st"
  shows "indirectWrite IOChannelCalcOps bs ch = Ok (int (length bs), ch\<lparr>ch_streamPtr := Own (st\<lparr>
      ca_numWriteCalls := ca_numWriteCalls st + 1,
      ca_maxSize := max (ca_maxSize st) (int (length bs)),
      ca_minSize := min (ca_minSize st) (int (length bs))\<rparr>), ch_foundEof := ch_foundEof ch\<rparr>)"
proof -
  have "ch\<lparr>ch_streamPtr := p\<rparr> = ch\<lparr>ch_streamPtr := p, ch_foundEof := ch_foundEof ch\<rparr>" for p by simp
  with assms show ?thesis
    by (auto simp: IOChannelCalcOps_def IOChannelCalc_write_def Let_def IOChannel_valid_def ready_simps
        set_stream_def max_def min_def)
qed

interpretation calc: bounded_stream IOChannelCalcOps "\<lambda>_. False" calc_can
  by unfold_locales (auto simp: calc_can_def calc_write)

subsection \<open>A memory channel as a file\<close>

record mfile =
  mf_bytes :: "byte list"
  mf_pos :: nat
  mf_ungot :: "byte list"
  mf_room :: nat
  mf_eof :: bool
  mf_last :: nat

definition mem_inv :: "mem_channel \<Rightarrow> bool" where
  "mem_inv ch \<longleftrightarrow> readable ch \<and> writable ch \<and> 0 \<le> ch_rdBytesFromLastWrite ch \<and>
     (\<exists>st m pos. mem_stream ch st m pos)"

definition mem_content :: "mem_channel \<Rightarrow> byte list" where
  "mem_content ch = (case ch_streamPtr ch of
     Own st \<Rightarrow> (case gm_ptr st of Own m \<Rightarrow> m | _ \<Rightarrow> []) | _ \<Rightarrow> [])"

definition mem_view :: "mem_channel \<Rightarrow> mfile" where
  "mem_view ch = \<lparr>mf_bytes = mem_content ch, mf_pos = nat (ch_currentIndexPosition ch), mf_ungot = ungot ch,
     mf_room = room (ch_ungetBuffer ch), mf_eof = ch_foundEof ch, mf_last = nat (ch_rdBytesFromLastWrite ch)\<rparr>"

lemma mem_inv_cases:
  assumes "mem_inv ch"
  obtains st m pos last where "readable ch" "writable ch" "ready ch" "mem_stream ch st m pos"
    "ch_streamPtr ch = Own st" "gm_ptr st = Own m" "gm_size st = int (length m)"
    "ch_currentIndexPosition ch = int pos" "pos \<le> length m" "ch_rdBytesFromLastWrite ch = int last"
    "mem_view ch = \<lparr>mf_bytes = m, mf_pos = pos, mf_ungot = ungot ch, mf_room = room (ch_ungetBuffer ch),
       mf_eof = ch_foundEof ch, mf_last = last\<rparr>"
proof -
  from assms obtain st m pos where m: "readable ch" "writable ch" "mem_stream ch st m pos"
    "0 \<le> ch_rdBytesFromLastWrite ch"
    by (auto simp: mem_inv_def)
  then show ?thesis
    by (intro that [of st m pos "nat (ch_rdBytesFromLastWrite ch)"])
      (auto simp: mem_stream_def mem_view_def mem_content_def readable_def)
qed

datatype mf_op = Read nat | Write "byte list" | SeekTo nat | Skip int | Tell | AtEof | Unget "byte list" | Rewind

datatype mf_answer = Bytes int "byte list" | Count int | Truth bool | Done

fun mf_step :: "mf_op \<Rightarrow> mem_channel \<Rightarrow> (mf_answer \<times> mem_channel) outcome" where
  "mf_step (Read n) ch = omap (\<lambda>(r, bs, ch). (Bytes r bs, ch)) (IOChannel_read IOChannelMemOps (int n) ch)"
| "mf_step (Write bs) ch = omap (\<lambda>(r, ch). (Count r, ch)) (IOChannel_write IOChannelMemOps (Some bs) ch)"
| "mf_step (SeekTo k) ch =
     omap (\<lambda>(r, ch). (Count r, ch)) (IOChannel_seek IOChannelMemOps (int k) IOCHANNELWHENCE_SET ch)"
| "mf_step (Skip i) ch = omap (\<lambda>(r, ch). (Count r, ch)) (IOChannel_seek IOChannelMemOps i IOCHANNELWHENCE_CUR ch)"
| "mf_step Tell ch = omap (\<lambda>(r, ch). (Count r, ch)) (IOChannel_tell IOChannelMemOps ch)"
| "mf_step AtEof ch = omap (\<lambda>e. (Truth e, ch)) (IOChannel_eof ch)"
| "mf_step (Unget bs) ch = omap (\<lambda>(r, ch). (Count r, ch)) (IOChannel_unget bs ch)"
| "mf_step Rewind ch = omap (\<lambda>ch. (Done, ch)) (IOChannel_rewind IOChannelMemOps ch)"

fun mf_spec :: "mf_op \<Rightarrow> mfile \<Rightarrow> mf_answer \<times> mfile" where
  "mf_spec (Read n) a =
     (if n = 0 then (Bytes 0 [], a)
      else if mf_ungot a \<noteq> []
      then (Bytes (int n) (take n (mf_ungot a)),
            a\<lparr>mf_ungot := drop n (mf_ungot a), mf_room := mf_room a + n, mf_last := mf_last a + n\<rparr>)
      else let r = min n (length (mf_bytes a) - mf_pos a) in
           (Bytes (int r) (take r (drop (mf_pos a) (mf_bytes a))),
            a\<lparr>mf_pos := mf_pos a + r, mf_eof := mf_eof a \<or> r < n, mf_last := mf_last a + r\<rparr>))"
| "mf_spec (Write bs) a =
     (if bs = [] then (Count 0, a)
      else let r = min (length bs) (length (mf_bytes a) - mf_pos a) in
           (Count (int r),
            a\<lparr>mf_bytes := take (mf_pos a) (mf_bytes a) @ take r bs @ drop (mf_pos a + r) (mf_bytes a),
              mf_pos := mf_pos a + r, mf_eof := mf_eof a \<or> r < length bs, mf_last := 0\<rparr>))"
| "mf_spec (SeekTo k) a = (Count (int k), a\<lparr>mf_pos := k\<rparr>)"
| "mf_spec (Skip i) a =
     (if i = 0 then (Count (int (mf_pos a)), a)
      else let pos = int (mf_pos a) + i - int (length (mf_ungot a)) in
           (Count pos, a\<lparr>mf_pos := nat pos, mf_room := mf_room a + length (mf_ungot a), mf_ungot := []\<rparr>))"
| "mf_spec Tell a = (Count (int (mf_pos a)), a)"
| "mf_spec AtEof a = (Truth (mf_eof a \<and> mf_ungot a = []), a)"
| "mf_spec (Unget bs) a =
     (if bs = [] then (Count 0, a)
      else if mf_last a < length bs then (Count (-1), a)
      else (Count (int (length bs)), a\<lparr>mf_ungot := bs @ mf_ungot a, mf_room := mf_room a - length bs,
             mf_last := mf_last a - length bs\<rparr>))"
| "mf_spec Rewind a = (Done, a\<lparr>mf_pos := 0, mf_eof := False\<rparr>)"

text \<open>A read must not ask for more than has been ungot, and neither reads nor writes start at the
  end of the memory.\<close>

fun mf_legal :: "mf_op \<Rightarrow> mfile \<Rightarrow> bool" where
  "mf_legal (Read n) a \<longleftrightarrow> n = 0 \<or>
     (if mf_ungot a \<noteq> [] then n \<le> length (mf_ungot a) else mf_pos a < length (mf_bytes a))"
| "mf_legal (Write bs) a \<longleftrightarrow> bs = [] \<or> mf_pos a < length (mf_bytes a)"
| "mf_legal (SeekTo k) a \<longleftrightarrow> k \<le> length (mf_bytes a)"
| "mf_legal (Skip i) a \<longleftrightarrow> i = 0 \<or>
     (0 \<le> int (mf_pos a) + i - int (length (mf_ungot a)) \<and> int (mf_pos a) + i \<le> int (length (mf_bytes a)))"
| "mf_legal (Unget bs) a \<longleftrightarrow> bs = [] \<or> mf_last a < length bs \<or> length bs \<le> mf_room a"
| "mf_legal _ a \<longleftrightarrow> True"

lemma mem_invI:
  "readable ch \<Longrightarrow> writable ch \<Longrightarrow> 0 \<le> ch_rdBytesFromLastWrite ch \<Longrightarrow> mem_stream ch st m pos \<Longrightarrow> mem_inv ch"
  by (auto simp: mem_inv_def)

lemma mem_read_ok:
  assumes "mem_inv ch" and "mf_legal (Read n) (mem_view ch)"
  shows "\<exists>ch'. mf_step (Read n) ch = Ok (fst (mf_spec (Read n) (mem_view ch)), ch') \<and> mem_inv ch' \<and>
    mem_view ch' = snd (mf_spec (Read n) (mem_view ch))"
  using assms(1)
proof (cases rule: mem_inv_cases)
  case (1 st m pos last)
  consider (zero) "n = 0" | (ungot) "0 < n" "ungot ch \<noteq> []" "n \<le> length (ungot ch)"
    | (stream) "0 < n" "ungot ch = []" "pos < length m"
    using assms(2) 1(11) by (auto split: if_splits)
  then show ?thesis
  proof cases
    case zero
    have "IOChannel_read IOChannelMemOps (int n) ch = Ok (0, [], ch)"
      using zero read_readable [OF 1(1), of IOChannelMemOps n] by (simp add: IOChannel_readInternal_def)
    with zero assms(1) show ?thesis by auto
  next
    case ungot
    obtain p where p: "IOChannel_read IOChannelMemOps (int n) ch = Ok (int n, take n (ungot ch), ch\<lparr>ch_ungetBuffer := p,
      ch_rdBytesFromLastUnget := ch_rdBytesFromLastUnget ch + int n,
      ch_rdBytesFromLastWrite := ch_rdBytesFromLastWrite ch + int n\<rparr>)"
      "buffer_ok p" "stack p = drop n (ungot ch)" "room p = room (ch_ungetBuffer ch) + n"
      using read_ungot [OF 1(1) ungot(1,3)] by blast
    with ungot 1 show ?thesis
      by (auto simp: mem_view_def mem_content_def nat_add_distrib mem_stream_def
          intro!: mem_invI [of _ st m pos] readable_unget writable_unget)
  next
    case stream
    have c: "mem_can ch" using 1(4) stream(3) by (auto simp: mem_can_def)
    let ?r = "min n (length m - pos)"
    have "IOChannel_readInternal IOChannelMemOps (int n) ch = Ok (int ?r, take n (drop pos m), ch\<lparr>ch_streamPtr := Own st,
      ch_foundEof := ch_foundEof ch \<or> length m - pos < n,
      ch_currentIndexPosition := ch_currentIndexPosition ch + int ?r,
      ch_rdDeployedBytes := ch_rdDeployedBytes ch + int ?r,
      ch_rdBytesFromLastWrite := ch_rdBytesFromLastWrite ch + int ?r\<rparr>)"
      using mem.read_counts [OF 1(1) stream(2) c stream(1)] mem_read [OF 1(4,3) stream(3,1)] by auto
    with stream 1 show ?thesis
      by (auto simp: read_readable mem_view_def mem_content_def nat_add_distrib mem_stream_def min_def Let_def
          intro!: mem_invI [of _ st m "pos + ?r"])
  qed
qed

lemma mem_write_ok:
  assumes "mem_inv ch" and "mf_legal (Write bs) (mem_view ch)"
  shows "\<exists>ch'. mf_step (Write bs) ch = Ok (fst (mf_spec (Write bs) (mem_view ch)), ch') \<and> mem_inv ch' \<and>
    mem_view ch' = snd (mf_spec (Write bs) (mem_view ch))"
  using assms(1)
proof (cases rule: mem_inv_cases)
  case (1 st m pos last)
  show ?thesis
  proof (cases "bs = []")
    case True
    have "IOChannel_write IOChannelMemOps (Some bs) ch = Ok (0, ch)"
      using True write_writable [OF 1(2), of IOChannelMemOps "Some bs"] by (simp add: IOChannel_writeInternal_def)
    with True assms(1) show ?thesis by auto
  next
    case False
    with assms(2) 1(11) have pos: "pos < length m" by simp
    have c: "mem_can ch" using 1(4) pos by (auto simp: mem_can_def)
    let ?r = "min (length bs) (length m - pos)"
    let ?m = "take pos m @ take ?r bs @ drop (pos + ?r) m"
    have "IOChannel_writeInternal IOChannelMemOps (Some bs) ch = Ok (int ?r,
      ch\<lparr>ch_streamPtr := Own (st\<lparr>gm_ptr := Own ?m\<rparr>),
      ch_foundEof := ch_foundEof ch \<or> length m - pos < length bs, ch_rdBytesFromLastWrite := 0,
      ch_wrDeployedBytes := ch_wrDeployedBytes ch + int ?r,
      ch_currentIndexPosition := ch_currentIndexPosition ch + int ?r\<rparr>)"
      using mem.write_counts [OF 1(2) c False] mem_write [OF 1(4,3) pos False] by (auto simp: Let_def)
    with False pos 1 show ?thesis
      by (auto simp: write_writable mem_view_def mem_content_def nat_add_distrib mem_stream_def Let_def min_def
          intro!: mem_invI [of _ "st\<lparr>gm_ptr := Own ?m\<rparr>" ?m "pos + ?r"])
  qed
qed

lemma seek_ready:
  assumes "ready ch" and "indirectSeek I off whence ch = Ok (r, ch')" and "r \<noteq> -1"
  shows "IOChannel_seek I off whence ch = Ok (r, ch')"
  using assms by (simp add: IOChannel_seek_def ready_simps ready_flush)

lemma mem_seek_set:
  assumes "mem_stream ch st m pos" and "ready ch" and "k \<le> length m"
  shows "IOChannel_seek IOChannelMemOps (int k) IOCHANNELWHENCE_SET ch = Ok (int k, ch\<lparr>ch_currentIndexPosition := int k\<rparr>)"
  using assms
  by (intro seek_ready) (auto simp: IOChannelMemOps_def IOChannelGenericMem_seek_def mem_stream_def)

lemma mem_tell:
  assumes "mem_stream ch st m pos" and "ready ch"
  shows "IOChannel_seek IOChannelMemOps 0 IOCHANNELWHENCE_CUR ch = Ok (int pos, ch)"
  using assms
  by (intro seek_ready) (auto simp: IOChannelMemOps_def IOChannelGenericMem_seek_def mem_stream_def)

lemma stack_empty_index:
  assumes "buffer_ok p"
  shows "\<exists>b. p = Own b \<and> bf_index b = int (length (stack p)) \<and> buffer_ok (Own (b\<lparr>bf_index := 0\<rparr>)) \<and>
    stack (Own (b\<lparr>bf_index := 0\<rparr>)) = [] \<and> room (Own (b\<lparr>bf_index := 0\<rparr>)) = room p + length (stack p)"
  using assms
proof (cases rule: buffer_ok_cases)
  case (1 b bs k)
  then show ?thesis
    by (intro exI [of _ b]) (auto simp: stack_def room_def buffer_ok_def)
qed

lemma mem_seek_cur:
  assumes "mem_stream ch st m pos" and "ready ch" and "i \<noteq> 0"
    and "0 \<le> int pos + i - int (length (ungot ch))" and "int pos + i \<le> int (length m)"
  shows "\<exists>p. IOChannel_seek IOChannelMemOps i IOCHANNELWHENCE_CUR ch =
      Ok (int pos + i - int (length (ungot ch)),
          ch\<lparr>ch_ungetBuffer := p, ch_currentIndexPosition := int pos + i - int (length (ungot ch))\<rparr>) \<and>
    buffer_ok p \<and> stack p = [] \<and> room p = room (ch_ungetBuffer ch) + length (ungot ch)"
proof -
  have ub: "buffer_ok (ch_ungetBuffer ch)" using assms(2) by (simp add: ready_def)
  obtain b where b: "ch_ungetBuffer ch = Own b" "bf_index b = int (length (ungot ch))"
    "buffer_ok (Own (b\<lparr>bf_index := 0\<rparr>))" "stack (Own (b\<lparr>bf_index := 0\<rparr>)) = []"
    "room (Own (b\<lparr>bf_index := 0\<rparr>)) = room (ch_ungetBuffer ch) + length (ungot ch)"
    using stack_empty_index [OF ub] by blast
  have "IOChannel_seek IOChannelMemOps i IOCHANNELWHENCE_CUR ch =
      Ok (int pos + i - int (length (ungot ch)),
          ch\<lparr>ch_ungetBuffer := Own (b\<lparr>bf_index := 0\<rparr>),
             ch_currentIndexPosition := int pos + i - int (length (ungot ch))\<rparr>)"
    using assms b(1,2)
    by (intro seek_ready) (auto simp: IOChannelMemOps_def IOChannelGenericMem_seek_def mem_stream_def
        IOChannelGenericMem_seekBack_def IOChannelGenericMem_seekForward_def Let_def)
  with b show ?thesis by blast
qed

lemma mf_step_ok:
  assumes "mem_inv ch" and "mf_legal p (mem_view ch)"
  shows "\<exists>ch'. mf_step p ch = Ok (fst (mf_spec p (mem_view ch)), ch') \<and> mem_inv ch' \<and>
    mem_view ch' = snd (mf_spec p (mem_view ch))"
  using assms(1)
proof (cases rule: mem_inv_cases)
  case (1 st m pos last)
  show ?thesis
  proof (cases p)
    case (Read n)
    with mem_read_ok assms show ?thesis by blast
  next
    case (Write bs)
    with mem_write_ok assms show ?thesis by blast
  next
    case (SeekTo k)
    with assms(2) 1 mem_seek_set [OF 1(4,3), of k] show ?thesis
      by (auto simp: mem_view_def mem_content_def mem_stream_def intro!: mem_invI [of _ st m k])
  next
    case (Skip i)
    show ?thesis
    proof (cases "i = 0")
      case True
      with Skip 1(11) mem_tell [OF 1(4,3)] assms(1) show ?thesis by simp
    next
      case False
      with assms(2) Skip 1(11) have l: "0 \<le> int pos + i - int (length (ungot ch))" "int pos + i \<le> int (length m)"
        by auto
      from mem_seek_cur [OF 1(4,3) False l] obtain p where p:
        "IOChannel_seek IOChannelMemOps i IOCHANNELWHENCE_CUR ch =
           Ok (int pos + i - int (length (ungot ch)),
               ch\<lparr>ch_ungetBuffer := p, ch_currentIndexPosition := int pos + i - int (length (ungot ch))\<rparr>)"
        "buffer_ok p" "stack p = []" "room p = room (ch_ungetBuffer ch) + length (ungot ch)"
        by blast
      with 1 Skip False l show ?thesis
        by (auto simp: mem_view_def mem_content_def mem_stream_def Let_def
            intro!: mem_invI [of _ st m "nat (int pos + i - int (length (ungot ch)))"] readable_unget writable_unget)
    qed
  next
    case Tell
    with 1 mem_tell [OF 1(4,3)] assms(1) show ?thesis by (simp add: IOChannel_tell_def ready_simps)
  next
    case AtEof
    with 1(11) assms(1) ready_eof [OF 1(3)] show ?thesis by simp
  next
    case (Unget bs)
    show ?thesis
    proof (cases "bs = [] \<or> last < length bs")
      case True
      then have "IOChannel_unget bs ch = Ok (if bs = [] then 0 else -1, ch)"
        using 1(10) by (auto simp: IOChannel_unget_def ready_simps [OF 1(3)] readable_simps [OF 1(1)])
      with Unget True 1(11) assms(1) show ?thesis by auto
    next
      case False
      with assms(2) Unget 1(10,11) have l: "bs \<noteq> []" "int (length bs) \<le> ch_rdBytesFromLastWrite ch"
        "length bs \<le> room (ch_ungetBuffer ch)"
        by auto
      from unget_ok [OF 1(1) l] obtain p where p:
        "IOChannel_unget bs ch = Ok (int (length bs), ch\<lparr>ch_ungetBuffer := p, ch_rdBytesFromLastUnget := 0,
           ch_rdBytesFromLastWrite := ch_rdBytesFromLastWrite ch - int (length bs)\<rparr>)"
        "buffer_ok p" "stack p = bs @ ungot ch" "room p = room (ch_ungetBuffer ch) - length bs"
        by blast
      with 1 Unget False l show ?thesis
        by (auto simp: mem_view_def mem_content_def mem_stream_def nat_diff_distrib
            intro!: mem_invI [of _ st m pos] readable_unget writable_unget)
    qed
  next
    case Rewind
    with 1 mem_seek_set [OF 1(4,3), of 0] show ?thesis
      by (auto simp: IOChannel_rewind_def ready_simps mem_view_def mem_content_def mem_stream_def
          intro!: mem_invI [of _ st m 0])
  qed
qed

interpretation memfile: component mf_step mf_spec mem_inv mem_view mf_legal "\<lambda>_. 0" "\<lambda>_. 0"
  by unfold_locales (use mf_step_ok in fastforce)

subsection \<open>Opening and closing a memory channel\<close>

definition fresh_channel :: "'s IOChannel \<Rightarrow> bool" where
  "fresh_channel ch \<longleftrightarrow> ch_valid ch = IOCHANNEL_VALID \<and>
     (\<exists>ub us. ch_ungetBuffer ch = Own ub \<and> bf_defaultBuffer ub = Own us \<and> length us = 1024 \<and> bf_defaultSize ub = 1024) \<and>
     (\<exists>wb ws. ch_writeBuffer ch = Own wb \<and> bf_defaultBuffer wb = Own ws \<and> bf_defaultSize wb = 1024)"

lemma IOChannel_init_ok:
  assumes "8 \<le> mem"
  shows "\<exists>ch mem'. IOChannel_init IOChannel_zero mem = Ok (True, ch, mem') \<and> fresh_channel ch \<and> mem = mem' + 8"
proof -
  obtain k where k: "mem = Suc (Suc (Suc (Suc (Suc (Suc (Suc (Suc k)))))))"
    using assms by (intro that [of "mem - 8"]) simp
  have "rwlock_free rwlock_private" by simp
  then show ?thesis
    unfolding k
    by (simp add: IOChannel_init_def MTList_new_def MTList_init_def MTList_setDeleteMode_def with_list_def
        list_lock_def IOChannelBuffer_new_def IOChannelBuffer_init_def IOCHANNEL_UNGETBUFFER_DEFAULT_def
        IOCHANNEL_WRITEBUFFER_DEFAULT_def IOChannel_resetValuesForNewOpen_def fresh_channel_def Let_def
        MTList_zero_def)
qed

lemma modes_simps:
  "IOCHANNEL_MODEIS_VALID 0" "IOCHANNEL_MODEIS_VALID 1" "IOCHANNEL_MODEIS_VALID 2"
  "IOCHANNEL_MODEIS_DEFINED 0" "IOCHANNEL_MODEIS_DEFINED 1" "IOCHANNEL_MODEIS_DEFINED 2"
  "\<not> IOCHANNEL_MODEIS_APPEND 0" "\<not> IOCHANNEL_MODEIS_APPEND 1" "\<not> IOCHANNEL_MODEIS_APPEND 2"
  "\<not> IOCHANNEL_MODEIS_CREAT 0" "\<not> IOCHANNEL_MODEIS_CREAT 1" "\<not> IOCHANNEL_MODEIS_CREAT 2"
  "\<not> IOCHANNEL_MODEIS_TRUNC 0" "\<not> IOCHANNEL_MODEIS_TRUNC 1" "\<not> IOCHANNEL_MODEIS_TRUNC 2"
  "\<not> IOCHANNEL_MODEIS_CLOSE 0" "\<not> IOCHANNEL_MODEIS_CLOSE 1" "\<not> IOCHANNEL_MODEIS_CLOSE 2"
  "IOCHANNEL_MODEIS_R_ONLY 0" "\<not> IOCHANNEL_MODEIS_R_ONLY 1" "\<not> IOCHANNEL_MODEIS_R_ONLY 2"
  "\<not> IOCHANNEL_MODEIS_W_ONLY 0" "IOCHANNEL_MODEIS_W_ONLY 1" "\<not> IOCHANNEL_MODEIS_W_ONLY 2"
  unfolding IOCHANNEL_MODEIS_VALID_def IOCHANNEL_MODEIS_DEFINED_def IOCHANNEL_MODEIS_APPEND_def
    IOCHANNEL_MODEIS_CREAT_def IOCHANNEL_MODEIS_TRUNC_def IOCHANNEL_MODEIS_CLOSE_def
    IOCHANNEL_MODEIS_R_ONLY_def IOCHANNEL_MODEIS_W_ONLY_def IOCHANNEL_GET_ACCESS_MODE_def
    IOCHANNEL_GET_ACCESS_MASK_def IOCHANNEL_CLOSEFLAGS_MASK_def IOCHANNEL_ACCESSMODES_def
    IOCHANNEL_MODE_CLOSE_def IOCHANNEL_MODE_NOTCLOSE_def IOCHANNEL_MODE_CREAT_def
    IOCHANNEL_MODE_TRUNC_def IOCHANNEL_MODE_APPEND_def IOCHANNEL_MODE_UNDEFINED_def
    IOCHANNEL_MODE_R_ONLY_def IOCHANNEL_MODE_W_ONLY_def IOCHANNEL_MODE_RW_def
  by simp_all

lemma IOChannelMem_open_ok:
  assumes "fresh_channel ch" and "m \<noteq> []" and "mode = 0 \<or> mode = 1 \<or> mode = 2" and "0 < mem"
  shows "\<exists>ch' st. IOChannel_open IOChannelMemOps True False mode (Own m, int (length m)) ch mem = Ok (True, ch', mem - 1) \<and>
    ready ch' \<and> mem_stream ch' st m 0 \<and> ch_mode ch' = mode \<and> ungot ch' = [] \<and>
    room (ch_ungetBuffer ch') = 1024 \<and> \<not> ch_foundEof ch' \<and> ch_rdBytesFromLastWrite ch' = 0"
proof -
  from assms(1) obtain ub us wb ws where b: "ch_valid ch = IOCHANNEL_VALID" "ch_ungetBuffer ch = Own ub"
    "bf_defaultBuffer ub = Own us" "length us = 1024" "bf_defaultSize ub = 1024" "ch_writeBuffer ch = Own wb"
    "bf_defaultBuffer wb = Own ws" "bf_defaultSize wb = 1024"
    by (auto simp: fresh_channel_def)
  have m: "IOCHANNEL_MODEIS_VALID mode" "IOCHANNEL_MODEIS_DEFINED mode" "\<not> IOCHANNEL_MODEIS_APPEND mode"
    "\<not> IOCHANNEL_MODEIS_CREAT mode" "\<not> IOCHANNEL_MODEIS_TRUNC mode"
    using assms(3) modes_simps by blast+
  show ?thesis
    using b m assms(2,4)
    by (auto simp: IOChannel_open_def valid_channel_def IOCHANNEL_REQUIRE_INTERFACE_def
        IOChannel_resetValuesForNewOpen_def IOChannelBuffer_atOpen_def IOChannelMemOps_def
        IOChannelGenericMem_new_def IOChannelMem_init_def IOChannel_valid_def IOChannelGenericMem_init_def
        with_stream_def IOChannel_getStreamPtr_def set_stream_def IOChannelMem_openFromString_def Let_def
        IOChannelGenericMem_setPtr_def IOChannel_setType_def ready_def buffer_ok_def buf_content_def
        mem_stream_def stack_def room_def)
qed

lemma IOChannelMem_open_file:
  assumes "fresh_channel ch" and "m \<noteq> []" and "0 < mem"
  shows "\<exists>ch'. IOChannel_open IOChannelMemOps True False IOCHANNEL_MODE_RW (Own m, int (length m)) ch mem =
      Ok (True, ch', mem - 1) \<and> mem_inv ch' \<and>
    mem_view ch' = \<lparr>mf_bytes = m, mf_pos = 0, mf_ungot = [], mf_room = 1024, mf_eof = False, mf_last = 0\<rparr>"
proof -
  obtain ch' st where o: "IOChannel_open IOChannelMemOps True False 2 (Own m, int (length m)) ch mem = Ok (True, ch', mem - 1)"
    "ready ch'" "mem_stream ch' st m 0" "ch_mode ch' = 2" "ungot ch' = []" "room (ch_ungetBuffer ch') = 1024"
    "\<not> ch_foundEof ch'" "ch_rdBytesFromLastWrite ch' = 0"
    using IOChannelMem_open_ok [OF assms(1,2) _ assms(3), of 2] by auto
  then have "mem_inv ch'"
    by (intro mem_invI [of _ st m 0]) (auto simp: readable_def writable_def modes_simps)
  with o show ?thesis
    by (auto simp: IOCHANNEL_MODE_RW_def mem_view_def mem_content_def mem_stream_def)
qed

subsection \<open>Reading a line from memory\<close>

lemma stream_update_eqD:
  "ch\<lparr>ch_streamPtr := q\<rparr> = ch\<lparr>ch_streamPtr := p, ch_foundEof := e\<rparr> \<Longrightarrow> p = q"
  by (drule arg_cong [where f = ch_streamPtr]) simp

lemma mem_read_1:
  assumes "mem_stream ch st m pos" and "readable ch" and "ungot ch = []" and "pos < length m"
  shows "\<exists>ch'. IOChannel_readInternal IOChannelMemOps 1 ch = Ok (1, [m ! pos], ch') \<and> readable ch' \<and>
    ungot ch' = [] \<and> mem_stream ch' st m (Suc pos)"
proof -
  have r: "ready ch" using assms(2) by (rule readable_simps)
  have c: "mem_can ch" using assms(1,4) by (auto simp: mem_can_def)
  have "take 1 (drop pos m) = [m ! pos]" using assms(4) by (simp add: Cons_nth_drop_Suc [symmetric])
  then have "indirectRead IOChannelMemOps (int 1) ch =
      Ok (1, [m ! pos], ch\<lparr>ch_streamPtr := Own st, ch_foundEof := ch_foundEof ch \<or> length m - pos < 1\<rparr>)"
    using mem_read [OF assms(1) r assms(4), of 1] assms(4) by (simp add: min_def)
  with mem.read_counts [OF assms(2,3) c, of 1] assms show ?thesis
    by (auto simp: mem_stream_def dest: stream_update_eqD)
qed

lemma mem_gets_loop:
  assumes "mem_stream ch st m pos" and "readable ch" and "ungot ch = []"
  shows "k \<le> length (takeWhile (\<lambda>c. c \<noteq> 10) (drop pos m)) \<Longrightarrow>
    \<exists>rv ch'. gets_loop k IOChannelMemOps acc r0 ch = Ok (rv, acc @ take k (drop pos m), ch')"
    and "length (takeWhile (\<lambda>c. c \<noteq> 10) (drop pos m)) < k \<Longrightarrow> 10 \<in> set (drop pos m) \<Longrightarrow>
    \<exists>ch'. gets_loop k IOChannelMemOps acc r0 ch = Ok (1, acc @ takeWhile (\<lambda>c. c \<noteq> 10) (drop pos m), ch') \<and>
      readable ch' \<and> mem_stream ch' st m (Suc (pos + length (takeWhile (\<lambda>c. c \<noteq> 10) (drop pos m))))"
  using assms
proof (induction k arbitrary: ch pos acc r0)
  case (Suc k)
  {
    case 1
    then have p: "pos < length m" by (cases "pos < length m") auto
    from mem_read_1 [OF 1(2-4) p] obtain ch' where ch': "readable ch'" "ungot ch' = []"
      "IOChannel_readInternal IOChannelMemOps 1 ch = Ok (1, [m ! pos], ch')" "mem_stream ch' st m (Suc pos)"
      by blast
    have d: "drop pos m = m ! pos # drop (Suc pos) m" using p by (simp add: Cons_nth_drop_Suc)
    with 1(1) have "m ! pos \<noteq> 10" "k \<le> length (takeWhile (\<lambda>c. c \<noteq> 10) (drop (Suc pos) m))"
      by (auto split: if_splits)
    with Suc.IH(1) [OF _ ch'(4,1,2), of "acc @ [m ! pos]" 1] ch'(3) show ?case by (simp add: d)
  next
    case 2
    then have p: "pos < length m" by (cases "pos < length m") auto
    from mem_read_1 [OF 2(3-5) p] obtain ch' where ch': "readable ch'" "ungot ch' = []"
      "IOChannel_readInternal IOChannelMemOps 1 ch = Ok (1, [m ! pos], ch')" "mem_stream ch' st m (Suc pos)"
      by blast
    have d: "drop pos m = m ! pos # drop (Suc pos) m" using p by (simp add: Cons_nth_drop_Suc)
    show ?case
    proof (cases "m ! pos = 10")
      case True
      with ch' show ?thesis by (simp add: d)
    next
      case False
      with 2(1,2) have "length (takeWhile (\<lambda>c. c \<noteq> 10) (drop (Suc pos) m)) < k" "10 \<in> set (drop (Suc pos) m)"
        by (auto simp: d)
      with Suc.IH(2) [OF _ _ ch'(4,1,2), of "acc @ [m ! pos]" 1] ch'(3) False show ?thesis by (simp add: d)
    qed
  }
qed simp_all

subsection \<open>Properties\<close>

text \<open>C14: A memory channel opened for reading and writing behaves like a file of fixed length: any sequence
  of reads, writes, absolute and relative seeks, position and end of file queries, ungets and rewinds
  returns with the answers of that file, as long as no read or write starts at the end, no seek leaves the
  memory and no read asks for more than has been ungot. (The file is the one of the code: a write does not
  discard ungot bytes and an absolute seek keeps them.)\<close>

theorem MemChannel_refines_file:
  assumes "mem_inv ch" and "legal_run mf_spec mf_legal ops (mem_view ch)"
  shows "\<exists>ch'. run mf_step ops ch = Ok (fst (spec_run mf_spec ops (mem_view ch)), ch') \<and> mem_inv ch' \<and>
    mem_view ch' = snd (spec_run mf_spec ops (mem_view ch))"
  using memfile.run_ok [OF assms] by (simp add: sum_list_triv)

lemma open_5:
  "\<exists>ch ch' mem. IOChannel_init IOChannel_zero 20 = Ok (True, ch, mem) \<and>
     IOChannel_open IOChannelMemOps True False IOCHANNEL_MODE_RW (Own [1, 2, 3, 4, 5], 5) ch mem = Ok (True, ch', mem - 1) \<and>
     mem_inv ch' \<and> mem_view ch' = \<lparr>mf_bytes = [1, 2, 3, 4, 5], mf_pos = 0, mf_ungot = [], mf_room = 1024,
       mf_eof = False, mf_last = 0\<rparr>"
proof -
  obtain ch :: mem_channel and mem where i: "IOChannel_init IOChannel_zero 20 = Ok (True, ch, mem)" "fresh_channel ch" "20 = mem + 8"
    using IOChannel_init_ok [of 20] by auto
  with IOChannelMem_open_file [of ch "[1, 2, 3, 4, 5]" mem] show ?thesis by auto
qed

theorem MemChannel_refines_file_witness:
  "\<exists>ch ch' ch'' mem. IOChannel_init IOChannel_zero 20 = Ok (True, ch, mem) \<and>
     IOChannel_open IOChannelMemOps True False IOCHANNEL_MODE_RW (Own [1, 2, 3, 4, 5], 5) ch mem = Ok (True, ch', mem - 1) \<and>
     run mf_step [Read 3, Unget [3], Write [9], Read 1, Skip (-1), Tell, Read 7, AtEof, Rewind, AtEof] ch' =
       Ok ([Bytes 3 [1, 2, 3], Count 1, Count 1, Bytes 1 [3], Count 3, Count 3, Bytes 2 [9, 5], Truth True, Done,
            Truth False], ch'')"
proof -
  obtain ch ch' mem where o: "IOChannel_init IOChannel_zero 20 = Ok (True, ch, mem)"
     "IOChannel_open IOChannelMemOps True False IOCHANNEL_MODE_RW (Own [1, 2, 3, 4, 5], 5) ch mem = Ok (True, ch', mem - 1)"
     "mem_inv ch'" "mem_view ch' = \<lparr>mf_bytes = [1, 2, 3, 4, 5], mf_pos = 0, mf_ungot = [], mf_room = 1024,
       mf_eof = False, mf_last = 0\<rparr>"
    using open_5 by blast
  with MemChannel_refines_file [of ch' "[Read 3, Unget [3], Write [9], Read 1, Skip (-1), Tell, Read 7, AtEof,
      Rewind, AtEof]"]
  show ?thesis by (auto simp: Let_def)
qed

lemma open_5_channel:
  "\<exists>ch. mem_inv ch \<and> mem_view ch = \<lparr>mf_bytes = [1, 2, 3, 4, 5], mf_pos = 0, mf_ungot = [], mf_room = 1024,
       mf_eof = False, mf_last = 0\<rparr>"
  using open_5 by blast

lemma mem_view_eq:
  assumes "mem_inv ch" and "mem_view ch = \<lparr>mf_bytes = m, mf_pos = pos, mf_ungot = u, mf_room = r, mf_eof = e, mf_last = l\<rparr>"
  shows "\<exists>st. readable ch \<and> writable ch \<and> mem_stream ch st m pos \<and> ungot ch = u \<and> room (ch_ungetBuffer ch) = r \<and>
    ch_foundEof ch = e \<and> ch_rdBytesFromLastWrite ch = int l"
  using assms(1) by (cases rule: mem_inv_cases) (use assms(2) in auto)

text \<open>C15: On a channel of any kind, bytes that are ungot are read back in the order of the buffer they
  were ungot from, and the bytes ungot before stay behind them.\<close>

theorem IOChannel_unget_read_roundtrip:
  assumes "readable ch" and "bs \<noteq> []" and "int (length bs) \<le> ch_rdBytesFromLastWrite ch"
    and "length bs \<le> room (ch_ungetBuffer ch)"
  shows "\<exists>ch1 ch2. IOChannel_unget bs ch = Ok (int (length bs), ch1) \<and>
    IOChannel_read I (int (length bs)) ch1 = Ok (int (length bs), bs, ch2) \<and>
    ungot ch2 = ungot ch \<and> room (ch_ungetBuffer ch2) = room (ch_ungetBuffer ch) \<and>
    ch_rdBytesFromLastWrite ch2 = ch_rdBytesFromLastWrite ch"
proof -
  obtain p where p: "IOChannel_unget bs ch = Ok (int (length bs), ch\<lparr>ch_ungetBuffer := p, ch_rdBytesFromLastUnget := 0,
      ch_rdBytesFromLastWrite := ch_rdBytesFromLastWrite ch - int (length bs)\<rparr>)"
    "buffer_ok p" "stack p = bs @ ungot ch" "room p = room (ch_ungetBuffer ch) - length bs"
    using unget_ok [OF assms] by blast
  let ?ch = "ch\<lparr>ch_ungetBuffer := p, ch_rdBytesFromLastUnget := 0,
      ch_rdBytesFromLastWrite := ch_rdBytesFromLastWrite ch - int (length bs)\<rparr>"
  have "readable ?ch" using assms(1) p(2) by (simp add: readable_unget)
  from read_ungot [OF this, of "length bs" I] p assms(2,4) show ?thesis by auto
qed

theorem IOChannel_unget_read_roundtrip_witness:
  "\<exists>ch ch1 ch2 ch3. IOChannel_read IOChannelMemOps 3 ch = Ok (3, [1, 2, 3], ch1) \<and>
     IOChannel_unget [7, 8] ch1 = Ok (2, ch2) \<and> IOChannel_read IOChannelMemOps 2 ch2 = Ok (2, [7, 8], ch3)"
proof -
  obtain ch where ch: "mem_inv ch" "mem_view ch = \<lparr>mf_bytes = [1, 2, 3, 4, 5], mf_pos = 0, mf_ungot = [],
      mf_room = 1024, mf_eof = False, mf_last = 0\<rparr>"
    using open_5_channel by blast
  from mem_read_ok [OF ch(1), of 3] obtain ch1 where ch1:
    "IOChannel_read IOChannelMemOps 3 ch = Ok (3, [1, 2, 3], ch1)" "mem_inv ch1"
    "mem_view ch1 = \<lparr>mf_bytes = [1, 2, 3, 4, 5], mf_pos = 3, mf_ungot = [], mf_room = 1024, mf_eof = False, mf_last = 3\<rparr>"
    by (auto simp: ch(2) omap_def outcome_Ok_iffs)
  with mem_view_eq [OF ch1(2,3)] IOChannel_unget_read_roundtrip [of ch1 "[7, 8]" IOChannelMemOps]
  show ?thesis by auto
qed

text \<open>A read that asks for more bytes than have been ungot, when there are some, accesses the byte
  below the unget buffer, on a channel of any kind.\<close>

theorem IOChannel_read_beyond_ungot_faults:
  assumes "readable ch" and "ungot ch \<noteq> []" and "length (ungot ch) < n"
  shows "IOChannel_read I (int n) ch = Fault"
  using read_more_than_ungot [OF assms] .

theorem IOChannel_read_beyond_ungot_faults_witness:
  "\<exists>ch ch1 ch2. mem_inv ch \<and> run mf_step [Read 3, Unget [3]] ch = Ok ([Bytes 3 [1, 2, 3], Count 1], ch2) \<and>
     IOChannel_read IOChannelMemOps 2 ch2 = Fault"
proof -
  obtain ch where ch: "mem_inv ch" "mem_view ch = \<lparr>mf_bytes = [1, 2, 3, 4, 5], mf_pos = 0, mf_ungot = [],
      mf_room = 1024, mf_eof = False, mf_last = 0\<rparr>"
    using open_5_channel by blast
  from memfile.run_ok [OF ch(1), of "[Read 3, Unget [3]]"] obtain ch2 where ch2:
    "run mf_step [Read 3, Unget [3]] ch = Ok ([Bytes 3 [1, 2, 3], Count 1], ch2)" "mem_inv ch2"
    "mem_view ch2 = \<lparr>mf_bytes = [1, 2, 3, 4, 5], mf_pos = 3, mf_ungot = [3], mf_room = 1023, mf_eof = False, mf_last = 2\<rparr>"
    by (auto simp: ch(2))
  with mem_view_eq [OF ch2(2,3)] IOChannel_read_beyond_ungot_faults [of ch2 2 IOChannelMemOps] ch(1)
  show ?thesis by auto
qed

text \<open>Reading a block from memory delivers the bytes up to the end of the memory, and returns the
  size of the block when all of it was there; when less is left, the bytes are delivered but the
  function returns 0. With enough left it ends after one turn of its loop, so fuel 2 suffices.\<close>

theorem IOChannelMem_readBlock_short:
  assumes "mem_inv ch" and "mf_ungot (mem_view ch) = []" and "\<not> mf_eof (mem_view ch)" and "2 \<le> fuel" and "0 < n"
    and "mf_pos (mem_view ch) < length (mf_bytes (mem_view ch))"
  shows "\<exists>ch'. IOChannel_readBlock fuel IOChannelMemOps (int n) ch =
    Ok (if n \<le> length (mf_bytes (mem_view ch)) - mf_pos (mem_view ch) then int n else 0,
        take n (drop (mf_pos (mem_view ch)) (mf_bytes (mem_view ch))), ch')"
  using assms(1)
proof (cases rule: mem_inv_cases)
  case (1 st m pos last)
  with assms have a: "ungot ch = []" "\<not> ch_foundEof ch" "pos < length m" by simp_all
  have "mem_can ch" using 1(4) a(3) by (auto simp: mem_can_def)
  from mem.readBlock_counts [OF 1(1) a(1) this assms(5) a(2) assms(4)] obtain r bs ch' where r:
    "r \<le> n" "length bs = r" "IOChannel_readInternal IOChannelMemOps (int n) ch = Ok (int r, bs, ch')"
    "IOChannel_readBlock fuel IOChannelMemOps (int n) ch = Ok (if r = n then int n else 0, bs, ch')"
    by blast
  moreover from mem_read_ok [OF assms(1), of n] have "r = min n (length m - pos) \<and> bs = take n (drop pos m)"
    using 1 a assms(5) r(3) by (auto simp: read_readable Let_def min_def split: if_splits)
  ultimately show ?thesis using 1(11) by auto
qed

theorem IOChannelMem_readBlock_short_witness:
  "\<exists>ch ch1 ch2. IOChannel_readBlock 2 IOChannelMemOps 4 ch = Ok (4, [1, 2, 3, 4], ch1) \<and>
     IOChannel_readBlock 2 IOChannelMemOps 9 ch = Ok (0, [1, 2, 3, 4, 5], ch2)"
proof -
  obtain ch where ch: "mem_inv ch" "mem_view ch = \<lparr>mf_bytes = [1, 2, 3, 4, 5], mf_pos = 0, mf_ungot = [],
      mf_room = 1024, mf_eof = False, mf_last = 0\<rparr>"
    using open_5_channel by blast
  with IOChannelMem_readBlock_short [of ch 2 4] IOChannelMem_readBlock_short [of ch 2 9] show ?thesis by fastforce
qed

text \<open>At the end of the memory a read or a write that moves at least one byte aborts the program:
  the stream returns -1 and sets no error.\<close>

theorem IOChannelMem_at_end_aborts:
  assumes "mem_inv ch" and "mf_pos (mem_view ch) = length (mf_bytes (mem_view ch))"
    and "mf_ungot (mem_view ch) = []" and "0 < n" and "bs \<noteq> []"
  shows "IOChannel_read IOChannelMemOps (int n) ch = Require \<and> IOChannel_write IOChannelMemOps (Some bs) ch = Require"
proof -
  from assms(1) obtain st m pos where m: "readable ch" "writable ch" "ready ch" "mem_stream ch st m pos"
    "pos = length m" "ungot ch = []"
    by (cases rule: mem_inv_cases) (use assms(2,3) in auto)
  obtain b where b: "ch_ungetBuffer ch = Own b" "bf_index b = 0"
    using buffer_ok_Own [of "ch_ungetBuffer ch"] m(3,6) by (auto simp: ready_def)
  obtain wb where wb: "ch_writeBuffer ch = Own wb" "bf_index wb = 0" using m(3) by (auto simp: ready_def)
  have e: "ch_errorType ch = IOCHANNELERROR_NONE" using m(3) by (simp add: ready_def)
  have "IOChannel_read IOChannelMemOps (int n) ch = Require"
    using m assms(4) b e
    by (auto simp: read_readable IOChannel_readInternal_def ready_flush IOChannelMemOps_def IOChannelMem_read_def
        IOChannelGenericMem_read_def mem_stream_def IOCHANNEL_SET_EOF_def IOChannel_isErrorSet_def)
  moreover have "IOChannel_write IOChannelMemOps (Some bs) ch = Require"
    using m assms(5) b wb e
    by (auto simp: write_writable IOChannel_writeInternal_def IOChannelMemOps_def IOChannelMem_write_def
        IOChannelGenericMem_write_def mem_stream_def IOCHANNEL_SET_EOF_def IOChannel_isErrorSet_def Let_def)
  ultimately show ?thesis by simp
qed

theorem IOChannelMem_at_end_aborts_witness:
  "\<exists>ch ch1. mem_inv ch \<and> mf_step (Read 5) ch = Ok (Bytes 5 [1, 2, 3, 4, 5], ch1) \<and>
     IOChannel_read IOChannelMemOps 1 ch1 = Require \<and> IOChannel_write IOChannelMemOps (Some [0]) ch1 = Require"
proof -
  obtain ch where ch: "mem_inv ch" "mem_view ch = \<lparr>mf_bytes = [1, 2, 3, 4, 5], mf_pos = 0, mf_ungot = [],
      mf_room = 1024, mf_eof = False, mf_last = 0\<rparr>"
    using open_5_channel by blast
  from mem_read_ok [OF ch(1), of 5] obtain ch1 where ch1: "mf_step (Read 5) ch = Ok (Bytes 5 [1, 2, 3, 4, 5], ch1)"
    "mem_inv ch1" "mem_view ch1 = \<lparr>mf_bytes = [1, 2, 3, 4, 5], mf_pos = 5, mf_ungot = [], mf_room = 1024,
       mf_eof = False, mf_last = 5\<rparr>"
    by (auto simp: ch(2))
  with IOChannelMem_at_end_aborts [of ch1 1 "[0]"] ch(1) show ?thesis by fastforce
qed

text \<open>C16: A line that ends within the buffer is stored with a terminator; if the next line has as many
  characters as the buffer has bytes, the terminator is written behind the buffer.\<close>

theorem IOChannelMem_gets_line:
  assumes "mem_inv ch" and "mf_ungot (mem_view ch) = []" and "0 < n"
    and "line = takeWhile (\<lambda>c. c \<noteq> 10) (drop (mf_pos (mem_view ch)) (mf_bytes (mem_view ch)))"
  shows "(n \<le> length line \<longrightarrow> IOChannel_gets IOChannelMemOps (int n) ch = Fault) \<and>
    (length line < n \<and> 10 \<in> set (drop (mf_pos (mem_view ch)) (mf_bytes (mem_view ch))) \<longrightarrow>
      (\<exists>ch'. IOChannel_gets IOChannelMemOps (int n) ch = Ok (int (length line), line @ [0], ch')))"
proof -
  from assms(1) obtain st m pos where m: "readable ch" "ready ch" "mem_stream ch st m pos"
    "ungot ch = []" "mf_pos (mem_view ch) = pos" "mf_bytes (mem_view ch) = m"
    by (cases rule: mem_inv_cases) (use assms(2,3) in auto)
  have line: "line = takeWhile (\<lambda>c. c \<noteq> 10) (drop pos m)" using assms(4) m by simp
  have g: "IOChannel_gets IOChannelMemOps (int n) ch = obind (gets_loop n IOChannelMemOps [] (-1) ch) (\<lambda>(retVal, acc, ch).
      defined_if (int (length acc) < int n)
        (Ok (if retVal \<noteq> -1 then int (length acc) else retVal, acc @ [0], ch)))"
    using assms(3) by (simp add: IOChannel_gets_def ready_simps [OF m(2)] readable_simps [OF m(1)])
  have "IOChannel_gets IOChannelMemOps (int n) ch = Fault" if "n \<le> length line"
  proof -
    from mem_gets_loop(1) [OF m(3,1,4), of n "[]" "-1"] that line obtain rv ch' where
      "gets_loop n IOChannelMemOps [] (-1) ch = Ok (rv, take n (drop pos m), ch')" by auto
    moreover have "n \<le> length m - pos"
      using that line by (metis length_drop length_takeWhile_le le_trans)
    ultimately show ?thesis by (simp add: g min_def)
  qed
  moreover have "\<exists>ch'. IOChannel_gets IOChannelMemOps (int n) ch = Ok (int (length line), line @ [0], ch')"
    if "length line < n" "10 \<in> set (drop (mf_pos (mem_view ch)) (mf_bytes (mem_view ch)))"
  proof -
    from mem_gets_loop(2) [OF m(3,1,4), of n "[]" "-1"] that line m(5,6) obtain ch' where
      "gets_loop n IOChannelMemOps [] (-1) ch = Ok (1, line, ch')" by auto
    with that(1) show ?thesis by (simp add: g)
  qed
  ultimately show ?thesis by blast
qed

theorem IOChannelMem_gets_line_witness:
  "\<exists>ch. mem_inv ch \<and> IOChannel_gets IOChannelMemOps 4 ch = Fault"
proof -
  obtain ch where ch: "mem_inv ch" "mem_view ch = \<lparr>mf_bytes = [1, 2, 3, 4, 5], mf_pos = 0, mf_ungot = [],
      mf_room = 1024, mf_eof = False, mf_last = 0\<rparr>"
    using open_5_channel by blast
  with IOChannelMem_gets_line [of ch 4 "[1, 2, 3, 4, 5]"] show ?thesis by fastforce
qed

text \<open>C17: On the null stream, \<^verbatim>\<open>IOChannel_readBlock\<close> never returns: every read moves no byte, and neither
  the end of file flag nor an error ends the loop, whatever the fuel.\<close>

theorem IOChannelNull_readBlock_never_ends:
  assumes "readable ch" and "ungot ch = []" and "\<not> ch_foundEof ch" and "0 < n"
  shows "IOChannel_readBlock fuel IOChannelNullOps (int n) ch = Stuck"
proof -
  have r: "ready ch" using assms(1) by (rule readable_simps)
  then obtain b where b: "ch_ungetBuffer ch = Own b" "bf_index b = 0"
    using buffer_ok_Own [of "ch_ungetBuffer ch"] assms(2) by (auto simp: ready_def)
  have "IOChannel_readInternal IOChannelNullOps (int n) ch = Ok (0, [], ch)"
    using b assms(4) by (simp add: IOChannel_readInternal_def ready_flush [OF r] IOChannelNullOps_def IOChannelNull_read_def)
  then have "readBlock_loop fuel IOChannelNullOps (int n) acc ch = Stuck" for acc
    using assms(3,4) by (induction fuel arbitrary: acc) (simp_all add: ready_eof [OF r] ready_simps [OF r])
  then show ?thesis by (simp add: IOChannel_readBlock_def ready_simps [OF r] readable_simps [OF assms(1)])
qed

lemma IOChannelNull_open_ok:
  assumes "fresh_channel ch"
  shows "\<exists>ch'. IOChannel_open IOChannelNullOps True False IOCHANNEL_MODE_RW () ch mem = Ok (True, ch', mem) \<and>
    readable ch' \<and> ungot ch' = [] \<and> \<not> ch_foundEof ch'"
  using assms
  by (auto simp: fresh_channel_def IOCHANNEL_MODE_RW_def modes_simps IOChannel_open_def valid_channel_def
      IOCHANNEL_REQUIRE_INTERFACE_def IOChannel_resetValuesForNewOpen_def IOChannelBuffer_atOpen_def IOChannelNullOps_def
      IOChannelNull_init_def IOChannel_valid_def IOChannelNull_openFromString_def Let_def readable_def ready_def
      buffer_ok_def buf_content_def stack_def)

theorem IOChannelNull_readBlock_never_ends_witness:
  "\<exists>ch ch' mem. IOChannel_init IOChannel_zero 9 = Ok (True, ch, mem) \<and>
     IOChannel_open IOChannelNullOps True False IOCHANNEL_MODE_RW () ch mem = Ok (True, ch', mem) \<and>
     IOChannel_readBlock 1000 IOChannelNullOps 1 ch' = Stuck"
proof -
  obtain ch :: "unit IOChannel" and mem where i: "IOChannel_init IOChannel_zero 9 = Ok (True, ch, mem)" "fresh_channel ch"
    using IOChannel_init_ok [of 9] by auto
  obtain ch' where o: "IOChannel_open IOChannelNullOps True False IOCHANNEL_MODE_RW () ch mem = Ok (True, ch', mem)"
    "readable ch'" "ungot ch' = []" "\<not> ch_foundEof ch'"
    using IOChannelNull_open_ok [OF i(2)] by blast
  with i IOChannelNull_readBlock_never_ends [of ch' 1 1000] show ?thesis by auto
qed

text \<open>C18: Writing any sequence of chunks to the measuring stream counts the bytes, the calls and the largest
  chunk exactly; the smallest size, which starts at 0, stays 0.\<close>

theorem IOChannelCalc_measures:
  assumes "writable ch" and "ch_streamPtr ch = Own st" and "\<forall>bs \<in> set chunks. bs \<noteq> []" and "ca_minSize st = 0"
    and "0 \<le> ch_rdDeployedBytes ch"
  shows "\<exists>ch' st'. run (\<lambda>bs. IOChannel_write IOChannelCalcOps (Some bs)) chunks ch =
      Ok (map (\<lambda>bs. int (length bs)) chunks, ch') \<and> ch_streamPtr ch' = Own st' \<and>
    IOChannel_getWrittenBytes ch' = Ok (ch_wrDeployedBytes ch + int (length (concat chunks))) \<and>
    ca_numWriteCalls st' = ca_numWriteCalls st + int (length chunks) \<and>
    ca_maxSize st' = fold (\<lambda>bs. max (int (length bs))) chunks (ca_maxSize st) \<and> ca_minSize st' = 0"
  using assms
proof (induction chunks arbitrary: ch st)
  case Nil
  then show ?case
    by (auto simp: IOChannel_getWrittenBytes_def writable_def ready_def valid_channel_def IOChannel_isOpenCheck_def)
next
  case (Cons bs chunks)
  have r: "ready ch" "bs \<noteq> []" "calc_can ch" using Cons.prems by (auto simp: writable_def calc_can_def)
  let ?st = "st\<lparr>ca_numWriteCalls := ca_numWriteCalls st + 1, ca_maxSize := max (ca_maxSize st) (int (length bs)),
    ca_minSize := min (ca_minSize st) (int (length bs))\<rparr>"
  let ?ch = "ch\<lparr>ch_streamPtr := Own ?st, ch_rdBytesFromLastWrite := 0,
      ch_wrDeployedBytes := ch_wrDeployedBytes ch + int (length bs),
      ch_currentIndexPosition := ch_currentIndexPosition ch + int (length bs)\<rparr>"
  have "IOChannel_write IOChannelCalcOps (Some bs) ch = Ok (int (length bs), ?ch)"
    using calc.write_counts [OF Cons.prems(1) r(3,2)] calc_write [OF r(1) Cons.prems(2), of bs] Cons.prems(1)
    by (auto simp: write_writable)
  moreover have "writable ?ch" "\<forall>bs \<in> set chunks. bs \<noteq> []" "ca_minSize ?st = 0" "0 \<le> ch_rdDeployedBytes ?ch"
    using Cons.prems by auto
  ultimately show ?case
    using Cons.IH [of ?ch ?st] by (auto simp: max.commute algebra_simps)
qed

lemma IOChannelCalc_open_ok:
  assumes "fresh_channel ch" and "0 < mem"
  shows "\<exists>ch'. IOChannel_open IOChannelCalcOps True False IOCHANNEL_MODE_W_ONLY () ch mem = Ok (True, ch', mem - 1) \<and>
    writable ch' \<and> ch_streamPtr ch' = Own \<lparr>ca_numWriteCalls = 0, ca_maxSize = 0, ca_minSize = 0\<rparr> \<and>
    ch_rdDeployedBytes ch' = 0 \<and> ch_wrDeployedBytes ch' = 0 \<and> \<not> ch_foundEof ch' \<and> ch_currentIndexPosition ch' = 0"
  using assms
  by (auto simp: fresh_channel_def IOCHANNEL_MODE_W_ONLY_def modes_simps IOChannel_open_def valid_channel_def
      IOCHANNEL_REQUIRE_INTERFACE_def IOChannel_resetValuesForNewOpen_def IOChannelBuffer_atOpen_def IOChannelCalcOps_def
      IOChannelCalc_new_def IOChannelCalc_init_def IOChannel_valid_def IOChannelCalc_openFromString_def Let_def
      writable_def ready_def with_stream_def IOChannel_getStreamPtr_def set_stream_def buffer_ok_def buf_content_def)

theorem IOChannelCalc_measures_witness:
  "\<exists>ch ch' ch'' mem. IOChannel_init IOChannel_zero 9 = Ok (True, ch, mem) \<and>
     IOChannel_open IOChannelCalcOps True False IOCHANNEL_MODE_W_ONLY () ch mem = Ok (True, ch', mem - 1) \<and>
     run (\<lambda>bs. IOChannel_write IOChannelCalcOps (Some bs)) [[1, 2, 3], [4]] ch' = Ok ([3, 1], ch'') \<and>
     IOChannel_getWrittenBytes ch'' = Ok 4"
proof -
  obtain ch :: calc_channel and mem where i: "IOChannel_init IOChannel_zero 9 = Ok (True, ch, mem)" "fresh_channel ch" "9 = mem + 8"
    using IOChannel_init_ok [of 9] by auto
  then obtain ch' where o: "IOChannel_open IOChannelCalcOps True False IOCHANNEL_MODE_W_ONLY () ch mem = Ok (True, ch', mem - 1)"
    "writable ch'" "ch_streamPtr ch' = Own \<lparr>ca_numWriteCalls = 0, ca_maxSize = 0, ca_minSize = 0\<rparr>"
    "ch_rdDeployedBytes ch' = 0" "ch_wrDeployedBytes ch' = 0"
    using IOChannelCalc_open_ok [of ch mem] by auto
  with i IOChannelCalc_measures [of ch' _ "[[1, 2, 3], [4]]"] show ?thesis by fastforce
qed

subsection \<open>The growing write buffer\<close>

definition buffered :: "'s IOChannel \<Rightarrow> byte list" where
  "buffered ch = (case ch_writeBuffer ch of
     Own b \<Rightarrow> (case buf_content b of Some bs \<Rightarrow> take (nat (bf_index b)) bs | None \<Rightarrow> []) | _ \<Rightarrow> [])"

definition own_buffer :: "'s IOChannel \<Rightarrow> bool" where
  "own_buffer ch \<longleftrightarrow> buffer_ok (ch_writeBuffer ch) \<and>
     (\<forall>b. ch_writeBuffer ch = Own b \<longrightarrow> (\<forall>bs. bf_ptr b \<noteq> UserBuffer bs))"

lemma buf_store_own [simp]:
  "(\<forall>cs. bf_ptr b \<noteq> UserBuffer cs) \<Longrightarrow> bf_ptr (buf_store bs b) \<noteq> UserBuffer ds"
  by (auto simp: buf_store_def split: buffer_ptr.splits)

lemma addToWriteBuffer_fits:
  assumes "own_buffer ch" and "length bs \<le> room (ch_writeBuffer ch)"
  shows "\<exists>ch'. addToWriteBuffer_loop (Suc fuel) I bs r ch mem = Ok (r, ch', mem) \<and> own_buffer ch' \<and>
    buffered ch' = buffered ch @ bs"
proof -
  have ok: "buffer_ok (ch_writeBuffer ch)" using assms(1) by (simp add: own_buffer_def)
  then show ?thesis
  proof (cases rule: buffer_ok_cases)
    case (1 b cs k)
    show ?thesis
    proof (cases "bs = []")
      case False
      let ?cs = "take k cs @ bs @ drop (k + length bs) cs"
      let ?b = "(buf_store ?cs b)\<lparr>bf_index := int (k + length bs)\<rparr>"
      have m: "int (k + length bs) \<le> bf_size b" using 1 assms(2) by linarith
      then have "addToWriteBuffer_loop (Suc fuel) I bs r ch mem = Ok (r, ch\<lparr>ch_writeBuffer := Own ?b\<rparr>, mem)"
        using 1 False by (simp add: copy_at_def Let_def)
      moreover have "own_buffer (ch\<lparr>ch_writeBuffer := Own ?b\<rparr>)"
        using 1 m assms(1) by (auto simp: own_buffer_def intro!: buffer_okI [of _ ?cs])
      moreover have "buffered (ch\<lparr>ch_writeBuffer := Own ?b\<rparr>) = buffered ch @ bs"
        using 1 m by (simp add: buffered_def nat_int_add)
      ultimately show ?thesis by blast
    qed (use assms in auto)
  qed
qed

lemma addToWriteBuffer_grows:
  assumes "own_buffer ch" and "room (ch_writeBuffer ch) < length bs" and "\<not> ch_writeBufferIsExternal ch"
    and "ch_autoResize ch" and "0 < mem"
  shows "\<exists>ch'. addToWriteBuffer_loop (Suc (Suc fuel)) I bs r ch mem = Ok (r, ch', mem - 1) \<and> own_buffer ch' \<and>
    buffered ch' = buffered ch @ bs"
proof -
  have "buffer_ok (ch_writeBuffer ch)" using assms(1) by (simp add: own_buffer_def)
  then show ?thesis
  proof (cases rule: buffer_ok_cases)
    case (1 b cs k)
    define left where "left = nat (bf_size b) - k"
    have size: "bf_size b = int (k + left)" "k + left \<le> length cs" "left < length bs"
      using 1 assms(2) by (auto simp: left_def)
    define rest where "rest = drop left bs"
    define n where "n = (k + left + length rest) * 2"
    define full where "full = take k cs @ take left bs"
    define new where "new = full @ replicate (n - (k + left)) 0"
    define b' where "b' = (case bf_ptr b of DefaultBuffer \<Rightarrow> b\<lparr>bf_defaultBuffer := Own new\<rparr>
      | _ \<Rightarrow> b\<lparr>bf_ptr := Allocated new\<rparr>)\<lparr>bf_index := int (k + left), bf_size := int n\<rparr>"
    let ?ch = "ch\<lparr>ch_writeBuffer := Own b'\<rparr>"
    have own: "\<forall>ds. bf_ptr b \<noteq> UserBuffer ds" "bf_ptr b \<noteq> NoBuffer"
      using assms(1) 1(1,2) by (auto simp: own_buffer_def buf_content_def)
    have l: "length full = k + left" using 1 size by (simp add: full_def)
    have c: "buf_content b' = Some new"
      using own by (auto simp: b'_def buf_content_def split: buffer_ptr.splits)
    have ok: "own_buffer ?ch"
      using c own l by (auto simp: own_buffer_def new_def n_def b'_def intro!: buffer_okI [of _ new] split: buffer_ptr.splits)
    have b'': "buf_content b' = Some new" "bf_index b' = int (k + left)" "bf_size b' = int n" "k + left + length rest \<le> n"
      using c by (auto simp: b'_def n_def)
    have "addToWriteBuffer_loop (Suc (Suc fuel)) I bs r ch mem = addToWriteBuffer_loop (Suc fuel) I rest r ?ch (mem - 1)"
    proof -
      define base where "base = take k cs @ take left bs @ drop (k + left) cs"
      have base: "take (k + left) base = full" "k + left \<le> length base"
        using l size by (simp_all add: base_def full_def)
      have "addToWriteBuffer_loop (Suc (Suc fuel)) I bs r ch mem =
        (let wb = (buf_store base b)\<lparr>bf_index := int (k + left)\<rparr>;
             wb = (case bf_ptr wb of DefaultBuffer \<Rightarrow> wb\<lparr>bf_defaultBuffer := Own new\<rparr>
               | _ \<Rightarrow> wb\<lparr>bf_ptr := Allocated new\<rparr>);
             wb = wb\<lparr>bf_index := bf_size wb, bf_size := int n\<rparr>
         in addToWriteBuffer_loop (Suc fuel) I rest r (ch\<lparr>ch_writeBuffer := Own wb\<rparr>) (mem - 1))"
      proof -
        have bs: "bs \<noteq> []" "\<not> int (length bs) \<le> bf_size b - bf_index b" "nat (bf_size b - bf_index b) = left"
          using 1(3) size by auto
        have c1: "copy_at (bf_index b) (take left bs) cs = Ok base"
          using 1(3,4) size by (simp add: copy_at_def base_def min_def)
        have sz: "(bf_size b + int (length rest)) * 2 = int n" "nat (bf_size b) = k + left"
          using size(1) by (simp_all add: n_def)
        have c2: "copy_at 0 (take (k + left) base) (replicate n 0) = Ok new"
          using base l by (simp add: copy_at_def new_def n_def)
        show ?thesis
          unfolding addToWriteBuffer_loop.simps(2) [of "Suc fuel"]
          using assms(3-5) 1(1,2) bs c1 sz c2 base(2) size(1) 1(3)
          by (simp add: Let_def rest_def [symmetric] del: of_nat_add addToWriteBuffer_loop.simps)
      qed
      moreover have "(let wb = (buf_store base b)\<lparr>bf_index := int (k + left)\<rparr>;
             wb = (case bf_ptr wb of DefaultBuffer \<Rightarrow> wb\<lparr>bf_defaultBuffer := Own new\<rparr>
               | _ \<Rightarrow> wb\<lparr>bf_ptr := Allocated new\<rparr>)
         in wb\<lparr>bf_index := bf_size wb, bf_size := int n\<rparr>) = b'"
        using own size(1) by (auto simp: b'_def buf_store_def Let_def split: buffer_ptr.splits)
      ultimately show ?thesis by (simp add: Let_def del: addToWriteBuffer_loop.simps)
    qed
    moreover have "length rest \<le> room (ch_writeBuffer ?ch)"
      using b'' by (simp add: room_def)
    ultimately obtain ch' where "addToWriteBuffer_loop (Suc (Suc fuel)) I bs r ch mem = Ok (r, ch', mem - 1)"
      "own_buffer ch'" "buffered ch' = buffered ?ch @ rest"
      using addToWriteBuffer_fits [OF ok, of rest fuel I r "mem - 1"] by auto
    moreover have "buffered ?ch @ rest = buffered ch @ bs"
      using 1 b'' l by (simp add: buffered_def new_def full_def rest_def nat_int_add)
    ultimately show ?thesis by auto
  qed
qed

text \<open>C19: With automatic resizing, adding bytes to the write buffer never flushes and never loses a byte: the
  buffer holds the old bytes followed by the new ones, whether it had room for them or was enlarged (once,
  which needs one allocation; two turns of the loop suffice).\<close>

theorem IOChannel_autoResize_appends:
  assumes "ch_valid ch = IOCHANNEL_VALID" and "own_buffer ch" and "\<not> ch_writeBufferIsExternal ch" and "ch_autoResize ch"
    and "0 < mem"
  shows "\<exists>ch' mem'. IOChannel_addToWriteBuffer I bs ch mem = Ok (int (length bs), ch', mem') \<and> own_buffer ch' \<and>
    buffered ch' = buffered ch @ bs \<and> mem \<le> mem' + 1"
proof (cases "length bs \<le> room (ch_writeBuffer ch)")
  case True
  from addToWriteBuffer_fits [OF assms(2) True, of "Suc (length bs)" I "int (length bs)" mem] show ?thesis
    using assms(1) by (auto simp: IOChannel_addToWriteBuffer_def valid_channel_def simp del: addToWriteBuffer_loop.simps)
next
  case False
  with addToWriteBuffer_grows [OF assms(2) _ assms(3-5), of bs "length bs" I "int (length bs)"] show ?thesis
    using assms(1,5) by (auto simp: IOChannel_addToWriteBuffer_def valid_channel_def simp del: addToWriteBuffer_loop.simps)
qed

theorem IOChannel_autoResize_appends_witness:
  "\<exists>ch' mem'. IOChannel_addToWriteBuffer IOChannelNullOps [7, 8, 9]
       (IOChannel_zero\<lparr>ch_valid := IOCHANNEL_VALID, ch_autoResize := True, ch_writeBuffer := Own
          \<lparr>bf_defaultBuffer = Own [5, 0], bf_defaultSize = 2, bf_ptr = DefaultBuffer, bf_size = 2, bf_index = 1,
           bf_freeOnExit = False\<rparr>\<rparr>) 3 = Ok (3, ch', mem') \<and> buffered ch' = [5, 7, 8, 9]"
  using IOChannel_autoResize_appends [of "IOChannel_zero\<lparr>ch_valid := IOCHANNEL_VALID, ch_autoResize := True,
      ch_writeBuffer := Own \<lparr>bf_defaultBuffer = Own [5, 0], bf_defaultSize = 2, bf_ptr = DefaultBuffer, bf_size = 2,
      bf_index = 1, bf_freeOnExit = False\<rparr>\<rparr>" 3 IOChannelNullOps "[7, 8, 9]"]
  by (auto simp: own_buffer_def buffer_ok_def buf_content_def buffered_def IOChannel_zero_def)

end
