(* ===== verification/Barrier.thy ===== *)
theory Barrier
  imports Locks
begin

text \<open>
  \<^verbatim>\<open>Barrier\<close> (src/src/Barrier.c): a number of threads wait for each other. Unlike the other
  synchronisation objects it uses the POSIX primitives directly, so the model has two
  layers: the code of one thread, cut where \<^verbatim>\<open>pthread_cond_wait\<close> gives the mutex away, and
  a step relation for the threads that work on one barrier. Between two steps the mutex is
  free: a thread holds it from the lock to the wait or to the unlock, and nothing in between
  can block.

  The callback of the user is recorded as a call with its argument; it is assumed not to
  touch the barrier, whose mutex is held while it runs.
\<close>

definition BARRIER_VALID :: ulong where "BARRIER_VALID = 0xb9f5cfb7"
definition BARRIER_INVALID :: ulong where "BARRIER_INVALID = 0x77e0c515"
definition BARRIER_PRIVATE :: ulong where "BARRIER_PRIVATE = 1"
definition BARRIER_SHARED :: ulong where "BARRIER_SHARED = 2"

record Barrier =
  br_valid :: ulong
  br_mutex :: pthread_mutex
  br_pshared :: int
  br_required :: int
  br_arrived :: int
  br_gone :: int
  br_callBack :: bool
  br_callBackArg :: nat

record barw =
  bw_self :: "Barrier owned"
  bw_mem :: nat
  bw_calls :: "nat list"

definition Barrier_zero :: Barrier where
  "Barrier_zero = \<lparr>br_valid = 0, br_mutex = MxFree, br_pshared = 0, br_required = 0, br_arrived = 0,
     br_gone = 0, br_callBack = False, br_callBackArg = 0\<rparr>"

definition Barrier_new :: "barw \<Rightarrow> barw outcome" where
  "Barrier_new w =
     (let (p, mem) = ANY_TALLOC Barrier_zero (bw_mem w)
      in ANY_REQUIRE (p \<noteq> Null) (Ok (w\<lparr>bw_self := p, bw_mem := mem\<rparr>)))"

definition Barrier_init :: "ulong \<Rightarrow> int \<Rightarrow> bool \<Rightarrow> nat \<Rightarrow> barw \<Rightarrow> (bool \<times> barw) outcome" where
  "Barrier_init flags count callBack callBackArg w =
     require_ptr (bw_self w) (\<lambda>s.
       ANY_REQUIRE (and flags (or BARRIER_PRIVATE BARRIER_SHARED) \<noteq> 0)
       (ANY_REQUIRE (count > 0)
         (let s = s\<lparr>br_valid := BARRIER_INVALID\<rparr>;
              s = s\<lparr>br_required := count, br_arrived := 0, br_gone := 0\<rparr>;
              pflags = (if and flags BARRIER_PRIVATE \<noteq> 0 then PTHREAD_PROCESS_PRIVATE else 0);
              pflags = or pflags (if and flags BARRIER_SHARED \<noteq> 0 then PTHREAD_PROCESS_SHARED else 0);
              s = s\<lparr>br_pshared := pflags, br_mutex := MxFree\<rparr>;
              s = s\<lparr>br_callBack := callBack, br_callBackArg := callBackArg\<rparr>
          in Ok (True, w\<lparr>bw_self := Own (s\<lparr>br_valid := BARRIER_VALID\<rparr>)\<rparr>))))"

definition with_barrier :: "barw \<Rightarrow> (Barrier \<Rightarrow> 'a outcome) \<Rightarrow> 'a outcome" where
  "with_barrier w k =
     require_ptr (bw_self w) (\<lambda>s. ANY_REQUIRE (br_valid s = BARRIER_VALID) (k s))"

definition barrier_lock :: "Barrier \<Rightarrow> Barrier outcome" where
  "barrier_lock s = obind (pthread_mutex_lock (br_mutex s)) (\<lambda>(status, m).
     ANY_REQUIRE (status = 0) (Ok (s\<lparr>br_mutex := m\<rparr>)))"

definition barrier_unlock :: "Barrier \<Rightarrow> Barrier outcome" where
  "barrier_unlock s = (let (status, m) = pthread_mutex_unlock (br_mutex s) in
     ANY_REQUIRE (status = 0) (Ok (s\<lparr>br_mutex := m\<rparr>)))"

text \<open>\<^verbatim>\<open>Barrier_wait\<close> up to the unlock (the result is true: this thread is the last one and has
  broadcast) or to the call of \<^verbatim>\<open>pthread_cond_wait\<close>, which unlocks the mutex (false).\<close>

definition Barrier_wait_arrive :: "barw \<Rightarrow> (bool \<times> barw) outcome" where
  "Barrier_wait_arrive w =
     with_barrier w (\<lambda>s.
       obind (barrier_lock s) (\<lambda>s.
       let s = s\<lparr>br_arrived := br_arrived s + 1\<rparr> in
       if br_arrived s \<ge> br_required s
       then let s = s\<lparr>br_gone := 1\<rparr>;
                calls = (if br_callBack s then bw_calls w @ [br_callBackArg s] else bw_calls w);
                s = s\<lparr>br_arrived := 0\<rparr>
            in obind (barrier_unlock s) (\<lambda>s. Ok (True, w\<lparr>bw_self := Own s, bw_calls := calls\<rparr>))
       else obind (barrier_unlock s) (\<lambda>s. Ok (False, w\<lparr>bw_self := Own s\<rparr>))))"

text \<open>\<^verbatim>\<open>Barrier_wait\<close> from the return of \<^verbatim>\<open>pthread_cond_wait\<close>, which has locked the mutex.
  \<^verbatim>\<open>self\<close> is not checked again.\<close>

definition Barrier_wait_leave :: "barw \<Rightarrow> barw outcome" where
  "Barrier_wait_leave w =
     deref (bw_self w) (\<lambda>s.
       obind (barrier_lock s) (\<lambda>s.
       let s = s\<lparr>br_gone := br_gone s + 1\<rparr>;
           s = (if br_gone s = br_arrived s then s\<lparr>br_gone := 0\<rparr> else s)
       in obind (barrier_unlock s) (\<lambda>s. Ok (w\<lparr>bw_self := Own s\<rparr>))))"

text \<open>The whole function as its caller sees it: \<open>others\<close> is what happens while the thread
  sleeps.\<close>

definition Barrier_wait :: "(barw \<Rightarrow> barw outcome) \<Rightarrow> barw \<Rightarrow> (bool \<times> barw) outcome" where
  "Barrier_wait others w =
     obind (Barrier_wait_arrive w) (\<lambda>(retVal, w).
       if retVal then Ok (True, w)
       else obind (others w) (\<lambda>w. obind (Barrier_wait_leave w) (\<lambda>w. Ok (False, w))))"

definition Barrier_isEmpty :: "barw \<Rightarrow> bool outcome" where
  "Barrier_isEmpty w = with_barrier w (\<lambda>s. Ok (br_gone s = 0 \<or> br_gone s \<ge> br_required s))"

definition Barrier_clear :: "barw \<Rightarrow> barw outcome" where
  "Barrier_clear w =
     with_barrier w (\<lambda>s. ANY_REQUIRE (br_gone s = 0 \<or> br_gone s \<ge> br_required s)
       (let s = s\<lparr>br_valid := BARRIER_INVALID\<rparr>;
            s = s\<lparr>br_arrived := 0, br_gone := 0\<rparr>
        in ANY_REQUIRE (pthread_mutex_destroy (br_mutex s) = 0) (Ok (w\<lparr>bw_self := Own s\<rparr>))))"

definition Barrier_delete :: "barw \<Rightarrow> barw outcome" where
  "Barrier_delete w = ANY_REQUIRE (bw_self w \<noteq> Null)
     (obind (ANY_FREE (bw_self w)) (\<lambda>p. Ok (w\<lparr>bw_self := p\<rparr>)))"

subsection \<open>The threads\<close>

text \<open>
  Threads are numbers. \<open>sleeping\<close> are those blocked in \<^verbatim>\<open>pthread_cond_wait\<close>, \<open>woken\<close> those
  that have been woken and still have to get the mutex, \<open>returned\<close> the calls of
  \<^verbatim>\<open>Barrier_wait\<close> that have returned, with their result, oldest first.
\<close>

record threads =
  bar :: barw
  sleeping :: "nat list"
  woken :: "nat list"
  returned :: "(nat \<times> bool) list"

datatype bevent = Arrive nat | Leave nat | Spurious nat

inductive barrier_step :: "threads \<Rightarrow> bevent \<Rightarrow> threads \<Rightarrow> bool" where
  last: "t \<notin> set (sleeping s) \<Longrightarrow> t \<notin> set (woken s) \<Longrightarrow> Barrier_wait_arrive (bar s) = Ok (True, w) \<Longrightarrow>
    barrier_step s (Arrive t)
      (s\<lparr>bar := w, sleeping := [], woken := woken s @ sleeping s, returned := returned s @ [(t, True)]\<rparr>)"
| wait: "t \<notin> set (sleeping s) \<Longrightarrow> t \<notin> set (woken s) \<Longrightarrow> Barrier_wait_arrive (bar s) = Ok (False, w) \<Longrightarrow>
    barrier_step s (Arrive t) (s\<lparr>bar := w, sleeping := sleeping s @ [t]\<rparr>)"
| leave: "t \<in> set (woken s) \<Longrightarrow> Barrier_wait_leave (bar s) = Ok w \<Longrightarrow>
    barrier_step s (Leave t)
      (s\<lparr>bar := w, woken := remove1 t (woken s), returned := returned s @ [(t, False)]\<rparr>)"
| spurious: "t \<in> set (sleeping s) \<Longrightarrow>
    barrier_step s (Spurious t) (s\<lparr>sleeping := remove1 t (sleeping s), woken := woken s @ [t]\<rparr>)"

inductive_cases ArriveE [elim]: "barrier_step s (Arrive t) s'"
inductive_cases LeaveE [elim]: "barrier_step s (Leave t) s'"
inductive_cases SpuriousE [elim]: "barrier_step s (Spurious t) s'"
inductive_simps barrier_step_simps: "barrier_step s e s'"

inductive barrier_trace :: "threads \<Rightarrow> bevent list \<Rightarrow> threads \<Rightarrow> bool" where
  nil [intro!]: "barrier_trace s [] s"
| snoc [intro]: "barrier_trace s es s' \<Longrightarrow> barrier_step s' e s'' \<Longrightarrow> barrier_trace s (es @ [e]) s''"

text \<open>The same steps as a function.\<close>

fun barrier_next :: "bevent \<Rightarrow> threads \<Rightarrow> threads option" where
  "barrier_next (Arrive t) s =
     (if t \<in> set (sleeping s) \<or> t \<in> set (woken s) then None
      else case Barrier_wait_arrive (bar s) of
        Ok (isLast, w) \<Rightarrow>
          Some (if isLast
                then s\<lparr>bar := w, sleeping := [], woken := woken s @ sleeping s,
                       returned := returned s @ [(t, True)]\<rparr>
                else s\<lparr>bar := w, sleeping := sleeping s @ [t]\<rparr>)
      | _ \<Rightarrow> None)"
| "barrier_next (Leave t) s =
     (if t \<notin> set (woken s) then None
      else case Barrier_wait_leave (bar s) of
        Ok w \<Rightarrow> Some (s\<lparr>bar := w, woken := remove1 t (woken s), returned := returned s @ [(t, False)]\<rparr>)
      | _ \<Rightarrow> None)"
| "barrier_next (Spurious t) s =
     (if t \<notin> set (sleeping s) then None
      else Some (s\<lparr>sleeping := remove1 t (sleeping s), woken := woken s @ [t]\<rparr>))"

fun barrier_run :: "bevent list \<Rightarrow> threads \<Rightarrow> threads option" where
  "barrier_run [] s = Some s"
| "barrier_run (e # es) s = Option.bind (barrier_next e s) (barrier_run es)"

definition barrier_start :: "int \<Rightarrow> bool \<Rightarrow> nat \<Rightarrow> threads" where
  "barrier_start n callBack arg = \<lparr>bar = \<lparr>bw_self = Own \<lparr>br_valid = BARRIER_VALID, br_mutex = MxFree,
       br_pshared = 0, br_required = n, br_arrived = 0, br_gone = 0, br_callBack = callBack,
       br_callBackArg = arg\<rparr>, bw_mem = 0, bw_calls = []\<rparr>,
     sleeping = [], woken = [], returned = []\<rparr>"

lemma barrier_start_init:
  "0 < n \<Longrightarrow> obind (Barrier_new \<lparr>bw_self = Null, bw_mem = 1, bw_calls = []\<rparr>) (Barrier_init BARRIER_PRIVATE n callBack arg) =
     Ok (True, bar (barrier_start n callBack arg))"
  by (simp add: Barrier_new_def Barrier_init_def Barrier_zero_def barrier_start_def BARRIER_PRIVATE_def
      BARRIER_SHARED_def PTHREAD_PROCESS_PRIVATE_def)

end
