(* ===== verification/Barrier_Correct.thy ===== *)
theory Barrier_Correct
  imports Barrier
begin

text \<open>
  The contract of \<^verbatim>\<open>Barrier\<close>: the threads pass in rounds of the required number of calls, every
  round returns true exactly once, and no call aborts. A thread that is woken without a
  broadcast leaves its round early, which the round still counts as one of its calls. The
  invariant is proved by rule induction over the traces of the step relation.
\<close>

fun regular_event :: "bevent \<Rightarrow> bool" where
  "regular_event (Spurious t) = False"
| "regular_event e = True"

fun is_arrival :: "bevent \<Rightarrow> bool" where
  "is_arrival (Arrive t) = True"
| "is_arrival e = False"

definition rounds :: "threads \<Rightarrow> nat" where
  "rounds s = length (filter snd (returned s))"

text \<open>What the events alone say about the running round: how many threads have arrived in it and
  how many of them were woken spuriously. The arrival number \<open>n\<close> completes the round.\<close>

fun round_step :: "nat \<Rightarrow> bevent \<Rightarrow> nat \<times> nat \<Rightarrow> nat \<times> nat" where
  "round_step n (Arrive t) (a, e) = (if n \<le> a + 1 then (0, 0) else (a + 1, e))"
| "round_step n (Spurious t) (a, e) = (a, e + 1)"
| "round_step n (Leave t) r = r"

definition early :: "nat \<Rightarrow> bevent list \<Rightarrow> nat" where
  "early n es = snd (fold (round_step n) es (0, 0))"

definition barrier_inv :: "nat \<Rightarrow> bool \<Rightarrow> nat \<Rightarrow> nat \<times> nat \<Rightarrow> threads \<Rightarrow> bool" where
  "barrier_inv n callBack arg r s \<longleftrightarrow>
     (\<exists>b. bw_self (bar s) = Own b \<and> br_valid b = BARRIER_VALID \<and> br_mutex b = MxFree \<and>
        br_required b = int n \<and> br_callBack b = callBack \<and> br_callBackArg b = arg \<and>
        br_arrived b = int (fst r) \<and> (rounds s = 0 \<longrightarrow> snd r = 0 \<longrightarrow> br_gone b = 0)) \<and>
     fst r = length (sleeping s) + snd r \<and> fst r < n \<and> distinct (sleeping s @ woken s) \<and>
     length (returned s) + length (woken s) = rounds s * n + snd r \<and>
     bw_calls (bar s) = (if callBack then replicate (rounds s) arg else [])"

lemmas barrier_mutex_defs = barrier_lock_def barrier_unlock_def pthread_mutex_lock_def
  pthread_mutex_trylock_def pthread_mutex_unlock_def

text \<open>What the two halves of \<^verbatim>\<open>Barrier_wait\<close> do when the mutex is free.\<close>

lemma Barrier_wait_arrive_free:
  assumes "bw_self w = Own b" and "br_valid b = BARRIER_VALID" and "br_mutex b = MxFree"
  shows "Barrier_wait_arrive w =
    (if br_required b \<le> br_arrived b + 1
     then Ok (True, w\<lparr>bw_self := Own (b\<lparr>br_arrived := 0, br_gone := 1\<rparr>),
            bw_calls := (if br_callBack b then bw_calls w @ [br_callBackArg b] else bw_calls w)\<rparr>)
     else Ok (False, w\<lparr>bw_self := Own (b\<lparr>br_arrived := br_arrived b + 1\<rparr>)\<rparr>))"
  using assms by (cases b) (auto simp: Barrier_wait_arrive_def with_barrier_def barrier_mutex_defs Let_def)

lemma Barrier_wait_leave_free:
  assumes "bw_self w = Own b" and "br_mutex b = MxFree"
  shows "Barrier_wait_leave w = Ok (w\<lparr>bw_self :=
    Own (b\<lparr>br_gone := (if br_gone b + 1 = br_arrived b then 0 else br_gone b + 1)\<rparr>)\<rparr>)"
  using assms by (cases b) (auto simp: Barrier_wait_leave_def barrier_mutex_defs Let_def)

lemma barrier_inv_start:
  "0 < n \<Longrightarrow> barrier_inv n callBack arg (0, 0) (barrier_start (int n) callBack arg)"
  by (simp add: barrier_inv_def barrier_start_def rounds_def)

lemma barrier_inv_step:
  assumes "barrier_inv n callBack arg r s" and "barrier_step s ev s'"
  shows "barrier_inv n callBack arg (round_step n ev r) s'"
proof -
  obtain a e where r: "r = (a, e)" by (cases r)
  from assms(1) obtain b where b: "bw_self (bar s) = Own b" "br_valid b = BARRIER_VALID"
    "br_mutex b = MxFree" "br_required b = int n" "br_callBack b = callBack" "br_callBackArg b = arg"
    "br_arrived b = int a" "rounds s = 0 \<longrightarrow> e = 0 \<longrightarrow> br_gone b = 0"
    and s: "a = length (sleeping s) + e" "a < n" "distinct (sleeping s @ woken s)"
    "length (returned s) + length (woken s) = rounds s * n + e"
    "bw_calls (bar s) = (if callBack then replicate (rounds s) arg else [])"
    by (auto simp: barrier_inv_def r)
  from assms(2) show ?thesis
  proof (cases rule: barrier_step.cases)
    case (last t w)
    with b s show ?thesis
      by (auto simp: barrier_inv_def r Barrier_wait_arrive_free rounds_def replicate_append_same
          split: if_splits)
  next
    case (wait t w)
    with b s show ?thesis
      by (auto simp: barrier_inv_def r Barrier_wait_arrive_free rounds_def split: if_splits)
  next
    case (leave t w)
    then have "rounds s \<noteq> 0 \<or> e \<noteq> 0" "length (woken s) = Suc (length (remove1 t (woken s)))"
      using s by (auto simp: length_remove1) (metis length_pos_if_in_set Suc_pred)
    with leave b s show ?thesis
      by (auto simp: barrier_inv_def r Barrier_wait_leave_free rounds_def dest: notin_set_remove1)
  next
    case (spurious t)
    then have "length (sleeping s) = Suc (length (remove1 t (sleeping s)))"
      by (auto simp: length_remove1) (metis length_pos_if_in_set Suc_pred)
    with spurious b s show ?thesis
      by (auto simp: barrier_inv_def r rounds_def dest: notin_set_remove1)
  qed
qed

lemma barrier_inv_trace:
  "barrier_trace s es s' \<Longrightarrow> barrier_inv n callBack arg r s \<Longrightarrow>
   barrier_inv n callBack arg (fold (round_step n) es r) s'"
  by (induction rule: barrier_trace.induct) (auto intro: barrier_inv_step)

text \<open>The arrivals are those that have returned, are about to return, or sleep.\<close>

lemma barrier_arrivals_step:
  assumes "barrier_step s e s'"
  shows "length (returned s') + length (woken s') + length (sleeping s') =
    length (returned s) + length (woken s) + length (sleeping s) + (if is_arrival e then 1 else 0)"
  using assms
  by (cases rule: barrier_step.cases) (auto simp: length_remove1 dest: length_pos_if_in_set)

lemma barrier_arrivals:
  "barrier_trace s es s' \<Longrightarrow>
   length (returned s') + length (woken s') + length (sleeping s') =
     length (returned s) + length (woken s) + length (sleeping s) + length (filter is_arrival es)"
  by (induction rule: barrier_trace.induct) (auto dest: barrier_arrivals_step)

lemma early_regular:
  "list_all regular_event es \<Longrightarrow> snd (fold (round_step n) es (a, 0)) = 0"
proof (induction es arbitrary: a)
  case (Cons e es)
  then show ?case by (cases e) auto
qed simp

lemma early_arrive: "length ts < n \<Longrightarrow> fold (round_step n) (map Arrive ts) (0, 0) = (length ts, 0)"
  by (induction ts rule: rev_induct) auto

lemma barrier_progress:
  assumes "barrier_inv n callBack arg r s"
  shows "t \<notin> set (sleeping s) \<Longrightarrow> t \<notin> set (woken s) \<Longrightarrow> \<exists>s'. barrier_step s (Arrive t) s'"
    and "t \<in> set (woken s) \<Longrightarrow> \<exists>s'. barrier_step s (Leave t) s'"
proof -
  from assms obtain b where b: "bw_self (bar s) = Own b" "br_valid b = BARRIER_VALID" "br_mutex b = MxFree"
    by (auto simp: barrier_inv_def)
  show "\<exists>s'. barrier_step s (Arrive t) s'" if "t \<notin> set (sleeping s)" "t \<notin> set (woken s)"
    using that Barrier_wait_arrive_free [OF b] by (cases "br_required b \<le> br_arrived b + 1") (auto intro: barrier_step.intros)
  show "\<exists>s'. barrier_step s (Leave t) s'" if "t \<in> set (woken s)"
    using that Barrier_wait_leave_free [OF b(1,3)] by (blast intro: barrier_step.leave)
qed

text \<open>The step function computes the step relation.\<close>

lemma barrier_next_iff: "barrier_step s e s' \<longleftrightarrow> barrier_next e s = Some s'"
  by (cases e) (auto simp: barrier_step_simps split: outcome.splits if_splits)

lemma barrier_trace_Cons: "barrier_step s e s' \<Longrightarrow> barrier_trace s' es s'' \<Longrightarrow> barrier_trace s (e # es) s''"
proof (induction es arbitrary: s'' rule: rev_induct)
  case Nil
  then show ?case
    using barrier_trace.snoc [OF barrier_trace.nil Nil(1)] by (auto elim: barrier_trace.cases)
next
  case (snoc x xs)
  from snoc.prems(2) obtain t where "barrier_trace s' xs t" "barrier_step t x s''"
    by (auto elim: barrier_trace.cases)
  with snoc.IH [OF snoc.prems(1)] barrier_trace.snoc [of s "e # xs" t x s''] show ?case by simp
qed

lemma barrier_run_trace: "barrier_run es s = Some s' \<Longrightarrow> barrier_trace s es s'"
  by (induction es arbitrary: s) (auto simp: bind_eq_Some_conv barrier_next_iff intro: barrier_trace_Cons)

lemmas barrier_eval = barrier_start_def Barrier_wait_arrive_free Barrier_wait_leave_free rounds_def

text \<open>C20: The threads pass the barrier in rounds of \<open>n\<close> calls, after any events, spurious wake-ups
  included. As many rounds are complete as \<open>n\<close> goes into the number of arrivals; one call of each of
  them has returned true and has run the callback. The calls that have returned or are
  released are those of the complete rounds and, of the running round, those that were woken
  spuriously, because the wait is not repeated; the other arrivals of the running round sleep. Without a spurious wake-up nobody passes
  before the round is complete. From every such state a thread outside can enter and a released
  thread can leave: no call aborts or blocks anywhere but in the wait.\<close>

theorem Barrier_rounds:
  assumes "0 < n" and "barrier_trace (barrier_start (int n) callBack arg) es s"
  shows "rounds s = length (filter is_arrival es) div n \<and>
    length (returned s) + length (woken s) = rounds s * n + early n es \<and>
    length (sleeping s) + early n es = length (filter is_arrival es) mod n \<and>
    bw_calls (bar s) = (if callBack then replicate (rounds s) arg else []) \<and>
    (list_all regular_event es \<longrightarrow> early n es = 0) \<and>
    (\<forall>t. t \<notin> set (sleeping s) \<longrightarrow> t \<notin> set (woken s) \<longrightarrow> (\<exists>s'. barrier_step s (Arrive t) s')) \<and>
    (\<forall>t \<in> set (woken s). \<exists>s'. barrier_step s (Leave t) s')"
proof -
  have inv: "barrier_inv n callBack arg (fold (round_step n) es (0, 0)) s"
    using barrier_inv_trace [OF assms(2) barrier_inv_start [OF assms(1)]] .
  then have s: "length (sleeping s) + early n es < n"
    "length (returned s) + length (woken s) = rounds s * n + early n es"
    "bw_calls (bar s) = (if callBack then replicate (rounds s) arg else [])"
    by (auto simp: barrier_inv_def early_def)
  have "length (filter is_arrival es) = rounds s * n + (length (sleeping s) + early n es)"
    using barrier_arrivals [OF assms(2)] s(2) by (simp add: barrier_start_def)
  with s(1) have "rounds s = length (filter is_arrival es) div n"
    "length (sleeping s) + early n es = length (filter is_arrival es) mod n"
    by simp_all
  with s early_regular [of es n 0] barrier_progress [OF inv] show ?thesis by (auto simp: early_def)
qed

theorem Barrier_rounds_witness:
  "let es = [Arrive 1, Arrive 2, Spurious 1, Leave 1, Arrive 3, Leave 2, Arrive 4];
       s = the (barrier_run es (barrier_start 3 True 7)) in
     returned s = [(1, False), (3, True), (2, False)] \<and> rounds s = 1 \<and> early 3 es = 0 \<and>
     length (returned s) + length (woken s) = 3 \<and> length (sleeping s) = 1"
proof -
  let ?es = "[Arrive 1, Arrive 2, Spurious 1, Leave 1, Arrive 3, Leave 2, Arrive 4]"
  obtain s where s: "barrier_run ?es (barrier_start (int 3) True 7) = Some s"
    and r: "returned s = [(1, False), (3, True), (2, False)]"
    by (simp add: barrier_eval)
  have "early 3 ?es = 0" by (simp add: early_def)
  then have "rounds s = 1 \<and> length (returned s) + length (woken s) = 3 \<and> length (sleeping s) = 1"
    using Barrier_rounds [of 3 True 7 ?es s] barrier_run_trace [OF s] by simp
  with s r \<open>early 3 ?es = 0\<close> show ?thesis by simp
qed

text \<open>\<^verbatim>\<open>Barrier_isEmpty\<close> says that a barrier is empty while threads sleep in its first
  round, and \<^verbatim>\<open>Barrier_clear\<close>, which relies on the same test, then destroys the mutex and the
  condition the threads sleep on instead of aborting with its message.\<close>

theorem Barrier_isEmpty_ignores_first_round:
  assumes "length ts < n" and "distinct ts"
  shows "\<exists>s. barrier_trace (barrier_start (int n) callBack arg) (map Arrive ts) s \<and>
    sleeping s = ts \<and> Barrier_isEmpty (bar s) = Ok True \<and>
    (\<exists>w. Barrier_clear (bar s) = Ok w)"
  using assms
proof (induction ts rule: rev_induct)
  case Nil
  have "Barrier_isEmpty (bar (barrier_start (int n) callBack arg)) = Ok True"
    by (simp add: Barrier_isEmpty_def with_barrier_def barrier_start_def)
  then show ?case
    by (intro exI [of _ "barrier_start (int n) callBack arg"])
       (auto simp: barrier_start_def Barrier_clear_def with_barrier_def pthread_mutex_destroy_def)
next
  case (snoc t ts)
  then obtain s where s: "barrier_trace (barrier_start (int n) callBack arg) (map Arrive ts) s"
    "sleeping s = ts" by auto
  have "barrier_inv n callBack arg (0, 0) (barrier_start (int n) callBack arg)"
    using snoc.prems by (auto intro: barrier_inv_start)
  then have inv: "barrier_inv n callBack arg (length ts, 0) s"
    using barrier_inv_trace [OF s(1)] early_arrive [of ts n] snoc.prems by force
  have "length (filter is_arrival (map Arrive ts)) = length ts" by (simp add: comp_def)
  with barrier_arrivals [OF s(1)] s(2) have out: "returned s = []" "woken s = []"
    by (auto simp: barrier_start_def)
  obtain b where b: "bw_self (bar s) = Own b" "br_valid b = BARRIER_VALID" "br_mutex b = MxFree"
    "br_required b = int n" "br_arrived b = int (length ts)" "br_gone b = 0"
    using inv out s(2) by (auto simp: barrier_inv_def rounds_def)
  let ?s = "s\<lparr>bar := (bar s)\<lparr>bw_self := Own (b\<lparr>br_arrived := br_arrived b + 1\<rparr>)\<rparr>, sleeping := ts @ [t]\<rparr>"
  have "barrier_next (Arrive t) s = Some ?s"
    using snoc.prems b s(2) out by (simp add: Barrier_wait_arrive_free [OF b(1,2,3)])
  then have "barrier_step s (Arrive t) ?s"
    by (simp only: barrier_next_iff)
  with s(1) have "barrier_trace (barrier_start (int n) callBack arg) (map Arrive (ts @ [t])) ?s"
    by auto
  moreover have "Barrier_isEmpty (bar ?s) = Ok True" "\<exists>w. Barrier_clear (bar ?s) = Ok w"
    using b by (auto simp: Barrier_isEmpty_def Barrier_clear_def with_barrier_def pthread_mutex_destroy_def)
  ultimately show ?case by (intro exI [of _ ?s]) simp
qed

theorem Barrier_isEmpty_ignores_first_round_witness:
  "\<exists>s. barrier_trace (barrier_start 3 False 0) [Arrive 1, Arrive 2] s \<and> sleeping s = [1, 2] \<and>
     Barrier_isEmpty (bar s) = Ok True"
  using Barrier_isEmpty_ignores_first_round [of "[1, 2]" 3 False 0] by auto

text \<open>The wait is not in a loop that looks at the state again, so one spurious wake-up lets a
  thread through although nobody else has arrived.\<close>

lemma Barrier_spurious_wakeup_passes:
  assumes "1 < n"
  shows "\<exists>s. barrier_run [Arrive t, Spurious t, Leave t] (barrier_start n callBack arg) = Some s \<and>
    returned s = [(t, False)] \<and> rounds s = 0"
  using assms by (simp add: barrier_eval)

text \<open>One call of \<^verbatim>\<open>Barrier_wait\<close> is the arrival of its thread, the steps of the others and its
  leave.\<close>

lemma Barrier_wait_trace:
  assumes "barrier_next (Arrive t) s = Some s1" and "t \<in> set (sleeping s1)"
    and "t \<notin> set (sleeping s)" and "others (bar s1) = Ok (bar s2)" and "barrier_next (Leave t) s2 = Some s3"
  shows "Barrier_wait others (bar s) = Ok (False, bar s3)"
  using assms by (auto simp: Barrier_wait_def split: outcome.splits if_splits)

end
