(* ===== verification/Mem_X.thy ===== *)
theory Mem_X
  imports Interfaces
begin

text \<open>
  The memory blocks of src/src/MemX.c: an object owns a buffer of \<open>length\<close> elements of one type. The
  eight types (\<^verbatim>\<open>MemI8\<close> to \<^verbatim>\<open>MemF64\<close>) have the same functions, which differ
  in the size of an element; those of \<^verbatim>\<open>MemI8\<close> also require their buffers.

  A buffer is the list of its bytes. \<^verbatim>\<open>ANY_MALLOC\<close> is \<^verbatim>\<open>calloc\<close>: it takes one allocation of
  the budget and returns zeroed bytes. An object is reached through its pointer; the functions that change it
  return the pointer with the new object behind it. The source of a copy is another object or the same one.

  \<^verbatim>\<open>memcpy\<close> and \<^verbatim>\<open>memcmp\<close> get the number of elements where they take a number of bytes, so a copy of
  wider elements is cut off (lemma \<open>Mem_copy_cut\<close>).
\<close>

record Mem =
  me_buffer :: "byte list owned"
  me_length :: uint32

definition Mem_zero :: Mem where
  "Mem_zero = \<lparr>me_buffer = Null, me_length = 0\<rparr>"

subsection \<open>The functions for elements of any size\<close>

text \<open>\<^verbatim>\<open>memcpy( dst, src, n )\<close>\<close>

definition memcpy :: "nat \<Rightarrow> byte list owned \<Rightarrow> byte list owned \<Rightarrow> byte list owned outcome" where
  "memcpy n dst src =
     (if n = 0 then Ok dst
      else deref dst (\<lambda>d. deref src (\<lambda>s.
           defined_if (n \<le> length d \<and> n \<le> length s) (Ok (Own (take n s @ drop n d))))))"

text \<open>\<^verbatim>\<open>memcmp( a, b, n ) == 0\<close>\<close>

definition memcmp_eq :: "nat \<Rightarrow> byte list owned \<Rightarrow> byte list owned \<Rightarrow> bool outcome" where
  "memcmp_eq n a b =
     (if n = 0 then Ok True
      else deref a (\<lambda>x. deref b (\<lambda>y.
           defined_if (n \<le> length x \<and> n \<le> length y) (Ok (take n x = take n y)))))"

definition mem_new :: "nat \<Rightarrow> (Mem owned \<times> nat) outcome" where
  "mem_new mem =
     (let (self, mem) = ANY_TALLOC Mem_zero mem in ANY_REQUIRE (self \<noteq> Null) (Ok (self, mem)))"

definition mem_init :: "nat \<Rightarrow> uint32 \<Rightarrow> Mem owned \<Rightarrow> nat \<Rightarrow> (int \<times> Mem owned \<times> nat) outcome" where
  "mem_init esize len self mem = require_ptr self (\<lambda>s.
     let (buf, mem) = ANY_TALLOC (replicate (unat len * esize) 0) mem in
     Ok (if buf = Null then -1 else 0, Own (s\<lparr>me_length := len, me_buffer := buf\<rparr>), mem))"

definition mem_copyConstr :: "nat \<Rightarrow> Mem owned \<Rightarrow> Mem owned \<Rightarrow> nat \<Rightarrow> (int \<times> Mem owned \<times> nat) outcome" where
  "mem_copyConstr esize src self mem =
     require_ptr src (\<lambda>t. ANY_REQUIRE (me_buffer t \<noteq> Null)
       (obind (mem_init esize (me_length t) self mem) (\<lambda>(_, self, mem).
        require_ptr self (\<lambda>s. ANY_REQUIRE (me_buffer s \<noteq> Null)
          (let s = s\<lparr>me_length := me_length t\<rparr> in
           obind (memcpy (unat (me_length t)) (me_buffer s) (me_buffer t)) (\<lambda>buf.
           let s = s\<lparr>me_buffer := buf\<rparr> in
           obind (memcmp_eq (unat (me_length s)) (me_buffer s) (me_buffer t)) (\<lambda>eq.
           Ok (if me_length s = me_length t \<and> eq then 0 else -1, Own s, mem))))))))"

definition mem_copy :: "Mem owned \<Rightarrow> Mem owned \<Rightarrow> (int \<times> Mem owned) outcome" where
  "mem_copy src self =
     require_ptr self (\<lambda>s. require_ptr src (\<lambda>t.
     if me_length s < me_length t then Ok (-1, self)
     else obind (memcpy (unat (me_length t)) (me_buffer s) (me_buffer t)) (\<lambda>buf.
          Ok (0, Own (s\<lparr>me_buffer := buf\<rparr>)))))"

definition mem_getBuffer :: "Mem owned \<Rightarrow> byte list owned outcome" where
  "mem_getBuffer self = require_ptr self (\<lambda>s. Ok (me_buffer s))"

definition mem_getLength :: "Mem owned \<Rightarrow> uint32 outcome" where
  "mem_getLength self = require_ptr self (\<lambda>s. Ok (me_length s))"

definition mem_clear :: "Mem owned \<Rightarrow> Mem owned outcome" where
  "mem_clear self = require_ptr self (\<lambda>s.
     obind (ANY_FREE (me_buffer s)) (\<lambda>_. Ok (Own (s\<lparr>me_buffer := Null, me_length := 0\<rparr>))))"

definition mem_delete :: "Mem owned \<Rightarrow> Mem owned outcome" where
  "mem_delete self = ANY_REQUIRE (self \<noteq> Null) (ANY_FREE self)"

subsection \<open>The types\<close>

definition MemI8_new :: "nat \<Rightarrow> (Mem owned \<times> nat) outcome" where
  "MemI8_new = mem_new"

definition MemI8_init :: "uint32 \<Rightarrow> Mem owned \<Rightarrow> nat \<Rightarrow> (int \<times> Mem owned \<times> nat) outcome" where
  "MemI8_init = mem_init 1"

definition MemI8_copy :: "Mem owned \<Rightarrow> Mem owned \<Rightarrow> (int \<times> Mem owned) outcome" where
  "MemI8_copy src self =
     require_ptr self (\<lambda>s. require_ptr src (\<lambda>t.
     ANY_REQUIRE (me_buffer s \<noteq> Null) (ANY_REQUIRE (me_buffer t \<noteq> Null)
       (if me_length s < me_length t then Ok (-1, self)
        else obind (memcpy (unat (me_length t)) (me_buffer s) (me_buffer t)) (\<lambda>buf.
             Ok (0, Own (s\<lparr>me_buffer := buf\<rparr>)))))))"

definition MemI8_copyConstr :: "Mem owned \<Rightarrow> Mem owned \<Rightarrow> nat \<Rightarrow> (int \<times> Mem owned \<times> nat) outcome" where
  "MemI8_copyConstr = mem_copyConstr 1"

definition MemI8_getBuffer :: "Mem owned \<Rightarrow> byte list owned outcome" where
  "MemI8_getBuffer self = require_ptr self (\<lambda>s. ANY_REQUIRE (me_buffer s \<noteq> Null) (Ok (me_buffer s)))"

definition MemI8_getConstBuffer :: "Mem owned \<Rightarrow> byte list owned outcome" where
  "MemI8_getConstBuffer self = require_ptr self (\<lambda>s. ANY_REQUIRE (me_buffer s \<noteq> Null) (Ok (me_buffer s)))"

definition MemI8_getLength :: "Mem owned \<Rightarrow> uint32 outcome" where
  "MemI8_getLength = mem_getLength"

definition MemI8_clear :: "Mem owned \<Rightarrow> Mem owned outcome" where
  "MemI8_clear self = require_ptr self (\<lambda>s. ANY_REQUIRE (me_buffer s \<noteq> Null)
     (obind (ANY_FREE (me_buffer s)) (\<lambda>_. Ok (Own (s\<lparr>me_buffer := Null, me_length := 0\<rparr>)))))"

definition MemI8_delete :: "Mem owned \<Rightarrow> Mem owned outcome" where
  "MemI8_delete = mem_delete"

definition MemUI8_new :: "nat \<Rightarrow> (Mem owned \<times> nat) outcome" where
  "MemUI8_new = mem_new"

definition MemUI8_init :: "uint32 \<Rightarrow> Mem owned \<Rightarrow> nat \<Rightarrow> (int \<times> Mem owned \<times> nat) outcome" where
  "MemUI8_init = mem_init 1"

definition MemUI8_copyConstr :: "Mem owned \<Rightarrow> Mem owned \<Rightarrow> nat \<Rightarrow> (int \<times> Mem owned \<times> nat) outcome" where
  "MemUI8_copyConstr = mem_copyConstr 1"

definition MemUI8_copy :: "Mem owned \<Rightarrow> Mem owned \<Rightarrow> (int \<times> Mem owned) outcome" where
  "MemUI8_copy = mem_copy"

definition MemUI8_getBuffer :: "Mem owned \<Rightarrow> byte list owned outcome" where
  "MemUI8_getBuffer = mem_getBuffer"

definition MemUI8_getConstBuffer :: "Mem owned \<Rightarrow> byte list owned outcome" where
  "MemUI8_getConstBuffer = mem_getBuffer"

definition MemUI8_getLength :: "Mem owned \<Rightarrow> uint32 outcome" where
  "MemUI8_getLength = mem_getLength"

definition MemUI8_clear :: "Mem owned \<Rightarrow> Mem owned outcome" where
  "MemUI8_clear = mem_clear"

definition MemUI8_delete :: "Mem owned \<Rightarrow> Mem owned outcome" where
  "MemUI8_delete = mem_delete"

definition MemI16_new :: "nat \<Rightarrow> (Mem owned \<times> nat) outcome" where
  "MemI16_new = mem_new"

definition MemI16_init :: "uint32 \<Rightarrow> Mem owned \<Rightarrow> nat \<Rightarrow> (int \<times> Mem owned \<times> nat) outcome" where
  "MemI16_init = mem_init 2"

definition MemI16_copyConstr :: "Mem owned \<Rightarrow> Mem owned \<Rightarrow> nat \<Rightarrow> (int \<times> Mem owned \<times> nat) outcome" where
  "MemI16_copyConstr = mem_copyConstr 2"

definition MemI16_copy :: "Mem owned \<Rightarrow> Mem owned \<Rightarrow> (int \<times> Mem owned) outcome" where
  "MemI16_copy = mem_copy"

definition MemI16_getBuffer :: "Mem owned \<Rightarrow> byte list owned outcome" where
  "MemI16_getBuffer = mem_getBuffer"

definition MemI16_getConstBuffer :: "Mem owned \<Rightarrow> byte list owned outcome" where
  "MemI16_getConstBuffer = mem_getBuffer"

definition MemI16_getLength :: "Mem owned \<Rightarrow> uint32 outcome" where
  "MemI16_getLength = mem_getLength"

definition MemI16_clear :: "Mem owned \<Rightarrow> Mem owned outcome" where
  "MemI16_clear = mem_clear"

definition MemI16_delete :: "Mem owned \<Rightarrow> Mem owned outcome" where
  "MemI16_delete = mem_delete"

definition MemUI16_new :: "nat \<Rightarrow> (Mem owned \<times> nat) outcome" where
  "MemUI16_new = mem_new"

definition MemUI16_init :: "uint32 \<Rightarrow> Mem owned \<Rightarrow> nat \<Rightarrow> (int \<times> Mem owned \<times> nat) outcome" where
  "MemUI16_init = mem_init 2"

definition MemUI16_copyConstr :: "Mem owned \<Rightarrow> Mem owned \<Rightarrow> nat \<Rightarrow> (int \<times> Mem owned \<times> nat) outcome" where
  "MemUI16_copyConstr = mem_copyConstr 2"

definition MemUI16_copy :: "Mem owned \<Rightarrow> Mem owned \<Rightarrow> (int \<times> Mem owned) outcome" where
  "MemUI16_copy = mem_copy"

definition MemUI16_getBuffer :: "Mem owned \<Rightarrow> byte list owned outcome" where
  "MemUI16_getBuffer = mem_getBuffer"

definition MemUI16_getConstBuffer :: "Mem owned \<Rightarrow> byte list owned outcome" where
  "MemUI16_getConstBuffer = mem_getBuffer"

definition MemUI16_getLength :: "Mem owned \<Rightarrow> uint32 outcome" where
  "MemUI16_getLength = mem_getLength"

definition MemUI16_clear :: "Mem owned \<Rightarrow> Mem owned outcome" where
  "MemUI16_clear = mem_clear"

definition MemUI16_delete :: "Mem owned \<Rightarrow> Mem owned outcome" where
  "MemUI16_delete = mem_delete"

definition MemI32_new :: "nat \<Rightarrow> (Mem owned \<times> nat) outcome" where
  "MemI32_new = mem_new"

definition MemI32_init :: "uint32 \<Rightarrow> Mem owned \<Rightarrow> nat \<Rightarrow> (int \<times> Mem owned \<times> nat) outcome" where
  "MemI32_init = mem_init 4"

definition MemI32_copyConstr :: "Mem owned \<Rightarrow> Mem owned \<Rightarrow> nat \<Rightarrow> (int \<times> Mem owned \<times> nat) outcome" where
  "MemI32_copyConstr = mem_copyConstr 4"

definition MemI32_copy :: "Mem owned \<Rightarrow> Mem owned \<Rightarrow> (int \<times> Mem owned) outcome" where
  "MemI32_copy = mem_copy"

definition MemI32_getBuffer :: "Mem owned \<Rightarrow> byte list owned outcome" where
  "MemI32_getBuffer = mem_getBuffer"

definition MemI32_getConstBuffer :: "Mem owned \<Rightarrow> byte list owned outcome" where
  "MemI32_getConstBuffer = mem_getBuffer"

definition MemI32_getLength :: "Mem owned \<Rightarrow> uint32 outcome" where
  "MemI32_getLength = mem_getLength"

definition MemI32_clear :: "Mem owned \<Rightarrow> Mem owned outcome" where
  "MemI32_clear = mem_clear"

definition MemI32_delete :: "Mem owned \<Rightarrow> Mem owned outcome" where
  "MemI32_delete = mem_delete"

definition MemUI32_new :: "nat \<Rightarrow> (Mem owned \<times> nat) outcome" where
  "MemUI32_new = mem_new"

definition MemUI32_init :: "uint32 \<Rightarrow> Mem owned \<Rightarrow> nat \<Rightarrow> (int \<times> Mem owned \<times> nat) outcome" where
  "MemUI32_init = mem_init 4"

definition MemUI32_copyConstr :: "Mem owned \<Rightarrow> Mem owned \<Rightarrow> nat \<Rightarrow> (int \<times> Mem owned \<times> nat) outcome" where
  "MemUI32_copyConstr = mem_copyConstr 4"

definition MemUI32_copy :: "Mem owned \<Rightarrow> Mem owned \<Rightarrow> (int \<times> Mem owned) outcome" where
  "MemUI32_copy = mem_copy"

definition MemUI32_getBuffer :: "Mem owned \<Rightarrow> byte list owned outcome" where
  "MemUI32_getBuffer = mem_getBuffer"

definition MemUI32_getConstBuffer :: "Mem owned \<Rightarrow> byte list owned outcome" where
  "MemUI32_getConstBuffer = mem_getBuffer"

definition MemUI32_getLength :: "Mem owned \<Rightarrow> uint32 outcome" where
  "MemUI32_getLength = mem_getLength"

definition MemUI32_clear :: "Mem owned \<Rightarrow> Mem owned outcome" where
  "MemUI32_clear = mem_clear"

definition MemUI32_delete :: "Mem owned \<Rightarrow> Mem owned outcome" where
  "MemUI32_delete = mem_delete"

definition MemF32_new :: "nat \<Rightarrow> (Mem owned \<times> nat) outcome" where
  "MemF32_new = mem_new"

definition MemF32_init :: "uint32 \<Rightarrow> Mem owned \<Rightarrow> nat \<Rightarrow> (int \<times> Mem owned \<times> nat) outcome" where
  "MemF32_init = mem_init 4"

definition MemF32_copyConstr :: "Mem owned \<Rightarrow> Mem owned \<Rightarrow> nat \<Rightarrow> (int \<times> Mem owned \<times> nat) outcome" where
  "MemF32_copyConstr = mem_copyConstr 4"

definition MemF32_copy :: "Mem owned \<Rightarrow> Mem owned \<Rightarrow> (int \<times> Mem owned) outcome" where
  "MemF32_copy = mem_copy"

definition MemF32_getBuffer :: "Mem owned \<Rightarrow> byte list owned outcome" where
  "MemF32_getBuffer = mem_getBuffer"

definition MemF32_getConstBuffer :: "Mem owned \<Rightarrow> byte list owned outcome" where
  "MemF32_getConstBuffer = mem_getBuffer"

definition MemF32_getLength :: "Mem owned \<Rightarrow> uint32 outcome" where
  "MemF32_getLength = mem_getLength"

definition MemF32_clear :: "Mem owned \<Rightarrow> Mem owned outcome" where
  "MemF32_clear = mem_clear"

definition MemF32_delete :: "Mem owned \<Rightarrow> Mem owned outcome" where
  "MemF32_delete = mem_delete"

definition MemF64_new :: "nat \<Rightarrow> (Mem owned \<times> nat) outcome" where
  "MemF64_new = mem_new"

definition MemF64_init :: "uint32 \<Rightarrow> Mem owned \<Rightarrow> nat \<Rightarrow> (int \<times> Mem owned \<times> nat) outcome" where
  "MemF64_init = mem_init 8"

definition MemF64_copyConstr :: "Mem owned \<Rightarrow> Mem owned \<Rightarrow> nat \<Rightarrow> (int \<times> Mem owned \<times> nat) outcome" where
  "MemF64_copyConstr = mem_copyConstr 8"

definition MemF64_copy :: "Mem owned \<Rightarrow> Mem owned \<Rightarrow> (int \<times> Mem owned) outcome" where
  "MemF64_copy = mem_copy"

definition MemF64_getBuffer :: "Mem owned \<Rightarrow> byte list owned outcome" where
  "MemF64_getBuffer = mem_getBuffer"

definition MemF64_getConstBuffer :: "Mem owned \<Rightarrow> byte list owned outcome" where
  "MemF64_getConstBuffer = mem_getBuffer"

definition MemF64_getLength :: "Mem owned \<Rightarrow> uint32 outcome" where
  "MemF64_getLength = mem_getLength"

definition MemF64_clear :: "Mem owned \<Rightarrow> Mem owned outcome" where
  "MemF64_clear = mem_clear"

definition MemF64_delete :: "Mem owned \<Rightarrow> Mem owned outcome" where
  "MemF64_delete = mem_delete"

text \<open>The eight types as one table: the size of an element and the functions.\<close>

datatype mem_type = TyI8 | TyUI8 | TyI16 | TyUI16 | TyI32 | TyUI32 | TyF32 | TyF64

primrec esize :: "mem_type \<Rightarrow> nat" where
  "esize TyI8 = 1"
| "esize TyUI8 = 1"
| "esize TyI16 = 2"
| "esize TyUI16 = 2"
| "esize TyI32 = 4"
| "esize TyUI32 = 4"
| "esize TyF32 = 4"
| "esize TyF64 = 8"

primrec new_of :: "mem_type \<Rightarrow> nat \<Rightarrow> (Mem owned \<times> nat) outcome" where
  "new_of TyI8 = MemI8_new"
| "new_of TyUI8 = MemUI8_new"
| "new_of TyI16 = MemI16_new"
| "new_of TyUI16 = MemUI16_new"
| "new_of TyI32 = MemI32_new"
| "new_of TyUI32 = MemUI32_new"
| "new_of TyF32 = MemF32_new"
| "new_of TyF64 = MemF64_new"

primrec init_of :: "mem_type \<Rightarrow> uint32 \<Rightarrow> Mem owned \<Rightarrow> nat \<Rightarrow> (int \<times> Mem owned \<times> nat) outcome" where
  "init_of TyI8 = MemI8_init"
| "init_of TyUI8 = MemUI8_init"
| "init_of TyI16 = MemI16_init"
| "init_of TyUI16 = MemUI16_init"
| "init_of TyI32 = MemI32_init"
| "init_of TyUI32 = MemUI32_init"
| "init_of TyF32 = MemF32_init"
| "init_of TyF64 = MemF64_init"

primrec copy_of :: "mem_type \<Rightarrow> Mem owned \<Rightarrow> Mem owned \<Rightarrow> (int \<times> Mem owned) outcome" where
  "copy_of TyI8 = MemI8_copy"
| "copy_of TyUI8 = MemUI8_copy"
| "copy_of TyI16 = MemI16_copy"
| "copy_of TyUI16 = MemUI16_copy"
| "copy_of TyI32 = MemI32_copy"
| "copy_of TyUI32 = MemUI32_copy"
| "copy_of TyF32 = MemF32_copy"
| "copy_of TyF64 = MemF64_copy"

primrec copyConstr_of :: "mem_type \<Rightarrow> Mem owned \<Rightarrow> Mem owned \<Rightarrow> nat \<Rightarrow> (int \<times> Mem owned \<times> nat) outcome" where
  "copyConstr_of TyI8 = MemI8_copyConstr"
| "copyConstr_of TyUI8 = MemUI8_copyConstr"
| "copyConstr_of TyI16 = MemI16_copyConstr"
| "copyConstr_of TyUI16 = MemUI16_copyConstr"
| "copyConstr_of TyI32 = MemI32_copyConstr"
| "copyConstr_of TyUI32 = MemUI32_copyConstr"
| "copyConstr_of TyF32 = MemF32_copyConstr"
| "copyConstr_of TyF64 = MemF64_copyConstr"

primrec getBuffer_of :: "mem_type \<Rightarrow> Mem owned \<Rightarrow> byte list owned outcome" where
  "getBuffer_of TyI8 = MemI8_getBuffer"
| "getBuffer_of TyUI8 = MemUI8_getBuffer"
| "getBuffer_of TyI16 = MemI16_getBuffer"
| "getBuffer_of TyUI16 = MemUI16_getBuffer"
| "getBuffer_of TyI32 = MemI32_getBuffer"
| "getBuffer_of TyUI32 = MemUI32_getBuffer"
| "getBuffer_of TyF32 = MemF32_getBuffer"
| "getBuffer_of TyF64 = MemF64_getBuffer"

primrec getConstBuffer_of :: "mem_type \<Rightarrow> Mem owned \<Rightarrow> byte list owned outcome" where
  "getConstBuffer_of TyI8 = MemI8_getConstBuffer"
| "getConstBuffer_of TyUI8 = MemUI8_getConstBuffer"
| "getConstBuffer_of TyI16 = MemI16_getConstBuffer"
| "getConstBuffer_of TyUI16 = MemUI16_getConstBuffer"
| "getConstBuffer_of TyI32 = MemI32_getConstBuffer"
| "getConstBuffer_of TyUI32 = MemUI32_getConstBuffer"
| "getConstBuffer_of TyF32 = MemF32_getConstBuffer"
| "getConstBuffer_of TyF64 = MemF64_getConstBuffer"

primrec getLength_of :: "mem_type \<Rightarrow> Mem owned \<Rightarrow> uint32 outcome" where
  "getLength_of TyI8 = MemI8_getLength"
| "getLength_of TyUI8 = MemUI8_getLength"
| "getLength_of TyI16 = MemI16_getLength"
| "getLength_of TyUI16 = MemUI16_getLength"
| "getLength_of TyI32 = MemI32_getLength"
| "getLength_of TyUI32 = MemUI32_getLength"
| "getLength_of TyF32 = MemF32_getLength"
| "getLength_of TyF64 = MemF64_getLength"

primrec clear_of :: "mem_type \<Rightarrow> Mem owned \<Rightarrow> Mem owned outcome" where
  "clear_of TyI8 = MemI8_clear"
| "clear_of TyUI8 = MemUI8_clear"
| "clear_of TyI16 = MemI16_clear"
| "clear_of TyUI16 = MemUI16_clear"
| "clear_of TyI32 = MemI32_clear"
| "clear_of TyUI32 = MemUI32_clear"
| "clear_of TyF32 = MemF32_clear"
| "clear_of TyF64 = MemF64_clear"

primrec delete_of :: "mem_type \<Rightarrow> Mem owned \<Rightarrow> Mem owned outcome" where
  "delete_of TyI8 = MemI8_delete"
| "delete_of TyUI8 = MemUI8_delete"
| "delete_of TyI16 = MemI16_delete"
| "delete_of TyUI16 = MemUI16_delete"
| "delete_of TyI32 = MemI32_delete"
| "delete_of TyUI32 = MemUI32_delete"
| "delete_of TyF32 = MemF32_delete"
| "delete_of TyF64 = MemF64_delete"

lemmas mem_tables =
  MemI8_new_def MemI8_init_def MemI8_copy_def MemI8_copyConstr_def MemI8_getBuffer_def MemI8_getConstBuffer_def MemI8_getLength_def MemI8_clear_def MemI8_delete_def
  MemUI8_new_def MemUI8_init_def MemUI8_copy_def MemUI8_copyConstr_def MemUI8_getBuffer_def MemUI8_getConstBuffer_def MemUI8_getLength_def MemUI8_clear_def MemUI8_delete_def
  MemI16_new_def MemI16_init_def MemI16_copy_def MemI16_copyConstr_def MemI16_getBuffer_def MemI16_getConstBuffer_def MemI16_getLength_def MemI16_clear_def MemI16_delete_def
  MemUI16_new_def MemUI16_init_def MemUI16_copy_def MemUI16_copyConstr_def MemUI16_getBuffer_def MemUI16_getConstBuffer_def MemUI16_getLength_def MemUI16_clear_def MemUI16_delete_def
  MemI32_new_def MemI32_init_def MemI32_copy_def MemI32_copyConstr_def MemI32_getBuffer_def MemI32_getConstBuffer_def MemI32_getLength_def MemI32_clear_def MemI32_delete_def
  MemUI32_new_def MemUI32_init_def MemUI32_copy_def MemUI32_copyConstr_def MemUI32_getBuffer_def MemUI32_getConstBuffer_def MemUI32_getLength_def MemUI32_clear_def MemUI32_delete_def
  MemF32_new_def MemF32_init_def MemF32_copy_def MemF32_copyConstr_def MemF32_getBuffer_def MemF32_getConstBuffer_def MemF32_getLength_def MemF32_clear_def MemF32_delete_def
  MemF64_new_def MemF64_init_def MemF64_copy_def MemF64_copyConstr_def MemF64_getBuffer_def MemF64_getConstBuffer_def MemF64_getLength_def MemF64_clear_def MemF64_delete_def

lemmas mem_defs = mem_new_def mem_init_def mem_copy_def mem_copyConstr_def mem_getBuffer_def mem_getLength_def
  mem_clear_def mem_delete_def

subsection \<open>Programs\<close>

text \<open>The variables of a program that works on objects of one type, and what is left of the budget.\<close>

record memw =
  mw_vars :: "nat \<Rightarrow> Mem owned"
  mw_mem :: nat

datatype mem_op =
    OpNew nat | OpInit nat uint32 | OpCopy nat nat | OpCopyConstr nat nat
  | OpGetBuffer nat | OpGetConstBuffer nat | OpGetLength nat | OpClear nat | OpDelete nat

datatype mem_answer = NoAnswer | Status int | Bytes nat | Elements uint32

text \<open>Of a buffer that is handed out the program sees its size.\<close>

definition bytes_of :: "byte list owned \<Rightarrow> mem_answer" where
  "bytes_of p = (case p of Own b \<Rightarrow> Bytes (length b) | _ \<Rightarrow> NoAnswer)"

definition set_var :: "nat \<Rightarrow> Mem owned \<Rightarrow> memw \<Rightarrow> memw" where
  "set_var v p w = w\<lparr>mw_vars := (mw_vars w)(v := p)\<rparr>"

fun mem_step :: "mem_type \<Rightarrow> mem_op \<Rightarrow> memw \<Rightarrow> (mem_answer \<times> memw) outcome" where
  "mem_step ty (OpNew v) w = obind (new_of ty (mw_mem w)) (\<lambda>(p, mem).
     Ok (NoAnswer, set_var v p (w\<lparr>mw_mem := mem\<rparr>)))"
| "mem_step ty (OpInit v len) w = obind (init_of ty len (mw_vars w v) (mw_mem w)) (\<lambda>(r, p, mem).
     Ok (Status r, set_var v p (w\<lparr>mw_mem := mem\<rparr>)))"
| "mem_step ty (OpCopy v u) w = obind (copy_of ty (mw_vars w u) (mw_vars w v)) (\<lambda>(r, p).
     Ok (Status r, set_var v p w))"
| "mem_step ty (OpCopyConstr v u) w =
     obind (copyConstr_of ty (mw_vars w u) (mw_vars w v) (mw_mem w)) (\<lambda>(r, p, mem).
     Ok (Status r, set_var v p (w\<lparr>mw_mem := mem\<rparr>)))"
| "mem_step ty (OpGetBuffer v) w = obind (getBuffer_of ty (mw_vars w v)) (\<lambda>b. Ok (bytes_of b, w))"
| "mem_step ty (OpGetConstBuffer v) w = obind (getConstBuffer_of ty (mw_vars w v)) (\<lambda>b. Ok (bytes_of b, w))"
| "mem_step ty (OpGetLength v) w = obind (getLength_of ty (mw_vars w v)) (\<lambda>n. Ok (Elements n, w))"
| "mem_step ty (OpClear v) w = obind (clear_of ty (mw_vars w v)) (\<lambda>p. Ok (NoAnswer, set_var v p w))"
| "mem_step ty (OpDelete v) w = obind (delete_of ty (mw_vars w v)) (\<lambda>p. Ok (NoAnswer, set_var v p w))"

text \<open>The type of a variable: no object, an object without a buffer, or a block with a number of elements.\<close>

datatype mem_state = NoObject | NoBlock | Block uint32

definition state_of :: "Mem owned \<Rightarrow> mem_state" where
  "state_of p = (case p of
     Own s \<Rightarrow> (case me_buffer s of Own _ \<Rightarrow> Block (me_length s) | _ \<Rightarrow> NoBlock)
   | _ \<Rightarrow> NoObject)"

definition states :: "memw \<Rightarrow> nat \<Rightarrow> mem_state" where
  "states w v = state_of (mw_vars w v)"

text \<open>An object is well typed when its buffer has room for exactly its elements.\<close>

definition well_typed :: "mem_type \<Rightarrow> Mem \<Rightarrow> bool" where
  "well_typed ty s \<longleftrightarrow> (case me_buffer s of
     Null \<Rightarrow> me_length s = 0
   | Dangling \<Rightarrow> False
   | Own b \<Rightarrow> length b = unat (me_length s) * esize ty)"

definition well_typed_vars :: "mem_type \<Rightarrow> memw \<Rightarrow> bool" where
  "well_typed_vars ty w \<longleftrightarrow> (\<forall>v s. mw_vars w v = Own s \<longrightarrow> well_typed ty s)"

text \<open>What an operation asks of its variables, what it answers and which types its variables get.\<close>

fun mem_legal :: "mem_op \<Rightarrow> (nat \<Rightarrow> mem_state) \<Rightarrow> bool" where
  "mem_legal (OpNew v) G \<longleftrightarrow> G v = NoObject"
| "mem_legal (OpInit v len) G \<longleftrightarrow> G v = NoBlock"
| "mem_legal (OpCopy v u) G \<longleftrightarrow> (\<exists>m n. G v = Block m \<and> G u = Block n)"
| "mem_legal (OpCopyConstr v u) G \<longleftrightarrow> G v = NoBlock \<and> (\<exists>n. G u = Block n)"
| "mem_legal (OpGetBuffer v) G \<longleftrightarrow> (\<exists>n. G v = Block n)"
| "mem_legal (OpGetConstBuffer v) G \<longleftrightarrow> (\<exists>n. G v = Block n)"
| "mem_legal (OpGetLength v) G \<longleftrightarrow> (\<exists>n. G v = Block n)"
| "mem_legal (OpClear v) G \<longleftrightarrow> (\<exists>n. G v = Block n)"
| "mem_legal (OpDelete v) G \<longleftrightarrow> G v = NoBlock"

definition elements_in :: "mem_state \<Rightarrow> uint32" where
  "elements_in s = (case s of Block n \<Rightarrow> n | _ \<Rightarrow> 0)"

fun mem_spec :: "mem_type \<Rightarrow> mem_op \<Rightarrow> (nat \<Rightarrow> mem_state) \<Rightarrow> mem_answer \<times> (nat \<Rightarrow> mem_state)" where
  "mem_spec ty (OpNew v) G = (NoAnswer, G(v := NoBlock))"
| "mem_spec ty (OpInit v len) G = (Status 0, G(v := Block len))"
| "mem_spec ty (OpCopy v u) G = (Status (if elements_in (G v) < elements_in (G u) then -1 else 0), G)"
| "mem_spec ty (OpCopyConstr v u) G = (Status 0, G(v := G u))"
| "mem_spec ty (OpGetBuffer v) G = (Bytes (unat (elements_in (G v)) * esize ty), G)"
| "mem_spec ty (OpGetConstBuffer v) G = (Bytes (unat (elements_in (G v)) * esize ty), G)"
| "mem_spec ty (OpGetLength v) G = (Elements (elements_in (G v)), G)"
| "mem_spec ty (OpClear v) G = (NoAnswer, G(v := NoBlock))"
| "mem_spec ty (OpDelete v) G = (NoAnswer, G(v := NoObject))"

fun mem_cost :: "mem_op \<Rightarrow> nat" where
  "mem_cost (OpNew v) = 1"
| "mem_cost (OpInit v len) = 1"
| "mem_cost (OpCopyConstr v u) = 1"
| "mem_cost _ = 0"

subsection \<open>Lemmas\<close>

lemma esize_pos [simp]: "0 < esize ty"
  by (cases ty) simp_all

lemma esize_ge: "n \<le> n * esize ty"
  by (cases ty) simp_all

text \<open>Where the buffers are there, the functions of all types are those for elements of any size.\<close>

lemma functions_of [simp]:
  "new_of ty = mem_new" "init_of ty = mem_init (esize ty)" "copyConstr_of ty = mem_copyConstr (esize ty)"
  "getLength_of ty = mem_getLength" "delete_of ty = mem_delete"
  by (cases ty; simp add: mem_tables)+

lemma functions_of_block:
  assumes "me_buffer s = Own b"
  shows "getBuffer_of ty (Own s) = Ok (Own b)" "getConstBuffer_of ty (Own s) = Ok (Own b)"
    "clear_of ty (Own s) = Ok (Own (s\<lparr>me_buffer := Null, me_length := 0\<rparr>))"
  using assms by (cases ty; simp add: mem_tables mem_defs)+

lemma copy_of_block:
  assumes "me_buffer s = Own d" and "me_buffer t = Own b"
  shows "copy_of ty (Own t) (Own s) = mem_copy (Own t) (Own s)"
  using assms by (cases ty) (simp_all add: mem_tables mem_defs)

lemma memcpy_Own: "n \<le> length d \<Longrightarrow> n \<le> length b \<Longrightarrow> memcpy n (Own d) (Own b) = Ok (Own (take n b @ drop n d))"
  by (simp add: memcpy_def)

lemma memcmp_eq_copied:
  "n \<le> length d \<Longrightarrow> n \<le> length b \<Longrightarrow> memcmp_eq n (Own (take n b @ drop n d)) (Own b) = Ok True"
  by (simp add: memcmp_eq_def)

lemma well_typed_block: "well_typed ty s \<Longrightarrow> me_buffer s = Own b \<Longrightarrow> length b = unat (me_length s) * esize ty"
  by (simp add: well_typed_def)

lemma block_elements: "well_typed ty s \<Longrightarrow> me_buffer s = Own b \<Longrightarrow> unat (me_length s) \<le> length b"
  by (simp add: well_typed_block esize_ge)

lemma state_of_Block: "state_of p = Block n \<longleftrightarrow> (\<exists>s b. p = Own s \<and> me_buffer s = Own b \<and> me_length s = n)"
  by (auto simp: state_of_def split: owned.splits)

lemma state_of_NoBlock: "state_of p = NoBlock \<longleftrightarrow> (\<exists>s. p = Own s \<and> (\<forall>b. me_buffer s \<noteq> Own b))"
  by (auto simp: state_of_def split: owned.splits)

lemma states_set_var: "states (set_var v p w) = (states w)(v := state_of p)"
  by (auto simp: states_def set_var_def)

lemma states_mem [simp]: "states (w\<lparr>mw_mem := n\<rparr>) = states w"
  by (simp add: states_def fun_eq_iff)

lemma mw_mem_set_var [simp]: "mw_mem (set_var v p w) = mw_mem w"
  by (simp add: set_var_def)

lemma well_typed_set_var:
  "well_typed_vars ty w \<Longrightarrow> (\<And>s. p = Own s \<Longrightarrow> well_typed ty s) \<Longrightarrow> well_typed_vars ty (set_var v p w)"
  by (auto simp: well_typed_vars_def set_var_def)

lemma well_typed_mem [simp]: "well_typed_vars ty (w\<lparr>mw_mem := n\<rparr>) = well_typed_vars ty w"
  by (simp add: well_typed_vars_def)

text \<open>A block into which a prefix of another one has been copied.\<close>

lemma copied:
  assumes "well_typed ty s" and "me_buffer s = Own d" and "well_typed ty t" and "me_buffer t = Own b"
    and "me_length t \<le> me_length s"
  shows "mem_copy (Own t) (Own s) =
      Ok (0, Own (s\<lparr>me_buffer := Own (take (unat (me_length t)) b @ drop (unat (me_length t)) d)\<rparr>))"
    and "well_typed ty (s\<lparr>me_buffer := Own (take (unat (me_length t)) b @ drop (unat (me_length t)) d)\<rparr>)"
proof -
  have n: "unat (me_length t) \<le> length d" "unat (me_length t) \<le> length b"
    using block_elements [OF assms(1,2)] block_elements [OF assms(3,4)] assms(5)
    by (simp_all add: word_le_nat_alt)
  show "mem_copy (Own t) (Own s) =
      Ok (0, Own (s\<lparr>me_buffer := Own (take (unat (me_length t)) b @ drop (unat (me_length t)) d)\<rparr>))"
    using assms n by (simp add: mem_copy_def memcpy_Own not_less)
  show "well_typed ty (s\<lparr>me_buffer := Own (take (unat (me_length t)) b @ drop (unat (me_length t)) d)\<rparr>)"
    using well_typed_block [OF assms(1,2)] n by (simp add: well_typed_def min_absorb2)
qed

lemma copy_constructed:
  assumes "well_typed ty t" and "me_buffer t = Own b" and "0 < mem"
  obtains s' d where "mem_copyConstr (esize ty) (Own t) (Own s) mem = Ok (0, Own s', mem - 1)"
    and "me_buffer s' = Own d" and "me_length s' = me_length t" and "well_typed ty s'"
    and "d = take (unat (me_length t)) b @ replicate (unat (me_length t) * esize ty - unat (me_length t)) 0"
proof -
  let ?n = "unat (me_length t)" and ?z = "replicate (unat (me_length t) * esize ty) (0 :: byte)"
  let ?s = "s\<lparr>me_buffer := Own (take ?n b @ drop ?n ?z), me_length := me_length t\<rparr>"
  have n: "?n \<le> length ?z" "?n \<le> length b"
    using block_elements [OF assms(1,2)] by (simp_all add: esize_ge)
  have m: "mem_init (esize ty) (me_length t) (Own s) mem =
      Ok (0, Own (s\<lparr>me_buffer := Own ?z, me_length := me_length t\<rparr>), mem - 1)"
    using assms(3) by (simp add: mem_init_def)
  have "mem_copyConstr (esize ty) (Own t) (Own s) mem = Ok (0, Own ?s, mem - 1)"
    using memcpy_Own [OF n] memcmp_eq_copied [OF n] assms(2) by (simp add: mem_copyConstr_def m)
  moreover have "well_typed ty ?s"
    using well_typed_block [OF assms(1,2)] n by (simp add: well_typed_def min_absorb2)
  ultimately show thesis by (intro that) simp_all
qed

subsection \<open>Every operation keeps the types\<close>

lemma set_var_idem: "mw_vars w v = p \<Longrightarrow> set_var v p w = w"
  by (simp add: set_var_def fun_upd_idem)

lemma mem_step_ok:
  assumes "well_typed_vars ty w" and "mem_legal p (states w)" and "mem_cost p \<le> mw_mem w"
  shows "\<exists>w'. mem_step ty p w = Ok (fst (mem_spec ty p (states w)), w') \<and> well_typed_vars ty w' \<and>
    states w' = snd (mem_spec ty p (states w)) \<and> mw_mem w \<le> mw_mem w' + mem_cost p"
proof -
  have wt: "well_typed ty s" if "mw_vars w v = Own s" for v s
    using assms(1) that by (simp add: well_typed_vars_def)
  have blocks: "\<exists>s b. mw_vars w v = Own s \<and> me_buffer s = Own b \<and> me_length s = n \<and> well_typed ty s \<and>
      length b = unat n * esize ty" if "states w v = Block n" for v n
    using that wt by (fastforce simp: states_def state_of_Block dest: well_typed_block)
  have block: "\<exists>s b. mw_vars w v = Own s \<and> me_buffer s = Own b \<and> elements_in (states w v) = me_length s \<and>
      length b = unat (me_length s) * esize ty" if "\<exists>n. states w v = Block n" for v
    using that blocks by (fastforce simp: elements_in_def)
  have empty: "\<exists>s. mw_vars w v = Own s \<and> (\<forall>b. me_buffer s \<noteq> Own b) \<and> me_buffer s = Null"
    if NB: "states w v = NoBlock" for v
  proof -
    from NB obtain s where s: "mw_vars w v = Own s" "\<forall>b. me_buffer s \<noteq> Own b"
      by (auto simp: states_def state_of_NoBlock)
    with wt [OF s(1)] have "me_buffer s = Null" by (cases "me_buffer s") (simp_all add: well_typed_def)
    with s show ?thesis by blast
  qed
  show ?thesis
  proof (cases p)
    case (OpNew v)
    with assms show ?thesis
      by (auto simp: mem_new_def states_set_var Mem_zero_def state_of_def well_typed_def intro!: well_typed_set_var)
  next
    case (OpInit v len)
    with assms empty [of v] show ?thesis
      by (auto simp: mem_init_def states_set_var state_of_def well_typed_def intro!: well_typed_set_var)
  next
    case (OpCopy v u)
    with assms obtain m n where G: "states w v = Block m" "states w u = Block n" by auto
    from blocks [OF G(1)] obtain s d where s: "mw_vars w v = Own s" "me_buffer s = Own d" "me_length s = m"
      "well_typed ty s" by blast
    from blocks [OF G(2)] obtain t b where t: "mw_vars w u = Own t" "me_buffer t = Own b" "me_length t = n"
      "well_typed ty t" by blast
    show ?thesis
    proof (cases "m < n")
      case True
      with s t have "mem_copy (Own t) (Own s) = Ok (-1, Own s)" by (simp add: mem_copy_def)
      with True s t G OpCopy assms show ?thesis
        by (simp add: copy_of_block elements_in_def set_var_idem)
    next
      case False
      with s t have le: "me_length t \<le> me_length s" by simp
      from copied [OF s(4,2) t(4,2) le] obtain s' where
        "mem_copy (Own t) (Own s) = Ok (0, Own s')" "well_typed ty s'" "state_of (Own s') = Block m"
        using s(3) by (simp add: state_of_def)
      with False s t G OpCopy assms show ?thesis
        by (auto simp: copy_of_block elements_in_def states_set_var fun_upd_idem intro!: well_typed_set_var)
    qed
  next
    case (OpCopyConstr v u)
    with assms obtain n where G: "states w v = NoBlock" "states w u = Block n" by auto
    from empty [OF G(1)] obtain s where s: "mw_vars w v = Own s" by blast
    from blocks [OF G(2)] obtain t b where t: "mw_vars w u = Own t" "me_buffer t = Own b" "me_length t = n"
      "well_typed ty t" by blast
    have mem: "0 < mw_mem w" using assms OpCopyConstr by simp
    from copy_constructed [OF t(4,2) mem, of s] obtain s' d where
      "mem_copyConstr (esize ty) (Own t) (Own s) (mw_mem w) = Ok (0, Own s', mw_mem w - 1)"
      "me_buffer s' = Own d" "me_length s' = n" "well_typed ty s'"
      using t(3) by metis
    with s t G OpCopyConstr assms mem show ?thesis
      by (auto simp: states_set_var state_of_def intro!: well_typed_set_var)
  next
    case (OpGetBuffer v)
    with assms block [of v] show ?thesis by (auto simp: functions_of_block bytes_of_def)
  next
    case (OpGetConstBuffer v)
    with assms block [of v] show ?thesis by (auto simp: functions_of_block bytes_of_def)
  next
    case (OpGetLength v)
    with assms block [of v] show ?thesis by (auto simp: mem_getLength_def)
  next
    case (OpClear v)
    with assms block [of v] show ?thesis
      by (auto simp: functions_of_block states_set_var state_of_def well_typed_def intro!: well_typed_set_var)
  next
    case (OpDelete v)
    with assms empty [of v] show ?thesis
      by (auto simp: mem_delete_def states_set_var state_of_def intro!: well_typed_set_var)
  qed
qed

interpretation mem_block: component "mem_step ty" "mem_spec ty" "well_typed_vars ty" states mem_legal mem_cost mw_mem
  for ty
  by unfold_locales (rule mem_step_ok)

text \<open>C28: memory blocks of any of the eight element types are type safe. In a program that uses its
  variables as their types allow (an object before its block, a block before its elements), with enough memory for
  its allocations, no operation aborts or reaches outside of a block, the statuses, sizes and lengths are those
  computed from the types alone, and afterwards every block has room for exactly the elements that its
  length declares.\<close>

theorem Mem_type_safe:
  assumes "well_typed_vars ty w" and "legal_run (mem_spec ty) mem_legal ps (states w)"
    and "sum_list (map mem_cost ps) \<le> mw_mem w"
  shows "\<exists>w'. run (mem_step ty) ps w = Ok (fst (spec_run (mem_spec ty) ps (states w)), w') \<and>
    well_typed_vars ty w' \<and> states w' = snd (spec_run (mem_spec ty) ps (states w))"
  using mem_block.run_ok [OF assms] by blast

definition example_vars :: memw where
  "example_vars = \<lparr>mw_vars = (\<lambda>_. Null), mw_mem = 4\<rparr>"

definition example_ops :: "mem_op list" where
  "example_ops = [OpNew 0, OpInit 0 3, OpNew 1, OpCopyConstr 1 0, OpCopy 0 1, OpGetBuffer 1, OpClear 0, OpDelete 0]"

lemma example_vars_ok: "well_typed_vars TyI16 example_vars"
  by (simp add: well_typed_vars_def example_vars_def)

lemma example_states: "states example_vars = (\<lambda>_. NoObject)"
  by (simp add: fun_eq_iff states_def state_of_def example_vars_def)

lemma example_ops_legal:
  "legal_run (mem_spec TyI16) mem_legal example_ops (states example_vars)"
  "sum_list (map mem_cost example_ops) \<le> mw_mem example_vars"
  unfolding example_states by (simp_all add: example_ops_def example_vars_def elements_in_def)

lemma example_spec:
  "spec_run (mem_spec TyI16) example_ops (states example_vars) =
     ([NoAnswer, Status 0, NoAnswer, Status 0, Status 0, Bytes 6, NoAnswer, NoAnswer],
      (\<lambda>_. NoObject)(1 := Block 3))"
  by (simp add: example_ops_def example_states elements_in_def fun_eq_iff)

theorem Mem_type_safe_witness:
  "\<exists>w'. run (mem_step TyI16) example_ops example_vars =
      Ok ([NoAnswer, Status 0, NoAnswer, Status 0, Status 0, Bytes 6, NoAnswer, NoAnswer], w') \<and>
    well_typed_vars TyI16 w' \<and> states w' = (\<lambda>_. NoObject)(1 := Block 3)"
  using Mem_type_safe [OF example_vars_ok example_ops_legal] unfolding example_spec by simp

text \<open>
  A copy takes as many bytes as the source has elements and leaves the bytes behind them as they
  were. Between blocks of the same length it is a copy for types of one byte; of wider elements only a first part
  arrives, and the function reports success all the same.
\<close>

lemma Mem_copy_cut:
  assumes "well_typed ty s" and "me_buffer s = Own d" and "well_typed ty t" and "me_buffer t = Own b"
    and "me_length t = me_length s"
  shows "\<exists>d'. copy_of ty (Own t) (Own s) = Ok (0, Own (s\<lparr>me_buffer := Own d'\<rparr>)) \<and>
    (\<forall>i < length d. d' ! i = (if i < unat (me_length s) then b ! i else d ! i)) \<and> (esize ty = 1 \<longrightarrow> d' = b)"
proof -
  let ?n = "unat (me_length s)"
  have l: "length d = ?n * esize ty" "length b = ?n * esize ty"
    using well_typed_block [OF assms(1,2)] well_typed_block [OF assms(3,4)] assms(5) by simp_all
  have le: "?n \<le> length d" "?n \<le> length b" by (simp_all add: l esize_ge)
  have "copy_of ty (Own t) (Own s) = Ok (0, Own (s\<lparr>me_buffer := Own (take ?n b @ drop ?n d)\<rparr>))"
    using copied(1) [OF assms(1-4)] assms(5) by (simp add: copy_of_block [OF assms(2,4)])
  moreover have "(take ?n b @ drop ?n d) ! i = (if i < ?n then b ! i else d ! i)" if "i < length d" for i
    using that le by (simp add: nth_append)
  moreover have "take ?n b @ drop ?n d = b" if "esize ty = 1"
    using that l by simp
  ultimately show ?thesis by blast
qed

text \<open>After \<^verbatim>\<open>init\<close> without memory the length stands without a block: copying into such an object
  reaches through a null pointer, except with \<^verbatim>\<open>MemI8\<close>, which checks its buffers.\<close>

lemma Mem_init_fails:
  assumes "mem_init n len (Own s) 0 = Ok (r, Own s', mem)"
  shows "r = -1" and "me_buffer s' = Null" and "me_length s' = len"
  using assms by (auto simp: mem_init_def)

lemma Mem_copy_after_failed_init:
  assumes "ty \<noteq> TyI8" and "mem_init n len (Own s) 0 = Ok (r, Own s', mem)" and "me_buffer t = Own b"
    and "0 < me_length t" and "me_length t \<le> len"
  shows "copy_of ty (Own t) (Own s') = Fault"
proof -
  have n: "unat (me_length t) \<noteq> 0" using assms(4) by (simp add: unat_gt_0 word_gt_0)
  have "copy_of ty = mem_copy" using assms(1) by (cases ty) (simp_all add: mem_tables)
  with n assms(3,5) Mem_init_fails [OF assms(2)] show ?thesis
    by (simp add: mem_copy_def memcpy_def not_less)
qed

end
