(* ===== verification/Ser_Ref.thy ===== *)
theory Ser_Ref
  imports Heap_Model
begin

text \<open>
  The reference value pairs of the serialization header (src/src/SerializeReferenceValue.c): linked
  elements with two strings each, and the reader that makes a list of them from the text of a header.

  A C string is the list of the bytes from the pointer on, with its terminator; running behind
  the last one is a fault. The state holds the blocks of the elements and the budget of allocations. A list is
  the address of its first element. Loops over a list take \<open>brk\<close> as fuel, which is enough for
  every list that ends; \<open>Stuck\<close> is a list that is a cycle.
\<close>

subsection \<open>Strings\<close>

definition Any_strlen :: "byte list \<Rightarrow> nat outcome" where
  "Any_strlen s = defined_if (0 \<in> set s) (Ok (length (takeWhile (\<lambda>b. b \<noteq> 0) s)))"

text \<open>\<^verbatim>\<open>strncmp( s, t, n ) == 0\<close>\<close>

fun strncmp_eq :: "byte list \<Rightarrow> byte list \<Rightarrow> nat \<Rightarrow> bool outcome" where
  "strncmp_eq s t 0 = Ok True"
| "strncmp_eq (x # s) (y # t) (Suc n) =
     (if x \<noteq> y then Ok False else if x = 0 then Ok True else strncmp_eq s t n)"
| "strncmp_eq _ _ (Suc n) = Fault"

text \<open>\<^verbatim>\<open>strncpy\<close>: the string, padded with zeros up to \<open>n\<close> bytes; without a terminator when it has \<open>n\<close>
  characters or more.\<close>

definition Any_strncpy :: "byte list \<Rightarrow> byte list \<Rightarrow> nat \<Rightarrow> byte list outcome" where
  "Any_strncpy dst src n =
     (let s = takeWhile (\<lambda>b. b \<noteq> 0) (take n src) in
      defined_if (n \<le> length dst \<and> (n \<le> length src \<or> 0 \<in> set src))
        (Ok (s @ replicate (n - length s) 0 @ drop n dst)))"

definition Any_memset :: "byte list \<Rightarrow> byte \<Rightarrow> nat \<Rightarrow> byte list outcome" where
  "Any_memset dst b n = defined_if (n \<le> length dst) (Ok (replicate n b @ drop n dst))"

definition ANY_BALLOC :: "nat \<Rightarrow> nat \<Rightarrow> byte list owned \<times> nat" where
  "ANY_BALLOC n mem = ANY_TALLOC (replicate n 0) mem"

definition SERIALIZEREFERENCEVALUE_EOF :: byte where
  "SERIALIZEREFERENCEVALUE_EOF = 0"

definition SERIALIZEREFERENCEVALUE_ISSPACE :: "byte \<Rightarrow> bool" where
  "SERIALIZEREFERENCEVALUE_ISSPACE ch \<longleftrightarrow> ch = 32 \<or> ch = 9 \<or> ch = 13 \<or> ch = 10 \<or> ch = 11"

definition SERIALIZEREFERENCEVALUE_ISDIGIT :: "byte \<Rightarrow> bool" where
  "SERIALIZEREFERENCEVALUE_ISDIGIT ch \<longleftrightarrow> 48 \<le> ch \<and> ch \<le> 57"

definition SERIALIZEREFERENCEVALUE_ISALPHALOWER :: "byte \<Rightarrow> bool" where
  "SERIALIZEREFERENCEVALUE_ISALPHALOWER ch \<longleftrightarrow> 97 \<le> ch \<and> ch \<le> 122"

definition SERIALIZEREFERENCEVALUE_ISALPHAUPPER :: "byte \<Rightarrow> bool" where
  "SERIALIZEREFERENCEVALUE_ISALPHAUPPER ch \<longleftrightarrow> 65 \<le> ch \<and> ch \<le> 90"

definition SERIALIZEREFERENCEVALUE_ISADMITTEDREFERENCE :: "byte \<Rightarrow> bool" where
  "SERIALIZEREFERENCEVALUE_ISADMITTEDREFERENCE ch \<longleftrightarrow>
     SERIALIZEREFERENCEVALUE_ISDIGIT ch \<or> SERIALIZEREFERENCEVALUE_ISALPHALOWER ch \<or>
     SERIALIZEREFERENCEVALUE_ISALPHAUPPER ch \<or> ch = 58 \<or> ch = 36 \<or> ch = 95"

definition SERIALIZEREFERENCEVALUE_DEFAULT_VALUE_SIZE :: nat where
  "SERIALIZEREFERENCEVALUE_DEFAULT_VALUE_SIZE = 256"

text \<open>Running over a string while its characters have a property that the terminator does not have: the
  characters passed, and what is left.\<close>

fun advance :: "(byte \<Rightarrow> bool) \<Rightarrow> byte list \<Rightarrow> (byte list \<times> byte list) outcome" where
  "advance P [] = Fault"
| "advance P (c # s) =
     (if c \<noteq> SERIALIZEREFERENCEVALUE_EOF \<and> P c
      then omap (\<lambda>(tok, rest). (c # tok, rest)) (advance P s) else Ok ([], c # s))"

definition SERIALIZEREFERENCEVALUE_SKIPSPACES :: "byte list \<Rightarrow> byte list outcome" where
  "SERIALIZEREFERENCEVALUE_SKIPSPACES s = omap snd (advance SERIALIZEREFERENCEVALUE_ISSPACE s)"

text \<open>\<^verbatim>\<open>EXTRACTTOKEN\<close>: a block with the token and a terminator.\<close>

definition SERIALIZEREFERENCEVALUE_EXTRACTTOKEN :: "byte list \<Rightarrow> nat \<Rightarrow> (byte list \<times> nat) outcome" where
  "SERIALIZEREFERENCEVALUE_EXTRACTTOKEN tok mem =
     ANY_REQUIRE (length tok > 0)
       (let (dest, mem) = ANY_BALLOC (length tok + 1) mem in
        ANY_REQUIRE (dest \<noteq> Null) (deref dest (\<lambda>d.
          obind (Any_strncpy d tok (length tok)) (\<lambda>d.
          Ok (d[length tok := SERIALIZEREFERENCEVALUE_EOF], mem)))))"

definition SERIALIZEREFERENCEVALUE_GETTOKEN :: "byte list \<Rightarrow> nat \<Rightarrow> (byte list \<times> byte list \<times> nat) outcome" where
  "SERIALIZEREFERENCEVALUE_GETTOKEN s mem =
     obind (advance (\<lambda>c. \<not> SERIALIZEREFERENCEVALUE_ISSPACE c \<and> SERIALIZEREFERENCEVALUE_ISADMITTEDREFERENCE c) s)
       (\<lambda>(tok, s).
     obind (SERIALIZEREFERENCEVALUE_EXTRACTTOKEN tok mem) (\<lambda>(dest, mem).
     Ok (dest, s, mem)))"

text \<open>The character at the pointer.\<close>

definition peek :: "byte list \<Rightarrow> (byte \<Rightarrow> 'a outcome) \<Rightarrow> 'a outcome" where
  "peek s k = (case s of [] \<Rightarrow> Fault | c # _ \<Rightarrow> k c)"

subsection \<open>Elements\<close>

record SerializeReferenceValue =
  rv_reference :: "byte list owned"
  rv_value :: "byte list owned"
  rv_valueLen :: nat
  rv_referenceLen :: nat
  rv_next :: nat

record rvs =
  rs_heap :: "SerializeReferenceValue heap"
  rs_mem :: nat

definition SerializeReferenceValue_zero :: SerializeReferenceValue where
  "SerializeReferenceValue_zero =
     \<lparr>rv_reference = Null, rv_value = Null, rv_valueLen = 0, rv_referenceLen = 0, rv_next = 0\<rparr>"

definition SerializeReferenceValue_new :: "rvs \<Rightarrow> (nat \<times> rvs) outcome" where
  "SerializeReferenceValue_new w =
     (let (self, h, mem) = halloc SerializeReferenceValue_zero (rs_heap w) (rs_mem w) in
      ANY_REQUIRE (self \<noteq> 0) (Ok (self, w\<lparr>rs_heap := h, rs_mem := mem\<rparr>)))"

text \<open>Reading and writing the element behind \<^verbatim>\<open>self\<close>.\<close>

definition with_rvp :: "nat \<Rightarrow> rvs \<Rightarrow> (SerializeReferenceValue \<Rightarrow> 'a outcome) \<Rightarrow> 'a outcome" where
  "with_rvp self w k = ANY_REQUIRE (self \<noteq> 0) (obind (hread (rs_heap w) self) k)"

definition store_rvp :: "nat \<Rightarrow> SerializeReferenceValue \<Rightarrow> rvs \<Rightarrow> rvs outcome" where
  "store_rvp self c w = obind (hwrite (rs_heap w) self c) (\<lambda>h. Ok (w\<lparr>rs_heap := h\<rparr>))"

text \<open>A new block with a copy of the string.\<close>

definition copied :: "byte list \<Rightarrow> nat \<Rightarrow> nat \<Rightarrow> (byte list \<times> nat) outcome" where
  "copied s len mem =
     (let (p, mem) = ANY_BALLOC (len + 1) mem in
      ANY_REQUIRE (p \<noteq> Null) (deref p (\<lambda>d. obind (Any_strncpy d s len) (\<lambda>d. Ok (d, mem)))))"

definition SerializeReferenceValue_init :: "nat \<Rightarrow> byte list \<Rightarrow> byte list option \<Rightarrow> rvs \<Rightarrow> rvs outcome" where
  "SerializeReferenceValue_init self reference val w =
     with_rvp self w (\<lambda>c.
     obind (Any_strlen reference) (\<lambda>referenceLen.
     obind (copied reference referenceLen (rs_mem w)) (\<lambda>(r, mem).
     obind (case val of
              Some v \<Rightarrow> obind (Any_strlen v) (\<lambda>valueLen.
                obind (copied v valueLen mem) (\<lambda>(v, mem). Ok (v, valueLen, mem)))
            | None \<Rightarrow> let valueLen = SERIALIZEREFERENCEVALUE_DEFAULT_VALUE_SIZE;
                          (p, mem) = ANY_BALLOC (valueLen + 1) mem in
                ANY_REQUIRE (p \<noteq> Null) (deref p (\<lambda>v. Ok (v, valueLen, mem)))) (\<lambda>(v, valueLen, mem).
     store_rvp self (c\<lparr>rv_reference := Own r, rv_referenceLen := referenceLen, rv_value := Own v,
         rv_valueLen := valueLen\<rparr>) (w\<lparr>rs_mem := mem\<rparr>)))))"

definition SerializeReferenceValue_reset :: "nat \<Rightarrow> rvs \<Rightarrow> rvs outcome" where
  "SerializeReferenceValue_reset self w =
     with_rvp self w (\<lambda>c.
     deref (rv_reference c) (\<lambda>r. obind (Any_memset r 0 (rv_referenceLen c)) (\<lambda>r.
     deref (rv_value c) (\<lambda>v. obind (Any_memset v 0 (rv_valueLen c)) (\<lambda>v.
     store_rvp self (c\<lparr>rv_reference := Own r, rv_value := Own v\<rparr>) w)))))"

text \<open>A larger block in place of one that is too small.\<close>

definition enlarged :: "byte list owned \<Rightarrow> nat \<Rightarrow> nat \<Rightarrow> nat \<Rightarrow> (byte list owned \<times> nat) outcome" where
  "enlarged p oldLen len mem =
     (if oldLen < len
      then obind (if p \<noteq> Null then ANY_FREE p else Ok p) (\<lambda>_.
           let (p, mem) = ANY_BALLOC (len + 1) mem in ANY_REQUIRE (p \<noteq> Null) (Ok (p, mem)))
      else Ok (p, mem))"

definition SerializeReferenceValue_update :: "nat \<Rightarrow> byte list \<Rightarrow> byte list \<Rightarrow> rvs \<Rightarrow> rvs outcome" where
  "SerializeReferenceValue_update self reference val w =
     with_rvp self w (\<lambda>c.
     obind (Any_strlen reference) (\<lambda>referenceLen.
     obind (Any_strlen val) (\<lambda>valueLen.
     obind (enlarged (rv_reference c) (rv_referenceLen c) referenceLen (rs_mem w)) (\<lambda>(r, mem).
     obind (enlarged (rv_value c) (rv_valueLen c) valueLen mem) (\<lambda>(v, mem).
     obind (store_rvp self (c\<lparr>rv_reference := r, rv_value := v\<rparr>) (w\<lparr>rs_mem := mem\<rparr>)) (\<lambda>w.
     obind (SerializeReferenceValue_reset self w) (\<lambda>w.
     with_rvp self w (\<lambda>c.
     deref (rv_reference c) (\<lambda>r. obind (Any_strncpy r reference (referenceLen + 1)) (\<lambda>r.
     deref (rv_value c) (\<lambda>v. obind (Any_strncpy v val (valueLen + 1)) (\<lambda>v.
     store_rvp self (c\<lparr>rv_reference := Own r, rv_referenceLen := referenceLen, rv_value := Own v,
         rv_valueLen := valueLen\<rparr>) w))))))))))))"

definition SerializeReferenceValue_clear :: "nat \<Rightarrow> rvs \<Rightarrow> rvs outcome" where
  "SerializeReferenceValue_clear self w =
     with_rvp self w (\<lambda>c.
     obind (if rv_reference c \<noteq> Null
            then obind (ANY_FREE (rv_reference c)) (\<lambda>_. Ok (c\<lparr>rv_reference := Null, rv_referenceLen := 0\<rparr>))
            else Ok c) (\<lambda>c.
     obind (if rv_value c \<noteq> Null
            then obind (ANY_FREE (rv_value c)) (\<lambda>_. Ok (c\<lparr>rv_value := Null, rv_valueLen := 0\<rparr>))
            else Ok c) (\<lambda>c.
     store_rvp self c w)))"

definition SerializeReferenceValue_delete :: "nat \<Rightarrow> rvs \<Rightarrow> rvs outcome" where
  "SerializeReferenceValue_delete self w =
     ANY_REQUIRE (self \<noteq> 0) (obind (hfree (rs_heap w) self) (\<lambda>h. Ok (w\<lparr>rs_heap := h\<rparr>)))"

definition SerializeReferenceValue_getValue :: "nat \<Rightarrow> rvs \<Rightarrow> byte list owned outcome" where
  "SerializeReferenceValue_getValue self w = with_rvp self w (\<lambda>c. Ok (rv_value c))"

definition SerializeReferenceValue_getReference :: "nat \<Rightarrow> rvs \<Rightarrow> byte list owned outcome" where
  "SerializeReferenceValue_getReference self w = with_rvp self w (\<lambda>c. Ok (rv_reference c))"

definition SerializeReferenceValue_getValueLen :: "nat \<Rightarrow> rvs \<Rightarrow> nat outcome" where
  "SerializeReferenceValue_getValueLen self w = with_rvp self w (\<lambda>c. Ok (rv_valueLen c))"

definition SerializeReferenceValue_getReferenceLen :: "nat \<Rightarrow> rvs \<Rightarrow> nat outcome" where
  "SerializeReferenceValue_getReferenceLen self w = with_rvp self w (\<lambda>c. Ok (rv_referenceLen c))"

definition SerializeReferenceValue_getNext :: "nat \<Rightarrow> rvs \<Rightarrow> nat outcome" where
  "SerializeReferenceValue_getNext self w = with_rvp self w (\<lambda>c. Ok (rv_next c))"

subsection \<open>Lists\<close>

text \<open>Both searches compare as many characters as the wanted reference has.\<close>

fun find_loop :: "nat \<Rightarrow> byte list \<Rightarrow> nat \<Rightarrow> nat \<Rightarrow> rvs \<Rightarrow> nat outcome" where
  "find_loop 0 ref refLen current w = Stuck"
| "find_loop (Suc fuel) ref refLen current w =
     (if current = 0 then Ok 0
      else obind (hread (rs_heap w) current) (\<lambda>c.
           deref (rv_reference c) (\<lambda>r.
           obind (strncmp_eq r ref refLen) (\<lambda>eq.
           if eq then Ok current else find_loop fuel ref refLen (rv_next c) w))))"

definition SerializeReferenceValue_findReferenceValue :: "nat \<Rightarrow> byte list \<Rightarrow> rvs \<Rightarrow> nat outcome" where
  "SerializeReferenceValue_findReferenceValue list ref w =
     obind (Any_strlen ref) (\<lambda>refLen. find_loop (brk (rs_heap w)) ref refLen list w)"

text \<open>The value, or the null pointer.\<close>

definition SerializeReferenceValue_findValue :: "nat \<Rightarrow> byte list \<Rightarrow> rvs \<Rightarrow> byte list owned outcome" where
  "SerializeReferenceValue_findValue list ref w =
     ANY_REQUIRE (list \<noteq> 0)
       (obind (Any_strlen ref) (\<lambda>refLen.
        obind (find_loop (brk (rs_heap w)) ref refLen list w) (\<lambda>p.
        if p = 0 then Ok Null else obind (hread (rs_heap w) p) (\<lambda>c. Ok (rv_value c)))))"

text \<open>\<open>first\<close>, \<open>second\<close> and \<open>tail\<close> are what the three arguments point to.\<close>

definition SerializeReferenceValue_join :: "nat \<Rightarrow> nat \<Rightarrow> nat \<Rightarrow> rvs \<Rightarrow> rvs outcome" where
  "SerializeReferenceValue_join first second tail w =
     obind (hread (rs_heap w) second) (\<lambda>s.
     obind (hread (rs_heap w) first) (\<lambda>f.
     if rv_next f \<noteq> 0
     then obind (hupd (rs_heap w) second (\<lambda>c. c\<lparr>rv_next := rv_next f\<rparr>)) (\<lambda>h.
          obind (hupd h tail (\<lambda>c. c\<lparr>rv_next := rv_next s\<rparr>)) (\<lambda>h. Ok (w\<lparr>rs_heap := h\<rparr>)))
     else Ok w))"

fun append_loop :: "nat \<Rightarrow> nat \<Rightarrow> nat \<Rightarrow> rvs \<Rightarrow> rvs outcome" where
  "append_loop 0 current new w = Stuck"
| "append_loop (Suc fuel) current new w =
     obind (hread (rs_heap w) current) (\<lambda>c.
     if rv_next c \<noteq> 0 then append_loop fuel (rv_next c) new w
     else store_rvp current (c\<lparr>rv_next := new\<rparr>) w)"

definition SerializeReferenceValue_append :: "nat \<Rightarrow> nat \<Rightarrow> rvs \<Rightarrow> (nat \<times> rvs) outcome" where
  "SerializeReferenceValue_append head newElement w =
     ANY_REQUIRE (newElement \<noteq> 0)
       (if head \<noteq> 0 then obind (append_loop (brk (rs_heap w)) head newElement w) (\<lambda>w. Ok (head, w))
        else Ok (newElement, w))"

definition SerializeReferenceValue_push :: "nat \<Rightarrow> nat \<Rightarrow> rvs \<Rightarrow> (nat \<times> rvs) outcome" where
  "SerializeReferenceValue_push self item w =
     with_rvp item w (\<lambda>c. ANY_REQUIRE (rv_next c = 0)
       (obind (store_rvp item (c\<lparr>rv_next := self\<rparr>) w) (\<lambda>w. Ok (item, w))))"

text \<open>The element, and the new head.\<close>

definition SerializeReferenceValue_pop :: "nat \<Rightarrow> rvs \<Rightarrow> (nat \<times> nat \<times> rvs) outcome" where
  "SerializeReferenceValue_pop self w =
     (if self \<noteq> 0
      then obind (hread (rs_heap w) self) (\<lambda>c.
           obind (store_rvp self (c\<lparr>rv_next := 0\<rparr>) w) (\<lambda>w. Ok (self, rv_next c, w)))
      else Ok (0, self, w))"

fun destroy_loop :: "nat \<Rightarrow> nat \<Rightarrow> rvs \<Rightarrow> rvs outcome" where
  "destroy_loop 0 list w = Stuck"
| "destroy_loop (Suc fuel) list w =
     obind (hread (rs_heap w) list) (\<lambda>c.
     obind (SerializeReferenceValue_clear list w) (\<lambda>w.
     obind (SerializeReferenceValue_delete list w) (\<lambda>w.
     if rv_next c \<noteq> 0 then destroy_loop fuel (rv_next c) w else Ok w)))"

definition SerializeReferenceValue_destroyList :: "nat \<Rightarrow> rvs \<Rightarrow> rvs outcome" where
  "SerializeReferenceValue_destroyList list w =
     (if list \<noteq> 0 then destroy_loop (brk (rs_heap w)) list w else Ok w)"

subsection \<open>Reading pairs\<close>

text \<open>One pair, up to its value. \<open>None\<close>: the loop is left, the buffer has been released.\<close>

definition read_pair :: "byte list \<Rightarrow> nat \<Rightarrow> ((byte list \<times> byte list \<times> byte list) option \<times> nat) outcome" where
  "read_pair s mem =
     obind (SERIALIZEREFERENCEVALUE_GETTOKEN s mem) (\<lambda>(referenceBuffer, s, mem).
     obind (SERIALIZEREFERENCEVALUE_SKIPSPACES s) (\<lambda>s.
     peek s (\<lambda>c. if c \<noteq> 61 then Ok (None, mem)
     else obind (SERIALIZEREFERENCEVALUE_SKIPSPACES (drop 1 s)) (\<lambda>s.
     peek s (\<lambda>c. if c = SERIALIZEREFERENCEVALUE_EOF then Ok (None, mem)
     else if c = 39
     then obind (advance (\<lambda>c. c \<noteq> 39) (drop 1 s)) (\<lambda>(tok, s).
          peek s (\<lambda>c. if c \<noteq> 39 then Ok (None, mem)
          else obind (SERIALIZEREFERENCEVALUE_EXTRACTTOKEN tok mem) (\<lambda>(valueBuffer, mem).
               Ok (Some (referenceBuffer, valueBuffer, drop 1 s), mem))))
     else obind (SERIALIZEREFERENCEVALUE_GETTOKEN s mem) (\<lambda>(valueBuffer, s, mem).
          Ok (Some (referenceBuffer, valueBuffer, s), mem)))))))"

text \<open>Storing a pair: the element with the reference, one of the cache, or a new one. \<open>cache = None\<close>
  is the null pointer. The result is the list, the cache and the state.\<close>

definition store_pair :: "byte list \<Rightarrow> byte list \<Rightarrow> nat \<Rightarrow> nat option \<Rightarrow> rvs \<Rightarrow> (nat \<times> nat option \<times> rvs) outcome" where
  "store_pair referenceBuffer valueBuffer list cache w =
     obind (SerializeReferenceValue_findReferenceValue list referenceBuffer w) (\<lambda>rvp.
     obind (if rvp = 0
            then obind (case cache of
                          None \<Rightarrow> Ok (0, cache, w)
                        | Some p \<Rightarrow> omap (\<lambda>(rvp, p, w). (rvp, Some p, w)) (SerializeReferenceValue_pop p w)) (\<lambda>(rvp, cache, w).
                 if rvp = 0
                 then obind (SerializeReferenceValue_new w) (\<lambda>(rvp, w).
                      obind (SerializeReferenceValue_init rvp referenceBuffer (Some valueBuffer) w) (\<lambda>w.
                      Ok (rvp, cache, w)))
                 else Ok (rvp, cache, w))
            else Ok (rvp, cache, w)) (\<lambda>(rvp, cache, w).
     obind (SerializeReferenceValue_update rvp referenceBuffer valueBuffer w) (\<lambda>w.
     obind (SerializeReferenceValue_push list rvp w) (\<lambda>(list, w).
     Ok (list, cache, w)))))"

fun getRVP_loop :: "nat \<Rightarrow> byte list \<Rightarrow> nat \<Rightarrow> nat option \<Rightarrow> rvs \<Rightarrow> (nat \<times> nat option \<times> rvs) outcome" where
  "getRVP_loop 0 s list cache w = Stuck"
| "getRVP_loop (Suc fuel) s list cache w =
     peek s (\<lambda>c. if c = SERIALIZEREFERENCEVALUE_EOF then Ok (list, cache, w)
     else obind (SERIALIZEREFERENCEVALUE_SKIPSPACES s) (\<lambda>s.
     peek s (\<lambda>c. if c = SERIALIZEREFERENCEVALUE_EOF then Ok (list, cache, w)
     else if \<not> SERIALIZEREFERENCEVALUE_ISADMITTEDREFERENCE c then Ok (list, cache, w)
     else obind (read_pair s (rs_mem w)) (\<lambda>(pair, mem).
          let w = w\<lparr>rs_mem := mem\<rparr> in
          case pair of None \<Rightarrow> Ok (list, cache, w)
          | Some (referenceBuffer, valueBuffer, s) \<Rightarrow>
              obind (store_pair referenceBuffer valueBuffer list cache w) (\<lambda>(list, cache, w).
              getRVP_loop fuel s list cache w)))))"

text \<open>Each turn of the loop passes at least one character, so the length of the text is enough fuel.
  The argument \<^verbatim>\<open>listTail\<close> is not used.\<close>

definition SerializeReferenceValue_getRVP :: "nat \<Rightarrow> nat option \<Rightarrow> byte list \<Rightarrow> rvs \<Rightarrow>
    (nat \<times> nat option \<times> rvs) outcome" where
  "SerializeReferenceValue_getRVP list cache headerString w = getRVP_loop (length headerString) headerString list cache w"

end
