(* ===== verification/U_String.thy ===== *)
theory U_String
  imports Ser_Ref
begin

text \<open>
  The string functions of src/src/UString.c, which work on C strings in arrays of the caller.

  A pointer to characters is \<open>None\<close> when it is null, otherwise the list of the bytes from the
  pointer to the end of its array; the terminator stands somewhere in it, and an access outside of the list is a
  fault. A function that writes gives back the new content of the array. Lengths and positions are
  integers; strings are shorter than \<open>2\<^sup>3\<^sup>1\<close>, so their conversion to \<^verbatim>\<open>int\<close> does not change them. A
  negative number where the C library expects a size is one larger than any array.

  The loops that end with the string take its length as fuel. The functions that only
  call one of the C library (\<^verbatim>\<open>UString_compare\<close> and its variants, \<^verbatim>\<open>UString_snprintf\<close>) are left out.
\<close>

type_synonym cstring = "byte list option"

definition require_str :: "cstring \<Rightarrow> (byte list \<Rightarrow> 'b outcome) \<Rightarrow> 'b outcome" where
  "require_str p k = (case p of None \<Rightarrow> Require | Some s \<Rightarrow> k s)"

definition char_at :: "byte list \<Rightarrow> int \<Rightarrow> byte outcome" where
  "char_at s i = defined_if (0 \<le> i \<and> i < int (length s)) (Ok (s ! nat i))"

definition char_set :: "byte list \<Rightarrow> int \<Rightarrow> byte \<Rightarrow> byte list outcome" where
  "char_set s i c = defined_if (0 \<le> i \<and> i < int (length s)) (Ok (s[nat i := c]))"

definition string_length :: "byte list \<Rightarrow> int outcome" where
  "string_length s = omap int (Any_strlen s)"

text \<open>The pointer \<^verbatim>\<open>s + i\<close>.\<close>

definition at_offset :: "byte list \<Rightarrow> int \<Rightarrow> (byte list \<Rightarrow> 'b outcome) \<Rightarrow> 'b outcome" where
  "at_offset s i k = defined_if (0 \<le> i \<and> i \<le> int (length s)) (k (drop (nat i) s))"

text \<open>Writing at \<^verbatim>\<open>s + i\<close>: the function gets what begins there and gives back its new content.\<close>

definition write_at :: "byte list \<Rightarrow> int \<Rightarrow> (byte list \<Rightarrow> byte list outcome) \<Rightarrow> byte list outcome" where
  "write_at s i f = at_offset s i (\<lambda>t. omap (\<lambda>t. take (nat i) s @ t) (f t))"

definition copy_n :: "byte list \<Rightarrow> byte list \<Rightarrow> int \<Rightarrow> byte list outcome" where
  "copy_n dst src n = defined_if (0 \<le> n \<and> nat n \<le> length dst \<and> nat n \<le> length src)
     (Ok (take (nat n) src @ drop (nat n) dst))"

definition Any_strcpy :: "byte list \<Rightarrow> byte list \<Rightarrow> byte list outcome" where
  "Any_strcpy dst src = obind (Any_strlen src) (\<lambda>n. copy_n dst src (int n + 1))"

text \<open>\<^verbatim>\<open>strncpy\<close> and \<^verbatim>\<open>strncat\<close> with a number of type \<^verbatim>\<open>int\<close>.\<close>

definition strncpy_int :: "byte list \<Rightarrow> byte list \<Rightarrow> int \<Rightarrow> byte list outcome" where
  "strncpy_int dst src n = defined_if (0 \<le> n) (Any_strncpy dst src (nat n))"

definition Any_strncat :: "byte list \<Rightarrow> byte list \<Rightarrow> int \<Rightarrow> byte list outcome" where
  "Any_strncat dst src n =
     obind (Any_strlen dst) (\<lambda>l.
     obind (Any_strlen src) (\<lambda>m.
     let k = (if 0 \<le> n \<and> nat n < m then nat n else m) in
     defined_if (l + k < length dst) (Ok (take l dst @ take k src @ 0 # drop (l + k + 1) dst))))"

definition isspace :: "byte \<Rightarrow> bool" where
  "isspace c \<longleftrightarrow> c = 32 \<or> (9 \<le> c \<and> c \<le> 13)"

subsection \<open>Splitting\<close>

definition USTRING_BUFFER_SIZE :: nat where "USTRING_BUFFER_SIZE = 4096"

text \<open>The inner loop: the index behind the token, or the end of the string.\<close>

fun explode_scan :: "nat \<Rightarrow> byte list \<Rightarrow> byte \<Rightarrow> int \<Rightarrow> int \<Rightarrow> (int \<times> bool) outcome" where
  "explode_scan 0 s token len i = Ok (i, False)"
| "explode_scan (Suc n) s token len i =
     (if i < len
      then obind (char_at s i) (\<lambda>c. if c = token then Ok (i + 1, True) else explode_scan n s token len (i + 1))
      else Ok (i, False))"

definition explode_store :: "byte list \<Rightarrow> nat \<Rightarrow> byte list \<Rightarrow> byte list outcome" where
  "explode_store buf listElementSize tmp =
     obind (Any_strlen buf) (\<lambda>n.
     if n > 0
     then if n < listElementSize then Any_strncpy tmp buf listElementSize
          else obind (Any_strncpy tmp buf (listElementSize - 1)) (\<lambda>tmp. char_set tmp (int listElementSize - 1) 0)
     else Any_strncpy tmp [0, 0] listElementSize)"

text \<open>The place of an element is computed in 32 bits.\<close>

definition element_offset :: "nat \<Rightarrow> nat \<Rightarrow> int" where
  "element_offset listIndex listElementSize = int ((listIndex * listElementSize) mod 2 ^ 32)"

fun explode_loop :: "nat \<Rightarrow> byte list \<Rightarrow> nat \<Rightarrow> nat \<Rightarrow> byte \<Rightarrow> int \<Rightarrow> int \<Rightarrow> nat \<Rightarrow> byte list \<Rightarrow> byte list \<Rightarrow>
    (nat \<times> byte list) outcome" where
  "explode_loop 0 s listSize listElementSize token len pos listIndex buf list = Stuck"
| "explode_loop (Suc n) s listSize listElementSize token len pos listIndex buf list =
     (if pos < len \<and> len > 0
      then let start = pos + 1 in
        obind (explode_scan (nat len) s token len start) (\<lambda>(i, found).
        let pos = (if found then i - 1 else i); charCount = pos - start in
        obind (at_offset s start (\<lambda>t. Any_strncpy buf t USTRING_BUFFER_SIZE)) (\<lambda>buf.
        obind (char_set buf charCount 0) (\<lambda>buf.
        obind (write_at list (element_offset listIndex listElementSize) (explode_store buf listElementSize)) (\<lambda>list.
        let listIndex = listIndex + 1 in
        if listIndex \<ge> listSize \<or> pos = len - 1 then Ok (listIndex, list)
        else explode_loop n s listSize listElementSize token len pos listIndex buf list))))
      else Ok (listIndex, list))"

definition UString_explode :: "cstring \<Rightarrow> cstring \<Rightarrow> nat \<Rightarrow> nat \<Rightarrow> byte \<Rightarrow> (int \<times> byte list) outcome" where
  "UString_explode string list listSize listElementSize token =
     require_str string (\<lambda>s. require_str list (\<lambda>list.
     ANY_REQUIRE (listSize > 0) (ANY_REQUIRE (listElementSize > 0)
       (obind (string_length s) (\<lambda>len.
        obind (explode_loop (nat len + 1) s listSize listElementSize token len (-1) 0
                 (replicate USTRING_BUFFER_SIZE 0) list) (\<lambda>(n, list).
        Ok (int n, list)))))))"

subsection \<open>Replacing\<close>

text \<open>\<^verbatim>\<open>replaceString\<close> is an array of pointers, which ends with a null pointer.\<close>

fun count_entries :: "nat \<Rightarrow> cstring list \<Rightarrow> nat \<Rightarrow> nat outcome" where
  "count_entries num [] pos = Fault"
| "count_entries num (None # rs) pos = Ok pos"
| "count_entries num (Some r # rs) pos = (if pos < num then count_entries num rs (pos + 1) else Ok pos)"

record replace_state =
  rp_dest :: "byte list"
  rp_destPos :: int
  rp_prevPos :: int

text \<open>The inner loop over the characters to be replaced; \<open>Inl\<close> is a return from the function.\<close>

fun replace_entries :: "byte list \<Rightarrow> cstring list \<Rightarrow> byte list \<Rightarrow> int \<Rightarrow> int \<Rightarrow> replace_state \<Rightarrow>
    (int \<times> byte list + replace_state) outcome" where
  "replace_entries [] rs src destLen cur st = Ok (Inr st)"
| "replace_entries (f # fs) [] src destLen cur st = Fault"
| "replace_entries (f # fs) (r # rs) src destLen cur st =
     obind (char_at src cur) (\<lambda>c.
     if c = f
     then let n = cur - rp_prevPos st in
       if rp_destPos st + n \<ge> destLen then Ok (Inl (0, rp_dest st))
       else obind (at_offset src (rp_prevPos st) (\<lambda>t. write_at (rp_dest st) (rp_destPos st) (\<lambda>d. copy_n d t n))) (\<lambda>dest.
            let destPos = rp_destPos st + n in
            (case r of None \<Rightarrow> Fault | Some r \<Rightarrow>
             obind (string_length r) (\<lambda>replLen.
            if destPos + replLen \<ge> destLen then Ok (Inl (1, dest))
            else obind (write_at dest destPos (\<lambda>d. Any_strcpy d r)) (\<lambda>dest.
                 replace_entries fs rs src destLen cur
                   (st\<lparr>rp_dest := dest, rp_destPos := destPos + replLen, rp_prevPos := cur + 1\<rparr>)))))
     else replace_entries fs rs src destLen cur st)"

fun replace_loop :: "nat \<Rightarrow> byte list \<Rightarrow> cstring list \<Rightarrow> byte list \<Rightarrow> int \<Rightarrow> int \<Rightarrow> replace_state \<Rightarrow>
    (int \<times> byte list + replace_state) outcome" where
  "replace_loop 0 fs rs src destLen cur st = Ok (Inr st)"
| "replace_loop (Suc n) fs rs src destLen cur st =
     obind (replace_entries fs rs src destLen cur st) (\<lambda>r. case r of
       Inl x \<Rightarrow> Ok (Inl x)
     | Inr st \<Rightarrow> replace_loop n fs rs src destLen (cur + 1) st)"

text \<open>What follows the last replacement, with the terminator.\<close>

definition replace_rest :: "byte list \<Rightarrow> int \<Rightarrow> int \<Rightarrow> replace_state \<Rightarrow> (int \<times> byte list) outcome" where
  "replace_rest src srcLen destLen st =
     (if rp_prevPos st \<noteq> srcLen
      then let n = srcLen - rp_prevPos st in
        if rp_destPos st + n \<ge> destLen then Ok (1, rp_dest st)
        else obind (at_offset src (rp_prevPos st) (\<lambda>t.
                    write_at (rp_dest st) (rp_destPos st) (\<lambda>d. copy_n d t (n + 1)))) (\<lambda>dest. Ok (0, dest))
      else Ok (0, rp_dest st))"

definition UString_replaceChrArrayWithStrArray :: "cstring \<Rightarrow> int \<Rightarrow> cstring \<Rightarrow> cstring \<Rightarrow> cstring list option \<Rightarrow>
    (int \<times> byte list) outcome" where
  "UString_replaceChrArrayWithStrArray destString destStringLen srcString findChr replaceString =
     require_str destString (\<lambda>dest. ANY_REQUIRE (destStringLen > 0)
     (require_str srcString (\<lambda>src. require_str findChr (\<lambda>find.
     case replaceString of None \<Rightarrow> Require | Some rs \<Rightarrow>
     obind (string_length src) (\<lambda>srcLen. ANY_REQUIRE (srcLen < destStringLen)
     (obind (Any_strlen find) (\<lambda>num.
      obind (count_entries num rs 0) (\<lambda>pos.
      ANY_REQUIRE (pos = num \<and> rs ! pos = None)
      (obind (char_set dest 0 0) (\<lambda>dest.
       obind (replace_loop (nat srcLen) (take num find) rs src destStringLen 0
                \<lparr>rp_dest = dest, rp_destPos = 0, rp_prevPos = 0\<rparr>) (\<lambda>r. case r of
         Inl x \<Rightarrow> Ok x
       | Inr st \<Rightarrow> replace_rest src srcLen destStringLen st)))))))))))"

definition UString_replaceChrWithStr :: "cstring \<Rightarrow> int \<Rightarrow> cstring \<Rightarrow> byte \<Rightarrow> cstring \<Rightarrow> (int \<times> byte list) outcome" where
  "UString_replaceChrWithStr destString destStringLen srcString chr str =
     require_str destString (\<lambda>dest. ANY_REQUIRE (destStringLen > 0)
     (require_str srcString (\<lambda>src. require_str str (\<lambda>r.
      UString_replaceChrArrayWithStrArray destString destStringLen srcString (Some [chr, 0]) (Some [str, None])))))"

subsection \<open>Comparing the ends\<close>

definition UString_startsWithChr :: "cstring \<Rightarrow> byte \<Rightarrow> int outcome" where
  "UString_startsWithChr string ch = require_str string (\<lambda>s.
     obind (string_length s) (\<lambda>len.
     if len < 1 then Ok 0 else obind (char_at s 0) (\<lambda>c. Ok (if c = ch then 1 else 0))))"

definition UString_endsWithChr :: "cstring \<Rightarrow> byte \<Rightarrow> int outcome" where
  "UString_endsWithChr string ch = require_str string (\<lambda>s.
     obind (string_length s) (\<lambda>len.
     if len < 1 then Ok 0 else obind (char_at s (len - 1)) (\<lambda>c. Ok (if c = ch then 1 else 0))))"

text \<open>The loop of both functions: what is left of the second string where they differ or one ends.\<close>

fun match_loop :: "byte list \<Rightarrow> byte list \<Rightarrow> byte list outcome" where
  "match_loop (x # s) (y # t) = (if x = y \<and> x \<noteq> 0 \<and> y \<noteq> 0 then match_loop s t else Ok (y # t))"
| "match_loop _ _ = Fault"

definition UString_startsWith :: "cstring \<Rightarrow> cstring \<Rightarrow> int outcome" where
  "UString_startsWith string startStr = require_str string (\<lambda>s. require_str startStr (\<lambda>t.
     obind (match_loop s t) (\<lambda>rest. peek rest (\<lambda>c. Ok (if c \<noteq> 0 then 1 else 0)))))"

definition UString_endsWith :: "cstring \<Rightarrow> cstring \<Rightarrow> int outcome" where
  "UString_endsWith string endStr = require_str string (\<lambda>s. require_str endStr (\<lambda>t.
     obind (string_length s) (\<lambda>len.
     obind (string_length t) (\<lambda>tmp.
     if len < tmp then Ok 1
     else at_offset s (len - tmp) (\<lambda>s.
          obind (match_loop s t) (\<lambda>rest. peek rest (\<lambda>c. Ok (if c \<noteq> 0 then 1 else 0))))))))"

subsection \<open>Searching for characters\<close>

fun first_loop :: "nat \<Rightarrow> byte list \<Rightarrow> byte \<Rightarrow> int \<Rightarrow> int outcome" where
  "first_loop 0 s sign i = Ok (-1)"
| "first_loop (Suc n) s sign i = obind (char_at s i) (\<lambda>c. if c = sign then Ok i else first_loop n s sign (i + 1))"

definition UString_getFirstPosChr :: "cstring \<Rightarrow> byte \<Rightarrow> int outcome" where
  "UString_getFirstPosChr string sign = require_str string (\<lambda>s.
     obind (Any_strlen s) (\<lambda>len. first_loop len s sign 0))"

definition UString_getFirstPos :: "cstring \<Rightarrow> byte \<Rightarrow> int outcome" where
  "UString_getFirstPos = UString_getFirstPosChr"

text \<open>From the terminator down to position 1.\<close>

fun last_loop :: "nat \<Rightarrow> byte list \<Rightarrow> byte \<Rightarrow> int outcome" where
  "last_loop 0 s sign = Ok (-1)"
| "last_loop (Suc n) s sign =
     obind (char_at s (int (Suc n))) (\<lambda>c. if c = sign then Ok (int (Suc n)) else last_loop n s sign)"

definition UString_getLastPosChr :: "cstring \<Rightarrow> byte \<Rightarrow> int outcome" where
  "UString_getLastPosChr string sign = require_str string (\<lambda>s.
     obind (Any_strlen s) (\<lambda>len. last_loop len s sign))"

definition UString_getLastPos :: "cstring \<Rightarrow> byte \<Rightarrow> int outcome" where
  "UString_getLastPos = UString_getLastPosChr"

fun nextChr_loop :: "nat \<Rightarrow> byte list \<Rightarrow> byte \<Rightarrow> int \<Rightarrow> int outcome" where
  "nextChr_loop 0 s sign i = Ok i"
| "nextChr_loop (Suc n) s sign i = obind (char_at s i) (\<lambda>c. if c = sign then Ok i else nextChr_loop n s sign (i + 1))"

definition UString_findNextOccurrenceChr :: "cstring \<Rightarrow> byte \<Rightarrow> int \<Rightarrow> int outcome" where
  "UString_findNextOccurrenceChr string searchedChar start = require_str string (\<lambda>s. ANY_REQUIRE (searchedChar \<noteq> 0)
     (obind (string_length s) (\<lambda>len.
      let start = (if start < 0 \<or> start > len then 0 else start) in
      obind (nextChr_loop (nat (len - start)) s searchedChar start) (\<lambda>result.
      Ok (if result = len - 1 then -1 else result)))))"

text \<open>From position \<open>n\<close> down to 0.\<close>

fun prevChr_loop :: "nat \<Rightarrow> byte list \<Rightarrow> byte \<Rightarrow> int outcome" where
  "prevChr_loop 0 s sign = Ok (-1)"
| "prevChr_loop (Suc n) s sign = obind (char_at s (int n)) (\<lambda>c. if c = sign then Ok (int n) else prevChr_loop n s sign)"

definition UString_findPreviousOccurrenceChr :: "cstring \<Rightarrow> byte \<Rightarrow> int \<Rightarrow> int outcome" where
  "UString_findPreviousOccurrenceChr string searchedChar start = require_str string (\<lambda>s. ANY_REQUIRE (searchedChar \<noteq> 0)
     (obind (string_length s) (\<lambda>len.
      let start = (if start < 0 \<or> start > len then len else start) in
      prevChr_loop (nat start + 1) s searchedChar)))"

fun countChr_loop :: "nat \<Rightarrow> byte list \<Rightarrow> byte \<Rightarrow> int \<Rightarrow> int \<Rightarrow> int outcome" where
  "countChr_loop 0 s sign i result = Ok result"
| "countChr_loop (Suc n) s sign i result =
     obind (char_at s i) (\<lambda>c. countChr_loop n s sign (i + 1) (if c = sign then result + 1 else result))"

definition UString_getNumberOccurrencesChr :: "cstring \<Rightarrow> byte \<Rightarrow> int outcome" where
  "UString_getNumberOccurrencesChr string sign = require_str string (\<lambda>s.
     obind (Any_strlen s) (\<lambda>len. countChr_loop len s sign 0 0))"

definition UString_getOccurrences :: "cstring \<Rightarrow> byte \<Rightarrow> int outcome" where
  "UString_getOccurrences = UString_getNumberOccurrencesChr"

subsection \<open>Searching for strings\<close>

text \<open>One turn of the two forward searches: the number of characters of the searched string that match up
  to the one at \<open>i\<close>. \<open>Inl\<close> is the \<^verbatim>\<open>continue\<close> behind its first character.\<close>

definition match_step :: "byte list \<Rightarrow> byte list \<Rightarrow> int \<Rightarrow> int \<Rightarrow> (int + int) outcome" where
  "match_step s t i count =
     obind (char_at s i) (\<lambda>c.
     obind (char_at t 0) (\<lambda>f.
     if c = f then Ok (Inl 1)
     else if count > 0
          then obind (char_at t count) (\<lambda>x. Ok (Inr (if c = x then count + 1 else 0)))
          else Ok (Inr count)))"

fun next_loop :: "nat \<Rightarrow> byte list \<Rightarrow> byte list \<Rightarrow> int \<Rightarrow> int \<Rightarrow> int \<Rightarrow> int outcome" where
  "next_loop 0 s t searchedLength i count = Ok (-1)"
| "next_loop (Suc n) s t searchedLength i count =
     obind (match_step s t i count) (\<lambda>r. case r of
       Inl count \<Rightarrow> next_loop n s t searchedLength (i + 1) count
     | Inr count \<Rightarrow> if count = searchedLength then Ok (i - count + 1)
                   else next_loop n s t searchedLength (i + 1) count)"

definition UString_findNextOccurrence :: "cstring \<Rightarrow> cstring \<Rightarrow> int \<Rightarrow> int outcome" where
  "UString_findNextOccurrence string searchedStr start = require_str string (\<lambda>s. require_str searchedStr (\<lambda>t.
     obind (string_length s) (\<lambda>len.
     obind (string_length t) (\<lambda>searchedLength.
     let start = (if start < 0 \<or> start > len then 0 else start) in
     next_loop (nat (len - start)) s t searchedLength start 0))))"

fun count_loop :: "nat \<Rightarrow> byte list \<Rightarrow> byte list \<Rightarrow> int \<Rightarrow> int \<Rightarrow> int \<Rightarrow> int \<Rightarrow> int outcome" where
  "count_loop 0 s t searchedLength i count result = Ok result"
| "count_loop (Suc n) s t searchedLength i count result =
     obind (match_step s t i count) (\<lambda>r. case r of
       Inl count \<Rightarrow> count_loop n s t searchedLength (i + 1) count result
     | Inr count \<Rightarrow> if count = searchedLength then count_loop n s t searchedLength (i + 1) 0 (result + 1)
                   else count_loop n s t searchedLength (i + 1) count result)"

definition UString_getNumberOccurrences :: "cstring \<Rightarrow> cstring \<Rightarrow> int outcome" where
  "UString_getNumberOccurrences string searchedStr = require_str string (\<lambda>s. require_str searchedStr (\<lambda>t.
     obind (Any_strlen s) (\<lambda>len.
     obind (string_length t) (\<lambda>searchedLength.
     count_loop len s t searchedLength 0 0 0))))"

text \<open>From position \<open>n\<close> down to 0.\<close>

fun previous_loop :: "nat \<Rightarrow> byte list \<Rightarrow> byte list \<Rightarrow> int \<Rightarrow> int \<Rightarrow> int outcome" where
  "previous_loop 0 s t searchedLength count = Ok (-1)"
| "previous_loop (Suc n) s t searchedLength count =
     obind (char_at s (int n)) (\<lambda>c.
     obind (char_at t (searchedLength - 1)) (\<lambda>l.
     if c = l then previous_loop n s t searchedLength (searchedLength - 1)
     else obind (if count > 1
                 then obind (char_at t (searchedLength - count)) (\<lambda>x. Ok (if c = x then count + 1 else 1))
                 else Ok count) (\<lambda>count.
          if count = searchedLength then Ok (int n - 1) else previous_loop n s t searchedLength count)))"

definition UString_findPreviousOccurrence :: "cstring \<Rightarrow> cstring \<Rightarrow> int \<Rightarrow> int outcome" where
  "UString_findPreviousOccurrence string searchedStr start = require_str string (\<lambda>s. require_str searchedStr (\<lambda>t.
     obind (string_length s) (\<lambda>len.
     obind (string_length t) (\<lambda>searchedLength.
     let start = (if start < 0 \<or> start > len then len else start) in
     previous_loop (nat start + 1) s t searchedLength 1))))"

subsection \<open>Trimming, cutting and appending\<close>

fun blanks :: "byte list \<Rightarrow> int outcome" where
  "blanks [] = Fault"
| "blanks (c # s) = (if c \<noteq> 0 \<and> isspace c then omap (\<lambda>n. n + 1) (blanks s) else Ok 0)"

text \<open>The string moves to the left, character by character, up to where its terminator was.\<close>

fun shift_loop :: "nat \<Rightarrow> byte list \<Rightarrow> int \<Rightarrow> int \<Rightarrow> byte list outcome" where
  "shift_loop 0 s firstNonBlank c = Stuck"
| "shift_loop (Suc n) s firstNonBlank c =
     obind (char_at s c) (\<lambda>x.
     if x \<noteq> 0
     then obind (char_at s (c + firstNonBlank)) (\<lambda>y.
          obind (char_set s c y) (\<lambda>s. shift_loop n s firstNonBlank (c + 1)))
     else Ok s)"

definition UString_trimLeft :: "cstring \<Rightarrow> byte list outcome" where
  "UString_trimLeft string = require_str string (\<lambda>s.
     obind (blanks s) (\<lambda>firstNonBlank. shift_loop (length s + 1) s firstNonBlank 0))"

text \<open>From the last character down: the position of the last one that is not blank.\<close>

fun right_loop :: "nat \<Rightarrow> byte list \<Rightarrow> int outcome" where
  "right_loop 0 s = Ok (-1)"
| "right_loop (Suc n) s = obind (char_at s (int n)) (\<lambda>c. if isspace c then right_loop n s else Ok (int n))"

definition UString_trimRight :: "cstring \<Rightarrow> byte list outcome" where
  "UString_trimRight string = require_str string (\<lambda>s.
     obind (Any_strlen s) (\<lambda>len.
     if len > 0 then obind (right_loop len s) (\<lambda>e. char_set s (e + 1) 0) else Ok s))"

definition UString_trim :: "cstring \<Rightarrow> byte list outcome" where
  "UString_trim string = obind (UString_trimLeft string) (\<lambda>s. UString_trimRight (Some s))"

definition UString_getSubStr :: "cstring \<Rightarrow> int \<Rightarrow> cstring \<Rightarrow> int \<Rightarrow> int \<Rightarrow> byte list outcome" where
  "UString_getSubStr destString destStringSize sourceString start stop =
     require_str sourceString (\<lambda>src. require_str destString (\<lambda>dest.
     obind (string_length src) (\<lambda>len.
     let start = (if start < 0 then 0 else start);
         stop = (if stop > len then len else stop);
         resultLength = (if stop - start > destStringSize then destStringSize else stop - start) in
     at_offset src start (\<lambda>t. strncpy_int dest t resultLength))))"

definition UString_append :: "cstring \<Rightarrow> int \<Rightarrow> cstring \<Rightarrow> byte list outcome" where
  "UString_append destString destStringSize string =
     require_str destString (\<lambda>dest. require_str string (\<lambda>s. ANY_REQUIRE (destStringSize \<ge> 0)
     (obind (string_length dest) (\<lambda>destLen.
      obind (string_length s) (\<lambda>len.
      Any_strncat dest s (if len < destStringSize - destLen then len else destStringSize - destLen - 1))))))"

definition UString_appendChr :: "cstring \<Rightarrow> byte \<Rightarrow> int \<Rightarrow> byte list outcome" where
  "UString_appendChr destString ch n =
     require_str destString (\<lambda>dest.
     let n = (if n < 0 then 0 else n) in
     obind (string_length dest) (\<lambda>len.
     if n \<ge> len + 2 then obind (char_set dest len ch) (\<lambda>dest. char_set dest (len + 1) 0) else Ok dest))"

definition UString_getLength :: "cstring \<Rightarrow> int outcome" where
  "UString_getLength string = require_str string string_length"

end
