(* ===== verification/U_String_Correct.thy ===== *)
theory U_String_Correct
  imports U_String "HOL-Library.Sublist"
begin

text \<open>
  What the string functions compute, on strings given as the list \<open>s\<close> of their characters (none of
  them 0) in an array \<open>s @ 0 # junk\<close>: splitting, replacing, comparing the ends and searching, each against a
  function on lists of characters. The last section shows where the functions do not do what their
  documentation says.
\<close>

named_theorems str_simps "evaluation of the string primitives"

definition chars :: "byte list \<Rightarrow> bool" where
  "chars s \<longleftrightarrow> 0 \<notin> set s"

definition str :: "byte list \<Rightarrow> byte list \<Rightarrow> byte list" where
  "str s junk = s @ 0 # junk"

lemma chars_simps [simp]: "chars []" "chars (c # s) \<longleftrightarrow> c \<noteq> 0 \<and> chars s" "chars (s @ t) \<longleftrightarrow> chars s \<and> chars t"
  by (auto simp: chars_def)

lemma chars_drop: "chars s \<Longrightarrow> chars (drop n s)"
  by (auto simp: chars_def dest: in_set_dropD)

lemma chars_take: "chars s \<Longrightarrow> chars (take n s)"
  by (auto simp: chars_def dest: in_set_takeD)

lemma chars_takeWhile: "chars s \<Longrightarrow> chars (takeWhile P s)"
  by (auto simp: chars_def dest: set_takeWhileD)

lemma length_str [simp]: "length (str s junk) = length s + length junk + 1"
  by (simp add: str_def)

lemma require_str_Some [simp, str_simps]: "require_str (Some s) k = k s"
  by (simp add: require_str_def)

lemma takeWhile_str: "chars s \<Longrightarrow> takeWhile (\<lambda>b. b \<noteq> 0) (s @ 0 # junk) = s"
  by (induction s) auto

lemma Any_strlen_str [simp, str_simps]: "chars s \<Longrightarrow> Any_strlen (str s junk) = Ok (length s)"
  by (simp add: Any_strlen_def str_def takeWhile_str)

lemma string_length_str [simp, str_simps]: "chars s \<Longrightarrow> string_length (str s junk) = Ok (int (length s))"
  by (simp add: string_length_def)

lemma char_at_nat [str_simps]: "i < length s \<Longrightarrow> char_at s (int i) = Ok (s ! i)"
  by (simp add: char_at_def)

lemma char_at_str [str_simps]: "i < length s \<Longrightarrow> char_at (str s junk) (int i) = Ok (s ! i)"
  by (simp add: char_at_def str_def nth_append)

lemma char_at_str_end [str_simps]: "char_at (str s junk) (int (length s)) = Ok 0"
  by (simp add: char_at_def str_def nth_append)

lemma char_at_0 [str_simps]: "char_at (str (c # s) junk) 0 = Ok c"
  by (simp add: char_at_def str_def)

lemma at_offset_nat [str_simps]: "i \<le> length s \<Longrightarrow> at_offset s (int i) k = k (drop i s)"
  by (simp add: at_offset_def)

lemma char_set_nat [str_simps]: "i < length s \<Longrightarrow> char_set s (int i) c = Ok (s[i := c])"
  by (simp add: char_set_def)

lemma drop_str: "i \<le> length s \<Longrightarrow> drop i (str s junk) = str (drop i s) junk"
  by (simp add: str_def)

lemma take_str: "i \<le> length s \<Longrightarrow> take i (str s junk) = take i s"
  by (simp add: str_def)

subsection \<open>Splitting\<close>

text \<open>The pieces of a string between the tokens; behind a token at the end there is no empty piece.\<close>

function pieces :: "byte \<Rightarrow> byte list \<Rightarrow> byte list list" where
  "pieces token [] = []"
| "pieces token (c # s) =
     takeWhile (\<lambda>x. x \<noteq> token) (c # s) # pieces token (tl (dropWhile (\<lambda>x. x \<noteq> token) (c # s)))"
  by pat_completeness auto
termination
  by (relation "measure (length \<circ> snd)") (auto simp: less_Suc_eq_le intro: le_trans [OF diff_le_self length_dropWhile_le])

text \<open>An element of the list: the piece, cut so that a terminator follows, and zeros.\<close>

definition cell :: "nat \<Rightarrow> byte list \<Rightarrow> byte list" where
  "cell n s = take (n - 1) s @ replicate (n - min (n - 1) (length s)) 0"

lemma length_cell [simp]: "0 < n \<Longrightarrow> length (cell n s) = n"
  by (auto simp: cell_def min_def)

lemma explode_scan_ok:
  assumes "i \<le> length s" and "length s - i \<le> n"
  shows "explode_scan n (str s junk) token (int (length s)) (int i) =
    (let w = takeWhile (\<lambda>x. x \<noteq> token) (drop i s) in
     Ok (if length w < length s - i then (int (i + length w + 1), True) else (int (length s), False)))"
  using assms
proof (induction n arbitrary: i)
  case 0
  then show ?case by simp
next
  case (Suc n)
  show ?case
  proof (cases "i < length s")
    case True
    then have d: "drop i s = s ! i # drop (Suc i) s" by (rule Cons_nth_drop_Suc [symmetric])
    have IH: "explode_scan n (str s junk) token (int (length s)) (int i + 1) =
        (let w = takeWhile (\<lambda>x. x \<noteq> token) (drop (Suc i) s) in
         Ok (if length w < length s - Suc i then (int (Suc i + length w + 1), True) else (int (length s), False)))"
      using Suc.IH [of "Suc i"] True Suc.prems by (simp add: add.commute)
    from True show ?thesis by (auto simp: char_at_str d Let_def IH)
  next
    case False
    with Suc.prems show ?thesis by simp
  qed
qed

lemma strncpy_prefix:
  assumes "w = takeWhile (\<lambda>b. b \<noteq> 0) (take n src)" and "n \<le> length dst" and "n \<le> length src \<or> 0 \<in> set src"
  shows "Any_strncpy dst src n = Ok (w @ replicate (n - length w) 0 @ drop n dst)"
  using assms by (simp add: Any_strncpy_def Let_def)

lemma takeWhile_take_str:
  "chars s \<Longrightarrow> takeWhile (\<lambda>b. b \<noteq> 0) (take n (str s junk)) = take n s"
  using takeWhile_str [of s "take (n - Suc (length s)) junk"]
  by (cases "n \<le> length s")
    (auto simp: take_str takeWhile_eq_all_conv chars_def str_def take_Cons' dest: in_set_takeD)

lemma strncpy_str:
  assumes "chars s" and "n \<le> length dst"
  shows "Any_strncpy dst (str s junk) n = Ok (take n s @ replicate (n - length s) 0 @ drop n dst)"
  by (subst strncpy_prefix [OF takeWhile_take_str [OF assms(1), symmetric] assms(2)]) (auto simp: str_def)

lemma explode_store_ok:
  assumes "chars w" and "0 < n" and "n \<le> length tmp"
  shows "explode_store (str w junk) n tmp = Ok (cell n w @ drop n tmp)"
proof (cases "w = []")
  case True
  have "Any_strncpy tmp [0, 0] n = Ok (replicate n 0 @ drop n tmp)"
    using strncpy_str [of "[]" n tmp "[0]"] assms by (simp add: str_def)
  with True assms show ?thesis by (simp add: explode_store_def cell_def)
next
  case False
  show ?thesis
  proof (cases "length w < n")
    case True
    with False assms show ?thesis by (simp add: explode_store_def strncpy_str cell_def min_absorb2)
  next
    case F: False
    have "char_set (take (n - 1) w @ drop (n - 1) tmp) (int n - 1) 0 = Ok (take (n - 1) w @ 0 # drop n tmp)"
    proof -
      have i: "int n - 1 = int (n - 1)" using assms(2) by simp
      have d: "drop (n - 1) tmp = tmp ! (n - 1) # drop n tmp"
        using Cons_nth_drop_Suc [of "n - 1" tmp] assms(2,3) by simp
      show ?thesis
        using F assms unfolding i d
        by (subst char_set_nat) (auto simp: list_update_append min_absorb2)
    qed
    with F False assms show ?thesis
      by (simp add: explode_store_def strncpy_str cell_def)
  qed
qed

lemma write_at_ok:
  assumes "f (drop i s) = Ok t" and "i \<le> length s"
  shows "write_at s (int i) f = Ok (take i s @ t)"
  using assms by (simp add: write_at_def at_offset_nat)

text \<open>What is in the buffer after a piece has been copied and cut off.\<close>

lemma buffer_piece:
  assumes "chars s" and "w = takeWhile (\<lambda>x. x \<noteq> token) s" and "length w < n" and "length buf = n"
  obtains junk' where
    "obind (Any_strncpy buf (str s junk) n) (\<lambda>buf. char_set buf (int (length w)) 0) = Ok (str w junk')"
    "length (str w junk') = n"
proof -
  let ?b = "take n s @ replicate (n - length s) 0"
  have w: "take (length w) s = w" unfolding assms(2) by (rule takeWhile_eq_take [symmetric])
  have lw: "length w \<le> length s" by (simp add: assms(2) length_takeWhile_le)
  have len: "length ?b = n" by (auto simp: min_def)
  have tb: "take (length w) ?b = w"
    using lw assms(3) by (simp add: min_absorb1 w)
  have "?b[length w := 0] = str w (drop (length w + 1) ?b)"
    using tb len assms(3) by (simp add: str_def upd_conv_take_nth_drop)
  moreover have "Any_strncpy buf (str s junk) n = Ok ?b"
    using strncpy_str [OF assms(1), of n buf junk] assms(4) by simp
  ultimately show thesis
    using len assms(3) by (intro that [of "drop (length w + 1) ?b"]) (simp_all add: char_set_nat)
qed

lemma pieces_unfold:
  assumes "s \<noteq> []" and "w = takeWhile (\<lambda>x. x \<noteq> token) s"
  shows "pieces token s = w # pieces token (drop (Suc (length w)) s)"
  using assms by (cases s) (auto simp: dropWhile_eq_drop drop_Suc tl_drop)

lemma element_offset_id: "i * n < 2 ^ 32 \<Longrightarrow> element_offset i n = int (i * n)"
  by (simp add: element_offset_def)

text \<open>Storing one more element behind those that are there.\<close>

lemma store_element:
  assumes "chars w" and "0 < n" and "i < m" and "m * n < 2 ^ 32" and "m * n \<le> length list"
  shows "write_at list (element_offset i n) (explode_store (str w junk) n) =
    Ok (take (i * n) list @ cell n w @ drop (Suc i * n) list)"
proof -
  have "Suc i * n \<le> m * n" using assms(3) by (intro mult_le_mono1) simp
  with assms have le: "n + i * n \<le> length list" "i * n < 2 ^ 32" by auto
  have "explode_store (str w junk) n (drop (i * n) list) = Ok (cell n w @ drop (Suc i * n) list)"
    using explode_store_ok [OF assms(1,2), of "drop (i * n) list" junk] le by (simp add: add.commute)
  with le show ?thesis by (simp add: element_offset_id write_at_ok del: of_nat_mult)
qed

declare explode_loop.simps [simp del]

lemma explode_loop_ok:
  assumes "chars s" and "0 < n" and "m * n < 2 ^ 32" and "m * n \<le> length list" and "length buf = USTRING_BUFFER_SIZE"
    and "i < m" and "start < length s" and "length s - start < fuel"
    and "\<forall>w \<in> set (take (m - i) (pieces token (drop start s))). length w < USTRING_BUFFER_SIZE"
  shows "explode_loop fuel (str s junk) m n token (int (length s)) (int start - 1) i buf list =
    (let ps = take (m - i) (pieces token (drop start s)) in
     Ok (i + length ps, take (i * n) list @ concat (map (cell n) ps) @ drop ((i + length ps) * n) list))"
  using assms(4-9)
proof (induction fuel arbitrary: list buf i start)
  case 0
  then show ?case by simp
next
  case (Suc fuel)
  let ?R = "drop start s"
  define w where "w = takeWhile (\<lambda>x. x \<noteq> token) ?R"
  define list' where "list' = take (i * n) list @ cell n w @ drop (Suc i * n) list"
  define pos where "pos = start + length w"
  have R: "?R \<noteq> []" using Suc.prems(4) by simp
  have unf: "pieces token ?R = w # pieces token (drop (Suc pos) s)"
    using pieces_unfold [OF R w_def] by (simp add: pos_def add.commute)
  have w_in: "w \<in> set (take (m - i) (pieces token ?R))"
    using Suc.prems(3) unf by (cases "m - i") simp_all
  have cw: "chars w" unfolding w_def by (intro chars_takeWhile chars_drop assms(1))
  have lw: "length w \<le> length s - start"
    using length_takeWhile_le [of "\<lambda>x. x \<noteq> token" ?R] by (simp add: w_def)
  obtain junk' where j: "obind (Any_strncpy buf (str ?R junk) USTRING_BUFFER_SIZE)
      (\<lambda>buf. char_set buf (int (length w)) 0) = Ok (str w junk')" "length (str w junk') = USTRING_BUFFER_SIZE"
    by (rule buffer_piece [OF chars_drop [OF assms(1)] w_def bspec [OF Suc.prems(6) w_in] Suc.prems(2)])
  then obtain b1 where buf: "Any_strncpy buf (str ?R junk) USTRING_BUFFER_SIZE = Ok b1"
    "char_set b1 (int (length w)) 0 = Ok (str w junk')" by (auto simp: obind_Ok_iff)
  have st: "write_at list (element_offset i n) (explode_store (str w junk') n) = Ok list'"
    unfolding list'_def by (rule store_element [OF cw assms(2) Suc.prems(3) assms(3) Suc.prems(1)])
  have "Suc i * n \<le> m * n" using Suc.prems(3) by (intro mult_le_mono1) simp
  with Suc.prems(1) have le: "i * n \<le> length list" "Suc i * n \<le> length list" by simp_all
  have len': "length list' = length list"
    using le assms(2) by (simp add: list'_def)
  have pre: "take (Suc i * n) list' = take (i * n) list @ cell n w" and post: "drop k list' = drop k list"
    if "Suc i * n \<le> k" for k
    using le assms(2) that by (simp_all add: list'_def min_absorb2)
  have scan: "explode_scan (length s) (str s junk) token (int (length s)) (int start) =
      Ok (if length w < length s - start then (int pos + 1, True) else (int (length s), False))"
    using explode_scan_ok [of start s "length s" junk token] Suc.prems(4)
    by (simp add: Let_def w_def [symmetric] pos_def)
  have pos_eq: "pos = length s" if "\<not> length w < length s - start"
    using that lw Suc.prems(4) by (simp add: pos_def)
  have "s \<noteq> []" using Suc.prems(4) by auto
  have body: "explode_loop (Suc fuel) (str s junk) m n token (int (length s)) (int start - 1) i buf list =
      (if Suc i \<ge> m \<or> int pos = int (length s) - 1 then Ok (Suc i, list')
       else explode_loop fuel (str s junk) m n token (int (length s)) (int pos) (Suc i) (str w junk') list')"
  proof (cases "length w < length s - start")
    case True
    moreover have "int pos - int start = int (length w)" by (simp add: pos_def)
    moreover have "s \<noteq> []" using Suc.prems(4) by auto
    ultimately show ?thesis using Suc.prems(4) scan buf st by (simp add: explode_loop.simps at_offset_nat drop_str)
  next
    case False
    then have "int (length s) - int start = int (length w)" using lw Suc.prems(4) by simp
    with False Suc.prems(4) scan buf st pos_eq show ?thesis by (auto simp: explode_loop.simps at_offset_nat drop_str Let_def)
  qed
  have one: "?case" if "explode_loop (Suc fuel) (str s junk) m n token (int (length s)) (int start - 1) i buf list =
      Ok (Suc i, list')" "take (m - i) (pieces token ?R) = [w]"
    using that by (simp add: list'_def)
  consider "Suc i \<ge> m" | "Suc i < m" "pos = length s - 1" "pos < length s" | "Suc i < m" "pos = length s"
    | "Suc i < m" "pos < length s - 1"
    using lw Suc.prems(4) unfolding pos_def by linarith
  then show ?case
  proof cases
    case 1
    then have "m - i = 1" using Suc.prems(3) by simp
    with 1 show ?thesis by (intro one) (simp_all add: body unf)
  next
    case 2
    then have "int pos = int (length s) - 1" "drop (Suc pos) s = []" by simp_all
    with 2 show ?thesis by (intro one) (simp_all add: body unf Suc_diff_le take_Cons')
  next
    case 3
    obtain k where k: "fuel = Suc k" using Suc.prems(4,5) by (cases fuel) simp_all
    have "explode_loop fuel (str s junk) m n token (int (length s)) (int pos) (Suc i) (str w junk') list' = Ok (Suc i, list')"
      using 3 by (simp add: k explode_loop.simps)
    with 3 show ?thesis by (intro one) (simp_all add: body unf take_Cons')
  next
    case 4
    have next_pieces: "take (m - i) (pieces token ?R) = w # take (m - Suc i) (pieces token (drop (Suc pos) s))"
      using 4(1) unf by (simp add: take_Cons' Suc_diff_Suc)
    have "int pos \<noteq> int (length s) - 1" using 4 by simp
    then have "explode_loop (Suc fuel) (str s junk) m n token (int (length s)) (int start - 1) i buf list =
        explode_loop fuel (str s junk) m n token (int (length s)) (int (Suc pos) - 1) (Suc i) (str w junk') list'"
      using 4 body by simp
    also have "\<dots> = (let ps = take (m - Suc i) (pieces token (drop (Suc pos) s)) in
        Ok (Suc i + length ps, take (Suc i * n) list' @ concat (map (cell n) ps) @ drop ((Suc i + length ps) * n) list'))"
      using Suc.prems next_pieces 4 j(2) len' by (intro Suc.IH) (auto simp: pos_def)
    finally show ?thesis
      using next_pieces pre [of "Suc i * n"] post by (simp add: Let_def)
  qed
qed

text \<open>C29: splitting a string stores its pieces, in their order, into the elements of the list, each cut
  to the size of an element with its terminator, and returns their number; when there are more pieces than
  elements, as many as fit are stored. Behind a token at the end of the string there is no piece. The rest of the list
  stays as it was. Every piece has to be shorter than the buffer of the function.\<close>

theorem UString_explode_pieces:
  assumes "chars s" and "0 < m" and "0 < n" and "m * n < 2 ^ 32" and "m * n \<le> length list"
    and "\<forall>w \<in> set (take m (pieces token s)). length w < USTRING_BUFFER_SIZE"
  shows "UString_explode (Some (str s junk)) (Some list) m n token =
    (let ps = take m (pieces token s) in
     Ok (int (length ps), concat (map (cell n) ps) @ drop (length ps * n) list))"
proof (cases "s = []")
  case True
  with assms show ?thesis by (simp add: UString_explode_def explode_loop.simps)
next
  case False
  then have "explode_loop (length s + 1) (str s junk) m n token (int (length s)) (int 0 - 1) 0
      (replicate USTRING_BUFFER_SIZE 0) list =
    (let ps = take (m - 0) (pieces token (drop 0 s)) in
     Ok (0 + length ps, take (0 * n) list @ concat (map (cell n) ps) @ drop ((0 + length ps) * n) list))"
    using assms by (intro explode_loop_ok) simp_all
  with assms show ?thesis by (simp add: UString_explode_def Let_def)
qed

definition csv :: "byte list" where "csv = [97, 44, 98, 98, 98, 44, 44, 99, 44]"

lemma csv_pieces: "chars csv" "pieces 44 csv = [[97], [98, 98, 98], [], [99]]"
  by (simp_all add: csv_def)

lemma csv_cells: "cell 3 [97] = [97, 0, 0]" "cell 3 [98, 98, 98] = [98, 98, 0]" "cell 3 [] = [0, 0, 0]"
  by (simp_all add: cell_def numeral_3_eq_3)

theorem UString_explode_pieces_witness:
  "UString_explode (Some (str csv [])) (Some [7, 7, 7, 7, 7, 7, 7, 7, 7, 7]) 3 3 44 =
     Ok (3, [97, 0, 0, 98, 98, 0, 0, 0, 0, 7])"
  using UString_explode_pieces [of csv 3 3 "[7, 7, 7, 7, 7, 7, 7, 7, 7, 7]" 44 "[]"]
  by (simp add: csv_pieces csv_cells USTRING_BUFFER_SIZE_def)

text \<open>A longer piece runs over the buffer of the function: 4096 characters without a token are enough.\<close>

lemma UString_explode_overruns:
  assumes "chars s" and "token \<notin> set s" and "USTRING_BUFFER_SIZE \<le> length s" and "0 < m" and "0 < n"
  shows "UString_explode (Some (str s junk)) (Some list) m n token = Fault"
proof -
  have s: "s \<noteq> []" using assms(3) by (auto simp: USTRING_BUFFER_SIZE_def)
  have "takeWhile (\<lambda>x. x \<noteq> token) s = s"
    using assms(2) by (auto simp: takeWhile_eq_all_conv)
  then have "length (takeWhile (\<lambda>x. x \<noteq> token) s) = length s" by (rule arg_cong)
  then have scan: "explode_scan (length s) (str s junk) token (int (length s)) 0 = Ok (int (length s), False)"
    using explode_scan_ok [of 0 s "length s" junk token] by (simp add: Let_def)
  have b: "Any_strncpy (replicate USTRING_BUFFER_SIZE 0) (str s junk) USTRING_BUFFER_SIZE = Ok (take USTRING_BUFFER_SIZE s)"
    using strncpy_str [OF assms(1), of USTRING_BUFFER_SIZE "replicate USTRING_BUFFER_SIZE 0" junk] assms(3) by simp
  show ?thesis
    using s assms scan b by (simp add: UString_explode_def explode_loop.simps at_offset_def char_set_def)
qed

subsection \<open>Comparing the ends\<close>

lemma match_loop_prefix:
  assumes "chars s" and "chars t"
  shows "\<exists>c r. match_loop (str s junk) (str t junk') = Ok (c # r) \<and> (c = 0 \<longleftrightarrow> prefix t s)"
  using assms
proof (induction s arbitrary: t)
  case Nil
  then show ?case by (cases t) (auto simp: str_def)
next
  case (Cons x s)
  then show ?case by (cases t) (auto simp: str_def)
qed

lemma UString_startsWith_prefix:
  assumes "chars s" and "chars t"
  shows "UString_startsWith (Some (str s junk)) (Some (str t junk')) = Ok (if prefix t s then 0 else 1)"
  using match_loop_prefix [OF assms, of junk junk'] by (auto simp: UString_startsWith_def peek_def)

lemma UString_endsWith_suffix:
  assumes "chars s" and "chars t"
  shows "UString_endsWith (Some (str s junk)) (Some (str t junk')) = Ok (if suffix t s then 0 else 1)"
proof (cases "length s < length t")
  case True
  then have "\<not> suffix t s" by (auto dest: suffix_length_le)
  with True assms show ?thesis by (simp add: UString_endsWith_def)
next
  case False
  then obtain k where k: "length s = length t + k" by (metis le_Suc_ex not_less)
  have iff: "prefix t (drop k s) \<longleftrightarrow> suffix t s"
  proof
    assume "prefix t (drop k s)"
    then obtain u where u: "drop k s = t @ u" by (auto simp: prefix_def)
    from arg_cong [OF u, of length] k have "u = []" by simp
    with u have "drop k s = t" by simp
    then show "suffix t s" by (metis suffix_drop)
  next
    assume "suffix t s"
    with k show "prefix t (drop k s)" by (auto simp: suffix_def)
  qed
  obtain c r where "match_loop (str (drop k s) junk) (str t junk') = Ok (c # r)" "c = 0 \<longleftrightarrow> suffix t s"
    using match_loop_prefix [OF chars_drop [OF assms(1)] assms(2), of k junk junk'] iff by auto
  with assms k show ?thesis by (simp add: UString_endsWith_def peek_def at_offset_nat drop_str)
qed

subsection \<open>Searching for strings\<close>

text \<open>The position of the first occurrence of a string, and the number of its occurrences.\<close>

fun first_occ :: "byte list \<Rightarrow> byte list \<Rightarrow> nat option" where
  "first_occ t [] = None"
| "first_occ t (x # s) = (if prefix t (x # s) then Some 0 else map_option Suc (first_occ t s))"

fun occurrences :: "byte list \<Rightarrow> byte list \<Rightarrow> nat" where
  "occurrences t [] = 0"
| "occurrences t (x # s) = (if prefix t (x # s) then 1 else 0) + occurrences t s"

definition position :: "nat option \<Rightarrow> int \<Rightarrow> int" where
  "position p i = (case p of None \<Rightarrow> -1 | Some k \<Rightarrow> i + int k)"

text \<open>A string whose first character does not come again has no occurrence that begins inside of another one,
  so a partial match that breaks off leaves nothing behind.\<close>

lemma no_match_inside:
  assumes "f \<notin> set p" and "0 < k" and "k < j" and "j \<le> Suc (length p)"
  shows "\<not> prefix (f # p) (drop k (take j (f # p) @ r))"
proof -
  have "drop k (take j (f # p) @ r) = drop (k - 1) (take (j - 1) p) @ r"
    using assms(2-4) by (cases k; cases j) simp_all
  moreover have "drop (k - 1) (take (j - 1) p) \<noteq> []" using assms by auto
  moreover have "set (drop (k - 1) (take (j - 1) p)) \<subseteq> set p"
    by (meson set_drop_subset set_take_subset subset_trans)
  ultimately show ?thesis
    using assms(1) by (cases "drop (k - 1) (take (j - 1) p)") auto
qed

lemma skip_first:
  "\<forall>k < length u. \<not> prefix t (drop k (u @ r)) \<Longrightarrow>
   position (first_occ t (u @ r)) i = position (first_occ t r) (i + int (length u))"
proof (induction u arbitrary: i)
  case (Cons x u)
  from Cons.prems have "\<not> prefix t (x # u @ r)" by auto
  moreover have "\<forall>k < length u. \<not> prefix t (drop k (u @ r))"
    using Cons.prems by auto
  ultimately show ?case
    using Cons.IH [of "i + 1"] by (auto simp: position_def split: option.splits)
qed simp

lemma skip_occurrences:
  "\<forall>k < length u. \<not> prefix t (drop k (u @ r)) \<Longrightarrow> occurrences t (u @ r) = occurrences t r"
proof (induction u)
  case (Cons x u)
  from Cons.prems have "\<not> prefix t (x # u @ r)" by auto
  moreover have "\<forall>k < length u. \<not> prefix t (drop k (u @ r))"
    using Cons.prems by auto
  ultimately show ?case using Cons.IH by simp
qed simp

lemma partial_match_fails:
  assumes "f \<notin> set p" and "j \<le> length p" and "0 < j \<Longrightarrow> c \<noteq> (f # p) ! j"
    and "k < j \<or> (k = j \<and> c \<noteq> f)"
  shows "\<not> prefix (f # p) (drop k (take j (f # p) @ c # r))"
proof (cases "k = 0")
  case True
  show ?thesis
  proof (cases "j = 0")
    case True
    with \<open>k = 0\<close> assms(4) show ?thesis by simp
  next
    case False
    have "(f # p) ! j = c" if pre: "prefix (f # p) (take j (f # p) @ c # r)"
    proof -
      from pre obtain u where u: "take j (f # p) @ c # r = (f # p) @ u" by (auto simp: prefix_def)
      have "(take j (f # p) @ c # r) ! j = c" using assms(2) by (simp add: nth_append del: take_Suc_Cons nth_Cons_pos)
      moreover have "((f # p) @ u) ! j = (f # p) ! j" using assms(2) by (simp only: nth_append) simp
      ultimately show ?thesis by (simp only: u)
    qed
    with assms(3) False True show ?thesis by auto
  qed
next
  case False
  with assms show ?thesis
    using no_match_inside [of f p k j "c # r"] by auto
qed

lemma short_occ: "length s < length t \<Longrightarrow> first_occ t s = None" "length s < length t \<Longrightarrow> occurrences t s = 0"
  by (induction s) (auto dest: prefix_length_le)

lemma match_step_ok:
  assumes "i < length s" and "j \<le> length p"
  shows "match_step (str s junk) (str (f # p) junk') (int i) (int j) =
    Ok (if s ! i = f then Inl 1
        else Inr (if 0 < j then if s ! i = (f # p) ! j then int j + 1 else 0 else 0))"
  using assms char_at_str [of j "f # p" junk']
  by (auto simp: match_step_def char_at_str char_at_0)

text \<open>The invariant of both searches: behind \<open>j\<close> matching characters, what is still to be searched is
  the string with these characters in front of it.\<close>

lemma pending:
  assumes "f \<notin> set p" and "j \<le> length p" and "drop i s = c # r"
  shows "c = f \<Longrightarrow> position (first_occ (f # p) (take j (f # p) @ drop i s)) (int i - int j) =
      position (first_occ (f # p) (f # r)) (int i)"
    and "c = f \<Longrightarrow> occurrences (f # p) (take j (f # p) @ drop i s) = occurrences (f # p) (f # r)"
    and "c \<noteq> f \<Longrightarrow> (0 < j \<Longrightarrow> c \<noteq> (f # p) ! j) \<Longrightarrow>
      position (first_occ (f # p) (take j (f # p) @ drop i s)) (int i - int j) = position (first_occ (f # p) r) (int i + 1)"
    and "c \<noteq> f \<Longrightarrow> (0 < j \<Longrightarrow> c \<noteq> (f # p) ! j) \<Longrightarrow>
      occurrences (f # p) (take j (f # p) @ drop i s) = occurrences (f # p) r"
proof -
  have l: "length (take j (f # p)) = j" using assms(2) by simp
  have f: "0 < j \<Longrightarrow> f \<noteq> (f # p) ! j" using assms(1,2) by (cases j) auto
  have a: "\<forall>k < length (take j (f # p)). \<not> prefix (f # p) (drop k (take j (f # p) @ f # r))"
    using partial_match_fails [OF assms(1,2) f] by (simp only: l) blast
  have b: "\<forall>k < length (take j (f # p) @ [c]). \<not> prefix (f # p) (drop k ((take j (f # p) @ [c]) @ r))"
    if "c \<noteq> f" "0 < j \<Longrightarrow> c \<noteq> (f # p) ! j"
    using partial_match_fails [OF assms(1,2) that(2)] that(1) l by (auto simp: less_Suc_eq simp del: take_Suc_Cons)
  show "c = f \<Longrightarrow> position (first_occ (f # p) (take j (f # p) @ drop i s)) (int i - int j) =
      position (first_occ (f # p) (f # r)) (int i)"
    using skip_first [OF a, of "int i - int j"] assms(3) l by (simp del: take_Suc_Cons)
  show "c = f \<Longrightarrow> occurrences (f # p) (take j (f # p) @ drop i s) = occurrences (f # p) (f # r)"
    using skip_occurrences [OF a] assms(3) by (simp del: take_Suc_Cons)
  show "position (first_occ (f # p) (take j (f # p) @ drop i s)) (int i - int j) = position (first_occ (f # p) r) (int i + 1)"
    if "c \<noteq> f" "0 < j \<Longrightarrow> c \<noteq> (f # p) ! j"
    using skip_first [OF b [OF that], of "int i - int j"] assms(3) l by (simp del: take_Suc_Cons)
  show "occurrences (f # p) (take j (f # p) @ drop i s) = occurrences (f # p) r"
    if "c \<noteq> f" "0 < j \<Longrightarrow> c \<noteq> (f # p) ! j"
    using skip_occurrences [OF b [OF that]] assms(3) by (simp del: take_Suc_Cons)
qed

lemma pending_grows:
  assumes "0 < j" and "j \<le> length p" and "(f # p) ! j = c"
  shows "take j (f # p) @ c # r = take (Suc j) (f # p) @ r"
  using take_Suc_conv_app_nth [of j "f # p"] assms by simp

lemma next_loop_ok:
  assumes "f \<notin> set p" and "p \<noteq> []" and "j \<le> length p" and "length s = i + n"
  shows "next_loop n (str s junk) (str (f # p) junk') (int (Suc (length p))) (int i) (int j) =
    Ok (position (first_occ (f # p) (take j (f # p) @ drop i s)) (int i - int j))"
  using assms(3,4)
proof (induction n arbitrary: i j)
  case 0
  then show ?case using short_occ(1) [of "take j (f # p)" "f # p"] by (simp add: position_def)
next
  case (Suc n)
  let ?c = "s ! i" and ?r = "drop (Suc i) s"
  have d: "drop i s = ?c # ?r" using Suc.prems by (simp add: Cons_nth_drop_Suc)
  have IH: "k \<le> length p \<Longrightarrow>
      next_loop n (str s junk) (str (f # p) junk') (int (Suc (length p))) (int i + 1) (int k) =
      Ok (position (first_occ (f # p) (take k (f # p) @ ?r)) (int (Suc i) - int k))" for k
    using Suc.IH [of k "Suc i"] Suc.prems by (simp add: add.commute)
  note step = match_step_ok [of i s j p junk f junk'] and p = pending [OF assms(1) Suc.prems(1) d]
  show ?case
  proof (cases "?c = f")
    case True
    have "1 \<le> length p" using assms(2) by (cases p) simp_all
    with True step p(1) IH [of 1] Suc.prems show ?thesis by simp
  next
    case ne: False
    show ?thesis
    proof (cases "0 < j \<and> ?c = (f # p) ! j")
      case False
      with ne step p(3) IH [of 0] Suc.prems show ?thesis by (auto simp: add.commute)
    next
      case True
      then have g: "take j (f # p) @ drop i s = take (Suc j) (f # p) @ ?r"
        using pending_grows [of j p f ?c ?r] Suc.prems(1) by (simp add: d)
      show ?thesis
      proof (cases "j = length p")
        case True
        with g have "take j (f # p) @ drop i s = f # p @ ?r" by simp
        with True ne step Suc.prems \<open>0 < j \<and> ?c = (f # p) ! j\<close> show ?thesis
          by (simp add: position_def del: take_Suc_Cons)
      next
        case False
        with ne step Suc.prems IH [of "Suc j"] \<open>0 < j \<and> ?c = (f # p) ! j\<close> show ?thesis
          by (simp add: g add.commute del: take_Suc_Cons nth_Cons_pos)
      qed
    qed
  qed
qed

lemma count_loop_ok:
  assumes "f \<notin> set p" and "p \<noteq> []" and "j \<le> length p" and "length s = i + n"
  shows "count_loop n (str s junk) (str (f # p) junk') (int (Suc (length p))) (int i) (int j) x =
    Ok (x + int (occurrences (f # p) (take j (f # p) @ drop i s)))"
  using assms(3,4)
proof (induction n arbitrary: i j x)
  case 0
  then show ?case using short_occ(2) [of "take j (f # p)" "f # p"] by simp
next
  case (Suc n)
  let ?c = "s ! i" and ?r = "drop (Suc i) s"
  have d: "drop i s = ?c # ?r" using Suc.prems by (simp add: Cons_nth_drop_Suc)
  have IH: "k \<le> length p \<Longrightarrow>
      count_loop n (str s junk) (str (f # p) junk') (int (Suc (length p))) (int i + 1) (int k) y =
      Ok (y + int (occurrences (f # p) (take k (f # p) @ ?r)))" for k y
    using Suc.IH [of k "Suc i" y] Suc.prems by (simp add: add.commute)
  note step = match_step_ok [of i s j p junk f junk'] and p = pending [OF assms(1) Suc.prems(1) d]
  show ?case
  proof (cases "?c = f")
    case True
    have "1 \<le> length p" using assms(2) by (cases p) simp_all
    with True step p(2) IH [of 1] Suc.prems show ?thesis by simp
  next
    case ne: False
    show ?thesis
    proof (cases "0 < j \<and> ?c = (f # p) ! j")
      case False
      with ne step p(4) IH [of 0] Suc.prems show ?thesis by auto
    next
      case True
      then have g: "take j (f # p) @ drop i s = take (Suc j) (f # p) @ ?r"
        using pending_grows [of j p f ?c ?r] Suc.prems(1) by (simp add: d)
      show ?thesis
      proof (cases "j = length p")
        case True
        have "\<forall>k < length p. \<not> prefix (f # p) (drop k (p @ ?r))"
          using no_match_inside [of f p "Suc k" "Suc (length p)" ?r for k] assms(1) by auto
        then have "occurrences (f # p) (p @ ?r) = occurrences (f # p) ?r" by (rule skip_occurrences)
        moreover from True g have "take j (f # p) @ drop i s = f # p @ ?r" by simp
        ultimately have "occurrences (f # p) (take j (f # p) @ drop i s) = 1 + occurrences (f # p) ?r" by simp
        with True ne step Suc.prems IH [of 0 "x + 1"] \<open>0 < j \<and> ?c = (f # p) ! j\<close> show ?thesis
          by (simp del: take_Suc_Cons)
      next
        case False
        with ne step Suc.prems IH [of "Suc j"] \<open>0 < j \<and> ?c = (f # p) ! j\<close> show ?thesis
          by (simp add: g add.commute del: take_Suc_Cons nth_Cons_pos)
      qed
    qed
  qed
qed

text \<open>When the first character comes again, the number of matching characters never gets behind its second
  place; a single character is left by \<^verbatim>\<open>continue\<close> before it is counted as found.\<close>

lemma never_found:
  assumes "chars s" and "char_at t 0 = Ok f" and "char_at t (int k) = Ok x" and "x = f \<or> x = 0"
    and "\<forall>m \<le> k. \<exists>y. char_at t (int m) = Ok y" and "k < l \<or> k = 1 \<and> l = 1" and "0 < k"
    and "j \<le> k" and "length s = i + n"
  shows "next_loop n (str s junk) t (int l) (int i) (int j) = Ok (-1)"
    and "count_loop n (str s junk) t (int l) (int i) (int j) r = Ok r"
proof -
  have step: "\<exists>j'. j' \<le> k \<and> (match_step (str s junk) t (int i) (int j) = Ok (Inl (int j')) \<or>
      match_step (str s junk) t (int i) (int j) = Ok (Inr (int j')) \<and> j' \<noteq> l)"
    if "j \<le> k" "i < length s" for i j
  proof (cases "s ! i = f")
    case True
    with assms(2,7) that have "match_step (str s junk) t (int i) (int j) = Ok (Inl (int 1))"
      by (simp add: match_step_def char_at_str)
    with assms(7) show ?thesis by (intro exI [of _ 1]) simp
  next
    case False
    obtain y where y: "char_at t (int j) = Ok y" using assms(5) \<open>j \<le> k\<close> by blast
    have nz: "s ! i \<noteq> 0" using assms(1) \<open>i < length s\<close> by (metis chars_def nth_mem)
    show ?thesis
    proof (cases "0 < j \<and> s ! i = y")
      case True
      then have "j \<noteq> k" using y assms(3,4) False nz by auto
      with True False y assms(2,6) that show ?thesis
        by (intro exI [of _ "Suc j"]) (auto simp: match_step_def char_at_str)
    next
      case F: False
      with False y assms(2,6) that show ?thesis
        by (intro exI [of _ 0]) (auto simp: match_step_def char_at_str)
    qed
  qed
  show "next_loop n (str s junk) t (int l) (int i) (int j) = Ok (-1)"
    using assms(8,9)
  proof (induction n arbitrary: i j)
    case (Suc n)
    have e: "int i + 1 = int (Suc i)" by simp
    from step [of j i] Suc.prems Suc.IH [of _ "Suc i"] show ?case
      by (auto simp: e simp del: of_nat_Suc)
  qed simp
  show "count_loop n (str s junk) t (int l) (int i) (int j) r = Ok r"
    using assms(8,9)
  proof (induction n arbitrary: i j)
    case (Suc n)
    have e: "int i + 1 = int (Suc i)" by simp
    from step [of j i] Suc.prems Suc.IH [of _ "Suc i"] show ?case
      by (auto simp: e simp del: of_nat_Suc)
  qed simp
qed

text \<open>What the searches find: everything when the first character of the searched string stands only at
  its beginning and is not all of it, otherwise nothing.\<close>

definition findable :: "byte list \<Rightarrow> bool" where
  "findable t \<longleftrightarrow> (case t of f # p \<Rightarrow> p \<noteq> [] \<and> f \<notin> set p | [] \<Rightarrow> False)"

lemma not_findable:
  assumes "chars (f # p)" and "\<not> findable (f # p)"
  obtains k x where "char_at (str (f # p) junk) (int k) = Ok x" "x = f \<or> x = 0"
    "\<forall>m \<le> k. \<exists>y. char_at (str (f # p) junk) (int m) = Ok y"
    "k < Suc (length p) \<or> k = 1 \<and> Suc (length p) = 1" "0 < k"
proof (cases "p = []")
  case True
  then show thesis
    by (intro that [of 1 0]) (auto simp: char_at_def str_def)
next
  case False
  then have "f \<in> set p" using assms(2) by (simp add: findable_def)
  then obtain k where k: "k < length p" "p ! k = f" by (auto simp: in_set_conv_nth)
  have "\<forall>m \<le> Suc k. \<exists>y. char_at (str (f # p) junk) (int m) = Ok y"
    using k by (auto simp: char_at_def)
  with k char_at_str [of "Suc k" "f # p" junk] show thesis
    by (intro that [of "Suc k" f]) simp_all
qed

text \<open>C30: searching for a string, and counting it, on every string and every position to begin at: if the first
  character of the searched string does not come again in it and more characters follow, the result is the
  position of its first occurrence from there on (-1 if there is none) and the number of all its
  occurrences. Otherwise, for a single character or when the first character comes again, neither function
  finds anything.\<close>

theorem UString_find_characterised:
  assumes "chars s" and "chars t" and "t \<noteq> []" and "i \<le> length s"
  shows "UString_findNextOccurrence (Some (str s junk)) (Some (str t junk')) (int i) =
      Ok (if findable t then position (first_occ t (drop i s)) (int i) else -1) \<and>
    UString_getNumberOccurrences (Some (str s junk)) (Some (str t junk')) =
      Ok (if findable t then int (occurrences t s) else 0)"
proof -
  obtain f p where t: "t = f # p" using assms(3) by (cases t) simp_all
  have l: "length s = i + (length s - i)" "length s = 0 + length s" using assms(4) by simp_all
  show ?thesis
  proof (cases "findable t")
    case True
    then have p: "f \<notin> set p" "p \<noteq> []" by (auto simp: findable_def t)
    from next_loop_ok [OF p le0 l(1), of junk junk'] count_loop_ok [OF p le0 l(2), of junk junk' 0] assms True t show ?thesis
      by (simp add: UString_findNextOccurrence_def UString_getNumberOccurrences_def nat_diff_distrib')
  next
    case False
    from not_findable [of f p junk'] assms(2) False t obtain k x where k:
      "char_at (str (f # p) junk') (int k) = Ok x" "x = f \<or> x = 0"
      "\<forall>m \<le> k. \<exists>y. char_at (str (f # p) junk') (int m) = Ok y"
      "k < Suc (length p) \<or> k = 1 \<and> Suc (length p) = 1" "0 < k" by blast
    from never_found(1) [OF assms(1) char_at_0 k le0 l(1), of junk]
      never_found(2) [OF assms(1) char_at_0 k le0 l(2), of junk 0] assms False t show ?thesis
      by (simp add: UString_findNextOccurrence_def UString_getNumberOccurrences_def nat_diff_distrib')
  qed
qed

theorem UString_find_characterised_witness:
  "UString_findNextOccurrence (Some (str [97, 98, 97, 98] [])) (Some (str [97, 98] [])) (int 1) = Ok 2 \<and>
   UString_findNextOccurrence (Some (str [97, 98, 97, 98] [])) (Some (str [98] [])) (int 0) = Ok (-1)"
  using UString_find_characterised [of "[97, 98, 97, 98]" "[97, 98]" 1 "[]" "[]"]
    UString_find_characterised [of "[97, 98, 97, 98]" "[98]" 0 "[]" "[]"]
  by (simp add: findable_def position_def)

subsection \<open>Replacing\<close>

text \<open>The characters to be replaced with their strings, as the function gets them: an array of characters and
  an array of pointers.\<close>

type_synonym replacements = "(byte \<times> byte list) list"

definition finds :: "replacements \<Rightarrow> byte list" where
  "finds ps = map fst ps"

definition pointers :: "replacements \<Rightarrow> cstring list" where
  "pointers ps = map (\<lambda>(_, r). Some (str r [])) ps @ [None]"

definition replaced :: "replacements \<Rightarrow> byte list \<Rightarrow> byte list" where
  "replaced ps s = concat (map (\<lambda>c. case map_of ps c of None \<Rightarrow> [c] | Some r \<Rightarrow> r) s)"

lemma replaced_simps [simp]:
  "replaced ps [] = []" "replaced ps (s @ t) = replaced ps s @ replaced ps t"
  "replaced ps (c # s) = (case map_of ps c of None \<Rightarrow> [c] | Some r \<Rightarrow> r) @ replaced ps s"
  by (simp_all add: replaced_def)

lemma replaced_none: "(\<forall>c \<in> set s. c \<notin> set (finds ps)) \<Longrightarrow> replaced ps s = s"
proof (induction s)
  case (Cons c s)
  then have "map_of ps c = None" by (simp add: finds_def map_of_eq_None_iff)
  with Cons show ?case by simp
qed simp

lemma copy_n_ok: "n \<le> length d \<Longrightarrow> n \<le> length t \<Longrightarrow> copy_n d t (int n) = Ok (take n t @ drop n d)"
  by (simp add: copy_n_def)

lemma Any_strcpy_ok:
  "chars r \<Longrightarrow> length r < length d \<Longrightarrow> Any_strcpy d (str r []) = Ok (r @ 0 # drop (Suc (length r)) d)"
  using copy_n_ok [of "Suc (length r)" d "str r []"] by (simp add: Any_strcpy_def add.commute) (simp add: str_def)

lemma entries_miss:
  assumes "char_at src cur = Ok c" and "c \<notin> set (map fst ps)"
  shows "replace_entries (map fst ps) (map (\<lambda>(_, r). Some (str r [])) ps @ rest) src dl cur st = Ok (Inr st)"
  using assms by (induction ps) auto

text \<open>What a replacement does to the destination: the characters since the last one, then the string with
  its terminator.\<close>

definition put :: "byte list \<Rightarrow> byte list \<Rightarrow> byte list \<Rightarrow> nat \<Rightarrow> byte list" where
  "put seg r dest dp = take dp dest @ seg @ r @ 0 # drop (dp + length seg + length r + 1) dest"

lemma put_written:
  assumes "dp + length seg + length r < length dest" and "chars r" and "length seg \<le> length t" "take (length seg) t = seg"
  shows "obind (write_at dest (int dp) (\<lambda>d. copy_n d t (int (length seg)))) (\<lambda>dest.
      write_at dest (int (dp + length seg)) (\<lambda>d. Any_strcpy d (str r []))) = Ok (put seg r dest dp)"
proof -
  let ?d1 = "take dp dest @ seg @ drop (dp + length seg) dest"
  have "write_at dest (int dp) (\<lambda>d. copy_n d t (int (length seg))) = Ok ?d1"
    using assms(1,3,4) by (intro write_at_ok) (simp_all add: copy_n_ok add.commute)
  moreover have "write_at ?d1 (int (dp + length seg)) (\<lambda>d. Any_strcpy d (str r [])) = Ok (put seg r dest dp)"
  proof -
    have "drop (dp + length seg) ?d1 = drop (dp + length seg) dest" "take (dp + length seg) ?d1 = take dp dest @ seg"
      using assms(1) by simp_all
    moreover have "Any_strcpy (drop (dp + length seg) dest) (str r []) =
        Ok (r @ 0 # drop (dp + length seg + length r + 1) dest)"
      using assms(1,2) by (simp add: Any_strcpy_ok add.commute add.left_commute)
    ultimately show ?thesis
      using assms(1) by (simp add: write_at_ok put_def del: of_nat_add)
  qed
  ultimately show ?thesis by simp
qed

lemma entries_hit:
  assumes "distinct (map fst ps)" and "map_of ps c = Some r" and "chars r" and "char_at src (int cur) = Ok c"
    and "rp_destPos st = int dp" and "rp_prevPos st = int prev" and "prev \<le> cur" and "cur \<le> length src"
    and "seg = take (cur - prev) (drop prev src)" and "dest = rp_dest st"
    and "dp + length seg + length r < nat dl" and "nat dl \<le> length dest"
  shows "replace_entries (map fst ps) (map (\<lambda>(_, r). Some (str r [])) ps @ rest) src dl (int cur) st =
    Ok (Inr (st\<lparr>rp_dest := put seg r dest dp, rp_destPos := int (dp + length seg + length r), rp_prevPos := int cur + 1\<rparr>))"
  using assms(1,2)
proof (induction ps)
  case (Cons x ps)
  obtain f q where x: "x = (f, q)" by (cases x)
  show ?case
  proof (cases "f = c")
    case False
    with Cons x assms(4) show ?thesis by simp
  next
    case True
    then have q: "q = r" and miss: "c \<notin> set (map fst ps)" using Cons.prems x by auto
    have n: "length seg = cur - prev" "int cur - int prev = int (length seg)"
      using assms(7-9) by simp_all
    have pre: "prev \<le> length src" "length seg \<le> length (drop prev src)" "take (length seg) (drop prev src) = seg"
      using assms(7-9) by simp_all
    have room: "dp + length seg + length r < length dest" using assms(11,12) by simp
    from put_written [OF room assms(3) pre(2,3)] obtain d1 where
      "write_at dest (int dp) (\<lambda>d. copy_n d (drop prev src) (int (length seg))) = Ok d1"
      "write_at d1 (int (dp + length seg)) (\<lambda>d. Any_strcpy d (str r [])) = Ok (put seg r dest dp)"
      by (auto simp: obind_Ok_iff)
    moreover have "\<not> int dp + int (length seg) \<ge> dl" "\<not> int dp + int (length seg) + int (length r) \<ge> dl"
      using assms(11) by linarith+
    ultimately show ?thesis
      using entries_miss [OF assms(4) miss] True q x assms(3-6,10) pre(1)
      by (simp add: n(2) at_offset_nat)
  qed
qed simp

text \<open>The destination after \<open>cur\<close> characters: what precedes \<open>prevPos\<close> is replaced and terminated, the
  characters since then have nothing to be replaced.\<close>

definition replacing :: "replacements \<Rightarrow> byte list \<Rightarrow> nat \<Rightarrow> nat \<Rightarrow> replace_state \<Rightarrow> bool" where
  "replacing ps s cur l st \<longleftrightarrow> (\<exists>prev dp.
     rp_prevPos st = int prev \<and> rp_destPos st = int dp \<and> prev \<le> cur \<and> cur \<le> length s \<and> length (rp_dest st) = l \<and>
     dp < l \<and> take dp (rp_dest st) = replaced ps (take prev s) \<and> dp = length (replaced ps (take prev s)) \<and>
     rp_dest st ! dp = 0 \<and> replaced ps (take (cur - prev) (drop prev s)) = take (cur - prev) (drop prev s))"

lemma put_parts:
  assumes "dp + length seg + length r < length dest"
  shows "length (put seg r dest dp) = length dest"
    and "take (dp + length seg + length r) (put seg r dest dp) = take dp dest @ seg @ r"
    and "put seg r dest dp ! (dp + length seg + length r) = 0"
  using assms by (simp_all add: put_def nth_append)

lemma replaced_prefix: "length (replaced ps (take k s)) \<le> length (replaced ps s)"
  using replaced_simps(2) [of ps "take k s" "drop k s"] by simp

lemma replace_loop_ok:
  assumes "distinct (finds ps)" and "chars s" and "\<forall>r \<in> set (map snd ps). chars r"
    and "length (replaced ps s) < nat dl" and "nat dl \<le> l" and "length s = cur + n" and "replacing ps s cur l st"
  shows "\<exists>st'. replace_loop n (finds ps) (pointers ps) (str s junk) dl (int cur) st = Ok (Inr st') \<and>
    replacing ps s (length s) l st'"
  using assms(6,7)
proof (induction n arbitrary: cur st)
  case 0
  then show ?case by simp
next
  case (Suc n)
  let ?c = "s ! cur"
  from Suc.prems obtain prev dp where st: "rp_prevPos st = int prev" "rp_destPos st = int dp" "prev \<le> cur" "cur < length s"
    "length (rp_dest st) = l" "dp < l" "take dp (rp_dest st) = replaced ps (take prev s)"
    "dp = length (replaced ps (take prev s))" "rp_dest st ! dp = 0"
    and seg: "replaced ps (take (cur - prev) (drop prev s)) = take (cur - prev) (drop prev s)"
    unfolding replacing_def by fastforce
  define sg where "sg = take (cur - prev) (drop prev s)"
  have lsg: "length sg = cur - prev" using st(3,4) by (simp add: sg_def)
  have c: "char_at (str s junk) (int cur) = Ok ?c" using st(4) by (simp add: char_at_str)
  have upto: "take cur s = take prev s @ sg"
    using st(3) by (metis sg_def le_add_diff_inverse take_add)
  have suc: "take (Suc cur) s = take prev s @ sg @ [?c]"
    using st(4) upto by (simp add: take_Suc_conv_app_nth)
  obtain st1 where st1: "replace_entries (finds ps) (pointers ps) (str s junk) dl (int cur) st = Ok (Inr st1)"
    "replacing ps s (Suc cur) l st1"
  proof (cases "map_of ps ?c")
    case None
    then have "?c \<notin> set (map fst ps)" by (simp add: map_of_eq_None_iff)
    from entries_miss [OF c this] have e: "replace_entries (finds ps) (pointers ps) (str s junk) dl (int cur) st = Ok (Inr st)"
      by (simp add: finds_def pointers_def)
    have "take (Suc cur - prev) (drop prev s) = sg @ [?c]"
      using st(3,4) lsg by (simp add: sg_def Suc_diff_le take_Suc_conv_app_nth)
    with None seg have "replaced ps (take (Suc cur - prev) (drop prev s)) = take (Suc cur - prev) (drop prev s)"
      by (simp add: sg_def)
    then have "replacing ps s (Suc cur) l st"
      unfolding replacing_def using st by (intro exI [of _ prev] exI [of _ dp]) simp
    with e show thesis by (rule that)
  next
    case (Some r)
    have cr: "chars r" using assms(3) Some by (force dest: map_of_SomeD)
    let ?d = "put sg r (rp_dest st) dp" and ?dp = "dp + length sg + length r"
    have all: "replaced ps (take (Suc cur) s) = take dp (rp_dest st) @ sg @ r"
      using Some seg st(7) by (simp add: suc sg_def)
    then have "length (replaced ps (take (Suc cur) s)) = ?dp" using st(5,6) by simp
    then have fits: "?dp < nat dl" using replaced_prefix [of ps "Suc cur" s] assms(4) by linarith
    then have room: "?dp < length (rp_dest st)" using assms(5) st(5) by linarith
    have sg': "sg = take (cur - prev) (drop prev (str s junk))"
      using st(3,4) by (simp add: sg_def drop_str take_str)
    let ?st = "st\<lparr>rp_dest := ?d, rp_destPos := int ?dp, rp_prevPos := int cur + 1\<rparr>"
    have "replace_entries (finds ps) (pointers ps) (str s junk) dl (int cur) st = Ok (Inr ?st)"
      unfolding finds_def pointers_def
      using st assms(1,5) fits by (intro entries_hit [OF _ Some cr c _ _ st(3) _ sg']) (simp_all add: finds_def)
    moreover have "replacing ps s (Suc cur) l ?st"
      unfolding replacing_def
      using st(4,5) put_parts [OF room] room all
      by (intro exI [of _ "Suc cur"] exI [of _ ?dp]) simp
    ultimately show thesis by (rule that)
  qed
  from Suc.IH [of "Suc cur" st1] Suc.prems st1 show ?case by (simp add: add.commute)
qed

lemma count_entries_ok:
  "num = k + length ps \<Longrightarrow> count_entries num (map (\<lambda>(_, r). Some (str r [])) ps @ [None]) k = Ok num"
  by (induction ps arbitrary: k) auto

lemma str_tail: "take (k + 1) l = t @ [0] \<Longrightarrow> l = str t (drop (k + 1) l)"
  by (metis append_Cons append_Nil append_assoc append_take_drop_id str_def)

lemma replace_rest_ok:
  assumes "replacing ps s (length s) l st" and "length (replaced ps s) < nat dl" and "nat dl \<le> l"
  shows "\<exists>junk'. replace_rest (str s junk) (int (length s)) dl st = Ok (0, str (replaced ps s) junk') \<and>
    length (str (replaced ps s) junk') = l"
proof -
  from assms(1) obtain prev dp where p: "rp_prevPos st = int prev" "rp_destPos st = int dp" "prev \<le> length s"
    "length (rp_dest st) = l" "dp < l" "take dp (rp_dest st) = replaced ps (take prev s)"
    "rp_dest st ! dp = 0" "replaced ps (drop prev s) = drop prev s"
    unfolding replacing_def by fastforce
  have all: "replaced ps s = take dp (rp_dest st) @ drop prev s"
    using replaced_simps(2) [of ps "take prev s" "drop prev s"] p(6,8) by simp
  show ?thesis
  proof (cases "prev = length s")
    case True
    have "take (dp + 1) (rp_dest st) = replaced ps s @ [0]"
      using p(4,5,7) all True by (simp add: take_Suc_conv_app_nth)
    from str_tail [OF this] p(1,4) True show ?thesis
      by (intro exI [of _ "drop (dp + 1) (rp_dest st)"]) (simp add: replace_rest_def)
  next
    case False
    let ?n = "length s - prev"
    have fits: "dp + ?n < nat dl" using all assms(2) p(4,5) by simp
    have n: "int (length s) - int prev + 1 = int (Suc ?n)" using p(3) by simp
    have t: "take (Suc ?n) (str (drop prev s) junk) = drop prev s @ [0]" by (simp add: str_def)
    have "copy_n (drop dp (rp_dest st)) (str (drop prev s) junk) (int (Suc ?n)) =
        Ok (drop prev s @ 0 # drop (dp + Suc ?n) (rp_dest st))"
      using copy_n_ok [of "Suc ?n" "drop dp (rp_dest st)" "str (drop prev s) junk"] fits p(4) assms(3) t
      by (simp add: add.commute)
    then have "write_at (rp_dest st) (int dp) (\<lambda>d. copy_n d (str (drop prev s) junk) (int (Suc ?n))) =
        Ok (str (replaced ps s) (drop (dp + Suc ?n) (rp_dest st)))"
      using p(4,5) by (simp add: write_at_ok all str_def)
    moreover have "length (str (replaced ps s) (drop (dp + Suc ?n) (rp_dest st))) = l"
      using all p(4,5) fits assms(3) by simp
    moreover have "\<not> int dp + (int (length s) - int prev) \<ge> dl" using fits p(3) by linarith
    ultimately show ?thesis
      using False p(1-3) by (intro exI [of _ "drop (dp + Suc ?n) (rp_dest st)"])
        (simp add: replace_rest_def n at_offset_nat drop_str Let_def)
  qed
qed

text \<open>Replacing characters by strings: when source and result with their terminators fit into the destination, the
  function returns 0 and the destination holds the source with each of the characters replaced by its
  string; its size does not change and nothing behind it is touched.\<close>

theorem UString_replaces:
  assumes "distinct (finds ps)" and "chars (finds ps)" and "chars s" and "\<forall>r \<in> set (map snd ps). chars r"
    and "length s < nat dl" and "length (replaced ps s) < nat dl" and "nat dl \<le> length dest"
  shows "\<exists>junk'. UString_replaceChrArrayWithStrArray (Some dest) dl (Some (str s junk)) (Some (str (finds ps) junk2))
      (Some (pointers ps)) = Ok (0, str (replaced ps s) junk') \<and> length (str (replaced ps s) junk') = length dest"
proof -
  let ?num = "length ps" and ?st = "\<lparr>rp_dest = dest[0 := 0], rp_destPos = 0, rp_prevPos = 0\<rparr>"
  have num: "Any_strlen (str (finds ps) junk2) = Ok ?num" "take ?num (str (finds ps) junk2) = finds ps"
    using assms(2) by (simp add: finds_def) (simp add: finds_def str_def)
  have cnt: "count_entries ?num (pointers ps) 0 = Ok ?num" "pointers ps ! ?num = None"
    by (simp_all add: pointers_def count_entries_ok nth_append)
  have dest: "0 < length dest" "0 < dl" "int (length s) < dl" using assms(5,7) by linarith+
  have init: "replacing ps s 0 (length dest) ?st"
    unfolding replacing_def using dest by (intro exI [of _ 0]) simp
  from replace_loop_ok [OF assms(1,3,4,6,7) _ init, of "length s" junk] obtain st where
    loop: "replace_loop (length s) (finds ps) (pointers ps) (str s junk) dl 0 ?st = Ok (Inr st)"
    and st: "replacing ps s (length s) (length dest) st"
    by auto
  have "UString_replaceChrArrayWithStrArray (Some dest) dl (Some (str s junk)) (Some (str (finds ps) junk2))
      (Some (pointers ps)) = replace_rest (str s junk) (int (length s)) dl st"
    using assms(3) num cnt dest loop by (simp add: UString_replaceChrArrayWithStrArray_def char_set_def)
  with replace_rest_ok [OF st assms(6,7)] show ?thesis by simp
qed

definition quotes :: replacements where "quotes = [(60, [38, 108, 116, 59]), (62, [38, 103, 116, 59])]"

lemma quotes_ok: "distinct (finds quotes)" "chars (finds quotes)" "\<forall>r \<in> set (map snd quotes). chars r"
  "replaced quotes [97, 60, 98] = [97, 38, 108, 116, 59, 98]"
  by (simp_all add: quotes_def finds_def)

theorem UString_replaces_witness:
  "\<exists>junk'. UString_replaceChrArrayWithStrArray (Some [1, 2, 3, 4, 5, 6, 7, 8]) 7 (Some (str [97, 60, 98] []))
      (Some (str (finds quotes) [])) (Some (pointers quotes)) = Ok (0, str [97, 38, 108, 116, 59, 98] junk') \<and>
    length (str [97, 38, 108, 116, 59, 98] junk') = 8"
  using UString_replaces [OF quotes_ok(1,2) _ quotes_ok(3), of "[97, 60, 98]" 7 "[1, 2, 3, 4, 5, 6, 7, 8]" "[]" "[]"]
  unfolding quotes_ok(4) by simp

text \<open>
  When the destination is too small the functions return 1, except when the characters before a replacement do
  not fit: then they return \<^verbatim>\<open>false\<close>, the code for success, with the string cut off.
\<close>

lemma UString_replace_cut_reports_success:
  "UString_replaceChrArrayWithStrArray (Some [9, 9, 9, 9, 9, 9]) 6 (Some (str [60, 97, 97, 60] []))
     (Some (str (finds quotes) [])) (Some (pointers quotes)) = Ok (0, [38, 108, 116, 59, 0, 9])"
  by code_simp

subsection \<open>Trimming\<close>

text \<open>The number of blanks at the beginning.\<close>

definition leading :: "byte list \<Rightarrow> nat" where
  "leading s = length (takeWhile isspace s)"

lemma leading_le: "leading s \<le> length s"
  by (simp add: leading_def length_takeWhile_le)

lemma blanks_ok: "chars s \<Longrightarrow> blanks (str s junk) = Ok (int (leading s))"
  by (induction s) (auto simp: str_def leading_def isspace_def)

lemma shift_loop_ok:
  assumes "chars s" and "a = str s junk" and "c \<le> length s" and "c + k \<le> length a" and "length s - c < n"
  shows "shift_loop n (take c (drop k a) @ drop c a) (int k) (int c) =
    (if length s + k \<le> length a then Ok (take (length s) (drop k a) @ drop (length s) a) else Fault)"
  using assms(3-5)
proof (induction n arbitrary: c)
  case (Suc n)
  let ?b = "take c (drop k a) @ drop c a"
  have lb: "length ?b = length a" using Suc.prems(1,2) assms(2) by simp
  have ltc: "length (take c (drop k a)) = c" using Suc.prems(2) by simp
  have ca: "c < length a" using Suc.prems(1) assms(2) by simp
  have bc: "?b ! c = a ! c" using ltc ca by (simp add: nth_append)
  have at: "char_at ?b (int c) = Ok (a ! c)" using char_at_nat [of c ?b] lb ca bc by (simp only:)
  show ?case
  proof (cases "c = length s")
    case True
    then have "a ! c = 0" using assms(2) by (simp add: str_def nth_append)
    with True at Suc.prems(2) show ?thesis by simp
  next
    case False
    with Suc.prems(1) have c: "c < length s" by simp
    have nz: "a ! c \<noteq> 0"
      using assms(1,2) c by (metis chars_def nth_append nth_mem str_def)
    have e: "int c + int k = int (c + k)" "int c + 1 = int (Suc c)" by simp_all
    show ?thesis
    proof (cases "c + k < length a")
      case True
      have "?b ! (c + k) = a ! (c + k)" using ltc ca True by (cases k) (simp_all add: nth_append)
      then have y: "char_at ?b (int (c + k)) = Ok (a ! (c + k))"
        using char_at_nat [of "c + k" ?b] lb True by (simp only:)
      have set: "char_set ?b (int c) (a ! (c + k)) = Ok (take (Suc c) (drop k a) @ drop (Suc c) a)"
      proof -
        have "?b[c := a ! (c + k)] = take c (drop k a) @ a ! (c + k) # drop (Suc c) a"
          using ltc ca by (simp add: list_update_append Cons_nth_drop_Suc [symmetric])
        also have "\<dots> = take (Suc c) (drop k a) @ drop (Suc c) a"
          using True by (simp add: take_Suc_conv_app_nth add.commute)
        finally show ?thesis using char_set_nat [of c ?b] lb ca by (simp only:)
      qed
      have "shift_loop (Suc n) ?b (int k) (int c) =
          shift_loop n (take (Suc c) (drop k a) @ drop (Suc c) a) (int k) (int (Suc c))"
        by (simp only: shift_loop.simps at nz obind.simps e y set if_True not_False_eq_True simp_thms)
      with Suc.IH [of "Suc c"] c True Suc.prems(3) show ?thesis by simp
    next
      case F: False
      then have "char_at ?b (int (c + k)) = Fault" using lb by (simp add: char_at_def del: of_nat_add)
      with nz at e F c show ?thesis by simp
    qed
  qed
qed simp

declare shift_loop.simps [simp del]

text \<open>C31: removing the blanks at the beginning gives the string without them if there is room in the array behind the
  string: the characters are moved until the old end of the string, so as many bytes as there are blanks,
  less one, are read behind the terminator. In an array without that room the function reads outside of
  it as soon as two blanks are removed.\<close>

theorem UString_trimLeft_characterised:
  assumes "chars s"
  shows "if leading s \<le> length junk + 1
    then \<exists>junk'. UString_trimLeft (Some (str s junk)) = Ok (str (drop (leading s) s) junk') \<and>
           length (str (drop (leading s) s) junk') = length (str s junk)
    else UString_trimLeft (Some (str s junk)) = Fault"
proof -
  let ?a = "str s junk" and ?k = "leading s"
  have "UString_trimLeft (Some ?a) = shift_loop (length ?a + 1) ?a (int ?k) 0"
    using assms by (simp add: UString_trimLeft_def blanks_ok)
  also have "\<dots> = (if length s + ?k \<le> length ?a then Ok (take (length s) (drop ?k ?a) @ drop (length s) ?a) else Fault)"
    using shift_loop_ok [OF assms refl, where c = 0 and k = ?k and n = "length ?a + 1" and junk = junk] leading_le [of s]
    by simp
  finally have run: "UString_trimLeft (Some ?a) =
      (if ?k \<le> length junk + 1 then Ok (take (length s) (drop ?k ?a) @ drop (length s) ?a) else Fault)" by simp
  have "\<exists>junk'. take (length s) (drop ?k ?a) @ drop (length s) ?a = str (drop ?k s) junk' \<and>
      length (str (drop ?k s) junk') = length ?a" if "?k \<le> length junk + 1"
  proof (cases "?k = 0")
    case True
    then show ?thesis by (intro exI [of _ junk]) (simp add: str_def)
  next
    case False
    let ?j = "take (?k - 1) junk @ drop (length s) ?a"
    have d: "drop ?k ?a = drop ?k s @ 0 # junk" using leading_le [of s] by (simp add: str_def)
    have "length s - length (drop ?k s) = Suc (?k - 1)" using False leading_le [of s] by simp
    then have "take (length s) (drop ?k ?a) = drop ?k s @ 0 # take (?k - 1) junk"
      unfolding d by (simp add: take_Cons')
    then have "take (length s) (drop ?k ?a) @ drop (length s) ?a = str (drop ?k s) ?j" by (simp add: str_def)
    moreover have "length (str (drop ?k s) ?j) = length ?a" using that False leading_le [of s] by simp
    ultimately show ?thesis by blast
  qed
  with run show ?thesis by simp
qed

theorem UString_trimLeft_characterised_witness:
  "UString_trimLeft (Some (str [32, 32, 97, 98] [])) = Fault \<and>
   (\<exists>junk'. UString_trimLeft (Some (str [32, 97, 98] [])) = Ok (str [97, 98] junk'))"
  using UString_trimLeft_characterised [of "[32, 32, 97, 98]" "[]"] UString_trimLeft_characterised [of "[32, 97, 98]" "[]"]
  by (auto simp: leading_def isspace_def)

lemma right_loop_ok:
  "n \<le> length s \<Longrightarrow> right_loop n s = Ok (int (length (rev (dropWhile isspace (rev (take n s))))) - 1)"
proof (induction n)
  case (Suc n)
  then have "take (Suc n) s = take n s @ [s ! n]" by (simp add: take_Suc_conv_app_nth)
  with Suc show ?case by (auto simp: char_at_nat)
qed simp

lemma UString_trimRight_strips:
  assumes "chars s"
  shows "\<exists>junk'. UString_trimRight (Some (str s junk)) = Ok (str (rev (dropWhile isspace (rev s))) junk')"
proof (cases "s = []")
  case True
  then show ?thesis by (auto simp: UString_trimRight_def)
next
  case False
  let ?r = "rev (dropWhile isspace (rev s))"
  have le: "length ?r \<le> length s" using length_dropWhile_le [of isspace "rev s"] by simp
  have "s = ?r @ rev (takeWhile isspace (rev s))"
    by (metis rev_append rev_rev_ident takeWhile_dropWhile_id)
  then have pre: "take (length ?r) s = ?r" by (metis append_eq_conv_conj)
  have "right_loop (length s) (str s junk) = Ok (int (length ?r) - 1)"
    using right_loop_ok [of "length s" "str s junk"] by (simp add: take_str)
  then have "UString_trimRight (Some (str s junk)) = Ok ((str s junk)[length ?r := 0])"
    using False assms le by (simp add: UString_trimRight_def char_set_def)
  moreover have "(str s junk)[length ?r := 0] = str ?r (drop (Suc (length ?r)) (str s junk))"
    using le pre by (simp add: upd_conv_take_nth_drop take_str) (simp add: str_def)
  ultimately show ?thesis by metis
qed

subsection \<open>Where the functions differ from their documentation\<close>

lemma nextChr_loop_ok:
  "i + n = length s \<Longrightarrow> nextChr_loop n (str s junk) c (int i) = Ok (int (i + length (takeWhile (\<lambda>x. x \<noteq> c) (drop i s))))"
proof (induction n arbitrary: i)
  case (Suc n)
  then have d: "drop i s = s ! i # drop (Suc i) s" by (simp add: Cons_nth_drop_Suc)
  from Suc.prems Suc.IH [of "Suc i"] show ?case by (simp add: char_at_str d add.commute)
qed simp

text \<open>The search for a character returns the length of the string when there is none, and \<open>-1\<close> when it is
  the last one.\<close>

lemma UString_findNextOccurrenceChr_result:
  assumes "chars s" and "c \<noteq> 0" and "i \<le> length s"
  shows "UString_findNextOccurrenceChr (Some (str s junk)) c (int i) =
    (let k = i + length (takeWhile (\<lambda>x. x \<noteq> c) (drop i s)) in Ok (if Suc k = length s then -1 else int k))"
proof -
  obtain n where n: "length s = i + n" using assms(3) le_Suc_ex by blast
  have "(int i + int k = int (length s) - 1) = (Suc (i + k) = length s)" for k by linarith
  with assms n nextChr_loop_ok [OF n [symmetric], of junk c] show ?thesis
    by (simp add: UString_findNextOccurrenceChr_def Let_def)
qed

text \<open>The last position of a character is never 0.\<close>

lemma UString_getLastPosChr_not_first: "UString_getLastPosChr (Some (str [97, 98] [])) 97 = Ok (-1)"
  by code_simp

text \<open>The backward search takes the second character for the first one: it misses \<open>abcd\<close> in itself and
  finds \<open>abc\<close> in \<open>xbc\<close>.\<close>

lemma UString_findPreviousOccurrence_wrong:
  "UString_findPreviousOccurrence (Some (str [97, 98, 99, 100] [])) (Some (str [97, 98, 99, 100] [])) (-1) = Ok (-1)"
  "UString_findPreviousOccurrence (Some (str [120, 98, 99] [])) (Some (str [97, 98, 99] [])) (-1) = Ok 0"
  by code_simp+

text \<open>Appending to a destination that is full passes a negative number to \<^verbatim>\<open>strncat\<close>, which copies
  everything.\<close>

lemma UString_append_overruns:
  assumes "chars d" and "chars s" and "s \<noteq> []" and "n \<le> int (length d)" and "0 \<le> n" and "length junk < length s"
  shows "UString_append (Some (str d junk)) n (Some (str s junk2)) = Fault"
proof -
  have "0 < length s" using assms(3) by simp
  with assms show ?thesis by (simp add: UString_append_def Any_strncat_def)
qed

text \<open>A part of a string is copied without a terminator.\<close>

lemma UString_getSubStr_not_terminated:
  "UString_getSubStr (Some [1, 1, 1]) 3 (Some (str [97, 98, 99] [])) 0 2 = Ok [97, 98, 1]"
  by code_simp
end
