(* ===== verification/Argv_Parser.thy ===== *)
theory Argv_Parser
  imports U_String
begin

text \<open>
  The parser of command lines (src/src/ArgvParser.c). The arguments are an array of pointers to C
  strings, the descriptors of the options an array that ends with a descriptor without names. A parser is created, gets
  arguments and descriptors, is set up, which goes to argument 0, and is then advanced from argument to
  argument.

  Pointers to strings are as in \<^verbatim>\<open>U_String\<close>. What the two functions print is the list of its characters.
\<close>

definition ARGVPARSER_INIT :: ulong where "ARGVPARSER_INIT = 0x900dbfff"
definition ARGVPARSER_VALID :: ulong where "ARGVPARSER_VALID = 0x63aaf209"
definition ARGVPARSER_INVALID :: ulong where "ARGVPARSER_INVALID = 0x40a6c83e"
definition ARGVPARSER_NO_PARAMETER :: int where "ARGVPARSER_NO_PARAMETER = 0"
definition ARGVPARSER_NO_OPTION :: int where "ARGVPARSER_NO_OPTION = -1"
definition ARGVPARSER_ERROR :: int where "ARGVPARSER_ERROR = -2"
definition ARGVPARSER_EOL :: int where "ARGVPARSER_EOL = -3"
definition ARGVPARSER_UNKNOWN_OPTION :: int where "ARGVPARSER_UNKNOWN_OPTION = -4"

record ArgvParserOptionDescriptor =
  od_shortName :: byte
  od_longName :: cstring
  od_hasParameter :: int
  od_helpParameterName :: cstring
  od_helpText :: cstring

record ArgvParser =
  ap_valid :: ulong
  ap_argc :: int
  ap_argv :: "cstring list option"
  ap_descriptors :: "ArgvParserOptionDescriptor list option"
  ap_ignoreUnknownOptions :: bool
  ap_errorMessage :: "byte list"
  ap_curArgIdx :: int
  ap_curOptIdx :: int
  ap_curParameter :: cstring
  ap_exampleCount :: nat
  ap_examples :: "byte list list"

definition ArgvParser_zero :: ArgvParser where
  "ArgvParser_zero = \<lparr>ap_valid = 0, ap_argc = 0, ap_argv = None, ap_descriptors = None, ap_ignoreUnknownOptions = False,
     ap_errorMessage = replicate 64 0, ap_curArgIdx = 0, ap_curOptIdx = 0, ap_curParameter = None, ap_exampleCount = 0,
     ap_examples = replicate 10 (replicate 80 0)\<rparr>"

subsection \<open>Texts\<close>

definition text_bytes :: "string \<Rightarrow> byte list" where
  "text_bytes s = map of_char s"

text \<open>\<^verbatim>\<open>%s\<close> of a pointer that is not null: its characters.\<close>

definition string_text :: "byte list \<Rightarrow> byte list outcome" where
  "string_text s = omap (\<lambda>n. take n s) (Any_strlen s)"

text \<open>\<^verbatim>\<open>Any_snprintf( message, sizeof( message ) - 1, "... %s", argument )\<close>\<close>

definition error_message :: "string \<Rightarrow> cstring \<Rightarrow> byte list \<Rightarrow> byte list outcome" where
  "error_message txt arg message =
     (case arg of None \<Rightarrow> Fault | Some s \<Rightarrow>
      obind (string_text s) (\<lambda>s.
      let out = take (length message - 2) (text_bytes txt @ s) @ [0] in
      Ok (out @ drop (length out) message)))"

text \<open>\<^verbatim>\<open>strcmp( s, t ) == 0\<close>\<close>

fun strcmp_eq :: "byte list \<Rightarrow> byte list \<Rightarrow> bool outcome" where
  "strcmp_eq (x # s) (y # t) = (if x \<noteq> y then Ok False else if x = 0 then Ok True else strcmp_eq s t)"
| "strcmp_eq _ _ = Fault"

subsection \<open>Creating and setting up\<close>

definition ArgvParser_new :: "nat \<Rightarrow> (ArgvParser owned \<times> nat) outcome" where
  "ArgvParser_new mem =
     (let (self, mem) = ANY_TALLOC ArgvParser_zero mem in ANY_REQUIRE (self \<noteq> Null) (Ok (self, mem)))"

definition ArgvParser_init :: "ArgvParser owned \<Rightarrow> (int \<times> ArgvParser owned) outcome" where
  "ArgvParser_init self = require_ptr self (\<lambda>_.
     Ok (0, Own (ArgvParser_zero\<lparr>ap_argc := -1, ap_argv := None, ap_descriptors := None, ap_ignoreUnknownOptions := False,
       ap_errorMessage := (ap_errorMessage ArgvParser_zero)[0 := 0], ap_exampleCount := 0, ap_valid := ARGVPARSER_INIT\<rparr>)))"

definition requires_init :: "ArgvParser owned \<Rightarrow> (ArgvParser \<Rightarrow> 'b outcome) \<Rightarrow> 'b outcome" where
  "requires_init self k = require_ptr self (\<lambda>s. ANY_REQUIRE (ap_valid s = ARGVPARSER_INIT) (k s))"

definition requires_valid :: "ArgvParser owned \<Rightarrow> (ArgvParser \<Rightarrow> 'b outcome) \<Rightarrow> 'b outcome" where
  "requires_valid self k = require_ptr self (\<lambda>s. ANY_REQUIRE (ap_valid s = ARGVPARSER_VALID) (k s))"

definition requires_either :: "ArgvParser owned \<Rightarrow> (ArgvParser \<Rightarrow> 'b outcome) \<Rightarrow> 'b outcome" where
  "requires_either self k = require_ptr self (\<lambda>s.
     ANY_REQUIRE (ap_valid s = ARGVPARSER_INIT \<or> ap_valid s = ARGVPARSER_VALID) (k s))"

definition ArgvParser_clear :: "ArgvParser owned \<Rightarrow> ArgvParser owned outcome" where
  "ArgvParser_clear self = requires_either self (\<lambda>s. Ok (Own (ArgvParser_zero\<lparr>ap_valid := ARGVPARSER_INVALID\<rparr>)))"

definition ArgvParser_delete :: "ArgvParser owned \<Rightarrow> ArgvParser owned outcome" where
  "ArgvParser_delete self = ANY_REQUIRE (self \<noteq> Null) (ANY_FREE self)"

definition ArgvParser_setArguments :: "int \<Rightarrow> cstring list option \<Rightarrow> ArgvParser owned \<Rightarrow> ArgvParser owned outcome" where
  "ArgvParser_setArguments argc argv self = requires_init self (\<lambda>s.
     ANY_REQUIRE (argc \<ge> 0) (ANY_REQUIRE (argv \<noteq> None) (Ok (Own (s\<lparr>ap_argc := argc, ap_argv := argv\<rparr>)))))"

definition ArgvParser_getNumberOfArguments :: "ArgvParser owned \<Rightarrow> int outcome" where
  "ArgvParser_getNumberOfArguments self = requires_either self (\<lambda>s. Ok (ap_argc s))"

text \<open>\<^verbatim>\<open>self->argv[ i ]\<close>\<close>

definition argument_at :: "ArgvParser \<Rightarrow> int \<Rightarrow> cstring outcome" where
  "argument_at s i = (case ap_argv s of None \<Rightarrow> Fault | Some as \<Rightarrow>
     defined_if (0 \<le> i \<and> i < int (length as)) (Ok (as ! nat i)))"

definition ArgvParser_getArgument :: "int \<Rightarrow> ArgvParser owned \<Rightarrow> cstring outcome" where
  "ArgvParser_getArgument idx self = requires_either self (\<lambda>s.
     ANY_REQUIRE (0 \<le> idx \<and> idx < ap_argc s) (argument_at s idx))"

definition ArgvParser_setOptionDescriptors ::
  "ArgvParserOptionDescriptor list option \<Rightarrow> ArgvParser owned \<Rightarrow> ArgvParser owned outcome" where
  "ArgvParser_setOptionDescriptors dtors self = requires_init self (\<lambda>s.
     ANY_REQUIRE (dtors \<noteq> None) (Ok (Own (s\<lparr>ap_descriptors := dtors\<rparr>))))"

definition ArgvParser_AreUnknownOptionsIgnored :: "ArgvParser owned \<Rightarrow> bool outcome" where
  "ArgvParser_AreUnknownOptionsIgnored self = requires_either self (\<lambda>s. Ok (ap_ignoreUnknownOptions s))"

definition ArgvParser_setIgnoreUnknownOptions :: "bool \<Rightarrow> ArgvParser owned \<Rightarrow> ArgvParser owned outcome" where
  "ArgvParser_setIgnoreUnknownOptions flag self = requires_either self (\<lambda>s.
     Ok (Own (s\<lparr>ap_ignoreUnknownOptions := flag\<rparr>)))"

definition ArgvParser_hasErrorOccurred :: "ArgvParser owned \<Rightarrow> bool outcome" where
  "ArgvParser_hasErrorOccurred self = requires_either self (\<lambda>s. peek (ap_errorMessage s) (\<lambda>c. Ok (c \<noteq> 0)))"

definition ArgvParser_getErrorMessage :: "ArgvParser owned \<Rightarrow> byte list outcome" where
  "ArgvParser_getErrorMessage self = requires_either self (\<lambda>s. Ok (ap_errorMessage s))"

subsection \<open>Going through the arguments\<close>

definition last_descriptor :: "ArgvParserOptionDescriptor \<Rightarrow> bool" where
  "last_descriptor d \<longleftrightarrow> od_shortName d = 0 \<and> od_longName d = None"

text \<open>The two searches leave the index as it was when no descriptor has the name.\<close>

fun short_loop :: "byte \<Rightarrow> ArgvParserOptionDescriptor list \<Rightarrow> int \<Rightarrow> int \<Rightarrow> int outcome" where
  "short_loop option [] i curOptIdx = Fault"
| "short_loop option (d # ds) i curOptIdx =
     (if last_descriptor d then Ok curOptIdx
      else if option = od_shortName d then Ok i else short_loop option ds (i + 1) curOptIdx)"

fun long_loop :: "byte list \<Rightarrow> ArgvParserOptionDescriptor list \<Rightarrow> int \<Rightarrow> int \<Rightarrow> int outcome" where
  "long_loop option [] i curOptIdx = Fault"
| "long_loop option (d # ds) i curOptIdx =
     (if last_descriptor d then Ok curOptIdx
      else obind (case od_longName d of None \<Rightarrow> Ok False | Some l \<Rightarrow> strcmp_eq option l) (\<lambda>eq.
           if eq then Ok i else long_loop option ds (i + 1) curOptIdx))"

definition descriptors_of :: "ArgvParser \<Rightarrow> (ArgvParserOptionDescriptor list \<Rightarrow> 'b outcome) \<Rightarrow> 'b outcome" where
  "descriptors_of s k = (case ap_descriptors s of None \<Rightarrow> Fault | Some ds \<Rightarrow> k ds)"

definition descriptor_at :: "ArgvParser \<Rightarrow> int \<Rightarrow> ArgvParserOptionDescriptor outcome" where
  "descriptor_at s i = descriptors_of s (\<lambda>ds. defined_if (0 \<le> i \<and> i < int (length ds)) (Ok (ds ! nat i)))"

definition argv_fail :: "string \<Rightarrow> int \<Rightarrow> ArgvParser \<Rightarrow> (bool \<times> ArgvParser) outcome" where
  "argv_fail txt i s =
     obind (argument_at s i) (\<lambda>arg.
     obind (error_message txt arg (ap_errorMessage s)) (\<lambda>msg.
     Ok (False, s\<lparr>ap_errorMessage := msg, ap_curOptIdx := ARGVPARSER_ERROR\<rparr>)))"

text \<open>\<^verbatim>\<open>currentArg != NULL && currentArg[ 0 ] == '-' && currentArg[ 1 ] != 0\<close>\<close>

definition is_option :: "cstring \<Rightarrow> bool outcome" where
  "is_option arg = (case arg of None \<Rightarrow> Ok False | Some a \<Rightarrow>
     obind (char_at a 0) (\<lambda>c. if c = 45 then obind (char_at a 1) (\<lambda>d. Ok (d \<noteq> 0)) else Ok False))"

text \<open>What follows the search for the option.\<close>

definition after_search :: "cstring \<Rightarrow> ArgvParser \<Rightarrow> (bool \<times> ArgvParser) outcome" where
  "after_search currentArg s =
     (if ap_curOptIdx s \<ge> 0
      then obind (descriptor_at s (ap_curOptIdx s)) (\<lambda>d.
           if od_hasParameter d \<noteq> ARGVPARSER_NO_PARAMETER
           then let s = s\<lparr>ap_curArgIdx := ap_curArgIdx s + 1\<rparr> in
                if ap_curArgIdx s < ap_argc s
                then obind (argument_at s (ap_curArgIdx s)) (\<lambda>p. Ok (True, s\<lparr>ap_curParameter := p\<rparr>))
                else argv_fail ''argument required for '' (ap_curArgIdx s - 1) s
           else Ok (True, s))
      else if ap_ignoreUnknownOptions s then Ok (True, s\<lparr>ap_curParameter := currentArg\<rparr>)
      else argv_fail ''unknown option '' (ap_curArgIdx s) s)"

text \<open>The current argument: an option or another argument.\<close>

definition examine :: "cstring \<Rightarrow> ArgvParser \<Rightarrow> (bool \<times> ArgvParser) outcome" where
  "examine currentArg s =
     obind (is_option currentArg) (\<lambda>opt.
     case (if opt then currentArg else None) of
       None \<Rightarrow> Ok (True, s\<lparr>ap_curParameter := currentArg\<rparr>)
     | Some a \<Rightarrow>
       obind (char_at a 1) (\<lambda>option.
       if option \<noteq> 45
       then obind (char_at a 2) (\<lambda>more.
            if more \<noteq> 0 then argv_fail ''more than one option in '' (ap_curArgIdx s) s
            else obind (descriptors_of s (\<lambda>ds. short_loop option ds 0 (ap_curOptIdx s))) (\<lambda>i.
                 after_search currentArg (s\<lparr>ap_curOptIdx := i\<rparr>)))
       else obind (at_offset a 2 (\<lambda>name. descriptors_of s (\<lambda>ds. long_loop name ds 0 (ap_curOptIdx s)))) (\<lambda>i.
            after_search currentArg (s\<lparr>ap_curOptIdx := i\<rparr>))))"

definition ArgvParser_advance :: "ArgvParser owned \<Rightarrow> (bool \<times> ArgvParser owned) outcome" where
  "ArgvParser_advance self = requires_valid self (\<lambda>s.
     omap (\<lambda>(r, s). (r, Own s))
     (let s = s\<lparr>ap_curParameter := None, ap_curArgIdx := ap_curArgIdx s + 1\<rparr> in
      if ap_curArgIdx s \<ge> ap_argc s then Ok (False, s\<lparr>ap_curOptIdx := ARGVPARSER_EOL\<rparr>)
      else let s = s\<lparr>ap_curOptIdx := ARGVPARSER_NO_OPTION, ap_curParameter := None\<rparr> in
        obind (argument_at s (ap_curArgIdx s)) (\<lambda>currentArg. examine currentArg s)))"

definition ArgvParser_setup :: "ArgvParser owned \<Rightarrow> (int \<times> ArgvParser owned) outcome" where
  "ArgvParser_setup self = requires_init self (\<lambda>s.
     if ap_argc s < 0 \<or> ap_argv s = None \<or> ap_descriptors s = None then Ok (-1, self)
     else let s = s\<lparr>ap_curArgIdx := -1, ap_curOptIdx := ARGVPARSER_NO_OPTION, ap_valid := ARGVPARSER_VALID\<rparr> in
       obind (ArgvParser_advance (Own s)) (\<lambda>(_, self).
       obind (ArgvParser_hasErrorOccurred self) (\<lambda>error.
       Ok (if error then -1 else 0, self))))"

definition ArgvParser_initAndSetup :: "int \<Rightarrow> cstring list option \<Rightarrow> ArgvParserOptionDescriptor list option \<Rightarrow>
    ArgvParser owned \<Rightarrow> (int \<times> ArgvParser owned) outcome" where
  "ArgvParser_initAndSetup argc argv dtors self =
     obind (ArgvParser_init self) (\<lambda>(result, self).
     if result \<noteq> 0 then Ok (result, self)
     else obind (ArgvParser_setArguments argc argv self) (\<lambda>self.
          obind (ArgvParser_setOptionDescriptors dtors self) (\<lambda>self.
          obind (ArgvParser_setup self) (\<lambda>(result, self).
          if result \<noteq> 0 then obind (ArgvParser_clear self) (\<lambda>self. Ok (result, self))
          else Ok (result, self)))))"

text \<open>The result, and what is stored behind the three pointers.\<close>

definition ArgvParser_getCurrentArgument :: "ArgvParser owned \<Rightarrow> (int \<times> byte \<times> cstring \<times> cstring) outcome" where
  "ArgvParser_getCurrentArgument self = requires_valid self (\<lambda>s.
     obind (if ap_curOptIdx s \<ge> 0
            then obind (descriptor_at s (ap_curOptIdx s)) (\<lambda>d. Ok (od_shortName d, od_longName d))
            else Ok (0, None)) (\<lambda>(short, long).
     Ok (ap_curOptIdx s, short, long, ap_curParameter s)))"

subsection \<open>Help\<close>

definition spaces :: "int \<Rightarrow> byte list" where
  "spaces n = replicate (nat n) 32"

text \<open>The line of one option.\<close>

definition help_line :: "int \<Rightarrow> ArgvParserOptionDescriptor \<Rightarrow> byte list outcome" where
  "help_line indentation d =
     obind (if od_shortName d \<noteq> 0
            then Ok (text_bytes ''-'' @ [od_shortName d] @ (if od_longName d \<noteq> None then text_bytes ''  '' else []))
            else Ok []) (\<lambda>short.
     obind (case od_longName d of None \<Rightarrow> Ok ([], 25)
            | Some l \<Rightarrow> omap (\<lambda>t. (text_bytes ''--'' @ t, 25 - int (length t))) (string_text l)) (\<lambda>(long, n).
     obind (if od_hasParameter d \<noteq> ARGVPARSER_NO_PARAMETER
            then case od_helpParameterName d of
              None \<Rightarrow> Ok (text_bytes '' param'', n)
            | Some p \<Rightarrow> omap (\<lambda>t. (text_bytes '' '' @ t, n - int (length t))) (string_text p)
            else Ok ([], n + 1)) (\<lambda>(param, n).
     obind (case od_helpText d of None \<Rightarrow> Ok [] | Some h \<Rightarrow> string_text h) (\<lambda>help.
     Ok (spaces indentation @ short @ long @ param @ spaces n @ help @ [10])))))"

fun help_loop :: "int \<Rightarrow> ArgvParserOptionDescriptor list \<Rightarrow> byte list outcome" where
  "help_loop indentation [] = Fault"
| "help_loop indentation (d # ds) =
     (if last_descriptor d then Ok []
      else obind (help_line indentation d) (\<lambda>line. omap ((@) line) (help_loop indentation ds)))"

definition ArgvParser_displayOptionHelp :: "int \<Rightarrow> ArgvParser owned \<Rightarrow> byte list outcome" where
  "ArgvParser_displayOptionHelp indentation self = requires_valid self (\<lambda>s. descriptors_of s (help_loop indentation))"

definition ArgvParser_addExample :: "cstring \<Rightarrow> ArgvParser owned \<Rightarrow> ArgvParser owned outcome" where
  "ArgvParser_addExample command self = requires_valid self (\<lambda>s.
     ANY_REQUIRE (ap_exampleCount s < 10)
     (case command of None \<Rightarrow> Fault | Some c \<Rightarrow>
      obind (Any_strlen c) (\<lambda>n. ANY_REQUIRE (n < 80)
      (obind (Any_strncpy (ap_examples s ! ap_exampleCount s) c 79) (\<lambda>e.
       Ok (Own (s\<lparr>ap_examples := (ap_examples s)[ap_exampleCount s := e],
                  ap_exampleCount := ap_exampleCount s + 1\<rparr>)))))))"

fun example_lines :: "byte list list \<Rightarrow> byte list outcome" where
  "example_lines [] = Ok []"
| "example_lines (e # es) = obind (string_text e) (\<lambda>t. omap (\<lambda>r. spaces 10 @ t @ 10 # r) (example_lines es))"

definition ArgvParser_showHelp :: "cstring \<Rightarrow> cstring \<Rightarrow> cstring \<Rightarrow> ArgvParser owned \<Rightarrow> byte list outcome" where
  "ArgvParser_showHelp programDescription usageSyntax bugtrackURL self = requires_valid self (\<lambda>s.
     require_str programDescription (\<lambda>d. require_str usageSyntax (\<lambda>u.
     obind (string_text u) (\<lambda>u. ANY_REQUIRE (length u < 70)
     (require_str bugtrackURL (\<lambda>b.
      obind (string_text b) (\<lambda>b. ANY_REQUIRE (length b < 50)
      (obind (string_text d) (\<lambda>d.
       obind (ArgvParser_displayOptionHelp 10 self) (\<lambda>options.
       obind (if ap_exampleCount s > 0
              then omap (\<lambda>r. 10 # text_bytes ''Examples:'' @ 10 # r) (example_lines (take (ap_exampleCount s) (ap_examples s)))
              else Ok []) (\<lambda>examples.
       Ok (10 # d @ [10, 10] @ text_bytes ''Usage:    '' @ u @ [10] @ text_bytes ''Options:'' @ [10] @ options @ examples @
           10 # text_bytes ''Please report bugs on JIRA ('' @ b @ text_bytes '').'' @ [10]))))))))))))"

end
