(* ===== verification/Argv_Parser_Correct.thy ===== *)
theory Argv_Parser_Correct
  imports Argv_Parser U_String_Correct
begin

text \<open>
  The parser of command lines against a grammar: \<open>parse\<close> reads a list of arguments into items and the error
  that ends it, if any. Setting up the parser and going on from argument to argument gives exactly these
  items, and ends after as many steps as there are arguments.
\<close>

subsection \<open>The grammar\<close>

datatype arg_item = Argument "byte list" | Known nat "byte list option" | Skipped "byte list"

fun position_of :: "('a \<Rightarrow> bool) \<Rightarrow> 'a list \<Rightarrow> nat option" where
  "position_of P [] = None"
| "position_of P (x # xs) = (if P x then Some 0 else map_option Suc (position_of P xs))"

lemma position_of_Some: "position_of P xs = Some k \<Longrightarrow> k < length xs \<and> P (xs ! k)"
  by (induction xs arbitrary: k) (auto split: if_splits)

definition long_is :: "byte list \<Rightarrow> ArgvParserOptionDescriptor \<Rightarrow> bool" where
  "long_is name d \<longleftrightarrow> (case od_longName d of None \<Rightarrow> False | Some l \<Rightarrow> takeWhile (\<lambda>b. b \<noteq> 0) l = name)"

text \<open>An option with its parameter, if it takes one, or an unknown one; the arguments that are left.\<close>

definition next_option :: "ArgvParserOptionDescriptor list \<Rightarrow> bool \<Rightarrow> byte list \<Rightarrow> byte list list \<Rightarrow> nat option \<Rightarrow>
    (string \<times> byte list) + (arg_item \<times> byte list list)" where
  "next_option ds ignore a as found = (case found of
     None \<Rightarrow> if ignore then Inr (Skipped a, as) else Inl (''unknown option '', a)
   | Some k \<Rightarrow>
       if od_hasParameter (ds ! k) = ARGVPARSER_NO_PARAMETER then Inr (Known k None, as)
       else case as of [] \<Rightarrow> Inl (''argument required for '', a) | b # bs \<Rightarrow> Inr (Known k (Some b), bs))"

definition next_item :: "ArgvParserOptionDescriptor list \<Rightarrow> bool \<Rightarrow> byte list \<Rightarrow> byte list list \<Rightarrow>
    (string \<times> byte list) + (arg_item \<times> byte list list)" where
  "next_item ds ignore a as = (case a of
     x # c # name \<Rightarrow>
       if x \<noteq> 45 then Inr (Argument a, as)
       else if c = 45 then next_option ds ignore a as (position_of (long_is name) ds)
       else if name \<noteq> [] then Inl (''more than one option in '', a)
       else next_option ds ignore a as (position_of (\<lambda>d. c = od_shortName d) ds)
   | _ \<Rightarrow> Inr (Argument a, as))"

lemma next_item_shorter: "next_item ds ignore a as = Inr (x, bs) \<Longrightarrow> length bs \<le> length as \<and> suffix bs as"
  by (auto simp: next_item_def next_option_def suffix_Cons split: list.splits option.splits if_splits)

function parse :: "ArgvParserOptionDescriptor list \<Rightarrow> bool \<Rightarrow> byte list list \<Rightarrow>
    arg_item list \<times> (string \<times> byte list) option" where
  "parse ds ignore [] = ([], None)"
| "parse ds ignore (a # as) = (case next_item ds ignore a as of
     Inl e \<Rightarrow> ([], Some e)
   | Inr (x, bs) \<Rightarrow> let (xs, e) = parse ds ignore bs in (x # xs, e))"
  by pat_completeness auto
termination
  by (relation "measure (\<lambda>(ds, ignore, as). length as)") (auto dest!: next_item_shorter simp: less_Suc_eq_le)

text \<open>What \<^verbatim>\<open>ArgvParser_getCurrentArgument\<close> says about an item, for arguments that fill their arrays.\<close>

definition arg_ptr :: "byte list \<Rightarrow> cstring" where
  "arg_ptr a = Some (str a [])"

fun view :: "ArgvParserOptionDescriptor list \<Rightarrow> arg_item \<Rightarrow> int \<times> byte \<times> cstring \<times> cstring" where
  "view ds (Argument a) = (ARGVPARSER_NO_OPTION, 0, None, arg_ptr a)"
| "view ds (Skipped a) = (ARGVPARSER_NO_OPTION, 0, None, arg_ptr a)"
| "view ds (Known k p) = (int k, od_shortName (ds ! k), od_longName (ds ! k), Option.bind p arg_ptr)"

text \<open>The loop of a program around the parser: it looks at the current argument and goes on, until the end or
  an error.\<close>

fun drain :: "nat \<Rightarrow> ArgvParser owned \<Rightarrow> ((int \<times> byte \<times> cstring \<times> cstring) list \<times> ArgvParser owned) outcome" where
  "drain 0 self = Stuck"
| "drain (Suc n) self =
     obind (ArgvParser_getCurrentArgument self) (\<lambda>cur.
     if fst cur = ARGVPARSER_EOL \<or> fst cur = ARGVPARSER_ERROR then Ok ([], self)
     else obind (ArgvParser_advance self) (\<lambda>(_, self).
          omap (\<lambda>(xs, self). (cur # xs, self)) (drain n self)))"

subsection \<open>One step\<close>

definition well_named :: "ArgvParserOptionDescriptor list \<Rightarrow> bool" where
  "well_named ds \<longleftrightarrow> (\<forall>d \<in> set ds. \<not> last_descriptor d \<and> (\<forall>l. od_longName d = Some l \<longrightarrow> 0 \<in> set l))"

lemma str_of_cstring:
  assumes "0 \<in> set l"
  obtains n j where "l = str n j" "chars n" "takeWhile (\<lambda>b. b \<noteq> 0) l = n"
proof -
  from split_list_first [OF assms] obtain n j where "l = n @ 0 # j" "0 \<notin> set n" by blast
  then show thesis by (intro that [of n j]) (auto simp: str_def chars_def takeWhile_str)
qed

lemma strcmp_eq_ok: "chars s \<Longrightarrow> chars t \<Longrightarrow> strcmp_eq (str s j) (str t j') = Ok (s = t)"
proof (induction s arbitrary: t)
  case Nil
  then show ?case by (cases t) (auto simp: str_def)
next
  case (Cons x s)
  then show ?case by (cases t) (auto simp: str_def)
qed

lemma short_loop_ok:
  assumes "\<forall>d \<in> set ds. \<not> last_descriptor d" and "last_descriptor d0"
  shows "short_loop c (ds @ d0 # rest) i cur =
    Ok (case position_of (\<lambda>d. c = od_shortName d) ds of None \<Rightarrow> cur | Some k \<Rightarrow> i + int k)"
  using assms by (induction ds arbitrary: i) (auto split: option.splits)

lemma long_loop_ok:
  assumes "well_named ds" and "last_descriptor d0" and "chars name"
  shows "long_loop (str name j) (ds @ d0 # rest) i cur =
    Ok (case position_of (long_is name) ds of None \<Rightarrow> cur | Some k \<Rightarrow> i + int k)"
  using assms(1)
proof (induction ds arbitrary: i)
  case Nil
  with assms(2) show ?case by simp
next
  case (Cons d ds)
  then have wn: "well_named ds" "\<not> last_descriptor d" by (auto simp: well_named_def)
  have "(case od_longName d of None \<Rightarrow> Ok False | Some l \<Rightarrow> strcmp_eq (str name j) l) = Ok (long_is name d)"
  proof (cases "od_longName d")
    case None
    then show ?thesis by (simp add: long_is_def)
  next
    case (Some l)
    with Cons.prems have "0 \<in> set l" by (auto simp: well_named_def)
    then obtain n j' where "l = str n j'" "chars n" "takeWhile (\<lambda>b. b \<noteq> 0) l = n" by (rule str_of_cstring)
    with Some assms(3) show ?thesis by (auto simp: long_is_def strcmp_eq_ok)
  qed
  with wn Cons.IH [OF wn(1)] show ?case by (auto split: option.splits)
qed

text \<open>The parser on the way: \<open>i\<close> arguments have been passed.\<close>

definition parsing :: "ArgvParserOptionDescriptor list \<Rightarrow> bool \<Rightarrow> byte list list \<Rightarrow> nat \<Rightarrow> ArgvParser \<Rightarrow> bool" where
  "parsing ds ignore args i s \<longleftrightarrow>
     ap_valid s = ARGVPARSER_VALID \<and> ap_argc s = int (length args) \<and> ap_ignoreUnknownOptions s = ignore \<and>
     (\<exists>rest. ap_argv s = Some (map arg_ptr args @ rest)) \<and>
     (\<exists>d0 rest. ap_descriptors s = Some (ds @ d0 # rest) \<and> last_descriptor d0) \<and>
     length (ap_errorMessage s) = 64 \<and> ap_curArgIdx s = int i - 1"

definition well_formed :: "ArgvParserOptionDescriptor list \<Rightarrow> byte list list \<Rightarrow> bool" where
  "well_formed ds args \<longleftrightarrow> well_named ds \<and> (\<forall>a \<in> set args. chars a)"

text \<open>The text of an error, as far as it fits into the field of the parser.\<close>

definition message :: "string \<times> byte list \<Rightarrow> byte list" where
  "message e = take 62 (text_bytes (fst e) @ snd e)"

lemma string_text_str: "chars m \<Longrightarrow> string_text (str m j) = Ok m"
  by (simp add: string_text_def) (simp add: str_def)

lemma error_message_ok:
  assumes "chars a" and "length msg = 64"
  shows "error_message txt (arg_ptr a) msg = Ok (str (message (txt, a)) (drop (Suc (length (message (txt, a)))) msg))"
  using assms by (simp add: error_message_def arg_ptr_def string_text_str message_def Let_def) (simp add: str_def)

lemma argument_at_ok:
  assumes "ap_argv s = Some (map arg_ptr args @ rest)" and "i < length args"
  shows "argument_at s (int i) = Ok (arg_ptr (args ! i))"
  using assms by (simp add: argument_at_def nth_append)

text \<open>The state after an item and after an error.\<close>

definition moved :: "ArgvParserOptionDescriptor list \<Rightarrow> bool \<Rightarrow> byte list list \<Rightarrow>
    (string \<times> byte list) + (arg_item \<times> byte list list) \<Rightarrow> bool \<Rightarrow> ArgvParser \<Rightarrow> ArgvParser \<Rightarrow> bool" where
  "moved ds ignore args r ok s s' \<longleftrightarrow> (case r of
     Inl e \<Rightarrow> \<not> ok \<and> ap_curOptIdx s' = ARGVPARSER_ERROR \<and> ap_valid s' = ARGVPARSER_VALID \<and>
       (\<exists>j. ap_errorMessage s' = str (message e) j) \<and> length (ap_errorMessage s') = 64
   | Inr (x, bs) \<Rightarrow> ok \<and> parsing ds ignore args (length args - length bs) s' \<and> ap_errorMessage s' = ap_errorMessage s \<and>
       ArgvParser_getCurrentArgument (Own s') = Ok (view ds x))"

lemma moved_error:
  "ap_errorMessage s = ap_errorMessage t \<Longrightarrow> moved ds ignore args r ok s s' = moved ds ignore args r ok t s'"
  by (cases r) (auto simp: moved_def)

lemma parsing_fields:
  assumes "parsing ds ignore args i s"
  obtains r1 d0 r2 where "ap_valid s = ARGVPARSER_VALID" "ap_argc s = int (length args)" "ap_ignoreUnknownOptions s = ignore"
    "ap_argv s = Some (map arg_ptr args @ r1)" "ap_descriptors s = Some (ds @ d0 # r2)" "last_descriptor d0"
    "length (ap_errorMessage s) = 64" "ap_curArgIdx s = int i - 1"
  using assms by (auto simp: parsing_def)

lemma descriptor_at_ok:
  "ap_descriptors s = Some (ds @ rest) \<Longrightarrow> k < length ds \<Longrightarrow> descriptor_at s (int k) = Ok (ds ! k)"
  by (simp add: descriptor_at_def descriptors_of_def nth_append)

text \<open>A failure with a message about the argument at \<open>i\<close>.\<close>

lemma argv_fail_ok:
  assumes "ap_argv s = Some (map arg_ptr args @ r1)" and "i < length args" and "chars (args ! i)"
    and "length (ap_errorMessage s) = 64" and "ap_valid s = ARGVPARSER_VALID"
  shows "\<exists>s'. argv_fail txt (int i) s = Ok (False, s') \<and> moved ds ignore args' (Inl (txt, args ! i)) False t s'"
proof -
  note arg = argument_at_ok [OF assms(1,2)] and msg = error_message_ok [OF assms(3,4), of "txt"]
  have "length (str (message (txt, args ! i)) (drop (Suc (length (message (txt, args ! i)))) (ap_errorMessage s))) = 64"
    using assms(4) by (simp add: str_def message_def)
  with arg msg assms(5) show ?thesis by (auto simp: argv_fail_def moved_def)
qed

lemma after_search_ok:
  assumes wf: "well_formed ds args" and p: "parsing ds ignore args (Suc i) s" and i: "i < length args"
    and cur: "ap_curOptIdx s = (case found of None \<Rightarrow> ARGVPARSER_NO_OPTION | Some k \<Rightarrow> int k)"
    and par: "ap_curParameter s = None" and k: "\<And>k. found = Some k \<Longrightarrow> k < length ds"
  shows "\<exists>ok s'. after_search (arg_ptr (args ! i)) s = Ok (ok, s') \<and>
    moved ds ignore args (next_option ds ignore (args ! i) (drop (Suc i) args) found) ok s s'"
proof -
  from p obtain r1 d0 r2 where f: "ap_valid s = ARGVPARSER_VALID" "ap_argc s = int (length args)"
    "ap_ignoreUnknownOptions s = ignore" "ap_argv s = Some (map arg_ptr args @ r1)"
    "ap_descriptors s = Some (ds @ d0 # r2)" "last_descriptor d0" "length (ap_errorMessage s) = 64" "ap_curArgIdx s = int i"
    by (rule parsing_fields) auto
  have ch: "chars (args ! i)" using wf i by (simp add: well_formed_def)
  have rest: "length args - length (drop (Suc i) args) = Suc i" using i by simp
  show ?thesis
  proof (cases found)
    case None
    show ?thesis
    proof (cases ignore)
      case True
      have "parsing ds ignore args (Suc i) (s\<lparr>ap_curParameter := arg_ptr (args ! i)\<rparr>)" using p by (simp add: parsing_def)
      with None True cur f rest show ?thesis
        by (auto simp: after_search_def next_option_def moved_def ARGVPARSER_NO_OPTION_def ArgvParser_getCurrentArgument_def
            requires_valid_def)
    next
      case False
      from argv_fail_ok [OF f(4) i ch f(7,1), of "''unknown option ''" ds ignore args s] None False cur f show ?thesis
        by (auto simp: after_search_def next_option_def ARGVPARSER_NO_OPTION_def)
    qed
  next
    case (Some n)
    note d = descriptor_at_ok [OF f(5) k [OF Some]]
    show ?thesis
    proof (cases "od_hasParameter (ds ! n) = ARGVPARSER_NO_PARAMETER")
      case True
      with Some cur f(1) par d rest p show ?thesis
        by (auto simp: after_search_def next_option_def moved_def ArgvParser_getCurrentArgument_def requires_valid_def)
    next
      case param: False
      let ?s = "s\<lparr>ap_curArgIdx := int i + 1\<rparr>"
      show ?thesis
      proof (cases "Suc i < length args")
        case True
        have e: "int i + 1 = int (Suc i)" by simp
        have a: "argument_at ?s (int (Suc i)) = Ok (arg_ptr (args ! Suc i))"
          using f(4) True by (intro argument_at_ok) simp_all
        have dr: "drop (Suc i) args = args ! Suc i # drop (Suc (Suc i)) args" using True by (simp add: Cons_nth_drop_Suc)
        have "parsing ds ignore args (Suc (Suc i)) (?s\<lparr>ap_curParameter := arg_ptr (args ! Suc i)\<rparr>)"
          using p by (simp add: parsing_def)
        moreover have "length args - length (drop (Suc (Suc i)) args) = Suc (Suc i)" using True by simp
        moreover have "descriptor_at (?s\<lparr>ap_curParameter := arg_ptr (args ! Suc i)\<rparr>) (int n) = Ok (ds ! n)"
          using f(5) k [OF Some] by (intro descriptor_at_ok) simp_all
        ultimately show ?thesis
          using Some param cur f(1,2,8) d a True
          by (auto simp: after_search_def next_option_def moved_def ArgvParser_getCurrentArgument_def requires_valid_def dr e
              del: of_nat_Suc)
      next
        case False
        have "\<exists>s'. argv_fail ''argument required for '' (int i) ?s = Ok (False, s') \<and>
            moved ds ignore args (Inl (''argument required for '', args ! i)) False s s'"
          using f i ch by (intro argv_fail_ok) simp_all
        with False Some param cur f(2,8) d show ?thesis
          by (auto simp: after_search_def next_option_def)
      qed
    qed
  qed
qed

text \<open>The lookup of an option continues with its parameter.\<close>

lemma list_cases2:
  obtains "a = []" | x where "a = [x]" | x c name where "a = x # c # name"
  by (cases a; cases "tl a") auto

lemma examine_option_ok:
  assumes "well_formed ds args" and "parsing ds ignore args (Suc i) s" and "i < length args"
    and "ap_curParameter s = None" and "\<And>k. found = Some k \<Longrightarrow> k < length ds"
    and "j = (case found of None \<Rightarrow> ARGVPARSER_NO_OPTION | Some k \<Rightarrow> 0 + int k)"
  shows "\<exists>ok s'. after_search (arg_ptr (args ! i)) (s\<lparr>ap_curOptIdx := j\<rparr>) = Ok (ok, s') \<and>
    moved ds ignore args (next_option ds ignore (args ! i) (drop (Suc i) args) found) ok s s'"
proof -
  let ?s = "s\<lparr>ap_curOptIdx := j\<rparr>"
  have "parsing ds ignore args (Suc i) ?s" using assms(2) by (simp add: parsing_def)
  note step = after_search_ok [OF assms(1) this assms(3), where found = found]
  have "ap_curOptIdx ?s = (case found of None \<Rightarrow> ARGVPARSER_NO_OPTION | Some k \<Rightarrow> int k)" "ap_curParameter ?s = None"
    using assms(4,6) by (simp_all split: option.splits)
  from step [OF this assms(5)] obtain ok s' where "after_search (arg_ptr (args ! i)) ?s = Ok (ok, s')"
    "moved ds ignore args (next_option ds ignore (args ! i) (drop (Suc i) args) found) ok ?s s'"
    by blast
  then show ?thesis by (auto simp: moved_error [of ?s s])
qed

lemma examine_ok:
  assumes wf: "well_formed ds args" and p: "parsing ds ignore args (Suc i) s" and i: "i < length args"
    and cur: "ap_curOptIdx s = ARGVPARSER_NO_OPTION" and par: "ap_curParameter s = None"
  shows "\<exists>ok s'. examine (arg_ptr (args ! i)) s = Ok (ok, s') \<and>
    moved ds ignore args (next_item ds ignore (args ! i) (drop (Suc i) args)) ok s s'"
proof -
  let ?a = "args ! i" and ?as = "drop (Suc i) args"
  from p obtain r1 d0 r2 where f: "ap_valid s = ARGVPARSER_VALID" "ap_argc s = int (length args)"
    "ap_ignoreUnknownOptions s = ignore" "ap_argv s = Some (map arg_ptr args @ r1)"
    "ap_descriptors s = Some (ds @ d0 # r2)" "last_descriptor d0" "length (ap_errorMessage s) = 64" "ap_curArgIdx s = int i"
    by (rule parsing_fields) auto
  have ch: "chars ?a" and wn: "well_named ds" using wf i by (simp_all add: well_formed_def)
  have rest: "length args - length ?as = Suc i" using i by simp
  have plain: ?thesis if "is_option (arg_ptr ?a) = Ok False" "next_item ds ignore ?a ?as = Inr (Argument ?a, ?as)"
  proof -
    have "parsing ds ignore args (Suc i) (s\<lparr>ap_curParameter := arg_ptr ?a\<rparr>)" using p by (simp add: parsing_def)
    with that cur f(1) rest show ?thesis
      by (auto simp: examine_def moved_def ArgvParser_getCurrentArgument_def requires_valid_def ARGVPARSER_NO_OPTION_def)
  qed
  show ?thesis
  proof (cases "\<exists>c name. ?a = 45 # c # name")
    case False
    then show ?thesis
      by (intro plain; cases ?a rule: list_cases2)
        (auto simp: is_option_def arg_ptr_def str_def char_at_def next_item_def split: list.splits)
  next
    case True
    then obtain c name where a: "?a = 45 # c # name" by blast
    then have c: "c \<noteq> 0" "chars name" using ch by simp_all
    have opt: "is_option (arg_ptr ?a) = Ok True" "char_at (str ?a []) 1 = Ok c"
      "char_at (str ?a []) 2 = Ok (if name = [] then 0 else hd name)" "arg_ptr ?a = Some (str ?a [])"
      "at_offset (str ?a []) 2 k = k (str name [])" for k :: "byte list \<Rightarrow> int outcome"
      using c(1) by (simp_all add: a is_option_def arg_ptr_def str_def char_at_def at_offset_def) (auto simp: neq_Nil_conv)
    show ?thesis
    proof (cases "c = 45")
      case True
      let ?f = "position_of (long_is name) ds"
      have "examine (arg_ptr ?a) s = after_search (arg_ptr ?a)
          (s\<lparr>ap_curOptIdx := (case ?f of None \<Rightarrow> ARGVPARSER_NO_OPTION | Some k \<Rightarrow> 0 + int k)\<rparr>)"
        using opt True f(5,6) cur long_loop_ok [OF wn f(6) c(2)] by (simp add: examine_def descriptors_of_def)
      moreover have "next_item ds ignore ?a ?as = next_option ds ignore ?a ?as ?f"
        using True by (simp add: next_item_def a)
      moreover note examine_option_ok [OF wf p i par _ refl, of ?f]
      ultimately show ?thesis by (auto dest: position_of_Some)
    next
      case short: False
      show ?thesis
      proof (cases "name = []")
        case True
        let ?f = "position_of (\<lambda>d. c = od_shortName d) ds"
        have "\<forall>d \<in> set ds. \<not> last_descriptor d" using wn by (simp add: well_named_def)
        then have "examine (arg_ptr ?a) s = after_search (arg_ptr ?a)
            (s\<lparr>ap_curOptIdx := (case ?f of None \<Rightarrow> ARGVPARSER_NO_OPTION | Some k \<Rightarrow> 0 + int k)\<rparr>)"
          using opt True short f(5,6) cur short_loop_ok [of ds d0 c r2 0] by (simp add: examine_def descriptors_of_def)
        moreover have "next_item ds ignore ?a ?as = next_option ds ignore ?a ?as ?f"
          using True short by (simp add: next_item_def a)
        moreover note examine_option_ok [OF wf p i par _ refl, of ?f]
        ultimately show ?thesis by (auto dest: position_of_Some)
      next
        case False
        then have "hd name \<noteq> 0" using c(2) by (cases name) simp_all
        with False short opt f(8) have "examine (arg_ptr ?a) s = argv_fail ''more than one option in '' (int i) s"
          by (simp add: examine_def)
        moreover have "next_item ds ignore ?a ?as = Inl (''more than one option in '', ?a)"
          using False short by (simp add: next_item_def a)
        moreover note argv_fail_ok [OF f(4) i ch f(7,1), of "''more than one option in ''" ds ignore args s]
        ultimately show ?thesis by auto
      qed
    qed
  qed
qed

lemma advance_ok:
  assumes wf: "well_formed ds args" and p: "parsing ds ignore args i s" and i: "i < length args"
  shows "\<exists>ok s'. ArgvParser_advance (Own s) = Ok (ok, Own s') \<and>
    moved ds ignore args (next_item ds ignore (args ! i) (drop (Suc i) args)) ok s s'"
proof -
  define s1 where "s1 = s\<lparr>ap_curArgIdx := int i, ap_curOptIdx := ARGVPARSER_NO_OPTION, ap_curParameter := None\<rparr>"
  from p obtain r1 where f: "ap_valid s = ARGVPARSER_VALID" "ap_argc s = int (length args)"
    "ap_argv s = Some (map arg_ptr args @ r1)" "ap_curArgIdx s = int i - 1"
    by (rule parsing_fields)
  have p1: "parsing ds ignore args (Suc i) s1" using p by (simp add: parsing_def s1_def)
  have arg: "argument_at s1 (int i) = Ok (arg_ptr (args ! i))"
    using f(3) i by (intro argument_at_ok) (simp_all add: s1_def)
  have "ArgvParser_advance (Own s) = omap (\<lambda>(r, s). (r, Own s)) (examine (arg_ptr (args ! i)) s1)"
    using f(1,2,4) i arg by (simp add: ArgvParser_advance_def requires_valid_def Let_def s1_def)
  moreover from examine_ok [OF wf p1 i] obtain ok s' where
    "examine (arg_ptr (args ! i)) s1 = Ok (ok, s')"
    "moved ds ignore args (next_item ds ignore (args ! i) (drop (Suc i) args)) ok s1 s'"
    by (auto simp: s1_def)
  ultimately show ?thesis by (auto simp: moved_def s1_def split: sum.splits)
qed

lemma advance_end:
  assumes "parsing ds ignore args i s" and "\<not> i < length args"
  shows "ArgvParser_advance (Own s) =
    Ok (False, Own (s\<lparr>ap_curParameter := None, ap_curArgIdx := int i, ap_curOptIdx := ARGVPARSER_EOL\<rparr>))"
  using assms by (auto simp: parsing_def ArgvParser_advance_def requires_valid_def Let_def)

subsection \<open>The loop over the arguments\<close>

lemma drain_more:
  assumes "drain n self = Ok r" and "n \<le> m"
  shows "drain m self = Ok r"
  using assms
proof (induction n arbitrary: self r m)
  case 0
  then show ?case by simp
next
  case (Suc n)
  then obtain k where m: "m = Suc k" "n \<le> k" by (cases m) auto
  from Suc.prems(1) obtain cur where cur: "ArgvParser_getCurrentArgument self = Ok cur"
    by (auto simp only: drain.simps obind_Ok_iff)
  show ?case
  proof (cases "fst cur = ARGVPARSER_EOL \<or> fst cur = ARGVPARSER_ERROR")
    case True
    with Suc.prems(1) cur m(1) show ?thesis by simp
  next
    case False
    with Suc.prems(1) cur obtain b next_self xs s' where
      n: "ArgvParser_advance self = Ok (b, next_self)" "drain n next_self = Ok (xs, s')" "r = (cur # xs, s')"
      by (simp add: obind_Ok_iff omap_def split_beta) auto
    from Suc.IH [OF n(2) m(2)] n False cur m(1) show ?thesis by simp
  qed
qed

text \<open>The state at the end: the message is the one of the error, or still empty.\<close>

definition ended :: "(string \<times> byte list) option \<Rightarrow> ArgvParser \<Rightarrow> bool" where
  "ended e s \<longleftrightarrow> ap_valid s = ARGVPARSER_VALID \<and>
     (case e of None \<Rightarrow> \<exists>j. ap_errorMessage s = str [] j | Some e \<Rightarrow> \<exists>j. ap_errorMessage s = str (message e) j)"

lemma drain_end: "ap_valid s = ARGVPARSER_VALID \<Longrightarrow> ap_curOptIdx s = ARGVPARSER_EOL \<or> ap_curOptIdx s = ARGVPARSER_ERROR \<Longrightarrow>
    drain (Suc n) (Own s) = Ok ([], Own s)"
  by (auto simp: ArgvParser_getCurrentArgument_def requires_valid_def ARGVPARSER_EOL_def ARGVPARSER_ERROR_def)

lemma view_no_end: "fst (view ds x) \<noteq> ARGVPARSER_EOL \<and> fst (view ds x) \<noteq> ARGVPARSER_ERROR"
  by (cases x) (auto simp: ARGVPARSER_NO_OPTION_def ARGVPARSER_EOL_def ARGVPARSER_ERROR_def)

lemma advance_total:
  assumes "well_formed ds args" and "parsing ds ignore args i s"
  obtains ok s' where "ArgvParser_advance (Own s) = Ok (ok, Own s')"
proof (cases "i < length args")
  case True
  with that advance_ok [OF assms True] show thesis by blast
next
  case False
  with that advance_end [OF assms(2) False] show thesis by blast
qed

lemma drain_ok:
  assumes "well_formed ds args" and "parsing ds ignore args i s" and "ap_errorMessage s = str [] j"
    and "ArgvParser_advance (Own s) = Ok (ok, Own s')"
  shows "\<exists>s''. drain (Suc (length args - i)) (Own s') =
      Ok (map (view ds) (fst (parse ds ignore (drop i args))), Own s'') \<and> ended (snd (parse ds ignore (drop i args))) s''"
  using assms(2-4)
proof (induction "length args - i" arbitrary: i s ok s' rule: less_induct)
  case (less i s ok s')
  show ?case
  proof (cases "i < length args")
    case False
    with advance_end [OF less.prems(1) False] less.prems show ?thesis
      by (auto simp: drain_end ended_def parsing_def simp del: drain.simps)
  next
    case True
    let ?r = "next_item ds ignore (args ! i) (drop (Suc i) args)"
    have parse: "parse ds ignore (drop i args) = (case ?r of Inl e \<Rightarrow> ([], Some e)
        | Inr (x, bs) \<Rightarrow> let (xs, e) = parse ds ignore bs in (x # xs, e))"
      using True by (simp flip: Cons_nth_drop_Suc)
    have moved: "moved ds ignore args ?r ok s s'"
      using advance_ok [OF assms(1) less.prems(1) True] less.prems(3) by auto
    show ?thesis
    proof (cases ?r)
      case (Inl e)
      with moved have "ended (Some e) s'" "drain (Suc (length args - i)) (Own s') = Ok ([], Own s')"
        by (auto simp: moved_def ended_def drain_end simp del: drain.simps)
      with parse Inl show ?thesis by (auto simp del: drain.simps)
    next
      case (Inr xb)
      obtain x bs where xb: "xb = (x, bs)" by force
      define i' where "i' = length args - length bs"
      have "suffix bs (drop (Suc i) args)" "length bs \<le> length args - Suc i"
        using next_item_shorter Inr xb by fastforce+
      then have i': "i < i'" "drop i' args = bs" "length args - i' < length args - i"
        using True by (auto simp: i'_def suffix_def) (metis append_eq_conv_conj append_take_drop_id length_drop append_assoc length_append diff_diff_cancel add_diff_cancel_right')
      have p': "parsing ds ignore args i' s'" "ap_errorMessage s' = str [] j" and
        cur: "ArgvParser_getCurrentArgument (Own s') = Ok (view ds x)"
        using moved Inr xb less.prems(2) by (auto simp: moved_def i'_def)
      obtain ok2 s2 where adv: "ArgvParser_advance (Own s') = Ok (ok2, Own s2)"
        using advance_total [OF assms(1) p'(1)] .
      from less.hyps [OF i'(3) p' adv] i'(2) obtain s'' where
        d: "drain (Suc (length args - i')) (Own s2) = Ok (map (view ds) (fst (parse ds ignore bs)), Own s'')"
        "ended (snd (parse ds ignore bs)) s''" by blast
      have "Suc (length args - i') \<le> length args - i" using i'(3) by simp
      from drain_more [OF d(1) this] d(2) cur adv view_no_end [of ds x] parse Inr xb show ?thesis
        by (auto simp: split_beta)
    qed
  qed
qed

lemma next_item_error: "next_item ds ignore a as = Inl e \<Longrightarrow> chars a \<Longrightarrow> chars (message e) \<and> message e \<noteq> []"
  by (auto simp: next_item_def next_option_def message_def text_bytes_def chars_def
      split: list.splits option.splits if_splits dest!: in_set_takeD)

lemma parse_error:
  "snd (parse ds ignore as) = Some e \<Longrightarrow> \<forall>a \<in> set as. chars a \<Longrightarrow> chars (message e) \<and> message e \<noteq> []"
proof (induction ds ignore as rule: parse.induct)
  case (2 ds ignore a as)
  show ?case
  proof (cases "next_item ds ignore a as")
    case (Inl e')
    with 2(2,3) next_item_error [OF Inl] show ?thesis by simp
  next
    case (Inr xb)
    obtain x bs where xb: "xb = (x, bs)" by force
    with Inr next_item_shorter [of ds ignore a as x bs] have "set bs \<subseteq> set as" by (simp add: set_mono_suffix)
    with 2(2,3) Inr xb 2(1) [OF Inr xb [symmetric]] show ?thesis by (auto simp: split_beta)
  qed
qed simp

lemma ended_flag:
  assumes "ended e s" and "\<And>x. e = Some x \<Longrightarrow> chars (message x) \<and> message x \<noteq> []"
  shows "ArgvParser_hasErrorOccurred (Own s) = Ok (e \<noteq> None)"
    and "e = Some x \<Longrightarrow> obind (ArgvParser_getErrorMessage (Own s)) string_text = Ok (message x)"
proof -
  have flag: "ArgvParser_hasErrorOccurred (Own s) = Ok (m \<noteq> [])"
    if "chars m" "ap_valid s = ARGVPARSER_VALID" "ap_errorMessage s = str m j" for m j
    using that by (cases m) (auto simp: ArgvParser_hasErrorOccurred_def requires_either_def str_def peek_def)
  from assms flag [of "[]"] flag show "ArgvParser_hasErrorOccurred (Own s) = Ok (e \<noteq> None)"
    by (cases e) (auto simp: ended_def)
  from assms show "e = Some x \<Longrightarrow> obind (ArgvParser_getErrorMessage (Own s)) string_text = Ok (message x)"
    by (auto simp: ended_def ArgvParser_getErrorMessage_def requires_either_def string_text_str)
qed

lemma first_step:
  assumes "well_formed ds args" and "parsing ds ignore args 0 s" and "ap_errorMessage s = str [] j"
    and "ArgvParser_advance (Own s) = Ok (ok, Own s')"
  shows "ended (if fst (parse ds ignore args) = [] then snd (parse ds ignore args) else None) s'"
proof (cases args)
  case Nil
  with advance_end [OF assms(2)] assms(2-4) show ?thesis by (auto simp: ended_def parsing_def)
next
  case (Cons a as)
  with advance_ok [OF assms(1,2)] assms(3,4) show ?thesis
    by (auto simp: moved_def ended_def parsing_def split_beta split: sum.splits)
qed

text \<open>A program that creates a parser, gives it its input, and looks at one argument after the other.\<close>

definition parse_all :: "nat \<Rightarrow> int \<Rightarrow> cstring list option \<Rightarrow> ArgvParserOptionDescriptor list option \<Rightarrow> bool \<Rightarrow>
    ArgvParser owned \<Rightarrow> (int \<times> (int \<times> byte \<times> cstring \<times> cstring) list \<times> ArgvParser owned) outcome" where
  "parse_all n argc argv dtors ignore self =
     obind (ArgvParser_init self) (\<lambda>(_, self).
     obind (ArgvParser_setArguments argc argv self) (\<lambda>self.
     obind (ArgvParser_setOptionDescriptors dtors self) (\<lambda>self.
     obind (ArgvParser_setIgnoreUnknownOptions ignore self) (\<lambda>self.
     obind (ArgvParser_setup self) (\<lambda>(result, self).
     omap (\<lambda>(xs, self). (result, xs, self)) (drain n self))))))"

text \<open>C32: Going through the command line with the parser gives exactly the items of the grammar, in their
  order: for every argument whether it is a known option (its descriptor's number and names, and the argument
  that follows as its parameter if it takes one), a plain argument, or an unknown option where those are
  ignored. It ends after at most one step more than there are arguments. An error is reported exactly when
  the grammar ends with one, with the text of that error cut at 62 characters; setting up fails exactly
  when it is the very first argument that is wrong. An unknown option is an error when the flag of
  \<^verbatim>\<open>ArgvParser_setIgnoreUnknownOptions\<close> is false, as it is by default, and none when it is true, as the name says; the
  comment of that function in \<^verbatim>\<open>ArgvParser.h\<close> says it the other way round.\<close>

theorem ArgvParser_follows_grammar:
  assumes wf: "well_formed ds args" and d0: "last_descriptor d0"
  shows "\<exists>s. parse_all (Suc (length args)) (int (length args)) (Some (map arg_ptr args @ r1)) (Some (ds @ d0 # r2)) ignore (Own s0) =
      Ok (if fst (parse ds ignore args) = [] \<and> snd (parse ds ignore args) \<noteq> None then -1 else 0,
          map (view ds) (fst (parse ds ignore args)), Own s) \<and>
    ArgvParser_hasErrorOccurred (Own s) = Ok (snd (parse ds ignore args) \<noteq> None) \<and>
    (\<forall>e. snd (parse ds ignore args) = Some e \<longrightarrow>
      obind (ArgvParser_getErrorMessage (Own s)) string_text = Ok (message e))"
proof -
  let ?p = "parse ds ignore args"
  define s1 where "s1 = ArgvParser_zero\<lparr>ap_valid := ARGVPARSER_VALID, ap_argc := int (length args),
    ap_argv := Some (map arg_ptr args @ r1), ap_descriptors := Some (ds @ d0 # r2), ap_ignoreUnknownOptions := ignore,
    ap_curArgIdx := -1, ap_curOptIdx := ARGVPARSER_NO_OPTION\<rparr>"
  have p1: "parsing ds ignore args 0 s1" using d0 by (auto simp: parsing_def s1_def ArgvParser_zero_def)
  have err: "ap_errorMessage s1 = str [] (replicate 63 0)"
    by (simp add: s1_def ArgvParser_zero_def str_def flip: replicate_Suc)
  obtain ok s2 where adv: "ArgvParser_advance (Own s1) = Ok (ok, Own s2)" using advance_total [OF wf p1] .
  from drain_ok [OF wf p1 err adv] obtain s where
    d: "drain (Suc (length args)) (Own s2) = Ok (map (view ds) (fst ?p), Own s)" "ended (snd ?p) s" by auto
  note good = parse_error [of ds ignore args] wf [unfolded well_formed_def]
  have "ArgvParser_hasErrorOccurred (Own s2) = Ok (fst ?p = [] \<and> snd ?p \<noteq> None)"
    using ended_flag(1) [OF first_step [OF wf p1 err adv]] good by (cases "fst ?p = []") auto
  moreover have "(replicate 64 (0 :: byte))[0 := 0] = replicate 64 0" by (simp add: list_update_same_conv)
  then have "parse_all (Suc (length args)) (int (length args)) (Some (map arg_ptr args @ r1)) (Some (ds @ d0 # r2)) ignore (Own s0) =
      obind (obind (ArgvParser_advance (Own s1)) (\<lambda>(_, self). obind (ArgvParser_hasErrorOccurred self)
        (\<lambda>error. Ok (if error then -1 else 0, self)))) (\<lambda>(result, self). omap (\<lambda>(xs, self). (result, xs, self)) (drain (Suc (length args)) self))"
    by (simp add: parse_all_def ArgvParser_init_def ArgvParser_setArguments_def ArgvParser_setOptionDescriptors_def
        ArgvParser_setIgnoreUnknownOptions_def ArgvParser_setup_def requires_init_def requires_either_def s1_def
        ArgvParser_zero_def del: drain.simps)
  ultimately have "parse_all (Suc (length args)) (int (length args)) (Some (map arg_ptr args @ r1)) (Some (ds @ d0 # r2)) ignore (Own s0) =
      Ok (if fst ?p = [] \<and> snd ?p \<noteq> None then -1 else 0, map (view ds) (fst ?p), Own s)"
    using d(1) adv by (simp del: drain.simps)
  with ended_flag [OF d(2)] good show ?thesis by (intro exI [of _ s]) auto
qed

definition example_descriptors :: "ArgvParserOptionDescriptor list" where
  "example_descriptors =
     [\<lparr>od_shortName = 104, od_longName = Some (str (text_bytes ''help'') []), od_hasParameter = 0,
       od_helpParameterName = None, od_helpText = None\<rparr>,
      \<lparr>od_shortName = 111, od_longName = Some (str (text_bytes ''out'') []), od_hasParameter = 1,
       od_helpParameterName = None, od_helpText = None\<rparr>]"

definition example_end :: ArgvParserOptionDescriptor where
  "example_end = \<lparr>od_shortName = 0, od_longName = None, od_hasParameter = 0, od_helpParameterName = None, od_helpText = None\<rparr>"

definition example_arguments :: "byte list list" where
  "example_arguments = [text_bytes ''prog'', text_bytes ''-h'', text_bytes ''--out'', text_bytes ''x'', text_bytes ''-v'']"

lemma example_parse: "parse example_descriptors False example_arguments =
    ([Argument (text_bytes ''prog''), Known 0 None, Known 1 (Some (text_bytes ''x''))],
     Some (''unknown option '', text_bytes ''-v''))"
  by code_simp

lemma example_well_formed: "well_formed example_descriptors example_arguments \<and> last_descriptor example_end"
  by (simp add: well_formed_def well_named_def last_descriptor_def example_descriptors_def example_end_def str_def
      example_arguments_def text_bytes_def)

theorem ArgvParser_follows_grammar_witness:
  "\<exists>s. parse_all 6 5 (Some (map arg_ptr example_arguments)) (Some (example_descriptors @ [example_end])) False (Own ArgvParser_zero) =
      Ok (0, map (view example_descriptors)
        [Argument (text_bytes ''prog''), Known 0 None, Known 1 (Some (text_bytes ''x''))], Own s) \<and>
    ArgvParser_hasErrorOccurred (Own s) = Ok True \<and>
    obind (ArgvParser_getErrorMessage (Own s)) string_text = Ok (text_bytes ''unknown option -v'')"
proof -
  have n: "length example_arguments = 5" by (simp add: example_arguments_def)
  have m: "message (''unknown option '', text_bytes ''-v'') = text_bytes ''unknown option -v''" by code_simp
  note ArgvParser_follows_grammar [OF example_well_formed [THEN conjunct1] example_well_formed [THEN conjunct2],
      of "[]" "[]" False ArgvParser_zero, unfolded example_parse n, simplified m fst_conv snd_conv]
  then show ?thesis by (simp add: m)
qed

subsection \<open>Unknown options\<close>

text \<open>The value for an unknown option is never reported: where unknown options are ignored, they look like
  plain arguments.\<close>

lemma short_loop_index: "short_loop c ds i cur = Ok j \<Longrightarrow> 0 \<le> i \<Longrightarrow> j = cur \<or> 0 \<le> j"
  by (induction ds arbitrary: i) (fastforce split: if_splits)+

lemma long_loop_index: "long_loop n ds i cur = Ok j \<Longrightarrow> 0 \<le> i \<Longrightarrow> j = cur \<or> 0 \<le> j"
  by (induction ds arbitrary: i) (fastforce simp: obind_Ok_iff split: if_splits)+

lemma argv_fail_index: "argv_fail t i s = Ok (ok, s') \<Longrightarrow> ap_curOptIdx s' = ARGVPARSER_ERROR"
  by (auto simp: argv_fail_def obind_Ok_iff)

lemma after_search_index: "after_search cur s = Ok (ok, s') \<Longrightarrow> ap_curOptIdx s' = ap_curOptIdx s \<or> ap_curOptIdx s' = ARGVPARSER_ERROR"
  by (auto simp: after_search_def obind_Ok_iff Let_def split: if_splits dest!: argv_fail_index)

lemma examine_index:
  assumes "examine cur s = Ok (ok, s')" and "ap_curOptIdx s = ARGVPARSER_NO_OPTION"
  shows "ap_curOptIdx s' \<noteq> ARGVPARSER_UNKNOWN_OPTION"
proof -
  show ?thesis
  proof
    assume u: "ap_curOptIdx s' = ARGVPARSER_UNKNOWN_OPTION"
    from assms(1) consider "ap_curOptIdx s' = ap_curOptIdx s" | "ap_curOptIdx s' = ARGVPARSER_ERROR"
      | j where "j = ap_curOptIdx s \<or> 0 \<le> j" "after_search cur (s\<lparr>ap_curOptIdx := j\<rparr>) = Ok (ok, s')"
      by (auto simp: examine_def obind_Ok_iff descriptors_of_def at_offset_def defined_if_Ok_iff split: if_splits option.splits
          dest!: argv_fail_index dest: short_loop_index long_loop_index)
    then show False
      using u assms(2) after_search_index [of cur "s\<lparr>ap_curOptIdx := j\<rparr>" ok s' for j]
      by cases (fastforce simp: ARGVPARSER_NO_OPTION_def ARGVPARSER_UNKNOWN_OPTION_def ARGVPARSER_ERROR_def)+
  qed
qed

end
