(* ===== verification/IO_Format.thy ===== *)
theory IO_Format
  imports IO_Channel
begin

text \<open>
  The formatted output and input of \<^verbatim>\<open>IOChannel\<close> (src/src/IOChannel.c: \<^verbatim>\<open>IOChannel_printf\<close>,
  \<^verbatim>\<open>IOChannel_scanf\<close> and their helpers).

  A format is a list of characters without its terminator; running over the terminator is a
  fault. Unlike those of \<^verbatim>\<open>printf\<close>, the arguments are pointers to the values, so an
  argument is the object behind the pointer: a number of a C type, a character, a string
  with its terminator, the null pointer. An argument of another type than the conversion
  asks for is undefined in C and a fault here. What the C library alone decides (the digits
  of floating point numbers and addresses) is the parameter \<open>E\<close>, the text that \<^verbatim>\<open>snprintf\<close>
  gives for a conversion and the bits of a value.
\<close>

subsection \<open>Characters and numbers\<close>

abbreviation asc :: "char \<Rightarrow> byte" where "asc c \<equiv> of_char c"

definition ascii :: "string \<Rightarrow> byte list" where
  "ascii s = map of_char s"

definition IOCHANNEL_ISPRINT :: "byte \<Rightarrow> bool" where
  "IOCHANNEL_ISPRINT ch \<longleftrightarrow> 32 \<le> ch \<and> ch \<le> 126"

definition IOCHANNEL_ISDIGIT :: "byte \<Rightarrow> bool" where
  "IOCHANNEL_ISDIGIT ch \<longleftrightarrow> 48 \<le> ch \<and> ch \<le> 57"

definition IOCHANNEL_ISSPACE :: "byte \<Rightarrow> bool" where
  "IOCHANNEL_ISSPACE ch \<longleftrightarrow> ch = 32 \<or> ch = 9 \<or> ch = 13 \<or> ch = 10 \<or> ch = 11"

definition IOCHANNEL_ISFLOATALLOWED :: "bool \<Rightarrow> byte \<Rightarrow> bool" where
  "IOCHANNEL_ISFLOATALLOWED isFloat ch \<longleftrightarrow> isFloat \<and> (ch = 43 \<or> ch = 45 \<or> ch = 101 \<or> ch = 46)"

text \<open>The digits the C library prints.\<close>

fun decimal :: "nat \<Rightarrow> byte list" where
  "decimal n = (if n < 10 then [word_of_nat (48 + n)]
                else decimal (n div 10) @ [word_of_nat (48 + n mod 10)])"

definition signed_decimal :: "int \<Rightarrow> byte list" where
  "signed_decimal i = (if i < 0 then 45 # decimal (nat (- i)) else decimal (nat i))"

definition hex_digit :: "nat \<Rightarrow> byte" where
  "hex_digit d = (if d < 10 then word_of_nat (48 + d) else word_of_nat (87 + d))"

fun hexadecimal :: "nat \<Rightarrow> byte list" where
  "hexadecimal n = (if n < 16 then [hex_digit n]
                    else hexadecimal (n div 16) @ [hex_digit (n mod 16)])"

declare decimal.simps [simp del] and hexadecimal.simps [simp del]

text \<open>A \<^verbatim>\<open>char\<close> converted to \<^verbatim>\<open>int\<close> and printed as unsigned: negative characters have eight digits.\<close>

definition char_as_uint :: "byte \<Rightarrow> nat" where
  "char_as_uint c = unat (scast c :: uint32)"

subsection \<open>Arguments and conversions\<close>

datatype num_type = TUInt | TInt | TUShort | TShort | TULong | TLong | TULLong | TLLong

datatype float_type = TFloat | TDouble | TLDouble

datatype 's vararg =
    NullArg
  | CharArg byte
  | NumArg num_type int
  | FloatArg float_type nat
  | PtrArg nat
  | StrArg "byte list"
  | LenArg int
  | CallArg "'s IOChannel \<Rightarrow> (int \<times> 's IOChannel) outcome"

datatype conversion =
    CPercent | CChar | CNum num_type | CFloat float_type | CPointer | CStr bool | CQChar | CQStr | CCall
  | CStarQ | CStarStr | CBad | CEnded

text \<open>The nested \<^verbatim>\<open>switch\<close> statements on the characters behind a percent sign. \<open>Ended\<close>: the
  format stops there, the error is set and the increment of the loop runs over its terminator.\<close>

definition next_char :: "string \<Rightarrow> (char \<Rightarrow> string \<Rightarrow> conversion \<times> string) \<Rightarrow> conversion \<times> string" where
  "next_char fmt k = (case fmt of [] \<Rightarrow> (CEnded, []) | c # fmt \<Rightarrow> k c fmt)"

definition print_conversion :: "string \<Rightarrow> conversion \<times> string" where
  "print_conversion fmt = next_char fmt (\<lambda>c fmt.
     if c = CHR ''%'' then (CPercent, fmt)
     else if c = CHR ''c'' then (CChar, fmt)
     else if c = CHR ''u'' then (CNum TUInt, fmt)
     else if c = CHR ''d'' then (CNum TInt, fmt)
     else if c = CHR ''f'' then (CFloat TFloat, fmt)
     else if c = CHR ''p'' then (CPointer, fmt)
     else if c = CHR ''S'' then (CStr True, fmt)
     else if c = CHR ''s'' then (CStr False, fmt)
     else if c = CHR ''L'' then next_char fmt (\<lambda>c fmt.
       if c = CHR ''f'' then (CFloat TLDouble, fmt) else (CBad, fmt))
     else if c = CHR ''h'' then next_char fmt (\<lambda>c fmt.
       if c = CHR ''u'' then (CNum TUShort, fmt)
       else if c = CHR ''d'' then (CNum TShort, fmt) else (CBad, fmt))
     else if c = CHR ''l'' then next_char fmt (\<lambda>c fmt.
       if c = CHR ''u'' then (CNum TULong, fmt)
       else if c = CHR ''d'' then (CNum TLong, fmt)
       else if c = CHR ''f'' then (CFloat TDouble, fmt)
       else if c = CHR ''l'' then next_char fmt (\<lambda>c fmt.
         if c = CHR ''d'' then (CNum TLLong, fmt)
         else if c = CHR ''u'' then (CNum TULLong, fmt) else (CBad, fmt))
       else (CBad, fmt))
     else if c = CHR ''q'' then next_char fmt (\<lambda>c fmt.
       if c = CHR ''c'' then (CQChar, fmt)
       else if c = CHR ''s'' then (CQStr, fmt) else (CBad, fmt))
     else if c = CHR ''@'' then (CCall, fmt)
     else if c = CHR ''*'' then next_char fmt (\<lambda>c fmt.
       if c = CHR ''q'' then (CStarQ, fmt)
       else if c = CHR ''s'' then (CStarStr, fmt) else (CBad, fmt))
     else (CBad, fmt))"

subsection \<open>Printing\<close>

text \<open>A write inside of the formatter: when fewer bytes than asked for are written, the channel must
  be at its end or in error, and the \<^verbatim>\<open>break\<close> leaves the innermost loop or switch.\<close>

definition put_or_break :: "('s, 'a) IOChannelInterface \<Rightarrow> byte list \<Rightarrow> ('s IOChannel \<Rightarrow> 's IOChannel outcome) \<Rightarrow>
    's IOChannel \<Rightarrow> 's IOChannel outcome" where
  "put_or_break I bs k ch = obind (IOChannel_writeInternal I (Some bs) ch) (\<lambda>(r, ch).
     if r \<noteq> int (length bs)
     then obind (IOChannel_eof ch) (\<lambda>e. ANY_REQUIRE (e \<or> IOChannel_isErrorSet ch) (Ok ch))
     else k ch)"

text \<open>The condition of the loops: neither at the end nor in error.\<close>

definition while_ok :: "'s IOChannel \<Rightarrow> ('s IOChannel \<Rightarrow> 's IOChannel outcome) \<Rightarrow> 's IOChannel outcome" where
  "while_ok ch k = obind (IOChannel_eof ch) (\<lambda>e. if e \<or> IOChannel_isErrorSet ch then Ok ch else k ch)"

definition escaped :: "byte \<Rightarrow> byte list" where
  "escaped ch =
     (if ch = 8 then ascii [CHR 0x5C, CHR ''b'']
      else if ch = 12 then ascii [CHR 0x5C, CHR ''f'']
      else if ch = 10 then ascii [CHR 0x5C, CHR ''n'']
      else if ch = 13 then ascii [CHR 0x5C, CHR ''r'']
      else if ch = 9 then ascii [CHR 0x5C, CHR ''t'']
      else if ch = 11 then ascii [CHR 0x5C, CHR ''v'']
      else if ch = 7 then ascii [CHR 0x5C, CHR ''a'']
      else if ch = 92 then [92, 92]
      else if ch = 39 then [92, 39]
      else if ch = 34 then [92, 34]
      else if ch = 63 then [92, 63]
      else if 32 \<le> ch \<and> ch \<le> 126 then [ch]
      else ascii ''0x'' @ hexadecimal (char_as_uint ch))"

definition IOChannel_writeEscapedChar :: "('s, 'a) IOChannelInterface \<Rightarrow> byte \<Rightarrow> 's IOChannel \<Rightarrow>
    (int \<times> 's IOChannel) outcome" where
  "IOChannel_writeEscapedChar I c ch = IOChannel_writeInternal I (Some (escaped c)) ch"

fun print_string :: "('s, 'a) IOChannelInterface \<Rightarrow> bool \<Rightarrow> byte list \<Rightarrow> 's IOChannel \<Rightarrow> 's IOChannel outcome" where
  "print_string I doEscape [] ch = Fault"
| "print_string I doEscape (b # bs) ch =
     (if b = 0 then Ok ch
      else while_ok ch (\<lambda>ch.
        obind (if doEscape then IOChannel_writeEscapedChar I b ch else IOChannel_writeInternal I (Some [b]) ch)
          (\<lambda>(len, ch).
        if len < 1
        then obind (IOChannel_eof ch) (\<lambda>e. ANY_REQUIRE (e \<or> IOChannel_isErrorSet ch) (Ok ch))
        else print_string I doEscape bs ch)))"

text \<open>The loop of \<^verbatim>\<open>%qs\<close>, and with a limit those of \<^verbatim>\<open>%*qs\<close> and \<^verbatim>\<open>%*s\<close>.\<close>

fun print_quoted :: "('s, 'a) IOChannelInterface \<Rightarrow> byte list \<Rightarrow> 's IOChannel \<Rightarrow> 's IOChannel outcome" where
  "print_quoted I [] ch = Fault"
| "print_quoted I (b # bs) ch =
     (if b = 0 then Ok ch
      else while_ok ch (\<lambda>ch.
        if b = 34 \<or> b = 92
        then put_or_break I [92] (put_or_break I [b] (print_quoted I bs)) ch
        else put_or_break I [b] (print_quoted I bs) ch))"

fun print_quoted_limit :: "('s, 'a) IOChannelInterface \<Rightarrow> byte list \<Rightarrow> int \<Rightarrow> int \<Rightarrow> 's IOChannel \<Rightarrow> 's IOChannel outcome" where
  "print_quoted_limit I [] i len ch = (if i < len then Fault else Ok ch)"
| "print_quoted_limit I (b # bs) i len ch =
     (if i < len
      then if b = 0 then Ok ch
           else while_ok ch (\<lambda>ch.
             if b = 34 \<or> b = 92
             then put_or_break I [92] (\<lambda>ch.
                    if i + 1 \<ge> len then Ok ch
                    else put_or_break I [b] (print_quoted_limit I bs (i + 2) len) ch) ch
             else put_or_break I [b] (print_quoted_limit I bs (i + 1) len) ch)
      else Ok ch)"

fun print_limit :: "('s, 'a) IOChannelInterface \<Rightarrow> byte list \<Rightarrow> int \<Rightarrow> int \<Rightarrow> 's IOChannel \<Rightarrow> 's IOChannel outcome" where
  "print_limit I [] i len ch = (if i < len then Fault else Ok ch)"
| "print_limit I (b # bs) i len ch =
     (if i < len
      then if b = 0 then Ok ch
           else while_ok ch (\<lambda>ch. put_or_break I [b] (print_limit I bs (i + 1) len) ch)
      else Ok ch)"

text \<open>\<^verbatim>\<open>IOCHANNEL_PRINT_ITEM\<close>: the result of the write is not looked at. The buffer holds 40 bytes.\<close>

definition IOCHANNEL_PRINT_ITEM :: "('s, 'a) IOChannelInterface \<Rightarrow> byte list \<Rightarrow> 's IOChannel \<Rightarrow> 's IOChannel outcome" where
  "IOCHANNEL_PRINT_ITEM I text ch = ANY_REQUIRE (text \<noteq> [])
     (defined_if (length text < 40) (omap snd (IOChannel_writeInternal I (Some text) ch)))"

definition print_char_quoted :: "('s, 'a) IOChannelInterface \<Rightarrow> byte \<Rightarrow> 's IOChannel \<Rightarrow> 's IOChannel outcome" where
  "print_char_quoted I c ch =
     (if IOCHANNEL_ISPRINT c
      then put_or_break I [39] (put_or_break I [c] (put_or_break I [39] Ok)) ch
      else let h = hexadecimal (char_as_uint c);
               text = [39, 92, 120] @ (if length h < 2 then 48 # h else h) @ [39]
           in put_or_break I text Ok ch)"

definition num_text :: "num_type \<Rightarrow> int \<Rightarrow> byte list" where
  "num_text t v = (if t \<in> {TUInt, TUShort, TULong, TULLong} then decimal (nat v) else signed_decimal v)"

definition float_spec :: "float_type \<Rightarrow> string" where
  "float_spec t = (case t of TFloat \<Rightarrow> ''%.7e'' | TDouble \<Rightarrow> ''%.16e'' | TLDouble \<Rightarrow> ''%.18Le'')"

text \<open>One conversion: its arguments are taken from the list. \<^verbatim>\<open>%*qs\<close> looks at the character behind
  the \<^verbatim>\<open>q\<close> after it has taken its arguments; the format that is left is part of the result.\<close>

definition print_item :: "(string \<Rightarrow> nat \<Rightarrow> byte list) \<Rightarrow> ('s, 'a) IOChannelInterface \<Rightarrow> conversion \<Rightarrow> string \<Rightarrow>
    's vararg list \<Rightarrow> 's IOChannel \<Rightarrow> (string \<times> 's vararg list \<times> 's IOChannel) outcome" where
  "print_item E I conv fmt args ch =
     (case conv of
       CPercent \<Rightarrow> obind (put_or_break I [37] Ok ch) (\<lambda>ch. Ok (fmt, args, ch))
     | CBad \<Rightarrow> obind (IOChannel_setError IOCHANNELERROR_INCR ch) (\<lambda>ch. Ok (fmt, args, ch))
     | CEnded \<Rightarrow> Fault
     | CChar \<Rightarrow> (case args of CharArg c # args \<Rightarrow>
           obind (IOCHANNEL_PRINT_ITEM I [c] ch) (\<lambda>ch. Ok (fmt, args, ch)) | _ \<Rightarrow> Fault)
     | CNum t \<Rightarrow> (case args of NumArg t' v # args \<Rightarrow> defined_if (t = t')
           (obind (IOCHANNEL_PRINT_ITEM I (num_text t v) ch) (\<lambda>ch. Ok (fmt, args, ch))) | _ \<Rightarrow> Fault)
     | CFloat t \<Rightarrow> (case args of FloatArg t' v # args \<Rightarrow> defined_if (t = t')
           (obind (IOCHANNEL_PRINT_ITEM I (E (float_spec t) v) ch) (\<lambda>ch. Ok (fmt, args, ch))) | _ \<Rightarrow> Fault)
     | CPointer \<Rightarrow> (case args of NullArg # _ \<Rightarrow> Require | PtrArg a # args \<Rightarrow>
           let text = E ''%p'' a in ANY_REQUIRE (text \<noteq> []) (defined_if (length text < 32)
             (obind (put_or_break I text Ok ch) (\<lambda>ch. Ok (fmt, args, ch)))) | _ \<Rightarrow> Fault)
     | CStr esc \<Rightarrow> (case args of NullArg # _ \<Rightarrow> Require | StrArg s # args \<Rightarrow>
           obind (print_string I esc s ch) (\<lambda>ch. Ok (fmt, args, ch)) | _ \<Rightarrow> Fault)
     | CQChar \<Rightarrow> (case args of NullArg # _ \<Rightarrow> Require | CharArg c # args \<Rightarrow>
           obind (print_char_quoted I c ch) (\<lambda>ch. Ok (fmt, args, ch)) | _ \<Rightarrow> Fault)
     | CQStr \<Rightarrow> (case args of NullArg # _ \<Rightarrow> Require | StrArg s # args \<Rightarrow>
           obind (put_or_break I [34] (\<lambda>ch. obind (print_quoted I s ch) (put_or_break I [34] Ok)) ch)
             (\<lambda>ch. Ok (fmt, args, ch)) | _ \<Rightarrow> Fault)
     | CCall \<Rightarrow> (case args of NullArg # _ \<Rightarrow> Require | CallArg f # args \<Rightarrow>
           obind (f ch) (\<lambda>(n, ch).
           obind (if n = -1 then IOChannel_setError IOCHANNELERROR_BCLLBKW ch else Ok ch) (\<lambda>ch.
           Ok (fmt, args, ch))) | _ \<Rightarrow> Fault)
     | CStarQ \<Rightarrow> (case args of LenArg len # args \<Rightarrow> ANY_REQUIRE (len > 0)
           (case args of NullArg # _ \<Rightarrow> Require | StrArg s # args \<Rightarrow>
              (case fmt of [] \<Rightarrow> Require | c # fmt \<Rightarrow> ANY_REQUIRE (c = CHR ''s'')
                 (obind (put_or_break I [34] (\<lambda>ch.
                    obind (print_quoted_limit I s 0 len ch) (put_or_break I [34] Ok)) ch) (\<lambda>ch.
                  Ok (fmt, args, ch)))) | _ \<Rightarrow> Fault) | _ \<Rightarrow> Fault)
     | CStarStr \<Rightarrow> (case args of LenArg len # args \<Rightarrow> ANY_REQUIRE (len > 0)
           (case args of NullArg # _ \<Rightarrow> Require | StrArg s # args \<Rightarrow>
              obind (print_limit I s 0 len ch) (\<lambda>ch. Ok (fmt, args, ch)) | _ \<Rightarrow> Fault) | _ \<Rightarrow> Fault))"

lemma next_char_length:
  assumes "\<And>c f. fmt = c # f \<Longrightarrow> length (snd (k c f)) \<le> length f"
  shows "length (snd (next_char fmt k)) \<le> length fmt"
  using assms by (cases fmt) (auto simp: next_char_def intro: le_SucI)

lemma print_conversion_length: "length (snd (print_conversion fmt)) \<le> length fmt"
  by (simp add: print_conversion_def next_char_def split: list.splits)

lemma print_item_length:
  assumes "print_item E I conv fmt args ch = Ok (fmt', args', ch')"
  shows "length fmt' \<le> length fmt"
  using assms
  by (cases conv)
     (auto simp: print_item_def outcome_Ok_iffs Let_def split: list.splits vararg.splits if_splits)

lemma while_ok_cong [fundef_cong]:
  assumes "ch = ch'" and "\<And>c. k c = k' c"
  shows "while_ok ch k = while_ok ch' k'"
proof -
  have "k = k'" using assms(2) by blast
  with assms(1) show ?thesis by simp
qed

lemma put_or_break_cong [fundef_cong]:
  assumes "I = I'" and "bs = bs'" and "ch = ch'" and "\<And>c. k c = k' c"
  shows "put_or_break I bs k ch = put_or_break I' bs' k' ch'"
proof -
  have "k = k'" using assms(4) by blast
  with assms show ?thesis by simp
qed

text \<open>The loop over the format. A format ends a step earlier than its list where a conversion takes
  more than one character.\<close>

function print_loop :: "(string \<Rightarrow> nat \<Rightarrow> byte list) \<Rightarrow> ('s, 'a) IOChannelInterface \<Rightarrow> string \<Rightarrow>
    's vararg list \<Rightarrow> 's IOChannel \<Rightarrow> 's IOChannel outcome" where
  "print_loop E I [] args ch = Ok ch"
| "print_loop E I (c # fmt) args ch =
     while_ok ch (\<lambda>ch.
       if c = CHR ''%''
       then let (conv, fmt) = print_conversion fmt in
            obind (print_item E I conv fmt args ch) (\<lambda>(fmt, args, ch). print_loop E I fmt args ch)
       else put_or_break I [asc c] (print_loop E I fmt args) ch)"
  by pat_completeness auto

termination
proof (relation "measure (\<lambda>(E, I, fmt, args, ch). length fmt)", goal_cases)
  case (2 E I c fmt args ch x xx y z w v u t)
  then have "length v \<le> length z" "length z \<le> length fmt"
    using print_conversion_length [of fmt] by (auto dest: print_item_length) (metis snd_conv)
  then show ?case by simp
qed auto

definition IOChannel_printFormatting :: "(string \<Rightarrow> nat \<Rightarrow> byte list) \<Rightarrow> ('s, 'a) IOChannelInterface \<Rightarrow> string \<Rightarrow>
    's vararg list \<Rightarrow> 's IOChannel \<Rightarrow> (int \<times> 's IOChannel) outcome" where
  "IOChannel_printFormatting E I fmt args ch =
     ANY_REQUIRE (ch_writeBuffer ch \<noteq> Null) (ANY_REQUIRE (ch_ungetBuffer ch \<noteq> Null)
       (let iniOffset = ch_wrDeployedBytes ch in
        obind (print_loop E I fmt args ch) (\<lambda>ch.
          if \<not> IOChannel_isErrorSet ch
          then let retVal = ch_wrDeployedBytes ch - iniOffset in ANY_REQUIRE (retVal \<ge> 0) (Ok (retVal, ch))
          else Ok (-1, ch))))"

definition IOChannel_printf :: "(string \<Rightarrow> nat \<Rightarrow> byte list) \<Rightarrow> ('s, 'a) IOChannelInterface \<Rightarrow> string \<Rightarrow>
    's vararg list \<Rightarrow> 's IOChannel \<Rightarrow> (int \<times> 's IOChannel) outcome" where
  "IOChannel_printf E I fmt args ch = valid_channel ch
     (IOCHANNEL_REQUIRE_INTERFACE ch
       (if IOChannel_isCallAllowedCheck ch
        then obind (IOChannel_isNotRdOnlyCheck ch) (\<lambda>(allowed, ch).
             if allowed then IOChannel_printFormatting E I fmt args ch else Ok (-1, ch))
        else Ok (-1, ch)))"

subsection \<open>Scanning\<close>

text \<open>
  The arguments of \<^verbatim>\<open>scanf\<close> are the objects behind the pointers; scanning returns them with
  their new values. The state of \<^verbatim>\<open>IOChannel_scanFormatting\<close> holds the objects that have been
  passed (\<open>sc_done\<close>) and those still to come, the number of items, the counter \<^verbatim>\<open>i\<close>, the
  one byte buffer and the channel. What the C library decides is again a parameter: \<open>S\<close> is what
  \<^verbatim>\<open>sscanf\<close> makes of a text for a floating point or pointer conversion. Skipping white space goes on as long
  as the stream delivers it, which the fuel \<open>n\<close> bounds.
\<close>

record 's scan =
  sc_done :: "'s vararg list"
  sc_args :: "'s vararg list"
  sc_items :: int
  sc_i :: int
  sc_b :: byte
  sc_ch :: "'s IOChannel"

text \<open>The loop condition, and reading one byte: with \<open>True\<close> the failure is checked to be the end
  or an error.\<close>

definition scan_ok :: "'s scan \<Rightarrow> bool outcome" where
  "scan_ok s = omap (\<lambda>e. \<not> e \<and> \<not> IOChannel_isErrorSet (sc_ch s)) (IOChannel_eof (sc_ch s))"

definition scan_read :: "bool \<Rightarrow> ('s, 'a) IOChannelInterface \<Rightarrow> 's scan \<Rightarrow> (bool \<times> 's scan) outcome" where
  "scan_read check I s = obind (IOChannel_readInternal I 1 (sc_ch s)) (\<lambda>(r, bs, ch).
     if r = 1 then (case bs of [] \<Rightarrow> Fault | c # _ \<Rightarrow> Ok (True, s\<lparr>sc_b := c, sc_ch := ch\<rparr>))
     else if check
     then obind (IOChannel_eof ch) (\<lambda>e. ANY_REQUIRE (e \<or> IOChannel_isErrorSet ch) (Ok (False, s\<lparr>sc_ch := ch\<rparr>)))
     else Ok (False, s\<lparr>sc_ch := ch\<rparr>))"

fun skip_spaces :: "nat \<Rightarrow> ('s, 'a) IOChannelInterface \<Rightarrow> 's scan \<Rightarrow> 's scan outcome" where
  "skip_spaces 0 I s = Stuck"
| "skip_spaces (Suc n) I s =
     (if IOCHANNEL_ISSPACE (sc_b s)
      then obind (scan_ok s) (\<lambda>ok. if ok
             then obind (scan_read False I s) (\<lambda>(r, s). if r then skip_spaces n I s else Ok s)
             else Ok s)
      else Ok s)"

definition IOCHANNEL_READSPACES :: "nat \<Rightarrow> ('s, 'a) IOChannelInterface \<Rightarrow> 's scan \<Rightarrow> 's scan outcome" where
  "IOCHANNEL_READSPACES n I s = skip_spaces n I (s\<lparr>sc_b := 32\<rparr>)"

text \<open>Giving the last byte back when the format has ended. \<open>err\<close>: whether a failure sets the error.\<close>

definition scan_unget :: "bool \<Rightarrow> 's scan \<Rightarrow> 's scan outcome" where
  "scan_unget err s = obind (IOChannel_unget [sc_b s] (sc_ch s)) (\<lambda>(r, ch).
     obind (if r \<noteq> 1 \<and> err then IOChannel_setError IOCHANNELERROR_TOOUNGET ch else Ok ch) (\<lambda>ch.
     Ok (s\<lparr>sc_ch := ch\<rparr>)))"

definition separator :: "string \<Rightarrow> byte" where
  "separator fmt = (case fmt of [] \<Rightarrow> 0 | c # _ \<Rightarrow> asc c)"

text \<open>The digits of a number. The buffer of the caller holds 40 bytes, one of them for the terminator;
  \<open>room\<close> is what is left. When a read fails the last digit that was stored is overwritten by
  the terminator.\<close>

fun scan_digits :: "nat \<Rightarrow> ('s, 'a) IOChannelInterface \<Rightarrow> bool \<Rightarrow> byte \<Rightarrow> byte list \<Rightarrow> 's scan \<Rightarrow>
    (byte list \<times> 's scan) outcome" where
  "scan_digits room I isFloat sep acc s =
     obind (scan_ok s) (\<lambda>ok.
       if (IOCHANNEL_ISFLOATALLOWED isFloat (sc_b s) \<or> IOCHANNEL_ISDIGIT (sc_b s)) \<and> sc_b s \<noteq> sep \<and> ok
       then (case room of 0 \<Rightarrow> Fault | Suc room \<Rightarrow>
          obind (scan_read False I s) (\<lambda>(r, s').
            if r then scan_digits room I isFloat sep (acc @ [sc_b s]) s' else Ok (acc, s')))
       else (case room of 0 \<Rightarrow> Fault | Suc _ \<Rightarrow> Ok (acc, s)))"

definition IOChannel_scanItemInternal :: "nat \<Rightarrow> ('s, 'a) IOChannelInterface \<Rightarrow> bool \<Rightarrow> string \<Rightarrow> 's scan \<Rightarrow>
    (byte list option \<times> 's scan) outcome" where
  "IOChannel_scanItemInternal n I isFloat fmt s =
     obind (IOCHANNEL_READSPACES n I s) (\<lambda>s.
     obind (if sc_b s = 45
            then obind (scan_read False I s) (\<lambda>(r, s). Ok (if r then Some [45] else None, s))
            else Ok (Some [], s)) (\<lambda>(start, s).
     case start of None \<Rightarrow> Ok (None, s)
     | Some start \<Rightarrow>
       obind (scan_digits (40 - length start) I isFloat (separator fmt) start s) (\<lambda>(text, s).
       obind (IOChannel_eof (sc_ch s)) (\<lambda>e.
       obind (if fmt = [] \<and> \<not> e then scan_unget True s else Ok s) (\<lambda>s.
       Ok (Some text, s))))))"

text \<open>\<^verbatim>\<open>sscanf\<close> for the integer conversions on a text of digits with an optional sign: nothing is assigned
  when there are no digits, and a number that the type cannot hold is undefined.\<close>

fun digits_value :: "int \<Rightarrow> byte list \<Rightarrow> int" where
  "digits_value v [] = v"
| "digits_value v (b # bs) = digits_value (10 * v + (uint b - 48)) bs"

fun num_bits :: "num_type \<Rightarrow> nat" where
  "num_bits t = (if t = TUShort \<or> t = TShort then 16 else if t = TUInt \<or> t = TInt then 32 else 64)"

definition is_unsigned :: "num_type \<Rightarrow> bool" where
  "is_unsigned t \<longleftrightarrow> t = TUInt \<or> t = TUShort \<or> t = TULong \<or> t = TULLong"

definition sscanf_num :: "num_type \<Rightarrow> byte list \<Rightarrow> int option outcome" where
  "sscanf_num t text =
     (let neg = (text \<noteq> [] \<and> hd text = 45); ds = (if neg then drop 1 text else text) in
      if ds = [] then Ok None
      else let v = digits_value 0 ds; v = (if neg then - v else v) in
        if is_unsigned t
        then defined_if (\<bar>v\<bar> < 2 ^ num_bits t) (Ok (Some (v mod 2 ^ num_bits t)))
        else defined_if (- (2 ^ (num_bits t - 1)) \<le> v \<and> v < 2 ^ (num_bits t - 1)) (Ok (Some v)))"

definition pass :: "'s vararg \<Rightarrow> 's vararg list \<Rightarrow> 's scan \<Rightarrow> 's scan" where
  "pass a args s = s\<lparr>sc_done := sc_done s @ [a], sc_args := args\<rparr>"

definition scan_num :: "nat \<Rightarrow> ('s, 'a) IOChannelInterface \<Rightarrow> num_type \<Rightarrow> string \<Rightarrow> 's scan \<Rightarrow> 's scan outcome" where
  "scan_num n I t fmt s =
     (case sc_args s of NumArg t' v # args \<Rightarrow> defined_if (t = t')
        (obind (IOChannel_scanItemInternal n I False fmt s) (\<lambda>(text, s).
           case text of None \<Rightarrow> Fault | Some text \<Rightarrow>
             obind (sscanf_num t text) (\<lambda>r.
             Ok (pass (NumArg t (case r of None \<Rightarrow> v | Some w \<Rightarrow> w)) args s))))
      | _ \<Rightarrow> Fault)"

definition scan_spec :: "float_type \<Rightarrow> string" where
  "scan_spec t = (case t of TFloat \<Rightarrow> ''%f'' | TDouble \<Rightarrow> ''%lf'' | TLDouble \<Rightarrow> ''%Lf'')"

definition scan_float :: "(string \<Rightarrow> byte list \<Rightarrow> nat option) \<Rightarrow> nat \<Rightarrow> ('s, 'a) IOChannelInterface \<Rightarrow> float_type \<Rightarrow> string \<Rightarrow>
    's scan \<Rightarrow> 's scan outcome" where
  "scan_float S n I t fmt s =
     (case sc_args s of FloatArg t' v # args \<Rightarrow> defined_if (t = t')
        (obind (IOChannel_scanItemInternal n I True fmt s) (\<lambda>(text, s).
           case text of None \<Rightarrow> Fault | Some text \<Rightarrow>
             Ok (pass (FloatArg t (case S (scan_spec t) text of None \<Rightarrow> v | Some w \<Rightarrow> w)) args s)))
      | _ \<Rightarrow> Fault)"

text \<open>Storing a byte of a string into the buffer of the caller. A position outside of it is a fault.\<close>

definition poke :: "byte list \<Rightarrow> nat \<Rightarrow> byte \<Rightarrow> (byte list \<Rightarrow> 'a outcome) \<Rightarrow> 'a outcome" where
  "poke buf pos b k = defined_if (pos < length buf) (k (buf[pos := b]))"

text \<open>The bytes of \<^verbatim>\<open>%s\<close> (no limit) and \<^verbatim>\<open>%*s\<close> (at most \<open>len\<close>, the counter is \<open>sc_i\<close>): up to
  white space or, without a limit, the separator. The fuel is the size of the buffer: every round
  stores a byte. The result is the position of the terminator.\<close>

fun scan_word :: "nat \<Rightarrow> ('s, 'a) IOChannelInterface \<Rightarrow> int option \<Rightarrow> byte \<Rightarrow> byte list \<Rightarrow> nat \<Rightarrow> 's scan \<Rightarrow>
    (byte list \<times> nat \<times> 's scan) outcome" where
  "scan_word fuel I limit sep buf pos s =
     (if (case limit of None \<Rightarrow> sc_b s \<noteq> sep | Some len \<Rightarrow> sc_i s < len) \<and> \<not> IOCHANNEL_ISSPACE (sc_b s)
      then obind (scan_ok s) (\<lambda>ok.
        if ok
        then case fuel of 0 \<Rightarrow> Fault | Suc fuel \<Rightarrow> poke buf pos (sc_b s) (\<lambda>buf.
          (case limit of
             None \<Rightarrow> obind (scan_read True I s) (\<lambda>(r, s).
               if r then scan_word fuel I limit sep buf (pos + 1) s else Ok (buf, pos + 1, s))
           | Some _ \<Rightarrow> obind (scan_read True I s) (\<lambda>(r, s).
               if r then scan_word fuel I limit sep buf (pos + 1) (s\<lparr>sc_i := sc_i s + 1\<rparr>)
               else Ok (buf, pos, s))))
        else Ok (buf, pos, s))
      else Ok (buf, pos, s))"

text \<open>The bytes of \<^verbatim>\<open>%qs\<close> and \<^verbatim>\<open>%*qs\<close> behind the opening quote. The counter of \<^verbatim>\<open>%*qs\<close> is set to 0
  before; an escape counts twice. A byte whose successor cannot be read is overwritten by the
  terminator.\<close>

fun scan_quoted :: "nat \<Rightarrow> ('s, 'a) IOChannelInterface \<Rightarrow> int option \<Rightarrow> byte \<Rightarrow> byte list \<Rightarrow> nat \<Rightarrow> 's scan \<Rightarrow>
    (byte list \<times> nat \<times> 's scan) outcome" where
  "scan_quoted fuel I limit quote buf pos s =
     (if (case limit of None \<Rightarrow> True | Some len \<Rightarrow> sc_i s < len)
      then obind (scan_ok s) (\<lambda>ok.
        if \<not> ok then Ok (buf, pos, s)
        else if sc_b s = quote then Ok (buf, pos, s)
        else
          obind (if sc_b s = 92
                 then obind (scan_read True I s) (\<lambda>(r, s).
                        let s = (if r \<and> limit \<noteq> None then s\<lparr>sc_i := sc_i s + 1\<rparr> else s) in
                        Ok (r \<and> (case limit of None \<Rightarrow> True | Some len \<Rightarrow> sc_i s < len), s))
                 else Ok (True, s)) (\<lambda>(go, s).
          if \<not> go then Ok (buf, pos, s)
          else case fuel of 0 \<Rightarrow> Fault | Suc fuel \<Rightarrow> poke buf pos (sc_b s) (\<lambda>buf.
            obind (scan_read True I s) (\<lambda>(r, s).
              if r
              then scan_quoted fuel I limit quote buf (pos + 1)
                     (if limit \<noteq> None then s\<lparr>sc_i := sc_i s + 1\<rparr> else s)
              else Ok (buf, pos, s)))))
      else Ok (buf, pos, s))"

declare scan_word.simps [simp del] and scan_quoted.simps [simp del] and scan_digits.simps [simp del]

text \<open>\<^verbatim>\<open>%s\<close>; an empty word is not counted as an item.\<close>

definition scan_str :: "nat \<Rightarrow> ('s, 'a) IOChannelInterface \<Rightarrow> string \<Rightarrow> 's scan \<Rightarrow> 's scan outcome" where
  "scan_str n I fmt s =
     (case sc_args s of NullArg # _ \<Rightarrow> Require | StrArg buf # args \<Rightarrow>
        obind (IOCHANNEL_READSPACES n I s) (\<lambda>s.
        obind (scan_word (length buf) I None (separator fmt) buf 0 s) (\<lambda>(buf, pos, s).
        poke buf pos 0 (\<lambda>buf.
        let s = (if pos = 0 then s\<lparr>sc_items := sc_items s - 1\<rparr> else s) in
        obind (IOChannel_eof (sc_ch s)) (\<lambda>e.
        obind (if fmt = [] \<and> \<not> e then scan_unget False s else Ok s) (\<lambda>s.
        Ok (pass (StrArg buf) args s))))))
      | _ \<Rightarrow> Fault)"

definition scan_limited :: "nat \<Rightarrow> ('s, 'a) IOChannelInterface \<Rightarrow> string \<Rightarrow> 's scan \<Rightarrow> 's scan outcome" where
  "scan_limited n I fmt s =
     (case sc_args s of LenArg len # args \<Rightarrow> ANY_REQUIRE (len > 0)
        (case args of NullArg # _ \<Rightarrow> Require | StrArg buf # args \<Rightarrow>
           obind (IOCHANNEL_READSPACES n I s) (\<lambda>s.
           obind (scan_word (length buf) I (Some len) (separator fmt) buf 0 s) (\<lambda>(buf, pos, s).
           poke buf pos 0 (\<lambda>buf.
           obind (if fmt = [] then scan_unget True s else Ok s) (\<lambda>s.
           Ok (pass (StrArg buf) args (pass (LenArg len) [] s))))))
         | _ \<Rightarrow> Fault)
      | _ \<Rightarrow> Fault)"

definition scan_qstr :: "nat \<Rightarrow> ('s, 'a) IOChannelInterface \<Rightarrow> 's scan \<Rightarrow> 's scan outcome" where
  "scan_qstr n I s =
     (case sc_args s of NullArg # _ \<Rightarrow> Require | StrArg buf # args \<Rightarrow>
        obind (IOCHANNEL_READSPACES n I s) (\<lambda>s.
        if sc_b s \<noteq> 34 \<and> sc_b s \<noteq> 39 then Ok (pass (StrArg buf) args s)
        else let quote = sc_b s in
          obind (scan_read True I s) (\<lambda>(r, s).
          if \<not> r then Ok (pass (StrArg buf) args s)
          else obind (scan_quoted (length buf) I None quote buf 0 s) (\<lambda>(buf, pos, s).
               poke buf pos 0 (\<lambda>buf. Ok (pass (StrArg buf) args s)))))
      | _ \<Rightarrow> Fault)"

text \<open>\<^verbatim>\<open>%*qs\<close>. The format is looked at first; when there is no quote the arguments are not taken.\<close>

definition scan_qlimited :: "nat \<Rightarrow> ('s, 'a) IOChannelInterface \<Rightarrow> string \<Rightarrow> 's scan \<Rightarrow> (string \<times> 's scan) outcome" where
  "scan_qlimited n I fmt s =
     (case fmt of [] \<Rightarrow> Ok ([], s) | c # fmt \<Rightarrow>
      if c \<noteq> CHR ''s'' then Ok (fmt, s)
      else obind (IOCHANNEL_READSPACES n I s) (\<lambda>s.
        if sc_b s \<noteq> 34 \<and> sc_b s \<noteq> 39 then Ok (fmt, s)
        else let quote = sc_b s in
          (case sc_args s of LenArg len # args \<Rightarrow> ANY_REQUIRE (len > 0)
             (case args of NullArg # _ \<Rightarrow> Require | StrArg buf # args \<Rightarrow>
                obind (scan_read True I s) (\<lambda>(r, s).
                let s = pass (LenArg len) [] s in
                if \<not> r then Ok (fmt, pass (StrArg buf) args s)
                else obind (scan_quoted (length buf) I (Some len) quote buf 0 (s\<lparr>sc_i := 0\<rparr>)) (\<lambda>(buf, pos, s).
                     poke buf pos 0 (\<lambda>buf. Ok (fmt, pass (StrArg buf) args s))))
              | _ \<Rightarrow> Fault)
           | _ \<Rightarrow> Fault)))"

definition hex_value :: "byte \<Rightarrow> nat option" where
  "hex_value b = (if 48 \<le> b \<and> b \<le> 57 then Some (unat b - 48)
     else if 97 \<le> b \<and> b \<le> 102 then Some (unat b - 87)
     else if 65 \<le> b \<and> b \<le> 70 then Some (unat b - 55) else None)"

text \<open>\<^verbatim>\<open>sscanf( text, "%2x", ... )\<close> on two characters: a sign and a digit, or up to two digits; when
  nothing is assigned the variable keeps the 0 it was set to. Behind white space it would go
  on with the third byte of the buffer, which is not initialised.\<close>

definition sscanf_2x :: "byte \<Rightarrow> byte \<Rightarrow> byte outcome" where
  "sscanf_2x a b =
     (let d = (case hex_value b of None \<Rightarrow> 0 | Some y \<Rightarrow> y) in
      defined_if (\<not> IOCHANNEL_ISSPACE a \<and> a \<noteq> 12)
        (if a = 43 then Ok (word_of_nat d) else if a = 45 then Ok (- word_of_nat d)
         else Ok (case hex_value a of None \<Rightarrow> 0 | Some x \<Rightarrow>
           (case hex_value b of None \<Rightarrow> word_of_nat x | Some y \<Rightarrow> word_of_nat (16 * x + y)))))"

definition scan_qchar :: "nat \<Rightarrow> ('s, 'a) IOChannelInterface \<Rightarrow> 's scan \<Rightarrow> 's scan outcome" where
  "scan_qchar n I s =
     (case sc_args s of NullArg # _ \<Rightarrow> Require | CharArg c # args \<Rightarrow>
        obind (IOCHANNEL_READSPACES n I s) (\<lambda>s.
        if sc_b s \<noteq> 39 then Ok (pass (CharArg c) args s)
        else obind (scan_read True I s) (\<lambda>(r, s).
          if \<not> r then Ok (pass (CharArg c) args s)
          else
            obind (if sc_b s = 92
                   then obind (scan_read True I s) (\<lambda>(r, s).
                     if \<not> r \<or> sc_b s \<noteq> 120 then Ok (None, s)
                     else obind (IOChannel_readInternal I 2 (sc_ch s)) (\<lambda>(r, bs, ch).
                       let s = s\<lparr>sc_ch := ch\<rparr> in
                       if r \<noteq> 2
                       then obind (IOChannel_eof ch) (\<lambda>e.
                              ANY_REQUIRE (e \<or> IOChannel_isErrorSet ch) (Ok (None, s)))
                       else (case bs of a # b # _ \<Rightarrow> obind (sscanf_2x a b) (\<lambda>v. Ok (Some v, s)) | _ \<Rightarrow> Fault)))
                   else Ok (Some (sc_b s), s)) (\<lambda>(v, s).
            case v of None \<Rightarrow> Ok (pass (CharArg c) args s)
            | Some v \<Rightarrow> obind (scan_read True I s) (\<lambda>(r, s). Ok (pass (CharArg v) args s)))))
      | _ \<Rightarrow> Fault)"

text \<open>\<^verbatim>\<open>%p\<close>: the bytes go to an array of 32 that is not initialised, so a read that fails leaves a byte
  of it undefined. \<open>room\<close> is the number of bytes left behind the current one. At the end of
  the format the byte given back is that of the other buffer, not the one just read.\<close>

fun scan_address :: "nat \<Rightarrow> ('s, 'a) IOChannelInterface \<Rightarrow> byte \<Rightarrow> byte list \<Rightarrow> 's scan \<Rightarrow>
    (byte list \<times> 's scan) outcome" where
  "scan_address 0 I sep acc s = Fault"
| "scan_address (Suc room) I sep acc s =
     obind (scan_ok s) (\<lambda>ok.
       if \<not> IOCHANNEL_ISSPACE (sc_b s) \<and> sc_b s \<noteq> sep \<and> ok
       then obind (scan_read True I s) (\<lambda>(r, s').
              if r then scan_address room I sep (acc @ [sc_b s]) s' else Fault)
       else Ok (acc @ [sc_b s], s))"

definition scan_pointer :: "(string \<Rightarrow> byte list \<Rightarrow> nat option) \<Rightarrow> nat \<Rightarrow> ('s, 'a) IOChannelInterface \<Rightarrow> string \<Rightarrow>
    's scan \<Rightarrow> 's scan outcome" where
  "scan_pointer S n I fmt s =
     (case sc_args s of PtrArg a # args \<Rightarrow>
        obind (IOCHANNEL_READSPACES n I s) (\<lambda>s'.
        obind (scan_address 31 I (separator fmt) [] s') (\<lambda>(text, s').
        let s' = s'\<lparr>sc_b := sc_b s\<rparr> in
        obind (if fmt = [] then scan_unget False s' else Ok s') (\<lambda>s'.
        Ok (pass (PtrArg (case S ''%p'' text of None \<Rightarrow> a | Some w \<Rightarrow> w)) args s'))))
      | _ \<Rightarrow> Fault)"

text \<open>The \<^verbatim>\<open>switch\<close> of the scanner has the conversions of the printer except \<^verbatim>\<open>%S\<close>.\<close>

definition scan_conversion :: "string \<Rightarrow> conversion \<times> string" where
  "scan_conversion fmt = (let (conv, fmt) = print_conversion fmt in
     (if conv = CStr True then CBad else conv, fmt))"

text \<open>One conversion. The result has the format behind the increment of the loop: the conversions that
  look at their separator have moved onto it, so that the increment passes it.\<close>

definition scan_item :: "(string \<Rightarrow> byte list \<Rightarrow> nat option) \<Rightarrow> nat \<Rightarrow> ('s, 'a) IOChannelInterface \<Rightarrow> conversion \<Rightarrow>
    string \<Rightarrow> 's scan \<Rightarrow> (string \<times> 's scan) outcome" where
  "scan_item S n I conv fmt s =
     (case conv of
       CCall \<Rightarrow> (case sc_args s of NullArg # _ \<Rightarrow> Require | CallArg f # args \<Rightarrow>
           obind (f (sc_ch s)) (\<lambda>(k, ch).
           obind (if k = -1 then IOChannel_setError IOCHANNELERROR_BCLLBKR ch else Ok ch) (\<lambda>ch.
           Ok (fmt, pass (CallArg f) args (s\<lparr>sc_ch := ch\<rparr>)))) | _ \<Rightarrow> Fault)
     | CPercent \<Rightarrow> obind (IOCHANNEL_READSPACES n I s) (\<lambda>s. Ok (fmt, s\<lparr>sc_items := sc_items s - 1\<rparr>))
     | CChar \<Rightarrow> (case sc_args s of NullArg # _ \<Rightarrow> Require | CharArg c # args \<Rightarrow>
           obind (IOCHANNEL_READSPACES n I s) (\<lambda>s. Ok (fmt, pass (CharArg (sc_b s)) args s)) | _ \<Rightarrow> Fault)
     | CNum t \<Rightarrow> obind (scan_num n I t fmt s) (\<lambda>s. Ok (drop 1 fmt, s))
     | CFloat t \<Rightarrow> obind (scan_float S n I t fmt s) (\<lambda>s. Ok (drop 1 fmt, s))
     | CPointer \<Rightarrow> obind (scan_pointer S n I fmt s) (\<lambda>s. Ok (drop 1 fmt, s))
     | CStr esc \<Rightarrow> obind (scan_str n I fmt s) (\<lambda>s. Ok (drop 1 fmt, s))
     | CQChar \<Rightarrow> obind (scan_qchar n I s) (\<lambda>s. Ok (fmt, s))
     | CQStr \<Rightarrow> obind (scan_qstr n I s) (\<lambda>s. Ok (fmt, s))
     | CStarQ \<Rightarrow> scan_qlimited n I fmt s
     | CStarStr \<Rightarrow> obind (scan_limited n I fmt s) (\<lambda>s. Ok (drop 1 fmt, s))
     | _ \<Rightarrow> obind (IOChannel_setError IOCHANNELERROR_INCR (sc_ch s)) (\<lambda>ch. Ok (fmt, s\<lparr>sc_ch := ch\<rparr>)))"

text \<open>A character of the format that is not part of a conversion. Line ends and tabulators skip blanks
  only. The result tells whether the loop goes on.\<close>

fun skip_blanks :: "nat \<Rightarrow> ('s, 'a) IOChannelInterface \<Rightarrow> 's scan \<Rightarrow> 's scan outcome" where
  "skip_blanks 0 I s = Stuck"
| "skip_blanks (Suc n) I s =
     (if sc_b s = 32
      then obind (scan_read True I s) (\<lambda>(r, s). if r then skip_blanks n I s else Ok s)
      else Ok s)"

definition scan_literal :: "nat \<Rightarrow> ('s, 'a) IOChannelInterface \<Rightarrow> char \<Rightarrow> 's scan \<Rightarrow> (bool \<times> 's scan) outcome" where
  "scan_literal n I c s =
     obind (if asc c \<in> {10, 9, 13} then skip_blanks n I (s\<lparr>sc_b := 32\<rparr>) else IOCHANNEL_READSPACES n I s) (\<lambda>s.
     obind (scan_ok s) (\<lambda>ok.
       if \<not> ok then Ok (False, s)
       else if asc c \<noteq> sc_b s then obind (scan_unget False s) (\<lambda>s. Ok (False, s))
       else Ok (True, s)))"

lemma scan_conversion_length: "length (snd (scan_conversion fmt)) \<le> length fmt"
  using print_conversion_length [of fmt] by (cases "print_conversion fmt") (simp add: scan_conversion_def)

lemma scan_qlimited_length:
  assumes "scan_qlimited n I fmt s = Ok (fmt', s')"
  shows "length fmt' \<le> length fmt"
  using assms
  by (auto simp: scan_qlimited_def poke_def outcome_Ok_iffs Let_def
      split: list.splits vararg.splits if_splits)

lemma scan_item_length:
  assumes "scan_item S n I conv fmt s = Ok (fmt', s')"
  shows "length fmt' \<le> length fmt"
  using assms
  by (cases conv)
     (auto simp: scan_item_def outcome_Ok_iffs split: list.splits vararg.splits dest: scan_qlimited_length)

function scan_loop :: "(string \<Rightarrow> byte list \<Rightarrow> nat option) \<Rightarrow> nat \<Rightarrow> ('s, 'a) IOChannelInterface \<Rightarrow> string \<Rightarrow>
    's scan \<Rightarrow> 's scan outcome" where
  "scan_loop S n I fmt s =
     (if fmt = [] then Ok s
      else obind (scan_ok s) (\<lambda>ok. if \<not> ok then Ok s else
        (case dropWhile (\<lambda>c. c = CHR '' '') fmt of
           [] \<Rightarrow> Ok s
         | c # fmt \<Rightarrow>
             if c = CHR ''%''
             then let (conv, fmt) = scan_conversion fmt in
                  obind (scan_item S n I conv fmt s) (\<lambda>(fmt, s).
                  scan_loop S n I fmt (s\<lparr>sc_items := sc_items s + 1\<rparr>))
             else obind (scan_literal n I c s) (\<lambda>(go, s).
                  if go then scan_loop S n I fmt s else Ok s))))"
  by pat_completeness auto

termination
proof (relation "measure (\<lambda>(S, n, I, fmt, s). length fmt)", goal_cases)
  case (2 S n I fmt s ok c rest x conv rest2 y rest3 s')
  then have "length rest3 \<le> length rest2" "length rest2 \<le> length rest"
    using scan_conversion_length [of rest] by (auto dest: scan_item_length) (metis snd_conv)
  moreover have "Suc (length rest) \<le> length fmt"
    using length_dropWhile_le [of "\<lambda>c. c = CHR '' ''" fmt] 2 by simp
  ultimately show ?case by simp
next
  case (3 S n I fmt s ok c rest)
  then show ?case using length_dropWhile_le [of "\<lambda>c. c = CHR '' ''" fmt] by simp
qed auto

declare scan_loop.simps [simp del]

text \<open>The result is the number of items, the number of bytes read and the objects of the caller.\<close>

definition IOChannel_scanFormatting :: "(string \<Rightarrow> byte list \<Rightarrow> nat option) \<Rightarrow> nat \<Rightarrow> ('s, 'a) IOChannelInterface \<Rightarrow>
    string \<Rightarrow> 's vararg list \<Rightarrow> 's IOChannel \<Rightarrow> (int \<times> int \<times> 's vararg list \<times> 's IOChannel) outcome" where
  "IOChannel_scanFormatting S n I fmt args ch =
     ANY_REQUIRE (ch_ungetBuffer ch \<noteq> Null)
       (let iniOffset = ch_rdBytesFromLastWrite ch in
        obind (scan_loop S n I fmt
                 \<lparr>sc_done = [], sc_args = args, sc_items = 0, sc_i = 0, sc_b = 0, sc_ch = ch\<rparr>) (\<lambda>s.
        Ok (if IOChannel_isErrorSet (sc_ch s) then -1 else sc_items s,
            ch_rdBytesFromLastWrite (sc_ch s) - iniOffset, sc_done s @ sc_args s, sc_ch s)))"

text \<open>When the call is refused the number of bytes is not set: the result then has \<open>None\<close>.\<close>

definition IOChannel_scanf :: "(string \<Rightarrow> byte list \<Rightarrow> nat option) \<Rightarrow> nat \<Rightarrow> ('s, 'a) IOChannelInterface \<Rightarrow>
    string \<Rightarrow> 's vararg list \<Rightarrow> 's IOChannel \<Rightarrow> (int \<times> int option \<times> 's vararg list \<times> 's IOChannel) outcome" where
  "IOChannel_scanf S n I fmt args ch = valid_channel ch
     (IOCHANNEL_REQUIRE_INTERFACE ch
       (if IOChannel_isCallAllowedCheck ch
        then obind (IOChannel_isNotWrOnlyCheck ch) (\<lambda>(allowed, ch).
             if allowed
             then obind (IOChannel_scanFormatting S n I fmt args ch) (\<lambda>(r, nBytes, args, ch).
                  Ok (r, Some nBytes, args, ch))
             else Ok (-1, None, args, ch))
        else Ok (-1, None, args, ch)))"

end
