(* ===== verification/IO_Format_Correct.thy ===== *)
theory IO_Format_Correct
  imports IO_Format IO_Streams_Correct
begin

text \<open>
  What the formatted output and input promise. The locale \<open>sink\<close> is the contract of a
  stream that takes bytes: a write of bytes for which there is space is complete and leaves the channel in
  order. Over it, printing is shown to write the text that the reference function \<open>render\<close>
  gives. The locale \<open>source\<close> is the contract of a stream that delivers bytes one by one; over it
  a quoted string is read back. The memory stream provides both, the measuring and the null
  stream the first.
\<close>

subsection \<open>The text of a format\<close>

definition quote_byte :: "byte \<Rightarrow> byte list" where
  "quote_byte b = (if b = 34 \<or> b = 92 then [92, b] else [b])"

definition quoted :: "byte list \<Rightarrow> byte list" where
  "quoted bs = concat (map quote_byte bs)"

text \<open>The characters of a C string, when it has a terminator.\<close>

definition cstring :: "byte list \<Rightarrow> byte list option" where
  "cstring s = (if 0 \<in> set s then Some (takeWhile (\<lambda>b. b \<noteq> 0) s) else None)"

fun quoted_limit :: "byte list \<Rightarrow> int \<Rightarrow> byte list" where
  "quoted_limit [] n = []"
| "quoted_limit (b # bs) n =
     (if n \<le> 0 \<or> b = 0 then []
      else if b = 34 \<or> b = 92 then (if n \<le> 1 then [92] else 92 # b # quoted_limit bs (n - 2))
      else b # quoted_limit bs (n - 1))"

definition char_quoted :: "byte \<Rightarrow> byte list" where
  "char_quoted c =
     (if IOCHANNEL_ISPRINT c then [39, c, 39]
      else let h = hexadecimal (char_as_uint c) in
           [39, 92, 120] @ (if length h < 2 then 48 # h else h) @ [39])"

definition bounded_text :: "nat \<Rightarrow> byte list \<Rightarrow> byte list option" where
  "bounded_text n text = (if text \<noteq> [] \<and> length text < n then Some text else None)"

lemma asc_inject: "asc c = asc d \<Longrightarrow> c = d"
proof -
  assume "asc c = asc d"
  then have "(word_of_nat (of_char c) :: byte) = word_of_nat (of_char d)" by (simp only: of_nat_of_char)
  then have "unat (word_of_nat (of_char c) :: byte) = unat (word_of_nat (of_char d) :: byte)" by (rule arg_cong)
  then have "(of_char c :: nat) mod 2 ^ LENGTH(8) = of_char d mod 2 ^ LENGTH(8)" by (simp only: unat_of_nat)
  then have "char_of ((of_char c :: nat) mod 256) = char_of ((of_char d :: nat) mod 256)" by simp
  then show "c = d" by simp
qed

lemma ascii_inject: "ascii a = ascii b \<longleftrightarrow> a = b"
  using inj_map_eq_map [of asc a b] asc_inject by (auto simp: ascii_def inj_def)

text \<open>The text of one conversion, with the rest of the format and of the arguments.\<close>

definition item_text :: "(string \<Rightarrow> nat \<Rightarrow> byte list) \<Rightarrow> conversion \<Rightarrow> string \<Rightarrow> 's vararg list \<Rightarrow>
    (byte list \<times> string \<times> 's vararg list) option" where
  "item_text E conv fmt args = (let give = (\<lambda>args fmt. map_option (\<lambda>bs. (bs, fmt, args))) in
     case conv of
       CPercent \<Rightarrow> Some ([37], fmt, args)
     | CChar \<Rightarrow> (case args of CharArg c # args \<Rightarrow> Some ([c], fmt, args) | _ \<Rightarrow> None)
     | CNum t \<Rightarrow> (case args of NumArg t' v # args \<Rightarrow>
           if t = t' then give args fmt (bounded_text 40 (num_text t v)) else None | _ \<Rightarrow> None)
     | CFloat t \<Rightarrow> (case args of FloatArg t' v # args \<Rightarrow>
           if t = t' then give args fmt (bounded_text 40 (E (float_spec t) v)) else None | _ \<Rightarrow> None)
     | CPointer \<Rightarrow> (case args of PtrArg a # args \<Rightarrow> give args fmt (bounded_text 32 (E ''%p'' a)) | _ \<Rightarrow> None)
     | CStr esc \<Rightarrow> (case args of StrArg s # args \<Rightarrow>
           give args fmt (map_option (\<lambda>cs. if esc then concat (map escaped cs) else cs) (cstring s)) | _ \<Rightarrow> None)
     | CQChar \<Rightarrow> (case args of CharArg c # args \<Rightarrow> Some (char_quoted c, fmt, args) | _ \<Rightarrow> None)
     | CQStr \<Rightarrow> (case args of StrArg s # args \<Rightarrow>
           give args fmt (map_option (\<lambda>cs. [34] @ quoted cs @ [34]) (cstring s)) | _ \<Rightarrow> None)
     | CStarQ \<Rightarrow> (case args of LenArg len # StrArg s # args \<Rightarrow>
           (case fmt of c # fmt \<Rightarrow>
              if c = CHR ''s'' \<and> 0 < len \<and> (0 \<in> set s \<or> len \<le> int (length s))
              then Some ([34] @ quoted_limit s len @ [34], fmt, args) else None | _ \<Rightarrow> None) | _ \<Rightarrow> None)
     | CStarStr \<Rightarrow> (case args of LenArg len # StrArg s # args \<Rightarrow>
           if 0 < len \<and> (0 \<in> set s \<or> len \<le> int (length s))
           then Some (take (nat len) (takeWhile (\<lambda>b. b \<noteq> 0) s), fmt, args) else None | _ \<Rightarrow> None)
     | _ \<Rightarrow> None)"

lemma item_text_length:
  "item_text E conv fmt args = Some (bs, fmt', args') \<Longrightarrow> length fmt' \<le> length fmt"
  by (cases conv) (auto simp: item_text_def Let_def split: list.splits vararg.splits if_splits)

text \<open>The text of a format; \<open>None\<close> where an argument is missing or of another type, where the format is
  not one of the printer, and for callbacks.\<close>

function render :: "(string \<Rightarrow> nat \<Rightarrow> byte list) \<Rightarrow> string \<Rightarrow> 's vararg list \<Rightarrow> byte list option" where
  "render E [] args = Some []"
| "render E (c # fmt) args =
     (if c = CHR ''%''
      then (case item_text E (fst (print_conversion fmt)) (snd (print_conversion fmt)) args of
              None \<Rightarrow> None
            | Some (bs, fmt', args') \<Rightarrow> map_option (\<lambda>cs. bs @ cs) (render E fmt' args'))
      else map_option (\<lambda>cs. asc c # cs) (render E fmt args))"
  by pat_completeness auto

termination
proof (relation "measure (\<lambda>(E, fmt, args). length fmt)", goal_cases)
  case (2 E c fmt args r bs r' fmt' args')
  then show ?case using print_conversion_length [of fmt] item_text_length [of E _ "snd (print_conversion fmt)"] by fastforce
qed auto

subsection \<open>Streams that take bytes\<close>

definition writing :: "'s IOChannel \<Rightarrow> bool" where
  "writing ch \<longleftrightarrow> writable ch \<and> \<not> ch_foundEof ch"

lemma writing_ok:
  assumes "writing ch"
  shows "IOChannel_eof ch = Ok False" "\<not> IOChannel_isErrorSet ch" "while_ok ch k = k ch"
  using assms by (simp_all add: writing_def writable_def ready_eof while_ok_def) (simp_all add: ready_def IOChannel_isErrorSet_def)

text \<open>The function \<open>f\<close> writes \<open>bs\<close> wherever there is space for it, and leaves the rest of the space.\<close>

definition prints :: "(nat \<Rightarrow> 's IOChannel \<Rightarrow> bool) \<Rightarrow> (byte list \<Rightarrow> 's IOChannel \<Rightarrow> 's IOChannel \<Rightarrow> bool) \<Rightarrow>
    byte list \<Rightarrow> ('s IOChannel \<Rightarrow> 's IOChannel outcome) \<Rightarrow> bool" where
  "prints can takes bs f \<longleftrightarrow> (\<forall>ch k. writing ch \<longrightarrow> can (length bs + k) ch \<longrightarrow>
     (\<exists>ch'. f ch = Ok ch' \<and> writing ch' \<and> can k ch' \<and> takes bs ch ch'))"

lemma printsI:
  assumes "\<And>ch k. writing ch \<Longrightarrow> can (length bs + k) ch \<Longrightarrow>
    \<exists>ch'. f ch = Ok ch' \<and> writing ch' \<and> can k ch' \<and> takes bs ch ch'"
  shows "prints can takes bs f"
  using assms by (simp add: prints_def)

lemma printsD:
  assumes "prints can takes bs f" and "writing ch" and "can (length bs + k) ch"
  obtains ch' where "f ch = Ok ch'" "writing ch'" "can k ch'" "takes bs ch ch'"
  using assms by (auto simp: prints_def)

locale sink =
  fixes I :: "('s, 'a) IOChannelInterface"
    and can :: "nat \<Rightarrow> 's IOChannel \<Rightarrow> bool"
    and takes :: "byte list \<Rightarrow> 's IOChannel \<Rightarrow> 's IOChannel \<Rightarrow> bool"
  assumes write_law: "writing ch \<Longrightarrow> can (length bs + k) ch \<Longrightarrow> bs \<noteq> [] \<Longrightarrow>
      \<exists>ch'. IOChannel_writeInternal I (Some bs) ch = Ok (int (length bs), ch') \<and> writing ch' \<and> can k ch' \<and> takes bs ch ch'"
    and takes_nothing: "can k ch \<Longrightarrow> takes [] ch ch"
    and takes_more: "takes bs ch ch' \<Longrightarrow> takes cs ch' ch'' \<Longrightarrow> takes (bs @ cs) ch ch''"
    and takes_count: "takes bs ch ch' \<Longrightarrow> ch_wrDeployedBytes ch' = ch_wrDeployedBytes ch + int (length bs)"
begin

lemma prints_nothing: "prints can takes [] Ok"
  using takes_nothing by (intro printsI) auto

lemma prints_seq:
  assumes "prints can takes bs f" and "prints can takes cs g"
  shows "prints can takes (bs @ cs) (\<lambda>ch. obind (f ch) g)"
proof (rule printsI)
  fix ch k
  assume "writing ch" "can (length (bs @ cs) + k) ch"
  with printsD [OF assms(1), of ch "length cs + k"] obtain ch1 where
    "f ch = Ok ch1" "writing ch1" "can (length cs + k) ch1" "takes bs ch ch1" by (auto simp: add.assoc)
  moreover from this printsD [OF assms(2), of ch1 k] obtain ch2 where
    "g ch1 = Ok ch2" "writing ch2" "can k ch2" "takes cs ch1 ch2" by auto
  ultimately show "\<exists>ch'. obind (f ch) g = Ok ch' \<and> writing ch' \<and> can k ch' \<and> takes (bs @ cs) ch ch'"
    using takes_more by auto
qed

lemma prints_write:
  assumes "bs \<noteq> []"
  shows "prints can takes bs (\<lambda>ch. omap snd (IOChannel_writeInternal I (Some bs) ch))"
  using write_law [OF _ _ assms] by (intro printsI) fastforce

lemma prints_put:
  assumes "bs \<noteq> []" and "prints can takes cs g"
  shows "prints can takes (bs @ cs) (put_or_break I bs g)"
proof -
  have "prints can takes bs (put_or_break I bs Ok)"
    using write_law [OF _ _ assms(1)] by (intro printsI) (fastforce simp: put_or_break_def)
  from prints_seq [OF this assms(2)] have s: "prints can takes (bs @ cs) (\<lambda>ch. obind (put_or_break I bs Ok ch) g)" .
  have "put_or_break I bs g ch = obind (put_or_break I bs Ok ch) g"
    if "writing ch" "can (length (bs @ cs) + k) ch" for ch k
    using write_law [OF that(1) _ assms(1), of "length cs + k"] that(2) by (auto simp: put_or_break_def add.assoc)
  with s show ?thesis by (auto simp: prints_def)
qed

lemma prints_put_last: "bs \<noteq> [] \<Longrightarrow> prints can takes bs (put_or_break I bs Ok)"
  using prints_put [OF _ prints_nothing] by force

lemma prints_while: "prints can takes bs f \<Longrightarrow> prints can takes bs (\<lambda>ch. while_ok ch f)"
  by (simp add: prints_def writing_ok)

lemma prints_string:
  assumes "0 \<in> set s"
  shows "prints can takes (concat (map (if esc then escaped else (\<lambda>b. [b])) (takeWhile (\<lambda>b. b \<noteq> 0) s))) (print_string I esc s)"
  using assms
proof (induction s)
  case (Cons b s)
  show ?case
  proof (cases "b = 0")
    case True
    then show ?thesis using prints_nothing by (simp add: prints_def)
  next
    case False
    let ?w = "if esc then escaped b else [b]"
    have w: "?w \<noteq> []" by (simp add: escaped_def ascii_def)
    let ?rest = "concat (map (if esc then escaped else (\<lambda>b. [b])) (takeWhile (\<lambda>b. b \<noteq> 0) s))"
    have ih: "prints can takes ?rest (print_string I esc s)" using Cons False by simp
    have "\<exists>ch'. print_string I esc (b # s) ch = Ok ch' \<and> writing ch' \<and> can k ch' \<and> takes (?w @ ?rest) ch ch'"
      if a: "writing ch" "can (length (?w @ ?rest) + k) ch" for ch k
    proof -
      obtain ch1 where c1: "IOChannel_writeInternal I (Some ?w) ch = Ok (int (length ?w), ch1)" "writing ch1"
        "can (length ?rest + k) ch1" "takes ?w ch ch1"
        using write_law [OF a(1) _ w, of "length ?rest + k"] a(2) by (auto simp: add.assoc)
      obtain ch2 where "print_string I esc s ch1 = Ok ch2" "writing ch2" "can k ch2" "takes ?rest ch1 ch2"
        using printsD [OF ih c1(2,3)] .
      moreover have "1 \<le> int (length ?w)" using w by (simp add: Suc_le_eq)
      ultimately show ?thesis
        using False c1 takes_more [OF c1(4)]
        by (cases esc) (auto simp: writing_ok [OF a(1)] IOChannel_writeEscapedChar_def)
    qed
    then show ?thesis using False by (intro printsI) (cases esc; simp)
  qed
qed simp

lemma prints_quoted:
  assumes "0 \<in> set s"
  shows "prints can takes (quoted (takeWhile (\<lambda>b. b \<noteq> 0) s)) (print_quoted I s)"
  using assms
proof (induction s)
  case (Cons b s)
  show ?case
  proof (cases "b = 0")
    case True
    then show ?thesis using prints_nothing by (simp add: prints_def quoted_def)
  next
    case False
    with Cons have ih: "prints can takes (quoted (takeWhile (\<lambda>b. b \<noteq> 0) s)) (print_quoted I s)" by simp
    have "prints can takes (quoted (takeWhile (\<lambda>b. b \<noteq> 0) (b # s))) (\<lambda>ch. while_ok ch (\<lambda>ch.
        if b = 34 \<or> b = 92 then put_or_break I [92] (put_or_break I [b] (print_quoted I s)) ch
        else put_or_break I [b] (print_quoted I s) ch))"
      using prints_put [of "[b]", OF _ ih] prints_put [of "[92]", OF _ prints_put [of "[b]", OF _ ih]] False
      by (intro prints_while) (auto simp: quoted_def quote_byte_def)
    with False show ?thesis by simp
  qed
qed simp

lemma prints_quoted_limit:
  assumes "0 \<in> set s \<or> len - i \<le> int (length s)"
  shows "prints can takes (quoted_limit s (len - i)) (print_quoted_limit I s i len)"
  using assms
proof (induction s arbitrary: i)
  case Nil
  then show ?case using prints_nothing by (simp add: prints_def)
next
  case (Cons b s)
  show ?case
  proof (cases "i < len \<and> b \<noteq> 0")
    case False
    then show ?thesis using prints_nothing by (auto simp: prints_def)
  next
    case True
    with Cons have ih: "prints can takes (quoted_limit s (len - (i + 1))) (print_quoted_limit I s (i + 1) len)"
      "prints can takes (quoted_limit s (len - (i + 2))) (print_quoted_limit I s (i + 2) len)"
      by (auto intro!: Cons.IH)
    have one: "prints can takes [92] (put_or_break I [92] Ok)" by (rule prints_put_last) simp
    have "prints can takes (quoted_limit (b # s) (len - i)) (\<lambda>ch. while_ok ch (\<lambda>ch.
        if b = 34 \<or> b = 92
        then put_or_break I [92] (\<lambda>ch. if i + 1 \<ge> len then Ok ch
               else put_or_break I [b] (print_quoted_limit I s (i + 2) len) ch) ch
        else put_or_break I [b] (print_quoted_limit I s (i + 1) len) ch))"
    proof (rule prints_while, cases "b = 34 \<or> b = 92")
      case special: True
      show "prints can takes (quoted_limit (b # s) (len - i)) (\<lambda>ch.
        if b = 34 \<or> b = 92
        then put_or_break I [92] (\<lambda>ch. if i + 1 \<ge> len then Ok ch
               else put_or_break I [b] (print_quoted_limit I s (i + 2) len) ch) ch
        else put_or_break I [b] (print_quoted_limit I s (i + 1) len) ch)"
        using special True one prints_put [of "[92]", OF _ prints_put [of "[b]", OF _ ih(2)]]
        by (cases "len \<le> i + 1") (auto simp: diff_diff_eq)
    next
      case plain: False
      then show "prints can takes (quoted_limit (b # s) (len - i)) (\<lambda>ch.
        if b = 34 \<or> b = 92
        then put_or_break I [92] (\<lambda>ch. if i + 1 \<ge> len then Ok ch
               else put_or_break I [b] (print_quoted_limit I s (i + 2) len) ch) ch
        else put_or_break I [b] (print_quoted_limit I s (i + 1) len) ch)"
        using True prints_put [of "[b]", OF _ ih(1)] by (simp add: diff_diff_eq)
    qed
    with True show ?thesis by simp
  qed
qed

lemma prints_limit:
  assumes "0 \<in> set s \<or> len - i \<le> int (length s)"
  shows "prints can takes (take (nat (len - i)) (takeWhile (\<lambda>b. b \<noteq> 0) s)) (print_limit I s i len)"
  using assms
proof (induction s arbitrary: i)
  case Nil
  then show ?case using prints_nothing by (simp add: prints_def)
next
  case (Cons b s)
  show ?case
  proof (cases "i < len \<and> b \<noteq> 0")
    case False
    then show ?thesis using prints_nothing by (auto simp: prints_def)
  next
    case True
    with Cons have ih: "prints can takes (take (nat (len - (i + 1))) (takeWhile (\<lambda>b. b \<noteq> 0) s)) (print_limit I s (i + 1) len)"
      by (auto intro!: Cons.IH)
    have "nat (len - i) = Suc (nat (len - (i + 1)))" using True by arith
    with True prints_while [OF prints_put [of "[b]", OF _ ih]] show ?thesis by simp
  qed
qed

lemma prints_item:
  assumes "item_text E conv fmt args = Some (bs, fmt', args')"
  shows "\<exists>f. prints can takes bs f \<and>
    (\<forall>ch. print_item E I conv fmt args ch = obind (f ch) (\<lambda>ch. Ok (fmt', args', ch)))"
proof -
  have print: "prints can takes t (IOCHANNEL_PRINT_ITEM I t)" if "bounded_text 40 t = Some t'" for t t'
  proof -
    from that have "IOCHANNEL_PRINT_ITEM I t = (\<lambda>ch. omap snd (IOChannel_writeInternal I (Some t) ch))" "t \<noteq> []"
      by (auto simp: bounded_text_def IOCHANNEL_PRINT_ITEM_def fun_eq_iff split: if_splits)
    with prints_write [of t] show ?thesis by simp
  qed
  have put: "prints can takes t (put_or_break I t Ok)" if "t \<noteq> []" for t using prints_put_last [OF that] .
  have quote: "prints can takes ([34] @ t @ [34]) (put_or_break I [34] (\<lambda>ch. obind (f ch) (put_or_break I [34] Ok)))"
    if "prints can takes t f" for t f
    using prints_put [of "[34]", OF _ prints_seq [OF that put [of "[34]"]]] by simp
  have char: "prints can takes (char_quoted c) (print_char_quoted I c)" for c
  proof -
    have "print_char_quoted I c = (if IOCHANNEL_ISPRINT c
        then put_or_break I [39] (put_or_break I [c] (put_or_break I [39] Ok)) else put_or_break I (char_quoted c) Ok)"
      by (simp add: fun_eq_iff print_char_quoted_def char_quoted_def Let_def)
    then show ?thesis
      using put [of "char_quoted c"] prints_put [of "[39]", OF _ prints_put [of "[c]", OF _ prints_put_last [of "[39]"]]]
      by (auto simp: char_quoted_def Let_def)
  qed
  show ?thesis
  proof (cases conv)
    case CPercent
    with assms show ?thesis by (intro exI [of _ "put_or_break I [37] Ok"]) (auto simp: item_text_def print_item_def intro: put)
  next
    case CChar
    with assms print [of bs bs] show ?thesis
      by (intro exI [of _ "IOCHANNEL_PRINT_ITEM I bs"])
        (auto simp: item_text_def print_item_def bounded_text_def split: list.splits vararg.splits)
  next
    case (CNum t)
    with assms print [of bs bs] show ?thesis
      by (intro exI [of _ "IOCHANNEL_PRINT_ITEM I bs"])
        (auto simp: item_text_def print_item_def bounded_text_def split: list.splits vararg.splits if_splits)
  next
    case (CFloat t)
    with assms print [of bs bs] show ?thesis
      by (intro exI [of _ "IOCHANNEL_PRINT_ITEM I bs"])
        (auto simp: item_text_def print_item_def bounded_text_def split: list.splits vararg.splits if_splits)
  next
    case CPointer
    with assms put [of bs] show ?thesis
      by (intro exI [of _ "put_or_break I bs Ok"]) (auto simp: item_text_def print_item_def bounded_text_def split: list.splits vararg.splits if_splits)
  next
    case (CStr esc)
    with assms obtain s where s: "args = StrArg s # args'" "0 \<in> set s" "fmt' = fmt"
      "bs = concat (map (if esc then escaped else (\<lambda>b. [b])) (takeWhile (\<lambda>b. b \<noteq> 0) s))"
      by (auto simp: item_text_def cstring_def split: list.splits vararg.splits if_splits)
    with CStr prints_string [OF s(2), of esc] show ?thesis by (auto simp: print_item_def)
  next
    case CQChar
    with assms obtain c where "args = CharArg c # args'" "fmt' = fmt" "bs = char_quoted c"
      by (auto simp: item_text_def split: list.splits vararg.splits)
    with CQChar char [of c] show ?thesis by (auto simp: print_item_def)
  next
    case CQStr
    with assms obtain s where "args = StrArg s # args'" "0 \<in> set s" "fmt' = fmt"
      "bs = [34] @ quoted (takeWhile (\<lambda>b. b \<noteq> 0) s) @ [34]"
      by (auto simp: item_text_def cstring_def split: list.splits vararg.splits if_splits)
    with CQStr quote [OF prints_quoted] show ?thesis by (auto simp: print_item_def)
  next
    case CStarQ
    with assms obtain len s where s: "args = LenArg len # StrArg s # args'" "0 < len" "fmt = CHR ''s'' # fmt'"
      "0 \<in> set s \<or> len - 0 \<le> int (length s)" "bs = [34] @ quoted_limit s (len - 0) @ [34]"
      by (auto simp: item_text_def split: list.splits vararg.splits if_splits)
    with CStarQ quote [OF prints_quoted_limit [OF s(4)]] show ?thesis by (auto simp: print_item_def)
  next
    case CStarStr
    with assms obtain len s where s: "args = LenArg len # StrArg s # args'" "0 < len" "fmt = fmt'"
      "0 \<in> set s \<or> len - 0 \<le> int (length s)" "bs = take (nat (len - 0)) (takeWhile (\<lambda>b. b \<noteq> 0) s)"
      by (auto simp: item_text_def split: list.splits vararg.splits if_splits)
    with CStarStr prints_limit [OF s(4)] show ?thesis by (auto simp: print_item_def)
  qed (use assms in \<open>simp_all add: item_text_def\<close>)
qed

lemma prints_loop: "render E fmt args = Some bs \<Longrightarrow> prints can takes bs (print_loop E I fmt args)"
proof (induction E fmt args arbitrary: bs rule: render.induct)
  case (1 E args)
  then show ?case using prints_nothing by (simp add: prints_def)
next
  case (2 E c fmt args)
  show ?case
  proof (cases "c = CHR ''%''")
    case True
    obtain conv fmt1 where conv: "print_conversion fmt = (conv, fmt1)" by fastforce
    with 2 True obtain ts fmt' args' cs where t: "item_text E conv fmt1 args = Some (ts, fmt', args')"
      "render E fmt' args' = Some cs" "bs = ts @ cs"
      by (auto split: option.splits)
    with 2 True conv have ih: "prints can takes cs (print_loop E I fmt' args')" by auto
    obtain f where f: "prints can takes ts f"
      "\<And>ch. print_item E I conv fmt1 args ch = obind (f ch) (\<lambda>ch. Ok (fmt', args', ch))"
      using prints_item [OF t(1)] by blast
    have "print_loop E I (c # fmt) args = (\<lambda>ch. while_ok ch (\<lambda>ch. obind (f ch) (print_loop E I fmt' args')))"
      using True conv by (simp add: fun_eq_iff f(2) obind_assoc)
    with prints_while [OF prints_seq [OF f(1) ih]] t(3) show ?thesis by simp
  next
    case False
    with 2 obtain cs where cs: "bs = [asc c] @ cs" "prints can takes cs (print_loop E I fmt args)" by auto
    have "print_loop E I (c # fmt) args = (\<lambda>ch. while_ok ch (put_or_break I [asc c] (print_loop E I fmt args)))"
      using False by (simp add: fun_eq_iff)
    with prints_while [OF prints_put [of "[asc c]", OF _ cs(2)]] cs(1) show ?thesis by simp
  qed
qed

lemma printf_renders:
  assumes "writing ch" and "render E fmt args = Some bs" and "can (length bs + k) ch"
  shows "\<exists>ch'. IOChannel_printf E I fmt args ch = Ok (int (length bs), ch') \<and> writing ch' \<and> can k ch' \<and> takes bs ch ch'"
proof -
  obtain ch' where ch': "print_loop E I fmt args ch = Ok ch'" "writing ch'" "can k ch'" "takes bs ch ch'"
    using printsD [OF prints_loop [OF assms(2)] assms(1,3)] .
  have w: "writable ch" "ready ch" using assms(1) by (simp_all add: writing_def writable_def)
  with ch' takes_count [OF ch'(4)] show ?thesis
    by (simp add: IOChannel_printf_def IOChannel_printFormatting_def ready_simps [OF w(2)] writable_simps [OF w(1)]
        writing_ok [OF ch'(2)])
qed

end

subsection \<open>The memory, the measuring and the null stream take bytes\<close>

text \<open>A memory channel takes bytes up to the end of its memory.\<close>

definition mf_put :: "byte list \<Rightarrow> mfile \<Rightarrow> mfile" where
  "mf_put bs a = a\<lparr>mf_bytes := take (mf_pos a) (mf_bytes a) @ bs @ drop (mf_pos a + length bs) (mf_bytes a),
     mf_pos := mf_pos a + length bs, mf_last := (if bs = [] then mf_last a else 0)\<rparr>"

definition mem_space :: "nat \<Rightarrow> mem_channel \<Rightarrow> bool" where
  "mem_space k ch \<longleftrightarrow> mem_inv ch \<and> mf_pos (mem_view ch) + k \<le> length (mf_bytes (mem_view ch))"

definition mem_takes :: "byte list \<Rightarrow> mem_channel \<Rightarrow> mem_channel \<Rightarrow> bool" where
  "mem_takes bs ch ch' \<longleftrightarrow> mem_space (length bs) ch \<and> mem_inv ch' \<and> mem_view ch' = mf_put bs (mem_view ch) \<and>
     ch_wrDeployedBytes ch' = ch_wrDeployedBytes ch + int (length bs)"

lemma mf_put_put:
  "mf_pos a + length bs \<le> length (mf_bytes a) \<Longrightarrow> mf_put cs (mf_put bs a) = mf_put (bs @ cs) a"
  by (simp add: mf_put_def min_absorb2 add.commute add.left_commute)

lemma mem_space_cases:
  assumes "mem_space k ch"
  obtains st m pos last where "readable ch" "writable ch" "ready ch" "mem_stream ch st m pos"
    "mem_view ch = \<lparr>mf_bytes = m, mf_pos = pos, mf_ungot = ungot ch, mf_room = room (ch_ungetBuffer ch),
       mf_eof = ch_foundEof ch, mf_last = last\<rparr>" "pos + k \<le> length m"
proof -
  from assms have "mem_inv ch" by (simp add: mem_space_def)
  then show ?thesis
    by (cases rule: mem_inv_cases) (use assms that in \<open>auto simp: mem_space_def\<close>)
qed

lemma mem_sink_write:
  assumes "writing ch" and "mem_space (length bs + k) ch" and "bs \<noteq> []"
  shows "\<exists>ch'. IOChannel_writeInternal IOChannelMemOps (Some bs) ch = Ok (int (length bs), ch') \<and> writing ch' \<and>
    mem_space k ch' \<and> mem_takes bs ch ch'"
  using assms(2)
proof (cases rule: mem_space_cases)
  case (1 st m pos last)
  have legal: "mf_legal (Write bs) (mem_view ch)" using 1(5,6) assms(3) by (cases bs) auto
  from mem_write_ok [OF _ this] assms(2) obtain ch' where
    "mf_step (Write bs) ch = Ok (fst (mf_spec (Write bs) (mem_view ch)), ch')" "mem_inv ch'"
    "mem_view ch' = snd (mf_spec (Write bs) (mem_view ch))"
    by (auto simp: mem_space_def)
  moreover have "min (length bs) (length m - pos) = length bs" using 1(6) by simp
  ultimately have ch': "IOChannel_writeInternal IOChannelMemOps (Some bs) ch = Ok (int (length bs), ch')" "mem_inv ch'"
    "mem_view ch' = mf_put bs (mem_view ch)" "mf_eof (mem_view ch') = mf_eof (mem_view ch)"
    using 1(2,5) assms(3) by (auto simp: omap_def outcome_Ok_iffs write_writable mf_put_def Let_def)
  have "pos < length m" using 1(6) assms(3) by (cases bs) simp_all
  with 1(4) have "mem_can ch" by (auto simp: mem_can_def)
  from mem.write_counts [OF 1(2) this assms(3)] ch'(1)
  have "ch_wrDeployedBytes ch' = ch_wrDeployedBytes ch + int (length bs)" by auto
  moreover have "writing ch'"
    using ch'(2,4) assms(1) by (auto simp: writing_def mem_inv_def mem_view_def)
  ultimately show ?thesis
    using ch' 1 assms(2) by (auto simp: mem_space_def mem_takes_def mf_put_def)
qed

interpretation mem_sink: sink IOChannelMemOps mem_space mem_takes
proof
  fix ch ch' ch'' :: mem_channel and bs cs k
  show "writing ch \<Longrightarrow> mem_space (length bs + k) ch \<Longrightarrow> bs \<noteq> [] \<Longrightarrow>
      \<exists>ch'. IOChannel_writeInternal IOChannelMemOps (Some bs) ch = Ok (int (length bs), ch') \<and> writing ch' \<and>
        mem_space k ch' \<and> mem_takes bs ch ch'"
    by (rule mem_sink_write)
  show "mem_space k ch \<Longrightarrow> mem_takes [] ch ch"
    by (simp add: mem_takes_def mem_space_def mf_put_def)
  show "mem_takes bs ch ch' \<Longrightarrow> mem_takes cs ch' ch'' \<Longrightarrow> mem_takes (bs @ cs) ch ch''"
    by (auto simp: mem_takes_def mem_space_def mf_put_put) (auto simp: mf_put_def)
  show "mem_takes bs ch ch' \<Longrightarrow> ch_wrDeployedBytes ch' = ch_wrDeployedBytes ch + int (length bs)"
    by (simp add: mem_takes_def)
qed

lemma stream_update_inject:
  "ch\<lparr>ch_streamPtr := p, ch_foundEof := e\<rparr> = ch\<lparr>ch_streamPtr := q, ch_foundEof := f\<rparr> \<longleftrightarrow> p = q \<and> e = f"
  "ch = ch\<lparr>ch_streamPtr := q, ch_foundEof := f\<rparr> \<longleftrightarrow> ch_streamPtr ch = q \<and> ch_foundEof ch = f"
  by (cases ch, auto)+

definition counts_bytes :: "byte list \<Rightarrow> 's IOChannel \<Rightarrow> 's IOChannel \<Rightarrow> bool" where
  "counts_bytes bs ch ch' \<longleftrightarrow> ch_wrDeployedBytes ch' = ch_wrDeployedBytes ch + int (length bs)"

interpretation calc_sink: sink IOChannelCalcOps "\<lambda>k. calc_can" counts_bytes
proof
  fix ch :: calc_channel and bs :: "byte list"
  assume "writing ch" "calc_can ch" "bs \<noteq> []"
  then obtain st where st: "writable ch" "ch_streamPtr ch = Own st" "\<not> ch_foundEof ch" "ready ch" "calc_can ch" "bs \<noteq> []"
    by (auto simp: writing_def calc_can_def writable_def)
  from calc.write_counts [OF st(1,5,6)] calc_write [OF st(4,2), of bs] st
  show "\<exists>ch'. IOChannel_writeInternal IOChannelCalcOps (Some bs) ch = Ok (int (length bs), ch') \<and> writing ch' \<and>
        calc_can ch' \<and> counts_bytes bs ch ch'"
    by (auto simp: writing_def calc_can_def counts_bytes_def stream_update_inject)
qed (simp_all add: counts_bytes_def)

interpretation null_sink: sink IOChannelNullOps "\<lambda>k ch. True" counts_bytes
proof
  fix ch :: "unit IOChannel" and bs :: "byte list"
  assume "writing ch" "bs \<noteq> []"
  then show "\<exists>ch'. IOChannel_writeInternal IOChannelNullOps (Some bs) ch = Ok (int (length bs), ch') \<and> writing ch' \<and>
        True \<and> counts_bytes bs ch ch'"
    using null.write_counts [of ch bs]
    by (auto simp: writing_def counts_bytes_def IOChannelNullOps_def IOChannelNull_write_def stream_update_inject)
qed (simp_all add: counts_bytes_def)

subsection \<open>Streams that deliver bytes\<close>

definition reading :: "'s IOChannel \<Rightarrow> bool" where
  "reading ch \<longleftrightarrow> readable ch \<and> \<not> ch_foundEof ch"

lemma reading_ok:
  assumes "reading ch"
  shows "IOChannel_eof ch = Ok False" "\<not> IOChannel_isErrorSet ch"
  using assms by (simp_all add: reading_def readable_def ready_eof) (simp add: ready_def IOChannel_isErrorSet_def)

lemma reading_scan_ok: "reading (sc_ch s) \<Longrightarrow> scan_ok s = Ok True"
  by (simp add: scan_ok_def reading_ok)

text \<open>\<open>left ch\<close> is what the channel still has to deliver.\<close>

locale source =
  fixes I :: "('s, 'a) IOChannelInterface"
    and left :: "'s IOChannel \<Rightarrow> byte list"
  assumes read_law: "reading ch \<Longrightarrow> left ch = b # bs \<Longrightarrow>
      \<exists>ch'. IOChannel_readInternal I 1 ch = Ok (1, [b], ch') \<and> reading ch' \<and> left ch' = bs \<and>
        ch_rdBytesFromLastWrite ch' = ch_rdBytesFromLastWrite ch + 1"
begin

text \<open>\<open>moves s s' k\<close>: the scanner has read \<open>k\<close> bytes, the last of them into its buffer.\<close>

definition moves :: "'s scan \<Rightarrow> 's scan \<Rightarrow> nat \<Rightarrow> bool" where
  "moves s s' k \<longleftrightarrow> reading (sc_ch s') \<and> k \<le> length (left (sc_ch s)) \<and> left (sc_ch s') = drop k (left (sc_ch s)) \<and>
     ch_rdBytesFromLastWrite (sc_ch s') = ch_rdBytesFromLastWrite (sc_ch s) + int k \<and>
     sc_done s' = sc_done s \<and> sc_args s' = sc_args s \<and> sc_items s' = sc_items s"

lemma moves_refl: "reading (sc_ch s) \<Longrightarrow> moves s s 0"
  by (simp add: moves_def)

lemma moves_trans: "moves s s' k \<Longrightarrow> moves s' s'' m \<Longrightarrow> moves s s'' (k + m)"
  by (auto simp: moves_def add.commute)

lemma scan_read_moves:
  assumes "reading (sc_ch s)" and "left (sc_ch s) = b # bs"
  shows "\<exists>s'. scan_read c I s = Ok (True, s') \<and> moves s s' 1 \<and> sc_b s' = b \<and> left (sc_ch s') = bs"
  using read_law [OF assms] assms(2) by (auto simp: scan_read_def moves_def)

lemma skip_spaces_moves:
  assumes "reading (sc_ch s)" and "sc_b s # left (sc_ch s) = sp @ b # bs" and "\<forall>c \<in> set sp. IOCHANNEL_ISSPACE c"
    and "\<not> IOCHANNEL_ISSPACE b" and "length sp < n"
  shows "\<exists>s'. skip_spaces n I s = Ok s' \<and> moves s s' (length sp) \<and> sc_b s' = b \<and> left (sc_ch s') = bs"
  using assms
proof (induction sp arbitrary: s n)
  case Nil
  then show ?case by (cases n) (auto intro: moves_refl)
next
  case (Cons c sp)
  then obtain m where n: "n = Suc m" by (cases n) auto
  have c: "sc_b s = c" "left (sc_ch s) = sp @ b # bs" "IOCHANNEL_ISSPACE c" using Cons.prems by auto
  obtain d ds where d: "left (sc_ch s) = d # ds" using c(2) by (cases sp) auto
  from scan_read_moves [OF Cons.prems(1) d] obtain s1 where s1: "scan_read False I s = Ok (True, s1)" "moves s s1 1"
    "sc_b s1 = d" "left (sc_ch s1) = ds" by blast
  have "reading (sc_ch s1)" "sc_b s1 # left (sc_ch s1) = sp @ b # bs" using s1 d c by (simp_all add: moves_def)
  from Cons.IH [OF this, of m] Cons.prems(3-5) n obtain s2 where s2: "skip_spaces m I s1 = Ok s2" "moves s1 s2 (length sp)"
    "sc_b s2 = b" "left (sc_ch s2) = bs" by auto
  with moves_trans [OF s1(2) s2(2)] s1 c n show ?case by (simp add: reading_scan_ok Cons.prems(1))
qed

lemma READSPACES_moves:
  assumes "reading (sc_ch s)" and "left (sc_ch s) = sp @ b # bs" and "\<forall>c \<in> set sp. IOCHANNEL_ISSPACE c"
    and "\<not> IOCHANNEL_ISSPACE b" and "length sp + 1 < n"
  shows "\<exists>s'. IOCHANNEL_READSPACES n I s = Ok s' \<and> moves s s' (length sp + 1) \<and> sc_b s' = b \<and> left (sc_ch s') = bs"
  using skip_spaces_moves [of "s\<lparr>sc_b := 32\<rparr>" "32 # sp" b bs n] assms
  by (auto simp: IOCHANNEL_READSPACES_def IOCHANNEL_ISSPACE_def moves_def)

text \<open>Reaching the byte itself behind a backslash.\<close>

definition scan_unescape :: "'s scan \<Rightarrow> (bool \<times> 's scan) outcome" where
  "scan_unescape s = (if sc_b s = 92 then scan_read True I s else Ok (True, s))"

lemma scan_unescape_moves:
  assumes "reading (sc_ch s)" and "sc_b s # left (sc_ch s) = quote_byte x @ bs"
  shows "\<exists>s'. scan_unescape s = Ok (True, s') \<and> moves s s' (length (quote_byte x) - 1) \<and> sc_b s' = x \<and>
    left (sc_ch s') = bs \<and> sc_b s \<noteq> 34"
proof (cases "x = 34 \<or> x = 92")
  case True
  then have "sc_b s = 92" "left (sc_ch s) = x # bs" using assms(2) by (auto simp: quote_byte_def)
  with scan_read_moves [OF assms(1) this(2), of True] True show ?thesis by (auto simp: scan_unescape_def quote_byte_def)
next
  case False
  with assms show ?thesis by (auto simp: scan_unescape_def quote_byte_def moves_refl)
qed

lemma scan_quoted_step:
  assumes "reading (sc_ch s)" and "sc_b s \<noteq> 34" and "scan_unescape s = Ok (True, s1)"
    and "scan_read True I s1 = Ok (True, s2)" and "pos < length buf"
  shows "scan_quoted (Suc m) I None 34 buf pos s = scan_quoted m I None 34 (buf[pos := sc_b s1]) (pos + 1) s2"
  using assms
  by (subst scan_quoted.simps)
    (auto simp: scan_unescape_def reading_scan_ok poke_def Let_def split: if_splits)

text \<open>The bytes of a quoted string behind the opening quote, the first of them in the buffer.\<close>

lemma scan_quoted_moves:
  assumes "reading (sc_ch s)" and "sc_b s # left (sc_ch s) = quoted xs @ 34 # rest" and "pos + length xs \<le> length buf"
    and "length xs \<le> fuel"
  shows "\<exists>s'. scan_quoted fuel I None 34 buf pos s = Ok (take pos buf @ xs @ drop (pos + length xs) buf, pos + length xs, s') \<and>
    moves s s' (length (quoted xs)) \<and> sc_b s' = 34 \<and> left (sc_ch s') = rest"
  using assms
proof (induction xs arbitrary: s pos buf fuel)
  case Nil
  then show ?case by (subst scan_quoted.simps) (auto simp: quoted_def reading_scan_ok moves_refl)
next
  case (Cons x xs)
  obtain m where fuel: "fuel = Suc m" "length xs \<le> m" using Cons.prems(4) by (cases fuel) auto
  have q: "quoted (x # xs) = quote_byte x @ quoted xs" by (simp add: quoted_def)
  obtain d ds where d: "quoted xs @ 34 # rest = d # ds" by (cases "quoted xs") auto
  have pos: "pos < length buf" using Cons.prems(3) by simp
  obtain s1 where s1: "scan_unescape s = Ok (True, s1)" "moves s s1 (length (quote_byte x) - 1)" "sc_b s1 = x"
    "left (sc_ch s1) = d # ds" "sc_b s \<noteq> 34"
    using scan_unescape_moves [OF Cons.prems(1), of x "d # ds"] Cons.prems(2) q d by auto
  have "reading (sc_ch s1)" using s1(2) by (simp add: moves_def)
  from scan_read_moves [OF this s1(4), of True] obtain s2 where s2: "scan_read True I s1 = Ok (True, s2)" "moves s1 s2 1"
    "sc_b s2 = d" "left (sc_ch s2) = ds" by blast
  have "reading (sc_ch s2)" "sc_b s2 # left (sc_ch s2) = quoted xs @ 34 # rest"
    using s2 d by (simp_all add: moves_def)
  from Cons.IH [OF this, of "Suc pos" "buf[pos := x]" m] Cons.prems(3) fuel obtain s' where s':
    "scan_quoted m I None 34 (buf[pos := x]) (Suc pos) s2 =
       Ok (take (Suc pos) (buf[pos := x]) @ xs @ drop (Suc (pos + length xs)) (buf[pos := x]), Suc (pos + length xs), s')"
    "moves s2 s' (length (quoted xs))" "sc_b s' = 34" "left (sc_ch s') = rest" by auto
  have "scan_quoted fuel I None 34 buf pos s = scan_quoted m I None 34 (buf[pos := x]) (Suc pos) s2"
    using scan_quoted_step [OF Cons.prems(1) s1(5,1) s2(1) pos, of m] s1(3) fuel(1) by simp
  moreover have "moves s s' (length (quoted (x # xs)))"
    using moves_trans [OF moves_trans [OF s1(2) s2(2)] s'(2)] by (simp add: q) (simp add: quote_byte_def split: if_splits)
  moreover have "take (Suc pos) (buf[pos := x]) = take pos buf @ [x]"
    using pos by (simp add: take_Suc_conv_app_nth)
  ultimately show ?case using s' pos by auto
qed

lemma scan_qstr_moves:
  assumes "reading (sc_ch s)" and "left (sc_ch s) = sp @ [34] @ quoted xs @ [34] @ rest" and "\<forall>c \<in> set sp. IOCHANNEL_ISSPACE c"
    and "length sp + 1 < n" and "sc_args s = StrArg buf # args" and "length xs < length buf"
  shows "\<exists>s'. scan_qstr n I s = Ok (pass (StrArg (xs @ [0] @ drop (length xs + 1) buf)) args s') \<and>
    moves s s' (length sp + length (quoted xs) + 2) \<and> left (sc_ch s') = rest"
proof -
  have "\<not> IOCHANNEL_ISSPACE 34" by (simp add: IOCHANNEL_ISSPACE_def)
  with READSPACES_moves [OF assms(1), of sp 34 "quoted xs @ [34] @ rest" n] assms(2-4) obtain s1 where s1:
    "IOCHANNEL_READSPACES n I s = Ok s1" "moves s s1 (length sp + 1)" "sc_b s1 = 34" "left (sc_ch s1) = quoted xs @ [34] @ rest"
    by auto
  obtain d ds where d: "quoted xs @ 34 # rest = d # ds" by (cases "quoted xs") auto
  have "reading (sc_ch s1)" "left (sc_ch s1) = d # ds" using s1 d by (simp_all add: moves_def)
  from scan_read_moves [OF this, of True] obtain s2 where s2: "scan_read True I s1 = Ok (True, s2)" "moves s1 s2 1"
    "sc_b s2 = d" "left (sc_ch s2) = ds" by blast
  have "reading (sc_ch s2)" "sc_b s2 # left (sc_ch s2) = quoted xs @ 34 # rest" using s2 d by (simp_all add: moves_def)
  from scan_quoted_moves [OF this, of 0 buf "length buf"] assms(6) obtain s3 where s3:
    "scan_quoted (length buf) I None 34 buf 0 s2 = Ok (xs @ drop (length xs) buf, length xs, s3)"
    "moves s2 s3 (length (quoted xs))" "left (sc_ch s3) = rest" by auto
  have "moves s s3 (length sp + length (quoted xs) + 2)"
    using moves_trans [OF moves_trans [OF s1(2) s2(2)] s3(2)] by (simp add: add.commute)
  note m = this
  have "(xs @ drop (length xs) buf)[length xs := 0] = xs @ [0] @ drop (length xs + 1) buf"
    using assms(6) by (simp add: list_update_append Cons_nth_drop_Suc [symmetric])
  then have "scan_qstr n I s = Ok (pass (StrArg (xs @ [0] @ drop (length xs + 1) buf)) args s3)"
    using assms(5,6) s1(1,3) s2(1) s3(1) by (simp add: scan_qstr_def poke_def Let_def)
  with m s3(3) show ?thesis by blast
qed

lemma scanf_qs:
  assumes "reading ch" and "left ch = sp @ [34] @ quoted xs @ [34] @ rest" and "\<forall>c \<in> set sp. IOCHANNEL_ISSPACE c"
    and "length sp + 1 < n" and "length xs < length buf"
  shows "\<exists>ch'. IOChannel_scanf S n I ''%qs'' [StrArg buf] ch =
      Ok (1, Some (int (length sp + length (quoted xs) + 2)), [StrArg (xs @ [0] @ drop (length xs + 1) buf)], ch') \<and>
    reading ch' \<and> left ch' = rest"
proof -
  let ?s = "\<lparr>sc_done = [], sc_args = [StrArg buf], sc_items = 0, sc_i = 0, sc_b = 0, sc_ch = ch\<rparr>"
  obtain s' where s: "scan_qstr n I ?s = Ok (pass (StrArg (xs @ [0] @ drop (length xs + 1) buf)) [] s')"
    "moves ?s s' (length sp + length (quoted xs) + 2)" "left (sc_ch s') = rest"
    using scan_qstr_moves [of ?s sp xs rest n buf "[]"] assms by auto
  have "scan_loop S n I ''%qs'' ?s = Ok ((pass (StrArg (xs @ [0] @ drop (length xs + 1) buf)) [] s')\<lparr>sc_items := 1\<rparr>)"
    using assms(1) s(1,2)
    by (simp add: moves_def scan_loop.simps reading_scan_ok scan_conversion_def print_conversion_def next_char_def scan_item_def pass_def)
  moreover have "readable ch" "ready ch" using assms(1) by (simp_all add: reading_def readable_def)
  ultimately show ?thesis
    using s(2,3)
    by (simp add: moves_def IOChannel_scanf_def IOChannel_scanFormatting_def ready_simps readable_simps reading_ok pass_def)
qed

end

text \<open>A memory channel delivers what has been ungot and then the rest of its memory.\<close>

definition mem_left :: "mem_channel \<Rightarrow> byte list" where
  "mem_left ch = (if mem_inv ch then mf_ungot (mem_view ch) @ drop (mf_pos (mem_view ch)) (mf_bytes (mem_view ch)) else [])"

interpretation mem_source: source IOChannelMemOps mem_left
proof
  fix ch :: mem_channel and b bs
  assume a: "reading ch" "mem_left ch = b # bs"
  then have inv: "mem_inv ch" by (simp add: mem_left_def split: if_splits)
  then show "\<exists>ch'. IOChannel_readInternal IOChannelMemOps 1 ch = Ok (1, [b], ch') \<and> reading ch' \<and> mem_left ch' = bs \<and>
      ch_rdBytesFromLastWrite ch' = ch_rdBytesFromLastWrite ch + 1"
  proof (cases rule: mem_inv_cases)
    case (1 st m pos last)
    have l: "ungot ch @ drop pos m = b # bs" using a(2) inv 1(11) by (simp add: mem_left_def)
    have pos: "pos < length m" if "ungot ch = []" using l that by (cases "pos < length m") auto
    then have "mf_legal (Read 1) (mem_view ch)" using 1(11) by (cases "ungot ch") auto
    from mem_read_ok [OF inv this] obtain ch' where ch': "mf_step (Read 1) ch = Ok (fst (mf_spec (Read 1) (mem_view ch)), ch')"
      "mem_inv ch'" "mem_view ch' = snd (mf_spec (Read 1) (mem_view ch))" by blast
    have r: "fst (mf_spec (Read 1) (mem_view ch)) = Bytes 1 [b] \<and> mem_left ch' = bs \<and>
      mf_eof (mem_view ch') = mf_eof (mem_view ch) \<and> mf_last (mem_view ch') = Suc (mf_last (mem_view ch))"
    proof (cases "ungot ch")
      case Nil
      then have "pos < length m" "m ! pos = b" "drop (Suc pos) m = bs" "take 1 (drop pos m) = [b]" "min 1 (length m - pos) = 1"
        using l pos by (simp_all add: Cons_nth_drop_Suc [symmetric])
      with Nil 1(11) ch'(2,3) show ?thesis by (simp add: mem_left_def)
    next
      case (Cons c cs)
      with l 1(11) ch'(2,3) show ?thesis by (simp add: mem_left_def)
    qed
    have "IOChannel_read IOChannelMemOps (int 1) ch = Ok (1, [b], ch')"
      using ch'(1) r by (auto simp: omap_def outcome_Ok_iffs)
    moreover have "reading ch'" "ch_rdBytesFromLastWrite ch' = ch_rdBytesFromLastWrite ch + 1"
      using a(1) ch'(2) r 1(10,11) by (auto simp: reading_def mem_inv_def mem_view_def)
    moreover have "mem_left ch' = bs" using r by blast
    ultimately show ?thesis
      using read_readable [OF 1(1), of IOChannelMemOps 1] by (intro exI [of _ ch']) simp
  qed
qed

subsection \<open>Properties\<close>

text \<open>C21: Printing into memory with enough space left writes exactly the text that the format and the arguments
  stand for, byte by byte at the position of the channel, leaves the rest of the memory as it was, and returns the
  number of bytes; this covers every conversion of the printer except callbacks. The text of \<^verbatim>\<open>%qs\<close> is that of the code:
  quotes and backslashes are escaped and all other bytes are printed as they are, also those that are not printable, which
  \<^verbatim>\<open>IOChannel.h\<close> documents as hexadecimal.\<close>

theorem IOChannel_printf_renders:
  assumes "mem_inv ch" and "\<not> mf_eof (mem_view ch)" and "render E fmt args = Some bs"
    and "mf_pos (mem_view ch) + length bs \<le> length (mf_bytes (mem_view ch))"
  shows "\<exists>ch'. IOChannel_printf E IOChannelMemOps fmt args ch = Ok (int (length bs), ch') \<and> mem_inv ch' \<and>
    mem_view ch' = mf_put bs (mem_view ch)"
proof -
  have "writing ch" using assms(1,2) by (auto simp: writing_def mem_inv_def mem_view_def)
  moreover have "mem_space (length bs + 0) ch" using assms(1,4) by (simp add: mem_space_def)
  ultimately show ?thesis
    using mem_sink.printf_renders [OF _ assms(3)] by (fastforce simp: mem_takes_def)
qed

lemma render_example:
  "render (\<lambda>_ _. []) ''n=%d %qs.'' [NumArg TInt (- 42), StrArg [97, 34, 0]] =
     Some [110, 61, 45, 52, 50, 32, 34, 97, 92, 34, 34, 46]"
  by (simp add: print_conversion_def next_char_def item_text_def num_text_def signed_decimal_def decimal.simps
      bounded_text_def cstring_def quoted_def quote_byte_def)

theorem IOChannel_printf_renders_witness:
  "\<exists>ch ch'. mem_inv ch \<and> IOChannel_printf (\<lambda>_ _. []) IOChannelMemOps ''n=%d %qs.'' [NumArg TInt (- 42), StrArg [97, 34, 0]] ch
       = Ok (12, ch') \<and>
     mf_bytes (mem_view ch') = [110, 61, 45, 52, 50, 32, 34, 97, 92, 34, 34, 46, 0, 0]"
proof -
  obtain ch0 :: mem_channel and mem where i: "IOChannel_init IOChannel_zero 20 = Ok (True, ch0, mem)" "fresh_channel ch0" "20 = mem + 8"
    using IOChannel_init_ok [of 20] by auto
  then obtain ch where ch: "mem_inv ch" "mem_view ch = \<lparr>mf_bytes = replicate 14 0, mf_pos = 0, mf_ungot = [],
      mf_room = 1024, mf_eof = False, mf_last = 0\<rparr>"
    using IOChannelMem_open_file [of ch0 "replicate 14 0" mem] by auto
  from IOChannel_printf_renders [OF ch(1) _ render_example] ch(2) obtain ch' where
    "IOChannel_printf (\<lambda>_ _. []) IOChannelMemOps ''n=%d %qs.'' [NumArg TInt (- 42), StrArg [97, 34, 0]] ch = Ok (12, ch')"
    "mem_view ch' = mf_put [110, 61, 45, 52, 50, 32, 34, 97, 92, 34, 34, 46] (mem_view ch)"
    by auto
  with ch show ?thesis by (intro exI [of _ ch] exI [of _ ch']) (simp add: mf_put_def numeral_eq_Suc)
qed

text \<open>The same argument for channels of two kinds of streams; callbacks are not comparable.\<close>

fun same_arg :: "'s vararg \<Rightarrow> 't vararg \<Rightarrow> bool" where
  "same_arg NullArg NullArg = True"
| "same_arg (CharArg c) (CharArg d) = (c = d)"
| "same_arg (NumArg t v) (NumArg u w) = (t = u \<and> v = w)"
| "same_arg (FloatArg t v) (FloatArg u w) = (t = u \<and> v = w)"
| "same_arg (PtrArg a) (PtrArg b) = (a = b)"
| "same_arg (StrArg s) (StrArg t) = (s = t)"
| "same_arg (LenArg i) (LenArg j) = (i = j)"
| "same_arg _ _ = False"

lemma same_arg_iffs:
  "same_arg (CharArg c) b \<longleftrightarrow> b = CharArg c"
  "same_arg (NumArg t v) b \<longleftrightarrow> b = NumArg t v"
  "same_arg (FloatArg f x) b \<longleftrightarrow> b = FloatArg f x"
  "same_arg (PtrArg a) b \<longleftrightarrow> b = PtrArg a"
  "same_arg (StrArg s) b \<longleftrightarrow> b = StrArg s"
  "same_arg (LenArg i) b \<longleftrightarrow> b = LenArg i"
  by (cases b; auto)+

lemma item_text_same:
  assumes "item_text E conv fmt args = Some (bs, fmt', args')" and "list_all2 same_arg args args2"
  shows "\<exists>args2'. item_text E conv fmt args2 = Some (bs, fmt', args2') \<and> list_all2 same_arg args' args2'"
  using assms
  by (cases conv)
    (auto simp: item_text_def list_all2_Cons1 same_arg_iffs split: list.splits vararg.splits if_splits)

lemma render_same:
  "render E fmt args = Some bs \<Longrightarrow> list_all2 same_arg args args2 \<Longrightarrow> render E fmt args2 = Some bs"
proof (induction E fmt args arbitrary: bs args2 rule: render.induct)
  case (2 E c fmt args)
  show ?case
  proof (cases "c = CHR ''%''")
    case True
    with 2 obtain ts fmt' args' cs where t:
      "item_text E (fst (print_conversion fmt)) (snd (print_conversion fmt)) args = Some (ts, fmt', args')"
      "render E fmt' args' = Some cs" "bs = ts @ cs"
      by (auto split: option.splits)
    with item_text_same [OF t(1) 2(4)] 2(1) [OF True t(1)] True show ?thesis by fastforce
  qed (use 2 in auto)
qed simp

text \<open>C22: Two passes fit: the number that printing to the measuring stream returns is the number of bytes that the same
  call needs in memory, so a memory with that many bytes left takes the whole text, and the call returns the
  same number again.\<close>

theorem IOChannel_printf_measured:
  assumes "writable m" and "\<not> ch_foundEof m" and "calc_can m" and "list_all2 same_arg args args2"
    and "render E fmt args = Some bs"
    and "mem_inv ch" and "\<not> mf_eof (mem_view ch)"
  shows "\<exists>n m'. IOChannel_printf E IOChannelCalcOps fmt args m = Ok (n, m') \<and>
    (mf_pos (mem_view ch) + nat n \<le> length (mf_bytes (mem_view ch)) \<longrightarrow>
     (\<exists>ch'. IOChannel_printf E IOChannelMemOps fmt args2 ch = Ok (n, ch') \<and>
        mf_pos (mem_view ch') = mf_pos (mem_view ch) + nat n))"
proof -
  have w: "writing m" "calc_can m" "writing ch" using assms by (auto simp: writing_def mem_inv_def mem_view_def)
  obtain m' where m': "IOChannel_printf E IOChannelCalcOps fmt args m = Ok (int (length bs), m')"
    using calc_sink.printf_renders [OF w(1) assms(5) w(2)] by blast
  have "\<exists>ch'. IOChannel_printf E IOChannelMemOps fmt args2 ch = Ok (int (length bs), ch') \<and>
      mf_pos (mem_view ch') = mf_pos (mem_view ch) + length bs"
    if "mf_pos (mem_view ch) + length bs \<le> length (mf_bytes (mem_view ch))"
  proof -
    have "mem_space (length bs + 0) ch" using that assms(6) by (simp add: mem_space_def)
    from mem_sink.printf_renders [OF w(3) render_same [OF assms(5,4)] this] show ?thesis
      by (auto simp: mem_takes_def mf_put_def)
  qed
  with m' show ?thesis by auto
qed

theorem IOChannel_printf_measured_witness:
  "\<exists>m m' ch ch'. mem_inv ch \<and>
     IOChannel_printf (\<lambda>_ _. []) IOChannelCalcOps ''n=%d %qs.'' [NumArg TInt (- 42), StrArg [97, 34, 0]] m = Ok (12, m') \<and>
     IOChannel_printf (\<lambda>_ _. []) IOChannelMemOps ''n=%d %qs.'' [NumArg TInt (- 42), StrArg [97, 34, 0]] ch = Ok (12, ch') \<and>
     mf_pos (mem_view ch') = 12"
proof -
  obtain m0 :: calc_channel and mem where i: "IOChannel_init IOChannel_zero 9 = Ok (True, m0, mem)" "fresh_channel m0" "9 = mem + 8"
    using IOChannel_init_ok [of 9] by auto
  then obtain m where m: "writable m" "calc_can m" "\<not> ch_foundEof m"
    using IOChannelCalc_open_ok [of m0 mem] by (auto simp: calc_can_def)
  obtain ch0 :: mem_channel and mem where i: "IOChannel_init IOChannel_zero 20 = Ok (True, ch0, mem)" "fresh_channel ch0" "20 = mem + 8"
    using IOChannel_init_ok [of 20] by auto
  then obtain ch where ch: "mem_inv ch" "mem_view ch = \<lparr>mf_bytes = replicate 12 0, mf_pos = 0, mf_ungot = [],
      mf_room = 1024, mf_eof = False, mf_last = 0\<rparr>"
    using IOChannelMem_open_file [of ch0 "replicate 12 0" mem] by auto
  let ?args = "[NumArg TInt (- 42), StrArg [97, 34, 0]]"
  have "writing m" using m by (simp add: writing_def)
  with calc_sink.printf_renders [OF _ render_example m(2)] obtain m1 where
    n: "IOChannel_printf (\<lambda>_ _. []) IOChannelCalcOps ''n=%d %qs.'' ?args m = Ok (12, m1)"
    by fastforce
  have "list_all2 same_arg ?args ?args" by simp
  from IOChannel_printf_measured [OF m(1,3,2) this render_example ch(1)] ch n show ?thesis by fastforce
qed

text \<open>C23: A string printed with \<^verbatim>\<open>%qs\<close> into memory is read back by \<^verbatim>\<open>%qs\<close> from the same position unchanged, whatever its
  bytes are (quotes and backslashes included), when the buffer has room for it and its terminator; one item and
  the number of bytes of the printed text are reported. Bytes that are not printable count as one each: the code prints them as they
  are, although \<^verbatim>\<open>IOChannel.h\<close> documents \<^verbatim>\<open>%qs\<close> with hexadecimal for them.\<close>

theorem IOChannel_quoted_roundtrip:
  assumes "mem_inv ch" and "\<not> mf_eof (mem_view ch)" and "mf_ungot (mem_view ch) = []" and "0 \<notin> set xs"
    and "mf_pos (mem_view ch) + length (quoted xs) + 2 \<le> length (mf_bytes (mem_view ch))"
    and "length xs < length buf" and "2 \<le> n"
  shows "\<exists>ch1 ch2 ch3. IOChannel_printf E IOChannelMemOps ''%qs'' [StrArg (xs @ [0])] ch = Ok (int (length (quoted xs) + 2), ch1) \<and>
    IOChannel_seek IOChannelMemOps (int (mf_pos (mem_view ch))) IOCHANNELWHENCE_SET ch1 = Ok (int (mf_pos (mem_view ch)), ch2) \<and>
    IOChannel_scanf S n IOChannelMemOps ''%qs'' [StrArg buf] ch2 =
      Ok (1, Some (int (length (quoted xs) + 2)), [StrArg (xs @ [0] @ drop (length xs + 1) buf)], ch3)"
proof -
  let ?bs = "[34] @ quoted xs @ [34]"
  let ?a = "mem_view ch"
  have "takeWhile (\<lambda>b. b \<noteq> 0) (xs @ [0]) = xs" using assms(4) by (subst takeWhile_append2) auto
  then have "render E ''%qs'' [StrArg (xs @ [0])] = Some ?bs"
    by (simp add: print_conversion_def next_char_def item_text_def cstring_def)
  moreover have w: "writing ch" using assms(1,2) by (auto simp: writing_def mem_inv_def mem_view_def)
  moreover have "mem_space (length ?bs + 0) ch" using assms(1,5) by (simp add: mem_space_def)
  ultimately obtain ch1 where ch1: "IOChannel_printf E IOChannelMemOps ''%qs'' [StrArg (xs @ [0])] ch = Ok (int (length ?bs), ch1)"
    "mem_inv ch1" "mem_view ch1 = mf_put ?bs ?a"
    using mem_sink.printf_renders [of ch E "''%qs''" "[StrArg (xs @ [0])]" ?bs 0] unfolding mem_takes_def by metis
  have "mf_legal (SeekTo (mf_pos ?a)) (mem_view ch1)" using assms(5) by (simp add: ch1(3) mf_put_def)
  from mf_step_ok [OF ch1(2) this] obtain ch2 where ch2:
    "IOChannel_seek IOChannelMemOps (int (mf_pos ?a)) IOCHANNELWHENCE_SET ch1 = Ok (int (mf_pos ?a), ch2)" "mem_inv ch2"
    "mem_view ch2 = (mf_put ?bs ?a)\<lparr>mf_pos := mf_pos ?a\<rparr>"
    by (auto simp: omap_def outcome_Ok_iffs ch1(3))
  have "mf_eof (mem_view ch2) = mf_eof ?a" by (simp add: ch2(3) mf_put_def)
  with ch2(2) assms(2) have "reading ch2" by (auto simp: reading_def mem_inv_def mem_view_def)
  moreover have "mem_left ch2 = [] @ [34] @ quoted xs @ [34] @ drop (mf_pos ?a + length ?bs) (mf_bytes ?a)"
    using ch2(2,3) assms(3,5) by (simp add: mem_left_def mf_put_def min_absorb2)
  ultimately obtain ch3 where "IOChannel_scanf S n IOChannelMemOps ''%qs'' [StrArg buf] ch2 =
      Ok (1, Some (int (length (quoted xs) + 2)), [StrArg (xs @ [0] @ drop (length xs + 1) buf)], ch3)"
    using mem_source.scanf_qs [of ch2 "[]" xs _ n buf S] assms(6,7) by fastforce
  with ch1(1) ch2(1) show ?thesis by auto
qed

theorem IOChannel_quoted_roundtrip_witness:
  "\<exists>ch ch1 ch2 ch3. mem_inv ch \<and>
     IOChannel_printf (\<lambda>_ _. []) IOChannelMemOps ''%qs'' [StrArg [92, 34, 0]] ch = Ok (6, ch1) \<and>
     IOChannel_seek IOChannelMemOps 0 IOCHANNELWHENCE_SET ch1 = Ok (0, ch2) \<and>
     IOChannel_scanf (\<lambda>_ _. None) 2 IOChannelMemOps ''%qs'' [StrArg [9, 9, 9, 9]] ch2 = Ok (1, Some 6, [StrArg [92, 34, 0, 9]], ch3)"
proof -
  obtain ch0 :: mem_channel and mem where i: "IOChannel_init IOChannel_zero 20 = Ok (True, ch0, mem)" "fresh_channel ch0" "20 = mem + 8"
    using IOChannel_init_ok [of 20] by auto
  then obtain ch where ch: "mem_inv ch" "mem_view ch = \<lparr>mf_bytes = replicate 6 0, mf_pos = 0, mf_ungot = [],
      mf_room = 1024, mf_eof = False, mf_last = 0\<rparr>"
    using IOChannelMem_open_file [of ch0 "replicate 6 0" mem] by auto
  with IOChannel_quoted_roundtrip [OF ch(1), of "[92, 34]" "[9, 9, 9, 9]" 2 "\<lambda>_ _. []" "\<lambda>_ _. None"] show ?thesis
    by (fastforce simp: quoted_def quote_byte_def)
qed

end
