(* ===== verification/Ser_Ref_Correct.thy ===== *)
theory Ser_Ref_Correct
  imports Ser_Ref "HOL-Library.Sublist"
begin

text \<open>
  What reading the pairs of a header promises: on a text of the right form every value is found
  under its reference, as long as no reference is the beginning of another one; a reference that
  occurs twice aborts the program or ties the list into a cycle.
\<close>

subsection \<open>Strings\<close>

lemma Any_strlen_ok [simp]: "0 \<notin> set s \<Longrightarrow> Any_strlen (s @ 0 # t) = Ok (length s)"
proof -
  assume "0 \<notin> set s"
  then have "takeWhile (\<lambda>b. b \<noteq> 0) (s @ 0 # t) = s" by (subst takeWhile_append2) auto
  then show ?thesis by (simp add: Any_strlen_def)
qed

lemma strncmp_eq_prefix [simp]:
  "0 \<notin> set k \<Longrightarrow> 0 \<notin> set r \<Longrightarrow> strncmp_eq (r @ 0 # s) (k @ t) (length k) = Ok (prefix k r)"
proof (induction k arbitrary: r)
  case (Cons x k)
  then show ?case by (cases r) auto
qed simp

lemma Any_strncpy_exact:
  "0 \<notin> set s \<Longrightarrow> length s \<le> length dst \<Longrightarrow> Any_strncpy dst (s @ t) (length s) = Ok (s @ drop (length s) dst)"
proof -
  assume a: "0 \<notin> set s" "length s \<le> length dst"
  then have "takeWhile (\<lambda>b. b \<noteq> 0) s = s" by (auto simp: takeWhile_eq_all_conv)
  with a show ?thesis by (simp add: Any_strncpy_def del: takeWhile_eq_all_conv)
qed

lemma Any_strncpy_terminated:
  assumes "0 \<notin> set s" and "length s < length dst"
  shows "Any_strncpy dst (s @ 0 # t) (Suc (length s)) = Ok (s @ 0 # drop (Suc (length s)) dst)"
proof -
  have "takeWhile (\<lambda>b. b \<noteq> 0) (s @ [0]) = s" using assms(1) by (subst takeWhile_append2) auto
  with assms show ?thesis by (simp add: Any_strncpy_def)
qed

lemma drop_zeros [simp]: "drop n (0 # replicate n (0 :: byte)) = [0]"
  by (induction n) simp_all

lemma copied_ok:
  "0 \<notin> set s \<Longrightarrow> 0 < mem \<Longrightarrow> copied (s @ t) (length s) mem = Ok (s @ [0], mem - 1)"
  by (simp add: copied_def ANY_BALLOC_def Any_strncpy_exact)

subsection \<open>Tokens\<close>

lemma advance_append:
  "(\<forall>c \<in> set as. c \<noteq> 0 \<and> P c) \<Longrightarrow> advance P (as @ s) = omap (\<lambda>(tok, rest). (as @ tok, rest)) (advance P s)"
proof (induction as)
  case Nil
  then show ?case by (cases "advance P s") auto
next
  case (Cons c as)
  then show ?case by (cases "advance P s") (auto simp: SERIALIZEREFERENCEVALUE_EOF_def)
qed

lemma advance_stop: "c = 0 \<or> \<not> P c \<Longrightarrow> advance P (c # s) = Ok ([], c # s)"
  by (auto simp: SERIALIZEREFERENCEVALUE_EOF_def)

abbreviation space :: "byte \<Rightarrow> bool" where "space \<equiv> SERIALIZEREFERENCEVALUE_ISSPACE"
abbreviation admitted :: "byte \<Rightarrow> bool" where "admitted \<equiv> SERIALIZEREFERENCEVALUE_ISADMITTEDREFERENCE"

lemmas char_class_defs =
  SERIALIZEREFERENCEVALUE_ISSPACE_def SERIALIZEREFERENCEVALUE_ISADMITTEDREFERENCE_def
  SERIALIZEREFERENCEVALUE_ISDIGIT_def SERIALIZEREFERENCEVALUE_ISALPHALOWER_def
  SERIALIZEREFERENCEVALUE_ISALPHAUPPER_def

lemma char_classes [simp]:
  "\<not> space 0" "\<not> admitted 0" "\<not> space 61" "\<not> admitted 61" "\<not> space 39" "\<not> admitted 39"
  by (simp_all add: char_class_defs)

lemma admitted_not_space [simp]: "admitted c \<Longrightarrow> \<not> space c"
  by (auto simp: char_class_defs)

lemma admitted_not_zero [simp]: "\<forall>c \<in> set s. admitted c \<Longrightarrow> 0 \<notin> set s"
  by auto

lemma skip_ok:
  assumes "\<forall>c \<in> set sp. space c" and "\<not> space c"
  shows "SERIALIZEREFERENCEVALUE_SKIPSPACES (sp @ c # s) = Ok (c # s)"
proof -
  have "\<forall>c \<in> set sp. c \<noteq> 0 \<and> space c" using assms(1) by (metis char_classes(1))
  with assms(2) show ?thesis by (simp add: SERIALIZEREFERENCEVALUE_SKIPSPACES_def advance_append advance_stop)
qed

lemma extract_ok:
  assumes "tok \<noteq> []" and "0 \<notin> set tok" and "0 < mem"
  shows "SERIALIZEREFERENCEVALUE_EXTRACTTOKEN tok mem = Ok (tok @ [0], mem - 1)"
  using assms Any_strncpy_exact [of tok "replicate (Suc (length tok)) 0" "[]"]
  by (simp add: SERIALIZEREFERENCEVALUE_EXTRACTTOKEN_def ANY_BALLOC_def SERIALIZEREFERENCEVALUE_EOF_def
      list_update_append)

lemma gettoken_ok:
  assumes "tok \<noteq> []" and "\<forall>c \<in> set tok. admitted c" and "\<not> admitted d" and "0 < mem"
  shows "SERIALIZEREFERENCEVALUE_GETTOKEN (tok @ d # s) mem = Ok (tok @ [0], d # s, mem - 1)"
proof -
  have "\<forall>c \<in> set tok. c \<noteq> 0 \<and> \<not> space c \<and> admitted c" using assms(2) by (metis admitted_not_space char_classes(2))
  with assms show ?thesis
    by (simp add: SERIALIZEREFERENCEVALUE_GETTOKEN_def advance_append advance_stop extract_ok)
qed

subsection \<open>The text of a pair\<close>

text \<open>A reference, spaces, an equals sign, spaces, the value with or without quotes, spaces.\<close>

datatype pair_text = PairText (pt_ref: "byte list") (pt_before: "byte list") (pt_after: "byte list") (pt_quoted: bool)
  (pt_value: "byte list") (pt_end: "byte list")

definition pair_layout :: "pair_text \<Rightarrow> byte list" where
  "pair_layout p = pt_ref p @ pt_before p @ [61] @ pt_after p @
     (if pt_quoted p then [39] @ pt_value p @ [39] else pt_value p) @ pt_end p"

definition pair_ok :: "pair_text \<Rightarrow> bool" where
  "pair_ok p \<longleftrightarrow> pt_ref p \<noteq> [] \<and> (\<forall>c \<in> set (pt_ref p). admitted c) \<and> (\<forall>c \<in> set (pt_before p @ pt_after p @ pt_end p). space c) \<and>
     pt_value p \<noteq> [] \<and>
     (if pt_quoted p then 0 \<notin> set (pt_value p) \<and> 39 \<notin> set (pt_value p)
      else (\<forall>c \<in> set (pt_value p). admitted c) \<and> pt_end p \<noteq> [])"

lemma read_pair_ok:
  assumes "pair_ok p" and "2 \<le> mem"
  shows "read_pair (pair_layout p @ s) mem = Ok (Some (pt_ref p @ [0], pt_value p @ [0], pt_end p @ s), mem - 2)"
proof -
  obtain r b a q v e where p: "p = PairText r b a q v e" by (cases p)
  have r: "r \<noteq> []" "\<forall>c \<in> set r. admitted c" "\<forall>c \<in> set b. space c" "\<forall>c \<in> set a. space c" "\<forall>c \<in> set e. space c" "v \<noteq> []"
    using assms(1) by (auto simp: p pair_ok_def)
  obtain d ds where d: "b @ 61 # a @ (if q then [39] @ v @ [39] else v) @ e @ s = d # ds" "\<not> admitted d"
  proof (cases b)
    case (Cons x xs)
    then have "\<not> admitted x" using r(3) admitted_not_space by auto
    with Cons that show ?thesis by simp
  qed (use that in simp)
  have tok: "SERIALIZEREFERENCEVALUE_GETTOKEN (r @ d # ds) mem = Ok (r @ [0], d # ds, mem - 1)"
    using gettoken_ok [OF r(1,2) d(2)] assms(2) by simp
  have skip: "SERIALIZEREFERENCEVALUE_SKIPSPACES (d # ds) = Ok (61 # a @ (if q then [39] @ v @ [39] else v) @ e @ s)"
    unfolding d(1) [symmetric] by (rule skip_ok [OF r(3)]) simp
  have m: "mem - 1 - 1 = mem - 2" "0 < mem - 1" using assms(2) by auto
  show ?thesis
  proof (cases q)
    case True
    then have v: "0 \<notin> set v" "39 \<notin> set v" using assms(1) by (auto simp: p pair_ok_def)
    then have adv: "advance (\<lambda>c. c \<noteq> 39) (v @ 39 # e @ s) = Ok (v, 39 # e @ s)"
      by (subst advance_append) (auto simp: advance_stop)
    have "SERIALIZEREFERENCEVALUE_SKIPSPACES (a @ 39 # v @ 39 # e @ s) = Ok (39 # v @ 39 # e @ s)"
      by (rule skip_ok [OF r(4)]) simp
    with True tok skip adv v r(6) m show ?thesis
      by (simp add: p pair_layout_def d(1) [symmetric] read_pair_def peek_def extract_ok SERIALIZEREFERENCEVALUE_EOF_def)
  next
    case False
    then have v: "\<forall>c \<in> set v. admitted c" "e \<noteq> []" using assms(1) by (auto simp: p pair_ok_def)
    obtain f fs where f: "e @ s = f # fs" "\<not> admitted f"
    proof (cases e)
      case (Cons x xs)
      then have "\<not> admitted x" using r(5) admitted_not_space by auto
      with Cons that show ?thesis by simp
    qed (use v(2) in simp)
    obtain w ws where w: "v = w # ws" "admitted w" using r(6) v(1) by (cases v) auto
    then have "w \<noteq> 0" "w \<noteq> 39" by (metis char_classes(2,6))+
    note w = w this
    have "SERIALIZEREFERENCEVALUE_SKIPSPACES (a @ w # ws @ e @ s) = Ok (w # ws @ e @ s)"
      by (rule skip_ok [OF r(4)]) (use w in simp)
    moreover have "SERIALIZEREFERENCEVALUE_GETTOKEN (v @ f # fs) (mem - 1) = Ok (v @ [0], f # fs, mem - 2)"
      using gettoken_ok [OF r(6) v(1) f(2)] m by simp
    ultimately show ?thesis
      using False tok skip w
      by (simp add: p pair_layout_def d(1) [symmetric] read_pair_def peek_def SERIALIZEREFERENCEVALUE_EOF_def f(1))
  qed
qed

subsection \<open>Lists of pairs\<close>

definition rv_holds :: "SerializeReferenceValue \<Rightarrow> byte list \<times> byte list \<Rightarrow> bool" where
  "rv_holds c kv \<longleftrightarrow> (\<exists>s t. rv_reference c = Own (fst kv @ 0 # s) \<and> rv_value c = Own (snd kv @ 0 # t) \<and>
     0 \<notin> set (fst kv) \<and> 0 \<notin> set (snd kv) \<and>
     rv_referenceLen c \<le> length (fst kv @ s) \<and> rv_valueLen c \<le> length (snd kv @ t))"

definition rv_list :: "rvs \<Rightarrow> nat \<Rightarrow> nat list \<Rightarrow> (byte list \<times> byte list) list \<Rightarrow> bool" where
  "rv_list w p xs kvs \<longleftrightarrow> lseg rv_next (cells (rs_heap w)) p xs 0 \<and>
     list_all2 (\<lambda>x kv. \<exists>c. cells (rs_heap w) x = Some c \<and> rv_holds c kv) xs kvs"

text \<open>The list, and the cache, whose elements hold any pairs.\<close>

definition rv_state :: "rvs \<Rightarrow> nat \<Rightarrow> nat list \<Rightarrow> (byte list \<times> byte list) list \<Rightarrow> nat option \<Rightarrow> bool" where
  "rv_state w p xs kvs cache \<longleftrightarrow> heap_ok (rs_heap w) \<and> rv_list w p xs kvs \<and>
     (\<forall>q. cache = Some q \<longrightarrow> (\<exists>ys olds. rv_list w q ys olds \<and> set xs \<inter> set ys = {}))"

lemma rv_holds_next [simp]: "rv_holds (c\<lparr>rv_next := n\<rparr>) kv = rv_holds c kv"
  by (simp add: rv_holds_def)

lemma rv_list_frame:
  assumes "rv_list w p xs kvs" and "x \<notin> set xs" and "cells (rs_heap w') = (cells (rs_heap w))(x := v)"
  shows "rv_list w' p xs kvs"
proof -
  have "list_all2 (\<lambda>x kv. \<exists>c. cells (rs_heap w') x = Some c \<and> rv_holds c kv) xs kvs"
    using assms by (auto simp: rv_list_def list_all2_conv_all_nth)
  with assms show ?thesis by (simp add: rv_list_def)
qed

lemma rv_list_start: "rv_list w p xs kvs \<Longrightarrow> p = (case xs of [] \<Rightarrow> 0 | x # _ \<Rightarrow> x)"
  by (auto simp: rv_list_def dest: lseg_start)

lemma rv_list_Cons_iff:
  "rv_list w p (x # xs) (kv # kvs) \<longleftrightarrow>
     p = x \<and> x \<noteq> 0 \<and> (\<exists>c. cells (rs_heap w) x = Some c \<and> rv_holds c kv \<and> rv_list w (rv_next c) xs kvs)"
  by (auto simp: rv_list_def split: option.splits)

text \<open>Searching finds the first reference that begins with the wanted one.\<close>

fun first_match :: "byte list \<Rightarrow> nat list \<Rightarrow> (byte list \<times> byte list) list \<Rightarrow> nat" where
  "first_match k (x # xs) (kv # kvs) = (if prefix k (fst kv) then x else first_match k xs kvs)"
| "first_match k _ _ = 0"

lemma find_loop_ok:
  assumes "rv_list w p xs kvs" and "length xs < fuel" and "0 \<notin> set k"
  shows "find_loop fuel (k @ t) (length k) p w = Ok (first_match k xs kvs)"
  using assms
proof (induction xs arbitrary: p fuel kvs)
  case Nil
  then show ?case by (cases fuel) (auto simp: rv_list_def)
next
  case (Cons x xs)
  then obtain n kv kvs' where n: "fuel = Suc n" "kvs = kv # kvs'"
    by (cases fuel; cases kvs) (auto simp: rv_list_def)
  with Cons.prems(1) obtain c where c: "p = x" "x \<noteq> 0" "cells (rs_heap w) x = Some c" "rv_holds c kv"
    "rv_list w (rv_next c) xs kvs'" by (auto simp: rv_list_Cons_iff)
  with Cons.IH [OF c(5), of n] Cons.prems n show ?case by (auto simp: rv_holds_def)
qed

lemma find_ok:
  assumes "heap_ok (rs_heap w)" and "rv_list w p xs kvs" and "0 \<notin> set k"
  shows "SerializeReferenceValue_findReferenceValue p (k @ [0]) w = Ok (first_match k xs kvs)"
proof -
  have "length xs < brk (rs_heap w)" using assms(1,2) by (auto simp: rv_list_def intro: lseg_length)
  with find_loop_ok [OF assms(2) this assms(3), of "[0]"] assms(3) show ?thesis
    by (simp add: SerializeReferenceValue_findReferenceValue_def)
qed

lemma first_match_none: "\<forall>kv \<in> set kvs. \<not> prefix k (fst kv) \<Longrightarrow> first_match k xs kvs = 0"
  by (induction k xs kvs rule: first_match.induct) auto

lemma first_match_nth:
  assumes "rv_list w p xs kvs" and "i < length kvs" and "prefix k (fst (kvs ! i))"
    and "\<forall>j < i. \<not> prefix k (fst (kvs ! j))"
  shows "first_match k xs kvs = xs ! i"
  using assms
proof (induction i arbitrary: p xs kvs)
  case 0
  then show ?case by (cases xs; cases kvs) (auto simp: rv_list_def)
next
  case (Suc i)
  then obtain x xs' kv kvs' where l: "xs = x # xs'" "kvs = kv # kvs'"
    by (cases xs; cases kvs) (auto simp: rv_list_def)
  with Suc.prems(1) have "\<exists>q. rv_list w q xs' kvs'" by (auto simp: rv_list_Cons_iff)
  then obtain q where "rv_list w q xs' kvs'" ..
  moreover have "\<not> prefix k (fst kv)" "\<forall>j < i. \<not> prefix k (fst (kvs' ! j))"
    using Suc.prems(4) l(2) by fastforce+
  ultimately show ?case using Suc.IH Suc.prems(2,3) l by simp
qed

lemma rv_list_nth:
  assumes "rv_list w p xs kvs" and "i < length kvs"
  shows "\<exists>c. cells (rs_heap w) (xs ! i) = Some c \<and> xs ! i \<noteq> 0 \<and> i < length xs \<and> rv_holds c (kvs ! i)"
  using assms lseg_nonnull by (fastforce simp: rv_list_def list_all2_conv_all_nth)

lemma findValue_ok:
  assumes "heap_ok (rs_heap w)" and "rv_list w p xs kvs" and "0 \<notin> set k" and "i < length kvs"
    and "prefix k (fst (kvs ! i))" and "\<forall>j < i. \<not> prefix k (fst (kvs ! j))"
  shows "\<exists>t. SerializeReferenceValue_findValue p (k @ [0]) w = Ok (Own (snd (kvs ! i) @ 0 # t))"
proof -
  have "find_loop (brk (rs_heap w)) (k @ [0]) (length k) p w = Ok (xs ! i)"
    using find_ok [OF assms(1-3)] first_match_nth [OF assms(2,4-6)] assms(3)
    by (simp add: SerializeReferenceValue_findReferenceValue_def)
  moreover obtain c where "cells (rs_heap w) (xs ! i) = Some c" "xs ! i \<noteq> 0" "i < length xs" "rv_holds c (kvs ! i)"
    using rv_list_nth [OF assms(2,4)] by blast
  moreover have "p \<noteq> 0" using assms(2,4) by (cases xs) (auto simp: rv_list_def split: option.splits)
  ultimately show ?thesis using assms(3)
    by (auto simp: SerializeReferenceValue_findValue_def rv_holds_def)
qed

subsection \<open>Storing a pair\<close>

lemma enlarged_ok:
  assumes "old \<le> length (s @ t)" and "n \<le> mem" and "0 < n"
  shows "\<exists>b mem'. enlarged (Own (s @ 0 # t)) old len mem = Ok (Own b, mem') \<and> old < length b \<and> len < length b \<and> mem \<le> mem' + 1"
  using assms by (auto simp: enlarged_def ANY_BALLOC_def)

lemma update_ok:
  assumes "cells (rs_heap w) x = Some c" and "x \<noteq> 0" and "rv_holds c old" and "0 \<notin> set k" and "0 \<notin> set v"
    and "2 \<le> rs_mem w"
  shows "\<exists>c' w'. SerializeReferenceValue_update x (k @ [0]) (v @ [0]) w = Ok w' \<and>
    cells (rs_heap w') = (cells (rs_heap w))(x \<mapsto> c') \<and> brk (rs_heap w') = brk (rs_heap w) \<and> rv_holds c' (k, v) \<and>
    rv_next c' = rv_next c \<and> rs_mem w \<le> rs_mem w' + 2 \<and>
    (\<forall>u. rv_value c = Own u \<longrightarrow> length v \<le> rv_valueLen c \<longrightarrow> (\<exists>u'. rv_value c' = Own u' \<and> length u' = length u))"
proof -
  obtain s t where c: "rv_reference c = Own (fst old @ 0 # s)" "rv_value c = Own (snd old @ 0 # t)"
    "rv_referenceLen c \<le> length (fst old @ s)" "rv_valueLen c \<le> length (snd old @ t)"
    using assms(3) by (auto simp: rv_holds_def)
  obtain r m1 where r: "enlarged (rv_reference c) (rv_referenceLen c) (length k) (rs_mem w) = Ok (Own r, m1)"
    "rv_referenceLen c < length r" "length k < length r" "rs_mem w \<le> m1 + 1"
    using enlarged_ok [OF c(3), of 1 "rs_mem w" "length k"] c(1) assms(6) by auto
  obtain u m2 where u: "enlarged (rv_value c) (rv_valueLen c) (length v) m1 = Ok (Own u, m2)"
    "rv_valueLen c < length u" "length v < length u" "m1 \<le> m2 + 1"
    using enlarged_ok [OF c(4), of 1 m1 "length v"] c(2) r(4) assms(6) by auto
  obtain r' u' where z: "Any_memset r 0 (rv_referenceLen c) = Ok r'" "length r' = length r"
    "Any_memset u 0 (rv_valueLen c) = Ok u'" "length u' = length u"
    using r(2) u(2) by (simp add: Any_memset_def)
  obtain rk where rk: "Any_strncpy r' (k @ [0]) (Suc (length k)) = Ok (k @ 0 # rk)" "length k < length r'"
    "length k + length rk + 1 = length r'"
    using Any_strncpy_terminated [OF assms(4), of r' "[]"] r(3) z(2) by auto
  obtain uv where uv: "Any_strncpy u' (v @ [0]) (Suc (length v)) = Ok (v @ 0 # uv)" "length v < length u'"
    "length v + length uv + 1 = length u'"
    using Any_strncpy_terminated [OF assms(5), of u' "[]"] u(3) z(4) by auto
  let ?c = "c\<lparr>rv_reference := Own (k @ 0 # rk), rv_referenceLen := length k, rv_value := Own (v @ 0 # uv),
    rv_valueLen := length v\<rparr>"
  have "SerializeReferenceValue_update x (k @ [0]) (v @ [0]) w =
      Ok (w\<lparr>rs_mem := m2, rs_heap := (rs_heap w)\<lparr>cells := (cells (rs_heap w))(x \<mapsto> ?c)\<rparr>\<rparr>)"
    using assms(1,2,4,5) r u rk uv z
    by (simp add: SerializeReferenceValue_update_def with_rvp_def store_rvp_def SerializeReferenceValue_reset_def)
  moreover have "rv_holds ?c (k, v)" using assms(4,5) by (simp add: rv_holds_def)
  moreover have "length (v @ 0 # uv) = length o'" if "rv_value c = Own o'" "length v \<le> rv_valueLen c" for o'
    using that u(1) uv(3) z(4) by (simp add: enlarged_def)
  ultimately show ?thesis using r(4) u(4) by (intro exI [of _ ?c]) simp
qed

lemma init_ok:
  assumes "cells (rs_heap w) x = Some c" and "x \<noteq> 0" and "0 \<notin> set k" and "0 \<notin> set v" and "2 \<le> rs_mem w"
  shows "\<exists>c' w'. SerializeReferenceValue_init x (k @ [0]) (Some (v @ [0])) w = Ok w' \<and>
    cells (rs_heap w') = (cells (rs_heap w))(x \<mapsto> c') \<and> brk (rs_heap w') = brk (rs_heap w) \<and> rv_holds c' (k, v) \<and>
    rv_next c' = rv_next c \<and> rs_mem w' = rs_mem w - 2"
  using assms
  by (auto simp: SerializeReferenceValue_init_def with_rvp_def store_rvp_def copied_ok rv_holds_def)

lemma rv_state_heap_ok:
  assumes "heap_ok h" and "cells h x = Some c0" and "cells h' = (cells h)(x \<mapsto> c)" and "brk h' = brk h"
  shows "heap_ok h'"
proof -
  have "h' = h\<lparr>cells := (cells h)(x \<mapsto> c)\<rparr>" using assms(3,4) by (cases h, cases h') simp
  with heap_ok_update [OF assms(1,2)] show ?thesis by simp
qed

text \<open>A new element, from the cache or from the budget.\<close>

definition new_rvp :: "byte list \<Rightarrow> byte list \<Rightarrow> nat option \<Rightarrow> rvs \<Rightarrow> (nat \<times> nat option \<times> rvs) outcome" where
  "new_rvp k v cache w =
     obind (case cache of None \<Rightarrow> Ok (0, cache, w)
                        | Some p \<Rightarrow> omap (\<lambda>(rvp, p, w). (rvp, Some p, w)) (SerializeReferenceValue_pop p w)) (\<lambda>(rvp, cache, w).
     if rvp = 0
     then obind (SerializeReferenceValue_new w) (\<lambda>(rvp, w).
          obind (SerializeReferenceValue_init rvp k (Some v) w) (\<lambda>w. Ok (rvp, cache, w)))
     else Ok (rvp, cache, w))"

lemma new_rvp_alloc:
  assumes "rv_state w p xs kvs cache" and "cache = None \<or> cache = Some 0" and "3 \<le> rs_mem w" and "0 \<notin> set k" and "0 \<notin> set v"
  shows "\<exists>x c w'. new_rvp (k @ [0]) (v @ [0]) cache w = Ok (x, cache, w') \<and> rv_state w' p xs kvs cache \<and> x \<noteq> 0 \<and>
    cells (rs_heap w') x = Some c \<and> rv_next c = 0 \<and> rv_holds c (k, v) \<and> rs_mem w' = rs_mem w - 3 \<and> x \<notin> set xs \<and>
    (\<forall>q ys olds. cache = Some q \<longrightarrow> rv_list w' q ys olds \<longrightarrow> x \<notin> set ys)"
proof -
  have inv: "heap_ok (rs_heap w)" "rv_list w p xs kvs" using assms(1) by (auto simp: rv_state_def)
  let ?b = "brk (rs_heap w)"
  have b: "?b \<noteq> 0" "?b \<notin> set xs" "cells (rs_heap w) ?b = None"
    using heap_ok_brk [OF inv(1)] inv(2) heap_ok_fresh [OF inv(1)] by (auto simp: rv_list_def dest: lseg_cells)
  obtain m where m: "rs_mem w = Suc m" "2 \<le> m" using assms(3) by (cases "rs_mem w") auto
  let ?w = "w\<lparr>rs_heap := (rs_heap w)\<lparr>cells := (cells (rs_heap w))(?b \<mapsto> SerializeReferenceValue_zero), brk := Suc ?b\<rparr>, rs_mem := m\<rparr>"
  have new: "SerializeReferenceValue_new w = Ok (?b, ?w)"
    using b(1) by (simp add: SerializeReferenceValue_new_def m(1))
  have "cells (rs_heap ?w) ?b = Some SerializeReferenceValue_zero" "2 \<le> rs_mem ?w" using m by simp_all
  from init_ok [OF this(1) b(1) assms(4,5) this(2)] obtain c w' where w':
    "SerializeReferenceValue_init ?b (k @ [0]) (Some (v @ [0])) ?w = Ok w'"
    "cells (rs_heap w') = (cells (rs_heap ?w))(?b \<mapsto> c)" "brk (rs_heap w') = Suc ?b" "rv_holds c (k, v)"
    "rv_next c = 0" "rs_mem w' = rs_mem w - 3"
    by (auto simp: SerializeReferenceValue_zero_def m(1))
  have cw: "cells (rs_heap w') = (cells (rs_heap w))(?b := Some c)" using w'(2) by simp
  have "heap_ok (rs_heap w')"
    by (rule rv_state_heap_ok [of "rs_heap ?w" ?b])
      (use heap_ok_alloc [OF inv(1), of SerializeReferenceValue_zero] w'(2,3) in \<open>simp_all\<close>)
  moreover have "rv_list w' p xs kvs" using rv_list_frame [OF inv(2) b(2) cw] .
  moreover have "rv_list w' 0 [] []" by (simp add: rv_list_def)
  ultimately have "rv_state w' p xs kvs cache" using assms(2) by (auto simp: rv_state_def)
  moreover have "new_rvp (k @ [0]) (v @ [0]) cache w = Ok (?b, cache, w')"
    using assms(2) new w'(1) by (auto simp: new_rvp_def SerializeReferenceValue_pop_def)
  ultimately show ?thesis
    using b(1,2) cw w'(4-6) assms(2) by (intro exI [of _ ?b] exI [of _ c] exI [of _ w']) (auto simp: rv_list_def)
qed

lemma new_rvp_cached:
  assumes "rv_state w p xs kvs (Some q)" and "q \<noteq> 0"
  shows "\<exists>x q' c w' old. new_rvp k v (Some q) w = Ok (x, Some q', w') \<and> rv_state w' p xs kvs (Some q') \<and> x \<noteq> 0 \<and>
    cells (rs_heap w') x = Some c \<and> rv_next c = 0 \<and> rv_holds c old \<and> rs_mem w' = rs_mem w \<and> x \<notin> set xs \<and>
    (\<forall>ys olds. rv_list w' q' ys olds \<longrightarrow> x \<notin> set ys)"
proof -
  obtain ys olds where inv: "heap_ok (rs_heap w)" "rv_list w p xs kvs" "rv_list w q ys olds" "set xs \<inter> set ys = {}"
    using assms(1) by (auto simp: rv_state_def)
  obtain ys' old olds' where l: "ys = q # ys'" "olds = old # olds'"
    using inv(3) assms(2) by (cases ys; cases olds) (auto simp: rv_list_def)
  obtain c where c: "cells (rs_heap w) q = Some c" "rv_holds c old" "rv_list w (rv_next c) ys' olds'"
    using inv(3) by (auto simp: l rv_list_Cons_iff)
  have "distinct (q # ys')" using inv(3) unfolding rv_list_def l by (blast intro: lseg_distinct)
  then have d: "q \<notin> set ys'" by simp
  let ?w = "w\<lparr>rs_heap := (rs_heap w)\<lparr>cells := (cells (rs_heap w))(q \<mapsto> c\<lparr>rv_next := 0\<rparr>)\<rparr>\<rparr>"
  have cw: "cells (rs_heap ?w) = (cells (rs_heap w))(q := Some (c\<lparr>rv_next := 0\<rparr>))" by simp
  have "heap_ok (rs_heap ?w)" using heap_ok_update [OF inv(1) c(1)] by simp
  moreover have "rv_list ?w p xs kvs" using rv_list_frame [OF inv(2) _ cw] inv(4) l by auto
  moreover have ys': "rv_list ?w (rv_next c) ys' olds'" using rv_list_frame [OF c(3) d cw] .
  ultimately have "rv_state ?w p xs kvs (Some (rv_next c))" using inv(4) by (auto simp: rv_state_def l)
  moreover have "new_rvp k v (Some q) w = Ok (q, Some (rv_next c), ?w)"
    using assms(2) c(1) by (simp add: new_rvp_def SerializeReferenceValue_pop_def store_rvp_def)
  moreover have "q \<notin> set zs" if "rv_list ?w (rv_next c) zs ds" for zs ds
  proof -
    have "zs = ys'" using that ys' unfolding rv_list_def by (blast dest: lseg_unique)
    with d show ?thesis by simp
  qed
  ultimately show ?thesis
    using assms(2) c(2) inv(4) l
    by - (rule exI [of _ q], rule exI [of _ "rv_next c"], rule exI [of _ "c\<lparr>rv_next := 0\<rparr>"], rule exI [of _ ?w],
        rule exI [of _ old], auto)
qed

lemma store_pair_unfold:
  "store_pair k v p cache w =
     obind (SerializeReferenceValue_findReferenceValue p k w) (\<lambda>x.
     obind (if x = 0 then new_rvp k v cache w else Ok (x, cache, w)) (\<lambda>(x, cache, w).
     obind (SerializeReferenceValue_update x k v w) (\<lambda>w.
     obind (SerializeReferenceValue_push p x w) (\<lambda>(p, w). Ok (p, cache, w)))))"
  unfolding store_pair_def new_rvp_def by simp

lemma store_pair_new:
  assumes "rv_state w p xs kvs cache" and "5 \<le> rs_mem w" and "0 \<notin> set k" and "0 \<notin> set v"
    and "\<forall>kv \<in> set kvs. \<not> prefix k (fst kv)"
  shows "\<exists>x cache' w'. store_pair (k @ [0]) (v @ [0]) p cache w = Ok (x, cache', w') \<and>
    rv_state w' x (x # xs) ((k, v) # kvs) cache' \<and> rs_mem w \<le> rs_mem w' + 5"
proof -
  have inv: "heap_ok (rs_heap w)" "rv_list w p xs kvs" using assms(1) by (auto simp: rv_state_def)
  have find: "SerializeReferenceValue_findReferenceValue p (k @ [0]) w = Ok 0"
    using find_ok [OF inv assms(3)] first_match_none [OF assms(5)] by simp
  have "\<exists>x cache' c w' old. new_rvp (k @ [0]) (v @ [0]) cache w = Ok (x, cache', w') \<and> rv_state w' p xs kvs cache' \<and> x \<noteq> 0 \<and>
    cells (rs_heap w') x = Some c \<and> rv_next c = 0 \<and> rv_holds c old \<and> rs_mem w \<le> rs_mem w' + 3 \<and> x \<notin> set xs \<and>
    (\<forall>q ys olds. cache' = Some q \<longrightarrow> rv_list w' q ys olds \<longrightarrow> x \<notin> set ys)"
  proof (cases "cache = None \<or> cache = Some 0")
    case True
    with new_rvp_alloc [OF assms(1) True _ assms(3,4)] assms(2) show ?thesis by fastforce
  next
    case False
    then obtain q where "cache = Some q" "q \<noteq> 0" by auto
    with new_rvp_cached [of w p xs kvs q "k @ [0]" "v @ [0]"] assms(1) show ?thesis by fastforce
  qed
  then obtain x cache' c w1 old where n: "new_rvp (k @ [0]) (v @ [0]) cache w = Ok (x, cache', w1)" "rv_state w1 p xs kvs cache'"
    "x \<noteq> 0" "cells (rs_heap w1) x = Some c" "rv_next c = 0" "rv_holds c old" "rs_mem w \<le> rs_mem w1 + 3" "x \<notin> set xs"
    "\<And>q ys olds. cache' = Some q \<Longrightarrow> rv_list w1 q ys olds \<Longrightarrow> x \<notin> set ys" by blast
  have "2 \<le> rs_mem w1" using n(7) assms(2) by simp
  from update_ok [OF n(4,3,6) assms(3,4) this] obtain c' w2 where u:
    "SerializeReferenceValue_update x (k @ [0]) (v @ [0]) w1 = Ok w2"
    "cells (rs_heap w2) = (cells (rs_heap w1))(x \<mapsto> c')" "brk (rs_heap w2) = brk (rs_heap w1)" "rv_holds c' (k, v)"
    "rv_next c' = 0" "rs_mem w1 \<le> rs_mem w2 + 2"
    using n(5) by auto
  let ?w = "w2\<lparr>rs_heap := (rs_heap w2)\<lparr>cells := (cells (rs_heap w2))(x \<mapsto> c'\<lparr>rv_next := p\<rparr>)\<rparr>\<rparr>"
  have cw: "cells (rs_heap ?w) = (cells (rs_heap w1))(x := Some (c'\<lparr>rv_next := p\<rparr>))" using u(2) by simp
  have push: "SerializeReferenceValue_push p x w2 = Ok (x, ?w)"
    using n(3) u(2,5) by (simp add: SerializeReferenceValue_push_def with_rvp_def store_rvp_def)
  have frame: "rv_list ?w q ys olds" if "rv_list w1 q ys olds" "x \<notin> set ys" for q ys olds
    using rv_list_frame [OF that cw] .
  have "heap_ok (rs_heap ?w)"
    by (rule rv_state_heap_ok [of "rs_heap w1" x]) (use n(2,4) cw u(3) in \<open>auto simp: rv_state_def\<close>)
  moreover have "rv_list ?w x (x # xs) ((k, v) # kvs)"
    using frame [of p xs kvs] n(2,3,8) u(4) by (auto simp: rv_state_def rv_list_Cons_iff)
  moreover have "\<exists>ys olds. rv_list ?w q ys olds \<and> set (x # xs) \<inter> set ys = {}" if "cache' = Some q" for q
  proof -
    obtain ys olds where "rv_list w1 q ys olds" "set xs \<inter> set ys = {}" using n(2) \<open>cache' = Some q\<close> by (auto simp: rv_state_def)
    with frame n(9) [OF that] show ?thesis by (intro exI [of _ ys] exI [of _ olds]) auto
  qed
  ultimately have "rv_state ?w x (x # xs) ((k, v) # kvs) cache'" by (simp add: rv_state_def)
  moreover have "store_pair (k @ [0]) (v @ [0]) p cache w = Ok (x, cache', ?w)"
    using find n(1) u(1) push by (simp add: store_pair_unfold)
  ultimately show ?thesis using n(7) u(6) by (intro exI [of _ x] exI [of _ cache'] exI [of _ ?w]) simp
qed

subsection \<open>Reading a whole text\<close>

abbreviation pair_of :: "pair_text \<Rightarrow> byte list \<times> byte list" where
  "pair_of q \<equiv> (pt_ref q, pt_value q)"

lemma pair_ok_chars:
  assumes "pair_ok q"
  shows "0 \<notin> set (pt_ref q)" "0 \<notin> set (pt_value q)" "\<forall>c \<in> set (pt_end q). space c"
    "\<exists>c s. pair_layout q = c # s \<and> admitted c"
  using assms by (cases "pt_ref q"; auto simp: pair_ok_def pair_layout_def split: if_splits)+

lemma getRVP_turn:
  assumes "pair_ok q" and "\<forall>c \<in> set sp. space c" and "2 \<le> rs_mem w"
  shows "getRVP_loop (Suc n) (sp @ pair_layout q @ s) p cache w =
    obind (store_pair (pt_ref q @ [0]) (pt_value q @ [0]) p cache (w\<lparr>rs_mem := rs_mem w - 2\<rparr>)) (\<lambda>(p, cache, w).
      getRVP_loop n (pt_end q @ s) p cache w)"
proof -
  obtain d ds where d: "pair_layout q = d # ds" "admitted d" using pair_ok_chars(4) [OF assms(1)] by blast
  then have nz: "d \<noteq> 0" "\<not> space d" by auto
  have skip: "SERIALIZEREFERENCEVALUE_SKIPSPACES (sp @ pair_layout q @ s) = Ok (pair_layout q @ s)"
    using skip_ok [OF assms(2) nz(2)] d(1) by simp
  obtain a as where a: "sp @ pair_layout q @ s = a # as" "a \<noteq> 0"
    using assms(2) d(1) nz(1) by (cases sp) (auto simp: char_class_defs)
  have "getRVP_loop (Suc n) (sp @ pair_layout q @ s) p cache w =
      obind (read_pair (pair_layout q @ s) (rs_mem w)) (\<lambda>(pair, mem).
          let w = w\<lparr>rs_mem := mem\<rparr> in
          case pair of None \<Rightarrow> Ok (p, cache, w)
          | Some (referenceBuffer, valueBuffer, s) \<Rightarrow>
              obind (store_pair referenceBuffer valueBuffer p cache w) (\<lambda>(list, cache, w).
              getRVP_loop n s list cache w))"
    using a nz d skip [unfolded a(1)] by (simp add: peek_def SERIALIZEREFERENCEVALUE_EOF_def)
  with read_pair_ok [OF assms(1,3)] show ?thesis by simp
qed

lemma rv_state_mem [simp]: "rv_state (w\<lparr>rs_mem := m\<rparr>) p xs kvs cache = rv_state w p xs kvs cache"
  by (simp add: rv_state_def rv_list_def)

lemma getRVP_loop_pairs:
  assumes "rv_state w p xs kvs cache" and "\<forall>q \<in> set ps. pair_ok q" and "\<forall>c \<in> set sp. space c"
    and "7 * length ps \<le> rs_mem w" and "sorted_wrt (\<lambda>a b. \<not> prefix (pt_ref b) (pt_ref a)) ps"
    and "\<forall>q \<in> set ps. \<forall>kv \<in> set kvs. \<not> prefix (pt_ref q) (fst kv)"
  shows "\<exists>p' xs' cache' w' sp'. getRVP_loop (length ps + n) (sp @ concat (map pair_layout ps) @ s) p cache w =
      getRVP_loop n (sp' @ s) p' cache' w' \<and> rv_state w' p' xs' (rev (map pair_of ps) @ kvs) cache' \<and>
      (\<forall>c \<in> set sp'. space c) \<and> rs_mem w \<le> rs_mem w' + 7 * length ps"
  using assms
proof (induction ps arbitrary: w p xs kvs cache sp)
  case Nil
  then show ?case
    by - (rule exI [of _ p], rule exI [of _ xs], rule exI [of _ cache], rule exI [of _ w], rule exI [of _ sp], simp)
next
  case (Cons q ps)
  have q: "pair_ok q" using Cons.prems(2) by simp
  let ?w = "w\<lparr>rs_mem := rs_mem w - 2\<rparr>"
  have "5 \<le> rs_mem ?w" using Cons.prems(4) by simp
  moreover have "rv_state ?w p xs kvs cache" "\<forall>kv \<in> set kvs. \<not> prefix (pt_ref q) (fst kv)" using Cons.prems(1,6) by simp_all
  ultimately obtain x cache1 w1 where w1: "store_pair (pt_ref q @ [0]) (pt_value q @ [0]) p cache ?w = Ok (x, cache1, w1)"
    "rv_state w1 x (x # xs) (pair_of q # kvs) cache1" "rs_mem ?w \<le> rs_mem w1 + 5"
    using store_pair_new [of ?w p xs kvs cache "pt_ref q" "pt_value q"] pair_ok_chars(1,2) [OF q] by blast
  have turn: "getRVP_loop (length (q # ps) + n) (sp @ concat (map pair_layout (q # ps)) @ s) p cache w =
      getRVP_loop (length ps + n) (pt_end q @ concat (map pair_layout ps) @ s) x cache1 w1"
    using getRVP_turn [OF q Cons.prems(3), of w "length ps + n"] Cons.prems(4) w1(1) by simp
  have "7 * length ps \<le> rs_mem w1" using Cons.prems(4) w1(3) by simp
  moreover have "\<forall>q' \<in> set ps. \<forall>kv \<in> set (pair_of q # kvs). \<not> prefix (pt_ref q') (fst kv)" using Cons.prems(5,6) by auto
  ultimately obtain p' xs' cache' w' sp' where
    "getRVP_loop (length ps + n) (pt_end q @ concat (map pair_layout ps) @ s) x cache1 w1 = getRVP_loop n (sp' @ s) p' cache' w'"
    "rv_state w' p' xs' (rev (map pair_of ps) @ pair_of q # kvs) cache'" "\<forall>c \<in> set sp'. space c"
    "rs_mem w1 \<le> rs_mem w' + 7 * length ps"
    using Cons.IH [OF w1(2) _ pair_ok_chars(3) [OF q]] Cons.prems(2,5) by auto
  with turn w1(3) Cons.prems(4) show ?case
    by - (rule exI [of _ p'], rule exI [of _ xs'], rule exI [of _ cache'], rule exI [of _ w'], rule exI [of _ sp'], simp)
qed

lemma getRVP_loop_end:
  assumes "\<forall>c \<in> set sp. space c"
  shows "getRVP_loop (Suc n) (sp @ [0]) p cache w = Ok (p, cache, w)"
  using skip_ok [OF assms, of 0 "[]"]
  by (cases sp) (auto simp: peek_def SERIALIZEREFERENCEVALUE_EOF_def)

lemma layout_fuel:
  assumes "\<forall>q \<in> set ps. pair_ok q"
  shows "\<exists>n. length (sp @ concat (map pair_layout ps) @ s) = length ps + (length s + n)"
proof -
  have "length ps \<le> length (concat (map pair_layout ps))"
    using assms
  proof (induction ps)
    case (Cons q ps)
    then have "1 \<le> length (pair_layout q)" using pair_ok_chars(4) [of q] by auto
    with Cons show ?case by auto
  qed simp
  then show ?thesis by (intro exI [of _ "length sp + (length (concat (map pair_layout ps)) - length ps)"]) simp
qed

text \<open>A cache that may be missing, and otherwise is a list of elements with any pairs.\<close>

definition cache_ok :: "rvs \<Rightarrow> nat option \<Rightarrow> bool" where
  "cache_ok w cache \<longleftrightarrow> heap_ok (rs_heap w) \<and> (\<forall>q. cache = Some q \<longrightarrow> (\<exists>ys olds. rv_list w q ys olds))"

lemma cache_ok_state: "cache_ok w cache = rv_state w 0 [] [] cache"
  by (simp add: cache_ok_def rv_state_def rv_list_def)

text \<open>C24: Reading a header finds what it says: when the text is a sequence of pairs (the spaces between the parts,
  and the quotes around a value, are free) and no reference is the beginning of another one, the reader
  returns, taking its elements from the cache and then from the budget, and the search for each reference
  gives its value.\<close>

theorem getRVP_reads_pairs:
  assumes "cache_ok w cache" and "\<forall>q \<in> set ps. pair_ok q" and "\<forall>c \<in> set sp. space c" and "7 * length ps \<le> rs_mem w"
    and "sorted_wrt (\<lambda>a b. \<not> prefix (pt_ref a) (pt_ref b) \<and> \<not> prefix (pt_ref b) (pt_ref a)) ps"
  shows "\<exists>p cache' w'. SerializeReferenceValue_getRVP 0 cache (sp @ concat (map pair_layout ps) @ [0]) w = Ok (p, cache', w') \<and>
    (\<forall>q \<in> set ps. \<exists>t. SerializeReferenceValue_findValue p (pt_ref q @ [0]) w' = Ok (Own (pt_value q @ 0 # t)))"
proof -
  have sorted: "sorted_wrt (\<lambda>a b. \<not> prefix (pt_ref b) (pt_ref a)) ps" using assms(5) by (auto simp: sorted_wrt_iff_nth_less)
  obtain n where n: "length (sp @ concat (map pair_layout ps) @ [0]) = length ps + Suc n"
    using layout_fuel [OF assms(2), of sp "[0]"] by auto
  obtain p xs cache' w' sp' where r: "getRVP_loop (length ps + Suc n) (sp @ concat (map pair_layout ps) @ [0]) 0 cache w =
      getRVP_loop (Suc n) (sp' @ [0]) p cache' w'" "rv_state w' p xs (rev (map pair_of ps)) cache'" "\<forall>c \<in> set sp'. space c"
    using getRVP_loop_pairs [OF assms(1) [unfolded cache_ok_state] assms(2-4) sorted, of "Suc n" "[0]"] by auto
  have inv: "heap_ok (rs_heap w')" "rv_list w' p xs (rev (map pair_of ps))" using r(2) by (auto simp: rv_state_def)
  have "\<exists>t. SerializeReferenceValue_findValue p (pt_ref q @ [0]) w' = Ok (Own (pt_value q @ 0 # t))" if q: "q \<in> set ps" for q
  proof -
    obtain i where i: "i < length ps" "ps ! i = q" using q by (auto simp: in_set_conv_nth)
    let ?j = "length ps - Suc i"
    have j: "?j < length (rev (map pair_of ps))" "rev (map pair_of ps) ! ?j = pair_of q"
      using i by (simp_all add: rev_nth)
    have "\<not> prefix (pt_ref q) (fst (rev (map pair_of ps) ! k))" if "k < ?j" for k
    proof -
      have "i < length ps - Suc k" "length ps - Suc k < length ps" using that i by auto
      with assms(5) i have "\<not> prefix (pt_ref q) (pt_ref (ps ! (length ps - Suc k)))" by (auto simp: sorted_wrt_iff_nth_less)
      with that i show ?thesis by (simp add: rev_nth)
    qed
    with findValue_ok [OF inv _ j(1)] j(2) pair_ok_chars(1) [of q] q assms(2) show ?thesis by auto
  qed
  with r(1,3) n show ?thesis
    by (auto simp: SerializeReferenceValue_getRVP_def getRVP_loop_end simp del: getRVP_loop.simps)
qed

lemma pair_ok_example:
  "pair_ok (PairText [116] [32] [32] True [39 + 2] [32])" "pair_ok (PairText [110] [] [] False [65, 49] [32])"
  by (auto simp: pair_ok_def char_class_defs)

theorem getRVP_reads_pairs_witness:
  "\<exists>p cache' w' u v. SerializeReferenceValue_getRVP 0 None [116, 32, 61, 32, 39, 41, 39, 32, 110, 61, 65, 49, 32, 0]
       \<lparr>rs_heap = empty_heap, rs_mem = 14\<rparr> = Ok (p, cache', w') \<and>
     SerializeReferenceValue_findValue p [110, 0] w' = Ok (Own (65 # 49 # 0 # u)) \<and>
     SerializeReferenceValue_findValue p [116, 0] w' = Ok (Own (41 # 0 # v))"
proof -
  let ?w = "\<lparr>rs_heap = empty_heap, rs_mem = 14\<rparr>"
  let ?ps = "[PairText [116] [32] [32] True [39 + 2] [32], PairText [110] [] [] False [65, 49] [32]]"
  have "cache_ok ?w None" by (simp add: cache_ok_def)
  from getRVP_reads_pairs [OF this, of ?ps "[]"] pair_ok_example obtain p cache' w' where
    r: "SerializeReferenceValue_getRVP 0 None [116, 32, 61, 32, 39, 41, 39, 32, 110, 61, 65, 49, 32, 0] ?w = Ok (p, cache', w')"
    "\<exists>t. SerializeReferenceValue_findValue p [116, 0] w' = Ok (Own (41 # 0 # t))"
    "\<exists>t. SerializeReferenceValue_findValue p [110, 0] w' = Ok (Own (65 # 49 # 0 # t))"
    by (auto simp: pair_layout_def)
  then show ?thesis by blast
qed

subsection \<open>A reference that occurs twice\<close>

lemma store_pair_found:
  assumes "rv_state w p xs kvs cache" and "2 \<le> rs_mem w" and "0 \<notin> set k" and "0 \<notin> set v"
    and "i < length kvs" and "prefix k (fst (kvs ! i))" and "\<forall>j < i. \<not> prefix k (fst (kvs ! j))"
  shows "\<exists>c c'. cells (rs_heap w) (xs ! i) = Some c \<and> rv_next c' = rv_next c \<and> rv_holds c' (k, v) \<and>
    (rv_next c \<noteq> 0 \<longrightarrow> store_pair (k @ [0]) (v @ [0]) p cache w = Require) \<and>
    (rv_next c = 0 \<longrightarrow> (\<exists>w'. store_pair (k @ [0]) (v @ [0]) p cache w = Ok (xs ! i, cache, w') \<and>
       cells (rs_heap w') = (cells (rs_heap w))(xs ! i \<mapsto> c'\<lparr>rv_next := p\<rparr>)))"
proof -
  have inv: "heap_ok (rs_heap w)" "rv_list w p xs kvs" using assms(1) by (auto simp: rv_state_def)
  obtain c where c: "cells (rs_heap w) (xs ! i) = Some c" "xs ! i \<noteq> 0" "rv_holds c (kvs ! i)"
    using rv_list_nth [OF inv(2) assms(5)] by blast
  have find: "SerializeReferenceValue_findReferenceValue p (k @ [0]) w = Ok (xs ! i)"
    using find_ok [OF inv assms(3)] first_match_nth [OF inv(2) assms(5-7)] by simp
  from update_ok [OF c assms(3,4,2)] obtain c' w' where u:
    "SerializeReferenceValue_update (xs ! i) (k @ [0]) (v @ [0]) w = Ok w'"
    "cells (rs_heap w') = (cells (rs_heap w))(xs ! i \<mapsto> c')" "rv_holds c' (k, v)" "rv_next c' = rv_next c" by blast
  have "store_pair (k @ [0]) (v @ [0]) p cache w =
      ANY_REQUIRE (rv_next c = 0) (Ok (xs ! i, cache,
        w'\<lparr>rs_heap := (rs_heap w')\<lparr>cells := (cells (rs_heap w'))(xs ! i \<mapsto> c'\<lparr>rv_next := p\<rparr>)\<rparr>\<rparr>))"
    using c(2) find u
    by (cases "rv_next c = 0")
      (simp_all add: store_pair_unfold SerializeReferenceValue_push_def with_rvp_def store_rvp_def)
  with c(1) u show ?thesis by (cases "rv_next c = 0") auto
qed

lemma lseg_next:
  assumes "lseg nxt cs p xs 0" and "i < length xs" and "cs (xs ! i) = Some c"
  shows "nxt c = (if Suc i = length xs then 0 else xs ! Suc i)"
  using assms
proof (induction xs arbitrary: p i)
  case (Cons x xs)
  show ?case
  proof (cases i)
    case 0
    with Cons.prems show ?thesis by (cases xs) (auto split: option.splits)
  next
    case (Suc j)
    with Cons.prems have "lseg nxt cs (nxt (the (cs x))) xs 0" by (auto split: option.splits)
    from Cons.IH [OF this, of j] Cons.prems Suc show ?thesis by simp
  qed
qed simp

text \<open>A search in a list whose elements lead to each other and do not match never ends.\<close>

lemma find_loop_cycle:
  assumes "\<forall>x \<in> X. x \<noteq> 0 \<and> (\<exists>c kv. cells (rs_heap w) x = Some c \<and> rv_next c \<in> X \<and> rv_holds c kv \<and> \<not> prefix k (fst kv))"
    and "p \<in> X" and "0 \<notin> set k"
  shows "find_loop fuel (k @ [0]) (length k) p w = Stuck"
  using assms(2)
proof (induction fuel arbitrary: p)
  case (Suc fuel)
  then obtain c kv where "p \<noteq> 0" "cells (rs_heap w) p = Some c" "rv_next c \<in> X" "rv_holds c kv" "\<not> prefix k (fst kv)"
    using assms(1) by blast
  with Suc.IH assms(3) show ?case by (auto simp: rv_holds_def)
qed simp

lemma cycle_of_list:
  assumes "rv_list w p xs kvs" and "kvs \<noteq> []" and "cells (rs_heap w') = (cells (rs_heap w))(last xs \<mapsto> c)"
    and "rv_next c = p" and "rv_holds c kv" and "\<not> prefix k (fst kv)" and "\<forall>kv \<in> set kvs. \<not> prefix k (fst kv)"
  shows "\<forall>x \<in> set xs. x \<noteq> 0 \<and> (\<exists>c kv. cells (rs_heap w') x = Some c \<and> rv_next c \<in> set xs \<and> rv_holds c kv \<and> \<not> prefix k (fst kv))"
proof
  fix x
  assume x: "x \<in> set xs"
  have l: "lseg rv_next (cells (rs_heap w)) p xs 0" "length xs = length kvs"
    using assms(1) by (auto simp: rv_list_def dest: list_all2_lengthD)
  have ne: "xs \<noteq> []" using l(2) assms(2) by auto
  have p: "p \<in> set xs" using rv_list_start [OF assms(1)] ne by (cases xs) auto
  have d: "distinct xs" using l(1) by (rule lseg_distinct)
  obtain i where i: "i < length xs" "xs ! i = x" using x by (auto simp: in_set_conv_nth)
  obtain c0 where c0: "cells (rs_heap w) x = Some c0" "x \<noteq> 0" "rv_holds c0 (kvs ! i)"
    using rv_list_nth [OF assms(1), of i] i l(2) by auto
  have nm: "\<not> prefix k (fst (kvs ! i))" using assms(7) i(1) l(2) by simp
  show "x \<noteq> 0 \<and> (\<exists>c kv. cells (rs_heap w') x = Some c \<and> rv_next c \<in> set xs \<and> rv_holds c kv \<and> \<not> prefix k (fst kv))"
  proof (cases "x = last xs")
    case True
    then have "cells (rs_heap w') x = Some c" using assms(3) by simp
    with assms(4-6) p c0(2) show ?thesis by blast
  next
    case False
    then have "Suc i \<noteq> length xs" using i(2) ne by (metis diff_Suc_1 last_conv_nth)
    moreover from this have "xs ! Suc i \<in> set xs" using i(1) by simp
    ultimately have "rv_next c0 \<in> set xs" using lseg_next [OF l(1) i(1)] c0(1) i(2) by simp
    moreover have "cells (rs_heap w') x = Some c0" using False assms(3) c0(1) by simp
    ultimately show ?thesis using c0(2,3) nm by blast
  qed
qed

text \<open>C27: A reference that occurs a second time is fatal. Unless it was the first pair of the text, the reader aborts;
  if it was, the reader returns with a list that has become a cycle, on which every search for another
  reference runs for ever.\<close>

theorem getRVP_repeated_reference:
  assumes "cache_ok w cache" and "\<forall>q \<in> set ps. pair_ok q" and "pair_ok d" and "7 * length ps + 4 \<le> rs_mem w"
    and "sorted_wrt (\<lambda>a b. \<not> prefix (pt_ref a) (pt_ref b) \<and> \<not> prefix (pt_ref b) (pt_ref a)) ps"
    and "i < length ps" and "pt_ref d = pt_ref (ps ! i)"
    and "0 \<notin> set k" and "\<forall>q \<in> set ps. \<not> prefix k (pt_ref q)"
  shows "(i \<noteq> 0 \<longrightarrow> SerializeReferenceValue_getRVP 0 cache (concat (map pair_layout ps) @ pair_layout d @ [0]) w = Require) \<and>
    (i = 0 \<longrightarrow> (\<exists>p cache' w'.
       SerializeReferenceValue_getRVP 0 cache (concat (map pair_layout ps) @ pair_layout d @ [0]) w = Ok (p, cache', w') \<and>
       SerializeReferenceValue_findReferenceValue p (k @ [0]) w' = Stuck))"
proof -
  have sorted: "sorted_wrt (\<lambda>a b. \<not> prefix (pt_ref b) (pt_ref a)) ps" using assms(5) by (auto simp: sorted_wrt_iff_nth_less)
  obtain a as where "pair_layout d = a # as" using pair_ok_chars(4) [OF assms(3)] by blast
  then obtain n where n: "length (concat (map pair_layout ps) @ pair_layout d @ [0]) = length ps + Suc (Suc n)"
    using layout_fuel [OF assms(2), of "[]" "pair_layout d @ [0]"] by auto
  have m: "7 * length ps \<le> rs_mem w" using assms(4) by simp
  obtain p xs cache1 w1 sp where r: "getRVP_loop (length ps + Suc (Suc n)) ([] @ concat (map pair_layout ps) @ pair_layout d @ [0]) 0 cache w =
      getRVP_loop (Suc (Suc n)) (sp @ pair_layout d @ [0]) p cache1 w1" "rv_state w1 p xs (rev (map pair_of ps)) cache1"
      "\<forall>c \<in> set sp. space c" "rs_mem w \<le> rs_mem w1 + 7 * length ps"
    using getRVP_loop_pairs [OF assms(1) [unfolded cache_ok_state] assms(2) _ m sorted, of "[]" "Suc (Suc n)" "pair_layout d @ [0]"]
    by auto
  let ?w = "w1\<lparr>rs_mem := rs_mem w1 - 2\<rparr>"
  let ?kvs = "rev (map pair_of ps)"
  have mem: "2 \<le> rs_mem w1" "2 \<le> rs_mem ?w" using assms(4) r(4) by simp_all
  have get: "SerializeReferenceValue_getRVP 0 cache (concat (map pair_layout ps) @ pair_layout d @ [0]) w =
      obind (store_pair (pt_ref d @ [0]) (pt_value d @ [0]) p cache1 ?w) (\<lambda>(p, cache, w).
        getRVP_loop (Suc n) (pt_end d @ [0]) p cache w)"
    using r(1) getRVP_turn [OF assms(3) r(3) mem(1)] n
    by (simp add: SerializeReferenceValue_getRVP_def del: getRVP_loop.simps)
  have inv: "rv_list ?w p xs ?kvs" using r(2) by (simp add: rv_state_def rv_list_def)
  have lens: "length xs = length ps" using inv by (auto simp: rv_list_def dest: list_all2_lengthD)
  let ?j = "length ps - Suc i"
  have j: "?j < length ?kvs" "?kvs ! ?j = pair_of (ps ! i)" using assms(6) by (simp_all add: rev_nth)
  have "\<not> prefix (pt_ref d) (fst (?kvs ! l))" if l: "l < ?j" for l
  proof -
    have "i < length ps - Suc l" "length ps - Suc l < length ps" using l assms(6) by auto
    with assms(5,7) have "\<not> prefix (pt_ref d) (pt_ref (ps ! (length ps - Suc l)))" by (auto simp: sorted_wrt_iff_nth_less)
    with l assms(6) show ?thesis by (simp add: rev_nth)
  qed
  with store_pair_found [of ?w p xs ?kvs cache1 "pt_ref d" "pt_value d" ?j] r(2) mem(2) pair_ok_chars(1,2) [OF assms(3)] j assms(7)
  obtain c c' where c: "cells (rs_heap w1) (xs ! ?j) = Some c" "rv_next c' = rv_next c" "rv_holds c' (pair_of d)"
    "rv_next c \<noteq> 0 \<Longrightarrow> store_pair (pt_ref d @ [0]) (pt_value d @ [0]) p cache1 ?w = Require"
    "rv_next c = 0 \<Longrightarrow> \<exists>w'. store_pair (pt_ref d @ [0]) (pt_value d @ [0]) p cache1 ?w = Ok (xs ! ?j, cache1, w') \<and>
       cells (rs_heap w') = (cells (rs_heap w1))(xs ! ?j \<mapsto> c'\<lparr>rv_next := p\<rparr>)"
    by auto
  have next_c: "rv_next c = (if Suc ?j = length xs then 0 else xs ! Suc ?j)"
    using lseg_next [of rv_next "cells (rs_heap w1)" p xs ?j c] inv c(1) lens assms(6) by (simp add: rv_list_def)
  show ?thesis
  proof (cases "i = 0")
    case False
    then have "Suc ?j < length xs" using lens assms(6) by simp
    then have "xs ! Suc ?j \<noteq> 0" using inv nth_mem lseg_nonnull unfolding rv_list_def by metis
    then have "rv_next c \<noteq> 0" using \<open>Suc ?j < length xs\<close> next_c by simp
    with False c(4) get show ?thesis by simp
  next
    case True
    have "xs \<noteq> []" using lens assms(6) by auto
    with True have "rv_next c = 0" "xs ! ?j = last xs" using next_c lens assms(6) by (auto simp: last_conv_nth)
    with c(5) obtain w' where w': "store_pair (pt_ref d @ [0]) (pt_value d @ [0]) p cache1 ?w = Ok (last xs, cache1, w')"
      "cells (rs_heap w') = (cells (rs_heap ?w))(last xs \<mapsto> c'\<lparr>rv_next := p\<rparr>)" by auto
    have "\<not> prefix k (pt_ref d)" "\<forall>kv \<in> set ?kvs. \<not> prefix k (fst kv)" using assms(6,7,9) by auto
    then have "\<forall>x \<in> set xs. x \<noteq> 0 \<and> (\<exists>c kv. cells (rs_heap w') x = Some c \<and> rv_next c \<in> set xs \<and> rv_holds c kv \<and> \<not> prefix k (fst kv))"
      using cycle_of_list [OF inv _ w'(2), of "pair_of d" k] c(3) assms(6) by fastforce
    moreover have "last xs \<in> set xs" using lens assms(6) by (cases xs) auto
    ultimately have "find_loop fuel (k @ [0]) (length k) (last xs) w' = Stuck" for fuel
      using find_loop_cycle assms(8) by blast
    with True get w'(1) assms(8) show ?thesis
      using getRVP_loop_end [OF pair_ok_chars(3) [OF assms(3)]]
      by (simp add: SerializeReferenceValue_findReferenceValue_def del: getRVP_loop.simps)
  qed
qed

theorem getRVP_repeated_reference_witness:
  "\<exists>p cache' w'. SerializeReferenceValue_getRVP 0 None [110, 61, 65, 49, 32, 110, 61, 65, 49, 32, 0]
       \<lparr>rs_heap = empty_heap, rs_mem = 14\<rparr> = Ok (p, cache', w') \<and>
     SerializeReferenceValue_findReferenceValue p [116, 0] w' = Stuck"
proof -
  let ?w = "\<lparr>rs_heap = empty_heap, rs_mem = 14\<rparr>"
  let ?p = "PairText [110] [] [] False [65, 49] [32]"
  have "cache_ok ?w None" by (simp add: cache_ok_def)
  from getRVP_repeated_reference [OF this, of "[?p]" ?p 0 "[116]"] pair_ok_example(2) show ?thesis
    by (simp add: pair_layout_def)
qed

end
