(* ===== verification/Ser_Core.thy ===== *)
theory Ser_Core
  imports IO_Format IO_Streams Ser_Ref
begin

text \<open>
  The state of the serializer and the part of src/src/Serialize.c that does not look at the
  format: modes, the choice of the stream, transfer of a value to or from the stream, and the
  recovery from errors. The object is the record \<open>Serialize\<close>, with the fields of the struct of
  src/src/Serialize.h; the last three fields are the memory behind its pointers: the channel of the user, the
  descriptions of the added formats and the elements of the header.

  The field \<^verbatim>\<open>stream\<close> points to the channel of the user or to the measuring
  channel that the object owns, so each operation on it is dispatched to one of the two. Names are C strings with
  their terminator, values are the bytes of the objects.

  \<^verbatim>\<open>longjmp\<close> leaves a function through the innermost calls: an operation that may jump has a result of the
  type \<open>flow\<close>. The place where \<^verbatim>\<open>setjmp\<close> was called is a number, the frame.
\<close>

unbundle bit_operations_syntax

subsection \<open>Types and constants\<close>

definition SERIALIZE_VALID :: ulong where "SERIALIZE_VALID = 0xc1d3adcc"
definition SERIALIZE_INVALID :: ulong where "SERIALIZE_INVALID = 0x89b72feb"

definition SERIALIZE_STREAMMODE_NORMAL :: uint32 where "SERIALIZE_STREAMMODE_NORMAL = push_bit 2 1"
definition SERIALIZE_STREAMMODE_FLUSH :: uint32 where "SERIALIZE_STREAMMODE_FLUSH = push_bit 3 1"
definition SERIALIZE_STREAMMODE_LOOP :: uint32 where "SERIALIZE_STREAMMODE_LOOP = push_bit 4 1"
definition SERIALIZE_MODE_WRITE :: uint32 where "SERIALIZE_MODE_WRITE = push_bit 5 1"
definition SERIALIZE_MODE_READ :: uint32 where "SERIALIZE_MODE_READ = push_bit 6 1"
definition SERIALIZE_MODE_CALC :: uint32 where "SERIALIZE_MODE_CALC = push_bit 7 1"
definition SERIALIZE_MODE_NULL :: uint32 where "SERIALIZE_MODE_NULL = push_bit 8 1"
definition SERIALIZE_MODE_AUTOCALC :: uint32 where "SERIALIZE_MODE_AUTOCALC = push_bit 9 1"
definition SERIALIZE_MODE_NOHEADER :: uint32 where "SERIALIZE_MODE_NOHEADER = push_bit 10 1"
definition SERIALIZE_MODE_TRANSLATE :: uint32 where "SERIALIZE_MODE_TRANSLATE = push_bit 11 1"

definition SERIALIZE_MODE_IS :: "uint32 \<Rightarrow> uint32 \<Rightarrow> bool" where
  "SERIALIZE_MODE_IS modes toCheck \<longleftrightarrow> modes OR toCheck = modes"

definition SERIALIZE_COLUMNWRAP :: int where "SERIALIZE_COLUMNWRAP = 3"
definition SERIALIZE_INDENTLEVEL :: int where "SERIALIZE_INDENTLEVEL = 0"
definition SERIALIZE_INDENT_SIZE :: int where "SERIALIZE_INDENT_SIZE = 2"
definition SERIALIZE_HEADER_MAJVERSIONDEFAULT :: int where "SERIALIZE_HEADER_MAJVERSIONDEFAULT = 2"
definition SERIALIZE_HEADER_MINVERSIONDEFAULT :: int where "SERIALIZE_HEADER_MINVERSIONDEFAULT = 0"
definition SERIALIZE_HEADER_ELEMENT_DEFAULT_SIZE :: int where "SERIALIZE_HEADER_ELEMENT_DEFAULT_SIZE = 2048"
definition SERIALIZE_HEADER_MAXLEN :: int where
  "SERIALIZE_HEADER_MAXLEN = SERIALIZE_HEADER_ELEMENT_DEFAULT_SIZE * 5"
definition SERIALIZE_TYPEMAXTEXTLEN_STRING :: int where "SERIALIZE_TYPEMAXTEXTLEN_STRING = 1024"

text \<open>\<open>SERIALIZE_TYPE_OTHER\<close> is a value outside of the enumeration.\<close>

datatype (plugins only: size code) SerializeType =
    SERIALIZE_TYPE_CHAR | SERIALIZE_TYPE_SCHAR | SERIALIZE_TYPE_UCHAR
  | SERIALIZE_TYPE_SINT | SERIALIZE_TYPE_USINT | SERIALIZE_TYPE_INT | SERIALIZE_TYPE_UINT
  | SERIALIZE_TYPE_LINT | SERIALIZE_TYPE_ULINT | SERIALIZE_TYPE_LL | SERIALIZE_TYPE_ULL
  | SERIALIZE_TYPE_FLOAT | SERIALIZE_TYPE_DOUBLE | SERIALIZE_TYPE_LDOUBLE
  | SERIALIZE_TYPE_CHARARRAY | SERIALIZE_TYPE_SCHARARRAY | SERIALIZE_TYPE_UCHARARRAY
  | SERIALIZE_TYPE_SINTARRAY | SERIALIZE_TYPE_USINTARRAY | SERIALIZE_TYPE_INTARRAY | SERIALIZE_TYPE_UINTARRAY
  | SERIALIZE_TYPE_LINTARRAY | SERIALIZE_TYPE_ULINTARRAY | SERIALIZE_TYPE_LLARRAY | SERIALIZE_TYPE_ULLARRAY
  | SERIALIZE_TYPE_FLOATARRAY | SERIALIZE_TYPE_DOUBLEARRAY | SERIALIZE_TYPE_LDOUBLEARRAY
  | SERIALIZE_TYPE_STRING | SERIALIZE_TYPE_OTHER

definition SERIALIZE_IS_ARRAY_ELEMENT :: "SerializeType \<Rightarrow> bool" where
  "SERIALIZE_IS_ARRAY_ELEMENT t \<longleftrightarrow> t \<in>
     {SERIALIZE_TYPE_CHARARRAY, SERIALIZE_TYPE_SCHARARRAY, SERIALIZE_TYPE_UCHARARRAY, SERIALIZE_TYPE_SINTARRAY,
      SERIALIZE_TYPE_USINTARRAY, SERIALIZE_TYPE_INTARRAY, SERIALIZE_TYPE_UINTARRAY, SERIALIZE_TYPE_LINTARRAY,
      SERIALIZE_TYPE_ULINTARRAY, SERIALIZE_TYPE_LLARRAY, SERIALIZE_TYPE_ULLARRAY, SERIALIZE_TYPE_FLOATARRAY,
      SERIALIZE_TYPE_DOUBLEARRAY, SERIALIZE_TYPE_LDOUBLEARRAY}"

text \<open>The constants \<^verbatim>\<open>SERIALIZE_TYPEMAXTEXTLEN_...\<close> stand in the table as numbers.\<close>

definition Serialize_getTypeMaxSizeAsAscii :: "SerializeType \<Rightarrow> int outcome" where
  "Serialize_getTypeMaxSizeAsAscii t =
     (if t \<in> {SERIALIZE_TYPE_CHAR, SERIALIZE_TYPE_CHARARRAY, SERIALIZE_TYPE_SCHAR, SERIALIZE_TYPE_SCHARARRAY,
              SERIALIZE_TYPE_UCHAR, SERIALIZE_TYPE_UCHARARRAY} then Ok 6
      else if t \<in> {SERIALIZE_TYPE_SINT, SERIALIZE_TYPE_SINTARRAY} then Ok 6
      else if t \<in> {SERIALIZE_TYPE_USINT, SERIALIZE_TYPE_USINTARRAY} then Ok 5
      else if t \<in> {SERIALIZE_TYPE_INT, SERIALIZE_TYPE_INTARRAY} then Ok 11
      else if t \<in> {SERIALIZE_TYPE_UINT, SERIALIZE_TYPE_UINTARRAY} then Ok 10
      else if t \<in> {SERIALIZE_TYPE_LINT, SERIALIZE_TYPE_LINTARRAY} then Ok 11
      else if t \<in> {SERIALIZE_TYPE_ULINT, SERIALIZE_TYPE_ULINTARRAY} then Ok 10
      else if t \<in> {SERIALIZE_TYPE_LL, SERIALIZE_TYPE_LLARRAY} then Ok 20
      else if t \<in> {SERIALIZE_TYPE_ULL, SERIALIZE_TYPE_ULLARRAY} then Ok 14
      else if t \<in> {SERIALIZE_TYPE_FLOAT, SERIALIZE_TYPE_FLOATARRAY} then Ok 14
      else if t \<in> {SERIALIZE_TYPE_DOUBLE, SERIALIZE_TYPE_DOUBLEARRAY} then Ok 23
      else if t \<in> {SERIALIZE_TYPE_LDOUBLE, SERIALIZE_TYPE_LDOUBLEARRAY} then Ok 25
      else if t = SERIALIZE_TYPE_STRING then Ok SERIALIZE_TYPEMAXTEXTLEN_STRING
      else Require)"

subsection \<open>The object\<close>

text \<open>A pointer to the options of a format is null or points to the data of one of the formats.\<close>

datatype format_data =
    SerializeFormatBinaryEndianFlag bool
  | SerializeFormatAsciiOptions bool
  | SerializeFormatJsonOptions bool bool bool
  | SerializeFormatXmlOptions bool
  | OtherData "byte list"

text \<open>\<open>fi_ops\<close> is the position of the function table among the known formats.\<close>

record SerializeFormatInfo =
  fi_ops :: nat
  fi_data :: "format_data owned"
  fi_libHandle :: bool

record SerializeHeader =
  hd_majVersion :: int
  hd_minVersion :: int
  hd_objSize :: int
  hd_listHead :: nat
  hd_listTail :: nat
  hd_poolHead :: nat
  hd_poolTail :: nat
  hd_typeSize :: int
  hd_nameSize :: int
  hd_optsSize :: int
  hd_formatSize :: int
  hd_headerSize :: int
  hd_dumpable :: bool

datatype stream_ptr = NoStream | UserStream | CalcStream

record 's Serialize =
  sz_valid :: ulong
  sz_format :: nat
  sz_streamMode :: uint32
  sz_header :: "SerializeHeader owned"
  sz_mode :: uint32
  sz_formatList :: mtl
  sz_isLittleEndian :: bool
  sz_numTypeCalls :: int
  sz_calcSizeStream :: "IOChannelCalc IOChannel owned"
  sz_stream :: stream_ptr
  sz_baseTypeEnable :: bool
  sz_forceBinaryDeploy :: bool
  sz_isInitMode :: bool
  sz_isAutoCalcSizeMode :: bool
  sz_isTranslateMode :: bool
  sz_useHeader :: bool
  sz_indentLevel :: int
  sz_columnWrap :: int
  sz_offsetForLoop :: int
  sz_roundOff :: int
  sz_backOff :: int
  sz_objInitialOffset :: int
  sz_errorOccurred :: bool
  sz_recoveryJmp :: nat
  sz_recoveryJmpSet :: bool
  sz_channel :: "'s IOChannel"
  sz_infos :: "SerializeFormatInfo heap"
  sz_rvs :: rvs

text \<open>What the code finds around it: the function table of the channel of the user, the host's byte order, what the C
  library prints and reads for floating point numbers and addresses, the number of rounds that a wait for a
  stream may last, the memory behind the property \<^verbatim>\<open>MemPointer\<close> of a stream, what the
  callbacks attached to the stream do, and the effect of its property \<^verbatim>\<open>isBeginType\<close>.\<close>

record ('s, 'a) ser_env =
  se_interface :: "('s, 'a) IOChannelInterface"
  se_isLittleEndian :: bool
  se_print :: "string \<Rightarrow> nat \<Rightarrow> byte list"
  se_scan :: "string \<Rightarrow> byte list \<Rightarrow> nat option"
  se_rounds :: nat
  se_memPointer :: "'s \<Rightarrow> byte list owned"
  se_setMemory :: "byte list \<Rightarrow> 's \<Rightarrow> 's"
  se_onBegin :: "'s IOChannel \<Rightarrow> 's IOChannel outcome"
  se_onEnd :: "'s IOChannel \<Rightarrow> 's IOChannel outcome"
  se_setBeginType :: "'s IOChannel \<Rightarrow> 's IOChannel outcome"

definition valid_serialize :: "'s Serialize \<Rightarrow> 'b outcome \<Rightarrow> 'b outcome" where
  "valid_serialize sz k = ANY_REQUIRE (sz_valid sz = SERIALIZE_VALID) k"

text \<open>\<^verbatim>\<open>ANY_REQUIRE_MSG( *string )\<close>: the string is not empty.\<close>

definition SERIALIZE_REQUIRE_STRING :: "byte list \<Rightarrow> 'b outcome \<Rightarrow> 'b outcome" where
  "SERIALIZE_REQUIRE_STRING s k = (case s of [] \<Rightarrow> Fault | c # _ \<Rightarrow> ANY_REQUIRE (c \<noteq> 0) k)"

text \<open>\<^verbatim>\<open>header = self->header; ANY_REQUIRE( header );\<close>\<close>

definition with_header :: "'s Serialize \<Rightarrow> (SerializeHeader \<Rightarrow> 'b outcome) \<Rightarrow> 'b outcome" where
  "with_header sz k = require_ptr (sz_header sz) k"

definition set_header :: "SerializeHeader \<Rightarrow> 's Serialize \<Rightarrow> 's Serialize" where
  "set_header h sz = sz\<lparr>sz_header := Own h\<rparr>"

text \<open>\<^verbatim>\<open>ANY_REQUIRE_MSG( self->format, "format not set" )\<close>\<close>

definition format_set :: "'s Serialize \<Rightarrow> 'b outcome \<Rightarrow> 'b outcome" where
  "format_set sz k = ANY_REQUIRE (sz_format sz \<noteq> 0) k"

subsection \<open>The stream\<close>

text \<open>A function of the channel library is called on \<^verbatim>\<open>self->stream\<close>: the first argument is what it does on
  the channel of the user, the second what it does on the measuring channel.\<close>

definition on_stream :: "('s IOChannel \<Rightarrow> ('r \<times> 's IOChannel) outcome) \<Rightarrow>
    (IOChannelCalc IOChannel \<Rightarrow> ('r \<times> IOChannelCalc IOChannel) outcome) \<Rightarrow> 's Serialize \<Rightarrow> ('r \<times> 's Serialize) outcome" where
  "on_stream f g sz = (case sz_stream sz of
     NoStream \<Rightarrow> Require
   | UserStream \<Rightarrow> obind (f (sz_channel sz)) (\<lambda>(r, ch). Ok (r, sz\<lparr>sz_channel := ch\<rparr>))
   | CalcStream \<Rightarrow> require_ptr (sz_calcSizeStream sz) (\<lambda>m.
       obind (g m) (\<lambda>(r, m). Ok (r, sz\<lparr>sz_calcSizeStream := Own m\<rparr>))))"

definition ask_stream :: "('s IOChannel \<Rightarrow> 'r outcome) \<Rightarrow> (IOChannelCalc IOChannel \<Rightarrow> 'r outcome) \<Rightarrow> 's Serialize \<Rightarrow> 'r outcome" where
  "ask_stream f g sz = (case sz_stream sz of
     NoStream \<Rightarrow> Require
   | UserStream \<Rightarrow> f (sz_channel sz)
   | CalcStream \<Rightarrow> require_ptr (sz_calcSizeStream sz) g)"

definition stream_eof :: "'s Serialize \<Rightarrow> bool outcome" where
  "stream_eof = ask_stream IOChannel_eof IOChannel_eof"

definition stream_error :: "'s Serialize \<Rightarrow> bool outcome" where
  "stream_error = ask_stream IOChannel_isErrorOccurred IOChannel_isErrorOccurred"

definition stream_write :: "('s, 'a) ser_env \<Rightarrow> byte list \<Rightarrow> 's Serialize \<Rightarrow> (int \<times> 's Serialize) outcome" where
  "stream_write V bs = on_stream (IOChannel_write (se_interface V) (Some bs)) (IOChannel_write IOChannelCalcOps (Some bs))"

definition stream_read :: "('s, 'a) ser_env \<Rightarrow> int \<Rightarrow> 's Serialize \<Rightarrow> ((int \<times> byte list) \<times> 's Serialize) outcome" where
  "stream_read V n = on_stream
     (\<lambda>ch. obind (IOChannel_read (se_interface V) n ch) (\<lambda>(r, bs, ch). Ok ((r, bs), ch)))
     (\<lambda>ch. obind (IOChannel_read IOChannelCalcOps n ch) (\<lambda>(r, bs, ch). Ok ((r, bs), ch)))"

definition stream_gets :: "('s, 'a) ser_env \<Rightarrow> int \<Rightarrow> 's Serialize \<Rightarrow> ((int \<times> byte list) \<times> 's Serialize) outcome" where
  "stream_gets V n = on_stream
     (\<lambda>ch. obind (IOChannel_gets (se_interface V) n ch) (\<lambda>(r, bs, ch). Ok ((r, bs), ch)))
     (\<lambda>ch. obind (IOChannel_gets IOChannelCalcOps n ch) (\<lambda>(r, bs, ch). Ok ((r, bs), ch)))"

text \<open>The arguments of the serializer are never callbacks.\<close>

fun retype :: "'s vararg \<Rightarrow> 't vararg" where
  "retype NullArg = NullArg"
| "retype (CharArg c) = CharArg c"
| "retype (NumArg t v) = NumArg t v"
| "retype (FloatArg t v) = FloatArg t v"
| "retype (PtrArg a) = PtrArg a"
| "retype (StrArg s) = StrArg s"
| "retype (LenArg i) = LenArg i"
| "retype (CallArg f) = NullArg"

definition stream_printf :: "('s, 'a) ser_env \<Rightarrow> string \<Rightarrow> unit vararg list \<Rightarrow> 's Serialize \<Rightarrow> (int \<times> 's Serialize) outcome" where
  "stream_printf V fmt args = on_stream
     (IOChannel_printf (se_print V) (se_interface V) fmt (map retype args))
     (IOChannel_printf (se_print V) IOChannelCalcOps fmt (map retype args))"

definition stream_scanf :: "('s, 'a) ser_env \<Rightarrow> string \<Rightarrow> unit vararg list \<Rightarrow> 's Serialize \<Rightarrow>
    ((int \<times> int option \<times> unit vararg list) \<times> 's Serialize) outcome" where
  "stream_scanf V fmt args = on_stream
     (\<lambda>ch. obind (IOChannel_scanf (se_scan V) (se_rounds V) (se_interface V) fmt (map retype args) ch)
       (\<lambda>(r, n, args, ch). Ok ((r, n, map retype args), ch)))
     (\<lambda>ch. obind (IOChannel_scanf (se_scan V) (se_rounds V) IOChannelCalcOps fmt (map retype args) ch)
       (\<lambda>(r, n, args, ch). Ok ((r, n, map retype args), ch)))"

definition stream_seek :: "('s, 'a) ser_env \<Rightarrow> int \<Rightarrow> IOChannelWhence \<Rightarrow> 's Serialize \<Rightarrow> (int \<times> 's Serialize) outcome" where
  "stream_seek V offset whence = on_stream (IOChannel_seek (se_interface V) offset whence) (IOChannel_seek IOChannelCalcOps offset whence)"

definition stream_flush :: "('s, 'a) ser_env \<Rightarrow> 's Serialize \<Rightarrow> (int \<times> 's Serialize) outcome" where
  "stream_flush V = on_stream (IOChannel_flush (se_interface V)) (IOChannel_flush IOChannelCalcOps)"

definition stream_unget :: "byte list \<Rightarrow> 's Serialize \<Rightarrow> (int \<times> 's Serialize) outcome" where
  "stream_unget bs = on_stream (IOChannel_unget bs) (IOChannel_unget bs)"

text \<open>The measuring channel has no callbacks and no properties.\<close>

definition stream_event :: "('s IOChannel \<Rightarrow> 's IOChannel outcome) \<Rightarrow> 's Serialize \<Rightarrow> 's Serialize outcome" where
  "stream_event f sz = omap snd (on_stream (\<lambda>ch. omap (Pair ()) (f ch)) (\<lambda>m. Ok ((), m)) sz)"

subsection \<open>Errors\<close>

text \<open>An operation returns, or jumps to the frame that has been set, with the state at the jump.\<close>

datatype ('r, 'st) flow = Returned 'r 'st | Longjmp 'st

definition fbind :: "('r, 'st) flow outcome \<Rightarrow> ('r \<Rightarrow> 'st \<Rightarrow> ('q, 'st) flow outcome) \<Rightarrow> ('q, 'st) flow outcome" where
  "fbind m k = obind m (\<lambda>f. case f of Returned r sz \<Rightarrow> k r sz | Longjmp sz \<Rightarrow> Ok (Longjmp sz))"

definition lift_flow :: "'st outcome \<Rightarrow> (unit, 'st) flow outcome" where
  "lift_flow m = omap (Returned ()) m"

text \<open>The macro jumps after an error or at the end of the stream if a frame is set. If none is set it goes on, and
  what follows it in the function runs.\<close>

definition SERIALIZE_SKIPIFERROR :: "'s Serialize \<Rightarrow> (unit, 's Serialize) flow outcome" where
  "SERIALIZE_SKIPIFERROR sz = obind (stream_eof sz) (\<lambda>eof.
     Ok (if (eof \<or> sz_errorOccurred sz) \<and> sz_recoveryJmpSet sz
         then Longjmp (sz\<lparr>sz_recoveryJmpSet := False\<rparr>) else Returned () sz))"

subsection \<open>Resetting, modes\<close>

definition Serialize_partialReset :: "'s Serialize \<Rightarrow> 's Serialize" where
  "Serialize_partialReset sz = sz\<lparr>
     sz_indentLevel := SERIALIZE_INDENTLEVEL, sz_columnWrap := SERIALIZE_COLUMNWRAP, sz_baseTypeEnable := False,
     sz_forceBinaryDeploy := False, sz_errorOccurred := False, sz_roundOff := 0, sz_backOff := 0,
     sz_objInitialOffset := 0, sz_numTypeCalls := 0, sz_recoveryJmpSet := False\<rparr>"

definition Serialize_resetSerialize :: "'s Serialize \<Rightarrow> 's Serialize" where
  "Serialize_resetSerialize sz = sz\<lparr>
     sz_mode := SERIALIZE_MODE_NULL, sz_indentLevel := SERIALIZE_INDENTLEVEL, sz_columnWrap := SERIALIZE_COLUMNWRAP,
     sz_streamMode := SERIALIZE_STREAMMODE_NORMAL, sz_format := 0, sz_header := Null,
     sz_formatList := (sz_formatList sz)\<lparr>mt_self := Null\<rparr>, sz_calcSizeStream := Null, sz_stream := NoStream,
     sz_baseTypeEnable := False, sz_isLittleEndian := False, sz_forceBinaryDeploy := False, sz_isInitMode := False,
     sz_isAutoCalcSizeMode := False, sz_isTranslateMode := False, sz_useHeader := True, sz_errorOccurred := False,
     sz_roundOff := 0, sz_backOff := 0, sz_objInitialOffset := 0, sz_numTypeCalls := 0, sz_recoveryJmpSet := False\<rparr>"

definition Serialize_setStreamModeFromModes :: "uint32 \<Rightarrow> 's Serialize \<Rightarrow> bool \<times> 's Serialize" where
  "Serialize_setStreamModeFromModes modes sz =
     (let sz = (if SERIALIZE_MODE_IS modes SERIALIZE_STREAMMODE_NORMAL then sz\<lparr>sz_streamMode := SERIALIZE_STREAMMODE_NORMAL\<rparr> else sz);
          sz = (if SERIALIZE_MODE_IS modes SERIALIZE_STREAMMODE_FLUSH then sz\<lparr>sz_streamMode := SERIALIZE_STREAMMODE_FLUSH\<rparr> else sz);
          sz = (if SERIALIZE_MODE_IS modes SERIALIZE_STREAMMODE_LOOP then sz\<lparr>sz_streamMode := SERIALIZE_STREAMMODE_LOOP\<rparr> else sz)
      in (True, sz))"

definition Serialize_setDirectionFromModes :: "uint32 \<Rightarrow> 's Serialize \<Rightarrow> bool \<times> 's Serialize" where
  "Serialize_setDirectionFromModes modes sz =
     (let sz = sz\<lparr>sz_mode := -1\<rparr>;
          sz = (if SERIALIZE_MODE_IS modes SERIALIZE_MODE_WRITE then sz\<lparr>sz_mode := SERIALIZE_MODE_WRITE\<rparr> else sz);
          sz = (if SERIALIZE_MODE_IS modes SERIALIZE_MODE_READ then sz\<lparr>sz_mode := SERIALIZE_MODE_READ\<rparr> else sz);
          sz = (if SERIALIZE_MODE_IS modes SERIALIZE_MODE_CALC then sz\<lparr>sz_mode := SERIALIZE_MODE_CALC\<rparr> else sz)
      in (sz_mode sz \<noteq> -1, sz))"

definition Serialize_setMode :: "('s, 'a) ser_env \<Rightarrow> uint32 \<Rightarrow> 's Serialize \<Rightarrow> 's Serialize outcome" where
  "Serialize_setMode V modes sz = valid_serialize sz
     (let sz = snd (Serialize_setStreamModeFromModes modes sz);
          sz = snd (Serialize_setDirectionFromModes modes sz);
          sz = sz\<lparr>sz_offsetForLoop := 0\<rparr> in
      obind (if sz_streamMode sz = SERIALIZE_STREAMMODE_LOOP \<and> sz_stream sz \<noteq> NoStream
             then obind (stream_seek V 0 IOCHANNELWHENCE_CUR sz) (\<lambda>(pos, sz).
                  let sz = sz\<lparr>sz_offsetForLoop := pos\<rparr> in
                  Ok (if pos = -1 then sz\<lparr>sz_errorOccurred := True\<rparr> else sz))
             else Ok sz) (\<lambda>sz.
      let sz = sz\<lparr>sz_isAutoCalcSizeMode := SERIALIZE_MODE_IS modes SERIALIZE_MODE_AUTOCALC,
                 sz_isTranslateMode := SERIALIZE_MODE_IS modes SERIALIZE_MODE_TRANSLATE,
                 sz_useHeader := \<not> SERIALIZE_MODE_IS modes SERIALIZE_MODE_NOHEADER\<rparr> in
      Ok (if sz_mode sz = SERIALIZE_MODE_CALC
          then sz\<lparr>sz_stream := (if sz_calcSizeStream sz = Null then NoStream else CalcStream)\<rparr> else sz)))"

text \<open>The stream is not null; the channel becomes the channel of the user.\<close>

definition Serialize_setStream :: "'s IOChannel \<Rightarrow> 's Serialize \<Rightarrow> 's Serialize outcome" where
  "Serialize_setStream stream sz = valid_serialize sz (valid_channel stream
     (let sz = Serialize_partialReset sz in Ok (sz\<lparr>sz_stream := UserStream, sz_channel := stream\<rparr>)))"

subsection \<open>What the object tells\<close>

definition Serialize_getFormatDataPtr :: "'s Serialize \<Rightarrow> format_data owned outcome" where
  "Serialize_getFormatDataPtr sz = valid_serialize sz (format_set sz
     (obind (hread (sz_infos sz) (sz_format sz)) (\<lambda>info. Ok (fi_data info))))"

definition Serialize_getStream :: "'s Serialize \<Rightarrow> stream_ptr outcome" where
  "Serialize_getStream sz = valid_serialize sz (Ok (sz_stream sz))"

definition Serialize_getBeginTypeNestingLevel :: "'s Serialize \<Rightarrow> int outcome" where
  "Serialize_getBeginTypeNestingLevel sz = valid_serialize sz (Ok (sz_numTypeCalls sz))"

definition Serialize_isReading :: "'s Serialize \<Rightarrow> bool outcome" where
  "Serialize_isReading sz = valid_serialize sz (Ok (sz_mode sz = SERIALIZE_MODE_READ))"

definition Serialize_isWriting :: "'s Serialize \<Rightarrow> bool outcome" where
  "Serialize_isWriting sz = valid_serialize sz (Ok (sz_mode sz = SERIALIZE_MODE_WRITE \<or> sz_mode sz = SERIALIZE_MODE_CALC))"

definition Serialize_isErrorOccurred :: "'s Serialize \<Rightarrow> bool outcome" where
  "Serialize_isErrorOccurred sz = valid_serialize sz (Ok (sz_errorOccurred sz))"

definition Serialize_isEof :: "'s Serialize \<Rightarrow> bool outcome" where
  "Serialize_isEof sz = valid_serialize sz (stream_eof sz)"

definition Serialize_cleanError :: "'s Serialize \<Rightarrow> 's Serialize outcome" where
  "Serialize_cleanError sz = valid_serialize sz (Ok (Serialize_partialReset sz))"

definition Serialize_getColumnWrap :: "'s Serialize \<Rightarrow> int outcome" where
  "Serialize_getColumnWrap sz = valid_serialize sz (Ok (sz_columnWrap sz))"

text \<open>The unsigned argument is stored into a signed field.\<close>

definition Serialize_setColumnWrap :: "uint32 \<Rightarrow> 's Serialize \<Rightarrow> 's Serialize outcome" where
  "Serialize_setColumnWrap columnWrap sz = valid_serialize sz (Ok (sz\<lparr>sz_columnWrap := sint columnWrap\<rparr>))"

definition Serialize_getHeaderSize :: "'s Serialize \<Rightarrow> int outcome" where
  "Serialize_getHeaderSize sz = valid_serialize sz (with_header sz (\<lambda>h. Ok (hd_headerSize h)))"

definition Serialize_getPayloadSize :: "'s Serialize \<Rightarrow> int outcome" where
  "Serialize_getPayloadSize sz = valid_serialize sz (with_header sz (\<lambda>h. Ok (hd_objSize h)))"

definition Serialize_getTotalSize :: "'s Serialize \<Rightarrow> int outcome" where
  "Serialize_getTotalSize sz = valid_serialize sz
     (obind (Serialize_getHeaderSize sz) (\<lambda>a. obind (Serialize_getPayloadSize sz) (\<lambda>b. Ok (a + b))))"

definition Serialize_getMaxSerializeSize :: "'s Serialize \<Rightarrow> int outcome" where
  "Serialize_getMaxSerializeSize sz = valid_serialize sz
     (obind (Serialize_getPayloadSize sz) (\<lambda>a. Ok (a + sz_roundOff sz)))"

definition Serialize_isLittleEndian :: "('s, 'a) ser_env \<Rightarrow> bool" where
  "Serialize_isLittleEndian V = se_isLittleEndian V"

definition Serialize_setInitMode :: "bool \<Rightarrow> 's Serialize \<Rightarrow> 's Serialize outcome" where
  "Serialize_setInitMode status sz = valid_serialize sz (Ok (sz\<lparr>sz_isInitMode := status\<rparr>))"

definition Serialize_isInitMode :: "'s Serialize \<Rightarrow> bool outcome" where
  "Serialize_isInitMode sz = valid_serialize sz (Ok (sz_isInitMode sz))"

definition Serialize_getStreamPosition :: "'s Serialize \<Rightarrow> int outcome" where
  "Serialize_getStreamPosition sz = valid_serialize sz
     (if \<not> sz_isTranslateMode sz
      then obind (ask_stream IOChannel_getStreamPosition IOChannel_getStreamPosition sz) (\<lambda>pos.
           Ok (if pos < 0 then 0 else pos))
      else Ok 0)"

definition Serialize_isTheFirstBeginTypeCall :: "'s Serialize \<Rightarrow> bool" where
  "Serialize_isTheFirstBeginTypeCall sz \<longleftrightarrow> sz_numTypeCalls sz = 0"

definition Serialize_isTheLastEndTypeCall :: "'s Serialize \<Rightarrow> bool" where
  "Serialize_isTheLastEndTypeCall sz \<longleftrightarrow> sz_numTypeCalls sz = 0"

subsection \<open>Transfer of values\<close>

definition Serialize_printf :: "('s, 'a) ser_env \<Rightarrow> string \<Rightarrow> unit vararg list \<Rightarrow> 's Serialize \<Rightarrow> (int \<times> 's Serialize) outcome" where
  "Serialize_printf V fmt args sz = valid_serialize sz (stream_printf V fmt args sz)"

definition Serialize_scanf :: "('s, 'a) ser_env \<Rightarrow> string \<Rightarrow> unit vararg list \<Rightarrow> 's Serialize \<Rightarrow>
    ((int \<times> unit vararg list) \<times> 's Serialize) outcome" where
  "Serialize_scanf V fmt args sz = valid_serialize sz
     (obind (stream_scanf V fmt args sz) (\<lambda>((r, nCh, args), sz). Ok ((r, args), sz)))"

fun indent_loop :: "nat \<Rightarrow> ('s, 'a) ser_env \<Rightarrow> 's Serialize \<Rightarrow> 's Serialize outcome" where
  "indent_loop 0 V sz = Ok sz"
| "indent_loop (Suc k) V sz = obind (stream_write V [32] sz) (\<lambda>(r, sz).
     indent_loop k V (if r \<noteq> 1 then sz\<lparr>sz_errorOccurred := True\<rparr> else sz))"

text \<open>The result is the counter of the loop, which ends one above the indentation.\<close>

definition Serialize_indent :: "('s, 'a) ser_env \<Rightarrow> 's Serialize \<Rightarrow> (int \<times> 's Serialize) outcome" where
  "Serialize_indent V sz = valid_serialize sz
     (obind (Serialize_isWriting sz) (\<lambda>w.
      if w then obind (indent_loop (nat (sz_indentLevel sz)) V sz) (\<lambda>sz'.
                Ok (if sz_indentLevel sz < 1 then 1 else sz_indentLevel sz + 1, sz'))
      else Ok (0, sz)))"

text \<open>The deploy mode with the value it goes with: raw bytes, of which \<open>len\<close> are meant, or the object behind a
  typed pointer that the format specification \<open>spec\<close> prints.\<close>

datatype deploy =
    SERIALIZE_DEPLOYDATAMODE_BINARY "byte list" int
  | SERIALIZE_DEPLOYDATAMODE_ASCII string "unit vararg"
  | DEPLOYDATAMODE_OTHER

text \<open>\<^verbatim>\<open>nBytes == -1 || IOChannel_eof( ) == true || IOChannel_isErrorOccurred( ) == true\<close>\<close>

definition transfer_broken :: "int \<Rightarrow> 's Serialize \<Rightarrow> bool outcome" where
  "transfer_broken nBytes sz =
     (if nBytes = -1 then Ok True else obind (stream_eof sz) (\<lambda>e. if e then Ok True else stream_error sz))"

text \<open>\<open>rdwrBytes\<close> bytes have been written. A stream that keeps taking nothing keeps the loop going.\<close>

fun deploy_write :: "nat \<Rightarrow> ('s, 'a) ser_env \<Rightarrow> byte list \<Rightarrow> int \<Rightarrow> int \<Rightarrow> 's Serialize \<Rightarrow> 's Serialize outcome" where
  "deploy_write 0 V data len rdwrBytes sz = Stuck"
| "deploy_write (Suc fuel) V data len rdwrBytes sz =
     (if rdwrBytes < len
      then defined_if (0 \<le> rdwrBytes \<and> len \<le> int (length data))
        (obind (stream_write V (take (nat (len - rdwrBytes)) (drop (nat rdwrBytes) data)) sz) (\<lambda>(nBytes, sz).
         obind (transfer_broken nBytes sz) (\<lambda>broken.
         if broken then Ok (sz\<lparr>sz_errorOccurred := True\<rparr>)
         else deploy_write fuel V data len (rdwrBytes + nBytes) sz)))
      else Ok sz)"

fun deploy_read :: "nat \<Rightarrow> ('s, 'a) ser_env \<Rightarrow> byte list \<Rightarrow> int \<Rightarrow> int \<Rightarrow> 's Serialize \<Rightarrow> (byte list \<times> 's Serialize) outcome" where
  "deploy_read 0 V data len rdwrBytes sz = Stuck"
| "deploy_read (Suc fuel) V data len rdwrBytes sz =
     (if rdwrBytes < len
      then obind (stream_read V (len - rdwrBytes) sz) (\<lambda>((nBytes, bs), sz).
           obind (copy_at rdwrBytes bs data) (\<lambda>data.
           obind (transfer_broken nBytes sz) (\<lambda>broken.
           if broken then obind (stream_eof sz) (\<lambda>e. Ok (data, if \<not> e then sz\<lparr>sz_errorOccurred := True\<rparr> else sz))
           else deploy_read fuel V data len (rdwrBytes + nBytes) sz)))
      else Ok (data, sz))"

definition Serialize_deployDataType :: "('s, 'a) ser_env \<Rightarrow> SerializeType \<Rightarrow> deploy \<Rightarrow> 's Serialize \<Rightarrow>
    ((bool \<times> deploy) \<times> 's Serialize) outcome" where
  "Serialize_deployDataType V t d sz = valid_serialize sz
     (obind (if sz_mode sz = SERIALIZE_MODE_WRITE \<or> sz_mode sz = SERIALIZE_MODE_CALC
             then (case d of
                SERIALIZE_DEPLOYDATAMODE_BINARY data len \<Rightarrow>
                  obind (deploy_write (se_rounds V) V data len 0 sz) (\<lambda>sz. Ok (d, sz))
              | SERIALIZE_DEPLOYDATAMODE_ASCII spec a \<Rightarrow>
                  obind (Serialize_getTypeMaxSizeAsAscii t) (\<lambda>maxFieldAsciiSize.
                  obind (stream_printf V spec [a] sz) (\<lambda>(realFieldAsciiSize, sz).
                  Ok (d, if realFieldAsciiSize \<le> 0 then sz\<lparr>sz_errorOccurred := True\<rparr>
                         else sz\<lparr>sz_roundOff := sz_roundOff sz + (maxFieldAsciiSize - realFieldAsciiSize)\<rparr>)))
              | DEPLOYDATAMODE_OTHER \<Rightarrow> Require)
             else if sz_mode sz = SERIALIZE_MODE_READ
             then (case d of
                SERIALIZE_DEPLOYDATAMODE_BINARY data len \<Rightarrow>
                  obind (deploy_read (se_rounds V) V data len 0 sz) (\<lambda>(data, sz).
                  Ok (SERIALIZE_DEPLOYDATAMODE_BINARY data len, sz))
              | SERIALIZE_DEPLOYDATAMODE_ASCII spec a \<Rightarrow>
                  obind (Serialize_getTypeMaxSizeAsAscii t) (\<lambda>maxFieldAsciiSize.
                  obind (stream_scanf V spec [a] sz) (\<lambda>((n, readBytes, args), sz).
                  let realFieldAsciiSize = (case readBytes of None \<Rightarrow> 0 | Some k \<Rightarrow> k) in
                  Ok (SERIALIZE_DEPLOYDATAMODE_ASCII spec (case args of b # _ \<Rightarrow> b | [] \<Rightarrow> a),
                      if n \<noteq> 1 then sz\<lparr>sz_errorOccurred := True\<rparr>
                      else sz\<lparr>sz_roundOff := sz_roundOff sz + (maxFieldAsciiSize - realFieldAsciiSize)\<rparr>)))
              | DEPLOYDATAMODE_OTHER \<Rightarrow> Require)
             else Require) (\<lambda>(d, sz).
      Ok ((\<not> sz_errorOccurred sz, d), sz)))"

subsection \<open>The measuring stream, the sizes of the header\<close>

text \<open>The search for the stream type \<^verbatim>\<open>Calc://\<close> succeeds: it is one of the built-in types. When opening fails the
  channel is cleared and deleted and the result is null. The number is the budget of allocations.\<close>

definition SerializeCalcStream_create :: "nat \<Rightarrow> (IOChannelCalc IOChannel owned \<times> nat) outcome" where
  "SerializeCalcStream_create mem =
     (let (p, mem) = IOChannel_new mem in
      require_ptr p (\<lambda>ch.
        obind (IOChannel_init ch mem) (\<lambda>(ok, ch, mem).
        if \<not> ok then Ok (Null, mem)
        else obind (IOChannel_open IOChannelCalcOps True False IOCHANNEL_MODE_W_ONLY () ch mem) (\<lambda>(ok, ch, mem).
             Ok (if ok then Own ch else Null, mem)))))"

definition header_size :: "int \<Rightarrow> int \<Rightarrow> int" where
  "header_size wanted old =
     (if wanted > 0 \<and> wanted > old then wanted
      else if wanted = 0 \<and> old = 0 then SERIALIZE_HEADER_ELEMENT_DEFAULT_SIZE else old)"

definition Serialize_setHeaderSizes :: "int \<Rightarrow> int \<Rightarrow> int \<Rightarrow> int \<Rightarrow> 's Serialize \<Rightarrow> 's Serialize outcome" where
  "Serialize_setHeaderSizes typeSize nameSize optsSize formatSize sz = deref (sz_header sz) (\<lambda>h.
     Ok (set_header (h\<lparr>hd_typeSize := header_size typeSize (hd_typeSize h),
                       hd_nameSize := header_size nameSize (hd_nameSize h),
                       hd_optsSize := header_size optsSize (hd_optsSize h),
                       hd_formatSize := header_size formatSize (hd_formatSize h)\<rparr>) sz))"

end
