(* ===== verification/Ser_Header.thy ===== *)
theory Ser_Header
  imports Ser_Core
begin

text \<open>
  The header of a serialized object, as far as it does not depend on the formats: the
  fields with their list of reference-value pairs, the length of its text, the functions that
  hand out a field, \<^verbatim>\<open>Serialize_peekHeader\<close>, and the size that is entered into a header already written
  (src/src/Serialize.c). The C library's \<^verbatim>\<open>snprintf\<close> is written out for the formats of the file.
\<close>

unbundle bit_operations_syntax

subsection \<open>Texts\<close>

definition cstr :: "string \<Rightarrow> byte list" where
  "cstr s = ascii s @ [0]"

text \<open>The characters of a C string.\<close>

definition chars_of :: "byte list \<Rightarrow> byte list outcome" where
  "chars_of s = defined_if (0 \<in> set s) (Ok (takeWhile (\<lambda>b. b \<noteq> 0) s))"

text \<open>\<^verbatim>\<open>%10d\<close> and \<^verbatim>\<open>%10ld\<close>\<close>

definition padded :: "int \<Rightarrow> byte list" where
  "padded i = (let ds = signed_decimal i in replicate (10 - length ds) 32 @ ds)"

text \<open>\<^verbatim>\<open>HRIS-%d.%d\<close>\<close>

definition preamble :: "int \<Rightarrow> int \<Rightarrow> byte list" where
  "preamble major minor = ascii ''HRIS-'' @ signed_decimal major @ ascii ''.'' @ signed_decimal minor"

text \<open>\<^verbatim>\<open>snprintf\<close> into a buffer of \<open>n\<close> bytes: what is stored.\<close>

definition snprintf_store :: "nat \<Rightarrow> byte list \<Rightarrow> byte list" where
  "snprintf_store n text = (if n = 0 then [] else take (n - 1) text @ [0])"

subsection \<open>The fields\<close>

definition field_value :: "SerializeHeader \<Rightarrow> string \<Rightarrow> 's Serialize \<Rightarrow> byte list owned outcome" where
  "field_value h ref sz = SerializeReferenceValue_findValue (hd_listHead h) (cstr ref) (sz_rvs sz)"

text \<open>The four fields of a header, of which all but the options have to be there.\<close>

definition header_fields :: "SerializeHeader \<Rightarrow> 's Serialize \<Rightarrow>
    (byte list owned \<Rightarrow> byte list owned \<Rightarrow> byte list owned \<Rightarrow> byte list owned \<Rightarrow> 'b outcome) \<Rightarrow> 'b outcome" where
  "header_fields h sz k =
     obind (field_value h ''type'' sz) (\<lambda>type.
     obind (field_value h ''name'' sz) (\<lambda>name.
     obind (field_value h ''format'' sz) (\<lambda>format.
     obind (field_value h ''opts'' sz) (\<lambda>opts.
     ANY_REQUIRE (type \<noteq> Null) (ANY_REQUIRE (name \<noteq> Null) (ANY_REQUIRE (format \<noteq> Null)
       (k type name format opts)))))))"

definition text_of :: "byte list owned \<Rightarrow> (byte list \<Rightarrow> 'b outcome) \<Rightarrow> 'b outcome" where
  "text_of p k = deref p (\<lambda>s. obind (chars_of s) k)"

definition SerializeHeader_updateHeaderSize :: "'s Serialize \<Rightarrow> 's Serialize outcome" where
  "SerializeHeader_updateHeaderSize sz = valid_serialize sz (with_header sz (\<lambda>h.
     header_fields h sz (\<lambda>type name format opts.
     text_of type (\<lambda>type. text_of name (\<lambda>name. text_of format (\<lambda>format.
     obind (if opts \<noteq> Null then text_of opts (\<lambda>opts. Ok (ascii '' opts = '' @ [39] @ opts @ [39, 10]))
            else Ok (ascii '' '' @ [10])) (\<lambda>rest.
     let text = preamble (hd_majVersion h) (hd_minVersion h) @ ascii '' type = '' @ [39] @ type @ [39] @ ascii '' name = '' @ name @
                ascii '' objSize = '' @ padded 0 @ ascii '' format = '' @ format @ rest in
     Ok (set_header (h\<lparr>hd_headerSize := int (length text)\<rparr>) sz))))))))"

text \<open>One field of \<^verbatim>\<open>SerializeHeader_setInfo\<close>: an element of the list, or else one from the pool, gets the value. If
  the pool is empty the null pointer is updated.\<close>

definition setInfo_field :: "string \<Rightarrow> byte list option \<Rightarrow> 's Serialize \<Rightarrow> 's Serialize outcome" where
  "setInfo_field ref val sz = (case val of None \<Rightarrow> Ok sz | Some v \<Rightarrow>
     deref (sz_header sz) (\<lambda>h.
     obind (SerializeReferenceValue_findReferenceValue (hd_listHead h) (cstr ref) (sz_rvs sz)) (\<lambda>rvp.
     obind (if rvp = 0
            then obind (SerializeReferenceValue_pop (hd_poolHead h) (sz_rvs sz)) (\<lambda>(rvp, pool, w).
                 if rvp = 0 then Ok (rvp, h, w)
                 else obind (SerializeReferenceValue_push (hd_listHead h) rvp w) (\<lambda>(list, w).
                      Ok (rvp, h\<lparr>hd_poolHead := pool, hd_listHead := list\<rparr>, w)))
            else Ok (rvp, h, sz_rvs sz)) (\<lambda>(rvp, h, w).
     obind (SerializeReferenceValue_update rvp (cstr ref) v w) (\<lambda>w.
     Ok (set_header h (sz\<lparr>sz_rvs := w\<rparr>)))))))"

text \<open>\<^verbatim>\<open>SERIALIZE_START_HEADER_SWITCH\<close>: a version without a branch is an error.\<close>

definition header_switch :: "SerializeHeader \<Rightarrow> 'b \<Rightarrow> 'b \<Rightarrow> 'b \<Rightarrow> 'b" where
  "header_switch h v10 v20 other =
     (if hd_majVersion h = 1 \<and> hd_minVersion h = 0 then v10
      else if hd_majVersion h = 2 \<and> hd_minVersion h = 0 then v20 else other)"

definition opt_text :: "byte list option \<Rightarrow> (byte list \<Rightarrow> 'b outcome) \<Rightarrow> 'b outcome" where
  "opt_text s k = (case s of None \<Rightarrow> k [] | Some s \<Rightarrow> obind (chars_of s) k)"

definition SerializeHeader_setInfo :: "byte list option \<Rightarrow> byte list option \<Rightarrow> byte list option \<Rightarrow> byte list option \<Rightarrow> int \<Rightarrow>
    's Serialize \<Rightarrow> 's Serialize outcome" where
  "SerializeHeader_setInfo type name opts format objSize sz = with_header sz (\<lambda>_.
     obind (setInfo_field ''type'' type sz) (\<lambda>sz.
     obind (setInfo_field ''name'' name sz) (\<lambda>sz.
     obind (setInfo_field ''opts'' opts sz) (\<lambda>sz.
     obind (setInfo_field ''format'' format sz) (\<lambda>sz.
     deref (sz_header sz) (\<lambda>h.
     let h = (if objSize > 0 then h\<lparr>hd_objSize := objSize\<rparr> else h); sz = set_header h sz in
     header_switch h
       (opt_text type (\<lambda>type. opt_text name (\<lambda>name. opt_text format (\<lambda>format. opt_text opts (\<lambda>opts.
        let text = preamble (hd_majVersion h) (hd_minVersion h) @ [32] @ type @ [32] @ name @ [32] @ padded objSize @ [32] @
                   format @ [32] @ opts @ [10] in
        Ok (set_header (h\<lparr>hd_headerSize := int (length text)\<rparr>) sz))))))
       (SerializeHeader_updateHeaderSize sz)
       (Ok (sz\<lparr>sz_errorOccurred := True\<rparr>))))))))"

text \<open>The element, or the null pointer.\<close>

definition SerializeHeader_getReferenceValue :: "SerializeHeader \<Rightarrow> byte list \<Rightarrow> 's Serialize \<Rightarrow> nat outcome" where
  "SerializeHeader_getReferenceValue h ref sz =
     obind (Any_strlen ref) (\<lambda>refLen. find_loop (brk (rs_heap (sz_rvs sz))) ref refLen (hd_listHead h) (sz_rvs sz))"

text \<open>An element with two empty strings, the second with the default size.\<close>

definition fresh_rvp :: "string \<Rightarrow> rvs \<Rightarrow> (nat \<times> rvs) outcome" where
  "fresh_rvp ref w =
     obind (SerializeReferenceValue_new w) (\<lambda>(rvp, w).
     obind (SerializeReferenceValue_init rvp (cstr ref) None w) (\<lambda>w. Ok (rvp, w)))"

fun fill_pool :: "nat \<Rightarrow> nat \<Rightarrow> rvs \<Rightarrow> (nat \<times> rvs) outcome" where
  "fill_pool 0 pool w = Ok (pool, w)"
| "fill_pool (Suc k) pool w =
     obind (fresh_rvp '''' w) (\<lambda>(rvp, w).
     obind (SerializeReferenceValue_push pool rvp w) (\<lambda>(pool, w). fill_pool k pool w))"

definition SERIALIZEREFERENCEVALUE_DEFAULT_LIST_SIZE :: nat where
  "SERIALIZEREFERENCEVALUE_DEFAULT_LIST_SIZE = 5"

definition SerializeHeader_create :: "rvs \<Rightarrow> (SerializeHeader owned \<times> rvs) outcome" where
  "SerializeHeader_create w =
     (let (p, mem) = ANY_TALLOC \<lparr>hd_majVersion = 0, hd_minVersion = 0, hd_objSize = 0, hd_listHead = 0, hd_listTail = 0,
            hd_poolHead = 0, hd_poolTail = 0, hd_typeSize = 0, hd_nameSize = 0, hd_optsSize = 0, hd_formatSize = 0,
            hd_headerSize = 0, hd_dumpable = False\<rparr> (rs_mem w) in
      require_ptr p (\<lambda>h.
        obind (fresh_rvp '''' (w\<lparr>rs_mem := mem\<rparr>)) (\<lambda>(list, w).
        obind (fresh_rvp '''' w) (\<lambda>(pool, w).
        obind (fill_pool (SERIALIZEREFERENCEVALUE_DEFAULT_LIST_SIZE + 1) pool w) (\<lambda>(poolHead, w).
        Ok (Own (h\<lparr>hd_listHead := list, hd_listTail := list, hd_poolHead := poolHead, hd_poolTail := pool,
                   hd_majVersion := SERIALIZE_HEADER_MAJVERSIONDEFAULT,
                   hd_minVersion := SERIALIZE_HEADER_MINVERSIONDEFAULT\<rparr>), w))))))"

definition SerializeHeader_destroy :: "'s Serialize \<Rightarrow> 's Serialize outcome" where
  "SerializeHeader_destroy sz = deref (sz_header sz) (\<lambda>h.
     obind (SerializeReferenceValue_destroyList (hd_listHead h) (sz_rvs sz)) (\<lambda>w.
     obind (SerializeReferenceValue_destroyList (hd_poolHead h) w) (\<lambda>w.
     obind (ANY_FREE (sz_header sz)) (\<lambda>p. Ok (sz\<lparr>sz_header := p, sz_rvs := w\<rparr>)))))"

subsection \<open>Handing out the header\<close>

text \<open>The result is the truth value, what is stored into the buffer, and the object. (\<^verbatim>\<open>self->valid\<close> is not
  looked at.)\<close>

definition Serialize_getHeader :: "nat \<Rightarrow> 's Serialize \<Rightarrow> (bool \<times> byte list \<times> 's Serialize) outcome" where
  "Serialize_getHeader bufSize sz = with_header sz (\<lambda>h. ANY_REQUIRE (bufSize \<noteq> 0)
     (header_fields h sz (\<lambda>type name format opts. ANY_REQUIRE (opts \<noteq> Null)
       (text_of type (\<lambda>type. text_of name (\<lambda>name. text_of format (\<lambda>format. text_of opts (\<lambda>opts.
        let start = preamble SERIALIZE_HEADER_MAJVERSIONDEFAULT SERIALIZE_HEADER_MINVERSIONDEFAULT;
            stored = (\<lambda>text. (length text < bufSize, snprintf_store bufSize text, sz)) in
        Ok (header_switch h
             (stored (start @ [32] @ type @ [32] @ name @ [32] @ padded (hd_objSize h) @ [32] @ format @ [32] @ opts))
             (stored (start @ ascii '' type = '' @ [39] @ type @ [39] @ ascii '' name = '' @ name @ ascii '' objSize = '' @
                padded (hd_objSize h) @ ascii '' format = '' @ [39] @ format @ [39] @ ascii '' opts = '' @ [39] @ opts @ [39]))
             (True, [], sz\<lparr>sz_errorOccurred := True\<rparr>))))))))))"

text \<open>The copy of a field: \<open>len\<close> tells how long it is.\<close>

definition copy_field :: "string \<Rightarrow> byte list \<Rightarrow> 's Serialize \<Rightarrow> (byte list \<times> 's Serialize) outcome" where
  "copy_field ref buffer sz = valid_serialize sz (with_header sz (\<lambda>h.
     obind (SerializeReferenceValue_findReferenceValue (hd_listHead h) (cstr ref) (sz_rvs sz)) (\<lambda>rvp.
     if rvp = 0 then Ok (buffer, sz\<lparr>sz_errorOccurred := True\<rparr>)
     else obind (SerializeReferenceValue_getValue rvp (sz_rvs sz)) (\<lambda>v.
          obind (SerializeReferenceValue_getValueLen rvp (sz_rvs sz)) (\<lambda>len.
          deref v (\<lambda>s. obind (Any_strncpy buffer s len) (\<lambda>buffer. Ok (buffer, sz))))))))"

definition Serialize_getHeaderType :: "byte list \<Rightarrow> 's Serialize \<Rightarrow> (byte list \<times> 's Serialize) outcome" where
  "Serialize_getHeaderType = copy_field ''type''"

definition Serialize_getHeaderName :: "byte list \<Rightarrow> 's Serialize \<Rightarrow> (byte list \<times> 's Serialize) outcome" where
  "Serialize_getHeaderName = copy_field ''name''"

text \<open>The options are looked up under the key \<^verbatim>\<open>name\<close>.\<close>

definition Serialize_getHeaderOpts :: "byte list \<Rightarrow> 's Serialize \<Rightarrow> (byte list \<times> 's Serialize) outcome" where
  "Serialize_getHeaderOpts = copy_field ''name''"

definition Serialize_getHeaderTypePtr :: "'s Serialize \<Rightarrow> byte list owned outcome" where
  "Serialize_getHeaderTypePtr sz = valid_serialize sz (with_header sz (\<lambda>h. field_value h ''type'' sz))"

definition Serialize_getHeaderNamePtr :: "'s Serialize \<Rightarrow> byte list owned outcome" where
  "Serialize_getHeaderNamePtr sz = valid_serialize sz (with_header sz (\<lambda>h. field_value h ''name'' sz))"

text \<open>The result is the element whose value buffer the caller gets.\<close>

definition Serialize_getHeaderOptsPtr :: "'s Serialize \<Rightarrow> (nat \<times> 's Serialize) outcome" where
  "Serialize_getHeaderOptsPtr sz = valid_serialize sz (with_header sz (\<lambda>h.
     obind (SerializeReferenceValue_findReferenceValue (hd_listHead h) (cstr ''opts'') (sz_rvs sz)) (\<lambda>rvp.
     if rvp = 0
     then obind (fresh_rvp ''opts'' (sz_rvs sz)) (\<lambda>(rvp, w).
          obind (SerializeReferenceValue_push (hd_listHead h) rvp w) (\<lambda>(list, w).
          Ok (rvp, set_header (h\<lparr>hd_listHead := list\<rparr>) (sz\<lparr>sz_rvs := w\<rparr>))))
     else Ok (rvp, sz))))"

text \<open>\<^verbatim>\<open>sprintf\<close> into the value buffer of an element: the text and its terminator have to fit.\<close>

definition sprintf_value :: "nat \<Rightarrow> byte list \<Rightarrow> 's Serialize \<Rightarrow> 's Serialize outcome" where
  "sprintf_value rvp text sz =
     with_rvp rvp (sz_rvs sz) (\<lambda>c. ANY_REQUIRE (rv_value c \<noteq> Null) (deref (rv_value c) (\<lambda>v.
     obind (copy_at 0 (text @ [0]) v) (\<lambda>v.
     obind (store_rvp rvp (c\<lparr>rv_value := Own v\<rparr>) (sz_rvs sz)) (\<lambda>w. Ok (sz\<lparr>sz_rvs := w\<rparr>))))))"

subsection \<open>Looking at the next header\<close>

text \<open>What the caller of \<^verbatim>\<open>Serialize_peekHeader\<close> gets: the buffers it passed, the last one possibly null.\<close>

record peeked =
  pk_type :: "byte list"
  pk_name :: "byte list"
  pk_objSize :: int
  pk_format :: "byte list"
  pk_opts :: "byte list option"

text \<open>Reading of the options of a header of version 1.0, up to the end of the line, one character at a time.\<close>

fun read_options :: "nat \<Rightarrow> ('s, 'a) ser_env \<Rightarrow> byte list \<Rightarrow> nat \<Rightarrow> 's Serialize \<Rightarrow> (bool \<times> byte list \<times> 's Serialize) outcome" where
  "read_options 0 V opts i sz = Ok (True, opts, sz)"
| "read_options (Suc k) V opts i sz =
     obind (stream_read V 1 sz) (\<lambda>((r, bs), sz).
     obind (copy_at (int i) bs opts) (\<lambda>opts.
     if r \<noteq> 1 then Ok (False, opts, sz\<lparr>sz_errorOccurred := True\<rparr>)
     else (case bs of [] \<Rightarrow> Fault
           | c # _ \<Rightarrow> if c = 10 then Ok (True, opts[i := 0], sz) else read_options k V opts (i + 1) sz)))"

definition peek_10 :: "('s, 'a) ser_env \<Rightarrow> peeked \<Rightarrow> 's Serialize \<Rightarrow> (bool \<times> peeked \<times> 's Serialize) outcome" where
  "peek_10 V p sz =
     obind (stream_scanf V ''%s %s %d %s '' [StrArg (pk_type p), StrArg (pk_name p), NumArg TInt (pk_objSize p), StrArg (pk_format p)] sz)
       (\<lambda>((n, _, args), sz). (case args of
          [StrArg type, StrArg name, NumArg _ objSize, StrArg format] \<Rightarrow>
            let p = p\<lparr>pk_type := type, pk_name := name, pk_objSize := objSize, pk_format := format\<rparr> in
            if n \<noteq> 4 then Ok (False, p, sz\<lparr>sz_errorOccurred := True\<rparr>)
            else (case pk_opts p of None \<Rightarrow> Ok (True, p, sz)
                  | Some opts \<Rightarrow>
                    obind (read_options (nat SERIALIZE_HEADER_ELEMENT_DEFAULT_SIZE) V opts 0 sz) (\<lambda>(ok, opts, sz).
                    Ok (ok \<and> \<not> sz_errorOccurred sz, p\<lparr>pk_opts := Some opts\<rparr>, sz)))
        | _ \<Rightarrow> Fault))"

text \<open>\<^verbatim>\<open>Any_strncpy( dst, value, Any_strlen( value ) + 1 )\<close> of a field, or an error.\<close>

definition copy_value :: "nat \<Rightarrow> string \<Rightarrow> byte list \<Rightarrow> 's Serialize \<Rightarrow> byte list option outcome" where
  "copy_value list ref dst sz =
     obind (SerializeReferenceValue_findValue list (cstr ref) (sz_rvs sz)) (\<lambda>v.
     if v = Null then Ok None
     else deref v (\<lambda>s. obind (Any_strlen s) (\<lambda>n. omap Some (Any_strncpy dst s (n + 1)))))"

text \<open>\<^verbatim>\<open>atoi\<close>\<close>

definition atoi :: "byte list \<Rightarrow> int outcome" where
  "atoi s =
     (let t = dropWhile (\<lambda>b. b = 32 \<or> (9 \<le> b \<and> b \<le> 13)) s;
          neg = (t \<noteq> [] \<and> hd t = 45);
          ds = takeWhile (\<lambda>b. 48 \<le> b \<and> b \<le> 57) (if t \<noteq> [] \<and> (hd t = 45 \<or> hd t = 43) then drop 1 t else t);
          v = (if neg then - digits_value 0 ds else digits_value 0 ds) in
      defined_if (fits32 v) (Ok v))"

text \<open>The list made for a header of version 2.0 is only released together with the options. A field that is not
  there ends the call.\<close>

definition peek_20 :: "('s, 'a) ser_env \<Rightarrow> peeked \<Rightarrow> 's Serialize \<Rightarrow> (bool \<times> byte list \<times> peeked \<times> 's Serialize) outcome" where
  "peek_20 V p sz =
     (let fail = (\<lambda>buffer p sz. Ok (False, buffer, p, sz\<lparr>sz_errorOccurred := True\<rparr>));
          field = (\<lambda>list ref dst buffer p sz k. obind (copy_value list ref dst sz) (\<lambda>t.
            case t of None \<Rightarrow> fail buffer p sz | Some s \<Rightarrow> k s)) in
      obind (stream_gets V SERIALIZE_HEADER_MAXLEN sz) (\<lambda>((r, buffer), sz).
      if r \<le> 0 then fail buffer p sz
      else obind (fresh_rvp [] (sz_rvs sz)) (\<lambda>(list, w).
           obind (SerializeReferenceValue_getRVP list None buffer w) (\<lambda>(list, _, w).
           let sz = sz\<lparr>sz_rvs := w\<rparr> in
           field list ''type'' (pk_type p) buffer p sz (\<lambda>type. let p = p\<lparr>pk_type := type\<rparr> in
           field list ''name'' (pk_name p) buffer p sz (\<lambda>name. let p = p\<lparr>pk_name := name\<rparr> in
           obind (SerializeReferenceValue_findValue list (cstr ''objSize'') (sz_rvs sz)) (\<lambda>v.
           if v = Null then fail buffer p sz
           else text_of v (\<lambda>s. obind (atoi s) (\<lambda>objSize. let p = p\<lparr>pk_objSize := objSize\<rparr> in
             field list ''format'' (pk_format p) buffer p sz (\<lambda>format. let p = p\<lparr>pk_format := format\<rparr> in
             (case pk_opts p of None \<Rightarrow> Ok (\<not> sz_errorOccurred sz, buffer, p, sz)
              | Some dst \<Rightarrow>
                field list ''opts'' dst buffer p sz (\<lambda>opts.
                obind (SerializeReferenceValue_destroyList list w) (\<lambda>w.
                Ok (\<not> sz_errorOccurred sz, buffer, p\<lparr>pk_opts := Some opts\<rparr>, sz\<lparr>sz_rvs := w\<rparr>))))))))))))))"

text \<open>Behind the switch the text is put back: the version, the rest of a header of version 2.0, and an
  end of line.\<close>

definition peek_restore :: "int option \<Rightarrow> int \<Rightarrow> int \<Rightarrow> byte list \<Rightarrow> 's Serialize \<Rightarrow> (bool \<times> 's Serialize) outcome" where
  "peek_restore readBytes major minor buffer sz =
     obind (chars_of buffer) (\<lambda>rest.
     let n = nat (case readBytes of None \<Rightarrow> 0 | Some n \<Rightarrow> n);
         text = take n (preamble major minor) @ take (nat SERIALIZE_HEADER_MAXLEN - 1) rest @ [10] in
     defined_if (int (length text) < SERIALIZE_HEADER_MAXLEN + 9)
       (obind (stream_unget text sz) (\<lambda>(r, sz). Ok (r \<noteq> -1, sz))))"

definition Serialize_peekHeader :: "('s, 'a) ser_env \<Rightarrow> peeked \<Rightarrow> 's Serialize \<Rightarrow> (bool \<times> peeked \<times> 's Serialize) outcome" where
  "Serialize_peekHeader V p sz =
     (if \<not> sz_useHeader sz then Ok (False, p, sz)
      else obind (stream_scanf V ''HRIS-%d.%d'' [NumArg TInt 0, NumArg TInt 0] sz) (\<lambda>((n, readBytes, args), sz).
        if n \<noteq> 2 then Ok (False, p, sz\<lparr>sz_errorOccurred := True\<rparr>)
        else (case args of [NumArg _ major, NumArg _ minor] \<Rightarrow>
          deref (sz_header sz) (\<lambda>h.
          let h = h\<lparr>hd_majVersion := major, hd_minVersion := minor\<rparr>; sz = set_header h sz in
          obind (header_switch h
                  (obind (peek_10 V p sz) (\<lambda>(ok, p, sz). Ok (ok, [0], p, sz)))
                  (peek_20 V p sz)
                  (Ok (True, [0], p, sz\<lparr>sz_errorOccurred := True\<rparr>))) (\<lambda>(ok, buffer, p, sz).
          if \<not> ok then Ok (False, p, sz)
          else obind (peek_restore readBytes major minor buffer sz) (\<lambda>(ok, sz). Ok (ok, p, sz))))
        | _ \<Rightarrow> Fault)))"

subsection \<open>The size in a header that has been written\<close>

text \<open>\<^verbatim>\<open>strchr( p, ' ' ) + 1\<close>, \<open>k\<close> times, as positions in the memory; no blank before the end of the string ends
  the process.\<close>

fun skip_fields :: "nat \<Rightarrow> nat \<Rightarrow> byte list \<Rightarrow> nat outcome" where
  "skip_fields 0 pos m = Ok pos"
| "skip_fields (Suc k) pos m =
     (let n = length (takeWhile (\<lambda>b. b \<noteq> 32 \<and> b \<noteq> 0) (drop pos m)) in
      if length m \<le> pos + n then Fault
      else ANY_REQUIRE (m ! (pos + n) = 32) (skip_fields k (pos + n + 1) m))"

text \<open>The header starts at \<open>off\<close>. The terminator that \<^verbatim>\<open>sprintf\<close> writes becomes a blank.\<close>

definition enter_size :: "bool \<Rightarrow> SerializeHeader \<Rightarrow> nat \<Rightarrow> byte list \<Rightarrow> 's Serialize \<Rightarrow> (byte list \<times> 's Serialize) outcome" where
  "enter_size memBasedStream h off m sz =
     obind (strncmp_eq (drop off m) (cstr ''HRIS-'') 5) (\<lambda>eq.
     if \<not> eq then Ok (m, if memBasedStream then sz\<lparr>sz_errorOccurred := True\<rparr> else sz)
     else let (fields, sz) = header_switch h (3, sz) (9, sz) (0, sz\<lparr>sz_errorOccurred := True\<rparr>) in
          obind (skip_fields fields off m) (\<lambda>pos.
          obind (copy_at (int pos) (padded (hd_objSize h) @ [32]) m) (\<lambda>m. Ok (m, sz))))"

text \<open>The header is looked for in the write buffer of the channel or in the memory of the stream.\<close>

definition Serialize_doAutoCalcSizeOps :: "('s, 'a) ser_env \<Rightarrow> 's Serialize \<Rightarrow> 's Serialize outcome" where
  "Serialize_doAutoCalcSizeOps V sz = with_header sz (\<lambda>h.
     obind (ask_stream IOChannel_usesWriteBuffering IOChannel_usesWriteBuffering sz) (\<lambda>buffering.
     if buffering
     then (case sz_stream sz of UserStream \<Rightarrow>
        require_ptr (ch_writeBuffer (sz_channel sz)) (\<lambda>wb. buf_bytes wb (\<lambda>base.
        obind (Serialize_getTotalSize sz) (\<lambda>totalSize.
        ANY_REQUIRE (totalSize \<ge> 0)
          (obind (IOChannel_getWriteBufferedBytes (sz_channel sz)) (\<lambda>bufferPos.
           ANY_REQUIRE (bufferPos \<ge> 0)
             (if totalSize > bufferPos then Ok sz
              else obind (enter_size False h (nat (bufferPos - totalSize)) base sz) (\<lambda>(base, sz).
                   Ok (sz\<lparr>sz_channel := (sz_channel sz)\<lparr>ch_writeBuffer := Own (buf_store base wb)\<rparr>\<rparr>))))))))
      | _ \<Rightarrow> Fault)
     else obind (ask_stream IOChannel_hasPointer IOChannel_hasPointer sz) (\<lambda>hasPointer.
        if \<not> hasPointer then Ok sz
        else (case sz_stream sz of UserStream \<Rightarrow>
          with_stream (sz_channel sz) (\<lambda>st.
          require_ptr (se_memPointer V st) (\<lambda>m.
          obind (enter_size True h (nat (sz_backOff sz)) m sz) (\<lambda>(m, sz).
          Ok (sz\<lparr>sz_channel := (sz_channel sz)\<lparr>ch_streamPtr := Own (se_setMemory V m st)\<rparr>\<rparr>)))) | _ \<Rightarrow> Fault))))"

end
