(* ===== verification/Ser_Type.thy ===== *)
theory Ser_Type
  imports Ser_Header
begin

text \<open>
  The formats of the serializer and the calls around them (src/src/Serialize.c): the list of added
  formats, \<^verbatim>\<open>Serialize_setFormat\<close>, writing and reading of the header at the first
  \<^verbatim>\<open>Serialize_beginType\<close>, and the begin and end calls. A format is its function table, the record
  \<open>SerializeFormat\<close>; a description of an added format holds the position of its table. The program of
  the user, which calls the serializer, is a value of the type \<open>ser_prog\<close>, so that
  \<^verbatim>\<open>setjmp\<close> in the macro \<^verbatim>\<open>Serialize_beginType\<close> has a frame to return to. Comparisons that
  decide only what is logged are left out.
\<close>

subsection \<open>Formats\<close>

record 's SerializeFormat =
  formatName :: "byte list"
  indirectBeginType :: "byte list \<Rightarrow> byte list \<Rightarrow> 's Serialize \<Rightarrow> 's Serialize outcome"
  indirectBeginBaseType :: "byte list \<Rightarrow> byte list \<Rightarrow> 's Serialize \<Rightarrow> 's Serialize outcome"
  indirectBeginArray :: "SerializeType \<Rightarrow> byte list \<Rightarrow> int \<Rightarrow> 's Serialize \<Rightarrow> 's Serialize outcome"
  indirectBeginStructArray :: "byte list \<Rightarrow> byte list \<Rightarrow> int \<Rightarrow> 's Serialize \<Rightarrow> 's Serialize outcome"
  indirectBeginStructArraySeparator :: "byte list \<Rightarrow> int \<Rightarrow> int \<Rightarrow> 's Serialize \<Rightarrow> 's Serialize outcome"
  indirectDoSerialize :: "SerializeType \<Rightarrow> byte list \<Rightarrow> byte list \<Rightarrow> int \<Rightarrow> int \<Rightarrow> 's Serialize \<Rightarrow> (byte list \<times> 's Serialize) outcome"
  indirectEndStructArraySeparator :: "byte list \<Rightarrow> int \<Rightarrow> int \<Rightarrow> 's Serialize \<Rightarrow> 's Serialize outcome"
  indirectEndStructArray :: "'s Serialize \<Rightarrow> 's Serialize outcome"
  indirectEndArray :: "SerializeType \<Rightarrow> byte list \<Rightarrow> int \<Rightarrow> 's Serialize \<Rightarrow> 's Serialize outcome"
  indirectEndBaseType :: "'s Serialize \<Rightarrow> 's Serialize outcome"
  indirectEndType :: "'s Serialize \<Rightarrow> 's Serialize outcome"
  indirectGetAllowedModes :: "'s Serialize \<Rightarrow> uint32 outcome"
  indirectFormatOptionsNew :: "nat \<Rightarrow> (format_data owned \<times> nat) outcome"
  indirectFormatOptionsInit :: "'s Serialize \<Rightarrow> 's Serialize outcome"
  indirectFormatOptionsSet :: "byte list option \<Rightarrow> 's Serialize \<Rightarrow> 's Serialize outcome"
  indirectFormatOptionsSetProperty :: "byte list \<Rightarrow> nat \<Rightarrow> 's Serialize \<Rightarrow> (bool \<times> 's Serialize) outcome"
  indirectFormatOptionsGetProperty :: "byte list \<Rightarrow> 's Serialize \<Rightarrow> nat outcome"
  indirectFormatOptionsClear :: "'s Serialize \<Rightarrow> 's Serialize outcome"
  indirectFormatOptionsDelete :: "'s Serialize \<Rightarrow> 's Serialize outcome"

text \<open>All tables: the first \<open>sf_static\<close> ones are those of \<^verbatim>\<open>Serialize_internalFormats\<close>. What the dynamic
  loader does is given: for the name of a symbol the position of the table it finds, if it finds one, and whether a
  library was opened for it; and whether the library of ToolBOS can be opened.\<close>

record 's ser_formats =
  sf_table :: "'s SerializeFormat list"
  sf_static :: nat
  sf_symbol :: "byte list \<Rightarrow> (nat \<times> bool) option"
  sf_libraryOpens :: bool

definition lower :: "byte \<Rightarrow> byte" where
  "lower b = (if 65 \<le> b \<and> b \<le> 90 then b + 32 else b)"

text \<open>\<^verbatim>\<open>strcasecmp( s, t ) == 0\<close> and \<^verbatim>\<open>strcmp( s, t ) == 0\<close>\<close>

definition Any_strcasecmp_eq :: "byte list \<Rightarrow> byte list \<Rightarrow> bool outcome" where
  "Any_strcasecmp_eq s t = obind (chars_of s) (\<lambda>s. obind (chars_of t) (\<lambda>t. Ok (map lower s = map lower t)))"

definition Any_strcmp_eq :: "byte list \<Rightarrow> byte list \<Rightarrow> bool outcome" where
  "Any_strcmp_eq s t = obind (chars_of s) (\<lambda>s. obind (chars_of t) (\<lambda>t. Ok (s = t)))"

definition table_at :: "'s ser_formats \<Rightarrow> nat \<Rightarrow> ('s SerializeFormat \<Rightarrow> 'b outcome) \<Rightarrow> 'b outcome" where
  "table_at F i k = defined_if (i < length (sf_table F)) (k (sf_table F ! i))"

text \<open>\<^verbatim>\<open>self->format->ops\<close>\<close>

definition with_ops :: "'s ser_formats \<Rightarrow> 's Serialize \<Rightarrow> ('s SerializeFormat \<Rightarrow> 'b outcome) \<Rightarrow> 'b outcome" where
  "with_ops F sz k = obind (hread (sz_infos sz) (sz_format sz)) (\<lambda>info. table_at F (fi_ops info) k)"

definition Serialize_checkModes :: "'s ser_formats \<Rightarrow> 's Serialize \<Rightarrow> (bool \<times> 's Serialize) outcome" where
  "Serialize_checkModes F sz = ANY_REQUIRE (sz_format sz \<noteq> 0)
     (with_ops F sz (\<lambda>ops. obind (indirectGetAllowedModes ops sz) (\<lambda>modes.
      Ok (if sz_isTranslateMode sz \<and> \<not> SERIALIZE_MODE_IS modes SERIALIZE_MODE_TRANSLATE
             \<or> sz_mode sz = SERIALIZE_MODE_CALC \<and> \<not> SERIALIZE_MODE_IS modes SERIALIZE_MODE_CALC
          then (False, sz\<lparr>sz_errorOccurred := True\<rparr>) else (True, sz)))))"

definition Serialize_addFormat :: "'s ser_formats \<Rightarrow> nat \<Rightarrow> 's Serialize \<Rightarrow> (bool \<times> 's Serialize) outcome" where
  "Serialize_addFormat F plugin sz = valid_serialize sz
     (let (infoPtr, infos, mem) = halloc \<lparr>fi_ops = plugin, fi_data = Null, fi_libHandle = False\<rparr> (sz_infos sz) (rs_mem (sz_rvs sz)) in
      ANY_REQUIRE (infoPtr \<noteq> 0)
        (table_at F plugin (\<lambda>ops.
         obind (indirectFormatOptionsNew ops mem) (\<lambda>(p, mem).
         obind (hupd infos infoPtr (\<lambda>info. info\<lparr>fi_data := p\<rparr>)) (\<lambda>infos.
         let tmp = sz_format sz;
             sz = sz\<lparr>sz_format := infoPtr, sz_infos := infos, sz_rvs := (sz_rvs sz)\<lparr>rs_mem := mem\<rparr>\<rparr> in
         obind (if p \<noteq> Null then indirectFormatOptionsInit ops sz else Ok sz) (\<lambda>sz.
         obind (MTList_insert infoPtr (sz_formatList sz)) (\<lambda>(retVal, list).
         let sz = sz\<lparr>sz_formatList := list\<rparr>;
             sz = (if \<not> retVal then sz\<lparr>sz_errorOccurred := True\<rparr> else sz) in
         Ok (retVal, sz\<lparr>sz_format := tmp\<rparr>))))))))"

text \<open>The walk over the list without locks.\<close>

fun format_loop :: "nat \<Rightarrow> 's ser_formats \<Rightarrow> byte list \<Rightarrow> nat \<Rightarrow> 's Serialize \<Rightarrow> nat outcome" where
  "format_loop 0 F format ptr sz = Stuck"
| "format_loop (Suc fuel) F format ptr sz =
     (if ptr = 0 then Ok 0
      else obind (hread (mt_elems (sz_formatList sz)) ptr) (\<lambda>e.
           obind (hread (sz_infos sz) (e_data e)) (\<lambda>info.
           table_at F (fi_ops info) (\<lambda>ops.
           obind (Any_strcasecmp_eq format (formatName ops)) (\<lambda>eq.
           if eq then Ok (e_data e) else format_loop fuel F format (e_next e) sz)))))"

definition SerializeFormatList_find :: "'s ser_formats \<Rightarrow> byte list \<Rightarrow> 's Serialize \<Rightarrow> nat outcome" where
  "SerializeFormatList_find F format sz = SERIALIZE_REQUIRE_STRING format
     (require_ptr (mt_self (sz_formatList sz)) (\<lambda>l.
      format_loop (brk (mt_elems (sz_formatList sz))) F format (l_first l) sz))"

definition Serialize_isFormatDefined :: "'s ser_formats \<Rightarrow> byte list \<Rightarrow> 's Serialize \<Rightarrow> bool outcome" where
  "Serialize_isFormatDefined F format sz = valid_serialize sz
     (obind (SerializeFormatList_find F format sz) (\<lambda>p. Ok (p \<noteq> 0)))"

fun find_static :: "'s SerializeFormat list \<Rightarrow> nat \<Rightarrow> byte list \<Rightarrow> nat option outcome" where
  "find_static [] i name = Ok None"
| "find_static (ops # rest) i name =
     obind (Any_strcmp_eq (formatName ops) name) (\<lambda>eq. if eq then Ok (Some i) else find_static rest (i + 1) name)"

definition SerializeFormat_findStaticFormat :: "'s ser_formats \<Rightarrow> byte list \<Rightarrow> nat option outcome" where
  "SerializeFormat_findStaticFormat F name = find_static (take (sf_static F) (sf_table F)) 0 name"

definition SerializeFormatList_setPluginLibHandle :: "nat \<Rightarrow> bool \<Rightarrow> 's Serialize \<Rightarrow> (bool \<times> 's Serialize) outcome" where
  "SerializeFormatList_setPluginLibHandle info libraryHandle sz = ANY_REQUIRE (info \<noteq> 0)
     (obind (hupd (sz_infos sz) info (\<lambda>i. i\<lparr>fi_libHandle := libraryHandle\<rparr>)) (\<lambda>infos.
      Ok (True, sz\<lparr>sz_infos := infos\<rparr>)))"

definition SerializeFormatList_addFormat :: "'s ser_formats \<Rightarrow> byte list \<Rightarrow> 's Serialize \<Rightarrow> (bool \<times> 's Serialize) outcome" where
  "SerializeFormatList_addFormat F format sz =
     obind (SerializeFormat_findStaticFormat F format) (\<lambda>static.
     obind (case static of Some i \<Rightarrow> Ok (Some (i, False))
            | None \<Rightarrow> obind (chars_of format) (\<lambda>name.
                Ok (sf_symbol F (ascii ''SerializeFormat'' @ name @ ascii ''Ops'' @ [0])))) (\<lambda>found.
     case found of
       None \<Rightarrow> Ok (False, if sf_libraryOpens F then sz\<lparr>sz_errorOccurred := True\<rparr> else sz)
     | Some (plugin, libraryHandle) \<Rightarrow>
         obind (Serialize_addFormat F plugin sz) (\<lambda>(retVal, sz).
         if \<not> retVal then Ok (retVal, sz\<lparr>sz_errorOccurred := True\<rparr>)
         else obind (SerializeFormatList_find F format sz) (\<lambda>tmp.
              obind (SerializeFormatList_setPluginLibHandle tmp libraryHandle sz) (\<lambda>(_, sz). Ok (retVal, sz))))))"

definition Serialize_setFormat :: "'s ser_formats \<Rightarrow> byte list \<Rightarrow> byte list option \<Rightarrow> 's Serialize \<Rightarrow> (bool \<times> 's Serialize) outcome" where
  "Serialize_setFormat F format options sz = valid_serialize sz (SERIALIZE_REQUIRE_STRING format
     (obind (SerializeFormatList_find F format sz) (\<lambda>ptr.
      obind (if ptr \<noteq> 0 then Ok (True, ptr, sz)
             else obind (SerializeFormatList_addFormat F format sz) (\<lambda>(ok, sz).
                  if \<not> ok then Ok (False, 0, sz)
                  else obind (SerializeFormatList_find F format sz) (\<lambda>ptr.
                       ANY_REQUIRE (ptr \<noteq> 0) (Ok (True, ptr, sz))))) (\<lambda>(ok, ptr, sz).
      if \<not> ok then Ok (False, sz)
      else let sz = sz\<lparr>sz_format := ptr\<rparr> in
           obind (Serialize_isWriting sz) (\<lambda>writing.
           obind (if writing then SerializeHeader_setInfo (Some [0]) (Some [0]) (Some [0]) (Some format) 0 sz else Ok sz) (\<lambda>sz.
           with_ops F sz (\<lambda>ops.
           obind (indirectFormatOptionsSet ops options sz) (\<lambda>sz. Ok (True, sz)))))))))"

definition Serialize_setFormatProperty :: "'s ser_formats \<Rightarrow> byte list \<Rightarrow> nat \<Rightarrow> 's Serialize \<Rightarrow> (bool, 's Serialize) flow outcome" where
  "Serialize_setFormatProperty F optName opt sz = valid_serialize sz (format_set sz (SERIALIZE_REQUIRE_STRING optName
     (fbind (SERIALIZE_SKIPIFERROR sz) (\<lambda>_ sz.
      with_ops F sz (\<lambda>ops. obind (indirectFormatOptionsSetProperty ops optName opt sz) (\<lambda>(r, sz). Ok (Returned r sz)))))))"

definition Serialize_getFormatProperty :: "'s ser_formats \<Rightarrow> byte list \<Rightarrow> 's Serialize \<Rightarrow> (nat, 's Serialize) flow outcome" where
  "Serialize_getFormatProperty F optName sz = valid_serialize sz (format_set sz (SERIALIZE_REQUIRE_STRING optName
     (fbind (SERIALIZE_SKIPIFERROR sz) (\<lambda>_ sz.
      with_ops F sz (\<lambda>ops. obind (indirectFormatOptionsGetProperty ops optName sz) (\<lambda>r. Ok (Returned r sz)))))))"

text \<open>The walk that releases the formats: the options of each are cleared and deleted while it is the current one.\<close>

fun release_loop :: "nat \<Rightarrow> 's ser_formats \<Rightarrow> nat \<Rightarrow> 's Serialize \<Rightarrow> 's Serialize outcome" where
  "release_loop 0 F ptr sz = Stuck"
| "release_loop (Suc fuel) F ptr sz =
     (if ptr = 0 then Ok sz
      else obind (hread (mt_elems (sz_formatList sz)) ptr) (\<lambda>e. ANY_REQUIRE (e_data e \<noteq> 0)
           (obind (hread (sz_infos sz) (e_data e)) (\<lambda>info.
            table_at F (fi_ops info) (\<lambda>ops.
            obind (if fi_data info \<noteq> Null
                   then obind (indirectFormatOptionsClear ops (sz\<lparr>sz_format := e_data e\<rparr>)) (indirectFormatOptionsDelete ops)
                   else Ok sz) (\<lambda>sz.
            obind (hfree (sz_infos sz) (e_data e)) (\<lambda>infos.
            release_loop fuel F (e_next e) (sz\<lparr>sz_infos := infos\<rparr>))))))))"

definition SerializeFormatList_destroy :: "'s ser_formats \<Rightarrow> 's Serialize \<Rightarrow> 's Serialize outcome" where
  "SerializeFormatList_destroy F sz =
     require_ptr (mt_self (sz_formatList sz)) (\<lambda>l.
     obind (release_loop (brk (mt_elems (sz_formatList sz))) F (l_first l) sz) (\<lambda>sz.
     obind (MTList_clear (sz_formatList sz)) (\<lambda>list.
     obind (MTList_delete list) (\<lambda>list. Ok (sz\<lparr>sz_formatList := list\<rparr>)))))"

text \<open>The list of the serializer, with a budget of its own.\<close>

definition SerializeFormatList_create :: "mtl \<Rightarrow> mtl outcome" where
  "SerializeFormatList_create l =
     obind (MTList_new l) (\<lambda>l. obind (MTList_init l) (\<lambda>(ok, l).
     if ok then MTList_setDeleteMode MTLIST_DELETEMODE_MANUAL l else Ok l))"

end
