(* ===== verification/Ser_Object.thy ===== *)
theory Ser_Object
  imports Ser_Type
begin

text \<open>
  The calls between which an object is serialized (src/src/Serialize.c): the two parsers of the
  header, the work at the first begin and at the last end, begin and end of types and arrays, and
  the transfer of a value. The last section gives the functions of the user a meaning.
\<close>

subsection \<open>The header of a new object\<close>

text \<open>The value of an element as an argument of \<^verbatim>\<open>printf\<close>.\<close>

definition value_arg :: "nat \<Rightarrow> 's Serialize \<Rightarrow> (byte list \<Rightarrow> 'b outcome) \<Rightarrow> 'b outcome" where
  "value_arg rvp sz k = obind (SerializeReferenceValue_getValue rvp (sz_rvs sz)) (\<lambda>v. deref v k)"

text \<open>The format named in a header becomes the current one; if it cannot be set, the one the user had set.\<close>

definition set_read_format :: "'s ser_formats \<Rightarrow> byte list \<Rightarrow> byte list option \<Rightarrow> 's Serialize \<Rightarrow> 's Serialize outcome" where
  "set_read_format F readFormat readOpts sz =
     (if sz_format sz \<noteq> 0
      then with_ops F sz (\<lambda>ops.
           obind (Serialize_setFormat F readFormat readOpts sz) (\<lambda>(ok, sz).
           if ok then Ok sz
           else obind (Serialize_setFormat F (formatName ops) readOpts sz) (\<lambda>(ok, sz).
                Ok (if ok then sz else sz\<lparr>sz_errorOccurred := True\<rparr>))))
      else obind (Serialize_setFormat F readFormat readOpts sz) (\<lambda>(ok, sz).
           Ok (if ok then sz else sz\<lparr>sz_errorOccurred := True\<rparr>)))"

definition object_size_text :: "SerializeHeader \<Rightarrow> 's Serialize \<Rightarrow> byte list" where
  "object_size_text h sz = padded (if sz_isAutoCalcSizeMode sz then 0 else hd_objSize h) @ [0]"

definition parse_10 :: "('s, 'a) ser_env \<Rightarrow> 's ser_formats \<Rightarrow> byte list \<Rightarrow> SerializeHeader \<Rightarrow> 's Serialize \<Rightarrow> 's Serialize outcome" where
  "parse_10 V F type h sz =
     (let field = StrArg (replicate (nat SERIALIZE_HEADER_ELEMENT_DEFAULT_SIZE) 0) in
      obind (stream_scanf V ''%s %s %d %s '' [field, field, NumArg TInt 0, field] sz) (\<lambda>((n, _, args), sz).
      if n \<noteq> 4 then Ok (sz\<lparr>sz_errorOccurred := True\<rparr>)
      else (case args of [StrArg readType, StrArg readName, NumArg _ _, StrArg readFormat] \<Rightarrow>
        obind (read_options (nat (hd_optsSize h)) V (replicate (nat SERIALIZE_HEADER_ELEMENT_DEFAULT_SIZE) 0) 0 sz)
          (\<lambda>(_, readOpts, sz).
        if sz_errorOccurred sz then Ok sz
        else obind (strncmp_eq readType type (nat (hd_typeSize h))) (\<lambda>eq.
             if \<not> eq then Ok (sz\<lparr>sz_errorOccurred := True\<rparr>)
             else obind (set_read_format F readFormat (Some readOpts) sz) (\<lambda>sz.
                  if sz_errorOccurred sz then Ok sz
                  else SerializeHeader_setInfo (Some readType) (Some readName) (Some readOpts) (Some readFormat) 0 sz)))
      | _ \<Rightarrow> Fault)))"

definition write_10 :: "('s, 'a) ser_env \<Rightarrow> 's ser_formats \<Rightarrow> byte list \<Rightarrow> byte list \<Rightarrow> 's Serialize \<Rightarrow> 's Serialize outcome" where
  "write_10 V F name type sz = ANY_REQUIRE (sz_format sz \<noteq> 0) (with_ops F sz (\<lambda>ops.
     obind (SerializeHeader_setInfo (Some type) (Some name) None (Some (formatName ops)) 0 sz) (\<lambda>sz.
     deref (sz_header sz) (\<lambda>h. ANY_REQUIRE (hd_objSize h \<ge> 0)
       (obind (stream_printf V ''%s %s %s %s '' [StrArg type, StrArg name, StrArg (object_size_text h sz), StrArg (formatName ops)] sz)
          (\<lambda>(r, sz).
        if r \<le> 0 then Ok (sz\<lparr>sz_errorOccurred := True\<rparr>)
        else obind (field_value h ''opts'' sz) (\<lambda>opts. ANY_REQUIRE (opts \<noteq> Null) (text_of opts (\<lambda>text.
             obind (if text \<noteq> [] then stream_printf V ''%s'' [StrArg (text @ [0])] sz else Ok (1, sz)) (\<lambda>(r, sz).
             if r \<le> 0 then Ok (sz\<lparr>sz_errorOccurred := True\<rparr>)
             else omap snd (stream_printf V [CHR 0x0A] [] sz)))))))))))"

definition SerializeHeader_useParserV10 :: "('s, 'a) ser_env \<Rightarrow> 's ser_formats \<Rightarrow> byte list \<Rightarrow> byte list \<Rightarrow> 's Serialize \<Rightarrow>
    's Serialize outcome" where
  "SerializeHeader_useParserV10 V F name type sz = SERIALIZE_REQUIRE_STRING name (SERIALIZE_REQUIRE_STRING type
     (with_header sz (\<lambda>h.
      if sz_mode sz = SERIALIZE_MODE_READ then parse_10 V F type h sz
      else if sz_mode sz = SERIALIZE_MODE_WRITE \<or> sz_mode sz = SERIALIZE_MODE_CALC then write_10 V F name type sz
      else Require)))"

definition parse_20 :: "('s, 'a) ser_env \<Rightarrow> 's ser_formats \<Rightarrow> byte list \<Rightarrow> SerializeHeader \<Rightarrow> 's Serialize \<Rightarrow> 's Serialize outcome" where
  "parse_20 V F type h sz =
     obind (stream_gets V SERIALIZE_HEADER_MAXLEN sz) (\<lambda>((r, headerString), sz).
     if r \<le> 0 then Ok (sz\<lparr>sz_errorOccurred := True\<rparr>)
     else obind (SerializeReferenceValue_getRVP (hd_listHead h) (Some (hd_poolHead h)) headerString (sz_rvs sz)) (\<lambda>(list, pool, w).
       let h = h\<lparr>hd_listHead := list, hd_poolHead := (case pool of Some p \<Rightarrow> p | None \<Rightarrow> 0)\<rparr>;
           sz = set_header h (sz\<lparr>sz_rvs := w\<rparr>) in
       obind (field_value h ''type'' sz) (\<lambda>readType.
       if readType = Null then Ok (sz\<lparr>sz_errorOccurred := True\<rparr>)
       else obind (field_value h ''name'' sz) (\<lambda>readName.
       if readName = Null then Ok (sz\<lparr>sz_errorOccurred := True\<rparr>)
       else obind (SerializeReferenceValue_findReferenceValue (hd_listHead h) (cstr ''format'') w) (\<lambda>rvp.
       if rvp = 0 then Ok (sz\<lparr>sz_errorOccurred := True\<rparr>)
       else obind (field_value h ''opts'' sz) (\<lambda>readOpts.
       deref readType (\<lambda>readType.
       obind (strncmp_eq readType type (nat (hd_typeSize h))) (\<lambda>eq.
       if \<not> eq then Ok (sz\<lparr>sz_errorOccurred := True\<rparr>)
       else value_arg rvp sz (\<lambda>readFormat.
         obind (if readOpts = Null then Ok None else deref readOpts (\<lambda>s. Ok (Some s))) (\<lambda>readOpts.
         obind (set_read_format F readFormat readOpts sz) (\<lambda>sz.
         if sz_errorOccurred sz then Ok sz else SerializeHeader_updateHeaderSize sz)))))))))))"

text \<open>The values that are printed are those of the list, which \<^verbatim>\<open>SerializeHeader_setInfo\<close> has set.\<close>

definition write_20 :: "('s, 'a) ser_env \<Rightarrow> 's ser_formats \<Rightarrow> byte list \<Rightarrow> byte list \<Rightarrow> 's Serialize \<Rightarrow> 's Serialize outcome" where
  "write_20 V F name type sz = ANY_REQUIRE (sz_format sz \<noteq> 0) (with_ops F sz (\<lambda>ops.
     obind (SerializeHeader_setInfo (Some type) (Some name) None (Some (formatName ops)) 0 sz) (\<lambda>sz.
     deref (sz_header sz) (\<lambda>h. ANY_REQUIRE (hd_objSize h \<ge> 0)
       (obind (SerializeHeader_getReferenceValue h (cstr ''type'') sz) (\<lambda>rvp. ANY_REQUIRE (rvp \<noteq> 0)
        (value_arg rvp sz (\<lambda>typeToWrite.
        obind (SerializeHeader_getReferenceValue h (cstr ''name'') sz) (\<lambda>rvp. ANY_REQUIRE (rvp \<noteq> 0)
        (value_arg rvp sz (\<lambda>nameToWrite.
        obind (SerializeHeader_getReferenceValue h (cstr ''opts'') sz) (\<lambda>rvp.
        obind (if rvp = 0 then Ok [] else value_arg rvp sz chars_of) (\<lambda>optsToWrite.
        obind (stream_printf V (''type = '' @ [CHR 0x27] @ ''%s'' @ [CHR 0x27] @ '' name = %s objSize = %s format = %s '')
                 [StrArg typeToWrite, StrArg nameToWrite, StrArg (object_size_text h sz), StrArg (formatName ops)] sz) (\<lambda>(r, sz).
        if r \<le> 0 then Ok (sz\<lparr>sz_errorOccurred := True\<rparr>)
        else obind (if optsToWrite \<noteq> []
                    then stream_printf V (''opts = '' @ [CHR 0x27] @ ''%s'' @ [CHR 0x27]) [StrArg (optsToWrite @ [0])] sz
                    else Ok (1, sz)) (\<lambda>(r, sz).
             if r \<le> 0 then Ok (sz\<lparr>sz_errorOccurred := True\<rparr>)
             else omap snd (stream_printf V [CHR 0x0A] [] sz))))))))))))))))"

definition SerializeHeader_useParserV20 :: "('s, 'a) ser_env \<Rightarrow> 's ser_formats \<Rightarrow> byte list \<Rightarrow> byte list \<Rightarrow> 's Serialize \<Rightarrow>
    's Serialize outcome" where
  "SerializeHeader_useParserV20 V F name type sz = SERIALIZE_REQUIRE_STRING name (SERIALIZE_REQUIRE_STRING type
     (with_header sz (\<lambda>h.
      if sz_mode sz = SERIALIZE_MODE_READ then parse_20 V F type h sz
      else if sz_mode sz = SERIALIZE_MODE_WRITE \<or> sz_mode sz = SERIALIZE_MODE_CALC then write_20 V F name type sz
      else Require)))"

text \<open>In loop mode the stream goes back to where the first object started.\<close>

definition rewind_for_loop :: "('s, 'a) ser_env \<Rightarrow> 's Serialize \<Rightarrow> 's Serialize outcome" where
  "rewind_for_loop V sz =
     (if sz_streamMode sz = SERIALIZE_STREAMMODE_LOOP
      then ANY_REQUIRE (sz_offsetForLoop sz \<ge> 0)
        (obind (stream_seek V (sz_offsetForLoop sz) IOCHANNELWHENCE_SET sz) (\<lambda>(r, sz).
         Ok (if r = -1 then sz\<lparr>sz_errorOccurred := True\<rparr> else sz)))
      else Ok sz)"

text \<open>The result is the position at which the header starts.\<close>

definition begin_reading :: "('s, 'a) ser_env \<Rightarrow> 's Serialize \<Rightarrow> (int \<times> 's Serialize) outcome" where
  "begin_reading V sz = deref (sz_header sz) (\<lambda>h.
     obind (SerializeReferenceValue_append (hd_poolHead h) (hd_listHead h) (sz_rvs sz)) (\<lambda>(pool, w).
     let h = h\<lparr>hd_poolHead := pool, hd_listHead := 0, hd_listTail := 0\<rparr>; sz = set_header h (sz\<lparr>sz_rvs := w\<rparr>) in
     obind (rewind_for_loop V sz) (\<lambda>sz.
     obind (Serialize_getStreamPosition sz) (\<lambda>headerIniOffset.
     obind (stream_event (se_onBegin V) sz) (\<lambda>sz.
     obind (stream_scanf V ''HRIS-%d.%d '' [NumArg TInt 0, NumArg TInt 0] sz) (\<lambda>((n, _, args), sz).
     if n \<noteq> 2 then Ok (headerIniOffset, sz\<lparr>sz_errorOccurred := True\<rparr>)
     else (case args of [NumArg _ major, NumArg _ minor] \<Rightarrow>
       Ok (headerIniOffset, set_header (h\<lparr>hd_majVersion := major, hd_minVersion := minor\<rparr>) sz) | _ \<Rightarrow> Fault)))))))"

definition begin_writing :: "('s, 'a) ser_env \<Rightarrow> 's ser_formats \<Rightarrow> 's Serialize \<Rightarrow> (int \<times> 's Serialize) outcome" where
  "begin_writing V F sz =
     obind (Serialize_checkModes F sz) (\<lambda>(_, sz). deref (sz_header sz) (\<lambda>h.
     let h = h\<lparr>hd_majVersion := SERIALIZE_HEADER_MAJVERSIONDEFAULT, hd_minVersion := SERIALIZE_HEADER_MINVERSIONDEFAULT\<rparr>;
         sz = set_header h sz in
     obind (rewind_for_loop V sz) (\<lambda>sz.
     obind (Serialize_getStreamPosition sz) (\<lambda>headerIniOffset.
     obind (Serialize_getStreamPosition sz) (\<lambda>backOff.
     let sz = sz\<lparr>sz_backOff := backOff\<rparr> in
     obind (stream_event (se_onBegin V) sz) (\<lambda>sz.
     obind (stream_printf V ''HRIS-%d.%d ''
              [NumArg TInt SERIALIZE_HEADER_MAJVERSIONDEFAULT, NumArg TInt SERIALIZE_HEADER_MINVERSIONDEFAULT] sz) (\<lambda>(r, sz).
     Ok (headerIniOffset, if r < 0 then sz\<lparr>sz_errorOccurred := True\<rparr> else sz))))))))"

text \<open>After the parser of the version: the options found are set, for version 1.0 they are not (the
  condition is on a pointer that stays null), and the size of the header is measured.\<close>

definition after_header :: "'s ser_formats \<Rightarrow> bool \<Rightarrow> int \<Rightarrow> 's Serialize \<Rightarrow> 's Serialize outcome" where
  "after_header F setOptions headerIniOffset sz = deref (sz_header sz) (\<lambda>h.
     obind (field_value h ''opts'' sz) (\<lambda>opts.
     obind (if setOptions \<and> opts \<noteq> Null
            then deref opts (\<lambda>s. with_ops F sz (\<lambda>ops. indirectFormatOptionsSet ops (Some s) sz)) else Ok sz) (\<lambda>sz.
     obind (Serialize_getStreamPosition sz) (\<lambda>headerEndOffset.
     deref (sz_header sz) (\<lambda>h. Ok (set_header (h\<lparr>hd_headerSize := headerEndOffset - headerIniOffset\<rparr>) sz))))))"

definition Serialize_doFirstBeginTypeCallOps :: "('s, 'a) ser_env \<Rightarrow> 's ser_formats \<Rightarrow> byte list \<Rightarrow> byte list \<Rightarrow> 's Serialize \<Rightarrow>
    's Serialize outcome" where
  "Serialize_doFirstBeginTypeCallOps V F name type sz = SERIALIZE_REQUIRE_STRING name (SERIALIZE_REQUIRE_STRING type
     (with_header sz (\<lambda>h.
      let sz = set_header (h\<lparr>hd_objSize := 0, hd_headerSize := 0\<rparr>) sz in
      obind (if sz_mode sz = SERIALIZE_MODE_READ then begin_reading V sz
             else if sz_mode sz = SERIALIZE_MODE_WRITE \<or> sz_mode sz = SERIALIZE_MODE_CALC then begin_writing V F sz
             else Ok (0, sz)) (\<lambda>(headerIniOffset, sz).
      if sz_errorOccurred sz then Ok sz
      else deref (sz_header sz) (\<lambda>h. header_switch h
        (obind (SerializeHeader_useParserV10 V F name type sz) (after_header F False headerIniOffset))
        (obind (SerializeHeader_useParserV20 V F name type sz) (after_header F True headerIniOffset))
        (Ok (sz\<lparr>sz_errorOccurred := True\<rparr>)))))))"

definition Serialize_doLastEndTypeCallOps :: "('s, 'a) ser_env \<Rightarrow> 's Serialize \<Rightarrow> 's Serialize outcome" where
  "Serialize_doLastEndTypeCallOps V sz = with_header sz (\<lambda>_.
     obind (stream_event (se_setBeginType V) sz) (\<lambda>sz.
     obind (if sz_mode sz = SERIALIZE_MODE_READ then Ok sz
            else if sz_mode sz = SERIALIZE_MODE_WRITE \<or> sz_mode sz = SERIALIZE_MODE_CALC
            then if sz_streamMode sz = SERIALIZE_STREAMMODE_NORMAL \<or> sz_streamMode sz = SERIALIZE_STREAMMODE_LOOP then Ok sz
                 else if sz_streamMode sz = SERIALIZE_STREAMMODE_FLUSH
                 then obind (stream_flush V sz) (\<lambda>(r, sz).
                      let sz = (if r = -1 then sz\<lparr>sz_errorOccurred := True\<rparr> else sz) in
                      obind (Serialize_getStreamPosition sz) (\<lambda>pos. Ok (sz\<lparr>sz_backOff := pos\<rparr>)))
                 else Require
            else Require) (\<lambda>sz.
     stream_event (se_onEnd V) sz)))"

subsection \<open>Begin and end\<close>

definition SERIALIZEFORMAT_BEGINTYPE :: "'s ser_formats \<Rightarrow> byte list \<Rightarrow> byte list \<Rightarrow> 's Serialize \<Rightarrow> 's Serialize outcome" where
  "SERIALIZEFORMAT_BEGINTYPE F name type sz =
     (let sz = sz\<lparr>sz_numTypeCalls := sz_numTypeCalls sz + 1\<rparr> in
      with_ops F sz (\<lambda>ops.
      if sz_numTypeCalls sz > 1 \<and> sz_baseTypeEnable sz then indirectBeginBaseType ops name type sz
      else indirectBeginType ops name type sz))"

definition SERIALIZEFORMAT_ENDTYPE :: "'s ser_formats \<Rightarrow> 's Serialize \<Rightarrow> 's Serialize outcome" where
  "SERIALIZEFORMAT_ENDTYPE F sz = ANY_REQUIRE (sz_numTypeCalls sz \<ge> 0)
     (obind (with_ops F sz (\<lambda>ops.
        if sz_numTypeCalls sz > 1 \<and> sz_baseTypeEnable sz then indirectEndBaseType ops sz else indirectEndType ops sz)) (\<lambda>sz.
      let sz = sz\<lparr>sz_numTypeCalls := sz_numTypeCalls sz - 1\<rparr> in
      ANY_REQUIRE (sz_numTypeCalls sz \<ge> 0) (Ok sz)))"

definition Serialize_internalBeginType :: "('s, 'a) ser_env \<Rightarrow> 's ser_formats \<Rightarrow> byte list \<Rightarrow> byte list \<Rightarrow> 's Serialize \<Rightarrow>
    (unit, 's Serialize) flow outcome" where
  "Serialize_internalBeginType V F name type sz = valid_serialize sz (ANY_REQUIRE (sz_stream sz \<noteq> NoStream)
     (SERIALIZE_REQUIRE_STRING name (SERIALIZE_REQUIRE_STRING type
     (fbind (SERIALIZE_SKIPIFERROR sz) (\<lambda>_ sz. lift_flow
       (obind (if Serialize_isTheFirstBeginTypeCall sz \<and> \<not> sz_isTranslateMode sz
               then obind (if sz_useHeader sz then Serialize_doFirstBeginTypeCallOps V F name type sz else Ok sz) (\<lambda>sz.
                    let sz = sz\<lparr>sz_roundOff := 0\<rparr> in
                    obind (Serialize_getStreamPosition sz) (\<lambda>pos. Ok (sz\<lparr>sz_objInitialOffset := pos\<rparr>)))
               else Ok sz) (\<lambda>sz.
        format_set sz (SERIALIZEFORMAT_BEGINTYPE F name type sz))))))))"

definition Serialize_internalEndType :: "('s, 'a) ser_env \<Rightarrow> 's ser_formats \<Rightarrow> 's Serialize \<Rightarrow> (unit, 's Serialize) flow outcome" where
  "Serialize_internalEndType V F sz = valid_serialize sz (format_set sz (ANY_REQUIRE (sz_numTypeCalls sz \<ge> 0)
     (fbind (SERIALIZE_SKIPIFERROR sz) (\<lambda>_ sz. lift_flow
       (obind (SERIALIZEFORMAT_ENDTYPE F sz) (\<lambda>sz.
        if Serialize_isTheLastEndTypeCall sz \<and> \<not> sz_isTranslateMode sz
        then obind (Serialize_getStreamPosition sz) (\<lambda>objectFinalOffset.
             obind (Serialize_getPayloadSize sz) (\<lambda>size.
             obind (if size = 0
                    then ANY_REQUIRE (objectFinalOffset \<ge> sz_objInitialOffset sz)
                      (SerializeHeader_setInfo None None None None (objectFinalOffset - sz_objInitialOffset sz) sz)
                    else Ok sz) (\<lambda>sz.
             obind (if sz_useHeader sz \<and> sz_isAutoCalcSizeMode sz \<and> sz_mode sz = SERIALIZE_MODE_WRITE
                    then Serialize_doAutoCalcSizeOps V sz else Ok sz) (\<lambda>sz.
             Serialize_doLastEndTypeCallOps V sz))))
        else Ok sz))))))"

text \<open>\<^verbatim>\<open>Serialize_beginType\<close> up to the call of \<^verbatim>\<open>Serialize_internalBeginType\<close>: \<open>frame\<close> is the frame of the
  function in which the macro stands.\<close>

definition set_recovery :: "nat \<Rightarrow> 's Serialize \<Rightarrow> 's Serialize" where
  "set_recovery frame sz =
     (if sz_recoveryJmpSet sz then sz else sz\<lparr>sz_recoveryJmpSet := True, sz_recoveryJmp := frame\<rparr>)"

text \<open>A jump to \<open>frame\<close> returns from the function with that frame; other jumps go on.\<close>

definition caught :: "nat \<Rightarrow> ('st \<Rightarrow> nat) \<Rightarrow> (unit, 'st) flow outcome \<Rightarrow> (unit, 'st) flow outcome" where
  "caught frame target m = omap (\<lambda>f. case f of
     Longjmp st \<Rightarrow> if target st = frame then Returned () st else Longjmp st | Returned r st \<Rightarrow> Returned r st) m"

text \<open>The macro stands in the function itself, whose frame ends with it.\<close>

definition Serialize_beginBaseType :: "('s, 'a) ser_env \<Rightarrow> 's ser_formats \<Rightarrow> nat \<Rightarrow> byte list \<Rightarrow> byte list \<Rightarrow> 's Serialize \<Rightarrow>
    (unit, 's Serialize) flow outcome" where
  "Serialize_beginBaseType V F frame name type sz = valid_serialize sz (format_set sz
     (SERIALIZE_REQUIRE_STRING name (SERIALIZE_REQUIRE_STRING type
     (fbind (SERIALIZE_SKIPIFERROR sz) (\<lambda>_ sz.
      caught frame sz_recoveryJmp
        (fbind (Serialize_internalBeginType V F name type (set_recovery frame (sz\<lparr>sz_baseTypeEnable := True\<rparr>))) (\<lambda>_ sz.
         Ok (Returned () (sz\<lparr>sz_baseTypeEnable := False\<rparr>)))))))))"

definition Serialize_endBaseType :: "('s, 'a) ser_env \<Rightarrow> 's ser_formats \<Rightarrow> 's Serialize \<Rightarrow> (unit, 's Serialize) flow outcome" where
  "Serialize_endBaseType V F sz = valid_serialize sz (format_set sz (ANY_REQUIRE (sz_numTypeCalls sz \<ge> 0)
     (fbind (SERIALIZE_SKIPIFERROR sz) (\<lambda>_ sz.
      fbind (Serialize_internalEndType V F (sz\<lparr>sz_baseTypeEnable := True\<rparr>)) (\<lambda>_ sz.
      Ok (Returned () (sz\<lparr>sz_baseTypeEnable := False\<rparr>)))))))"

text \<open>What the calls below share: the checks, then a function of the format.\<close>

definition format_call :: "'s ser_formats \<Rightarrow> ('s SerializeFormat \<Rightarrow> 's Serialize \<Rightarrow> 's Serialize outcome) \<Rightarrow> 's Serialize \<Rightarrow>
    (unit, 's Serialize) flow outcome" where
  "format_call F f sz = fbind (SERIALIZE_SKIPIFERROR sz) (\<lambda>_ sz. lift_flow (with_ops F sz (\<lambda>ops. f ops sz)))"

definition Serialize_beginArray :: "'s ser_formats \<Rightarrow> SerializeType \<Rightarrow> byte list \<Rightarrow> int \<Rightarrow> 's Serialize \<Rightarrow> (unit, 's Serialize) flow outcome" where
  "Serialize_beginArray F type name len sz = valid_serialize sz (format_set sz (SERIALIZE_REQUIRE_STRING name
     (format_call F (\<lambda>ops. indirectBeginArray ops type name len) sz)))"

definition Serialize_beginStructArray :: "'s ser_formats \<Rightarrow> byte list \<Rightarrow> byte list \<Rightarrow> int \<Rightarrow> 's Serialize \<Rightarrow>
    (unit, 's Serialize) flow outcome" where
  "Serialize_beginStructArray F arrayName elementType arrayLen sz = valid_serialize sz (format_set sz
     (SERIALIZE_REQUIRE_STRING arrayName (SERIALIZE_REQUIRE_STRING elementType
       (format_call F (\<lambda>ops. indirectBeginStructArray ops arrayName elementType arrayLen) sz))))"

definition Serialize_beginStructArraySeparator :: "'s ser_formats \<Rightarrow> byte list \<Rightarrow> int \<Rightarrow> int \<Rightarrow> 's Serialize \<Rightarrow>
    (unit, 's Serialize) flow outcome" where
  "Serialize_beginStructArraySeparator F arrayName arrayPosition arrayLen sz = valid_serialize sz (format_set sz
     (SERIALIZE_REQUIRE_STRING arrayName (ANY_REQUIRE (arrayPosition \<ge> 0) (ANY_REQUIRE (arrayLen \<ge> 0 \<and> arrayLen > arrayPosition)
       (format_call F (\<lambda>ops. indirectBeginStructArraySeparator ops arrayName arrayPosition arrayLen) sz)))))"

definition Serialize_endStructArraySeparator :: "'s ser_formats \<Rightarrow> byte list \<Rightarrow> int \<Rightarrow> int \<Rightarrow> 's Serialize \<Rightarrow>
    (unit, 's Serialize) flow outcome" where
  "Serialize_endStructArraySeparator F arrayName arrayPosition arrayLen sz = valid_serialize sz (format_set sz
     (SERIALIZE_REQUIRE_STRING arrayName (ANY_REQUIRE (arrayPosition \<ge> 0) (ANY_REQUIRE (arrayLen \<ge> 0 \<and> arrayLen > arrayPosition)
       (format_call F (\<lambda>ops. indirectEndStructArraySeparator ops arrayName arrayPosition arrayLen) sz)))))"

definition Serialize_endStructArray :: "'s ser_formats \<Rightarrow> 's Serialize \<Rightarrow> (unit, 's Serialize) flow outcome" where
  "Serialize_endStructArray F sz = valid_serialize sz (format_set sz (format_call F indirectEndStructArray sz))"

definition Serialize_endArray :: "'s ser_formats \<Rightarrow> SerializeType \<Rightarrow> byte list \<Rightarrow> int \<Rightarrow> 's Serialize \<Rightarrow> (unit, 's Serialize) flow outcome" where
  "Serialize_endArray F type name len sz = valid_serialize sz (format_set sz (SERIALIZE_REQUIRE_STRING name
     (format_call F (\<lambda>ops. indirectEndArray ops type name len) sz)))"

text \<open>The state of a transfer is the value with the object: a jump leaves both as they are.\<close>

definition with_value :: "byte list \<Rightarrow> (unit, 's Serialize) flow outcome \<Rightarrow> (unit, byte list \<times> 's Serialize) flow outcome" where
  "with_value v m = omap (\<lambda>f. case f of Returned _ sz \<Rightarrow> Returned () (v, sz) | Longjmp sz \<Rightarrow> Longjmp (v, sz)) m"

definition Serialize_doSerialize :: "'s ser_formats \<Rightarrow> SerializeType \<Rightarrow> byte list \<Rightarrow> byte list \<Rightarrow> int \<Rightarrow> int \<Rightarrow> 's Serialize \<Rightarrow>
    (unit, byte list \<times> 's Serialize) flow outcome" where
  "Serialize_doSerialize F type name val n len sz = valid_serialize sz (format_set sz (SERIALIZE_REQUIRE_STRING name
     (fbind (with_value val (SERIALIZE_SKIPIFERROR sz)) (\<lambda>_ (val, sz).
      fbind (if SERIALIZE_IS_ARRAY_ELEMENT type then with_value val (Serialize_beginArray F type name len sz)
             else Ok (Returned () (val, sz))) (\<lambda>_ (val, sz).
      obind (with_ops F sz (\<lambda>ops. indirectDoSerialize ops type name val n len sz)) (\<lambda>(val, sz).
      if SERIALIZE_IS_ARRAY_ELEMENT type then with_value val (Serialize_endArray F type name len sz)
      else Ok (Returned () (val, sz))))))))"

subsection \<open>Creating the object\<close>

definition Serialize_zero :: "'s Serialize" where
  "Serialize_zero = \<lparr>sz_valid = 0, sz_format = 0, sz_streamMode = 0, sz_header = Null, sz_mode = 0,
     sz_formatList = \<lparr>mt_self = Null, mt_elems = empty_heap, mt_mem = 0, mt_freed = []\<rparr>, sz_isLittleEndian = False,
     sz_numTypeCalls = 0, sz_calcSizeStream = Null, sz_stream = NoStream, sz_baseTypeEnable = False,
     sz_forceBinaryDeploy = False, sz_isInitMode = False, sz_isAutoCalcSizeMode = False, sz_isTranslateMode = False,
     sz_useHeader = False, sz_indentLevel = 0, sz_columnWrap = 0, sz_offsetForLoop = 0, sz_roundOff = 0, sz_backOff = 0,
     sz_objInitialOffset = 0, sz_errorOccurred = False, sz_recoveryJmp = 0, sz_recoveryJmpSet = False,
     sz_channel = IOChannel_zero, sz_infos = empty_heap, sz_rvs = \<lparr>rs_heap = empty_heap, rs_mem = 0\<rparr>\<rparr>"

text \<open>\<open>mem\<close> and \<open>listMem\<close> are the budgets for the header and the formats, and for the list of formats.\<close>

definition Serialize_new :: "nat \<Rightarrow> nat \<Rightarrow> 's Serialize owned outcome" where
  "Serialize_new mem listMem =
     (let (p, mem) = ANY_TALLOC Serialize_zero mem in
      require_ptr p (\<lambda>sz. Ok (Own (sz\<lparr>sz_rvs := \<lparr>rs_heap = empty_heap, rs_mem = mem\<rparr>,
                                    sz_formatList := (sz_formatList sz)\<lparr>mt_mem := listMem\<rparr>\<rparr>))))"

definition Serialize_init :: "('s, 'a) ser_env \<Rightarrow> 's IOChannel option \<Rightarrow> uint32 \<Rightarrow> 's Serialize \<Rightarrow> (bool \<times> 's Serialize) outcome" where
  "Serialize_init V stream modes sz =
     (let sz = (Serialize_resetSerialize sz)\<lparr>sz_isLittleEndian := Serialize_isLittleEndian V\<rparr> in
      obind (SerializeHeader_create (sz_rvs sz)) (\<lambda>(p, w). ANY_REQUIRE (p \<noteq> Null)
        (obind (Serialize_setHeaderSizes 0 0 0 0 (sz\<lparr>sz_header := p, sz_rvs := w\<rparr>)) (\<lambda>sz.
         obind (SerializeCalcStream_create (rs_mem (sz_rvs sz))) (\<lambda>(calc, mem).
         let sz = sz\<lparr>sz_calcSizeStream := calc, sz_rvs := (sz_rvs sz)\<lparr>rs_mem := mem\<rparr>\<rparr> in
         if calc = Null
         then obind (SerializeHeader_destroy sz) (\<lambda>sz. Ok (False, sz\<lparr>sz_errorOccurred := True\<rparr>))
         else obind (SerializeFormatList_create (sz_formatList sz)) (\<lambda>list.
              let sz = sz\<lparr>sz_formatList := list, sz_valid := SERIALIZE_VALID\<rparr> in
              obind (case stream of Some ch \<Rightarrow> Serialize_setStream ch sz | None \<Rightarrow> Ok sz) (\<lambda>sz.
              obind (Serialize_setMode V modes sz) (\<lambda>sz. Ok (True, sz)))))))))"

definition Serialize_delete :: "'s Serialize owned \<Rightarrow> 's Serialize owned outcome" where
  "Serialize_delete p = ANY_REQUIRE (p \<noteq> Null) (ANY_FREE p)"

subsection \<open>Functions of the user\<close>

text \<open>
  A serialize function of the user: \<open>TypeFn\<close> encloses its body in \<^verbatim>\<open>Serialize_beginType\<close> and
  \<^verbatim>\<open>Serialize_endType\<close>, \<open>BaseTypeFn\<close> in the calls for base types. In between it calls other such
  functions and transfers values, and arrays of structures element by element; the number in \<open>StructArray\<close> is the
  length that the calls for the array are told, as the \<^verbatim>\<open>int\<close> that arrives there. Running one keeps the number of the next
  frame and the values transferred so far.
\<close>

datatype ser_prog =
    TypeFn "byte list" "byte list" "ser_prog list"
  | BaseTypeFn "byte list" "byte list" "ser_prog list"
  | Value SerializeType "byte list" "byte list" int int
  | StructArray "byte list" "byte list" int "ser_prog list"

record 's ser_run =
  rn_sz :: "'s Serialize"
  rn_frame :: nat
  rn_values :: "byte list list"

definition step :: "('s Serialize \<Rightarrow> (unit, 's Serialize) flow outcome) \<Rightarrow> 's ser_run \<Rightarrow> (unit, 's ser_run) flow outcome" where
  "step f r = omap (\<lambda>x. case x of Returned _ sz \<Rightarrow> Returned () (r\<lparr>rn_sz := sz\<rparr>) | Longjmp sz \<Rightarrow> Longjmp (r\<lparr>rn_sz := sz\<rparr>))
     (f (rn_sz r))"

definition transfer :: "'s ser_formats \<Rightarrow> SerializeType \<Rightarrow> byte list \<Rightarrow> byte list \<Rightarrow> int \<Rightarrow> int \<Rightarrow> 's ser_run \<Rightarrow>
    (unit, 's ser_run) flow outcome" where
  "transfer F type name val n len r =
     (let out = (\<lambda>(v, sz). r\<lparr>rn_sz := sz, rn_values := rn_values r @ [v]\<rparr>) in
      omap (\<lambda>x. case x of Returned _ s \<Rightarrow> Returned () (out s) | Longjmp s \<Rightarrow> Longjmp (out s))
        (Serialize_doSerialize F type name val n len (rn_sz r)))"

fun elements :: "('s ser_run \<Rightarrow> (unit, 's ser_run) flow outcome) list \<Rightarrow> 's ser_formats \<Rightarrow> byte list \<Rightarrow> int \<Rightarrow> int \<Rightarrow>
    's ser_run \<Rightarrow> (unit, 's ser_run) flow outcome" where
  "elements [] F name i n r = Ok (Returned () r)"
| "elements (f # fs) F name i n r =
     fbind (step (Serialize_beginStructArraySeparator F name i n) r) (\<lambda>_ r.
     fbind (f r) (\<lambda>_ r.
     fbind (step (Serialize_endStructArraySeparator F name i n) r) (\<lambda>_ r. elements fs F name (i + 1) n r)))"

fun in_turn :: "('st \<Rightarrow> (unit, 'st) flow outcome) list \<Rightarrow> 'st \<Rightarrow> (unit, 'st) flow outcome" where
  "in_turn [] r = Ok (Returned () r)"
| "in_turn (f # fs) r = fbind (f r) (\<lambda>_ r. in_turn fs r)"

primrec run_prog :: "('s, 'a) ser_env \<Rightarrow> 's ser_formats \<Rightarrow> ser_prog \<Rightarrow> 's ser_run \<Rightarrow> (unit, 's ser_run) flow outcome" where
  "run_prog V F (TypeFn name type body) r =
     (let frame = rn_frame r; r = r\<lparr>rn_frame := frame + 1, rn_sz := set_recovery frame (rn_sz r)\<rparr> in
      caught frame (\<lambda>r. sz_recoveryJmp (rn_sz r))
        (fbind (step (Serialize_internalBeginType V F name type) r) (\<lambda>_ r.
         fbind (in_turn (map (run_prog V F) body) r) (\<lambda>_ r.
         fbind (step (Serialize_internalEndType V F) r) (\<lambda>_ r.
         Ok (Returned () (r\<lparr>rn_sz := (rn_sz r)\<lparr>sz_recoveryJmpSet := False\<rparr>\<rparr>)))))))"
| "run_prog V F (BaseTypeFn name type body) r =
     (let frame = rn_frame r; r = r\<lparr>rn_frame := frame + 1\<rparr> in
      fbind (step (Serialize_beginBaseType V F frame name type) r) (\<lambda>_ r.
      fbind (in_turn (map (run_prog V F) body) r) (\<lambda>_ r.
      step (Serialize_endBaseType V F) r)))"
| "run_prog V F (Value type name val n len) r = transfer F type name val n len r"
| "run_prog V F (StructArray name type n body) r =
     fbind (step (Serialize_beginStructArray F name type n) r) (\<lambda>_ r.
     fbind (elements (map (run_prog V F) body) F name 0 n r) (\<lambda>_ r.
     step (Serialize_endStructArray F) r))"

text \<open>A call from outside: a jump that no frame catches goes to the frame of a function that has returned.\<close>

definition serialize_call :: "('s, 'a) ser_env \<Rightarrow> 's ser_formats \<Rightarrow> ser_prog \<Rightarrow> 's Serialize \<Rightarrow> (byte list list \<times> 's Serialize) outcome" where
  "serialize_call V F p sz =
     obind (run_prog V F p \<lparr>rn_sz = sz, rn_frame = Suc (sz_recoveryJmp sz), rn_values = []\<rparr>) (\<lambda>x. case x of
       Returned _ r \<Rightarrow> Ok (rn_values r, rn_sz r) | Longjmp _ \<Rightarrow> Fault)"

end
