(* ===== verification/Ser_Binary.thy ===== *)
theory Ser_Binary
  imports Ser_Object
begin

text \<open>
  The binary format (src/src/SerializeFormats.c): values go to the stream as they are in memory, with
  the bytes of each element reversed when the byte order that the options ask for is not the one of
  the host. Strings are preceded by their length in two bytes. Types and arrays leave no trace in the stream.
  \<open>V\<close> is the environment of the object, \<open>value\<close> the memory behind the pointer to the value.
\<close>

subsection \<open>Reversing\<close>

function swap_element :: "byte list \<Rightarrow> nat \<Rightarrow> nat \<Rightarrow> nat \<Rightarrow> byte list outcome" where
  "swap_element m base i j =
     (if i < j
      then defined_if (base + j < length m)
        (swap_element (m[base + i := m ! (base + j), base + j := m ! (base + i)]) base (i + 1) (j - 1))
      else Ok m)"
  by pat_completeness auto

termination
  by (relation "measure (\<lambda>(m, base, i, j). j - i)") auto

declare swap_element.simps [simp del]

fun swap_elements :: "byte list \<Rightarrow> nat \<Rightarrow> nat \<Rightarrow> nat \<Rightarrow> nat \<Rightarrow> byte list outcome" where
  "swap_elements m base n l 0 = Ok m"
| "swap_elements m base n l (Suc k) = obind (swap_element m base 0 l) (\<lambda>m. swap_elements m (base + n) n l k)"

text \<open>The last position \<open>l\<close> is computed in unsigned integers.\<close>

definition SerializeFormatBinary_swapBuffer :: "byte list \<Rightarrow> nat \<Rightarrow> nat \<Rightarrow> byte list outcome" where
  "SerializeFormatBinary_swapBuffer val n len = swap_elements val 0 n (nat ((int n - 1) mod 2 ^ 32)) len"

subsection \<open>Transfer\<close>

definition endian_flag :: "format_data owned \<Rightarrow> (bool \<Rightarrow> 'b outcome) \<Rightarrow> 'b outcome" where
  "endian_flag p k = deref p (\<lambda>d. case d of SerializeFormatBinaryEndianFlag b \<Rightarrow> k b | _ \<Rightarrow> Fault)"

definition SERIALIZEFORMAT_CHECKENDIANNESS :: "'s Serialize \<Rightarrow> bool outcome" where
  "SERIALIZEFORMAT_CHECKENDIANNESS sz =
     obind (hread (sz_infos sz) (sz_format sz)) (\<lambda>info. endian_flag (fi_data info) (\<lambda>b. Ok (b \<noteq> sz_isLittleEndian sz)))"

definition Serialize_deploy :: "('s, 'a) ser_env \<Rightarrow> byte list \<Rightarrow> int \<Rightarrow> 's Serialize \<Rightarrow> ((bool \<times> byte list) \<times> 's Serialize) outcome" where
  "Serialize_deploy V val n sz =
     obind (Serialize_deployDataType V SERIALIZE_TYPE_CHAR (SERIALIZE_DEPLOYDATAMODE_BINARY val n) sz) (\<lambda>((ok, d), sz).
     Ok ((ok, case d of SERIALIZE_DEPLOYDATAMODE_BINARY val _ \<Rightarrow> val | _ \<Rightarrow> val), sz))"

text \<open>Writing with the other byte order: element by element, from a reversed copy.\<close>

fun write_swapped :: "('s, 'a) ser_env \<Rightarrow> nat \<Rightarrow> byte list \<Rightarrow> nat \<Rightarrow> 's Serialize \<Rightarrow> 's Serialize outcome" where
  "write_swapped V n val 0 sz = Ok sz"
| "write_swapped V n val (Suc k) sz =
     defined_if (n \<le> length val)
       (obind (SerializeFormatBinary_swapBuffer (take n val) n 1) (\<lambda>tmp.
        obind (Serialize_deploy V tmp (int n) sz) (\<lambda>(_, sz). write_swapped V n (drop n val) k sz)))"

text \<open>\<open>n\<close> is the size of the type.\<close>

definition SERIALIZE_GENERICTYPE :: "('s, 'a) ser_env \<Rightarrow> nat \<Rightarrow> byte list \<Rightarrow> int \<Rightarrow> 's Serialize \<Rightarrow> (byte list \<times> 's Serialize) outcome" where
  "SERIALIZE_GENERICTYPE V n val len sz =
     obind (Serialize_isReading sz) (\<lambda>reading.
     obind (if reading
            then obind (Serialize_deploy V val (int n * len) sz) (\<lambda>((ok, val), sz).
                 if ok
                 then obind (SERIALIZEFORMAT_CHECKENDIANNESS sz) (\<lambda>other.
                      obind (if other then SerializeFormatBinary_swapBuffer val n (nat len) else Ok val) (\<lambda>val. Ok (val, sz)))
                 else Ok (val, sz))
            else Ok (val, sz)) (\<lambda>(val, sz).
     obind (Serialize_isWriting sz) (\<lambda>writing.
     if writing
     then obind (SERIALIZEFORMAT_CHECKENDIANNESS sz) (\<lambda>other.
          if other then obind (write_swapped V n val (nat len) sz) (\<lambda>sz. Ok (val, sz))
          else obind (Serialize_deploy V val (int n * len) sz) (\<lambda>(_, sz). Ok (val, sz)))
     else Ok (val, sz))))"

text \<open>The two bytes of an \<^verbatim>\<open>unsigned short\<close> in memory.\<close>

definition short_bytes :: "bool \<Rightarrow> 16 word \<Rightarrow> byte list" where
  "short_bytes little w = (let lo = ucast w; hi = ucast (drop_bit 8 w) in if little then [lo, hi] else [hi, lo])"

definition short_of :: "bool \<Rightarrow> byte list \<Rightarrow> 16 word" where
  "short_of little bs = (case bs of [a, b] \<Rightarrow>
     if little then ucast a OR push_bit 8 (ucast b) else ucast b OR push_bit 8 (ucast a) | _ \<Rightarrow> 0)"

text \<open>The length is checked before it is read, not afterwards.\<close>

definition serialize_string :: "('s, 'a) ser_env \<Rightarrow> byte list \<Rightarrow> int \<Rightarrow> int \<Rightarrow> 's Serialize \<Rightarrow> (byte list \<times> 's Serialize) outcome" where
  "serialize_string V val n len sz =
     (let slen = (word_of_int (n * len) :: 16 word); little = se_isLittleEndian V in
      ANY_REQUIRE (uint slen < SERIALIZE_TYPEMAXTEXTLEN_STRING)
        (obind (SERIALIZE_GENERICTYPE V 2 (short_bytes little slen) 1 sz) (\<lambda>(bs, sz).
         let slen = short_of little bs in
         if slen > 0
         then obind (Serialize_deploy V val (uint slen) sz) (\<lambda>((_, val), sz).
              obind (Serialize_isReading sz) (\<lambda>reading.
              if reading then defined_if (unat slen \<le> length val) (Ok (val[unat slen - 1 := 0], sz))
              else Ok (val, sz)))
         else Ok (val, sz))))"

text \<open>What the branches of the switch make of a type: bytes, a string, elements of a size, nothing, or no branch.\<close>

datatype wire_kind = KBytes | KText | KElements nat | KUnsupported | KNoBranch

definition binary_kind :: "SerializeType \<Rightarrow> wire_kind" where
  "binary_kind t =
     (if t \<in> {SERIALIZE_TYPE_CHAR, SERIALIZE_TYPE_CHARARRAY, SERIALIZE_TYPE_SCHAR, SERIALIZE_TYPE_SCHARARRAY,
              SERIALIZE_TYPE_UCHAR, SERIALIZE_TYPE_UCHARARRAY} then KBytes
      else if t = SERIALIZE_TYPE_STRING then KText
      else if t \<in> {SERIALIZE_TYPE_SINT, SERIALIZE_TYPE_SINTARRAY, SERIALIZE_TYPE_USINT, SERIALIZE_TYPE_USINTARRAY} then KElements 2
      else if t \<in> {SERIALIZE_TYPE_INT, SERIALIZE_TYPE_INTARRAY, SERIALIZE_TYPE_UINT, SERIALIZE_TYPE_UINTARRAY,
                   SERIALIZE_TYPE_FLOAT, SERIALIZE_TYPE_FLOATARRAY} then KElements 4
      else if t \<in> {SERIALIZE_TYPE_LINT, SERIALIZE_TYPE_LINTARRAY, SERIALIZE_TYPE_ULINT, SERIALIZE_TYPE_ULINTARRAY,
                   SERIALIZE_TYPE_LL, SERIALIZE_TYPE_LLARRAY, SERIALIZE_TYPE_ULL, SERIALIZE_TYPE_ULLARRAY,
                   SERIALIZE_TYPE_DOUBLE, SERIALIZE_TYPE_DOUBLEARRAY} then KElements 8
      else if t \<in> {SERIALIZE_TYPE_LDOUBLE, SERIALIZE_TYPE_LDOUBLEARRAY} then KUnsupported
      else KNoBranch)"

definition SerializeFormatBinary_doSerialize :: "('s, 'a) ser_env \<Rightarrow> SerializeType \<Rightarrow> byte list \<Rightarrow> byte list \<Rightarrow> int \<Rightarrow> int \<Rightarrow>
    's Serialize \<Rightarrow> (byte list \<times> 's Serialize) outcome" where
  "SerializeFormatBinary_doSerialize V type name val n len sz =
     ANY_REQUIRE (n > 0) (ANY_REQUIRE (type = SERIALIZE_TYPE_STRING \<or> len > 0)
       (case binary_kind type of
          KBytes \<Rightarrow> obind (Serialize_deploy V val (n * len) sz) (\<lambda>((_, val), sz). Ok (val, sz))
        | KText \<Rightarrow> serialize_string V val n len sz
        | KElements k \<Rightarrow> SERIALIZE_GENERICTYPE V k val len sz
        | KUnsupported \<Rightarrow> Ok (val, sz)
        | KNoBranch \<Rightarrow> Require))"

subsection \<open>Types and arrays\<close>

definition SerializeFormatBinary_beginType :: "byte list \<Rightarrow> byte list \<Rightarrow> 's Serialize \<Rightarrow> 's Serialize outcome" where
  "SerializeFormatBinary_beginType name type sz = Ok sz"

definition SerializeFormatBinary_beginBaseType :: "byte list \<Rightarrow> byte list \<Rightarrow> 's Serialize \<Rightarrow> 's Serialize outcome" where
  "SerializeFormatBinary_beginBaseType name type sz = SerializeFormatBinary_beginType name type sz"

definition SerializeFormatBinary_beginArray :: "SerializeType \<Rightarrow> byte list \<Rightarrow> int \<Rightarrow> 's Serialize \<Rightarrow> 's Serialize outcome" where
  "SerializeFormatBinary_beginArray type name n sz = Ok sz"

definition SerializeFormatBinary_beginStructArray :: "byte list \<Rightarrow> byte list \<Rightarrow> int \<Rightarrow> 's Serialize \<Rightarrow> 's Serialize outcome" where
  "SerializeFormatBinary_beginStructArray name type n sz = Ok sz"

definition SerializeFormatBinary_beginStructArraySeparator :: "byte list \<Rightarrow> int \<Rightarrow> int \<Rightarrow> 's Serialize \<Rightarrow> 's Serialize outcome" where
  "SerializeFormatBinary_beginStructArraySeparator name pos len sz = Ok sz"

definition SerializeFormatBinary_endStructArraySeparator :: "byte list \<Rightarrow> int \<Rightarrow> int \<Rightarrow> 's Serialize \<Rightarrow> 's Serialize outcome" where
  "SerializeFormatBinary_endStructArraySeparator name pos len sz = Ok sz"

definition SerializeFormatBinary_endStructArray :: "'s Serialize \<Rightarrow> 's Serialize outcome" where
  "SerializeFormatBinary_endStructArray sz = Ok sz"

definition SerializeFormatBinary_endArray :: "SerializeType \<Rightarrow> byte list \<Rightarrow> int \<Rightarrow> 's Serialize \<Rightarrow> 's Serialize outcome" where
  "SerializeFormatBinary_endArray type name n sz = Ok sz"

definition SerializeFormatBinary_endType :: "'s Serialize \<Rightarrow> 's Serialize outcome" where
  "SerializeFormatBinary_endType sz = Ok sz"

definition SerializeFormatBinary_endBaseType :: "'s Serialize \<Rightarrow> 's Serialize outcome" where
  "SerializeFormatBinary_endBaseType sz = SerializeFormatBinary_endType sz"

definition SerializeFormatBinary_getAllowedModes :: "'s Serialize \<Rightarrow> uint32 outcome" where
  "SerializeFormatBinary_getAllowedModes sz = Ok SERIALIZE_MODE_CALC"

subsection \<open>Options\<close>

definition SerializeFormatBinaryOptions_new :: "nat \<Rightarrow> (format_data owned \<times> nat) outcome" where
  "SerializeFormatBinaryOptions_new mem =
     (let (p, mem) = ANY_TALLOC (SerializeFormatBinaryEndianFlag False) mem in ANY_REQUIRE (p \<noteq> Null) (Ok (p, mem)))"

text \<open>Storing the flag through the pointer to the options of the current format, which must not be null.\<close>

definition set_endian_flag :: "bool \<Rightarrow> 's Serialize \<Rightarrow> 's Serialize outcome" where
  "set_endian_flag b sz =
     obind (Serialize_getFormatDataPtr sz) (\<lambda>data. ANY_REQUIRE (data \<noteq> Null)
       (deref data (\<lambda>_. obind (hupd (sz_infos sz) (sz_format sz) (\<lambda>info. info\<lparr>fi_data := Own (SerializeFormatBinaryEndianFlag b)\<rparr>))
         (\<lambda>infos. Ok (sz\<lparr>sz_infos := infos\<rparr>)))))"

definition SerializeFormatBinaryOptions_init :: "('s, 'a) ser_env \<Rightarrow> 's Serialize \<Rightarrow> 's Serialize outcome" where
  "SerializeFormatBinaryOptions_init V sz = set_endian_flag (Serialize_isLittleEndian V) sz"

definition SerializeFormatBinaryOptions_set :: "('s, 'a) ser_env \<Rightarrow> byte list option \<Rightarrow> 's Serialize \<Rightarrow> 's Serialize outcome" where
  "SerializeFormatBinaryOptions_set V optionsString sz =
     obind (Serialize_getFormatDataPtr sz) (\<lambda>data. ANY_REQUIRE (data \<noteq> Null)
       (obind (case optionsString of None \<Rightarrow> Ok False
               | Some s \<Rightarrow>
                 obind (Any_strcmp_eq s (cstr ''LITTLE_ENDIAN'')) (\<lambda>little.
                 if little then Ok True
                 else obind (Any_strcmp_eq s (cstr ''BIG_ENDIAN'')) (\<lambda>big.
                      if big then Ok False
                      else obind (Serialize_isWriting sz) (\<lambda>writing.
                           Ok (if writing then Serialize_isLittleEndian V else False))))) (\<lambda>isLittleEndian.
        obind (set_endian_flag isLittleEndian sz) (\<lambda>sz.
        obind (Serialize_getHeaderOptsPtr sz) (\<lambda>(rvp, sz).
        sprintf_value rvp (ascii (if isLittleEndian then ''LITTLE_ENDIAN'' else ''BIG_ENDIAN'')) sz)))))"

definition SerializeFormatBinaryOptions_setProperty :: "byte list \<Rightarrow> nat \<Rightarrow> 's Serialize \<Rightarrow> (bool \<times> 's Serialize) outcome" where
  "SerializeFormatBinaryOptions_setProperty optName optValue sz = Ok (False, sz)"

definition SerializeFormatBinaryOptions_getProperty :: "byte list \<Rightarrow> 's Serialize \<Rightarrow> nat outcome" where
  "SerializeFormatBinaryOptions_getProperty optName sz = Ok 0"

definition SerializeFormatBinaryOptions_clear :: "'s Serialize \<Rightarrow> 's Serialize outcome" where
  "SerializeFormatBinaryOptions_clear sz = set_endian_flag False sz"

definition SerializeFormatBinaryOptions_delete :: "'s Serialize \<Rightarrow> 's Serialize outcome" where
  "SerializeFormatBinaryOptions_delete sz =
     obind (Serialize_getFormatDataPtr sz) (\<lambda>data. ANY_REQUIRE (data \<noteq> Null)
       (obind (ANY_FREE data) (\<lambda>p.
        obind (hupd (sz_infos sz) (sz_format sz) (\<lambda>info. info\<lparr>fi_data := p\<rparr>)) (\<lambda>infos. Ok (sz\<lparr>sz_infos := infos\<rparr>)))))"

definition SerializeFormatBinaryOps :: "('s, 'a) ser_env \<Rightarrow> 's SerializeFormat" where
  "SerializeFormatBinaryOps V = \<lparr>
     formatName = cstr ''Binary'',
     indirectBeginType = SerializeFormatBinary_beginType,
     indirectBeginBaseType = SerializeFormatBinary_beginBaseType,
     indirectBeginArray = SerializeFormatBinary_beginArray,
     indirectBeginStructArray = SerializeFormatBinary_beginStructArray,
     indirectBeginStructArraySeparator = SerializeFormatBinary_beginStructArraySeparator,
     indirectDoSerialize = SerializeFormatBinary_doSerialize V,
     indirectEndStructArraySeparator = SerializeFormatBinary_endStructArraySeparator,
     indirectEndStructArray = SerializeFormatBinary_endStructArray,
     indirectEndArray = SerializeFormatBinary_endArray,
     indirectEndBaseType = SerializeFormatBinary_endBaseType,
     indirectEndType = SerializeFormatBinary_endType,
     indirectGetAllowedModes = SerializeFormatBinary_getAllowedModes,
     indirectFormatOptionsNew = SerializeFormatBinaryOptions_new,
     indirectFormatOptionsInit = SerializeFormatBinaryOptions_init V,
     indirectFormatOptionsSet = SerializeFormatBinaryOptions_set V,
     indirectFormatOptionsSetProperty = SerializeFormatBinaryOptions_setProperty,
     indirectFormatOptionsGetProperty = SerializeFormatBinaryOptions_getProperty,
     indirectFormatOptionsClear = SerializeFormatBinaryOptions_clear,
     indirectFormatOptionsDelete = SerializeFormatBinaryOptions_delete\<rparr>"

end
