(* ===== verification/Ser_Contents.thy ===== *)
theory Ser_Contents
  imports Ser_Binary IO_Format_Correct Ser_Ref_Correct
begin

text \<open>
  What the serializer and the binary format promise about the contents of objects. The locale
  \<open>ser_sink\<close> is the contract of the stream of a serializer that writes or measures: a transfer of
  bytes for which there is space is complete. It holds for memory and for the measuring stream. Over it the transfer
  of every value, and of every function of the user, is shown to emit exactly the bytes of the
  reference function \<open>wire\<close>; reading these bytes gives the values back.
\<close>

declare split_paired_Ex [simp del]

named_theorems ser_simps "fields of the serializer that an update leaves alone"

subsection \<open>The port of a serializer\<close>

text \<open>The part of the object that transfers change.\<close>

type_synonym 's port = "stream_ptr \<times> 's IOChannel \<times> IOChannelCalc IOChannel owned"

definition port :: "'s Serialize \<Rightarrow> 's port" where
  "port sz = (sz_stream sz, sz_channel sz, sz_calcSizeStream sz)"

definition set_port :: "'s port \<Rightarrow> 's Serialize \<Rightarrow> 's Serialize" where
  "set_port p sz = sz\<lparr>sz_stream := fst p, sz_channel := fst (snd p), sz_calcSizeStream := snd (snd p)\<rparr>"

lemma port_set_port [simp, ser_simps]: "port (set_port p sz) = p"
  by (cases p) (simp add: port_def set_port_def)

lemma set_port_set_port [simp, ser_simps]: "set_port p (set_port q sz) = set_port p sz"
  by (cases sz) (simp add: set_port_def)

lemma set_port_port [simp, ser_simps]: "set_port (port sz) sz = sz"
  by (cases sz) (simp add: port_def set_port_def)

lemma set_port_fields [simp, ser_simps]:
  "sz_valid (set_port p sz) = sz_valid sz" "sz_format (set_port p sz) = sz_format sz"
  "sz_streamMode (set_port p sz) = sz_streamMode sz" "sz_header (set_port p sz) = sz_header sz"
  "sz_mode (set_port p sz) = sz_mode sz" "sz_formatList (set_port p sz) = sz_formatList sz"
  "sz_isLittleEndian (set_port p sz) = sz_isLittleEndian sz" "sz_numTypeCalls (set_port p sz) = sz_numTypeCalls sz"
  "sz_baseTypeEnable (set_port p sz) = sz_baseTypeEnable sz" "sz_isAutoCalcSizeMode (set_port p sz) = sz_isAutoCalcSizeMode sz"
  "sz_isTranslateMode (set_port p sz) = sz_isTranslateMode sz" "sz_useHeader (set_port p sz) = sz_useHeader sz"
  "sz_roundOff (set_port p sz) = sz_roundOff sz" "sz_objInitialOffset (set_port p sz) = sz_objInitialOffset sz"
  "sz_errorOccurred (set_port p sz) = sz_errorOccurred sz" "sz_recoveryJmp (set_port p sz) = sz_recoveryJmp sz"
  "sz_recoveryJmpSet (set_port p sz) = sz_recoveryJmpSet sz" "sz_infos (set_port p sz) = sz_infos sz"
  "sz_rvs (set_port p sz) = sz_rvs sz"
  by (simp_all add: set_port_def)

lemma set_port_update [simp, ser_simps]:
  "(set_port p sz)\<lparr>sz_recoveryJmpSet := b\<rparr> = set_port p (sz\<lparr>sz_recoveryJmpSet := b\<rparr>)"
  "(set_port p sz)\<lparr>sz_recoveryJmp := j\<rparr> = set_port p (sz\<lparr>sz_recoveryJmp := j\<rparr>)"
  "(set_port p sz)\<lparr>sz_numTypeCalls := n\<rparr> = set_port p (sz\<lparr>sz_numTypeCalls := n\<rparr>)"
  "(set_port p sz)\<lparr>sz_baseTypeEnable := b\<rparr> = set_port p (sz\<lparr>sz_baseTypeEnable := b\<rparr>)"
  "(set_port p sz)\<lparr>sz_header := h\<rparr> = set_port p (sz\<lparr>sz_header := h\<rparr>)"
  "(set_port p sz)\<lparr>sz_roundOff := n\<rparr> = set_port p (sz\<lparr>sz_roundOff := n\<rparr>)"
  "(set_port p sz)\<lparr>sz_backOff := n\<rparr> = set_port p (sz\<lparr>sz_backOff := n\<rparr>)"
  "(set_port p sz)\<lparr>sz_objInitialOffset := n\<rparr> = set_port p (sz\<lparr>sz_objInitialOffset := n\<rparr>)"
  by (simp_all add: set_port_def)

lemma port_update [simp, ser_simps]:
  "port (sz\<lparr>sz_recoveryJmpSet := b\<rparr>) = port sz" "port (sz\<lparr>sz_recoveryJmp := j\<rparr>) = port sz"
  "port (sz\<lparr>sz_numTypeCalls := n\<rparr>) = port sz" "port (sz\<lparr>sz_baseTypeEnable := b\<rparr>) = port sz"
  "port (sz\<lparr>sz_header := h\<rparr>) = port sz" "port (sz\<lparr>sz_roundOff := n\<rparr>) = port sz"
  "port (sz\<lparr>sz_backOff := n\<rparr>) = port sz" "port (sz\<lparr>sz_objInitialOffset := n\<rparr>) = port sz"
  "port (sz\<lparr>sz_rvs := w\<rparr>) = port sz" "port (sz\<lparr>sz_infos := i\<rparr>) = port sz"
  by (simp_all add: port_def)

lemma fbind_simps [simp, outcome_simps]:
  "fbind (Ok (Returned r sz)) k = k r sz" "fbind (Ok (Longjmp sz)) k = Ok (Longjmp sz)"
  "fbind Require k = Require" "fbind Fault k = Fault" "fbind Stuck k = Stuck"
  by (simp_all add: fbind_def)

lemma flow_simps [simp, outcome_simps]:
  "lift_flow (Ok sz) = Ok (Returned () sz)"
  "with_value v (Ok (Returned () sz)) = Ok (Returned () (v, sz))"
  "caught f t (Ok (Returned () st)) = Ok (Returned () st)"
  by (simp_all add: lift_flow_def with_value_def caught_def)

subsection \<open>Reversing, and the bytes of a value\<close>

lemma swap_middle:
  "length l = length r \<Longrightarrow>
    swap_element (a @ l @ mid @ r @ b) (length a) (length l) (length l + length mid - 1) = Ok (a @ l @ rev mid @ r @ b)"
proof (induction "length mid" arbitrary: l mid r rule: less_induct)
  case less
  consider "mid = []" | c where "mid = [c]" | c m d where "mid = c # m @ [d]"
    by (cases mid; cases "tl mid" rule: rev_cases) (auto simp: neq_Nil_conv)
  then show ?case
  proof cases
    case 1
    moreover have "\<not> length l < length l - 1" by simp
    ultimately show ?thesis by (subst swap_element.simps) simp
  next
    case 3
    let ?m = "a @ l @ (c # m @ [d]) @ r @ b"
    have i: "?m ! (length a + length l) = c" "?m ! (length a + (length l + Suc (length m))) = d"
      by (simp_all add: nth_append)
    have u: "?m[length a + length l := d, length a + (length l + Suc (length m)) := c] = a @ (l @ [d]) @ m @ (c # r) @ b"
      by (simp add: list_update_append)
    have "swap_element (a @ (l @ [d]) @ m @ (c # r) @ b) (length a) (length (l @ [d])) (length (l @ [d]) + length m - 1)
        = Ok (a @ (l @ [d]) @ rev m @ (c # r) @ b)"
      using less 3 by (intro less.hyps) auto
    then show ?thesis using 3 i u by (subst swap_element.simps) (simp del: append_assoc append.simps)
  qed (simp_all add: swap_element.simps)
qed

fun rev_each :: "nat \<Rightarrow> nat \<Rightarrow> byte list \<Rightarrow> byte list" where
  "rev_each n 0 bs = []"
| "rev_each n (Suc k) bs = rev (take n bs) @ rev_each n k (drop n bs)"

lemma length_rev_each [simp]: "n * k \<le> length bs \<Longrightarrow> length (rev_each n k bs) = n * k"
  by (induction n k bs rule: rev_each.induct) auto

lemma rev_each_append: "n * k \<le> length bs \<Longrightarrow> rev_each n k (bs @ cs) = rev_each n k bs"
  by (induction n k bs rule: rev_each.induct) auto

lemma rev_each_twice: "n * k \<le> length bs \<Longrightarrow> rev_each n k (rev_each n k bs) = take (n * k) bs"
proof (induction n k bs rule: rev_each.induct)
  case (2 n k bs)
  then have l: "n \<le> length bs" "n * k \<le> length (drop n bs)" by auto
  then have "min (length bs) n = n" by simp
  with 2 l show ?case by (simp add: take_add)
qed simp

lemma swap_elements_ok:
  "0 < n \<Longrightarrow> n * k \<le> length bs \<Longrightarrow>
    swap_elements (a @ bs) (length a) n (n - 1) k = Ok (a @ rev_each n k bs @ drop (n * k) bs)"
proof (induction k arbitrary: a bs)
  case (Suc k)
  have l: "n \<le> length bs" "n * k \<le> length (drop n bs)" using Suc.prems by auto
  have "swap_element (a @ [] @ take n bs @ [] @ drop n bs) (length a) 0 (length (take n bs) - 1) =
      Ok (a @ [] @ rev (take n bs) @ [] @ drop n bs)"
    using swap_middle [of "[]" "[]" a "take n bs" "drop n bs"] by simp
  then have e: "swap_element (a @ bs) (length a) 0 (n - 1) = Ok ((a @ rev (take n bs)) @ drop n bs)"
    using l by (simp add: min_absorb2)
  have "swap_elements ((a @ rev (take n bs)) @ drop n bs) (length (a @ rev (take n bs))) n (n - 1) k =
      Ok ((a @ rev (take n bs)) @ rev_each n k (drop n bs) @ drop (n * k) (drop n bs))"
    using Suc.IH [of "drop n bs" "a @ rev (take n bs)"] Suc.prems l by simp
  then show ?case using e l by (simp add: min_absorb2 add.commute)
qed simp

lemma swapBuffer_ok:
  assumes "0 < n" and "n < 2 ^ 32" and "n * k \<le> length bs"
  shows "SerializeFormatBinary_swapBuffer bs n k = Ok (rev_each n k bs @ drop (n * k) bs)"
proof -
  have "nat ((int n - 1) mod 2 ^ 32) = n - 1" using assms(1,2) by (subst mod_pos_pos_trivial) auto
  then show ?thesis using swap_elements_ok [of n k bs "[]"] assms by (simp add: SerializeFormatBinary_swapBuffer_def)
qed

text \<open>KElements in the byte order of the wire, when it is the same as the one in memory or not.\<close>

definition ordered :: "bool \<Rightarrow> nat \<Rightarrow> nat \<Rightarrow> byte list \<Rightarrow> byte list" where
  "ordered same n k bs = (if same then take (n * k) bs else rev_each n k bs)"

text \<open>The length of a string in two bytes.\<close>

lemma short_facts [simp]:
  "short_of h (short_bytes h w) = w" "length (short_bytes h w) = 2"
  "ordered (b = h) 2 (Suc 0) (short_bytes b w) = short_bytes h w"
proof -
  show "short_of h (short_bytes h w) = w"
    by (auto simp: short_of_def short_bytes_def Let_def intro!: bit_word_eqI simp: bit_simps)
qed (auto simp: short_bytes_def ordered_def Let_def numeral_eq_Suc)

lemma word_value: "0 \<le> i \<Longrightarrow> i < 2 ^ 16 \<Longrightarrow> uint (word_of_int i :: 16 word) = i"
  by (simp add: uint_word_of_int)

text \<open>The bytes of a value on the wire: \<open>b\<close> is the byte order of the format, \<open>host\<close> that of the memory.\<close>

definition wire :: "bool \<Rightarrow> bool \<Rightarrow> SerializeType \<Rightarrow> byte list \<Rightarrow> int \<Rightarrow> int \<Rightarrow> byte list" where
  "wire b host type val n len = (case binary_kind type of
     KBytes \<Rightarrow> take (nat (n * len)) val
   | KText \<Rightarrow> short_bytes b (word_of_int (n * len)) @ take (nat (n * len)) val
   | KElements k \<Rightarrow> ordered (b = host) k (nat len) val
   | _ \<Rightarrow> [])"

text \<open>A call that transfers a value: its object is as large as the call says, a string is short.\<close>

definition value_ok :: "SerializeType \<Rightarrow> byte list \<Rightarrow> int \<Rightarrow> int \<Rightarrow> bool" where
  "value_ok type val n len \<longleftrightarrow> n > 0 \<and> len \<ge> 0 \<and> (type = SERIALIZE_TYPE_STRING \<or> len > 0) \<and>
     (case binary_kind type of
        KBytes \<Rightarrow> n * len \<le> int (length val)
      | KText \<Rightarrow> n * len < SERIALIZE_TYPEMAXTEXTLEN_STRING \<and> n * len \<le> int (length val)
      | KElements k \<Rightarrow> int k * len \<le> int (length val)
      | KUnsupported \<Rightarrow> True
      | KNoBranch \<Rightarrow> False)"

subsection \<open>The binary format as the current one\<close>

definition binary_set :: "('s, 'a) ser_env \<Rightarrow> 's ser_formats \<Rightarrow> bool \<Rightarrow> 's Serialize \<Rightarrow> bool" where
  "binary_set V F b sz \<longleftrightarrow> sz_valid sz = SERIALIZE_VALID \<and> sz_format sz \<noteq> 0 \<and> sz_isLittleEndian sz = se_isLittleEndian V \<and>
     (\<exists>info. cells (sz_infos sz) (sz_format sz) = Some info \<and> fi_ops info < length (sf_table F) \<and>
        sf_table F ! fi_ops info = SerializeFormatBinaryOps V \<and> fi_data info = Own (SerializeFormatBinaryEndianFlag b))"

lemma binary_set_port [simp]: "binary_set V F b (set_port p sz) = binary_set V F b sz"
  by (simp add: binary_set_def)

lemma binary_set_simps:
  assumes "binary_set V F b sz"
  shows "with_ops F sz k = k (SerializeFormatBinaryOps V)" "SERIALIZEFORMAT_CHECKENDIANNESS sz = Ok (b \<noteq> se_isLittleEndian V)"
    "valid_serialize sz m = m" "format_set sz m = m" "sz_valid sz = SERIALIZE_VALID" "sz_format sz \<noteq> 0"
  using assms
  by (auto simp: binary_set_def with_ops_def table_at_def SERIALIZEFORMAT_CHECKENDIANNESS_def endian_flag_def valid_serialize_def
      format_set_def)

lemma binary_ops [simp]:
  "indirectBeginType (SerializeFormatBinaryOps V) name type sz = Ok sz"
  "indirectBeginBaseType (SerializeFormatBinaryOps V) name type sz = Ok sz"
  "indirectBeginArray (SerializeFormatBinaryOps V) t name n sz = Ok sz"
  "indirectBeginStructArray (SerializeFormatBinaryOps V) name type n sz = Ok sz"
  "indirectBeginStructArraySeparator (SerializeFormatBinaryOps V) name i n sz = Ok sz"
  "indirectEndStructArraySeparator (SerializeFormatBinaryOps V) name i n sz = Ok sz"
  "indirectEndStructArray (SerializeFormatBinaryOps V) sz = Ok sz"
  "indirectEndArray (SerializeFormatBinaryOps V) t name n sz = Ok sz"
  "indirectEndBaseType (SerializeFormatBinaryOps V) sz = Ok sz"
  "indirectEndType (SerializeFormatBinaryOps V) sz = Ok sz"
  "indirectDoSerialize (SerializeFormatBinaryOps V) = SerializeFormatBinary_doSerialize V"
  by (simp_all add: SerializeFormatBinaryOps_def SerializeFormatBinary_beginType_def SerializeFormatBinary_beginBaseType_def
      SerializeFormatBinary_beginArray_def SerializeFormatBinary_beginStructArray_def SerializeFormatBinary_beginStructArraySeparator_def
      SerializeFormatBinary_endStructArraySeparator_def SerializeFormatBinary_endStructArray_def SerializeFormatBinary_endArray_def
      SerializeFormatBinary_endBaseType_def SerializeFormatBinary_endType_def)

text \<open>A serializer that writes or measures in the binary format.\<close>

definition writer :: "('s, 'a) ser_env \<Rightarrow> 's ser_formats \<Rightarrow> bool \<Rightarrow> 's Serialize \<Rightarrow> bool" where
  "writer V F b sz \<longleftrightarrow> 2 \<le> se_rounds V \<and> binary_set V F b sz \<and> \<not> sz_errorOccurred sz \<and> (sz_mode sz = SERIALIZE_MODE_WRITE \<or> sz_mode sz = SERIALIZE_MODE_CALC)"

lemma writer_port [simp]: "writer V F b (set_port p sz) = writer V F b sz"
  by (simp add: writer_def)

lemma mode_values [simp]:
  "SERIALIZE_MODE_READ \<noteq> SERIALIZE_MODE_WRITE" "SERIALIZE_MODE_READ \<noteq> SERIALIZE_MODE_CALC"
  "SERIALIZE_MODE_WRITE \<noteq> SERIALIZE_MODE_READ" "SERIALIZE_MODE_CALC \<noteq> SERIALIZE_MODE_READ"
  "SERIALIZE_MODE_CALC \<noteq> SERIALIZE_MODE_WRITE" "SERIALIZE_MODE_WRITE \<noteq> SERIALIZE_MODE_CALC"
  by (simp_all add: SERIALIZE_MODE_READ_def SERIALIZE_MODE_WRITE_def SERIALIZE_MODE_CALC_def)

lemma writer_simps:
  assumes "writer V F b sz"
  shows "Serialize_isReading sz = Ok False" "Serialize_isWriting sz = Ok True" "\<not> sz_errorOccurred sz" "binary_set V F b sz"
  using assms by (auto simp: writer_def Serialize_isReading_def Serialize_isWriting_def binary_set_simps)

subsection \<open>Streams that take values\<close>

text \<open>\<open>can k p\<close>: there is space for \<open>k\<close> bytes; \<open>takes bs p p'\<close>: the port has taken the bytes.\<close>

locale ser_sink =
  fixes V :: "('s, 'a) ser_env"
    and can :: "nat \<Rightarrow> 's port \<Rightarrow> bool"
    and takes :: "byte list \<Rightarrow> 's port \<Rightarrow> 's port \<Rightarrow> bool"
  assumes put_law: "can (length bs + k) (port sz) \<Longrightarrow> bs \<noteq> [] \<Longrightarrow>
      \<exists>p. stream_write V bs sz = Ok (int (length bs), set_port p sz) \<and> can k p \<and> takes bs (port sz) p"
    and ok_law: "can k (port sz) \<Longrightarrow> stream_eof sz = Ok False \<and> stream_error sz = Ok False \<and> sz_stream sz \<noteq> NoStream"
    and takes_nothing: "can k p \<Longrightarrow> takes [] p p"
    and takes_more: "takes bs p p' \<Longrightarrow> takes cs p' p'' \<Longrightarrow> takes (bs @ cs) p p''"
begin

lemma deploy_emits:
  assumes "can (length bs + k) (port sz)" and "writer V F b sz" and "take (nat n) val = bs" and "int (length bs) = n"
  shows "\<exists>p. Serialize_deploy V val n sz = Ok ((True, val), set_port p sz) \<and> can k p \<and> takes bs (port sz) p"
proof -
  have w: "sz_valid sz = SERIALIZE_VALID" "\<not> sz_errorOccurred sz" "2 \<le> se_rounds V"
    "sz_mode sz = SERIALIZE_MODE_WRITE \<or> sz_mode sz = SERIALIZE_MODE_CALC"
    using assms(2) by (auto simp: writer_def binary_set_def)
  then obtain r where r: "se_rounds V = Suc (Suc r)" by (cases "se_rounds V"; cases "se_rounds V - 1") auto
  show ?thesis
  proof (cases "bs = []")
    case True
    then have "Serialize_deploy V val n sz = Ok ((True, val), set_port (port sz) sz)"
      using w r assms(4) by (auto simp: Serialize_deploy_def Serialize_deployDataType_def valid_serialize_def)
    then show ?thesis using True assms(1) takes_nothing by (intro exI [of _ "port sz"]) auto
  next
    case False
    obtain p where p: "stream_write V bs sz = Ok (int (length bs), set_port p sz)" "can k p" "takes bs (port sz) p"
      using put_law [OF assms(1) False] by blast
    have ok: "stream_eof (set_port p sz) = Ok False" "stream_error (set_port p sz) = Ok False" using ok_law [of k "set_port p sz"] p(2) by auto
    have "length bs \<le> length val" using assms(3) by auto
    then have "0 < n" "n \<le> int (length val)" using False assms(4) by auto
    then have "deploy_write (se_rounds V) V val n 0 sz = Ok (set_port p sz)"
      using r p(1) ok assms(3,4) by (simp add: transfer_broken_def)
    then have "Serialize_deploy V val n sz = Ok ((True, val), set_port p sz)"
      using w by (auto simp: Serialize_deploy_def Serialize_deployDataType_def valid_serialize_def)
    with p show ?thesis by blast
  qed
qed

lemma write_swapped_emits:
  "writer V F b sz \<Longrightarrow> 0 < n \<Longrightarrow> n < 2 ^ 32 \<Longrightarrow> n * c \<le> length val \<Longrightarrow> can (n * c + k) (port sz) \<Longrightarrow>
    \<exists>p. write_swapped V n val c sz = Ok (set_port p sz) \<and> can k p \<and> takes (rev_each n c val) (port sz) p"
proof (induction c arbitrary: val sz)
  case 0
  then show ?case using takes_nothing [of k "port sz"] by (intro exI [of _ "port sz"]) simp
next
  case (Suc c)
  have l: "n \<le> length val" "n * c \<le> length (drop n val)" using Suc.prems(4) by auto
  have swap: "SerializeFormatBinary_swapBuffer (take n val) n 1 = Ok (rev (take n val))"
    using swapBuffer_ok [of n 1 "take n val"] Suc.prems(2,3) l by (simp add: min_absorb2)
  have "can (length (rev (take n val)) + (n * c + k)) (port sz)" using Suc.prems(5) l by (simp add: min_absorb2 algebra_simps)
  then obtain p where p: "Serialize_deploy V (rev (take n val)) (int n) sz = Ok ((True, rev (take n val)), set_port p sz)"
    "can (n * c + k) p" "takes (rev (take n val)) (port sz) p"
    using deploy_emits [of "rev (take n val)" "n * c + k" sz F b "int n" "rev (take n val)"] Suc.prems(1) l by (auto simp: min_absorb2)
  obtain q where "write_swapped V n (drop n val) c (set_port p sz) = Ok (set_port q (set_port p sz))" "can k q"
    "takes (rev_each n c (drop n val)) (port (set_port p sz)) q"
    using Suc.IH [of "set_port p sz" "drop n val"] Suc.prems l(2) p(2) by auto
  then show ?case using p takes_more [OF p(3)] swap l by (intro exI [of _ q]) simp
qed

lemma generic_emits:
  assumes "writer V F b sz" and "0 < n" and "n < 2 ^ 32" and "0 \<le> len" and "n * nat len \<le> length val"
    and "can (n * nat len + k) (port sz)"
  shows "\<exists>p. SERIALIZE_GENERICTYPE V n val len sz = Ok (val, set_port p sz) \<and> can k p \<and>
    takes (ordered (b = se_isLittleEndian V) n (nat len) val) (port sz) p"
proof (cases "b = se_isLittleEndian V")
  case True
  have "length (take (n * nat len) val) = n * nat len" using assms(5) by simp
  moreover have "nat (int n * len) = n * nat len" using assms(4) by (simp add: nat_mult_distrib)
  ultimately have "can (length (take (n * nat len) val) + k) (port sz)" "take (nat (int n * len)) val = take (n * nat len) val"
    "int (length (take (n * nat len) val)) = int n * len"
    using assms(4,6) by auto
  from deploy_emits [OF this(1) assms(1) this(2,3)] obtain p where
    "Serialize_deploy V val (int n * len) sz = Ok ((True, val), set_port p sz)" "can k p" "takes (take (n * nat len) val) (port sz) p"
    by blast
  then show ?thesis using True writer_simps [OF assms(1)] binary_set_simps(2) [of V F b sz]
    by (auto simp: SERIALIZE_GENERICTYPE_def ordered_def)
next
  case False
  obtain p where "write_swapped V n val (nat len) sz = Ok (set_port p sz)" "can k p" "takes (rev_each n (nat len) val) (port sz) p"
    using write_swapped_emits [OF assms(1-3,5,6)] by blast
  then show ?thesis using False writer_simps [OF assms(1)] binary_set_simps(2) [of V F b sz]
    by (auto simp: SERIALIZE_GENERICTYPE_def ordered_def)
qed

lemma string_emits:
  assumes "writer V F b sz" and "n > 0" and "len \<ge> 0" and "n * len < SERIALIZE_TYPEMAXTEXTLEN_STRING" and "n * len \<le> int (length val)"
    and "can (2 + nat (n * len) + k) (port sz)"
  shows "\<exists>p. serialize_string V val n len sz = Ok (val, set_port p sz) \<and> can k p \<and>
    takes (short_bytes b (word_of_int (n * len)) @ take (nat (n * len)) val) (port sz) p"
proof -
  let ?h = "se_isLittleEndian V"
  define w where "w = (word_of_int (n * len) :: 16 word)"
  have r: "0 \<le> n * len" "n * len < 2 ^ 16" using assms(2-4) by (simp_all add: SERIALIZE_TYPEMAXTEXTLEN_STRING_def)
  have w: "uint w = n * len" unfolding w_def using word_value [OF r] .
  have o: "ordered (b = ?h) 2 (Suc 0) (short_bytes ?h w) = short_bytes b w"
    using short_facts(3) [of ?h b w] by (simp add: eq_commute)
  obtain p where p: "SERIALIZE_GENERICTYPE V 2 (short_bytes ?h w) 1 sz = Ok (short_bytes ?h w, set_port p sz)"
    "can (nat (n * len) + k) p" "takes (short_bytes b w) (port sz) p"
    using generic_emits [OF assms(1), of 2 1 "short_bytes ?h w" "nat (n * len) + k"] assms(6) o by (auto simp: add.assoc)
  show ?thesis
  proof (cases "n * len = 0")
    case True
    then have w0: "w = 0" using w by (metis uint_0_iff)
    have "serialize_string V val n len sz = Ok (val, set_port p sz)"
      using p(1) short_facts(1) [of ?h w] unfolding serialize_string_def Let_def w_def [symmetric] w0 by (simp add: SERIALIZE_TYPEMAXTEXTLEN_STRING_def)
    with p(2,3) show ?thesis unfolding w_def [symmetric] unfolding True
      by - (rule exI [of _ p], simp)
  next
    case False
    then have pos: "0 < w" using w by (metis word_greater_zero_iff unsigned_0 )
    have "int (length (take (nat (n * len)) val)) = n * len" using assms(5) r by auto
    moreover have "can (length (take (nat (n * len)) val) + k) (port (set_port p sz))" using p(2) calculation by auto
    moreover have "writer V F b (set_port p sz)" using assms(1) by simp
    ultimately obtain q where q: "Serialize_deploy V val (n * len) (set_port p sz) = Ok ((True, val), set_port q (set_port p sz))"
      "can k q" "takes (take (nat (n * len)) val) (port (set_port p sz)) q"
      using deploy_emits [of "take (nat (n * len)) val" k "set_port p sz" F b "n * len" val] by auto
    then have "serialize_string V val n len sz = Ok (val, set_port q sz)"
      using p(1) short_facts(1) [of ?h w] w pos assms(4) writer_simps(1) [of V F b "set_port q sz"] assms(1)
      unfolding serialize_string_def Let_def w_def [symmetric] by simp
    with q(2,3) takes_more [OF p(3), of _ q] show ?thesis unfolding w_def [symmetric]
      by - (rule exI [of _ q], simp)
  qed
qed

text \<open>Every transfer of a value emits its bytes and leaves the value as it is.\<close>

lemma value_emits:
  assumes "writer V F b sz" and "value_ok type val n len"
    and "can (length (wire b (se_isLittleEndian V) type val n len) + k) (port sz)"
  shows "\<exists>p. SerializeFormatBinary_doSerialize V type name val n len sz = Ok (val, set_port p sz) \<and> can k p \<and>
    takes (wire b (se_isLittleEndian V) type val n len) (port sz) p"
proof -
  have v: "n > 0" "len \<ge> 0" "type = SERIALIZE_TYPE_STRING \<or> len > 0" using assms(2) by (auto simp: value_ok_def)
  show ?thesis
  proof (cases "binary_kind type")
    case KBytes
    then have l: "n * len \<le> int (length val)" using assms(2) by (simp add: value_ok_def)
    then have "int (length (take (nat (n * len)) val)) = n * len" using v by auto
    moreover have "can (length (take (nat (n * len)) val) + k) (port sz)" using assms(3) KBytes by (simp add: wire_def)
    ultimately obtain p where "Serialize_deploy V val (n * len) sz = Ok ((True, val), set_port p sz)" "can k p"
      "takes (take (nat (n * len)) val) (port sz) p"
      using deploy_emits [OF _ assms(1) refl] by blast
    then show ?thesis using KBytes v by (auto simp: SerializeFormatBinary_doSerialize_def wire_def)
  next
    case KText
    then have l: "n * len < SERIALIZE_TYPEMAXTEXTLEN_STRING" "n * len \<le> int (length val)" using assms(2) by (auto simp: value_ok_def)
    moreover have "length (wire b (se_isLittleEndian V) type val n len) = 2 + nat (n * len)"
      using l(2) KText by (simp add: wire_def short_bytes_def Let_def)
    ultimately show ?thesis
      using string_emits [OF assms(1) v(1,2), of val k] assms(3) v KText by (auto simp: SerializeFormatBinary_doSerialize_def wire_def)
  next
    case (KElements e)
    then have e: "0 < e" "e < 2 ^ 32" by (auto simp: binary_kind_def split: if_splits)
    have "int (e * nat len) \<le> int (length val)" using assms(2) KElements v by (simp add: value_ok_def)
    then have "e * nat len \<le> length val" by (metis of_nat_le_iff)
    moreover from this have "length (wire b (se_isLittleEndian V) type val n len) = e * nat len"
      using KElements by (simp add: wire_def ordered_def)
    ultimately show ?thesis
      using generic_emits [OF assms(1) e v(2), of val k] assms(3) v KElements
      by (auto simp: SerializeFormatBinary_doSerialize_def wire_def)
  next
    case KUnsupported
    then show ?thesis using assms(3) takes_nothing v
      by (intro exI [of _ "port sz"]) (auto simp: SerializeFormatBinary_doSerialize_def wire_def)
  next
    case KNoBranch
    then show ?thesis using assms(2) by (simp add: value_ok_def)
  qed
qed

end

subsection \<open>Streams that deliver values\<close>

definition reader :: "('s, 'a) ser_env \<Rightarrow> 's ser_formats \<Rightarrow> bool \<Rightarrow> 's Serialize \<Rightarrow> bool" where
  "reader V F b sz \<longleftrightarrow> 2 \<le> se_rounds V \<and> binary_set V F b sz \<and> \<not> sz_errorOccurred sz \<and> sz_mode sz = SERIALIZE_MODE_READ"

lemma reader_simps:
  assumes "reader V F b sz"
  shows "Serialize_isReading sz = Ok True" "Serialize_isWriting sz = Ok False" "\<not> sz_errorOccurred sz" "binary_set V F b sz"
  using assms by (auto simp: reader_def Serialize_isReading_def Serialize_isWriting_def binary_set_simps)

lemma reader_port [simp]: "reader V F b (set_port p sz) = reader V F b sz"
  by (simp add: reader_def)

text \<open>What the memory of the reader holds after the transfer of a value: \<open>same\<close> tells that both sides have the same byte
  order, \<open>buf\<close> is the memory before. A string is cut off at the length that the reader expects.\<close>

definition put :: "nat \<Rightarrow> byte list \<Rightarrow> byte list \<Rightarrow> byte list" where
  "put k bs buf = take k bs @ drop k buf"

definition delivered :: "bool \<Rightarrow> SerializeType \<Rightarrow> byte list \<Rightarrow> byte list \<Rightarrow> int \<Rightarrow> int \<Rightarrow> byte list" where
  "delivered same type val buf n len = (case binary_kind type of
     KBytes \<Rightarrow> put (nat (n * len)) val buf
   | KText \<Rightarrow> (if n * len = 0 then buf else (put (nat (n * len)) val buf)[nat (n * len) - 1 := 0])
   | KElements k \<Rightarrow> put (k * nat len) (ordered same k (nat len) val) buf
   | _ \<Rightarrow> buf)"

lemma rev_each_take: "n * k \<le> length bs \<Longrightarrow> rev_each n k (take (n * k) bs) = rev_each n k bs"
  using rev_each_append [of n k "take (n * k) bs" "drop (n * k) bs"] by simp

lemma ordered_ordered:
  fixes b h h' :: bool
  shows "n * k \<le> length bs \<Longrightarrow> ordered (b = h) n k (ordered (b = h') n k bs) = ordered (h' = h) n k bs"
  by (cases b; cases h; cases h') (auto simp: ordered_def rev_each_take rev_each_twice)

lemma length_ordered [simp]: "n * k \<le> length bs \<Longrightarrow> length (ordered s n k bs) = n * k"
  by (simp add: ordered_def)

text \<open>\<open>gives bs p\<close>: the port goes on to deliver \<open>bs\<close>.\<close>

locale ser_source =
  fixes V :: "('s, 'a) ser_env"
    and gives :: "byte list \<Rightarrow> 's port \<Rightarrow> bool"
  assumes get_law: "gives (bs @ rest) (port sz) \<Longrightarrow> bs \<noteq> [] \<Longrightarrow>
      \<exists>p. stream_read V (int (length bs)) sz = Ok ((int (length bs), bs), set_port p sz) \<and> gives rest p"
    and ok_law: "gives bs (port sz) \<Longrightarrow> stream_eof sz = Ok False \<and> stream_error sz = Ok False \<and> sz_stream sz \<noteq> NoStream"
begin

lemma deploy_gets:
  assumes "gives (bs @ rest) (port sz)" and "reader V F b sz" and "length bs \<le> length val" and "int (length bs) = n"
  shows "\<exists>p. Serialize_deploy V val n sz = Ok ((True, bs @ drop (length bs) val), set_port p sz) \<and> gives rest p"
proof -
  have w: "sz_valid sz = SERIALIZE_VALID" "\<not> sz_errorOccurred sz" "2 \<le> se_rounds V" "sz_mode sz = SERIALIZE_MODE_READ"
    using assms(2) by (auto simp: reader_def binary_set_def)
  then obtain r where r: "se_rounds V = Suc (Suc r)" by (cases "se_rounds V"; cases "se_rounds V - 1") auto
  show ?thesis
  proof (cases "bs = []")
    case True
    then have "Serialize_deploy V val n sz = Ok ((True, val), set_port (port sz) sz)"
      using w r assms(4) by (auto simp: Serialize_deploy_def Serialize_deployDataType_def valid_serialize_def)
    then show ?thesis using True assms(1) by (intro exI [of _ "port sz"]) auto
  next
    case False
    obtain p where p: "stream_read V n sz = Ok ((n, bs), set_port p sz)" "gives rest p"
      using get_law [OF assms(1) False] assms(4) by auto
    have ok: "stream_eof (set_port p sz) = Ok False" "stream_error (set_port p sz) = Ok False"
      using ok_law [of rest "set_port p sz"] p(2) by auto
    have "0 < n" using False assms(4) by auto
    then have "deploy_read (se_rounds V) V val n 0 sz = Ok (bs @ drop (length bs) val, set_port p sz)"
      using r p(1) ok assms(3) by (simp add: transfer_broken_def copy_at_def)
    then have "Serialize_deploy V val n sz = Ok ((True, bs @ drop (length bs) val), set_port p sz)"
      using w by (auto simp: Serialize_deploy_def Serialize_deployDataType_def valid_serialize_def)
    with p show ?thesis by blast
  qed
qed

lemma generic_gets:
  assumes "gives (bs @ rest) (port sz)" and "reader V F b sz" and "0 < n" and "n < 2 ^ 32" and "0 \<le> len"
    and "length bs = n * nat len" and "n * nat len \<le> length val"
  shows "\<exists>p. SERIALIZE_GENERICTYPE V n val len sz =
      Ok (ordered (b = se_isLittleEndian V) n (nat len) bs @ drop (n * nat len) val, set_port p sz) \<and> gives rest p"
proof -
  have l: "int (length bs) = int n * len" using assms(5,6) by simp
  obtain p where p: "Serialize_deploy V val (int n * len) sz = Ok ((True, bs @ drop (length bs) val), set_port p sz)" "gives rest p"
    using deploy_gets [OF assms(1,2) _ l, of val] assms(6,7) by fastforce
  have "SerializeFormatBinary_swapBuffer (bs @ drop (length bs) val) n (nat len) = Ok (rev_each n (nat len) bs @ drop (n * nat len) val)"
    using swapBuffer_ok [OF assms(3,4), of "nat len" "bs @ drop (length bs) val"] assms(6) by (simp add: rev_each_append)
  then show ?thesis using p l assms(6) reader_simps [OF assms(2)] reader_simps [of V F b "set_port p sz"] assms(2)
    by (cases "b = se_isLittleEndian V")
      (auto simp: SERIALIZE_GENERICTYPE_def ordered_def binary_set_simps [of V F b "set_port p sz"])
qed

lemma string_gets:
  assumes "gives ((short_bytes b (word_of_int (n * len)) @ bs) @ rest) (port sz)" and "reader V F b sz" and "n > 0" and "len \<ge> 0"
    and "n * len < SERIALIZE_TYPEMAXTEXTLEN_STRING" and "n * len \<le> int (length val)" and "int (length bs) = n * len"
  shows "\<exists>p. serialize_string V val n len sz =
      Ok (if n * len = 0 then val else (put (nat (n * len)) bs val)[nat (n * len) - 1 := 0], set_port p sz) \<and> gives rest p"
proof -
  let ?h = "se_isLittleEndian V"
  define w where "w = (word_of_int (n * len) :: 16 word)"
  have r: "0 \<le> n * len" "n * len < 2 ^ 16" using assms(3-5) by (simp_all add: SERIALIZE_TYPEMAXTEXTLEN_STRING_def)
  have w: "uint w = n * len" unfolding w_def using word_value [OF r] .
  have g: "gives (short_bytes b w @ (bs @ rest)) (port sz)" using assms(1) unfolding w_def by simp
  have "\<exists>p. SERIALIZE_GENERICTYPE V 2 (short_bytes ?h w) 1 sz =
      Ok (ordered (b = ?h) 2 (nat 1) (short_bytes b w) @ drop (2 * nat 1) (short_bytes ?h w), set_port p sz) \<and> gives (bs @ rest) p"
    by (rule generic_gets [OF g assms(2)]) simp_all
  then obtain p where p: "SERIALIZE_GENERICTYPE V 2 (short_bytes ?h w) 1 sz = Ok (short_bytes ?h w, set_port p sz)" "gives (bs @ rest) p"
    by auto
  show ?thesis
  proof (cases "n * len = 0")
    case True
    then have w0: "w = 0" using w by (metis uint_0_iff)
    have "serialize_string V val n len sz = Ok (val, set_port p sz)"
      using p(1) short_facts(1) [of ?h w] unfolding serialize_string_def Let_def w_def [symmetric] w0
      by (simp add: SERIALIZE_TYPEMAXTEXTLEN_STRING_def)
    moreover have "gives rest p" using p(2) assms(7) True by simp
    ultimately show ?thesis using True by auto
  next
    case False
    then have pos: "0 < w" using w by (metis word_greater_zero_iff unsigned_0)
    have l: "length bs \<le> length val" "nat (n * len) = length bs" "unat w = length bs" "bs \<noteq> []"
      using assms(6,7) False w by (auto simp: unat_eq_nat_uint)
    have "gives (bs @ rest) (port (set_port p sz))" "reader V F b (set_port p sz)" using p(2) assms(2) by simp_all
    from deploy_gets [OF this l(1) assms(7)] obtain q where
      q: "Serialize_deploy V val (n * len) (set_port p sz) = Ok ((True, bs @ drop (length bs) val), set_port q (set_port p sz))" "gives rest q"
      by blast
    have "serialize_string V val n len sz = Ok ((bs @ drop (length bs) val)[length bs - 1 := 0], set_port q sz)"
      using p(1) q(1) short_facts(1) [of ?h w] w pos assms(5) l reader_simps(1) [of V F b "set_port q sz"] assms(2)
      unfolding serialize_string_def Let_def w_def [symmetric] by simp
    with q(2) False l(2) show ?thesis by (auto simp: put_def)
  qed
qed

text \<open>Every transfer of a value consumes its bytes and delivers the value.\<close>

lemma value_gets:
  assumes "gives (wire b h type val n len @ rest) (port sz)" and "reader V F b sz" and "value_ok type val n len"
    and "value_ok type buf n len"
  shows "\<exists>p. SerializeFormatBinary_doSerialize V type name buf n len sz =
      Ok (delivered (h = se_isLittleEndian V) type val buf n len, set_port p sz) \<and> gives rest p"
proof -
  have v: "n > 0" "len \<ge> 0" "type = SERIALIZE_TYPE_STRING \<or> len > 0" using assms(3) by (auto simp: value_ok_def)
  show ?thesis
  proof (cases "binary_kind type")
    case KBytes
    then have l: "n * len \<le> int (length val)" "n * len \<le> int (length buf)" using assms(3,4) by (simp_all add: value_ok_def)
    then have "int (length (take (nat (n * len)) val)) = n * len" "length (take (nat (n * len)) val) \<le> length buf" using v by auto
    moreover have "gives (take (nat (n * len)) val @ rest) (port sz)" using assms(1) KBytes by (simp add: wire_def)
    ultimately have "\<exists>p. Serialize_deploy V buf (n * len) sz =
        Ok ((True, take (nat (n * len)) val @ drop (length (take (nat (n * len)) val)) buf), set_port p sz) \<and> gives rest p"
      using deploy_gets assms(2) by blast
    moreover have "length (take (nat (n * len)) val) = nat (n * len)" using l(1) by auto
    ultimately show ?thesis using KBytes v by (auto simp: SerializeFormatBinary_doSerialize_def delivered_def put_def)
  next
    case KText
    then have l: "n * len < SERIALIZE_TYPEMAXTEXTLEN_STRING" "n * len \<le> int (length val)" "n * len \<le> int (length buf)"
      using assms(3,4) by (auto simp: value_ok_def)
    then have "int (length (take (nat (n * len)) val)) = n * len" using v by auto
    moreover have "gives ((short_bytes b (word_of_int (n * len)) @ take (nat (n * len)) val) @ rest) (port sz)"
      using assms(1) KText by (simp add: wire_def)
    ultimately show ?thesis
      using string_gets [OF _ assms(2) v(1,2) l(1,3)] KText v by (auto simp: SerializeFormatBinary_doSerialize_def delivered_def put_def)
  next
    case (KElements e)
    then have e: "0 < e" "e < 2 ^ 32" by (auto simp: binary_kind_def split: if_splits)
    have "int (e * nat len) \<le> int (length val)" "int (e * nat len) \<le> int (length buf)"
      using assms(3,4) KElements v by (simp_all add: value_ok_def)
    then have l: "e * nat len \<le> length val" "e * nat len \<le> length buf" by (metis of_nat_le_iff)+
    have "gives (ordered (b = h) e (nat len) val @ rest) (port sz)" using assms(1) KElements by (simp add: wire_def)
    from generic_gets [OF this assms(2) e v(2) length_ordered [OF l(1)] l(2)] l(1) KElements v
    show ?thesis by (auto simp: SerializeFormatBinary_doSerialize_def delivered_def put_def ordered_ordered)
  next
    case KUnsupported
    then show ?thesis using assms(1) v
      by (intro exI [of _ "port sz"]) (auto simp: SerializeFormatBinary_doSerialize_def wire_def delivered_def)
  next
    case KNoBranch
    then show ?thesis using assms(3) by (simp add: value_ok_def)
  qed
qed

end

end
