(* ===== verification/Ser_Programs.thy ===== *)
theory Ser_Programs
  imports Ser_Contents
begin

text \<open>
  Functions of the user inside of an object, in the binary format. The locale \<open>carrier\<close> is the contract under which
  one function runs like any other: as long as the port owes the bytes of its values, each transfer moves the bytes
  of its value. Over it every function is shown to move the bytes of its values in their order and to leave the object as
  it was, up to the port and the fields for recovery; types, base types and arrays of structures leave no trace.
\<close>

subsection \<open>Values of a function\<close>

text \<open>Type, name, memory, size and length of a value.\<close>

type_synonym leaf = "SerializeType \<times> byte list \<times> byte list \<times> int \<times> int"

primrec leaves :: "ser_prog \<Rightarrow> leaf list" where
  "leaves (TypeFn name type body) = concat (map leaves body)"
| "leaves (BaseTypeFn name type body) = concat (map leaves body)"
| "leaves (Value type name val n len) = [(type, name, val, n, len)]"
| "leaves (StructArray name type n body) = concat (map leaves body)"

definition c_string :: "byte list \<Rightarrow> bool" where
  "c_string s \<longleftrightarrow> s \<noteq> [] \<and> hd s \<noteq> 0"

lemma c_string_required [simp]: "c_string s \<Longrightarrow> SERIALIZE_REQUIRE_STRING s k = k"
  by (cases s) (simp_all add: c_string_def SERIALIZE_REQUIRE_STRING_def)

text \<open>No name and no type name is empty, and arrays of structures are as long as they say.\<close>

primrec named :: "ser_prog \<Rightarrow> bool" where
  "named (TypeFn name type body) \<longleftrightarrow> c_string name \<and> c_string type \<and> (\<forall>x \<in> set (map named body). x)"
| "named (BaseTypeFn name type body) \<longleftrightarrow> c_string name \<and> c_string type \<and> (\<forall>x \<in> set (map named body). x)"
| "named (Value type name val n len) \<longleftrightarrow> c_string name"
| "named (StructArray name type n body) \<longleftrightarrow> c_string name \<and> c_string type \<and> n = int (length body) \<and> (\<forall>x \<in> set (map named body). x)"

text \<open>The values move the bytes \<open>bs\<close> and end as \<open>outs\<close>.\<close>

primrec moves :: "(leaf \<Rightarrow> byte list \<Rightarrow> byte list \<Rightarrow> bool) \<Rightarrow> leaf list \<Rightarrow> byte list \<Rightarrow> byte list list \<Rightarrow> bool" where
  "moves M [] bs outs \<longleftrightarrow> bs = [] \<and> outs = []"
| "moves M (l # ls) bs outs \<longleftrightarrow> (\<exists>b bs' out outs'. bs = b @ bs' \<and> outs = out # outs' \<and> M l b out \<and> moves M ls bs' outs')"

lemma moves_append:
  "moves M (xs @ ys) bs outs \<longleftrightarrow> (\<exists>b1 b2 o1 o2. bs = b1 @ b2 \<and> outs = o1 @ o2 \<and> moves M xs b1 o1 \<and> moves M ys b2 o2)"
proof (induction xs arbitrary: bs outs)
  case (Cons x xs)
  show ?case
  proof
    assume "moves M ((x # xs) @ ys) bs outs"
    then obtain b b1 b2 out o1 o2 where "bs = (b @ b1) @ b2" "outs = (out # o1) @ o2" "M x b out" "moves M xs b1 o1" "moves M ys b2 o2"
      by (auto simp: Cons.IH)
    then show "\<exists>b1 b2 o1 o2. bs = b1 @ b2 \<and> outs = o1 @ o2 \<and> moves M (x # xs) b1 o1 \<and> moves M ys b2 o2"
      by - (rule exI [of _ "b @ b1"], rule exI [of _ b2], rule exI [of _ "out # o1"], rule exI [of _ o2], auto)
  next
    assume "\<exists>b1 b2 o1 o2. bs = b1 @ b2 \<and> outs = o1 @ o2 \<and> moves M (x # xs) b1 o1 \<and> moves M ys b2 o2"
    then obtain b b1 b2 out o1 o2 where "bs = b @ (b1 @ b2)" "outs = out # (o1 @ o2)" "M x b out" "moves M xs b1 o1" "moves M ys b2 o2"
      by auto
    moreover from this have "moves M (xs @ ys) (b1 @ b2) (o1 @ o2)" unfolding Cons.IH by blast
    ultimately show "moves M ((x # xs) @ ys) bs outs" unfolding append_Cons moves.simps by blast
  qed
qed simp

subsection \<open>What a run leaves alone\<close>

text \<open>An object is open, or no header is used at all because formats are being translated.\<close>

definition inside :: "'s Serialize \<Rightarrow> bool" where
  "inside sz \<longleftrightarrow> sz_numTypeCalls sz > 0 \<or> (sz_numTypeCalls sz \<ge> 0 \<and> sz_isTranslateMode sz)"

definition settled :: "'s Serialize \<Rightarrow> 's port \<Rightarrow> 's Serialize \<Rightarrow> bool" where
  "settled sz p sz' \<longleftrightarrow> (\<exists>j s e. sz' = set_port p (sz\<lparr>sz_recoveryJmp := j, sz_recoveryJmpSet := s, sz_baseTypeEnable := e\<rparr>))"

lemma settledI: "sz' = set_port p (sz\<lparr>sz_recoveryJmp := j, sz_recoveryJmpSet := s, sz_baseTypeEnable := e\<rparr>) \<Longrightarrow> settled sz p sz'"
  unfolding settled_def by blast

lemma settled_refl: "settled sz (port sz) sz"
  by (rule settledI [where j = "sz_recoveryJmp sz" and s = "sz_recoveryJmpSet sz" and e = "sz_baseTypeEnable sz"])
    (cases sz, simp add: set_port_def port_def)

lemma settled_set_port: "settled sz p (set_port p sz)"
  by (rule settledI [where j = "sz_recoveryJmp sz" and s = "sz_recoveryJmpSet sz" and e = "sz_baseTypeEnable sz"])
    (cases sz, simp add: set_port_def)

lemma settled_port: "settled sz p sz' \<Longrightarrow> port sz' = p"
  unfolding settled_def by auto

lemma settled_fields:
  assumes "settled sz p sz'"
  shows "sz_numTypeCalls sz' = sz_numTypeCalls sz" "sz_isTranslateMode sz' = sz_isTranslateMode sz" "inside sz' = inside sz"
  using assms unfolding settled_def inside_def by auto

lemma settled_trans: "settled sz p sz' \<Longrightarrow> settled sz' q sz'' \<Longrightarrow> settled sz q sz''"
  unfolding settled_def by (cases sz) (auto simp: set_port_def)

lemma settled_recovery: "settled (set_recovery frame sz) p sz' \<Longrightarrow> settled sz p sz'"
  unfolding settled_def set_recovery_def by (cases sz) (auto simp: set_port_def split: if_splits)

lemma settled_set_recovery: "settled sz (port sz) (set_recovery frame sz)"
proof (cases "sz_recoveryJmpSet sz")
  case True
  then show ?thesis using settled_refl [of sz] by (simp add: set_recovery_def)
next
  case False
  then show ?thesis
    by (intro settledI [where j = frame and s = True and e = "sz_baseTypeEnable sz"])
      (cases sz, simp add: set_recovery_def set_port_def port_def)
qed

lemma inside_enable [simp]: "inside (sz\<lparr>sz_baseTypeEnable := e\<rparr>) = inside sz"
  by (simp add: inside_def)

lemma inside_more: "inside sz \<Longrightarrow> k = sz_numTypeCalls sz \<Longrightarrow> inside (sz\<lparr>sz_numTypeCalls := k + 1\<rparr>)"
  by (auto simp: inside_def)

lemma settled_enable: "settled (sz\<lparr>sz_baseTypeEnable := e\<rparr>) p sz' \<Longrightarrow> settled sz p sz'"
  unfolding settled_def by (cases sz) (auto simp: set_port_def)

text \<open>Between begin and end the number of open types is one higher.\<close>

lemma settled_nested:
  assumes "settled (sz\<lparr>sz_numTypeCalls := k + 1\<rparr>) p sz'" and "k = sz_numTypeCalls sz"
  shows "settled sz p (sz'\<lparr>sz_numTypeCalls := k\<rparr>)"
  using assms unfolding settled_def by (cases sz) (auto simp: set_port_def)

lemma settled_close:
  "settled sz p sz' \<Longrightarrow> settled sz p (sz'\<lparr>sz_recoveryJmpSet := s\<rparr>)"
  "settled sz p sz' \<Longrightarrow> settled sz p (sz'\<lparr>sz_baseTypeEnable := e\<rparr>)"
  unfolding settled_def by (cases sz, auto simp: set_port_def)+

subsection \<open>Functions that move bytes\<close>

definition conveys :: "('s Serialize \<Rightarrow> bool) \<Rightarrow> (byte list \<Rightarrow> 's port \<Rightarrow> bool) \<Rightarrow> byte list \<Rightarrow> byte list list \<Rightarrow>
    ('s ser_run \<Rightarrow> (unit, 's ser_run) flow outcome) \<Rightarrow> bool" where
  "conveys alive owes bs outs f \<longleftrightarrow> (\<forall>r rest. alive (rn_sz r) \<longrightarrow> inside (rn_sz r) \<longrightarrow> owes (bs @ rest) (port (rn_sz r)) \<longrightarrow>
     (\<exists>r' p. f r = Ok (Returned () r') \<and> settled (rn_sz r) p (rn_sz r') \<and> owes rest p \<and> rn_values r' = rn_values r @ outs))"

lemma conveysI:
  assumes "\<And>r rest. alive (rn_sz r) \<Longrightarrow> inside (rn_sz r) \<Longrightarrow> owes (bs @ rest) (port (rn_sz r)) \<Longrightarrow>
     \<exists>r' p. f r = Ok (Returned () r') \<and> settled (rn_sz r) p (rn_sz r') \<and> owes rest p \<and> rn_values r' = rn_values r @ outs"
  shows "conveys alive owes bs outs f"
  using assms unfolding conveys_def by blast

lemma conveysD:
  assumes "conveys alive owes bs outs f" and "alive (rn_sz r)" and "inside (rn_sz r)" and "owes (bs @ rest) (port (rn_sz r))"
  obtains r' p where "f r = Ok (Returned () r')" "settled (rn_sz r) p (rn_sz r')" "owes rest p" "rn_values r' = rn_values r @ outs"
  using assms unfolding conveys_def by blast

locale carrier =
  fixes V :: "('s, 'a) ser_env"
    and F :: "'s ser_formats"
    and b :: bool
    and alive :: "'s Serialize \<Rightarrow> bool"
    and owes :: "byte list \<Rightarrow> 's port \<Rightarrow> bool"
    and M :: "leaf \<Rightarrow> byte list \<Rightarrow> byte list \<Rightarrow> bool"
  assumes alive_law: "alive sz \<Longrightarrow> binary_set V F b sz \<and> \<not> sz_errorOccurred sz"
    and alive_keeps: "alive sz \<Longrightarrow> alive (set_port p (sz\<lparr>sz_recoveryJmp := j, sz_recoveryJmpSet := s, sz_baseTypeEnable := e,
      sz_numTypeCalls := k\<rparr>))"
    and calm_law: "owes bs (port sz) \<Longrightarrow> stream_eof sz = Ok False \<and> sz_stream sz \<noteq> NoStream"
    and value_law: "alive sz \<Longrightarrow> owes (bs @ rest) (port sz) \<Longrightarrow> M (type, name, val, n, len) bs out \<Longrightarrow>
      \<exists>p. SerializeFormatBinary_doSerialize V type name val n len sz = Ok (out, set_port p sz) \<and> owes rest p"
begin

lemma skip_none:
  "alive sz \<Longrightarrow> owes bs (port sz) \<Longrightarrow> SERIALIZE_SKIPIFERROR sz = Ok (Returned () sz)"
  using alive_law [of sz] calm_law [of bs sz] by (simp add: SERIALIZE_SKIPIFERROR_def)

lemma alive_settled: "alive sz \<Longrightarrow> settled sz p sz' \<Longrightarrow> alive sz'"
  using alive_keeps [of sz p, where k = "sz_numTypeCalls sz"] unfolding settled_def by (cases sz) auto

lemma alive_num: "alive sz \<Longrightarrow> alive (sz\<lparr>sz_numTypeCalls := k\<rparr>)"
  using alive_keeps [of sz "port sz", where j = "sz_recoveryJmp sz" and s = "sz_recoveryJmpSet sz" and e = "sz_baseTypeEnable sz"]
  by (cases sz) (simp add: set_port_def port_def)

lemma alive_enable: "alive sz \<Longrightarrow> alive (sz\<lparr>sz_baseTypeEnable := e\<rparr>)"
  using alive_keeps [of sz "port sz", where j = "sz_recoveryJmp sz" and s = "sz_recoveryJmpSet sz" and k = "sz_numTypeCalls sz"]
  by (cases sz) (simp add: set_port_def port_def)

lemma alive_binary: "alive sz \<Longrightarrow> binary_set V F b sz"
  using alive_law by blast

lemma format_call_none:
  "alive sz \<Longrightarrow> owes bs (port sz) \<Longrightarrow> f (SerializeFormatBinaryOps V) sz = Ok sz \<Longrightarrow> format_call F f sz = Ok (Returned () sz)"
  by (simp add: format_call_def skip_none binary_set_simps [OF alive_binary])

lemma conveys_value:
  assumes "M (type, name, val, n, len) bs out" and "c_string name"
  shows "conveys alive owes bs [out] (transfer F type name val n len)"
proof (rule conveysI)
  fix r :: "'s ser_run" and rest
  assume a: "alive (rn_sz r)" "inside (rn_sz r)" "owes (bs @ rest) (port (rn_sz r))"
  let ?sz = "rn_sz r"
  obtain p where p: "SerializeFormatBinary_doSerialize V type name val n len ?sz = Ok (out, set_port p ?sz)" "owes rest p"
    using value_law [OF a(1,3) assms(1)] by blast
  have b: "alive (set_port p ?sz)" "owes rest (port (set_port p ?sz))" using alive_settled [OF a(1) settled_set_port] p(2) by simp_all
  have "Serialize_doSerialize F type name val n len ?sz = Ok (Returned () (out, set_port p ?sz))"
    using p(1) assms(2)
    by (simp add: Serialize_doSerialize_def skip_none [OF a(1,3)] Serialize_beginArray_def Serialize_endArray_def
        format_call_none [OF a(1,3)] format_call_none [OF b] binary_set_simps [OF alive_binary [OF a(1)]]
        binary_set_simps [OF alive_binary [OF b(1)]])
  then show "\<exists>r' p. transfer F type name val n len r = Ok (Returned () r') \<and> settled ?sz p (rn_sz r') \<and> owes rest p \<and>
      rn_values r' = rn_values r @ [out]"
    using p(2) settled_set_port [of ?sz p] by (auto simp: transfer_def)
qed

lemma conveys_in_turn:
  assumes "\<And>q bs outs. q \<in> set body \<Longrightarrow> moves M (leaves q) bs outs \<Longrightarrow> conveys alive owes bs outs (run_prog V F q)"
    and "moves M (concat (map leaves body)) bs outs"
  shows "conveys alive owes bs outs (in_turn (map (run_prog V F) body))"
  using assms
proof (induction body arbitrary: bs outs)
  case Nil
  show ?case
  proof (rule conveysI)
    fix r :: "'s ser_run" and rest
    assume "alive (rn_sz r)" "inside (rn_sz r)" "owes (bs @ rest) (port (rn_sz r))"
    with Nil show "\<exists>r' p. in_turn (map (run_prog V F) []) r = Ok (Returned () r') \<and> settled (rn_sz r) p (rn_sz r') \<and> owes rest p \<and>
      rn_values r' = rn_values r @ outs"
      using settled_refl [of "rn_sz r"] by auto
  qed
next
  case (Cons q body)
  obtain b1 b2 o1 o2 where m: "bs = b1 @ b2" "outs = o1 @ o2" "moves M (leaves q) b1 o1" "moves M (concat (map leaves body)) b2 o2"
    using Cons.prems(2) by (auto simp: moves_append)
  have q: "conveys alive owes b1 o1 (run_prog V F q)" using Cons.prems(1) m(3) by simp
  have body: "conveys alive owes b2 o2 (in_turn (map (run_prog V F) body))" using Cons.IH [OF _ m(4)] Cons.prems(1) by simp
  show ?case
  proof (rule conveysI)
    fix r :: "'s ser_run" and rest
    assume a: "alive (rn_sz r)" "inside (rn_sz r)" "owes (bs @ rest) (port (rn_sz r))"
    then have "owes (b1 @ (b2 @ rest)) (port (rn_sz r))" using m(1) by simp
    from conveysD [OF q a(1,2) this] obtain r1 p1 where r1: "run_prog V F q r = Ok (Returned () r1)"
      "settled (rn_sz r) p1 (rn_sz r1)" "owes (b2 @ rest) p1" "rn_values r1 = rn_values r @ o1" .
    have a1: "alive (rn_sz r1)" "inside (rn_sz r1)" "owes (b2 @ rest) (port (rn_sz r1))"
      using a alive_settled [OF _ r1(2)] settled_fields [OF r1(2)] settled_port [OF r1(2)] r1(3) by auto
    obtain r2 p2 where r2: "in_turn (map (run_prog V F) body) r1 = Ok (Returned () r2)" "settled (rn_sz r1) p2 (rn_sz r2)" "owes rest p2"
      "rn_values r2 = rn_values r1 @ o2"
      using conveysD [OF body a1] .
    then show "\<exists>r' p. in_turn (map (run_prog V F) (q # body)) r = Ok (Returned () r') \<and> settled (rn_sz r) p (rn_sz r') \<and>
        owes rest p \<and> rn_values r' = rn_values r @ outs"
      using r1 r2 m(2) settled_trans [OF r1(2) r2(2)] by - (rule exI [of _ r2], rule exI [of _ p2], simp)
  qed
qed

lemma separators:
  assumes "alive (rn_sz r)" and "owes bs (port (rn_sz r))" and "c_string name" and "0 \<le> i" and "i < n"
  shows "step (Serialize_beginStructArraySeparator F name i n) r = Ok (Returned () r)"
    "step (Serialize_endStructArraySeparator F name i n) r = Ok (Returned () r)"
  using assms(3-5)
  by (simp_all add: step_def Serialize_beginStructArraySeparator_def Serialize_endStructArraySeparator_def
      binary_set_simps [OF alive_binary [OF assms(1)]] format_call_none [OF assms(1,2)])

lemma conveys_elements:
  assumes "\<And>q bs outs. q \<in> set body \<Longrightarrow> moves M (leaves q) bs outs \<Longrightarrow> conveys alive owes bs outs (run_prog V F q)"
    and "moves M (concat (map leaves body)) bs outs" and "c_string name" and "0 \<le> i" and "i + int (length body) \<le> n"
  shows "conveys alive owes bs outs (elements (map (run_prog V F) body) F name i n)"
  using assms
proof (induction body arbitrary: bs outs i)
  case Nil
  show ?case
  proof (rule conveysI)
    fix r :: "'s ser_run" and rest
    assume "alive (rn_sz r)" "inside (rn_sz r)" "owes (bs @ rest) (port (rn_sz r))"
    with Nil show "\<exists>r' p. elements (map (run_prog V F) []) F name i n r = Ok (Returned () r') \<and> settled (rn_sz r) p (rn_sz r') \<and>
      owes rest p \<and> rn_values r' = rn_values r @ outs"
      using settled_refl [of "rn_sz r"] by auto
  qed
next
  case (Cons q body)
  obtain b1 b2 o1 o2 where m: "bs = b1 @ b2" "outs = o1 @ o2" "moves M (leaves q) b1 o1" "moves M (concat (map leaves body)) b2 o2"
    using Cons.prems(2) by (auto simp: moves_append)
  have q: "conveys alive owes b1 o1 (run_prog V F q)" using Cons.prems(1) m(3) by simp
  have body: "conveys alive owes b2 o2 (elements (map (run_prog V F) body) F name (i + 1) n)"
    using Cons.IH [OF _ m(4) Cons.prems(3), of "i + 1"] Cons.prems by auto
  have i: "0 \<le> i" "i < n" using Cons.prems(4,5) by auto
  show ?case
  proof (rule conveysI)
    fix r :: "'s ser_run" and rest
    assume a: "alive (rn_sz r)" "inside (rn_sz r)" "owes (bs @ rest) (port (rn_sz r))"
    then have "owes (b1 @ (b2 @ rest)) (port (rn_sz r))" using m(1) by simp
    from conveysD [OF q a(1,2) this] obtain r1 p1 where r1: "run_prog V F q r = Ok (Returned () r1)"
      "settled (rn_sz r) p1 (rn_sz r1)" "owes (b2 @ rest) p1" "rn_values r1 = rn_values r @ o1" .
    have a1: "alive (rn_sz r1)" "inside (rn_sz r1)" "owes (b2 @ rest) (port (rn_sz r1))"
      using a alive_settled [OF _ r1(2)] settled_fields [OF r1(2)] settled_port [OF r1(2)] r1(3) by auto
    obtain r2 p2 where r2: "elements (map (run_prog V F) body) F name (i + 1) n r1 = Ok (Returned () r2)" "settled (rn_sz r1) p2 (rn_sz r2)"
      "owes rest p2" "rn_values r2 = rn_values r1 @ o2"
      using conveysD [OF body a1] .
    then show "\<exists>r' p. elements (map (run_prog V F) (q # body)) F name i n r = Ok (Returned () r') \<and> settled (rn_sz r) p (rn_sz r') \<and>
        owes rest p \<and> rn_values r' = rn_values r @ outs"
      using r1 r2 m(2) settled_trans [OF r1(2) r2(2)] separators [OF a(1,3) Cons.prems(3) i] separators [OF a1(1,3) Cons.prems(3) i]
      by - (rule exI [of _ r2], rule exI [of _ p2], simp)
  qed
qed

text \<open>Begin and end of a nested type, as the macro has them and as the calls for base types do.\<close>

lemma begin_inside:
  assumes "alive sz" and "inside sz" and "owes bs (port sz)" and "c_string name" and "c_string type"
  shows "Serialize_internalBeginType V F name type sz = Ok (Returned () (sz\<lparr>sz_numTypeCalls := sz_numTypeCalls sz + 1\<rparr>))"
proof -
  have i: "\<not> (Serialize_isTheFirstBeginTypeCall sz \<and> \<not> sz_isTranslateMode sz)"
    using assms(2) by (auto simp: inside_def Serialize_isTheFirstBeginTypeCall_def)
  let ?sz = "sz\<lparr>sz_numTypeCalls := sz_numTypeCalls sz + 1\<rparr>"
  have "alive ?sz" using alive_num [OF assms(1)] .
  then show ?thesis
    using assms calm_law [OF assms(3)]
    by (simp add: Serialize_internalBeginType_def if_not_P [OF i] skip_none [OF assms(1,3)] binary_set_simps [OF alive_binary [OF assms(1)]]
        SERIALIZEFORMAT_BEGINTYPE_def binary_set_simps [OF alive_binary [of ?sz]] Let_def)
qed

lemma end_inside:
  assumes "alive sz" and "inside sz" and "owes bs (port sz)" and "k = sz_numTypeCalls sz - 1" and "inside (sz\<lparr>sz_numTypeCalls := k\<rparr>)"
  shows "Serialize_internalEndType V F sz = Ok (Returned () (sz\<lparr>sz_numTypeCalls := k\<rparr>))"
proof -
  have i: "\<not> (Serialize_isTheLastEndTypeCall (sz\<lparr>sz_numTypeCalls := k\<rparr>) \<and> \<not> sz_isTranslateMode sz)" "0 \<le> k" "0 \<le> sz_numTypeCalls sz"
    using assms(2,5) by (auto simp: inside_def Serialize_isTheLastEndTypeCall_def)
  then show ?thesis
    using assms(4)
    by (auto simp: Serialize_internalEndType_def skip_none [OF assms(1,3)] binary_set_simps [OF alive_binary [OF assms(1)]]
        SERIALIZEFORMAT_ENDTYPE_def Let_def)
qed

lemma conveys_TypeFn:
  assumes "c_string name" and "c_string type" and body: "conveys alive owes bs outs (in_turn (map (run_prog V F) body))"
  shows "conveys alive owes bs outs (run_prog V F (TypeFn name type body))"
proof (rule conveysI)
  fix r :: "'s ser_run" and rest
  assume a: "alive (rn_sz r)" "inside (rn_sz r)" "owes (bs @ rest) (port (rn_sz r))"
  define k where "k = sz_numTypeCalls (rn_sz r)"
  let ?sz = "set_recovery (rn_frame r) (rn_sz r)"
  have s: "settled (rn_sz r) (port (rn_sz r)) ?sz" by (rule settled_set_recovery)
  have a0: "alive ?sz" "inside ?sz" "owes (bs @ rest) (port ?sz)" "sz_numTypeCalls ?sz = k"
    using a alive_settled [OF a(1) s] settled_fields [OF s] settled_port [OF s] by (simp_all add: k_def)
  let ?r = "r\<lparr>rn_frame := rn_frame r + 1, rn_sz := ?sz\<lparr>sz_numTypeCalls := k + 1\<rparr>\<rparr>"
  have a1: "alive (rn_sz ?r)" "inside (rn_sz ?r)" "owes (bs @ rest) (port (rn_sz ?r))"
    using a0 alive_num [OF a0(1)] inside_more [OF a0(2)] by simp_all
  obtain r2 p where r2: "in_turn (map (run_prog V F) body) ?r = Ok (Returned () r2)" "settled (rn_sz ?r) p (rn_sz r2)" "owes rest p"
    "rn_values r2 = rn_values ?r @ outs"
    using conveysD [OF body a1] .
  let ?fin = "(rn_sz r2)\<lparr>sz_numTypeCalls := k\<rparr>"
  have "settled (?sz\<lparr>sz_numTypeCalls := k + 1\<rparr>) p (rn_sz r2)" using r2(2) by simp
  then have n: "settled ?sz p ?fin" by (rule settled_nested) (rule a0(4) [symmetric])
  then have n': "settled (rn_sz r) p ?fin" by (rule settled_recovery)
  have a2: "alive (rn_sz r2)" "inside (rn_sz r2)" "owes rest (port (rn_sz r2))" "k = sz_numTypeCalls (rn_sz r2) - 1"
    using alive_settled [OF a1(1) r2(2)] a1 settled_fields [OF r2(2)] settled_port [OF r2(2)] r2(3) by simp_all
  have "Serialize_internalEndType V F (rn_sz r2) = Ok (Returned () ?fin)"
    using end_inside [OF a2] a(2) settled_fields(3) [OF n'] by simp
  then have "run_prog V F (TypeFn name type body) r =
      Ok (Returned () (r2\<lparr>rn_sz := ?fin\<lparr>sz_recoveryJmpSet := False\<rparr>\<rparr>))"
    using begin_inside [OF a0(1,2,3) assms(1,2)] a0(4) r2(1) by (simp add: step_def)
  then show "\<exists>r' p. run_prog V F (TypeFn name type body) r = Ok (Returned () r') \<and> settled (rn_sz r) p (rn_sz r') \<and> owes rest p \<and>
      rn_values r' = rn_values r @ outs"
    using r2(3,4) settled_close(1) [OF n']
    by - (rule exI [of _ "r2\<lparr>rn_sz := ?fin\<lparr>sz_recoveryJmpSet := False\<rparr>\<rparr>"], rule exI [of _ p], simp)
qed

lemma conveys_BaseTypeFn:
  assumes "c_string name" and "c_string type" and body: "conveys alive owes bs outs (in_turn (map (run_prog V F) body))"
  shows "conveys alive owes bs outs (run_prog V F (BaseTypeFn name type body))"
proof (rule conveysI)
  fix r :: "'s ser_run" and rest
  assume a: "alive (rn_sz r)" "inside (rn_sz r)" "owes (bs @ rest) (port (rn_sz r))"
  define k where "k = sz_numTypeCalls (rn_sz r)"
  let ?sz = "set_recovery (rn_frame r) ((rn_sz r)\<lparr>sz_baseTypeEnable := True\<rparr>)"
  have s: "settled (rn_sz r) (port (rn_sz r)) ?sz"
    using settled_enable [OF settled_set_recovery [of "(rn_sz r)\<lparr>sz_baseTypeEnable := True\<rparr>" "rn_frame r"]] by simp
  have a0: "alive ?sz" "inside ?sz" "owes (bs @ rest) (port ?sz)" "sz_numTypeCalls ?sz = k"
    using a alive_settled [OF a(1) s] settled_fields [OF s] settled_port [OF s] by (simp_all add: k_def)
  let ?r = "r\<lparr>rn_frame := rn_frame r + 1, rn_sz := ?sz\<lparr>sz_numTypeCalls := k + 1, sz_baseTypeEnable := False\<rparr>\<rparr>"
  have a1: "alive (rn_sz ?r)" "inside (rn_sz ?r)" "owes (bs @ rest) (port (rn_sz ?r))"
    using a0 alive_num [OF a0(1)] inside_more [OF a0(2)] alive_enable by simp_all
  obtain r2 p where r2: "in_turn (map (run_prog V F) body) ?r = Ok (Returned () r2)" "settled (rn_sz ?r) p (rn_sz r2)" "owes rest p"
    "rn_values r2 = rn_values ?r @ outs"
    using conveysD [OF body a1] .
  let ?mid = "(rn_sz r2)\<lparr>sz_baseTypeEnable := True\<rparr>"
  let ?fin = "?mid\<lparr>sz_numTypeCalls := k\<rparr>"
  have n: "settled (rn_sz r) p ?fin"
    using r2(2) a0(4) unfolding settled_def set_recovery_def by (cases "rn_sz r") (auto simp: set_port_def k_def split: if_splits)
  have a2: "alive ?mid" "inside ?mid" "owes rest (port ?mid)" "k = sz_numTypeCalls ?mid - 1"
    using alive_settled [OF a1(1) r2(2)] a1 settled_fields [OF r2(2)] settled_port [OF r2(2)] r2(3) alive_enable by (simp_all add: inside_def)
  have a3: "alive (rn_sz r2)" "owes rest (port (rn_sz r2))" "0 \<le> sz_numTypeCalls (rn_sz r2)"
    using alive_settled [OF a1(1) r2(2)] a2 by (auto simp: inside_def)
  have b: "Serialize_beginBaseType V F (rn_frame r) name type (rn_sz r) =
      Ok (Returned () (?sz\<lparr>sz_numTypeCalls := k + 1, sz_baseTypeEnable := False\<rparr>))"
    using begin_inside [OF a0(1,2,3) assms(1,2)] a0(4) assms(1,2)
    by (simp add: Serialize_beginBaseType_def skip_none [OF a(1,3)] binary_set_simps [OF alive_binary [OF a(1)]])
  have "Serialize_internalEndType V F ?mid = Ok (Returned () ?fin)"
    using end_inside [OF a2] a(2) settled_fields(3) [OF n] by simp
  then have e: "Serialize_endBaseType V F (rn_sz r2) = Ok (Returned () (?fin\<lparr>sz_baseTypeEnable := False\<rparr>))"
    using a3(3) by (simp add: Serialize_endBaseType_def skip_none [OF a3(1,2)] binary_set_simps [OF alive_binary [OF a3(1)]])
  then have "run_prog V F (BaseTypeFn name type body) r =
      Ok (Returned () (r2\<lparr>rn_sz := ?fin\<lparr>sz_baseTypeEnable := False\<rparr>\<rparr>))"
    using b r2(1) by (simp add: step_def)
  then show "\<exists>r' p. run_prog V F (BaseTypeFn name type body) r = Ok (Returned () r') \<and> settled (rn_sz r) p (rn_sz r') \<and> owes rest p \<and>
      rn_values r' = rn_values r @ outs"
    using r2(3,4) settled_close(2) [OF n]
    by - (rule exI [of _ "r2\<lparr>rn_sz := ?fin\<lparr>sz_baseTypeEnable := False\<rparr>\<rparr>"], rule exI [of _ p], simp)
qed

lemma conveys_StructArray:
  assumes "c_string name" and "c_string type" and "conveys alive owes bs outs (elements (map (run_prog V F) body) F name 0 (int (length body)))"
  shows "conveys alive owes bs outs (run_prog V F (StructArray name type (int (length body)) body))"
proof (rule conveysI)
  fix r :: "'s ser_run" and rest
  assume a: "alive (rn_sz r)" "inside (rn_sz r)" "owes (bs @ rest) (port (rn_sz r))"
  obtain r1 p where r1: "elements (map (run_prog V F) body) F name 0 (int (length body)) r = Ok (Returned () r1)"
    "settled (rn_sz r) p (rn_sz r1)" "owes rest p" "rn_values r1 = rn_values r @ outs"
    using conveysD [OF assms(3) a] .
  have a1: "alive (rn_sz r1)" "owes rest (port (rn_sz r1))" using alive_settled [OF a(1) r1(2)] settled_port [OF r1(2)] r1(3) by simp_all
  have "step (Serialize_beginStructArray F name type (int (length body))) r = Ok (Returned () r)" "step (Serialize_endStructArray F) r1 = Ok (Returned () r1)"
    using assms(1,2)
    by (simp_all add: step_def Serialize_beginStructArray_def Serialize_endStructArray_def binary_set_simps [OF alive_binary [OF a(1)]]
        binary_set_simps [OF alive_binary [OF a1(1)]] format_call_none [OF a(1,3)] format_call_none [OF a1])
  then show "\<exists>r' p. run_prog V F (StructArray name type (int (length body)) body) r = Ok (Returned () r') \<and> settled (rn_sz r) p (rn_sz r') \<and> owes rest p \<and>
      rn_values r' = rn_values r @ outs"
    using r1 by - (rule exI [of _ r1], rule exI [of _ p], simp)
qed

lemma conveys_prog:
  "named q \<Longrightarrow> moves M (leaves q) bs outs \<Longrightarrow> conveys alive owes bs outs (run_prog V F q)"
proof (induction q arbitrary: bs outs)
  case (TypeFn name type body)
  then show ?case by (intro conveys_TypeFn conveys_in_turn) auto
next
  case (BaseTypeFn name type body)
  then show ?case by (intro conveys_BaseTypeFn conveys_in_turn) auto
next
  case (Value type name val n len)
  then obtain out where "M (type, name, val, n, len) bs out" "outs = [out]" by auto
  with conveys_value Value show ?case by simp
next
  case (StructArray name type n body)
  then have n: "n = int (length body)" by simp
  show ?case unfolding n using StructArray by (intro conveys_StructArray conveys_elements) auto
qed

text \<open>A call from outside, when an object is open.\<close>

lemma call_conveys:
  assumes "alive sz" and "inside sz" and "owes (bs @ rest) (port sz)" and "named q" and "moves M (leaves q) bs outs"
  shows "\<exists>sz' p. serialize_call V F q sz = Ok (outs, sz') \<and> settled sz p sz' \<and> owes rest p"
proof -
  let ?r = "\<lparr>rn_sz = sz, rn_frame = Suc (sz_recoveryJmp sz), rn_values = []\<rparr>"
  have a: "alive (rn_sz ?r)" "inside (rn_sz ?r)" "owes (bs @ rest) (port (rn_sz ?r))" using assms(1-3) by simp_all
  obtain r' p where "run_prog V F q ?r = Ok (Returned () r')" "settled (rn_sz ?r) p (rn_sz r')" "owes rest p"
    "rn_values r' = rn_values ?r @ outs"
    using conveysD [OF conveys_prog [OF assms(4,5)] a] .
  then show ?thesis by - (rule exI [of _ "rn_sz r'"], rule exI [of _ p], simp add: serialize_call_def)
qed

end

subsection \<open>Writers and readers carry values\<close>

text \<open>A value moves its bytes on the wire: the writer keeps it, the reader gets it from a writer on a host
  with byte order \<open>h\<close>.\<close>

fun written :: "bool \<Rightarrow> bool \<Rightarrow> leaf \<Rightarrow> byte list \<Rightarrow> byte list \<Rightarrow> bool" where
  "written b h (type, name, val, n, len) bs out \<longleftrightarrow> value_ok type val n len \<and> bs = wire b h type val n len \<and> out = val"

fun received :: "bool \<Rightarrow> bool \<Rightarrow> bool \<Rightarrow> leaf \<Rightarrow> byte list \<Rightarrow> byte list \<Rightarrow> bool" where
  "received b h h' (type, name, buf, n, len) bs out \<longleftrightarrow> value_ok type buf n len \<and>
     (\<exists>val. value_ok type val n len \<and> bs = wire b h type val n len \<and> out = delivered (h = h') type val buf n len)"

text \<open>The port started as \<open>p0\<close> and is to take the text \<open>T\<close>; \<open>bs\<close> is what is missing.\<close>

definition still_to_take :: "(nat \<Rightarrow> 's port \<Rightarrow> bool) \<Rightarrow> (byte list \<Rightarrow> 's port \<Rightarrow> 's port \<Rightarrow> bool) \<Rightarrow> 's port \<Rightarrow> byte list \<Rightarrow>
    byte list \<Rightarrow> 's port \<Rightarrow> bool" where
  "still_to_take can takes p0 T bs p \<longleftrightarrow> (\<exists>taken. T = taken @ bs \<and> takes taken p0 p \<and> can (length bs) p)"

locale ser_writer = ser_sink V can takes
  for V :: "('s, 'a) ser_env" and can :: "nat \<Rightarrow> 's port \<Rightarrow> bool" and takes :: "byte list \<Rightarrow> 's port \<Rightarrow> 's port \<Rightarrow> bool" +
  fixes F :: "'s ser_formats" and b :: bool and p0 :: "'s port" and T :: "byte list"

sublocale ser_writer \<subseteq> carrier V F b "writer V F b" "still_to_take can takes p0 T" "written b (se_isLittleEndian V)"
proof
  fix sz :: "'s Serialize" and bs rest type name val n len out
  assume w: "writer V F b sz" and o: "still_to_take can takes p0 T (bs @ rest) (port sz)"
    and m: "written b (se_isLittleEndian V) (type, name, val, n, len) bs out"
  obtain taken where t: "T = taken @ bs @ rest" "takes taken p0 (port sz)" "can (length bs + length rest) (port sz)"
    using o by (auto simp: still_to_take_def)
  have v: "value_ok type val n len" "bs = wire b (se_isLittleEndian V) type val n len" "out = val" using m by auto
  obtain p where p: "SerializeFormatBinary_doSerialize V type name val n len sz = Ok (val, set_port p sz)" "can (length rest) p"
    "takes bs (port sz) p"
    using value_emits [OF w v(1), of "length rest"] t(3) v(2) by blast
  have "still_to_take can takes p0 T rest p"
    using t(1) takes_more [OF t(2) p(3)] p(2) unfolding still_to_take_def by (intro exI [of _ "taken @ bs"]) simp
  with p(1) v(3) show "\<exists>p. SerializeFormatBinary_doSerialize V type name val n len sz = Ok (out, set_port p sz) \<and>
      still_to_take can takes p0 T rest p" by blast
next
  fix sz :: "'s Serialize" and bs
  assume "still_to_take can takes p0 T bs (port sz)"
  then show "stream_eof sz = Ok False \<and> sz_stream sz \<noteq> NoStream" using ok_law by (auto simp: still_to_take_def)
qed (auto simp: writer_def binary_set_def)

locale ser_reader = ser_source V gives for V :: "('s, 'a) ser_env" and gives :: "byte list \<Rightarrow> 's port \<Rightarrow> bool" +
  fixes F :: "'s ser_formats" and b :: bool and h :: bool

sublocale ser_reader \<subseteq> carrier V F b "reader V F b" gives "received b h (se_isLittleEndian V)"
proof
  fix sz :: "'s Serialize" and bs rest type name val n len out
  assume "reader V F b sz" "gives (bs @ rest) (port sz)" "received b h (se_isLittleEndian V) (type, name, val, n, len) bs out"
  then show "\<exists>p. SerializeFormatBinary_doSerialize V type name val n len sz = Ok (out, set_port p sz) \<and> gives rest p"
    using value_gets [of b h type _ n len rest sz F val name] by auto
next
  fix sz :: "'s Serialize" and bs
  assume "gives bs (port sz)"
  then show "stream_eof sz = Ok False \<and> sz_stream sz \<noteq> NoStream" using ok_law by blast
qed (auto simp: reader_def binary_set_def)

subsection \<open>A call of a function\<close>

text \<open>What a function emits, and what the reading function gets from it.\<close>

fun leaf_ok :: "leaf \<Rightarrow> bool" where
  "leaf_ok (type, name, val, n, len) \<longleftrightarrow> value_ok type val n len"

fun leaf_value :: "leaf \<Rightarrow> byte list" where
  "leaf_value (type, name, val, n, len) = val"

fun leaf_wire :: "bool \<Rightarrow> bool \<Rightarrow> leaf \<Rightarrow> byte list" where
  "leaf_wire b h (type, name, val, n, len) = wire b h type val n len"

fun leaf_fits :: "leaf \<Rightarrow> leaf \<Rightarrow> bool" where
  "leaf_fits (type, name, val, n, len) (type', name', buf, n', len') \<longleftrightarrow> type' = type \<and> n' = n \<and> len' = len \<and> value_ok type buf n len"

fun leaf_delivered :: "bool \<Rightarrow> leaf \<Rightarrow> leaf \<Rightarrow> byte list" where
  "leaf_delivered same (type, name, val, n, len) (type', name', buf, n', len') = delivered same type val buf n len"

definition emits :: "bool \<Rightarrow> bool \<Rightarrow> ser_prog \<Rightarrow> byte list" where
  "emits b h p = concat (map (leaf_wire b h) (leaves p))"

lemma moves_written:
  "list_all leaf_ok ls \<Longrightarrow> moves (written b h) ls (concat (map (leaf_wire b h) ls)) (map leaf_value ls)"
  by (induction ls) force+

lemma moves_received:
  "list_all leaf_ok ls \<Longrightarrow> list_all2 leaf_fits ls qs \<Longrightarrow>
    moves (received b h h') qs (concat (map (leaf_wire b h) ls)) (map2 (leaf_delivered (h = h')) ls qs)"
proof (induction ls arbitrary: qs)
  case (Cons l ls)
  then obtain q qs' where q: "qs = q # qs'" "leaf_fits l q" "list_all2 leaf_fits ls qs'" by (auto simp: list_all2_Cons1)
  have "moves (received b h h') qs' (concat (map (leaf_wire b h) ls)) (map2 (leaf_delivered (h = h')) ls qs')"
    using Cons q by simp
  moreover have "received b h h' q (leaf_wire b h l) (leaf_delivered (h = h') l q)"
    using Cons.prems(1) q(2) by (cases l; cases q) auto
  ultimately show ?case unfolding q(1) by auto
qed simp

end
