(* ===== verification/Ser_Correct.thy ===== *)
theory Ser_Correct
  imports Ser_Programs
begin

text \<open>
  The contracts of \<open>Ser_Contents\<close> for the streams of the model: memory takes and delivers the bytes of values, the measuring
  stream takes them. The properties of the serializer rest on these interpretations.
\<close>

subsection \<open>Memory and measuring streams\<close>

type_synonym mem_env = "(IOChannelGenericMem, byte list owned \<times> int) ser_env"

definition on_memory :: "mem_env \<Rightarrow> mem_env" where
  "on_memory V = V\<lparr>se_interface := IOChannelMemOps\<rparr>"

lemma on_memory_simps [simp]:
  "se_interface V = IOChannelMemOps \<Longrightarrow> on_memory V = V" "se_isLittleEndian (on_memory V) = se_isLittleEndian V"
  by (simp_all add: on_memory_def)

definition port_channel :: "'s port \<Rightarrow> 's IOChannel" where
  "port_channel p = fst (snd p)"

definition mem_port :: "mem_channel \<Rightarrow> IOChannelGenericMem port \<Rightarrow> IOChannelGenericMem port" where
  "mem_port ch p = (fst p, ch, snd (snd p))"

lemma mem_port_simps [simp]:
  "port_channel (mem_port ch p) = ch" "fst (mem_port ch p) = fst p" "snd (snd (mem_port ch p)) = snd (snd p)"
  "fst (port sz) = sz_stream sz" "port_channel (port sz) = sz_channel sz" "snd (snd (port sz)) = sz_calcSizeStream sz"
  by (simp_all add: port_channel_def mem_port_def port_def)

lemma set_mem_port: "set_port (mem_port ch (port sz)) sz = sz\<lparr>sz_channel := ch\<rparr>"
  by (cases sz) (simp add: set_port_def mem_port_def port_def)

definition mem_port_can :: "nat \<Rightarrow> IOChannelGenericMem port \<Rightarrow> bool" where
  "mem_port_can k p \<longleftrightarrow> fst p = UserStream \<and> writing (port_channel p) \<and> mem_space k (port_channel p)"

definition mem_port_takes :: "byte list \<Rightarrow> IOChannelGenericMem port \<Rightarrow> IOChannelGenericMem port \<Rightarrow> bool" where
  "mem_port_takes bs p p' \<longleftrightarrow> p' = mem_port (port_channel p') p \<and> mem_takes bs (port_channel p) (port_channel p')"

lemma writing_calm: "writing ch \<Longrightarrow> IOChannel_eof ch = Ok False \<and> IOChannel_isErrorOccurred ch = Ok False"
  by (simp add: writing_ok(1)) (simp add: writing_def writable_def ready_simps)

lemma reading_calm: "reading ch \<Longrightarrow> IOChannel_eof ch = Ok False \<and> IOChannel_isErrorOccurred ch = Ok False"
  by (simp add: reading_ok(1)) (simp add: reading_def readable_def ready_simps)

interpretation mem_writer: ser_writer "on_memory V" mem_port_can mem_port_takes F b p0 T
  for V F b p0 T
proof
  fix bs :: "byte list" and k and sz :: "IOChannelGenericMem Serialize"
  assume a: "mem_port_can (length bs + k) (port sz)" "bs \<noteq> []"
  then have w: "sz_stream sz = UserStream" "writing (sz_channel sz)" "mem_space (length bs + k) (sz_channel sz)"
    by (simp_all add: mem_port_can_def)
  obtain ch where ch: "IOChannel_writeInternal IOChannelMemOps (Some bs) (sz_channel sz) = Ok (int (length bs), ch)" "writing ch"
    "mem_space k ch" "mem_takes bs (sz_channel sz) ch"
    using mem_sink_write [OF w(2,3) a(2)] by blast
  then have "stream_write (on_memory V) bs sz = Ok (int (length bs), set_port (mem_port ch (port sz)) sz)"
    using w(1,2) by (simp add: stream_write_def on_stream_def on_memory_def write_writable writing_def set_mem_port)
  then show "\<exists>p. stream_write (on_memory V) bs sz = Ok (int (length bs), set_port p sz) \<and> mem_port_can k p \<and>
      mem_port_takes bs (port sz) p"
    using ch w(1) by (intro exI [of _ "mem_port ch (port sz)"]) (simp add: mem_port_can_def mem_port_takes_def)
next
  fix k and sz :: "IOChannelGenericMem Serialize"
  assume "mem_port_can k (port sz)"
  then show "stream_eof sz = Ok False \<and> stream_error sz = Ok False \<and> sz_stream sz \<noteq> NoStream"
    using writing_calm [of "sz_channel sz"] by (simp add: mem_port_can_def stream_eof_def stream_error_def ask_stream_def)
next
  fix k and p :: "IOChannelGenericMem port"
  show "mem_port_can k p \<Longrightarrow> mem_port_takes [] p p"
    using mem_sink.takes_nothing by (cases p) (auto simp: mem_port_can_def mem_port_takes_def mem_port_def port_channel_def)
next
  fix bs cs and p p' p'' :: "IOChannelGenericMem port"
  show "mem_port_takes bs p p' \<Longrightarrow> mem_port_takes cs p' p'' \<Longrightarrow> mem_port_takes (bs @ cs) p p''"
    using mem_sink.takes_more by (cases p; cases p'; cases p'') (auto simp: mem_port_takes_def mem_port_def port_channel_def)
qed

lemma set_calc_port:
  "sz_stream sz = CalcStream \<Longrightarrow> set_port (CalcStream, sz_channel sz, q) sz = sz\<lparr>sz_calcSizeStream := q\<rparr>"
  by (cases sz) (simp add: set_port_def)

lemma port_channel_parts [simp]: "port_channel (t, ch, q) = ch"
  by (simp add: port_channel_def)

text \<open>The measuring stream, wherever the channel of the user leads.\<close>

definition calc_port_can :: "nat \<Rightarrow> 's port \<Rightarrow> bool" where
  "calc_port_can k p \<longleftrightarrow> fst p = CalcStream \<and> (\<exists>m. snd (snd p) = Own m \<and> writing m \<and> calc_can m)"

definition calc_port_takes :: "byte list \<Rightarrow> 's port \<Rightarrow> 's port \<Rightarrow> bool" where
  "calc_port_takes bs p p' \<longleftrightarrow> fst p' = fst p \<and> port_channel p' = port_channel p \<and>
     (\<exists>m m'. snd (snd p) = Own m \<and> snd (snd p') = Own m' \<and>
        ch_currentIndexPosition m' = ch_currentIndexPosition m + int (length bs))"

interpretation calc_writer: ser_writer V calc_port_can calc_port_takes F b p0 T
  for V :: "('s, 'a) ser_env" and F b p0 T
proof
  fix bs :: "byte list" and k and sz :: "'s Serialize"
  assume a: "calc_port_can (length bs + k) (port sz)" "bs \<noteq> []"
  then obtain m st where m: "sz_stream sz = CalcStream" "sz_calcSizeStream sz = Own m" "writing m" "calc_can m"
    "ch_streamPtr m = Own st" "writable m" "ready m" "\<not> ch_foundEof m"
    by (auto simp: calc_port_can_def calc_can_def writing_def writable_def)
  let ?m = "m\<lparr>ch_streamPtr := Own (st\<lparr>ca_numWriteCalls := ca_numWriteCalls st + 1, ca_maxSize := max (ca_maxSize st) (int (length bs)),
      ca_minSize := min (ca_minSize st) (int (length bs))\<rparr>), ch_rdBytesFromLastWrite := 0,
      ch_wrDeployedBytes := ch_wrDeployedBytes m + int (length bs),
      ch_currentIndexPosition := ch_currentIndexPosition m + int (length bs)\<rparr>"
  have "IOChannel_write IOChannelCalcOps (Some bs) m = Ok (int (length bs), ?m)"
    using calc.write_counts [OF m(6,4) a(2)] calc_write [OF m(7,5), of bs] m(6) by (auto simp: write_writable)
  moreover have "writing ?m" "calc_can ?m" using m by (auto simp: writing_def calc_can_def)
  ultimately show "\<exists>p. stream_write V bs sz = Ok (int (length bs), set_port p sz) \<and> calc_port_can k p \<and> calc_port_takes bs (port sz) p"
    using m by (intro exI [of _ "(CalcStream, sz_channel sz, Own ?m)"])
      (auto simp: stream_write_def on_stream_def calc_port_can_def calc_port_takes_def set_calc_port)
next
  fix k and sz :: "'s Serialize"
  assume "calc_port_can k (port sz)"
  then show "stream_eof sz = Ok False \<and> stream_error sz = Ok False \<and> sz_stream sz \<noteq> NoStream"
    by (auto simp: calc_port_can_def stream_eof_def stream_error_def ask_stream_def dest!: writing_calm)
qed (auto simp: calc_port_can_def calc_port_takes_def)

text \<open>Memory that delivers exactly what follows, without anything put back.\<close>

definition mem_port_gives :: "byte list \<Rightarrow> IOChannelGenericMem port \<Rightarrow> bool" where
  "mem_port_gives bs p \<longleftrightarrow> fst p = UserStream \<and> reading (port_channel p) \<and> mem_inv (port_channel p) \<and>
     mf_ungot (mem_view (port_channel p)) = [] \<and> mem_left (port_channel p) = bs"

interpretation mem_reader: ser_reader "on_memory V" mem_port_gives F b h
  for V F b h
proof
  fix bs rest :: "byte list" and sz :: "IOChannelGenericMem Serialize"
  assume a: "mem_port_gives (bs @ rest) (port sz)" "bs \<noteq> []"
  let ?ch = "sz_channel sz" and ?a = "mem_view (sz_channel sz)" and ?n = "length bs"
  have w: "sz_stream sz = UserStream" "reading ?ch" "mem_inv ?ch" "mf_ungot ?a = []" "drop (mf_pos ?a) (mf_bytes ?a) = bs @ rest"
    using a(1) by (auto simp: mem_port_gives_def mem_left_def)
  have l: "mf_pos ?a + ?n + length rest = length (mf_bytes ?a)"
    using w(5) a(2) by (metis append_is_Nil_conv drop_all le_add_diff_inverse length_append length_drop add.assoc nat_le_linear)
  then have "mf_legal (Read ?n) ?a" using w(4) a(2) by (cases bs) auto
  from mem_read_ok [OF w(3) this] obtain ch where ch: "mf_step (Read ?n) ?ch = Ok (fst (mf_spec (Read ?n) ?a), ch)" "mem_inv ch"
    "mem_view ch = snd (mf_spec (Read ?n) ?a)" by blast
  have m: "min ?n (length (mf_bytes ?a) - mf_pos ?a) = ?n" using l by simp
  have s: "mf_spec (Read ?n) ?a = (Bytes (int ?n) bs, ?a\<lparr>mf_pos := mf_pos ?a + ?n, mf_last := mf_last ?a + ?n\<rparr>)"
    using w(4,5) a(2) m by (simp add: Let_def)
  have "stream_read (on_memory V) (int ?n) sz = Ok ((int ?n, bs), set_port (mem_port ch (port sz)) sz)"
    using ch(1) s w(1) by (auto simp: stream_read_def on_stream_def on_memory_def omap_def outcome_Ok_iffs set_mem_port)
  moreover have "drop (mf_pos ?a + ?n) (mf_bytes ?a) = rest"
    using w(5) by (metis add.commute append_eq_conv_conj drop_drop)
  ultimately show "\<exists>p. stream_read (on_memory V) (int ?n) sz = Ok ((int ?n, bs), set_port p sz) \<and> mem_port_gives rest p"
    using ch(2,3) s w by (intro exI [of _ "mem_port ch (port sz)"])
      (auto simp: mem_port_gives_def mem_left_def reading_def mem_inv_def mem_view_def)
next
  fix bs and sz :: "IOChannelGenericMem Serialize"
  assume "mem_port_gives bs (port sz)"
  then show "stream_eof sz = Ok False \<and> stream_error sz = Ok False \<and> sz_stream sz \<noteq> NoStream"
    using reading_calm [of "sz_channel sz"] by (simp add: mem_port_gives_def stream_eof_def stream_error_def ask_stream_def)
qed

subsection \<open>Properties\<close>

text \<open>A writer with space for \<open>k\<close> bytes, and a reader that finds \<open>bytes\<close> from \<open>pos\<close> on, in memory.\<close>

definition memory_writer :: "mem_env \<Rightarrow> IOChannelGenericMem ser_formats \<Rightarrow> bool \<Rightarrow> nat \<Rightarrow> IOChannelGenericMem Serialize \<Rightarrow> bool" where
  "memory_writer V F b k sz \<longleftrightarrow> se_interface V = IOChannelMemOps \<and> writer V F b sz \<and> inside sz \<and> sz_stream sz = UserStream \<and>
     mem_inv (sz_channel sz) \<and> \<not> mf_eof (mem_view (sz_channel sz)) \<and>
     mf_pos (mem_view (sz_channel sz)) + k \<le> length (mf_bytes (mem_view (sz_channel sz)))"

definition memory_reader :: "mem_env \<Rightarrow> IOChannelGenericMem ser_formats \<Rightarrow> bool \<Rightarrow> byte list \<Rightarrow> nat \<Rightarrow> IOChannelGenericMem Serialize \<Rightarrow>
    bool" where
  "memory_reader V F b bytes pos sz \<longleftrightarrow> se_interface V = IOChannelMemOps \<and> reader V F b sz \<and> inside sz \<and> sz_stream sz = UserStream \<and>
     mem_inv (sz_channel sz) \<and> \<not> mf_eof (mem_view (sz_channel sz)) \<and> mf_ungot (mem_view (sz_channel sz)) = [] \<and>
     mf_bytes (mem_view (sz_channel sz)) = bytes \<and> mf_pos (mem_view (sz_channel sz)) = pos"

lemma memory_write:
  assumes "memory_writer V F b (length (emits b (se_isLittleEndian V) p)) sz" and "named p" and "list_all leaf_ok (leaves p)"
  shows "\<exists>sz'. serialize_call V F p sz = Ok (map leaf_value (leaves p), sz') \<and>
    mem_view (sz_channel sz') = mf_put (emits b (se_isLittleEndian V) p) (mem_view (sz_channel sz))"
proof -
  let ?T = "emits b (se_isLittleEndian V) p"
  have w: "se_interface V = IOChannelMemOps" "writer V F b sz" "inside sz" "sz_stream sz = UserStream" "mem_space (length ?T) (sz_channel sz)"
    "writing (sz_channel sz)"
    using assms(1) by (auto simp: memory_writer_def mem_space_def writing_def mem_inv_def mem_view_def)
  have c: "mem_port_can (length ?T) (port sz)" using w by (simp add: mem_port_can_def)
  then have "mem_port_takes [] (port sz) (port sz)" by (rule mem_writer.takes_nothing)
  with c have o: "still_to_take mem_port_can mem_port_takes (port sz) ?T (?T @ []) (port sz)" by (auto simp: still_to_take_def)
  have m: "moves (written b (se_isLittleEndian (on_memory V))) (leaves p) ?T (map leaf_value (leaves p))"
    using moves_written [OF assms(3)] by (simp add: emits_def)
  have "writer (on_memory V) F b sz" using w(1,2) by simp
  from mem_writer.call_conveys [OF this w(3) o assms(2) m] obtain sz' q where
    q: "serialize_call V F p sz = Ok (map leaf_value (leaves p), sz')" "settled sz q sz'"
    "still_to_take mem_port_can mem_port_takes (port sz) ?T [] q"
    using w(1) by auto
  then have "mem_takes ?T (sz_channel sz) (sz_channel sz')"
    using settled_port [OF q(2)] by (auto simp: still_to_take_def mem_port_takes_def)
  with q(1) show ?thesis by (auto simp: mem_takes_def)
qed

lemma memory_read:
  assumes "memory_reader V F b bytes pos sz" and "drop pos bytes = emits b h p @ rest" and "named q" and "list_all leaf_ok (leaves p)"
    and "list_all2 leaf_fits (leaves p) (leaves q)"
  shows "\<exists>sz'. serialize_call V F q sz = Ok (map2 (leaf_delivered (h = se_isLittleEndian V)) (leaves p) (leaves q), sz') \<and>
    mem_left (sz_channel sz') = rest"
proof -
  have w: "se_interface V = IOChannelMemOps" "reader V F b sz" "inside sz"
    using assms(1) by (auto simp: memory_reader_def)
  have g: "mem_port_gives (emits b h p @ rest) (port sz)"
    using assms(1,2) by (auto simp: memory_reader_def mem_port_gives_def mem_left_def reading_def mem_inv_def mem_view_def)
  have m: "moves (received b h (se_isLittleEndian (on_memory V))) (leaves q) (emits b h p)
      (map2 (leaf_delivered (h = se_isLittleEndian V)) (leaves p) (leaves q))"
    using moves_received [OF assms(4,5)] by (simp add: emits_def)
  have "reader (on_memory V) F b sz" using w(1,2) by simp
  from mem_reader.call_conveys [OF this w(3) g assms(3) m] obtain sz' r where
    r: "serialize_call V F q sz = Ok (map2 (leaf_delivered (h = se_isLittleEndian V)) (leaves p) (leaves q), sz')" "settled sz r sz'"
    "mem_port_gives rest r"
    using w(1) by auto
  then show ?thesis using settled_port [OF r(2)] by (auto simp: mem_port_gives_def)
qed

text \<open>C25: Values serialized in the binary format survive the way through memory, across hosts: any function of the user
  (nested types, base types, arrays of structures, arrays and strings) that runs in an open object and has space for its bytes writes them
  to the stream and leaves its own values as they are; any function with values of the same types and lengths that then reads from there
  gets the values, with the bytes of each element reversed exactly when writer and reader live on hosts with different byte orders,
  whatever byte order the format is set to.\<close>

theorem Serialize_contents_roundtrip:
  assumes "named p" and "list_all leaf_ok (leaves p)" and "named q" and "list_all2 leaf_fits (leaves p) (leaves q)"
    and "memory_writer V F b (length (emits b (se_isLittleEndian V) p)) sz"
  shows "\<exists>sz'. serialize_call V F p sz = Ok (map leaf_value (leaves p), sz') \<and>
    mem_view (sz_channel sz') = mf_put (emits b (se_isLittleEndian V) p) (mem_view (sz_channel sz)) \<and>
    (\<forall>V2 F2 sz2. memory_reader V2 F2 b (mf_bytes (mem_view (sz_channel sz'))) (mf_pos (mem_view (sz_channel sz))) sz2 \<longrightarrow>
      (\<exists>sz2'. serialize_call V2 F2 q sz2 =
          Ok (map2 (leaf_delivered (se_isLittleEndian V = se_isLittleEndian V2)) (leaves p) (leaves q), sz2') \<and>
        mem_left (sz_channel sz2') = drop (length (emits b (se_isLittleEndian V) p)) (mem_left (sz_channel sz2))))"
proof -
  let ?T = "emits b (se_isLittleEndian V) p" and ?a = "mem_view (sz_channel sz)"
  obtain sz' where sz': "serialize_call V F p sz = Ok (map leaf_value (leaves p), sz')" "mem_view (sz_channel sz') = mf_put ?T ?a"
    using memory_write [OF assms(5,1,2)] by blast
  have "mf_pos ?a + length ?T \<le> length (mf_bytes ?a)" using assms(5) by (simp add: memory_writer_def)
  then have d: "drop (mf_pos ?a) (mf_bytes (mf_put ?T ?a)) = ?T @ drop (mf_pos ?a + length ?T) (mf_bytes ?a)"
    by (simp add: mf_put_def)
  show ?thesis
  proof (rule exI [of _ sz'], intro conjI allI impI sz')
    fix V2 F2 and sz2 :: "IOChannelGenericMem Serialize"
    assume r: "memory_reader V2 F2 b (mf_bytes (mem_view (sz_channel sz'))) (mf_pos ?a) sz2"
    have "drop (length ?T) (mem_left (sz_channel sz2)) = drop (mf_pos ?a + length ?T) (mf_bytes ?a)"
      using r d sz'(2) by (simp add: memory_reader_def mem_left_def)
    then show "\<exists>sz2'. serialize_call V2 F2 q sz2 =
          Ok (map2 (leaf_delivered (se_isLittleEndian V = se_isLittleEndian V2)) (leaves p) (leaves q), sz2') \<and>
        mem_left (sz_channel sz2') = drop (length ?T) (mem_left (sz_channel sz2))"
      using memory_read [OF r _ assms(3,2,4)] d sz'(2) by auto
  qed
qed

text \<open>An object for the examples: the binary format is set, and formats are being translated, so that it is open at all times.\<close>

definition example_env :: "bool \<Rightarrow> mem_env" where
  "example_env h = \<lparr>se_interface = IOChannelMemOps, se_isLittleEndian = h, se_print = \<lambda>_ _. [], se_scan = \<lambda>_ _. None, se_rounds = 2,
     se_memPointer = \<lambda>_. Null, se_setMemory = \<lambda>_ s. s, se_onBegin = Ok, se_onEnd = Ok, se_setBeginType = Ok\<rparr>"

definition example_formats :: "('s, 'a) ser_env \<Rightarrow> 's ser_formats" where
  "example_formats V = \<lparr>sf_table = [SerializeFormatBinaryOps V], sf_static = 1, sf_symbol = \<lambda>_. None, sf_libraryOpens = True\<rparr>"

definition example_object :: "bool \<Rightarrow> bool \<Rightarrow> uint32 \<Rightarrow> 's IOChannel \<Rightarrow> 's Serialize" where
  "example_object h b mode ch = Serialize_zero\<lparr>sz_valid := SERIALIZE_VALID, sz_format := 1, sz_mode := mode, sz_isLittleEndian := h,
     sz_isTranslateMode := True, sz_stream := UserStream, sz_channel := ch,
     sz_infos := \<lparr>cells = [1 \<mapsto> \<lparr>fi_ops = 0, fi_data = Own (SerializeFormatBinaryEndianFlag b), fi_libHandle = False\<rparr>], brk = 2\<rparr>\<rparr>"

lemma example_ok:
  "memory_writer (example_env h) (example_formats (example_env h)) b k (example_object h b SERIALIZE_MODE_WRITE ch) \<longleftrightarrow>
    mem_inv ch \<and> \<not> mf_eof (mem_view ch) \<and> mf_pos (mem_view ch) + k \<le> length (mf_bytes (mem_view ch))"
  "memory_reader (example_env h) (example_formats (example_env h)) b bytes pos (example_object h b SERIALIZE_MODE_READ ch) \<longleftrightarrow>
    mem_inv ch \<and> \<not> mf_eof (mem_view ch) \<and> mf_ungot (mem_view ch) = [] \<and> mf_bytes (mem_view ch) = bytes \<and> mf_pos (mem_view ch) = pos"
  by (auto simp: memory_writer_def memory_reader_def writer_def reader_def binary_set_def inside_def example_env_def
      example_formats_def example_object_def Serialize_zero_def)

definition example_fn :: "byte list \<Rightarrow> byte list \<Rightarrow> byte list \<Rightarrow> ser_prog" where
  "example_fn x s y = TypeFn [112] [80]
     [Value SERIALIZE_TYPE_INT [120] x 4 1,
      StructArray [97] [81] 2 [TypeFn [113] [81] [Value SERIALIZE_TYPE_STRING [115] s 1 3], BaseTypeFn [98] [82] [Value SERIALIZE_TYPE_SINTARRAY [121] y 2 2]]]"

lemma example_fn_ok:
  "named (example_fn x s y)"
  "leaves (example_fn x s y) = [(SERIALIZE_TYPE_INT, [120], x, 4, 1), (SERIALIZE_TYPE_STRING, [115], s, 1, 3), (SERIALIZE_TYPE_SINTARRAY, [121], y, 2, 2)]"
  by (simp_all add: example_fn_def c_string_def)

lemma example_leaves:
  assumes "length x = 4" and "length s = 3" and "length y = 4"
  shows "list_all leaf_ok (leaves (example_fn x s y))"
  using assms by (simp add: example_fn_ok value_ok_def binary_kind_def SERIALIZE_TYPEMAXTEXTLEN_STRING_def)

theorem Serialize_contents_roundtrip_witness:
  "\<exists>ch ch2 sz' sz2'.
     serialize_call (example_env True) (example_formats (example_env True)) (example_fn [1, 2, 3, 4] [72, 105, 0] [5, 6, 7, 8])
       (example_object True True SERIALIZE_MODE_WRITE ch) = Ok ([[1, 2, 3, 4], [72, 105, 0], [5, 6, 7, 8]], sz') \<and>
     mf_bytes (mem_view (sz_channel sz')) = [1, 2, 3, 4, 3, 0, 72, 105, 0, 5, 6, 7, 8] \<and>
     serialize_call (example_env False) (example_formats (example_env False)) (example_fn [0, 0, 0, 0] [0, 0, 0] [0, 0, 0, 0])
       (example_object False True SERIALIZE_MODE_READ ch2) = Ok ([[4, 3, 2, 1], [72, 105, 0], [6, 5, 8, 7]], sz2')"
proof -
  obtain ch0 :: mem_channel and mem where i: "IOChannel_init IOChannel_zero 20 = Ok (True, ch0, mem)" "fresh_channel ch0" "20 = mem + 8"
    using IOChannel_init_ok [of 20] by auto
  then obtain ch where ch: "mem_inv ch" "mem_view ch = \<lparr>mf_bytes = replicate 13 0, mf_pos = 0, mf_ungot = [],
      mf_room = 1024, mf_eof = False, mf_last = 0\<rparr>"
    using IOChannelMem_open_file [of ch0 "replicate 13 0" mem] by auto
  let ?T = "[1, 2, 3, 4, 3, 0, 72, 105, 0, 5, 6, 7, 8] :: byte list"
  obtain ch2 where ch2: "mem_inv ch2" "mem_view ch2 = \<lparr>mf_bytes = ?T, mf_pos = 0, mf_ungot = [],
      mf_room = 1024, mf_eof = False, mf_last = 0\<rparr>"
    using IOChannelMem_open_file [of ch0 ?T mem] i by auto
  let ?p = "example_fn [1, 2, 3, 4] [72, 105, 0] [5, 6, 7, 8]" and ?q = "example_fn [0, 0, 0, 0] [0, 0, 0] [0, 0, 0, 0]"
  have ok: "list_all leaf_ok (leaves ?p)" "list_all2 leaf_fits (leaves ?p) (leaves ?q)"
    using example_leaves [of "[1, 2, 3, 4]" "[72, 105, 0]" "[5, 6, 7, 8]"] example_leaves [of "[0, 0, 0, 0]" "[0, 0, 0]" "[0, 0, 0, 0]"]
    by (simp_all add: example_fn_ok)
  have T: "emits True True ?p = ?T"
    by (simp add: emits_def example_fn_ok wire_def binary_kind_def ordered_def short_bytes_def Let_def)
  have d: "map2 (leaf_delivered False) (leaves ?p) (leaves ?q) = [[4, 3, 2, 1], [72, 105, 0], [6, 5, 8, 7]]"
    by (simp add: example_fn_ok delivered_def binary_kind_def put_def ordered_def numeral_eq_Suc)
  have e: "se_isLittleEndian (example_env h) = h" for h by (simp add: example_env_def)
  have c: "sz_channel (example_object h b m ch) = ch" for h b m by (simp add: example_object_def)
  have "memory_writer (example_env True) (example_formats (example_env True)) True (length (emits True (se_isLittleEndian (example_env True)) ?p))
      (example_object True True SERIALIZE_MODE_WRITE ch)"
    unfolding e T example_ok using ch by simp
  from Serialize_contents_roundtrip [OF example_fn_ok(1) ok(1) example_fn_ok(1) ok(2) this] obtain sz' where
    sz': "serialize_call (example_env True) (example_formats (example_env True)) ?p (example_object True True SERIALIZE_MODE_WRITE ch) =
        Ok (map leaf_value (leaves ?p), sz')"
      "mem_view (sz_channel sz') = mf_put ?T (mem_view ch)"
    and rd: "\<And>V2 F2 sz2. memory_reader V2 F2 True (mf_bytes (mem_view (sz_channel sz'))) (mf_pos (mem_view ch)) sz2 \<Longrightarrow>
        \<exists>sz2'. serialize_call V2 F2 ?q sz2 = Ok (map2 (leaf_delivered (True = se_isLittleEndian V2)) (leaves ?p) (leaves ?q), sz2')"
    unfolding e T c by blast
  have b: "mf_bytes (mem_view (sz_channel sz')) = ?T" using sz'(2) ch(2) by (simp add: mf_put_def)
  have "memory_reader (example_env False) (example_formats (example_env False)) True (mf_bytes (mem_view (sz_channel sz'))) (mf_pos (mem_view ch))
      (example_object False True SERIALIZE_MODE_READ ch2)"
    unfolding example_ok b using ch ch2 by simp
  from rd [OF this] obtain sz2' where "serialize_call (example_env False) (example_formats (example_env False)) ?q
      (example_object False True SERIALIZE_MODE_READ ch2) = Ok (map2 (leaf_delivered False) (leaves ?p) (leaves ?q), sz2')"
    unfolding e by auto
  moreover have "map leaf_value (leaves ?p) = [[1, 2, 3, 4], [72, 105, 0], [5, 6, 7, 8]]" by (simp add: example_fn_ok)
  ultimately show ?thesis using sz'(1) b unfolding d by auto
qed

subsection \<open>Measuring\<close>

definition measuring :: "('s, 'a) ser_env \<Rightarrow> 's ser_formats \<Rightarrow> bool \<Rightarrow> int \<Rightarrow> 's Serialize \<Rightarrow> bool" where
  "measuring V F b pos sz \<longleftrightarrow> writer V F b sz \<and> sz_mode sz = SERIALIZE_MODE_CALC \<and> sz_stream sz = CalcStream \<and>
     (\<exists>m. sz_calcSizeStream sz = Own m \<and> writing m \<and> calc_can m \<and> ch_currentIndexPosition m = pos)"

text \<open>The header has a known version, and, for version 2.0, the fields that the length of its text depends on.\<close>

definition header_complete :: "'s Serialize \<Rightarrow> bool" where
  "header_complete sz \<longleftrightarrow> (\<exists>h. sz_header sz = Own h \<and> hd_objSize h = 0 \<and> hd_minVersion h = 0 \<and>
     (hd_majVersion h = 1 \<or> hd_majVersion h = 2 \<and>
        (\<forall>key \<in> {''type'', ''name'', ''format''}. \<exists>s. field_value h key sz = Ok (Own s) \<and> 0 \<in> set s) \<and>
        (field_value h ''opts'' sz = Ok Null \<or> (\<exists>s. field_value h ''opts'' sz = Ok (Own s) \<and> 0 \<in> set s))))"

text \<open>The object of the outermost type is open, its contents start at the position of the stream.\<close>

definition object_begun :: "int \<Rightarrow> 's Serialize \<Rightarrow> bool" where
  "object_begun pos sz \<longleftrightarrow> sz_numTypeCalls sz = 1 \<and> \<not> sz_isTranslateMode sz \<and> header_complete sz \<and> 0 \<le> pos \<and> sz_objInitialOffset sz = pos \<and>
     (sz_streamMode sz = SERIALIZE_STREAMMODE_NORMAL \<or> sz_streamMode sz = SERIALIZE_STREAMMODE_LOOP)"

lemma text_of_simps [simp]: "0 \<in> set s \<Longrightarrow> text_of (Own s) k = k (takeWhile (\<lambda>c. c \<noteq> 0) s)"
  by (simp add: text_of_def chars_of_def)

lemma setInfo_size:
  assumes "header_complete sz" and "sz_valid sz = SERIALIZE_VALID" and "0 \<le> osize"
  shows "\<exists>h. SerializeHeader_setInfo None None None None osize sz = Ok (set_header h sz) \<and> hd_objSize h = osize"
proof -
  obtain h where h: "sz_header sz = Own h" "hd_objSize h = 0" "hd_minVersion h = 0"
    and v: "hd_majVersion h = 1 \<or> hd_majVersion h = 2 \<and>
        (\<forall>key \<in> {''type'', ''name'', ''format''}. \<exists>s. field_value h key sz = Ok (Own s) \<and> 0 \<in> set s) \<and>
        (field_value h ''opts'' sz = Ok Null \<or> (\<exists>s. field_value h ''opts'' sz = Ok (Own s) \<and> 0 \<in> set s))"
    using assms(1) unfolding header_complete_def by blast
  define h' where "h' = (if osize > 0 then h\<lparr>hd_objSize := osize\<rparr> else h)"
  have o: "hd_objSize h' = osize" "hd_majVersion h' = hd_majVersion h" "hd_minVersion h' = 0" using h assms(3) by (auto simp: h'_def)
  have l: "hd_listHead h' = hd_listHead h" by (simp add: h'_def)
  have f: "field_value h' key (set_header h' sz) = field_value h key sz" for key by (simp add: field_value_def set_header_def l)
  have s: "set_header a (set_header c sz) = set_header a sz" for a c by (simp add: set_header_def)
  have start: "SerializeHeader_setInfo None None None None osize sz = (let h = h'; sz = set_header h sz in
     header_switch h
       (let text = preamble (hd_majVersion h) (hd_minVersion h) @ [32, 32, 32] @ padded osize @ [32, 32, 10] in
        Ok (set_header (h\<lparr>hd_headerSize := int (length text)\<rparr>) sz))
       (SerializeHeader_updateHeaderSize sz) (Ok (sz\<lparr>sz_errorOccurred := True\<rparr>)))"
    using h(1) by (simp add: SerializeHeader_setInfo_def with_header_def setInfo_field_def opt_text_def Let_def h'_def)
  show ?thesis
  proof (cases "hd_majVersion h = 1")
    case True
    then have "\<exists>len. SerializeHeader_setInfo None None None None osize sz = Ok (set_header (h'\<lparr>hd_headerSize := len\<rparr>) sz)"
      unfolding start Let_def header_switch_def using o s by (simp, blast)
    then show ?thesis using o(1) by fastforce
  next
    case False
    then obtain t n fm where k: "field_value h ''type'' sz = Ok (Own t)" "field_value h ''name'' sz = Ok (Own n)"
      "field_value h ''format'' sz = Ok (Own fm)" "0 \<in> set t" "0 \<in> set n" "0 \<in> set fm" "hd_majVersion h = 2"
      and opts: "field_value h ''opts'' sz = Ok Null \<or> (\<exists>s. field_value h ''opts'' sz = Ok (Own s) \<and> 0 \<in> set s)"
      using v by auto
    have "\<exists>len. SerializeHeader_updateHeaderSize (set_header h' sz) = Ok (set_header (h'\<lparr>hd_headerSize := len\<rparr>) (set_header h' sz))"
    proof -
      have "sz_header (set_header h' sz) = Own h'" "sz_valid (set_header h' sz) = SERIALIZE_VALID" using assms(2) by (simp_all add: set_header_def)
      note u = SerializeHeader_updateHeaderSize_def header_fields_def valid_serialize_def with_header_def Let_def f this k(1-6)
      from opts show ?thesis
      proof
        assume "field_value h ''opts'' sz = Ok Null"
        then show ?thesis by (simp add: u, blast)
      next
        assume "\<exists>s. field_value h ''opts'' sz = Ok (Own s) \<and> 0 \<in> set s"
        then obtain s where "field_value h ''opts'' sz = Ok (Own s)" "0 \<in> set s" by blast
        then show ?thesis by (simp add: u, blast)
      qed
    qed
    then obtain len where "SerializeHeader_updateHeaderSize (set_header h' sz) = Ok (set_header (h'\<lparr>hd_headerSize := len\<rparr>) sz)"
      unfolding s by blast
    then show ?thesis unfolding start Let_def header_switch_def using o k(7) by (intro exI [of _ "h'\<lparr>hd_headerSize := len\<rparr>"]) simp
  qed
qed

lemma end_outermost:
  assumes "measuring V F b (pos + int k) sz" and "object_begun pos sz"
  shows "\<exists>sz'. Serialize_internalEndType V F sz = Ok (Returned () sz') \<and> Serialize_getPayloadSize sz' = Ok (int k)"
proof -
  obtain m where w: "writer V F b sz" "sz_mode sz = SERIALIZE_MODE_CALC" "sz_stream sz = CalcStream" "sz_calcSizeStream sz = Own m"
    "writing m" "ch_currentIndexPosition m = pos + int k"
    using assms(1) unfolding measuring_def by blast
  have b: "binary_set V F b sz" "sz_valid sz = SERIALIZE_VALID" "\<not> sz_errorOccurred sz" using w(1) by (auto simp: writer_def binary_set_def)
  have o: "sz_numTypeCalls sz = 1" "\<not> sz_isTranslateMode sz" "header_complete sz" "0 \<le> pos" "sz_objInitialOffset sz = pos"
    "sz_streamMode sz = SERIALIZE_STREAMMODE_NORMAL \<or> sz_streamMode sz = SERIALIZE_STREAMMODE_LOOP"
    using assms(2) unfolding object_begun_def by blast+
  let ?sz = "sz\<lparr>sz_numTypeCalls := 0\<rparr>"
  have c: "SERIALIZE_SKIPIFERROR sz = Ok (Returned () sz)"
    using b(3) w(3-5) by (simp add: SERIALIZE_SKIPIFERROR_def stream_eof_def ask_stream_def writing_ok(1))
  have e: "SERIALIZEFORMAT_ENDTYPE F sz = Ok ?sz" using o(1) by (simp add: SERIALIZEFORMAT_ENDTYPE_def binary_set_simps [OF b(1)] Let_def)
  have ready: "ch_valid m = IOCHANNEL_VALID" using w(5) by (simp add: writing_def writable_def ready_def)
  have pos: "Serialize_getStreamPosition ?sz = Ok (pos + int k)"
    using b(2) o(2,4) w(3,4,6) ready
    by (simp add: Serialize_getStreamPosition_def valid_serialize_def ask_stream_def IOChannel_getStreamPosition_def valid_channel_def)
  obtain h0 where h0: "sz_header sz = Own h0" "hd_objSize h0 = 0" using o(3) unfolding header_complete_def by blast
  have pay: "Serialize_getPayloadSize ?sz = Ok 0" using h0 b(2) by (simp add: Serialize_getPayloadSize_def valid_serialize_def with_header_def)
  have "header_complete ?sz" using o(3) by (simp add: header_complete_def field_value_def)
  from setInfo_size [OF this, of "int k"] b(2) obtain h where
    h: "SerializeHeader_setInfo None None None None (int k) ?sz = Ok (set_header h ?sz)" "hd_objSize h = int k" by auto
  let ?fin = "set_header h ?sz"
  have ev: "stream_event f ?fin = Ok ?fin" for f
    using w(3,4) by (cases sz) (simp add: stream_event_def on_stream_def set_header_def)
  have last: "Serialize_doLastEndTypeCallOps V ?fin = Ok ?fin"
    using o(6) w(2) ev by (auto simp: Serialize_doLastEndTypeCallOps_def with_header_def set_header_def)
  have "Serialize_internalEndType V F sz = Ok (Returned () ?fin)"
    using o w(2) pos pay h(1) last c e
    by (simp add: Serialize_internalEndType_def binary_set_simps [OF b(1)] Serialize_isTheLastEndTypeCall_def set_header_def lift_flow_def)
  moreover have "Serialize_getPayloadSize ?fin = Ok (int k)"
    using b(2) h(2) by (simp add: Serialize_getPayloadSize_def valid_serialize_def with_header_def set_header_def)
  ultimately show ?thesis by blast
qed

lemma measured_call:
  assumes "measuring V F b pos sz" and "inside sz" and "named p" and "list_all leaf_ok (leaves p)"
  shows "\<exists>sz' q. serialize_call V F p sz = Ok (map leaf_value (leaves p), sz') \<and> settled sz q sz' \<and>
    measuring V F b (pos + int (length (emits b (se_isLittleEndian V) p))) sz'"
proof -
  let ?T = "emits b (se_isLittleEndian V) p"
  have w: "writer V F b sz" "calc_port_can (length ?T) (port sz)" "calc_port_takes [] (port sz) (port sz)"
    using assms(1) by (auto simp: measuring_def calc_port_can_def calc_port_takes_def)
  then have o: "still_to_take calc_port_can calc_port_takes (port sz) ?T (?T @ []) (port sz)" by (auto simp: still_to_take_def)
  have m: "moves (written b (se_isLittleEndian V)) (leaves p) ?T (map leaf_value (leaves p))"
    using moves_written [OF assms(4)] by (simp add: emits_def)
  obtain sz' q where q: "serialize_call V F p sz = Ok (map leaf_value (leaves p), sz')" "settled sz q sz'"
    "still_to_take calc_port_can calc_port_takes (port sz) ?T [] q"
    using calc_writer.call_conveys [OF w(1) assms(2) o assms(3) m] by blast
  then have "calc_port_takes ?T (port sz) (port sz')" "calc_port_can 0 (port sz')"
    using settled_port [OF q(2)] by (auto simp: still_to_take_def)
  moreover have "writer V F b sz'" "sz_mode sz' = SERIALIZE_MODE_CALC"
    using q(2) w(1) assms(1) by (auto simp: settled_def writer_def binary_set_def measuring_def)
  ultimately have "measuring V F b (pos + int (length ?T)) sz'"
    using assms(1) by (auto simp: measuring_def calc_port_takes_def calc_port_can_def)
  with q(1,2) show ?thesis by blast
qed

lemma length_wire:
  assumes "value_ok type val n len"
  shows "length (wire b h type val n len) = length (wire b' h' type val n len)"
proof (cases "binary_kind type")
  case (KElements e)
  then have "int (e * nat len) \<le> int (length val)" using assms by (simp add: value_ok_def)
  then have "e * nat len \<le> length val" by (metis of_nat_le_iff)
  then show ?thesis using KElements by (simp add: wire_def)
qed (simp_all add: wire_def)

lemma length_emits: "list_all leaf_ok (leaves p) \<Longrightarrow> length (emits b h p) = length (emits b' h' p)"
proof -
  have "list_all leaf_ok ls \<Longrightarrow> length (concat (map (leaf_wire b h) ls)) = length (concat (map (leaf_wire b' h') ls))" for ls
    by (induction ls) (auto simp: length_wire)
  then show "list_all leaf_ok (leaves p) \<Longrightarrow> length (emits b h p) = length (emits b' h' p)" by (simp add: emits_def)
qed

text \<open>C26: The measuring mode tells the truth: when a function of the user runs in measuring mode as the contents of an object whose outermost
  type has been begun, ending the type makes the payload size exactly the number of bytes that the same function needs when it
  writes: every memory stream with that many bytes left, on a host of either byte order and with the format set to either, takes the
  contents completely and advances by exactly the payload size.\<close>

theorem Serialize_measures_contents:
  assumes "measuring V F b pos sz" and "object_begun pos sz" and "named p" and "list_all leaf_ok (leaves p)"
  shows "\<exists>sz' sz'' n. serialize_call V F p sz = Ok (map leaf_value (leaves p), sz') \<and>
    Serialize_internalEndType V F sz' = Ok (Returned () sz'') \<and> Serialize_getPayloadSize sz'' = Ok (int n) \<and>
    n = length (emits b (se_isLittleEndian V) p) \<and>
    (\<forall>V2 F2 b2 sz2. memory_writer V2 F2 b2 n sz2 \<longrightarrow>
      (\<exists>sz2'. serialize_call V2 F2 p sz2 = Ok (map leaf_value (leaves p), sz2') \<and>
        mf_pos (mem_view (sz_channel sz2')) = mf_pos (mem_view (sz_channel sz2)) + n))"
proof -
  let ?n = "length (emits b (se_isLittleEndian V) p)"
  have "inside sz" using assms(2) by (simp add: inside_def object_begun_def)
  from measured_call [OF assms(1) this assms(3,4)] obtain sz' q where
    r: "serialize_call V F p sz = Ok (map leaf_value (leaves p), sz')" "settled sz q sz'" "measuring V F b (pos + int ?n) sz'" by blast
  have "object_begun pos sz'" using r(2) assms(2) by (auto simp: settled_def object_begun_def header_complete_def field_value_def)
  from end_outermost [OF r(3) this] obtain sz'' where
    e: "Serialize_internalEndType V F sz' = Ok (Returned () sz'')" "Serialize_getPayloadSize sz'' = Ok (int ?n)" by blast
  have w: "\<exists>sz2'. serialize_call V2 F2 p sz2 = Ok (map leaf_value (leaves p), sz2') \<and>
        mf_pos (mem_view (sz_channel sz2')) = mf_pos (mem_view (sz_channel sz2)) + ?n"
    if "memory_writer V2 F2 b2 ?n sz2" for V2 F2 b2 sz2
    using memory_write [of V2 F2 b2 p sz2] that assms(3,4) length_emits [OF assms(4), of b "se_isLittleEndian V" b2 "se_isLittleEndian V2"]
    by (auto simp: mf_put_def)
  show ?thesis
    by (rule exI [of _ sz'], rule exI [of _ sz''], rule exI [of _ ?n]) (use r(1) e w in simp)
qed

text \<open>A header with the fields of an object, as elements of the list.\<close>

definition example_fields :: rvs where
  "example_fields = \<lparr>rs_heap = \<lparr>cells = [1 \<mapsto> \<lparr>rv_reference = Own (cstr ''type''), rv_value = Own [80, 0], rv_valueLen = 1, rv_referenceLen = 4, rv_next = 2\<rparr>,
     2 \<mapsto> \<lparr>rv_reference = Own (cstr ''name''), rv_value = Own [112, 0], rv_valueLen = 1, rv_referenceLen = 4, rv_next = 3\<rparr>,
     3 \<mapsto> \<lparr>rv_reference = Own (cstr ''format''), rv_value = Own (cstr ''Binary''), rv_valueLen = 6, rv_referenceLen = 6, rv_next = 0\<rparr>], brk = Suc (Suc (Suc (Suc 0)))\<rparr>, rs_mem = 0\<rparr>"

definition example_header :: SerializeHeader where
  "example_header = \<lparr>hd_majVersion = 2, hd_minVersion = 0, hd_objSize = 0, hd_listHead = 1, hd_listTail = 3, hd_poolHead = 0, hd_poolTail = 0,
     hd_typeSize = 9, hd_nameSize = 9, hd_optsSize = 9, hd_formatSize = 9, hd_headerSize = 0, hd_dumpable = False\<rparr>"

definition example_begun :: "bool \<Rightarrow> bool \<Rightarrow> calc_channel \<Rightarrow> IOChannelGenericMem Serialize" where
  "example_begun h b m = (example_object h b SERIALIZE_MODE_CALC IOChannel_zero)\<lparr>sz_isTranslateMode := False, sz_numTypeCalls := 1,
     sz_stream := CalcStream, sz_calcSizeStream := Own m, sz_header := Own example_header, sz_rvs := example_fields,
     sz_streamMode := SERIALIZE_STREAMMODE_NORMAL\<rparr>"

lemma example_fields_found:
  "field_value example_header ''type'' (example_begun h b m) = Ok (Own [80, 0])"
  "field_value example_header ''name'' (example_begun h b m) = Ok (Own [112, 0])"
  "field_value example_header ''format'' (example_begun h b m) = Ok (Own (cstr ''Binary''))"
  "field_value example_header ''opts'' (example_begun h b m) = Ok Null"
  by (simp_all add: field_value_def example_header_def example_begun_def example_fields_def SerializeReferenceValue_findValue_def
      cstr_def ascii_def Any_strlen_def)

lemma example_begun_ok:
  assumes "writing m" and "calc_can m" and "ch_currentIndexPosition m = 0"
  shows "measuring (example_env h) (example_formats (example_env h)) b 0 (example_begun h b m)" "object_begun 0 (example_begun h b m)"
proof -
  show "measuring (example_env h) (example_formats (example_env h)) b 0 (example_begun h b m)"
    using assms by (auto simp: measuring_def writer_def binary_set_def example_env_def example_formats_def example_begun_def
        example_object_def Serialize_zero_def)
  have "\<forall>key \<in> {''type'', ''name'', ''format''}. \<exists>s. field_value example_header key (example_begun h b m) = Ok (Own s) \<and> 0 \<in> set s"
    by (simp add: example_fields_found cstr_def)
  then have "header_complete (example_begun h b m)"
    unfolding header_complete_def using example_fields_found(4) [of h b m]
    by (intro exI [of _ example_header]) (simp add: example_begun_def example_header_def)
  then show "object_begun 0 (example_begun h b m)"
    by (simp add: object_begun_def) (simp add: example_begun_def example_object_def Serialize_zero_def)
qed

theorem Serialize_measures_contents_witness:
  "\<exists>m ch sz' sz'' sz2'.
     serialize_call (example_env True) (example_formats (example_env True)) (example_fn [1, 2, 3, 4] [72, 105, 0] [5, 6, 7, 8])
       (example_begun True True m) = Ok ([[1, 2, 3, 4], [72, 105, 0], [5, 6, 7, 8]], sz') \<and>
     Serialize_internalEndType (example_env True) (example_formats (example_env True)) sz' = Ok (Returned () sz'') \<and>
     Serialize_getPayloadSize sz'' = Ok 13 \<and> length (mf_bytes (mem_view ch)) = 13 \<and>
     serialize_call (example_env False) (example_formats (example_env False)) (example_fn [1, 2, 3, 4] [72, 105, 0] [5, 6, 7, 8])
       (example_object False True SERIALIZE_MODE_WRITE ch) = Ok ([[1, 2, 3, 4], [72, 105, 0], [5, 6, 7, 8]], sz2') \<and>
     mf_pos (mem_view (sz_channel sz2')) = 13"
proof -
  obtain m0 :: calc_channel and mem where i: "IOChannel_init IOChannel_zero 9 = Ok (True, m0, mem)" "fresh_channel m0" "9 = mem + 8"
    using IOChannel_init_ok [of 9] by auto
  then obtain m where m: "writing m" "calc_can m" "ch_currentIndexPosition m = 0"
    using IOChannelCalc_open_ok [of m0 mem] by (auto simp: calc_can_def writing_def)
  obtain ch0 :: mem_channel and mem where i: "IOChannel_init IOChannel_zero 20 = Ok (True, ch0, mem)" "fresh_channel ch0" "20 = mem + 8"
    using IOChannel_init_ok [of 20] by auto
  then obtain ch where ch: "mem_inv ch" "mem_view ch = \<lparr>mf_bytes = replicate 13 0, mf_pos = 0, mf_ungot = [],
      mf_room = 1024, mf_eof = False, mf_last = 0\<rparr>"
    using IOChannelMem_open_file [of ch0 "replicate 13 0" mem] by auto
  let ?p = "example_fn [1, 2, 3, 4] [72, 105, 0] [5, 6, 7, 8]" and ?V = "example_env True"
  have ok: "list_all leaf_ok (leaves ?p)" "map leaf_value (leaves ?p) = [[1, 2, 3, 4], [72, 105, 0], [5, 6, 7, 8]]"
    by (rule example_leaves, simp_all add: example_fn_ok)
  note R = Serialize_measures_contents [OF example_begun_ok [OF m, of True True] example_fn_ok(1) ok(1), unfolded ok(2)]
  have n: "length (emits True (se_isLittleEndian ?V) ?p) = 13"
    by (simp add: emits_def example_fn_ok wire_def binary_kind_def ordered_def short_bytes_def Let_def example_env_def)
  from R obtain sz' sz'' where r: "serialize_call ?V (example_formats ?V) ?p (example_begun True True m) =
      Ok ([[1, 2, 3, 4], [72, 105, 0], [5, 6, 7, 8]], sz')"
    "Serialize_internalEndType ?V (example_formats ?V) sz' = Ok (Returned () sz'')" "Serialize_getPayloadSize sz'' = Ok (int 13)"
    and w: "\<And>V2 F2 b2 sz2. memory_writer V2 F2 b2 13 sz2 \<Longrightarrow>
      \<exists>sz2'. serialize_call V2 F2 ?p sz2 = Ok ([[1, 2, 3, 4], [72, 105, 0], [5, 6, 7, 8]], sz2') \<and>
        mf_pos (mem_view (sz_channel sz2')) = mf_pos (mem_view (sz_channel sz2)) + 13"
    unfolding n by blast
  have "memory_writer (example_env False) (example_formats (example_env False)) True 13 (example_object False True SERIALIZE_MODE_WRITE ch)"
    unfolding example_ok using ch by simp
  from w [OF this] obtain sz2' where "serialize_call (example_env False) (example_formats (example_env False)) ?p
      (example_object False True SERIALIZE_MODE_WRITE ch) = Ok ([[1, 2, 3, 4], [72, 105, 0], [5, 6, 7, 8]], sz2')"
    "mf_pos (mem_view (sz_channel sz2')) = mf_pos (mem_view ch) + 13" by (auto simp: example_object_def)
  with r ch(2) show ?thesis
    by - (rule exI [of _ m], rule exI [of _ ch], rule exI [of _ sz'], rule exI [of _ sz''], rule exI [of _ sz2'], simp)
qed

end
