(* ===== verification/Ser_Text.thy ===== *)
theory Ser_Text
  imports Ser_Object
begin

text \<open>
  What the text formats of src/src/SerializeFormats.c share: values in memory as the arguments of the
  formatted output and input, the calls of the serializer they make, and the parts of their code that
  are the same up to the name of the format.

  A format text is a list of characters that is built from the name of a value, so a percent sign in a
  name is taken for a conversion, as in the code. \<open>val\<close> is the memory behind the pointer to a value.
\<close>

subsection \<open>Values in memory\<close>

definition SERIALIZE_DATABUFFER_MAXLEN :: nat where "SERIALIZE_DATABUFFER_MAXLEN = 2048"

fun le_nat :: "byte list \<Rightarrow> nat" where
  "le_nat [] = 0"
| "le_nat (b # bs) = unat b + 256 * le_nat bs"

fun nat_le :: "nat \<Rightarrow> nat \<Rightarrow> byte list" where
  "nat_le 0 v = []"
| "nat_le (Suc k) v = word_of_nat v # nat_le k (v div 256)"

definition host_nat :: "bool \<Rightarrow> byte list \<Rightarrow> nat" where
  "host_nat little bs = le_nat (if little then bs else rev bs)"

definition host_bytes :: "bool \<Rightarrow> nat \<Rightarrow> nat \<Rightarrow> byte list" where
  "host_bytes little k v = (if little then nat_le k v else rev (nat_le k v))"

definition num_size :: "num_type \<Rightarrow> nat" where
  "num_size t = num_bits t div 8"

fun float_size :: "float_type \<Rightarrow> nat" where
  "float_size TFloat = 4" | "float_size TDouble = 8" | "float_size TLDouble = 16"

definition num_of :: "bool \<Rightarrow> num_type \<Rightarrow> byte list \<Rightarrow> int" where
  "num_of little t bs =
     (let v = int (host_nat little bs) in
      if is_unsigned t \<or> v < 2 ^ (num_bits t - 1) then v else v - 2 ^ num_bits t)"

definition num_bytes :: "bool \<Rightarrow> num_type \<Rightarrow> int \<Rightarrow> byte list" where
  "num_bytes little t i = host_bytes little (num_size t) (nat (i mod 2 ^ num_bits t))"

text \<open>The argument a conversion takes when it gets the pointer to \<open>mem\<close>, and what \<open>mem\<close> is after an input
  through this pointer. An invalid conversion does not look at its argument.\<close>

definition load_arg :: "bool \<Rightarrow> string \<Rightarrow> byte list \<Rightarrow> unit vararg outcome" where
  "load_arg little spec mem = (case fst (print_conversion (drop 1 spec)) of
     CNum t \<Rightarrow> defined_if (num_size t \<le> length mem) (Ok (NumArg t (num_of little t (take (num_size t) mem))))
   | CFloat t \<Rightarrow> defined_if (float_size t \<le> length mem) (Ok (FloatArg t (host_nat little (take (float_size t) mem))))
   | CQChar \<Rightarrow> (case mem of [] \<Rightarrow> Fault | c # _ \<Rightarrow> Ok (CharArg c))
   | CQStr \<Rightarrow> Ok (StrArg mem)
   | CBad \<Rightarrow> Ok NullArg
   | _ \<Rightarrow> Fault)"

definition store_arg :: "bool \<Rightarrow> unit vararg list \<Rightarrow> byte list \<Rightarrow> byte list" where
  "store_arg little args mem = (case args of
     NumArg t i # _ \<Rightarrow> num_bytes little t i @ drop (num_size t) mem
   | FloatArg t v # _ \<Rightarrow> host_bytes little (float_size t) v @ drop (float_size t) mem
   | CharArg c # _ \<Rightarrow> c # drop 1 mem
   | StrArg s # _ \<Rightarrow> s
   | _ \<Rightarrow> mem)"

subsection \<open>Calls of the serializer\<close>

definition put_text :: "('s, 'a) ser_env \<Rightarrow> string \<Rightarrow> unit vararg list \<Rightarrow> 's Serialize \<Rightarrow> 's Serialize outcome" where
  "put_text V fmt args sz = omap snd (Serialize_printf V fmt args sz)"

definition SERIALIZE_INDENT :: "('s, 'a) ser_env \<Rightarrow> 's Serialize \<Rightarrow> 's Serialize outcome" where
  "SERIALIZE_INDENT V sz = omap snd (Serialize_indent V sz)"

definition SERIALIZE_INDENT_INCR :: "'s Serialize \<Rightarrow> 's Serialize" where
  "SERIALIZE_INDENT_INCR sz = sz\<lparr>sz_indentLevel := sz_indentLevel sz + SERIALIZE_INDENT_SIZE\<rparr>"

definition SERIALIZE_INDENT_DECR :: "'s Serialize \<Rightarrow> 's Serialize" where
  "SERIALIZE_INDENT_DECR sz = sz\<lparr>sz_indentLevel := sz_indentLevel sz - SERIALIZE_INDENT_SIZE\<rparr>"

definition deploy_text :: "('s, 'a) ser_env \<Rightarrow> SerializeType \<Rightarrow> string \<Rightarrow> byte list \<Rightarrow> 's Serialize \<Rightarrow> 's Serialize outcome" where
  "deploy_text V type spec val sz =
     obind (load_arg (se_isLittleEndian V) spec val) (\<lambda>arg.
     omap snd (Serialize_deployDataType V type (SERIALIZE_DEPLOYDATAMODE_ASCII spec arg) sz))"

definition put_value :: "('s, 'a) ser_env \<Rightarrow> string \<Rightarrow> string \<Rightarrow> byte list \<Rightarrow> 's Serialize \<Rightarrow> 's Serialize outcome" where
  "put_value V fmt spec val sz = obind (load_arg (se_isLittleEndian V) spec val) (\<lambda>arg. put_text V fmt [arg] sz)"

text \<open>A number of the code itself, printed with \<^verbatim>\<open>%d\<close>.\<close>

definition deploy_int :: "('s, 'a) ser_env \<Rightarrow> int \<Rightarrow> 's Serialize \<Rightarrow> 's Serialize outcome" where
  "deploy_int V i sz =
     omap snd (Serialize_deployDataType V SERIALIZE_TYPE_INT (SERIALIZE_DEPLOYDATAMODE_ASCII ''%d'' (NumArg TInt i)) sz)"

text \<open>Input that only matches a pattern, and input of the value behind a pointer.\<close>

definition match_text :: "('s, 'a) ser_env \<Rightarrow> string \<Rightarrow> 's Serialize \<Rightarrow> 's Serialize outcome" where
  "match_text V fmt sz = omap snd (Serialize_scanf V fmt [] sz)"

definition scan_value :: "('s, 'a) ser_env \<Rightarrow> string \<Rightarrow> string \<Rightarrow> byte list \<Rightarrow> 's Serialize \<Rightarrow> (byte list \<times> 's Serialize) outcome" where
  "scan_value V fmt spec val sz =
     obind (load_arg (se_isLittleEndian V) spec val) (\<lambda>arg.
     omap (\<lambda>((n, args), sz). (store_arg (se_isLittleEndian V) args val, sz)) (Serialize_scanf V fmt [arg] sz))"

text \<open>A name read into a buffer of the function; only messages depend on it.\<close>

definition scan_name :: "('s, 'a) ser_env \<Rightarrow> string \<Rightarrow> nat \<Rightarrow> 's Serialize \<Rightarrow> 's Serialize outcome" where
  "scan_name V fmt n sz = omap snd (Serialize_scanf V fmt [StrArg (replicate n 0)] sz)"

text \<open>The switch over the mode; in another mode a message is logged.\<close>

definition by_mode :: "'s Serialize \<Rightarrow> 'b \<Rightarrow> 'b \<Rightarrow> 'b \<Rightarrow> 'b" where
  "by_mode sz r w other =
     (if sz_mode sz = SERIALIZE_MODE_READ then r
      else if sz_mode sz = SERIALIZE_MODE_WRITE \<or> sz_mode sz = SERIALIZE_MODE_CALC then w else other)"

subsection \<open>Texts\<close>

definition str_of :: "byte list \<Rightarrow> string" where
  "str_of s = map (\<lambda>b. char_of (unat b)) s"

text \<open>The characters of a C string as a part of a format.\<close>

definition as_text :: "byte list \<Rightarrow> (string \<Rightarrow> 'b outcome) \<Rightarrow> 'b outcome" where
  "as_text s k = obind (chars_of s) (\<lambda>s. k (str_of s))"

text \<open>\<^verbatim>\<open>snprintf\<close> into a buffer whose size is given as \<open>n\<close>.\<close>

definition format_text :: "nat \<Rightarrow> string \<Rightarrow> string" where
  "format_text n t = take (n - 1) t"

definition decimal_text :: "int \<Rightarrow> string" where
  "decimal_text i = str_of (signed_decimal i)"

subsection \<open>Types\<close>

definition ascii_typeInfo :: "SerializeType \<Rightarrow> (string \<times> string) outcome" where
  "ascii_typeInfo t = (case t of
     SERIALIZE_TYPE_CHAR \<Rightarrow> Ok (''%qc'', ''char'') | SERIALIZE_TYPE_CHARARRAY \<Rightarrow> Ok (''%qc'', ''char'')
   | SERIALIZE_TYPE_SCHAR \<Rightarrow> Ok (''%d'', ''signed_char'') | SERIALIZE_TYPE_SCHARARRAY \<Rightarrow> Ok (''%d'', ''signed_char'')
   | SERIALIZE_TYPE_UCHAR \<Rightarrow> Ok (''%u'', ''unsigned_char'') | SERIALIZE_TYPE_UCHARARRAY \<Rightarrow> Ok (''%u'', ''unsigned_char'')
   | SERIALIZE_TYPE_SINT \<Rightarrow> Ok (''%hd'', ''short_int'') | SERIALIZE_TYPE_SINTARRAY \<Rightarrow> Ok (''%hd'', ''short_int'')
   | SERIALIZE_TYPE_USINT \<Rightarrow> Ok (''%hu'', ''short_unsigned'') | SERIALIZE_TYPE_USINTARRAY \<Rightarrow> Ok (''%hu'', ''short_unsigned'')
   | SERIALIZE_TYPE_INT \<Rightarrow> Ok (''%d'', ''int'') | SERIALIZE_TYPE_INTARRAY \<Rightarrow> Ok (''%d'', ''int'')
   | SERIALIZE_TYPE_UINT \<Rightarrow> Ok (''%u'', ''unsigned_int'') | SERIALIZE_TYPE_UINTARRAY \<Rightarrow> Ok (''%u'', ''unsigned_int'')
   | SERIALIZE_TYPE_LINT \<Rightarrow> Ok (''%ld'', ''long_int'') | SERIALIZE_TYPE_LINTARRAY \<Rightarrow> Ok (''%ld'', ''long_int'')
   | SERIALIZE_TYPE_ULINT \<Rightarrow> Ok (''%lu'', ''long_unsigned_int'') | SERIALIZE_TYPE_ULINTARRAY \<Rightarrow> Ok (''%lu'', ''long_unsigned_int'')
   | SERIALIZE_TYPE_LL \<Rightarrow> Ok (''%lld'', ''long_long'') | SERIALIZE_TYPE_LLARRAY \<Rightarrow> Ok (''%lld'', ''long_long'')
   | SERIALIZE_TYPE_ULL \<Rightarrow> Ok (''%llu'', ''long_long_unsigned'') | SERIALIZE_TYPE_ULLARRAY \<Rightarrow> Ok (''%llu'', ''long_long_unsigned'')
   | SERIALIZE_TYPE_FLOAT \<Rightarrow> Ok (''%f'', ''float'') | SERIALIZE_TYPE_FLOATARRAY \<Rightarrow> Ok (''%f'', ''float'')
   | SERIALIZE_TYPE_DOUBLE \<Rightarrow> Ok (''%lf'', ''double'') | SERIALIZE_TYPE_DOUBLEARRAY \<Rightarrow> Ok (''%lf'', ''double'')
   | SERIALIZE_TYPE_LDOUBLE \<Rightarrow> Ok (''%LF'', ''long_double'') | SERIALIZE_TYPE_LDOUBLEARRAY \<Rightarrow> Ok (''%LF'', ''long_double'')
   | SERIALIZE_TYPE_STRING \<Rightarrow> Ok (''%qs'', ''string'')
   | SERIALIZE_TYPE_OTHER \<Rightarrow> Require)"

definition is_char_type :: "SerializeType \<Rightarrow> bool" where
  "is_char_type t \<longleftrightarrow> t \<in> {SERIALIZE_TYPE_CHAR, SERIALIZE_TYPE_UCHAR, SERIALIZE_TYPE_SCHAR,
     SERIALIZE_TYPE_CHARARRAY, SERIALIZE_TYPE_UCHARARRAY, SERIALIZE_TYPE_SCHARARRAY}"

definition is_signed_char :: "SerializeType \<Rightarrow> bool" where
  "is_signed_char t \<longleftrightarrow> t \<in> {SERIALIZE_TYPE_CHAR, SERIALIZE_TYPE_SCHAR, SERIALIZE_TYPE_CHARARRAY, SERIALIZE_TYPE_SCHARARRAY}"

subsection \<open>Elements\<close>

text \<open>A function that gets the pointer to the memory \<open>off\<close> bytes further on.\<close>

definition at_element :: "int \<Rightarrow> (byte list \<Rightarrow> 's \<Rightarrow> (byte list \<times> 's) outcome) \<Rightarrow> byte list \<Rightarrow> 's \<Rightarrow> (byte list \<times> 's) outcome" where
  "at_element off f val s = defined_if (0 \<le> off \<and> off \<le> int (length val))
     (omap (\<lambda>(m, s). (take (nat off) val @ m, s)) (f (drop (nat off) val) s))"

fun for_elements :: "(int \<Rightarrow> byte list \<Rightarrow> 's \<Rightarrow> (byte list \<times> 's) outcome) \<Rightarrow> nat \<Rightarrow> int \<Rightarrow> byte list \<Rightarrow> 's \<Rightarrow> (byte list \<times> 's) outcome" where
  "for_elements f 0 i val s = Ok (val, s)"
| "for_elements f (Suc k) i val s = obind (f i val s) (\<lambda>(val, s). for_elements f k (i + 1) val s)"

text \<open>Characters go through the variable \<^verbatim>\<open>int auxData\<close>, to which \<open>f\<close> gets a pointer; after reading, what it holds
  has to be in the range of the type. A \<^verbatim>\<open>char\<close> is signed.\<close>

definition char_through_int :: "bool \<Rightarrow> SerializeType \<Rightarrow> int \<Rightarrow> (byte list \<Rightarrow> 's Serialize \<Rightarrow> (byte list \<times> 's Serialize) outcome) \<Rightarrow>
    byte list \<Rightarrow> 's Serialize \<Rightarrow> (byte list \<times> 's Serialize) outcome" where
  "char_through_int little type off f val sz = defined_if (0 \<le> off \<and> off < int (length val))
     (let c = val ! nat off; auxData = (if is_signed_char type then sint c else uint c) in
      obind (f (num_bytes little TInt auxData) sz) (\<lambda>(aux, sz).
      let auxData = num_of little TInt aux in
      if sz_mode sz = SERIALIZE_MODE_READ
      then ANY_REQUIRE (if is_signed_char type then auxData \<le> 127 \<and> auxData \<ge> -128 else auxData \<le> 255)
        (Ok (val[nat off := word_of_int auxData], sz))
      else Ok (val, sz)))"

end
