(* ===== verification/Ser_Ascii.thy ===== *)
theory Ser_Ascii
  imports Ser_Text
begin

text \<open>
  The Ascii format (src/src/SerializeFormats.c): a text like the initialisation of C structures. The
  options of the format say whether the types are printed too.
\<close>

subsection \<open>The options\<close>

definition ascii_data :: "'s Serialize \<Rightarrow> (bool \<Rightarrow> 'b outcome) \<Rightarrow> 'b outcome" where
  "ascii_data sz k = obind (Serialize_getFormatDataPtr sz) (\<lambda>p. require_ptr p (\<lambda>d.
     case d of SerializeFormatAsciiOptions b \<Rightarrow> k b | _ \<Rightarrow> Fault))"

definition set_ascii_data :: "bool \<Rightarrow> 's Serialize \<Rightarrow> 's Serialize outcome" where
  "set_ascii_data b sz = ascii_data sz (\<lambda>_.
     obind (hupd (sz_infos sz) (sz_format sz) (\<lambda>info. info\<lparr>fi_data := Own (SerializeFormatAsciiOptions b)\<rparr>)) (\<lambda>infos.
     Ok (sz\<lparr>sz_infos := infos\<rparr>)))"

definition SerializeFormatAscii_isWithType :: "'s Serialize \<Rightarrow> bool outcome" where
  "SerializeFormatAscii_isWithType sz = ascii_data sz Ok"

definition SerializeFormatAscii_getTypeInfo :: "SerializeType \<Rightarrow> (string \<times> string) outcome" where
  "SerializeFormatAscii_getTypeInfo type = ascii_typeInfo type"

subsection \<open>Types and arrays\<close>

definition SerializeFormatAscii_beginType :: "('s, 'a) ser_env \<Rightarrow> byte list \<Rightarrow> byte list \<Rightarrow> 's Serialize \<Rightarrow> 's Serialize outcome" where
  "SerializeFormatAscii_beginType V name type sz = by_mode sz
     (obind (SerializeFormatAscii_isWithType sz) (\<lambda>withType.
      if withType
      then as_text type (\<lambda>t. scan_name V (format_text (nat SERIALIZE_HEADER_MAXLEN) (''struct '' @ t @ '' %s = { '')) 512 sz)
      else scan_name V ''%s = { '' 512 sz))
     (obind (SERIALIZE_INDENT V sz) (\<lambda>sz.
      obind (SerializeFormatAscii_isWithType sz) (\<lambda>withType.
      obind (if withType then put_text V (''struct %s %s ='' @ [CHR 0x0A]) [StrArg type, StrArg name] sz
             else put_text V (''%s ='' @ [CHR 0x0A]) [StrArg name] sz) (\<lambda>sz.
      obind (SERIALIZE_INDENT V sz) (\<lambda>sz.
      obind (put_text V (''{'' @ [CHR 0x0A]) [] sz) (\<lambda>sz.
      Ok (SERIALIZE_INDENT_INCR sz)))))))
     (Ok sz)"

definition SerializeFormatAscii_beginBaseType :: "byte list \<Rightarrow> byte list \<Rightarrow> 's Serialize \<Rightarrow> 's Serialize outcome" where
  "SerializeFormatAscii_beginBaseType name type sz = Ok sz"

definition SerializeFormatAscii_beginArray :: "('s, 'a) ser_env \<Rightarrow> SerializeType \<Rightarrow> byte list \<Rightarrow> int \<Rightarrow> 's Serialize \<Rightarrow> 's Serialize outcome" where
  "SerializeFormatAscii_beginArray V type arrayName arrayLen sz = ANY_REQUIRE (arrayLen > 0)
     (obind (SerializeFormatAscii_getTypeInfo type) (\<lambda>(spec, typeTag). by_mode sz
       (obind (SerializeFormatAscii_isWithType sz) (\<lambda>withType.
        as_text arrayName (\<lambda>name.
        match_text V
          (if withType then format_text (SERIALIZE_DATABUFFER_MAXLEN - 7) (typeTag @ '' '' @ name @ ''['' @ decimal_text arrayLen @ ''] = '')
           else format_text (SERIALIZE_DATABUFFER_MAXLEN - 6) (name @ ''['' @ decimal_text arrayLen @ ''] = '')) sz)))
       (obind (SERIALIZE_INDENT V sz) (\<lambda>sz.
        obind (SerializeFormatAscii_isWithType sz) (\<lambda>withType.
        obind (if withType then put_text V ''%s %s['' [StrArg (cstr typeTag), StrArg arrayName] sz
               else put_text V ''%s['' [StrArg arrayName] sz) (\<lambda>sz.
        obind (deploy_int V arrayLen sz) (\<lambda>sz.
        obind (put_text V ''] ='' [] sz) (\<lambda>sz.
        Ok (SERIALIZE_INDENT_INCR sz)))))))
       (Ok sz)))"

definition SerializeFormatAscii_beginStructArray :: "('s, 'a) ser_env \<Rightarrow> byte list \<Rightarrow> byte list \<Rightarrow> int \<Rightarrow> 's Serialize \<Rightarrow>
    's Serialize outcome" where
  "SerializeFormatAscii_beginStructArray V arrayName elementType arrayLen sz = by_mode sz
     (obind (SerializeFormatAscii_isWithType sz) (\<lambda>withType.
      as_text arrayName (\<lambda>name. as_text elementType (\<lambda>type.
      match_text V
        (if withType then format_text (SERIALIZE_DATABUFFER_MAXLEN - 9) (type @ '' '' @ name @ ''['' @ decimal_text arrayLen @ ''] = { '')
         else format_text (SERIALIZE_DATABUFFER_MAXLEN - 8) (name @ ''['' @ decimal_text arrayLen @ ''] = { '')) sz))))
     (obind (SERIALIZE_INDENT V sz) (\<lambda>sz.
      obind (SerializeFormatAscii_isWithType sz) (\<lambda>withType.
      obind (if withType then put_text V ''%s %s['' [StrArg elementType, StrArg arrayName] sz
             else put_text V ''%s['' [StrArg arrayName] sz) (\<lambda>sz.
      obind (deploy_int V arrayLen sz) (\<lambda>sz.
      obind (put_text V (''] = '' @ [CHR 0x0A]) [] sz) (\<lambda>sz.
      obind (SERIALIZE_INDENT V sz) (\<lambda>sz.
      obind (put_text V (''{'' @ [CHR 0x0A]) [StrArg arrayName] sz) (\<lambda>sz.
      Ok (SERIALIZE_INDENT_INCR sz)))))))))
     (Ok sz)"

definition SerializeFormatAscii_beginStructArraySeparator :: "byte list \<Rightarrow> int \<Rightarrow> int \<Rightarrow> 's Serialize \<Rightarrow> 's Serialize outcome" where
  "SerializeFormatAscii_beginStructArraySeparator name pos len sz = Ok sz"

definition SerializeFormatAscii_endStructArraySeparator :: "byte list \<Rightarrow> int \<Rightarrow> int \<Rightarrow> 's Serialize \<Rightarrow> 's Serialize outcome" where
  "SerializeFormatAscii_endStructArraySeparator name pos len sz = Ok sz"

definition SerializeFormatAscii_endStructArray :: "('s, 'a) ser_env \<Rightarrow> 's Serialize \<Rightarrow> 's Serialize outcome" where
  "SerializeFormatAscii_endStructArray V sz = by_mode sz
     (match_text V ''} '' sz)
     (obind (SERIALIZE_INDENT V (SERIALIZE_INDENT_DECR sz)) (put_text V (''}'' @ [CHR 0x0A]) []))
     (Ok sz)"

definition SerializeFormatAscii_endArray :: "SerializeType \<Rightarrow> byte list \<Rightarrow> int \<Rightarrow> 's Serialize \<Rightarrow> 's Serialize outcome" where
  "SerializeFormatAscii_endArray type arrayName arrayLen sz = ANY_REQUIRE (arrayLen > 0)
     (by_mode sz (Ok sz) (Ok (SERIALIZE_INDENT_DECR sz)) (Ok sz))"

definition SerializeFormatAscii_endBaseType :: "'s Serialize \<Rightarrow> 's Serialize outcome" where
  "SerializeFormatAscii_endBaseType sz = Ok sz"

definition SerializeFormatAscii_endType :: "('s, 'a) ser_env \<Rightarrow> 's Serialize \<Rightarrow> 's Serialize outcome" where
  "SerializeFormatAscii_endType V sz = by_mode sz
     (match_text V (''}'' @ [CHR 0x0A]) sz)
     (obind (SERIALIZE_INDENT V (SERIALIZE_INDENT_DECR sz)) (put_text V (''}'' @ [CHR 0x0A]) []))
     (Ok sz)"

definition SerializeFormatAscii_getAllowedModes :: "'s Serialize \<Rightarrow> uint32 outcome" where
  "SerializeFormatAscii_getAllowedModes sz = Ok SERIALIZE_MODE_CALC"

subsection \<open>Values\<close>

definition SerializeFormatAscii_doSerializeField :: "('s, 'a) ser_env \<Rightarrow> SerializeType \<Rightarrow> byte list \<Rightarrow> int \<Rightarrow> byte list \<Rightarrow> 's Serialize \<Rightarrow>
    (byte list \<times> 's Serialize) outcome" where
  "SerializeFormatAscii_doSerializeField V type name n val sz = ANY_REQUIRE (n > 0)
     (obind (SerializeFormatAscii_getTypeInfo type) (\<lambda>(spec, typeTag). by_mode sz
       (obind (SerializeFormatAscii_isWithType sz) (\<lambda>withType.
        as_text name (\<lambda>name.
        scan_value V
          (if withType then format_text (SERIALIZE_DATABUFFER_MAXLEN - 6) (typeTag @ '' '' @ name @ '' = '' @ spec @ '';'')
           else format_text (SERIALIZE_DATABUFFER_MAXLEN - 5) (name @ '' = '' @ spec @ '';'')) spec val sz)))
       (obind (SERIALIZE_INDENT V sz) (\<lambda>sz.
        obind (SerializeFormatAscii_isWithType sz) (\<lambda>withType.
        obind (if withType then put_text V ''%s %s = '' [StrArg (cstr typeTag), StrArg name] sz
               else put_text V ''%s = '' [StrArg name] sz) (\<lambda>sz.
        obind (deploy_text V type spec val sz) (\<lambda>sz.
        obind (put_text V ('';'' @ [CHR 0x0A]) [] sz) (\<lambda>sz.
        Ok (val, sz)))))))
       (Ok (val, sz))))"

text \<open>The texts are formats that are built into a buffer, for writing as well.\<close>

definition SerializeFormatAscii_doSerializeString :: "('s, 'a) ser_env \<Rightarrow> SerializeType \<Rightarrow> byte list \<Rightarrow> int \<Rightarrow> int \<Rightarrow> byte list \<Rightarrow>
    's Serialize \<Rightarrow> (byte list \<times> 's Serialize) outcome" where
  "SerializeFormatAscii_doSerializeString V type name n len val sz = ANY_REQUIRE (n > 0)
     (ANY_REQUIRE (type = SERIALIZE_TYPE_STRING \<or> len > 0)
     (obind (SerializeFormatAscii_getTypeInfo type) (\<lambda>(spec, typeTag). by_mode sz
       (obind (SerializeFormatAscii_isWithType sz) (\<lambda>withType.
        as_text name (\<lambda>name.
        scan_value V
          (if withType then format_text (SERIALIZE_DATABUFFER_MAXLEN - 9)
             (typeTag @ '' '' @ name @ ''['' @ decimal_text len @ ''] = '' @ spec @ ''; '')
           else format_text (SERIALIZE_DATABUFFER_MAXLEN - 8) (name @ ''['' @ decimal_text len @ ''] = '' @ spec @ ''; '')) spec val sz)))
       (obind (SERIALIZE_INDENT V sz) (\<lambda>sz.
        obind (SerializeFormatAscii_isWithType sz) (\<lambda>withType.
        as_text name (\<lambda>name.
        obind (put_value V
          (if withType then format_text (SERIALIZE_DATABUFFER_MAXLEN - 9)
             (typeTag @ '' '' @ name @ ''['' @ decimal_text len @ ''] = '' @ spec @ '';'' @ [CHR 0x0A])
           else format_text (SERIALIZE_DATABUFFER_MAXLEN - 8)
             (name @ ''['' @ decimal_text len @ ''] = '' @ spec @ '';'' @ [CHR 0x0A])) spec val sz) (\<lambda>sz.
        Ok (val, sz))))))
       (Ok (val, sz)))))"

text \<open>\<open>val\<close> starts at the element.\<close>

definition ascii_element :: "('s, 'a) ser_env \<Rightarrow> SerializeType \<Rightarrow> string \<Rightarrow> int \<Rightarrow> int \<Rightarrow> byte list \<Rightarrow> 's Serialize \<Rightarrow>
    (byte list \<times> 's Serialize) outcome" where
  "ascii_element V type spec len i val sz =
     (let isLastArrayElement = (i = len - 1) in by_mode sz
       (scan_value V (format_text (SERIALIZE_DATABUFFER_MAXLEN - 2) (spec @ (if isLastArrayElement then '';'' else '' ''))) spec val sz)
       (obind (if sz_columnWrap sz > 0 \<and> i mod sz_columnWrap sz = 0
               then obind (put_text V [CHR 0x0A] [] sz) (SERIALIZE_INDENT V) else Ok sz) (\<lambda>sz.
        obind (deploy_text V type spec val sz) (\<lambda>sz.
        obind (put_text V (if isLastArrayElement then '';'' @ [CHR 0x0A] else '' '') [] sz) (\<lambda>sz.
        Ok (val, sz)))))
       (Ok (val, sz)))"

definition SerializeFormatAscii_doSerializeArrayElement :: "('s, 'a) ser_env \<Rightarrow> SerializeType \<Rightarrow> int \<Rightarrow> int \<Rightarrow> int \<Rightarrow> bool \<Rightarrow> byte list \<Rightarrow>
    's Serialize \<Rightarrow> (byte list \<times> 's Serialize) outcome" where
  "SerializeFormatAscii_doSerializeArrayElement V type n len i reIndexOffset val sz = ANY_REQUIRE (n > 0) (ANY_REQUIRE (len > 0)
     (obind (SerializeFormatAscii_getTypeInfo type) (\<lambda>(spec, typeTag).
      if reIndexOffset then at_element (n * i) (ascii_element V type spec len i) val sz
      else ascii_element V type spec len i val sz)))"

definition SerializeFormatAscii_doSerializeCharType :: "('s, 'a) ser_env \<Rightarrow> SerializeType \<Rightarrow> byte list \<Rightarrow> int \<Rightarrow> int \<Rightarrow> int \<Rightarrow> byte list \<Rightarrow>
    's Serialize \<Rightarrow> (byte list \<times> 's Serialize) outcome" where
  "SerializeFormatAscii_doSerializeCharType V type name n len i val sz = ANY_REQUIRE (n > 0)
     (obind (SerializeFormatAscii_getTypeInfo type) (\<lambda>_.
      char_through_int (se_isLittleEndian V) type (n * i)
        (if SERIALIZE_IS_ARRAY_ELEMENT type then SerializeFormatAscii_doSerializeArrayElement V type n len i False
         else SerializeFormatAscii_doSerializeField V type name n) val sz))"

text \<open>The branch for strings is behind the one for fields, which takes them.\<close>

definition SerializeFormatAscii_doSerialize :: "('s, 'a) ser_env \<Rightarrow> SerializeType \<Rightarrow> byte list \<Rightarrow> byte list \<Rightarrow> int \<Rightarrow> int \<Rightarrow>
    's Serialize \<Rightarrow> (byte list \<times> 's Serialize) outcome" where
  "SerializeFormatAscii_doSerialize V type name val n len sz = ANY_REQUIRE (n > 0)
     (ANY_REQUIRE (type = SERIALIZE_TYPE_STRING \<or> len > 0)
     (if is_char_type type
      then for_elements (SerializeFormatAscii_doSerializeCharType V type name n len) (nat len) 0 val sz
      else if \<not> SERIALIZE_IS_ARRAY_ELEMENT type then SerializeFormatAscii_doSerializeField V type name n val sz
      else if type = SERIALIZE_TYPE_STRING then SerializeFormatAscii_doSerializeString V type name n len val sz
      else for_elements (\<lambda>i. SerializeFormatAscii_doSerializeArrayElement V type n len i True) (nat len) 0 val sz))"

subsection \<open>Setting the options\<close>

definition SerializeFormatAsciiOptions_new :: "nat \<Rightarrow> (format_data owned \<times> nat) outcome" where
  "SerializeFormatAsciiOptions_new mem =
     (let (p, mem) = ANY_TALLOC (SerializeFormatAsciiOptions False) mem in ANY_REQUIRE (p \<noteq> Null) (Ok (p, mem)))"

definition SerializeFormatAsciiOptions_init :: "'s Serialize \<Rightarrow> 's Serialize outcome" where
  "SerializeFormatAsciiOptions_init sz = set_ascii_data False sz"

text \<open>\<^verbatim>\<open>sscanf( optionsString, "WITH_TYPE=%2047s", buffer )\<close>: the buffer stays empty when the text does not match.\<close>

definition sscanf_withType :: "byte list \<Rightarrow> byte list" where
  "sscanf_withType s =
     (let key = ascii ''WITH_TYPE=''; white = (\<lambda>b. b = 32 \<or> (9 \<le> b \<and> b \<le> 13)) in
      if take (length key) s = key then take 2047 (takeWhile (\<lambda>b. \<not> white b) (dropWhile white (drop (length key) s))) else [])"

definition SerializeFormatAsciiOptions_set :: "byte list option \<Rightarrow> 's Serialize \<Rightarrow> 's Serialize outcome" where
  "SerializeFormatAsciiOptions_set optionsString sz =
     obind (case optionsString of None \<Rightarrow> Ok False
            | Some s \<Rightarrow> obind (chars_of s) (\<lambda>s. Ok (sscanf_withType s = ascii ''TRUE''))) (\<lambda>withType.
     obind (set_ascii_data withType sz) (\<lambda>sz.
     deref (sz_header sz) (\<lambda>h.
     obind (SerializeReferenceValue_findReferenceValue (hd_listHead h) (cstr ''opts'') (sz_rvs sz)) (\<lambda>rvp.
     obind (if rvp \<noteq> 0 then Ok (rvp, h, sz_rvs sz)
            else obind (SerializeReferenceValue_pop (hd_poolHead h) (sz_rvs sz)) (\<lambda>(rvp, pool, w).
                 obind (SerializeReferenceValue_push (hd_listHead h) rvp w) (\<lambda>(list, w).
                 Ok (rvp, h\<lparr>hd_poolHead := pool, hd_listHead := list\<rparr>, w)))) (\<lambda>(rvp, h, w).
     obind (SerializeReferenceValue_update rvp (cstr ''opts'')
              (cstr (''WITH_TYPE='' @ (if withType then ''TRUE'' else ''FALSE''))) w) (\<lambda>w.
     Ok (set_header h (sz\<lparr>sz_rvs := w\<rparr>))))))))"

definition SerializeFormatAsciiOptions_setProperty :: "byte list \<Rightarrow> nat \<Rightarrow> 's Serialize \<Rightarrow> (bool \<times> 's Serialize) outcome" where
  "SerializeFormatAsciiOptions_setProperty propertyName propertyValue sz = Ok (False, sz)"

definition SerializeFormatAsciiOptions_getProperty :: "byte list \<Rightarrow> 's Serialize \<Rightarrow> nat outcome" where
  "SerializeFormatAsciiOptions_getProperty propertyName sz = Ok 0"

definition SerializeFormatAsciiOptions_clear :: "'s Serialize \<Rightarrow> 's Serialize outcome" where
  "SerializeFormatAsciiOptions_clear sz = set_ascii_data False sz"

definition SerializeFormatAsciiOptions_delete :: "'s Serialize \<Rightarrow> 's Serialize outcome" where
  "SerializeFormatAsciiOptions_delete sz =
     obind (Serialize_getFormatDataPtr sz) (\<lambda>data. ANY_REQUIRE (data \<noteq> Null)
       (obind (ANY_FREE data) (\<lambda>p.
        obind (hupd (sz_infos sz) (sz_format sz) (\<lambda>info. info\<lparr>fi_data := p\<rparr>)) (\<lambda>infos. Ok (sz\<lparr>sz_infos := infos\<rparr>)))))"

definition SerializeFormatAsciiOps :: "('s, 'a) ser_env \<Rightarrow> 's SerializeFormat" where
  "SerializeFormatAsciiOps V = \<lparr>
     formatName = cstr ''Ascii'',
     indirectBeginType = SerializeFormatAscii_beginType V,
     indirectBeginBaseType = SerializeFormatAscii_beginBaseType,
     indirectBeginArray = SerializeFormatAscii_beginArray V,
     indirectBeginStructArray = SerializeFormatAscii_beginStructArray V,
     indirectBeginStructArraySeparator = SerializeFormatAscii_beginStructArraySeparator,
     indirectDoSerialize = SerializeFormatAscii_doSerialize V,
     indirectEndStructArraySeparator = SerializeFormatAscii_endStructArraySeparator,
     indirectEndStructArray = SerializeFormatAscii_endStructArray V,
     indirectEndArray = SerializeFormatAscii_endArray,
     indirectEndBaseType = SerializeFormatAscii_endBaseType,
     indirectEndType = SerializeFormatAscii_endType V,
     indirectGetAllowedModes = SerializeFormatAscii_getAllowedModes,
     indirectFormatOptionsNew = SerializeFormatAsciiOptions_new,
     indirectFormatOptionsInit = SerializeFormatAsciiOptions_init,
     indirectFormatOptionsSet = SerializeFormatAsciiOptions_set,
     indirectFormatOptionsSetProperty = SerializeFormatAsciiOptions_setProperty,
     indirectFormatOptionsGetProperty = SerializeFormatAsciiOptions_getProperty,
     indirectFormatOptionsClear = SerializeFormatAsciiOptions_clear,
     indirectFormatOptionsDelete = SerializeFormatAsciiOptions_delete\<rparr>"

end
