(* ===== verification/IO_Scan_Correct.thy ===== *)
theory IO_Scan_Correct
  imports IO_Format_Correct
begin

text \<open>
  What formatted input makes of a text. The relation \<open>scans\<close> says how a format takes a text apart: its characters are
  found in the text behind any white space, its conversions take a number or a word up to the character behind them. The
  channel functions are shown to do this on every stream that delivers bytes, with enough fuel for the white space.
\<close>

subsection \<open>Taking a text apart\<close>

text \<open>White space, characters of a format that stand for themselves, and the texts of conversions.\<close>

definition all_spaces :: "byte list \<Rightarrow> bool" where
  "all_spaces sp \<longleftrightarrow> (\<forall>c \<in> set sp. IOCHANNEL_ISSPACE c)"

definition literal :: "char \<Rightarrow> bool" where
  "literal c \<longleftrightarrow> c \<noteq> CHR ''%'' \<and> c \<noteq> CHR '' '' \<and> \<not> IOCHANNEL_ISSPACE (asc c)"

text \<open>A number ends at a character that belongs to no number.\<close>

definition ends_number :: "byte \<Rightarrow> bool" where
  "ends_number b \<longleftrightarrow> \<not> IOCHANNEL_ISDIGIT b \<and> b \<noteq> 43 \<and> b \<noteq> 45 \<and> b \<noteq> 101 \<and> b \<noteq> 46"

text \<open>The numbers of a type.\<close>

definition in_range :: "num_type \<Rightarrow> int \<Rightarrow> bool" where
  "in_range t i \<longleftrightarrow> (if is_unsigned t then 0 \<le> i \<and> i < 2 ^ num_bits t
     else - (2 ^ (num_bits t - 1)) \<le> i \<and> i < 2 ^ (num_bits t - 1))"

definition float_word :: "byte list \<Rightarrow> bool" where
  "float_word text \<longleftrightarrow> text \<noteq> [] \<and> length text < 40 \<and> (\<forall>b \<in> set (if hd text = 45 then drop 1 text else text). IOCHANNEL_ISDIGIT b \<or> b = 43 \<or> b = 45 \<or> b = 101 \<or> b = 46)"

inductive scans :: "(string \<Rightarrow> byte list \<Rightarrow> nat option) \<Rightarrow> string \<Rightarrow> 's vararg list \<Rightarrow> byte list \<Rightarrow> 's vararg list \<Rightarrow> byte list \<Rightarrow> bool"
  for S :: "string \<Rightarrow> byte list \<Rightarrow> nat option" where
  scans_end: "scans S [] args bs args bs"
| scans_blank: "scans S fmt args bs args' rest \<Longrightarrow> scans S (CHR '' '' # fmt) args bs args' rest"
| scans_literal: "literal c \<Longrightarrow> all_spaces sp \<Longrightarrow> scans S fmt args bs args' rest \<Longrightarrow>
    scans S (c # fmt) args (sp @ asc c # bs) args' rest"
| scans_newline: "scans S fmt args bs args' rest \<Longrightarrow> scans S (CHR 0x0A # fmt) args (10 # bs) args' rest"
| scans_number: "scan_conversion conv = (CNum t, c # fmt) \<Longrightarrow> ends_number (asc c) \<Longrightarrow> in_range t i \<Longrightarrow> all_spaces sp \<Longrightarrow>
    scans S fmt args bs args' rest \<Longrightarrow>
    scans S (CHR ''%'' # conv) (NumArg t v # args) (sp @ num_text t i @ asc c # bs) (NumArg t i # args') rest"
| scans_float: "scan_conversion conv = (CFloat t, c # fmt) \<Longrightarrow> ends_number (asc c) \<Longrightarrow> float_word text \<Longrightarrow> S (scan_spec t) text = Some w \<Longrightarrow>
    all_spaces sp \<Longrightarrow> scans S fmt args bs args' rest \<Longrightarrow>
    scans S (CHR ''%'' # conv) (FloatArg t v # args) (sp @ text @ asc c # bs) (FloatArg t w # args') rest"
| scans_word: "scan_conversion conv = (CStr False, c # fmt) \<Longrightarrow> word \<noteq> [] \<Longrightarrow> asc c \<notin> set word \<Longrightarrow> (\<forall>b \<in> set word. \<not> IOCHANNEL_ISSPACE b) \<Longrightarrow>
    \<not> IOCHANNEL_ISSPACE (asc c) \<Longrightarrow> length word < length buf \<Longrightarrow> all_spaces sp \<Longrightarrow> scans S fmt args bs args' rest \<Longrightarrow>
    scans S (CHR ''%'' # conv) (StrArg buf # args) (sp @ word @ asc c # bs)
      (StrArg (word @ [0] @ drop (length word + 1) buf) # args') rest"

text \<open>A format and a text that are the same up to blanks and white space.\<close>

definition no_spaces :: "byte list \<Rightarrow> byte list" where
  "no_spaces ts = filter (\<lambda>b. \<not> IOCHANNEL_ISSPACE b) ts"

lemma all_spaces_simps [simp]: "all_spaces []" "all_spaces (sp @ sp') \<longleftrightarrow> all_spaces sp \<and> all_spaces sp'"
  "all_spaces (b # sp) \<longleftrightarrow> IOCHANNEL_ISSPACE b \<and> all_spaces sp"
  by (auto simp: all_spaces_def)

lemma no_spaces_Cons: "no_spaces ts = b # bs \<Longrightarrow> \<exists>sp us. ts = sp @ b # us \<and> all_spaces sp \<and> \<not> IOCHANNEL_ISSPACE b \<and> no_spaces us = bs"
  by (induction ts) (auto simp: no_spaces_def all_spaces_def split: if_splits intro: exI [of _ "[]"],
      metis append_Cons set_ConsD)

lemma scans_text:
  assumes "\<forall>c \<in> set fmt. literal c \<or> c = CHR '' ''" and "no_spaces ts = ascii (filter (\<lambda>c. c \<noteq> CHR '' '') fmt)"
    and "ts = [] \<or> \<not> IOCHANNEL_ISSPACE (last ts)" and "scans S fmt' args bs args' rest"
  shows "scans S (fmt @ fmt') args (ts @ bs) args' rest"
  using assms
proof (induction fmt arbitrary: ts)
  case Nil
  then have "\<forall>b \<in> set ts. IOCHANNEL_ISSPACE b" by (simp add: no_spaces_def ascii_def filter_empty_conv)
  with Nil show ?case using last_in_set [of ts] by (cases "ts = []") auto
next
  case (Cons c fmt)
  show ?case
  proof (cases "c = CHR '' ''")
    case True
    with Cons.IH [of ts] Cons.prems show ?thesis by (auto intro: scans_blank)
  next
    case False
    with Cons.prems(2) obtain sp us where ts: "ts = sp @ asc c # us" "all_spaces sp" "no_spaces us = ascii (filter (\<lambda>c. c \<noteq> CHR '' '') fmt)"
      using no_spaces_Cons [of ts "asc c"] by (auto simp: ascii_def)
    then have "us = [] \<or> \<not> IOCHANNEL_ISSPACE (last us)" using Cons.prems(3) by auto
    with Cons.IH [OF _ ts(3)] Cons.prems(1,4) have "scans S (fmt @ fmt') args (us @ bs) args' rest" by simp
    with scans_literal [of c sp S "fmt @ fmt'"] ts Cons.prems(1) False show ?thesis by simp
  qed
qed

text \<open>Leading white space does not matter for a format that starts with a character or a conversion.\<close>

lemma scans_skip:
  assumes "scans S (c # fmt) args bs args' rest" and "c \<noteq> CHR '' ''" and "c \<noteq> CHR 0x0A" and "all_spaces sp"
  shows "scans S (c # fmt) args (sp @ bs) args' rest"
  using assms(1)
proof (cases rule: scans.cases)
  case (scans_literal sp' bs')
  with assms(4) show ?thesis using scans.scans_literal [of c "sp @ sp'" S fmt args bs' args' rest] by simp
next
  case (scans_number t c' fmt' i sp' args1 bs1 args1' v)
  with assms(4) show ?thesis using scans.scans_number [of fmt t c' fmt' i "sp @ sp'" S args1 bs1 args1' rest v] by simp
next
  case (scans_float t c' fmt' tx w sp' args1 bs1 args1' v)
  with assms(4) show ?thesis using scans.scans_float [of fmt t c' fmt' tx S w "sp @ sp'" args1 bs1 args1' rest v] by simp
next
  case (scans_word c' fmt' word buf sp' args1 bs1 args1')
  with assms(4) show ?thesis using scans.scans_word [of fmt c' fmt' word buf "sp @ sp'" S args1 bs1 args1' rest] by simp
qed (use assms(2,3) in auto)

subsection \<open>Digits\<close>

lemma digits_value_append: "digits_value v (ds @ [b]) = 10 * digits_value v ds + (uint b - 48)"
  by (induction ds arbitrary: v) simp_all

lemma digit_byte: "n < 10 \<Longrightarrow> uint (word_of_nat (48 + n) :: byte) = 48 + int n" "n < 10 \<Longrightarrow> IOCHANNEL_ISDIGIT (word_of_nat (48 + n))"
proof -
  assume n: "n < 10"
  show u: "uint (word_of_nat (48 + n) :: byte) = 48 + int n" 
  proof -
    have "unat (word_of_nat (48 + n) :: byte) = 48 + n" unfolding unat_of_nat using n by simp
    then have "int (unat (word_of_nat (48 + n) :: byte)) = 48 + int n" by simp
    then show ?thesis by (simp only: uint_nat)
  qed
  then show "IOCHANNEL_ISDIGIT (word_of_nat (48 + n))" using n by (simp add: IOCHANNEL_ISDIGIT_def word_le_def)
qed

lemma decimal_value: "digits_value 0 (decimal n) = int n \<and> (\<forall>b \<in> set (decimal n). IOCHANNEL_ISDIGIT b) \<and> decimal n \<noteq> []"
proof (induction n rule: decimal.induct)
  case (1 n)
  show ?case
  proof (cases "n < 10")
    case True
    with digit_byte [of n] show ?thesis by (subst (1 2 3) decimal.simps) simp
  next
    case False
    have "10 * int (n div 10) + int (n mod 10) = int n" by presburger
    with False 1 digit_byte [of "n mod 10"] show ?thesis
      by (subst (1 2 3) decimal.simps) (auto simp: digits_value_append)
  qed
qed

lemma decimal_head: "\<exists>d ds. decimal n = d # ds \<and> IOCHANNEL_ISDIGIT d"
  using decimal_value [of n] by (cases "decimal n") auto

lemma digit_no_sign: "IOCHANNEL_ISDIGIT b \<Longrightarrow> b \<noteq> 45 \<and> \<not> IOCHANNEL_ISSPACE b"
  by (auto simp: IOCHANNEL_ISDIGIT_def IOCHANNEL_ISSPACE_def)

lemma sscanf_decimal: "in_range t i \<Longrightarrow> sscanf_num t (num_text t i) = Ok (Some i)"
proof -
  assume r: "in_range t i"
  obtain d ds where p: "decimal (nat i) = d # ds" "IOCHANNEL_ISDIGIT d" using decimal_head by blast
  obtain e es where m: "decimal (nat (- i)) = e # es" "IOCHANNEL_ISDIGIT e" using decimal_head by blast
  have v: "digits_value 0 (d # ds) = int (nat i)" "digits_value 0 (e # es) = int (nat (- i))"
    using decimal_value [of "nat i"] decimal_value [of "nat (- i)"] p m by simp_all
  have u: "t \<in> {TUInt, TUShort, TULong, TULLong} \<longleftrightarrow> is_unsigned t" by (auto simp: is_unsigned_def)
  show ?thesis
    using r v p m digit_no_sign [OF p(2)] unfolding num_text_def u
    by (auto simp: sscanf_num_def in_range_def signed_decimal_def Let_def simp del: num_bits.simps digits_value.simps)
qed

lemma decimal_length: "n < 10 ^ Suc k \<Longrightarrow> length (decimal n) \<le> Suc k"
proof (induction k arbitrary: n)
  case 0
  then show ?case by (simp add: decimal.simps)
next
  case (Suc k)
  then have "length (decimal (n div 10)) \<le> Suc k" by (intro Suc.IH) (simp add: div_less_iff_less_mult)
  then show ?case by (subst decimal.simps) simp
qed

lemma decimal_nonempty [simp]: "decimal n \<noteq> []"
  by (subst decimal.simps) simp

lemma num_text_nonempty [simp]: "num_text t i \<noteq> []" "signed_decimal i \<noteq> []"
  by (simp_all add: num_text_def signed_decimal_def)

text \<open>A number of a type has at most 20 digits.\<close>

lemma num_text_bounded: "in_range t i \<Longrightarrow> bounded_text 40 (num_text t i) = Some (num_text t i)"
proof -
  assume r: "in_range t i"
  have b: "(2 :: int) ^ num_bits t \<le> 2 ^ 64" and h: "(2 :: int) ^ num_bits t = 2 * 2 ^ (num_bits t - 1)" by (cases t; simp)+
  have "- (2 ^ 64) < i \<and> i < (2 :: int) ^ 64" using r b h zero_less_power [of "2 :: int" "num_bits t - 1"]
    by (auto simp: in_range_def split: if_splits)
  then have "nat i < 10 ^ Suc 19" "nat (- i) < 10 ^ Suc 19" by (simp_all; linarith)+
  with decimal_length [of "nat i" 19] decimal_length [of "nat (- i)" 19] have "length (num_text t i) < 40"
    by (simp add: num_text_def signed_decimal_def)
  then show ?thesis by (simp add: bounded_text_def)
qed


subsection \<open>The scanner\<close>

text \<open>Bytes of a number, white space, or a word, that the scanner collects.\<close>

definition float_byte :: "bool \<Rightarrow> byte \<Rightarrow> bool" where
  "float_byte isFloat b \<longleftrightarrow> IOCHANNEL_ISFLOATALLOWED isFloat b \<or> IOCHANNEL_ISDIGIT b"

lemma ends_number_float: "ends_number b \<Longrightarrow> \<not> float_byte isFloat b"
  by (auto simp: ends_number_def float_byte_def IOCHANNEL_ISFLOATALLOWED_def)

lemma separator_simps [simp]: "separator (c # fmt) = asc c"
  by (simp add: separator_def)

context source
begin

text \<open>\<open>gets s s' b bs\<close>: from \<open>s\<close> to \<open>s'\<close> the scanner has read up to the byte \<open>b\<close>, which it holds, and \<open>bs\<close> is left.\<close>

definition gets :: "'s scan \<Rightarrow> 's scan \<Rightarrow> byte \<Rightarrow> byte list \<Rightarrow> bool" where
  "gets s s' b bs \<longleftrightarrow> reading (sc_ch s') \<and> left (sc_ch s') = bs \<and> sc_b s' = b \<and> sc_done s' = sc_done s \<and> sc_args s' = sc_args s \<and>
     sc_items s' = sc_items s"

lemma gets_trans: "gets s s1 b bs \<Longrightarrow> gets s1 s2 c cs \<Longrightarrow> gets s s2 c cs"
  by (simp add: gets_def)

lemma gets_read: "reading (sc_ch s) \<Longrightarrow> left (sc_ch s) = b # bs \<Longrightarrow> \<exists>s'. scan_read c I s = Ok (True, s') \<and> gets s s' b bs"
  using scan_read_moves [of s b bs c] by (auto simp: gets_def moves_def)

lemma gets_spaces:
  assumes "reading (sc_ch s)" and "left (sc_ch s) = sp @ b # bs" and "all_spaces sp" and "\<not> IOCHANNEL_ISSPACE b"
    and "length (left (sc_ch s)) < n"
  shows "\<exists>s'. IOCHANNEL_READSPACES n I s = Ok s' \<and> gets s s' b bs"
  using READSPACES_moves [of s sp b bs n] assms by (auto simp: gets_def moves_def all_spaces_def)

lemma gets_literal:
  assumes "reading (sc_ch s)" and "left (sc_ch s) = sp @ asc c # bs" and "all_spaces sp" and "literal c"
    and "length (left (sc_ch s)) < n"
  shows "\<exists>s'. scan_literal n I c s = Ok (True, s') \<and> gets s s' (asc c) bs"
proof -
  obtain s' where s': "IOCHANNEL_READSPACES n I s = Ok s'" "gets s s' (asc c) bs"
    using gets_spaces [OF assms(1-3) _ assms(5)] assms(4) by (auto simp: literal_def)
  moreover have "asc c \<notin> {10, 9, 13}" using assms(4) by (auto simp: literal_def IOCHANNEL_ISSPACE_def)
  ultimately show ?thesis by (auto simp: scan_literal_def gets_def reading_scan_ok)
qed

lemma gets_newline:
  assumes "reading (sc_ch s)" and "left (sc_ch s) = 10 # bs" and "1 < n"
  shows "\<exists>s'. scan_literal n I (CHR 0x0A) s = Ok (True, s') \<and> gets s s' 10 bs"
proof -
  obtain m where n: "n = Suc (Suc m)" using assms(3) by (cases n; cases "n - 1") auto
  obtain s' where s': "scan_read True I (s\<lparr>sc_b := 32\<rparr>) = Ok (True, s')" "gets (s\<lparr>sc_b := 32\<rparr>) s' 10 bs"
    using gets_read [of "s\<lparr>sc_b := 32\<rparr>" 10 bs True] assms by auto
  then have "skip_blanks n I (s\<lparr>sc_b := 32\<rparr>) = Ok s'" using n by (simp add: gets_def)
  then show ?thesis using s'(2) by (intro exI [of _ s']) (simp add: scan_literal_def gets_def reading_scan_ok)
qed

lemma gets_digits:
  assumes "reading (sc_ch s)" and "sc_b s # left (sc_ch s) = ds @ sep # rest" and "\<forall>b \<in> set ds. float_byte fl b"
    and "\<not> float_byte fl sep" and "length ds < rm"
  shows "\<exists>s'. scan_digits rm I fl sep acc s = Ok (acc @ ds, s') \<and> gets s s' sep rest"
  using assms
proof (induction ds arbitrary: s acc rm)
  case Nil
  then show ?case
    by (subst scan_digits.simps) (auto simp: float_byte_def reading_scan_ok gets_def split: nat.splits)
next
  case (Cons d ds)
  obtain m where m: "rm = Suc m" "length ds < m" using Cons.prems(5) by (cases rm) auto
  obtain e es where e: "left (sc_ch s) = e # es" using Cons.prems(2) by (cases ds) auto
  from gets_read [OF Cons.prems(1) e] obtain s1 where s1: "scan_read False I s = Ok (True, s1)" "gets s s1 e es" by blast
  then have "reading (sc_ch s1)" "sc_b s1 # left (sc_ch s1) = ds @ sep # rest" using e Cons.prems(2) by (auto simp: gets_def)
  from Cons.IH [OF this _ Cons.prems(4) m(2), of "acc @ [d]"] Cons.prems(3) obtain s2 where
    "scan_digits m I fl sep (acc @ [d]) s1 = Ok (acc @ d # ds, s2)" "gets s1 s2 sep rest" by auto
  moreover have "sc_b s = d" "d \<noteq> sep" "IOCHANNEL_ISFLOATALLOWED fl d \<or> IOCHANNEL_ISDIGIT d"
    using Cons.prems(2-4) by (auto simp: float_byte_def)
  ultimately show ?case
    using gets_trans [OF s1(2)] s1(1) m(1) by (subst scan_digits.simps) (simp add: reading_scan_ok Cons.prems(1))
qed

text \<open>The text of an item: an optional sign and its digits.\<close>

lemma gets_item:
  assumes "reading (sc_ch s)" and "left (sc_ch s) = sp @ t @ asc c # rest" and "all_spaces sp" and "t \<noteq> []"
    and "\<forall>b \<in> set (if hd t = 45 then List.tl t else t). float_byte fl b" and "\<not> float_byte fl (asc c)" and "length t < 40"
    and "length (left (sc_ch s)) < n"
  shows "\<exists>s'. IOChannel_scanItemInternal n I fl (c # fmt) s = Ok (Some t, s') \<and> gets s s' (asc c) rest"
proof -
  obtain d ds where t: "t = d # ds" using assms(4) by (cases t) auto
  have "\<not> IOCHANNEL_ISSPACE d"
    using assms(5) t by (auto simp: float_byte_def IOCHANNEL_ISSPACE_def IOCHANNEL_ISDIGIT_def IOCHANNEL_ISFLOATALLOWED_def split: if_splits)
  with gets_spaces [OF assms(1), of sp d "ds @ asc c # rest" n] assms(2,3,8) t obtain s1 where
    s1: "IOCHANNEL_READSPACES n I s = Ok s1" "gets s s1 d (ds @ asc c # rest)" by auto
  show ?thesis
  proof (cases "d = 45")
    case True
    obtain e es where e: "ds @ asc c # rest = e # es" by (cases ds) auto
    with s1(2) have "reading (sc_ch s1)" "left (sc_ch s1) = e # es" by (simp_all add: gets_def)
    from gets_read [OF this] obtain s2 where s2: "scan_read False I s1 = Ok (True, s2)" "gets s1 s2 e es" by blast
    then have "reading (sc_ch s2)" "sc_b s2 # left (sc_ch s2) = ds @ asc c # rest" using e by (auto simp: gets_def)
    from gets_digits [OF this, of fl 39 "[45]"] assms(5-7) t True obtain s3 where
      "scan_digits 39 I fl (asc c) [45] s2 = Ok (45 # ds, s3)" "gets s2 s3 (asc c) rest" by auto
    with s1 s2 True t show ?thesis
      using gets_trans [OF gets_trans [OF s1(2) s2(2)]]
      by (auto simp: IOChannel_scanItemInternal_def gets_def reading_ok)
  next
    case False
    have "reading (sc_ch s1)" "sc_b s1 # left (sc_ch s1) = (d # ds) @ asc c # rest" using s1(2) by (simp_all add: gets_def)
    from gets_digits [OF this, of fl 40 "[]"] assms(5-7) t False obtain s3 where
      "scan_digits 40 I fl (asc c) [] s1 = Ok (d # ds, s3)" "gets s1 s3 (asc c) rest" by auto
    with s1 False t show ?thesis
      using gets_trans [OF s1(2)] by (auto simp: IOChannel_scanItemInternal_def gets_def reading_ok)
  qed
qed

end

context source
begin

lemma gets_number:
  assumes "reading (sc_ch s)" and "left (sc_ch s) = sp @ num_text t i @ asc c # rest" and "all_spaces sp" and "in_range t i"
    and "ends_number (asc c)" and "length (left (sc_ch s)) < n" and "sc_args s = NumArg t v # args"
  shows "\<exists>s'. scan_num n I t (c # fmt) s = Ok (pass (NumArg t i) args s') \<and> gets s s' (asc c) rest"
proof -
  have d: "float_byte False b" if "b \<in> set (decimal k)" for b k using decimal_value [of k] that by (auto simp: float_byte_def)
  have "\<forall>b \<in> set (if hd (num_text t i) = 45 then List.tl (num_text t i) else num_text t i). float_byte False b"
    using d by (auto simp: num_text_def signed_decimal_def dest: list.set_sel(2) [rotated])
  from gets_item [OF assms(1-3) num_text_nonempty(1) this ends_number_float [OF assms(5)]]
    num_text_bounded [OF assms(4)] assms(6) obtain s' where
    "IOChannel_scanItemInternal n I False (c # fmt) s = Ok (Some (num_text t i), s')" "gets s s' (asc c) rest"
    by (auto simp: bounded_text_def split: if_splits)
  with assms(7) sscanf_decimal [OF assms(4)] show ?thesis by (auto simp: scan_num_def)
qed

lemma gets_float:
  assumes "reading (sc_ch s)" and "left (sc_ch s) = sp @ tx @ asc c # rest" and "all_spaces sp" and "float_word tx"
    and "S (scan_spec t) tx = Some w"
    and "ends_number (asc c)" and "length (left (sc_ch s)) < n" and "sc_args s = FloatArg t v # args"
  shows "\<exists>s'. scan_float S n I t (c # fmt) s = Ok (pass (FloatArg t w) args s') \<and> gets s s' (asc c) rest"
proof -
  have "\<forall>b \<in> set (if hd tx = 45 then List.tl tx else tx). float_byte True b" "tx \<noteq> []" "length tx < 40"
    using assms(4) by (auto simp: float_word_def float_byte_def IOCHANNEL_ISFLOATALLOWED_def drop_Suc)
  from gets_item [OF assms(1-3) this(2,1) ends_number_float [OF assms(6)] this(3) assms(7)] obtain s' where
    "IOChannel_scanItemInternal n I True (c # fmt) s = Ok (Some tx, s')" "gets s s' (asc c) rest" by blast
  with assms(5,8) show ?thesis by (auto simp: scan_float_def)
qed

lemma gets_word_rest:
  assumes "reading (sc_ch s)" and "sc_b s # left (sc_ch s) = ws @ sep # rest" and "\<forall>b \<in> set ws. \<not> IOCHANNEL_ISSPACE b \<and> b \<noteq> sep"
    and "pos + length ws \<le> length buf" and "length ws \<le> fuel"
  shows "\<exists>s'. scan_word fuel I None sep buf pos s = Ok (take pos buf @ ws @ drop (pos + length ws) buf, pos + length ws, s') \<and> gets s s' sep rest"
  using assms
proof (induction ws arbitrary: s pos buf fuel)
  case Nil
  then show ?case by (subst scan_word.simps) (auto simp: gets_def)
next
  case (Cons w ws)
  obtain m where m: "fuel = Suc m" "length ws \<le> m" using Cons.prems(5) by (cases fuel) auto
  obtain e es where e: "left (sc_ch s) = e # es" using Cons.prems(2) by (cases ws) auto
  from gets_read [OF Cons.prems(1) e] obtain s1 where s1: "scan_read True I s = Ok (True, s1)" "gets s s1 e es" by blast
  then have "reading (sc_ch s1)" "sc_b s1 # left (sc_ch s1) = ws @ sep # rest" using e Cons.prems(2) by (auto simp: gets_def)
  from Cons.IH [OF this _ _ m(2), of "Suc pos" "buf[pos := w]"] Cons.prems(3,4) obtain s2 where
    s2: "scan_word m I None sep (buf[pos := w]) (Suc pos) s1 = Ok (take (Suc pos) (buf[pos := w]) @ ws @ drop (Suc pos + length ws) buf, Suc (pos + length ws), s2)"
      "gets s1 s2 sep rest" by auto
  have "take (Suc pos) (buf[pos := w]) = take pos buf @ [w]" using Cons.prems(4) by (simp add: take_Suc_conv_app_nth)
  with s2 s1 gets_trans [OF s1(2)] m Cons.prems show ?case
    by (subst scan_word.simps) (auto simp: reading_scan_ok poke_def)
qed

lemma gets_word:
  assumes "reading (sc_ch s)" and "left (sc_ch s) = sp @ ws @ asc c # rest" and "all_spaces sp" and "ws \<noteq> []"
    and "\<forall>b \<in> set ws. \<not> IOCHANNEL_ISSPACE b" and "asc c \<notin> set ws" and "length ws < length buf"
    and "length (left (sc_ch s)) < n" and "sc_args s = StrArg buf # args"
  shows "\<exists>s'. scan_str n I (c # fmt) s = Ok (pass (StrArg (ws @ [0] @ drop (length ws + 1) buf)) args s') \<and> gets s s' (asc c) rest"
proof -
  obtain w us where w: "ws = w # us" using assms(4) by (cases ws) auto
  with gets_spaces [OF assms(1), of sp w "us @ asc c # rest" n] assms(2,3,5,8) obtain s1 where
    s1: "IOCHANNEL_READSPACES n I s = Ok s1" "gets s s1 w (us @ asc c # rest)" by auto
  then have "reading (sc_ch s1)" "sc_b s1 # left (sc_ch s1) = ws @ asc c # rest" using w by (auto simp: gets_def)
  from gets_word_rest [OF this, of 0 buf "length buf"] assms(5-7) obtain s2 where
    s2: "scan_word (length buf) I None (asc c) buf 0 s1 = Ok (ws @ drop (length ws) buf, length ws, s2)" "gets s1 s2 (asc c) rest" by auto
  have "(ws @ drop (length ws) buf)[length ws := 0] = ws @ [0] @ drop (length ws + 1) buf"
    using assms(7) by (simp add: list_update_append Cons_nth_drop_Suc [symmetric])
  then show ?thesis
    using s1 s2 gets_trans [OF s1(2) s2(2)] assms(4,7,9)
    by (intro exI [of _ s2]) (simp add: scan_str_def poke_def Let_def gets_def reading_ok)
qed

text \<open>The loop over a format.\<close>

lemma gets_loop:
  assumes "scans S fmt args bs args' rest" and "reading (sc_ch s)" and "left (sc_ch s) = bs" and "sc_args s = args" and "length bs + 1 < n"
  shows "\<exists>s'. scan_loop S n I fmt s = Ok s' \<and> reading (sc_ch s') \<and> left (sc_ch s') = rest \<and> sc_done s' @ sc_args s' = sc_done s @ args'"
  using assms
proof (induction arbitrary: s rule: scans.induct)
  case (scans_end args bs)
  then show ?case by (subst scan_loop.simps) simp
next
  case (scans_blank fmt args bs args' rest)
  have "scan_loop S n I (CHR '' '' # fmt) s = scan_loop S n I fmt s"
    by (subst (1 2) scan_loop.simps) (simp add: reading_scan_ok scans_blank.prems(1))
  with scans_blank.IH [OF scans_blank.prems] show ?case by simp
next
  case (scans_literal c sp fmt args bs args' rest)
  obtain s1 where s1: "scan_literal n I c s = Ok (True, s1)" "gets s s1 (asc c) bs"
    using gets_literal [where n = n, OF scans_literal.prems(1,2) scans_literal.hyps(2,1)] scans_literal.prems(2,4) by auto
  then have "scan_loop S n I (c # fmt) s = scan_loop S n I fmt s1"
    using scans_literal.hyps(1) by (subst scan_loop.simps) (simp add: reading_scan_ok scans_literal.prems(1) literal_def)
  with scans_literal.IH [of s1] s1(2) scans_literal.prems(3,4) show ?case by (auto simp: gets_def)
next
  case (scans_newline fmt args bs args' rest)
  obtain s1 where s1: "scan_literal n I (CHR 0x0A) s = Ok (True, s1)" "gets s s1 10 bs"
    using gets_newline [where n = n, OF scans_newline.prems(1,2)] scans_newline.prems(4) by auto
  then have "scan_loop S n I (CHR 0x0A # fmt) s = scan_loop S n I fmt s1"
    by (subst scan_loop.simps) (simp add: reading_scan_ok scans_newline.prems(1))
  with scans_newline.IH [of s1] s1(2) scans_newline.prems(3,4) show ?case by (auto simp: gets_def)
next
  case (scans_number conv t c fmt i sp args bs args' rest v)
  obtain s1 where s1: "scan_num n I t (c # fmt) s = Ok (pass (NumArg t i) args s1)" "gets s s1 (asc c) bs"
    using gets_number [where n = n, OF scans_number.prems(1,2) scans_number.hyps(4,3,2) _ scans_number.prems(3)] scans_number.prems(2,4) by auto
  let ?s = "(pass (NumArg t i) args s1)\<lparr>sc_items := sc_items s1 + 1\<rparr>"
  have "scan_loop S n I (CHR ''%'' # conv) s = scan_loop S n I fmt ?s"
    using s1(1) scans_number.hyps(1) by (subst scan_loop.simps) (simp add: reading_scan_ok scans_number.prems(1) scan_item_def pass_def)
  with scans_number.IH [of ?s] s1(2) scans_number.prems(4) show ?case by (auto simp: gets_def pass_def)
next
  case (scans_float conv t c fmt tx w sp args bs args' rest v)
  obtain s1 where s1: "scan_float S n I t (c # fmt) s = Ok (pass (FloatArg t w) args s1)" "gets s s1 (asc c) bs"
    using gets_float [where S = S and n = n, OF scans_float.prems(1,2) scans_float.hyps(5,3,4,2) _ scans_float.prems(3)] scans_float.prems(2,4) by auto
  let ?s = "(pass (FloatArg t w) args s1)\<lparr>sc_items := sc_items s1 + 1\<rparr>"
  have "scan_loop S n I (CHR ''%'' # conv) s = scan_loop S n I fmt ?s"
    using s1(1) scans_float.hyps(1) by (subst scan_loop.simps) (simp add: reading_scan_ok scans_float.prems(1) scan_item_def pass_def)
  with scans_float.IH [of ?s] s1(2) scans_float.prems(4) show ?case by (auto simp: gets_def pass_def)
next
  case (scans_word conv c fmt ws buf sp args bs args' rest)
  let ?a = "StrArg (ws @ [0] @ drop (length ws + 1) buf)"
  obtain s1 where s1: "scan_str n I (c # fmt) s = Ok (pass ?a args s1)" "gets s s1 (asc c) bs"
    using gets_word [where n = n, OF scans_word.prems(1,2) scans_word.hyps(7,2,4,3,6) _ scans_word.prems(3)] scans_word.prems(2,4) by auto
  let ?s = "(pass ?a args s1)\<lparr>sc_items := sc_items s1 + 1\<rparr>"
  have "scan_loop S n I (CHR ''%'' # conv) s = scan_loop S n I fmt ?s"
    using s1(1) scans_word.hyps(1) by (subst scan_loop.simps) (simp add: reading_scan_ok scans_word.prems(1) scan_item_def pass_def)
  with scans_word.IH [of ?s] s1(2) scans_word.prems(4) show ?case by (auto simp: gets_def pass_def)
qed

lemma scanf_scans:
  assumes "scans S fmt args bs args' rest" and "reading ch" and "left ch = bs" and "length bs + 1 < n"
  shows "\<exists>r k ch'. IOChannel_scanf S n I fmt args ch = Ok (r, Some k, args', ch') \<and> reading ch' \<and> left ch' = rest"
proof -
  let ?s = "\<lparr>sc_done = [], sc_args = args, sc_items = 0, sc_i = 0, sc_b = 0, sc_ch = ch\<rparr>"
  obtain s' where s: "scan_loop S n I fmt ?s = Ok s'" "reading (sc_ch s')" "left (sc_ch s') = rest" "sc_done s' @ sc_args s' = args'"
    using gets_loop [OF assms(1), of ?s n] assms(2-4) by auto
  moreover have "readable ch" "ready ch" using assms(2) by (simp_all add: reading_def readable_def)
  ultimately show ?thesis
    by (simp add: IOChannel_scanf_def IOChannel_scanFormatting_def ready_simps readable_simps reading_ok)
qed

end

end
