(* ===== verification/Ser_Text_Correct.thy ===== *)
theory Ser_Text_Correct
  imports IO_Scan_Correct Ser_Correct Ser_Text
begin

text \<open>
  The calls that the text formats share. The locale \<open>text_sink\<close> extends the contract \<open>ser_sink\<close> by formatted
  output: the text that \<open>render\<close> gives is taken completely. Memory and the measuring stream provide it. In the
  other direction the locale \<open>text_source\<close> says how input is matched.
\<close>

subsection \<open>Numbers in memory\<close>

lemma nat_le_inverse: "v < 256 ^ k \<Longrightarrow> le_nat (nat_le k v) = v"
proof (induction k arbitrary: v)
  case (Suc k)
  then have "v div 256 < 256 ^ k" by (simp add: div_less_iff_less_mult mult.commute)
  moreover have "unat (word_of_nat v :: byte) = v mod 256" by (simp add: unat_of_nat)
  ultimately show ?case using Suc.IH by simp
qed simp

lemma length_nat_le [simp]: "length (nat_le k v) = k"
  by (induction k arbitrary: v) auto

lemma le_nat_less: "le_nat bs < 256 ^ length bs"
proof (induction bs)
  case (Cons b bs)
  have "unat b < 256" by (rule order_less_le_trans [OF unsigned_less]) simp
  with Cons show ?case by simp
qed simp

lemma le_nat_inverse: "nat_le (length bs) (le_nat bs) = bs"
proof (induction bs)
  case (Cons b bs)
  have "unat b < 256" by (rule order_less_le_trans [OF unsigned_less]) simp
  moreover have z: "(256 :: byte) = 0" by simp
  have "(256 :: byte) * m = 0" for m by (simp only: z mult_zero_left)
  then have "(word_of_nat (unat b + 256 * n) :: byte) = b" for n by simp
  ultimately show ?case using Cons by simp
qed simp

lemma host_bytes_simps [simp]: "length (host_bytes h k v) = k"
  by (simp add: host_bytes_def)

lemma host_nat_bytes: "v < 256 ^ k \<Longrightarrow> host_nat h (host_bytes h k v) = v"
  by (simp add: host_nat_def host_bytes_def nat_le_inverse)

lemma host_bytes_nat: "length bs = k \<Longrightarrow> host_bytes h k (host_nat h bs) = bs"
  using le_nat_inverse [of bs] le_nat_inverse [of "rev bs"] by (auto simp: host_nat_def host_bytes_def)

lemma host_nat_less: "length bs = k \<Longrightarrow> host_nat h bs < 256 ^ k"
  using le_nat_less [of bs] le_nat_less [of "rev bs"] by (auto simp: host_nat_def)

lemma num_type_sizes: "256 ^ num_size t = (2::nat) ^ num_bits t" "(2::int) ^ num_bits t = 2 * 2 ^ (num_bits t - 1)" "0 < num_size t"
  by (cases t; simp add: num_size_def)+

lemma num_of_range: "length bs = num_size t \<Longrightarrow> in_range t (num_of h t bs)"
proof -
  assume l: "length bs = num_size t"
  have "int (host_nat h bs) < 2 ^ num_bits t" using host_nat_less [OF l, of h] num_type_sizes(1) [of t]
    by (simp add: zless_nat_eq_int_zless flip: of_nat_less_iff)
  then show ?thesis using num_type_sizes(2) [of t] by (auto simp: in_range_def num_of_def Let_def)
qed

lemma num_bytes_of: "length bs = num_size t \<Longrightarrow> num_bytes h t (num_of h t bs) = bs"
proof -
  assume l: "length bs = num_size t"
  have "int (host_nat h bs) < 2 ^ num_bits t" using host_nat_less [OF l, of h] num_type_sizes(1) [of t]
    by (simp flip: of_nat_less_iff)
  then have "nat (num_of h t bs mod 2 ^ num_bits t) = host_nat h bs" by (auto simp: num_of_def Let_def mod_pos_pos_trivial)
  with host_bytes_nat [OF l, of h] show ?thesis by (simp add: num_bytes_def)
qed

lemma num_of_bytes: "in_range t i \<Longrightarrow> num_of h t (num_bytes h t i) = i"
proof -
  assume r: "in_range t i"
  have "nat (i mod 2 ^ num_bits t) < 256 ^ num_size t" unfolding num_type_sizes(1) by (simp add: nat_less_iff)
  then have h: "int (host_nat h (num_bytes h t i)) = i mod 2 ^ num_bits t" by (simp add: num_bytes_def host_nat_bytes)
  show ?thesis
  proof (cases "0 \<le> i")
    case True
    then have "i mod 2 ^ num_bits t = i" using r num_type_sizes(2) [of t]
      by (intro mod_pos_pos_trivial) (auto simp: in_range_def split: if_splits)
    with h True r show ?thesis by (auto simp: num_of_def Let_def in_range_def split: if_splits)
  next
    case False
    then have "(i + 2 ^ num_bits t) mod 2 ^ num_bits t = i + 2 ^ num_bits t" using r num_type_sizes(2) [of t]
      by (intro mod_pos_pos_trivial) (auto simp: in_range_def split: if_splits)
    then have "i mod 2 ^ num_bits t = i + 2 ^ num_bits t" by simp
    with h False r num_type_sizes(2) [of t] show ?thesis by (auto simp: num_of_def Let_def in_range_def split: if_splits)
  qed
qed


subsection \<open>Streams that take texts\<close>

lemma same_arg_retype: "(\<And>f. a \<noteq> CallArg f) \<Longrightarrow> same_arg a (retype a)"
  by (cases a) auto

lemma retype_all: "(\<And>f. CallArg f \<notin> set args) \<Longrightarrow> list_all2 same_arg args (map retype args)"
  by (induction args) (auto intro: same_arg_retype)

text \<open>No argument of the serializer is a callback, so its texts do not depend on the stream.\<close>

definition renders :: "('s, 'a) ser_env \<Rightarrow> string \<Rightarrow> unit vararg list \<Rightarrow> byte list \<Rightarrow> bool" where
  "renders V fmt args bs \<longleftrightarrow> (\<forall>f. CallArg f \<notin> set args) \<and> render (se_print V) fmt args = Some bs"

lemma renders_retype: "renders V fmt args bs \<Longrightarrow> render (se_print V) fmt (map retype args) = Some bs"
  using render_same retype_all unfolding renders_def by blast

locale text_sink = ser_sink V can takes
  for V :: "('s, 'a) ser_env" and can :: "nat \<Rightarrow> 's port \<Rightarrow> bool" and takes :: "byte list \<Rightarrow> 's port \<Rightarrow> 's port \<Rightarrow> bool" +
  assumes print_law: "can (length bs + k) (port sz) \<Longrightarrow> renders V fmt args bs \<Longrightarrow>
      \<exists>p. stream_printf V fmt args sz = Ok (int (length bs), set_port p sz) \<and> can k p \<and> takes bs (port sz) p"

text \<open>The operation \<open>f\<close> takes the object from \<open>P\<close> to \<open>Q\<close> and puts out \<open>bs\<close>, wherever there is space for them.\<close>

definition says :: "(nat \<Rightarrow> 's port \<Rightarrow> bool) \<Rightarrow> (byte list \<Rightarrow> 's port \<Rightarrow> 's port \<Rightarrow> bool) \<Rightarrow> ('s Serialize \<Rightarrow> bool) \<Rightarrow> byte list \<Rightarrow>
    ('s Serialize \<Rightarrow> 's Serialize outcome) \<Rightarrow> ('s Serialize \<Rightarrow> bool) \<Rightarrow> bool" where
  "says can takes P bs f Q \<longleftrightarrow> (\<forall>sz k. P sz \<longrightarrow> can (length bs + k) (port sz) \<longrightarrow>
     (\<exists>sz'. f sz = Ok sz' \<and> Q sz' \<and> can k (port sz') \<and> takes bs (port sz) (port sz')))"

lemma saysI:
  assumes "\<And>sz k. P sz \<Longrightarrow> can (length bs + k) (port sz) \<Longrightarrow>
    \<exists>sz'. f sz = Ok sz' \<and> Q sz' \<and> can k (port sz') \<and> takes bs (port sz) (port sz')"
  shows "says can takes P bs f Q"
  using assms by (simp add: says_def)

lemma saysD:
  assumes "says can takes P bs f Q" and "P sz" and "can (length bs + k) (port sz)"
  obtains sz' where "f sz = Ok sz'" "Q sz'" "can k (port sz')" "takes bs (port sz) (port sz')"
  using assms by (auto simp: says_def)

lemma says_cong: "(\<And>sz. P sz \<Longrightarrow> f sz = g sz) \<Longrightarrow> says can takes P bs g Q \<Longrightarrow> says can takes P bs f Q"
  by (simp add: says_def)

lemma says_eq:
  assumes "says can takes P bs f Q" and "bs = ts" and "\<And>sz. P sz \<Longrightarrow> g sz = f sz"
  shows "says can takes P ts g Q"
  using says_cong [OF assms(3) assms(1)] assms(2) by simp

lemma says_weaken: "says can takes P bs f Q \<Longrightarrow> (\<And>sz. P' sz \<Longrightarrow> P sz) \<Longrightarrow> (\<And>sz. Q sz \<Longrightarrow> Q' sz) \<Longrightarrow> says can takes P' bs f Q'"
  by (fastforce simp: says_def)

text \<open>The same for a transfer that leaves the value as \<open>out\<close>.\<close>

definition hands :: "(nat \<Rightarrow> 's port \<Rightarrow> bool) \<Rightarrow> (byte list \<Rightarrow> 's port \<Rightarrow> 's port \<Rightarrow> bool) \<Rightarrow> ('s Serialize \<Rightarrow> bool) \<Rightarrow> byte list \<Rightarrow> 'b \<Rightarrow>
    ('s Serialize \<Rightarrow> ('b \<times> 's Serialize) outcome) \<Rightarrow> ('s Serialize \<Rightarrow> bool) \<Rightarrow> bool" where
  "hands can takes P bs out f Q \<longleftrightarrow> (\<forall>sz k. P sz \<longrightarrow> can (length bs + k) (port sz) \<longrightarrow>
     (\<exists>sz'. f sz = Ok (out, sz') \<and> Q sz' \<and> can k (port sz') \<and> takes bs (port sz) (port sz')))"

lemma handsI:
  assumes "\<And>sz k. P sz \<Longrightarrow> can (length bs + k) (port sz) \<Longrightarrow>
    \<exists>sz'. f sz = Ok (out, sz') \<and> Q sz' \<and> can k (port sz') \<and> takes bs (port sz) (port sz')"
  shows "hands can takes P bs out f Q"
  using assms by (simp add: hands_def)

lemma handsD:
  assumes "hands can takes P bs out f Q" and "P sz" and "can (length bs + k) (port sz)"
  obtains sz' where "f sz = Ok (out, sz')" "Q sz'" "can k (port sz')" "takes bs (port sz) (port sz')"
  using assms by (auto simp: hands_def)

lemma says_hands:
  assumes "says can takes P bs g Q" and "bs = ts" and "\<And>sz. P sz \<Longrightarrow> f sz = omap (Pair out) (g sz)"
  shows "hands can takes P ts out f Q"
  using assms by (fastforce simp: says_def hands_def)

lemma hands_eq:
  assumes "hands can takes P bs out f Q" and "bs = ts" and "\<And>sz. P sz \<Longrightarrow> g sz = f sz"
  shows "hands can takes P ts out g Q"
  using assms by (simp add: hands_def)

text \<open>Elements, and characters.\<close>

lemma hands_at_element:
  assumes "hands can takes P bs (drop (nat off) val) (f (drop (nat off) val)) Q" and "0 \<le> off" and "off \<le> int (length val)"
  shows "hands can takes P bs val (at_element off f val) Q"
proof (rule handsI)
  fix sz k
  assume a: "P sz" "can (length bs + k) (port sz)"
  from handsD [OF assms(1) a] obtain sz' where "f (drop (nat off) val) sz = Ok (drop (nat off) val, sz')" "Q sz'" "can k (port sz')"
    "takes bs (port sz) (port sz')" .
  with assms(2,3) show "\<exists>sz'. at_element off f val sz = Ok (val, sz') \<and> Q sz' \<and> can k (port sz') \<and> takes bs (port sz) (port sz')"
    by (simp add: at_element_def)
qed

text \<open>An object whose transfer goes to such a stream.\<close>

definition text_mode :: "'s Serialize \<Rightarrow> bool" where
  "text_mode sz \<longleftrightarrow> sz_valid sz = SERIALIZE_VALID \<and> (sz_mode sz = SERIALIZE_MODE_WRITE \<or> sz_mode sz = SERIALIZE_MODE_CALC)"

lemma text_mode_simps:
  assumes "text_mode sz"
  shows "by_mode sz r w d = w" "valid_serialize sz m = m" "Serialize_isWriting sz = Ok True"
  using assms by (auto simp: text_mode_def by_mode_def valid_serialize_def Serialize_isWriting_def)

lemma hands_char:
  assumes "hands can takes P bs out (f (num_bytes little TInt (if is_signed_char type then sint (val ! nat off) else uint (val ! nat off)))) Q"
    and "0 \<le> off" and "off < int (length val)" and "\<And>sz. Q sz \<Longrightarrow> text_mode sz"
  shows "hands can takes P bs val (char_through_int little type off f val) Q"
proof (rule handsI)
  fix sz k
  assume a: "P sz" "can (length bs + k) (port sz)"
  from handsD [OF assms(1) a] obtain sz' where s: "f (num_bytes little TInt (if is_signed_char type then sint (val ! nat off)
      else uint (val ! nat off))) sz = Ok (out, sz')" "Q sz'" "can k (port sz')" "takes bs (port sz) (port sz')" .
  from assms(4) [OF s(2)] have "sz_mode sz' \<noteq> SERIALIZE_MODE_READ" by (auto simp: text_mode_def)
  with s assms(2,3) show "\<exists>sz'. char_through_int little type off f val sz = Ok (val, sz') \<and> Q sz' \<and> can k (port sz') \<and>
      takes bs (port sz) (port sz')"
    by (simp add: char_through_int_def Let_def)
qed

definition spaces_text :: "int \<Rightarrow> byte list" where
  "spaces_text i = replicate (nat i) 32"

context text_sink
begin

lemma says_bind:
  assumes "says can takes P bs f Q" and "says can takes Q cs g R"
  shows "says can takes P (bs @ cs) (\<lambda>sz. obind (f sz) g) R"
proof (rule saysI)
  fix sz k
  assume a: "P sz" "can (length (bs @ cs) + k) (port sz)"
  then have "can (length bs + (length cs + k)) (port sz)" by (simp add: add.assoc)
  from saysD [OF assms(1) a(1) this] obtain s1 where s1: "f sz = Ok s1" "Q s1" "can (length cs + k) (port s1)" "takes bs (port sz) (port s1)" .
  from saysD [OF assms(2) s1(2,3)] obtain s2 where "g s1 = Ok s2" "R s2" "can k (port s2)" "takes cs (port s1) (port s2)" .
  with s1 takes_more [OF s1(4)] show "\<exists>sz'. obind (f sz) g = Ok sz' \<and> R sz' \<and> can k (port sz') \<and> takes (bs @ cs) (port sz) (port sz')"
    by auto
qed

lemma says_bind_eq:
  assumes "says can takes P bs f Q" and "says can takes Q cs g R" and "ts = bs @ cs"
  shows "says can takes P ts (\<lambda>sz. obind (f sz) g) R"
  unfolding assms(3) by (rule says_bind [OF assms(1,2)])

text \<open>Operations that do not touch the stream.\<close>

lemma says_silent:
  assumes "\<And>sz. P sz \<Longrightarrow> \<exists>sz'. f sz = Ok sz' \<and> Q sz' \<and> port sz' = port sz"
  shows "says can takes P [] f Q"
  using assms takes_nothing by (fastforce intro!: saysI)

lemma says_put:
  assumes "renders V fmt args bs" and "\<And>sz. P sz \<Longrightarrow> text_mode sz" and "\<And>sz p. P sz \<Longrightarrow> P (set_port p sz)"
  shows "says can takes P bs (put_text V fmt args) P"
proof (rule saysI)
  fix sz k
  assume a: "P sz" "can (length bs + k) (port sz)"
  from print_law [OF a(2) assms(1)] obtain p where "stream_printf V fmt args sz = Ok (int (length bs), set_port p sz)" "can k p"
    "takes bs (port sz) p" by blast
  then show "\<exists>sz'. put_text V fmt args sz = Ok sz' \<and> P sz' \<and> can k (port sz') \<and> takes bs (port sz) (port sz')"
    using assms(2,3) [OF a(1)] by (simp add: put_text_def Serialize_printf_def text_mode_simps)
qed

lemma indent_loop_says:
  assumes "can (n + k) (port sz)"
  shows "\<exists>p. indent_loop n V sz = Ok (set_port p sz) \<and> can k p \<and> takes (replicate n 32) (port sz) p"
  using assms
proof (induction n arbitrary: sz)
  case 0
  then show ?case using takes_nothing by (intro exI [of _ "port sz"]) simp
next
  case (Suc n)
  then have "can (length [32 :: byte] + (n + k)) (port sz)" by simp
  from put_law [OF this] obtain p where p: "stream_write V [32] sz = Ok (1, set_port p sz)" "can (n + k) p" "takes [32] (port sz) p"
    by auto
  from Suc.IH [of "set_port p sz"] p(2) obtain q where "indent_loop n V (set_port p sz) = Ok (set_port q sz)" "can k q"
    "takes (replicate n 32) p q" by auto
  with p takes_more [OF p(3)] show ?case by (intro exI [of _ q]) auto
qed

lemma says_indent:
  assumes "\<And>sz. P sz \<Longrightarrow> text_mode sz \<and> sz_indentLevel sz = i" and "\<And>sz p. P sz \<Longrightarrow> P (set_port p sz)"
  shows "says can takes P (spaces_text i) (SERIALIZE_INDENT V) P"
proof (rule saysI)
  fix sz k
  assume a: "P sz" "can (length (spaces_text i) + k) (port sz)"
  then have "can (nat i + k) (port sz)" by (simp add: spaces_text_def)
  from indent_loop_says [OF this] obtain p where "indent_loop (nat i) V sz = Ok (set_port p sz)" "can k p"
    "takes (replicate (nat i) 32) (port sz) p" by blast
  then show "\<exists>sz'. SERIALIZE_INDENT V sz = Ok sz' \<and> P sz' \<and> can k (port sz') \<and> takes (spaces_text i) (port sz) (port sz')"
    using assms(1,2) [OF a(1)] by (simp add: SERIALIZE_INDENT_def Serialize_indent_def text_mode_simps spaces_text_def)
qed

lemma hands_elements:
  assumes "\<And>j. i \<le> j \<Longrightarrow> j < i + int n \<Longrightarrow> hands can takes (P j) (T j) val (f j val) (P (j + 1))"
  shows "hands can takes (P i) (concat (map (\<lambda>j. T (i + int j)) [0..<n])) val (for_elements f n i val) (P (i + int n))"
  using assms
proof (induction n arbitrary: i)
  case 0
  then show ?case by (auto intro!: handsI takes_nothing)
next
  case (Suc n)
  have "hands can takes (P (i + 1)) (concat (map (\<lambda>j. T (i + 1 + int j)) [0..<n])) val (for_elements f n (i + 1) val) (P (i + 1 + int n))"
    by (rule Suc.IH) (use Suc.prems in \<open>auto simp: add.assoc\<close>)
  then have rest: "hands can takes (P (i + 1)) (concat (map (\<lambda>j. T (i + int j)) [1..<Suc n])) val (for_elements f n (i + 1) val)
      (P (i + int (Suc n)))"
    by (simp add: add.assoc map_Suc_upt [symmetric] o_def del: upt_Suc)
  have first: "hands can takes (P i) (T i) val (f i val) (P (i + 1))" using Suc.prems(1) [of i] by simp
  have u: "[0..<Suc n] = 0 # [1..<Suc n]" by (simp add: upt_rec del: upt_Suc)
  show ?case
  proof (rule handsI)
    fix sz k
    assume a: "P i sz" "can (length (concat (map (\<lambda>j. T (i + int j)) [0..<Suc n])) + k) (port sz)"
    then have "can (length (T i) + (length (concat (map (\<lambda>j. T (i + int j)) [1..<Suc n])) + k)) (port sz)"
      unfolding u by (simp add: add.assoc del: upt_Suc)
    from handsD [OF first a(1) this] obtain s1 where s1: "f i val sz = Ok (val, s1)" "P (i + 1) s1"
      "can (length (concat (map (\<lambda>j. T (i + int j)) [1..<Suc n])) + k) (port s1)" "takes (T i) (port sz) (port s1)" .
    from handsD [OF rest s1(2,3)] obtain s2 where s2: "for_elements f n (i + 1) val s1 = Ok (val, s2)" "P (i + int (Suc n)) s2"
      "can k (port s2)" "takes (concat (map (\<lambda>j. T (i + int j)) [1..<Suc n])) (port s1) (port s2)" .
    with s1 takes_more [OF s1(4) s2(4)] show "\<exists>sz'. for_elements f (Suc n) i val sz = Ok (val, sz') \<and> P (i + int (Suc n)) sz' \<and>
        can k (port sz') \<and> takes (concat (map (\<lambda>j. T (i + int j)) [0..<Suc n])) (port sz) (port sz')"
      unfolding u by (simp del: upt_Suc)
  qed
qed

text \<open>A value: the text of its conversion, which is not empty.\<close>

lemma says_deploy_arg:
  assumes "renders V spec [arg] bs" and "bs \<noteq> []" and "Serialize_getTypeMaxSizeAsAscii type = Ok m"
    and "\<And>sz. P sz \<Longrightarrow> text_mode sz" and "\<And>sz p r. P sz \<Longrightarrow> P ((set_port p sz)\<lparr>sz_roundOff := r\<rparr>)"
  shows "says can takes P bs (\<lambda>sz. omap snd (Serialize_deployDataType V type (SERIALIZE_DEPLOYDATAMODE_ASCII spec arg) sz)) P"
proof (rule saysI)
  fix sz k
  assume a: "P sz" "can (length bs + k) (port sz)"
  from print_law [OF a(2) assms(1)] obtain p where p: "stream_printf V spec [arg] sz = Ok (int (length bs), set_port p sz)" "can k p"
    "takes bs (port sz) p" by blast
  have m: "sz_mode sz = SERIALIZE_MODE_WRITE \<or> sz_mode sz = SERIALIZE_MODE_CALC" "sz_valid sz = SERIALIZE_VALID"
    using assms(4) [OF a(1)] by (auto simp: text_mode_def)
  then show "\<exists>sz'. omap snd (Serialize_deployDataType V type (SERIALIZE_DEPLOYDATAMODE_ASCII spec arg) sz) = Ok sz' \<and> P sz' \<and>
      can k (port sz') \<and> takes bs (port sz) (port sz')"
    using p assms(2,3,5) a(1) by (auto simp: Serialize_deployDataType_def valid_serialize_def simp del: set_port_update)
qed

lemma says_deploy:
  assumes "load_arg (se_isLittleEndian V) spec val = Ok arg" and "renders V spec [arg] bs" and "bs \<noteq> []"
    and "Serialize_getTypeMaxSizeAsAscii type = Ok m"
    and "\<And>sz. P sz \<Longrightarrow> text_mode sz" and "\<And>sz p r. P sz \<Longrightarrow> P ((set_port p sz)\<lparr>sz_roundOff := r\<rparr>)"
  shows "says can takes P bs (deploy_text V type spec val) P"
  by (rule says_cong [OF _ says_deploy_arg [where P = P, OF assms(2-6)]]) (simp_all add: deploy_text_def assms(1))

text \<open>A number of the code itself.\<close>

lemma says_deploy_int:
  assumes "renders V ''%d'' [NumArg TInt i] bs" and "bs \<noteq> []"
    and "\<And>sz. P sz \<Longrightarrow> text_mode sz" and "\<And>sz p r. P sz \<Longrightarrow> P ((set_port p sz)\<lparr>sz_roundOff := r\<rparr>)"
  shows "says can takes P bs (deploy_int V i) P"
  unfolding deploy_int_def
  by (rule says_deploy_arg [where P = P, OF assms(1,2) _ assms(3,4)]) (simp_all add: Serialize_getTypeMaxSizeAsAscii_def)

end

subsection \<open>Memory and the measuring stream\<close>

interpretation mem_text: text_sink "on_memory V" mem_port_can mem_port_takes for V
proof
  fix bs :: "byte list" and k fmt args and sz :: "IOChannelGenericMem Serialize"
  assume a: "mem_port_can (length bs + k) (port sz)" "renders (on_memory V) fmt args bs"
  then have w: "sz_stream sz = UserStream" "writing (sz_channel sz)" "mem_space (length bs + k) (sz_channel sz)"
    by (simp_all add: mem_port_can_def)
  from mem_sink.printf_renders [OF w(2) renders_retype [OF a(2)] w(3)] obtain ch where
    ch: "IOChannel_printf (se_print (on_memory V)) IOChannelMemOps fmt (map retype args) (sz_channel sz) = Ok (int (length bs), ch)"
      "writing ch" "mem_space k ch" "mem_takes bs (sz_channel sz) ch" by blast
  then have "stream_printf (on_memory V) fmt args sz = Ok (int (length bs), set_port (mem_port ch (port sz)) sz)"
    using w(1) by (simp add: stream_printf_def on_stream_def on_memory_def set_mem_port)
  then show "\<exists>p. stream_printf (on_memory V) fmt args sz = Ok (int (length bs), set_port p sz) \<and> mem_port_can k p \<and>
      mem_port_takes bs (port sz) p"
    using ch w(1) by (intro exI [of _ "mem_port ch (port sz)"]) (simp add: mem_port_can_def mem_port_takes_def)
qed

text \<open>The position of the measuring stream counts every byte, too.\<close>

definition counts_position :: "byte list \<Rightarrow> 's IOChannel \<Rightarrow> 's IOChannel \<Rightarrow> bool" where
  "counts_position bs ch ch' \<longleftrightarrow> ch_wrDeployedBytes ch' = ch_wrDeployedBytes ch + int (length bs) \<and>
     ch_currentIndexPosition ch' = ch_currentIndexPosition ch + int (length bs)"

interpretation calc_position: sink IOChannelCalcOps "\<lambda>k. calc_can" counts_position
proof
  fix m :: calc_channel and bs :: "byte list"
  assume a: "writing m" "calc_can m" "bs \<noteq> []"
  then obtain st where m: "ch_streamPtr m = Own st" "writable m" "ready m" "\<not> ch_foundEof m"
    by (auto simp: calc_can_def writing_def writable_def)
  let ?m = "m\<lparr>ch_streamPtr := Own (st\<lparr>ca_numWriteCalls := ca_numWriteCalls st + 1, ca_maxSize := max (ca_maxSize st) (int (length bs)),
      ca_minSize := min (ca_minSize st) (int (length bs))\<rparr>), ch_rdBytesFromLastWrite := 0,
      ch_wrDeployedBytes := ch_wrDeployedBytes m + int (length bs),
      ch_currentIndexPosition := ch_currentIndexPosition m + int (length bs)\<rparr>"
  have "IOChannel_writeInternal IOChannelCalcOps (Some bs) m = Ok (int (length bs), ?m)"
    using calc.write_counts [OF m(2) a(2,3)] calc_write [OF m(3,1), of bs] m(2) by auto
  moreover have "writing ?m" "calc_can ?m" using m a by (auto simp: writing_def calc_can_def)
  ultimately show "\<exists>ch'. IOChannel_writeInternal IOChannelCalcOps (Some bs) m = Ok (int (length bs), ch') \<and> writing ch' \<and> calc_can ch' \<and>
      counts_position bs m ch'" by (intro exI [of _ ?m]) (simp add: counts_position_def)
qed (simp_all add: counts_position_def)

interpretation calc_text: text_sink V calc_port_can calc_port_takes for V :: "('s, 'a) ser_env"
proof
  fix bs :: "byte list" and k fmt args and sz :: "'s Serialize"
  assume a: "calc_port_can (length bs + k) (port sz)" "renders V fmt args bs"
  then obtain m where m: "sz_stream sz = CalcStream" "sz_calcSizeStream sz = Own m" "writing m" "calc_can m"
    by (auto simp: calc_port_can_def)
  from calc_position.printf_renders [OF m(3) renders_retype [OF a(2)] m(4)] obtain m' where
    m': "IOChannel_printf (se_print V) IOChannelCalcOps fmt (map retype args) m = Ok (int (length bs), m')"
      "writing m'" "calc_can m'" "counts_position bs m m'" by blast
  then show "\<exists>p. stream_printf V fmt args sz = Ok (int (length bs), set_port p sz) \<and> calc_port_can k p \<and> calc_port_takes bs (port sz) p"
    using m by (intro exI [of _ "(CalcStream, sz_channel sz, Own m')"])
      (simp add: stream_printf_def on_stream_def set_calc_port calc_port_can_def calc_port_takes_def counts_position_def)
qed

end
