(* ===== verification/Ser_Machine.thy ===== *)
theory Ser_Machine
  imports Ser_Text_Correct
begin

text \<open>
  Functions of the user in a text format. What a format prints depends on what it has printed before (an
  indentation, whether a comma is due). A text machine describes this without the object, the stream and
  the memory: each function of the format becomes a step that gives a text and the next configuration, and
  the machine gives a function of the user its text. The locale \<open>text_format\<close> is the contract between a format and
  its machine: each call of the format puts out the text of the step. Over it every function of the user
  puts out the text that the machine gives it.
\<close>

subsection \<open>Text machines\<close>

type_synonym 'c told = "(byte list \<times> 'c) option"

text \<open>Of a whole function there are its text, the values that it leaves to the user, and the next configuration.\<close>

type_synonym 'c account = "(byte list \<times> byte list list \<times> 'c) option"

definition then_text :: "'c account \<Rightarrow> ('c \<Rightarrow> 'c account) \<Rightarrow> 'c account" where
  "then_text m f = (case m of None \<Rightarrow> None
     | Some (bs, vs, c) \<Rightarrow> map_option (\<lambda>(bs', vs', c). (bs @ bs', vs @ vs', c)) (f c))"

definition only_text :: "'c told \<Rightarrow> 'c account" where
  "only_text m = map_option (\<lambda>(bs, c). (bs, [], c)) m"

lemma then_text_Some:
  "then_text m f = Some (ts, us, c'') \<longleftrightarrow>
    (\<exists>bs vs c bs' vs'. m = Some (bs, vs, c) \<and> f c = Some (bs', vs', c'') \<and> ts = bs @ bs' \<and> us = vs @ vs')"
  by (auto simp: then_text_def split: option.splits)

lemma only_text_Some: "only_text m = Some (bs, vs, c) \<longleftrightarrow> m = Some (bs, c) \<and> vs = []"
  by (auto simp: only_text_def)

lemma only_text_simps [simp]: "only_text (Some (bs, c)) = Some (bs, [], c)" "only_text None = None"
  by (simp_all add: only_text_def)

text \<open>The steps get the number of open types; a step is \<open>None\<close> where the machine does not describe the format. The step of a value
  gives the memory of the value after the transfer, too.\<close>

record 'c text_machine =
  tm_beginType :: "int \<Rightarrow> 'c \<Rightarrow> byte list \<Rightarrow> byte list \<Rightarrow> 'c told"
  tm_beginBaseType :: "int \<Rightarrow> 'c \<Rightarrow> byte list \<Rightarrow> byte list \<Rightarrow> 'c told"
  tm_beginArray :: "'c \<Rightarrow> SerializeType \<Rightarrow> byte list \<Rightarrow> int \<Rightarrow> 'c told"
  tm_beginStructArray :: "'c \<Rightarrow> byte list \<Rightarrow> byte list \<Rightarrow> int \<Rightarrow> 'c told"
  tm_beginStructArraySeparator :: "'c \<Rightarrow> byte list \<Rightarrow> int \<Rightarrow> int \<Rightarrow> 'c told"
  tm_doSerialize :: "'c \<Rightarrow> SerializeType \<Rightarrow> byte list \<Rightarrow> byte list \<Rightarrow> int \<Rightarrow> int \<Rightarrow> (byte list \<times> byte list \<times> 'c) option"
  tm_endStructArraySeparator :: "'c \<Rightarrow> byte list \<Rightarrow> int \<Rightarrow> int \<Rightarrow> 'c told"
  tm_endStructArray :: "'c \<Rightarrow> 'c told"
  tm_endArray :: "'c \<Rightarrow> SerializeType \<Rightarrow> byte list \<Rightarrow> int \<Rightarrow> 'c told"
  tm_endBaseType :: "int \<Rightarrow> 'c \<Rightarrow> 'c told"
  tm_endType :: "int \<Rightarrow> 'c \<Rightarrow> 'c told"

primrec texts_in_turn :: "('c \<Rightarrow> 'c account) list \<Rightarrow> 'c \<Rightarrow> 'c account" where
  "texts_in_turn [] c = Some ([], [], c)"
| "texts_in_turn (f # fs) c = then_text (f c) (texts_in_turn fs)"

primrec texts_of_elements :: "'c text_machine \<Rightarrow> ('c \<Rightarrow> 'c account) list \<Rightarrow> byte list \<Rightarrow> int \<Rightarrow> int \<Rightarrow> 'c \<Rightarrow> 'c account" where
  "texts_of_elements M [] name i n c = Some ([], [], c)"
| "texts_of_elements M (f # fs) name i n c =
     then_text (only_text (tm_beginStructArraySeparator M c name i n)) (\<lambda>c.
     then_text (f c) (\<lambda>c.
     then_text (only_text (tm_endStructArraySeparator M c name i n)) (\<lambda>c. texts_of_elements M fs name (i + 1) n c)))"

text \<open>\<open>k\<close> is the number of open types around the call. The outermost type is never a base type.\<close>

primrec prog_text :: "'c text_machine \<Rightarrow> ser_prog \<Rightarrow> int \<Rightarrow> 'c \<Rightarrow> 'c account" where
  "prog_text M (TypeFn name type body) k c =
     (if c_string name \<and> c_string type
      then then_text (only_text (tm_beginType M (k + 1) c name type)) (\<lambda>c.
           then_text (texts_in_turn (map (\<lambda>f. f (k + 1)) (map (prog_text M) body)) c) (\<lambda>c. only_text (tm_endType M (k + 1) c)))
      else None)"
| "prog_text M (BaseTypeFn name type body) k c =
     (if c_string name \<and> c_string type \<and> k \<ge> 1
      then then_text (only_text (tm_beginBaseType M (k + 1) c name type)) (\<lambda>c.
           then_text (texts_in_turn (map (\<lambda>f. f (k + 1)) (map (prog_text M) body)) c) (\<lambda>c. only_text (tm_endBaseType M (k + 1) c)))
      else None)"
| "prog_text M (Value type name val n len) k c =
     (if c_string name
      then then_text (only_text (if SERIALIZE_IS_ARRAY_ELEMENT type then tm_beginArray M c type name len else Some ([], c))) (\<lambda>c.
           then_text (map_option (\<lambda>(bs, v, c). (bs, [v], c)) (tm_doSerialize M c type name val n len)) (\<lambda>c.
           only_text (if SERIALIZE_IS_ARRAY_ELEMENT type then tm_endArray M c type name len else Some ([], c))))
      else None)"
| "prog_text M (StructArray name type n body) k c =
     (if c_string name \<and> c_string type \<and> n = int (length body)
      then then_text (only_text (tm_beginStructArray M c name type n)) (\<lambda>c.
           then_text (texts_of_elements M (map (\<lambda>f. f k) (map (prog_text M) body)) name 0 n c)
             (\<lambda>c. only_text (tm_endStructArray M c)))
      else None)"

definition values_of :: "ser_prog \<Rightarrow> byte list list" where
  "values_of q = map leaf_value (leaves q)"

lemma values_of_simps:
  "values_of (TypeFn name type body) = concat (map values_of body)"
  "values_of (BaseTypeFn name type body) = concat (map values_of body)"
  "values_of (StructArray name type m body) = concat (map values_of body)"
  "values_of (Value t name val n len) = [val]"
  by (simp_all add: values_of_def [abs_def] map_concat o_def)

subsection \<open>The current format\<close>

text \<open>A serializer with the functions \<open>Ops\<close> as its format, with \<open>k\<close> open types; \<open>b\<close> holds
  within the calls for base types, \<open>t\<close> while formats are translated.\<close>

definition format_at :: "'s ser_formats \<Rightarrow> 's SerializeFormat \<Rightarrow> bool \<Rightarrow> bool \<Rightarrow> int \<Rightarrow> 's Serialize \<Rightarrow> bool" where
  "format_at F Ops b t k sz \<longleftrightarrow> sz_valid sz = SERIALIZE_VALID \<and> sz_numTypeCalls sz = k \<and> sz_baseTypeEnable sz = b \<and> sz_isTranslateMode sz = t \<and> \<not> sz_errorOccurred sz \<and>
     inside sz \<and> sz_format sz \<noteq> 0 \<and> (\<exists>info. cells (sz_infos sz) (sz_format sz) = Some info \<and> fi_ops info < length (sf_table F) \<and>
       sf_table F ! fi_ops info = Ops)"

lemma format_at_simps:
  assumes "format_at F Ops b t k sz"
  shows "sz_valid sz = SERIALIZE_VALID" "sz_numTypeCalls sz = k" "sz_baseTypeEnable sz = b" "sz_isTranslateMode sz = t" "\<not> sz_errorOccurred sz" "0 < k \<or> 0 \<le> k \<and> t" "0 \<le> k" "sz_format sz \<noteq> 0"
    "valid_serialize sz m = m" "format_set sz m = m" "with_ops F sz g = g Ops"
  using assms by (auto simp: format_at_def with_ops_def table_at_def valid_serialize_def format_set_def inside_def)

text \<open>Functions of the user over such an object.\<close>

text \<open>\<open>owes bs p\<close>: \<open>bs\<close> is still to go over the port \<open>p\<close>. A step takes the first part of it, the function of the user its text.\<close>

definition passes :: "(byte list \<Rightarrow> 's port \<Rightarrow> bool) \<Rightarrow> ('s Serialize \<Rightarrow> bool) \<Rightarrow> byte list \<Rightarrow> ('s Serialize \<Rightarrow> 's Serialize outcome) \<Rightarrow>
    ('s Serialize \<Rightarrow> bool) \<Rightarrow> bool" where
  "passes owes P bs f Q \<longleftrightarrow> (\<forall>sz rest. P sz \<longrightarrow> owes (bs @ rest) (port sz) \<longrightarrow>
     (\<exists>sz'. f sz = Ok sz' \<and> Q sz' \<and> owes rest (port sz')))"

definition carries :: "(byte list \<Rightarrow> 's port \<Rightarrow> bool) \<Rightarrow> ('s Serialize \<Rightarrow> bool) \<Rightarrow> byte list \<Rightarrow> 'b \<Rightarrow> ('s Serialize \<Rightarrow> ('b \<times> 's Serialize) outcome) \<Rightarrow>
    ('s Serialize \<Rightarrow> bool) \<Rightarrow> bool" where
  "carries owes P bs out f Q \<longleftrightarrow> (\<forall>sz rest. P sz \<longrightarrow> owes (bs @ rest) (port sz) \<longrightarrow>
     (\<exists>sz'. f sz = Ok (out, sz') \<and> Q sz' \<and> owes rest (port sz')))"

definition tells :: "(byte list \<Rightarrow> 's port \<Rightarrow> bool) \<Rightarrow> ('s Serialize \<Rightarrow> bool) \<Rightarrow> byte list \<Rightarrow>
    byte list list \<Rightarrow> ('s ser_run \<Rightarrow> (unit, 's ser_run) flow outcome) \<Rightarrow> ('s Serialize \<Rightarrow> bool) \<Rightarrow> bool" where
  "tells owes P bs outs g Q \<longleftrightarrow> (\<forall>r rest. P (rn_sz r) \<longrightarrow> owes (bs @ rest) (port (rn_sz r)) \<longrightarrow>
     (\<exists>r'. g r = Ok (Returned () r') \<and> Q (rn_sz r') \<and> owes rest (port (rn_sz r')) \<and> rn_values r' = rn_values r @ outs))"

lemma passesI:
  assumes "\<And>sz rest. P sz \<Longrightarrow> owes (bs @ rest) (port sz) \<Longrightarrow> \<exists>sz'. f sz = Ok sz' \<and> Q sz' \<and> owes rest (port sz')"
  shows "passes owes P bs f Q"
  using assms by (simp add: passes_def)

lemma passesD:
  assumes "passes owes P bs f Q" and "P sz" and "owes (bs @ rest) (port sz)"
  obtains sz' where "f sz = Ok sz'" "Q sz'" "owes rest (port sz')"
  using assms by (auto simp: passes_def)

lemma carriesD:
  assumes "carries owes P bs out f Q" and "P sz" and "owes (bs @ rest) (port sz)"
  obtains sz' where "f sz = Ok (out, sz')" "Q sz'" "owes rest (port sz')"
  using assms by (auto simp: carries_def)

lemma tellsI:
  assumes "\<And>r rest. P (rn_sz r) \<Longrightarrow> owes (bs @ rest) (port (rn_sz r)) \<Longrightarrow>
     \<exists>r'. g r = Ok (Returned () r') \<and> Q (rn_sz r') \<and> owes rest (port (rn_sz r')) \<and> rn_values r' = rn_values r @ outs"
  shows "tells owes P bs outs g Q"
  using assms by (simp add: tells_def)

lemma tellsD:
  assumes "tells owes P bs outs g Q" and "P (rn_sz r)" and "owes (bs @ rest) (port (rn_sz r))"
  obtains r' where "g r = Ok (Returned () r')" "Q (rn_sz r')" "owes rest (port (rn_sz r'))" "rn_values r' = rn_values r @ outs"
  using assms by (auto simp: tells_def)

lemma passes_silent:
  assumes "\<And>sz. P sz \<Longrightarrow> \<exists>sz'. f sz = Ok sz' \<and> Q sz' \<and> port sz' = port sz"
  shows "passes owes P [] f Q"
  using assms by (fastforce intro!: passesI)

lemma port_set_recovery [simp]: "port (set_recovery frame sz) = port sz"
  by (simp add: set_recovery_def)

subsection \<open>The contract\<close>

locale text_format =
  fixes V :: "('s, 'a) ser_env" and owes :: "byte list \<Rightarrow> 's port \<Rightarrow> bool"
    and F :: "'s ser_formats" and Ops :: "'s SerializeFormat" and M :: "'c text_machine"
    and holds :: "bool \<Rightarrow> bool \<Rightarrow> int \<Rightarrow> 'c \<Rightarrow> 's Serialize \<Rightarrow> bool"
  assumes holds_law: "holds b t k c sz \<Longrightarrow> format_at F Ops b t k sz"
    and calm_law: "holds b t k c sz \<Longrightarrow> owes bs (port sz) \<Longrightarrow> stream_eof sz = Ok False \<and> sz_stream sz \<noteq> NoStream"
    and holds_keeps: "holds b t k c sz \<Longrightarrow> holds b t k c (sz\<lparr>sz_recoveryJmpSet := s, sz_recoveryJmp := j\<rparr>)"
    and holds_base: "holds b t k c sz \<Longrightarrow> holds b' t k c (sz\<lparr>sz_baseTypeEnable := b'\<rparr>)"
    and holds_count: "holds b t k c sz \<Longrightarrow> 0 < k' \<or> 0 \<le> k' \<and> t \<Longrightarrow> holds b t k' c (sz\<lparr>sz_numTypeCalls := k'\<rparr>)"
    and beginType_law: "tm_beginType M k c name type = Some (bs, c') \<Longrightarrow>
      passes owes (holds b t k c) bs (indirectBeginType Ops name type) (holds b t k c')"
    and beginBaseType_law: "tm_beginBaseType M k c name type = Some (bs, c') \<Longrightarrow>
      passes owes (holds b t k c) bs (indirectBeginBaseType Ops name type) (holds b t k c')"
    and beginArray_law: "tm_beginArray M c stype name len = Some (bs, c') \<Longrightarrow>
      passes owes (holds b t k c) bs (indirectBeginArray Ops stype name len) (holds b t k c')"
    and beginStructArray_law: "tm_beginStructArray M c name type len = Some (bs, c') \<Longrightarrow>
      passes owes (holds b t k c) bs (indirectBeginStructArray Ops name type len) (holds b t k c')"
    and beginSeparator_law: "tm_beginStructArraySeparator M c name i len = Some (bs, c') \<Longrightarrow>
      passes owes (holds b t k c) bs (indirectBeginStructArraySeparator Ops name i len) (holds b t k c')"
    and doSerialize_law: "tm_doSerialize M c stype name val n len = Some (bs, out, c') \<Longrightarrow>
      carries owes (holds b t k c) bs out (indirectDoSerialize Ops stype name val n len) (holds b t k c')"
    and endSeparator_law: "tm_endStructArraySeparator M c name i len = Some (bs, c') \<Longrightarrow>
      passes owes (holds b t k c) bs (indirectEndStructArraySeparator Ops name i len) (holds b t k c')"
    and endStructArray_law: "tm_endStructArray M c = Some (bs, c') \<Longrightarrow>
      passes owes (holds b t k c) bs (indirectEndStructArray Ops) (holds b t k c')"
    and endArray_law: "tm_endArray M c stype name len = Some (bs, c') \<Longrightarrow>
      passes owes (holds b t k c) bs (indirectEndArray Ops stype name len) (holds b t k c')"
    and endBaseType_law: "tm_endBaseType M k c = Some (bs, c') \<Longrightarrow>
      passes owes (holds b t k c) bs (indirectEndBaseType Ops) (holds b t k c')"
    and endType_law: "tm_endType M k c = Some (bs, c') \<Longrightarrow>
      passes owes (holds b t k c) bs (indirectEndType Ops) (holds b t k c')"
begin

lemma fbind_assoc:
  "fbind m (\<lambda>_ r. fbind (f r) (\<lambda>_ r. fbind (g r) h)) = fbind (fbind m (\<lambda>_ r. fbind (f r) (\<lambda>_ r. g r))) h"
  by (cases m) (auto simp: fbind_def obind_assoc split: flow.splits intro!: obind_cong)

lemma tells_bind:
  assumes "tells owes P bs outs f Q" and "tells owes Q cs outs' g R"
  shows "tells owes P (bs @ cs) (outs @ outs') (\<lambda>r. fbind (f r) (\<lambda>_ r. g r)) R"
proof (rule tellsI)
  fix r :: "'s ser_run" and rest
  assume a: "P (rn_sz r)" "owes ((bs @ cs) @ rest) (port (rn_sz r))"
  then have "owes (bs @ (cs @ rest)) (port (rn_sz r))" by simp
  from tellsD [OF assms(1) a(1) this] obtain r1 where r1: "f r = Ok (Returned () r1)" "Q (rn_sz r1)" "owes (cs @ rest) (port (rn_sz r1))"
    "rn_values r1 = rn_values r @ outs" .
  from tellsD [OF assms(2) r1(2,3)] obtain r2 where "g r1 = Ok (Returned () r2)" "R (rn_sz r2)" "owes rest (port (rn_sz r2))"
    "rn_values r2 = rn_values r1 @ outs'" .
  with r1 show "\<exists>r'. fbind (f r) (\<lambda>_ r. g r) = Ok (Returned () r') \<and> R (rn_sz r') \<and> owes rest (port (rn_sz r')) \<and>
      rn_values r' = rn_values r @ outs @ outs'"
    by (auto simp: fbind_def)
qed

lemma tells_step:
  assumes "passes owes P bs f Q" and "\<And>sz rest. P sz \<Longrightarrow> owes (bs @ rest) (port sz) \<Longrightarrow> g sz = lift_flow (f sz)"
  shows "tells owes P bs [] (step g) Q"
proof (rule tellsI)
  fix r :: "'s ser_run" and rest
  assume a: "P (rn_sz r)" "owes (bs @ rest) (port (rn_sz r))"
  from passesD [OF assms(1) a] obtain sz' where "f (rn_sz r) = Ok sz'" "Q sz'" "owes rest (port sz')" .
  with assms(2) [OF a] show "\<exists>r'. step g r = Ok (Returned () r') \<and> Q (rn_sz r') \<and> owes rest (port (rn_sz r')) \<and>
      rn_values r' = rn_values r @ []"
    by (intro exI [of _ "r\<lparr>rn_sz := sz'\<rparr>"]) (simp add: step_def lift_flow_def)
qed

lemma skip_none: "holds b t k c sz \<Longrightarrow> owes bs (port sz) \<Longrightarrow> SERIALIZE_SKIPIFERROR sz = Ok (Returned () sz)"
  using format_at_simps(5) [OF holds_law] calm_law by (simp add: SERIALIZE_SKIPIFERROR_def)

lemma format_call_lift: "holds b t k c sz \<Longrightarrow> owes bs (port sz) \<Longrightarrow> format_call F f sz = lift_flow (f Ops sz)"
  by (simp add: format_call_def skip_none format_at_simps [OF holds_law] fbind_def)

text \<open>The calls that only ask the format.\<close>

lemma tells_calls:
  assumes "c_string name" and "c_string type"
  shows "tm_beginStructArray M c name type n = Some (bs, c') \<Longrightarrow>
      tells owes (holds b t k c) bs [] (step (Serialize_beginStructArray F name type n)) (holds b t k c')"
    "tm_endStructArray M c = Some (bs, c') \<Longrightarrow> tells owes (holds b t k c) bs [] (step (Serialize_endStructArray F)) (holds b t k c')"
    "0 \<le> i \<Longrightarrow> i < n \<Longrightarrow> tm_beginStructArraySeparator M c name i n = Some (bs, c') \<Longrightarrow>
      tells owes (holds b t k c) bs [] (step (Serialize_beginStructArraySeparator F name i n)) (holds b t k c')"
    "0 \<le> i \<Longrightarrow> i < n \<Longrightarrow> tm_endStructArraySeparator M c name i n = Some (bs, c') \<Longrightarrow>
      tells owes (holds b t k c) bs [] (step (Serialize_endStructArraySeparator F name i n)) (holds b t k c')"
  by (erule tells_step [OF beginStructArray_law],
      simp add: assms Serialize_beginStructArray_def format_at_simps [OF holds_law] format_call_lift,
      erule tells_step [OF endStructArray_law],
      simp add: Serialize_endStructArray_def format_at_simps [OF holds_law] format_call_lift,
      erule tells_step [OF beginSeparator_law],
      simp add: assms Serialize_beginStructArraySeparator_def format_at_simps [OF holds_law] format_call_lift,
      erule tells_step [OF endSeparator_law],
      simp add: assms Serialize_endStructArraySeparator_def format_at_simps [OF holds_law] format_call_lift)

lemma tells_in_turn:
  assumes "\<And>q c bs vs c'. q \<in> set body \<Longrightarrow> prog_text M q k c = Some (bs, vs, c') \<Longrightarrow>
      tells owes (holds b t k c) bs vs (run_prog V F q) (holds b t k c')"
    and "texts_in_turn (map (\<lambda>f. f k) (map (prog_text M) body)) c = Some (bs, vs, c')"
  shows "tells owes (holds b t k c) bs vs (in_turn (map (run_prog V F) body)) (holds b t k c')"
  using assms
proof (induction body arbitrary: c bs vs)
  case Nil
  then show ?case by (auto intro!: tellsI)
next
  case (Cons q body)
  from Cons.prems(2) obtain ts us c1 ts' us' where p: "prog_text M q k c = Some (ts, us, c1)"
    "texts_in_turn (map (\<lambda>f. f k) (map (prog_text M) body)) c1 = Some (ts', us', c')" "bs = ts @ ts'" "vs = us @ us'"
    by (auto simp: then_text_Some)
  have q: "tells owes (holds b t k c) ts us (run_prog V F q) (holds b t k c1)" using Cons.prems(1) p(1) by simp
  have "tells owes (holds b t k c1) ts' us' (in_turn (map (run_prog V F) body)) (holds b t k c')"
    using Cons.IH [OF _ p(2)] Cons.prems(1) by simp
  from tells_bind [OF q this] show ?case by (simp add: p(3,4))
qed

lemma tells_elements:
  assumes "\<And>q c bs vs c'. q \<in> set body \<Longrightarrow> prog_text M q k c = Some (bs, vs, c') \<Longrightarrow>
      tells owes (holds b t k c) bs vs (run_prog V F q) (holds b t k c')"
    and "texts_of_elements M (map (\<lambda>f. f k) (map (prog_text M) body)) name i n c = Some (bs, vs, c')"
    and "c_string name" and "0 \<le> i" and "i + int (length body) \<le> n"
  shows "tells owes (holds b t k c) bs vs (elements (map (run_prog V F) body) F name i n) (holds b t k c')"
  using assms
proof (induction body arbitrary: c bs vs i)
  case Nil
  then show ?case by (auto intro!: tellsI)
next
  case (Cons q body)
  from Cons.prems(2) obtain t1 c1 t2 u2 c2 t3 c3 t4 u4 where p: "tm_beginStructArraySeparator M c name i n = Some (t1, c1)"
    "prog_text M q k c1 = Some (t2, u2, c2)" "tm_endStructArraySeparator M c2 name i n = Some (t3, c3)"
    "texts_of_elements M (map (\<lambda>f. f k) (map (prog_text M) body)) name (i + 1) n c3 = Some (t4, u4, c')" "bs = t1 @ t2 @ t3 @ t4"
    "vs = u2 @ u4"
    by (auto simp: then_text_Some only_text_Some)
  have i: "0 \<le> i" "i < n" using Cons.prems(4,5) by auto
  have q: "tells owes (holds b t k c1) t2 u2 (run_prog V F q) (holds b t k c2)" using Cons.prems(1) p(2) by simp
  have rest: "tells owes (holds b t k c3) t4 u4 (elements (map (run_prog V F) body) F name (i + 1) n) (holds b t k c')"
    using Cons.IH [OF _ p(4)] Cons.prems by simp
  note calls = tells_calls(3,4) [OF Cons.prems(3) Cons.prems(3) i]
  from tells_bind [OF calls(1) [OF p(1)] tells_bind [OF q tells_bind [OF calls(2) [OF p(3)] rest]]]
  show ?case by (simp add: p(5,6))
qed

lemma tells_value:
  assumes "prog_text M (Value type name val n len) k c = Some (bs, vs, c')"
  shows "tells owes (holds b t k c) bs vs (transfer F type name val n len) (holds b t k c')"
proof (rule tellsI)
  fix r :: "'s ser_run" and rest
  let ?arr = "SERIALIZE_IS_ARRAY_ELEMENT type"
  assume a: "holds b t k c (rn_sz r)" "owes (bs @ rest) (port (rn_sz r))"
  obtain t1 c1 t2 out c2 t3 where p: "c_string name" "(if ?arr then tm_beginArray M c type name len else Some ([], c)) = Some (t1, c1)"
    "tm_doSerialize M c1 type name val n len = Some (t2, out, c2)"
    "(if ?arr then tm_endArray M c2 type name len else Some ([], c2)) = Some (t3, c')" "bs = t1 @ t2 @ t3" "vs = [out]"
    using assms by (auto simp: then_text_Some only_text_Some simp del: only_text_simps split: if_splits)
  have opens: "passes owes (holds b t k c) t1 (\<lambda>sz. if ?arr then indirectBeginArray Ops type name len sz else Ok sz) (holds b t k c1)"
    using p(2) beginArray_law by (cases ?arr) (auto intro!: passes_silent)
  have closes: "passes owes (holds b t k c2) t3 (\<lambda>sz. if ?arr then indirectEndArray Ops type name len sz else Ok sz) (holds b t k c')"
    using p(4) endArray_law by (cases ?arr) (auto intro!: passes_silent)
  have "owes (t1 @ (t2 @ (t3 @ rest))) (port (rn_sz r))" using a(2) p(5) by simp
  from passesD [OF opens a(1) this] obtain s1 where s1: "(if ?arr then indirectBeginArray Ops type name len (rn_sz r) else Ok (rn_sz r)) = Ok s1"
    "holds b t k c1 s1" "owes (t2 @ (t3 @ rest)) (port s1)" .
  from carriesD [OF doSerialize_law [OF p(3)] s1(2,3)] obtain s2 where s2: "indirectDoSerialize Ops type name val n len s1 = Ok (out, s2)"
    "holds b t k c2 s2" "owes (t3 @ rest) (port s2)" .
  from passesD [OF closes s2(2,3)] obtain s3 where s3: "(if ?arr then indirectEndArray Ops type name len s2 else Ok s2) = Ok s3"
    "holds b t k c' s3" "owes rest (port s3)" .
  have "Serialize_doSerialize F type name val n len (rn_sz r) = Ok (Returned () (out, s3))"
    using s1(1) s2(1) s3(1) p(1)
    by (cases ?arr) (simp_all add: Serialize_doSerialize_def Serialize_beginArray_def Serialize_endArray_def format_at_simps [OF holds_law [OF a(1)]]
        format_at_simps [OF holds_law [OF s1(2)]] format_at_simps [OF holds_law [OF s2(2)]] skip_none [OF a] skip_none [OF s1(2,3)] format_call_lift [OF a]
        format_call_lift [OF s2(2,3)] with_value_def fbind_def lift_flow_def)
  then show "\<exists>r'. transfer F type name val n len r = Ok (Returned () r') \<and> holds b t k c' (rn_sz r') \<and> owes rest (port (rn_sz r')) \<and>
      rn_values r' = rn_values r @ vs"
    using s3 p(6) by (intro exI [of _ "r\<lparr>rn_sz := s3, rn_values := rn_values r @ [out]\<rparr>"]) (simp add: transfer_def Let_def)
qed

text \<open>Begin and end of a type inside of an open object.\<close>

lemma tells_begin:
  assumes "c_string name" and "c_string type" and "0 < k \<or> 0 \<le> k \<and> t"
  shows "tm_beginType M (k + 1) c name type = Some (bs, c') \<Longrightarrow>
      tells owes (holds False t k c) bs [] (step (Serialize_internalBeginType V F name type)) (holds False t (k + 1) c')"
    "tm_beginBaseType M (k + 1) c name type = Some (bs, c') \<Longrightarrow> 1 \<le> k \<Longrightarrow>
      tells owes (holds True t k c) bs [] (step (Serialize_internalBeginType V F name type)) (holds True t (k + 1) c')"
proof -
  have i: "\<not> (k = 0 \<and> \<not> t)" using assms(3) by auto
  have deeper: "passes owes (holds b t k c) bs (\<lambda>sz. f (sz\<lparr>sz_numTypeCalls := k + 1\<rparr>)) (holds b t (k + 1) c')"
    if "passes owes (holds b t (k + 1) c) bs f (holds b t (k + 1) c')" for b f c' bs
  proof (rule passesI)
    fix sz rest
    assume a: "holds b t k c sz" "owes (bs @ rest) (port sz)"
    have "holds b t (k + 1) c (sz\<lparr>sz_numTypeCalls := k + 1\<rparr>)" by (rule holds_count [OF a(1)]) (use assms(3) in auto)
    from passesD [OF that this, of rest] a(2) show "\<exists>sz'. f (sz\<lparr>sz_numTypeCalls := k + 1\<rparr>) = Ok sz' \<and> holds b t (k + 1) c' sz' \<and>
        owes rest (port sz')" by auto
  qed
  have call: "Serialize_internalBeginType V F name type sz =
      lift_flow ((if b \<and> 0 < k then indirectBeginBaseType Ops else indirectBeginType Ops) name type (sz\<lparr>sz_numTypeCalls := k + 1\<rparr>))"
    if h: "holds b t k c sz" "owes bs (port sz)" for b sz bs
  proof -
    note at = format_at_simps [OF holds_law [OF h(1)]]
    have count: "with_ops F (sz\<lparr>sz_numTypeCalls := k + 1\<rparr>) g = g Ops" for g :: "'s SerializeFormat \<Rightarrow> 's Serialize outcome"
      by (rule format_at_simps(11) [OF holds_law [OF holds_count [OF h(1)]]]) (use assms(3) in auto)
    show ?thesis
      using assms(1,2) calm_law [OF h]
      by (simp add: Serialize_internalBeginType_def Serialize_isTheFirstBeginTypeCall_def at if_not_P [OF i] skip_none [OF h]
          fbind_def SERIALIZEFORMAT_BEGINTYPE_def Let_def count)
  qed
  show "tm_beginType M (k + 1) c name type = Some (bs, c') \<Longrightarrow>
      tells owes (holds False t k c) bs [] (step (Serialize_internalBeginType V F name type)) (holds False t (k + 1) c')"
    by (rule tells_step [OF deeper [OF beginType_law]], assumption) (simp add: call)
  show "tm_beginBaseType M (k + 1) c name type = Some (bs, c') \<Longrightarrow> 1 \<le> k \<Longrightarrow>
      tells owes (holds True t k c) bs [] (step (Serialize_internalBeginType V F name type)) (holds True t (k + 1) c')"
    by (rule tells_step [OF deeper [OF beginBaseType_law]], assumption) (simp add: call)
qed

lemma tells_end:
  assumes "0 < k \<or> 0 \<le> k \<and> t"
  shows "tm_endType M (k + 1) c = Some (bs, c') \<Longrightarrow>
      tells owes (holds False t (k + 1) c) bs [] (step (Serialize_internalEndType V F)) (holds False t k c')"
    "tm_endBaseType M (k + 1) c = Some (bs, c') \<Longrightarrow> 1 \<le> k \<Longrightarrow>
      tells owes (holds True t (k + 1) c) bs [] (step (Serialize_internalEndType V F)) (holds True t k c')"
proof -
  have i: "\<not> (k = 0 \<and> \<not> t)" using assms by auto
  have less: "passes owes (holds b t (k + 1) c) bs (\<lambda>sz. omap (\<lambda>sz. sz\<lparr>sz_numTypeCalls := k\<rparr>) (f sz)) (holds b t k c')"
    if "passes owes (holds b t (k + 1) c) bs f (holds b t (k + 1) c')" for b f
  proof (rule passesI)
    fix sz rest
    assume a: "holds b t (k + 1) c sz" "owes (bs @ rest) (port sz)"
    from passesD [OF that a] obtain sz' where s: "f sz = Ok sz'" "holds b t (k + 1) c' sz'" "owes rest (port sz')" .
    have "holds b t k c' (sz'\<lparr>sz_numTypeCalls := k\<rparr>)" by (rule holds_count [OF s(2) assms])
    with s show "\<exists>sz'. omap (\<lambda>sz. sz\<lparr>sz_numTypeCalls := k\<rparr>) (f sz) = Ok sz' \<and> holds b t k c' sz' \<and> owes rest (port sz')" by simp
  qed
  have ends: "tells owes (holds b t (k + 1) c) bs [] (step (Serialize_internalEndType V F)) (holds b t k c')"
    if f: "passes owes (holds b t (k + 1) c) bs ((if b \<and> 0 < k then indirectEndBaseType else indirectEndType) Ops) (holds b t (k + 1) c')" for b
  proof (rule tells_step [OF less [OF f]])
    fix sz rest
    assume a: "holds b t (k + 1) c sz" "owes (bs @ rest) (port sz)"
    from passesD [OF f a] obtain sz' where s: "(if b \<and> 0 < k then indirectEndBaseType else indirectEndType) Ops sz = Ok sz'"
      "holds b t (k + 1) c' sz'" .
    note at = format_at_simps [OF holds_law [OF a(1)]] and at' = format_at_simps [OF holds_law [OF s(2)]]
    have c: "(0 < k \<and> b) = (b \<and> 0 < k)" by blast
    have "0 \<le> k" using assms by auto
    have "SERIALIZEFORMAT_ENDTYPE F sz = Ok (sz'\<lparr>sz_numTypeCalls := k\<rparr>)"
      using s(1) \<open>0 \<le> k\<close> by (auto simp: SERIALIZEFORMAT_ENDTYPE_def at at' Let_def c split: if_splits)
    then show "Serialize_internalEndType V F sz =
        lift_flow (omap (\<lambda>sz. sz\<lparr>sz_numTypeCalls := k\<rparr>) ((if b \<and> 0 < k then indirectEndBaseType else indirectEndType) Ops sz))"
      using s(1) by (simp add: Serialize_internalEndType_def Serialize_isTheLastEndTypeCall_def at at' skip_none [OF a] if_not_P [OF i]
          fbind_def)
  qed
  show "tm_endType M (k + 1) c = Some (bs, c') \<Longrightarrow>
      tells owes (holds False t (k + 1) c) bs [] (step (Serialize_internalEndType V F)) (holds False t k c')"
    by (rule ends) (simp add: endType_law)
  show "tm_endBaseType M (k + 1) c = Some (bs, c') \<Longrightarrow> 1 \<le> k \<Longrightarrow>
      tells owes (holds True t (k + 1) c) bs [] (step (Serialize_internalEndType V F)) (holds True t k c')"
    by (rule ends) (simp add: endBaseType_law)
qed

lemma holds_recovery: "holds b t k c sz \<Longrightarrow> holds b t k c (set_recovery frame sz)"
  by (simp add: set_recovery_def holds_keeps)

text \<open>A macro of the user's function changes only the fields for recovery around the calls.\<close>

lemma tells_TypeFn:
  assumes "prog_text M (TypeFn name type body) k c = Some (bs, vs, c')" and "0 < k \<or> 0 \<le> k \<and> t"
    and body: "\<And>c bs vs c'. texts_in_turn (map (\<lambda>f. f (k + 1)) (map (prog_text M) body)) c = Some (bs, vs, c') \<Longrightarrow>
      tells owes (holds False t (k + 1) c) bs vs (in_turn (map (run_prog V F) body)) (holds False t (k + 1) c')"
  shows "tells owes (holds False t k c) bs vs (run_prog V F (TypeFn name type body)) (holds False t k c')"
proof (rule tellsI)
  fix r :: "'s ser_run" and rest
  assume a: "holds False t k c (rn_sz r)" "owes (bs @ rest) (port (rn_sz r))"
  obtain t1 c1 t2 c2 t3 where p: "c_string name" "c_string type" "tm_beginType M (k + 1) c name type = Some (t1, c1)"
    "texts_in_turn (map (\<lambda>f. f (k + 1)) (map (prog_text M) body)) c1 = Some (t2, vs, c2)" "tm_endType M (k + 1) c2 = Some (t3, c')"
    "bs = t1 @ t2 @ t3"
    using assms(1) by (auto simp: then_text_Some only_text_Some split: if_splits)
  let ?r = "r\<lparr>rn_frame := rn_frame r + 1, rn_sz := set_recovery (rn_frame r) (rn_sz r)\<rparr>"
  have "tells owes (holds False t k c) (t1 @ t2 @ t3) ([] @ vs @ [])
      (\<lambda>r. fbind (step (Serialize_internalBeginType V F name type) r) (\<lambda>_ r. fbind (in_turn (map (run_prog V F) body) r)
        (\<lambda>_ r. step (Serialize_internalEndType V F) r))) (holds False t k c')"
    by (rule tells_bind [OF tells_begin(1) [OF p(1,2) assms(2) p(3)] tells_bind [OF body [OF p(4)] tells_end(1) [OF assms(2) p(5)]]])
  from tellsD [OF this, of ?r rest] a p(6) holds_recovery [OF a(1)]
  obtain r1 where r1: "fbind (step (Serialize_internalBeginType V F name type) ?r) (\<lambda>_ r. fbind (in_turn (map (run_prog V F) body) r)
        (\<lambda>_ r. step (Serialize_internalEndType V F) r)) = Ok (Returned () r1)" "holds False t k c' (rn_sz r1)" "owes rest (port (rn_sz r1))"
    "rn_values r1 = rn_values r @ vs"
    by auto
  have "run_prog V F (TypeFn name type body) r = Ok (Returned () (r1\<lparr>rn_sz := (rn_sz r1)\<lparr>sz_recoveryJmpSet := False\<rparr>\<rparr>))"
    using r1(1) by (simp add: fbind_assoc caught_def Let_def)
  moreover have "holds False t k c' ((rn_sz r1)\<lparr>sz_recoveryJmpSet := False\<rparr>)"
    using holds_keeps [OF r1(2), where j = "sz_recoveryJmp (rn_sz r1)" and s = False] by (cases "rn_sz r1") simp
  ultimately show "\<exists>r'. run_prog V F (TypeFn name type body) r = Ok (Returned () r') \<and> holds False t k c' (rn_sz r') \<and>
      owes rest (port (rn_sz r')) \<and> rn_values r' = rn_values r @ vs"
    using r1(3,4) by (intro exI [of _ "r1\<lparr>rn_sz := (rn_sz r1)\<lparr>sz_recoveryJmpSet := False\<rparr>\<rparr>"]) simp
qed

lemma tells_steps:
  assumes "tells owes P bs [] (step g) Q" and "P sz" and "owes (bs @ rest) (port sz)"
  obtains sz' where "g sz = Ok (Returned () sz')" "Q sz'" "owes rest (port sz')"
proof -
  from tellsD [OF assms(1), of "\<lparr>rn_sz = sz, rn_frame = 0, rn_values = []\<rparr>" rest] assms(2,3) obtain r where
    r: "step g \<lparr>rn_sz = sz, rn_frame = 0, rn_values = []\<rparr> = Ok (Returned () r)" "Q (rn_sz r)" "owes rest (port (rn_sz r))"
    by auto
  then show thesis using that by (cases "g sz") (auto simp: step_def split: flow.splits)
qed

lemma tells_BaseTypeFn:
  assumes "prog_text M (BaseTypeFn name type body) k c = Some (bs, vs, c')"
    and body: "\<And>c bs vs c'. texts_in_turn (map (\<lambda>f. f (k + 1)) (map (prog_text M) body)) c = Some (bs, vs, c') \<Longrightarrow>
      tells owes (holds False t (k + 1) c) bs vs (in_turn (map (run_prog V F) body)) (holds False t (k + 1) c')"
  shows "tells owes (holds False t k c) bs vs (run_prog V F (BaseTypeFn name type body)) (holds False t k c')"
proof (rule tellsI)
  fix r :: "'s ser_run" and rest
  assume a: "holds False t k c (rn_sz r)" "owes (bs @ rest) (port (rn_sz r))"
  obtain t1 c1 t2 c2 t3 where p: "c_string name" "c_string type" "tm_beginBaseType M (k + 1) c name type = Some (t1, c1)"
    "texts_in_turn (map (\<lambda>f. f (k + 1)) (map (prog_text M) body)) c1 = Some (t2, vs, c2)" "tm_endBaseType M (k + 1) c2 = Some (t3, c')"
    "bs = t1 @ t2 @ t3" "1 \<le> k"
    using assms(1) by (auto simp: then_text_Some only_text_Some split: if_splits)
  have k: "0 < k \<or> 0 \<le> k \<and> t" using p(7) by simp
  let ?sz = "set_recovery (rn_frame r) ((rn_sz r)\<lparr>sz_baseTypeEnable := True\<rparr>)"
  have "owes (t1 @ (t2 @ (t3 @ rest))) (port ?sz)" using a(2) p(6) by simp
  from tells_steps [OF tells_begin(2) [OF p(1,2) k p(3,7)] holds_recovery [OF holds_base [OF a(1)]] this] obtain s1 where
    s1: "Serialize_internalBeginType V F name type ?sz = Ok (Returned () s1)" "holds True t (k + 1) c1 s1"
      "owes (t2 @ (t3 @ rest)) (port s1)" .
  let ?s1 = "s1\<lparr>sz_baseTypeEnable := False\<rparr>"
  have b: "Serialize_beginBaseType V F (rn_frame r) name type (rn_sz r) = Ok (Returned () ?s1)"
    using s1(1) p(1,2)
    by (simp add: Serialize_beginBaseType_def format_at_simps [OF holds_law [OF a(1)]] skip_none [OF a] fbind_def caught_def)
  let ?r = "r\<lparr>rn_frame := rn_frame r + 1, rn_sz := ?s1\<rparr>"
  have "holds False t (k + 1) c1 (rn_sz ?r)" "owes (t2 @ (t3 @ rest)) (port (rn_sz ?r))" using holds_base [OF s1(2)] s1(3) by simp_all
  from tellsD [OF body [OF p(4)] this] obtain r2 where r2: "in_turn (map (run_prog V F) body) ?r = Ok (Returned () r2)"
    "holds False t (k + 1) c2 (rn_sz r2)" "owes (t3 @ rest) (port (rn_sz r2))" "rn_values r2 = rn_values r @ vs" by auto
  have "owes (t3 @ rest) (port ((rn_sz r2)\<lparr>sz_baseTypeEnable := True\<rparr>))" using r2(3) by simp
  from tells_steps [OF tells_end(2) [OF k p(5,7)] holds_base [OF r2(2)] this] obtain s3 where
    s3: "Serialize_internalEndType V F ((rn_sz r2)\<lparr>sz_baseTypeEnable := True\<rparr>) = Ok (Returned () s3)" "holds True t k c' s3"
      "owes rest (port s3)" .
  let ?s3 = "s3\<lparr>sz_baseTypeEnable := False\<rparr>"
  have "Serialize_endBaseType V F (rn_sz r2) = Ok (Returned () ?s3)"
    using s3(1) p(7) by (simp add: Serialize_endBaseType_def format_at_simps [OF holds_law [OF r2(2)]] skip_none [OF r2(2,3)] fbind_def)
  then have "run_prog V F (BaseTypeFn name type body) r = Ok (Returned () (r2\<lparr>rn_sz := ?s3\<rparr>))"
    using b r2(1) by (simp add: step_def fbind_def Let_def)
  then show "\<exists>r'. run_prog V F (BaseTypeFn name type body) r = Ok (Returned () r') \<and> holds False t k c' (rn_sz r') \<and>
      owes rest (port (rn_sz r')) \<and> rn_values r' = rn_values r @ vs"
    using holds_base [OF s3(2)] s3(3) r2(4) by (intro exI [of _ "r2\<lparr>rn_sz := ?s3\<rparr>"]) simp
qed

lemma tells_StructArray:
  assumes "prog_text M (StructArray name type n body) k c = Some (bs, vs, c')"
    and body: "\<And>c bs vs c'. texts_of_elements M (map (\<lambda>f. f k) (map (prog_text M) body)) name 0 (int (length body)) c = Some (bs, vs, c') \<Longrightarrow>
      c_string name \<Longrightarrow> tells owes (holds False t k c) bs vs (elements (map (run_prog V F) body) F name 0 (int (length body))) (holds False t k c')"
  shows "tells owes (holds False t k c) bs vs (run_prog V F (StructArray name type n body)) (holds False t k c')"
proof -
  have n: "n = int (length body)" using assms(1) by (simp split: if_splits)
  obtain t1 c1 t2 c2 t3 where p: "c_string name" "c_string type" "tm_beginStructArray M c name type (int (length body)) = Some (t1, c1)"
    "texts_of_elements M (map (\<lambda>f. f k) (map (prog_text M) body)) name 0 (int (length body)) c1 = Some (t2, vs, c2)"
    "tm_endStructArray M c2 = Some (t3, c')" "bs = t1 @ t2 @ t3"
    using assms(1) by (auto simp: then_text_Some only_text_Some split: if_splits)
  from tells_bind [OF tells_calls(1) [OF p(1,2,3)] tells_bind [OF body [OF p(4,1)] tells_calls(2) [OF p(1,2,5)]]]
  have "tells owes (holds False t k c) bs vs (\<lambda>r.
      fbind (step (Serialize_beginStructArray F name type (int (length body))) r) (\<lambda>_ r.
      fbind (elements (map (run_prog V F) body) F name 0 (int (length body)) r) (\<lambda>_ r. step (Serialize_endStructArray F) r))) (holds False t k c')"
    by (simp add: p(6))
  moreover have "run_prog V F (StructArray name type n body) = (\<lambda>r.
      fbind (step (Serialize_beginStructArray F name type (int (length body))) r) (\<lambda>_ r.
      fbind (elements (map (run_prog V F) body) F name 0 (int (length body)) r) (\<lambda>_ r. step (Serialize_endStructArray F) r)))"
    by (rule ext) (simp add: n)
  ultimately show ?thesis by simp
qed

lemma tells_prog:
  "prog_text M q k c = Some (bs, vs, c') \<Longrightarrow> 0 < k \<or> 0 \<le> k \<and> t \<Longrightarrow>
    tells owes (holds False t k c) bs vs (run_prog V F q) (holds False t k c')"
proof (induction q arbitrary: k c bs vs c')
  case (TypeFn name type body)
  show ?case by (rule tells_TypeFn [OF TypeFn(2,3)]) (rule tells_in_turn, use TypeFn(1,3) in auto)
next
  case (BaseTypeFn name type body)
  show ?case by (rule tells_BaseTypeFn [OF BaseTypeFn(2)]) (rule tells_in_turn, use BaseTypeFn(1,3) in auto)
next
  case (Value type name val n len)
  then show ?case using tells_value by simp
next
  case (StructArray name type n body)
  show ?case by (rule tells_StructArray [OF StructArray(2)]) (rule tells_elements, use StructArray(1,3) in auto)
qed

text \<open>A call from outside.\<close>

lemma call_tells:
  assumes "prog_text M q k c = Some (bs, vs, c')" and "0 < k \<or> 0 \<le> k \<and> t" and "holds False t k c sz" and "owes (bs @ rest) (port sz)"
  shows "\<exists>sz'. serialize_call V F q sz = Ok (vs, sz') \<and> holds False t k c' sz' \<and> owes rest (port sz')"
proof -
  let ?r = "\<lparr>rn_sz = sz, rn_frame = Suc (sz_recoveryJmp sz), rn_values = []\<rparr>"
  from tellsD [OF tells_prog [OF assms(1,2)], of ?r rest] assms(3,4) obtain r where
    "run_prog V F q ?r = Ok (Returned () r)" "holds False t k c' (rn_sz r)" "owes rest (port (rn_sz r))"
    "rn_values r = vs" by auto
  then show ?thesis by (intro exI [of _ "rn_sz r"]) (simp add: serialize_call_def)
qed

end

subsection \<open>Streams that take texts\<close>

text \<open>For a stream that takes texts the text that it still owes is what is missing of the whole text.\<close>

context text_sink
begin

lemma still_takes:
  assumes "still_to_take can takes p0 T (bs @ rest) p" and "takes bs p p'" and "can (length rest) p'"
  shows "still_to_take can takes p0 T rest p'"
proof -
  obtain taken where t: "T = taken @ bs @ rest" "takes taken p0 p" using assms(1) by (auto simp: still_to_take_def)
  then show ?thesis
    using takes_more [OF t(2) assms(2)] assms(3) unfolding still_to_take_def by (intro exI [of _ "taken @ bs"]) simp
qed

lemma says_passes:
  assumes "says can takes P bs f Q"
  shows "passes (still_to_take can takes p0 T) P bs f Q"
proof (rule passesI)
  fix sz rest
  assume a: "P sz" "still_to_take can takes p0 T (bs @ rest) (port sz)"
  then have "can (length bs + length rest) (port sz)" by (auto simp: still_to_take_def)
  from saysD [OF assms a(1) this] obtain sz' where "f sz = Ok sz'" "Q sz'" "can (length rest) (port sz')" "takes bs (port sz) (port sz')" .
  with still_takes [OF a(2)] show "\<exists>sz'. f sz = Ok sz' \<and> Q sz' \<and> still_to_take can takes p0 T rest (port sz')" by blast
qed

lemma hands_carries:
  assumes "hands can takes P bs out f Q"
  shows "carries (still_to_take can takes p0 T) P bs out f Q"
proof -
  have "\<exists>sz'. f sz = Ok (out, sz') \<and> Q sz' \<and> still_to_take can takes p0 T rest (port sz')"
    if a: "P sz" "still_to_take can takes p0 T (bs @ rest) (port sz)" for sz rest
  proof -
    have "can (length bs + length rest) (port sz)" using a(2) by (auto simp: still_to_take_def)
    from handsD [OF assms a(1) this] obtain sz' where "f sz = Ok (out, sz')" "Q sz'" "can (length rest) (port sz')" "takes bs (port sz) (port sz')" .
    with still_takes [OF a(2)] show ?thesis by blast
  qed
  then show ?thesis by (simp add: carries_def)
qed

lemma still_calm: "still_to_take can takes p0 T bs (port sz) \<Longrightarrow> stream_eof sz = Ok False \<and> sz_stream sz \<noteq> NoStream"
  using ok_law by (auto simp: still_to_take_def)

text \<open>At the start all of the text is missing, and at the end it has been taken.\<close>

lemma still_all: "can (length bs + k) p \<Longrightarrow> \<exists>rest. length rest = k \<and> still_to_take can takes p (bs @ rest) (bs @ rest) p"
  using takes_nothing [of _ p] by (intro exI [of _ "replicate k 0"]) (auto simp: still_to_take_def)

lemma still_done: "still_to_take can takes p0 (bs @ rest) rest p \<Longrightarrow> can (length rest) p \<and> takes bs p0 p"
  by (auto simp: still_to_take_def)

end

end
