(* ===== verification/Ser_Values.thy ===== *)
theory Ser_Values
  imports Ser_Machine
begin

text \<open>
  The values that a text format prints. A value is a block of memory; each of its elements has a text, which the formatted output gives for a
  conversion of the format. What follows is the same for all formats: which values can be printed, the texts of
  their elements, and the transfer of the elements one after the other.
\<close>

subsection \<open>Values that have a text\<close>

text \<open>Names are C strings that end within their memory.\<close>

definition text_name :: "byte list \<Rightarrow> bool" where
  "text_name name \<longleftrightarrow> c_string name \<and> 0 \<in> set name"

text \<open>The text of the value at an address; nothing where it cannot be printed.\<close>

definition arg_text :: "('s, 'a) ser_env \<Rightarrow> string \<Rightarrow> byte list \<Rightarrow> byte list" where
  "arg_text V spec mem = (case load_arg (se_isLittleEndian V) spec mem of
     Ok arg \<Rightarrow> (case render (se_print V) spec [arg] of Some bs \<Rightarrow> bs | None \<Rightarrow> []) | _ \<Rightarrow> [])"

definition arg_ok :: "('s, 'a) ser_env \<Rightarrow> string \<Rightarrow> byte list \<Rightarrow> bool" where
  "arg_ok V spec mem \<longleftrightarrow> (\<exists>arg bs. load_arg (se_isLittleEndian V) spec mem = Ok arg \<and> renders V spec [arg] bs \<and> bs \<noteq> [])"

text \<open>The memory that is printed for each of the elements of a value.\<close>

definition char_item :: "bool \<Rightarrow> SerializeType \<Rightarrow> byte \<Rightarrow> byte list" where
  "char_item little type c = num_bytes little TInt (if is_signed_char type then sint c else uint c)"

definition value_items :: "bool \<Rightarrow> SerializeType \<Rightarrow> byte list \<Rightarrow> int \<Rightarrow> int \<Rightarrow> byte list list" where
  "value_items little type val n len =
     (if is_char_type type then map (\<lambda>i. char_item little type (val ! nat (n * int i))) [0..<nat len]
      else if SERIALIZE_IS_ARRAY_ELEMENT type then map (\<lambda>i. drop (nat (n * int i)) val) [0..<nat len]
      else [val])"

definition value_texts :: "('s, 'a) ser_env \<Rightarrow> (SerializeType \<Rightarrow> string) \<Rightarrow> SerializeType \<Rightarrow> byte list \<Rightarrow> int \<Rightarrow> int \<Rightarrow> byte list list" where
  "value_texts V spec type val n len = map (arg_text V (spec type)) (value_items (se_isLittleEndian V) type val n len)"

text \<open>\<open>spec\<close> is the conversion a format uses for the elements of a type. Strings are printed without regard to their length.\<close>

fun text_value :: "('s, 'a) ser_env \<Rightarrow> (SerializeType \<Rightarrow> string) \<Rightarrow> leaf \<Rightarrow> bool" where
  "text_value V spec (type, name, val, n, len) \<longleftrightarrow> text_name name \<and> type \<noteq> SERIALIZE_TYPE_OTHER \<and> n > 0 \<and> (type = SERIALIZE_TYPE_STRING \<or> len > 0) \<and>
     (if is_char_type type \<or> SERIALIZE_IS_ARRAY_ELEMENT type then n * (len - 1) < int (length val) else True) \<and>
     list_all (arg_ok V (spec type)) (value_items (se_isLittleEndian V) type val n len)"

lemma length_value_items: "length (value_items h type val n len) =
    (if is_char_type type \<or> SERIALIZE_IS_ARRAY_ELEMENT type then nat len else 1)"
  by (simp add: value_items_def)

lemma arg_ok_text: "arg_ok V spec mem \<Longrightarrow> \<exists>arg. load_arg (se_isLittleEndian V) spec mem = Ok arg \<and> renders V spec [arg] (arg_text V spec mem) \<and>
    arg_text V spec mem \<noteq> []"
  by (auto simp: arg_ok_def arg_text_def renders_def)

lemma type_size: "type \<noteq> SERIALIZE_TYPE_OTHER \<Longrightarrow> \<exists>m. Serialize_getTypeMaxSizeAsAscii type = Ok m"
  by (cases type) (simp_all add: Serialize_getTypeMaxSizeAsAscii_def)

text \<open>The offsets of the elements.\<close>

lemma offset_in:
  assumes "n > 0" and "0 \<le> j" and "j < len" and "n * (len - 1) < int (length val)"
  shows "0 \<le> n * j" "n * j < int (length val)"
proof -
  show "0 \<le> n * j" using assms by simp
  have "n * j \<le> n * (len - 1)" using assms by (intro mult_left_mono) auto
  then show "n * j < int (length val)" using assms(4) by simp
qed

text \<open>One element of a value.\<close>

definition value_item :: "bool \<Rightarrow> SerializeType \<Rightarrow> byte list \<Rightarrow> int \<Rightarrow> int \<Rightarrow> byte list" where
  "value_item little type val n j = (if is_char_type type then char_item little type (val ! nat (n * j)) else drop (nat (n * j)) val)"

lemma value_items_item:
  "is_char_type type \<or> SERIALIZE_IS_ARRAY_ELEMENT type \<Longrightarrow>
    value_items little type val n len = map (\<lambda>j. value_item little type val n (int j)) [0..<nat len]"
  by (auto simp: value_items_def value_item_def)

text \<open>What is printable is a value that ends within its memory, and all of its elements.\<close>

lemma text_value_items:
  assumes "text_value V spec (type, name, val, n, len)" and "is_char_type type \<or> SERIALIZE_IS_ARRAY_ELEMENT type"
  shows "text_name name" "type \<noteq> SERIALIZE_TYPE_OTHER" "n > 0" "len > 0" "n * (len - 1) < int (length val)"
    "\<And>j. 0 \<le> j \<Longrightarrow> j < len \<Longrightarrow> arg_ok V (spec type) (value_item (se_isLittleEndian V) type val n j)"
  using assms value_items_item [OF assms(2), of "se_isLittleEndian V" val n len]
  by (auto simp: is_char_type_def SERIALIZE_IS_ARRAY_ELEMENT_def list_all_iff dest!: bspec [where x = "nat j" for j])

lemma text_value_single:
  assumes "text_value V spec (type, name, val, n, len)" and "\<not> is_char_type type" and "\<not> SERIALIZE_IS_ARRAY_ELEMENT type"
  shows "text_name name" "type \<noteq> SERIALIZE_TYPE_OTHER" "n > 0" "type = SERIALIZE_TYPE_STRING \<or> len > 0" "arg_ok V (spec type) val"
  using assms by (auto simp: value_items_def)

context text_sink
begin

text \<open>A loop over the elements, whose step \<open>g\<close> hands the element \<open>j\<close> to \<open>f j\<close>: characters through a variable, other elements where they are.\<close>

lemma hands_items:
  assumes "n > 0" and "n * (len - 1) < int (length val)"
    and each: "\<And>j. 0 \<le> j \<Longrightarrow> j < len \<Longrightarrow> hands can takes (P j) (T j) (value_item little type val n j) (f j (value_item little type val n j)) (P (j + 1))"
    and mode: "\<And>j sz. P j sz \<Longrightarrow> text_mode sz"
    and steps: "\<And>j sz. 0 \<le> j \<Longrightarrow> j < len \<Longrightarrow> P j sz \<Longrightarrow> g j val sz =
      (if is_char_type type then char_through_int little type (n * j) (f j) val sz else at_element (n * j) (f j) val sz)"
  shows "hands can takes (P 0) (concat (map (\<lambda>j. T (int j)) [0..<nat len])) val (for_elements g (nat len) 0 val) (P (int (nat len)))"
proof -
  have "hands can takes (P j) (T j) val (g j val) (P (j + 1))" if j: "0 \<le> j" "j < 0 + int (nat len)" for j
  proof -
    have j': "0 \<le> j" "j < len" using j by (auto split: if_splits)
    note o = offset_in [OF assms(1) j' assms(2)]
    have "hands can takes (P j) (T j) val (if is_char_type type then char_through_int little type (n * j) (f j) val
        else at_element (n * j) (f j) val) (P (j + 1))"
    proof (cases "is_char_type type")
      case True
      have "hands can takes (P j) (T j) val (char_through_int little type (n * j) (f j) val) (P (j + 1))"
        by (rule hands_char [where P = "P j" and Q = "P (j + 1)", OF hands_eq [OF each [OF j']]])
          (use o True mode in \<open>auto simp: value_item_def char_item_def\<close>)
      with True show ?thesis by simp
    next
      case False
      with hands_at_element [where P = "P j" and Q = "P (j + 1)" and f = "f j"] each [OF j'] o show ?thesis by (simp add: value_item_def)
    qed
    then show ?thesis by (rule hands_eq) (simp_all add: steps [OF j'])
  qed
  from hands_elements [where P = P and T = T and f = g and i = 0 and n = "nat len", OF this] show ?thesis by simp
qed

end

subsection \<open>Memory and the measuring stream\<close>

text \<open>An object with the property \<open>H\<close> that writes into memory with space for \<open>n\<close> bytes.\<close>

definition text_writer :: "mem_env \<Rightarrow> (IOChannelGenericMem Serialize \<Rightarrow> bool) \<Rightarrow> nat \<Rightarrow> IOChannelGenericMem Serialize \<Rightarrow> bool" where
  "text_writer V H n sz \<longleftrightarrow> se_interface V = IOChannelMemOps \<and> H sz \<and>
     sz_stream sz = UserStream \<and> mem_inv (sz_channel sz) \<and> \<not> mf_eof (mem_view (sz_channel sz)) \<and>
     mf_pos (mem_view (sz_channel sz)) + n \<le> length (mf_bytes (mem_view (sz_channel sz)))"

text \<open>The same on the measuring stream, which is at \<open>pos\<close>.\<close>

definition text_measurer :: "('s Serialize \<Rightarrow> bool) \<Rightarrow> int \<Rightarrow> 's Serialize \<Rightarrow> bool" where
  "text_measurer H pos sz \<longleftrightarrow> H sz \<and> sz_stream sz = CalcStream \<and>
     (\<exists>m. sz_calcSizeStream sz = Own m \<and> writing m \<and> calc_can m \<and> ch_currentIndexPosition m = pos)"

text \<open>What a call puts out over the contract of a format goes into the memory, or is counted.\<close>

lemma text_written:
  assumes "\<And>sz p0 T rest. H sz \<Longrightarrow> still_to_take mem_port_can mem_port_takes p0 T (bs @ rest) (port sz) \<Longrightarrow>
      \<exists>sz'. f sz = Ok (vs, sz') \<and> H' sz' \<and> still_to_take mem_port_can mem_port_takes p0 T rest (port sz')"
    and "text_writer V H (length bs + n) sz"
  shows "\<exists>sz'. f sz = Ok (vs, sz') \<and> text_writer V H' n sz' \<and> mem_view (sz_channel sz') = mf_put bs (mem_view (sz_channel sz))"
proof -
  have h: "H sz" "mem_port_can (length bs + n) (port sz)"
    using assms(2) by (auto simp: text_writer_def mem_port_can_def mem_space_def writing_def mem_inv_def mem_view_def)
  obtain rest where r: "length rest = n" "still_to_take mem_port_can mem_port_takes (port sz) (bs @ rest) (bs @ rest) (port sz)"
    using mem_text.still_all [OF h(2)] by blast
  from assms(1) [OF h(1) r(2)] mem_text.still_done r(1) obtain sz' where
    s: "f sz = Ok (vs, sz')" "H' sz'" "mem_port_can n (port sz')" "mem_port_takes bs (port sz) (port sz')" by blast
  then have p: "mem_view (sz_channel sz') = mf_put bs (mem_view (sz_channel sz))" by (simp add: mem_port_takes_def mem_takes_def)
  moreover have "text_writer V H' n sz'"
    using s(2,3) p assms(2) by (auto simp: text_writer_def mem_port_can_def mem_space_def mf_put_def)
  ultimately show ?thesis using s(1) by blast
qed

lemma text_measured:
  fixes f :: "'s Serialize \<Rightarrow> ('b \<times> 's Serialize) outcome"
  assumes "\<And>sz p0 T rest. H sz \<Longrightarrow> still_to_take calc_port_can calc_port_takes p0 T (bs @ rest) (port sz) \<Longrightarrow>
      \<exists>sz'. f sz = Ok (vs, sz') \<and> H' sz' \<and> still_to_take calc_port_can calc_port_takes p0 T rest (port sz')"
    and "text_measurer H pos sz"
  shows "\<exists>sz'. f sz = Ok (vs, sz') \<and> text_measurer H' (pos + int (length bs)) sz'"
proof -
  have h: "H sz" "calc_port_can (length bs + 0) (port sz)"
    using assms(2) by (auto simp: text_measurer_def calc_port_can_def)
  have r: "still_to_take calc_port_can calc_port_takes (port sz) (bs @ []) (bs @ []) (port sz)"
    using calc_text.still_all [OF h(2)] by simp
  from assms(1) [OF h(1) r] obtain sz' where
    s: "f sz = Ok (vs, sz')" "H' sz'" "still_to_take calc_port_can calc_port_takes (port sz) (bs @ []) [] (port sz')" by blast
  from calc_text.still_done [OF s(3)] have t: "calc_port_can 0 (port sz')" "calc_port_takes bs (port sz) (port sz')" by simp_all
  then have "text_measurer H' (pos + int (length bs)) sz'"
    using assms(2) s(2) t by (auto simp: text_measurer_def calc_port_can_def calc_port_takes_def)
  with s(1) show ?thesis by blast
qed

subsection \<open>Numbers\<close>

lemma renders_int: "in_range TInt i \<Longrightarrow> renders V ''%d'' [NumArg TInt i] (signed_decimal i)"
  using num_text_bounded [of TInt i] by (simp add: renders_def print_conversion_def next_char_def item_text_def num_text_def)

text \<open>Each whole number that lies in its memory can be printed.\<close>

lemma arg_ok_number:
  assumes "print_conversion (drop 1 spec) = (CNum t, [])" and "take 1 spec = ''%''" and "num_size t \<le> length mem"
  shows "arg_ok V spec mem" "arg_text V spec mem = num_text t (num_of (se_isLittleEndian V) t (take (num_size t) mem))"
proof -
  let ?i = "num_of (se_isLittleEndian V) t (take (num_size t) mem)"
  obtain s where s: "spec = CHR ''%'' # s" "print_conversion s = (CNum t, [])" using assms(1,2) by (cases spec) auto
  have i: "in_range t ?i" by (rule num_of_range) (use assms(3) in simp)
  have "load_arg (se_isLittleEndian V) spec mem = Ok (NumArg t ?i)" using s assms(3) by (simp add: load_arg_def)
  moreover have "render (se_print V) spec [NumArg t ?i :: unit vararg] = Some (num_text t ?i)"
    using s num_text_bounded [OF i] by (simp add: item_text_def)
  ultimately show "arg_ok V spec mem" "arg_text V spec mem = num_text t ?i"
    by (auto simp: arg_ok_def arg_text_def renders_def simp del: render.simps)
qed

subsection \<open>Numbers for the examples\<close>

lemma example_conversions:
  "print_conversion ''d'' = (CNum TInt, [])" "print_conversion ''hu'' = (CNum TUShort, [])" "print_conversion ''qs'' = (CQStr, [])"
  by (simp_all add: print_conversion_def next_char_def)

lemma example_numbers:
  "num_size TInt = 4" "num_size TUShort = 2" "num_of True TInt [214, 255, 255, 255] = - 42" "num_of True TUShort [5, 0] = 5"
  "num_of True TUShort [7, 1] = 263"
  by (simp_all add: num_of_def num_size_def host_nat_def is_unsigned_def)

lemma example_digits: "num_text TInt (- 42) = [45, 52, 50]" "num_text TUShort 5 = [53]" "num_text TUShort 263 = [50, 54, 51]"
  by (simp_all add: num_text_def signed_decimal_def decimal.simps)

lemma example_host: "se_isLittleEndian (example_env h) = h"
  by (simp add: example_env_def)

lemma example_loads:
  "load_arg True ''%d'' [214, 255, 255, 255] = Ok (NumArg TInt (- 42))" "load_arg True ''%hu'' [5, 0, 7, 1] = Ok (NumArg TUShort 5)"
  "load_arg True ''%hu'' [7, 1] = Ok (NumArg TUShort 263)" "load_arg True ''%qs'' s = Ok (StrArg s)"
  by (simp_all add: load_arg_def example_conversions example_numbers)

lemma example_renders:
  "render E ''%d'' [NumArg TInt (- 42)] = Some [45, 52, 50]" "render E ''%hu'' [NumArg TUShort 5] = Some [53]"
  "render E ''%hu'' [NumArg TUShort 263] = Some [50, 54, 51]" "render E ''%qs'' [StrArg [72, 34, 0]] = Some [34, 72, 92, 34, 34]"
  by (simp_all add: example_conversions item_text_def example_digits bounded_text_def cstring_def quoted_def quote_byte_def)

lemma example_args:
  "arg_ok (example_env True) ''%d'' [214, 255, 255, 255]" "arg_text (example_env True) ''%d'' [214, 255, 255, 255] = [45, 52, 50]"
  "arg_ok (example_env True) ''%hu'' [5, 0, 7, 1]" "arg_text (example_env True) ''%hu'' [5, 0, 7, 1] = [53]"
  "arg_ok (example_env True) ''%hu'' [7, 1]" "arg_text (example_env True) ''%hu'' [7, 1] = [50, 54, 51]"
  "arg_ok (example_env True) ''%qs'' [72, 34, 0]" "arg_text (example_env True) ''%qs'' [72, 34, 0] = [34, 72, 92, 34, 34]"
  by (auto simp: arg_ok_def arg_text_def example_host example_loads example_renders renders_def simp del: render.simps)

definition example_number :: ser_prog where
  "example_number = Value SERIALIZE_TYPE_INT [120, 0] [214, 255, 255, 255] 4 1"

definition example_pair :: ser_prog where
  "example_pair = Value SERIALIZE_TYPE_USINTARRAY [121, 0] [5, 0, 7, 1] 2 2"

definition example_string :: ser_prog where
  "example_string = Value SERIALIZE_TYPE_STRING [115, 0] [72, 34, 0] 1 3"

lemma example_spaces: "spaces_text 0 = []" "spaces_text 2 = [32, 32]" "spaces_text 4 = [32, 32, 32, 32]" "spaces_text 6 = [32, 32, 32, 32, 32, 32]"
  by (simp_all add: spaces_text_def numeral_eq_Suc)

lemma example_values_of:
  "values_of example_number = [[214, 255, 255, 255]]" "values_of example_pair = [[5, 0, 7, 1]]" "values_of example_string = [[72, 34, 0]]"
  by (simp_all add: example_number_def example_pair_def example_string_def values_of_simps)

text \<open>An object whose only format is the current one, with these data of the format.\<close>

definition one_format :: "'s SerializeFormat \<Rightarrow> 's ser_formats" where
  "one_format ops = \<lparr>sf_table = [ops], sf_static = 1, sf_symbol = \<lambda>_. None, sf_libraryOpens = True\<rparr>"

definition format_object :: "format_data \<Rightarrow> uint32 \<Rightarrow> bool \<Rightarrow> int \<Rightarrow> int \<Rightarrow> stream_ptr \<Rightarrow> calc_channel owned \<Rightarrow> 's IOChannel \<Rightarrow> 's Serialize" where
  "format_object d mode t k i to calc ch = Serialize_zero\<lparr>sz_valid := SERIALIZE_VALID, sz_format := 1, sz_mode := mode,
     sz_isTranslateMode := t, sz_numTypeCalls := k, sz_indentLevel := i, sz_stream := to, sz_calcSizeStream := calc, sz_channel := ch,
     sz_infos := \<lparr>cells = [1 \<mapsto> \<lparr>fi_ops = 0, fi_data = Own d, fi_libHandle = False\<rparr>], brk = 2\<rparr>\<rparr>"

end
