(* ===== verification/Ser_Json.thy ===== *)
theory Ser_Json
  imports Ser_Text
begin

text \<open>
  The Json format (src/src/SerializeFormats.c), the default of the serializer. Its data hold three flags: types
  are printed (never), the next member is the first one of its object or array, and the next type is an
  element of an array of structures, whose braces the separator has already dealt with.
\<close>

subsection \<open>The flags\<close>

record json_flags =
  jf_withType :: bool
  jf_isFirst :: bool
  jf_beginStructArrayElem :: bool

definition json_data :: "'s Serialize \<Rightarrow> (json_flags \<Rightarrow> 'b outcome) \<Rightarrow> 'b outcome" where
  "json_data sz k = obind (Serialize_getFormatDataPtr sz) (\<lambda>p. require_ptr p (\<lambda>d.
     case d of SerializeFormatJsonOptions t f e \<Rightarrow> k \<lparr>jf_withType = t, jf_isFirst = f, jf_beginStructArrayElem = e\<rparr> | _ \<Rightarrow> Fault))"

definition set_json_data :: "json_flags \<Rightarrow> 's Serialize \<Rightarrow> 's Serialize outcome" where
  "set_json_data d sz =
     obind (hupd (sz_infos sz) (sz_format sz) (\<lambda>info. info\<lparr>fi_data :=
       Own (SerializeFormatJsonOptions (jf_withType d) (jf_isFirst d) (jf_beginStructArrayElem d))\<rparr>)) (\<lambda>infos.
     Ok (sz\<lparr>sz_infos := infos\<rparr>))"

definition set_isFirst :: "bool \<Rightarrow> 's Serialize \<Rightarrow> 's Serialize outcome" where
  "set_isFirst b sz = json_data sz (\<lambda>d. set_json_data (d\<lparr>jf_isFirst := b\<rparr>) sz)"

text \<open>A member that is not the first one is preceded by a comma and a new line.\<close>

definition json_comma :: "('s, 'a) ser_env \<Rightarrow> 's Serialize \<Rightarrow> 's Serialize outcome" where
  "json_comma V sz = json_data sz (\<lambda>d. if \<not> jf_isFirst d then put_text V ('','' @ [CHR 0x0A]) [] sz else Ok sz)"

text \<open>The character behind a value is read; when it is not a comma it is put back, unless it is -1. At the end
  of the stream \<^verbatim>\<open>IOChannel_getc\<close> gives 0.\<close>

definition skip_comma :: "('s, 'a) ser_env \<Rightarrow> 's Serialize \<Rightarrow> 's Serialize outcome" where
  "skip_comma V sz =
     obind (on_stream (IOChannel_getc (se_interface V)) (IOChannel_getc IOChannelCalcOps) sz) (\<lambda>(cc, sz).
     if cc \<noteq> 44 \<and> cc \<noteq> -1 then omap snd (stream_unget [word_of_int cc] sz) else Ok sz)"

definition SerializeFormatJson_getTypeInfo :: "SerializeType \<Rightarrow> (string \<times> string) outcome" where
  "SerializeFormatJson_getTypeInfo type = ascii_typeInfo type"

subsection \<open>Types and arrays\<close>

definition SerializeFormatJson_beginType :: "('s, 'a) ser_env \<Rightarrow> byte list \<Rightarrow> byte list \<Rightarrow> 's Serialize \<Rightarrow> 's Serialize outcome" where
  "SerializeFormatJson_beginType V name type sz = json_data sz (\<lambda>d.
     if jf_beginStructArrayElem d then set_json_data (d\<lparr>jf_beginStructArrayElem := False\<rparr>) sz
     else by_mode sz
       (obind (set_isFirst True sz) (\<lambda>sz.
        scan_name V ((if sz_numTypeCalls sz = 1 then ''{'' @ [CHR 0x0A] else '''') @ [CHR 0x22] @ ''%s'' @ [CHR 0x22] @ '': {'') 512 sz))
       (obind (json_comma V sz) (\<lambda>sz.
        obind (set_isFirst True sz) (\<lambda>sz.
        obind (if sz_indentLevel sz = 0
               then obind (put_text V (''{'' @ [CHR 0x0A]) [] sz) (\<lambda>sz. Ok (SERIALIZE_INDENT_INCR sz)) else Ok sz) (\<lambda>sz.
        obind (SERIALIZE_INDENT V sz) (\<lambda>sz.
        obind (put_text V ([CHR 0x22] @ ''%s'' @ [CHR 0x22] @ '': {'' @ [CHR 0x0A]) [StrArg name] sz) (\<lambda>sz.
        Ok (SERIALIZE_INDENT_INCR sz)))))))
       (Ok sz))"

definition SerializeFormatJson_beginBaseType :: "byte list \<Rightarrow> byte list \<Rightarrow> 's Serialize \<Rightarrow> 's Serialize outcome" where
  "SerializeFormatJson_beginBaseType name type sz =
     obind (Serialize_getFormatDataPtr sz) (\<lambda>p. ANY_REQUIRE (p \<noteq> Null) (Ok sz))"

text \<open>The first value of the enumeration is 0, which the check of the type takes for a missing one.\<close>

definition SerializeFormatJson_beginArray :: "('s, 'a) ser_env \<Rightarrow> SerializeType \<Rightarrow> byte list \<Rightarrow> int \<Rightarrow> 's Serialize \<Rightarrow> 's Serialize outcome" where
  "SerializeFormatJson_beginArray V type arrayName arrayLen sz = ANY_REQUIRE (type \<noteq> SERIALIZE_TYPE_CHAR)
     (json_data sz (\<lambda>_. obind (SerializeFormatJson_getTypeInfo type) (\<lambda>_. by_mode sz
       (obind (json_comma V sz) (\<lambda>sz.
        obind (set_isFirst True sz) (\<lambda>sz.
        as_text arrayName (\<lambda>name.
        match_text V (format_text (SERIALIZE_DATABUFFER_MAXLEN - 6) ([CHR 0x22] @ name @ [CHR 0x22] @ '': ['')) sz))))
       (obind (json_comma V sz) (\<lambda>sz.
        obind (set_isFirst False sz) (\<lambda>sz.
        obind (SERIALIZE_INDENT V sz) (\<lambda>sz.
        obind (put_text V ([CHR 0x22] @ ''%s'' @ [CHR 0x22] @ '': ['') [StrArg arrayName] sz) (\<lambda>sz.
        Ok (SERIALIZE_INDENT_INCR sz))))))
       (Ok sz))))"

definition SerializeFormatJson_beginStructArray :: "('s, 'a) ser_env \<Rightarrow> byte list \<Rightarrow> byte list \<Rightarrow> int \<Rightarrow> 's Serialize \<Rightarrow>
    's Serialize outcome" where
  "SerializeFormatJson_beginStructArray V arrayName elementType arrayLen sz = json_data sz (\<lambda>_. by_mode sz
     (as_text arrayName (\<lambda>name.
      match_text V (format_text (SERIALIZE_DATABUFFER_MAXLEN - 7) ([CHR 0x22] @ name @ [CHR 0x22] @ '': [ '')) sz))
     (obind (json_comma V sz) (\<lambda>sz.
      obind (set_isFirst True sz) (\<lambda>sz.
      obind (SERIALIZE_INDENT V sz) (put_text V ([CHR 0x22] @ ''%s'' @ [CHR 0x22] @ '': ['' @ [CHR 0x0A]) [StrArg arrayName]))))
     (Ok sz))"

definition SerializeFormatJson_beginStructArraySeparator :: "('s, 'a) ser_env \<Rightarrow> byte list \<Rightarrow> int \<Rightarrow> int \<Rightarrow> 's Serialize \<Rightarrow>
    's Serialize outcome" where
  "SerializeFormatJson_beginStructArraySeparator V name pos len sz = json_data sz (\<lambda>d.
     obind (set_json_data (d\<lparr>jf_beginStructArrayElem := True, jf_isFirst := True\<rparr>) sz) (\<lambda>sz. by_mode sz
       (match_text V (''{'' @ [CHR 0x0A]) sz)
       (obind (if pos \<noteq> 0 then put_text V ('','' @ [CHR 0x0A]) [] sz else Ok sz) (\<lambda>sz.
        obind (SERIALIZE_INDENT V sz) (\<lambda>sz.
        obind (put_text V (''{'' @ [CHR 0x0A]) [] sz) (\<lambda>sz.
        Ok (SERIALIZE_INDENT_INCR sz)))))
       (Ok sz)))"

definition SerializeFormatJson_endStructArraySeparator :: "byte list \<Rightarrow> int \<Rightarrow> int \<Rightarrow> 's Serialize \<Rightarrow> 's Serialize outcome" where
  "SerializeFormatJson_endStructArraySeparator name pos len sz = Ok sz"

definition SerializeFormatJson_endStructArray :: "('s, 'a) ser_env \<Rightarrow> 's Serialize \<Rightarrow> 's Serialize outcome" where
  "SerializeFormatJson_endStructArray V sz = by_mode sz
     (obind (match_text V '']'' sz) (skip_comma V))
     (obind (put_text V [CHR 0x0A] [] sz) (\<lambda>sz. obind (SERIALIZE_INDENT V sz) (put_text V '']'' [])))
     (Ok sz)"

text \<open>Measuring stops here before anything has been printed.\<close>

definition SerializeFormatJson_endArray :: "('s, 'a) ser_env \<Rightarrow> SerializeType \<Rightarrow> byte list \<Rightarrow> int \<Rightarrow> 's Serialize \<Rightarrow> 's Serialize outcome" where
  "SerializeFormatJson_endArray V type arrayName arrayLen sz =
     (if sz_mode sz = SERIALIZE_MODE_READ then obind (match_text V '']'' sz) (skip_comma V)
      else if sz_mode sz = SERIALIZE_MODE_WRITE
      then obind (SERIALIZE_INDENT V (SERIALIZE_INDENT_DECR sz)) (put_text V '']'' [])
      else Ok sz)"

definition SerializeFormatJson_endBaseType :: "'s Serialize \<Rightarrow> 's Serialize outcome" where
  "SerializeFormatJson_endBaseType sz = Ok sz"

definition SerializeFormatJson_endType :: "('s, 'a) ser_env \<Rightarrow> 's Serialize \<Rightarrow> 's Serialize outcome" where
  "SerializeFormatJson_endType V sz = json_data sz (\<lambda>_. by_mode sz
     (obind (match_text V (if sz_numTypeCalls sz = 1 then ''}'' @ [CHR 0x0A] @ ''}'' else ''}'') sz) (\<lambda>sz.
      if sz_numTypeCalls sz > 1 then skip_comma V sz else Ok sz))
     (obind (put_text V [CHR 0x0A] [] sz) (\<lambda>sz.
      obind (SERIALIZE_INDENT V (SERIALIZE_INDENT_DECR sz)) (\<lambda>sz.
      obind (put_text V ''}'' [] sz) (\<lambda>sz.
      if sz_indentLevel sz = 2
      then obind (put_text V [CHR 0x0A] [] sz) (\<lambda>sz.
           obind (put_text V (''}'' @ [CHR 0x0A]) [] sz) (\<lambda>sz.
           obind (SERIALIZE_INDENT V (SERIALIZE_INDENT_DECR sz)) (set_isFirst True)))
      else Ok sz))))
     (Ok sz))"

definition SerializeFormatJson_getAllowedModes :: "'s Serialize \<Rightarrow> uint32 outcome" where
  "SerializeFormatJson_getAllowedModes sz = Ok SERIALIZE_MODE_CALC"

subsection \<open>Values\<close>

text \<open>The first part of a member, then the value.\<close>

definition json_member :: "('s, 'a) ser_env \<Rightarrow> string \<Rightarrow> byte list \<Rightarrow> byte list \<Rightarrow> 's Serialize \<Rightarrow> (byte list \<times> 's Serialize) outcome" where
  "json_member V spec name val sz =
     as_text name (\<lambda>name.
     obind (scan_value V (format_text (SERIALIZE_DATABUFFER_MAXLEN - 5) ([CHR 0x22] @ name @ [CHR 0x22] @ '': '' @ spec)) spec val sz)
       (\<lambda>(val, sz). omap (Pair val) (skip_comma V sz)))"

definition SerializeFormatJson_doSerializeField :: "('s, 'a) ser_env \<Rightarrow> SerializeType \<Rightarrow> byte list \<Rightarrow> int \<Rightarrow> byte list \<Rightarrow> 's Serialize \<Rightarrow>
    (byte list \<times> 's Serialize) outcome" where
  "SerializeFormatJson_doSerializeField V type name n val sz = ANY_REQUIRE (n > 0) (json_data sz (\<lambda>_.
     obind (SerializeFormatJson_getTypeInfo type) (\<lambda>(spec, typeTag). by_mode sz
       (json_member V spec name val sz)
       (obind (json_comma V sz) (\<lambda>sz.
        obind (set_isFirst False sz) (\<lambda>sz.
        obind (SERIALIZE_INDENT V sz) (\<lambda>sz.
        obind (put_text V ([CHR 0x22] @ ''%s'' @ [CHR 0x22] @ '': '') [StrArg name] sz) (\<lambda>sz.
        obind (deploy_text V type spec val sz) (\<lambda>sz.
        Ok (val, sz)))))))
       (Ok (val, sz)))))"

definition SerializeFormatJson_doSerializeString :: "('s, 'a) ser_env \<Rightarrow> SerializeType \<Rightarrow> byte list \<Rightarrow> int \<Rightarrow> int \<Rightarrow> byte list \<Rightarrow>
    's Serialize \<Rightarrow> (byte list \<times> 's Serialize) outcome" where
  "SerializeFormatJson_doSerializeString V type name n len val sz = ANY_REQUIRE (n > 0)
     (ANY_REQUIRE (type = SERIALIZE_TYPE_STRING \<or> len > 0) (json_data sz (\<lambda>_.
     obind (SerializeFormatJson_getTypeInfo type) (\<lambda>(spec, typeTag). by_mode sz
       (json_member V spec name val sz)
       (obind (json_comma V sz) (\<lambda>sz.
        obind (set_isFirst False sz) (\<lambda>sz.
        obind (SERIALIZE_INDENT V sz) (\<lambda>sz.
        as_text name (\<lambda>name.
        obind (put_value V (format_text (SERIALIZE_DATABUFFER_MAXLEN - 5) ([CHR 0x22] @ name @ [CHR 0x22] @ '': '' @ spec)) spec val sz) (\<lambda>sz.
        Ok (val, sz)))))))
       (Ok (val, sz))))))"

text \<open>\<open>val\<close> starts at the element.\<close>

definition json_element :: "('s, 'a) ser_env \<Rightarrow> SerializeType \<Rightarrow> string \<Rightarrow> int \<Rightarrow> int \<Rightarrow> byte list \<Rightarrow> 's Serialize \<Rightarrow>
    (byte list \<times> 's Serialize) outcome" where
  "json_element V type spec len i val sz =
     (let isLastArrayElement = (i = len - 1) in by_mode sz
       (scan_value V (if isLastArrayElement then format_text (SERIALIZE_DATABUFFER_MAXLEN - 1) spec
                      else format_text (SERIALIZE_DATABUFFER_MAXLEN - 2) (spec @ '', '')) spec val sz)
       (obind (if sz_columnWrap sz > 0 \<and> i mod sz_columnWrap sz = 0
               then obind (put_text V [CHR 0x0A] [] sz) (SERIALIZE_INDENT V) else Ok sz) (\<lambda>sz.
        obind (deploy_text V type spec val sz) (\<lambda>sz.
        obind (put_text V (if isLastArrayElement then [CHR 0x0A] else '', '') [] sz) (\<lambda>sz.
        Ok (val, sz)))))
       (Ok (val, sz)))"

definition SerializeFormatJson_doSerializeArrayElement :: "('s, 'a) ser_env \<Rightarrow> SerializeType \<Rightarrow> int \<Rightarrow> int \<Rightarrow> int \<Rightarrow> bool \<Rightarrow> byte list \<Rightarrow>
    's Serialize \<Rightarrow> (byte list \<times> 's Serialize) outcome" where
  "SerializeFormatJson_doSerializeArrayElement V type n len i reIndexOffset val sz = ANY_REQUIRE (n > 0) (ANY_REQUIRE (len > 0)
     (obind (SerializeFormatJson_getTypeInfo type) (\<lambda>(spec, typeTag).
      if reIndexOffset then at_element (n * i) (json_element V type spec len i) val sz
      else json_element V type spec len i val sz)))"

definition SerializeFormatJson_doSerializeCharType :: "('s, 'a) ser_env \<Rightarrow> SerializeType \<Rightarrow> byte list \<Rightarrow> int \<Rightarrow> int \<Rightarrow> int \<Rightarrow> byte list \<Rightarrow>
    's Serialize \<Rightarrow> (byte list \<times> 's Serialize) outcome" where
  "SerializeFormatJson_doSerializeCharType V type name n len i val sz = ANY_REQUIRE (n > 0)
     (obind (SerializeFormatJson_getTypeInfo type) (\<lambda>_.
      char_through_int (se_isLittleEndian V) type (n * i)
        (if SERIALIZE_IS_ARRAY_ELEMENT type then SerializeFormatJson_doSerializeArrayElement V type n len i False
         else SerializeFormatJson_doSerializeField V type name n) val sz))"

definition SerializeFormatJson_doSerialize :: "('s, 'a) ser_env \<Rightarrow> SerializeType \<Rightarrow> byte list \<Rightarrow> byte list \<Rightarrow> int \<Rightarrow> int \<Rightarrow>
    's Serialize \<Rightarrow> (byte list \<times> 's Serialize) outcome" where
  "SerializeFormatJson_doSerialize V type name val n len sz = ANY_REQUIRE (n > 0)
     (ANY_REQUIRE (type = SERIALIZE_TYPE_STRING \<or> len > 0) (json_data sz (\<lambda>_.
      if is_char_type type
      then for_elements (SerializeFormatJson_doSerializeCharType V type name n len) (nat len) 0 val sz
      else if \<not> SERIALIZE_IS_ARRAY_ELEMENT type then SerializeFormatJson_doSerializeField V type name n val sz
      else if type = SERIALIZE_TYPE_STRING then SerializeFormatJson_doSerializeString V type name n len val sz
      else for_elements (\<lambda>i. SerializeFormatJson_doSerializeArrayElement V type n len i True) (nat len) 0 val sz)))"

subsection \<open>Setting the options\<close>

definition SerializeFormatJsonOptions_new :: "nat \<Rightarrow> (format_data owned \<times> nat) outcome" where
  "SerializeFormatJsonOptions_new mem =
     (let (p, mem) = ANY_TALLOC (SerializeFormatJsonOptions False False False) mem in ANY_REQUIRE (p \<noteq> Null) (Ok (p, mem)))"

definition SerializeFormatJsonOptions_init :: "'s Serialize \<Rightarrow> 's Serialize outcome" where
  "SerializeFormatJsonOptions_init sz = json_data sz (\<lambda>d. set_json_data (d\<lparr>jf_withType := False, jf_isFirst := True\<rparr>) sz)"

definition SerializeFormatJsonOptions_set :: "byte list option \<Rightarrow> 's Serialize \<Rightarrow> 's Serialize outcome" where
  "SerializeFormatJsonOptions_set optionsString sz = json_data sz (\<lambda>d.
     obind (set_json_data (d\<lparr>jf_withType := False\<rparr>) sz) (\<lambda>sz.
     obind (Serialize_getHeaderOptsPtr sz) (\<lambda>(rvp, sz).
     with_rvp rvp (sz_rvs sz) (\<lambda>c. ANY_REQUIRE (rv_value c \<noteq> Null) (Ok sz)))))"

definition SerializeFormatJsonOptions_setProperty :: "byte list \<Rightarrow> nat \<Rightarrow> 's Serialize \<Rightarrow> (bool \<times> 's Serialize) outcome" where
  "SerializeFormatJsonOptions_setProperty propertyName propertyValue sz = Ok (False, sz)"

definition SerializeFormatJsonOptions_getProperty :: "byte list \<Rightarrow> 's Serialize \<Rightarrow> nat outcome" where
  "SerializeFormatJsonOptions_getProperty propertyName sz = Ok 0"

definition SerializeFormatJsonOptions_clear :: "'s Serialize \<Rightarrow> 's Serialize outcome" where
  "SerializeFormatJsonOptions_clear sz =
     json_data sz (\<lambda>_. set_json_data \<lparr>jf_withType = False, jf_isFirst = False, jf_beginStructArrayElem = False\<rparr> sz)"

definition SerializeFormatJsonOptions_delete :: "'s Serialize \<Rightarrow> 's Serialize outcome" where
  "SerializeFormatJsonOptions_delete sz =
     obind (Serialize_getFormatDataPtr sz) (\<lambda>data. ANY_REQUIRE (data \<noteq> Null)
       (obind (ANY_FREE data) (\<lambda>p.
        obind (hupd (sz_infos sz) (sz_format sz) (\<lambda>info. info\<lparr>fi_data := p\<rparr>)) (\<lambda>infos. Ok (sz\<lparr>sz_infos := infos\<rparr>)))))"

definition SerializeFormatJsonOps :: "('s, 'a) ser_env \<Rightarrow> 's SerializeFormat" where
  "SerializeFormatJsonOps V = \<lparr>
     formatName = cstr ''Json'',
     indirectBeginType = SerializeFormatJson_beginType V,
     indirectBeginBaseType = SerializeFormatJson_beginBaseType,
     indirectBeginArray = SerializeFormatJson_beginArray V,
     indirectBeginStructArray = SerializeFormatJson_beginStructArray V,
     indirectBeginStructArraySeparator = SerializeFormatJson_beginStructArraySeparator V,
     indirectDoSerialize = SerializeFormatJson_doSerialize V,
     indirectEndStructArraySeparator = SerializeFormatJson_endStructArraySeparator,
     indirectEndStructArray = SerializeFormatJson_endStructArray V,
     indirectEndArray = SerializeFormatJson_endArray V,
     indirectEndBaseType = SerializeFormatJson_endBaseType,
     indirectEndType = SerializeFormatJson_endType V,
     indirectGetAllowedModes = SerializeFormatJson_getAllowedModes,
     indirectFormatOptionsNew = SerializeFormatJsonOptions_new,
     indirectFormatOptionsInit = SerializeFormatJsonOptions_init,
     indirectFormatOptionsSet = SerializeFormatJsonOptions_set,
     indirectFormatOptionsSetProperty = SerializeFormatJsonOptions_setProperty,
     indirectFormatOptionsGetProperty = SerializeFormatJsonOptions_getProperty,
     indirectFormatOptionsClear = SerializeFormatJsonOptions_clear,
     indirectFormatOptionsDelete = SerializeFormatJsonOptions_delete\<rparr>"

end
