(* ===== verification/Ser_Json_Correct.thy ===== *)
theory Ser_Json_Correct
  imports Ser_Values Ser_Json
begin

text \<open>
  What the Json format writes. The format keeps flags and an indentation between its calls; against them stands a
  pretty printer without any state, which gives the text of a function of the user from its values alone. A
  function whose types and arrays of structures have members writes exactly this text, into memory, and the
  measuring stream counts it, as long as no arrays of values are measured.
\<close>

subsection \<open>The text of a function\<close>

primrec separated :: "byte list \<Rightarrow> byte list list \<Rightarrow> byte list" where
  "separated sep [] = []"
| "separated sep (t # ts) = (if ts = [] then t else t @ sep @ separated sep ts)"

definition quoted_name :: "byte list \<Rightarrow> byte list" where
  "quoted_name name = [34] @ takeWhile (\<lambda>b. b \<noteq> 0) name @ [34]"

definition type_spec :: "SerializeType \<Rightarrow> string" where
  "type_spec type = (case ascii_typeInfo type of Ok (spec, tag) \<Rightarrow> spec | _ \<Rightarrow> [])"

text \<open>The elements of an array of \<open>n\<close> elements, from \<open>j\<close> on; a new line after every \<open>w\<close> elements.\<close>

primrec json_elements :: "int \<Rightarrow> int \<Rightarrow> int \<Rightarrow> int \<Rightarrow> byte list list \<Rightarrow> byte list" where
  "json_elements w i n j [] = []"
| "json_elements w i n j (t # ts) =
     (if w > 0 \<and> j mod w = 0 then [10] @ spaces_text i else []) @ t @ (if j = n - 1 then [10] else [44, 32]) @
     json_elements w i n (j + 1) ts"

text \<open>The first argument tells whether the brace of a type has been written because the type is an element of an array.\<close>

primrec json_text :: "('s, 'a) ser_env \<Rightarrow> int \<Rightarrow> ser_prog \<Rightarrow> bool \<Rightarrow> int \<Rightarrow> byte list" where
  "json_text V w (TypeFn name type body) e i =
     (if e then [] else spaces_text i @ quoted_name name @ [58, 32, 123, 10]) @
     separated [44, 10] (map (\<lambda>f. f False (i + 2)) (map (json_text V w) body)) @ [10] @ spaces_text i @ [125]"
| "json_text V w (BaseTypeFn name type body) e i = separated [44, 10] (map (\<lambda>f. f False i) (map (json_text V w) body))"
| "json_text V w (Value type name val n len) e i =
     (if SERIALIZE_IS_ARRAY_ELEMENT type
      then spaces_text i @ quoted_name name @ [58, 32, 91] @ json_elements w (i + 2) len 0 (value_texts V type_spec type val n len) @
        spaces_text i @ [93]
      else separated [44, 10] (map (\<lambda>t. spaces_text i @ quoted_name name @ [58, 32] @ t) (value_texts V type_spec type val n len)))"
| "json_text V w (StructArray name type n body) e i =
     spaces_text i @ quoted_name name @ [58, 32, 91, 10] @
     separated [44, 10] (map (\<lambda>f. spaces_text i @ [123, 10] @ f True i) (map (json_text V w) body)) @ [10] @ spaces_text i @ [93]"

text \<open>What can be written: names are C strings, values have a text, no type and no array of structures is empty, the
  elements of these arrays are types, and the arrays are as long as they say.\<close>

primrec text_prog :: "('s, 'a) ser_env \<Rightarrow> ser_prog \<Rightarrow> bool" where
  "text_prog V (TypeFn name type body) \<longleftrightarrow> text_name name \<and> c_string type \<and> body \<noteq> [] \<and> (\<forall>x \<in> set (map (text_prog V) body). x)"
| "text_prog V (BaseTypeFn name type body) \<longleftrightarrow> text_name name \<and> c_string type \<and> body \<noteq> [] \<and> (\<forall>x \<in> set (map (text_prog V) body). x)"
| "text_prog V (Value type name val n len) \<longleftrightarrow> text_value V type_spec (type, name, val, n, len)"
| "text_prog V (StructArray name type n body) \<longleftrightarrow> text_name name \<and> c_string type \<and> n = int (length body) \<and> body \<noteq> [] \<and>
     (\<forall>q \<in> set body. case q of TypeFn _ _ _ \<Rightarrow> True | _ \<Rightarrow> False) \<and> (\<forall>x \<in> set (map (text_prog V) body). x)"

lemma separated_concat:
  "ts \<noteq> [] \<Longrightarrow> (if f then [] else sep) @ separated sep ts =
    concat (map (\<lambda>j. (if j = 0 \<and> f then [] else sep) @ ts ! j) [0..<length ts])"
proof (induction ts arbitrary: f)
  case (Cons t ts)
  have u: "[0..<length (t # ts)] = 0 # map Suc [0..<length ts]" by (simp add: upt_conv_Cons map_Suc_upt del: upt_Suc)
  show ?case
  proof (cases "ts = []")
    case False
    from Cons.IH [OF this, of False] show ?thesis unfolding u using False by (simp add: o_def)
  qed simp
qed simp

lemma json_elements_concat:
  "json_elements w i n j ts = concat (map (\<lambda>q. (if w > 0 \<and> (j + int q) mod w = 0 then [10] @ spaces_text i else []) @ ts ! q @
     (if j + int q = n - 1 then [10] else [44, 32])) [0..<length ts])"
proof (induction ts arbitrary: j)
  case (Cons t ts)
  have u: "[0..<length (t # ts)] = 0 # map Suc [0..<length ts]" by (simp add: upt_conv_Cons map_Suc_upt del: upt_Suc)
  show ?case unfolding u by (simp add: Cons.IH [of "j + 1"] o_def add.assoc)
qed simp

subsection \<open>The format as the current one\<close>

text \<open>A serializer that writes or measures in the Json format with the indentation \<open>i\<close> and the flags
  \<open>f\<close> (the next member is the first one) and \<open>e\<close>.\<close>

definition json_at :: "('s, 'a) ser_env \<Rightarrow> 's ser_formats \<Rightarrow> uint32 \<Rightarrow> int \<Rightarrow> bool \<Rightarrow> bool \<Rightarrow> int \<Rightarrow> int \<Rightarrow> bool \<Rightarrow> bool \<Rightarrow>
    's Serialize \<Rightarrow> bool" where
  "json_at V F m w b t k i f e sz \<longleftrightarrow> format_at F (SerializeFormatJsonOps V) b t k sz \<and> text_mode sz \<and> sz_mode sz = m \<and> sz_columnWrap sz = w \<and>
     sz_indentLevel sz = i \<and> map_option fi_data (cells (sz_infos sz) (sz_format sz)) = Some (Own (SerializeFormatJsonOptions False f e))"

lemma json_at_simps:
  assumes "json_at V F m w b t k i f e sz"
  shows "text_mode sz" "sz_mode sz = m" "sz_columnWrap sz = w" "sz_numTypeCalls sz = k" "sz_indentLevel sz = i"
    "json_data sz h = h \<lparr>jf_withType = False, jf_isFirst = f, jf_beginStructArrayElem = e\<rparr>"
    "Serialize_getFormatDataPtr sz = Ok (Own (SerializeFormatJsonOptions False f e))"
  using assms by (auto simp: json_at_def format_at_def json_data_def Serialize_getFormatDataPtr_def text_mode_def
      valid_serialize_def format_set_def)

lemma json_at_mode: "json_at V F m w b t k i f e sz \<Longrightarrow> sz_mode sz \<noteq> SERIALIZE_MODE_READ \<and> sz_mode sz = m"
  by (auto simp: json_at_def format_at_def text_mode_def)

lemma json_at_frame:
  assumes "json_at V F m w b t k i f e sz" and "sz_valid sz' = sz_valid sz" and "sz_mode sz' = sz_mode sz" and "sz_columnWrap sz' = sz_columnWrap sz"
    and "sz_isTranslateMode sz' = sz_isTranslateMode sz" and "sz_errorOccurred sz' = sz_errorOccurred sz"
    and "sz_infos sz' = sz_infos sz" and "sz_format sz' = sz_format sz"
    and "0 < sz_numTypeCalls sz' \<or> 0 \<le> sz_numTypeCalls sz' \<and> sz_isTranslateMode sz'"
  shows "json_at V F m w (sz_baseTypeEnable sz') t (sz_numTypeCalls sz') (sz_indentLevel sz') f e sz'"
  using assms by (auto simp: json_at_def format_at_def text_mode_def inside_def)

lemma set_json_data_at:
  assumes "json_at V F m w b t k i f e sz" and "jf_withType d = False"
  shows "\<exists>sz'. set_json_data d sz = Ok sz' \<and> json_at V F m w b t k i (jf_isFirst d) (jf_beginStructArrayElem d) sz' \<and> port sz' = port sz"
  using assms by (auto simp: json_at_def format_at_def set_json_data_def hupd_def hread_def text_mode_def inside_def port_def)

lemma json_at_port [simp]: "json_at V F m w b t k i f e (set_port p sz) = json_at V F m w b t k i f e sz"
  by (simp add: json_at_def format_at_def text_mode_def inside_def set_port_def)

lemma json_at_roundOff [simp]: "json_at V F m w b t k i f e (sz\<lparr>sz_roundOff := r\<rparr>) = json_at V F m w b t k i f e sz"
  by (simp add: json_at_def format_at_def text_mode_def inside_def)

subsection \<open>The machine of the format\<close>

record json_config =
  jc_indent :: int
  jc_isFirst :: bool
  jc_beginElem :: bool

definition json_sep :: "json_config \<Rightarrow> byte list" where
  "json_sep c = (if jc_isFirst c then [] else [44, 10])"

definition json_beginType_text :: "int \<Rightarrow> json_config \<Rightarrow> byte list \<Rightarrow> byte list \<Rightarrow> json_config told" where
  "json_beginType_text k c name type =
     (if jc_beginElem c then Some ([], c\<lparr>jc_beginElem := False\<rparr>)
      else if text_name name
      then let i = (if jc_indent c = 0 then 2 else jc_indent c) in
        Some (json_sep c @ (if jc_indent c = 0 then [123, 10] else []) @ spaces_text i @ quoted_name name @ [58, 32, 123, 10],
          c\<lparr>jc_indent := i + 2, jc_isFirst := True\<rparr>)
      else None)"

definition json_endType_text :: "int \<Rightarrow> json_config \<Rightarrow> json_config told" where
  "json_endType_text k c =
     (let i = jc_indent c - 2 in
      if i = 2 then Some ([10] @ spaces_text 2 @ [125, 10, 125, 10], c\<lparr>jc_indent := 0, jc_isFirst := True\<rparr>)
      else Some ([10] @ spaces_text i @ [125], c\<lparr>jc_indent := i\<rparr>))"

definition json_beginArray_text :: "json_config \<Rightarrow> SerializeType \<Rightarrow> byte list \<Rightarrow> int \<Rightarrow> json_config told" where
  "json_beginArray_text c type name len =
     (if text_name name \<and> type \<noteq> SERIALIZE_TYPE_CHAR \<and> type \<noteq> SERIALIZE_TYPE_OTHER
      then Some (json_sep c @ spaces_text (jc_indent c) @ quoted_name name @ [58, 32, 91],
        c\<lparr>jc_indent := jc_indent c + 2, jc_isFirst := False\<rparr>)
      else None)"

definition json_endArray_text :: "uint32 \<Rightarrow> json_config \<Rightarrow> SerializeType \<Rightarrow> byte list \<Rightarrow> int \<Rightarrow> json_config told" where
  "json_endArray_text m c type name len =
     (if m = SERIALIZE_MODE_WRITE then Some (spaces_text (jc_indent c - 2) @ [93], c\<lparr>jc_indent := jc_indent c - 2\<rparr>) else Some ([], c))"

definition json_beginStructArray_text :: "json_config \<Rightarrow> byte list \<Rightarrow> byte list \<Rightarrow> int \<Rightarrow> json_config told" where
  "json_beginStructArray_text c name type n =
     (if text_name name
      then Some (json_sep c @ spaces_text (jc_indent c) @ quoted_name name @ [58, 32, 91, 10], c\<lparr>jc_isFirst := True\<rparr>) else None)"

definition json_separator_text :: "json_config \<Rightarrow> byte list \<Rightarrow> int \<Rightarrow> int \<Rightarrow> json_config told" where
  "json_separator_text c name i n =
     Some ((if i = 0 then [] else [44, 10]) @ spaces_text (jc_indent c) @ [123, 10],
       c\<lparr>jc_indent := jc_indent c + 2, jc_isFirst := True, jc_beginElem := True\<rparr>)"

definition json_value_text :: "('s, 'a) ser_env \<Rightarrow> int \<Rightarrow> json_config \<Rightarrow> SerializeType \<Rightarrow> byte list \<Rightarrow> byte list \<Rightarrow> int \<Rightarrow> int \<Rightarrow>
    json_config told" where
  "json_value_text V w c type name val n len =
     (if \<not> text_value V type_spec (type, name, val, n, len) then None
      else if SERIALIZE_IS_ARRAY_ELEMENT type then Some (json_elements w (jc_indent c) len 0 (value_texts V type_spec type val n len), c)
      else Some (json_sep c @ separated [44, 10] (map (\<lambda>t. spaces_text (jc_indent c) @ quoted_name name @ [58, 32] @ t)
        (value_texts V type_spec type val n len)), c\<lparr>jc_isFirst := False\<rparr>))"

definition json_machine :: "('s, 'a) ser_env \<Rightarrow> uint32 \<Rightarrow> int \<Rightarrow> json_config text_machine" where
  "json_machine V m w = \<lparr>
     tm_beginType = json_beginType_text,
     tm_beginBaseType = (\<lambda>k c name type. Some ([], c)),
     tm_beginArray = json_beginArray_text,
     tm_beginStructArray = json_beginStructArray_text,
     tm_beginStructArraySeparator = json_separator_text,
     tm_doSerialize = (\<lambda>c type name val n len. map_option (\<lambda>(bs, c). (bs, val, c)) (json_value_text V w c type name val n len)),
     tm_endStructArraySeparator = (\<lambda>c name i n. Some ([], c)),
     tm_endStructArray = (\<lambda>c. Some ([10] @ spaces_text (jc_indent c) @ [93], c)),
     tm_endArray = json_endArray_text m,
     tm_endBaseType = (\<lambda>k c. Some ([], c)),
     tm_endType = json_endType_text\<rparr>"

subsection \<open>Texts of the format\<close>

lemma renders_nl: "renders V [CHR 0x0A] [] [10]" "renders V ('','' @ [CHR 0x0A]) [] [44, 10]" "renders V (''{'' @ [CHR 0x0A]) [] [123, 10]"
  "renders V (''}'' @ [CHR 0x0A]) [] [125, 10]" "renders V ''}'' [] [125]" "renders V '']'' [] [93]" "renders V '', '' [] [44, 32]"
  by (simp_all add: renders_def)

lemma renders_name:
  assumes "text_name name"
  shows "renders V ([CHR 0x22] @ ''%s'' @ [CHR 0x22] @ '': {'' @ [CHR 0x0A]) [StrArg name] (quoted_name name @ [58, 32, 123, 10])"
    "renders V ([CHR 0x22] @ ''%s'' @ [CHR 0x22] @ '': ['') [StrArg name] (quoted_name name @ [58, 32, 91])"
    "renders V ([CHR 0x22] @ ''%s'' @ [CHR 0x22] @ '': ['' @ [CHR 0x0A]) [StrArg name] (quoted_name name @ [58, 32, 91, 10])"
    "renders V ([CHR 0x22] @ ''%s'' @ [CHR 0x22] @ '': '') [StrArg name] (quoted_name name @ [58, 32])"
  using assms by (simp_all add: renders_def quoted_name_def text_name_def print_conversion_def next_char_def item_text_def cstring_def)

lemma type_spec_info: "type \<noteq> SERIALIZE_TYPE_OTHER \<Longrightarrow> \<exists>tag. ascii_typeInfo type = Ok (type_spec type, tag)"
  by (cases type) (simp_all add: type_spec_def ascii_typeInfo_def)

subsection \<open>The operations of the format\<close>

locale json_sink = text_sink V can takes
  for V :: "('s, 'a) ser_env" and can :: "nat \<Rightarrow> 's port \<Rightarrow> bool" and takes :: "byte list \<Rightarrow> 's port \<Rightarrow> 's port \<Rightarrow> bool" +
  fixes F :: "'s ser_formats" and m :: uint32 and w :: int
begin

lemma said_put: "renders V fmt args bs \<Longrightarrow> says can takes (json_at V F m w b t k i f e) bs (put_text V fmt args) (json_at V F m w b t k i f e)"
  by (rule says_put) (auto dest: json_at_simps(1))

lemma said_indent: "says can takes (json_at V F m w b t k i f e) (spaces_text i) (SERIALIZE_INDENT V) (json_at V F m w b t k i f e)"
  by (rule says_indent) (auto dest: json_at_simps)

lemma said_comma:
  "says can takes (json_at V F m w b t k i f e) (if f then [] else [44, 10]) (json_comma V) (json_at V F m w b t k i f e)"
proof (cases f)
  case True
  have "says can takes (json_at V F m w b t k i True e) [] (json_comma V) (json_at V F m w b t k i True e)"
    by (rule says_silent) (auto simp: json_comma_def json_at_simps)
  with True show ?thesis by simp
next
  case False
  have "json_at V F m w b t k i False e sz \<Longrightarrow> json_comma V sz = put_text V ('','' @ [CHR 0x0A]) [] sz" for sz
    by (simp add: json_comma_def json_at_simps)
  then have "says can takes (json_at V F m w b t k i False e) [44, 10] (json_comma V) (json_at V F m w b t k i False e)"
    by (rule says_cong [OF _ said_put [OF renders_nl(2)]])
  with False show ?thesis by simp
qed

lemma said_data:
  "jf_withType d = False \<Longrightarrow>
    says can takes (json_at V F m w b t k i f e) [] (set_json_data d) (json_at V F m w b t k i (jf_isFirst d) (jf_beginStructArrayElem d))"
  by (rule says_silent) (rule set_json_data_at)

lemma said_first: "says can takes (json_at V F m w b t k i f e) [] (set_isFirst x) (json_at V F m w b t k i x e)"
  using set_json_data_at [of V F m w b t k i f e _ "\<lparr>jf_withType = False, jf_isFirst = x, jf_beginStructArrayElem = e\<rparr>"]
  by (intro says_silent) (simp add: set_isFirst_def json_at_simps)

lemma said_steps:
  "says can takes (json_at V F m w b t k i f e) [] (\<lambda>sz. Ok (SERIALIZE_INDENT_INCR sz)) (json_at V F m w b t k (i + 2) f e)"
  "says can takes (json_at V F m w b t k i f e) [] (\<lambda>sz. Ok (SERIALIZE_INDENT_DECR sz)) (json_at V F m w b t k (i - 2) f e)"
  "says can takes (json_at V F m w b t k i f e) [] Ok (json_at V F m w b t k i f e)"
  by (rule says_silent; auto simp: json_at_def format_at_def text_mode_def inside_def port_def SERIALIZE_INDENT_INCR_def SERIALIZE_INDENT_DECR_def
      SERIALIZE_INDENT_SIZE_def)+

lemma said_decr_indent:
  "says can takes (json_at V F m w b t k i f e) (spaces_text (i - 2)) (\<lambda>sz. SERIALIZE_INDENT V (SERIALIZE_INDENT_DECR sz)) (json_at V F m w b t k (i - 2) f e)"
  using says_bind [OF said_steps(2) said_indent] by simp

lemma said_begin_element:
  "says can takes (json_at V F m w b t k i f True) [] (SerializeFormatJson_beginType V name type) (json_at V F m w b t k i f False)"
  using set_json_data_at [of V F m w b t k i f True _ "\<lparr>jf_withType = False, jf_isFirst = f, jf_beginStructArrayElem = False\<rparr>"]
  by (intro says_silent) (simp add: SerializeFormatJson_beginType_def json_at_simps)

lemma said_begin:
  assumes "text_name name"
  shows "says can takes (json_at V F m w b t k i f False)
    ((if f then [] else [44, 10]) @ (if i = 0 then [123, 10] else []) @ spaces_text (if i = 0 then 2 else i) @ quoted_name name @ [58, 32, 123, 10])
    (SerializeFormatJson_beginType V name type) (json_at V F m w b t k ((if i = 0 then 2 else i) + 2) True False)"
proof -
  have body: "says can takes (json_at V F m w b t k j True False) (spaces_text j @ (quoted_name name @ [58, 32, 123, 10]) @ [])
     (\<lambda>sz. obind (SERIALIZE_INDENT V sz) (\<lambda>sz.
        obind (put_text V ([CHR 0x22] @ ''%s'' @ [CHR 0x22] @ '': {'' @ [CHR 0x0A]) [StrArg name] sz) (\<lambda>sz.
        Ok (SERIALIZE_INDENT_INCR sz)))) (json_at V F m w b t k (j + 2) True False)" for j
    by (rule says_bind [OF said_indent says_bind [OF said_put [OF renders_name(1) [OF assms]] said_steps(1)]])
  let ?open = "\<lambda>sz. if sz_indentLevel sz = 0
               then obind (put_text V (''{'' @ [CHR 0x0A]) [] sz) (\<lambda>sz. Ok (SERIALIZE_INDENT_INCR sz)) else Ok sz"
  have "says can takes (json_at V F m w b t k i True False) (if i = 0 then [123, 10] else []) ?open
      (json_at V F m w b t k (if i = 0 then 2 else i) True False)"
  proof (cases "i = 0")
    case True
    have "says can takes (json_at V F m w b t k 0 True False) [123, 10] ?open (json_at V F m w b t k (0 + 2) True False)"
      by (rule says_eq [OF says_bind [OF said_put [OF renders_nl(3)] said_steps(1)]]) (simp_all add: json_at_simps)
    with True show ?thesis by simp
  next
    case False
    have "says can takes (json_at V F m w b t k i True False) [] ?open (json_at V F m w b t k i True False)"
      by (rule says_eq [OF said_steps(3)]) (use False in \<open>simp_all add: json_at_simps\<close>)
    with False show ?thesis by simp
  qed
  note all = says_bind [OF said_comma says_bind [OF said_first says_bind [OF this body]]]
  show ?thesis
    by (rule says_eq [OF all]) (simp_all add: SerializeFormatJson_beginType_def json_at_simps text_mode_simps)
qed

lemma said_end:
  assumes "i \<noteq> 4"
  shows "says can takes (json_at V F m w b t k i f e) ([10] @ spaces_text (i - 2) @ [125]) (SerializeFormatJson_endType V)
    (json_at V F m w b t k (i - 2) f e)"
proof -
  have "says can takes (json_at V F m w b t k (i - 2) f e) [] (\<lambda>sz. if sz_indentLevel sz = 2
      then obind (put_text V [CHR 0x0A] [] sz) (\<lambda>sz.
           obind (put_text V (''}'' @ [CHR 0x0A]) [] sz) (\<lambda>sz.
           obind (SERIALIZE_INDENT V (SERIALIZE_INDENT_DECR sz)) (set_isFirst True)))
      else Ok sz) (json_at V F m w b t k (i - 2) f e)"
    by (rule says_eq [OF said_steps(3)]) (use assms in \<open>simp_all add: json_at_simps\<close>)
  note all = says_bind [OF said_put [OF renders_nl(1)] says_bind [OF said_decr_indent says_bind [OF said_put [OF renders_nl(5)] this]]]
  show ?thesis
    by (rule says_eq [OF all]) (simp_all add: SerializeFormatJson_endType_def json_at_simps text_mode_simps)
qed

text \<open>The end of the outermost type closes the braces of the text, too.\<close>

lemma said_end_outermost:
  "says can takes (json_at V F m w b t k 4 f e) ([10] @ spaces_text 2 @ [125, 10, 125, 10]) (SerializeFormatJson_endType V)
    (json_at V F m w b t k 0 True e)"
proof -
  let ?close = "\<lambda>sz. if sz_indentLevel sz = 2
      then obind (put_text V [CHR 0x0A] [] sz) (\<lambda>sz.
           obind (put_text V (''}'' @ [CHR 0x0A]) [] sz) (\<lambda>sz.
           obind (SERIALIZE_INDENT V (SERIALIZE_INDENT_DECR sz)) (set_isFirst True)))
      else Ok sz"
  have "says can takes (json_at V F m w b t k (4 - 2) f e) [10, 125, 10] ?close (json_at V F m w b t k (4 - 2 - 2) True e)"
    by (rule says_eq [OF says_bind [OF said_put [OF renders_nl(1)] says_bind [OF said_put [OF renders_nl(4)]
        says_bind [OF said_decr_indent said_first]]]]) (simp_all add: json_at_simps spaces_text_def)
  note all = says_bind [OF said_put [OF renders_nl(1)] says_bind [OF said_decr_indent says_bind [OF said_put [OF renders_nl(5)] this]]]
  have "says can takes (json_at V F m w b t k 4 f e) ([10] @ spaces_text 2 @ [125, 10, 125, 10]) (SerializeFormatJson_endType V)
      (json_at V F m w b t k (4 - 2 - 2) True e)"
    by (rule says_eq [OF all]) (simp_all add: SerializeFormatJson_endType_def json_at_simps text_mode_simps)
  then show ?thesis by simp
qed

lemma said_struct_array:
  "text_name name \<Longrightarrow> says can takes (json_at V F m w b t k i f e) ((if f then [] else [44, 10]) @ spaces_text i @ quoted_name name @ [58, 32, 91, 10])
      (SerializeFormatJson_beginStructArray V name type n) (json_at V F m w b t k i True e)"
  "says can takes (json_at V F m w b t k i f e) ((if j = 0 then [] else [44, 10]) @ spaces_text i @ [123, 10])
      (SerializeFormatJson_beginStructArraySeparator V name j n) (json_at V F m w b t k (i + 2) True True)"
  "says can takes (json_at V F m w b t k i f e) ([10] @ spaces_text i @ [93]) (SerializeFormatJson_endStructArray V) (json_at V F m w b t k i f e)"
proof -
  assume n: "text_name name"
  note opens = says_bind [OF said_comma says_bind [OF said_first says_bind [OF said_indent said_put [OF renders_name(3) [OF n]]]]]
  show "says can takes (json_at V F m w b t k i f e) ((if f then [] else [44, 10]) @ spaces_text i @ quoted_name name @ [58, 32, 91, 10])
      (SerializeFormatJson_beginStructArray V name type n) (json_at V F m w b t k i True e)"
    by (rule says_eq [OF opens]) (simp_all add: SerializeFormatJson_beginStructArray_def json_at_simps text_mode_simps)
next
  have comma: "says can takes (json_at V F m w b t k i True True) (if j = 0 then [] else [44, 10])
      (\<lambda>sz. if j \<noteq> 0 then put_text V ('','' @ [CHR 0x0A]) [] sz else Ok sz) (json_at V F m w b t k i True True)"
    using said_put [OF renders_nl(2)] said_steps(3) by (cases "j = 0") simp_all
  have data: "says can takes (json_at V F m w b t k i f e) []
      (set_json_data \<lparr>jf_withType = False, jf_isFirst = True, jf_beginStructArrayElem = True\<rparr>) (json_at V F m w b t k i True True)"
    using said_data [of "\<lparr>jf_withType = False, jf_isFirst = True, jf_beginStructArrayElem = True\<rparr>"] by simp
  note separates = says_bind [OF data says_cong [OF _ says_bind [OF comma says_bind [OF said_indent says_bind [OF said_put [OF renders_nl(3)]
      said_steps(1)]]], rotated, OF text_mode_simps(1) [OF json_at_simps(1)]]]
  show "says can takes (json_at V F m w b t k i f e) ((if j = 0 then [] else [44, 10]) @ spaces_text i @ [123, 10])
      (SerializeFormatJson_beginStructArraySeparator V name j n) (json_at V F m w b t k (i + 2) True True)"
    by (rule says_eq [OF separates]) (simp_all add: SerializeFormatJson_beginStructArraySeparator_def json_at_simps)
next
  note closes = says_bind [OF said_put [OF renders_nl(1)] says_bind [OF said_indent said_put [OF renders_nl(6)]]]
  show "says can takes (json_at V F m w b t k i f e) ([10] @ spaces_text i @ [93]) (SerializeFormatJson_endStructArray V) (json_at V F m w b t k i f e)"
    by (rule says_eq [OF closes]) (simp_all add: SerializeFormatJson_endStructArray_def json_at_simps text_mode_simps)
qed

subsection \<open>Values\<close>

lemma said_deploy:
  assumes "arg_ok V spec mem" and "type \<noteq> SERIALIZE_TYPE_OTHER"
  shows "says can takes (json_at V F m w b t k i f e) (arg_text V spec mem) (deploy_text V type spec mem) (json_at V F m w b t k i f e)"
proof -
  obtain arg where "load_arg (se_isLittleEndian V) spec mem = Ok arg" "renders V spec [arg] (arg_text V spec mem)" "arg_text V spec mem \<noteq> []"
    using arg_ok_text [OF assms(1)] by blast
  moreover obtain n where "Serialize_getTypeMaxSizeAsAscii type = Ok n" using type_size [OF assms(2)] by blast
  ultimately show ?thesis by (rule says_deploy) (auto dest: json_at_simps(1))
qed

lemma handed_field:
  assumes "text_name name" and "arg_ok V (type_spec type) val" and "type \<noteq> SERIALIZE_TYPE_OTHER" and "n > 0"
  shows "hands can takes (json_at V F m w b t k i f e)
    ((if f then [] else [44, 10]) @ spaces_text i @ quoted_name name @ [58, 32] @ arg_text V (type_spec type) val) val
    (SerializeFormatJson_doSerializeField V type name n val) (json_at V F m w b t k i False e)"
proof -
  obtain tag where tag: "ascii_typeInfo type = Ok (type_spec type, tag)" using type_spec_info [OF assms(3)] by blast
  note all = says_bind [OF said_comma says_bind [OF said_first says_bind [OF said_indent says_bind [OF said_put [OF renders_name(4) [OF assms(1)]]
    said_deploy [OF assms(2,3)]]]]]
  show ?thesis
    by (rule says_hands [OF all]) (use assms(4) tag in \<open>simp_all add: SerializeFormatJson_doSerializeField_def SerializeFormatJson_getTypeInfo_def
        json_at_simps text_mode_simps omap_def obind_assoc\<close>)
qed

lemma handed_element:
  assumes "arg_ok V spec mem" and "type \<noteq> SERIALIZE_TYPE_OTHER"
  shows "hands can takes (json_at V F m w b t k i f e)
    ((if w > 0 \<and> j mod w = 0 then [10] @ spaces_text i else []) @ arg_text V spec mem @ (if j = len - 1 then [10] else [44, 32])) mem
    (json_element V type spec len j mem) (json_at V F m w b t k i f e)"
proof -
  have wrap: "says can takes (json_at V F m w b t k i f e) (if w > 0 \<and> j mod w = 0 then [10] @ spaces_text i else [])
    (\<lambda>sz. if w > 0 \<and> j mod w = 0 then obind (put_text V [CHR 0x0A] [] sz) (SERIALIZE_INDENT V) else Ok sz) (json_at V F m w b t k i f e)"
    using says_bind [OF said_put [OF renders_nl(1)] said_indent] said_steps(3) by (cases "w > 0 \<and> j mod w = 0") auto
  have "says can takes (json_at V F m w b t k i f e) (if j = len - 1 then [10] else [44, 32])
    (put_text V (if j = len - 1 then [CHR 0x0A] else '', '') []) (json_at V F m w b t k i f e)"
    by (rule said_put) (simp add: renders_nl)
  note all = says_bind [OF wrap says_bind [OF said_deploy [OF assms] this]]
  show ?thesis
    by (rule says_hands [OF all]) (simp_all add: json_element_def json_at_simps text_mode_simps omap_def obind_assoc Let_def)
qed

lemma handed_fields:
  assumes "text_value V type_spec (type, name, val, n, len)" and "\<not> SERIALIZE_IS_ARRAY_ELEMENT type" and "is_char_type type"
  shows "hands can takes (json_at V F m w b t k i f e)
    ((if f then [] else [44, 10]) @ separated [44, 10] (map (\<lambda>t. spaces_text i @ quoted_name name @ [58, 32] @ t) (value_texts V type_spec type val n len)))
    val (SerializeFormatJson_doSerialize V type name val n len) (json_at V F m w b t k i False e)"
proof -
  let ?P = "\<lambda>j :: int. json_at V F m w b t k i (if j \<le> 0 then f else False) e"
  let ?T = "\<lambda>j :: int. (if j = 0 \<and> f then [] else [44, 10]) @ spaces_text i @ quoted_name name @ [58, 32] @
    arg_text V (type_spec type) (value_item (se_isLittleEndian V) type val n j)"
  note ok = text_value_items [OF assms(1) disjI1 [OF assms(3)]]
  obtain tag where tag: "ascii_typeInfo type = Ok (type_spec type, tag)" using type_spec_info [OF ok(2)] by blast
  have "hands can takes (?P 0) (concat (map (\<lambda>j. ?T (int j)) [0..<nat len])) val
      (for_elements (SerializeFormatJson_doSerializeCharType V type name n len) (nat len) 0 val) (?P (int (nat len)))"
  proof (rule hands_items [where f = "\<lambda>j. SerializeFormatJson_doSerializeField V type name n" and P = ?P and T = ?T, OF ok(3,5)])
    fix j
    assume j: "0 \<le> j" "j < len"
    then have q: "?P (j + 1) = json_at V F m w b t k i False e" by simp
    show "hands can takes (?P j) (?T j) (value_item (se_isLittleEndian V) type val n j)
        (SerializeFormatJson_doSerializeField V type name n (value_item (se_isLittleEndian V) type val n j)) (?P (j + 1))"
      unfolding q by (rule hands_eq [OF handed_field [OF ok(1) ok(6) [OF j] ok(2,3)]]) (use j in auto)
  qed (use assms(2,3) ok tag in \<open>auto simp: SerializeFormatJson_doSerializeCharType_def SerializeFormatJson_getTypeInfo_def dest: json_at_simps(1)\<close>)
  then have "hands can takes (json_at V F m w b t k i f e) (concat (map (\<lambda>j. ?T (int j)) [0..<nat len])) val
      (for_elements (SerializeFormatJson_doSerializeCharType V type name n len) (nat len) 0 val) (json_at V F m w b t k i False e)"
    using ok(4) by simp
  then show ?thesis
  proof (rule hands_eq)
    have n: "map (\<lambda>t. spaces_text i @ quoted_name name @ [58, 32] @ t) (value_texts V type_spec type val n len) \<noteq> []"
      using ok(4) assms(3) by (simp add: value_texts_def value_items_def)
    show "concat (map (\<lambda>j. ?T (int j)) [0..<nat len]) = (if f then [] else [44, 10]) @
        separated [44, 10] (map (\<lambda>t. spaces_text i @ quoted_name name @ [58, 32] @ t) (value_texts V type_spec type val n len))"
      unfolding separated_concat [OF n] using assms(3)
      by (intro arg_cong [where f = concat]) (auto simp: value_texts_def value_items_item)
  qed (use ok assms(3) in \<open>simp add: SerializeFormatJson_doSerialize_def json_at_simps\<close>)
qed

lemma handed_array:
  assumes "text_value V type_spec (type, name, val, n, len)" and "SERIALIZE_IS_ARRAY_ELEMENT type"
  shows "hands can takes (json_at V F m w b t k i f e) (json_elements w i len 0 (value_texts V type_spec type val n len)) val
    (SerializeFormatJson_doSerialize V type name val n len) (json_at V F m w b t k i f e)"
proof -
  let ?P = "\<lambda>j :: int. json_at V F m w b t k i f e"
  let ?T = "\<lambda>j. (if w > 0 \<and> j mod w = 0 then [10] @ spaces_text i else []) @
    arg_text V (type_spec type) (value_item (se_isLittleEndian V) type val n j) @ (if j = len - 1 then [10] else [44, 32])"
  let ?g = "\<lambda>j. if is_char_type type then SerializeFormatJson_doSerializeCharType V type name n len j
     else SerializeFormatJson_doSerializeArrayElement V type n len j True"
  note ok = text_value_items [OF assms(1) disjI2 [OF assms(2)]]
  obtain tag where tag: "ascii_typeInfo type = Ok (type_spec type, tag)" using type_spec_info [OF ok(2)] by blast
  have "hands can takes (?P 0) (concat (map (\<lambda>j. ?T (int j)) [0..<nat len])) val (for_elements ?g (nat len) 0 val) (?P (int (nat len)))"
  proof (rule hands_items [where f = "\<lambda>j. SerializeFormatJson_doSerializeArrayElement V type n len j False" and P = ?P and T = ?T, OF ok(3,5)])
    fix j
    assume j: "0 \<le> j" "j < len"
    show "hands can takes (?P j) (?T j) (value_item (se_isLittleEndian V) type val n j)
        (SerializeFormatJson_doSerializeArrayElement V type n len j False (value_item (se_isLittleEndian V) type val n j)) (?P (j + 1))"
      by (rule hands_eq [OF handed_element [OF ok(6) [OF j] ok(2), of b t k i f e j len]])
        (use ok tag in \<open>simp_all add: SerializeFormatJson_doSerializeArrayElement_def SerializeFormatJson_getTypeInfo_def\<close>)
  qed (use assms(2) ok tag in \<open>auto simp: SerializeFormatJson_doSerializeCharType_def SerializeFormatJson_getTypeInfo_def at_element_def
      SerializeFormatJson_doSerializeArrayElement_def dest: json_at_simps(1)\<close>)
  then show ?thesis
  proof (rule hands_eq)
    show "concat (map (\<lambda>j. ?T (int j)) [0..<nat len]) = json_elements w i len 0 (value_texts V type_spec type val n len)"
      unfolding json_elements_concat using assms(2)
      by (intro arg_cong [where f = concat]) (auto simp: value_texts_def value_items_item)
  next
    fix sz
    assume "json_at V F m w b t k i f e sz"
    then show "SerializeFormatJson_doSerialize V type name val n len sz = for_elements ?g (nat len) 0 val sz"
      using ok assms(2) by (cases "is_char_type type") (auto simp: SerializeFormatJson_doSerialize_def json_at_simps SERIALIZE_IS_ARRAY_ELEMENT_def)
  qed
qed

subsection \<open>The contract\<close>

lemma said_value:
  assumes "text_value V type_spec (type, name, val, n, len)" and "\<not> SERIALIZE_IS_ARRAY_ELEMENT type"
  shows "hands can takes (json_at V F m w b t k i f e)
    ((if f then [] else [44, 10]) @ separated [44, 10] (map (\<lambda>t. spaces_text i @ quoted_name name @ [58, 32] @ t) (value_texts V type_spec type val n len)))
    val (SerializeFormatJson_doSerialize V type name val n len) (json_at V F m w b t k i False e)"
proof (cases "is_char_type type")
  case True
  with handed_fields assms show ?thesis by blast
next
  case False
  have t: "text_name name" "type \<noteq> SERIALIZE_TYPE_OTHER" "n > 0" "type = SERIALIZE_TYPE_STRING \<or> len > 0" "arg_ok V (type_spec type) val"
    using assms False by (auto simp: value_items_def)
  show ?thesis
    by (rule hands_eq [OF handed_field [OF t(1,5,2,3)]])
      (use assms(2) False t in \<open>auto simp: value_texts_def value_items_def SerializeFormatJson_doSerialize_def json_at_simps\<close>)
qed

lemma said_arrays:
  assumes "text_name name" and "type \<noteq> SERIALIZE_TYPE_CHAR" and "type \<noteq> SERIALIZE_TYPE_OTHER"
  shows "says can takes (json_at V F m w b t k i f e) ((if f then [] else [44, 10]) @ spaces_text i @ quoted_name name @ [58, 32, 91])
      (SerializeFormatJson_beginArray V type name len) (json_at V F m w b t k (i + 2) False e)"
proof -
  obtain tag where tag: "ascii_typeInfo type = Ok (type_spec type, tag)" using type_spec_info [OF assms(3)] by blast
  note opens = says_bind [OF said_comma says_bind [OF said_first says_bind [OF said_indent says_bind [OF said_put [OF renders_name(2) [OF assms(1)]]
    said_steps(1)]]]]
  show ?thesis
    by (rule says_eq [OF opens]) (use assms(2) tag in \<open>simp_all add: SerializeFormatJson_beginArray_def SerializeFormatJson_getTypeInfo_def
        json_at_simps text_mode_simps\<close>)
qed

lemma said_endArray:
  "m = SERIALIZE_MODE_WRITE \<Longrightarrow>
    says can takes (json_at V F m w b t k i f e) (spaces_text (i - 2) @ [93]) (SerializeFormatJson_endArray V type name len) (json_at V F m w b t k (i - 2) f e)"
  "m \<noteq> SERIALIZE_MODE_WRITE \<Longrightarrow>
    says can takes (json_at V F m w b t k i f e) [] (SerializeFormatJson_endArray V type name len) (json_at V F m w b t k i f e)"
proof -
  assume m: "m = SERIALIZE_MODE_WRITE"
  note closes = says_bind [OF said_decr_indent said_put [OF renders_nl(6)]]
  show "says can takes (json_at V F m w b t k i f e) (spaces_text (i - 2) @ [93]) (SerializeFormatJson_endArray V type name len)
      (json_at V F m w b t k (i - 2) f e)"
    by (rule says_eq [OF closes]) (use m in \<open>simp_all add: SerializeFormatJson_endArray_def json_at_simps\<close>)
next
  assume m: "m \<noteq> SERIALIZE_MODE_WRITE"
  show "says can takes (json_at V F m w b t k i f e) [] (SerializeFormatJson_endArray V type name len) (json_at V F m w b t k i f e)"
    by (rule says_eq [OF said_steps(3)]) (use m in \<open>auto simp: SerializeFormatJson_endArray_def dest: json_at_mode\<close>)
qed

end

lemma json_ops [simp]:
  "indirectBeginType (SerializeFormatJsonOps V) = SerializeFormatJson_beginType V"
  "indirectBeginBaseType (SerializeFormatJsonOps V) = SerializeFormatJson_beginBaseType"
  "indirectBeginArray (SerializeFormatJsonOps V) = SerializeFormatJson_beginArray V"
  "indirectBeginStructArray (SerializeFormatJsonOps V) = SerializeFormatJson_beginStructArray V"
  "indirectBeginStructArraySeparator (SerializeFormatJsonOps V) = SerializeFormatJson_beginStructArraySeparator V"
  "indirectDoSerialize (SerializeFormatJsonOps V) = SerializeFormatJson_doSerialize V"
  "indirectEndStructArraySeparator (SerializeFormatJsonOps V) = SerializeFormatJson_endStructArraySeparator"
  "indirectEndStructArray (SerializeFormatJsonOps V) = SerializeFormatJson_endStructArray V"
  "indirectEndArray (SerializeFormatJsonOps V) = SerializeFormatJson_endArray V"
  "indirectEndBaseType (SerializeFormatJsonOps V) = SerializeFormatJson_endBaseType"
  "indirectEndType (SerializeFormatJsonOps V) = SerializeFormatJson_endType V"
  by (simp_all add: SerializeFormatJsonOps_def)

text \<open>The format keeps the contract with its machine.\<close>

definition json_holds :: "('s, 'a) ser_env \<Rightarrow> 's ser_formats \<Rightarrow> uint32 \<Rightarrow> int \<Rightarrow> bool \<Rightarrow> bool \<Rightarrow> int \<Rightarrow> json_config \<Rightarrow> 's Serialize \<Rightarrow> bool" where
  "json_holds V F m w b t k c = json_at V F m w b t k (jc_indent c) (jc_isFirst c) (jc_beginElem c)"

sublocale json_sink \<subseteq> text_format V "still_to_take can takes p0 T" F "SerializeFormatJsonOps V" "json_machine V m w" "json_holds V F m w" for p0 T
proof
  fix b t k c c' and sz :: "'s Serialize" and name type stype bs len i val n out
  show "json_holds V F m w b t k c sz \<Longrightarrow> format_at F (SerializeFormatJsonOps V) b t k sz"
    by (simp add: json_holds_def json_at_def)
  show "json_holds V F m w b t k c sz \<Longrightarrow> still_to_take can takes p0 T bs (port sz) \<Longrightarrow> stream_eof sz = Ok False \<and> sz_stream sz \<noteq> NoStream"
    by (rule still_calm)
  show "json_holds V F m w b t k c sz \<Longrightarrow> json_holds V F m w b t k c (sz\<lparr>sz_recoveryJmpSet := s, sz_recoveryJmp := j\<rparr>)" for j s
    using json_at_frame [of V F m w b t k _ _ _ sz] by (auto simp: json_holds_def json_at_def format_at_def text_mode_def inside_def)
  show "json_holds V F m w b t k c sz \<Longrightarrow> json_holds V F m w b' t k c (sz\<lparr>sz_baseTypeEnable := b'\<rparr>)" for b'
    by (auto simp: json_holds_def json_at_def format_at_def text_mode_def inside_def)
  show "json_holds V F m w b t k c sz \<Longrightarrow> 0 < k' \<or> 0 \<le> k' \<and> t \<Longrightarrow> json_holds V F m w b t k' c (sz\<lparr>sz_numTypeCalls := k'\<rparr>)" for k'
    by (auto simp: json_holds_def json_at_def format_at_def text_mode_def inside_def)
  show "tm_beginType (json_machine V m w) k c name type = Some (bs, c') \<Longrightarrow>
      passes (still_to_take can takes p0 T) (json_holds V F m w b t k c) bs (indirectBeginType (SerializeFormatJsonOps V) name type) (json_holds V F m w b t k c')"
    using said_begin_element [of b t k "jc_indent c" "jc_isFirst c" name type] said_begin [of name b t k "jc_indent c" "jc_isFirst c" type]
    by (auto intro!: says_passes simp: json_machine_def json_beginType_text_def json_holds_def json_sep_def Let_def split: if_splits)
  show "tm_beginBaseType (json_machine V m w) k c name type = Some (bs, c') \<Longrightarrow>
      passes (still_to_take can takes p0 T) (json_holds V F m w b t k c) bs (indirectBeginBaseType (SerializeFormatJsonOps V) name type) (json_holds V F m w b t k c')"
    by (auto simp: json_machine_def json_holds_def SerializeFormatJson_beginBaseType_def json_at_simps intro!: passes_silent)
  show "tm_beginArray (json_machine V m w) c stype name len = Some (bs, c') \<Longrightarrow>
      passes (still_to_take can takes p0 T) (json_holds V F m w b t k c) bs (indirectBeginArray (SerializeFormatJsonOps V) stype name len) (json_holds V F m w b t k c')"
    using said_arrays [of name stype b t k "jc_indent c" "jc_isFirst c" "jc_beginElem c" len] by (auto intro!: says_passes simp: json_machine_def json_beginArray_text_def json_holds_def json_sep_def split: if_splits)
  show "tm_beginStructArray (json_machine V m w) c name type len = Some (bs, c') \<Longrightarrow>
      passes (still_to_take can takes p0 T) (json_holds V F m w b t k c) bs (indirectBeginStructArray (SerializeFormatJsonOps V) name type len) (json_holds V F m w b t k c')"
    using said_struct_array(1) [of name b t k "jc_indent c" "jc_isFirst c" "jc_beginElem c" type len] by (auto intro!: says_passes simp: json_machine_def json_beginStructArray_text_def json_holds_def json_sep_def split: if_splits)
  show "tm_beginStructArraySeparator (json_machine V m w) c name i len = Some (bs, c') \<Longrightarrow>
      passes (still_to_take can takes p0 T) (json_holds V F m w b t k c) bs (indirectBeginStructArraySeparator (SerializeFormatJsonOps V) name i len) (json_holds V F m w b t k c')"
    using said_struct_array(2) [of b t k "jc_indent c" "jc_isFirst c" "jc_beginElem c" i name len] by (auto intro!: says_passes simp: json_machine_def json_separator_text_def json_holds_def)
  show "tm_doSerialize (json_machine V m w) c stype name val n len = Some (bs, out, c') \<Longrightarrow>
      carries (still_to_take can takes p0 T) (json_holds V F m w b t k c) bs out (indirectDoSerialize (SerializeFormatJsonOps V) stype name val n len) (json_holds V F m w b t k c')"
    using said_value [of stype name val n len b t k "jc_indent c" "jc_isFirst c" "jc_beginElem c"]
      handed_array [of stype name val n len b t k "jc_indent c" "jc_isFirst c" "jc_beginElem c"]
    by (auto intro!: hands_carries simp: json_machine_def json_value_text_def json_holds_def json_sep_def simp del: text_value.simps split: if_splits)
  show "tm_endStructArraySeparator (json_machine V m w) c name i len = Some (bs, c') \<Longrightarrow>
      passes (still_to_take can takes p0 T) (json_holds V F m w b t k c) bs (indirectEndStructArraySeparator (SerializeFormatJsonOps V) name i len) (json_holds V F m w b t k c')"
    by (auto simp: json_machine_def json_holds_def SerializeFormatJson_endStructArraySeparator_def intro!: passes_silent)
  show "tm_endStructArray (json_machine V m w) c = Some (bs, c') \<Longrightarrow>
      passes (still_to_take can takes p0 T) (json_holds V F m w b t k c) bs (indirectEndStructArray (SerializeFormatJsonOps V)) (json_holds V F m w b t k c')"
    using said_struct_array(3) by (auto intro!: says_passes simp: json_machine_def json_holds_def)
  show "tm_endArray (json_machine V m w) c stype name len = Some (bs, c') \<Longrightarrow>
      passes (still_to_take can takes p0 T) (json_holds V F m w b t k c) bs (indirectEndArray (SerializeFormatJsonOps V) stype name len) (json_holds V F m w b t k c')"
    using said_endArray [of b t k "jc_indent c" "jc_isFirst c" "jc_beginElem c" stype name len] by (auto intro!: says_passes simp: json_machine_def json_endArray_text_def json_holds_def split: if_splits)
  show "tm_endBaseType (json_machine V m w) k c = Some (bs, c') \<Longrightarrow>
      passes (still_to_take can takes p0 T) (json_holds V F m w b t k c) bs (indirectEndBaseType (SerializeFormatJsonOps V)) (json_holds V F m w b t k c')"
    by (auto simp: json_machine_def json_holds_def SerializeFormatJson_endBaseType_def intro!: passes_silent)
  show "tm_endType (json_machine V m w) k c = Some (bs, c') \<Longrightarrow>
      passes (still_to_take can takes p0 T) (json_holds V F m w b t k c) bs (indirectEndType (SerializeFormatJsonOps V)) (json_holds V F m w b t k c')"
    using said_end [of "jc_indent c" b t k "jc_isFirst c" "jc_beginElem c"] said_end_outermost [of b t k "jc_isFirst c" "jc_beginElem c"] by (auto intro!: says_passes simp: json_machine_def json_endType_text_def json_holds_def Let_def split: if_splits)
qed

subsection \<open>The machine is the pretty printer\<close>

definition no_arrays :: "ser_prog \<Rightarrow> bool" where
  "no_arrays q \<longleftrightarrow> (\<forall>(type, name, val, n, len) \<in> set (leaves q). \<not> SERIALIZE_IS_ARRAY_ELEMENT type)"

lemma no_arrays_simps:
  "no_arrays (TypeFn name type body) \<longleftrightarrow> (\<forall>q \<in> set body. no_arrays q)"
  "no_arrays (BaseTypeFn name type body) \<longleftrightarrow> (\<forall>q \<in> set body. no_arrays q)"
  "no_arrays (StructArray name type m body) \<longleftrightarrow> (\<forall>q \<in> set body. no_arrays q)"
  "no_arrays (Value t name val n len) \<longleftrightarrow> \<not> SERIALIZE_IS_ARRAY_ELEMENT t"
  by (auto simp: no_arrays_def)

abbreviation json_in :: "int \<Rightarrow> bool \<Rightarrow> bool \<Rightarrow> json_config" where
  "json_in i f e \<equiv> \<lparr>jc_indent = i, jc_isFirst = f, jc_beginElem = e\<rparr>"

lemma json_in_turn:
  assumes "\<And>q f. q \<in> set body \<Longrightarrow> prog_text M q k (json_in i f False) = Some ((if f then [] else [44, 10]) @ t q, W q, json_in i False False)"
    and "body \<noteq> []"
  shows "texts_in_turn (map (\<lambda>f. f k) (map (prog_text M) body)) (json_in i f False) =
    Some ((if f then [] else [44, 10]) @ separated [44, 10] (map t body), concat (map W body), json_in i False False)"
  using assms
proof (induction body arbitrary: f)
  case (Cons q body)
  show ?case
  proof (cases "body = []")
    case False
    from Cons.IH [OF _ this, of False] Cons.prems(1)
    show ?thesis by (simp add: then_text_def False)
  qed (use Cons.prems(1) in \<open>simp add: then_text_def\<close>)
qed simp

lemma json_elements_in_turn:
  assumes "\<And>q. q \<in> set body \<Longrightarrow> prog_text M q k (json_in (i + 2) True True) = Some (t q, W q, json_in i False False)"
    and "tm_beginStructArraySeparator M = json_separator_text" and "tm_endStructArraySeparator M = (\<lambda>c name i n. Some ([], c))"
    and "body \<noteq> []" and "0 \<le> j"
  shows "texts_of_elements M (map (\<lambda>f. f k) (map (prog_text M) body)) name j n (json_in i f False) =
    Some ((if j = 0 then [] else [44, 10]) @ separated [44, 10] (map (\<lambda>q. spaces_text i @ [123, 10] @ t q) body), concat (map W body), json_in i False False)"
  using assms
proof (induction body arbitrary: j f)
  case (Cons q body)
  show ?case
  proof (cases "body = []")
    case False
    from Cons.IH [OF _ Cons.prems(2,3) this, of "j + 1" False] Cons.prems
    show ?thesis by (simp add: then_text_def False json_separator_text_def)
  qed (use Cons.prems in \<open>simp add: then_text_def json_separator_text_def\<close>)
qed simp

definition is_TypeFn :: "ser_prog \<Rightarrow> bool" where
  "is_TypeFn q \<longleftrightarrow> (case q of TypeFn _ _ _ \<Rightarrow> True | _ \<Rightarrow> False)"

lemma json_machine_prints:
  "text_prog V q \<Longrightarrow> m = SERIALIZE_MODE_WRITE \<or> no_arrays q \<Longrightarrow> 4 \<le> i \<Longrightarrow> 1 \<le> k \<Longrightarrow>
    (\<forall>f. prog_text (json_machine V m w) q k (json_in i f False) =
      Some ((if f then [] else [44, 10]) @ json_text V w q False i, values_of q, json_in i False False)) \<and>
    (is_TypeFn q \<longrightarrow> prog_text (json_machine V m w) q k (json_in (i + 2) True True) = Some (json_text V w q True i, values_of q, json_in i False False))"
proof (induction q arbitrary: i k)
  case (TypeFn name type body)
  have "texts_in_turn (map (\<lambda>f. f (k + 1)) (map (prog_text (json_machine V m w)) body)) (json_in (i + 2) True False) =
      Some ((if True then [] else [44, 10]) @ separated [44, 10] (map (\<lambda>q. json_text V w q False (i + 2)) body), concat (map values_of body), json_in (i + 2) False False)"
  proof (rule json_in_turn)
    fix q f
    assume q: "q \<in> set body"
    have "\<forall>f. prog_text (json_machine V m w) q (k + 1) (json_in (i + 2) f False) =
        Some ((if f then [] else [44, 10]) @ json_text V w q False (i + 2), values_of q, json_in (i + 2) False False)"
      by (rule TypeFn.IH [OF q, THEN conjunct1]) (use TypeFn.prems q in \<open>auto simp: no_arrays_simps\<close>)
    then show "prog_text (json_machine V m w) q (k + 1) (json_in (i + 2) f False) =
        Some ((if f then [] else [44, 10]) @ json_text V w q False (i + 2), values_of q, json_in (i + 2) False False)" by blast
  qed (use TypeFn.prems in auto)
  then show ?case
    using TypeFn.prems
    by (simp add: then_text_def values_of_simps json_machine_def json_beginType_text_def json_endType_text_def json_sep_def text_name_def o_def Let_def)
next
  case (BaseTypeFn name type body)
  have "texts_in_turn (map (\<lambda>f. f (k + 1)) (map (prog_text (json_machine V m w)) body)) (json_in i f False) =
      Some ((if f then [] else [44, 10]) @ separated [44, 10] (map (\<lambda>q. json_text V w q False i) body), concat (map values_of body), json_in i False False)" for f
  proof (rule json_in_turn)
    fix q f
    assume q: "q \<in> set body"
    have "\<forall>f. prog_text (json_machine V m w) q (k + 1) (json_in i f False) =
        Some ((if f then [] else [44, 10]) @ json_text V w q False i, values_of q, json_in i False False)"
      by (rule BaseTypeFn.IH [OF q, THEN conjunct1]) (use BaseTypeFn.prems q in \<open>auto simp: no_arrays_simps\<close>)
    then show "prog_text (json_machine V m w) q (k + 1) (json_in i f False) =
        Some ((if f then [] else [44, 10]) @ json_text V w q False i, values_of q, json_in i False False)" by blast
  qed (use BaseTypeFn.prems in auto)
  then show ?case
    using BaseTypeFn.prems by (simp add: then_text_def values_of_simps json_machine_def text_name_def o_def is_TypeFn_def)
next
  case (Value type name val n len)
  then have "m = SERIALIZE_MODE_WRITE \<or> \<not> SERIALIZE_IS_ARRAY_ELEMENT type" by (simp add: no_arrays_simps)
  moreover have "SERIALIZE_IS_ARRAY_ELEMENT type \<Longrightarrow> type \<noteq> SERIALIZE_TYPE_CHAR \<and> type \<noteq> SERIALIZE_TYPE_OTHER"
    by (auto simp: SERIALIZE_IS_ARRAY_ELEMENT_def)
  ultimately show ?case
    using Value.prems(1)
    by (auto simp: then_text_def values_of_simps json_machine_def json_beginArray_text_def json_endArray_text_def json_value_text_def json_sep_def
        text_name_def is_TypeFn_def)
next
  case (StructArray name type n body)
  have "texts_of_elements (json_machine V m w) (map (\<lambda>f. f k) (map (prog_text (json_machine V m w)) body)) name 0 (int (length body))
      (json_in i True False) = Some ((if (0 :: int) = 0 then [] else [44, 10]) @ separated [44, 10]
        (map (\<lambda>q. spaces_text i @ [123, 10] @ json_text V w q True i) body), concat (map values_of body), json_in i False False)"
  proof (rule json_elements_in_turn)
    fix q
    assume q: "q \<in> set body"
    have "is_TypeFn q" using StructArray.prems(1) q by (auto simp: is_TypeFn_def)
    moreover have "is_TypeFn q \<longrightarrow> prog_text (json_machine V m w) q k (json_in (i + 2) True True) =
        Some (json_text V w q True i, values_of q, json_in i False False)"
      by (rule StructArray.IH [OF q, THEN conjunct2]) (use StructArray.prems q in \<open>auto simp: no_arrays_simps\<close>)
    ultimately show "prog_text (json_machine V m w) q k (json_in (i + 2) True True) = Some (json_text V w q True i, values_of q, json_in i False False)"
      by blast
  qed (use StructArray.prems in \<open>auto simp: json_machine_def\<close>)
  then show ?case
    using StructArray.prems
    by (simp add: then_text_def values_of_simps json_beginStructArray_text_def json_sep_def text_name_def o_def is_TypeFn_def)
      (simp add: json_machine_def json_beginStructArray_text_def json_sep_def text_name_def values_of_simps)
qed

text \<open>The outermost type, which opens and closes the text.\<close>

definition json_document :: "('s, 'a) ser_env \<Rightarrow> int \<Rightarrow> byte list \<Rightarrow> ser_prog list \<Rightarrow> byte list" where
  "json_document V w name body =
     [123, 10] @ spaces_text 2 @ quoted_name name @ [58, 32, 123, 10] @
     separated [44, 10] (map (\<lambda>q. json_text V w q False 4) body) @ [10] @ spaces_text 2 @ [125, 10, 125, 10]"

lemma json_machine_document:
  assumes "text_prog V (TypeFn name type body)" and "m = SERIALIZE_MODE_WRITE \<or> no_arrays (TypeFn name type body)"
  shows "prog_text (json_machine V m w) (TypeFn name type body) 0 (json_in 0 True False) = Some (json_document V w name body, concat (map values_of body), json_in 0 True False)"
proof -
  have "texts_in_turn (map (\<lambda>f. f 1) (map (prog_text (json_machine V m w)) body)) (json_in 4 True False) =
      Some ((if True then [] else [44, 10]) @ separated [44, 10] (map (\<lambda>q. json_text V w q False 4) body), concat (map values_of body), json_in 4 False False)"
  proof (rule json_in_turn)
    fix q f
    assume q: "q \<in> set body"
    have "\<forall>f. prog_text (json_machine V m w) q 1 (json_in 4 f False) =
        Some ((if f then [] else [44, 10]) @ json_text V w q False 4, values_of q, json_in 4 False False)"
      by (rule json_machine_prints [THEN conjunct1]) (use assms q in \<open>auto simp: no_arrays_simps\<close>)
    then show "prog_text (json_machine V m w) q 1 (json_in 4 f False) =
        Some ((if f then [] else [44, 10]) @ json_text V w q False 4, values_of q, json_in 4 False False)" by blast
  qed (use assms in simp)
  then show ?thesis
    using assms(1)
    by (simp add: then_text_def values_of_simps json_machine_def json_beginType_text_def json_endType_text_def json_sep_def text_name_def json_document_def)
qed

subsection \<open>Memory and the measuring stream\<close>

interpretation mem_json: json_sink "on_memory V" mem_port_can mem_port_takes F m w for V F m w
  by unfold_locales

interpretation calc_json: json_sink V calc_port_can calc_port_takes F m w for V :: "('s, 'a) ser_env" and F m w
  by unfold_locales

text \<open>An object that writes Json into memory with space for \<open>n\<close> bytes, in the configuration \<open>c\<close>.\<close>

definition json_writer :: "mem_env \<Rightarrow> IOChannelGenericMem ser_formats \<Rightarrow> int \<Rightarrow> bool \<Rightarrow> int \<Rightarrow> json_config \<Rightarrow> nat \<Rightarrow>
    IOChannelGenericMem Serialize \<Rightarrow> bool" where
  "json_writer V F w t k c n sz \<longleftrightarrow> text_writer V (json_holds V F SERIALIZE_MODE_WRITE w False t k c) n sz"

text \<open>The same on the measuring stream, which is at \<open>pos\<close>.\<close>

definition json_measurer :: "('s, 'a) ser_env \<Rightarrow> 's ser_formats \<Rightarrow> int \<Rightarrow> bool \<Rightarrow> int \<Rightarrow> json_config \<Rightarrow> int \<Rightarrow> 's Serialize \<Rightarrow> bool" where
  "json_measurer V F w t k c pos sz \<longleftrightarrow> text_measurer (json_holds V F SERIALIZE_MODE_CALC w False t k c) pos sz"

lemma json_write:
  assumes "prog_text (json_machine V SERIALIZE_MODE_WRITE w) q k c = Some (bs, vs, c')" and "0 < k \<or> 0 \<le> k \<and> t"
    and "json_writer V F w t k c (length bs + n) sz"
  shows "\<exists>sz'. serialize_call V F q sz = Ok (vs, sz') \<and> json_writer V F w t k c' n sz' \<and>
    mem_view (sz_channel sz') = mf_put bs (mem_view (sz_channel sz))"
proof -
  have v: "on_memory V = V" using assms(3) by (simp add: json_writer_def text_writer_def)
  show ?thesis unfolding json_writer_def
    by (rule text_written [OF _ assms(3) [unfolded json_writer_def]])
      (rule mem_json.call_tells [of V SERIALIZE_MODE_WRITE w q k c bs vs c' t F, unfolded v, OF assms(1,2)])
qed

lemma json_measure:
  assumes "prog_text (json_machine V SERIALIZE_MODE_CALC w) q k c = Some (bs, vs, c')" and "0 < k \<or> 0 \<le> k \<and> t"
    and "json_measurer V F w t k c pos sz"
  shows "\<exists>sz'. serialize_call V F q sz = Ok (vs, sz') \<and> json_measurer V F w t k c' (pos + int (length bs)) sz'"
  unfolding json_measurer_def
  by (rule text_measured [OF _ assms(3) [unfolded json_measurer_def]]) (rule calc_json.call_tells [OF assms(1,2)])

text \<open>Measuring an array counts neither the spaces before its closing bracket nor the bracket, and leaves the indentation increased.\<close>

lemma json_array_measured_short:
  assumes "text_value V type_spec (type, name, val, n, len)" and "SERIALIZE_IS_ARRAY_ELEMENT type"
  shows "prog_text (json_machine V SERIALIZE_MODE_WRITE w) (Value type name val n len) k (json_in i f e) =
      Some ((if f then [] else [44, 10]) @ json_text V w (Value type name val n len) False i, [val], json_in i False e)"
    "\<exists>bs. prog_text (json_machine V SERIALIZE_MODE_CALC w) (Value type name val n len) k (json_in i f e) = Some (bs, [val], json_in (i + 2) False e) \<and>
      (if f then [] else [44, 10]) @ json_text V w (Value type name val n len) False i = bs @ spaces_text i @ [93]"
proof -
  have t: "type \<noteq> SERIALIZE_TYPE_CHAR" "type \<noteq> SERIALIZE_TYPE_OTHER" using assms(2) by (auto simp: SERIALIZE_IS_ARRAY_ELEMENT_def)
  show "prog_text (json_machine V SERIALIZE_MODE_WRITE w) (Value type name val n len) k (json_in i f e) =
      Some ((if f then [] else [44, 10]) @ json_text V w (Value type name val n len) False i, [val], json_in i False e)"
    "\<exists>bs. prog_text (json_machine V SERIALIZE_MODE_CALC w) (Value type name val n len) k (json_in i f e) = Some (bs, [val], json_in (i + 2) False e) \<and>
      (if f then [] else [44, 10]) @ json_text V w (Value type name val n len) False i = bs @ spaces_text i @ [93]"
    using assms t by (simp_all add: then_text_def json_machine_def json_beginArray_text_def json_endArray_text_def json_value_text_def json_sep_def
        text_name_def)
qed

subsection \<open>Properties\<close>

text \<open>Values and objects for the examples.\<close>

lemma example_values:
  "text_prog (example_env True) example_number" "json_text (example_env True) w example_number e i = spaces_text i @ [34, 120, 34, 58, 32, 45, 52, 50]"
  "text_prog (example_env True) example_pair" "json_text (example_env True) 0 example_pair e i =
     spaces_text i @ [34, 121, 34, 58, 32, 91, 53, 44, 32, 50, 54, 51, 10] @ spaces_text i @ [93]"
  "text_prog (example_env True) example_string" "json_text (example_env True) w example_string e i = spaces_text i @ [34, 115, 34, 58, 32, 34, 72, 92, 34, 34]"
  by (simp_all add: example_number_def example_pair_def example_string_def text_name_def c_string_def is_char_type_def SERIALIZE_IS_ARRAY_ELEMENT_def
      value_items_def value_texts_def type_spec_def ascii_typeInfo_def example_args example_host quoted_name_def upt_rec)

definition json_formats :: "('s, 'a) ser_env \<Rightarrow> 's ser_formats" where
  "json_formats V = one_format (SerializeFormatJsonOps V)"

definition json_object :: "uint32 \<Rightarrow> bool \<Rightarrow> int \<Rightarrow> int \<Rightarrow> bool \<Rightarrow> stream_ptr \<Rightarrow> calc_channel owned \<Rightarrow> 's IOChannel \<Rightarrow> 's Serialize" where
  "json_object mode t k i f to calc ch = format_object (SerializeFormatJsonOptions False f False) mode t k i to calc ch"

lemma json_object_ok:
  assumes "0 < k \<or> 0 \<le> k \<and> t"
  shows "json_writer (example_env h) (json_formats (example_env h)) 0 t k (json_in i f False) n
      (json_object SERIALIZE_MODE_WRITE t k i f UserStream calc ch) \<longleftrightarrow>
    mem_inv ch \<and> \<not> mf_eof (mem_view ch) \<and> mf_pos (mem_view ch) + n \<le> length (mf_bytes (mem_view ch))"
    "writing m \<Longrightarrow> calc_can m \<Longrightarrow> ch_currentIndexPosition m = pos \<Longrightarrow>
      json_measurer V (json_formats V) 0 t k (json_in i f False) pos (json_object SERIALIZE_MODE_CALC t k i f CalcStream (Own m) ch2)"
  using assms
  by (auto simp: json_writer_def text_writer_def json_measurer_def text_measurer_def json_holds_def json_at_def format_at_def text_mode_def inside_def json_formats_def one_format_def
      json_object_def format_object_def example_env_def Serialize_zero_def)

text \<open>C33: What the Json format writes for a function of the user is what a pretty printer without any state prints for it:
  commas, new lines and indentation, which the format derives from two flags and a counter kept between its calls, come out
  as the structure of the function demands, however types, base types, arrays of structures, arrays and values are
  nested. The text goes into the memory of the stream at its position, the rest of the memory stays as it is, the values of the
  user are unchanged, and the format is ready for the next member.\<close>

theorem Json_writes_text:
  assumes "text_prog V q" and "4 \<le> i" and "1 \<le> k" and "T = (if f then [] else [44, 10]) @ json_text V w q False i"
    and "json_writer V F w t k (json_in i f False) (length T + n) sz"
  shows "\<exists>sz'. serialize_call V F q sz = Ok (values_of q, sz') \<and> json_writer V F w t k (json_in i False False) n sz' \<and>
    mem_view (sz_channel sz') = mf_put T (mem_view (sz_channel sz))"
proof -
  have "prog_text (json_machine V SERIALIZE_MODE_WRITE w) q k (json_in i f False) = Some (T, values_of q, json_in i False False)"
    using json_machine_prints [OF assms(1) _ assms(2,3)] unfolding assms(4) by blast
  from json_write [OF this _ assms(5)] assms(3) show ?thesis by simp
qed

theorem Json_writes_text_witness:
  "\<exists>ch sz'. serialize_call (example_env True) (json_formats (example_env True)) (TypeFn [112, 0] [80, 0] [example_number, example_pair])
       (json_object SERIALIZE_MODE_WRITE False 1 4 False UserStream Null ch) = Ok ([[214, 255, 255, 255], [5, 0, 7, 1]], sz') \<and>
     mf_bytes (mem_view (sz_channel sz')) =
       [44, 10, 32, 32, 32, 32, 34, 112, 34, 58, 32, 123, 10, 32, 32, 32, 32, 32, 32, 34, 120, 34, 58, 32, 45, 52, 50, 44, 10, 32, 32, 32, 32, 32, 32, 34, 121, 34, 58, 32, 91, 53, 44, 32, 50, 54, 51, 10, 32, 32, 32, 32, 32, 32, 93, 10, 32, 32, 32, 32, 125]"
proof -
  obtain ch0 :: mem_channel and mem where i: "IOChannel_init IOChannel_zero 20 = Ok (True, ch0, mem)" "fresh_channel ch0" "20 = mem + 8"
    using IOChannel_init_ok [of 20] by auto
  then obtain ch where ch: "mem_inv ch" "mem_view ch = \<lparr>mf_bytes = replicate 61 0, mf_pos = 0, mf_ungot = [],
      mf_room = 1024, mf_eof = False, mf_last = 0\<rparr>"
    using IOChannelMem_open_file [of ch0 "replicate 61 0" mem] by auto
  let ?V = "example_env True" and ?q = "TypeFn [112, 0] [80, 0] [example_number, example_pair]"
  let ?T = "[44, 10, 32, 32, 32, 32, 34, 112, 34, 58, 32, 123, 10, 32, 32, 32, 32, 32, 32, 34, 120, 34, 58, 32, 45, 52, 50, 44, 10, 32, 32, 32, 32, 32, 32, 34, 121, 34, 58, 32, 91, 53, 44, 32, 50, 54, 51, 10, 32, 32, 32, 32, 32, 32, 93, 10, 32, 32, 32, 32, 125] :: byte list"
  have q: "text_prog ?V ?q" by (simp add: example_values text_name_def c_string_def)
  have T: "?T = (if False then [] else [44, 10]) @ json_text ?V 0 ?q False 4"
    by (simp add: example_values quoted_name_def example_spaces)
  have w: "json_writer ?V (json_formats ?V) 0 False 1 (json_in 4 False False) (length ?T + 0)
      (json_object SERIALIZE_MODE_WRITE False 1 4 False UserStream Null ch)"
    by (subst json_object_ok) (simp_all add: ch)
  from Json_writes_text [OF q _ _ T w] obtain sz' where "serialize_call ?V (json_formats ?V) ?q
      (json_object SERIALIZE_MODE_WRITE False 1 4 False UserStream Null ch) = Ok (values_of ?q, sz')"
    "mem_view (sz_channel sz') = mf_put ?T (mem_view (sz_channel (json_object SERIALIZE_MODE_WRITE False 1 4 False UserStream Null ch)))"
    by auto
  then show ?thesis
    using ch(2) by (intro exI [of _ ch] exI [of _ sz']) (simp add: example_values_of values_of_simps json_object_def format_object_def mf_put_def)
qed

text \<open>A whole document: the function of an outermost type, while formats are being translated, writes the text with its outer
  braces and leaves the format as it was before, so that the next object starts afresh.\<close>

theorem Json_writes_document:
  assumes "text_prog V (TypeFn name type body)"
    and "json_writer V F w True 0 (json_in 0 True False) (length (json_document V w name body) + n) sz"
  shows "\<exists>sz'. serialize_call V F (TypeFn name type body) sz = Ok (concat (map values_of body), sz') \<and>
    json_writer V F w True 0 (json_in 0 True False) n sz' \<and>
    mem_view (sz_channel sz') = mf_put (json_document V w name body) (mem_view (sz_channel sz))"
proof -
  have "prog_text (json_machine V SERIALIZE_MODE_WRITE w) (TypeFn name type body) 0 (json_in 0 True False) =
      Some (json_document V w name body, concat (map values_of body), json_in 0 True False)"
    using json_machine_document [OF assms(1)] by blast
  from json_write [OF this _ assms(2)] show ?thesis by (simp add: values_of_simps)
qed

theorem Json_writes_document_witness:
  "\<exists>ch sz'. serialize_call (example_env True) (json_formats (example_env True))
       (TypeFn [112, 0] [80, 0] [StructArray [97, 0] [81, 0] 2 [TypeFn [113, 0] [81, 0] [example_string], TypeFn [113, 0] [81, 0] [example_number]]])
       (json_object SERIALIZE_MODE_WRITE True 0 0 True UserStream Null ch) = Ok ([[72, 34, 0], [214, 255, 255, 255]], sz') \<and>
     mf_bytes (mem_view (sz_channel sz')) =
       [123, 10, 32, 32, 34, 112, 34, 58, 32, 123, 10, 32, 32, 32, 32, 34, 97, 34, 58, 32, 91, 10, 32, 32, 32, 32, 123, 10, 32, 32, 32, 32, 32, 32, 34, 115, 34, 58, 32, 34, 72, 92, 34, 34, 10, 32, 32, 32, 32, 125, 44, 10, 32, 32, 32, 32, 123, 10, 32, 32, 32, 32, 32, 32, 34, 120, 34, 58, 32, 45, 52, 50, 10, 32, 32, 32, 32, 125, 10, 32, 32, 32, 32, 93, 10, 32, 32, 125, 10, 125, 10]"
proof -
  obtain ch0 :: mem_channel and mem where i: "IOChannel_init IOChannel_zero 20 = Ok (True, ch0, mem)" "fresh_channel ch0" "20 = mem + 8"
    using IOChannel_init_ok [of 20] by auto
  then obtain ch where ch: "mem_inv ch" "mem_view ch = \<lparr>mf_bytes = replicate 91 0, mf_pos = 0, mf_ungot = [],
      mf_room = 1024, mf_eof = False, mf_last = 0\<rparr>"
    using IOChannelMem_open_file [of ch0 "replicate 91 0" mem] by auto
  let ?V = "example_env True"
    and ?body = "[StructArray [97, 0] [81, 0] 2 [TypeFn [113, 0] [81, 0] [example_string], TypeFn [113, 0] [81, 0] [example_number]]]"
  let ?T = "[123, 10, 32, 32, 34, 112, 34, 58, 32, 123, 10, 32, 32, 32, 32, 34, 97, 34, 58, 32, 91, 10, 32, 32, 32, 32, 123, 10, 32, 32, 32, 32, 32, 32, 34, 115, 34, 58, 32, 34, 72, 92, 34, 34, 10, 32, 32, 32, 32, 125, 44, 10, 32, 32, 32, 32, 123, 10, 32, 32, 32, 32, 32, 32, 34, 120, 34, 58, 32, 45, 52, 50, 10, 32, 32, 32, 32, 125, 10, 32, 32, 32, 32, 93, 10, 32, 32, 125, 10, 125, 10] :: byte list"
  have q: "text_prog ?V (TypeFn [112, 0] [80, 0] ?body)" by (simp add: example_values text_name_def c_string_def)
  have T: "json_document ?V 0 [112, 0] ?body = ?T"
    by (simp add: json_document_def example_values quoted_name_def example_spaces)
  have w: "json_writer ?V (json_formats ?V) 0 True 0 (json_in 0 True False) (length (json_document ?V 0 [112, 0] ?body) + 0)
      (json_object SERIALIZE_MODE_WRITE True 0 0 True UserStream Null ch)"
    unfolding T by (subst json_object_ok) (simp_all add: ch)
  from Json_writes_document [OF q w] obtain sz' where "serialize_call ?V (json_formats ?V) (TypeFn [112, 0] [80, 0] ?body)
      (json_object SERIALIZE_MODE_WRITE True 0 0 True UserStream Null ch) = Ok (concat (map values_of ?body), sz')"
    "mem_view (sz_channel sz') = mf_put ?T (mem_view (sz_channel (json_object SERIALIZE_MODE_WRITE True 0 0 True UserStream Null ch)))"
    unfolding T by blast
  then show ?thesis
    using ch(2) by (intro exI [of _ ch] exI [of _ sz']) (simp add: example_values_of values_of_simps json_object_def format_object_def mf_put_def)
qed

text \<open>C34: Measuring a function without arrays of values advances the measuring stream by exactly the number of bytes that
  the same function writes, and a memory with that many bytes left takes its text.\<close>

theorem Json_measures_text:
  assumes "text_prog V q" and "no_arrays q" and "4 \<le> i" and "1 \<le> k" and "json_measurer V F w t k (json_in i f False) pos sz"
  shows "\<exists>n sz'. serialize_call V F q sz = Ok (values_of q, sz') \<and> json_measurer V F w t k (json_in i False False) (pos + int n) sz' \<and>
    (\<forall>F2 t2 sz2. json_writer V F2 w t2 k (json_in i f False) n sz2 \<longrightarrow>
      (\<exists>sz2'. serialize_call V F2 q sz2 = Ok (values_of q, sz2') \<and>
        mf_pos (mem_view (sz_channel sz2')) = mf_pos (mem_view (sz_channel sz2)) + n))"
proof -
  let ?T = "(if f then [] else [44, 10]) @ json_text V w q False i"
  have p: "prog_text (json_machine V m w) q k (json_in i f False) = Some (?T, values_of q, json_in i False False)" for m
    using json_machine_prints [OF assms(1) _ assms(3,4)] assms(2) by blast
  from json_measure [OF p _ assms(5)] assms(4) obtain sz' where
    m: "serialize_call V F q sz = Ok (values_of q, sz')" "json_measurer V F w t k (json_in i False False) (pos + int (length ?T)) sz'"
    by auto
  have w: "\<exists>sz2'. serialize_call V F2 q sz2 = Ok (values_of q, sz2') \<and>
      mf_pos (mem_view (sz_channel sz2')) = mf_pos (mem_view (sz_channel sz2)) + length ?T"
    if "json_writer V F2 w t2 k (json_in i f False) (length ?T) sz2" for F2 t2 sz2
    using json_write [OF p, of t2 F2 0 sz2] that assms(4) by (auto simp: mf_put_def)
  show ?thesis by (rule exI [of _ "length ?T"], rule exI [of _ sz']) (use m w in blast)
qed

theorem Json_measures_text_witness:
  "\<exists>m ch sz' sz2'. serialize_call (example_env True) (json_formats (example_env True)) (TypeFn [112, 0] [80, 0] [example_string, example_number])
       (json_object SERIALIZE_MODE_CALC False 1 4 False CalcStream (Own m) ch) = Ok ([[72, 34, 0], [214, 255, 255, 255]], sz') \<and>
     json_measurer (example_env True) (json_formats (example_env True)) 0 False 1 (json_in 4 False False) 51 sz' \<and>
     serialize_call (example_env True) (json_formats (example_env True)) (TypeFn [112, 0] [80, 0] [example_string, example_number])
       (json_object SERIALIZE_MODE_WRITE False 1 4 False UserStream Null ch) = Ok ([[72, 34, 0], [214, 255, 255, 255]], sz2') \<and>
     mf_pos (mem_view (sz_channel sz2')) = 51 \<and> length (mf_bytes (mem_view ch)) = 51"
proof -
  obtain m0 :: calc_channel and mem where i: "IOChannel_init IOChannel_zero 9 = Ok (True, m0, mem)" "fresh_channel m0" "9 = mem + 8"
    using IOChannel_init_ok [of 9] by auto
  then obtain m where m: "writing m" "calc_can m" "ch_currentIndexPosition m = 0"
    using IOChannelCalc_open_ok [of m0 mem] by (auto simp: calc_can_def writing_def)
  obtain ch0 :: mem_channel and mem where i: "IOChannel_init IOChannel_zero 20 = Ok (True, ch0, mem)" "fresh_channel ch0" "20 = mem + 8"
    using IOChannel_init_ok [of 20] by auto
  then obtain ch where ch: "mem_inv ch" "mem_view ch = \<lparr>mf_bytes = replicate 51 0, mf_pos = 0, mf_ungot = [],
      mf_room = 1024, mf_eof = False, mf_last = 0\<rparr>"
    using IOChannelMem_open_file [of ch0 "replicate 51 0" mem] by auto
  let ?V = "example_env True" and ?q = "TypeFn [112, 0] [80, 0] [example_string, example_number]"
  have q: "text_prog ?V ?q" by (simp add: example_values text_name_def c_string_def)
  have a: "no_arrays ?q" by (simp add: no_arrays_simps example_string_def example_number_def SERIALIZE_IS_ARRAY_ELEMENT_def)
  have v: "values_of ?q = [[72, 34, 0], [214, 255, 255, 255]]" by (simp add: example_values_of values_of_simps)
  have l: "length ((if False then [] else [44, 10]) @ json_text ?V 0 ?q False 4) = 51"
    by (simp add: example_values quoted_name_def spaces_text_def)
  have c: "json_measurer ?V (json_formats ?V) 0 False 1 (json_in 4 False False) 0 (json_object SERIALIZE_MODE_CALC False 1 4 False CalcStream (Own m) ch)"
    by (rule json_object_ok(2)) (simp_all add: m)
  from Json_measures_text [OF q a _ _ c] obtain n sz' where r: "serialize_call ?V (json_formats ?V) ?q
      (json_object SERIALIZE_MODE_CALC False 1 4 False CalcStream (Own m) ch) = Ok (values_of ?q, sz')"
    "json_measurer ?V (json_formats ?V) 0 False 1 (json_in 4 False False) (int n) sz'"
    and w: "\<And>F2 t2 sz2. json_writer ?V F2 0 t2 1 (json_in 4 False False) n sz2 \<Longrightarrow>
      \<exists>sz2'. serialize_call ?V F2 ?q sz2 = Ok (values_of ?q, sz2') \<and> mf_pos (mem_view (sz_channel sz2')) = mf_pos (mem_view (sz_channel sz2)) + n"
    by auto
  have "prog_text (json_machine ?V SERIALIZE_MODE_CALC 0) ?q 1 (json_in 4 False False) =
      Some ((if False then [] else [44, 10]) @ json_text ?V 0 ?q False 4, values_of ?q, json_in 4 False False)"
    using json_machine_prints [OF q, of SERIALIZE_MODE_CALC 4 1 0] a by auto
  from json_measure [OF this _ c] r have n: "n = 51" unfolding l by (auto simp: json_measurer_def text_measurer_def)
  have "json_writer ?V (json_formats ?V) 0 False 1 (json_in 4 False False) n (json_object SERIALIZE_MODE_WRITE False 1 4 False UserStream Null ch)"
    by (subst json_object_ok) (simp_all add: ch n)
  from w [OF this] obtain sz2' where "serialize_call ?V (json_formats ?V) ?q (json_object SERIALIZE_MODE_WRITE False 1 4 False UserStream Null ch) =
      Ok (values_of ?q, sz2')" "mf_pos (mem_view (sz_channel sz2')) = 51" by (auto simp: n json_object_def format_object_def ch)
  with r ch(2) show ?thesis unfolding n v
    by - (rule exI [of _ m], rule exI [of _ ch], rule exI [of _ sz'], rule exI [of _ sz2'], simp)
qed

end
