(* ===== verification/Ser_Xml.thy ===== *)
theory Ser_Xml
  imports Ser_Text
begin

text \<open>
  The Xml format (src/src/SerializeFormats.c). Its data hold whether the last type that began is a base type: then
  the name of a field is not compared when it is read. Strings are written character by character with the predefined
  entities for the five characters that have one.
\<close>

subsection \<open>The data of the format\<close>

text \<open>The pointer to the data is used without a check.\<close>

definition xml_data :: "'s Serialize \<Rightarrow> (bool \<Rightarrow> 'b outcome) \<Rightarrow> 'b outcome" where
  "xml_data sz k = obind (Serialize_getFormatDataPtr sz) (\<lambda>p. deref p (\<lambda>d.
     case d of SerializeFormatXmlOptions b \<Rightarrow> k b | _ \<Rightarrow> Fault))"

definition set_xml_data :: "bool \<Rightarrow> 's Serialize \<Rightarrow> 's Serialize outcome" where
  "set_xml_data b sz = xml_data sz (\<lambda>_.
     obind (hupd (sz_infos sz) (sz_format sz) (\<lambda>info. info\<lparr>fi_data := Own (SerializeFormatXmlOptions b)\<rparr>)) (\<lambda>infos.
     Ok (sz\<lparr>sz_infos := infos\<rparr>)))"

definition SerializeFormatXml_getTypeInfo :: "SerializeType \<Rightarrow> (string \<times> string) outcome" where
  "SerializeFormatXml_getTypeInfo t = (case t of
     SERIALIZE_TYPE_CHAR \<Rightarrow> Ok (''%d'', ''char'') | SERIALIZE_TYPE_CHARARRAY \<Rightarrow> Ok (''%d'', ''char'')
   | SERIALIZE_TYPE_SCHAR \<Rightarrow> Ok (''%d'', ''signed char'') | SERIALIZE_TYPE_SCHARARRAY \<Rightarrow> Ok (''%d'', ''signed char'')
   | SERIALIZE_TYPE_UCHAR \<Rightarrow> Ok (''%u'', ''unsigned char'') | SERIALIZE_TYPE_UCHARARRAY \<Rightarrow> Ok (''%u'', ''unsigned char'')
   | SERIALIZE_TYPE_SINT \<Rightarrow> Ok (''%hd'', ''short int'') | SERIALIZE_TYPE_SINTARRAY \<Rightarrow> Ok (''%hd'', ''short int'')
   | SERIALIZE_TYPE_USINT \<Rightarrow> Ok (''%hu'', ''unsigned short int'') | SERIALIZE_TYPE_USINTARRAY \<Rightarrow> Ok (''%hu'', ''unsigned short int'')
   | SERIALIZE_TYPE_INT \<Rightarrow> Ok (''%d'', ''int'') | SERIALIZE_TYPE_INTARRAY \<Rightarrow> Ok (''%d'', ''int'')
   | SERIALIZE_TYPE_UINT \<Rightarrow> Ok (''%u'', ''unsigned int'') | SERIALIZE_TYPE_UINTARRAY \<Rightarrow> Ok (''%u'', ''unsigned int'')
   | SERIALIZE_TYPE_LINT \<Rightarrow> Ok (''%ld'', ''long int'') | SERIALIZE_TYPE_LINTARRAY \<Rightarrow> Ok (''%ld'', ''long int'')
   | SERIALIZE_TYPE_ULINT \<Rightarrow> Ok (''%lu'', ''unsigned long int'') | SERIALIZE_TYPE_ULINTARRAY \<Rightarrow> Ok (''%lu'', ''unsigned long int'')
   | SERIALIZE_TYPE_LL \<Rightarrow> Ok (''%lld'', ''long long int'') | SERIALIZE_TYPE_LLARRAY \<Rightarrow> Ok (''%lld'', ''long long int'')
   | SERIALIZE_TYPE_ULL \<Rightarrow> Ok (''%llu'', ''unsigned long long int'') | SERIALIZE_TYPE_ULLARRAY \<Rightarrow> Ok (''%llu'', ''unsigned long long int'')
   | SERIALIZE_TYPE_FLOAT \<Rightarrow> Ok (''%f'', ''float'') | SERIALIZE_TYPE_FLOATARRAY \<Rightarrow> Ok (''%f'', ''float'')
   | SERIALIZE_TYPE_DOUBLE \<Rightarrow> Ok (''%lf'', ''double'') | SERIALIZE_TYPE_DOUBLEARRAY \<Rightarrow> Ok (''%lf'', ''double'')
   | SERIALIZE_TYPE_LDOUBLE \<Rightarrow> Ok (''%LF'', ''long double'') | SERIALIZE_TYPE_LDOUBLEARRAY \<Rightarrow> Ok (''%LF'', ''long double'')
   | SERIALIZE_TYPE_STRING \<Rightarrow> Ok (''%qs'', ''string'')
   | SERIALIZE_TYPE_OTHER \<Rightarrow> Require)"

text \<open>An attribute, whose text is in quotes.\<close>

definition xml_attribute :: "string \<Rightarrow> string \<Rightarrow> string" where
  "xml_attribute key text = key @ ''='' @ [CHR 0x22] @ text @ [CHR 0x22]"

subsection \<open>Types and arrays\<close>

definition SerializeFormatXml_beginType :: "('s, 'a) ser_env \<Rightarrow> byte list \<Rightarrow> byte list \<Rightarrow> 's Serialize \<Rightarrow> 's Serialize outcome" where
  "SerializeFormatXml_beginType V name type sz =
     obind (set_xml_data (sz_baseTypeEnable sz) sz) (\<lambda>sz. by_mode sz
       (as_text type (\<lambda>type. scan_name V (format_text (SERIALIZE_DATABUFFER_MAXLEN - 27)
          (''<struct '' @ xml_attribute ''type'' type @ '' '' @ xml_attribute ''name'' ''%s'' @ ''> '')) 256 sz))
       (obind (SERIALIZE_INDENT V sz) (\<lambda>sz.
        obind (put_text V (''<struct '' @ xml_attribute ''type'' ''%s'' @ '' '' @ xml_attribute ''name'' ''%s'' @ ''>'' @ [CHR 0x0A])
                 [StrArg type, StrArg name] sz) (\<lambda>sz.
        Ok (SERIALIZE_INDENT_INCR sz))))
       (Ok sz))"

definition SerializeFormatXml_beginBaseType :: "byte list \<Rightarrow> byte list \<Rightarrow> 's Serialize \<Rightarrow> 's Serialize outcome" where
  "SerializeFormatXml_beginBaseType name type sz = set_xml_data (sz_baseTypeEnable sz) sz"

definition SerializeFormatXml_getAllowedModes :: "'s Serialize \<Rightarrow> uint32 outcome" where
  "SerializeFormatXml_getAllowedModes sz = Ok SERIALIZE_MODE_CALC"

definition xml_array_text :: "string \<Rightarrow> string \<Rightarrow> int \<Rightarrow> string" where
  "xml_array_text typeTag name len =
     ''<array '' @ xml_attribute ''type'' typeTag @ '' '' @ xml_attribute ''name'' name @ '' '' @ xml_attribute ''size'' (decimal_text len) @ ''> ''"

definition SerializeFormatXml_beginArray :: "('s, 'a) ser_env \<Rightarrow> SerializeType \<Rightarrow> byte list \<Rightarrow> int \<Rightarrow> 's Serialize \<Rightarrow> 's Serialize outcome" where
  "SerializeFormatXml_beginArray V type arrayName arrayLen sz =
     obind (SerializeFormatXml_getTypeInfo type) (\<lambda>(spec, typeTag). by_mode sz
       (as_text arrayName (\<lambda>name.
        match_text V (format_text (SERIALIZE_DATABUFFER_MAXLEN - 33) (xml_array_text typeTag name arrayLen)) sz))
       (obind (SERIALIZE_INDENT V sz) (\<lambda>sz.
        obind (put_text V (''<array '' @ xml_attribute ''type'' ''%s'' @ '' '' @ xml_attribute ''name'' ''%s'' @ '' size='' @ [CHR 0x22])
                 [StrArg (cstr typeTag), StrArg arrayName] sz) (\<lambda>sz.
        obind (deploy_int V arrayLen sz) (\<lambda>sz.
        obind (put_text V ([CHR 0x22] @ ''>'' @ [CHR 0x0A]) [] sz) (\<lambda>sz.
        Ok (SERIALIZE_INDENT_INCR sz))))))
       (Ok sz))"

text \<open>The text with the names is the format here.\<close>

definition SerializeFormatXml_beginStructArray :: "('s, 'a) ser_env \<Rightarrow> byte list \<Rightarrow> byte list \<Rightarrow> int \<Rightarrow> 's Serialize \<Rightarrow>
    's Serialize outcome" where
  "SerializeFormatXml_beginStructArray V arrayName elementType arrayLen sz = by_mode sz
     (as_text elementType (\<lambda>type. as_text arrayName (\<lambda>name.
      match_text V (format_text (SERIALIZE_DATABUFFER_MAXLEN - 33) (xml_array_text type name arrayLen)) sz)))
     (obind (SERIALIZE_INDENT V sz) (\<lambda>sz.
      as_text elementType (\<lambda>type. as_text arrayName (\<lambda>name.
      obind (put_text V (format_text (SERIALIZE_DATABUFFER_MAXLEN - 30)
               (''<array '' @ xml_attribute ''type'' type @ '' '' @ xml_attribute ''name'' name @ '' size='' @ [CHR 0x22])) [] sz) (\<lambda>sz.
      obind (deploy_int V arrayLen sz) (\<lambda>sz.
      obind (put_text V ([CHR 0x22] @ ''>'' @ [CHR 0x0A]) [] sz) (\<lambda>sz.
      Ok (SERIALIZE_INDENT_INCR sz))))))))
     (Ok sz)"

definition SerializeFormatXml_beginStructArraySeparator :: "('s, 'a) ser_env \<Rightarrow> byte list \<Rightarrow> int \<Rightarrow> int \<Rightarrow> 's Serialize \<Rightarrow>
    's Serialize outcome" where
  "SerializeFormatXml_beginStructArraySeparator V name pos len sz = by_mode sz
     (match_text V (''<element '' @ xml_attribute ''index'' (decimal_text pos) @ ''> '') sz)
     (obind (SERIALIZE_INDENT V sz) (\<lambda>sz.
      obind (put_text V (''<element index='' @ [CHR 0x22]) [] sz) (\<lambda>sz.
      obind (deploy_int V pos sz) (\<lambda>sz.
      obind (put_text V ([CHR 0x22] @ ''>'' @ [CHR 0x0A]) [] sz) (\<lambda>sz.
      Ok (SERIALIZE_INDENT_INCR sz))))))
     (Ok sz)"

text \<open>An end tag.\<close>

definition xml_end :: "('s, 'a) ser_env \<Rightarrow> string \<Rightarrow> string \<Rightarrow> 's Serialize \<Rightarrow> 's Serialize outcome" where
  "xml_end V tag blank sz = by_mode sz
     (match_text V (''</'' @ tag @ ''>'' @ blank) sz)
     (obind (SERIALIZE_INDENT V (SERIALIZE_INDENT_DECR sz)) (put_text V (''</'' @ tag @ ''>'' @ [CHR 0x0A]) []))
     (Ok sz)"

definition SerializeFormatXml_endStructArraySeparator :: "('s, 'a) ser_env \<Rightarrow> byte list \<Rightarrow> int \<Rightarrow> int \<Rightarrow> 's Serialize \<Rightarrow>
    's Serialize outcome" where
  "SerializeFormatXml_endStructArraySeparator V name pos len sz = xml_end V ''element'' '' '' sz"

definition SerializeFormatXml_endStructArray :: "('s, 'a) ser_env \<Rightarrow> 's Serialize \<Rightarrow> 's Serialize outcome" where
  "SerializeFormatXml_endStructArray V sz = xml_end V ''array'' '' '' sz"

definition SerializeFormatXml_endArray :: "('s, 'a) ser_env \<Rightarrow> SerializeType \<Rightarrow> byte list \<Rightarrow> int \<Rightarrow> 's Serialize \<Rightarrow> 's Serialize outcome" where
  "SerializeFormatXml_endArray V type arrayName arrayLen sz = xml_end V ''array'' '' '' sz"

definition SerializeFormatXml_endBaseType :: "'s Serialize \<Rightarrow> 's Serialize outcome" where
  "SerializeFormatXml_endBaseType sz = Ok sz"

definition SerializeFormatXml_endType :: "('s, 'a) ser_env \<Rightarrow> 's Serialize \<Rightarrow> 's Serialize outcome" where
  "SerializeFormatXml_endType V sz =
     obind (xml_end V ''struct'' [CHR 0x0A] sz) (\<lambda>sz. set_xml_data (sz_baseTypeEnable sz) sz)"

subsection \<open>Strings\<close>

text \<open>The texts of the entities, the printed number of characters is compared with their length.\<close>

definition xml_entity :: "byte \<Rightarrow> string option" where
  "xml_entity c =
     (if c = 34 then Some ''&quot;'' else if c = 39 then Some ''&apos;'' else if c = 60 then Some ''&lt;''
      else if c = 62 then Some ''&gt;'' else if c = 38 then Some ''&amp;'' else None)"

text \<open>One character, the terminator of an empty string apart.\<close>

definition xml_put_char :: "('s, 'a) ser_env \<Rightarrow> byte \<Rightarrow> 's Serialize \<Rightarrow> (bool \<times> 's Serialize) outcome" where
  "xml_put_char V c sz = (case xml_entity c of
     Some e \<Rightarrow> omap (\<lambda>(r, sz). (r = int (length e), sz)) (stream_printf V e [] sz)
   | None \<Rightarrow> omap (\<lambda>(r, sz). (r = 1, sz)) (stream_printf V ''%c'' [CharArg c] sz))"

fun SerializeFormatXml_doSerializeStringCharEscaping :: "('s, 'a) ser_env \<Rightarrow> byte list \<Rightarrow> 's Serialize \<Rightarrow> (bool \<times> 's Serialize) outcome" where
  "SerializeFormatXml_doSerializeStringCharEscaping V [] sz = Fault"
| "SerializeFormatXml_doSerializeStringCharEscaping V (c # cs) sz =
     (if c = 0 then omap (\<lambda>(r, sz). (r \<noteq> -1, sz)) (stream_printf V '''' [] sz)
      else obind (xml_put_char V c sz) (\<lambda>(ok, sz).
        if \<not> ok then Ok (False, sz)
        else (case cs of [] \<Rightarrow> Fault
          | d # _ \<Rightarrow> if d = 0 then Ok (True, sz) else SerializeFormatXml_doSerializeStringCharEscaping V cs sz)))"

text \<open>\<open>n\<close> bytes are read for \<open>k\<close>; when fewer come, nothing more is done.\<close>

definition read_chars :: "('s, 'a) ser_env \<Rightarrow> int \<Rightarrow> 'd \<Rightarrow> 's Serialize \<Rightarrow> (byte list \<Rightarrow> 's Serialize \<Rightarrow> ((bool \<times> 'd) \<times> 's Serialize) outcome) \<Rightarrow>
    ((bool \<times> 'd) \<times> 's Serialize) outcome" where
  "read_chars V n d sz k = obind (stream_read V n sz) (\<lambda>((r, bs), sz). if r \<noteq> n then Ok ((False, d), sz) else k bs sz)"

definition put_char :: "byte \<Rightarrow> nat \<times> byte list \<Rightarrow> (nat \<times> byte list \<Rightarrow> 'b outcome) \<Rightarrow> 'b outcome" where
  "put_char c d k = (case d of (pos, mem) \<Rightarrow> defined_if (pos < length mem) (k (pos + 1, mem[pos := c])))"

text \<open>What is behind an ampersand. The switch over the character behind \<^verbatim>\<open>&a\<close> has no default: then nothing is stored.\<close>

definition xml_unescape_entity :: "('s, 'a) ser_env \<Rightarrow> nat \<times> byte list \<Rightarrow> 's Serialize \<Rightarrow>
    (nat \<times> byte list \<Rightarrow> 's Serialize \<Rightarrow> ((bool \<times> nat \<times> byte list) \<times> 's Serialize) outcome) \<Rightarrow>
    ((bool \<times> nat \<times> byte list) \<times> 's Serialize) outcome" where
  "xml_unescape_entity V d sz next =
     (let expect = (\<lambda>text c sz. read_chars V (int (length text)) d sz (\<lambda>bs sz.
            if bs = ascii text then put_char c d (\<lambda>d. next d sz) else Ok ((False, d), sz))) in
      read_chars V 1 d sz (\<lambda>v sz. let c = hd v in
      if c = 113 then expect ''uot;'' 34 sz
      else if c = 108 then expect ''t;'' 60 sz
      else if c = 103 then expect ''t;'' 62 sz
      else if c = 97 then read_chars V 1 d sz (\<lambda>v sz. let c = hd v in
        if c = 112 then expect ''os;'' 39 sz else if c = 109 then expect ''p;'' 38 sz else next d sz)
      else Ok ((False, d), sz)))"

text \<open>\<open>c\<close> is the character that has been read, \<open>d\<close> the place in the destination. Every turn reads at least one character.\<close>

fun xml_unescape_loop :: "nat \<Rightarrow> ('s, 'a) ser_env \<Rightarrow> byte \<Rightarrow> nat \<times> byte list \<Rightarrow> 's Serialize \<Rightarrow> ((bool \<times> nat \<times> byte list) \<times> 's Serialize) outcome" where
  "xml_unescape_loop 0 V c d sz = Stuck"
| "xml_unescape_loop (Suc n) V c d sz =
     (let next = (\<lambda>d sz. read_chars V 1 d sz (\<lambda>v sz. xml_unescape_loop n V (hd v) d sz)) in
      if c = 60 then put_char 0 d (\<lambda>d'. Ok ((True, d'), sz))
      else if c = 38 then xml_unescape_entity V d sz next
      else put_char c d (\<lambda>d. next d sz))"

definition SerializeFormatXml_doSerializeStringCharUnescaping :: "('s, 'a) ser_env \<Rightarrow> byte list \<Rightarrow> 's Serialize \<Rightarrow>
    ((bool \<times> byte list) \<times> 's Serialize) outcome" where
  "SerializeFormatXml_doSerializeStringCharUnescaping V destination sz =
     omap (\<lambda>((ok, _, mem), sz). ((ok, mem), sz))
       (read_chars V 1 (0, destination) sz (\<lambda>v sz. xml_unescape_loop (se_rounds V) V (hd v) (0, destination) sz))"

subsection \<open>Values\<close>

text \<open>Two objects are read: the name of the field, which is dropped, and the value.\<close>

definition scan_named_value :: "('s, 'a) ser_env \<Rightarrow> string \<Rightarrow> string \<Rightarrow> nat \<Rightarrow> byte list \<Rightarrow> 's Serialize \<Rightarrow> (byte list \<times> 's Serialize) outcome" where
  "scan_named_value V fmt spec k val sz =
     obind (load_arg (se_isLittleEndian V) spec val) (\<lambda>arg.
     omap (\<lambda>((n, args), sz). (store_arg (se_isLittleEndian V) (drop 1 args) val, sz)) (Serialize_scanf V fmt [StrArg (replicate k 0), arg] sz))"

definition SerializeFormatXml_doSerializeField :: "('s, 'a) ser_env \<Rightarrow> SerializeType \<Rightarrow> byte list \<Rightarrow> int \<Rightarrow> byte list \<Rightarrow> 's Serialize \<Rightarrow>
    (byte list \<times> 's Serialize) outcome" where
  "SerializeFormatXml_doSerializeField V type name n val sz =
     obind (SerializeFormatXml_getTypeInfo type) (\<lambda>(spec, typeTag).
     obind (Serialize_getFormatDataPtr sz) (\<lambda>_. by_mode sz
       (xml_data sz (\<lambda>baseType.
        if baseType
        then scan_named_value V (format_text (SERIALIZE_DATABUFFER_MAXLEN - 34)
               (''<field '' @ xml_attribute ''type'' typeTag @ '' '' @ xml_attribute ''name'' ''%s'' @ ''>'' @ spec @ ''</field> '')) spec 256 val sz
        else as_text name (\<lambda>name. scan_value V (format_text (SERIALIZE_DATABUFFER_MAXLEN - 33)
               (''<field '' @ xml_attribute ''type'' typeTag @ '' '' @ xml_attribute ''name'' name @ ''>'' @ spec @ ''</field> '')) spec val sz)))
       (obind (SERIALIZE_INDENT V sz) (\<lambda>sz.
        obind (put_text V (''<field '' @ xml_attribute ''type'' ''%s'' @ '' '' @ xml_attribute ''name'' ''%s'' @ ''>'')
                 [StrArg (cstr typeTag), StrArg name] sz) (\<lambda>sz.
        obind (deploy_text V type spec val sz) (\<lambda>sz.
        obind (put_text V (''</field>'' @ [CHR 0x0A]) [] sz) (\<lambda>sz.
        Ok (val, sz))))))
       (Ok (val, sz))))"

text \<open>What the conversion of the string reports is not looked at. The name is handed over as an argument, too.\<close>

definition SerializeFormatXml_doSerializeString :: "('s, 'a) ser_env \<Rightarrow> SerializeType \<Rightarrow> byte list \<Rightarrow> int \<Rightarrow> int \<Rightarrow> byte list \<Rightarrow>
    's Serialize \<Rightarrow> (byte list \<times> 's Serialize) outcome" where
  "SerializeFormatXml_doSerializeString V type name n len val sz = by_mode sz
     (as_text name (\<lambda>text.
      obind (omap snd (Serialize_scanf V (format_text (SERIALIZE_DATABUFFER_MAXLEN - 30)
               (''<field '' @ xml_attribute ''type'' ''string'' @ '' '' @ xml_attribute ''name'' text @ ''>'')) [StrArg name] sz)) (\<lambda>sz.
      obind (SerializeFormatXml_doSerializeStringCharUnescaping V val sz) (\<lambda>((_, val), sz).
      omap (Pair val) (match_text V ''/field>'' sz)))))
     (obind (SERIALIZE_INDENT V sz) (\<lambda>sz.
      obind (put_text V (''<field '' @ xml_attribute ''type'' ''string'' @ '' '' @ xml_attribute ''name'' ''%s'' @ ''>'') [StrArg name] sz) (\<lambda>sz.
      obind (SerializeFormatXml_doSerializeStringCharEscaping V val sz) (\<lambda>(_, sz).
      obind (put_text V (''</field>'' @ [CHR 0x0A]) [StrArg name] sz) (\<lambda>sz.
      Ok (val, sz))))))
     (Ok (val, sz))"

text \<open>\<open>val\<close> starts at the element.\<close>

definition xml_element :: "('s, 'a) ser_env \<Rightarrow> SerializeType \<Rightarrow> string \<Rightarrow> int \<Rightarrow> byte list \<Rightarrow> 's Serialize \<Rightarrow> (byte list \<times> 's Serialize) outcome" where
  "xml_element V type spec i val sz = by_mode sz
     (scan_value V (format_text (SERIALIZE_DATABUFFER_MAXLEN - 30)
        (''<element '' @ xml_attribute ''index'' (decimal_text i) @ ''>'' @ spec @ ''</element> '')) spec val sz)
     (obind (SERIALIZE_INDENT V sz) (\<lambda>sz.
      obind (put_text V (''<element index='' @ [CHR 0x22]) [] sz) (\<lambda>sz.
      obind (deploy_int V i sz) (\<lambda>sz.
      obind (put_text V ([CHR 0x22] @ ''>'') [] sz) (\<lambda>sz.
      obind (deploy_text V type spec val sz) (\<lambda>sz.
      obind (put_text V (''</element>'' @ [CHR 0x0A]) [] sz) (\<lambda>sz.
      Ok (val, sz))))))))
     (Ok (val, sz))"

definition SerializeFormatXml_doSerializeArrayElement :: "('s, 'a) ser_env \<Rightarrow> SerializeType \<Rightarrow> int \<Rightarrow> int \<Rightarrow> int \<Rightarrow> bool \<Rightarrow> byte list \<Rightarrow>
    's Serialize \<Rightarrow> (byte list \<times> 's Serialize) outcome" where
  "SerializeFormatXml_doSerializeArrayElement V type n len i reIndexOffset val sz =
     obind (SerializeFormatXml_getTypeInfo type) (\<lambda>(spec, typeTag).
     if reIndexOffset then at_element (n * i) (xml_element V type spec i) val sz else xml_element V type spec i val sz)"

definition SerializeFormatXml_doSerializeCharType :: "('s, 'a) ser_env \<Rightarrow> SerializeType \<Rightarrow> byte list \<Rightarrow> int \<Rightarrow> int \<Rightarrow> int \<Rightarrow> byte list \<Rightarrow>
    's Serialize \<Rightarrow> (byte list \<times> 's Serialize) outcome" where
  "SerializeFormatXml_doSerializeCharType V type name n len i val sz = ANY_REQUIRE (n > 0)
     (obind (SerializeFormatXml_getTypeInfo type) (\<lambda>_.
      char_through_int (se_isLittleEndian V) type (n * i)
        (if SERIALIZE_IS_ARRAY_ELEMENT type then SerializeFormatXml_doSerializeArrayElement V type n len i False
         else SerializeFormatXml_doSerializeField V type name n) val sz))"

definition SerializeFormatXml_doSerialize :: "('s, 'a) ser_env \<Rightarrow> SerializeType \<Rightarrow> byte list \<Rightarrow> byte list \<Rightarrow> int \<Rightarrow> int \<Rightarrow>
    's Serialize \<Rightarrow> (byte list \<times> 's Serialize) outcome" where
  "SerializeFormatXml_doSerialize V type name val n len sz =
     (if is_char_type type
      then for_elements (SerializeFormatXml_doSerializeCharType V type name n len) (nat len) 0 val sz
      else if type = SERIALIZE_TYPE_STRING then SerializeFormatXml_doSerializeString V type name n len val sz
      else if \<not> SERIALIZE_IS_ARRAY_ELEMENT type then SerializeFormatXml_doSerializeField V type name n val sz
      else for_elements (\<lambda>i. SerializeFormatXml_doSerializeArrayElement V type n len i True) (nat len) 0 val sz)"

subsection \<open>Setting the options\<close>

definition SerializeFormatXmlOptions_new :: "nat \<Rightarrow> (format_data owned \<times> nat) outcome" where
  "SerializeFormatXmlOptions_new mem =
     (let (p, mem) = ANY_TALLOC (SerializeFormatXmlOptions False) mem in ANY_REQUIRE (p \<noteq> Null) (Ok (p, mem)))"

definition SerializeFormatXmlOptions_init :: "'s Serialize \<Rightarrow> 's Serialize outcome" where
  "SerializeFormatXmlOptions_init sz =
     obind (Serialize_getFormatDataPtr sz) (\<lambda>data. ANY_REQUIRE (data \<noteq> Null) (set_xml_data False sz))"

definition SerializeFormatXmlOptions_set :: "byte list option \<Rightarrow> 's Serialize \<Rightarrow> 's Serialize outcome" where
  "SerializeFormatXmlOptions_set optionsString sz = Ok sz"

definition SerializeFormatXmlOptions_setProperty :: "byte list \<Rightarrow> nat \<Rightarrow> 's Serialize \<Rightarrow> (bool \<times> 's Serialize) outcome" where
  "SerializeFormatXmlOptions_setProperty propertyName propertyValue sz = Ok (False, sz)"

definition SerializeFormatXmlOptions_getProperty :: "byte list \<Rightarrow> 's Serialize \<Rightarrow> nat outcome" where
  "SerializeFormatXmlOptions_getProperty propertyName sz = Ok 0"

definition SerializeFormatXmlOptions_clear :: "'s Serialize \<Rightarrow> 's Serialize outcome" where
  "SerializeFormatXmlOptions_clear sz = Ok sz"

definition SerializeFormatXmlOptions_delete :: "'s Serialize \<Rightarrow> 's Serialize outcome" where
  "SerializeFormatXmlOptions_delete sz =
     obind (Serialize_getFormatDataPtr sz) (\<lambda>data. ANY_REQUIRE (data \<noteq> Null)
       (obind (ANY_FREE data) (\<lambda>p.
        obind (hupd (sz_infos sz) (sz_format sz) (\<lambda>info. info\<lparr>fi_data := p\<rparr>)) (\<lambda>infos. Ok (sz\<lparr>sz_infos := infos\<rparr>)))))"

definition SerializeFormatXmlOps :: "('s, 'a) ser_env \<Rightarrow> 's SerializeFormat" where
  "SerializeFormatXmlOps V = \<lparr>
     formatName = cstr ''Xml'',
     indirectBeginType = SerializeFormatXml_beginType V,
     indirectBeginBaseType = SerializeFormatXml_beginBaseType,
     indirectBeginArray = SerializeFormatXml_beginArray V,
     indirectBeginStructArray = SerializeFormatXml_beginStructArray V,
     indirectBeginStructArraySeparator = SerializeFormatXml_beginStructArraySeparator V,
     indirectDoSerialize = SerializeFormatXml_doSerialize V,
     indirectEndStructArraySeparator = SerializeFormatXml_endStructArraySeparator V,
     indirectEndStructArray = SerializeFormatXml_endStructArray V,
     indirectEndArray = SerializeFormatXml_endArray V,
     indirectEndBaseType = SerializeFormatXml_endBaseType,
     indirectEndType = SerializeFormatXml_endType V,
     indirectGetAllowedModes = SerializeFormatXml_getAllowedModes,
     indirectFormatOptionsNew = SerializeFormatXmlOptions_new,
     indirectFormatOptionsInit = SerializeFormatXmlOptions_init,
     indirectFormatOptionsSet = SerializeFormatXmlOptions_set,
     indirectFormatOptionsSetProperty = SerializeFormatXmlOptions_setProperty,
     indirectFormatOptionsGetProperty = SerializeFormatXmlOptions_getProperty,
     indirectFormatOptionsClear = SerializeFormatXmlOptions_clear,
     indirectFormatOptionsDelete = SerializeFormatXmlOptions_delete\<rparr>"

end
