(* ===== verification/Ser_Xml_Correct.thy ===== *)
theory Ser_Xml_Correct
  imports Ser_Values Ser_Xml
begin

text \<open>
  What the Xml format writes. Against the operations, which keep an indentation, stands a printer without state. Every
  function of the user whose values have a text writes exactly this text into memory, and the measuring stream counts it. The
  characters of a string come out with the predefined entities, and reading them back gives the string.
\<close>

subsection \<open>The text of a function\<close>

definition xml_attr :: "string \<Rightarrow> byte list \<Rightarrow> byte list" where
  "xml_attr key text = ascii key @ [61, 34] @ takeWhile (\<lambda>b. b \<noteq> 0) text @ [34]"

definition xml_number :: "string \<Rightarrow> int \<Rightarrow> byte list" where
  "xml_number key i = ascii key @ [61, 34] @ signed_decimal i @ [34]"

definition xml_byte :: "byte \<Rightarrow> byte list" where
  "xml_byte b = ascii (if b = 34 then ''&quot;'' else if b = 39 then ''&apos;'' else if b = 60 then ''&lt;'' else if b = 62 then ''&gt;''
     else if b = 38 then ''&amp;'' else str_of [b])"

primrec xml_escape :: "byte list \<Rightarrow> byte list" where
  "xml_escape [] = []"
| "xml_escape (b # bs) = xml_byte b @ xml_escape bs"

definition xml_spec :: "SerializeType \<Rightarrow> string" where
  "xml_spec type = (case SerializeFormatXml_getTypeInfo type of Ok (spec, tag) \<Rightarrow> spec | _ \<Rightarrow> [])"

definition xml_tag :: "SerializeType \<Rightarrow> byte list" where
  "xml_tag type = (case SerializeFormatXml_getTypeInfo type of Ok (spec, tag) \<Rightarrow> cstr tag | _ \<Rightarrow> [])"

definition xml_open :: "int \<Rightarrow> string \<Rightarrow> byte list \<Rightarrow> byte list \<Rightarrow> byte list" where
  "xml_open i tag type name = spaces_text i @ [60] @ ascii tag @ [32] @ xml_attr ''type'' type @ [32] @ xml_attr ''name'' name"

definition xml_index :: "int \<Rightarrow> int \<Rightarrow> byte list" where
  "xml_index i j = spaces_text i @ ascii ''<element '' @ xml_number ''index'' j @ [62]"

definition xml_close :: "string \<Rightarrow> byte list" where
  "xml_close tag = ascii ''</'' @ ascii tag @ [62, 10]"

definition xml_field :: "int \<Rightarrow> byte list \<Rightarrow> byte list \<Rightarrow> byte list \<Rightarrow> byte list" where
  "xml_field i type name text = xml_open i ''field'' type name @ [62] @ text @ xml_close ''field''"

definition xml_array :: "int \<Rightarrow> byte list \<Rightarrow> byte list \<Rightarrow> int \<Rightarrow> byte list" where
  "xml_array i type name n = xml_open i ''array'' type name @ [32] @ xml_number ''size'' n @ [62, 10]"

text \<open>The elements of an array, from \<open>j\<close> on, each with its index.\<close>

definition xml_indexed :: "(int \<Rightarrow> byte list \<Rightarrow> byte list) \<Rightarrow> byte list list \<Rightarrow> byte list" where
  "xml_indexed f ts = concat (map (\<lambda>j. f (int j) (ts ! j)) [0..<length ts])"

primrec xml_text :: "('s, 'a) ser_env \<Rightarrow> ser_prog \<Rightarrow> int \<Rightarrow> byte list" where
  "xml_text V (TypeFn name type body) i =
     xml_open i ''struct'' type name @ [62, 10] @ concat (map (\<lambda>f. f (i + 2)) (map (xml_text V) body)) @
     spaces_text i @ xml_close ''struct''"
| "xml_text V (BaseTypeFn name type body) i = concat (map (\<lambda>f. f i) (map (xml_text V) body))"
| "xml_text V (Value type name val n len) i =
     (if type = SERIALIZE_TYPE_STRING then xml_field i (ascii ''string'') name (xml_escape (takeWhile (\<lambda>b. b \<noteq> 0) val))
      else if SERIALIZE_IS_ARRAY_ELEMENT type
      then xml_array i (xml_tag type) name len @
        xml_indexed (\<lambda>j t. xml_index (i + 2) j @ t @ xml_close ''element'') (value_texts V xml_spec type val n len) @
        spaces_text i @ xml_close ''array''
      else concat (map (xml_field i (xml_tag type) name) (value_texts V xml_spec type val n len)))"
| "xml_text V (StructArray name type n body) i =
     xml_array i type name n @
     xml_indexed (\<lambda>j t. xml_index (i + 2) j @ [10] @ t @ spaces_text (i + 2) @ xml_close ''element'')
       (map (\<lambda>f. f (i + 4)) (map (xml_text V) body)) @
     spaces_text i @ xml_close ''array''"

text \<open>What can be written: names are C strings, and values have a text. The names around an array of structures are put into a
  format, so they must be free of percent signs, and together fit into its buffer.\<close>

definition format_name :: "byte list \<Rightarrow> bool" where
  "format_name name \<longleftrightarrow> text_name name \<and> 37 \<notin> set (takeWhile (\<lambda>b. b \<noteq> 0) name) \<and> length name \<le> 900"

fun xml_value :: "('s, 'a) ser_env \<Rightarrow> leaf \<Rightarrow> bool" where
  "xml_value V (type, name, val, n, len) \<longleftrightarrow>
     (if type = SERIALIZE_TYPE_STRING then text_name name \<and> 0 \<in> set val
      else text_value V xml_spec (type, name, val, n, len) \<and> in_range TInt len)"

primrec xml_prog :: "('s, 'a) ser_env \<Rightarrow> ser_prog \<Rightarrow> bool" where
  "xml_prog V (TypeFn name type body) \<longleftrightarrow> text_name name \<and> text_name type \<and> (\<forall>x \<in> set (map (xml_prog V) body). x)"
| "xml_prog V (BaseTypeFn name type body) \<longleftrightarrow> c_string name \<and> c_string type \<and> (\<forall>x \<in> set (map (xml_prog V) body). x)"
| "xml_prog V (Value type name val n len) \<longleftrightarrow> xml_value V (type, name, val, n, len)"
| "xml_prog V (StructArray name type n body) \<longleftrightarrow> format_name name \<and> format_name type \<and> n = int (length body) \<and> in_range TInt n \<and>
     (\<forall>x \<in> set (map (xml_prog V) body). x)"

subsection \<open>Texts of the format\<close>

lemma renders_open:
  assumes "text_name type" and "text_name name"
  shows "renders V (''<struct '' @ xml_attribute ''type'' ''%s'' @ '' '' @ xml_attribute ''name'' ''%s'' @ ''>'' @ [CHR 0x0A])
      [StrArg type, StrArg name] (ascii ''<struct '' @ xml_attr ''type'' type @ [32] @ xml_attr ''name'' name @ [62, 10])"
    "renders V (''<array '' @ xml_attribute ''type'' ''%s'' @ '' '' @ xml_attribute ''name'' ''%s'' @ '' size='' @ [CHR 0x22])
      [StrArg type, StrArg name] (ascii ''<array '' @ xml_attr ''type'' type @ [32] @ xml_attr ''name'' name @ ascii '' size='' @ [34])"
    "renders V (''<field '' @ xml_attribute ''type'' ''%s'' @ '' '' @ xml_attribute ''name'' ''%s'' @ ''>'')
      [StrArg type, StrArg name] (ascii ''<field '' @ xml_attr ''type'' type @ [32] @ xml_attr ''name'' name @ [62])"
  using assms by (simp_all add: renders_def xml_attribute_def xml_attr_def ascii_def text_name_def print_conversion_def next_char_def item_text_def cstring_def)

lemma renders_plain: "CHR ''%'' \<notin> set fmt \<Longrightarrow> renders V fmt [] (ascii fmt)"
  by (induction fmt) (auto simp: renders_def ascii_def)

lemma renders_tags:
  "renders V (''<element index='' @ [CHR 0x22]) [] (ascii ''<element index='' @ [34])"
  "renders V ([CHR 0x22] @ ''>'' @ [CHR 0x0A]) [] [34, 62, 10]" "renders V ([CHR 0x22] @ ''>'') [] [34, 62]"
  "renders V (''</element>'' @ [CHR 0x0A]) [] (xml_close ''element'')" "renders V (''</field>'' @ [CHR 0x0A]) [] (xml_close ''field'')"
  "renders V (''</field>'' @ [CHR 0x0A]) [StrArg name] (xml_close ''field'')"
  "renders V (''</'' @ ''element'' @ ''>'' @ [CHR 0x0A]) [] (xml_close ''element'')"
  "renders V (''</'' @ ''array'' @ ''>'' @ [CHR 0x0A]) [] (xml_close ''array'')"
  "renders V (''</'' @ ''struct'' @ ''>'' @ [CHR 0x0A]) [] (xml_close ''struct'')"
  by (simp_all add: renders_def xml_close_def ascii_def)

lemma renders_string_field:
  assumes "text_name name"
  shows "renders V (''<field '' @ xml_attribute ''type'' ''string'' @ '' '' @ xml_attribute ''name'' ''%s'' @ ''>'')
      [StrArg name] (ascii ''<field '' @ xml_attr ''type'' (ascii ''string'') @ [32] @ xml_attr ''name'' name @ [62])"
  using assms by (simp add: renders_def xml_attribute_def xml_attr_def ascii_def text_name_def print_conversion_def next_char_def item_text_def cstring_def)

lemma ascii_str_of: "ascii (str_of s) = s"
proof -
  have "asc (char_of (unat b)) = b" for b
  proof -
    have "unat b < 256" by (rule order_less_le_trans [OF unsigned_less]) simp
    then have "(word_of_nat (of_char (char_of (unat b)) :: nat) :: byte) = b" by simp
    then show ?thesis by (simp only: of_nat_of_char)
  qed
  then show ?thesis by (simp add: ascii_def str_of_def o_def)
qed

lemma xml_byte_entity: "xml_byte b = (case xml_entity b of Some e \<Rightarrow> ascii e | None \<Rightarrow> [b])"
  using ascii_str_of [of "[b]"] by (simp add: xml_byte_def xml_entity_def)

lemma renders_plain_text:
  assumes "format_name name" and "format_name type"
  shows "\<exists>n t. chars_of name = Ok n \<and> chars_of type = Ok t \<and>
    renders V (format_text (SERIALIZE_DATABUFFER_MAXLEN - 30)
        (''<array '' @ xml_attribute ''type'' (str_of t) @ '' '' @ xml_attribute ''name'' (str_of n) @ '' size='' @ [CHR 0x22])) []
      (ascii ''<array '' @ xml_attr ''type'' type @ [32] @ xml_attr ''name'' name @ ascii '' size='' @ [34])"
proof -
  let ?n = "takeWhile (\<lambda>b. b \<noteq> 0) name" and ?t = "takeWhile (\<lambda>b. b \<noteq> 0) type"
  let ?fmt = "''<array '' @ xml_attribute ''type'' (str_of ?t) @ '' '' @ xml_attribute ''name'' (str_of ?n) @ '' size='' @ [CHR 0x22]"
  have a: "ascii (str_of s) = s" for s by (rule ascii_str_of)
  have p: "CHR ''%'' \<notin> set (str_of s)" if "37 \<notin> set s" for s
  proof
    assume "CHR ''%'' \<in> set (str_of s)"
    then have "asc (CHR ''%'') \<in> set (ascii (str_of s))" unfolding ascii_def set_map by (rule imageI)
    with that show False by (simp add: ascii_str_of)
  qed
  have "length ?n \<le> 900" "length ?t \<le> 900"
    using assms length_takeWhile_le [of "\<lambda>b. b \<noteq> 0"] by (force simp: format_name_def intro: order_trans)+
  then have "format_text (SERIALIZE_DATABUFFER_MAXLEN - 30) ?fmt = ?fmt"
    by (simp add: format_text_def SERIALIZE_DATABUFFER_MAXLEN_def xml_attribute_def str_of_def)
  moreover have "CHR ''%'' \<notin> set ?fmt" using p assms by (simp add: format_name_def xml_attribute_def)
  from renders_plain [OF this] have "renders V ?fmt [] (ascii ''<array '' @ xml_attr ''type'' type @ [32] @ xml_attr ''name'' name @ ascii '' size='' @ [34])"
    using a [of ?n] a [of ?t] by (simp add: ascii_def xml_attribute_def xml_attr_def)
  ultimately show ?thesis using assms by (simp add: chars_of_def format_name_def text_name_def)
qed

lemma xml_type_info:
  assumes "type \<noteq> SERIALIZE_TYPE_OTHER"
  shows "\<exists>tag. SerializeFormatXml_getTypeInfo type = Ok (xml_spec type, tag) \<and> xml_tag type = cstr tag \<and> text_name (cstr tag)"
  using assms by (cases type) (simp_all add: xml_spec_def xml_tag_def SerializeFormatXml_getTypeInfo_def text_name_def c_string_def cstr_def ascii_def)

subsection \<open>The format as the current one\<close>

text \<open>A serializer that writes or measures in the Xml format with the indentation \<open>i\<close>.\<close>

definition xml_at :: "('s, 'a) ser_env \<Rightarrow> 's ser_formats \<Rightarrow> bool \<Rightarrow> bool \<Rightarrow> int \<Rightarrow> int \<Rightarrow> 's Serialize \<Rightarrow> bool" where
  "xml_at V F b t k i sz \<longleftrightarrow> format_at F (SerializeFormatXmlOps V) b t k sz \<and> text_mode sz \<and> sz_indentLevel sz = i \<and>
     (\<exists>d. map_option fi_data (cells (sz_infos sz) (sz_format sz)) = Some (Own (SerializeFormatXmlOptions d)))"

lemma xml_at_simps:
  assumes "xml_at V F b t k i sz"
  shows "text_mode sz" "sz_indentLevel sz = i" "\<exists>p. Serialize_getFormatDataPtr sz = Ok p"
  using assms by (auto simp: xml_at_def format_at_def Serialize_getFormatDataPtr_def text_mode_def valid_serialize_def format_set_def)

lemma set_xml_data_at:
  assumes "xml_at V F b t k i sz"
  shows "\<exists>sz'. set_xml_data d sz = Ok sz' \<and> xml_at V F b t k i sz' \<and> port sz' = port sz"
  using assms by (auto simp: xml_at_def format_at_def set_xml_data_def xml_data_def Serialize_getFormatDataPtr_def hupd_def hread_def
      text_mode_def inside_def port_def valid_serialize_def format_set_def)

lemma xml_at_port [simp]: "xml_at V F b t k i (set_port p sz) = xml_at V F b t k i sz"
  by (simp add: xml_at_def format_at_def text_mode_def inside_def set_port_def)

lemma xml_at_roundOff [simp]: "xml_at V F b t k i (sz\<lparr>sz_roundOff := r\<rparr>) = xml_at V F b t k i sz"
  by (simp add: xml_at_def format_at_def text_mode_def inside_def)

subsection \<open>The operations of the format\<close>

locale xml_sink = text_sink V can takes
  for V :: "('s, 'a) ser_env" and can :: "nat \<Rightarrow> 's port \<Rightarrow> bool" and takes :: "byte list \<Rightarrow> 's port \<Rightarrow> 's port \<Rightarrow> bool" +
  fixes F :: "'s ser_formats"
begin

lemma said_put: "renders V fmt args bs \<Longrightarrow> says can takes (xml_at V F b t k i) bs (put_text V fmt args) (xml_at V F b t k i)"
  by (rule says_put) (auto dest: xml_at_simps(1))

lemma said_indent: "says can takes (xml_at V F b t k i) (spaces_text i) (SERIALIZE_INDENT V) (xml_at V F b t k i)"
  by (rule says_indent) (auto dest: xml_at_simps)

lemma said_int: "in_range TInt j \<Longrightarrow> says can takes (xml_at V F b t k i) (signed_decimal j) (deploy_int V j) (xml_at V F b t k i)"
  by (rule says_deploy_int [OF renders_int]) (auto dest: xml_at_simps(1))

lemma said_data: "says can takes (xml_at V F b t k i) [] (\<lambda>sz. set_xml_data (d sz) sz) (xml_at V F b t k i)"
  by (rule says_silent) (rule set_xml_data_at)

lemma said_steps:
  "says can takes (xml_at V F b t k i) [] (\<lambda>sz. Ok (SERIALIZE_INDENT_INCR sz)) (xml_at V F b t k (i + 2))"
  "says can takes (xml_at V F b t k i) [] (\<lambda>sz. Ok (SERIALIZE_INDENT_DECR sz)) (xml_at V F b t k (i - 2))"
  "says can takes (xml_at V F b t k i) [] Ok (xml_at V F b t k i)"
  by (rule says_silent; auto simp: xml_at_def format_at_def text_mode_def inside_def port_def SERIALIZE_INDENT_INCR_def SERIALIZE_INDENT_DECR_def
      SERIALIZE_INDENT_SIZE_def)+

lemma said_decr_indent:
  "says can takes (xml_at V F b t k i) (spaces_text (i - 2)) (\<lambda>sz. SERIALIZE_INDENT V (SERIALIZE_INDENT_DECR sz)) (xml_at V F b t k (i - 2))"
  using says_bind [OF said_steps(2) said_indent] by simp

text \<open>Types, which set the data of the format.\<close>

lemma said_beginType:
  assumes "text_name type" and "text_name name"
  shows "says can takes (xml_at V F b t k i) (xml_open i ''struct'' type name @ [62, 10]) (SerializeFormatXml_beginType V name type) (xml_at V F b t k (i + 2))"
proof -
  note all = says_bind [OF said_indent says_bind [OF said_put [OF renders_open(1) [OF assms]] said_steps(1)]]
  note body = says_bind [OF said_data [where d = sz_baseTypeEnable] says_cong [OF text_mode_simps(1) [OF xml_at_simps(1)] all]]
  show ?thesis
    by (rule says_eq [OF body]) (simp_all add: SerializeFormatXml_beginType_def xml_open_def ascii_def)
qed

lemma said_end:
  assumes "renders V (''</'' @ tag @ ''>'' @ [CHR 0x0A]) [] (xml_close tag)"
  shows "says can takes (xml_at V F b t k i) (spaces_text (i - 2) @ xml_close tag) (xml_end V tag blank) (xml_at V F b t k (i - 2))"
  by (rule says_eq [OF says_bind [OF said_decr_indent said_put [OF assms]]]) (simp_all add: xml_end_def text_mode_simps xml_at_simps)

lemma said_endType:
  "says can takes (xml_at V F b t k i) (spaces_text (i - 2) @ xml_close ''struct'') (SerializeFormatXml_endType V) (xml_at V F b t k (i - 2))"
  by (rule says_eq [OF says_bind [OF said_end [OF renders_tags(9)] said_data [where d = sz_baseTypeEnable]]])
    (simp_all add: SerializeFormatXml_endType_def)

text \<open>Arrays.\<close>

lemma said_beginArray:
  assumes "text_name name" and "type \<noteq> SERIALIZE_TYPE_OTHER" and "in_range TInt n"
  shows "says can takes (xml_at V F b t k i) (xml_array i (xml_tag type) name n) (SerializeFormatXml_beginArray V type name n) (xml_at V F b t k (i + 2))"
proof -
  obtain tag where tag: "SerializeFormatXml_getTypeInfo type = Ok (xml_spec type, tag)" "xml_tag type = cstr tag" "text_name (cstr tag)"
    using xml_type_info [OF assms(2)] by blast
  note all = says_bind [OF said_indent says_bind [OF said_put [OF renders_open(2) [OF tag(3) assms(1)]] says_bind [OF said_int [OF assms(3)]
    says_bind [OF said_put [OF renders_tags(2)] said_steps(1)]]]]
  show ?thesis
    by (rule says_eq [OF all]) (use tag in \<open>simp_all add: SerializeFormatXml_beginArray_def xml_array_def xml_open_def xml_number_def ascii_def
        text_mode_simps xml_at_simps\<close>)
qed

lemma said_beginStructArray:
  assumes "format_name name" and "format_name type" and "in_range TInt n"
  shows "says can takes (xml_at V F b t k i) (xml_array i type name n) (SerializeFormatXml_beginStructArray V name type n) (xml_at V F b t k (i + 2))"
proof -
  obtain c d where cd: "chars_of name = Ok c" "chars_of type = Ok d" "renders V (format_text (SERIALIZE_DATABUFFER_MAXLEN - 30)
        (''<array '' @ xml_attribute ''type'' (str_of d) @ '' '' @ xml_attribute ''name'' (str_of c) @ '' size='' @ [CHR 0x22])) []
      (ascii ''<array '' @ xml_attr ''type'' type @ [32] @ xml_attr ''name'' name @ ascii '' size='' @ [34])"
    using renders_plain_text [OF assms(1,2)] by blast
  note all = says_bind [OF said_indent says_bind [OF said_put [OF cd(3)] says_bind [OF said_int [OF assms(3)]
    says_bind [OF said_put [OF renders_tags(2)] said_steps(1)]]]]
  show ?thesis
    by (rule says_eq [OF all]) (use cd(1,2) in \<open>simp_all add: SerializeFormatXml_beginStructArray_def xml_array_def xml_open_def xml_number_def ascii_def
        as_text_def text_mode_simps xml_at_simps\<close>)
qed

lemma said_separator:
  assumes "in_range TInt j"
  shows "says can takes (xml_at V F b t k i) (xml_index i j @ [10]) (SerializeFormatXml_beginStructArraySeparator V name j n) (xml_at V F b t k (i + 2))"
proof -
  note all = says_bind [OF said_indent says_bind [OF said_put [OF renders_tags(1)] says_bind [OF said_int [OF assms]
    says_bind [OF said_put [OF renders_tags(2)] said_steps(1)]]]]
  show ?thesis
    by (rule says_eq [OF all]) (simp_all add: SerializeFormatXml_beginStructArraySeparator_def xml_index_def xml_number_def ascii_def
        text_mode_simps xml_at_simps)
qed

subsection \<open>Values\<close>

lemma said_char:
  shows "hands can takes (xml_at V F b t k i) (xml_byte c) True (xml_put_char V c) (xml_at V F b t k i)"
proof (rule handsI)
  fix sz j
  assume a: "xml_at V F b t k i sz" "can (length (xml_byte c) + j) (port sz)"
  show "\<exists>sz'. xml_put_char V c sz = Ok (True, sz') \<and> xml_at V F b t k i sz' \<and> can j (port sz') \<and> takes (xml_byte c) (port sz) (port sz')"
  proof (cases "xml_entity c")
    case None
    have "renders V ''%c'' [CharArg c] [c]" by (simp add: renders_def print_conversion_def next_char_def item_text_def)
    moreover have "can (length [c] + j) (port sz)" using a(2) None by (simp add: xml_byte_entity)
    ultimately obtain p where "stream_printf V ''%c'' [CharArg c] sz = Ok (int (length [c]), set_port p sz)" "can j p" "takes [c] (port sz) p"
      using print_law by blast
    with a(1) None show ?thesis by (simp add: xml_put_char_def xml_byte_entity)
  next
    case (Some e)
    have "renders V e [] (ascii e)" using Some by (intro renders_plain) (auto simp: xml_entity_def split: if_splits)
    moreover have "can (length (ascii e) + j) (port sz)" using a(2) Some by (simp add: xml_byte_entity)
    ultimately obtain p where "stream_printf V e [] sz = Ok (int (length (ascii e)), set_port p sz)" "can j p" "takes (ascii e) (port sz) p"
      using print_law by blast
    with a(1) Some show ?thesis by (simp add: xml_put_char_def xml_byte_entity ascii_def)
  qed
qed

lemma said_escape:
  "0 \<in> set val \<Longrightarrow> hands can takes (xml_at V F b t k i) (xml_escape (takeWhile (\<lambda>b. b \<noteq> 0) val)) True
    (SerializeFormatXml_doSerializeStringCharEscaping V val) (xml_at V F b t k i)"
proof (induction val)
  case (Cons c cs)
  show ?case
  proof (cases "c = 0")
    case True
    show ?thesis
    proof (rule handsI)
      fix sz j
      assume a: "xml_at V F b t k i sz" "can (length (xml_escape (takeWhile (\<lambda>b. b \<noteq> 0) (c # cs))) + j) (port sz)"
      then have "can (length ([] :: byte list) + j) (port sz)" using True by simp
      from print_law [OF this, of "''''" "[]"] obtain p where "stream_printf V '''' [] sz = Ok (0, set_port p sz)" "can j p" "takes [] (port sz) p"
        by (auto simp: renders_def)
      then show "\<exists>sz'. SerializeFormatXml_doSerializeStringCharEscaping V (c # cs) sz = Ok (True, sz') \<and> xml_at V F b t k i sz' \<and>
          can j (port sz') \<and> takes (xml_escape (takeWhile (\<lambda>b. b \<noteq> 0) (c # cs))) (port sz) (port sz')"
        using True a(1) by simp
    qed
  next
    case False
    with Cons.prems have z: "0 \<in> set cs" by auto
    then obtain d ds where cs: "cs = d # ds" by (cases cs) auto
    show ?thesis
    proof (rule handsI)
      fix sz j
      let ?rest = "xml_escape (takeWhile (\<lambda>b. b \<noteq> 0) cs)"
      assume a: "xml_at V F b t k i sz" "can (length (xml_escape (takeWhile (\<lambda>b. b \<noteq> 0) (c # cs))) + j) (port sz)"
      then have "can (length (xml_byte c) + (length ?rest + j)) (port sz)" using False by (simp add: add.assoc)
      from handsD [OF said_char a(1) this] obtain s1 where s1: "xml_put_char V c sz = Ok (True, s1)" "xml_at V F b t k i s1"
        "can (length ?rest + j) (port s1)" "takes (xml_byte c) (port sz) (port s1)" .
      show "\<exists>sz'. SerializeFormatXml_doSerializeStringCharEscaping V (c # cs) sz = Ok (True, sz') \<and> xml_at V F b t k i sz' \<and>
          can j (port sz') \<and> takes (xml_escape (takeWhile (\<lambda>b. b \<noteq> 0) (c # cs))) (port sz) (port sz')"
      proof (cases "d = 0")
        case True
        with False s1 cs show ?thesis by simp
      next
        case d: False
        from handsD [OF Cons.IH [OF z] s1(2,3)] obtain s2 where "SerializeFormatXml_doSerializeStringCharEscaping V cs s1 = Ok (True, s2)"
          "xml_at V F b t k i s2" "can j (port s2)" "takes ?rest (port s1) (port s2)" .
        with takes_more [OF s1(4)] False d s1 cs show ?thesis by auto
      qed
    qed
  qed
qed simp

lemma said_deploy:
  assumes "arg_ok V spec mem" and "type \<noteq> SERIALIZE_TYPE_OTHER"
  shows "says can takes (xml_at V F b t k i) (arg_text V spec mem) (deploy_text V type spec mem) (xml_at V F b t k i)"
proof -
  obtain arg where "load_arg (se_isLittleEndian V) spec mem = Ok arg" "renders V spec [arg] (arg_text V spec mem)" "arg_text V spec mem \<noteq> []"
    using arg_ok_text [OF assms(1)] by blast
  moreover obtain n where "Serialize_getTypeMaxSizeAsAscii type = Ok n" using type_size [OF assms(2)] by blast
  ultimately show ?thesis by (rule says_deploy) (auto dest: xml_at_simps(1))
qed

lemma handed_string:
  assumes "text_name name" and "0 \<in> set val"
  shows "hands can takes (xml_at V F b t k i) (xml_field i (ascii ''string'') name (xml_escape (takeWhile (\<lambda>b. b \<noteq> 0) val))) val
    (SerializeFormatXml_doSerializeString V type name n len val) (xml_at V F b t k i)"
proof -
  have e: "says can takes (xml_at V F b t k i) (xml_escape (takeWhile (\<lambda>b. b \<noteq> 0) val))
      (\<lambda>sz. omap snd (SerializeFormatXml_doSerializeStringCharEscaping V val sz)) (xml_at V F b t k i)"
    using said_escape [OF assms(2), of b t k i] by (fastforce simp: says_def hands_def)
  note all = says_bind [OF said_indent says_bind [OF said_put [OF renders_string_field [OF assms(1)]] says_bind [OF e
    said_put [OF renders_tags(6)]]]]
  show ?thesis
    by (rule says_hands [OF all]) (simp_all add: SerializeFormatXml_doSerializeString_def xml_field_def xml_open_def ascii_def
        text_mode_simps xml_at_simps omap_def obind_assoc split_def)
qed

lemma handed_field:
  assumes "text_name name" and "arg_ok V (xml_spec type) val" and "type \<noteq> SERIALIZE_TYPE_OTHER"
  shows "hands can takes (xml_at V F b t k i) (xml_field i (xml_tag type) name (arg_text V (xml_spec type) val)) val
    (SerializeFormatXml_doSerializeField V type name n val) (xml_at V F b t k i)"
proof -
  obtain tag where tag: "SerializeFormatXml_getTypeInfo type = Ok (xml_spec type, tag)" "xml_tag type = cstr tag" "text_name (cstr tag)"
    using xml_type_info [OF assms(3)] by blast
  note all = says_bind [OF said_indent says_bind [OF said_put [OF renders_open(3) [OF tag(3) assms(1)]] says_bind [OF said_deploy [OF assms(2,3)]
    said_put [OF renders_tags(5)]]]]
  show ?thesis
  proof (rule says_hands [OF all])
    fix sz
    assume a: "xml_at V F b t k i sz"
    then obtain p where "Serialize_getFormatDataPtr sz = Ok p" using xml_at_simps(3) by blast
    with a show "SerializeFormatXml_doSerializeField V type name n val sz = omap (Pair val) (obind (SERIALIZE_INDENT V sz) (\<lambda>sz. obind (put_text V
        (''<field '' @ xml_attribute ''type'' ''%s'' @ '' '' @ xml_attribute ''name'' ''%s'' @ ''>'') [StrArg (cstr tag), StrArg name] sz) (\<lambda>sz.
        obind (deploy_text V type (xml_spec type) val sz) (put_text V (''</field>'' @ [CHR 0x0A]) []))))"
      by (simp add: SerializeFormatXml_doSerializeField_def tag(1) text_mode_simps xml_at_simps omap_def obind_assoc)
  qed (simp add: xml_field_def xml_open_def ascii_def tag(2))
qed

lemma handed_element:
  assumes "arg_ok V spec mem" and "type \<noteq> SERIALIZE_TYPE_OTHER" and "in_range TInt j"
  shows "hands can takes (xml_at V F b t k i) (xml_index i j @ arg_text V spec mem @ xml_close ''element'') mem
    (xml_element V type spec j mem) (xml_at V F b t k i)"
proof -
  note all = says_bind [OF said_indent says_bind [OF said_put [OF renders_tags(1)] says_bind [OF said_int [OF assms(3)]
    says_bind [OF said_put [OF renders_tags(3)] says_bind [OF said_deploy [OF assms(1,2)] said_put [OF renders_tags(4)]]]]]]
  show ?thesis
    by (rule says_hands [OF all]) (simp_all add: xml_element_def xml_index_def xml_number_def ascii_def xml_at_simps text_mode_simps omap_def obind_assoc)
qed

lemma handed_array:
  assumes "text_value V xml_spec (type, name, val, n, len)" and "in_range TInt len" and "SERIALIZE_IS_ARRAY_ELEMENT type"
  shows "hands can takes (xml_at V F b t k i)
    (xml_indexed (\<lambda>j t. xml_index i j @ t @ xml_close ''element'') (value_texts V xml_spec type val n len)) val
    (SerializeFormatXml_doSerialize V type name val n len) (xml_at V F b t k i)"
proof -
  let ?P = "\<lambda>j :: int. xml_at V F b t k i"
  let ?T = "\<lambda>j. xml_index i j @ arg_text V (xml_spec type) (value_item (se_isLittleEndian V) type val n j) @ xml_close ''element''"
  let ?g = "\<lambda>j. if is_char_type type then SerializeFormatXml_doSerializeCharType V type name n len j
     else SerializeFormatXml_doSerializeArrayElement V type n len j True"
  note ok = text_value_items [OF assms(1) disjI2 [OF assms(3)]]
  obtain tag where tag: "SerializeFormatXml_getTypeInfo type = Ok (xml_spec type, tag)" using xml_type_info [OF ok(2)] by blast
  have "hands can takes (?P 0) (concat (map (\<lambda>j. ?T (int j)) [0..<nat len])) val (for_elements ?g (nat len) 0 val) (?P (int (nat len)))"
  proof (rule hands_items [where f = "\<lambda>j. SerializeFormatXml_doSerializeArrayElement V type n len j False" and P = ?P and T = ?T, OF ok(3,5)])
    fix j
    assume j: "0 \<le> j" "j < len"
    with assms(2) have "in_range TInt j" by (simp add: in_range_def is_unsigned_def)
    from handed_element [OF ok(6) [OF j] ok(2) this]
    show "hands can takes (?P j) (?T j) (value_item (se_isLittleEndian V) type val n j)
        (SerializeFormatXml_doSerializeArrayElement V type n len j False (value_item (se_isLittleEndian V) type val n j)) (?P (j + 1))"
      by (rule hands_eq) (simp_all add: SerializeFormatXml_doSerializeArrayElement_def tag)
  qed (use assms(3) ok tag in \<open>auto simp: SerializeFormatXml_doSerializeCharType_def at_element_def SerializeFormatXml_doSerializeArrayElement_def
      dest: xml_at_simps(1)\<close>)
  then show ?thesis
  proof (rule hands_eq)
    have "map (?T \<circ> int) [0..<nat len] = map (\<lambda>j. xml_index i (int j) @ value_texts V xml_spec type val n len ! j @ xml_close ''element'')
        [0..<length (value_texts V xml_spec type val n len)]"
      using assms(3) by (auto simp: value_texts_def value_items_item)
    then show "concat (map (\<lambda>j. ?T (int j)) [0..<nat len]) =
        xml_indexed (\<lambda>j t. xml_index i j @ t @ xml_close ''element'') (value_texts V xml_spec type val n len)"
      unfolding xml_indexed_def by (simp only: o_def)
  next
    fix sz
    show "SerializeFormatXml_doSerialize V type name val n len sz = for_elements ?g (nat len) 0 val sz"
      using assms(3) by (cases "is_char_type type") (auto simp: SerializeFormatXml_doSerialize_def SERIALIZE_IS_ARRAY_ELEMENT_def)
  qed
qed

lemma handed_fields:
  assumes "text_value V xml_spec (type, name, val, n, len)" and "\<not> SERIALIZE_IS_ARRAY_ELEMENT type" and "type \<noteq> SERIALIZE_TYPE_STRING"
  shows "hands can takes (xml_at V F b t k i) (concat (map (xml_field i (xml_tag type) name) (value_texts V xml_spec type val n len))) val
    (SerializeFormatXml_doSerialize V type name val n len) (xml_at V F b t k i)"
proof (cases "is_char_type type")
  case True
  let ?P = "\<lambda>j :: int. xml_at V F b t k i"
  let ?T = "\<lambda>j. xml_field i (xml_tag type) name (arg_text V (xml_spec type) (value_item (se_isLittleEndian V) type val n j))"
  note ok = text_value_items [OF assms(1) disjI1 [OF True]]
  obtain tag where tag: "SerializeFormatXml_getTypeInfo type = Ok (xml_spec type, tag)" using xml_type_info [OF ok(2)] by blast
  have "hands can takes (?P 0) (concat (map (\<lambda>j. ?T (int j)) [0..<nat len])) val
      (for_elements (SerializeFormatXml_doSerializeCharType V type name n len) (nat len) 0 val) (?P (int (nat len)))"
  proof (rule hands_items [where f = "\<lambda>j. SerializeFormatXml_doSerializeField V type name n" and P = ?P and T = ?T, OF ok(3,5)])
    fix j
    assume j: "0 \<le> j" "j < len"
    show "hands can takes (?P j) (?T j) (value_item (se_isLittleEndian V) type val n j)
        (SerializeFormatXml_doSerializeField V type name n (value_item (se_isLittleEndian V) type val n j)) (?P (j + 1))"
      by (rule handed_field [OF ok(1) ok(6) [OF j] ok(2)])
  qed (use assms(2) True ok tag in \<open>auto simp: SerializeFormatXml_doSerializeCharType_def dest: xml_at_simps(1)\<close>)
  then show ?thesis
    by (rule hands_eq) (use True in \<open>simp_all add: value_texts_def value_items_item o_def SerializeFormatXml_doSerialize_def\<close>)
next
  case False
  note ok = text_value_single [OF assms(1) False assms(2)]
  show ?thesis
    by (rule hands_eq [OF handed_field [OF ok(1,5,2)]])
      (use False assms(2,3) in \<open>simp_all add: value_texts_def value_items_def SerializeFormatXml_doSerialize_def\<close>)
qed

end

subsection \<open>The machine of the format\<close>

definition xml_value_text :: "('s, 'a) ser_env \<Rightarrow> int \<Rightarrow> SerializeType \<Rightarrow> byte list \<Rightarrow> byte list \<Rightarrow> int \<Rightarrow> int \<Rightarrow> int told" where
  "xml_value_text V i type name val n len =
     (if \<not> xml_value V (type, name, val, n, len) then None
      else if type = SERIALIZE_TYPE_STRING then Some (xml_field i (ascii ''string'') name (xml_escape (takeWhile (\<lambda>b. b \<noteq> 0) val)), i)
      else if SERIALIZE_IS_ARRAY_ELEMENT type
      then Some (xml_indexed (\<lambda>j t. xml_index i j @ t @ xml_close ''element'') (value_texts V xml_spec type val n len), i)
      else Some (concat (map (xml_field i (xml_tag type) name) (value_texts V xml_spec type val n len)), i))"

text \<open>The configuration is the indentation.\<close>

definition xml_machine :: "('s, 'a) ser_env \<Rightarrow> int text_machine" where
  "xml_machine V = \<lparr>
     tm_beginType = (\<lambda>k i name type. if text_name name \<and> text_name type then Some (xml_open i ''struct'' type name @ [62, 10], i + 2) else None),
     tm_beginBaseType = (\<lambda>k i name type. Some ([], i)),
     tm_beginArray = (\<lambda>i type name n.
       if text_name name \<and> type \<noteq> SERIALIZE_TYPE_OTHER \<and> in_range TInt n then Some (xml_array i (xml_tag type) name n, i + 2) else None),
     tm_beginStructArray = (\<lambda>i name type n.
       if format_name name \<and> format_name type \<and> in_range TInt n then Some (xml_array i type name n, i + 2) else None),
     tm_beginStructArraySeparator = (\<lambda>i name j n. if in_range TInt j then Some (xml_index i j @ [10], i + 2) else None),
     tm_doSerialize = (\<lambda>i type name val n len. map_option (\<lambda>(bs, i). (bs, val, i)) (xml_value_text V i type name val n len)),
     tm_endStructArraySeparator = (\<lambda>i name j n. Some (spaces_text (i - 2) @ xml_close ''element'', i - 2)),
     tm_endStructArray = (\<lambda>i. Some (spaces_text (i - 2) @ xml_close ''array'', i - 2)),
     tm_endArray = (\<lambda>i type name n. Some (spaces_text (i - 2) @ xml_close ''array'', i - 2)),
     tm_endBaseType = (\<lambda>k i. Some ([], i)),
     tm_endType = (\<lambda>k i. Some (spaces_text (i - 2) @ xml_close ''struct'', i - 2))\<rparr>"

lemma xml_ops [simp]:
  "indirectBeginType (SerializeFormatXmlOps V) = SerializeFormatXml_beginType V"
  "indirectBeginBaseType (SerializeFormatXmlOps V) = SerializeFormatXml_beginBaseType"
  "indirectBeginArray (SerializeFormatXmlOps V) = SerializeFormatXml_beginArray V"
  "indirectBeginStructArray (SerializeFormatXmlOps V) = SerializeFormatXml_beginStructArray V"
  "indirectBeginStructArraySeparator (SerializeFormatXmlOps V) = SerializeFormatXml_beginStructArraySeparator V"
  "indirectDoSerialize (SerializeFormatXmlOps V) = SerializeFormatXml_doSerialize V"
  "indirectEndStructArraySeparator (SerializeFormatXmlOps V) = SerializeFormatXml_endStructArraySeparator V"
  "indirectEndStructArray (SerializeFormatXmlOps V) = SerializeFormatXml_endStructArray V"
  "indirectEndArray (SerializeFormatXmlOps V) = SerializeFormatXml_endArray V"
  "indirectEndBaseType (SerializeFormatXmlOps V) = SerializeFormatXml_endBaseType"
  "indirectEndType (SerializeFormatXmlOps V) = SerializeFormatXml_endType V"
  by (simp_all add: SerializeFormatXmlOps_def)

text \<open>The format keeps the contract with its machine.\<close>

sublocale xml_sink \<subseteq> text_format V "still_to_take can takes p0 T" F "SerializeFormatXmlOps V" "xml_machine V" "xml_at V F" for p0 T
proof
  fix b t k i i' and sz :: "'s Serialize" and name type stype bs len j val n out
  show "xml_at V F b t k i sz \<Longrightarrow> format_at F (SerializeFormatXmlOps V) b t k sz"
    by (simp add: xml_at_def)
  show "xml_at V F b t k i sz \<Longrightarrow> still_to_take can takes p0 T bs (port sz) \<Longrightarrow> stream_eof sz = Ok False \<and> sz_stream sz \<noteq> NoStream"
    by (rule still_calm)
  show "xml_at V F b t k i sz \<Longrightarrow> xml_at V F b t k i (sz\<lparr>sz_recoveryJmpSet := s, sz_recoveryJmp := l\<rparr>)" for s l
    by (auto simp: xml_at_def format_at_def text_mode_def inside_def)
  show "xml_at V F b t k i sz \<Longrightarrow> xml_at V F b' t k i (sz\<lparr>sz_baseTypeEnable := b'\<rparr>)" for b'
    by (auto simp: xml_at_def format_at_def text_mode_def inside_def)
  show "xml_at V F b t k i sz \<Longrightarrow> 0 < k' \<or> 0 \<le> k' \<and> t \<Longrightarrow> xml_at V F b t k' i (sz\<lparr>sz_numTypeCalls := k'\<rparr>)" for k'
    by (auto simp: xml_at_def format_at_def text_mode_def inside_def)
  show "tm_beginType (xml_machine V) k i name type = Some (bs, i') \<Longrightarrow>
      passes (still_to_take can takes p0 T) (xml_at V F b t k i) bs (indirectBeginType (SerializeFormatXmlOps V) name type) (xml_at V F b t k i')"
    by (auto intro!: says_passes simp: xml_machine_def said_beginType split: if_splits)
  show "tm_beginBaseType (xml_machine V) k i name type = Some (bs, i') \<Longrightarrow>
      passes (still_to_take can takes p0 T) (xml_at V F b t k i) bs (indirectBeginBaseType (SerializeFormatXmlOps V) name type) (xml_at V F b t k i')"
    using said_data [where d = sz_baseTypeEnable] by (auto intro!: says_passes simp: xml_machine_def SerializeFormatXml_beginBaseType_def [abs_def])
  show "tm_beginArray (xml_machine V) i stype name len = Some (bs, i') \<Longrightarrow>
      passes (still_to_take can takes p0 T) (xml_at V F b t k i) bs (indirectBeginArray (SerializeFormatXmlOps V) stype name len) (xml_at V F b t k i')"
    by (auto intro!: says_passes simp: xml_machine_def said_beginArray split: if_splits)
  show "tm_beginStructArray (xml_machine V) i name type len = Some (bs, i') \<Longrightarrow>
      passes (still_to_take can takes p0 T) (xml_at V F b t k i) bs (indirectBeginStructArray (SerializeFormatXmlOps V) name type len) (xml_at V F b t k i')"
    by (auto intro!: says_passes simp: xml_machine_def said_beginStructArray split: if_splits)
  show "tm_beginStructArraySeparator (xml_machine V) i name j len = Some (bs, i') \<Longrightarrow>
      passes (still_to_take can takes p0 T) (xml_at V F b t k i) bs (indirectBeginStructArraySeparator (SerializeFormatXmlOps V) name j len) (xml_at V F b t k i')"
    using said_separator by (auto intro!: says_passes simp: xml_machine_def split: if_splits)
  show "tm_doSerialize (xml_machine V) i stype name val n len = Some (bs, out, i') \<Longrightarrow>
      carries (still_to_take can takes p0 T) (xml_at V F b t k i) bs out (indirectDoSerialize (SerializeFormatXmlOps V) stype name val n len) (xml_at V F b t k i')"
    using handed_array [of stype name val n len b t k i] handed_fields [of stype name val n len b t k i]
      hands_eq [OF handed_string [of name val b t k i SERIALIZE_TYPE_STRING n len], of _ "SerializeFormatXml_doSerialize V SERIALIZE_TYPE_STRING name val n len"]
    by (auto intro!: hands_carries simp: xml_machine_def xml_value_text_def SerializeFormatXml_doSerialize_def is_char_type_def simp del: text_value.simps split: if_splits)
  show "tm_endStructArraySeparator (xml_machine V) i name j len = Some (bs, i') \<Longrightarrow>
      passes (still_to_take can takes p0 T) (xml_at V F b t k i) bs (indirectEndStructArraySeparator (SerializeFormatXmlOps V) name j len) (xml_at V F b t k i')"
    using said_end [OF renders_tags(7)] by (auto intro!: says_passes simp: xml_machine_def SerializeFormatXml_endStructArraySeparator_def [abs_def])
  show "tm_endStructArray (xml_machine V) i = Some (bs, i') \<Longrightarrow>
      passes (still_to_take can takes p0 T) (xml_at V F b t k i) bs (indirectEndStructArray (SerializeFormatXmlOps V)) (xml_at V F b t k i')"
    using said_end [OF renders_tags(8)] by (auto intro!: says_passes simp: xml_machine_def SerializeFormatXml_endStructArray_def [abs_def])
  show "tm_endArray (xml_machine V) i stype name len = Some (bs, i') \<Longrightarrow>
      passes (still_to_take can takes p0 T) (xml_at V F b t k i) bs (indirectEndArray (SerializeFormatXmlOps V) stype name len) (xml_at V F b t k i')"
    using said_end [OF renders_tags(8)] by (auto intro!: says_passes simp: xml_machine_def SerializeFormatXml_endArray_def [abs_def])
  show "tm_endBaseType (xml_machine V) k i = Some (bs, i') \<Longrightarrow>
      passes (still_to_take can takes p0 T) (xml_at V F b t k i) bs (indirectEndBaseType (SerializeFormatXmlOps V)) (xml_at V F b t k i')"
    using said_steps(3) by (auto intro!: says_passes simp: xml_machine_def SerializeFormatXml_endBaseType_def [abs_def])
  show "tm_endType (xml_machine V) k i = Some (bs, i') \<Longrightarrow>
      passes (still_to_take can takes p0 T) (xml_at V F b t k i) bs (indirectEndType (SerializeFormatXmlOps V)) (xml_at V F b t k i')"
    using said_endType by (auto intro!: says_passes simp: xml_machine_def)
qed

subsection \<open>What the machine prints\<close>

lemma xml_in_turn:
  assumes "\<And>q. q \<in> set body \<Longrightarrow> prog_text M q k i = Some (T q, W q, i)"
  shows "texts_in_turn (map (\<lambda>f. f k) (map (prog_text M) body)) i = Some (concat (map T body), concat (map W body), i)"
  using assms by (induction body) (simp_all add: then_text_def)

lemma xml_indexed_Cons: "xml_indexed f (t # ts) = f 0 t @ xml_indexed (\<lambda>j. f (j + 1)) ts"
proof -
  have "[0..<length (t # ts)] = 0 # map Suc [0..<length ts]" by (simp add: upt_conv_Cons map_Suc_upt del: upt_Suc)
  then show ?thesis by (simp add: xml_indexed_def o_def add.commute del: upt_Suc)
qed

lemma xml_elements_in_turn:
  assumes "\<And>q. q \<in> set body \<Longrightarrow> prog_text (xml_machine V) q k (i + 2) = Some (T q, W q, i + 2)" and "0 \<le> j" and "in_range TInt (j + int (length body))"
  shows "texts_of_elements (xml_machine V) (map (\<lambda>f. f k) (map (prog_text (xml_machine V)) body)) name j n i =
    Some (xml_indexed (\<lambda>l t. xml_index i (j + l) @ [10] @ t @ spaces_text i @ xml_close ''element'') (map T body), concat (map W body), i)"
  using assms
proof (induction body arbitrary: j)
  case Nil
  then show ?case by (simp add: xml_indexed_def)
next
  case (Cons q body)
  have "in_range TInt j" using Cons.prems(2,3) by (auto simp: in_range_def is_unsigned_def)
  moreover have "texts_of_elements (xml_machine V) (map (\<lambda>f. f k) (map (prog_text (xml_machine V)) body)) name (j + 1) n i =
      Some (xml_indexed (\<lambda>l t. xml_index i (j + 1 + l) @ [10] @ t @ spaces_text i @ xml_close ''element'') (map T body), concat (map W body), i)"
    by (rule Cons.IH) (use Cons.prems in \<open>auto simp: add.assoc\<close>)
  moreover have "(\<lambda>l. j + (l + 1)) = (\<lambda>l. j + 1 + l)" by auto
  ultimately show ?case
    using Cons.prems(1) by (simp add: then_text_def xml_indexed_Cons) (simp add: xml_machine_def add.assoc add.commute add.left_commute)
qed

lemma xml_machine_prints:
  "xml_prog V q \<Longrightarrow> 1 \<le> k \<or> 0 \<le> k \<and> (\<exists>name type body. q = TypeFn name type body) \<Longrightarrow>
    prog_text (xml_machine V) q k i = Some (xml_text V q i, values_of q, i)"
proof (induction q arbitrary: k i)
  case (TypeFn name type body)
  have "texts_in_turn (map (\<lambda>f. f (k + 1)) (map (prog_text (xml_machine V)) body)) (i + 2) =
      Some (concat (map (\<lambda>q. xml_text V q (i + 2)) body), concat (map values_of body), i + 2)"
    by (rule xml_in_turn, rule TypeFn.IH) (use TypeFn.prems in auto)
  then show ?case using TypeFn.prems by (simp add: then_text_def xml_machine_def text_name_def o_def values_of_simps)
next
  case (BaseTypeFn name type body)
  have "texts_in_turn (map (\<lambda>f. f (k + 1)) (map (prog_text (xml_machine V)) body)) i = Some (concat (map (\<lambda>q. xml_text V q i) body), concat (map values_of body), i)"
    by (rule xml_in_turn, rule BaseTypeFn.IH) (use BaseTypeFn.prems in auto)
  then show ?case using BaseTypeFn.prems by (simp add: then_text_def xml_machine_def o_def values_of_simps)
next
  case (Value type name val n len)
  have "SERIALIZE_IS_ARRAY_ELEMENT type \<Longrightarrow> type \<noteq> SERIALIZE_TYPE_OTHER \<and> type \<noteq> SERIALIZE_TYPE_STRING"
    by (auto simp: SERIALIZE_IS_ARRAY_ELEMENT_def)
  then show ?case
    using Value.prems(1) by (auto simp: then_text_def xml_machine_def xml_value_text_def text_name_def values_of_simps split: if_splits)
next
  case (StructArray name type n body)
  have "texts_of_elements (xml_machine V) (map (\<lambda>f. f k) (map (prog_text (xml_machine V)) body)) name 0 (int (length body)) (i + 2) =
      Some (xml_indexed (\<lambda>j t. xml_index (i + 2) (0 + j) @ [10] @ t @ spaces_text (i + 2) @ xml_close ''element'')
        (map (\<lambda>q. xml_text V q (i + 4)) body), concat (map values_of body), i + 2)"
    by (rule xml_elements_in_turn) (use StructArray in \<open>auto simp: add.commute [of i 4]\<close>)
  then show ?case
    using StructArray.prems by (simp add: then_text_def o_def values_of_simps) (auto simp: xml_machine_def format_name_def text_name_def)
qed

subsection \<open>Memory and the measuring stream\<close>

interpretation mem_xml: xml_sink "on_memory V" mem_port_can mem_port_takes F for V F
  by unfold_locales

interpretation calc_xml: xml_sink V calc_port_can calc_port_takes F for V :: "('s, 'a) ser_env" and F
  by unfold_locales

definition xml_writer :: "mem_env \<Rightarrow> IOChannelGenericMem ser_formats \<Rightarrow> bool \<Rightarrow> int \<Rightarrow> int \<Rightarrow> nat \<Rightarrow> IOChannelGenericMem Serialize \<Rightarrow> bool" where
  "xml_writer V F t k i n sz \<longleftrightarrow> text_writer V (xml_at V F False t k i) n sz"

definition xml_measurer :: "('s, 'a) ser_env \<Rightarrow> 's ser_formats \<Rightarrow> bool \<Rightarrow> int \<Rightarrow> int \<Rightarrow> int \<Rightarrow> 's Serialize \<Rightarrow> bool" where
  "xml_measurer V F t k i pos sz \<longleftrightarrow> text_measurer (xml_at V F False t k i) pos sz"

text \<open>An outermost function is called while the formats are translated.\<close>

definition callable :: "bool \<Rightarrow> int \<Rightarrow> ser_prog \<Rightarrow> bool" where
  "callable t k q \<longleftrightarrow> 1 \<le> k \<or> k = 0 \<and> t \<and> (case q of TypeFn _ _ _ \<Rightarrow> True | _ \<Rightarrow> False)"

lemma xml_prints: "xml_prog V q \<Longrightarrow> callable t k q \<Longrightarrow> prog_text (xml_machine V) q k i = Some (xml_text V q i, values_of q, i) \<and> (0 < k \<or> 0 \<le> k \<and> t)"
  using xml_machine_prints [of V q k i]
  by (cases q) (auto simp: callable_def simp del: prog_text.simps xml_text.simps xml_prog.simps)

subsection \<open>Properties\<close>

text \<open>An object and values for the examples.\<close>

definition xml_formats :: "('s, 'a) ser_env \<Rightarrow> 's ser_formats" where
  "xml_formats V = one_format (SerializeFormatXmlOps V)"

definition xml_object :: "uint32 \<Rightarrow> bool \<Rightarrow> int \<Rightarrow> int \<Rightarrow> stream_ptr \<Rightarrow> calc_channel owned \<Rightarrow> 's IOChannel \<Rightarrow> 's Serialize" where
  "xml_object mode t k i to calc ch = format_object (SerializeFormatXmlOptions False) mode t k i to calc ch"

lemma xml_object_ok:
  assumes "0 < k \<or> 0 \<le> k \<and> t"
  shows "xml_writer (example_env h) (xml_formats (example_env h)) t k i n (xml_object SERIALIZE_MODE_WRITE t k i UserStream calc ch) \<longleftrightarrow>
    mem_inv ch \<and> \<not> mf_eof (mem_view ch) \<and> mf_pos (mem_view ch) + n \<le> length (mf_bytes (mem_view ch))"
    "writing m \<Longrightarrow> calc_can m \<Longrightarrow> ch_currentIndexPosition m = pos \<Longrightarrow>
      xml_measurer V (xml_formats V) t k i pos (xml_object SERIALIZE_MODE_CALC t k i CalcStream (Own m) ch2)"
  using assms
  by (auto simp: xml_writer_def text_writer_def xml_measurer_def text_measurer_def xml_at_def format_at_def text_mode_def inside_def xml_formats_def
      one_format_def xml_object_def format_object_def example_env_def Serialize_zero_def)

lemma example_xml_values:
  "xml_prog (example_env True) example_number" "xml_prog (example_env True) example_pair" "xml_prog (example_env True) example_string"
  "xml_text (example_env True) example_number i = xml_field i (ascii ''int'') [120, 0] (ascii ''-42'')"
  "xml_text (example_env True) example_string i = xml_field i (ascii ''string'') [115, 0] (ascii ''H&quot;'')"
  "xml_text (example_env True) example_pair i = xml_array i (ascii ''unsigned short int'') [121, 0] 2 @
     xml_index (i + 2) 0 @ ascii ''5'' @ xml_close ''element'' @ xml_index (i + 2) 1 @ ascii ''263'' @ xml_close ''element'' @
     spaces_text i @ xml_close ''array''"
  by (simp_all add: example_number_def example_pair_def example_string_def text_name_def c_string_def is_char_type_def SERIALIZE_IS_ARRAY_ELEMENT_def
      value_items_def value_texts_def xml_spec_def xml_tag_def SerializeFormatXml_getTypeInfo_def example_args example_host upt_conv_Cons
      xml_indexed_def xml_byte_entity xml_entity_def ascii_def cstr_def in_range_def xml_field_def xml_array_def xml_open_def xml_attr_def)

lemma example_decimals: "signed_decimal 0 = [48]" "signed_decimal 1 = [49]" "signed_decimal 2 = [50]"
  by (simp_all add: signed_decimal_def decimal.simps)

text \<open>C35: What the Xml format writes for a function of the user is what a printer without state prints for it: each type, base
  type, array, array of structures and value has its tags at the indentation of its depth, with names, types, sizes and
  indices as attributes, strings with their special characters replaced by entities. The text goes into the memory at its
  position, and the values of the user stay as they are.\<close>

theorem Xml_writes_text:
  assumes "xml_prog V q" and "callable t k q" and "xml_writer V F t k i (length (xml_text V q i) + n) sz"
  shows "\<exists>sz'. serialize_call V F q sz = Ok (values_of q, sz') \<and> xml_writer V F t k i n sz' \<and>
    mem_view (sz_channel sz') = mf_put (xml_text V q i) (mem_view (sz_channel sz))"
proof -
  have v: "on_memory V = V" using assms(3) by (simp add: xml_writer_def text_writer_def)
  note p = xml_prints [OF assms(1,2), of i]
  show ?thesis unfolding xml_writer_def
    by (rule text_written [OF _ assms(3) [unfolded xml_writer_def]])
      (rule mem_xml.call_tells [of V q k i _ _ i t F, unfolded v, OF p [THEN conjunct1] p [THEN conjunct2]])
qed

theorem Xml_writes_text_witness:
  "\<exists>ch sz'. serialize_call (example_env True) (xml_formats (example_env True)) (TypeFn [112, 0] [80, 0] [example_pair, example_string])
       (xml_object SERIALIZE_MODE_WRITE True 0 0 UserStream Null ch) = Ok ([[5, 0, 7, 1], [72, 34, 0]], sz') \<and>
     mf_bytes (mem_view (sz_channel sz')) =
       ascii (''<struct '' @ xml_attribute ''type'' ''P'' @ '' '' @ xml_attribute ''name'' ''p'' @ ''>'' @ [CHR 0x0A] @
         ''  <array '' @ xml_attribute ''type'' ''unsigned short int'' @ '' '' @ xml_attribute ''name'' ''y'' @ '' '' @
           xml_attribute ''size'' ''2'' @ ''>'' @ [CHR 0x0A] @
         ''    <element '' @ xml_attribute ''index'' ''0'' @ ''>5</element>'' @ [CHR 0x0A] @
         ''    <element '' @ xml_attribute ''index'' ''1'' @ ''>263</element>'' @ [CHR 0x0A] @
         ''  </array>'' @ [CHR 0x0A] @
         ''  <field '' @ xml_attribute ''type'' ''string'' @ '' '' @ xml_attribute ''name'' ''s'' @ ''>H&quot;</field>'' @ [CHR 0x0A] @
         ''</struct>'' @ [CHR 0x0A])"
proof -
  obtain ch0 :: mem_channel and mem where i: "IOChannel_init IOChannel_zero 20 = Ok (True, ch0, mem)" "fresh_channel ch0" "20 = mem + 8"
    using IOChannel_init_ok [of 20] by auto
  then obtain ch where ch: "mem_inv ch" "mem_view ch = \<lparr>mf_bytes = replicate 222 0, mf_pos = 0, mf_ungot = [],
      mf_room = 1024, mf_eof = False, mf_last = 0\<rparr>"
    using IOChannelMem_open_file [of ch0 "replicate 222 0" mem] by auto
  let ?V = "example_env True" and ?q = "TypeFn [112, 0] [80, 0] [example_pair, example_string]"
  let ?T = "[60, 115, 116, 114, 117, 99, 116, 32, 116, 121, 112, 101, 61, 34, 80, 34, 32, 110, 97, 109, 101, 61, 34, 112, 34, 62, 10, 32, 32, 60, 97, 114, 114, 97, 121, 32, 116, 121, 112, 101, 61, 34, 117, 110, 115, 105, 103, 110, 101, 100, 32, 115, 104, 111, 114, 116, 32, 105, 110, 116, 34, 32, 110, 97, 109, 101, 61, 34, 121, 34, 32, 115, 105, 122, 101, 61, 34, 50, 34, 62, 10, 32, 32, 32, 32, 60, 101, 108, 101, 109, 101, 110, 116, 32, 105, 110, 100, 101, 120, 61, 34, 48, 34, 62, 53, 60, 47, 101, 108, 101, 109, 101, 110, 116, 62, 10, 32, 32, 32, 32, 60, 101, 108, 101, 109, 101, 110, 116, 32, 105, 110, 100, 101, 120, 61, 34, 49, 34, 62, 50, 54, 51, 60, 47, 101, 108, 101, 109, 101, 110, 116, 62, 10, 32, 32, 60, 47, 97, 114, 114, 97, 121, 62, 10, 32, 32, 60, 102, 105, 101, 108, 100, 32, 116, 121, 112, 101, 61, 34, 115, 116, 114, 105, 110, 103, 34, 32, 110, 97, 109, 101, 61, 34, 115, 34, 62, 72, 38, 113, 117, 111, 116, 59, 60, 47, 102, 105, 101, 108, 100, 62, 10, 60, 47, 115, 116, 114, 117, 99, 116, 62, 10] :: byte list"
  have q: "xml_prog ?V ?q" by (simp add: example_xml_values text_name_def c_string_def)
  have T: "xml_text ?V ?q 0 = ?T"
    by (simp add: example_xml_values xml_open_def xml_attr_def xml_close_def xml_array_def xml_index_def xml_number_def xml_field_def example_spaces
        ascii_def example_decimals)
  have w: "xml_writer ?V (xml_formats ?V) True 0 0 (length (xml_text ?V ?q 0) + 0) (xml_object SERIALIZE_MODE_WRITE True 0 0 UserStream Null ch)"
    unfolding T by (subst xml_object_ok) (simp_all add: ch)
  from Xml_writes_text [OF q _ w] obtain sz' where "serialize_call ?V (xml_formats ?V) ?q
      (xml_object SERIALIZE_MODE_WRITE True 0 0 UserStream Null ch) = Ok (values_of ?q, sz')"
    "mem_view (sz_channel sz') = mf_put ?T (mem_view (sz_channel (xml_object SERIALIZE_MODE_WRITE True 0 0 UserStream Null ch)))"
    unfolding T by (auto simp: callable_def)
  then show ?thesis
    using ch(2) by (intro exI [of _ ch] exI [of _ sz'])
      (simp add: example_values_of values_of_simps xml_object_def format_object_def mf_put_def xml_attribute_def ascii_def)
qed

text \<open>C36: The measuring stream counts exactly the bytes of this text, for functions with arrays of values, too.\<close>

theorem Xml_measures_text:
  assumes "xml_prog V q" and "callable t k q" and "xml_measurer V F t k i pos sz"
  shows "\<exists>sz'. serialize_call V F q sz = Ok (values_of q, sz') \<and> xml_measurer V F t k i (pos + int (length (xml_text V q i))) sz'"
  unfolding xml_measurer_def
  by (rule text_measured [OF _ assms(3) [unfolded xml_measurer_def]])
    (use xml_prints [OF assms(1,2), of i] in \<open>blast intro: calc_xml.call_tells\<close>)

theorem Xml_measures_text_witness:
  "\<exists>m ch sz'. serialize_call (example_env True) (xml_formats (example_env True)) example_pair
       (xml_object SERIALIZE_MODE_CALC False 1 4 CalcStream (Own m) ch) = Ok ([[5, 0, 7, 1]], sz') \<and>
     xml_measurer (example_env True) (xml_formats (example_env True)) False 1 4 145 sz'"
proof -
  obtain m0 :: calc_channel and mem where i: "IOChannel_init IOChannel_zero 9 = Ok (True, m0, mem)" "fresh_channel m0" "9 = mem + 8"
    using IOChannel_init_ok [of 9] by auto
  then obtain m where m: "writing m" "calc_can m" "ch_currentIndexPosition m = 0"
    using IOChannelCalc_open_ok [of m0 mem] by (auto simp: calc_can_def writing_def)
  let ?V = "example_env True" and ?sz = "xml_object SERIALIZE_MODE_CALC False 1 4 CalcStream (Own m) IOChannel_zero"
  have l: "int (length (xml_text ?V example_pair 4)) = 145"
    by (simp add: example_xml_values xml_open_def xml_attr_def xml_close_def xml_array_def xml_index_def xml_number_def example_spaces
        ascii_def example_decimals)
  have "xml_measurer ?V (xml_formats ?V) False 1 4 0 ?sz" by (rule xml_object_ok(2)) (simp_all add: m)
  from Xml_measures_text [OF example_xml_values(2) _ this] show ?thesis
    unfolding l by (intro exI [of _ m] exI [of _ IOChannel_zero]) (auto simp: callable_def example_values_of)
qed

end
