(* ===== verification/Base_Serialize.thy ===== *)
theory Base_Serialize
  imports Ser_Text Mem_X
begin

text \<open>
  The serialize functions of the library: those for the types of C at the end of src/src/Serialize.c, and
  those for the types of the library in src/src/BaseSerialize.c, single, in arrays, in structures and in memory blocks,
  and the one of src/src/BBDMSerialize.c. They are functions of the user in the sense of \<^verbatim>\<open>Ser_Object\<close>: a structure gives
  the calls for its fields, and the name and the type it begins with.

  A pointer to a value of C is the memory behind it. A value of the library is a word, a structure a record, and \<open>h\<close> is the
  byte order of the host (true for little endian), which says how a word lies in memory. Numbers with a point are the bits of
  their representation. The structures with coordinates (\<^verbatim>\<open>Base1DI8\<close> to \<^verbatim>\<open>Base4DF64\<close>) share one record for each dimension. An
  \<open>indirectSerialize\<close> function only casts its pointer.
\<close>

subsection \<open>Types of C\<close>

definition Char_serialize :: "byte list \<Rightarrow> byte list \<Rightarrow> ser_prog" where
  "Char_serialize value name = Value SERIALIZE_TYPE_CHAR name value 1 1"

definition SChar_serialize :: "byte list \<Rightarrow> byte list \<Rightarrow> ser_prog" where
  "SChar_serialize value name = Value SERIALIZE_TYPE_SCHAR name value 1 1"

definition UChar_serialize :: "byte list \<Rightarrow> byte list \<Rightarrow> ser_prog" where
  "UChar_serialize value name = Value SERIALIZE_TYPE_UCHAR name value 1 1"

definition SInt_serialize :: "byte list \<Rightarrow> byte list \<Rightarrow> ser_prog" where
  "SInt_serialize value name = Value SERIALIZE_TYPE_SINT name value 2 1"

definition USInt_serialize :: "byte list \<Rightarrow> byte list \<Rightarrow> ser_prog" where
  "USInt_serialize value name = Value SERIALIZE_TYPE_USINT name value 2 1"

definition Int_serialize :: "byte list \<Rightarrow> byte list \<Rightarrow> ser_prog" where
  "Int_serialize value name = Value SERIALIZE_TYPE_INT name value 4 1"

definition UInt_serialize :: "byte list \<Rightarrow> byte list \<Rightarrow> ser_prog" where
  "UInt_serialize value name = Value SERIALIZE_TYPE_UINT name value 4 1"

definition LInt_serialize :: "byte list \<Rightarrow> byte list \<Rightarrow> ser_prog" where
  "LInt_serialize value name = Value SERIALIZE_TYPE_LINT name value 8 1"

definition ULInt_serialize :: "byte list \<Rightarrow> byte list \<Rightarrow> ser_prog" where
  "ULInt_serialize value name = Value SERIALIZE_TYPE_ULINT name value 8 1"

definition LL_serialize :: "byte list \<Rightarrow> byte list \<Rightarrow> ser_prog" where
  "LL_serialize value name = Value SERIALIZE_TYPE_LL name value 8 1"

definition ULL_serialize :: "byte list \<Rightarrow> byte list \<Rightarrow> ser_prog" where
  "ULL_serialize value name = Value SERIALIZE_TYPE_ULL name value 8 1"

definition Float_serialize :: "byte list \<Rightarrow> byte list \<Rightarrow> ser_prog" where
  "Float_serialize value name = Value SERIALIZE_TYPE_FLOAT name value 4 1"

definition Double_serialize :: "byte list \<Rightarrow> byte list \<Rightarrow> ser_prog" where
  "Double_serialize value name = Value SERIALIZE_TYPE_DOUBLE name value 8 1"

definition LDouble_serialize :: "byte list \<Rightarrow> byte list \<Rightarrow> ser_prog" where
  "LDouble_serialize value name = Value SERIALIZE_TYPE_LDOUBLE name value 16 1"

definition String_serialize :: "byte list \<Rightarrow> byte list \<Rightarrow> int \<Rightarrow> ser_prog" where
  "String_serialize value name stringLen = Value SERIALIZE_TYPE_STRING name value 1 stringLen"

definition CharArray_serialize :: "byte list \<Rightarrow> byte list \<Rightarrow> int \<Rightarrow> ser_prog" where
  "CharArray_serialize value name arrayLen = Value SERIALIZE_TYPE_CHARARRAY name value 1 arrayLen"

definition SCharArray_serialize :: "byte list \<Rightarrow> byte list \<Rightarrow> int \<Rightarrow> ser_prog" where
  "SCharArray_serialize value name arrayLen = Value SERIALIZE_TYPE_SCHARARRAY name value 1 arrayLen"

definition UCharArray_serialize :: "byte list \<Rightarrow> byte list \<Rightarrow> int \<Rightarrow> ser_prog" where
  "UCharArray_serialize value name arrayLen = Value SERIALIZE_TYPE_UCHARARRAY name value 1 arrayLen"

definition SIntArray_serialize :: "byte list \<Rightarrow> byte list \<Rightarrow> int \<Rightarrow> ser_prog" where
  "SIntArray_serialize value name arrayLen = Value SERIALIZE_TYPE_SINTARRAY name value 2 arrayLen"

definition USIntArray_serialize :: "byte list \<Rightarrow> byte list \<Rightarrow> int \<Rightarrow> ser_prog" where
  "USIntArray_serialize value name arrayLen = Value SERIALIZE_TYPE_USINTARRAY name value 2 arrayLen"

definition IntArray_serialize :: "byte list \<Rightarrow> byte list \<Rightarrow> int \<Rightarrow> ser_prog" where
  "IntArray_serialize value name arrayLen = Value SERIALIZE_TYPE_INTARRAY name value 4 arrayLen"

definition UIntArray_serialize :: "byte list \<Rightarrow> byte list \<Rightarrow> int \<Rightarrow> ser_prog" where
  "UIntArray_serialize value name arrayLen = Value SERIALIZE_TYPE_UINTARRAY name value 4 arrayLen"

definition LIntArray_serialize :: "byte list \<Rightarrow> byte list \<Rightarrow> int \<Rightarrow> ser_prog" where
  "LIntArray_serialize value name arrayLen = Value SERIALIZE_TYPE_LINTARRAY name value 8 arrayLen"

definition ULIntArray_serialize :: "byte list \<Rightarrow> byte list \<Rightarrow> int \<Rightarrow> ser_prog" where
  "ULIntArray_serialize value name arrayLen = Value SERIALIZE_TYPE_ULINTARRAY name value 8 arrayLen"

definition LLArray_serialize :: "byte list \<Rightarrow> byte list \<Rightarrow> int \<Rightarrow> ser_prog" where
  "LLArray_serialize value name arrayLen = Value SERIALIZE_TYPE_LLARRAY name value 8 arrayLen"

definition ULLArray_serialize :: "byte list \<Rightarrow> byte list \<Rightarrow> int \<Rightarrow> ser_prog" where
  "ULLArray_serialize value name arrayLen = Value SERIALIZE_TYPE_ULLARRAY name value 8 arrayLen"

definition FloatArray_serialize :: "byte list \<Rightarrow> byte list \<Rightarrow> int \<Rightarrow> ser_prog" where
  "FloatArray_serialize value name arrayLen = Value SERIALIZE_TYPE_FLOATARRAY name value 4 arrayLen"

definition DoubleArray_serialize :: "byte list \<Rightarrow> byte list \<Rightarrow> int \<Rightarrow> ser_prog" where
  "DoubleArray_serialize value name arrayLen = Value SERIALIZE_TYPE_DOUBLEARRAY name value 8 arrayLen"

definition LDoubleArray_serialize :: "byte list \<Rightarrow> byte list \<Rightarrow> int \<Rightarrow> ser_prog" where
  "LDoubleArray_serialize value name arrayLen = Value SERIALIZE_TYPE_LDOUBLEARRAY name value 16 arrayLen"

subsection \<open>Types of the library\<close>

type_synonym BaseBool = "32 word"
type_synonym BaseI8 = "8 word"
type_synonym BaseUI8 = "8 word"
type_synonym BaseI16 = "16 word"
type_synonym BaseUI16 = "16 word"
type_synonym BaseI32 = "32 word"
type_synonym BaseUI32 = "32 word"
type_synonym BaseI64 = "64 word"
type_synonym BaseUI64 = "64 word"
type_synonym BaseF32 = "32 word"
type_synonym BaseF64 = "64 word"

text \<open>The memory of a word.\<close>

definition host_word :: "bool \<Rightarrow> 'w::len word \<Rightarrow> byte list" where
  "host_word h w = host_bytes h (LENGTH('w) div 8) (unat w)"

definition BaseBool_serialize :: "bool \<Rightarrow> BaseBool \<Rightarrow> byte list \<Rightarrow> ser_prog" where
  "BaseBool_serialize h self name = BaseTypeFn name (cstr ''BaseBool'') [Int_serialize (host_word h self) name]"

definition BaseI8_serialize :: "bool \<Rightarrow> BaseI8 \<Rightarrow> byte list \<Rightarrow> ser_prog" where
  "BaseI8_serialize h self name = BaseTypeFn name (cstr ''BaseBool'') [SChar_serialize (host_word h self) name]"

definition BaseUI8_serialize :: "bool \<Rightarrow> BaseUI8 \<Rightarrow> byte list \<Rightarrow> ser_prog" where
  "BaseUI8_serialize h self name = BaseTypeFn name (cstr ''BaseUI8'') [UChar_serialize (host_word h self) name]"

definition BaseI16_serialize :: "bool \<Rightarrow> BaseI16 \<Rightarrow> byte list \<Rightarrow> ser_prog" where
  "BaseI16_serialize h self name = BaseTypeFn name (cstr ''BaseI16'') [SInt_serialize (host_word h self) name]"

definition BaseUI16_serialize :: "bool \<Rightarrow> BaseUI16 \<Rightarrow> byte list \<Rightarrow> ser_prog" where
  "BaseUI16_serialize h self name = BaseTypeFn name (cstr ''BaseUI16'') [USInt_serialize (host_word h self) name]"

definition BaseI32_serialize :: "bool \<Rightarrow> BaseI32 \<Rightarrow> byte list \<Rightarrow> ser_prog" where
  "BaseI32_serialize h self name = BaseTypeFn name (cstr ''BaseI32'') [Int_serialize (host_word h self) name]"

definition BaseUI32_serialize :: "bool \<Rightarrow> BaseUI32 \<Rightarrow> byte list \<Rightarrow> ser_prog" where
  "BaseUI32_serialize h self name = BaseTypeFn name (cstr ''BaseUI32'') [UInt_serialize (host_word h self) name]"

definition BaseI64_serialize :: "bool \<Rightarrow> BaseI64 \<Rightarrow> byte list \<Rightarrow> ser_prog" where
  "BaseI64_serialize h self name = BaseTypeFn name (cstr ''BaseI64'') [LL_serialize (host_word h self) name]"

definition BaseUI64_serialize :: "bool \<Rightarrow> BaseUI64 \<Rightarrow> byte list \<Rightarrow> ser_prog" where
  "BaseUI64_serialize h self name = BaseTypeFn name (cstr ''BaseUI64'') [ULL_serialize (host_word h self) name]"

definition BaseF32_serialize :: "bool \<Rightarrow> BaseF32 \<Rightarrow> byte list \<Rightarrow> ser_prog" where
  "BaseF32_serialize h self name = BaseTypeFn name (cstr ''BaseF32'') [Float_serialize (host_word h self) name]"

definition BaseF64_serialize :: "bool \<Rightarrow> BaseF64 \<Rightarrow> byte list \<Rightarrow> ser_prog" where
  "BaseF64_serialize h self name = BaseTypeFn name (cstr ''BaseF64'') [Double_serialize (host_word h self) name]"

subsection \<open>Arrays\<close>

text \<open>The length is handed on as an \<^verbatim>\<open>int\<close>.\<close>

definition BaseBoolArray_serialize :: "byte list \<Rightarrow> byte list \<Rightarrow> BaseUI32 \<Rightarrow> ser_prog" where
  "BaseBoolArray_serialize self name arrayLength = TypeFn name (cstr ''BaseBoolArray'') [IntArray_serialize self name (sint arrayLength)]"

definition BaseI8Array_serialize :: "byte list \<Rightarrow> byte list \<Rightarrow> BaseUI32 \<Rightarrow> ser_prog" where
  "BaseI8Array_serialize self name arrayLength = TypeFn name (cstr ''BaseI8Array'') [SCharArray_serialize self name (sint arrayLength)]"

definition BaseUI8Array_serialize :: "byte list \<Rightarrow> byte list \<Rightarrow> BaseUI32 \<Rightarrow> ser_prog" where
  "BaseUI8Array_serialize self name arrayLength = TypeFn name (cstr ''BaseUI8Array'') [UCharArray_serialize self name (sint arrayLength)]"

definition BaseI16Array_serialize :: "byte list \<Rightarrow> byte list \<Rightarrow> BaseUI32 \<Rightarrow> ser_prog" where
  "BaseI16Array_serialize self name arrayLength = TypeFn name (cstr ''BaseI16Array'') [SIntArray_serialize self name (sint arrayLength)]"

definition BaseUI16Array_serialize :: "byte list \<Rightarrow> byte list \<Rightarrow> BaseUI32 \<Rightarrow> ser_prog" where
  "BaseUI16Array_serialize self name arrayLength = TypeFn name (cstr ''BaseUI16Array'') [USIntArray_serialize self name (sint arrayLength)]"

definition BaseI32Array_serialize :: "byte list \<Rightarrow> byte list \<Rightarrow> BaseUI32 \<Rightarrow> ser_prog" where
  "BaseI32Array_serialize self name arrayLength = TypeFn name (cstr ''BaseI32Array'') [IntArray_serialize self name (sint arrayLength)]"

definition BaseUI32Array_serialize :: "byte list \<Rightarrow> byte list \<Rightarrow> BaseUI32 \<Rightarrow> ser_prog" where
  "BaseUI32Array_serialize self name arrayLength = TypeFn name (cstr ''BaseUI32Array'') [UIntArray_serialize self name (sint arrayLength)]"

definition BaseF32Array_serialize :: "byte list \<Rightarrow> byte list \<Rightarrow> BaseUI32 \<Rightarrow> ser_prog" where
  "BaseF32Array_serialize self name arrayLength = TypeFn name (cstr ''BaseF32Array'') [FloatArray_serialize self name (sint arrayLength)]"

definition BaseF64Array_serialize :: "byte list \<Rightarrow> byte list \<Rightarrow> BaseUI32 \<Rightarrow> ser_prog" where
  "BaseF64Array_serialize self name arrayLength = TypeFn name (cstr ''BaseF64Array'') [DoubleArray_serialize self name (sint arrayLength)]"

definition BaseI64Array_serialize :: "byte list \<Rightarrow> byte list \<Rightarrow> BaseUI32 \<Rightarrow> ser_prog" where
  "BaseI64Array_serialize self name arrayLength = TypeFn name (cstr ''BaseI64Array'') [LLArray_serialize self name (sint arrayLength)]"

definition BaseUI64Array_serialize :: "byte list \<Rightarrow> byte list \<Rightarrow> BaseUI32 \<Rightarrow> ser_prog" where
  "BaseUI64Array_serialize self name arrayLength = TypeFn name (cstr ''BaseUI64Array'') [ULLArray_serialize self name (sint arrayLength)]"

subsection \<open>Structures\<close>

record Base2DPoint =
  pt_x :: BaseI32
  pt_y :: BaseI32

record Base2DSize =
  sz_width :: BaseI32
  sz_height :: BaseI32

record Base2DRect =
  rc_upperLeft :: Base2DPoint
  rc_size :: Base2DSize

record BaseC32 =
  c_real :: BaseF32
  c_imag :: BaseF32

record 'a Base1D = d1_x :: 'a

record 'a Base2D =
  d2_x :: 'a
  d2_y :: 'a

record 'a Base3D =
  d3_x :: 'a
  d3_y :: 'a
  d3_z :: 'a

record 'a Base4D =
  d4_x :: 'a
  d4_y :: 'a
  d4_z :: 'a
  d4_t :: 'a

record Base1DI32vF32 =
  v1_x :: BaseI32
  v1_v :: BaseF32

record Base2DI32vF32 =
  v2_x :: BaseI32
  v2_y :: BaseI32
  v2_v :: BaseF32

record Base3DI32vF32 =
  v3_x :: BaseI32
  v3_y :: BaseI32
  v3_z :: BaseI32
  v3_v :: BaseF32

record Base4DI32vF32 =
  v4_x :: BaseI32
  v4_y :: BaseI32
  v4_z :: BaseI32
  v4_t :: BaseI32
  v4_v :: BaseF32

definition Base2DPoint_serialize :: "bool \<Rightarrow> Base2DPoint \<Rightarrow> byte list \<Rightarrow> ser_prog" where
  "Base2DPoint_serialize h self name = TypeFn name (cstr ''Base2DPoint'')
     [BaseI32_serialize h (pt_x self) (cstr ''x''),
      BaseI32_serialize h (pt_y self) (cstr ''y'')]"

definition Base2DSize_serialize :: "bool \<Rightarrow> Base2DSize \<Rightarrow> byte list \<Rightarrow> ser_prog" where
  "Base2DSize_serialize h self name = TypeFn name (cstr ''Base2DSize'')
     [BaseI32_serialize h (sz_width self) (cstr ''width''),
      BaseI32_serialize h (sz_height self) (cstr ''height'')]"

definition Base2DRect_serialize :: "bool \<Rightarrow> Base2DRect \<Rightarrow> byte list \<Rightarrow> ser_prog" where
  "Base2DRect_serialize h self name = TypeFn name (cstr ''Base2DRect'')
     [Base2DPoint_serialize h (rc_upperLeft self) (cstr ''upperLeft''),
      Base2DSize_serialize h (rc_size self) (cstr ''size'')]"

definition BaseC32_serialize :: "bool \<Rightarrow> BaseC32 \<Rightarrow> byte list \<Rightarrow> ser_prog" where
  "BaseC32_serialize h self name = TypeFn name (cstr ''BaseC32'')
     [BaseF32_serialize h (c_real self) (cstr ''real''),
      BaseF32_serialize h (c_imag self) (cstr ''imag'')]"

definition Base1DI8_serialize :: "bool \<Rightarrow> BaseI8 Base1D \<Rightarrow> byte list \<Rightarrow> ser_prog" where
  "Base1DI8_serialize h self name = TypeFn name (cstr ''Base1DI8'')
     [BaseI8_serialize h (d1_x self) (cstr ''x'')]"

definition Base2DI8_serialize :: "bool \<Rightarrow> BaseI8 Base2D \<Rightarrow> byte list \<Rightarrow> ser_prog" where
  "Base2DI8_serialize h self name = TypeFn name (cstr ''Base2DI8'')
     [BaseI8_serialize h (d2_x self) (cstr ''x''),
      BaseI8_serialize h (d2_y self) (cstr ''y'')]"

definition Base3DI8_serialize :: "bool \<Rightarrow> BaseI8 Base3D \<Rightarrow> byte list \<Rightarrow> ser_prog" where
  "Base3DI8_serialize h self name = TypeFn name (cstr ''Base3DI8'')
     [BaseI8_serialize h (d3_x self) (cstr ''x''),
      BaseI8_serialize h (d3_y self) (cstr ''y''),
      BaseI8_serialize h (d3_z self) (cstr ''z'')]"

definition Base4DI8_serialize :: "bool \<Rightarrow> BaseI8 Base4D \<Rightarrow> byte list \<Rightarrow> ser_prog" where
  "Base4DI8_serialize h self name = TypeFn name (cstr ''Base4DI8'')
     [BaseI8_serialize h (d4_x self) (cstr ''x''),
      BaseI8_serialize h (d4_y self) (cstr ''y''),
      BaseI8_serialize h (d4_z self) (cstr ''z''),
      BaseI8_serialize h (d4_t self) (cstr ''t'')]"

definition Base1DUI8_serialize :: "bool \<Rightarrow> BaseUI8 Base1D \<Rightarrow> byte list \<Rightarrow> ser_prog" where
  "Base1DUI8_serialize h self name = TypeFn name (cstr ''Base1DUI8'')
     [BaseUI8_serialize h (d1_x self) (cstr ''x'')]"

definition Base2DUI8_serialize :: "bool \<Rightarrow> BaseUI8 Base2D \<Rightarrow> byte list \<Rightarrow> ser_prog" where
  "Base2DUI8_serialize h self name = TypeFn name (cstr ''Base2DUI8'')
     [BaseUI8_serialize h (d2_x self) (cstr ''x''),
      BaseUI8_serialize h (d2_y self) (cstr ''y'')]"

definition Base3DUI8_serialize :: "bool \<Rightarrow> BaseUI8 Base3D \<Rightarrow> byte list \<Rightarrow> ser_prog" where
  "Base3DUI8_serialize h self name = TypeFn name (cstr ''Base3DUI8'')
     [BaseUI8_serialize h (d3_x self) (cstr ''x''),
      BaseUI8_serialize h (d3_y self) (cstr ''y''),
      BaseUI8_serialize h (d3_z self) (cstr ''z'')]"

definition Base4DUI8_serialize :: "bool \<Rightarrow> BaseUI8 Base4D \<Rightarrow> byte list \<Rightarrow> ser_prog" where
  "Base4DUI8_serialize h self name = TypeFn name (cstr ''Base4DUI8'')
     [BaseUI8_serialize h (d4_x self) (cstr ''x''),
      BaseUI8_serialize h (d4_y self) (cstr ''y''),
      BaseUI8_serialize h (d4_z self) (cstr ''z''),
      BaseUI8_serialize h (d4_t self) (cstr ''t'')]"

definition Base1DI16_serialize :: "bool \<Rightarrow> BaseI16 Base1D \<Rightarrow> byte list \<Rightarrow> ser_prog" where
  "Base1DI16_serialize h self name = TypeFn name (cstr ''Base1DI16'')
     [BaseI16_serialize h (d1_x self) (cstr ''x'')]"

definition Base2DI16_serialize :: "bool \<Rightarrow> BaseI16 Base2D \<Rightarrow> byte list \<Rightarrow> ser_prog" where
  "Base2DI16_serialize h self name = TypeFn name (cstr ''Base2DI16'')
     [BaseI16_serialize h (d2_x self) (cstr ''x''),
      BaseI16_serialize h (d2_y self) (cstr ''y'')]"

definition Base3DI16_serialize :: "bool \<Rightarrow> BaseI16 Base3D \<Rightarrow> byte list \<Rightarrow> ser_prog" where
  "Base3DI16_serialize h self name = TypeFn name (cstr ''Base3DI16'')
     [BaseI16_serialize h (d3_x self) (cstr ''x''),
      BaseI16_serialize h (d3_y self) (cstr ''y''),
      BaseI16_serialize h (d3_z self) (cstr ''z'')]"

definition Base4DI16_serialize :: "bool \<Rightarrow> BaseI16 Base4D \<Rightarrow> byte list \<Rightarrow> ser_prog" where
  "Base4DI16_serialize h self name = TypeFn name (cstr ''Base4DI16'')
     [BaseI16_serialize h (d4_x self) (cstr ''x''),
      BaseI16_serialize h (d4_y self) (cstr ''y''),
      BaseI16_serialize h (d4_z self) (cstr ''z''),
      BaseI16_serialize h (d4_t self) (cstr ''t'')]"

definition Base1DUI16_serialize :: "bool \<Rightarrow> BaseUI16 Base1D \<Rightarrow> byte list \<Rightarrow> ser_prog" where
  "Base1DUI16_serialize h self name = TypeFn name (cstr ''Base1DUI16'')
     [BaseUI16_serialize h (d1_x self) (cstr ''x'')]"

definition Base2DUI16_serialize :: "bool \<Rightarrow> BaseUI16 Base2D \<Rightarrow> byte list \<Rightarrow> ser_prog" where
  "Base2DUI16_serialize h self name = TypeFn name (cstr ''Base2DUI16'')
     [BaseUI16_serialize h (d2_x self) (cstr ''x''),
      BaseUI16_serialize h (d2_y self) (cstr ''y'')]"

definition Base3DUI16_serialize :: "bool \<Rightarrow> BaseUI16 Base3D \<Rightarrow> byte list \<Rightarrow> ser_prog" where
  "Base3DUI16_serialize h self name = TypeFn name (cstr ''Base3DUI16'')
     [BaseUI16_serialize h (d3_x self) (cstr ''x''),
      BaseUI16_serialize h (d3_y self) (cstr ''y''),
      BaseUI16_serialize h (d3_z self) (cstr ''z'')]"

definition Base4DUI16_serialize :: "bool \<Rightarrow> BaseUI16 Base4D \<Rightarrow> byte list \<Rightarrow> ser_prog" where
  "Base4DUI16_serialize h self name = TypeFn name (cstr ''Base4DUI16'')
     [BaseUI16_serialize h (d4_x self) (cstr ''x''),
      BaseUI16_serialize h (d4_y self) (cstr ''y''),
      BaseUI16_serialize h (d4_z self) (cstr ''z''),
      BaseUI16_serialize h (d4_t self) (cstr ''t'')]"

definition Base1DI32_serialize :: "bool \<Rightarrow> BaseI32 Base1D \<Rightarrow> byte list \<Rightarrow> ser_prog" where
  "Base1DI32_serialize h self name = TypeFn name (cstr ''Base1DI32'')
     [BaseI32_serialize h (d1_x self) (cstr ''x'')]"

definition Base2DI32_serialize :: "bool \<Rightarrow> BaseI32 Base2D \<Rightarrow> byte list \<Rightarrow> ser_prog" where
  "Base2DI32_serialize h self name = TypeFn name (cstr ''Base2DI32'')
     [BaseI32_serialize h (d2_x self) (cstr ''x''),
      BaseI32_serialize h (d2_y self) (cstr ''y'')]"

definition Base3DI32_serialize :: "bool \<Rightarrow> BaseI32 Base3D \<Rightarrow> byte list \<Rightarrow> ser_prog" where
  "Base3DI32_serialize h self name = TypeFn name (cstr ''Base3DI32'')
     [BaseI32_serialize h (d3_x self) (cstr ''x''),
      BaseI32_serialize h (d3_y self) (cstr ''y''),
      BaseI32_serialize h (d3_z self) (cstr ''z'')]"

definition Base4DI32_serialize :: "bool \<Rightarrow> BaseI32 Base4D \<Rightarrow> byte list \<Rightarrow> ser_prog" where
  "Base4DI32_serialize h self name = TypeFn name (cstr ''Base4DI32'')
     [BaseI32_serialize h (d4_x self) (cstr ''x''),
      BaseI32_serialize h (d4_y self) (cstr ''y''),
      BaseI32_serialize h (d4_z self) (cstr ''z''),
      BaseI32_serialize h (d4_t self) (cstr ''t'')]"

definition Base1DUI32_serialize :: "bool \<Rightarrow> BaseUI32 Base1D \<Rightarrow> byte list \<Rightarrow> ser_prog" where
  "Base1DUI32_serialize h self name = TypeFn name (cstr ''Base1DUI32'')
     [BaseUI32_serialize h (d1_x self) (cstr ''x'')]"

definition Base2DUI32_serialize :: "bool \<Rightarrow> BaseUI32 Base2D \<Rightarrow> byte list \<Rightarrow> ser_prog" where
  "Base2DUI32_serialize h self name = TypeFn name (cstr ''Base2DUI32'')
     [BaseUI32_serialize h (d2_x self) (cstr ''x''),
      BaseUI32_serialize h (d2_y self) (cstr ''y'')]"

definition Base3DUI32_serialize :: "bool \<Rightarrow> BaseUI32 Base3D \<Rightarrow> byte list \<Rightarrow> ser_prog" where
  "Base3DUI32_serialize h self name = TypeFn name (cstr ''Base3DUI32'')
     [BaseUI32_serialize h (d3_x self) (cstr ''x''),
      BaseUI32_serialize h (d3_y self) (cstr ''y''),
      BaseUI32_serialize h (d3_z self) (cstr ''z'')]"

definition Base4DUI32_serialize :: "bool \<Rightarrow> BaseUI32 Base4D \<Rightarrow> byte list \<Rightarrow> ser_prog" where
  "Base4DUI32_serialize h self name = TypeFn name (cstr ''Base4DUI32'')
     [BaseUI32_serialize h (d4_x self) (cstr ''x''),
      BaseUI32_serialize h (d4_y self) (cstr ''y''),
      BaseUI32_serialize h (d4_z self) (cstr ''z''),
      BaseUI32_serialize h (d4_t self) (cstr ''t'')]"

definition Base1DF32_serialize :: "bool \<Rightarrow> BaseF32 Base1D \<Rightarrow> byte list \<Rightarrow> ser_prog" where
  "Base1DF32_serialize h self name = TypeFn name (cstr ''Base1DF32'')
     [BaseF32_serialize h (d1_x self) (cstr ''x'')]"

definition Base2DF32_serialize :: "bool \<Rightarrow> BaseF32 Base2D \<Rightarrow> byte list \<Rightarrow> ser_prog" where
  "Base2DF32_serialize h self name = TypeFn name (cstr ''Base2DF32'')
     [BaseF32_serialize h (d2_x self) (cstr ''x''),
      BaseF32_serialize h (d2_y self) (cstr ''y'')]"

definition Base3DF32_serialize :: "bool \<Rightarrow> BaseF32 Base3D \<Rightarrow> byte list \<Rightarrow> ser_prog" where
  "Base3DF32_serialize h self name = TypeFn name (cstr ''Base3DF32'')
     [BaseF32_serialize h (d3_x self) (cstr ''x''),
      BaseF32_serialize h (d3_y self) (cstr ''y''),
      BaseF32_serialize h (d3_z self) (cstr ''z'')]"

definition Base4DF32_serialize :: "bool \<Rightarrow> BaseF32 Base4D \<Rightarrow> byte list \<Rightarrow> ser_prog" where
  "Base4DF32_serialize h self name = TypeFn name (cstr ''Base4DF32'')
     [BaseF32_serialize h (d4_x self) (cstr ''x''),
      BaseF32_serialize h (d4_y self) (cstr ''y''),
      BaseF32_serialize h (d4_z self) (cstr ''z''),
      BaseF32_serialize h (d4_t self) (cstr ''t'')]"

definition Base1DF64_serialize :: "bool \<Rightarrow> BaseF64 Base1D \<Rightarrow> byte list \<Rightarrow> ser_prog" where
  "Base1DF64_serialize h self name = TypeFn name (cstr ''Base1DF64'')
     [BaseF64_serialize h (d1_x self) (cstr ''x'')]"

definition Base2DF64_serialize :: "bool \<Rightarrow> BaseF64 Base2D \<Rightarrow> byte list \<Rightarrow> ser_prog" where
  "Base2DF64_serialize h self name = TypeFn name (cstr ''Base2DF64'')
     [BaseF64_serialize h (d2_x self) (cstr ''x''),
      BaseF64_serialize h (d2_y self) (cstr ''y'')]"

definition Base3DF64_serialize :: "bool \<Rightarrow> BaseF64 Base3D \<Rightarrow> byte list \<Rightarrow> ser_prog" where
  "Base3DF64_serialize h self name = TypeFn name (cstr ''Base3DF64'')
     [BaseF64_serialize h (d3_x self) (cstr ''x''),
      BaseF64_serialize h (d3_y self) (cstr ''y''),
      BaseF64_serialize h (d3_z self) (cstr ''z'')]"

definition Base4DF64_serialize :: "bool \<Rightarrow> BaseF64 Base4D \<Rightarrow> byte list \<Rightarrow> ser_prog" where
  "Base4DF64_serialize h self name = TypeFn name (cstr ''Base4DF64'')
     [BaseF64_serialize h (d4_x self) (cstr ''x''),
      BaseF64_serialize h (d4_y self) (cstr ''y''),
      BaseF64_serialize h (d4_z self) (cstr ''z''),
      BaseF64_serialize h (d4_t self) (cstr ''t'')]"

definition Base1DI32vF32_serialize :: "bool \<Rightarrow> Base1DI32vF32 \<Rightarrow> byte list \<Rightarrow> ser_prog" where
  "Base1DI32vF32_serialize h self name = TypeFn name (cstr ''Base1DI32vF32'')
     [BaseI32_serialize h (v1_x self) (cstr ''x''),
      BaseF32_serialize h (v1_v self) (cstr ''v'')]"

definition Base2DI32vF32_serialize :: "bool \<Rightarrow> Base2DI32vF32 \<Rightarrow> byte list \<Rightarrow> ser_prog" where
  "Base2DI32vF32_serialize h self name = TypeFn name (cstr ''Base2DI32vF32'')
     [BaseI32_serialize h (v2_x self) (cstr ''x''),
      BaseI32_serialize h (v2_y self) (cstr ''y''),
      BaseF32_serialize h (v2_v self) (cstr ''v'')]"

definition Base3DI32vF32_serialize :: "bool \<Rightarrow> Base3DI32vF32 \<Rightarrow> byte list \<Rightarrow> ser_prog" where
  "Base3DI32vF32_serialize h self name = TypeFn name (cstr ''Base3DI32vF32'')
     [BaseI32_serialize h (v3_x self) (cstr ''x''),
      BaseI32_serialize h (v3_y self) (cstr ''y''),
      BaseI32_serialize h (v3_z self) (cstr ''z''),
      BaseF32_serialize h (v3_v self) (cstr ''v'')]"

definition Base4DI32vF32_serialize :: "bool \<Rightarrow> Base4DI32vF32 \<Rightarrow> byte list \<Rightarrow> ser_prog" where
  "Base4DI32vF32_serialize h self name = TypeFn name (cstr ''Base4DI32vF32'')
     [BaseI32_serialize h (v4_x self) (cstr ''x''),
      BaseI32_serialize h (v4_y self) (cstr ''y''),
      BaseI32_serialize h (v4_z self) (cstr ''z''),
      BaseI32_serialize h (v4_t self) (cstr ''t''),
      BaseF32_serialize h (v4_v self) (cstr ''v'')]"

text \<open>Arrays of structures: the macro \<^verbatim>\<open>STRUCT_ARRAY_SERIALIZE\<close> of src/src/SerializeStructTypes.h stops after an error, as the
  next call of the library does in any case. The loop runs over the unsigned count, and the calls of the library get it
  as an \<^verbatim>\<open>int\<close>, which is negative from \<^verbatim>\<open>2^31\<close> on. Elements behind the end of the array are unspecified.\<close>

definition STRUCT_ARRAY_SERIALIZE :: "'e list \<Rightarrow> byte list \<Rightarrow> byte list \<Rightarrow> ('e \<Rightarrow> byte list \<Rightarrow> ser_prog) \<Rightarrow> BaseUI32 \<Rightarrow> ser_prog" where
  "STRUCT_ARRAY_SERIALIZE value name elementType serializeFunction len =
     StructArray name elementType (sint len) (map (\<lambda>i. serializeFunction (value ! i) name) [0..<unat len])"

definition Base2DPointArray_serialize :: "bool \<Rightarrow> Base2DPoint list \<Rightarrow> byte list \<Rightarrow> BaseUI32 \<Rightarrow> ser_prog" where
  "Base2DPointArray_serialize h self name arrayLength = TypeFn name (cstr ''Base2DPointArray'')
     [STRUCT_ARRAY_SERIALIZE self name (cstr ''Base2DPoint'') (Base2DPoint_serialize h) arrayLength]"

definition Base2DRectArray_serialize :: "bool \<Rightarrow> Base2DRect list \<Rightarrow> byte list \<Rightarrow> BaseUI32 \<Rightarrow> ser_prog" where
  "Base2DRectArray_serialize h self name arrayLength = TypeFn name (cstr ''Base2DRectArray'')
     [STRUCT_ARRAY_SERIALIZE self name (cstr ''Base2DRect'') (Base2DRect_serialize h) arrayLength]"

definition Base2DSizeArray_serialize :: "bool \<Rightarrow> Base2DSize list \<Rightarrow> byte list \<Rightarrow> BaseUI32 \<Rightarrow> ser_prog" where
  "Base2DSizeArray_serialize h self name arrayLength = TypeFn name (cstr ''Base2DSizeArray'')
     [STRUCT_ARRAY_SERIALIZE self name (cstr ''Base2DSize'') (Base2DSize_serialize h) arrayLength]"

definition BaseC32Array_serialize :: "bool \<Rightarrow> BaseC32 list \<Rightarrow> byte list \<Rightarrow> BaseUI32 \<Rightarrow> ser_prog" where
  "BaseC32Array_serialize h self name arrayLength = TypeFn name (cstr ''BaseC32Array'')
     [STRUCT_ARRAY_SERIALIZE self name (cstr ''BaseC32'') (BaseC32_serialize h) arrayLength]"

text \<open>The tag of \<^verbatim>\<open>BBDM\<close>, of which the name of the instance is not serialized. The macro that begins the type
  would take the name \<^verbatim>\<open>tag\<close> for a null pointer, which has been refused before.\<close>

record BBDMTag =
  tag_timestep :: BaseI64
  tag_instanceName :: "byte list"

definition BBDMTag_serialize :: "bool \<Rightarrow> BBDMTag \<Rightarrow> byte list \<Rightarrow> ser_prog" where
  "BBDMTag_serialize h self name = TypeFn name (cstr ''BBDMTag'') [BaseI64_serialize h (tag_timestep self) (cstr ''timestep'')]"

subsection \<open>Memory blocks\<close>

text \<open>
  The length of a block comes first. A reader checks it against the length that the block has, or in the
  mode for initialisation takes it over and allocates the buffer, so the calls depend on what is read. The state is the run with the
  block and the budget of allocations. \<open>on_run\<close> makes a call that does not touch the block.
\<close>

type_synonym 's mem_run = "'s ser_run \<times> Mem \<times> nat"

definition on_run :: "('s ser_run \<Rightarrow> (unit, 's ser_run) flow outcome) \<Rightarrow> 's mem_run \<Rightarrow> (unit, 's mem_run) flow outcome" where
  "on_run f st = omap (\<lambda>x. case x of Returned _ r \<Rightarrow> Returned () (r, snd st) | Longjmp r \<Rightarrow> Longjmp (r, snd st)) (f (fst st))"

text \<open>The local variable that received the last value.\<close>

definition last_length :: "bool \<Rightarrow> 's ser_run \<Rightarrow> BaseUI32" where
  "last_length h r = word_of_nat (host_nat h (take 4 (last (rn_values r))))"

definition mem_length_read :: "nat \<Rightarrow> BaseUI32 \<Rightarrow> 's mem_run \<Rightarrow> (unit, 's mem_run) flow outcome" where
  "mem_length_read elementSize len st = (case st of (r, self, mem) \<Rightarrow>
     obind (Serialize_isReading (rn_sz r)) (\<lambda>reading.
     obind (Serialize_isInitMode (rn_sz r)) (\<lambda>initMode.
     ANY_REQUIRE (reading \<and> \<not> initMode \<longrightarrow> len = me_length self)
       (if initMode
        then let (buf, mem) = ANY_TALLOC (replicate (unat len * elementSize) 0) mem in
             Ok (Returned () (r, self\<lparr>me_length := len, me_buffer := buf\<rparr>, mem))
        else Ok (Returned () st)))))"

text \<open>What the array holds after the transfer is in the buffer.\<close>

definition mem_buffer_transfer :: "('s, 'a) ser_env \<Rightarrow> 's ser_formats \<Rightarrow> (byte list \<Rightarrow> byte list \<Rightarrow> BaseUI32 \<Rightarrow> ser_prog) \<Rightarrow> 's mem_run \<Rightarrow>
    (unit, 's mem_run) flow outcome" where
  "mem_buffer_transfer V F array st = (case st of (r, self, mem) \<Rightarrow> require_ptr (me_buffer self) (\<lambda>buf.
     omap (\<lambda>x. let keep = (\<lambda>r'. if length (rn_values r') = length (rn_values r) then self
                                  else self\<lparr>me_buffer := Own (last (rn_values r'))\<rparr>) in
       case x of Returned _ r' \<Rightarrow> Returned () (r', keep r', mem) | Longjmp r' \<Rightarrow> Longjmp (r', keep r', mem))
       (run_prog V F (array buf (cstr ''buffer'') (me_length self)) r)))"

definition mem_serialize :: "nat \<Rightarrow> string \<Rightarrow> (byte list \<Rightarrow> byte list \<Rightarrow> BaseUI32 \<Rightarrow> ser_prog) \<Rightarrow> ('s, 'a) ser_env \<Rightarrow> 's ser_formats \<Rightarrow>
    byte list \<Rightarrow> 's mem_run \<Rightarrow> (unit, 's mem_run) flow outcome" where
  "mem_serialize elementSize type array V F name st =
     (let r = fst st; len = me_length (fst (snd st)); frame = rn_frame r;
          r = r\<lparr>rn_frame := frame + 1, rn_sz := set_recovery frame (rn_sz r)\<rparr> in
      caught frame (\<lambda>st. sz_recoveryJmp (rn_sz (fst st)))
        (fbind (on_run (step (Serialize_internalBeginType V F name (cstr type))) (r, snd st)) (\<lambda>_ st.
         fbind (on_run (run_prog V F (BaseUI32_serialize (se_isLittleEndian V) len (cstr ''length''))) st) (\<lambda>_ st.
         fbind (mem_length_read elementSize (last_length (se_isLittleEndian V) (fst st)) st) (\<lambda>_ st.
         fbind (mem_buffer_transfer V F array st) (\<lambda>_ st.
         fbind (on_run (step (Serialize_internalEndType V F)) st) (\<lambda>_ st.
         Ok (Returned () ((fst st)\<lparr>rn_sz := (rn_sz (fst st))\<lparr>sz_recoveryJmpSet := False\<rparr>\<rparr>, snd st)))))))))"

definition MemI8_serialize :: "('s, 'a) ser_env \<Rightarrow> 's ser_formats \<Rightarrow> byte list \<Rightarrow> 's mem_run \<Rightarrow> (unit, 's mem_run) flow outcome" where
  "MemI8_serialize = mem_serialize 1 ''MemI8'' BaseI8Array_serialize"

definition MemUI8_serialize :: "('s, 'a) ser_env \<Rightarrow> 's ser_formats \<Rightarrow> byte list \<Rightarrow> 's mem_run \<Rightarrow> (unit, 's mem_run) flow outcome" where
  "MemUI8_serialize = mem_serialize 1 ''MemUI8'' BaseUI8Array_serialize"

definition MemI16_serialize :: "('s, 'a) ser_env \<Rightarrow> 's ser_formats \<Rightarrow> byte list \<Rightarrow> 's mem_run \<Rightarrow> (unit, 's mem_run) flow outcome" where
  "MemI16_serialize = mem_serialize 2 ''MemI16'' BaseI16Array_serialize"

definition MemUI16_serialize :: "('s, 'a) ser_env \<Rightarrow> 's ser_formats \<Rightarrow> byte list \<Rightarrow> 's mem_run \<Rightarrow> (unit, 's mem_run) flow outcome" where
  "MemUI16_serialize = mem_serialize 2 ''MemUI16'' BaseUI16Array_serialize"

definition MemI32_serialize :: "('s, 'a) ser_env \<Rightarrow> 's ser_formats \<Rightarrow> byte list \<Rightarrow> 's mem_run \<Rightarrow> (unit, 's mem_run) flow outcome" where
  "MemI32_serialize = mem_serialize 4 ''MemI32'' BaseI32Array_serialize"

definition MemUI32_serialize :: "('s, 'a) ser_env \<Rightarrow> 's ser_formats \<Rightarrow> byte list \<Rightarrow> 's mem_run \<Rightarrow> (unit, 's mem_run) flow outcome" where
  "MemUI32_serialize = mem_serialize 4 ''MemUI32'' BaseUI32Array_serialize"

definition MemF32_serialize :: "('s, 'a) ser_env \<Rightarrow> 's ser_formats \<Rightarrow> byte list \<Rightarrow> 's mem_run \<Rightarrow> (unit, 's mem_run) flow outcome" where
  "MemF32_serialize = mem_serialize 4 ''MemF32'' BaseF32Array_serialize"

definition MemF64_serialize :: "('s, 'a) ser_env \<Rightarrow> 's ser_formats \<Rightarrow> byte list \<Rightarrow> 's mem_run \<Rightarrow> (unit, 's mem_run) flow outcome" where
  "MemF64_serialize = mem_serialize 8 ''MemF64'' BaseF64Array_serialize"

subsection \<open>Casts\<close>

definition BaseBool_indirectSerialize :: "bool \<Rightarrow> BaseBool \<Rightarrow> byte list \<Rightarrow> ser_prog" where
  "BaseBool_indirectSerialize = BaseBool_serialize"

definition BaseI8_indirectSerialize :: "bool \<Rightarrow> BaseI8 \<Rightarrow> byte list \<Rightarrow> ser_prog" where
  "BaseI8_indirectSerialize = BaseI8_serialize"

definition BaseUI8_indirectSerialize :: "bool \<Rightarrow> BaseUI8 \<Rightarrow> byte list \<Rightarrow> ser_prog" where
  "BaseUI8_indirectSerialize = BaseUI8_serialize"

definition BaseI16_indirectSerialize :: "bool \<Rightarrow> BaseI16 \<Rightarrow> byte list \<Rightarrow> ser_prog" where
  "BaseI16_indirectSerialize = BaseI16_serialize"

definition BaseUI16_indirectSerialize :: "bool \<Rightarrow> BaseUI16 \<Rightarrow> byte list \<Rightarrow> ser_prog" where
  "BaseUI16_indirectSerialize = BaseUI16_serialize"

definition BaseI32_indirectSerialize :: "bool \<Rightarrow> BaseI32 \<Rightarrow> byte list \<Rightarrow> ser_prog" where
  "BaseI32_indirectSerialize = BaseI32_serialize"

definition BaseUI32_indirectSerialize :: "bool \<Rightarrow> BaseUI32 \<Rightarrow> byte list \<Rightarrow> ser_prog" where
  "BaseUI32_indirectSerialize = BaseUI32_serialize"

definition BaseI64_indirectSerialize :: "bool \<Rightarrow> BaseI64 \<Rightarrow> byte list \<Rightarrow> ser_prog" where
  "BaseI64_indirectSerialize = BaseI64_serialize"

definition BaseUI64_indirectSerialize :: "bool \<Rightarrow> BaseUI64 \<Rightarrow> byte list \<Rightarrow> ser_prog" where
  "BaseUI64_indirectSerialize = BaseUI64_serialize"

definition BaseF32_indirectSerialize :: "bool \<Rightarrow> BaseF32 \<Rightarrow> byte list \<Rightarrow> ser_prog" where
  "BaseF32_indirectSerialize = BaseF32_serialize"

definition BaseF64_indirectSerialize :: "bool \<Rightarrow> BaseF64 \<Rightarrow> byte list \<Rightarrow> ser_prog" where
  "BaseF64_indirectSerialize = BaseF64_serialize"

definition Base2DPoint_indirectSerialize :: "bool \<Rightarrow> Base2DPoint \<Rightarrow> byte list \<Rightarrow> ser_prog" where
  "Base2DPoint_indirectSerialize = Base2DPoint_serialize"

definition Base2DRect_indirectSerialize :: "bool \<Rightarrow> Base2DRect \<Rightarrow> byte list \<Rightarrow> ser_prog" where
  "Base2DRect_indirectSerialize = Base2DRect_serialize"

definition Base2DSize_indirectSerialize :: "bool \<Rightarrow> Base2DSize \<Rightarrow> byte list \<Rightarrow> ser_prog" where
  "Base2DSize_indirectSerialize = Base2DSize_serialize"

definition BaseC32_indirectSerialize :: "bool \<Rightarrow> BaseC32 \<Rightarrow> byte list \<Rightarrow> ser_prog" where
  "BaseC32_indirectSerialize = BaseC32_serialize"

definition BaseBoolArray_indirectSerialize :: "byte list \<Rightarrow> byte list \<Rightarrow> BaseUI32 \<Rightarrow> ser_prog" where
  "BaseBoolArray_indirectSerialize = BaseBoolArray_serialize"

definition BaseI8Array_indirectSerialize :: "byte list \<Rightarrow> byte list \<Rightarrow> BaseUI32 \<Rightarrow> ser_prog" where
  "BaseI8Array_indirectSerialize = BaseI8Array_serialize"

definition BaseUI8Array_indirectSerialize :: "byte list \<Rightarrow> byte list \<Rightarrow> BaseUI32 \<Rightarrow> ser_prog" where
  "BaseUI8Array_indirectSerialize = BaseUI8Array_serialize"

definition BaseI16Array_indirectSerialize :: "byte list \<Rightarrow> byte list \<Rightarrow> BaseUI32 \<Rightarrow> ser_prog" where
  "BaseI16Array_indirectSerialize = BaseI16Array_serialize"

definition BaseUI16Array_indirectSerialize :: "byte list \<Rightarrow> byte list \<Rightarrow> BaseUI32 \<Rightarrow> ser_prog" where
  "BaseUI16Array_indirectSerialize = BaseUI16Array_serialize"

definition BaseI32Array_indirectSerialize :: "byte list \<Rightarrow> byte list \<Rightarrow> BaseUI32 \<Rightarrow> ser_prog" where
  "BaseI32Array_indirectSerialize = BaseI32Array_serialize"

definition BaseUI32Array_indirectSerialize :: "byte list \<Rightarrow> byte list \<Rightarrow> BaseUI32 \<Rightarrow> ser_prog" where
  "BaseUI32Array_indirectSerialize = BaseUI32Array_serialize"

definition BaseF32Array_indirectSerialize :: "byte list \<Rightarrow> byte list \<Rightarrow> BaseUI32 \<Rightarrow> ser_prog" where
  "BaseF32Array_indirectSerialize = BaseF32Array_serialize"

definition BaseF64Array_indirectSerialize :: "byte list \<Rightarrow> byte list \<Rightarrow> BaseUI32 \<Rightarrow> ser_prog" where
  "BaseF64Array_indirectSerialize = BaseF64Array_serialize"

definition BaseI64Array_indirectSerialize :: "byte list \<Rightarrow> byte list \<Rightarrow> BaseUI32 \<Rightarrow> ser_prog" where
  "BaseI64Array_indirectSerialize = BaseI64Array_serialize"

definition BaseUI64Array_indirectSerialize :: "byte list \<Rightarrow> byte list \<Rightarrow> BaseUI32 \<Rightarrow> ser_prog" where
  "BaseUI64Array_indirectSerialize = BaseUI64Array_serialize"

definition Base2DPointArray_indirectSerialize :: "bool \<Rightarrow> Base2DPoint list \<Rightarrow> byte list \<Rightarrow> BaseUI32 \<Rightarrow> ser_prog" where
  "Base2DPointArray_indirectSerialize = Base2DPointArray_serialize"

definition Base2DRectArray_indirectSerialize :: "bool \<Rightarrow> Base2DRect list \<Rightarrow> byte list \<Rightarrow> BaseUI32 \<Rightarrow> ser_prog" where
  "Base2DRectArray_indirectSerialize = Base2DRectArray_serialize"

definition Base2DSizeArray_indirectSerialize :: "bool \<Rightarrow> Base2DSize list \<Rightarrow> byte list \<Rightarrow> BaseUI32 \<Rightarrow> ser_prog" where
  "Base2DSizeArray_indirectSerialize = Base2DSizeArray_serialize"

definition BaseC32Array_indirectSerialize :: "bool \<Rightarrow> BaseC32 list \<Rightarrow> byte list \<Rightarrow> BaseUI32 \<Rightarrow> ser_prog" where
  "BaseC32Array_indirectSerialize = BaseC32Array_serialize"

definition Base1DI8_indirectSerialize :: "bool \<Rightarrow> BaseI8 Base1D \<Rightarrow> byte list \<Rightarrow> ser_prog" where
  "Base1DI8_indirectSerialize = Base1DI8_serialize"

definition Base2DI8_indirectSerialize :: "bool \<Rightarrow> BaseI8 Base2D \<Rightarrow> byte list \<Rightarrow> ser_prog" where
  "Base2DI8_indirectSerialize = Base2DI8_serialize"

definition Base3DI8_indirectSerialize :: "bool \<Rightarrow> BaseI8 Base3D \<Rightarrow> byte list \<Rightarrow> ser_prog" where
  "Base3DI8_indirectSerialize = Base3DI8_serialize"

definition Base4DI8_indirectSerialize :: "bool \<Rightarrow> BaseI8 Base4D \<Rightarrow> byte list \<Rightarrow> ser_prog" where
  "Base4DI8_indirectSerialize = Base4DI8_serialize"

definition Base1DUI8_indirectSerialize :: "bool \<Rightarrow> BaseUI8 Base1D \<Rightarrow> byte list \<Rightarrow> ser_prog" where
  "Base1DUI8_indirectSerialize = Base1DUI8_serialize"

definition Base2DUI8_indirectSerialize :: "bool \<Rightarrow> BaseUI8 Base2D \<Rightarrow> byte list \<Rightarrow> ser_prog" where
  "Base2DUI8_indirectSerialize = Base2DUI8_serialize"

definition Base3DUI8_indirectSerialize :: "bool \<Rightarrow> BaseUI8 Base3D \<Rightarrow> byte list \<Rightarrow> ser_prog" where
  "Base3DUI8_indirectSerialize = Base3DUI8_serialize"

definition Base4DUI8_indirectSerialize :: "bool \<Rightarrow> BaseUI8 Base4D \<Rightarrow> byte list \<Rightarrow> ser_prog" where
  "Base4DUI8_indirectSerialize = Base4DUI8_serialize"

definition Base1DI16_indirectSerialize :: "bool \<Rightarrow> BaseI16 Base1D \<Rightarrow> byte list \<Rightarrow> ser_prog" where
  "Base1DI16_indirectSerialize = Base1DI16_serialize"

definition Base2DI16_indirectSerialize :: "bool \<Rightarrow> BaseI16 Base2D \<Rightarrow> byte list \<Rightarrow> ser_prog" where
  "Base2DI16_indirectSerialize = Base2DI16_serialize"

definition Base3DI16_indirectSerialize :: "bool \<Rightarrow> BaseI16 Base3D \<Rightarrow> byte list \<Rightarrow> ser_prog" where
  "Base3DI16_indirectSerialize = Base3DI16_serialize"

definition Base4DI16_indirectSerialize :: "bool \<Rightarrow> BaseI16 Base4D \<Rightarrow> byte list \<Rightarrow> ser_prog" where
  "Base4DI16_indirectSerialize = Base4DI16_serialize"

definition Base1DUI16_indirectSerialize :: "bool \<Rightarrow> BaseUI16 Base1D \<Rightarrow> byte list \<Rightarrow> ser_prog" where
  "Base1DUI16_indirectSerialize = Base1DUI16_serialize"

definition Base2DUI16_indirectSerialize :: "bool \<Rightarrow> BaseUI16 Base2D \<Rightarrow> byte list \<Rightarrow> ser_prog" where
  "Base2DUI16_indirectSerialize = Base2DUI16_serialize"

definition Base3DUI16_indirectSerialize :: "bool \<Rightarrow> BaseUI16 Base3D \<Rightarrow> byte list \<Rightarrow> ser_prog" where
  "Base3DUI16_indirectSerialize = Base3DUI16_serialize"

definition Base4DUI16_indirectSerialize :: "bool \<Rightarrow> BaseUI16 Base4D \<Rightarrow> byte list \<Rightarrow> ser_prog" where
  "Base4DUI16_indirectSerialize = Base4DUI16_serialize"

definition Base1DI32_indirectSerialize :: "bool \<Rightarrow> BaseI32 Base1D \<Rightarrow> byte list \<Rightarrow> ser_prog" where
  "Base1DI32_indirectSerialize = Base1DI32_serialize"

definition Base2DI32_indirectSerialize :: "bool \<Rightarrow> BaseI32 Base2D \<Rightarrow> byte list \<Rightarrow> ser_prog" where
  "Base2DI32_indirectSerialize = Base2DI32_serialize"

definition Base3DI32_indirectSerialize :: "bool \<Rightarrow> BaseI32 Base3D \<Rightarrow> byte list \<Rightarrow> ser_prog" where
  "Base3DI32_indirectSerialize = Base3DI32_serialize"

definition Base4DI32_indirectSerialize :: "bool \<Rightarrow> BaseI32 Base4D \<Rightarrow> byte list \<Rightarrow> ser_prog" where
  "Base4DI32_indirectSerialize = Base4DI32_serialize"

definition Base1DUI32_indirectSerialize :: "bool \<Rightarrow> BaseUI32 Base1D \<Rightarrow> byte list \<Rightarrow> ser_prog" where
  "Base1DUI32_indirectSerialize = Base1DUI32_serialize"

definition Base2DUI32_indirectSerialize :: "bool \<Rightarrow> BaseUI32 Base2D \<Rightarrow> byte list \<Rightarrow> ser_prog" where
  "Base2DUI32_indirectSerialize = Base2DUI32_serialize"

definition Base3DUI32_indirectSerialize :: "bool \<Rightarrow> BaseUI32 Base3D \<Rightarrow> byte list \<Rightarrow> ser_prog" where
  "Base3DUI32_indirectSerialize = Base3DUI32_serialize"

definition Base4DUI32_indirectSerialize :: "bool \<Rightarrow> BaseUI32 Base4D \<Rightarrow> byte list \<Rightarrow> ser_prog" where
  "Base4DUI32_indirectSerialize = Base4DUI32_serialize"

definition Base1DF32_indirectSerialize :: "bool \<Rightarrow> BaseF32 Base1D \<Rightarrow> byte list \<Rightarrow> ser_prog" where
  "Base1DF32_indirectSerialize = Base1DF32_serialize"

definition Base2DF32_indirectSerialize :: "bool \<Rightarrow> BaseF32 Base2D \<Rightarrow> byte list \<Rightarrow> ser_prog" where
  "Base2DF32_indirectSerialize = Base2DF32_serialize"

definition Base3DF32_indirectSerialize :: "bool \<Rightarrow> BaseF32 Base3D \<Rightarrow> byte list \<Rightarrow> ser_prog" where
  "Base3DF32_indirectSerialize = Base3DF32_serialize"

definition Base4DF32_indirectSerialize :: "bool \<Rightarrow> BaseF32 Base4D \<Rightarrow> byte list \<Rightarrow> ser_prog" where
  "Base4DF32_indirectSerialize = Base4DF32_serialize"

definition Base1DF64_indirectSerialize :: "bool \<Rightarrow> BaseF64 Base1D \<Rightarrow> byte list \<Rightarrow> ser_prog" where
  "Base1DF64_indirectSerialize = Base1DF64_serialize"

definition Base2DF64_indirectSerialize :: "bool \<Rightarrow> BaseF64 Base2D \<Rightarrow> byte list \<Rightarrow> ser_prog" where
  "Base2DF64_indirectSerialize = Base2DF64_serialize"

definition Base3DF64_indirectSerialize :: "bool \<Rightarrow> BaseF64 Base3D \<Rightarrow> byte list \<Rightarrow> ser_prog" where
  "Base3DF64_indirectSerialize = Base3DF64_serialize"

definition Base4DF64_indirectSerialize :: "bool \<Rightarrow> BaseF64 Base4D \<Rightarrow> byte list \<Rightarrow> ser_prog" where
  "Base4DF64_indirectSerialize = Base4DF64_serialize"

definition MemI8_indirectSerialize :: "('s, 'a) ser_env \<Rightarrow> 's ser_formats \<Rightarrow> byte list \<Rightarrow> 's mem_run \<Rightarrow> (unit, 's mem_run) flow outcome" where
  "MemI8_indirectSerialize = MemI8_serialize"

definition MemUI8_indirectSerialize :: "('s, 'a) ser_env \<Rightarrow> 's ser_formats \<Rightarrow> byte list \<Rightarrow> 's mem_run \<Rightarrow> (unit, 's mem_run) flow outcome" where
  "MemUI8_indirectSerialize = MemUI8_serialize"

definition MemI16_indirectSerialize :: "('s, 'a) ser_env \<Rightarrow> 's ser_formats \<Rightarrow> byte list \<Rightarrow> 's mem_run \<Rightarrow> (unit, 's mem_run) flow outcome" where
  "MemI16_indirectSerialize = MemI16_serialize"

definition MemUI16_indirectSerialize :: "('s, 'a) ser_env \<Rightarrow> 's ser_formats \<Rightarrow> byte list \<Rightarrow> 's mem_run \<Rightarrow> (unit, 's mem_run) flow outcome" where
  "MemUI16_indirectSerialize = MemUI16_serialize"

definition MemI32_indirectSerialize :: "('s, 'a) ser_env \<Rightarrow> 's ser_formats \<Rightarrow> byte list \<Rightarrow> 's mem_run \<Rightarrow> (unit, 's mem_run) flow outcome" where
  "MemI32_indirectSerialize = MemI32_serialize"

definition MemUI32_indirectSerialize :: "('s, 'a) ser_env \<Rightarrow> 's ser_formats \<Rightarrow> byte list \<Rightarrow> 's mem_run \<Rightarrow> (unit, 's mem_run) flow outcome" where
  "MemUI32_indirectSerialize = MemUI32_serialize"

definition MemF32_indirectSerialize :: "('s, 'a) ser_env \<Rightarrow> 's ser_formats \<Rightarrow> byte list \<Rightarrow> 's mem_run \<Rightarrow> (unit, 's mem_run) flow outcome" where
  "MemF32_indirectSerialize = MemF32_serialize"

definition MemF64_indirectSerialize :: "('s, 'a) ser_env \<Rightarrow> 's ser_formats \<Rightarrow> byte list \<Rightarrow> 's mem_run \<Rightarrow> (unit, 's mem_run) flow outcome" where
  "MemF64_indirectSerialize = MemF64_serialize"

end
