(* ===== verification/Base_Serialize_Correct.thy ===== *)
theory Base_Serialize_Correct
  imports Base_Serialize Ser_Machine
begin

text \<open>
  The types of the library between hosts. The locale \<open>portable\<close> is the contract of a serialize function: when a reader has an
  object that fits the one that was written, then each of its values has, after the transfer, the memory that the
  written object has on the host of the reader. A portable function writes an object on one host and reads it back on any
  other, in the binary format with any byte order. The functions of \<^verbatim>\<open>Base_Serialize\<close> are portable, and structures and arrays inherit
  it from their fields. A memory block is read back with its length.
\<close>

subsection \<open>Words in memory\<close>

definition host_words :: "bool \<Rightarrow> 'w::len word list \<Rightarrow> byte list" where
  "host_words h ws = concat (map (host_word h) ws)"

lemma length_host_word [simp]: "length (host_word h (w :: 'w::len word)) = LENGTH('w) div 8"
  by (simp add: host_word_def)

lemma length_host_words [simp]: "length (host_words h (ws :: 'w::len word list)) = length ws * (LENGTH('w) div 8)"
  by (induction ws) (simp_all add: host_words_def)

lemma host_word_rev: "h \<noteq> h' \<Longrightarrow> rev (host_word h w) = host_word h' w"
  by (cases h; cases h') (simp_all add: host_word_def host_bytes_def)

lemma rev_each_words:
  "h \<noteq> h' \<Longrightarrow> LENGTH('w::len) div 8 = k \<Longrightarrow> rev_each k (length ws) (host_words h (ws :: 'w word list)) = host_words h' ws"
  by (induction ws) (simp_all add: host_words_def host_word_rev)

lemma ordered_words:
  assumes "LENGTH('w::len) div 8 = k"
  shows "ordered (h = h') k (length ws) (host_words h (ws :: 'w word list)) = host_words h' ws"
proof (cases "h = h'")
  case True
  then show ?thesis using assms by (simp add: ordered_def mult.commute)
next
  case False
  then show ?thesis using rev_each_words [OF False assms] by (simp add: ordered_def)
qed

lemma word_byte_host: "LENGTH('w::len) = 8 \<Longrightarrow> host_word h (w :: 'w word) = host_word h' w"
  by (simp add: host_word_def host_bytes_def)

lemma host_words_host: "LENGTH('w::len) = 8 \<Longrightarrow> host_words h (ws :: 'w word list) = host_words h' ws"
  unfolding host_words_def by (intro arg_cong [where f = concat] map_cong refl word_byte_host)

lemma host_words_Nil [simp]: "host_words h [] = []"
  by (simp add: host_words_def)

lemma words_single: "host_words h [w] = host_word h w"
  by (simp add: host_words_def)

subsection \<open>Functions that carry values to another host\<close>

definition moved :: "(bool \<Rightarrow> 'v \<Rightarrow> ser_prog) \<Rightarrow> ('v \<Rightarrow> 'v \<Rightarrow> bool) \<Rightarrow> bool" where
  "moved f fits \<longleftrightarrow> (\<forall>h h' x y. fits x y \<longrightarrow> named (f h x) \<and> named (f h' y) \<and> list_all leaf_ok (leaves (f h x)) \<and>
     list_all2 leaf_fits (leaves (f h x)) (leaves (f h' y)) \<and>
     map2 (leaf_delivered (h = h')) (leaves (f h x)) (leaves (f h' y)) = values_of (f h' x))"

definition moved_all :: "(bool \<Rightarrow> 'v \<Rightarrow> ser_prog list) \<Rightarrow> ('v \<Rightarrow> 'v \<Rightarrow> bool) \<Rightarrow> bool" where
  "moved_all g fits \<longleftrightarrow> (\<forall>h h' x y. fits x y \<longrightarrow> (\<forall>q \<in> set (g h x). named q) \<and> (\<forall>q \<in> set (g h' y). named q) \<and>
     list_all leaf_ok (concat (map leaves (g h x))) \<and>
     list_all2 leaf_fits (concat (map leaves (g h x))) (concat (map leaves (g h' y))) \<and>
     map2 (leaf_delivered (h = h')) (concat (map leaves (g h x))) (concat (map leaves (g h' y))) = concat (map values_of (g h' x)))"

named_theorems moved_intros "functions that carry values to another host"

lemma moved_Nil [moved_intros]: "moved_all (\<lambda>h x. []) fits"
  by (simp add: moved_all_def)

lemma moved_Cons [moved_intros]: "moved f fits \<Longrightarrow> moved_all g fits \<Longrightarrow> moved_all (\<lambda>h x. f h x # g h x) fits"
  unfolding moved_all_def
proof (intro allI impI)
  fix h h' x y
  assume f: "moved f fits" and g: "\<forall>h h' x y. fits x y \<longrightarrow> (\<forall>q \<in> set (g h x). named q) \<and> (\<forall>q \<in> set (g h' y). named q) \<and>
     list_all leaf_ok (concat (map leaves (g h x))) \<and>
     list_all2 leaf_fits (concat (map leaves (g h x))) (concat (map leaves (g h' y))) \<and>
     map2 (leaf_delivered (h = h')) (concat (map leaves (g h x))) (concat (map leaves (g h' y))) = concat (map values_of (g h' x))"
    and xy: "fits x y"
  note f = f [unfolded moved_def, rule_format, OF xy, of h h'] and g = g [rule_format, OF xy, of h h']
  have "length (leaves (f h x)) = length (leaves (f h' y))" using f list_all2_lengthD by blast
  with f g show "(\<forall>q \<in> set (f h x # g h x). named q) \<and> (\<forall>q \<in> set (f h' y # g h' y). named q) \<and>
     list_all leaf_ok (concat (map leaves (f h x # g h x))) \<and>
     list_all2 leaf_fits (concat (map leaves (f h x # g h x))) (concat (map leaves (f h' y # g h' y))) \<and>
     map2 (leaf_delivered (h = h')) (concat (map leaves (f h x # g h x))) (concat (map leaves (f h' y # g h' y))) =
       concat (map values_of (f h' x # g h' x))"
    by (simp add: list_all2_appendI)
qed

lemma moved_TypeFn [moved_intros]:
  "c_string name \<Longrightarrow> c_string type \<Longrightarrow> moved_all g fits \<Longrightarrow> moved (\<lambda>h x. TypeFn name type (g h x)) fits"
  by (simp add: moved_def moved_all_def values_of_simps)

lemma moved_BaseTypeFn [moved_intros]:
  "c_string name \<Longrightarrow> c_string type \<Longrightarrow> moved_all g fits \<Longrightarrow> moved (\<lambda>h x. BaseTypeFn name type (g h x)) fits"
  by (simp add: moved_def moved_all_def values_of_simps)

lemma moved_StructArray:
  assumes "c_string name" and "c_string type" and "moved_all g fits"
    and "\<And>h x y. fits x y \<Longrightarrow> n = int (length (g h x)) \<and> n = int (length (g h y))"
  shows "moved (\<lambda>h x. StructArray name type n (g h x)) fits"
  unfolding moved_def
proof (intro allI impI)
  fix h h' x y
  assume xy: "fits x y"
  have "n = int (length (g h x))" "n = int (length (g h' y))" using assms(4) [OF xy] by blast+
  with assms(1-3) xy show "named (StructArray name type n (g h x)) \<and> named (StructArray name type n (g h' y)) \<and>
      list_all leaf_ok (leaves (StructArray name type n (g h x))) \<and>
      list_all2 leaf_fits (leaves (StructArray name type n (g h x))) (leaves (StructArray name type n (g h' y))) \<and>
      map2 (leaf_delivered (h = h')) (leaves (StructArray name type n (g h x))) (leaves (StructArray name type n (g h' y))) =
        values_of (StructArray name type n (g h' x))"
    by (simp add: moved_all_def values_of_simps)
qed

lemma moved_on: "moved f fits \<Longrightarrow> (\<And>x y. fits' x y \<Longrightarrow> fits (sel x) (sel y)) \<Longrightarrow> moved (\<lambda>h x. f h (sel x)) fits'"
  unfolding moved_def by blast

locale portable =
  fixes prog :: "bool \<Rightarrow> 'v \<Rightarrow> byte list \<Rightarrow> ser_prog" and fits :: "'v \<Rightarrow> 'v \<Rightarrow> bool"
  assumes moved_law: "c_string name \<Longrightarrow> moved (\<lambda>h x. prog h x name) fits"
begin

text \<open>Written on one host, read on another.\<close>

lemma roundtrip:
  assumes "c_string name" and "fits x y"
    and "memory_writer V F b (length (emits b (se_isLittleEndian V) (prog (se_isLittleEndian V) x name))) sz"
  shows "\<exists>sz'. serialize_call V F (prog (se_isLittleEndian V) x name) sz = Ok (values_of (prog (se_isLittleEndian V) x name), sz') \<and>
    mem_view (sz_channel sz') = mf_put (emits b (se_isLittleEndian V) (prog (se_isLittleEndian V) x name)) (mem_view (sz_channel sz)) \<and>
    (\<forall>V2 F2 sz2. memory_reader V2 F2 b (mf_bytes (mem_view (sz_channel sz'))) (mf_pos (mem_view (sz_channel sz))) sz2 \<longrightarrow>
      (\<exists>sz2'. serialize_call V2 F2 (prog (se_isLittleEndian V2) y name) sz2 = Ok (values_of (prog (se_isLittleEndian V2) x name), sz2')))"
proof -
  let ?h = "se_isLittleEndian V" and ?a = "mem_view (sz_channel sz)"
  let ?p = "prog ?h x name"
  let ?T = "emits b ?h ?p"
  have m: "named ?p" "named (prog h' y name)" "list_all leaf_ok (leaves ?p)" "list_all2 leaf_fits (leaves ?p) (leaves (prog h' y name))"
    "map2 (leaf_delivered (?h = h')) (leaves ?p) (leaves (prog h' y name)) = values_of (prog h' x name)" for h'
    using moved_law [OF assms(1)] assms(2) unfolding moved_def by blast+
  obtain sz' where sz': "serialize_call V F ?p sz = Ok (values_of ?p, sz')" "mem_view (sz_channel sz') = mf_put ?T ?a"
    using memory_write [OF assms(3) m(1,3)] by (auto simp: values_of_def)
  have "mf_pos ?a + length ?T \<le> length (mf_bytes ?a)" using assms(3) by (simp add: memory_writer_def)
  then have d: "drop (mf_pos ?a) (mf_bytes (mem_view (sz_channel sz'))) = ?T @ drop (mf_pos ?a + length ?T) (mf_bytes ?a)"
    by (simp add: mf_put_def sz'(2))
  show ?thesis
  proof (rule exI [of _ sz'], intro conjI allI impI sz')
    fix V2 F2 and sz2 :: "IOChannelGenericMem Serialize"
    assume r: "memory_reader V2 F2 b (mf_bytes (mem_view (sz_channel sz'))) (mf_pos ?a) sz2"
    show "\<exists>sz2'. serialize_call V2 F2 (prog (se_isLittleEndian V2) y name) sz2 = Ok (values_of (prog (se_isLittleEndian V2) x name), sz2')"
      using memory_read [OF r d m(2) [of "se_isLittleEndian V2"] m(3) m(4) [of "se_isLittleEndian V2"]] m(5) [of "se_isLittleEndian V2"] by auto
  qed
qed

end

subsection \<open>Types of C\<close>

definition any :: "'v \<Rightarrow> 'v \<Rightarrow> bool" where
  "any x y \<longleftrightarrow> True"

definition same_length :: "'w list \<Rightarrow> 'w list \<Rightarrow> bool" where
  "same_length xs ys \<longleftrightarrow> length xs = length ys \<and> 0 < length xs \<and> length xs < 2 ^ 31"

lemma moved_words:
  fixes list :: "'v \<Rightarrow> 'w::len word list"
  assumes "c_string name" and "LENGTH('w) div 8 = k" and "0 < k"
    and "binary_kind type = KElements k \<or> binary_kind type = KBytes \<and> k = 1 \<and> LENGTH('w) = 8"
    and "type \<noteq> SERIALIZE_TYPE_STRING" and "\<And>x y. fits x y \<Longrightarrow> same_length (list x) (list y) \<and> len x = int (length (list x)) \<and> len y = len x"
  shows "moved (\<lambda>h x. Value type name (host_words h (list x)) (int k) (len x)) fits"
proof -
  show ?thesis
    unfolding moved_def
  proof (intro allI impI)
    fix h h' x y
    assume f: "fits x y"
    have l: "length (list y) = length (list x)" "len x = int (length (list x))" "len y = len x" "0 < length (list x)"
      using assms(6) [OF f] by (auto simp: same_length_def)
    have v: "value_ok type (host_words h (list x)) (int k) (len x)" "value_ok type (host_words h' (list y)) (int k) (len x)"
      using assms(2-5) l by (auto simp: value_ok_def mult.commute simp flip: of_nat_mult)
    have "delivered (h = h') type (host_words h (list x)) (host_words h' (list y)) (int k) (len x) = host_words h' (list x)"
      using assms(4)
    proof
      assume "binary_kind type = KElements k"
      then show ?thesis using ordered_words [OF assms(2), of h h' "list x"] l assms(2)
        by (simp add: delivered_def put_def mult.commute)
    next
      assume k: "binary_kind type = KBytes \<and> k = 1 \<and> LENGTH('w) = 8"
      then have "host_words h (list x) = host_words h' (list x)" using host_words_host by blast
      then show ?thesis using k l by (simp add: delivered_def put_def)
    qed
    then show "named (Value type name (host_words h (list x)) (int k) (len x)) \<and> named (Value type name (host_words h' (list y)) (int k) (len y)) \<and>
        list_all leaf_ok (leaves (Value type name (host_words h (list x)) (int k) (len x))) \<and>
        list_all2 leaf_fits (leaves (Value type name (host_words h (list x)) (int k) (len x)))
          (leaves (Value type name (host_words h' (list y)) (int k) (len y))) \<and>
        map2 (leaf_delivered (h = h')) (leaves (Value type name (host_words h (list x)) (int k) (len x)))
          (leaves (Value type name (host_words h' (list y)) (int k) (len y))) =
        values_of (Value type name (host_words h' (list x)) (int k) (len x))"
      using assms(1) v l(3) by (simp add: values_of_def)
  qed
qed

subsection \<open>Functions of the library\<close>

lemma moved_word:
  assumes "c_string name" and "0 < k" and "LENGTH('w::len) = 8 * k"
    and "binary_kind type = KElements k \<or> binary_kind type = KBytes \<and> k = 1" and "type \<noteq> SERIALIZE_TYPE_STRING"
  shows "moved (\<lambda>h (x :: 'w word). Value type name (host_word h x) (int k) 1) any"
  using moved_words [of name k type any "\<lambda>x :: 'w word. [x]" "\<lambda>_. 1"] assms by (simp add: words_single same_length_def)

lemma portable_word:
  assumes "\<And>h x name. p h (x :: 'w::len word) name = BaseTypeFn name (cstr tn) [Value type name (host_word h x) (int k) 1]" and "c_string (cstr tn)"
    and "0 < k" and "LENGTH('w) = 8 * k" and "binary_kind type = KElements k \<or> binary_kind type = KBytes \<and> k = 1" and "type \<noteq> SERIALIZE_TYPE_STRING"
  shows "portable p any"
  unfolding portable_def assms(1) using assms(2-6) by (intro allI impI moved_intros moved_word)

lemma portable_words:
  assumes "\<And>ms name (n :: BaseUI32). p ms name n = TypeFn name (cstr tn) [Value type name ms (int k) (sint n)]" and "c_string (cstr tn)" and "0 < k"
    and "LENGTH('w::len) = 8 * k" and "binary_kind type = KElements k \<or> binary_kind type = KBytes \<and> k = 1" and "type \<noteq> SERIALIZE_TYPE_STRING"
  shows "portable (\<lambda>h (ws :: 'w word list) name. p (host_words h ws) name (word_of_nat (length ws))) same_length"
  unfolding portable_def assms(1)
proof (intro allI impI moved_intros assms(2))
  fix name
  assume "c_string name"
  then show "moved (\<lambda>h (ws :: 'w word list). Value type name (host_words h ws) (int k) (sint (word_of_nat (length ws) :: 32 word))) same_length"
  proof (rule moved_words)
    fix x y :: "'w word list"
    assume "same_length x y"
    moreover from this have "sint (word_of_nat (length x) :: 32 word) = int (length x)"
      by (simp add: same_length_def signed_of_nat signed_take_bit_int_eq_self)
    ultimately show "same_length x y \<and> sint (word_of_nat (length x) :: 32 word) = int (length x) \<and>
        sint (word_of_nat (length y) :: 32 word) = sint (word_of_nat (length x) :: 32 word)" unfolding same_length_def by metis
  qed (use assms(3-6) in auto)
qed

lemma portable_field [moved_intros]: "portable p any \<Longrightarrow> c_string name \<Longrightarrow> moved (\<lambda>h x. p h (sel x) name) any"
  by (rule moved_on [where f = "\<lambda>h x. p h x name" and fits = any]) (simp_all add: portable_def any_def)

lemma portable_struct:
  assumes "\<And>h x name. p h x name = TypeFn name (cstr tn) (g h x)" and "c_string (cstr tn)" and "moved_all g any"
  shows "portable p any"
  unfolding portable_def assms(1) using assms(2,3) by (intro allI impI moved_intros)

text \<open>An array of structures is portable when its element is, and when its count is an \<^verbatim>\<open>int\<close>.\<close>

lemma sint_count:
  assumes "unat (n :: BaseUI32) < 2 ^ 31"
  shows "sint n = int (unat n)"
proof -
  have *: "sint (word_of_nat k :: BaseUI32) = int k" if "k < 2 ^ 31" for k
    using that by (simp add: signed_of_nat signed_take_bit_int_eq_self)
  have "word_of_nat (unat n) = n" by simp
  with * [OF assms] show ?thesis by metis
qed

lemma sint_negative:
  assumes "2 ^ 31 \<le> unat (n :: BaseUI32)"
  shows "sint n < 0"
proof -
  have "bit n 31"
  proof (rule ccontr)
    assume "\<not> bit n 31"
    then have "take_bit 31 n = n"
      by (intro bit_word_eqI) (auto simp: bit_take_bit_iff less_Suc_eq numeral_eq_Suc)
    then have "unat n < 2 ^ 31" by (metis unsigned_take_bit_eq take_bit_nat_less_exp)
    with assms show False by simp
  qed
  then show ?thesis by (simp add: sint_uint signed_take_bit_negative_iff bit_uint_iff)
qed

definition same_count :: "BaseUI32 \<Rightarrow> 'e list \<Rightarrow> 'e list \<Rightarrow> bool" where
  "same_count n xs ys \<longleftrightarrow> unat n < 2 ^ 31 \<and> unat n \<le> length xs \<and> unat n \<le> length ys"

lemma moved_elements:
  assumes "portable p any" and "c_string name"
  shows "moved_all (\<lambda>h xs. map (\<lambda>i. p h (xs ! i) name) is) (same_count n)"
proof (induction "is")
  case Nil
  then show ?case by (simp add: moved_Nil)
next
  case (Cons i "is")
  have "moved (\<lambda>h xs. p h (xs ! i) name) (same_count n)"
    by (rule moved_on [where f = "\<lambda>h x. p h x name" and fits = any]) (use assms in \<open>simp_all add: portable_def any_def\<close>)
  from moved_Cons [OF this Cons.IH] show ?case by simp
qed

lemma portable_structs:
  assumes "\<And>h xs name. q h xs name n = TypeFn name (cstr tn) [STRUCT_ARRAY_SERIALIZE xs name (cstr en) (p h) n]"
    and "c_string (cstr tn)" and "c_string (cstr en)" and "portable p any"
  shows "portable (\<lambda>h xs name. q h xs name n) (same_count n)"
  unfolding portable_def assms(1) STRUCT_ARRAY_SERIALIZE_def
  using assms(2-4)
  by (intro allI impI moved_intros moved_StructArray moved_elements) (simp_all add: same_count_def sint_count)

lemma c_string_cstr: "asc c \<noteq> 0 \<Longrightarrow> c_string (cstr (c # cs))"
  by (simp add: c_string_def cstr_def ascii_def)

lemma portable_scalars:
  "portable BaseBool_serialize any"
  "portable BaseI8_serialize any"
  "portable BaseUI8_serialize any"
  "portable BaseI16_serialize any"
  "portable BaseUI16_serialize any"
  "portable BaseI32_serialize any"
  "portable BaseUI32_serialize any"
  "portable BaseI64_serialize any"
  "portable BaseUI64_serialize any"
  "portable BaseF32_serialize any"
  "portable BaseF64_serialize any"
proof -
  show "portable BaseBool_serialize any"
    by (rule portable_word [where k = 4 and type = SERIALIZE_TYPE_INT and tn = "''BaseBool''"])
      (simp_all add: binary_kind_def c_string_cstr BaseBool_serialize_def Int_serialize_def)
  show "portable BaseI8_serialize any"
    by (rule portable_word [where k = 1 and type = SERIALIZE_TYPE_SCHAR and tn = "''BaseBool''"])
      (simp_all add: binary_kind_def c_string_cstr BaseI8_serialize_def SChar_serialize_def)
  show "portable BaseUI8_serialize any"
    by (rule portable_word [where k = 1 and type = SERIALIZE_TYPE_UCHAR and tn = "''BaseUI8''"])
      (simp_all add: binary_kind_def c_string_cstr BaseUI8_serialize_def UChar_serialize_def)
  show "portable BaseI16_serialize any"
    by (rule portable_word [where k = 2 and type = SERIALIZE_TYPE_SINT and tn = "''BaseI16''"])
      (simp_all add: binary_kind_def c_string_cstr BaseI16_serialize_def SInt_serialize_def)
  show "portable BaseUI16_serialize any"
    by (rule portable_word [where k = 2 and type = SERIALIZE_TYPE_USINT and tn = "''BaseUI16''"])
      (simp_all add: binary_kind_def c_string_cstr BaseUI16_serialize_def USInt_serialize_def)
  show "portable BaseI32_serialize any"
    by (rule portable_word [where k = 4 and type = SERIALIZE_TYPE_INT and tn = "''BaseI32''"])
      (simp_all add: binary_kind_def c_string_cstr BaseI32_serialize_def Int_serialize_def)
  show "portable BaseUI32_serialize any"
    by (rule portable_word [where k = 4 and type = SERIALIZE_TYPE_UINT and tn = "''BaseUI32''"])
      (simp_all add: binary_kind_def c_string_cstr BaseUI32_serialize_def UInt_serialize_def)
  show "portable BaseI64_serialize any"
    by (rule portable_word [where k = 8 and type = SERIALIZE_TYPE_LL and tn = "''BaseI64''"])
      (simp_all add: binary_kind_def c_string_cstr BaseI64_serialize_def LL_serialize_def)
  show "portable BaseUI64_serialize any"
    by (rule portable_word [where k = 8 and type = SERIALIZE_TYPE_ULL and tn = "''BaseUI64''"])
      (simp_all add: binary_kind_def c_string_cstr BaseUI64_serialize_def ULL_serialize_def)
  show "portable BaseF32_serialize any"
    by (rule portable_word [where k = 4 and type = SERIALIZE_TYPE_FLOAT and tn = "''BaseF32''"])
      (simp_all add: binary_kind_def c_string_cstr BaseF32_serialize_def Float_serialize_def)
  show "portable BaseF64_serialize any"
    by (rule portable_word [where k = 8 and type = SERIALIZE_TYPE_DOUBLE and tn = "''BaseF64''"])
      (simp_all add: binary_kind_def c_string_cstr BaseF64_serialize_def Double_serialize_def)
qed

lemma portable_arrays:
  "portable (\<lambda>h (ws :: BaseBool list) name. BaseBoolArray_serialize (host_words h ws) name (word_of_nat (length ws))) same_length"
  "portable (\<lambda>h (ws :: BaseI8 list) name. BaseI8Array_serialize (host_words h ws) name (word_of_nat (length ws))) same_length"
  "portable (\<lambda>h (ws :: BaseUI8 list) name. BaseUI8Array_serialize (host_words h ws) name (word_of_nat (length ws))) same_length"
  "portable (\<lambda>h (ws :: BaseI16 list) name. BaseI16Array_serialize (host_words h ws) name (word_of_nat (length ws))) same_length"
  "portable (\<lambda>h (ws :: BaseUI16 list) name. BaseUI16Array_serialize (host_words h ws) name (word_of_nat (length ws))) same_length"
  "portable (\<lambda>h (ws :: BaseI32 list) name. BaseI32Array_serialize (host_words h ws) name (word_of_nat (length ws))) same_length"
  "portable (\<lambda>h (ws :: BaseUI32 list) name. BaseUI32Array_serialize (host_words h ws) name (word_of_nat (length ws))) same_length"
  "portable (\<lambda>h (ws :: BaseF32 list) name. BaseF32Array_serialize (host_words h ws) name (word_of_nat (length ws))) same_length"
  "portable (\<lambda>h (ws :: BaseF64 list) name. BaseF64Array_serialize (host_words h ws) name (word_of_nat (length ws))) same_length"
  "portable (\<lambda>h (ws :: BaseI64 list) name. BaseI64Array_serialize (host_words h ws) name (word_of_nat (length ws))) same_length"
  "portable (\<lambda>h (ws :: BaseUI64 list) name. BaseUI64Array_serialize (host_words h ws) name (word_of_nat (length ws))) same_length"
proof -
  show "portable (\<lambda>h (ws :: BaseBool list) name. BaseBoolArray_serialize (host_words h ws) name (word_of_nat (length ws))) same_length"
    by (rule portable_words [where k = 4 and type = SERIALIZE_TYPE_INTARRAY and tn = "''BaseBoolArray''"])
      (simp_all add: binary_kind_def c_string_cstr BaseBoolArray_serialize_def IntArray_serialize_def)
  show "portable (\<lambda>h (ws :: BaseI8 list) name. BaseI8Array_serialize (host_words h ws) name (word_of_nat (length ws))) same_length"
    by (rule portable_words [where k = 1 and type = SERIALIZE_TYPE_SCHARARRAY and tn = "''BaseI8Array''"])
      (simp_all add: binary_kind_def c_string_cstr BaseI8Array_serialize_def SCharArray_serialize_def)
  show "portable (\<lambda>h (ws :: BaseUI8 list) name. BaseUI8Array_serialize (host_words h ws) name (word_of_nat (length ws))) same_length"
    by (rule portable_words [where k = 1 and type = SERIALIZE_TYPE_UCHARARRAY and tn = "''BaseUI8Array''"])
      (simp_all add: binary_kind_def c_string_cstr BaseUI8Array_serialize_def UCharArray_serialize_def)
  show "portable (\<lambda>h (ws :: BaseI16 list) name. BaseI16Array_serialize (host_words h ws) name (word_of_nat (length ws))) same_length"
    by (rule portable_words [where k = 2 and type = SERIALIZE_TYPE_SINTARRAY and tn = "''BaseI16Array''"])
      (simp_all add: binary_kind_def c_string_cstr BaseI16Array_serialize_def SIntArray_serialize_def)
  show "portable (\<lambda>h (ws :: BaseUI16 list) name. BaseUI16Array_serialize (host_words h ws) name (word_of_nat (length ws))) same_length"
    by (rule portable_words [where k = 2 and type = SERIALIZE_TYPE_USINTARRAY and tn = "''BaseUI16Array''"])
      (simp_all add: binary_kind_def c_string_cstr BaseUI16Array_serialize_def USIntArray_serialize_def)
  show "portable (\<lambda>h (ws :: BaseI32 list) name. BaseI32Array_serialize (host_words h ws) name (word_of_nat (length ws))) same_length"
    by (rule portable_words [where k = 4 and type = SERIALIZE_TYPE_INTARRAY and tn = "''BaseI32Array''"])
      (simp_all add: binary_kind_def c_string_cstr BaseI32Array_serialize_def IntArray_serialize_def)
  show "portable (\<lambda>h (ws :: BaseUI32 list) name. BaseUI32Array_serialize (host_words h ws) name (word_of_nat (length ws))) same_length"
    by (rule portable_words [where k = 4 and type = SERIALIZE_TYPE_UINTARRAY and tn = "''BaseUI32Array''"])
      (simp_all add: binary_kind_def c_string_cstr BaseUI32Array_serialize_def UIntArray_serialize_def)
  show "portable (\<lambda>h (ws :: BaseF32 list) name. BaseF32Array_serialize (host_words h ws) name (word_of_nat (length ws))) same_length"
    by (rule portable_words [where k = 4 and type = SERIALIZE_TYPE_FLOATARRAY and tn = "''BaseF32Array''"])
      (simp_all add: binary_kind_def c_string_cstr BaseF32Array_serialize_def FloatArray_serialize_def)
  show "portable (\<lambda>h (ws :: BaseF64 list) name. BaseF64Array_serialize (host_words h ws) name (word_of_nat (length ws))) same_length"
    by (rule portable_words [where k = 8 and type = SERIALIZE_TYPE_DOUBLEARRAY and tn = "''BaseF64Array''"])
      (simp_all add: binary_kind_def c_string_cstr BaseF64Array_serialize_def DoubleArray_serialize_def)
  show "portable (\<lambda>h (ws :: BaseI64 list) name. BaseI64Array_serialize (host_words h ws) name (word_of_nat (length ws))) same_length"
    by (rule portable_words [where k = 8 and type = SERIALIZE_TYPE_LLARRAY and tn = "''BaseI64Array''"])
      (simp_all add: binary_kind_def c_string_cstr BaseI64Array_serialize_def LLArray_serialize_def)
  show "portable (\<lambda>h (ws :: BaseUI64 list) name. BaseUI64Array_serialize (host_words h ws) name (word_of_nat (length ws))) same_length"
    by (rule portable_words [where k = 8 and type = SERIALIZE_TYPE_ULLARRAY and tn = "''BaseUI64Array''"])
      (simp_all add: binary_kind_def c_string_cstr BaseUI64Array_serialize_def ULLArray_serialize_def)
qed

lemma portable_simple_structs:
  "portable Base2DPoint_serialize any"
  "portable Base2DSize_serialize any"
  "portable BaseC32_serialize any"
  "portable Base1DI8_serialize any"
  "portable Base2DI8_serialize any"
  "portable Base3DI8_serialize any"
  "portable Base4DI8_serialize any"
  "portable Base1DUI8_serialize any"
  "portable Base2DUI8_serialize any"
  "portable Base3DUI8_serialize any"
  "portable Base4DUI8_serialize any"
  "portable Base1DI16_serialize any"
  "portable Base2DI16_serialize any"
  "portable Base3DI16_serialize any"
  "portable Base4DI16_serialize any"
  "portable Base1DUI16_serialize any"
  "portable Base2DUI16_serialize any"
  "portable Base3DUI16_serialize any"
  "portable Base4DUI16_serialize any"
  "portable Base1DI32_serialize any"
  "portable Base2DI32_serialize any"
  "portable Base3DI32_serialize any"
  "portable Base4DI32_serialize any"
  "portable Base1DUI32_serialize any"
  "portable Base2DUI32_serialize any"
  "portable Base3DUI32_serialize any"
  "portable Base4DUI32_serialize any"
  "portable Base1DF32_serialize any"
  "portable Base2DF32_serialize any"
  "portable Base3DF32_serialize any"
  "portable Base4DF32_serialize any"
  "portable Base1DF64_serialize any"
  "portable Base2DF64_serialize any"
  "portable Base3DF64_serialize any"
  "portable Base4DF64_serialize any"
  "portable Base1DI32vF32_serialize any"
  "portable Base2DI32vF32_serialize any"
  "portable Base3DI32vF32_serialize any"
  "portable Base4DI32vF32_serialize any"
  "portable BBDMTag_serialize any"
  by (rule portable_struct, simp only: Base2DPoint_serialize_def Base2DSize_serialize_def BaseC32_serialize_def Base1DI8_serialize_def Base2DI8_serialize_def Base3DI8_serialize_def Base4DI8_serialize_def Base1DUI8_serialize_def Base2DUI8_serialize_def Base3DUI8_serialize_def Base4DUI8_serialize_def Base1DI16_serialize_def Base2DI16_serialize_def Base3DI16_serialize_def Base4DI16_serialize_def Base1DUI16_serialize_def Base2DUI16_serialize_def Base3DUI16_serialize_def Base4DUI16_serialize_def Base1DI32_serialize_def Base2DI32_serialize_def Base3DI32_serialize_def Base4DI32_serialize_def Base1DUI32_serialize_def Base2DUI32_serialize_def Base3DUI32_serialize_def Base4DUI32_serialize_def Base1DF32_serialize_def Base2DF32_serialize_def Base3DF32_serialize_def Base4DF32_serialize_def Base1DF64_serialize_def Base2DF64_serialize_def Base3DF64_serialize_def Base4DF64_serialize_def Base1DI32vF32_serialize_def Base2DI32vF32_serialize_def Base3DI32vF32_serialize_def Base4DI32vF32_serialize_def BBDMTag_serialize_def, simp add: c_string_cstr, intro moved_intros portable_scalars; simp add: c_string_cstr)+

lemma portable_rect: "portable Base2DRect_serialize any"
  by (rule portable_struct, simp only: Base2DRect_serialize_def, simp add: c_string_cstr, intro moved_intros portable_simple_structs; simp add: c_string_cstr)

lemma portable_struct_arrays:
  "portable (\<lambda>h xs name. Base2DPointArray_serialize h xs name n) (same_count n)"
  "portable (\<lambda>h xs name. Base2DRectArray_serialize h xs name n) (same_count n)"
  "portable (\<lambda>h xs name. Base2DSizeArray_serialize h xs name n) (same_count n)"
  "portable (\<lambda>h xs name. BaseC32Array_serialize h xs name n) (same_count n)"
  by (rule portable_structs, simp only: Base2DPointArray_serialize_def Base2DRectArray_serialize_def Base2DSizeArray_serialize_def BaseC32Array_serialize_def, simp_all add: c_string_cstr portable_rect portable_simple_structs)+

subsection \<open>Counts that are no int\<close>

text \<open>An array whose count does not fit into an \<^verbatim>\<open>int\<close> is refused at its first element.\<close>

context carrier
begin

lemma refuses_StructArray:
  assumes "alive (rn_sz r)" and "owes bs (port (rn_sz r))" and "c_string name" and "c_string type" and "n < 0" and "body \<noteq> []"
  shows "run_prog V F (StructArray name type n body) r = Require"
proof -
  obtain q qs where "body = q # qs" using assms(6) by (cases body) auto
  then show ?thesis
    using assms(3-5)
    by (simp add: step_def Serialize_beginStructArray_def Serialize_beginStructArraySeparator_def
        binary_set_simps [OF alive_binary [OF assms(1)]] format_call_none [OF assms(1,2)] fbind_def)
qed

lemma refuses_TypeFn:
  assumes "alive (rn_sz r)" and "inside (rn_sz r)" and "owes bs (port (rn_sz r))" and "c_string name" and "c_string type"
    and refused: "\<And>r. alive (rn_sz r) \<Longrightarrow> owes bs (port (rn_sz r)) \<Longrightarrow> run_prog V F q r = Require"
  shows "run_prog V F (TypeFn name type (q # body)) r = Require"
proof -
  let ?sz = "set_recovery (rn_frame r) (rn_sz r)"
  have s: "settled (rn_sz r) (port (rn_sz r)) ?sz" by (rule settled_set_recovery)
  have a0: "alive ?sz" "inside ?sz" "owes bs (port ?sz)"
    using assms(1-3) alive_settled [OF assms(1) s] settled_fields [OF s] settled_port [OF s] by simp_all
  let ?r = "r\<lparr>rn_frame := rn_frame r + 1, rn_sz := ?sz\<lparr>sz_numTypeCalls := sz_numTypeCalls ?sz + 1\<rparr>\<rparr>"
  have "run_prog V F q ?r = Require" by (rule refused) (use a0 alive_num [OF a0(1)] in simp_all)
  then show ?thesis
    using begin_inside [OF a0 assms(4,5)] by (simp add: step_def fbind_def caught_def)
qed

end

lemma memory_refuses:
  assumes "memory_writer V F b k sz" and "c_string name" and "c_string type" and "c_string element" and "n < 0" and "body \<noteq> []"
  shows "serialize_call V F (TypeFn name type [StructArray name element n body]) sz = Require"
proof -
  let ?r = "\<lparr>rn_sz = sz, rn_frame = Suc (sz_recoveryJmp sz), rn_values = []\<rparr>"
  have w: "se_interface V = IOChannelMemOps" "writer V F b sz" "inside sz" "sz_stream sz = UserStream" "mem_space 0 (sz_channel sz)"
    "writing (sz_channel sz)" "on_memory V = V"
    using assms(1) by (auto simp: memory_writer_def mem_space_def writing_def mem_inv_def mem_view_def)
  have c: "mem_port_can 0 (port sz)" using w by (simp add: mem_port_can_def)
  then have "mem_port_takes [] (port sz) (port sz)" by (rule mem_writer.takes_nothing)
  with c have o: "still_to_take mem_port_can mem_port_takes (port sz) [] [] (port (rn_sz ?r))" by (auto simp: still_to_take_def)
  have "run_prog V F (TypeFn name type [StructArray name element n body]) ?r = Require"
  proof (rule mem_writer.refuses_TypeFn [where V = V and F = F and b = b, unfolded w(7), OF _ _ o assms(2,3)])
    fix r :: "IOChannelGenericMem ser_run"
    assume "writer V F b (rn_sz r)" "still_to_take mem_port_can mem_port_takes (port sz) [] [] (port (rn_sz r))"
    then show "run_prog V F (StructArray name element n body) r = Require"
      using mem_writer.refuses_StructArray [where V = V and F = F and b = b, unfolded w(7)] assms(2,4-6) by blast
  qed (use w(2,3) in simp_all)
  then show ?thesis by (simp add: serialize_call_def)
qed

subsection \<open>Memory blocks\<close>

lemma caught_returned [simp]: "caught frame target (Ok (Returned () st)) = Ok (Returned () st)"
  by (simp add: caught_def)

context carrier
begin

text \<open>A block begins with its length.\<close>

lemma mem_begins:
  assumes "alive (rn_sz r)" and "inside (rn_sz r)" and "owes (b1 @ rest) (port (rn_sz r))" and "c_string name" and "c_string (cstr type)"
    and "moves M (leaves (BaseUI32_serialize (se_isLittleEndian V) (me_length self) (cstr ''length''))) b1 [lv]"
    and "k = sz_numTypeCalls (rn_sz r)"
  obtains r1 p1 where "mem_serialize elementSize type array V F name (r, self, mem) =
      caught (rn_frame r) (\<lambda>st. sz_recoveryJmp (rn_sz (fst st)))
        (fbind (mem_length_read elementSize (word_of_nat (host_nat (se_isLittleEndian V) (take 4 lv))) (r1, self, mem)) (\<lambda>_ st.
         fbind (mem_buffer_transfer V F array st) (\<lambda>_ st.
         fbind (on_run (step (Serialize_internalEndType V F)) st) (\<lambda>_ st.
         Ok (Returned () ((fst st)\<lparr>rn_sz := (rn_sz (fst st))\<lparr>sz_recoveryJmpSet := False\<rparr>\<rparr>, snd st))))))"
    "alive (rn_sz r1)" "inside (rn_sz r1)" "owes rest (port (rn_sz r1))" "rn_values r1 = rn_values r @ [lv]"
    "settled ((set_recovery (rn_frame r) (rn_sz r))\<lparr>sz_numTypeCalls := k + 1\<rparr>) p1 (rn_sz r1)"
proof -
  let ?sz = "set_recovery (rn_frame r) (rn_sz r)"
  have s: "settled (rn_sz r) (port (rn_sz r)) ?sz" by (rule settled_set_recovery)
  have a0: "alive ?sz" "inside ?sz" "owes (b1 @ rest) (port ?sz)" "sz_numTypeCalls ?sz = k"
    using assms(1-3,7) alive_settled [OF assms(1) s] settled_fields [OF s] settled_port [OF s] by simp_all
  let ?r = "r\<lparr>rn_frame := rn_frame r + 1, rn_sz := ?sz\<lparr>sz_numTypeCalls := k + 1\<rparr>\<rparr>"
  have a1: "alive (rn_sz ?r)" "inside (rn_sz ?r)" "owes (b1 @ rest) (port (rn_sz ?r))"
    using a0 alive_num [OF a0(1)] inside_more [OF a0(2)] by simp_all
  have "named (BaseUI32_serialize (se_isLittleEndian V) (me_length self) (cstr ''length''))"
    by (simp add: BaseUI32_serialize_def UInt_serialize_def c_string_cstr)
  from conveysD [OF conveys_prog [OF this assms(6)] a1] obtain r1 p1 where
    r1: "run_prog V F (BaseUI32_serialize (se_isLittleEndian V) (me_length self) (cstr ''length'')) ?r = Ok (Returned () r1)"
      "settled (rn_sz ?r) p1 (rn_sz r1)" "owes rest p1" "rn_values r1 = rn_values ?r @ [lv]" .
  show thesis
  proof (rule that [of r1 p1])
    show "mem_serialize elementSize type array V F name (r, self, mem) =
      caught (rn_frame r) (\<lambda>st. sz_recoveryJmp (rn_sz (fst st)))
        (fbind (mem_length_read elementSize (word_of_nat (host_nat (se_isLittleEndian V) (take 4 lv))) (r1, self, mem)) (\<lambda>_ st.
         fbind (mem_buffer_transfer V F array st) (\<lambda>_ st.
         fbind (on_run (step (Serialize_internalEndType V F)) st) (\<lambda>_ st.
         Ok (Returned () ((fst st)\<lparr>rn_sz := (rn_sz (fst st))\<lparr>sz_recoveryJmpSet := False\<rparr>\<rparr>, snd st))))))"
      using begin_inside [OF a0(1,2,3) assms(4,5)] a0(4) r1(1,4) by (simp add: mem_serialize_def on_run_def step_def last_length_def Let_def)
  qed (use r1 a1 alive_settled [OF a1(1) r1(2)] settled_fields [OF r1(2)] settled_port [OF r1(2)] in simp_all)
qed

text \<open>Then it moves its buffer: \<open>self'\<close> is the block between the two.\<close>

lemma mem_moves:
  assumes "alive (rn_sz r)" and "inside (rn_sz r)" and "owes ((b1 @ b2) @ rest) (port (rn_sz r))" and "c_string name" and "c_string (cstr type)"
    and "moves M (leaves (BaseUI32_serialize (se_isLittleEndian V) (me_length self) (cstr ''length''))) b1 [lv]"
    and taken: "\<And>r1. sz_isInitMode (rn_sz r1) = sz_isInitMode (rn_sz r) \<Longrightarrow> sz_mode (rn_sz r1) = sz_mode (rn_sz r) \<Longrightarrow> alive (rn_sz r1) \<Longrightarrow>
      mem_length_read elementSize (word_of_nat (host_nat (se_isLittleEndian V) (take 4 lv))) (r1, self, mem) = Ok (Returned () (r1, self', mem'))"
    and buffer: "me_buffer self' = Own buf" "named (array buf (cstr ''buffer'') (me_length self'))"
      "moves M (leaves (array buf (cstr ''buffer'') (me_length self'))) b2 [out]"
  shows "\<exists>r' p. mem_serialize elementSize type array V F name (r, self, mem) = Ok (Returned () (r', self'\<lparr>me_buffer := Own out\<rparr>, mem')) \<and>
    settled (rn_sz r) p (rn_sz r') \<and> owes rest p"
proof -
  define k where "k = sz_numTypeCalls (rn_sz r)"
  let ?sz = "set_recovery (rn_frame r) (rn_sz r)"
  have o: "owes (b1 @ (b2 @ rest)) (port (rn_sz r))" using assms(3) by simp
  obtain r1 p1 where r1: "mem_serialize elementSize type array V F name (r, self, mem) =
      caught (rn_frame r) (\<lambda>st. sz_recoveryJmp (rn_sz (fst st)))
        (fbind (mem_length_read elementSize (word_of_nat (host_nat (se_isLittleEndian V) (take 4 lv))) (r1, self, mem)) (\<lambda>_ st.
         fbind (mem_buffer_transfer V F array st) (\<lambda>_ st.
         fbind (on_run (step (Serialize_internalEndType V F)) st) (\<lambda>_ st.
         Ok (Returned () ((fst st)\<lparr>rn_sz := (rn_sz (fst st))\<lparr>sz_recoveryJmpSet := False\<rparr>\<rparr>, snd st))))))"
    "alive (rn_sz r1)" "inside (rn_sz r1)" "owes (b2 @ rest) (port (rn_sz r1))" "rn_values r1 = rn_values r @ [lv]"
    "settled (?sz\<lparr>sz_numTypeCalls := k + 1\<rparr>) p1 (rn_sz r1)"
    by (rule mem_begins [OF assms(1,2) o assms(4,5,6) k_def, of elementSize array mem])
  have "sz_isInitMode (rn_sz r1) = sz_isInitMode (rn_sz r)" "sz_mode (rn_sz r1) = sz_mode (rn_sz r)"
    using r1(6) by (auto simp: settled_def set_port_def set_recovery_def split: if_splits)
  note t = taken [OF this r1(2)]
  obtain r2 p where r2: "run_prog V F (array buf (cstr ''buffer'') (me_length self')) r1 = Ok (Returned () r2)" "settled (rn_sz r1) p (rn_sz r2)"
    "owes rest p" "rn_values r2 = rn_values r1 @ [out]"
    using conveysD [OF conveys_prog [OF buffer(2,3)] r1(2-4)] .
  let ?fin = "(rn_sz r2)\<lparr>sz_numTypeCalls := k\<rparr>"
  have n0: "settled (?sz\<lparr>sz_numTypeCalls := k + 1\<rparr>) p (rn_sz r2)" using settled_trans [OF r1(6) r2(2)] .
  have "k = sz_numTypeCalls ?sz" by (simp add: k_def set_recovery_def)
  from settled_nested [OF n0 this] have n: "settled (rn_sz r) p ?fin" by (rule settled_recovery)
  have a3: "alive (rn_sz r2)" "inside (rn_sz r2)" "owes rest (port (rn_sz r2))" "k = sz_numTypeCalls (rn_sz r2) - 1"
    using alive_settled [OF r1(2) r2(2)] r1 settled_fields [OF r2(2)] settled_fields [OF n0] settled_port [OF r2(2)] r2(3) by simp_all
  have "Serialize_internalEndType V F (rn_sz r2) = Ok (Returned () ?fin)"
    using end_inside [OF a3] assms(2) settled_fields(3) [OF n] by simp
  then have "mem_serialize elementSize type array V F name (r, self, mem) =
      Ok (Returned () (r2\<lparr>rn_sz := ?fin\<lparr>sz_recoveryJmpSet := False\<rparr>\<rparr>, self'\<lparr>me_buffer := Own out\<rparr>, mem'))"
    unfolding r1(1) t using r2(1,4) buffer(1) by (simp add: on_run_def step_def mem_buffer_transfer_def Let_def)
  then show ?thesis using r2(3) settled_close(1) [OF n]
    by - (rule exI [of _ "r2\<lparr>rn_sz := ?fin\<lparr>sz_recoveryJmpSet := False\<rparr>\<rparr>"], rule exI [of _ p], simp)
qed

text \<open>A length that is refused aborts, and so does a buffer that is missing.\<close>

lemma mem_refuses:
  assumes "alive (rn_sz r)" and "inside (rn_sz r)" and "owes (b1 @ rest) (port (rn_sz r))" and "c_string name" and "c_string (cstr type)"
    and "moves M (leaves (BaseUI32_serialize (se_isLittleEndian V) (me_length self) (cstr ''length''))) b1 [lv]"
    and refused: "\<And>r1. sz_isInitMode (rn_sz r1) = sz_isInitMode (rn_sz r) \<Longrightarrow> sz_mode (rn_sz r1) = sz_mode (rn_sz r) \<Longrightarrow> alive (rn_sz r1) \<Longrightarrow>
      mem_length_read elementSize (word_of_nat (host_nat (se_isLittleEndian V) (take 4 lv))) (r1, self, mem) \<in>
        {Require, Ok (Returned () (r1, self\<lparr>me_length := n, me_buffer := Null\<rparr>, mem))}"
  shows "mem_serialize elementSize type array V F name (r, self, mem) = Require"
proof -
  obtain r1 p1 where r1: "mem_serialize elementSize type array V F name (r, self, mem) =
      caught (rn_frame r) (\<lambda>st. sz_recoveryJmp (rn_sz (fst st)))
        (fbind (mem_length_read elementSize (word_of_nat (host_nat (se_isLittleEndian V) (take 4 lv))) (r1, self, mem)) (\<lambda>_ st.
         fbind (mem_buffer_transfer V F array st) (\<lambda>_ st.
         fbind (on_run (step (Serialize_internalEndType V F)) st) (\<lambda>_ st.
         Ok (Returned () ((fst st)\<lparr>rn_sz := (rn_sz (fst st))\<lparr>sz_recoveryJmpSet := False\<rparr>\<rparr>, snd st))))))"
    "alive (rn_sz r1)" "settled ((set_recovery (rn_frame r) (rn_sz r))\<lparr>sz_numTypeCalls := sz_numTypeCalls (rn_sz r) + 1\<rparr>) p1 (rn_sz r1)"
    by (rule mem_begins [OF assms(1-6) refl, of elementSize array mem])
  have "sz_isInitMode (rn_sz r1) = sz_isInitMode (rn_sz r)" "sz_mode (rn_sz r1) = sz_mode (rn_sz r)"
    using r1(3) by (auto simp: settled_def set_port_def set_recovery_def split: if_splits)
  from refused [OF this r1(2)] show ?thesis
    unfolding r1(1) by (auto simp: fbind_def caught_def mem_buffer_transfer_def)
qed

end

text \<open>A call of such a function from outside.\<close>

definition mem_call :: "(byte list \<Rightarrow> 's mem_run \<Rightarrow> (unit, 's mem_run) flow outcome) \<Rightarrow> byte list \<Rightarrow> Mem \<Rightarrow> nat \<Rightarrow> 's Serialize \<Rightarrow>
    (Mem \<times> nat \<times> 's Serialize) outcome" where
  "mem_call f name self mem sz =
     obind (f name (\<lparr>rn_sz = sz, rn_frame = Suc (sz_recoveryJmp sz), rn_values = []\<rparr>, self, mem)) (\<lambda>x. case x of
       Returned _ (r, self, mem) \<Rightarrow> Ok (self, mem, rn_sz r) | Longjmp _ \<Rightarrow> Fault)"

text \<open>The bytes of words on the wire, and in the memory of a reader.\<close>

lemma words_wire:
  assumes "LENGTH('w::len) = 8 * k" and "binary_kind type = KElements k \<or> binary_kind type = KBytes \<and> k = 1"
  shows "wire b h type (host_words h (ws :: 'w word list)) (int k) (int (length ws)) = host_words b ws"
proof -
  have k: "LENGTH('w) div 8 = k" using assms(1) by simp
  have "host_words h ws = host_words b ws" if "k = 1" using assms(1) that by (intro host_words_host) simp
  moreover have "ordered (b = h) k (length ws) (host_words h ws) = host_words b ws"
    using ordered_words [OF k, of h b ws] by (simp add: eq_sym_conv [of b h])
  ultimately show ?thesis using assms(2) k by (auto simp: wire_def mult.commute [of k])
qed

lemma words_delivered:
  assumes "LENGTH('w::len) = 8 * k" and "binary_kind type = KElements k \<or> binary_kind type = KBytes \<and> k = 1"
    and "k * length ws \<le> length buf"
  shows "delivered (b = h) type (host_words b (ws :: 'w word list)) buf (int k) (int (length ws)) = host_words h ws @ drop (k * length ws) buf"
proof -
  have k: "LENGTH('w) div 8 = k" using assms(1) by simp
  have "host_words h ws = host_words b ws" if "k = 1" using assms(1) that by (intro host_words_host) simp
  with ordered_words [OF k, of b h ws] show ?thesis using assms(2,3) by (elim disjE conjE) (simp_all add: delivered_def put_def k mult.commute)
qed

text \<open>The functions for arrays that transfer the buffers of blocks.\<close>

definition array_of :: "'w::len itself \<Rightarrow> nat \<Rightarrow> (byte list \<Rightarrow> byte list \<Rightarrow> BaseUI32 \<Rightarrow> ser_prog) \<Rightarrow> bool" where
  "array_of w k p \<longleftrightarrow> LENGTH('w) = 8 * k \<and> 0 < k \<and>
     (\<exists>type tn. type \<noteq> SERIALIZE_TYPE_STRING \<and> (binary_kind type = KElements k \<or> binary_kind type = KBytes \<and> k = 1) \<and> c_string (cstr tn) \<and>
       (\<forall>ms name n. p ms name n = TypeFn name (cstr tn) [Value type name ms (int k) (sint n)]))"

lemma array_moves:
  fixes ws :: "'w::len word list"
  assumes "array_of TYPE('w) k p" and "n = word_of_nat (length ws)" and "0 < length ws" and "length ws < 2 ^ 31"
  shows "moves (written b h) (leaves (p (host_words h ws) (cstr ''buffer'') n)) (host_words b ws) [host_words h ws]"
    "length buf = k * length ws \<Longrightarrow> moves (received b b h) (leaves (p buf (cstr ''buffer'') n)) (host_words b ws) [host_words h ws]"
    "named (p buf (cstr ''buffer'') n)"
proof -
  obtain type tn where a: "LENGTH('w) = 8 * k" "0 < k" "type \<noteq> SERIALIZE_TYPE_STRING" "binary_kind type = KElements k \<or> binary_kind type = KBytes \<and> k = 1"
    "c_string (cstr tn)" "\<forall>ms name n. p ms name n = TypeFn name (cstr tn) [Value type name ms (int k) (sint n)]"
    using assms(1) unfolding array_of_def by (elim conjE exE) (rule that)
  have n: "sint n = int (length ws)" using assms(2-4) by (simp add: signed_of_nat signed_take_bit_int_eq_self)
  have v: "value_ok type ms (int k) (sint n)" if "length ms = k * length ws" for ms
    using a(2-4) that assms(3) unfolding n by (auto simp: value_ok_def simp flip: of_nat_mult)
  have l: "length (host_words b' ws) = k * length ws" for b' using a(1) by simp
  show "moves (written b h) (leaves (p (host_words h ws) (cstr ''buffer'') n)) (host_words b ws) [host_words h ws]"
    using v [OF l] words_wire [where ws = ws and b = b and h = h, OF a(1,4)] by (simp add: a(6) [rule_format] n)
  show "moves (received b b h) (leaves (p buf (cstr ''buffer'') n)) (host_words b ws) [host_words h ws]" if "length buf = k * length ws"
    using v [OF l [of b]] v [OF that] words_wire [where ws = ws and b = b and h = b, OF a(1,4)] that
      words_delivered [where ws = ws and buf = buf and b = b and h = h, OF a(1,4)] by (auto simp: a(6) [rule_format] n)
  show "named (p buf (cstr ''buffer'') n)" using a(5) by (simp add: a(6) [rule_format] c_string_cstr)
qed

lemma length_moves:
  "moves (written b h) (leaves (BaseUI32_serialize h n (cstr ''length''))) (host_word b n) [host_word h n]"
  "moves (received b b h) (leaves (BaseUI32_serialize h n' (cstr ''length''))) (host_word b n) [host_word h n]"
proof -
  have v: "value_ok SERIALIZE_TYPE_UINT (host_word h w) 4 1" for h and w :: BaseUI32 by (simp add: value_ok_def binary_kind_def)
  have w: "wire b h SERIALIZE_TYPE_UINT (host_word h w) 4 1 = host_word b w" for b h and w :: BaseUI32
    using words_wire [where 'w = 32 and k = 4 and type = SERIALIZE_TYPE_UINT and ws = "[w]" and b = b and h = h] by (simp add: words_single binary_kind_def)
  have d: "delivered (b = h) SERIALIZE_TYPE_UINT (host_word b n) (host_word h n') 4 1 = host_word h n"
    using words_delivered [where 'w = 32 and k = 4 and type = SERIALIZE_TYPE_UINT and ws = "[n]" and b = b and h = h and buf = "host_word h n'"]
    by (simp add: words_single binary_kind_def)
  show "moves (written b h) (leaves (BaseUI32_serialize h n (cstr ''length''))) (host_word b n) [host_word h n]"
    using v w by (simp add: BaseUI32_serialize_def UInt_serialize_def)
  show "moves (received b b h) (leaves (BaseUI32_serialize h n' (cstr ''length''))) (host_word b n) [host_word h n]"
    using v w [of b b] d by (auto simp: BaseUI32_serialize_def UInt_serialize_def intro!: exI [of _ "host_word b n"])
qed

lemma length_loaded: "word_of_nat (host_nat h (take 4 (host_word h (n :: BaseUI32)))) = n"
proof -
  have "unat n < 256 ^ 4" using unsigned_less [of n] by simp
  then show ?thesis by (simp add: host_word_def host_nat_bytes)
qed

lemma block_written:
  fixes ws :: "'w::len word list"
  assumes p: "array_of TYPE('w) k p" "0 < length ws" "length ws < 2 ^ 31" and names: "c_string name" "c_string (cstr type)"
    and self: "me_length self = word_of_nat (length ws)" "me_buffer self = Own (host_words (se_isLittleEndian V) ws)"
    and sz: "\<not> sz_isInitMode sz" "memory_writer V F b (4 + k * length ws) sz"
  shows "\<exists>sz'. mem_call (mem_serialize k type p V F) name self mem sz = Ok (self, mem, sz') \<and>
    mem_view (sz_channel sz') = mf_put (host_word b (me_length self) @ host_words b ws) (mem_view (sz_channel sz))"
proof -
  let ?h = "se_isLittleEndian V" and ?T = "host_word b (me_length self) @ host_words b ws"
  let ?r = "\<lparr>rn_sz = sz, rn_frame = Suc (sz_recoveryJmp sz), rn_values = []\<rparr>"
  have l: "length ?T = 4 + k * length ws" using p(1) by (simp add: array_of_def mult.commute)
  have w: "se_interface V = IOChannelMemOps" "writer V F b sz" "inside sz" "sz_stream sz = UserStream" "mem_space (length ?T) (sz_channel sz)"
    "writing (sz_channel sz)" "on_memory V = V" "sz_mode sz \<noteq> SERIALIZE_MODE_READ"
    using sz(2) l by (auto simp: memory_writer_def mem_space_def writing_def mem_inv_def mem_view_def writer_def mult.commute)
  have c: "mem_port_can (length ?T) (port sz)" using w by (simp add: mem_port_can_def)
  then have "mem_port_takes [] (port sz) (port sz)" by (rule mem_writer.takes_nothing)
  with c have o: "still_to_take mem_port_can mem_port_takes (port sz) ?T (?T @ []) (port (rn_sz ?r))" by (auto simp: still_to_take_def)
  have t: "mem_length_read k (word_of_nat (host_nat ?h (take 4 (host_word ?h (me_length self))))) (r1, self, mem) = Ok (Returned () (r1, self, mem))"
    if "sz_isInitMode (rn_sz r1) = sz_isInitMode (rn_sz ?r)" "sz_mode (rn_sz r1) = sz_mode (rn_sz ?r)" "writer V F b (rn_sz r1)" for r1
    using that sz(1) w(8) by (simp add: mem_length_read_def length_loaded Serialize_isReading_def Serialize_isInitMode_def
        valid_serialize_def writer_def binary_set_def)
  note a = array_moves [OF p(1) self(1) p(2,3)]
  obtain r' q where q: "mem_serialize k type p V F name (?r, self, mem) = Ok (Returned () (r', self\<lparr>me_buffer := Own (host_words ?h ws)\<rparr>, mem))"
    "settled (rn_sz ?r) q (rn_sz r')" "still_to_take mem_port_can mem_port_takes (port sz) ?T [] q"
    using mem_writer.mem_moves [where V = V and F = F and b = b and r = ?r and self' = self and mem' = mem and mem = mem and array = p,
        unfolded w(7), OF _ _ o names length_moves(1) t self(2) a(3) a(1)] w by auto
  have "self\<lparr>me_buffer := Own (host_words ?h ws)\<rparr> = self" using self(2) by simp
  moreover have "mem_takes ?T (sz_channel sz) (sz_channel (rn_sz r'))"
    using q(3) settled_port [OF q(2)] by (auto simp: still_to_take_def mem_port_takes_def)
  ultimately show ?thesis using q(1) by (auto simp: mem_call_def mem_takes_def)
qed

text \<open>A reader takes the length over in the mode for initialisation, otherwise it is the length of the block.\<close>

lemma reader_length:
  assumes "reader V F b (rn_sz r)" and "length ws < 2 ^ 32" and "n = word_of_nat (length ws)"
  shows "sz_isInitMode (rn_sz r) \<Longrightarrow> mem_length_read k (word_of_nat (host_nat h (take 4 (host_word h n)))) (r, self, Suc mem) =
      Ok (Returned () (r, self\<lparr>me_length := n, me_buffer := Own (replicate (length ws * k) 0)\<rparr>, mem))"
    "sz_isInitMode (rn_sz r) \<Longrightarrow> mem_length_read k (word_of_nat (host_nat h (take 4 (host_word h n)))) (r, self, 0) =
      Ok (Returned () (r, self\<lparr>me_length := n, me_buffer := Null\<rparr>, 0))"
    "\<not> sz_isInitMode (rn_sz r) \<Longrightarrow> mem_length_read k (word_of_nat (host_nat h (take 4 (host_word h n)))) (r, self, mem) =
      (if n = me_length self then Ok (Returned () (r, self, mem)) else Require)"
proof -
  have "unat n = length ws" using assms(2,3) by (simp add: unat_of_nat)
  moreover have "sz_mode (rn_sz r) = SERIALIZE_MODE_READ" "sz_valid (rn_sz r) = SERIALIZE_VALID" using assms(1) by (auto simp: reader_def binary_set_def)
  ultimately show "sz_isInitMode (rn_sz r) \<Longrightarrow> mem_length_read k (word_of_nat (host_nat h (take 4 (host_word h n)))) (r, self, Suc mem) =
      Ok (Returned () (r, self\<lparr>me_length := n, me_buffer := Own (replicate (length ws * k) 0)\<rparr>, mem))"
    "sz_isInitMode (rn_sz r) \<Longrightarrow> mem_length_read k (word_of_nat (host_nat h (take 4 (host_word h n)))) (r, self, 0) =
      Ok (Returned () (r, self\<lparr>me_length := n, me_buffer := Null\<rparr>, 0))"
    "\<not> sz_isInitMode (rn_sz r) \<Longrightarrow> mem_length_read k (word_of_nat (host_nat h (take 4 (host_word h n)))) (r, self, mem) =
      (if n = me_length self then Ok (Returned () (r, self, mem)) else Require)"
    unfolding length_loaded by (simp_all add: mem_length_read_def Serialize_isReading_def Serialize_isInitMode_def valid_serialize_def)
qed

definition block_ready :: "bool \<Rightarrow> nat \<Rightarrow> 'w::len word list \<Rightarrow> Mem \<Rightarrow> nat \<Rightarrow> nat \<Rightarrow> bool" where
  "block_ready init k ws self mem mem' \<longleftrightarrow>
     (if init then mem = Suc mem'
      else mem = mem' \<and> me_length self = word_of_nat (length ws) \<and> (\<exists>buf. me_buffer self = Own buf \<and> length buf = k * length ws))"

lemma block_read:
  fixes ws :: "'w::len word list"
  assumes p: "array_of TYPE('w) k p" "0 < length ws" "length ws < 2 ^ 31" and names: "c_string name" "c_string (cstr type)"
    and sz: "memory_reader V F b bytes pos sz" "drop pos bytes = host_word b (word_of_nat (length ws) :: BaseUI32) @ host_words b ws @ rest"
    and self: "block_ready (sz_isInitMode sz) k ws self mem mem'"
  shows "\<exists>sz'. mem_call (mem_serialize k type p V F) name self mem sz =
    Ok (self\<lparr>me_length := word_of_nat (length ws), me_buffer := Own (host_words (se_isLittleEndian V) ws)\<rparr>, mem', sz')"
proof -
  let ?h = "se_isLittleEndian V" and ?n = "word_of_nat (length ws) :: BaseUI32"
  let ?r = "\<lparr>rn_sz = sz, rn_frame = Suc (sz_recoveryJmp sz), rn_values = []\<rparr>"
  have w: "se_interface V = IOChannelMemOps" "reader V F b sz" "inside sz" "on_memory V = V"
    using sz(1) by (auto simp: memory_reader_def)
  have g: "mem_port_gives ((host_word b ?n @ host_words b ws) @ rest) (port (rn_sz ?r))"
    using sz by (auto simp: memory_reader_def mem_port_gives_def mem_left_def reading_def mem_inv_def mem_view_def)
  obtain self' buf where s: "me_buffer self' = Own buf" "length buf = k * length ws" "me_length self' = ?n"
    "self'\<lparr>me_buffer := Own (host_words ?h ws)\<rparr> = self\<lparr>me_length := ?n, me_buffer := Own (host_words ?h ws)\<rparr>"
    "\<And>r. sz_isInitMode (rn_sz r) = sz_isInitMode sz \<Longrightarrow> reader V F b (rn_sz r) \<Longrightarrow>
      mem_length_read k (word_of_nat (host_nat ?h (take 4 (host_word ?h ?n)))) (r, self, mem) = Ok (Returned () (r, self', mem'))"
  proof (cases "sz_isInitMode sz")
    case True
    show thesis
      by (rule that [of "self\<lparr>me_length := ?n, me_buffer := Own (replicate (length ws * k) 0)\<rparr>"])
        (use True self p reader_length(1) [of V F b _ ws ?n k ?h self mem'] in \<open>auto simp: block_ready_def mult.commute\<close>)
  next
    case False
    then obtain buf where "mem = mem'" "me_length self = ?n" "me_buffer self = Own buf" "length buf = k * length ws"
      using self by (auto simp: block_ready_def)
    then show thesis
      by (intro that [of self buf]) (use False p reader_length(3) [of V F b _ ws ?n k ?h] in \<open>auto\<close>)
  qed
  note a = array_moves [OF p(1) refl p(2,3), unfolded s(3) [symmetric]]
  have t: "mem_length_read k (word_of_nat (host_nat ?h (take 4 (host_word ?h ?n)))) (r1, self, mem) = Ok (Returned () (r1, self', mem'))"
    if "sz_isInitMode (rn_sz r1) = sz_isInitMode (rn_sz ?r)" "sz_mode (rn_sz r1) = sz_mode (rn_sz ?r)" "reader V F b (rn_sz r1)" for r1
    using s(5) [of r1] that by simp
  obtain r' q where q: "mem_serialize k type p V F name (?r, self, mem) = Ok (Returned () (r', self'\<lparr>me_buffer := Own (host_words ?h ws)\<rparr>, mem'))"
    using mem_reader.mem_moves [where V = V and F = F and b = b and h = b and r = ?r and self' = self' and mem' = mem' and mem = mem and array = p,
        unfolded w(4), OF _ _ g names length_moves(2) t s(1) a(3) a(2) [OF s(2)]] w by auto
  then show ?thesis using s(4) by (simp add: mem_call_def)
qed

lemma block_unread:
  fixes ws :: "'w::len word list"
  assumes "length ws < 2 ^ 31" and names: "c_string name" "c_string (cstr type)"
    and sz: "memory_reader V F b bytes pos sz" "drop pos bytes = host_word b (word_of_nat (length ws) :: BaseUI32) @ rest"
    and self: "if sz_isInitMode sz then mem = 0 else me_length self \<noteq> word_of_nat (length ws)"
  shows "mem_call (mem_serialize k type p V F) name self mem sz = Require"
proof -
  let ?h = "se_isLittleEndian V" and ?n = "word_of_nat (length ws) :: BaseUI32"
  let ?r = "\<lparr>rn_sz = sz, rn_frame = Suc (sz_recoveryJmp sz), rn_values = []\<rparr>"
  have w: "se_interface V = IOChannelMemOps" "reader V F b sz" "inside sz" "on_memory V = V"
    using sz(1) by (auto simp: memory_reader_def)
  have g: "mem_port_gives (host_word b ?n @ rest) (port (rn_sz ?r))"
    using sz by (auto simp: memory_reader_def mem_port_gives_def mem_left_def reading_def mem_inv_def mem_view_def)
  have t: "mem_length_read k (word_of_nat (host_nat ?h (take 4 (host_word ?h ?n)))) (r1, self, mem) \<in>
      {Require, Ok (Returned () (r1, self\<lparr>me_length := ?n, me_buffer := Null\<rparr>, mem))}"
    if "sz_isInitMode (rn_sz r1) = sz_isInitMode (rn_sz ?r)" "sz_mode (rn_sz r1) = sz_mode (rn_sz ?r)" "reader V F b (rn_sz r1)" for r1
    using that reader_length(2,3) [of V F b r1 ws ?n k ?h self] assms(1) self by (auto split: if_splits)
  have "mem_serialize k type p V F name (?r, self, mem) = Require"
    using mem_reader.mem_refuses [where V = V and F = F and b = b and h = b and r = ?r and mem = mem and array = p,
        unfolded w(4), OF _ _ g names length_moves(2) t] w by auto
  then show ?thesis by (simp add: mem_call_def)
qed

subsection \<open>Interfaces\<close>

interpretation rects: portable "\<lambda>h xs name. Base2DRectArray_serialize h xs name n" "same_count n" for n
  by (rule portable_struct_arrays(2))

interpretation ints: portable "\<lambda>h (ws :: BaseI32 list) name. BaseI32Array_serialize (host_words h ws) name (word_of_nat (length ws))" same_length
  by (rule portable_arrays(6))

interpretation tags: portable BBDMTag_serialize any
  by (rule portable_simple_structs)

text \<open>A block of memory, written on one host and read on another.\<close>

definition block_taken :: "bool \<Rightarrow> bool \<Rightarrow> 'w::len word list \<Rightarrow> Mem \<Rightarrow> nat \<Rightarrow> (Mem \<times> nat) outcome" where
  "block_taken init h ws self mem =
     (if init then
        (if mem = 0 then Require else Ok (\<lparr>me_buffer = Own (host_words h ws), me_length = word_of_nat (length ws)\<rparr>, mem - 1))
      else if me_length self = word_of_nat (length ws) then Ok (self\<lparr>me_buffer := Own (host_words h ws)\<rparr>, mem)
      else Require)"

definition block_of :: "nat \<Rightarrow> bool \<Rightarrow> Mem \<Rightarrow> bool" where
  "block_of k init self \<longleftrightarrow> init \<or> (\<exists>buf. me_buffer self = Own buf \<and> length buf = k * unat (me_length self))"

locale mem_block =
  fixes f :: "mem_env \<Rightarrow> IOChannelGenericMem ser_formats \<Rightarrow> byte list \<Rightarrow> IOChannelGenericMem mem_run \<Rightarrow> (unit, IOChannelGenericMem mem_run) flow outcome"
    and k :: nat and type :: string and p :: "byte list \<Rightarrow> byte list \<Rightarrow> BaseUI32 \<Rightarrow> ser_prog" and w :: "'w::len itself"
  assumes f_is: "f V F = mem_serialize k type p V F"
    and array: "array_of TYPE('w) k p"
    and type: "c_string (cstr type)"
begin

lemma roundtrip:
  fixes ws :: "'w word list"
  assumes "0 < length ws" and "length ws < 2 ^ 31" and "c_string name"
    and self: "me_length self = word_of_nat (length ws)" "me_buffer self = Own (host_words (se_isLittleEndian V) ws)"
    and sz: "\<not> sz_isInitMode sz" "memory_writer V F b (4 + k * length ws) sz"
  shows "\<exists>sz'. mem_call (f V F) name self mem sz = Ok (self, mem, sz') \<and>
    mem_view (sz_channel sz') = mf_put (host_word b (me_length self) @ host_words b ws) (mem_view (sz_channel sz)) \<and>
    (\<forall>V2 F2 sz2 self2 mem2. memory_reader V2 F2 b (mf_bytes (mem_view (sz_channel sz'))) (mf_pos (mem_view (sz_channel sz))) sz2 \<longrightarrow>
      block_of k (sz_isInitMode sz2) self2 \<longrightarrow>
      omap (\<lambda>(self', mem', _). (self', mem')) (mem_call (f V2 F2) name self2 mem2 sz2) =
        block_taken (sz_isInitMode sz2) (se_isLittleEndian V2) ws self2 mem2)"
proof -
  let ?a = "mem_view (sz_channel sz)" and ?T = "host_word b (me_length self) @ host_words b ws"
  obtain sz' where sz': "mem_call (f V F) name self mem sz = Ok (self, mem, sz')" "mem_view (sz_channel sz') = mf_put ?T ?a"
    using block_written [OF array assms(1-3) type self sz] by (auto simp: f_is)
  have "LENGTH('w) div 8 = k" using array by (simp add: array_of_def)
  then have "mf_pos ?a + length ?T \<le> length (mf_bytes ?a)" using sz(2) by (simp add: memory_writer_def mult.commute)
  then have d: "drop (mf_pos ?a) (mf_bytes (mem_view (sz_channel sz'))) = host_word b (word_of_nat (length ws) :: BaseUI32) @ host_words b ws @
      drop (mf_pos ?a + length ?T) (mf_bytes ?a)"
    by (simp add: mf_put_def sz'(2) self(1))
  have u: "unat (word_of_nat (length ws) :: BaseUI32) = length ws" using assms(2) by (simp add: unat_of_nat)
  show ?thesis
  proof (rule exI [of _ sz'], intro conjI allI impI sz')
    fix V2 F2 self2 mem2 and sz2 :: "IOChannelGenericMem Serialize"
    assume r: "memory_reader V2 F2 b (mf_bytes (mem_view (sz_channel sz'))) (mf_pos ?a) sz2" and s: "block_of k (sz_isInitMode sz2) self2"
    show "omap (\<lambda>(self', mem', _). (self', mem')) (mem_call (f V2 F2) name self2 mem2 sz2) =
        block_taken (sz_isInitMode sz2) (se_isLittleEndian V2) ws self2 mem2"
    proof (cases "if sz_isInitMode sz2 then mem2 = 0 else me_length self2 \<noteq> word_of_nat (length ws)")
      case True
      from block_unread [OF assms(2,3) type r d this] show ?thesis using True by (auto simp: f_is block_taken_def split: if_splits)
    next
      case False
      then have "block_ready (sz_isInitMode sz2) k ws self2 mem2 (if sz_isInitMode sz2 then mem2 - 1 else mem2)"
        using s u by (auto simp: block_ready_def block_of_def)
      from block_read [OF array assms(1-3) type r d this] show ?thesis using False by (auto simp: f_is block_taken_def split: if_splits)
    qed
  qed
qed

end

text \<open>The blocks of all types.\<close>

lemma mem_blockI:
  assumes "\<And>V F. f V F = mem_serialize k type p V F" and "LENGTH('w::len) = 8 * k" and "0 < k" and "c_string (cstr type)"
    and "\<And>ms name n. p ms name n = TypeFn name (cstr tn) [Value t name ms (int k) (sint n)]" and "c_string (cstr tn)"
    and "t \<noteq> SERIALIZE_TYPE_STRING" and "binary_kind t = KElements k \<or> binary_kind t = KBytes \<and> k = 1"
  shows "mem_block TYPE('w) f k type p"
proof
  show "array_of TYPE('w) k p" unfolding array_of_def using assms(2,3,5-8) by blast
qed (use assms(1,4) in simp_all)

interpretation mem_i8: mem_block MemI8_serialize 1 "''MemI8''" BaseI8Array_serialize "TYPE(8)"
  by (rule mem_blockI [where t = SERIALIZE_TYPE_SCHARARRAY and tn = "''BaseI8Array''"])
    (simp_all add: MemI8_serialize_def BaseI8Array_serialize_def SCharArray_serialize_def binary_kind_def c_string_cstr)

interpretation mem_ui8: mem_block MemUI8_serialize 1 "''MemUI8''" BaseUI8Array_serialize "TYPE(8)"
  by (rule mem_blockI [where t = SERIALIZE_TYPE_UCHARARRAY and tn = "''BaseUI8Array''"])
    (simp_all add: MemUI8_serialize_def BaseUI8Array_serialize_def UCharArray_serialize_def binary_kind_def c_string_cstr)

interpretation mem_i16: mem_block MemI16_serialize 2 "''MemI16''" BaseI16Array_serialize "TYPE(16)"
  by (rule mem_blockI [where t = SERIALIZE_TYPE_SINTARRAY and tn = "''BaseI16Array''"])
    (simp_all add: MemI16_serialize_def BaseI16Array_serialize_def SIntArray_serialize_def binary_kind_def c_string_cstr)

interpretation mem_ui16: mem_block MemUI16_serialize 2 "''MemUI16''" BaseUI16Array_serialize "TYPE(16)"
  by (rule mem_blockI [where t = SERIALIZE_TYPE_USINTARRAY and tn = "''BaseUI16Array''"])
    (simp_all add: MemUI16_serialize_def BaseUI16Array_serialize_def USIntArray_serialize_def binary_kind_def c_string_cstr)

interpretation mem_i32: mem_block MemI32_serialize 4 "''MemI32''" BaseI32Array_serialize "TYPE(32)"
  by (rule mem_blockI [where t = SERIALIZE_TYPE_INTARRAY and tn = "''BaseI32Array''"])
    (simp_all add: MemI32_serialize_def BaseI32Array_serialize_def IntArray_serialize_def binary_kind_def c_string_cstr)

interpretation mem_ui32: mem_block MemUI32_serialize 4 "''MemUI32''" BaseUI32Array_serialize "TYPE(32)"
  by (rule mem_blockI [where t = SERIALIZE_TYPE_UINTARRAY and tn = "''BaseUI32Array''"])
    (simp_all add: MemUI32_serialize_def BaseUI32Array_serialize_def UIntArray_serialize_def binary_kind_def c_string_cstr)

interpretation mem_f32: mem_block MemF32_serialize 4 "''MemF32''" BaseF32Array_serialize "TYPE(32)"
  by (rule mem_blockI [where t = SERIALIZE_TYPE_FLOATARRAY and tn = "''BaseF32Array''"])
    (simp_all add: MemF32_serialize_def BaseF32Array_serialize_def FloatArray_serialize_def binary_kind_def c_string_cstr)

interpretation mem_f64: mem_block MemF64_serialize 8 "''MemF64''" BaseF64Array_serialize "TYPE(64)"
  by (rule mem_blockI [where t = SERIALIZE_TYPE_DOUBLEARRAY and tn = "''BaseF64Array''"])
    (simp_all add: MemF64_serialize_def BaseF64Array_serialize_def DoubleArray_serialize_def binary_kind_def c_string_cstr)

subsection \<open>Properties\<close>

text \<open>The numbers of rectangles.\<close>

definition rect_numbers :: "Base2DRect list \<Rightarrow> BaseI32 list" where
  "rect_numbers rs = concat (map (\<lambda>r. [pt_x (rc_upperLeft r), pt_y (rc_upperLeft r), sz_width (rc_size r), sz_height (rc_size r)]) rs)"

lemma take_nth: "n \<le> length xs \<Longrightarrow> take n xs = map ((!) xs) [0..<n]"
  by (rule nth_equalityI) simp_all

lemma concat_map_concat: "concat (map f (concat xss)) = concat (map (\<lambda>xs. concat (map f xs)) xss)"
  by (induction xss) simp_all

lemma rect_values:
  "values_of (Base2DRect_serialize h r name) = map (host_word h) (rect_numbers [r])"
  by (simp add: Base2DRect_serialize_def Base2DPoint_serialize_def Base2DSize_serialize_def BaseI32_serialize_def Int_serialize_def
      rect_numbers_def values_of_simps)

lemma rects_values:
  "unat n \<le> length xs \<Longrightarrow> values_of (Base2DRectArray_serialize h xs name n) = map (host_word h) (rect_numbers (take (unat n) xs))"
  by (simp add: Base2DRectArray_serialize_def STRUCT_ARRAY_SERIALIZE_def values_of_simps o_def rect_values take_nth)
    (simp add: rect_numbers_def map_concat o_def)

lemma rect_leaves:
  "concat (map (leaf_wire b h) (leaves (Base2DRect_serialize h r name))) = host_words b (rect_numbers [r])"
proof -
  have "wire b h SERIALIZE_TYPE_INT (host_word h w) 4 1 = host_word b w" for w :: BaseI32
    using words_wire [where 'w = 32 and k = 4 and type = SERIALIZE_TYPE_INT and ws = "[w]" and b = b and h = h] by (simp add: words_single binary_kind_def)
  then show ?thesis
    by (simp add: Base2DRect_serialize_def Base2DPoint_serialize_def Base2DSize_serialize_def BaseI32_serialize_def Int_serialize_def
      rect_numbers_def host_words_def)
qed

lemma rects_emits:
  "unat n \<le> length xs \<Longrightarrow> emits b h (Base2DRectArray_serialize h xs name n) = host_words b (rect_numbers (take (unat n) xs))"
  by (simp add: Base2DRectArray_serialize_def STRUCT_ARRAY_SERIALIZE_def emits_def o_def concat_map_concat rect_leaves take_nth)
    (simp add: rect_numbers_def host_words_def concat_map_concat o_def)

lemma length_rects: "n \<le> length xs \<Longrightarrow> length (rect_numbers (take n xs)) = 4 * n"
  by (induction n arbitrary: xs) (simp_all add: rect_numbers_def take_Suc_conv_app_nth)

text \<open>Memory for the examples.\<close>

lemma example_memory:
  assumes "m \<noteq> []"
  obtains ch where "mem_inv ch" "mem_view ch = \<lparr>mf_bytes = m, mf_pos = 0, mf_ungot = [], mf_room = 1024, mf_eof = False, mf_last = 0\<rparr>"
proof -
  obtain ch0 :: mem_channel and mem where i: "IOChannel_init IOChannel_zero 20 = Ok (True, ch0, mem)" "fresh_channel ch0" "20 = mem + 8"
    using IOChannel_init_ok [of 20] by auto
  with IOChannelMem_open_file [of ch0 m mem] assms show thesis by (auto intro: that)
qed

lemma nat_le_numeral: "nat_le (numeral k) v = word_of_nat v # nat_le (pred_numeral k) (v div 256)"
  unfolding numeral_eq_Suc [of k] by (rule nat_le.simps)

lemma example_env_host [simp]: "se_isLittleEndian (example_env h) = h"
  by (simp add: example_env_def)

lemma example_channel [simp]: "sz_channel (example_object h b m ch) = ch"
  by (simp add: example_object_def)

text \<open>C37: An array of fewer than \<open>2 ^ 31\<close> rectangles survives the way through memory between any two hosts: its first \<open>n\<close> rectangles are written as
  sixteen bytes each, the numbers of the point and then of the size, in the byte order of the format; a reader on any host, with room for
  \<open>n\<close> rectangles of its own, ends up with these numbers in its own byte order, nested structures included. The unsigned count
  reaches the library as an \<^verbatim>\<open>int\<close>: from \<open>2 ^ 31\<close> on it is negative there, and the call aborts at the first rectangle.\<close>

theorem Base2DRectArray_serialize_roundtrip:
  assumes "c_string name" and "unat n \<le> length xs" and "unat n \<le> length ys" and "memory_writer V F b (16 * unat n) sz"
  shows "if unat n < 2 ^ 31 then
    \<exists>sz'. serialize_call V F (Base2DRectArray_serialize (se_isLittleEndian V) xs name n) sz =
      Ok (map (host_word (se_isLittleEndian V)) (rect_numbers (take (unat n) xs)), sz') \<and>
    mem_view (sz_channel sz') = mf_put (host_words b (rect_numbers (take (unat n) xs))) (mem_view (sz_channel sz)) \<and>
    (\<forall>V2 F2 sz2. memory_reader V2 F2 b (mf_bytes (mem_view (sz_channel sz'))) (mf_pos (mem_view (sz_channel sz))) sz2 \<longrightarrow>
      (\<exists>sz2'. serialize_call V2 F2 (Base2DRectArray_serialize (se_isLittleEndian V2) ys name n) sz2 =
         Ok (map (host_word (se_isLittleEndian V2)) (rect_numbers (take (unat n) xs)), sz2')))
    else serialize_call V F (Base2DRectArray_serialize (se_isLittleEndian V) xs name n) sz = Require"
proof (cases "unat n < 2 ^ 31")
  case False
  then have "0 < unat n" "sint n < 0" using sint_negative [of n] by simp_all
  with False memory_refuses [OF assms(4,1)] show ?thesis
    by (simp add: Base2DRectArray_serialize_def STRUCT_ARRAY_SERIALIZE_def c_string_cstr)
next
  case True
  then have f: "same_count n xs ys" using assms(2,3) by (simp add: same_count_def)
  have "length (emits b (se_isLittleEndian V) (Base2DRectArray_serialize (se_isLittleEndian V) xs name n)) = 16 * unat n"
    unfolding rects_emits [OF assms(2)] by (simp add: length_rects [OF assms(2)])
  with rects.roundtrip [OF assms(1) f, of V F b sz] assms(4) True show ?thesis
    unfolding rects_emits [OF assms(2)] rects_values [OF assms(2)] by metis
qed

theorem Base2DRectArray_serialize_roundtrip_witness:
  "\<exists>ch ch2 sz' sz2'.
     serialize_call (example_env True) (example_formats (example_env True))
       (Base2DRectArray_serialize True [\<lparr>rc_upperLeft = \<lparr>pt_x = 1, pt_y = 2\<rparr>, rc_size = \<lparr>sz_width = 3, sz_height = 260\<rparr>\<rparr>] (cstr ''r'') 1)
       (example_object True False SERIALIZE_MODE_WRITE ch) = Ok ([[1, 0, 0, 0], [2, 0, 0, 0], [3, 0, 0, 0], [4, 1, 0, 0]], sz') \<and>
     mf_bytes (mem_view (sz_channel sz')) = [0, 0, 0, 1, 0, 0, 0, 2, 0, 0, 0, 3, 0, 0, 1, 4] \<and>
     serialize_call (example_env False) (example_formats (example_env False))
       (Base2DRectArray_serialize False [\<lparr>rc_upperLeft = \<lparr>pt_x = 0, pt_y = 0\<rparr>, rc_size = \<lparr>sz_width = 0, sz_height = 0\<rparr>\<rparr>] (cstr ''r'') 1)
       (example_object False False SERIALIZE_MODE_READ ch2) = Ok ([[0, 0, 0, 1], [0, 0, 0, 2], [0, 0, 0, 3], [0, 0, 1, 4]], sz2')"
proof -
  let ?xs = "[\<lparr>rc_upperLeft = \<lparr>pt_x = 1, pt_y = 2\<rparr>, rc_size = \<lparr>sz_width = 3, sz_height = 260\<rparr>\<rparr>]"
    and ?ys = "[\<lparr>rc_upperLeft = \<lparr>pt_x = 0, pt_y = 0\<rparr>, rc_size = \<lparr>sz_width = 0, sz_height = 0\<rparr>\<rparr>]"
  let ?T = "[0, 0, 0, 1, 0, 0, 0, 2, 0, 0, 0, 3, 0, 0, 1, 4] :: byte list"
  obtain ch where ch: "mem_inv ch" "mem_view ch = \<lparr>mf_bytes = replicate 16 0, mf_pos = 0, mf_ungot = [], mf_room = 1024, mf_eof = False, mf_last = 0\<rparr>"
    by (rule example_memory [of "replicate 16 0"]) simp_all
  obtain ch2 where ch2: "mem_inv ch2" "mem_view ch2 = \<lparr>mf_bytes = ?T, mf_pos = 0, mf_ungot = [], mf_room = 1024, mf_eof = False, mf_last = 0\<rparr>"
    by (rule example_memory [of ?T]) simp_all
  have w: "map (host_word True) (rect_numbers ?xs) = [[1, 0, 0, 0], [2, 0, 0, 0], [3, 0, 0, 0], [4, 1, 0, 0]]"
    "map (host_word False) (rect_numbers ?xs) = [[0, 0, 0, 1], [0, 0, 0, 2], [0, 0, 0, 3], [0, 0, 1, 4]]"
    "host_words False (rect_numbers ?xs) = ?T"
    by (simp_all add: rect_numbers_def host_words_def host_word_def host_bytes_def nat_le_numeral)
  have w0: "memory_writer (example_env True) (example_formats (example_env True)) False (16 * unat (1 :: BaseUI32))
      (example_object True False SERIALIZE_MODE_WRITE ch)"
    unfolding example_ok using ch by simp
  have n: "c_string (cstr ''r'')" "unat (1 :: BaseUI32) \<le> length ?xs" "unat (1 :: BaseUI32) \<le> length ?ys" "take (unat (1 :: BaseUI32)) ?xs = ?xs"
    "unat (1 :: BaseUI32) < 2 ^ 31"
    by (simp_all add: c_string_cstr)
  from Base2DRectArray_serialize_roundtrip [OF n(1-3) w0] obtain sz' where
    sz': "serialize_call (example_env True) (example_formats (example_env True)) (Base2DRectArray_serialize True ?xs (cstr ''r'') 1)
        (example_object True False SERIALIZE_MODE_WRITE ch) = Ok (map (host_word True) (rect_numbers ?xs), sz')"
      "mem_view (sz_channel sz') = mf_put ?T (mem_view ch)"
    and rd: "\<And>V2 F2 sz2. memory_reader V2 F2 False (mf_bytes (mem_view (sz_channel sz'))) (mf_pos (mem_view ch)) sz2 \<Longrightarrow>
        \<exists>sz2'. serialize_call V2 F2 (Base2DRectArray_serialize (se_isLittleEndian V2) ?ys (cstr ''r'') 1) sz2 =
          Ok (map (host_word (se_isLittleEndian V2)) (rect_numbers ?xs), sz2')"
    unfolding example_env_host example_channel n(4) w(3) by (auto simp: n(5))
  have b: "mf_bytes (mem_view (sz_channel sz')) = ?T" using sz'(2) ch(2) by (simp add: mf_put_def)
  have "memory_reader (example_env False) (example_formats (example_env False)) False (mf_bytes (mem_view (sz_channel sz'))) (mf_pos (mem_view ch))
      (example_object False False SERIALIZE_MODE_READ ch2)"
    unfolding example_ok b using ch ch2 by simp
  from rd [OF this] obtain sz2' where "serialize_call (example_env False) (example_formats (example_env False))
      (Base2DRectArray_serialize False ?ys (cstr ''r'') 1) (example_object False False SERIALIZE_MODE_READ ch2) =
        Ok (map (host_word False) (rect_numbers ?xs), sz2')"
    by auto
  then show ?thesis using sz'(1) b unfolding w(1,2) by blast
qed

text \<open>C38: A memory block of doubles is written with its length and stays as it is. A reader on any host in the mode for
  initialisation allocates a buffer for this length and gets the numbers in its own byte order, or aborts when there is no memory;
  otherwise it fills a block of exactly this length, and aborts when the lengths differ.\<close>

theorem MemF64_serialize_roundtrip:
  fixes ws :: "BaseF64 list"
  assumes "c_string name" and "0 < length ws" and "length ws < 2 ^ 31"
    and "me_length self = word_of_nat (length ws)" and "me_buffer self = Own (host_words (se_isLittleEndian V) ws)"
    and "\<not> sz_isInitMode sz" and "memory_writer V F b (4 + 8 * length ws) sz"
  shows "\<exists>sz'. mem_call (MemF64_serialize V F) name self mem sz = Ok (self, mem, sz') \<and>
    mem_view (sz_channel sz') = mf_put (host_word b (me_length self) @ host_words b ws) (mem_view (sz_channel sz)) \<and>
    (\<forall>V2 F2 sz2 self2 mem2. memory_reader V2 F2 b (mf_bytes (mem_view (sz_channel sz'))) (mf_pos (mem_view (sz_channel sz))) sz2 \<longrightarrow>
      block_of 8 (sz_isInitMode sz2) self2 \<longrightarrow>
      omap (\<lambda>(self', mem', _). (self', mem')) (mem_call (MemF64_serialize V2 F2) name self2 mem2 sz2) =
        block_taken (sz_isInitMode sz2) (se_isLittleEndian V2) ws self2 mem2)"
  by (rule mem_f64.roundtrip [OF assms(2,3,1,4-7)])

lemma example_init_ok:
  "memory_reader (example_env h) (example_formats (example_env h)) b bytes pos (example_object h b SERIALIZE_MODE_READ ch\<lparr>sz_isInitMode := i\<rparr>) \<longleftrightarrow>
    memory_reader (example_env h) (example_formats (example_env h)) b bytes pos (example_object h b SERIALIZE_MODE_READ ch)"
  by (simp add: memory_reader_def reader_def binary_set_def inside_def)

lemma example_not_init: "\<not> sz_isInitMode (example_object h b m ch)"
  by (simp add: example_object_def Serialize_zero_def)

lemma host_words_Cons: "host_words h (w # ws) = host_word h w @ host_words h ws"
  by (simp add: host_words_def)

theorem MemF64_serialize_roundtrip_witness:
  "\<exists>ch ch2 sz'.
     mem_call (MemF64_serialize (example_env True) (example_formats (example_env True))) (cstr ''b'')
       \<lparr>me_buffer = Own [0, 0, 0, 0, 0, 0, 240, 63], me_length = 1\<rparr> 0 (example_object True False SERIALIZE_MODE_WRITE ch) =
         Ok (\<lparr>me_buffer = Own [0, 0, 0, 0, 0, 0, 240, 63], me_length = 1\<rparr>, 0, sz') \<and>
     mf_bytes (mem_view (sz_channel sz')) = [0, 0, 0, 1, 63, 240, 0, 0, 0, 0, 0, 0] \<and>
     omap (\<lambda>(self', mem', _). (self', mem')) (mem_call (MemF64_serialize (example_env False) (example_formats (example_env False))) (cstr ''b'')
       Mem_zero 7 (example_object False False SERIALIZE_MODE_READ ch2\<lparr>sz_isInitMode := True\<rparr>)) =
         Ok (\<lparr>me_buffer = Own [63, 240, 0, 0, 0, 0, 0, 0], me_length = 1\<rparr>, 6) \<and>
     mem_call (MemF64_serialize (example_env False) (example_formats (example_env False))) (cstr ''b'')
       \<lparr>me_buffer = Own (replicate 16 0), me_length = 2\<rparr> 7 (example_object False False SERIALIZE_MODE_READ ch2) = Require"
proof -
  let ?ws = "[0x3FF0000000000000] :: BaseF64 list" and ?T = "[0, 0, 0, 1, 63, 240, 0, 0, 0, 0, 0, 0] :: byte list"
  let ?self = "\<lparr>me_buffer = Own [0, 0, 0, 0, 0, 0, 240, 63], me_length = 1\<rparr>"
  let ?rd = "example_object False False SERIALIZE_MODE_READ" and ?F = "example_formats (example_env False)"
  obtain ch where ch: "mem_inv ch" "mem_view ch = \<lparr>mf_bytes = replicate 12 0, mf_pos = 0, mf_ungot = [], mf_room = 1024, mf_eof = False, mf_last = 0\<rparr>"
    by (rule example_memory [of "replicate 12 0"]) simp_all
  obtain ch2 where ch2: "mem_inv ch2" "mem_view ch2 = \<lparr>mf_bytes = ?T, mf_pos = 0, mf_ungot = [], mf_room = 1024, mf_eof = False, mf_last = 0\<rparr>"
    by (rule example_memory [of ?T]) simp_all
  have w: "host_words True ?ws = [0, 0, 0, 0, 0, 0, 240, 63]" "host_words False ?ws = [63, 240, 0, 0, 0, 0, 0, 0]"
    "host_word False (1 :: BaseUI32) = [0, 0, 0, 1]"
    by (simp_all add: host_words_Cons host_word_def host_bytes_def nat_le_numeral)
  have n: "c_string (cstr ''b'')" "0 < length ?ws" "length ?ws < 2 ^ 31" "me_length ?self = word_of_nat (length ?ws)"
    "me_buffer ?self = Own (host_words (se_isLittleEndian (example_env True)) ?ws)"
    unfolding example_env_host w by (simp_all add: c_string_cstr)
  have "memory_writer (example_env True) (example_formats (example_env True)) False (4 + 8 * length ?ws) (example_object True False SERIALIZE_MODE_WRITE ch)"
    unfolding example_ok using ch by simp
  from MemF64_serialize_roundtrip [OF n example_not_init this, of 0] obtain sz' where
    sz': "mem_call (MemF64_serialize (example_env True) (example_formats (example_env True))) (cstr ''b'') ?self 0
        (example_object True False SERIALIZE_MODE_WRITE ch) = Ok (?self, 0, sz')"
      "mem_view (sz_channel sz') = mf_put (host_word False (me_length ?self) @ host_words False ?ws) (mem_view ch)"
    and rd: "\<And>V2 F2 sz2 self2 mem2. memory_reader V2 F2 False (mf_bytes (mem_view (sz_channel sz'))) (mf_pos (mem_view ch)) sz2 \<Longrightarrow>
      block_of 8 (sz_isInitMode sz2) self2 \<Longrightarrow>
      omap (\<lambda>(self', mem', _). (self', mem')) (mem_call (MemF64_serialize V2 F2) (cstr ''b'') self2 mem2 sz2) =
        block_taken (sz_isInitMode sz2) (se_isLittleEndian V2) ?ws self2 mem2"
    unfolding example_channel by blast
  have b: "mf_bytes (mem_view (sz_channel sz')) = ?T" using sz'(2) ch(2) by (simp add: mf_put_def w)
  have r: "memory_reader (example_env False) ?F False (mf_bytes (mem_view (sz_channel sz'))) (mf_pos (mem_view ch)) (?rd ch2\<lparr>sz_isInitMode := i\<rparr>)" for i
    unfolding example_init_ok example_ok b using ch ch2 by simp
  have "omap (\<lambda>(self', mem', _). (self', mem')) (mem_call (MemF64_serialize (example_env False) ?F) (cstr ''b'') Mem_zero 7 (?rd ch2\<lparr>sz_isInitMode := True\<rparr>)) =
      Ok (\<lparr>me_buffer = Own [63, 240, 0, 0, 0, 0, 0, 0], me_length = 1\<rparr>, 6)"
    using rd [OF r [of True], of Mem_zero 7] w(2) by (simp add: block_of_def block_taken_def)
  moreover have "?rd ch2\<lparr>sz_isInitMode := False\<rparr> = ?rd ch2" by (simp add: example_object_def Serialize_zero_def)
  with rd [OF r [of False], of "\<lparr>me_buffer = Own (replicate 16 0), me_length = 2\<rparr>" 7]
  have "omap (\<lambda>(self', mem', _). (self', mem')) (mem_call (MemF64_serialize (example_env False) ?F) (cstr ''b'')
      \<lparr>me_buffer = Own (replicate 16 0), me_length = 2\<rparr> 7 (?rd ch2)) = Require"
    using example_not_init [of False False SERIALIZE_MODE_READ ch2] by (simp add: block_of_def block_taken_def)
  then have "mem_call (MemF64_serialize (example_env False) ?F) (cstr ''b'') \<lparr>me_buffer = Own (replicate 16 0), me_length = 2\<rparr> 7 (?rd ch2) = Require"
    by (cases "mem_call (MemF64_serialize (example_env False) ?F) (cstr ''b'') \<lparr>me_buffer = Own (replicate 16 0), me_length = 2\<rparr> 7 (?rd ch2)")
      (simp_all add: omap_def)
  ultimately show ?thesis using sz'(1) b by blast
qed

end
