(* ===== verification/IO_Ref.thy ===== *)
theory IO_Ref
  imports Ser_Ref IO_Format "HOL-Library.Multiset"
begin

text \<open>
  The reference value pairs that open a stream (src/src/IOChannelReferenceValue.c, .h): a text such as
  \<^verbatim>\<open>stream = 'Mem' mode = 'IOCHANNEL_MODE_RW | IOCHANNEL_MODE_CREAT'\<close> becomes a list of elements and a vector of
  their addresses that ends with 0; values are looked up in the vector, as strings, numbers, pointers, modes
  and permissions.

  Strings are lists of bytes with their terminator, as in \<^verbatim>\<open>Ser_Ref\<close>, from which the functions on strings come. The
  state holds the elements, the blocks with strings and with vectors that have been allocated and not yet released, and the
  budget of allocations. A block counts by what it contains, and releasing one that is not there is a fault.
  Buffers for tokens become the strings of an element;
  \<open>held\<close> in the parser is the element that has the string behind its pointer \<^verbatim>\<open>referenceValue\<close> (0 when there is none). When the
  text has an error the elements that were read are lost, and that string is released. The reference of a pair whose
  reference is in the list already stays allocated without an owner.

  A variable of type \<^verbatim>\<open>int\<close> that is set through a pointer is an option as long as it may be unset; reading it then
  is a fault. What \<^verbatim>\<open>sscanf\<close> makes of a pointer is a parameter.
\<close>

unbundle bit_operations_syntax

subsection \<open>Characters and tokens\<close>

definition IOCHANNELREFERENCEVALUE_EOF :: byte where
  "IOCHANNELREFERENCEVALUE_EOF = 0"

definition IOCHANNELREFERENCEVALUE_ISDIGIT :: "byte \<Rightarrow> bool" where
  "IOCHANNELREFERENCEVALUE_ISDIGIT ch \<longleftrightarrow> 48 \<le> ch \<and> ch \<le> 57"

definition IOCHANNELREFERENCEVALUE_ISSPACE :: "byte \<Rightarrow> bool" where
  "IOCHANNELREFERENCEVALUE_ISSPACE ch \<longleftrightarrow> ch = 32 \<or> ch = 9 \<or> ch = 13 \<or> ch = 10 \<or> ch = 11"

definition IOCHANNELREFERENCEVALUE_ISXDIGIT :: "byte \<Rightarrow> bool" where
  "IOCHANNELREFERENCEVALUE_ISXDIGIT ch \<longleftrightarrow>
     97 \<le> ch \<and> ch \<le> 102 \<or> 65 \<le> ch \<and> ch \<le> 70 \<or> IOCHANNELREFERENCEVALUE_ISDIGIT ch"

definition IOCHANNELREFERENCEVALUE_ISOCTALDIGIT :: "byte \<Rightarrow> bool" where
  "IOCHANNELREFERENCEVALUE_ISOCTALDIGIT ch \<longleftrightarrow> 48 \<le> ch \<and> ch \<le> 55"

definition IOCHANNELREFERENCEVALUE_ISSIGN :: "byte \<Rightarrow> bool" where
  "IOCHANNELREFERENCEVALUE_ISSIGN ch \<longleftrightarrow> ch = 43 \<or> ch = 45"

definition IOCHANNELREFERENCEVALUE_ISALPHALOWER :: "byte \<Rightarrow> bool" where
  "IOCHANNELREFERENCEVALUE_ISALPHALOWER ch \<longleftrightarrow> 97 \<le> ch \<and> ch \<le> 122"

definition IOCHANNELREFERENCEVALUE_ISALPHAUPPER :: "byte \<Rightarrow> bool" where
  "IOCHANNELREFERENCEVALUE_ISALPHAUPPER ch \<longleftrightarrow> 65 \<le> ch \<and> ch \<le> 90"

definition IOCHANNELREFERENCEVALUE_ISADMITTEDREFERENCE :: "byte \<Rightarrow> bool" where
  "IOCHANNELREFERENCEVALUE_ISADMITTEDREFERENCE ch \<longleftrightarrow>
     IOCHANNELREFERENCEVALUE_ISDIGIT ch \<or> IOCHANNELREFERENCEVALUE_ISALPHALOWER ch \<or>
     IOCHANNELREFERENCEVALUE_ISALPHAUPPER ch \<or> ch = 36 \<or> ch = 95 \<or> ch = 43 \<or> ch = 45 \<or> ch = 126"

text \<open>\<^verbatim>\<open>_IOCHANNELREFERENCEVALUE_ISADMITTEDVALUE_WIN32\<close> outside of Windows, and the \<^verbatim>\<open>_GENERAL\<close> one.\<close>

definition IOCHANNELREFERENCEVALUE_ISADMITTEDVALUE_WIN32 :: "byte \<Rightarrow> bool" where
  "IOCHANNELREFERENCEVALUE_ISADMITTEDVALUE_WIN32 ch \<longleftrightarrow> True"

definition IOCHANNELREFERENCEVALUE_ISADMITTEDVALUE_GENERAL :: "byte \<Rightarrow> bool" where
  "IOCHANNELREFERENCEVALUE_ISADMITTEDVALUE_GENERAL ch \<longleftrightarrow>
     IOCHANNELREFERENCEVALUE_ISDIGIT ch \<or> IOCHANNELREFERENCEVALUE_ISALPHALOWER ch \<or>
     IOCHANNELREFERENCEVALUE_ISALPHAUPPER ch \<or> ch = 36 \<or> ch = 46 \<or> ch = 47 \<or> ch = 58 \<or> ch = 95 \<or> ch = 45"

definition IOCHANNELREFERENCEVALUE_ISADMITTEDVALUE :: "byte \<Rightarrow> bool" where
  "IOCHANNELREFERENCEVALUE_ISADMITTEDVALUE ch \<longleftrightarrow>
     IOCHANNELREFERENCEVALUE_ISADMITTEDVALUE_GENERAL ch \<or> IOCHANNELREFERENCEVALUE_ISADMITTEDVALUE_WIN32 ch"

definition IOCHANNELREFERENCEVALUE_ISADMITTED :: "byte \<Rightarrow> bool" where
  "IOCHANNELREFERENCEVALUE_ISADMITTED ch \<longleftrightarrow>
     IOCHANNELREFERENCEVALUE_ISSIGN ch \<or> IOCHANNELREFERENCEVALUE_ISDIGIT ch \<or>
     IOCHANNELREFERENCEVALUE_ISALPHALOWER ch \<or> IOCHANNELREFERENCEVALUE_ISALPHAUPPER ch \<or> ch = 36 \<or> ch = 95"

definition IOCHANNELREFERENCEVALUE_SKIPSPACES :: "byte list \<Rightarrow> byte list outcome" where
  "IOCHANNELREFERENCEVALUE_SKIPSPACES s = omap snd (advance IOCHANNELREFERENCEVALUE_ISSPACE s)"

text \<open>\<open>tok\<close> is what lies between the two pointers.\<close>

definition IOCHANNELREFERENCEVALUE_EXTRACTTOKEN :: "byte list \<Rightarrow> nat \<Rightarrow> (byte list \<times> nat) outcome" where
  "IOCHANNELREFERENCEVALUE_EXTRACTTOKEN tok mem =
     ANY_REQUIRE (length tok > 0)
       (let (token, mem) = ANY_BALLOC (length tok + 1) mem in
        ANY_REQUIRE (token \<noteq> Null) (deref token (\<lambda>t.
          Ok ((tok @ drop (length tok) t)[length tok := IOCHANNELREFERENCEVALUE_EOF], mem))))"

definition IOCHANNELREFERENCEVALUE_GETTOKEN :: "(byte \<Rightarrow> bool) \<Rightarrow> byte list \<Rightarrow> nat \<Rightarrow> (byte list \<times> byte list \<times> nat) outcome" where
  "IOCHANNELREFERENCEVALUE_GETTOKEN isAdmitted s mem =
     obind (advance (\<lambda>c. \<not> IOCHANNELREFERENCEVALUE_ISSPACE c \<and> isAdmitted c) s) (\<lambda>(tok, s).
     obind (IOCHANNELREFERENCEVALUE_EXTRACTTOKEN tok mem) (\<lambda>(token, mem).
     Ok (token, s, mem)))"

text \<open>\<^verbatim>\<open>strcmp( s, t ) == 0\<close>, and \<^verbatim>\<open>strcasecmp\<close>.\<close>

fun strcmp_eq :: "byte list \<Rightarrow> byte list \<Rightarrow> bool outcome" where
  "strcmp_eq (x # s) (y # t) = (if x \<noteq> y then Ok False else if x = 0 then Ok True else strcmp_eq s t)"
| "strcmp_eq _ _ = Fault"

definition lower_char :: "byte \<Rightarrow> byte" where
  "lower_char c = (if 65 \<le> c \<and> c \<le> 90 then c + 32 else c)"

definition strcasecmp_eq :: "byte list \<Rightarrow> byte list \<Rightarrow> bool outcome" where
  "strcasecmp_eq s t = strcmp_eq (map lower_char s) (map lower_char t)"

subsection \<open>Lists and vectors\<close>

record IOChannelReferenceValue =
  ir_reference :: "byte list owned"
  ir_value :: "byte list owned"
  ir_next :: nat

record irs =
  is_heap :: "IOChannelReferenceValue heap"
  is_strings :: "byte list multiset"
  is_vectors :: "nat list multiset"
  is_mem :: nat

text \<open>A new block with a string, and \<^verbatim>\<open>ANY_FREE\<close> for one.\<close>

definition keep_string :: "byte list \<Rightarrow> irs \<Rightarrow> irs" where
  "keep_string t w = w\<lparr>is_strings := add_mset t (is_strings w)\<rparr>"

definition release_string :: "byte list owned \<Rightarrow> irs \<Rightarrow> (byte list owned \<times> irs) outcome" where
  "release_string p w =
     obind (ANY_FREE p) (\<lambda>q. case p of
       Own t \<Rightarrow> defined_if (t \<in># is_strings w) (Ok (q, w\<lparr>is_strings := is_strings w - {#t#}\<rparr>))
     | _ \<Rightarrow> Ok (q, w))"

definition IOChannelReferenceValue_zero :: IOChannelReferenceValue where
  "IOChannelReferenceValue_zero = \<lparr>ir_reference = Null, ir_value = Null, ir_next = 0\<rparr>"

text \<open>The search in \<^verbatim>\<open>listItemSet\<close>: the element that was found, otherwise the last one.\<close>

fun set_search :: "nat \<Rightarrow> byte list \<Rightarrow> nat \<Rightarrow> IOChannelReferenceValue heap \<Rightarrow> (bool \<times> nat) outcome" where
  "set_search 0 reference currentPtr h = Stuck"
| "set_search (Suc fuel) reference currentPtr h =
     (if currentPtr = 0 then Ok (False, 0)
      else obind (hread h currentPtr) (\<lambda>c. deref (ir_reference c) (\<lambda>r.
           obind (strcmp_eq r reference) (\<lambda>eq.
           if eq then Ok (True, currentPtr)
           else if ir_next c = 0 then Ok (False, currentPtr)
           else set_search fuel reference (ir_next c) h))))"

text \<open>The address of the element that has the value, and the new head of the list.\<close>

definition IOChannelReferenceValue_listItemSet :: "nat \<Rightarrow> byte list \<Rightarrow> byte list \<Rightarrow> irs \<Rightarrow> (nat \<times> nat \<times> irs) outcome" where
  "IOChannelReferenceValue_listItemSet headList reference val w =
     obind (set_search (Suc (brk (is_heap w))) reference headList (is_heap w)) (\<lambda>(found, currentPtr).
     if found
     then obind (hread (is_heap w) currentPtr) (\<lambda>c.
          obind (release_string (ir_value c) w) (\<lambda>(_, w).
          obind (hwrite (is_heap w) currentPtr (c\<lparr>ir_value := Own val\<rparr>)) (\<lambda>h.
          Ok (currentPtr, headList, w\<lparr>is_heap := h\<rparr>))))
     else let (newItem, h, mem) = halloc IOChannelReferenceValue_zero (is_heap w) (is_mem w) in
       ANY_REQUIRE (newItem \<noteq> 0)
         (obind (hupd h newItem (\<lambda>c. c\<lparr>ir_reference := Own reference, ir_value := Own val, ir_next := 0\<rparr>)) (\<lambda>h.
          obind (if currentPtr \<noteq> 0 then hupd h currentPtr (\<lambda>c. c\<lparr>ir_next := newItem\<rparr>) else Ok h) (\<lambda>h.
          Ok (newItem, if currentPtr \<noteq> 0 then headList else newItem, w\<lparr>is_heap := h, is_mem := mem\<rparr>)))))"

fun count_elements :: "nat \<Rightarrow> nat \<Rightarrow> int \<Rightarrow> IOChannelReferenceValue heap \<Rightarrow> int outcome" where
  "count_elements 0 p n h = Stuck"
| "count_elements (Suc fuel) p n h = (if p = 0 then Ok n else obind (hread h p) (\<lambda>c. count_elements fuel (ir_next c) (n + 1) h))"

fun fill_vector :: "nat \<Rightarrow> nat \<Rightarrow> nat \<Rightarrow> nat list \<Rightarrow> IOChannelReferenceValue heap \<Rightarrow> nat list outcome" where
  "fill_vector 0 p i v h = Stuck"
| "fill_vector (Suc fuel) p i v h =
     (if p = 0 then Ok v
      else defined_if (i < length v) (obind (hread h p) (\<lambda>c. fill_vector fuel (ir_next c) (i + 1) (v[i := p]) h)))"

definition IOChannelReferenceValue_listToVector :: "nat \<Rightarrow> irs \<Rightarrow> (int \<times> nat list \<times> irs) outcome" where
  "IOChannelReferenceValue_listToVector headList w =
     ANY_REQUIRE (headList \<noteq> 0)
       (obind (count_elements (Suc (brk (is_heap w))) headList 0 (is_heap w)) (\<lambda>vectDim.
        let (vector, mem) = ANY_TALLOC (replicate (nat vectDim + 1) 0) (is_mem w) in
        require_ptr vector (\<lambda>v.
        obind (fill_vector (Suc (brk (is_heap w))) headList 0 v (is_heap w)) (\<lambda>v.
        let v = v[nat vectDim := 0] in
        Ok (vectDim, v, w\<lparr>is_vectors := add_mset v (is_vectors w), is_mem := mem\<rparr>)))))"

subsection \<open>Parsing\<close>

text \<open>One pair: its two strings and what follows. \<open>None\<close>: the text has an error; the buffer for the reference
  is released, which is the first half of \<^verbatim>\<open>outLabel2\<close>.\<close>

definition parse_pair :: "byte list \<Rightarrow> irs \<Rightarrow> ((byte list \<times> byte list \<times> byte list) option \<times> irs) outcome" where
  "parse_pair s w =
     obind (IOCHANNELREFERENCEVALUE_GETTOKEN IOCHANNELREFERENCEVALUE_ISADMITTEDREFERENCE s (is_mem w)) (\<lambda>(referenceBuffer, s, mem).
     let w = keep_string referenceBuffer (w\<lparr>is_mem := mem\<rparr>);
         outLabel2 = omap (\<lambda>(_, w). (None, w)) (release_string (Own referenceBuffer) w) in
     obind (IOCHANNELREFERENCEVALUE_SKIPSPACES s) (\<lambda>s.
     peek s (\<lambda>c. if c \<noteq> 61 then outLabel2
     else obind (IOCHANNELREFERENCEVALUE_SKIPSPACES (drop 1 s)) (\<lambda>s.
     peek s (\<lambda>c. if c = IOCHANNELREFERENCEVALUE_EOF then outLabel2
     else if c = 39
     then obind (advance (\<lambda>c. c \<noteq> 39) (drop 1 s)) (\<lambda>(tok, s).
          peek s (\<lambda>c. if c \<noteq> 39 then outLabel2
          else obind (IOCHANNELREFERENCEVALUE_EXTRACTTOKEN tok (is_mem w)) (\<lambda>(referenceValue, mem).
               Ok (Some (referenceBuffer, referenceValue, drop 1 s), keep_string referenceValue (w\<lparr>is_mem := mem\<rparr>)))))
     else obind (IOCHANNELREFERENCEVALUE_GETTOKEN IOCHANNELREFERENCEVALUE_ISADMITTEDVALUE s (is_mem w)) (\<lambda>(referenceValue, s, mem).
          Ok (Some (referenceBuffer, referenceValue, s), keep_string referenceValue (w\<lparr>is_mem := mem\<rparr>))))))))"

text \<open>The second half: the last value is released.\<close>

definition release_held :: "nat \<Rightarrow> irs \<Rightarrow> irs outcome" where
  "release_held held w =
     (if held = 0 then Ok w
      else obind (hread (is_heap w) held) (\<lambda>c.
           obind (release_string (ir_value c) w) (\<lambda>(v, w).
           obind (hwrite (is_heap w) held (c\<lparr>ir_value := v\<rparr>)) (\<lambda>h. Ok (w\<lparr>is_heap := h\<rparr>)))))"

text \<open>The loop: whether it came to the end of the text, and the list.\<close>

fun parse_loop :: "nat \<Rightarrow> byte list \<Rightarrow> nat \<Rightarrow> nat \<Rightarrow> irs \<Rightarrow> (bool \<times> nat \<times> irs) outcome" where
  "parse_loop 0 s held list w = Stuck"
| "parse_loop (Suc fuel) s held list w =
     peek s (\<lambda>c. if c = IOCHANNELREFERENCEVALUE_EOF then Ok (True, list, w)
     else obind (IOCHANNELREFERENCEVALUE_SKIPSPACES s) (\<lambda>s.
     peek s (\<lambda>c. if c = IOCHANNELREFERENCEVALUE_EOF then Ok (True, list, w)
     else if \<not> IOCHANNELREFERENCEVALUE_ISADMITTEDREFERENCE c then Ok (False, list, w)
     else obind (parse_pair s w) (\<lambda>(pair, w).
          case pair of None \<Rightarrow> obind (release_held held w) (\<lambda>w. Ok (False, list, w))
          | Some (referenceBuffer, referenceValue, s) \<Rightarrow>
              obind (IOChannelReferenceValue_listItemSet list referenceBuffer referenceValue w) (\<lambda>(held, list, w).
              parse_loop fuel s held list w)))))"

text \<open>The vector is \<open>None\<close> when the text has an error and the pointer of the caller stays as it is. A list
  that has been read has an element, so its vector is never empty.\<close>

definition IOChannelReferenceValue_parseReferenceValue :: "byte list \<Rightarrow> irs \<Rightarrow> (int \<times> nat list option \<times> irs) outcome" where
  "IOChannelReferenceValue_parseReferenceValue openString w =
     obind (parse_loop (length openString) openString 0 0 w) (\<lambda>(complete, list, w).
     if complete
     then ANY_REQUIRE (list \<noteq> 0)
       (obind (IOChannelReferenceValue_listToVector list w) (\<lambda>(counter, vector, w). Ok (counter, Some vector, w)))
     else Ok (0, None, w))"

fun free_elements :: "nat list \<Rightarrow> irs \<Rightarrow> irs outcome" where
  "free_elements [] w = Fault"
| "free_elements (current # vect) w =
     (if current = 0 then Ok w
      else obind (hread (is_heap w) current) (\<lambda>c.
           obind (release_string (ir_reference c) w) (\<lambda>(_, w).
           obind (release_string (ir_value c) w) (\<lambda>(_, w).
           obind (hfree (is_heap w) current) (\<lambda>h.
           free_elements vect (w\<lparr>is_heap := h\<rparr>))))))"

text \<open>Behind its elements the vector itself is released; \<^verbatim>\<open>ANY_FREE\<close> of the null pointer that ends it does nothing.\<close>

definition IOChannelReferenceValue_freeReferenceValueVector :: "nat list \<Rightarrow> irs \<Rightarrow> irs outcome" where
  "IOChannelReferenceValue_freeReferenceValueVector vect w =
     obind (free_elements vect w) (\<lambda>w.
     defined_if (vect \<in># is_vectors w) (Ok (w\<lparr>is_vectors := is_vectors w - {#vect#}\<rparr>)))"

subsection \<open>Values\<close>

fun IOCHANNELREFERENCEVALUE_GETVALUE :: "nat list \<Rightarrow> byte list \<Rightarrow> irs \<Rightarrow> byte list owned outcome" where
  "IOCHANNELREFERENCEVALUE_GETVALUE [] reference w = Fault"
| "IOCHANNELREFERENCEVALUE_GETVALUE (p # vect) reference w =
     (if p = 0 then Ok Null
      else obind (hread (is_heap w) p) (\<lambda>c. deref (ir_reference c) (\<lambda>r.
           obind (strcasecmp_eq reference r) (\<lambda>eq.
           if eq then Ok (ir_value c) else IOCHANNELREFERENCEVALUE_GETVALUE vect reference w))))"

definition IOChannelReferenceValue_getString :: "nat list \<Rightarrow> byte list \<Rightarrow> irs \<Rightarrow> byte list owned outcome" where
  "IOChannelReferenceValue_getString vect reference w = IOCHANNELREFERENCEVALUE_GETVALUE vect reference w"

definition IOChannelReferenceValue_getPtr :: "(byte list \<Rightarrow> 'p owned option) \<Rightarrow> nat list \<Rightarrow> byte list \<Rightarrow> irs \<Rightarrow> 'p owned outcome" where
  "IOChannelReferenceValue_getPtr sscanf_p vect reference w =
     obind (IOCHANNELREFERENCEVALUE_GETVALUE vect reference w) (\<lambda>value.
     if value = Null then Ok Null
     else deref value (\<lambda>v. Ok (case sscanf_p v of None \<Rightarrow> Null | Some p \<Rightarrow> p)))"

datatype IOChannelReferenceValueAllowedType = Int_type | UInt_type | Long_type | ULong_type

datatype IOChannelReferenceValueNotationType = Decimal | Exadecimal | Octal

text \<open>\<^verbatim>\<open>sscanf\<close> with the patterns \<^verbatim>\<open>%i\<close>, \<^verbatim>\<open>%u\<close>, \<^verbatim>\<open>%x\<close>, \<^verbatim>\<open>%o\<close> and those with an \<^verbatim>\<open>l\<close>, on a text without leading spaces: a sign,
  the prefix of the base, and the longest run of its digits. \<open>None\<close>: nothing is assigned. Numbers that the type cannot hold
  are undefined.\<close>

definition digit_of :: "nat \<Rightarrow> byte \<Rightarrow> bool" where
  "digit_of base b \<longleftrightarrow> (case hex_value b of None \<Rightarrow> False | Some v \<Rightarrow> v < base)"

fun based_value :: "nat \<Rightarrow> int \<Rightarrow> byte list \<Rightarrow> int" where
  "based_value base v [] = v"
| "based_value base v (b # bs) = based_value base (int base * v + int (case hex_value b of None \<Rightarrow> 0 | Some d \<Rightarrow> d)) bs"

definition hex_prefix :: "byte list \<Rightarrow> bool" where
  "hex_prefix s \<longleftrightarrow> (case s of a # b # _ \<Rightarrow> a = 48 \<and> (b = 120 \<or> b = 88) | _ \<Rightarrow> False)"

definition sscanf_integer :: "string \<Rightarrow> byte list \<Rightarrow> int option outcome" where
  "sscanf_integer pattern text =
     (let conv = last pattern; bits = (if length pattern = 3 then 64 else 32 :: nat);
          neg = (text \<noteq> [] \<and> hd text = 45);
          s = (if text \<noteq> [] \<and> (hd text = 45 \<or> hd text = 43) then drop 1 text else text);
          base = (if conv = CHR ''u'' then 10 else if conv = CHR ''o'' then 8 else if conv = CHR ''x'' then 16
                  else if hex_prefix s then 16 else if s \<noteq> [] \<and> hd s = 48 then 8 else 10 :: nat);
          s = (if base = 16 \<and> hex_prefix s then drop 2 s else s);
          ds = takeWhile (digit_of base) s in
      if ds = [] then Ok None
      else let v = based_value base 0 ds; v = (if neg then - v else v) in
        if conv = CHR ''i''
        then defined_if (- (2 ^ (bits - 1)) \<le> v \<and> v < 2 ^ (bits - 1)) (Ok (Some v))
        else defined_if (\<bar>v\<bar> < 2 ^ bits) (Ok (Some (v mod 2 ^ bits))))"

text \<open>\<^verbatim>\<open>ISADMITTEDCHARCHECK\<close>: whether all characters up to the terminator are admitted.\<close>

definition IOCHANNELREFERENCEVALUE_ISADMITTEDCHARCHECK :: "byte list \<Rightarrow> (byte \<Rightarrow> bool) \<Rightarrow> bool outcome" where
  "IOCHANNELREFERENCEVALUE_ISADMITTEDCHARCHECK s isAdmitted = obind (advance isAdmitted s) (\<lambda>(_, s). peek s (\<lambda>c. Ok (c = 0)))"

fun number_pattern :: "IOChannelReferenceValueAllowedType \<Rightarrow> IOChannelReferenceValueNotationType \<Rightarrow> string" where
  "number_pattern Int_type notation = ''%i''"
| "number_pattern UInt_type Decimal = ''%u''"
| "number_pattern UInt_type Exadecimal = ''%x''"
| "number_pattern UInt_type Octal = ''%o''"
| "number_pattern Long_type notation = ''%li''"
| "number_pattern ULong_type Decimal = ''%lu''"
| "number_pattern ULong_type Exadecimal = ''%lx''"
| "number_pattern ULong_type Octal = ''%lo''"

text \<open>The number that is stored, if any.\<close>

definition IOChannelReferenceValue_stringToNumber :: "byte list \<Rightarrow> IOChannelReferenceValueAllowedType \<Rightarrow> int option outcome" where
  "IOChannelReferenceValue_stringToNumber value type =
     peek value (\<lambda>sign.
     if IOCHANNELREFERENCEVALUE_ISSIGN sign \<and> (type = UInt_type \<or> type = ULong_type) then Ok None
     else let tmp = (if IOCHANNELREFERENCEVALUE_ISSIGN sign then drop 1 value else value) in
       peek tmp (\<lambda>c.
       obind (if c = 48
              then peek (drop 1 tmp) (\<lambda>x.
                     if x = 120 \<or> x = 88
                     then omap (\<lambda>ok. (ok, Exadecimal)) (IOCHANNELREFERENCEVALUE_ISADMITTEDCHARCHECK (drop 2 tmp) IOCHANNELREFERENCEVALUE_ISXDIGIT)
                     else omap (\<lambda>ok. (ok, Octal)) (IOCHANNELREFERENCEVALUE_ISADMITTEDCHARCHECK tmp IOCHANNELREFERENCEVALUE_ISOCTALDIGIT))
              else omap (\<lambda>ok. (ok, Decimal)) (IOCHANNELREFERENCEVALUE_ISADMITTEDCHARCHECK tmp IOCHANNELREFERENCEVALUE_ISDIGIT)) (\<lambda>(ok, notation).
       if ok then sscanf_integer (number_pattern type notation) (takeWhile (\<lambda>b. b \<noteq> 0) value) else Ok None)))"

text \<open>The result variable of the callers is 0 at the beginning.\<close>

definition IOChannelReferenceValue_getNumber :: "nat list \<Rightarrow> byte list \<Rightarrow> IOChannelReferenceValueAllowedType \<Rightarrow> irs \<Rightarrow> int outcome" where
  "IOChannelReferenceValue_getNumber vect reference type w =
     obind (IOCHANNELREFERENCEVALUE_GETVALUE vect reference w) (\<lambda>value.
     if value = Null then Ok 0
     else deref value (\<lambda>v. omap (\<lambda>r. case r of None \<Rightarrow> 0 | Some i \<Rightarrow> i) (IOChannelReferenceValue_stringToNumber v type)))"

definition IOChannelReferenceValue_getInt :: "nat list \<Rightarrow> byte list \<Rightarrow> irs \<Rightarrow> int outcome" where
  "IOChannelReferenceValue_getInt vect reference w = IOChannelReferenceValue_getNumber vect reference Int_type w"

definition IOChannelReferenceValue_getUInt :: "nat list \<Rightarrow> byte list \<Rightarrow> irs \<Rightarrow> int outcome" where
  "IOChannelReferenceValue_getUInt vect reference w = IOChannelReferenceValue_getNumber vect reference UInt_type w"

definition IOChannelReferenceValue_getLong :: "nat list \<Rightarrow> byte list \<Rightarrow> irs \<Rightarrow> int outcome" where
  "IOChannelReferenceValue_getLong vect reference w = IOChannelReferenceValue_getNumber vect reference Long_type w"

definition IOChannelReferenceValue_getULong :: "nat list \<Rightarrow> byte list \<Rightarrow> irs \<Rightarrow> int outcome" where
  "IOChannelReferenceValue_getULong vect reference w = IOChannelReferenceValue_getNumber vect reference ULong_type w"

subsection \<open>Modes and permissions\<close>

text \<open>The permissions of the operating system.\<close>

definition IOCHANNEL_PERMISSIONS_R_U :: uint32 where "IOCHANNEL_PERMISSIONS_R_U = 256"
definition IOCHANNEL_PERMISSIONS_W_U :: uint32 where "IOCHANNEL_PERMISSIONS_W_U = 128"
definition IOCHANNEL_PERMISSIONS_X_U :: uint32 where "IOCHANNEL_PERMISSIONS_X_U = 64"
definition IOCHANNEL_PERMISSIONS_RWX_U :: uint32 where "IOCHANNEL_PERMISSIONS_RWX_U = 448"
definition IOCHANNEL_PERMISSIONS_R_G :: uint32 where "IOCHANNEL_PERMISSIONS_R_G = 32"
definition IOCHANNEL_PERMISSIONS_W_G :: uint32 where "IOCHANNEL_PERMISSIONS_W_G = 16"
definition IOCHANNEL_PERMISSIONS_X_G :: uint32 where "IOCHANNEL_PERMISSIONS_X_G = 8"
definition IOCHANNEL_PERMISSIONS_RWX_G :: uint32 where "IOCHANNEL_PERMISSIONS_RWX_G = 56"
definition IOCHANNEL_PERMISSIONS_R_O :: uint32 where "IOCHANNEL_PERMISSIONS_R_O = 4"
definition IOCHANNEL_PERMISSIONS_W_O :: uint32 where "IOCHANNEL_PERMISSIONS_W_O = 2"
definition IOCHANNEL_PERMISSIONS_X_O :: uint32 where "IOCHANNEL_PERMISSIONS_X_O = 1"
definition IOCHANNEL_PERMISSIONS_RWX_O :: uint32 where "IOCHANNEL_PERMISSIONS_RWX_O = 7"

definition IOCHANNEL_PERMISSIONS_ALL :: uint32 where
  "IOCHANNEL_PERMISSIONS_ALL = IOCHANNEL_PERMISSIONS_RWX_U OR IOCHANNEL_PERMISSIONS_RWX_G OR IOCHANNEL_PERMISSIONS_RWX_O"

type_synonym associations = "(string \<times> uint32) list"

definition IOChannelDefaultAccessMode :: associations where
  "IOChannelDefaultAccessMode =
     [(''IOCHANNEL_MODE_R_ONLY'', IOCHANNEL_MODE_R_ONLY), (''IOCHANNEL_MODE_W_ONLY'', IOCHANNEL_MODE_W_ONLY),
      (''IOCHANNEL_MODE_RW'', IOCHANNEL_MODE_RW), (''IOCHANNEL_MODE_CREAT'', IOCHANNEL_MODE_CREAT),
      (''IOCHANNEL_MODE_TRUNC'', IOCHANNEL_MODE_TRUNC), (''IOCHANNEL_MODE_APPEND'', IOCHANNEL_MODE_APPEND),
      (''IOCHANNEL_MODE_CLOSE'', IOCHANNEL_MODE_CLOSE), (''IOCHANNEL_MODE_NOTCLOSE'', IOCHANNEL_MODE_NOTCLOSE),
      (''IOCHANNEL_MODE_UNDEFINED'', IOCHANNEL_MODE_UNDEFINED)]"

definition IOChannelDefaultAccessPermissions :: associations where
  "IOChannelDefaultAccessPermissions =
     [(''IOCHANNEL_PERMISSIONS_ALL'', IOCHANNEL_PERMISSIONS_ALL), (''IOCHANNEL_PERMISSIONS_R_G'', IOCHANNEL_PERMISSIONS_R_G),
      (''IOCHANNEL_PERMISSIONS_R_O'', IOCHANNEL_PERMISSIONS_R_O), (''IOCHANNEL_PERMISSIONS_R_U'', IOCHANNEL_PERMISSIONS_R_U),
      (''IOCHANNEL_PERMISSIONS_RWX_G'', IOCHANNEL_PERMISSIONS_RWX_G), (''IOCHANNEL_PERMISSIONS_RWX_O'', IOCHANNEL_PERMISSIONS_RWX_O),
      (''IOCHANNEL_PERMISSIONS_RWX_U'', IOCHANNEL_PERMISSIONS_RWX_U), (''IOCHANNEL_PERMISSIONS_W_G'', IOCHANNEL_PERMISSIONS_W_G),
      (''IOCHANNEL_PERMISSIONS_W_O'', IOCHANNEL_PERMISSIONS_W_O), (''IOCHANNEL_PERMISSIONS_W_U'', IOCHANNEL_PERMISSIONS_W_U),
      (''IOCHANNEL_PERMISSIONS_X_G'', IOCHANNEL_PERMISSIONS_X_G), (''IOCHANNEL_PERMISSIONS_X_O'', IOCHANNEL_PERMISSIONS_X_O),
      (''IOCHANNEL_PERMISSIONS_X_U'', IOCHANNEL_PERMISSIONS_X_U)]"

text \<open>The search for a name: the first entry that \<^verbatim>\<open>strcmp\<close> finds equal.\<close>

fun flag_of :: "associations \<Rightarrow> byte list \<Rightarrow> uint32 option outcome" where
  "flag_of [] buffer = Ok None"
| "flag_of ((name, v) # flags) buffer =
     obind (strcmp_eq buffer (map asc name @ [0])) (\<lambda>eq. if eq then Ok (Some v) else flag_of flags buffer)"

definition IOCHANNELREFERENCEVALUE_GETACCESSFLAG :: "uint32 \<Rightarrow> byte \<Rightarrow> uint32 \<Rightarrow> uint32" where
  "IOCHANNELREFERENCEVALUE_GETACCESSFLAG accessFlag operator currentAccessFlag =
     (if operator = 38 then accessFlag AND currentAccessFlag
      else if operator = 124 then accessFlag OR currentAccessFlag
      else if operator = 94 then accessFlag XOR currentAccessFlag
      else -1)"

text \<open>
  The loop that \<^verbatim>\<open>getAccessMode\<close> and \<^verbatim>\<open>getAccessPermissions\<close> have in common, over the table of names. \<open>temp\<close> is the
  variable for a number, which keeps its value when a conversion fails. The result is the flags and what is left of
  the budget; \<open>-1\<close> is \<^verbatim>\<open>EOF\<close>, for an error.
\<close>

fun access_flags :: "nat \<Rightarrow> associations \<Rightarrow> byte list \<Rightarrow> byte \<Rightarrow> uint32 option \<Rightarrow> uint32 \<Rightarrow> nat \<Rightarrow> (uint32 \<times> nat) outcome" where
  "access_flags 0 flags s operator temp mode mem = Stuck"
| "access_flags (Suc fuel) flags s operator temp mode mem =
     peek s (\<lambda>c. if c = IOCHANNELREFERENCEVALUE_EOF then Ok (mode, mem)
     else obind (IOCHANNELREFERENCEVALUE_SKIPSPACES s) (\<lambda>s.
     peek s (\<lambda>c. if c = IOCHANNELREFERENCEVALUE_EOF then Ok (mode, mem)
     else if \<not> IOCHANNELREFERENCEVALUE_ISALPHAUPPER c \<and> \<not> IOCHANNELREFERENCEVALUE_ISDIGIT c \<and> \<not> IOCHANNELREFERENCEVALUE_ISSIGN c
     then Ok (-1, mem)
     else obind (IOCHANNELREFERENCEVALUE_GETTOKEN IOCHANNELREFERENCEVALUE_ISADMITTED s mem) (\<lambda>(buffer, s, mem).
       obind (IOCHANNELREFERENCEVALUE_SKIPSPACES s) (\<lambda>s.
       peek s (\<lambda>currentOperator.
       obind (peek buffer (\<lambda>b. if IOCHANNELREFERENCEVALUE_ISALPHAUPPER b
                then obind (flag_of flags buffer) (\<lambda>flag. Ok (temp,
                       case flag of None \<Rightarrow> None | Some v \<Rightarrow> Some (IOCHANNELREFERENCEVALUE_GETACCESSFLAG mode operator v)))
                else obind (IOChannelReferenceValue_stringToNumber buffer Int_type) (\<lambda>r.
                     let temp = (case r of None \<Rightarrow> temp | Some i \<Rightarrow> Some (word_of_int i)) in
                     case temp of None \<Rightarrow> Fault
                     | Some v \<Rightarrow> Ok (temp, Some (IOCHANNELREFERENCEVALUE_GETACCESSFLAG mode operator v))))) (\<lambda>(temp, mode').
       case mode' of None \<Rightarrow> Ok (-1, mem)
       | Some mode \<Rightarrow>
         obind (IOCHANNELREFERENCEVALUE_SKIPSPACES s) (\<lambda>s.
         peek s (\<lambda>c. if c \<noteq> IOCHANNELREFERENCEVALUE_EOF
           then if c = 124 \<or> c = 38 \<or> c = 94
                then obind (IOCHANNELREFERENCEVALUE_SKIPSPACES (drop 1 s)) (\<lambda>s.
                     peek s (\<lambda>c. if c = IOCHANNELREFERENCEVALUE_EOF then Ok (-1, mem)
                       else access_flags fuel flags s currentOperator temp mode mem))
                else Ok (-1, mem)
           else access_flags fuel flags s currentOperator temp mode mem)))))))))"

definition IOChannelReferenceValue_getAccessMode :: "byte list \<Rightarrow> nat \<Rightarrow> (uint32 \<times> nat) outcome" where
  "IOChannelReferenceValue_getAccessMode value mem =
     access_flags (length value) IOChannelDefaultAccessMode value 124 None 0 mem"

definition IOChannelReferenceValue_getAccessPermissions :: "byte list \<Rightarrow> nat \<Rightarrow> (uint32 \<times> nat) outcome" where
  "IOChannelReferenceValue_getAccessPermissions value mem =
     access_flags (length value) IOChannelDefaultAccessPermissions value 124 None 0 mem"

end
