(* ===== verification/IO_Ref_Correct.thy ===== *)
theory IO_Ref_Correct
  imports IO_Ref Ser_Ref_Correct IO_Format_Correct IO_Scan_Correct "HOL-Library.AList"
begin

text \<open>
  What the parser of opening texts promises: the vector holds the references of the text in the order in which
  they come first, each with its last value; a value is found under its reference in capital or small letters; releasing the
  vector releases every block that the parser has allocated but one for each time that a reference is repeated. Numbers in decimal, octal and hexadecimal notation are read back, and a mode is the
  value of its expression from left to right.
\<close>

subsection \<open>Tokens\<close>

lemma ref_space: "IOCHANNELREFERENCEVALUE_ISSPACE = space" "IOCHANNELREFERENCEVALUE_SKIPSPACES = SERIALIZEREFERENCEVALUE_SKIPSPACES"
proof -
  show s: "IOCHANNELREFERENCEVALUE_ISSPACE = space"
    by (simp add: fun_eq_iff IOCHANNELREFERENCEVALUE_ISSPACE_def SERIALIZEREFERENCEVALUE_ISSPACE_def)
  show "IOCHANNELREFERENCEVALUE_SKIPSPACES = SERIALIZEREFERENCEVALUE_SKIPSPACES"
    by (simp add: fun_eq_iff IOCHANNELREFERENCEVALUE_SKIPSPACES_def SERIALIZEREFERENCEVALUE_SKIPSPACES_def s)
qed

lemmas ref_class_defs =
  IOCHANNELREFERENCEVALUE_ISADMITTEDREFERENCE_def IOCHANNELREFERENCEVALUE_ISADMITTEDVALUE_def IOCHANNELREFERENCEVALUE_ISADMITTEDVALUE_WIN32_def
  IOCHANNELREFERENCEVALUE_ISADMITTED_def IOCHANNELREFERENCEVALUE_ISDIGIT_def IOCHANNELREFERENCEVALUE_ISALPHALOWER_def
  IOCHANNELREFERENCEVALUE_ISALPHAUPPER_def IOCHANNELREFERENCEVALUE_ISSIGN_def SERIALIZEREFERENCEVALUE_ISSPACE_def

abbreviation ref_char :: "byte \<Rightarrow> bool" where "ref_char \<equiv> IOCHANNELREFERENCEVALUE_ISADMITTEDREFERENCE"

lemma ref_chars [simp]:
  "\<not> ref_char 0" "\<not> ref_char 61" "\<not> ref_char 39" "ref_char c \<Longrightarrow> \<not> space c" "IOCHANNELREFERENCEVALUE_ISADMITTEDVALUE c"
  by (auto simp: ref_class_defs)

lemma ref_extract: "tok \<noteq> [] \<Longrightarrow> 0 < mem \<Longrightarrow> IOCHANNELREFERENCEVALUE_EXTRACTTOKEN tok mem = Ok (tok @ [0], mem - 1)"
  by (simp add: IOCHANNELREFERENCEVALUE_EXTRACTTOKEN_def ANY_BALLOC_def IOCHANNELREFERENCEVALUE_EOF_def list_update_append)

lemma ref_gettoken:
  assumes "tok \<noteq> []" and "\<forall>c \<in> set tok. c \<noteq> 0 \<and> \<not> space c \<and> P c" and "d = 0 \<or> space d \<or> \<not> P d" and "0 < mem"
  shows "IOCHANNELREFERENCEVALUE_GETTOKEN P (tok @ d # s) mem = Ok (tok @ [0], d # s, mem - 1)"
  using assms by (auto simp: IOCHANNELREFERENCEVALUE_GETTOKEN_def ref_space advance_append ref_extract SERIALIZEREFERENCEVALUE_EOF_def)

subsection \<open>Pairs\<close>

text \<open>The layout of a pair is that of \<^verbatim>\<open>Ser_Ref_Correct\<close>; values without quotes may have all characters but spaces.\<close>

definition ref_pair :: "pair_text \<Rightarrow> bool" where
  "ref_pair p \<longleftrightarrow> pt_ref p \<noteq> [] \<and> (\<forall>c \<in> set (pt_ref p). ref_char c) \<and> (\<forall>c \<in> set (pt_before p @ pt_after p @ pt_end p). space c) \<and>
     pt_value p \<noteq> [] \<and> 0 \<notin> set (pt_value p) \<and>
     (if pt_quoted p then 39 \<notin> set (pt_value p) else (\<forall>c \<in> set (pt_value p). \<not> space c) \<and> hd (pt_value p) \<noteq> 39 \<and> pt_end p \<noteq> [])"

definition pair_read :: "pair_text \<Rightarrow> irs \<Rightarrow> irs" where
  "pair_read p w = w\<lparr>is_strings := {#pt_ref p @ [0], pt_value p @ [0]#} + is_strings w, is_mem := is_mem w - 2\<rparr>"

lemma parse_pair_ok:
  assumes "ref_pair p" and "2 \<le> is_mem w"
  shows "parse_pair (pair_layout p @ s) w = Ok (Some (pt_ref p @ [0], pt_value p @ [0], pt_end p @ s), pair_read p w)"
proof -
  define mem where "mem = is_mem w"
  obtain r b a q v e where p: "p = PairText r b a q v e" by (cases p)
  have r: "r \<noteq> []" "\<forall>c \<in> set r. ref_char c" "\<forall>c \<in> set b. space c" "\<forall>c \<in> set a. space c" "\<forall>c \<in> set e. space c" "v \<noteq> []" "0 \<notin> set v"
    using assms(1) by (auto simp: p ref_pair_def)
  let ?rest = "(if q then [39] @ v @ [39] else v) @ e @ s"
  obtain d ds where d: "b @ 61 # a @ ?rest = d # ds" "space d \<or> \<not> ref_char d"
    using r(3) by (cases b) (auto intro: that)
  have "\<forall>c \<in> set r. c \<noteq> 0 \<and> \<not> space c \<and> ref_char c" using r(2) by (metis ref_chars(1,4))
  then have tok: "IOCHANNELREFERENCEVALUE_GETTOKEN ref_char (r @ d # ds) mem = Ok (r @ [0], d # ds, mem - 1)"
    using ref_gettoken [OF r(1), of ref_char d mem ds] d(2) assms(2) by (auto simp: mem_def)
  have skip: "SERIALIZEREFERENCEVALUE_SKIPSPACES (d # ds) = Ok (61 # a @ ?rest)"
    unfolding d(1) [symmetric] by (rule skip_ok [OF r(3)]) simp
  have m: "mem - 1 - 1 = mem - 2" "0 < mem - 1" using assms(2) by (auto simp: mem_def)
  show ?thesis
  proof (cases q)
    case True
    then have v: "39 \<notin> set v" using assms(1) by (simp add: p ref_pair_def)
    with r(7) have adv: "advance (\<lambda>c. c \<noteq> 39) (v @ 39 # e @ s) = Ok (v, 39 # e @ s)"
      by (subst advance_append) (auto simp: advance_stop)
    have "SERIALIZEREFERENCEVALUE_SKIPSPACES (a @ 39 # v @ 39 # e @ s) = Ok (39 # v @ 39 # e @ s)"
      by (rule skip_ok [OF r(4)]) simp
    with True tok skip adv r(6) m show ?thesis
      by (simp add: p pair_layout_def d(1) [symmetric] parse_pair_def peek_def ref_extract ref_space IOCHANNELREFERENCEVALUE_EOF_def
          mem_def [symmetric] pair_read_def keep_string_def add_mset_commute)
  next
    case False
    then have v: "\<forall>c \<in> set v. \<not> space c" "hd v \<noteq> 39" "e \<noteq> []" using assms(1) by (auto simp: p ref_pair_def)
    obtain f fs where f: "e @ s = f # fs" "space f" using v(3) r(5) by (cases e) auto
    obtain u ws where u: "v = u # ws" "\<not> space u" "u \<noteq> 39" "u \<noteq> 0" using r(6,7) v(1,2) by (cases v) auto
    have "SERIALIZEREFERENCEVALUE_SKIPSPACES (a @ u # ws @ e @ s) = Ok (u # ws @ e @ s)"
      by (rule skip_ok [OF r(4)]) (use u in simp)
    moreover have "IOCHANNELREFERENCEVALUE_GETTOKEN IOCHANNELREFERENCEVALUE_ISADMITTEDVALUE (v @ f # fs) (mem - 1) = Ok (v @ [0], f # fs, mem - 2)"
      using ref_gettoken [OF r(6), of IOCHANNELREFERENCEVALUE_ISADMITTEDVALUE f "mem - 1" fs] r(7) v(1) f(2) m by auto
    ultimately show ?thesis
      using False tok skip u
      by (simp add: p pair_layout_def d(1) [symmetric] parse_pair_def peek_def ref_space IOCHANNELREFERENCEVALUE_EOF_def f(1)
          mem_def [symmetric] pair_read_def keep_string_def add_mset_commute)
  qed
qed

subsection \<open>Lists of pairs\<close>

definition ir_holds :: "IOChannelReferenceValue \<Rightarrow> byte list \<times> byte list \<Rightarrow> bool" where
  "ir_holds c kv \<longleftrightarrow> ir_reference c = Own (fst kv @ [0]) \<and> ir_value c = Own (snd kv @ [0]) \<and> 0 \<notin> set (fst kv)"

text \<open>The strings of a list of pairs.\<close>

definition ir_strings :: "(byte list \<times> byte list) list \<Rightarrow> byte list multiset" where
  "ir_strings kvs = mset (map (\<lambda>kv. fst kv @ [0]) kvs) + mset (map (\<lambda>kv. snd kv @ [0]) kvs)"

lemma ir_strings_Nil [simp]: "ir_strings [] = {#}"
  by (simp add: ir_strings_def)

lemma ir_strings_Cons: "ir_strings (kv # kvs) = {#fst kv @ [0], snd kv @ [0]#} + ir_strings kvs"
  by (simp add: ir_strings_def)

lemma ir_strings_snoc: "ir_strings (kvs @ [kv]) = {#fst kv @ [0], snd kv @ [0]#} + ir_strings kvs"
  by (simp add: ir_strings_def)

lemma ir_strings_update:
  assumes "i < length kvs" and "fst (kvs ! i) = k"
  shows "snd (kvs ! i) @ [0] \<in># ir_strings kvs"
    "ir_strings (kvs[i := (k, v)]) = add_mset (v @ [0]) (ir_strings kvs - {#snd (kvs ! i) @ [0]#})"
proof -
  have k: "kvs = take i kvs @ (k, snd (kvs ! i)) # drop (Suc i) kvs"
    using id_take_nth_drop [OF assms(1)] assms(2) by (metis prod.collapse)
  have "snd (kvs ! i) \<in> snd ` set kvs" using assms(1) by (intro imageI) simp
  then show "snd (kvs ! i) @ [0] \<in># ir_strings kvs" by (auto simp: ir_strings_def)
  show "ir_strings (kvs[i := (k, v)]) = add_mset (v @ [0]) (ir_strings kvs - {#snd (kvs ! i) @ [0]#})"
    by (subst (2) k) (simp add: ir_strings_def upd_conv_take_nth_drop [OF assms(1)])
qed

text \<open>A list with elements and strings of its own beside the blocks of \<open>w0\<close>.\<close>

definition ir_list :: "irs \<Rightarrow> irs \<Rightarrow> nat \<Rightarrow> nat list \<Rightarrow> (byte list \<times> byte list) list \<Rightarrow> bool" where
  "ir_list w0 w p xs kvs \<longleftrightarrow> is_strings w = ir_strings kvs + is_strings w0 \<and> is_vectors w = is_vectors w0 \<and> heap_ok (is_heap w) \<and> lseg ir_next (cells (is_heap w)) p xs 0 \<and>
     list_all2 (\<lambda>x kv. \<exists>c. cells (is_heap w) x = Some c \<and> ir_holds c kv) xs kvs \<and>
     (\<forall>x. x \<notin> set xs \<longrightarrow> cells (is_heap w) x = cells (is_heap w0) x) \<and> (\<forall>x \<in> set xs. cells (is_heap w0) x = None)"

fun hit :: "byte list \<Rightarrow> nat list \<Rightarrow> (byte list \<times> byte list) list \<Rightarrow> nat option" where
  "hit k (x # xs) (kv # kvs) = (if fst kv = k then Some x else hit k xs kvs)"
| "hit k _ _ = None"

lemma strcmp_texts: "0 \<notin> set r \<Longrightarrow> 0 \<notin> set k \<Longrightarrow> strcmp_eq (r @ [0]) (k @ [0]) = Ok (r = k)"
proof (induction r arbitrary: k)
  case Nil
  then show ?case by (cases k) auto
next
  case (Cons x r)
  then show ?case by (cases k) auto
qed

lemma set_search_ok:
  assumes "lseg ir_next (cells h) p xs 0" and "list_all2 (\<lambda>x kv. \<exists>c. cells h x = Some c \<and> ir_holds c kv) xs kvs" and "0 \<notin> set k"
    and "length xs < n"
  shows "set_search n (k @ [0]) p h = Ok (case hit k xs kvs of Some x \<Rightarrow> (True, x) | None \<Rightarrow> (False, last (0 # xs)))"
  using assms
proof (induction n arbitrary: p xs kvs)
  case (Suc n)
  show ?case
  proof (cases xs)
    case Nil
    then show ?thesis using Suc.prems by simp
  next
    case (Cons x xs')
    then obtain kv kvs' c where c: "kvs = kv # kvs'" "cells h x = Some c" "ir_holds c kv" "p = x" "x \<noteq> 0" "lseg ir_next (cells h) (ir_next c) xs' 0"
      "list_all2 (\<lambda>x kv. \<exists>c. cells h x = Some c \<and> ir_holds c kv) xs' kvs'"
      using Suc.prems(1,2) by (auto simp: list_all2_Cons1 lseg_Cons_iff)
    note IH = Suc.IH [OF c(6,7) Suc.prems(3)]
    have e: "strcmp_eq (fst kv @ [0]) (k @ [0]) = Ok (fst kv = k)" using c(3) Suc.prems(3) by (simp add: ir_holds_def strcmp_texts)
    show ?thesis
    proof (cases xs')
      case Nil
      then show ?thesis using c e Cons by (auto simp: ir_holds_def)
    next
      case (Cons y ys)
      then have "ir_next c \<noteq> 0" using c(6) by (auto simp: lseg_Cons_iff)
      with IH c e Cons Suc.prems(4) \<open>xs = x # xs'\<close> show ?thesis by (auto simp: ir_holds_def split: option.splits)
    qed
  qed
qed simp

lemma hit_Some:
  assumes "length xs = length kvs" and "hit k xs kvs = Some x"
  shows "\<exists>i < length xs. xs ! i = x \<and> fst (kvs ! i) = k \<and> AList.update k v kvs = kvs[i := (k, v)]"
  using assms
proof (induction k xs kvs rule: hit.induct)
  case (1 k y xs kv kvs)
  show ?case
  proof (cases "fst kv = k")
    case True
    with 1 show ?thesis by (intro exI [of _ 0]) auto
  next
    case False
    with 1 obtain i where "i < length xs" "xs ! i = x" "fst (kvs ! i) = k" "AList.update k v kvs = kvs[i := (k, v)]" by auto
    with False show ?thesis by (intro exI [of _ "Suc i"]) auto
  qed
qed simp_all

lemma hit_key: "length xs = length kvs \<Longrightarrow> hit k xs kvs = None \<longleftrightarrow> k \<notin> fst ` set kvs"
  by (induction k xs kvs rule: hit.induct) auto

lemma hit_None: "length xs = length kvs \<Longrightarrow> hit k xs kvs = None \<Longrightarrow> AList.update k v kvs = kvs @ [(k, v)]"
  by (induction k xs kvs rule: hit.induct) (auto split: if_splits)

text \<open>The strings of the new pair are allocated when it is put into the list. If its reference is in the list already,
  the one of the pair stays behind.\<close>

definition left_behind :: "byte list \<Rightarrow> bool \<Rightarrow> irs \<Rightarrow> irs" where
  "left_behind k repeats w = w\<lparr>is_strings := (if repeats then {#k @ [0]#} else {#}) + is_strings w\<rparr>"

lemma left_behind_simps [simp]:
  "is_heap (left_behind k b w) = is_heap w" "is_vectors (left_behind k b w) = is_vectors w"
  "is_strings (left_behind k b w) = (if b then {#k @ [0]#} else {#}) + is_strings w"
  by (simp_all add: left_behind_def)

lemma listItemSet_ok:
  assumes "ir_list w0 w1 p xs kvs" and "0 \<notin> set k" and "0 < is_mem w"
    and w: "w = w1\<lparr>is_strings := {#k @ [0], v @ [0]#} + is_strings w1, is_mem := is_mem w\<rparr>"
  shows "\<exists>x p' xs' w'. IOChannelReferenceValue_listItemSet p (k @ [0]) (v @ [0]) w = Ok (x, p', w') \<and>
    ir_list (left_behind k (k \<in> fst ` set kvs) w0) w' p' xs' (AList.update k v kvs) \<and> is_mem w \<le> is_mem w' + 1 \<and> x \<in> set xs'"
proof -
  let ?h = "is_heap w" and ?old_heap = "is_heap w0"
  have s: "is_strings w = {#k @ [0], v @ [0]#} + (ir_strings kvs + is_strings w0)" "is_vectors w = is_vectors w0"
    using assms(1) by (subst w, simp add: ir_list_def)+
  have "is_heap w = is_heap w1" by (subst w) simp
  with assms(1) have l: "heap_ok ?h" "lseg ir_next (cells ?h) p xs 0" "list_all2 (\<lambda>x kv. \<exists>c. cells ?h x = Some c \<and> ir_holds c kv) xs kvs"
    "\<forall>x. x \<notin> set xs \<longrightarrow> cells ?h x = cells ?old_heap x" "\<forall>x \<in> set xs. cells ?old_heap x = None"
    by (auto simp: ir_list_def)
  have len: "length xs = length kvs" using l(3) by (rule list_all2_lengthD)
  note key = hit_key [OF len, of k]
  have "length xs < Suc (brk ?h)" using lseg_length [OF l(1,2)] by simp
  note search = set_search_ok [OF l(2,3) assms(2) this]
  show ?thesis
  proof (cases "hit k xs kvs")
    case (Some x)
    then obtain i where i: "i < length xs" "xs ! i = x" "fst (kvs ! i) = k" "AList.update k v kvs = kvs[i := (k, v)]"
      using hit_Some [OF len] by blast
    have "\<exists>c. cells ?h (xs ! i) = Some c \<and> ir_holds c (kvs ! i)" using l(3) i(1) by (simp add: list_all2_conv_all_nth)
    then obtain c where c: "cells ?h x = Some c" "ir_holds c (kvs ! i)" using i(2) by auto
    let ?c = "c\<lparr>ir_value := Own (v @ [0])\<rparr>"
    let ?old = "snd (kvs ! i) @ [0]"
    let ?w = "w\<lparr>is_heap := ?h\<lparr>cells := (cells ?h)(x \<mapsto> ?c)\<rparr>, is_strings := is_strings w - {#?old#}\<rparr>"
    note upd = ir_strings_update [of i kvs k, OF _ i(3)]
    have old: "?old \<in># ir_strings kvs" using upd(1) i(1) len by simp
    have str: "is_strings ?w = ir_strings (kvs[i := (k, v)]) + is_strings (left_behind k (k \<in> fst ` set kvs) w0)"
      using old Some key i(1) len by (simp add: s(1) upd(2) diff_union_swap2 insert_DiffM)
    have d: "distinct xs" using l(2) by (rule lseg_distinct)
    have "ir_holds ?c (k, v)" using c(2) i(3) by (auto simp: ir_holds_def)
    then have "list_all2 (\<lambda>x kv. \<exists>c. cells (is_heap ?w) x = Some c \<and> ir_holds c kv) xs (kvs[i := (k, v)])"
      using l(3) i d len by (auto simp: list_all2_conv_all_nth nth_list_update nth_eq_iff_index_eq)
    moreover have "lseg ir_next (cells (is_heap ?w)) p xs 0"
      using l(2) c(1) by (subst lseg_cong [where cs' = "cells ?h"]) auto
    moreover have "x \<in> set xs" using i by auto
    moreover have "\<forall>y. y \<notin> set xs \<longrightarrow> cells (is_heap ?w) y = cells ?old_heap y" using l(4) \<open>x \<in> set xs\<close> by auto
    ultimately have "ir_list (left_behind k (k \<in> fst ` set kvs) w0) ?w p xs (AList.update k v kvs)"
      using l(1,5) c(1) i(4) s(2) str by (simp add: ir_list_def)
    moreover have "IOChannelReferenceValue_listItemSet p (k @ [0]) (v @ [0]) w = Ok (x, p, ?w)"
      using search Some c old by (simp add: IOChannelReferenceValue_listItemSet_def ir_holds_def release_string_def s(1))
    ultimately show ?thesis using \<open>x \<in> set xs\<close> by (intro exI [of _ x] exI [of _ p] exI [of _ xs] exI [of _ ?w]) simp
  next
    case None
    let ?x = "brk ?h" and ?d = "\<lparr>ir_reference = Own (k @ [0]), ir_value = Own (v @ [0]), ir_next = 0\<rparr>"
    obtain m where m: "is_mem w = Suc m" using assms(3) by (cases "is_mem w") auto
    have u: "AList.update k v kvs = kvs @ [(k, v)]" using hit_None [OF len None] .
    have x: "?x \<noteq> 0" "cells ?h ?x = None" using l(1) heap_ok_brk [OF l(1)] by auto
    have nx: "?x \<notin> set xs" using lseg_cells [OF l(2), of ?x] x(2) by auto
    have h0: "cells ?old_heap ?x = None" using l(4) nx x(2) by auto
    have str: "is_strings w = ir_strings (kvs @ [(k, v)]) + is_strings (left_behind k (k \<in> fst ` set kvs) w0)"
      using None key by (simp add: s(1) ir_strings_snoc)
    show ?thesis
    proof (cases xs rule: rev_cases)
      case Nil
      let ?w = "w\<lparr>is_heap := ?h\<lparr>cells := (cells ?h)(?x \<mapsto> ?d), brk := Suc (brk ?h)\<rparr>, is_mem := m\<rparr>"
      have "p = 0" "kvs = []" using l(2) len Nil by auto
      then have "IOChannelReferenceValue_listItemSet p (k @ [0]) (v @ [0]) w = Ok (?x, ?x, ?w)"
        using search None Nil m x by (simp add: IOChannelReferenceValue_listItemSet_def IOChannelReferenceValue_zero_def)
      moreover have "ir_list (left_behind k (k \<in> fst ` set kvs) w0) ?w ?x [?x] (AList.update k v kvs)"
        using l(1,4) x h0 Nil assms(2) \<open>kvs = []\<close> str s(2) by (auto simp: ir_list_def ir_holds_def)
      ultimately show ?thesis using m by (intro exI [of _ ?x] exI [of _ "[?x]"] exI [of _ ?w]) simp
    next
      case (snoc ys y)
      obtain c where c: "cells ?h y = Some c" "ir_next c = 0" using lseg_last [OF l(2) [unfolded snoc]] by blast
      let ?c = "c\<lparr>ir_next := ?x\<rparr>"
      let ?w = "w\<lparr>is_heap := ?h\<lparr>cells := (cells ?h)(y \<mapsto> ?c, ?x \<mapsto> ?d), brk := Suc (brk ?h)\<rparr>, is_mem := m\<rparr>"
      have y: "y \<noteq> ?x" "y \<noteq> 0" using nx snoc lseg_nonnull [OF l(2)] by auto
      have "IOChannelReferenceValue_listItemSet p (k @ [0]) (v @ [0]) w = Ok (?x, p, ?w)"
        using search None snoc m x c y
        by (simp add: IOChannelReferenceValue_listItemSet_def IOChannelReferenceValue_zero_def fun_upd_twist)
      moreover have "lseg ir_next (cells (is_heap ?w)) p (xs @ [?x]) 0"
        using lseg_snoc [OF l(2) [unfolded snoc], of ?c ?x ?d] nx x(1) snoc by simp
      moreover have "list_all2 (\<lambda>x kv. \<exists>c. cells (is_heap ?w) x = Some c \<and> ir_holds c kv) (xs @ [?x]) (kvs @ [(k, v)])"
      proof (rule list_all2_appendI)
        show "list_all2 (\<lambda>x kv. \<exists>c. cells (is_heap ?w) x = Some c \<and> ir_holds c kv) xs kvs"
          unfolding list_all2_conv_all_nth
        proof (intro conjI allI impI)
          fix i
          assume i: "i < length xs"
          with l(3) obtain c' where "cells ?h (xs ! i) = Some c'" "ir_holds c' (kvs ! i)" by (auto simp: list_all2_conv_all_nth)
          moreover have "xs ! i \<noteq> ?x" using nth_mem [OF i] nx by auto
          ultimately show "\<exists>c. cells (is_heap ?w) (xs ! i) = Some c \<and> ir_holds c (kvs ! i)" using c(1) by (auto simp: ir_holds_def)
        qed (rule len)
      qed (use assms(2) in \<open>simp add: ir_holds_def\<close>)
      moreover have "heap_ok (is_heap ?w)"
        using heap_ok_alloc [OF heap_ok_update [OF l(1) c(1), of ?c], of ?d] by simp
      moreover have "\<forall>z. z \<notin> set (xs @ [?x]) \<longrightarrow> cells (is_heap ?w) z = cells ?old_heap z" using l(4) snoc by auto
      moreover have "\<forall>z \<in> set (xs @ [?x]). cells ?old_heap z = None" using l(5) h0 by auto
      ultimately show ?thesis using m u str s(2) by (intro exI [of _ ?x] exI [of _ p] exI [of _ "xs @ [?x]"] exI [of _ ?w]) (simp add: ir_list_def)
    qed
  qed
qed

subsection \<open>The loop\<close>

lemma ref_pair_chars:
  assumes "ref_pair q"
  obtains d ds where "pair_layout q = d # ds" "ref_char d" "d \<noteq> 0" "\<not> space d"
proof -
  obtain d ds where d: "pt_ref q = d # ds" "ref_char d" using assms by (cases "pt_ref q") (auto simp: ref_pair_def)
  moreover from d(2) have "d \<noteq> 0" by (metis ref_chars(1))
  ultimately show thesis using that by (simp add: pair_layout_def)
qed

lemma parse_turn:
  assumes "ref_pair q" and "\<forall>c \<in> set sp. space c" and "2 \<le> is_mem w"
  shows "parse_loop (Suc n) (sp @ pair_layout q @ s) held p w =
    obind (IOChannelReferenceValue_listItemSet p (pt_ref q @ [0]) (pt_value q @ [0]) (pair_read q w)) (\<lambda>(held, p, w).
      parse_loop n (pt_end q @ s) held p w)"
proof -
  obtain d ds where d: "pair_layout q = d # ds" "ref_char d" "d \<noteq> 0" "\<not> space d" using ref_pair_chars [OF assms(1)] .
  have skip: "IOCHANNELREFERENCEVALUE_SKIPSPACES (sp @ pair_layout q @ s) = Ok (pair_layout q @ s)"
    using skip_ok [OF assms(2) d(4)] d(1) by (simp add: ref_space)
  obtain a as where a: "sp @ pair_layout q @ s = a # as" "a \<noteq> 0"
    using assms(2) d(1,3) by (cases sp) (auto simp: char_class_defs)
  have "parse_loop (Suc n) (sp @ pair_layout q @ s) held p w =
      obind (parse_pair (pair_layout q @ s) w) (\<lambda>(pair, w).
          case pair of None \<Rightarrow> obind (release_held held w) (\<lambda>w. Ok (False, p, w))
          | Some (referenceBuffer, referenceValue, s) \<Rightarrow>
              obind (IOChannelReferenceValue_listItemSet p referenceBuffer referenceValue w) (\<lambda>(held, list, w).
              parse_loop n s held list w))"
    using a d skip [unfolded a(1)] by (simp add: peek_def IOCHANNELREFERENCEVALUE_EOF_def)
  with parse_pair_ok [OF assms(1,3)] show ?thesis by simp
qed

text \<open>The pairs of a text: each reference where it comes first, with its last value.\<close>

definition pairs_of :: "pair_text list \<Rightarrow> (byte list \<times> byte list) list \<Rightarrow> (byte list \<times> byte list) list" where
  "pairs_of ps kvs = fold (\<lambda>q. AList.update (pt_ref q) (pt_value q)) ps kvs"

text \<open>The references that a text repeats, once for each repetition; \<open>S\<close> are those that come before it.\<close>

fun repeated :: "byte list set \<Rightarrow> pair_text list \<Rightarrow> byte list list" where
  "repeated S [] = []"
| "repeated S (q # qs) = (if pt_ref q \<in> S then [pt_ref q] else []) @ repeated (insert (pt_ref q) S) qs"

lemma repeated_none: "repeated S ps = [] \<longleftrightarrow> distinct (map pt_ref ps) \<and> pt_ref ` set ps \<inter> S = {}"
  by (induction S ps rule: repeated.induct) auto

definition repeats :: "byte list set \<Rightarrow> pair_text list \<Rightarrow> byte list multiset" where
  "repeats S ps = mset (map (\<lambda>r. r @ [0]) (repeated S ps))"

definition with_strings :: "byte list multiset \<Rightarrow> irs \<Rightarrow> irs" where
  "with_strings M w = w\<lparr>is_strings := M + is_strings w\<rparr>"

lemma with_strings_simps [simp]:
  "is_heap (with_strings M w) = is_heap w" "is_vectors (with_strings M w) = is_vectors w"
  "is_strings (with_strings M w) = M + is_strings w" "with_strings {#} w = w"
  by (simp_all add: with_strings_def)

lemma with_strings_behind:
  "with_strings (repeats (insert (pt_ref q) S) qs) (left_behind (pt_ref q) (pt_ref q \<in> S) w) = with_strings (repeats S (q # qs)) w"
  by (simp add: with_strings_def left_behind_def repeats_def)

lemma update_keys: "fst ` set (AList.update k v kvs) = insert k (fst ` set kvs)"
  by (induction kvs) auto

lemma parse_loop_pairs:
  assumes "ir_list w0 w p xs kvs" and "\<forall>q \<in> set ps. ref_pair q" and "\<forall>c \<in> set sp. space c" and "3 * length ps \<le> is_mem w"
  shows "\<exists>p' xs' w' sp' held'. parse_loop (length ps + n) (sp @ concat (map pair_layout ps) @ s) held p w = parse_loop n (sp' @ s) held' p' w' \<and>
    ir_list (with_strings (repeats (fst ` set kvs) ps) w0) w' p' xs' (pairs_of ps kvs) \<and> (\<forall>c \<in> set sp'. space c) \<and> is_mem w \<le> is_mem w' + 3 * length ps"
  using assms
proof (induction ps arbitrary: w0 w p xs kvs sp held)
  case Nil
  then show ?case by (intro exI [of _ p] exI [of _ xs] exI [of _ w] exI [of _ sp] exI [of _ held]) (simp add: pairs_of_def repeats_def)
next
  case (Cons q ps)
  have q: "ref_pair q" "0 \<notin> set (pt_ref q)" "\<forall>c \<in> set (pt_end q). space c"
    using Cons.prems(2) by (auto simp: ref_pair_def)
  let ?w = "pair_read q w" and ?left = "left_behind (pt_ref q) (pt_ref q \<in> fst ` set kvs) w0"
  have "0 < is_mem ?w" "is_mem ?w = is_mem w - 2" using Cons.prems(4) by (simp_all add: pair_read_def)
  from listItemSet_ok [OF Cons.prems(1) q(2) this(1), of "pt_value q"] this(2) obtain x p1 xs1 w1 where
    w1: "IOChannelReferenceValue_listItemSet p (pt_ref q @ [0]) (pt_value q @ [0]) ?w = Ok (x, p1, w1)"
      "ir_list ?left w1 p1 xs1 (AList.update (pt_ref q) (pt_value q) kvs)" "is_mem w - 2 \<le> is_mem w1 + 1"
    by (auto simp: pair_read_def)
  have "3 * length ps \<le> is_mem w1" using w1(3) Cons.prems(4) by simp
  from Cons.IH [OF w1(2) _ q(3) this, of x] Cons.prems(2) obtain p' xs' w' sp' held' where
    r: "parse_loop (length ps + n) (pt_end q @ concat (map pair_layout ps) @ s) x p1 w1 = parse_loop n (sp' @ s) held' p' w'"
      "ir_list (with_strings (repeats (fst ` set kvs) (q # ps)) w0) w' p' xs' (pairs_of ps (AList.update (pt_ref q) (pt_value q) kvs))" "\<forall>c \<in> set sp'. space c"
      "is_mem w1 \<le> is_mem w' + 3 * length ps"
    by (auto simp: update_keys with_strings_behind)
  have "2 \<le> is_mem w" using Cons.prems(4) by simp
  from parse_turn [OF q(1) Cons.prems(3) this, of "length ps + n" "concat (map pair_layout ps) @ s" held p]
  have "parse_loop (length (q # ps) + n) (sp @ concat (map pair_layout (q # ps)) @ s) held p w = parse_loop n (sp' @ s) held' p' w'"
    using w1(1) r(1) by simp
  moreover have "is_mem w \<le> is_mem w' + 3 * length (q # ps)" using r(4) w1(3) Cons.prems(4) by simp
  ultimately show ?case using r(2,3)
    by (intro exI [of _ p'] exI [of _ xs'] exI [of _ w'] exI [of _ sp'] exI [of _ held']) (simp add: pairs_of_def)
qed

lemma parse_loop_end: "\<forall>c \<in> set sp. space c \<Longrightarrow> parse_loop (Suc n) (sp @ [0]) held p w = Ok (True, p, w)"
  using skip_ok [of sp 0 "[]"] by (cases sp) (auto simp: peek_def IOCHANNELREFERENCEVALUE_EOF_def ref_space)

subsection \<open>Vectors\<close>

lemma count_elements_ok: "lseg ir_next (cells h) p xs 0 \<Longrightarrow> length xs < n \<Longrightarrow> count_elements n p k h = Ok (k + int (length xs))"
proof (induction n arbitrary: p xs k)
  case (Suc n)
  then show ?case by (cases xs) (auto split: option.splits)
qed simp

lemma fill_vector_ok:
  "lseg ir_next (cells h) p xs 0 \<Longrightarrow> length xs < n \<Longrightarrow> i + length xs \<le> length v \<Longrightarrow>
    fill_vector n p i v h = Ok (take i v @ xs @ drop (i + length xs) v)"
proof (induction n arbitrary: p xs i v)
  case (Suc n)
  show ?case
  proof (cases xs)
    case Nil
    then show ?thesis using Suc.prems by simp
  next
    case (Cons x ys)
    then obtain c where c: "p = x" "x \<noteq> 0" "cells h x = Some c" "lseg ir_next (cells h) (ir_next c) ys 0"
      using Suc.prems(1) by (auto split: option.splits)
    have "fill_vector n (ir_next c) (i + 1) (v[i := x]) h = Ok (take (i + 1) (v[i := x]) @ ys @ drop (i + 1 + length ys) (v[i := x]))"
      using Suc.prems(2,3) Cons by (intro Suc.IH [OF c(4)]) simp_all
    moreover have "take (Suc i) (v[i := x]) = take i v @ [x]" using Suc.prems(3) Cons by (simp add: take_Suc_conv_app_nth)
    ultimately show ?thesis using c Cons Suc.prems(3) by simp
  qed
qed simp

lemma listToVector_ok:
  assumes "ir_list w0 w p xs kvs" and "xs \<noteq> []" and "0 < is_mem w"
  shows "IOChannelReferenceValue_listToVector p w =
    Ok (int (length xs), xs @ [0], w\<lparr>is_vectors := add_mset (xs @ [0]) (is_vectors w), is_mem := is_mem w - 1\<rparr>)"
proof -
  have l: "heap_ok (is_heap w)" "lseg ir_next (cells (is_heap w)) p xs 0" using assms(1) by (auto simp: ir_list_def)
  have n: "length xs < Suc (brk (is_heap w))" using lseg_length [OF l] by simp
  have rep: "replicate (Suc 0) (0 :: nat) = [0]" by simp
  have "p \<noteq> 0" using l(2) assms(2) by (cases xs) auto
  moreover have "fill_vector (Suc (brk (is_heap w))) p 0 (replicate (length xs + 1) 0) (is_heap w) = Ok (xs @ [0])"
    using fill_vector_ok [OF l(2) n, of 0 "replicate (length xs + 1) 0"] rep unfolding drop_replicate by (simp del: fill_vector.simps replicate.simps(2))
  ultimately show ?thesis
    using count_elements_ok [OF l(2) n, of 0] assms(3)
    by (simp add: IOChannelReferenceValue_listToVector_def list_update_append Let_def del: count_elements.simps fill_vector.simps)
qed

lemma lower_char_0 [simp]: "lower_char c = 0 \<longleftrightarrow> c = 0"
proof -
  have "c + 32 \<noteq> 0" if "c \<le> 90"
  proof
    assume "c + 32 = 0"
    then have "c = - 32" by (simp only: eq_neg_iff_add_eq_0)
    with that show False by simp
  qed
  then show ?thesis by (auto simp: lower_char_def)
qed

lemma strcasecmp_eq_ok:
  assumes "0 \<notin> set r" and "0 \<notin> set k"
  shows "strcasecmp_eq (r @ [0]) (k @ [0]) = Ok (map lower_char r = map lower_char k)"
proof -
  have z: "lower_char 0 = 0" by simp
  have "0 \<notin> set (map lower_char r)" "0 \<notin> set (map lower_char k)"
    using assms lower_char_0 by (auto simp: image_iff dest: sym)
  then show ?thesis unfolding strcasecmp_eq_def map_append list.map z by (rule strcmp_texts)
qed

text \<open>The value under a reference, in capital or small letters.\<close>

definition value_under :: "byte list \<Rightarrow> (byte list \<times> byte list) list \<Rightarrow> byte list option" where
  "value_under r kvs = map_option snd (find (\<lambda>kv. map lower_char r = map lower_char (fst kv)) kvs)"

lemma getvalue_ok:
  assumes "list_all2 (\<lambda>x kv. \<exists>c. cells (is_heap w) x = Some c \<and> ir_holds c kv) xs kvs" and "0 \<notin> set xs" and "0 \<notin> set r"
  shows "IOCHANNELREFERENCEVALUE_GETVALUE (xs @ [0]) (r @ [0]) w = Ok (case value_under r kvs of None \<Rightarrow> Null | Some v \<Rightarrow> Own (v @ [0]))"
  using assms by (induction xs kvs rule: list_all2_induct) (auto simp: value_under_def ir_holds_def strcasecmp_eq_ok)

lemma free_elements_ok:
  assumes "list_all2 (\<lambda>x kv. \<exists>c. cells (is_heap w) x = Some c \<and> ir_holds c kv) xs kvs" and "0 \<notin> set xs" and "distinct xs"
    and "is_strings w = ir_strings kvs + M"
  shows "free_elements (xs @ [0]) w = Ok (w\<lparr>is_heap := is_heap w\<lparr>cells := \<lambda>x. if x \<in> set xs then None else cells (is_heap w) x\<rparr>,
    is_strings := M\<rparr>)"
  using assms
proof (induction xs arbitrary: w kvs)
  case Nil
  then show ?case by simp
next
  case (Cons x xs)
  then obtain kv kvs' c where c: "kvs = kv # kvs'" "cells (is_heap w) x = Some c" "ir_holds c kv"
    "list_all2 (\<lambda>x kv. \<exists>c. cells (is_heap w) x = Some c \<and> ir_holds c kv) xs kvs'"
    by (auto simp: list_all2_Cons1)
  let ?w = "w\<lparr>is_strings := ir_strings kvs' + M, is_heap := is_heap w\<lparr>cells := (cells (is_heap w))(x := None)\<rparr>\<rparr>"
  have "list_all2 (\<lambda>x kv. \<exists>c. cells (is_heap ?w) x = Some c \<and> ir_holds c kv) xs kvs'"
    using c(4) Cons.prems(3) by (auto simp: list_all2_conv_all_nth)
  then have "free_elements (xs @ [0]) ?w = Ok (?w\<lparr>is_heap := is_heap ?w\<lparr>cells := \<lambda>x. if x \<in> set xs then None else cells (is_heap ?w) x\<rparr>,
      is_strings := M\<rparr>)"
    using Cons.prems(2,3) by (intro Cons.IH) auto
  moreover have "free_elements ((x # xs) @ [0]) w = free_elements (xs @ [0]) ?w"
    using Cons.prems(2,4) c(1-3) by (simp add: ir_holds_def release_string_def ir_strings_Cons)
  moreover have "(\<lambda>y. if y \<in> set (x # xs) then None else cells (is_heap w) y) = (\<lambda>y. if y \<in> set xs then None else cells (is_heap ?w) y)"
    by auto
  ultimately show ?case by simp
qed

subsection \<open>Numbers\<close>

definition digit_char :: "nat \<Rightarrow> byte" where
  "digit_char d = word_of_nat (if d < 10 then 48 + d else 87 + d)"

text \<open>The digits of a number in a base up to 16.\<close>

fun based :: "nat \<Rightarrow> nat \<Rightarrow> byte list" where
  "based b n = (if n < b \<or> b < 2 then [digit_char (n mod b)] else based b (n div b) @ [digit_char (n mod b)])"

declare based.simps [simp del]

fun notation_base :: "IOChannelReferenceValueNotationType \<Rightarrow> nat" where
  "notation_base Decimal = 10" | "notation_base Exadecimal = 16" | "notation_base Octal = 8"

fun notation_prefix :: "IOChannelReferenceValueNotationType \<Rightarrow> byte list" where
  "notation_prefix Decimal = []" | "notation_prefix Exadecimal = [48, 120]" | "notation_prefix Octal = [48]"

definition number_text :: "IOChannelReferenceValueNotationType \<Rightarrow> int \<Rightarrow> byte list" where
  "number_text nt i = (if i < 0 then [45] else []) @ notation_prefix nt @ based (notation_base nt) (nat \<bar>i\<bar>)"

fun type_bits :: "IOChannelReferenceValueAllowedType \<Rightarrow> nat" where
  "type_bits Int_type = 32" | "type_bits UInt_type = 32" | "type_bits Long_type = 64" | "type_bits ULong_type = 64"

definition type_holds :: "IOChannelReferenceValueAllowedType \<Rightarrow> int \<Rightarrow> bool" where
  "type_holds type i \<longleftrightarrow>
     (if type = Int_type \<or> type = Long_type then - (2 ^ (type_bits type - 1)) \<le> i \<and> i < 2 ^ (type_bits type - 1)
      else 0 \<le> i \<and> i < 2 ^ type_bits type)"

lemma digit_char_value:
  assumes "d < 16"
  shows "hex_value (digit_char d) = Some d" "digit_char d \<noteq> 0" "digit_char d = 48 \<longleftrightarrow> d = 0" "digit_char d \<noteq> 120" "digit_char d \<noteq> 88"
    "\<not> IOCHANNELREFERENCEVALUE_ISSIGN (digit_char d)" "d < 10 \<Longrightarrow> IOCHANNELREFERENCEVALUE_ISDIGIT (digit_char d)"
    "IOCHANNELREFERENCEVALUE_ISXDIGIT (digit_char d)" "d < 8 \<Longrightarrow> IOCHANNELREFERENCEVALUE_ISOCTALDIGIT (digit_char d)"
proof -
  have "\<forall>d \<in> set [0, 1, 2, 3, 4, 5, 6, 7, 8, 9, 10, 11, 12, 13, 14, 15]. hex_value (digit_char d) = Some d \<and> digit_char d \<noteq> 0 \<and> (digit_char d = 48 \<longleftrightarrow> d = 0) \<and> digit_char d \<noteq> 120 \<and> digit_char d \<noteq> 88 \<and>
    \<not> IOCHANNELREFERENCEVALUE_ISSIGN (digit_char d) \<and> (d < 10 \<longrightarrow> IOCHANNELREFERENCEVALUE_ISDIGIT (digit_char d)) \<and>
    IOCHANNELREFERENCEVALUE_ISXDIGIT (digit_char d) \<and> (d < 8 \<longrightarrow> IOCHANNELREFERENCEVALUE_ISOCTALDIGIT (digit_char d))"
    by (simp add: digit_char_def hex_value_def IOCHANNELREFERENCEVALUE_ISXDIGIT_def IOCHANNELREFERENCEVALUE_ISOCTALDIGIT_def ref_class_defs)
  moreover have "d \<in> set [0, 1, 2, 3, 4, 5, 6, 7, 8, 9, 10, 11, 12, 13, 14, 15]" using assms by simp presburger
  ultimately show "hex_value (digit_char d) = Some d" "digit_char d \<noteq> 0" "digit_char d = 48 \<longleftrightarrow> d = 0" "digit_char d \<noteq> 120" "digit_char d \<noteq> 88"
    "\<not> IOCHANNELREFERENCEVALUE_ISSIGN (digit_char d)" "d < 10 \<Longrightarrow> IOCHANNELREFERENCEVALUE_ISDIGIT (digit_char d)"
    "IOCHANNELREFERENCEVALUE_ISXDIGIT (digit_char d)" "d < 8 \<Longrightarrow> IOCHANNELREFERENCEVALUE_ISOCTALDIGIT (digit_char d)"
    by blast+
qed

lemma based_digits:
  assumes "2 \<le> b"
  shows "based b n \<noteq> []" "\<forall>c \<in> set (based b n). \<exists>d < b. c = digit_char d" "0 < n \<Longrightarrow> \<exists>d < b. 0 < d \<and> hd (based b n) = digit_char d"
proof -
  have "based b n \<noteq> [] \<and> (\<forall>c \<in> set (based b n). \<exists>d < b. c = digit_char d) \<and> (0 < n \<longrightarrow> (\<exists>d < b. 0 < d \<and> hd (based b n) = digit_char d))"
    using assms
  proof (induction b n rule: based.induct)
    case (1 b n)
    have m: "n mod b < b" using 1(2) by simp
    show ?case
    proof (cases "n < b")
      case True
      with 1(2) show ?thesis by (subst (1 2 3) based.simps) auto
    next
      case False
      then have "0 < n div b" using 1(2) by (simp add: div_greater_zero_iff)
      moreover have "\<exists>d < b. digit_char (n mod b) = digit_char d" using m by blast
      ultimately show ?thesis using False 1 by (subst (1 2 3) based.simps) (auto simp: hd_append)
    qed
  qed
  then show "based b n \<noteq> []" "\<forall>c \<in> set (based b n). \<exists>d < b. c = digit_char d" "0 < n \<Longrightarrow> \<exists>d < b. 0 < d \<and> hd (based b n) = digit_char d"
    by blast+
qed

lemma based_value_append: "based_value b v (xs @ ys) = based_value b (based_value b v xs) ys"
  by (induction xs arbitrary: v) simp_all

lemma based_value_based: "2 \<le> b \<Longrightarrow> b \<le> 16 \<Longrightarrow> based_value b 0 (based b n) = int n"
proof (induction b n rule: based.induct)
  case (1 b n)
  have m: "n mod b < 16" using 1(2,3) by (meson mod_less_divisor less_le_trans zero_less_numeral)
  show ?case
  proof (cases "n < b")
    case True
    with 1(2,3) show ?thesis by (subst based.simps) (simp add: digit_char_value)
  next
    case False
    with 1 m show ?thesis by (subst based.simps) (simp add: based_value_append digit_char_value flip: of_nat_mult of_nat_add)
  qed
qed

lemma advance_all: "\<forall>c \<in> set s. c \<noteq> 0 \<and> P c \<Longrightarrow> advance P (s @ [0]) = Ok (s, [0])"
  by (simp add: advance_append SERIALIZEREFERENCEVALUE_EOF_def)

lemma admitted_check: "\<forall>c \<in> set s. c \<noteq> 0 \<and> P c \<Longrightarrow> IOCHANNELREFERENCEVALUE_ISADMITTEDCHARCHECK (s @ [0]) P = Ok True"
  by (simp add: IOCHANNELREFERENCEVALUE_ISADMITTEDCHARCHECK_def advance_all peek_def)

text \<open>What the check of the characters says about a number, and the notation it sees: a decimal 0 counts as octal.\<close>

definition notation_seen :: "IOChannelReferenceValueNotationType \<Rightarrow> int \<Rightarrow> IOChannelReferenceValueNotationType" where
  "notation_seen nt i = (if nt = Decimal \<and> i = 0 then Octal else nt)"

lemma digit_of_char: "d < b \<Longrightarrow> b \<le> 16 \<Longrightarrow> digit_of b (digit_char d)"
  by (simp add: digit_of_def digit_char_value)

lemma notation_base_range: "2 \<le> notation_base nt" "notation_base nt \<le> 16"
  by ((cases nt; simp)+)

text \<open>The text behind the sign.\<close>

lemma no_hex_prefix:
  assumes "\<forall>c \<in> set s. \<exists>d < 16. c = digit_char d"
  shows "\<not> hex_prefix s" "\<not> hex_prefix (48 # s)"
  using assms by (auto simp: hex_prefix_def digit_char_value split: list.splits)

lemma number_body:
  assumes "2 \<le> b" and "b \<le> 16"
  shows "\<forall>c \<in> set (based b n). \<exists>d < 16. c = digit_char d" "takeWhile (digit_of b) (based b n) = based b n"
    "hd (based b n) = 48 \<longleftrightarrow> n = 0" "hd (based b n) \<noteq> 43" "hd (based b n) \<noteq> 45"
proof -
  note d = based_digits [OF assms(1)]
  show all: "\<forall>c \<in> set (based b n). \<exists>d < 16. c = digit_char d"
  proof
    fix c
    assume "c \<in> set (based b n)"
    then obtain d where "d < b" "c = digit_char d" using d(2) by blast
    then show "\<exists>d < 16. c = digit_char d" using assms(2) by (intro exI [of _ d]) simp
  qed
  show "takeWhile (digit_of b) (based b n) = based b n"
    unfolding takeWhile_eq_all_conv
  proof
    fix c
    assume "c \<in> set (based b n)"
    then obtain d where "d < b" "c = digit_char d" using d(2) by blast
    then show "digit_of b c" using digit_of_char assms(2) by simp
  qed
  have "hd (based b n) \<in> set (based b n)" using d(1) by simp
  then obtain e where e: "e < 16" "hd (based b n) = digit_char e" using all by blast
  show "hd (based b n) \<noteq> 43" "hd (based b n) \<noteq> 45" using digit_char_value(6) [OF e(1)] e(2) by (auto simp: IOCHANNELREFERENCEVALUE_ISSIGN_def)
  show "hd (based b n) = 48 \<longleftrightarrow> n = 0"
  proof (cases n)
    case 0
    then show ?thesis using assms by (simp add: based.simps digit_char_def)
  next
    case (Suc m)
    then obtain d where "d < b" "0 < d" "hd (based b n) = digit_char d" using d(3) [of n] by auto
    then show ?thesis using Suc assms(2) digit_char_value(3) [of d] by auto
  qed
qed

lemma sscanf_tail:
  fixes t :: "byte list"
  assumes "t = sign @ s" and "sign = (if i < 0 then [45] else [])" and "s \<noteq> []" and "hd s \<noteq> 43" and "hd s \<noteq> 45"
    and "b = (if last pattern = CHR ''u'' then 10 else if last pattern = CHR ''o'' then 8 else if last pattern = CHR ''x'' then 16
       else if hex_prefix s then 16 else if hd s = 48 then 8 else 10 :: nat)"
    and "ds = (if b = 16 \<and> hex_prefix s then drop 2 s else s)" and "takeWhile (digit_of b) ds = ds" and "ds \<noteq> []" and "based_value b 0 ds = \<bar>i\<bar>"
    and "if last pattern = CHR ''i'' then - (2 ^ ((if length pattern = 3 then 64 else 32) - 1)) \<le> i \<and> i < 2 ^ ((if length pattern = 3 then 64 else 32) - 1 :: nat)
      else 0 \<le> i \<and> i < 2 ^ (if length pattern = 3 then 64 else 32 :: nat)"
  shows "sscanf_integer pattern t = Ok (Some i)"
proof -
  have n: "(t \<noteq> [] \<and> hd t = 45) = (i < 0)" "(if t \<noteq> [] \<and> (hd t = 45 \<or> hd t = 43) then drop 1 t else t) = s"
    using assms(1-5) by auto
  have b: "(if last pattern = CHR ''u'' then 10 else if last pattern = CHR ''o'' then 8 else if last pattern = CHR ''x'' then 16
       else if hex_prefix s then 16 else if s \<noteq> [] \<and> hd s = 48 then 8 else 10) = b"
    using assms(3,6) by simp
  show ?thesis
    unfolding sscanf_integer_def Let_def n b assms(7) [symmetric] assms(8)
    using assms(9-11) by (auto split: if_splits)
qed

lemma sscanf_based:
  assumes "type_holds type i"
  shows "sscanf_integer (number_pattern type (notation_seen nt i)) (number_text nt i) = Ok (Some i)"
proof -
  let ?b = "notation_base nt" and ?n = "nat \<bar>i\<bar>" and ?p = "number_pattern type (notation_seen nt i)"
  let ?D = "based ?b ?n"
  let ?s = "notation_prefix nt @ ?D"
  let ?B = "if nt = Decimal \<and> i = 0 \<and> last ?p \<noteq> CHR ''u'' then 8 else ?b"
  note r = notation_base_range [of nt]
  note D = number_body [OF r, of ?n]
  have ne: "?D \<noteq> []" using based_digits(1) [OF r(1)] .
  have h: "hex_prefix ?s \<longleftrightarrow> nt = Exadecimal"
    using no_hex_prefix [OF D(1)] by (cases nt) (simp_all add: hex_prefix_def)
  have h48: "hd ?s = 48 \<longleftrightarrow> nt \<noteq> Decimal \<or> i = 0" using D(3) by (cases nt) auto
  have hd: "hd ?s \<noteq> 43" "hd ?s \<noteq> 45" using D(4,5) by (cases nt; simp)+
  have v: "based_value ?b 0 ?D = \<bar>i\<bar>" using based_value_based [OF r] by simp
  have z: "?D = [48]" if "i = 0" using that by (cases nt) (simp_all add: based.simps digit_char_def)
  have l: "length ?p = 3 \<longleftrightarrow> type_bits type = 64" "length ?p \<noteq> 3 \<longleftrightarrow> type_bits type = 32" "last ?p = CHR ''i'' \<longleftrightarrow> type = Int_type \<or> type = Long_type"
    "last ?p \<noteq> CHR ''i'' \<Longrightarrow> last ?p = (case notation_seen nt i of Decimal \<Rightarrow> CHR ''u'' | Exadecimal \<Rightarrow> CHR ''x'' | Octal \<Rightarrow> CHR ''o'')"
    by (cases type; cases "notation_seen nt i"; simp)+
  show ?thesis
  proof (rule sscanf_tail [where s = ?s and b = ?B and ds = "if nt = Exadecimal then ?D else ?s"])
    show "number_text nt i = (if i < 0 then [45] else []) @ ?s" by (simp add: number_text_def)
    show "?B = (if last ?p = CHR ''u'' then 10 else if last ?p = CHR ''o'' then 8 else if last ?p = CHR ''x'' then 16
       else if hex_prefix ?s then 16 else if hd ?s = 48 then 8 else 10)"
      unfolding h h48 using l(3,4) by (cases nt; cases "last ?p = CHR ''i''") (auto simp: notation_seen_def)
    have "hex_value 48 = Some 0" by (simp add: hex_value_def)
    then have d48: "digit_of b 48" if "0 < b" for b using that by (simp add: digit_of_def)
    show "takeWhile (digit_of ?B) (if nt = Exadecimal then ?D else ?s) = (if nt = Exadecimal then ?D else ?s)"
      using D(2) z d48 by (cases nt) auto
    show "based_value ?B 0 (if nt = Exadecimal then ?D else ?s) = \<bar>i\<bar>"
      using v z \<open>hex_value 48 = Some 0\<close> by (cases nt) auto
    show "if last ?p = CHR ''i'' then - (2 ^ ((if length ?p = 3 then 64 else 32) - 1)) \<le> i \<and> i < 2 ^ ((if length ?p = 3 then 64 else 32) - 1 :: nat)
      else 0 \<le> i \<and> i < 2 ^ (if length ?p = 3 then 64 else 32 :: nat)"
      using assms l(1-3) by (cases type) (auto simp: type_holds_def)
  qed (use ne h hd in auto)
qed

lemma notation_check:
  assumes "tmp = notation_prefix nt @ based (notation_base nt) (nat \<bar>i\<bar>) @ [0]"
  shows "peek tmp (\<lambda>c.
     obind (if c = 48
            then peek (drop 1 tmp) (\<lambda>x.
                   if x = 120 \<or> x = 88
                   then omap (\<lambda>ok. (ok, Exadecimal)) (IOCHANNELREFERENCEVALUE_ISADMITTEDCHARCHECK (drop 2 tmp) IOCHANNELREFERENCEVALUE_ISXDIGIT)
                   else omap (\<lambda>ok. (ok, Octal)) (IOCHANNELREFERENCEVALUE_ISADMITTEDCHARCHECK tmp IOCHANNELREFERENCEVALUE_ISOCTALDIGIT))
            else omap (\<lambda>ok. (ok, Decimal)) (IOCHANNELREFERENCEVALUE_ISADMITTEDCHARCHECK tmp IOCHANNELREFERENCEVALUE_ISDIGIT)) k) = k (True, notation_seen nt i)"
proof -
  let ?D = "based (notation_base nt) (nat \<bar>i\<bar>)"
  note r = notation_base_range [of nt]
  obtain e es where e: "?D = e # es" using based_digits(1) [OF r(1)] by (cases ?D) auto
  have d: "\<exists>d < notation_base nt. c = digit_char d" if "c \<in> set ?D" for c using based_digits(2) [OF r(1)] that by blast
  have nx: "e \<noteq> 120" "e \<noteq> 88" using d [of e] e r(2) digit_char_value(4,5) by auto
  have oct: "IOCHANNELREFERENCEVALUE_ISOCTALDIGIT 48" by (simp add: IOCHANNELREFERENCEVALUE_ISOCTALDIGIT_def)
  show ?thesis
  proof (cases nt)
    case Decimal
    show ?thesis
    proof (cases "i = 0")
      case True
      then have "?D = [48]" using Decimal by (simp add: based.simps digit_char_def)
      then have "tmp = [48] @ [0]" using assms Decimal by simp
      with admitted_check [of "[48]" IOCHANNELREFERENCEVALUE_ISOCTALDIGIT] oct show ?thesis using Decimal True by (simp add: peek_def notation_seen_def)
    next
      case False
      then have "e \<noteq> 48" using number_body(3) [OF r, of "nat \<bar>i\<bar>"] e by auto
      moreover have "\<forall>c \<in> set ?D. c \<noteq> 0 \<and> IOCHANNELREFERENCEVALUE_ISDIGIT c" using d Decimal digit_char_value(2,7) by fastforce
      from admitted_check [OF this] have "IOCHANNELREFERENCEVALUE_ISADMITTEDCHARCHECK tmp IOCHANNELREFERENCEVALUE_ISDIGIT = Ok True" using assms Decimal by simp
      moreover have "tmp = e # es @ [0]" using assms e Decimal by simp
      ultimately show ?thesis using Decimal False by (simp add: peek_def notation_seen_def)
    qed
  next
    case Exadecimal
    have "\<forall>c \<in> set ?D. c \<noteq> 0 \<and> IOCHANNELREFERENCEVALUE_ISXDIGIT c" using d Exadecimal digit_char_value(2,8) by fastforce
    from admitted_check [OF this] show ?thesis using assms Exadecimal by (simp add: peek_def notation_seen_def)
  next
    case Octal
    have "\<forall>c \<in> set (48 # ?D). c \<noteq> 0 \<and> IOCHANNELREFERENCEVALUE_ISOCTALDIGIT c" using d Octal digit_char_value(2,9) oct by fastforce
    from admitted_check [OF this] show ?thesis using assms Octal e nx by (simp add: peek_def notation_seen_def)
  qed
qed

lemma number_text_chars:
  "0 \<notin> set (number_text nt i)" "number_text nt i \<noteq> []" "\<forall>c \<in> set (number_text nt i). IOCHANNELREFERENCEVALUE_ISADMITTED c \<and> \<not> space c \<and> \<not> IOCHANNELREFERENCEVALUE_ISALPHAUPPER c"
  "IOCHANNELREFERENCEVALUE_ISDIGIT (hd (number_text nt i)) \<or> IOCHANNELREFERENCEVALUE_ISSIGN (hd (number_text nt i))"
proof -
  note r = notation_base_range [of nt]
  let ?D = "based (notation_base nt) (nat \<bar>i\<bar>)"
  show "number_text nt i \<noteq> []" using based_digits(1) [OF r(1)] by (simp add: number_text_def)
  have "\<forall>d \<in> set [0, 1, 2, 3, 4, 5, 6, 7, 8, 9, 10, 11, 12, 13, 14, 15]. IOCHANNELREFERENCEVALUE_ISADMITTED (digit_char d) \<and> \<not> space (digit_char d) \<and>
      \<not> IOCHANNELREFERENCEVALUE_ISALPHAUPPER (digit_char d)"
    by (simp add: digit_char_def ref_class_defs)
  moreover have "d \<in> set [0, 1, 2, 3, 4, 5, 6, 7, 8, 9, 10, 11, 12, 13, 14, 15]" if "d < 16" for d :: nat using that by simp presburger
  ultimately have c: "IOCHANNELREFERENCEVALUE_ISADMITTED (digit_char d) \<and> \<not> space (digit_char d) \<and> \<not> IOCHANNELREFERENCEVALUE_ISALPHAUPPER (digit_char d)" if "d < 16" for d
    using that by blast
  have D: "\<forall>c \<in> set ?D. IOCHANNELREFERENCEVALUE_ISADMITTED c \<and> \<not> space c \<and> \<not> IOCHANNELREFERENCEVALUE_ISALPHAUPPER c"
    using number_body(1) [OF r, of "nat \<bar>i\<bar>"] c by fastforce
  have P: "\<forall>c \<in> set (notation_prefix nt). IOCHANNELREFERENCEVALUE_ISADMITTED c \<and> \<not> space c \<and> \<not> IOCHANNELREFERENCEVALUE_ISALPHAUPPER c"
    by (cases nt) (simp_all add: ref_class_defs)
  show all: "\<forall>c \<in> set (number_text nt i). IOCHANNELREFERENCEVALUE_ISADMITTED c \<and> \<not> space c \<and> \<not> IOCHANNELREFERENCEVALUE_ISALPHAUPPER c"
    using D P by (auto simp: number_text_def) (simp_all add: ref_class_defs)
  have "\<not> IOCHANNELREFERENCEVALUE_ISADMITTED 0" by (simp add: ref_class_defs)
  with all show "0 \<notin> set (number_text nt i)" by blast
  obtain e es where e: "?D = e # es" using based_digits(1) [OF r(1)] by (cases ?D) auto
  have "IOCHANNELREFERENCEVALUE_ISDIGIT e" if "nt = Decimal"
    using based_digits(2) [OF r(1), of "nat \<bar>i\<bar>"] e that digit_char_value(7) by fastforce
  moreover have "IOCHANNELREFERENCEVALUE_ISDIGIT 48" "IOCHANNELREFERENCEVALUE_ISSIGN 45" by (simp_all add: ref_class_defs)
  ultimately show "IOCHANNELREFERENCEVALUE_ISDIGIT (hd (number_text nt i)) \<or> IOCHANNELREFERENCEVALUE_ISSIGN (hd (number_text nt i))"
    using e by (cases nt) (auto simp: number_text_def)
qed

lemma peek_Cons: "peek (c # s) k = k c"
  by (simp add: peek_def)

lemma stringToNumber_ok:
  assumes "type_holds type i"
  shows "IOChannelReferenceValue_stringToNumber (number_text nt i @ [0]) type = Ok (Some i)"
proof -
  note r = notation_base_range [of nt]
  let ?tmp = "notation_prefix nt @ based (notation_base nt) (nat \<bar>i\<bar>) @ [0]"
  have t: "takeWhile (\<lambda>b. b \<noteq> 0) (number_text nt i @ [0]) = number_text nt i"
    using number_text_chars(1) [of nt i] by (subst takeWhile_append2) auto
  have sign: "IOCHANNELREFERENCEVALUE_ISSIGN 45" "\<not> IOCHANNELREFERENCEVALUE_ISSIGN 48" by (simp_all add: ref_class_defs)
  have s: "number_text nt i @ [0] = (if i < 0 then [45] else []) @ ?tmp" by (simp add: number_text_def)
  have u: "i < 0 \<Longrightarrow> type \<noteq> UInt_type \<and> type \<noteq> ULong_type" using assms by (auto simp: type_holds_def)
  obtain e es where e: "based (notation_base nt) (nat \<bar>i\<bar>) = e # es" "\<not> IOCHANNELREFERENCEVALUE_ISSIGN e"
    using based_digits(1,2) [OF r(1), of "nat \<bar>i\<bar>"] r(2) digit_char_value(6) by (cases "based (notation_base nt) (nat \<bar>i\<bar>)") fastforce+
  obtain c cs where c: "?tmp = c # cs" "\<not> IOCHANNELREFERENCEVALUE_ISSIGN c"
    using e sign by (cases nt) auto
  have "IOChannelReferenceValue_stringToNumber (number_text nt i @ [0]) type =
    sscanf_integer (number_pattern type (notation_seen nt i)) (takeWhile (\<lambda>b. b \<noteq> 0) (number_text nt i @ [0]))"
  proof (cases "i < 0")
    case True
    then have x: "number_text nt i @ [0] = 45 # ?tmp" using s by simp
    have d1: "drop 1 (45 # t) = t" for t :: "byte list" by simp
    show ?thesis unfolding IOChannelReferenceValue_stringToNumber_def Let_def x
      by (simp only: peek_Cons d1 sign u [OF True] notation_check [OF refl] simp_thms if_True if_False prod.case)
  next
    case False
    then have x: "number_text nt i @ [0] = ?tmp" using s by simp
    have pk: "peek ?tmp k = k c" for k :: "byte \<Rightarrow> int option outcome" unfolding c(1) by (rule peek_Cons)
    show ?thesis unfolding IOChannelReferenceValue_stringToNumber_def Let_def x
      by (subst pk) (simp only: c(2) notation_check [OF refl] simp_thms if_True if_False prod.case)
  qed
  then show ?thesis unfolding t sscanf_based [OF assms] .
qed

subsection \<open>Expressions of flags\<close>

datatype flag_term = FlagName string | FlagNumber IOChannelReferenceValueNotationType int

fun flag_text :: "flag_term \<Rightarrow> byte list" where
  "flag_text (FlagName n) = ascii n" | "flag_text (FlagNumber nt i) = number_text nt i"

fun flag_value :: "associations \<Rightarrow> flag_term \<Rightarrow> uint32" where
  "flag_value flags (FlagName n) = the (map_of flags n)" | "flag_value flags (FlagNumber nt i) = word_of_int i"

fun flag_known :: "associations \<Rightarrow> flag_term \<Rightarrow> bool" where
  "flag_known flags (FlagName n) = (n \<in> fst ` set flags)" | "flag_known flags (FlagNumber nt i) = type_holds Int_type i"

text \<open>An operator, spaces, a term, spaces; an expression has a term with spaces around it in front.\<close>

type_synonym flag_item = "byte \<times> byte list \<times> flag_term \<times> byte list"

definition item_layout :: "flag_item \<Rightarrow> byte list" where
  "item_layout x = (case x of (op, sp, t, sp') \<Rightarrow> op # sp @ flag_text t @ sp')"

definition item_known :: "associations \<Rightarrow> flag_item \<Rightarrow> bool" where
  "item_known flags x \<longleftrightarrow> (case x of (op, sp, t, sp') \<Rightarrow> op \<in> {124, 38, 94} \<and> flag_known flags t \<and> (\<forall>c \<in> set (sp @ sp'). space c))"

text \<open>The operators are those of C; they are applied from left to right.\<close>

definition apply_item :: "associations \<Rightarrow> uint32 \<Rightarrow> flag_item \<Rightarrow> uint32" where
  "apply_item flags v x = (case x of (op, _, t, _) \<Rightarrow>
     if op = 38 then v AND flag_value flags t else if op = 124 then v OR flag_value flags t else v XOR flag_value flags t)"

definition flags_ok :: "associations \<Rightarrow> bool" where
  "flags_ok flags \<longleftrightarrow> (\<forall>n \<in> fst ` set flags. n \<noteq> [] \<and> IOCHANNELREFERENCEVALUE_ISALPHAUPPER (hd (ascii n)) \<and>
     (\<forall>c \<in> set (ascii n). IOCHANNELREFERENCEVALUE_ISADMITTED c))"

lemma default_flags_ok: "flags_ok IOChannelDefaultAccessMode" "flags_ok IOChannelDefaultAccessPermissions"
  by (simp_all add: flags_ok_def IOChannelDefaultAccessMode_def IOChannelDefaultAccessPermissions_def ascii_def ref_class_defs)

lemma flag_of_ok:
  assumes "\<forall>n \<in> fst ` set flags. 0 \<notin> set (ascii n)" and "0 \<notin> set (ascii name)"
  shows "flag_of flags (ascii name @ [0]) = Ok (map_of flags name)"
  using assms(1)
proof (induction flags)
  case (Cons x flags)
  obtain n v where x: "x = (n, v)" by (cases x)
  have "strcmp_eq (ascii name @ [0]) (map of_char n @ [0]) = Ok (name = n)"
    using strcmp_texts [OF assms(2), of "ascii n"] Cons.prems x by (simp add: ascii_inject) (simp add: ascii_def)
  then show ?case using Cons x by simp
qed simp

lemma flag_text_chars:
  assumes "flags_ok flags" and "flag_known flags t"
  shows "flag_text t \<noteq> []" "\<forall>c \<in> set (flag_text t). c \<noteq> 0 \<and> \<not> space c \<and> IOCHANNELREFERENCEVALUE_ISADMITTED c"
    "IOCHANNELREFERENCEVALUE_ISALPHAUPPER (hd (flag_text t)) \<or> IOCHANNELREFERENCEVALUE_ISDIGIT (hd (flag_text t)) \<or> IOCHANNELREFERENCEVALUE_ISSIGN (hd (flag_text t))"
    "IOCHANNELREFERENCEVALUE_ISALPHAUPPER (hd (flag_text t)) \<longleftrightarrow> (\<exists>n. t = FlagName n)"
proof -
  have a: "IOCHANNELREFERENCEVALUE_ISADMITTED c \<Longrightarrow> c \<noteq> 0 \<and> \<not> space c" for c by (auto simp: ref_class_defs)
  have "flag_text t \<noteq> [] \<and> (\<forall>c \<in> set (flag_text t). IOCHANNELREFERENCEVALUE_ISADMITTED c) \<and>
    (IOCHANNELREFERENCEVALUE_ISALPHAUPPER (hd (flag_text t)) \<or> IOCHANNELREFERENCEVALUE_ISDIGIT (hd (flag_text t)) \<or> IOCHANNELREFERENCEVALUE_ISSIGN (hd (flag_text t))) \<and>
    (IOCHANNELREFERENCEVALUE_ISALPHAUPPER (hd (flag_text t)) \<longleftrightarrow> (\<exists>n. t = FlagName n))"
  proof (cases t)
    case (FlagName n)
    then have "n \<in> fst ` set flags" using assms(2) by simp
    then have "n \<noteq> [] \<and> IOCHANNELREFERENCEVALUE_ISALPHAUPPER (hd (ascii n)) \<and> (\<forall>c \<in> set (ascii n). IOCHANNELREFERENCEVALUE_ISADMITTED c)"
      using assms(1) unfolding flags_ok_def by blast
    then show ?thesis using FlagName by (simp add: ascii_def)
  next
    case (FlagNumber nt i)
    have "hd (number_text nt i) \<in> set (number_text nt i)" using number_text_chars(2) by simp
    then show ?thesis using FlagNumber number_text_chars [of nt i] by auto
  qed
  with a show "flag_text t \<noteq> []" "\<forall>c \<in> set (flag_text t). c \<noteq> 0 \<and> \<not> space c \<and> IOCHANNELREFERENCEVALUE_ISADMITTED c"
    "IOCHANNELREFERENCEVALUE_ISALPHAUPPER (hd (flag_text t)) \<or> IOCHANNELREFERENCEVALUE_ISDIGIT (hd (flag_text t)) \<or> IOCHANNELREFERENCEVALUE_ISSIGN (hd (flag_text t))"
    "IOCHANNELREFERENCEVALUE_ISALPHAUPPER (hd (flag_text t)) \<longleftrightarrow> (\<exists>n. t = FlagName n)"
    by blast+
qed

text \<open>Where the loop is behind a term: at the end, or at the operator of the next item.\<close>

lemma flag_evaluated:
  assumes "flags_ok flags" and "flag_known flags t"
  shows "\<exists>temp'. peek (flag_text t @ [0]) (\<lambda>b. if IOCHANNELREFERENCEVALUE_ISALPHAUPPER b
      then obind (flag_of flags (flag_text t @ [0])) (\<lambda>flag. Ok (temp,
             case flag of None \<Rightarrow> None | Some v \<Rightarrow> Some (IOCHANNELREFERENCEVALUE_GETACCESSFLAG mode op v)))
      else obind (IOChannelReferenceValue_stringToNumber (flag_text t @ [0]) Int_type) (\<lambda>r.
           let temp = (case r of None \<Rightarrow> temp | Some i \<Rightarrow> Some (word_of_int i)) in
           case temp of None \<Rightarrow> Fault
           | Some v \<Rightarrow> Ok (temp, Some (IOCHANNELREFERENCEVALUE_GETACCESSFLAG mode op v)))) =
    Ok (temp', Some (IOCHANNELREFERENCEVALUE_GETACCESSFLAG mode op (flag_value flags t)))"
proof -
  note c = flag_text_chars [OF assms]
  obtain b bs where b: "flag_text t = b # bs" using c(1) by (cases "flag_text t") auto
  show ?thesis
  proof (cases t)
    case (FlagName n)
    have z: "\<forall>n \<in> fst ` set flags. 0 \<notin> set (ascii n)"
      using assms(1) flag_text_chars(2) [OF assms(1), of "FlagName n" for n] by fastforce
    obtain v where "map_of flags n = Some v" using assms(2) FlagName by (auto dest: weak_map_of_SomeI)
    moreover have "0 \<notin> set (ascii n)" using z assms(2) FlagName by (simp only: flag_known.simps) blast
    ultimately have "flag_of flags (flag_text t @ [0]) = Ok (Some (flag_value flags t))" using flag_of_ok [OF z] FlagName by simp
    moreover have "IOCHANNELREFERENCEVALUE_ISALPHAUPPER b" using c(4) FlagName b by simp
    ultimately show ?thesis unfolding b append_Cons by (intro exI [of _ temp]) (simp add: peek_Cons b)
  next
    case (FlagNumber nt i)
    then have "IOChannelReferenceValue_stringToNumber (flag_text t @ [0]) Int_type = Ok (Some i)" using stringToNumber_ok assms(2) by simp
    moreover have "\<not> IOCHANNELREFERENCEVALUE_ISALPHAUPPER b" using c(4) FlagNumber b by simp
    ultimately show ?thesis unfolding b append_Cons by (intro exI [of _ "Some (word_of_int i)"]) (simp add: peek_Cons b FlagNumber)
  qed
qed

lemma access_turn:
  assumes "flags_ok flags" and "flag_known flags t" and "\<forall>c \<in> set (sp @ sp'). space c" and "0 < mem" and "e \<in> {0, 124, 38, 94}"
  shows "\<exists>temp'. access_flags (Suc n) flags (sp @ flag_text t @ sp' @ e # es) op temp mode mem =
    (if e = 0 then access_flags n flags (e # es) e temp' (IOCHANNELREFERENCEVALUE_GETACCESSFLAG mode op (flag_value flags t)) (mem - 1)
     else obind (IOCHANNELREFERENCEVALUE_SKIPSPACES es) (\<lambda>s. peek s (\<lambda>c. if c = 0 then Ok (-1, mem - 1)
       else access_flags n flags s e temp' (IOCHANNELREFERENCEVALUE_GETACCESSFLAG mode op (flag_value flags t)) (mem - 1))))"
proof -
  note c = flag_text_chars [OF assms(1,2)]
  obtain b bs where b: "flag_text t = b # bs" using c(1) by (cases "flag_text t") auto
  have b': "b \<noteq> 0" "\<not> space b" "IOCHANNELREFERENCEVALUE_ISALPHAUPPER b \<or> IOCHANNELREFERENCEVALUE_ISDIGIT b \<or> IOCHANNELREFERENCEVALUE_ISSIGN b"
    using c(2,3) b by simp_all
  have e: "\<not> space e" "e \<noteq> 0 \<Longrightarrow> \<not> IOCHANNELREFERENCEVALUE_ISADMITTED e" using assms(5) by (auto simp: ref_class_defs)
  have skip: "SERIALIZEREFERENCEVALUE_SKIPSPACES (sp @ flag_text t @ sp' @ e # es) = Ok (flag_text t @ sp' @ e # es)"
    using skip_ok [of sp b "bs @ sp' @ e # es"] assms(3) b b'(2) by simp
  have skip': "SERIALIZEREFERENCEVALUE_SKIPSPACES (sp' @ e # es) = Ok (e # es)" "SERIALIZEREFERENCEVALUE_SKIPSPACES (e # es) = Ok (e # es)"
    using skip_ok [of sp' e es] skip_ok [of "[]" e es] assms(3) e(1) by simp_all
  obtain d ds where d: "sp' @ e # es = d # ds" "d = 0 \<or> space d \<or> \<not> IOCHANNELREFERENCEVALUE_ISADMITTED d"
    using assms(3) e(2) by (cases sp') auto
  have tok: "IOCHANNELREFERENCEVALUE_GETTOKEN IOCHANNELREFERENCEVALUE_ISADMITTED (flag_text t @ sp' @ e # es) mem = Ok (flag_text t @ [0], sp' @ e # es, mem - 1)"
    unfolding d(1) using ref_gettoken [OF c(1,2) d(2) assms(4)] .
  obtain temp' where v: "peek (flag_text t @ [0]) (\<lambda>b. if IOCHANNELREFERENCEVALUE_ISALPHAUPPER b
      then obind (flag_of flags (flag_text t @ [0])) (\<lambda>flag. Ok (temp,
             case flag of None \<Rightarrow> None | Some v \<Rightarrow> Some (IOCHANNELREFERENCEVALUE_GETACCESSFLAG mode op v)))
      else obind (IOChannelReferenceValue_stringToNumber (flag_text t @ [0]) Int_type) (\<lambda>r.
           let temp = (case r of None \<Rightarrow> temp | Some i \<Rightarrow> Some (word_of_int i)) in
           case temp of None \<Rightarrow> Fault
           | Some v \<Rightarrow> Ok (temp, Some (IOCHANNELREFERENCEVALUE_GETACCESSFLAG mode op v)))) =
    Ok (temp', Some (IOCHANNELREFERENCEVALUE_GETACCESSFLAG mode op (flag_value flags t)))"
    using flag_evaluated [OF assms(1,2)] by blast
  obtain a as where a: "sp @ flag_text t @ sp' @ e # es = a # as" "a \<noteq> 0"
    using assms(3) b b'(1) by (cases sp) (auto simp: char_class_defs)
  have p: "peek (sp @ flag_text t @ sp' @ e # es) k = k a" "peek (flag_text t @ sp' @ e # es) k = k b" "peek (e # es) k = k e"
    for k :: "byte \<Rightarrow> (uint32 \<times> nat) outcome"
    unfolding a(1) by (simp_all add: peek_Cons b)
  have dr: "drop 1 (e # es) = es" by simp
  show ?thesis
    unfolding access_flags.simps(2) p skip [folded ref_space(2)] obind.simps skip' [folded ref_space(2)] tok v prod.case option.case p dr IOCHANNELREFERENCEVALUE_EOF_def
    using a(2) b'(1,3) assms(5) by (intro exI [of _ temp']) auto
qed

lemma access_items:
  assumes "flags_ok flags" and "flag_known flags t" and "\<forall>x \<in> set ts. item_known flags x" and "\<forall>c \<in> set (sp @ sp'). space c" and "length ts < mem"
  shows "access_flags (Suc (Suc (length ts + n))) flags (sp @ flag_text t @ sp' @ concat (map item_layout ts) @ [0]) op temp mode mem =
    Ok (foldl (apply_item flags) (IOCHANNELREFERENCEVALUE_GETACCESSFLAG mode op (flag_value flags t)) ts, mem - Suc (length ts))"
  using assms(2-5)
proof (induction ts arbitrary: t sp sp' op temp mode mem)
  case Nil
  obtain temp' where "access_flags (Suc (Suc n)) flags (sp @ flag_text t @ sp' @ 0 # []) op temp mode mem =
      access_flags (Suc n) flags [0] 0 temp' (IOCHANNELREFERENCEVALUE_GETACCESSFLAG mode op (flag_value flags t)) (mem - 1)"
    using access_turn [OF assms(1) Nil(1,3), of mem 0 "Suc n" "[]" op temp mode] Nil(4) by auto
  then show ?case by (simp add: peek_Cons IOCHANNELREFERENCEVALUE_EOF_def del: access_flags.simps) (simp add: peek_Cons IOCHANNELREFERENCEVALUE_EOF_def)
next
  case (Cons x ts)
  obtain o' s1 u s2 where x: "x = (o', s1, u, s2)" by (cases x) auto
  have k: "o' \<in> {124, 38, 94}" "flag_known flags u" "\<forall>c \<in> set (s1 @ s2). space c" using Cons.prems(2) by (auto simp: x item_known_def)
  obtain b bs where b: "flag_text u = b # bs" "b \<noteq> 0" "\<not> space b" using flag_text_chars(1,2) [OF assms(1) k(2)] by (cases "flag_text u") auto
  let ?rest = "flag_text u @ s2 @ concat (map item_layout ts) @ [0]"
  have s: "IOCHANNELREFERENCEVALUE_SKIPSPACES (s1 @ ?rest) = Ok ?rest"
    using skip_ok [of s1 b "bs @ s2 @ concat (map item_layout ts) @ [0]"] k(3) b by (simp add: ref_space)
  obtain temp' where t: "access_flags (Suc (Suc (length (x # ts) + n))) flags (sp @ flag_text t @ sp' @ o' # (s1 @ ?rest)) op temp mode mem =
      obind (IOCHANNELREFERENCEVALUE_SKIPSPACES (s1 @ ?rest)) (\<lambda>s. peek s (\<lambda>c. if c = 0 then Ok (-1, mem - 1)
       else access_flags (Suc (Suc (length ts + n))) flags s o' temp' (IOCHANNELREFERENCEVALUE_GETACCESSFLAG mode op (flag_value flags t)) (mem - 1)))"
    using access_turn [OF assms(1) Cons.prems(1,3), of mem o' "Suc (Suc (length ts + n))" "s1 @ ?rest" op temp mode] k(1) Cons.prems(4) by auto
  have "access_flags (Suc (Suc (length ts + n))) flags ([] @ flag_text u @ s2 @ concat (map item_layout ts) @ [0]) o' temp'
      (IOCHANNELREFERENCEVALUE_GETACCESSFLAG mode op (flag_value flags t)) (mem - 1) =
    Ok (foldl (apply_item flags) (IOCHANNELREFERENCEVALUE_GETACCESSFLAG (IOCHANNELREFERENCEVALUE_GETACCESSFLAG mode op (flag_value flags t)) o' (flag_value flags u)) ts,
      mem - 1 - Suc (length ts))"
    using Cons.prems(2,4) k(2,3) by (intro Cons.IH) auto
  moreover have "IOCHANNELREFERENCEVALUE_GETACCESSFLAG v o' (flag_value flags u) = apply_item flags v x" for v
    using k(1) by (auto simp: x apply_item_def IOCHANNELREFERENCEVALUE_GETACCESSFLAG_def)
  moreover have "peek ?rest k = k b" for k :: "byte \<Rightarrow> (uint32 \<times> nat) outcome" unfolding b(1) by (simp add: peek_Cons)
  ultimately have "access_flags (Suc (Suc (length (x # ts) + n))) flags (sp @ flag_text t @ sp' @ o' # (s1 @ ?rest)) op temp mode mem =
    Ok (foldl (apply_item flags) (apply_item flags (IOCHANNELREFERENCEVALUE_GETACCESSFLAG mode op (flag_value flags t)) x) ts, mem - 1 - Suc (length ts))"
    unfolding t s using b(2) by simp
  moreover have "item_layout x = o' # s1 @ flag_text u @ s2" by (simp add: x item_layout_def)
  ultimately show ?case by (simp del: access_flags.simps)
qed

lemma items_fuel:
  assumes "flag_text t \<noteq> []"
  obtains n where "length (sp @ flag_text t @ sp' @ concat (map item_layout ts) @ [0 :: byte]) = Suc (Suc (length ts + n))"
proof -
  have "length ts \<le> length (concat (map item_layout ts))" by (induction ts) (auto simp: item_layout_def split: prod.splits)
  moreover have "0 < length (flag_text t)" using assms by simp
  ultimately show thesis
    by (intro that [of "length sp + length (flag_text t) + length sp' + length (concat (map item_layout ts)) + 1 - Suc (Suc (length ts))"])
      (simp del: length_greater_0_conv)
qed

subsection \<open>Properties of the parser\<close>

lemma ref_fuel:
  assumes "\<forall>q \<in> set ps. ref_pair q"
  obtains n where "length (sp @ concat (map pair_layout ps) @ [0 :: byte]) = length ps + Suc n"
proof -
  have "length ps \<le> length (concat (map pair_layout ps))"
    using assms
  proof (induction ps)
    case (Cons q ps)
    then have "ref_pair q" by simp
    then obtain d ds where "pair_layout q = d # ds" by (rule ref_pair_chars)
    with Cons show ?case by simp
  qed simp
  then show thesis by (intro that [of "length sp + length (concat (map pair_layout ps)) - length ps"]) simp
qed

text \<open>The vector that the parser makes.\<close>

lemma parsed:
  assumes "heap_ok (is_heap w)" and "ps \<noteq> []" and "\<forall>q \<in> set ps. ref_pair q" and "\<forall>c \<in> set sp. space c" and "3 * length ps < is_mem w"
  obtains p xs w' where "IOChannelReferenceValue_parseReferenceValue (sp @ concat (map pair_layout ps) @ [0]) w =
      Ok (int (length (pairs_of ps [])), Some (xs @ [0]), w')"
    "ir_list (with_strings (repeats {} ps) w) (w'\<lparr>is_vectors := is_vectors w\<rparr>) p xs (pairs_of ps [])"
    "is_vectors w' = add_mset (xs @ [0]) (is_vectors w)"
proof -
  have i: "ir_list w w 0 [] []" using assms(1) by (simp add: ir_list_def)
  obtain n where n: "length (sp @ concat (map pair_layout ps) @ [0]) = length ps + Suc n" using ref_fuel [OF assms(3)] .
  have m: "3 * length ps \<le> is_mem w" using assms(5) by simp
  obtain p xs w' sp' held where r: "parse_loop (length ps + Suc n) (sp @ concat (map pair_layout ps) @ [0]) 0 0 w = parse_loop (Suc n) (sp' @ [0]) held p w'"
    "ir_list (with_strings (repeats {} ps) w) w' p xs (pairs_of ps [])" "\<forall>c \<in> set sp'. space c" "is_mem w \<le> is_mem w' + 3 * length ps"
    using parse_loop_pairs [OF i assms(3,4) m, of "Suc n" "[0]" 0] by auto
  note loop = r(1) [unfolded parse_loop_end [OF r(3)]]
  have l: "lseg ir_next (cells (is_heap w')) p xs 0" "length xs = length (pairs_of ps [])"
    using r(2) by (auto simp: ir_list_def dest: list_all2_lengthD)
  obtain q qs where "ps = qs @ [q]" using assms(2) by (cases ps rule: rev_cases) auto
  then have ne: "xs \<noteq> []" using l(2) by (auto simp: pairs_of_def)
  then have "p \<noteq> 0" using l(1) by (cases xs) auto
  then have "IOChannelReferenceValue_parseReferenceValue (sp @ concat (map pair_layout ps) @ [0]) w =
      Ok (int (length (pairs_of ps [])), Some (xs @ [0]), w'\<lparr>is_vectors := add_mset (xs @ [0]) (is_vectors w'), is_mem := is_mem w' - 1\<rparr>)"
    unfolding IOChannelReferenceValue_parseReferenceValue_def n loop
    using listToVector_ok [OF r(2) ne] r(4) assms(5) l(2) by simp
  with r(2) show thesis
    by (intro that [of xs "w'\<lparr>is_vectors := add_mset (xs @ [0]) (is_vectors w'), is_mem := is_mem w' - 1\<rparr>" p]) (simp_all add: ir_list_def)
qed

lemma ir_list_parts:
  assumes "ir_list w0 (w\<lparr>is_vectors := V\<rparr>) p xs kvs"
  shows "list_all2 (\<lambda>x kv. \<exists>c. cells (is_heap w) x = Some c \<and> ir_holds c kv) xs kvs" "0 \<notin> set xs" "distinct xs"
    "\<forall>x. (if x \<in> set xs then None else cells (is_heap w) x) = cells (is_heap w0) x"
    "is_strings w = ir_strings kvs + is_strings w0"
proof -
  have l: "lseg ir_next (cells (is_heap w)) p xs 0" using assms by (simp add: ir_list_def)
  show "0 \<notin> set xs" using lseg_nonnull [OF l, of 0] by auto
  show "distinct xs" using l by (rule lseg_distinct)
qed (use assms in \<open>auto simp: ir_list_def\<close>)

text \<open>C39: Parsing a text of pairs gives a vector with one element for each reference, in the order in which they come first and with its last value, and each value
  is found under its reference, whether that is written in capital or small letters: the last one of a repeated reference, and the
  first one when references differ only in their letters. Releasing the vector releases the elements, their strings and the vector. What
  remains of the blocks that the parser has allocated is one string for each time that the text repeats a reference: the buffer of the
  repeated reference, which the list does not take over. So nothing remains if and only if no reference is repeated.\<close>

theorem parseReferenceValue_reads_pairs:
  assumes "heap_ok (is_heap w)" and "ps \<noteq> []" and "\<forall>q \<in> set ps. ref_pair q" and "\<forall>c \<in> set sp. space c" and "3 * length ps < is_mem w"
  shows "\<exists>vect w'. IOChannelReferenceValue_parseReferenceValue (sp @ concat (map pair_layout ps) @ [0]) w =
      Ok (int (length (pairs_of ps [])), Some vect, w') \<and>
    (\<exists>xs. vect = xs @ [0] \<and> list_all2 (\<lambda>x kv. \<exists>c. cells (is_heap w') x = Some c \<and> ir_holds c kv) xs (pairs_of ps [])) \<and>
    (\<forall>r. 0 \<notin> set r \<longrightarrow> IOChannelReferenceValue_getString vect (r @ [0]) w' =
       Ok (case value_under r (pairs_of ps []) of None \<Rightarrow> Null | Some v \<Rightarrow> Own (v @ [0]))) \<and>
    (\<exists>w''. IOChannelReferenceValue_freeReferenceValueVector vect w' = Ok w'' \<and> cells (is_heap w'') = cells (is_heap w) \<and>
       is_vectors w'' = is_vectors w \<and> is_strings w'' = mset (map (\<lambda>r. r @ [0]) (repeated {} ps)) + is_strings w \<and>
       (is_strings w'' = is_strings w \<longleftrightarrow> distinct (map pt_ref ps)))"
proof -
  obtain p xs w' where r: "IOChannelReferenceValue_parseReferenceValue (sp @ concat (map pair_layout ps) @ [0]) w =
      Ok (int (length (pairs_of ps [])), Some (xs @ [0]), w')"
      "ir_list (with_strings (repeats {} ps) w) (w'\<lparr>is_vectors := is_vectors w\<rparr>) p xs (pairs_of ps [])"
      "is_vectors w' = add_mset (xs @ [0]) (is_vectors w)"
    using parsed [OF assms] .
  note l = ir_list_parts [OF r(2)]
  have "\<exists>w''. IOChannelReferenceValue_freeReferenceValueVector (xs @ [0]) w' = Ok w'' \<and> cells (is_heap w'') = cells (is_heap w) \<and>
      is_vectors w'' = is_vectors w \<and> is_strings w'' = mset (map (\<lambda>r. r @ [0]) (repeated {} ps)) + is_strings w \<and>
      (is_strings w'' = is_strings w \<longleftrightarrow> distinct (map pt_ref ps))"
    using free_elements_ok [OF l(1-3,5)] l(4) r(3) repeated_none [of "{}" ps]
    by (simp add: IOChannelReferenceValue_freeReferenceValueVector_def fun_eq_iff repeats_def)
  with r(1) l(1) getvalue_ok [OF l(1,2)] show ?thesis
    by (intro exI [of _ "xs @ [0]"] exI [of _ w']) (simp add: IOChannelReferenceValue_getString_def)
qed

theorem parseReferenceValue_reads_pairs_witness:
  "\<exists>vect w'. IOChannelReferenceValue_parseReferenceValue (ascii ''a='1' mode = R a = '27' '' @ [0])
      \<lparr>is_heap = empty_heap, is_strings = {#}, is_vectors = {#}, is_mem = 10\<rparr> = Ok (2, Some vect, w') \<and>
    IOChannelReferenceValue_getString vect (ascii ''MODE'' @ [0]) w' = Ok (Own (ascii ''R'' @ [0])) \<and>
    IOChannelReferenceValue_getString vect (ascii ''a'' @ [0]) w' = Ok (Own (ascii ''27'' @ [0])) \<and>
    IOChannelReferenceValue_getString vect (ascii ''b'' @ [0]) w' = Ok Null \<and>
    (\<exists>w''. IOChannelReferenceValue_freeReferenceValueVector vect w' = Ok w'' \<and> cells (is_heap w'') = Map.empty \<and> is_vectors w'' = {#} \<and>
      is_strings w'' = {#ascii ''a'' @ [0]#})"
proof -
  let ?w = "\<lparr>is_heap = empty_heap, is_strings = {#}, is_vectors = {#}, is_mem = 10\<rparr>"
  let ?ps = "[PairText (ascii ''a'') [] [] True (ascii ''1'') [32], PairText (ascii ''mode'') [32] [32] False (ascii ''R'') [32],
    PairText (ascii ''a'') [32] [32] True (ascii ''27'') [32]]"
  have ok: "\<forall>q \<in> set ?ps. ref_pair q" by (simp add: ref_pair_def ascii_def ref_class_defs)
  have t: "[] @ concat (map pair_layout ?ps) @ [0] = ascii ''a='1' mode = R a = '27' '' @ [0]" by (simp add: pair_layout_def ascii_def)
  have kvs: "pairs_of ?ps [] = [(ascii ''a'', ascii ''27''), (ascii ''mode'', ascii ''R'')]" by (simp add: pairs_of_def ascii_def)
  have rep: "repeated {} ?ps = [ascii ''a'']" by (simp add: ascii_def)
  have z: "0 \<notin> set (ascii ''MODE'')" "0 \<notin> set (ascii ''a'')" "0 \<notin> set (ascii ''b'')" by (simp_all add: ascii_def)
  have u: "value_under (ascii ''MODE'') (pairs_of ?ps []) = Some (ascii ''R'')" "value_under (ascii ''a'') (pairs_of ?ps []) = Some (ascii ''27'')"
    "value_under (ascii ''b'') (pairs_of ?ps []) = None"
    unfolding kvs by (simp_all add: value_under_def ascii_def lower_char_def)
  have "heap_ok (is_heap ?w)" "?ps \<noteq> []" "\<forall>c \<in> set []. space c" "3 * length ?ps < is_mem ?w" by simp_all
  from parseReferenceValue_reads_pairs [OF this(1,2) ok this(3,4)] obtain vect w' where
    r: "IOChannelReferenceValue_parseReferenceValue (ascii ''a='1' mode = R a = '27' '' @ [0]) ?w = Ok (int (length (pairs_of ?ps [])), Some vect, w')"
      "\<And>r. 0 \<notin> set r \<Longrightarrow> IOChannelReferenceValue_getString vect (r @ [0]) w' =
        Ok (case value_under r (pairs_of ?ps []) of None \<Rightarrow> Null | Some v \<Rightarrow> Own (v @ [0]))"
      "\<exists>w''. IOChannelReferenceValue_freeReferenceValueVector vect w' = Ok w'' \<and> cells (is_heap w'') = cells (is_heap ?w) \<and>
        is_vectors w'' = is_vectors ?w \<and> is_strings w'' = mset (map (\<lambda>r. r @ [0]) (repeated {} ?ps)) + is_strings ?w"
    unfolding t by blast
  have "int (length (pairs_of ?ps [])) = 2" unfolding kvs by simp
  with r(1) r(2) [OF z(1)] r(2) [OF z(2)] r(2) [OF z(3)] r(3) [unfolded rep] show ?thesis
    unfolding u by (intro exI [of _ vect] exI [of _ w']) (simp add: empty_heap_def)
qed

subsection \<open>Properties of numbers and flags\<close>

text \<open>A number of a parsed text, in any notation, is read back by the function of a type that can hold it.\<close>

definition get_number :: "IOChannelReferenceValueAllowedType \<Rightarrow> nat list \<Rightarrow> byte list \<Rightarrow> irs \<Rightarrow> int outcome" where
  "get_number type = (case type of Int_type \<Rightarrow> IOChannelReferenceValue_getInt | UInt_type \<Rightarrow> IOChannelReferenceValue_getUInt
     | Long_type \<Rightarrow> IOChannelReferenceValue_getLong | ULong_type \<Rightarrow> IOChannelReferenceValue_getULong)"

lemma get_number_reads_back:
  assumes "heap_ok (is_heap w)" and "ps \<noteq> []" and "\<forall>q \<in> set ps. ref_pair q" and "\<forall>c \<in> set sp. space c" and "3 * length ps < is_mem w"
    and "0 \<notin> set r" and "value_under r (pairs_of ps []) = Some (number_text nt i)" and "type_holds type i"
  shows "\<exists>n vect w'. IOChannelReferenceValue_parseReferenceValue (sp @ concat (map pair_layout ps) @ [0]) w = Ok (n, Some vect, w') \<and>
    get_number type vect (r @ [0]) w' = Ok i"
proof -
  obtain p xs w' where r: "IOChannelReferenceValue_parseReferenceValue (sp @ concat (map pair_layout ps) @ [0]) w =
      Ok (int (length (pairs_of ps [])), Some (xs @ [0]), w')"
      "ir_list (with_strings (repeats {} ps) w) (w'\<lparr>is_vectors := is_vectors w\<rparr>) p xs (pairs_of ps [])"
    using parsed [OF assms(1-5)] .
  have "get_number type (xs @ [0]) (r @ [0]) w' = IOChannelReferenceValue_getNumber (xs @ [0]) (r @ [0]) type w'"
    by (cases type) (simp_all add: get_number_def IOChannelReferenceValue_getInt_def IOChannelReferenceValue_getUInt_def
        IOChannelReferenceValue_getLong_def IOChannelReferenceValue_getULong_def)
  then have "get_number type (xs @ [0]) (r @ [0]) w' = Ok i"
    using getvalue_ok [OF ir_list_parts(1,2) [OF r(2)] assms(6)] stringToNumber_ok [OF assms(8)] assms(7)
    by (simp add: IOChannelReferenceValue_getNumber_def)
  with r(1) show ?thesis by blast
qed

text \<open>C40: The mode of an opening text is the value of its expression of names and numbers (decimal, octal or hexadecimal), with the
  operators \<^verbatim>\<open>|\<close>, \<^verbatim>\<open>&\<close> and \<^verbatim>\<open>^\<close> of C applied from left to right, whatever spaces are between them; so are the permissions.\<close>

theorem getAccessMode_evaluates:
  assumes "(getAccess, flags) \<in> {(IOChannelReferenceValue_getAccessMode, IOChannelDefaultAccessMode),
      (IOChannelReferenceValue_getAccessPermissions, IOChannelDefaultAccessPermissions)}"
    and "flag_known flags t" and "\<forall>x \<in> set ts. item_known flags x" and "\<forall>c \<in> set (sp @ sp'). space c" and "length ts < mem"
  shows "getAccess (sp @ flag_text t @ sp' @ concat (map item_layout ts) @ [0]) mem =
    Ok (foldl (apply_item flags) (flag_value flags t) ts, mem - Suc (length ts))"
proof -
  have f: "flags_ok flags" "getAccess v m = access_flags (length v) flags v 124 None 0 m" for v m
    using assms(1) default_flags_ok
    by (auto simp: IOChannelReferenceValue_getAccessMode_def IOChannelReferenceValue_getAccessPermissions_def)
  obtain n where n: "length (sp @ flag_text t @ sp' @ concat (map item_layout ts) @ [0]) = Suc (Suc (length ts + n))"
    using items_fuel [OF flag_text_chars(1) [OF f(1) assms(2)]] .
  have "IOCHANNELREFERENCEVALUE_GETACCESSFLAG 0 124 (flag_value flags t) = flag_value flags t"
    by (simp add: IOCHANNELREFERENCEVALUE_GETACCESSFLAG_def)
  then show ?thesis unfolding f(2) n access_items [OF f(1) assms(2-5)] by simp
qed

theorem getAccessMode_evaluates_witness:
  "IOChannelReferenceValue_getAccessMode (ascii ''IOCHANNEL_MODE_RW | 0x41 & IOCHANNEL_MODE_CREAT'' @ [0]) 5 = Ok (0x40, 2)"
proof -
  let ?t = "FlagName ''IOCHANNEL_MODE_RW''"
    and ?ts = "[(124, [32], FlagNumber Exadecimal 0x41, [32]), (38, [32], FlagName ''IOCHANNEL_MODE_CREAT'', [])]"
  have b: "number_text Exadecimal 0x41 = ascii ''0x41''"
    by (simp add: number_text_def based.simps [of 16] digit_char_def ascii_def)
  have t: "[] @ flag_text ?t @ [32] @ concat (map item_layout ?ts) @ [0] = ascii ''IOCHANNEL_MODE_RW | 0x41 & IOCHANNEL_MODE_CREAT'' @ [0]"
    unfolding item_layout_def by (simp add: b) (simp add: ascii_def)
  have k: "flag_known IOChannelDefaultAccessMode ?t" "\<forall>x \<in> set ?ts. item_known IOChannelDefaultAccessMode x"
    by (simp_all add: IOChannelDefaultAccessMode_def item_known_def type_holds_def char_class_defs)
  have v: "foldl (apply_item IOChannelDefaultAccessMode) (flag_value IOChannelDefaultAccessMode ?t) ?ts = 0x40"
    by (simp add: apply_item_def IOChannelDefaultAccessMode_def IOCHANNEL_MODE_RW_def IOCHANNEL_MODE_CREAT_def)
  have "\<forall>c \<in> set ([] @ [32]). space c" "length ?ts < 5" by (simp_all add: char_class_defs)
  from getAccessMode_evaluates [OF _ k this, of IOChannelReferenceValue_getAccessMode] show ?thesis unfolding t v by simp
qed

subsection \<open>Deviations\<close>

text \<open>A text without pairs aborts the process.\<close>

lemma parse_nothing_aborts:
  assumes "\<forall>c \<in> set sp. space c"
  shows "IOChannelReferenceValue_parseReferenceValue (sp @ [0]) w = Require"
  using parse_loop_end [OF assms, of "length sp"] by (simp add: IOChannelReferenceValue_parseReferenceValue_def del: parse_loop.simps)

text \<open>A number that breaks off leaves the variable for it unset, and the mode is made of it.\<close>

lemma broken_number_undefined: "0 < mem \<Longrightarrow> IOChannelReferenceValue_getAccessMode (ascii ''1+1'' @ [0]) mem = Fault"
  by (simp add: IOChannelReferenceValue_getAccessMode_def ascii_def peek_Cons IOCHANNELREFERENCEVALUE_EOF_def ref_class_defs ref_space
      SERIALIZEREFERENCEVALUE_SKIPSPACES_def SERIALIZEREFERENCEVALUE_EOF_def IOCHANNELREFERENCEVALUE_GETTOKEN_def ref_extract
      IOChannelReferenceValue_stringToNumber_def IOCHANNELREFERENCEVALUE_ISADMITTEDCHARCHECK_def Let_def)

end
