(* ===== verification/Spec2Isabelle.thy ===== *)
theory Spec2Isabelle
  imports MT_List_Correct MT_Queue_Correct Hash_Fun Hash_Table_Correct Hash_Iter Array_List_Correct IO_Streams_Correct
    Barrier_Correct Mem_X U_String_Correct Argv_Parser_Correct IO_Format_Correct Ser_Ref_Correct Ser_Correct
    Ser_Ascii Ser_Json_Correct Ser_Xml_Correct Base_Serialize_Correct IO_Ref_Correct IO_Scan_Correct
begin

text \<open>
  Verification of ToolBOSLib, the C library of base functions of the ToolBOS SDK (src/src). This
  development models the parts of the library that hold its own logic: containers, synchronisation,
  streams with formatted input and output, the serializer, strings and command lines.

  \<^bold>\<open>The program.\<close> The lowest layer (\<^verbatim>\<open>Any.h\<close>) gives assertions, allocation and logging. On it stand the containers
  (\<^verbatim>\<open>MTList\<close>, \<^verbatim>\<open>MTQueue\<close>, \<^verbatim>\<open>HashTable\<close>, \<^verbatim>\<open>ArrayList\<close>, the blocks \<^verbatim>\<open>MemX\<close>), which guard themselves with \<^verbatim>\<open>RWLock\<close>,
  \<^verbatim>\<open>Mutex\<close> and \<^verbatim>\<open>Cond\<close>. \<^verbatim>\<open>IOChannel\<close> is a buffered stream over a table of functions that each kind of stream
  provides. \<^verbatim>\<open>Serialize\<close> transfers values to and from such a stream through the table of functions of a format; its
  header is a list of reference value pairs (\<^verbatim>\<open>SerializeReferenceValue\<close>). A user's function describes a type once, for
  reading, writing and measuring.

  \<^bold>\<open>How code becomes definitions.\<close> A call returns an \<open>outcome\<close> (theory \<^verbatim>\<open>Prelude\<close>): \<open>Ok\<close> with the result and the new
  state, \<open>Require\<close> when an \<^verbatim>\<open>ANY_REQUIRE\<close> aborts the process, \<open>Fault\<close> for what C leaves undefined (null or
  dangling pointers, accesses outside of an array, signed overflow), \<open>Stuck\<close> for a call that never
  returns. Structs are records with the names of their fields behind a short prefix, pointers to an owned object
  have the type \<open>owned\<close> (\<open>Null\<close>, \<open>Dangling\<close>, \<open>Own x\<close>), shared linked blocks live in the store of \<^verbatim>\<open>Heap_Model\<close>. Allocation
  takes from a budget \<open>mem\<close>; when it is used up, it returns null as \<^verbatim>\<open>malloc\<close> may. Integers that wrap around are words
  (\<open>uint32\<close>, \<open>ulong\<close>, \<open>byte\<close>); the others are \<open>int\<close> with the checks written out. Log output is left out.

  \<^bold>\<open>The theories\<close>, each model in the first theory and its lemmas in the one with \<^verbatim>\<open>_Correct\<close>:
  \<^item> \<^verbatim>\<open>Prelude\<close>, \<^verbatim>\<open>Interfaces\<close>, \<^verbatim>\<open>Heap_Model\<close>: outcomes, the locales \<open>component\<close> (operations that keep an invariant and
    refine an abstract value, for single calls and for sequences of calls), and the store.
  \<^item> \<^verbatim>\<open>Locks\<close> (\<^verbatim>\<open>RWLock.c\<close>, \<^verbatim>\<open>Mutex.c\<close>, \<^verbatim>\<open>Cond.c\<close>): the wrappers around POSIX primitives, seen from the calling thread.
  \<^item> \<^verbatim>\<open>MT_List\<close> (\<^verbatim>\<open>MTList.c\<close>), \<^verbatim>\<open>MT_Queue\<close> (\<^verbatim>\<open>MTQueue.c\<close>), \<^verbatim>\<open>Array_List\<close> (\<^verbatim>\<open>ArrayList.c\<close>): refinement of lists and double-ended
    lists by all sequences of calls, release of everything by \<^verbatim>\<open>clear\<close>, iteration order, the blocking \<^verbatim>\<open>popWait\<close> under
    interference of other threads.
  \<^item> \<^verbatim>\<open>Hash_Fun\<close>, \<^verbatim>\<open>Hash_Table\<close>, \<^verbatim>\<open>Hash_Iter\<close> (\<^verbatim>\<open>HashTable.c\<close>, \<^verbatim>\<open>HashTableIterator.c\<close>): the three variants of the hash function agree and its
    mixing step is reversible; the table refines a map for every hash and equality that fit together; expansion
    keeps the entries; an iteration visits every entry once and ends.
  \<^item> \<^verbatim>\<open>Barrier\<close> (\<^verbatim>\<open>Barrier.c\<close>): the code of one thread and a step relation for any number of threads; they pass in rounds
    of the required number of calls, with and without spurious wake-ups.
  \<^item> \<^verbatim>\<open>Mem_X\<close> (\<^verbatim>\<open>MemX.c\<close>): the eight block types; programs that follow the types never abort or leave a block.
  \<^item> \<^verbatim>\<open>U_String\<close> (\<^verbatim>\<open>UString.c\<close>), \<^verbatim>\<open>Argv_Parser\<close> (\<^verbatim>\<open>ArgvParser.c\<close>): string functions against functions on lists of characters; the parser
    against a grammar of command lines.
  \<^item> \<^verbatim>\<open>IO_Channel\<close> (\<^verbatim>\<open>IOChannel.c\<close>), \<^verbatim>\<open>IO_Streams\<close> (\<^verbatim>\<open>IOChannelGenericMem.c\<close>, \<^verbatim>\<open>IOChannelMem.c\<close>, \<^verbatim>\<open>IOChannelNull.c\<close>, \<^verbatim>\<open>IOChannelCalc.c\<close>), \<^verbatim>\<open>IO_Format\<close>
    (\<^verbatim>\<open>IOChannel_printf\<close>, \<^verbatim>\<open>IOChannel_scanf\<close>): the locale \<open>stream\<close> is the contract of a table of functions, which memory, the null stream and
    the measuring stream provide; a memory channel is a file with a position; what is printed is the text of a reference
    function; quoted strings are read back.
  \<^item> \<^verbatim>\<open>Ser_Ref\<close> (\<^verbatim>\<open>SerializeReferenceValue.c\<close>), \<^verbatim>\<open>Ser_Core\<close>, \<^verbatim>\<open>Ser_Header\<close>, \<^verbatim>\<open>Ser_Type\<close>, \<^verbatim>\<open>Ser_Object\<close> (\<^verbatim>\<open>Serialize.c\<close>, \<^verbatim>\<open>Serialize.h\<close>),
    \<^verbatim>\<open>Ser_Binary\<close> (the binary part of \<^verbatim>\<open>SerializeFormats.c\<close>): the object, its header, formats, begin and end of types, and the transfer of
    values. A function of the user is a value of \<open>ser_prog\<close>, so that the jump out of it after an error has a frame to
    return to. \<^verbatim>\<open>Ser_Contents\<close>, \<^verbatim>\<open>Ser_Programs\<close>, \<^verbatim>\<open>Ser_Correct\<close>: the contracts of the stream and of the program, the round trip of any
    user's function through memory, and that measuring gives the length of what is written.
  \<^item> \<^verbatim>\<open>Ser_Text\<close>, \<^verbatim>\<open>Ser_Ascii\<close>, \<^verbatim>\<open>Ser_Json\<close>, \<^verbatim>\<open>Ser_Xml\<close> (the parts of \<^verbatim>\<open>SerializeFormats.c\<close> for these formats, and what
    they share): every function of a format, reading and writing. \<^verbatim>\<open>Ser_Text_Correct\<close> has the contract of a stream that takes
    texts, \<^verbatim>\<open>Ser_Machine\<close> the locale \<open>text_format\<close>: a machine that says of each call of a user's function which text passes, and the
    proof that a whole function does what the machine says. \<^verbatim>\<open>Ser_Values\<close> has the texts of values, \<^verbatim>\<open>Ser_Json_Correct\<close> and
    \<^verbatim>\<open>Ser_Xml_Correct\<close> the machines of two formats, with printers without state that give the same text. \<^verbatim>\<open>IO_Scan_Correct\<close> says
    how \<^verbatim>\<open>IOChannel_scanf\<close> takes a text apart (the relation \<open>scans\<close>).
  \<^item> \<^verbatim>\<open>IO_Ref\<close> (\<^verbatim>\<open>IOChannelReferenceValue.c\<close>): the parser of the text that describes a stream, its list and vector of pairs, and the
    readings of a value as text, number or expression of flags: a list of pairs that is written down is read back, with the
    last value of each key, releasing it leaves one string for each repeated key, and the flags are the fold of the operators over their values.
  \<^item> \<^verbatim>\<open>Base_Serialize\<close> (\<^verbatim>\<open>BaseSerialize.c\<close>, \<^verbatim>\<open>BBDMSerialize.c\<close>, the end of \<^verbatim>\<open>Serialize.c\<close>): the functions of the user that the library
    has for its own types. The locale \<open>portable\<close> says that such a function carries its values to a host with another byte
    order, and holds for numbers, arrays, structures and arrays of structures whose count is an \<^verbatim>\<open>int\<close>; the locale \<open>mem_block\<close> is the same for blocks of memory.

  \<^bold>\<open>Properties.\<close> The theorems under the texts C1 to C40 are the properties. They are about the code as it is: where the code does
  not do what its documentation says, the theorem says what it does, and the deviation is listed with the findings
  of the manifest.

  \<^bold>\<open>Bounds and fuel.\<close> Loops over linked blocks take the fuel \<open>brk\<close>, the first address never allocated: a chain that ends visits
  every block at most once, so it is enough, and a chain that does not end is \<open>Stuck\<close>. Loops over strings take the
  string itself. Loops over a stream that may go on (a number in the input, skipping of blanks) take fuel from the
  input that is left. The rounds in which an object is serialized (\<open>se_rounds\<close>) are fuel for begin and end; two are enough. They also bound the scanning
  of a format and the characters of a string in Xml, each turn of which takes a character of the input.
  \<open>drain\<close> in \<^verbatim>\<open>Argv_Parser_Correct\<close> takes one step more than there are arguments. The theorems show that these bounds
  suffice: their results are \<open>Ok\<close>.

  \<^bold>\<open>Not modelled.\<close> Streams, sockets, files, threads and loaders of the operating system (\<^verbatim>\<open>IOChannelFd.c\<close> and its
  relatives, \<^verbatim>\<open>BerkeleySocket*.c\<close>, \<^verbatim>\<open>FileSystem.c\<close>, \<^verbatim>\<open>Threads.c\<close>, \<^verbatim>\<open>DynamicLoader.c\<close>), which hand their arguments to system calls;
  signal handling and logging (\<^verbatim>\<open>Traps.c\<close>, \<^verbatim>\<open>AnyLog.c\<close>); kernels on floating point numbers (\<^verbatim>\<open>Base*.c\<close>, \<^verbatim>\<open>BBDM.c\<close>); the digits of floating point
  numbers and of pointers, which are arguments of the formatted output; third-party declarations (src/external) and the
  C++ templates. Also left out are the formats Matlab and Python of \<^verbatim>\<open>SerializeFormats.c\<close>, \<^verbatim>\<open>PQueue.c\<close> and \<^verbatim>\<open>WorkQueue.c\<close>.
\<close>

end
